(* ===== verification/Prelude.thy ===== *)
theory Prelude
  imports Main "HOL-Library.AList" "HOL-Library.List_Lexorder" "HOL-Library.Char_ord" "HOL-Library.Sublist"
begin

text \<open>
  What every component shares: results and operations that may fail, byte strings with the
  string functions of the Rust standard library that the source calls, ordered maps, and the
  integer limits. A Rust \<open>String\<close> is its UTF-8 bytes, so a \<open>string\<close> here is a list of
  bytes (\<open>char\<close>) and \<open>length\<close> is Rust's \<open>len()\<close>. An unsigned 64-bit value is a \<open>nat\<close>
  and a signed one (an SQLite column) an \<open>int\<close>, with every range check and conversion of the
  source written out.
\<close>

named_theorems op_simps \<open>unfolding of the operation combinators\<close>
named_theorems pres_intros \<open>rules that split the preservation of a predicate by an operation\<close>

type_synonym bytes = string

section \<open>Results and operations\<close>

text \<open>
  An \<open>anyhow::Error\<close> is a label that tells the failing check. The two errors that a caller
  downcasts (\<open>DirectoryConflict\<close>, \<open>InvalidUploadContent\<close>) are constructors of their own, and so is
  the failure of an HTTP transfer that may be tried again, with the delay the server asked for.
\<close>

datatype error =
    Bail string
  | DirectoryConflict
  | InvalidUploadContent string
  | RetryableHttp string "nat option"

type_synonym 'a res = "error + 'a"
type_synonym ('s, 'a) op = "'s \<Rightarrow> 'a res \<times> 's"

text \<open>The combinators also serve the handlers, whose errors are HTTP answers.\<close>

type_synonym ('e, 's, 'a) eop = "'s \<Rightarrow> ('e + 'a) \<times> 's"

definition ensure :: "bool \<Rightarrow> string \<Rightarrow> unit res" where
  "ensure c msg = (if c then Inr () else Inl (Bail msg))"

definition andthen :: "'e + 'a \<Rightarrow> ('a \<Rightarrow> 'e + 'b) \<Rightarrow> 'e + 'b" where
  "andthen r f = (case r of Inl e \<Rightarrow> Inl e | Inr x \<Rightarrow> f x)"

definition is_ok :: "'e + 'a \<Rightarrow> bool" where
  "is_ok r = (case r of Inl _ \<Rightarrow> False | Inr _ \<Rightarrow> True)"

definition of_option :: "string \<Rightarrow> 'a option \<Rightarrow> 'a res" where
  "of_option msg x = (case x of None \<Rightarrow> Inl (Bail msg) | Some v \<Rightarrow> Inr v)"

definition retn :: "'a \<Rightarrow> ('e, 's, 'a) eop" where
  "retn x s = (Inr x, s)"

definition fails :: "'e \<Rightarrow> ('e, 's, 'a) eop" where
  "fails e s = (Inl e, s)"

definition bindo :: "('e, 's, 'a) eop \<Rightarrow> ('a \<Rightarrow> ('e, 's, 'b) eop) \<Rightarrow> ('e, 's, 'b) eop" where
  "bindo m f s = (case m s of (Inl e, t) \<Rightarrow> (Inl e, t) | (Inr x, t) \<Rightarrow> f x t)"

definition lifto :: "'e + 'a \<Rightarrow> ('e, 's, 'a) eop" where
  "lifto r s = (r, s)"

definition readso :: "('s \<Rightarrow> 'e + 'a) \<Rightarrow> ('e, 's, 'a) eop" where
  "readso f s = (f s, s)"

definition modifyo :: "('s \<Rightarrow> 's) \<Rightarrow> ('e, 's, unit) eop" where
  "modifyo f s = (Inr (), f s)"

fun for_each :: "('a \<Rightarrow> ('e, 's, unit) eop) \<Rightarrow> 'a list \<Rightarrow> ('e, 's, unit) eop" where
  "for_each f [] = retn ()"
| "for_each f (x # xs) = bindo (f x) (\<lambda>_. for_each f xs)"

fun check_each :: "('a \<Rightarrow> unit res) \<Rightarrow> 'a list \<Rightarrow> unit res" where
  "check_each f [] = Inr ()"
| "check_each f (x # xs) = andthen (f x) (\<lambda>_. check_each f xs)"

lemma ensure_simps [simp]:
  "ensure True msg = Inr ()" "ensure False msg = Inl (Bail msg)"
  "ensure c msg = Inr u \<longleftrightarrow> c"
  "ensure c msg = Inl e \<longleftrightarrow> \<not> c \<and> e = Bail msg"
  by (auto simp: ensure_def)

lemma andthen_simps [simp]:
  "andthen (Inl e) f = Inl e" "andthen (Inr x) f = f x"
  by (auto simp: andthen_def)

lemma andthen_Inr: "andthen r f = Inr y \<longleftrightarrow> (\<exists>x. r = Inr x \<and> f x = Inr y)"
  by (cases r) auto

lemma andthen_Inl: "andthen r f = Inl e \<longleftrightarrow> r = Inl e \<or> (\<exists>x. r = Inr x \<and> f x = Inl e)"
  by (cases r) auto

lemma is_ok_simps [simp]: "is_ok (Inl e) = False" "is_ok (Inr x) = True"
  by (auto simp: is_ok_def)

lemma is_ok_ensure [simp]: "is_ok (ensure c msg) = c"
  by (simp add: ensure_def)

lemma is_ok_iff: "is_ok r \<longleftrightarrow> (\<exists>x. r = Inr x)"
  by (cases r) auto

lemma is_ok_andthen: "is_ok (andthen r f) \<longleftrightarrow> (\<exists>x. r = Inr x \<and> is_ok (f x))"
  by (cases r) auto

lemma of_option_simps [simp]:
  "of_option msg None = Inl (Bail msg)" "of_option msg (Some v) = Inr v"
  "of_option msg x = Inr v \<longleftrightarrow> x = Some v"
  by (auto simp: of_option_def split: option.splits)

lemma unit_res_Inr: "(r = Inr (u :: unit)) \<longleftrightarrow> is_ok r"
  by (cases r) auto

lemma check_each_ok: "is_ok (check_each f xs) \<longleftrightarrow> (\<forall>x \<in> set xs. is_ok (f x))"
proof (induction xs)
  case Nil
  then show ?case by simp
next
  case (Cons x xs)
  then show ?case by (cases "f x") auto
qed

lemmas op_defs [op_simps] = retn_def fails_def lifto_def readso_def modifyo_def

lemma bindo_Inl [op_simps]: "m s = (Inl e, t) \<Longrightarrow> bindo m f s = (Inl e, t)"
  by (simp add: bindo_def)

lemma bindo_Inr [op_simps]: "m s = (Inr x, t) \<Longrightarrow> bindo m f s = f x t"
  by (simp add: bindo_def)

lemma bindo_simps [simp, op_simps]:
  "bindo (retn x) f s = f x s"
  "bindo (fails e) f s = (Inl e, s)"
  "bindo (lifto (Inr y)) f s = f y s"
  "bindo (lifto (Inl e)) f s = (Inl e, s)"
  "bindo (modifyo g) h s = h () (g s)"
  by (simp_all add: bindo_def op_defs)

lemma bindo_lifto: "bindo (lifto r) f s = (case r of Inl e \<Rightarrow> (Inl e, s) | Inr x \<Rightarrow> f x s)"
  by (simp add: bindo_def lifto_def split: sum.splits)

lemma bindo_readso: "bindo (readso g) f s = (case g s of Inl e \<Rightarrow> (Inl e, s) | Inr x \<Rightarrow> f x s)"
  by (simp add: bindo_def readso_def split: sum.splits)

lemma bindo_ok:
  "bindo m f s = (Inr y, u) \<longleftrightarrow> (\<exists>x t. m s = (Inr x, t) \<and> f x t = (Inr y, u))"
  by (auto simp: bindo_def split: prod.splits sum.splits)

lemma bindo_err:
  "bindo m f s = (Inl e, u) \<longleftrightarrow>
     m s = (Inl e, u) \<or> (\<exists>x t. m s = (Inr x, t) \<and> f x t = (Inl e, u))"
  by (auto simp: bindo_def split: prod.splits sum.splits)

lemma lifto_ok: "lifto r s = (Inr x, t) \<longleftrightarrow> r = Inr x \<and> t = s"
  by (auto simp: lifto_def)

lemma readso_ok: "readso g s = (Inr x, t) \<longleftrightarrow> g s = Inr x \<and> t = s"
  by (auto simp: readso_def)

lemma retn_ok [simp]: "retn x s = (Inr y, t) \<longleftrightarrow> y = x \<and> t = s"
  by (auto simp: retn_def)

lemma fails_ok [simp]: "fails e s \<noteq> (Inr y, t)"
  by (simp add: fails_def)

lemma modifyo_ok [simp]: "modifyo g s = (Inr u, t) \<longleftrightarrow> t = g s"
  by (auto simp: modifyo_def)

lemma bindo_assoc: "bindo (bindo m f) g = bindo m (\<lambda>x. bindo (f x) g)"
  by (rule ext) (simp add: bindo_def split: prod.split sum.split)

lemmas op_ok = bindo_ok lifto_ok readso_ok

subsection \<open>Preservation of a predicate, whatever the outcome\<close>

definition pres :: "('s \<Rightarrow> bool) \<Rightarrow> ('e, 's, 'a) eop \<Rightarrow> bool" where
  "pres P m \<longleftrightarrow> (\<forall>s. P s \<longrightarrow> P (snd (m s)))"

lemma presI: "(\<And>s. P s \<Longrightarrow> P (snd (m s))) \<Longrightarrow> pres P m"
  by (simp add: pres_def)

lemma presD: "pres P m \<Longrightarrow> P s \<Longrightarrow> P (snd (m s))"
  by (simp add: pres_def)

lemma presD2: "pres P m \<Longrightarrow> P s \<Longrightarrow> m s = (r, t) \<Longrightarrow> P t"
  by (metis presD snd_conv)

lemma pres_bindo [pres_intros]:
  assumes m: "pres P m" and f: "\<And>x. pres P (f x)"
  shows "pres P (bindo m f)"
proof (rule presI)
  fix s assume s: "P s"
  show "P (snd (bindo m f s))"
  proof (cases "m s")
    case (Pair r t)
    with m s have t: "P t" by (rule presD2)
    show ?thesis
      by (cases r) (use Pair t f in \<open>auto simp: bindo_def presD\<close>)
  qed
qed

lemma pres_atoms [pres_intros]:
  "pres P (retn x)" "pres P (fails e)" "pres P (lifto r)" "pres P (readso g)"
  by (auto simp: pres_def op_defs)

lemma pres_modifyo: "(\<And>s. P s \<Longrightarrow> P (g s)) \<Longrightarrow> pres P (modifyo g)"
  by (auto simp: pres_def op_defs)

lemma pres_if [pres_intros]: "pres P m \<Longrightarrow> pres P n \<Longrightarrow> pres P (if c then m else n)"
  by simp

lemma pres_case_option [pres_intros]:
  "pres P m \<Longrightarrow> (\<And>x. pres P (f x)) \<Longrightarrow> pres P (case v of None \<Rightarrow> m | Some x \<Rightarrow> f x)"
  by (cases v) auto

lemma pres_for_each [pres_intros]: "(\<And>x. pres P (f x)) \<Longrightarrow> pres P (for_each f xs)"
  by (induction xs) (auto intro: pres_intros)

subsection \<open>Conditions before and after\<close>

text \<open>From \<open>P\<close>, success leads to \<open>Q\<close> of the value and failure to \<open>R\<close>.\<close>

definition hoare ::
    "('s \<Rightarrow> bool) \<Rightarrow> ('e, 's, 'a) eop \<Rightarrow> ('a \<Rightarrow> 's \<Rightarrow> bool) \<Rightarrow> ('s \<Rightarrow> bool) \<Rightarrow> bool" where
  "hoare P m Q R \<longleftrightarrow>
     (\<forall>s x t. P s \<longrightarrow> m s = (Inr x, t) \<longrightarrow> Q x t)
     \<and> (\<forall>s e t. P s \<longrightarrow> m s = (Inl e, t) \<longrightarrow> R t)"

lemma hoareI:
  "(\<And>s x t. P s \<Longrightarrow> m s = (Inr x, t) \<Longrightarrow> Q x t) \<Longrightarrow> (\<And>s e t. P s \<Longrightarrow> m s = (Inl e, t) \<Longrightarrow> R t)
     \<Longrightarrow> hoare P m Q R"
  unfolding hoare_def by blast

lemma hoare_ok: "hoare P m Q R \<Longrightarrow> P s \<Longrightarrow> m s = (Inr x, t) \<Longrightarrow> Q x t"
  unfolding hoare_def by blast

lemma hoare_err: "hoare P m Q R \<Longrightarrow> P s \<Longrightarrow> m s = (Inl e, t) \<Longrightarrow> R t"
  unfolding hoare_def by blast

lemma hoare_bindo:
  assumes m: "hoare P m Q R" and f: "\<And>x. hoare (Q x) (f x) T R"
  shows "hoare P (bindo m f) T R"
proof (rule hoareI)
  fix s y u assume "P s" "bindo m f s = (Inr y, u)"
  then show "T y u" using hoare_ok [OF m] hoare_ok [OF f] unfolding bindo_ok by blast
next
  fix s e u assume "P s" "bindo m f s = (Inl e, u)"
  then show "R u"
    using hoare_ok [OF m] hoare_err [OF m] hoare_err [OF f] unfolding bindo_err by blast
qed

lemma hoare_conseq:
  "hoare P m Q R \<Longrightarrow> (\<And>s. P' s \<Longrightarrow> P s) \<Longrightarrow> (\<And>x s. Q x s \<Longrightarrow> Q' x s) \<Longrightarrow> (\<And>s. R s \<Longrightarrow> R' s)
     \<Longrightarrow> hoare P' m Q' R'"
  unfolding hoare_def by blast

lemma pres_iff: "pres P m \<longleftrightarrow> (\<forall>s r t. P s \<longrightarrow> m s = (r, t) \<longrightarrow> P t)"
  unfolding pres_def by (metis prod.collapse snd_conv)

lemma pres_hoare: "pres P m \<longleftrightarrow> hoare P m (\<lambda>_. P) P"
  unfolding pres_iff hoare_def by (metis sumE)

lemma pres_bindo_hoare:
  "hoare P m Q P \<Longrightarrow> (\<And>x. hoare (Q x) (f x) (\<lambda>_. P) P) \<Longrightarrow> pres P (bindo m f)"
  by (simp add: pres_hoare hoare_bindo)

lemma hoare_readso:
  "(\<And>s. P s \<Longrightarrow> R s) \<Longrightarrow> hoare P (readso f) (\<lambda>x s. P s \<and> f s = Inr x) R"
  by (rule hoareI) (auto simp: op_defs)

lemma hoare_lifto:
  "(\<And>s. P s \<Longrightarrow> R s) \<Longrightarrow> hoare P (lifto r) (\<lambda>x s. P s \<and> r = Inr x) R"
  by (rule hoareI) (auto simp: op_defs)

subsection \<open>Operations that leave things alone\<close>

text \<open>Whether a step succeeded; its effects remain.\<close>

definition attempt :: "('e, 's, 'a) eop \<Rightarrow> ('e, 's, 'e + 'a) eop" where
  "attempt m s = (case m s of (r, t) \<Rightarrow> (Inr r, t))"

text \<open>Every outcome of \<open>m\<close> is related to the state before; a predicate survives related changes.\<close>

definition moves :: "('s \<Rightarrow> 's \<Rightarrow> bool) \<Rightarrow> ('e, 's, 'a) eop \<Rightarrow> bool" where
  "moves rel m \<longleftrightarrow> (\<forall>s. rel s (snd (m s)))"

definition stable :: "('s \<Rightarrow> 's \<Rightarrow> bool) \<Rightarrow> ('s \<Rightarrow> bool) \<Rightarrow> bool" where
  "stable rel P \<longleftrightarrow> (\<forall>s t. rel s t \<longrightarrow> P s \<longrightarrow> P t)"

lemma movesD: "moves rel m \<Longrightarrow> m s = (r, t) \<Longrightarrow> rel s t"
  unfolding moves_def by (metis snd_conv)

lemma hoare_moves: "moves rel m \<Longrightarrow> stable rel P \<Longrightarrow> (\<And>s. P s \<Longrightarrow> E s) \<Longrightarrow> hoare P m (\<lambda>_. P) E"
  by (rule hoareI) (auto simp: stable_def dest: movesD)

lemma moves_bindo:
  "(\<And>a b c. rel a b \<Longrightarrow> rel b c \<Longrightarrow> rel a c) \<Longrightarrow> moves rel m \<Longrightarrow> (\<And>x. moves rel (f x)) \<Longrightarrow> moves rel (bindo m f)"
  unfolding moves_def bindo_def by (auto split: prod.splits sum.splits) (metis snd_conv)+

lemma stable_conj [intro, simp]:
  "stable rel P \<Longrightarrow> stable rel Q \<Longrightarrow> stable rel (\<lambda>s. P s \<and> Q s)" "stable rel (\<lambda>_. b)"
  by (auto simp: stable_def)

lemma hoare_strengthen: "hoare P m Q E \<Longrightarrow> (\<And>s. P' s \<Longrightarrow> P s) \<Longrightarrow> hoare P' m Q E"
  by (rule hoare_conseq)

lemma hoare_weaken: "hoare P m Q E \<Longrightarrow> (\<And>x s. Q x s \<Longrightarrow> Q' x s) \<Longrightarrow> (\<And>s. E s \<Longrightarrow> E' s) \<Longrightarrow> hoare P m Q' E'"
  by (rule hoare_conseq)

lemma hoare_attempt:
  "hoare P m Q R \<Longrightarrow> hoare P (attempt m) (\<lambda>r s. case r of Inl e \<Rightarrow> R s | Inr x \<Rightarrow> Q x s) E"
  unfolding hoare_def attempt_def by (auto split: prod.splits sum.splits)

lemma hoare_if: "(c \<Longrightarrow> hoare P m Q E) \<Longrightarrow> (\<not> c \<Longrightarrow> hoare P n Q E) \<Longrightarrow> hoare P (if c then m else n) Q E"
  by simp

lemma hoare_sum:
  "(\<And>e. r = Inl e \<Longrightarrow> hoare (P r) (f e) Q E) \<Longrightarrow> (\<And>x. r = Inr x \<Longrightarrow> hoare (P r) (g x) Q E)
     \<Longrightarrow> hoare (P r) (case r of Inl e \<Rightarrow> f e | Inr x \<Rightarrow> g x) Q E"
  by (cases r) auto

lemma hoare_fails: "(\<And>s. P s \<Longrightarrow> E s) \<Longrightarrow> hoare P (fails e) Q E"
  by (rule hoareI) (auto simp: fails_def)

lemma hoare_retn: "(\<And>s. P s \<Longrightarrow> Q x s) \<Longrightarrow> hoare P (retn x) Q E"
  by (rule hoareI) (auto simp: retn_def)

lemma hoare_readso_any: "(\<And>s. P s \<Longrightarrow> E s) \<Longrightarrow> hoare P (readso (\<lambda>s. Inr (f s))) (\<lambda>x s. P s \<and> x = f s) E"
  by (rule hoareI) (auto simp: op_defs)

lemma hoare_pre_imp: "(\<And>s. P s \<Longrightarrow> c) \<Longrightarrow> (c \<Longrightarrow> hoare P m Q E) \<Longrightarrow> hoare P m Q E"
  unfolding hoare_def by blast

section \<open>Byte strings\<close>

abbreviation byte :: "char \<Rightarrow> nat" where
  "byte c \<equiv> of_char c"

definition is_ascii_digit :: "char \<Rightarrow> bool" where
  "is_ascii_digit c \<longleftrightarrow> 48 \<le> byte c \<and> byte c \<le> 57"

definition is_ascii_upper :: "char \<Rightarrow> bool" where
  "is_ascii_upper c \<longleftrightarrow> 65 \<le> byte c \<and> byte c \<le> 90"

definition is_ascii_lower :: "char \<Rightarrow> bool" where
  "is_ascii_lower c \<longleftrightarrow> 97 \<le> byte c \<and> byte c \<le> 122"

definition is_ascii_alphanumeric :: "char \<Rightarrow> bool" where
  "is_ascii_alphanumeric c \<longleftrightarrow> is_ascii_digit c \<or> is_ascii_upper c \<or> is_ascii_lower c"

definition is_ascii_hexdigit :: "char \<Rightarrow> bool" where
  "is_ascii_hexdigit c \<longleftrightarrow>
     is_ascii_digit c \<or> (65 \<le> byte c \<and> byte c \<le> 70) \<or> (97 \<le> byte c \<and> byte c \<le> 102)"

definition ascii_lower_char :: "char \<Rightarrow> char" where
  "ascii_lower_char c = (if is_ascii_upper c then char_of (byte c + 32) else c)"

definition to_ascii_lowercase :: "string \<Rightarrow> string" where
  "to_ascii_lowercase s = List.map ascii_lower_char s"

text \<open>
  \<open>s.chars().any(char::is_control)\<close>: the control characters are U+0000..U+001F and
  U+007F..U+009F; the last 32 are the two-byte sequences C2 80 .. C2 9F, and in valid UTF-8
  the byte C2 only ever starts a two-byte character.
\<close>

fun has_control :: "string \<Rightarrow> bool" where
  "has_control [] = False"
| "has_control (c # cs) =
     (byte c < 32 \<or> byte c = 127
      \<or> (byte c = 194 \<and> (case cs of [] \<Rightarrow> False | d # _ \<Rightarrow> 128 \<le> byte d \<and> byte d \<le> 159))
      \<or> has_control cs)"

fun split_on :: "char \<Rightarrow> string \<Rightarrow> string list" where
  "split_on c [] = [[]]"
| "split_on c (x # xs) =
     (if x = c then [] # split_on c xs
      else (case split_on c xs of [] \<Rightarrow> [[x]] | y # ys \<Rightarrow> (x # y) # ys))"

fun join_with :: "char \<Rightarrow> string list \<Rightarrow> string" where
  "join_with c [] = []"
| "join_with c [x] = x"
| "join_with c (x # y # ys) = x @ c # join_with c (y # ys)"

fun split_once :: "char \<Rightarrow> string \<Rightarrow> (string \<times> string) option" where
  "split_once c [] = None"
| "split_once c (x # xs) =
     (if x = c then Some ([], xs)
      else map_option (\<lambda>(a, b). (x # a, b)) (split_once c xs))"

definition rsplit_once :: "char \<Rightarrow> string \<Rightarrow> (string \<times> string) option" where
  "rsplit_once c s = map_option (\<lambda>(a, b). (rev b, rev a)) (split_once c (rev s))"

definition strip_prefix :: "string \<Rightarrow> string \<Rightarrow> string option" where
  "strip_prefix p s = (if prefix p s then Some (drop (length p) s) else None)"

text \<open>The last component, \<open>s.rsplit(c).next()\<close>.\<close>

definition last_part :: "char \<Rightarrow> string \<Rightarrow> string" where
  "last_part c s = last (split_on c s)"

text \<open>\<open>for (offset, _) in s.match_indices(c)\<close> gives the prefixes \<open>&s[..offset]\<close>.\<close>

fun prefixes_at :: "char \<Rightarrow> string \<Rightarrow> string list" where
  "prefixes_at c [] = []"
| "prefixes_at c (x # xs) =
     (if x = c then [[]] else []) @ List.map ((#) x) (prefixes_at c xs)"

text \<open>
  \<open>str::trim\<close> removes the white space of Unicode at both ends. In valid UTF-8 a character is
  found at the end of a string by the last bytes, since they start with its lead byte.
\<close>

definition whitespace :: "string list" where
  "whitespace =
     List.map (List.map char_of)
       ([[9], [10], [11], [12], [13], [32], [194, 133], [194, 160], [225, 154, 128],
         [226, 128, 168], [226, 128, 169], [226, 128, 175], [226, 129, 159], [227, 128, 128]]
        @ List.map (\<lambda>n. [226, 128, n]) [128..<139 :: nat])"

function trim_by :: "string list \<Rightarrow> string \<Rightarrow> string" where
  "trim_by ws s =
     (case List.find (\<lambda>w. w \<noteq> [] \<and> prefix w s) ws of
        None \<Rightarrow> s
      | Some w \<Rightarrow> trim_by ws (drop (length w) s))"
  by pat_completeness auto
termination
  by (relation "measure (\<lambda>(ws, s). length s)")
    (auto simp: find_Some_iff prefix_def)

declare trim_by.simps [simp del]

definition trim :: "string \<Rightarrow> string" where
  "trim s = rev (trim_by (List.map rev whitespace) (rev (trim_by whitespace s)))"

definition has_whitespace :: "string \<Rightarrow> bool" where
  "has_whitespace s = list_ex (\<lambda>t. list_ex (\<lambda>w. prefix w t) whitespace) (suffixes s)"

lemma find_SomeD: "List.find P xs = Some x \<Longrightarrow> x \<in> set xs \<and> P x"
  by (induction xs) (auto split: if_splits)

definition printable_char :: "char \<Rightarrow> bool" where
  "printable_char c \<longleftrightarrow> 33 \<le> byte c \<and> byte c \<le> 126"

lemma whitespace_ends: "w \<in> set whitespace \<Longrightarrow> \<not> printable_char (hd w) \<and> \<not> printable_char (last w) \<and> w \<noteq> []"
  by (auto simp: whitespace_def printable_char_def)

lemma trim_by_none:
  "(\<And>w. w \<in> set ws \<Longrightarrow> w \<noteq> [] \<Longrightarrow> \<not> prefix w s) \<Longrightarrow> trim_by ws s = s"
  by (subst trim_by.simps) (auto simp: find_None_iff split: option.split dest: find_SomeD)

lemma trim_printable:
  assumes "printable_char a" "printable_char (last (a # s))"
  shows "trim (a # s) = a # s"
proof -
  have 1: "trim_by whitespace (a # s) = a # s"
  proof (rule trim_by_none)
    fix w assume "w \<in> set whitespace" "w \<noteq> []"
    then have "hd w \<noteq> a" using whitespace_ends [of w] assms(1) by auto
    with \<open>w \<noteq> []\<close> show "\<not> prefix w (a # s)" by (cases w) auto
  qed
  have 2: "trim_by (List.map rev whitespace) (rev (a # s)) = rev (a # s)"
  proof (rule trim_by_none)
    fix w assume w: "w \<in> set (List.map rev whitespace)" "w \<noteq> []"
    then obtain v where v: "w = rev v" "v \<in> set whitespace" by auto
    have "hd (rev (a # s)) = last (a # s)" by (simp add: hd_rev)
    moreover have "hd w = last v" using v w by (simp add: hd_rev)
    ultimately have "hd w \<noteq> hd (rev (a # s))" using whitespace_ends [OF v(2)] assms(2) by metis
    with w(2) show "\<not> prefix w (rev (a # s))" by (cases w; cases "rev (a # s)") auto
  qed
  show ?thesis unfolding trim_def 1 2 by simp
qed

lemma split_on_nonempty [simp]: "split_on c s \<noteq> []"
  by (induction s) (auto split: list.splits)

lemma join_split [simp]: "join_with c (split_on c s) = s"
proof (induction s)
  case Nil
  then show ?case by simp
next
  case (Cons x xs)
  obtain y ys where y: "split_on c xs = y # ys"
    using split_on_nonempty [of c xs] by (cases "split_on c xs") auto
  show ?case
    by (cases ys) (use Cons y in \<open>auto\<close>)
qed

lemma split_on_parts: "p \<in> set (split_on c s) \<Longrightarrow> c \<notin> set p"
proof (induction s arbitrary: p)
  case Nil
  then show ?case by simp
next
  case (Cons x xs)
  show ?case
    by (cases "split_on c xs") (use Cons in \<open>auto split: if_splits\<close>)
qed

lemma split_on_single: "c \<notin> set s \<Longrightarrow> split_on c s = [s]"
  by (induction s) auto

lemma split_on_append: "c \<notin> set p \<Longrightarrow> split_on c (p @ c # s) = p # split_on c s"
  by (induction p) auto

lemma split_join:
  "ps \<noteq> [] \<Longrightarrow> \<forall>p \<in> set ps. c \<notin> set p \<Longrightarrow> split_on c (join_with c ps) = ps"
  by (induction c ps rule: join_with.induct) (auto simp: split_on_single split_on_append)

lemma split_on_append2:
  "split_on c (a @ c # b) = split_on c a @ split_on c b"
proof (induction a)
  case Nil
  then show ?case by simp
next
  case (Cons x a)
  obtain y ys where y: "split_on c a = y # ys"
    using split_on_nonempty [of c a] by (cases "split_on c a") auto
  then show ?case
    using Cons by auto
qed

lemma set_prefixes_at: "set (prefixes_at c s) = {p. \<exists>r. s = p @ c # r}"
proof (induction s)
  case Nil
  then show ?case by simp
next
  case (Cons x xs)
  have "p \<in> set (prefixes_at c (x # xs)) \<longleftrightarrow> (\<exists>r. x # xs = p @ c # r)" for p
    by (cases p) (auto simp: Cons.IH)
  then show ?case by auto
qed

lemma split_once_eq: "split_once c s = Some (a, b) \<longleftrightarrow> s = a @ c # b \<and> c \<notin> set a"
proof (induction s arbitrary: a)
  case Nil
  then show ?case by simp
next
  case (Cons x xs)
  show ?case
    by (cases a) (auto simp: Cons.IH)
qed

lemma split_once_None: "split_once c s = None \<longleftrightarrow> c \<notin> set s"
  by (induction s) auto

lemma rsplit_once_None: "rsplit_once c s = None \<longleftrightarrow> c \<notin> set s"
  by (simp add: rsplit_once_def split_once_None)

lemma rsplit_once_eq: "rsplit_once c s = Some (a, b) \<longleftrightarrow> s = a @ c # b \<and> c \<notin> set b"
proof -
  have "rsplit_once c s = Some (a, b) \<longleftrightarrow> split_once c (rev s) = Some (rev b, rev a)"
    by (auto simp: rsplit_once_def)
  also have "\<dots> \<longleftrightarrow> rev s = rev b @ c # rev a \<and> c \<notin> set b"
    by (simp add: split_once_eq)
  also have "\<dots> \<longleftrightarrow> s = a @ c # b \<and> c \<notin> set b"
    by (metis append.assoc append_Cons append_Nil rev.simps(2) rev_append rev_rev_ident)
  finally show ?thesis .
qed

lemma strip_prefix_eq: "strip_prefix p s = Some r \<longleftrightarrow> s = p @ r"
  by (auto simp: strip_prefix_def prefix_def)

section \<open>Lists\<close>

lemma find_append:
  "List.find P (xs @ ys) = (case List.find P xs of None \<Rightarrow> List.find P ys | Some x \<Rightarrow> Some x)"
  by (induction xs) auto

lemma find_map: "List.find P (List.map f xs) = map_option f (List.find (\<lambda>x. P (f x)) xs)"
  by (induction xs) auto

section \<open>Ordered maps\<close>

text \<open>A \<open>BTreeMap\<close> is an association list kept in key order, iterated in that order.\<close>

fun bt_insert :: "'k::linorder \<Rightarrow> 'v \<Rightarrow> ('k \<times> 'v) list \<Rightarrow> ('k \<times> 'v) list" where
  "bt_insert k v [] = [(k, v)]"
| "bt_insert k v ((a, b) # m) =
     (if k < a then (k, v) # (a, b) # m
      else if k = a then (k, v) # m
      else (a, b) # bt_insert k v m)"

definition bt_of_list :: "('k::linorder \<times> 'v) list \<Rightarrow> ('k \<times> 'v) list" where
  "bt_of_list kvs = fold (\<lambda>(k, v). bt_insert k v) kvs []"

abbreviation bt_sorted :: "('k::linorder \<times> 'v) list \<Rightarrow> bool" where
  "bt_sorted m \<equiv> sorted_wrt (<) (List.map fst m)"

lemma map_of_bt_insert [simp]: "map_of (bt_insert k v m) = (map_of m)(k \<mapsto> v)"
  by (induction k v m rule: bt_insert.induct) (auto simp: fun_eq_iff)

lemma fst_bt_insert [simp]: "fst ` set (bt_insert k v m) = insert k (fst ` set m)"
  by (induction k v m rule: bt_insert.induct) auto

lemma bt_sorted_insert: "bt_sorted m \<Longrightarrow> bt_sorted (bt_insert k v m)"
proof (induction k v m rule: bt_insert.induct)
  case (1 k v)
  then show ?case by simp
next
  case (2 k v a b m)
  have "x \<in> set (List.map fst (bt_insert k v m)) \<Longrightarrow> x = k \<or> x \<in> fst ` set m" for x
    using fst_bt_insert [of k v m] by auto
  with 2 show ?case by (auto simp: not_less_iff_gr_or_eq)
qed

lemma bt_sorted_distinct: "bt_sorted m \<Longrightarrow> distinct (List.map fst m)"
  by (simp add: strict_sorted_iff)

section \<open>Integer limits\<close>

definition i64_max :: nat where "i64_max = 9223372036854775807"

definition u64_max :: nat where "u64_max = 18446744073709551615"

definition checked_add_u64 :: "nat \<Rightarrow> nat \<Rightarrow> nat option" where
  "checked_add_u64 a b = (if a + b \<le> u64_max then Some (a + b) else None)"

text \<open>\<open>i64::try_from\<close> of an unsigned value, and the wrapping cast \<open>as i64\<close>.\<close>

definition i64_try_from :: "string \<Rightarrow> nat \<Rightarrow> int res" where
  "i64_try_from msg n = (if n \<le> i64_max then Inr (int n) else Inl (Bail msg))"

definition u64_try_from :: "string \<Rightarrow> int \<Rightarrow> nat res" where
  "u64_try_from msg i = (if 0 \<le> i then Inr (nat i) else Inl (Bail msg))"

definition u64_as_i64 :: "nat \<Rightarrow> int" where
  "u64_as_i64 n = (if n \<le> i64_max then int n else int n - 18446744073709551616)"

definition i64_as_u64 :: "int \<Rightarrow> nat" where
  "i64_as_u64 i = (if 0 \<le> i then nat i else nat (i + 18446744073709551616))"

lemma checked_add_u64_Some: "checked_add_u64 a b = Some c \<longleftrightarrow> c = a + b \<and> a + b \<le> u64_max"
  by (auto simp: checked_add_u64_def)

lemma i64_try_from_Inr [simp]: "i64_try_from msg n = Inr i \<longleftrightarrow> n \<le> i64_max \<and> i = int n"
  by (auto simp: i64_try_from_def)

lemma u64_try_from_Inr [simp]: "u64_try_from msg i = Inr n \<longleftrightarrow> 0 \<le> i \<and> n = nat i"
  by (auto simp: u64_try_from_def)

lemma i64_roundtrip: "n \<le> u64_max \<Longrightarrow> i64_as_u64 (u64_as_i64 n) = n"
  by (auto simp: u64_as_i64_def i64_as_u64_def u64_max_def i64_max_def)

lemma u64_as_i64_small: "n \<le> i64_max \<Longrightarrow> u64_as_i64 n = int n"
  by (simp add: u64_as_i64_def)

end
