(* ===== verification/Protocol.thy ===== *)
theory Protocol
  imports Prelude
begin

text \<open>
  The wire types and identifiers of \<open>src/protocol.rs\<close>, the client data model of
  \<open>src/model.rs\<close>, and the third-party functions the code calls (\<open>sha2\<close>, \<open>hex\<close>, \<open>uuid\<close>),
  which are the fields of a record passed to every definition that uses them.
\<close>

section \<open>Third-party functions\<close>

text \<open>
  \<open>uuid_parse s\<close> is \<open>Uuid::parse_str(s)\<close> followed by \<open>to_string()\<close>; the code only ever
  compares that text with its input.
\<close>

record externals =
  sha256 :: "bytes \<Rightarrow> bytes"
  hex_encode :: "bytes \<Rightarrow> string"
  uuid_parse :: "string \<Rightarrow> string option"

definition sha256_hex :: "externals \<Rightarrow> bytes \<Rightarrow> string" where
  "sha256_hex X b = hex_encode X (sha256 X b)"

definition uuid_canonical :: "externals \<Rightarrow> string \<Rightarrow> bool" where
  "uuid_canonical X s = (uuid_parse X s = Some s)"

section \<open>Identifiers\<close>

definition PROTOCOL_VERSION :: nat where "PROTOCOL_VERSION = 1"

definition validate_delivery_id :: "string \<Rightarrow> unit res" where
  "validate_delivery_id i =
     ensure (\<not> (i = [] \<or> length i > 128
        \<or> \<not> list_all (\<lambda>c. is_ascii_alphanumeric c \<or> c = CHR ''-'' \<or> c = CHR ''_'') i))
       ''delivery id must be 1-128 ASCII letters, digits, - or _''"

definition validate_sha256 :: "string \<Rightarrow> unit res" where
  "validate_sha256 h =
     ensure (\<not> (length h \<noteq> 64 \<or> h \<noteq> to_ascii_lowercase h \<or> \<not> list_all is_ascii_hexdigit h))
       ''SHA-256 must be 64 lowercase hexadecimal characters''"

definition valid_sha256 :: "string \<Rightarrow> bool" where
  "valid_sha256 h = is_ok (validate_sha256 h)"

definition valid_delivery_id :: "string \<Rightarrow> bool" where
  "valid_delivery_id i = is_ok (validate_delivery_id i)"

section \<open>Folder messages\<close>

record folder_handshake =
  fh_schema_version :: nat
  fh_folder_id :: string
  fh_name :: string
  fh_role :: string
  fh_state :: string
  fh_verification :: "string option"
  fh_max_file_size :: nat

record folder_exit_status =
  fx_schema_version :: nat
  fx_folder_id :: string
  fx_role :: string
  fx_requested :: bool
  fx_server_cleaned :: bool
  fx_sender_cleaned :: bool
  fx_receiver_cleaned :: bool

definition exit_complete :: "folder_exit_status \<Rightarrow> bool" where
  "exit_complete f =
     (fx_requested f \<and> fx_server_cleaned f \<and> fx_sender_cleaned f \<and> fx_receiver_cleaned f)"

record folder_created =
  fc_folder_id :: string
  fc_receiver_token :: string
  fc_pairing_code :: string
  fc_expires_at_unix :: nat

record claim_request =
  cr_pairing_code :: string
  cr_sender_token :: string

record folder_invitation =
  fi_pairing_code :: string
  fi_expires_at_unix :: nat

section \<open>Delivery messages\<close>

record delivery_descriptor =
  dd_delivery_id :: string
  dd_original_name :: string
  dd_size_bytes :: nat
  dd_sha256 :: string
  dd_media_type :: string
  dd_created_at_unix :: "nat option"

record delivery_index =
  di_schema_version :: nat
  di_items :: "delivery_descriptor list"
  di_next_cursor :: "string option"

section \<open>The data model of \<open>model.rs\<close>\<close>

definition STATE_SCHEMA_VERSION :: nat where "STATE_SCHEMA_VERSION = 1"

definition MANIFEST_SCHEMA_VERSION :: nat where "MANIFEST_SCHEMA_VERSION = 1"

record delivery =
  d_schema_version :: nat
  d_id :: string
  d_original_name :: string
  d_payload :: string
  d_size :: nat
  d_sha256 :: string
  d_media_type :: string
  d_created_at_unix :: "nat option"

datatype delivery_status = AckPending | Acknowledged

datatype wallpaper_status =
    WPending | NotApplicable | NotConfigured | Running | Applied | Failed | Uncertain

record delivery_record =
  dr_id :: string
  dr_original_name :: string
  dr_media_type :: string
  dr_sha256 :: string
  dr_size :: nat
  dr_stored_path :: string
  dr_delivery_status :: delivery_status
  dr_wallpaper_status :: wallpaper_status
  dr_wallpaper_attempts :: nat
  dr_delivery_error :: "error option"
  dr_wallpaper_error :: "error option"
  dr_source_created_at_unix :: "nat option"
  dr_received_at_unix :: nat
  dr_acknowledged_at_unix :: "nat option"
  dr_imported_at_unix :: "nat option"

record app_state =
  as_schema_version :: nat
  as_deliveries :: "(string \<times> delivery_record) list"

definition app_state_default :: app_state where
  "app_state_default = \<lparr>as_schema_version = STATE_SCHEMA_VERSION, as_deliveries = []\<rparr>"

section \<open>Facts\<close>

lemma valid_delivery_id_iff:
  "valid_delivery_id i \<longleftrightarrow> i \<noteq> [] \<and> length i \<le> 128
     \<and> (\<forall>c \<in> set i. is_ascii_alphanumeric c \<or> c = CHR ''-'' \<or> c = CHR ''_'')"
  by (auto simp: valid_delivery_id_def validate_delivery_id_def ensure_def list_all_iff)

lemma validate_delivery_id_ok [simp]:
  "validate_delivery_id i = Inr u \<longleftrightarrow> valid_delivery_id i"
  by (auto simp: valid_delivery_id_def is_ok_iff)

lemma validate_sha256_ok [simp]: "validate_sha256 h = Inr u \<longleftrightarrow> valid_sha256 h"
  by (auto simp: valid_sha256_def is_ok_iff)

lemma ascii_lower_char_fix: "ascii_lower_char c = c \<longleftrightarrow> \<not> is_ascii_upper c"
proof
  assume a: "ascii_lower_char c = c"
  show "\<not> is_ascii_upper c"
  proof
    assume u: "is_ascii_upper c"
    then have "byte (char_of (byte c + 32) :: char) = byte c + 32"
      by (simp add: is_ascii_upper_def)
    with a u show False by (simp add: ascii_lower_char_def)
  qed
qed (simp add: ascii_lower_char_def)

lemma to_ascii_lowercase_fix: "h = to_ascii_lowercase h \<longleftrightarrow> (\<forall>c \<in> set h. \<not> is_ascii_upper c)"
proof -
  have "c = ascii_lower_char c \<longleftrightarrow> \<not> is_ascii_upper c" for c
    by (metis ascii_lower_char_fix)
  then show ?thesis
    by (induction h) (auto simp: to_ascii_lowercase_def)
qed

lemma valid_sha256_iff:
  "valid_sha256 h \<longleftrightarrow> length h = 64 \<and> (\<forall>c \<in> set h. is_ascii_hexdigit c \<and> \<not> is_ascii_upper c)"
  by (auto simp: valid_sha256_def validate_sha256_def ensure_def list_all_iff
      to_ascii_lowercase_fix)

lemma valid_sha256_lower: "valid_sha256 h \<Longrightarrow> to_ascii_lowercase h = h"
  by (metis to_ascii_lowercase_fix valid_sha256_iff)

end
