(* ===== verification/Media.thy ===== *)
theory Media
  imports Protocol "HOL-Library.Word"
begin

unbundle bit_operations_syntax

text \<open>
  Content inspection of \<open>src/storage.rs\<close>: the incremental UTF-8 text probe, media type
  detection from the first bytes, the copying loop that hashes, counts and inspects a stream,
  and the checks of a delivery's metadata.
\<close>

section \<open>UTF-8 scanning as \<open>std::str::from_utf8\<close> does it\<close>

text \<open>
  \<open>utf8_next\<close> looks at the first character of the input: \<open>WellFormed k\<close> is a well-formed character
  with \<open>k\<close> bytes after the first, \<open>Truncated\<close> an input that ends inside a character
  (\<open>error_len() == None\<close>), \<open>Malformed\<close> anything else.
\<close>

datatype utf8_step = WellFormed nat | Truncated | Malformed

definition is_cont :: "char \<Rightarrow> bool" where
  "is_cont c \<longleftrightarrow> 128 \<le> byte c \<and> byte c \<le> 191"

definition second_ok :: "char \<Rightarrow> char \<Rightarrow> bool" where
  "second_ok a b =
     (let x = byte a; y = byte b in
      (194 \<le> x \<and> x \<le> 223 \<and> 128 \<le> y \<and> y \<le> 191)
      \<or> (x = 224 \<and> 160 \<le> y \<and> y \<le> 191)
      \<or> (225 \<le> x \<and> x \<le> 236 \<and> 128 \<le> y \<and> y \<le> 191)
      \<or> (x = 237 \<and> 128 \<le> y \<and> y \<le> 159)
      \<or> (238 \<le> x \<and> x \<le> 239 \<and> 128 \<le> y \<and> y \<le> 191)
      \<or> (x = 240 \<and> 144 \<le> y \<and> y \<le> 191)
      \<or> (241 \<le> x \<and> x \<le> 243 \<and> 128 \<le> y \<and> y \<le> 191)
      \<or> (x = 244 \<and> 128 \<le> y \<and> y \<le> 143))"

definition char_width :: "char \<Rightarrow> nat" where
  "char_width a =
     (let x = byte a in
      if x < 128 then 1
      else if 194 \<le> x \<and> x \<le> 223 then 2
      else if 224 \<le> x \<and> x \<le> 239 then 3
      else if 240 \<le> x \<and> x \<le> 244 then 4
      else 0)"

definition utf8_next :: "char \<Rightarrow> bytes \<Rightarrow> utf8_step" where
  "utf8_next a r =
     (if char_width a = 1 then WellFormed 0
      else if char_width a = 0 then Malformed
      else (case r of
          [] \<Rightarrow> Truncated
        | b # r1 \<Rightarrow>
            if \<not> second_ok a b then Malformed
            else if char_width a = 2 then WellFormed 1
            else (case r1 of
                [] \<Rightarrow> Truncated
              | c # r2 \<Rightarrow>
                  if \<not> is_cont c then Malformed
                  else if char_width a = 3 then WellFormed 2
                  else (case r2 of
                      [] \<Rightarrow> Truncated
                    | d # _ \<Rightarrow> if is_cont d then WellFormed 3 else Malformed))))"

datatype utf8_end = Complete | Unfinished | Invalid

text \<open>The characters before the first error, the bytes from there on, and the verdict.\<close>

fun utf8_scan :: "bytes \<Rightarrow> bytes list \<times> bytes \<times> utf8_end" where
  "utf8_scan [] = ([], [], Complete)"
| "utf8_scan (a # r) =
     (case utf8_next a r of
        WellFormed k \<Rightarrow>
          (case utf8_scan (drop k r) of (cs, rest, e) \<Rightarrow> ((a # take k r) # cs, rest, e))
      | Truncated \<Rightarrow> ([], a # r, Unfinished)
      | Malformed \<Rightarrow> ([], a # r, Invalid))"

section \<open>The incremental text probe\<close>

text \<open>
  A decoded character is kept as its bytes; the control characters are the one-byte ones
  below 32 and 127, and the two-byte ones from C2 80 to C2 9F.
\<close>

definition is_plain_text_character :: "bytes \<Rightarrow> bool" where
  "is_plain_text_character s = (s \<in> {[CHR 0x0A], [CHR 0x0D], [CHR 0x09]} \<or> \<not> has_control s)"

record text_probe =
  tp_valid :: bool
  tp_incomplete :: bytes

definition probe_default :: text_probe where
  "probe_default = \<lparr>tp_valid = True, tp_incomplete = []\<rparr>"

definition probe_verdict :: "bytes list \<times> bytes \<times> utf8_end \<Rightarrow> text_probe" where
  "probe_verdict r =
     (case r of
        (cs, rest, Complete) \<Rightarrow>
          \<lparr>tp_valid = list_all is_plain_text_character cs, tp_incomplete = []\<rparr>
      | (cs, rest, Unfinished) \<Rightarrow>
          (let v = list_all is_plain_text_character cs \<and> length rest \<le> 3
           in \<lparr>tp_valid = v, tp_incomplete = (if v then rest else [])\<rparr>)
      | (cs, rest, Invalid) \<Rightarrow> \<lparr>tp_valid = False, tp_incomplete = []\<rparr>)"

definition probe_observe :: "text_probe \<Rightarrow> bytes \<Rightarrow> text_probe" where
  "probe_observe p bs =
     (if \<not> tp_valid p then p else probe_verdict (utf8_scan (tp_incomplete p @ bs)))"

definition probe_is_plain_text :: "text_probe \<Rightarrow> bool" where
  "probe_is_plain_text p \<longleftrightarrow> tp_valid p \<and> tp_incomplete p = []"

section \<open>Media types\<close>

definition starts_with :: "bytes \<Rightarrow> bytes \<Rightarrow> bool" where
  "starts_with h p = prefix p h"

definition slice :: "nat \<Rightarrow> nat \<Rightarrow> bytes \<Rightarrow> bytes" where
  "slice i j h = take (j - i) (drop i h)"

definition detect_media_type :: "bytes \<Rightarrow> bool \<Rightarrow> string \<times> string" where
  "detect_media_type h is_plain_text =
    (if starts_with h ([CHR 0x89] @ ''PNG'' @ [CHR 0x0D, CHR 0x0A, CHR 0x1A, CHR 0x0A])
       then (''image/png'', ''png'')
     else if starts_with h [CHR 0xff, CHR 0xd8, CHR 0xff] then (''image/jpeg'', ''jpg'')
     else if starts_with h ''GIF87a'' \<or> starts_with h ''GIF89a'' then (''image/gif'', ''gif'')
     else if length h \<ge> 12 \<and> slice 0 4 h = ''RIFF'' \<and> slice 8 12 h = ''WEBP''
       then (''image/webp'', ''webp'')
     else if length h \<ge> 12 \<and> slice 4 8 h = ''ftyp''
         \<and> (slice 8 12 h = ''avif'' \<or> slice 8 12 h = ''avis'')
       then (''image/avif'', ''avif'')
     else if starts_with h ''%PDF-'' then (''application/pdf'', ''pdf'')
     else if starts_with h (''PK'' @ [CHR 0x03, CHR 0x04])
         \<or> starts_with h (''PK'' @ [CHR 0x05, CHR 0x06])
         \<or> starts_with h (''PK'' @ [CHR 0x07, CHR 0x08])
       then (''application/zip'', ''zip'')
     else if starts_with h [CHR 0x1f, CHR 0x8b] then (''application/gzip'', ''gz'')
     else if starts_with h [CHR 0x37, CHR 0x7a, CHR 0xbc, CHR 0xaf, CHR 0x27, CHR 0x1c]
       then (''application/x-7z-compressed'', ''7z'')
     else if starts_with h (''Rar!'' @ [CHR 0x1a, CHR 0x07, CHR 0x00])
         \<or> starts_with h (''Rar!'' @ [CHR 0x1a, CHR 0x07, CHR 0x01, CHR 0x00])
       then (''application/vnd.rar'', ''rar'')
     else if length h \<ge> 12 \<and> slice 0 4 h = ''RIFF'' \<and> slice 8 12 h = ''WAVE''
       then (''audio/wav'', ''wav'')
     else if starts_with h ''fLaC'' then (''audio/flac'', ''flac'')
     else if starts_with h ''OggS'' then (''application/ogg'', ''ogg'')
     else if starts_with h ''ID3''
         \<or> (length h \<ge> 2 \<and> h ! 0 = CHR 0xff \<and> byte (h ! 1) AND 224 = 224)
       then (''audio/mpeg'', ''mp3'')
     else if length h \<ge> 12 \<and> slice 4 8 h = ''ftyp'' then (''video/mp4'', ''mp4'')
     else if starts_with h [CHR 0x1a, CHR 0x45, CHR 0xdf, CHR 0xa3]
       then (''video/webm'', ''webm'')
     else if is_plain_text then (''text/plain'', ''txt'')
     else (''application/octet-stream'', ''bin''))"

definition extension_for_media_type :: "string \<Rightarrow> string option" where
  "extension_for_media_type m = map_of
     [(''image/png'', ''png''), (''image/jpeg'', ''jpg''), (''image/gif'', ''gif''),
      (''image/webp'', ''webp''), (''image/avif'', ''avif''), (''text/plain'', ''txt''),
      (''application/pdf'', ''pdf''), (''application/zip'', ''zip''),
      (''application/gzip'', ''gz''), (''application/x-7z-compressed'', ''7z''),
      (''application/vnd.rar'', ''rar''), (''application/octet-stream'', ''bin''),
      (''audio/mpeg'', ''mp3''), (''audio/wav'', ''wav''), (''audio/flac'', ''flac''),
      (''application/ogg'', ''ogg''), (''video/mp4'', ''mp4''), (''video/webm'', ''webm'')] m"

definition is_image_media_type :: "string \<Rightarrow> bool" where
  "is_image_media_type m \<longleftrightarrow>
     m \<in> {''image/png'', ''image/jpeg'', ''image/gif'', ''image/webp'', ''image/avif''}"

definition is_supported_content_extension :: "string \<Rightarrow> bool" where
  "is_supported_content_extension e \<longleftrightarrow>
     e \<in> {''png'', ''jpg'', ''gif'', ''webp'', ''avif'', ''txt'', ''pdf'', ''zip'', ''gz'',
          ''7z'', ''rar'', ''bin'', ''mp3'', ''wav'', ''flac'', ''ogg'', ''mp4'', ''webm''}"

section \<open>The copy loop\<close>

text \<open>
  A reader is the list of what its successive \<open>read\<close> calls return, then end of file. An empty
  read ends the stream. The bytes given to the hasher and written to the sink are the same
  list; the digest is computed over it.
\<close>

datatype read_event = Chunk bytes | ReadError error

definition HEADER_SIZE :: nat where "HEADER_SIZE = 512"

definition COPY_BUFFER_SIZE :: nat where "COPY_BUFFER_SIZE = 65536"

record inspection =
  in_size :: nat
  in_sha256 :: string
  in_media_type :: string
  in_extension :: string

record copy_state =
  cs_size :: nat
  cs_header :: bytes
  cs_probe :: text_probe
  cs_written :: bytes

definition copy_init :: copy_state where
  "copy_init = \<lparr>cs_size = 0, cs_header = [], cs_probe = probe_default, cs_written = []\<rparr>"

definition copy_put :: "copy_state \<Rightarrow> bytes \<Rightarrow> nat \<Rightarrow> copy_state" where
  "copy_put st b sz =
     \<lparr>cs_size = sz,
      cs_header = (if length (cs_header st) < HEADER_SIZE
         then cs_header st @ take (HEADER_SIZE - length (cs_header st)) b
         else cs_header st),
      cs_probe = probe_observe (cs_probe st) b,
      cs_written = cs_written st @ b\<rparr>"

fun copy_loop :: "nat \<Rightarrow> nat option \<Rightarrow> read_event list \<Rightarrow> copy_state \<Rightarrow> copy_state res" where
  "copy_loop mx expected [] st = Inr st"
| "copy_loop mx expected (ReadError e # es) st = Inl e"
| "copy_loop mx expected (Chunk b # es) st =
     (if b = [] then Inr st
      else (case checked_add_u64 (cs_size st) (length b) of
          None \<Rightarrow> Inl (Bail ''media size overflow'')
        | Some sz \<Rightarrow>
            if sz > mx then Inl (Bail ''media exceeds the configured byte limit'')
            else if (case expected of None \<Rightarrow> False | Some e \<Rightarrow> sz > e)
              then Inl (Bail ''media is larger than its declared byte size'')
            else copy_loop mx expected es (copy_put st b sz)))"

definition copy_and_inspect ::
    "externals \<Rightarrow> nat \<Rightarrow> nat option \<Rightarrow> read_event list \<Rightarrow> (inspection \<times> bytes) res" where
  "copy_and_inspect X mx expected es =
     andthen (copy_loop mx expected es copy_init) (\<lambda>st.
       if (case expected of None \<Rightarrow> False | Some e \<Rightarrow> cs_size st \<noteq> e)
         then Inl (Bail ''media size mismatch'')
       else if cs_size st = 0 then Inl (Bail ''media file is empty'')
       else (case detect_media_type (cs_header st) (probe_is_plain_text (cs_probe st)) of
           (media_type, extension) \<Rightarrow>
             Inr (\<lparr>in_size = cs_size st, in_sha256 = sha256_hex X (cs_written st),
                   in_media_type = media_type, in_extension = extension\<rparr>, cs_written st)))"

text \<open>Reading a file of the disk: full buffers of 64 KiB, then the rest.\<close>

fun file_reads :: "nat \<Rightarrow> bytes \<Rightarrow> read_event list" where
  "file_reads 0 b = []"
| "file_reads (Suc n) b =
     (if b = [] then []
      else Chunk (take COPY_BUFFER_SIZE b) # file_reads n (drop COPY_BUFFER_SIZE b))"

definition inspect_bytes :: "externals \<Rightarrow> nat \<Rightarrow> bytes \<Rightarrow> inspection res" where
  "inspect_bytes X mx b =
     andthen (copy_and_inspect X mx None (file_reads (length b) b)) (\<lambda>(i, _). Inr i)"

section \<open>Delivery metadata\<close>

text \<open>\<open>Path::file_name\<close>: the last component, unless it is \<open>..\<close> or there is none.\<close>

definition path_file_name :: "string \<Rightarrow> string option" where
  "path_file_name s =
     (case List.filter (\<lambda>p. p \<noteq> [] \<and> p \<noteq> ''.'') (split_on (CHR ''/'') s) of
        [] \<Rightarrow> None
      | p # ps \<Rightarrow> if last (p # ps) = ''..'' then None else Some (last (p # ps)))"

definition validate_single_component :: "string \<Rightarrow> unit res" where
  "validate_single_component v =
     ensure (\<not> (v = [] \<or> length v > 255 \<or> CHR 0x00 \<in> set v \<or> has_control v
        \<or> path_file_name v \<noteq> Some v))
       ''must be a single UTF-8 file name''"

definition validate_delivery_metadata :: "delivery \<Rightarrow> nat \<Rightarrow> unit res" where
  "validate_delivery_metadata d mx =
     andthen (ensure (d_schema_version d = MANIFEST_SCHEMA_VERSION)
        ''delivery uses unsupported manifest schema'') (\<lambda>_.
     andthen (validate_delivery_id (d_id d)) (\<lambda>_.
     andthen (if d_payload d \<noteq> [] then validate_single_component (d_payload d) else Inr ()) (\<lambda>_.
     andthen (validate_single_component (d_original_name d)) (\<lambda>_.
     andthen (ensure (d_size d \<noteq> 0) ''delivery is empty'') (\<lambda>_.
     andthen (ensure (d_size d \<le> mx) ''delivery exceeds the byte limit'') (\<lambda>_.
     andthen (validate_sha256 (d_sha256 d)) (\<lambda>_.
     ensure (extension_for_media_type (d_media_type d) \<noteq> None)
        ''delivery uses unsupported media type'')))))))"

section \<open>Facts about scanning\<close>

lemma utf8_next_wf: "utf8_next a r = WellFormed k \<Longrightarrow> k \<le> length r \<and> k \<le> 3"
  by (auto simp: utf8_next_def split: if_splits list.splits)

lemma utf8_next_wf_append:
  "utf8_next a r = WellFormed k \<Longrightarrow> utf8_next a (r @ b) = WellFormed k"
  by (auto simp: utf8_next_def split: if_splits list.splits)

lemma utf8_next_malformed_append:
  "utf8_next a r = Malformed \<Longrightarrow> utf8_next a (r @ b) = Malformed"
  by (auto simp: utf8_next_def split: if_splits list.splits)

lemma utf8_next_truncated: "utf8_next a r = Truncated \<Longrightarrow> length r \<le> 2"
  by (auto simp: utf8_next_def split: if_splits list.splits)

lemma utf8_scan_rest:
  "utf8_scan s = (cs, rest, e) \<Longrightarrow>
     s = concat cs @ rest \<and> (e = Complete \<longleftrightarrow> rest = []) \<and> (e = Unfinished \<longrightarrow> length rest \<le> 3)"
proof (induction s arbitrary: cs rest e rule: utf8_scan.induct)
  case 1
  then show ?case by auto
next
  case (2 a r)
  show ?case
  proof (cases "utf8_next a r")
    case (WellFormed k)
    obtain cs' rest' e' where sc: "utf8_scan (drop k r) = (cs', rest', e')"
      by (cases "utf8_scan (drop k r)") auto
    from "2.IH" [OF WellFormed sc] have ih: "drop k r = concat cs' @ rest'"
      "e' = Complete \<longleftrightarrow> rest' = []" "e' = Unfinished \<longrightarrow> length rest' \<le> 3" by auto
    have "r = take k r @ concat cs' @ rest'"
      using ih(1) by (metis append_take_drop_id)
    then show ?thesis
      using ih(2,3) "2.prems" WellFormed sc by auto
  next
    case Truncated
    then show ?thesis using "2.prems" utf8_next_truncated [of a r] by auto
  next
    case Malformed
    then show ?thesis using "2.prems" by auto
  qed
qed

text \<open>Scanning can stop at the end of a chunk and resume from the unfinished bytes.\<close>

lemma utf8_scan_append:
  assumes "utf8_scan s = (cs, rest, e)" and "e \<noteq> Invalid"
  shows "utf8_scan (s @ t) = (case utf8_scan (rest @ t) of (ds, r, f) \<Rightarrow> (cs @ ds, r, f))"
  using assms
proof (induction s arbitrary: cs rest e rule: utf8_scan.induct)
  case 1
  then show ?case by (auto split: prod.splits)
next
  case (2 a r)
  show ?case
  proof (cases "utf8_next a r")
    case (WellFormed k)
    obtain cs' rest' e' where sc: "utf8_scan (drop k r) = (cs', rest', e')"
      by (cases "utf8_scan (drop k r)") auto
    with "2.prems" WellFormed have eq: "cs = (a # take k r) # cs'" "rest = rest'" "e = e'"
      by auto
    from utf8_next_wf [OF WellFormed] have k: "k \<le> length r" by simp
    have n: "utf8_next a (r @ t) = WellFormed k"
      by (rule utf8_next_wf_append [OF WellFormed])
    have "utf8_scan (drop k r @ t) =
        (case utf8_scan (rest' @ t) of (ds, r, f) \<Rightarrow> (cs' @ ds, r, f))"
      using "2.IH" [OF WellFormed sc] "2.prems"(2) eq(3) by blast
    then show ?thesis
      using n k by (simp add: eq split: prod.splits)
  next
    case Truncated
    with "2.prems" have "cs = []" "rest = a # r" by auto
    then show ?thesis by (auto split: prod.splits utf8_step.splits)
  next
    case Malformed
    with "2.prems" show ?thesis by auto
  qed
qed

lemma utf8_scan_append_invalid:
  assumes "utf8_scan s = (cs, rest, Invalid)"
  shows "\<exists>r. utf8_scan (s @ t) = (cs, r, Invalid)"
  using assms
proof (induction s arbitrary: cs rest rule: utf8_scan.induct)
  case 1
  then show ?case by simp
next
  case (2 a r)
  show ?case
  proof (cases "utf8_next a r")
    case (WellFormed k)
    obtain cs' rest' e' where sc: "utf8_scan (drop k r) = (cs', rest', e')"
      by (cases "utf8_scan (drop k r)") auto
    with "2.prems" WellFormed have eq: "cs = (a # take k r) # cs'" "e' = Invalid"
      by auto
    from utf8_next_wf [OF WellFormed] have k: "k \<le> length r" by simp
    have n: "utf8_next a (r @ t) = WellFormed k"
      by (rule utf8_next_wf_append [OF WellFormed])
    from "2.IH" [OF WellFormed] sc eq(2)
    obtain r' where "utf8_scan (drop k r @ t) = (cs', r', Invalid)" by blast
    then show ?thesis
      using n k by (simp add: eq)
  next
    case Truncated
    with "2.prems" show ?thesis by auto
  next
    case Malformed
    with "2.prems" have "cs = []" by auto
    then show ?thesis
      using utf8_next_malformed_append [OF Malformed, of t] by simp
  qed
qed

definition plain_text :: "bytes \<Rightarrow> bool" where
  "plain_text b = (case utf8_scan b of
      (cs, rest, Complete) \<Rightarrow> list_all is_plain_text_character cs | _ \<Rightarrow> False)"

text \<open>The probe's state after \<open>s\<close>: what the scan of all of \<open>s\<close> says.\<close>

definition probe_of :: "bytes \<Rightarrow> text_probe" where
  "probe_of s = probe_observe probe_default s"

lemma probe_of_verdict: "probe_of s = probe_verdict (utf8_scan s)"
  by (simp add: probe_of_def probe_observe_def probe_default_def)

lemma probe_verdict_prepend:
  "probe_verdict (cs @ ds, r, e) =
     (if list_all is_plain_text_character cs then probe_verdict (ds, r, e)
      else \<lparr>tp_valid = False, tp_incomplete = []\<rparr>)"
  by (cases e) (simp_all add: probe_verdict_def Let_def)

lemma probe_observe_append: "probe_observe (probe_of s) t = probe_of (s @ t)"
proof -
  obtain cs rest e where sc: "utf8_scan s = (cs, rest, e)"
    by (cases "utf8_scan s") auto
  obtain ds r f where rt: "utf8_scan (rest @ t) = (ds, r, f)"
    by (cases "utf8_scan (rest @ t)") auto
  note rest = utf8_scan_rest [OF sc]
  show ?thesis
  proof (cases "e = Invalid")
    case True
    with utf8_scan_append_invalid [of s cs rest t] sc show ?thesis
      by (auto simp: probe_of_verdict probe_observe_def probe_verdict_def)
  next
    case False
    then have app: "utf8_scan (s @ t) = (cs @ ds, r, f)"
      using utf8_scan_append [OF sc, of t] rt by simp
    have "probe_verdict (cs, rest, e) =
        (if list_all is_plain_text_character cs then \<lparr>tp_valid = True, tp_incomplete = rest\<rparr>
         else \<lparr>tp_valid = False, tp_incomplete = []\<rparr>)"
      using False rest by (cases e) (auto simp: probe_verdict_def)
    then show ?thesis
      by (simp add: probe_of_verdict probe_observe_def sc app rt probe_verdict_prepend)
  qed
qed

lemma probe_of_Nil: "probe_of [] = probe_default"
  by (simp add: probe_of_verdict probe_verdict_def probe_default_def)

lemma fold_probe_observe: "fold (\<lambda>b p. probe_observe p b) bs (probe_of s) = probe_of (s @ concat bs)"
  by (induction bs arbitrary: s) (simp_all add: probe_observe_append)

lemma probe_of_plain: "probe_is_plain_text (probe_of s) = plain_text s"
proof -
  obtain cs rest e where sc: "utf8_scan s = (cs, rest, e)"
    by (cases "utf8_scan s") auto
  with utf8_scan_rest [OF sc] show ?thesis
    by (cases e) (auto simp: probe_of_verdict probe_verdict_def plain_text_def
        probe_is_plain_text_def Let_def)
qed

section \<open>Facts about the copy loop\<close>

text \<open>The loop's state after the bytes \<open>w\<close>, however they arrived.\<close>

definition copy_of :: "bytes \<Rightarrow> copy_state" where
  "copy_of w = \<lparr>cs_size = length w, cs_header = take HEADER_SIZE w, cs_probe = probe_of w,
     cs_written = w\<rparr>"

lemma copy_init_of: "copy_init = copy_of []"
  by (simp add: copy_init_def copy_of_def probe_of_Nil)

definition size_allowed :: "nat \<Rightarrow> nat option \<Rightarrow> nat \<Rightarrow> bool" where
  "size_allowed mx expected n \<longleftrightarrow>
     n \<le> u64_max \<and> n \<le> mx \<and> (case expected of None \<Rightarrow> True | Some e \<Rightarrow> n \<le> e)"

lemma size_allowed_mono: "size_allowed mx expected n \<Longrightarrow> k \<le> n \<Longrightarrow> size_allowed mx expected k"
  by (auto simp: size_allowed_def split: option.splits)

lemma copy_of_fields:
  "cs_size (copy_of w) = length w" "cs_header (copy_of w) = take HEADER_SIZE w"
  "cs_probe (copy_of w) = probe_of w" "cs_written (copy_of w) = w"
  by (simp_all add: copy_of_def)

lemma copy_put_of: "copy_put (copy_of w) b (length w + length b) = copy_of (w @ b)"
  by (auto simp: copy_put_def copy_of_def probe_observe_append min_def)

lemma copy_loop_step:
  "b \<noteq> [] \<Longrightarrow> size_allowed mx expected (length (w @ b)) \<Longrightarrow>
     copy_loop mx expected (Chunk b # es) (copy_of w) = copy_loop mx expected es (copy_of (w @ b))"
  by (auto simp: checked_add_u64_def size_allowed_def copy_of_fields copy_put_of
      split: option.splits)

lemma copy_loop_stop:
  "b \<noteq> [] \<Longrightarrow> \<not> size_allowed mx expected (length (w @ b)) \<Longrightarrow>
     \<exists>e. copy_loop mx expected (Chunk b # es) (copy_of w) = Inl e"
  by (auto simp: checked_add_u64_def size_allowed_def copy_of_fields split: option.splits)

lemma copy_loop_ok:
  assumes "size_allowed mx expected (length (w @ concat bs))" and "[] \<notin> set bs"
  shows "copy_loop mx expected (List.map Chunk bs) (copy_of w) = Inr (copy_of (w @ concat bs))"
  using assms
proof (induction bs arbitrary: w)
  case Nil
  then show ?case by simp
next
  case (Cons b bs)
  have "size_allowed mx expected (length (w @ b))"
    by (rule size_allowed_mono [OF Cons.prems(1)]) simp
  then have "copy_loop mx expected (List.map Chunk (b # bs)) (copy_of w) =
      copy_loop mx expected (List.map Chunk bs) (copy_of (w @ b))"
    using Cons.prems(2) by (auto simp: copy_loop_step simp del: copy_loop.simps)
  also have "\<dots> = Inr (copy_of ((w @ b) @ concat bs))"
    by (rule Cons.IH) (use Cons.prems in auto)
  finally show ?case by simp
qed

lemma copy_loop_Inr:
  assumes "copy_loop mx expected (List.map Chunk bs) (copy_of w) = Inr st"
    and "[] \<notin> set bs" and "size_allowed mx expected (length w)"
  shows "st = copy_of (w @ concat bs) \<and> size_allowed mx expected (length (w @ concat bs))"
  using assms
proof (induction bs arbitrary: w)
  case Nil
  then show ?case by simp
next
  case (Cons b bs)
  have b: "b \<noteq> []" using Cons.prems(2) by auto
  have a: "size_allowed mx expected (length (w @ b))"
    using copy_loop_stop [OF b, of mx expected w "List.map Chunk bs"] Cons.prems(1)
    by (metis Inl_Inr_False list.simps(9))
  have l: "copy_loop mx expected (List.map Chunk bs) (copy_of (w @ b)) = Inr st"
    using Cons.prems(1) by (simp add: copy_loop_step [OF b a] del: copy_loop.simps)
  from Cons.IH [OF l _ a] Cons.prems(2) show ?case by simp
qed

definition inspection_of :: "externals \<Rightarrow> bytes \<Rightarrow> inspection" where
  "inspection_of X w =
     (case detect_media_type (take HEADER_SIZE w) (plain_text w) of
        (m, x) \<Rightarrow> \<lparr>in_size = length w, in_sha256 = sha256_hex X w, in_media_type = m,
          in_extension = x\<rparr>)"

definition inspectable :: "nat \<Rightarrow> nat option \<Rightarrow> bytes \<Rightarrow> bool" where
  "inspectable mx expected w \<longleftrightarrow> w \<noteq> [] \<and> length w \<le> mx \<and> length w \<le> u64_max
     \<and> (case expected of None \<Rightarrow> True | Some e \<Rightarrow> length w = e)"

lemma copy_and_inspect_chunks:
  assumes "[] \<notin> set bs"
  shows "copy_and_inspect X mx expected (List.map Chunk bs) = Inr r
     \<longleftrightarrow> inspectable mx expected (concat bs) \<and> r = (inspection_of X (concat bs), concat bs)"
proof (cases "size_allowed mx expected (length (concat bs))")
  case True
  then have "copy_loop mx expected (List.map Chunk bs) copy_init = Inr (copy_of (concat bs))"
    using copy_loop_ok [of mx expected "[]" bs] assms by (simp add: copy_init_of)
  then show ?thesis
    using True
    by (auto simp: copy_and_inspect_def copy_of_def inspectable_def size_allowed_def
        inspection_of_def probe_of_plain split: prod.splits option.splits)
next
  case False
  then have "copy_loop mx expected (List.map Chunk bs) copy_init \<noteq> Inr st" for st
    using copy_loop_Inr [of mx expected bs "[]" st] assms
    by (auto simp: copy_init_of size_allowed_def split: option.splits)
  then have "copy_and_inspect X mx expected (List.map Chunk bs) \<noteq> Inr r"
    by (auto simp: copy_and_inspect_def andthen_Inr)
  then show ?thesis
    using False by (auto simp: inspectable_def size_allowed_def split: option.splits)
qed

lemma file_reads_chunks:
  "length b \<le> n \<Longrightarrow> \<exists>bs. file_reads n b = List.map Chunk bs \<and> [] \<notin> set bs \<and> concat bs = b"
proof (induction n arbitrary: b)
  case 0
  then show ?case by auto
next
  case (Suc n)
  show ?case
  proof (cases "b = []")
    case True
    then show ?thesis by (intro exI [of _ "[]"]) simp
  next
    case False
    have "length (drop COPY_BUFFER_SIZE b) \<le> n"
      using Suc.prems by (simp add: COPY_BUFFER_SIZE_def)
    from Suc.IH [OF this] obtain bs where
      "file_reads n (drop COPY_BUFFER_SIZE b) = List.map Chunk bs" "[] \<notin> set bs"
      "concat bs = drop COPY_BUFFER_SIZE b" by blast
    with False show ?thesis
      by (intro exI [of _ "take COPY_BUFFER_SIZE b # bs"]) (auto simp: COPY_BUFFER_SIZE_def)
  qed
qed

lemma inspect_bytes_Inr:
  "inspect_bytes X mx b = Inr i \<longleftrightarrow> inspectable mx None b \<and> i = inspection_of X b"
proof -
  obtain bs where bs: "file_reads (length b) b = List.map Chunk bs" "[] \<notin> set bs" "concat bs = b"
    using file_reads_chunks [of b "length b"] by blast
  show ?thesis
    using copy_and_inspect_chunks [OF bs(2), of X mx None]
    by (auto simp: inspect_bytes_def bs andthen_Inr)
qed

definition known_pair :: "string \<times> string \<Rightarrow> bool" where
  "known_pair p \<longleftrightarrow> extension_for_media_type (fst p) = Some (snd p)"

lemma known_pair_if: "known_pair p \<Longrightarrow> known_pair q \<Longrightarrow> known_pair (if c then p else q)"
  by simp

lemma known_pair_detect: "known_pair (detect_media_type h t)"
  unfolding detect_media_type_def
  by (intro known_pair_if) (simp_all add: known_pair_def extension_for_media_type_def)

lemma detect_media_type_extension:
  "detect_media_type h t = (m, x) \<Longrightarrow> extension_for_media_type m = Some x"
  using known_pair_detect [of h t] by (simp add: known_pair_def)

lemma extension_supported: "extension_for_media_type m = Some x \<Longrightarrow> is_supported_content_extension x"
  by (auto simp: extension_for_media_type_def is_supported_content_extension_def split: if_splits)

lemma inspection_of_extension:
  "extension_for_media_type (in_media_type (inspection_of X w)) = Some (in_extension (inspection_of X w))"
  by (auto simp: inspection_of_def split: prod.splits dest: detect_media_type_extension)

lemma inspection_of_fields [simp]:
  "in_size (inspection_of X w) = length w" "in_sha256 (inspection_of X w) = sha256_hex X w"
  by (auto simp: inspection_of_def split: prod.splits)

section \<open>Facts about metadata\<close>

definition valid_component :: "string \<Rightarrow> bool" where
  "valid_component v = is_ok (validate_single_component v)"

lemma validate_single_component_ok [simp]:
  "validate_single_component v = Inr u \<longleftrightarrow> valid_component v"
  by (auto simp: valid_component_def is_ok_iff)

lemma path_file_name_self:
  "path_file_name v = Some v \<longleftrightarrow> v \<noteq> [] \<and> CHR ''/'' \<notin> set v \<and> v \<noteq> ''.'' \<and> v \<noteq> ''..''"
proof
  assume a: "path_file_name v = Some v"
  define ps where "ps = List.filter (\<lambda>p. p \<noteq> [] \<and> p \<noteq> ''.'') (split_on (CHR ''/'') v)"
  have ps: "ps \<noteq> []" "last ps = v" "v \<noteq> ''..''"
    using a by (auto simp: path_file_name_def ps_def [symmetric] split: list.splits if_splits)
  then have "v \<in> set ps" using last_in_set by blast
  then have "v \<in> set (split_on (CHR ''/'') v)" "v \<noteq> []" "v \<noteq> ''.''"
    by (auto simp: ps_def)
  with ps(3) have l: "v \<in> set (split_on (CHR ''/'') v)" "v \<noteq> []" "v \<noteq> ''.''" "v \<noteq> ''..''"
    by simp_all
  then show "v \<noteq> [] \<and> CHR ''/'' \<notin> set v \<and> v \<noteq> ''.'' \<and> v \<noteq> ''..''"
    using split_on_parts by blast
next
  assume "v \<noteq> [] \<and> CHR ''/'' \<notin> set v \<and> v \<noteq> ''.'' \<and> v \<noteq> ''..''"
  then show "path_file_name v = Some v"
    by (simp add: path_file_name_def split_on_single)
qed

lemma valid_component_iff:
  "valid_component v \<longleftrightarrow> v \<noteq> [] \<and> length v \<le> 255 \<and> CHR 0x00 \<notin> set v \<and> \<not> has_control v
     \<and> CHR ''/'' \<notin> set v \<and> v \<noteq> ''.'' \<and> v \<noteq> ''..''"
  by (auto simp: valid_component_def validate_single_component_def ensure_def path_file_name_self)

definition valid_metadata :: "delivery \<Rightarrow> nat \<Rightarrow> bool" where
  "valid_metadata d mx = is_ok (validate_delivery_metadata d mx)"

lemma validate_delivery_metadata_ok [simp]:
  "validate_delivery_metadata d mx = Inr u \<longleftrightarrow> valid_metadata d mx"
  by (auto simp: valid_metadata_def is_ok_iff)

lemma valid_metadata_iff:
  "valid_metadata d mx \<longleftrightarrow>
     d_schema_version d = MANIFEST_SCHEMA_VERSION \<and> valid_delivery_id (d_id d)
     \<and> (d_payload d = [] \<or> valid_component (d_payload d)) \<and> valid_component (d_original_name d)
     \<and> 0 < d_size d \<and> d_size d \<le> mx \<and> valid_sha256 (d_sha256 d)
     \<and> (\<exists>x. extension_for_media_type (d_media_type d) = Some x)"
  by (auto simp: valid_metadata_def validate_delivery_metadata_def is_ok_iff andthen_Inr)

end
