(* ===== verification/Library.thy ===== *)
theory Library
  imports Media
begin

text \<open>
  The content-addressed library of \<open>src/storage.rs\<close>: a directory with one shard directory per
  two leading digest digits, the staging directory with its ownership marker, and the lock
  file. \<open>Dir\<close> is a directory listing, \<open>File\<close> a regular file with its bytes, \<open>Link\<close> a symbolic link with
  the bytes of the regular file it leads to (\<open>None\<close> when it is broken), \<open>Other\<close> any other kind
  of entry. Temporary files that a call creates and removes again (the staged copy of
  \<open>receive\<close>, which a failed call drops and a successful one renames to its destination) leave
  no trace in the state. Flushing to disk has no effect here, and the system calls that the
  model performs do not fail for reasons of the device.
\<close>

datatype node = File bytes | Link "bytes option" | Other | Dir "(string \<times> node) list"

type_synonym dir = "(string \<times> node) list"

section \<open>Directories\<close>

definition child :: "dir \<Rightarrow> string \<Rightarrow> dir" where
  "child root shard = (case map_of root shard of Some (Dir es) \<Rightarrow> es | _ \<Rightarrow> [])"

definition obj_at :: "dir \<Rightarrow> string \<Rightarrow> string \<Rightarrow> node option" where
  "obj_at root shard name = map_of (child root shard) name"

definition put_obj :: "string \<Rightarrow> string \<Rightarrow> node \<Rightarrow> dir \<Rightarrow> dir" where
  "put_obj shard name x root = AList.update shard (Dir (AList.update name x (child root shard))) root"

definition del_obj :: "string \<Rightarrow> string \<Rightarrow> dir \<Rightarrow> dir" where
  "del_obj shard name root = AList.update shard (Dir (AList.delete name (child root shard))) root"

text \<open>\<open>symlink_metadata(root/shard/name)\<close>: \<open>None\<close> is \<open>NotFound\<close>.\<close>

definition stat_obj :: "dir \<Rightarrow> string \<Rightarrow> string \<Rightarrow> node option res" where
  "stat_obj root shard name =
     (case map_of root shard of
        None \<Rightarrow> Inr None
      | Some (Dir es) \<Rightarrow> Inr (map_of es name)
      | Some (Link None) \<Rightarrow> Inr None
      | Some _ \<Rightarrow> Inl (Bail ''failed to inspect object''))"

definition is_file_or_link :: "node \<Rightarrow> bool" where
  "is_file_or_link x = (case x of File _ \<Rightarrow> True | Link _ \<Rightarrow> True | _ \<Rightarrow> False)"

definition is_regular :: "node \<Rightarrow> bool" where
  "is_regular x = (case x of File _ \<Rightarrow> True | _ \<Rightarrow> False)"

section \<open>Locking, staging\<close>

definition LIBRARY_LOCK_FILE :: string where "LIBRARY_LOCK_FILE = ''.mirelay.lock''"
definition STAGING_DIR_NAME :: string where "STAGING_DIR_NAME = ''.mirelay-staging-v1''"
definition STAGING_OWNER_FILE :: string where "STAGING_OWNER_FILE = ''.owner''"
definition STAGING_OWNER_CONTENT :: bytes where
  "STAGING_OWNER_CONTENT = ''MiRelay staging directory v1'' @ [CHR 0x0A]"
definition STAGING_OWNER_TEMP_PREFIX :: string where
  "STAGING_OWNER_TEMP_PREFIX = ''.mirelay-owner-''"

definition lock_library :: "(dir, unit) op" where
  "lock_library root =
     (case map_of root LIBRARY_LOCK_FILE of
        None \<Rightarrow> (Inr (), AList.update LIBRARY_LOCK_FILE (File []) root)
      | Some (File _) \<Rightarrow> (Inr (), root)
      | Some _ \<Rightarrow> (Inl (Bail ''library lock is not a regular file''), root))"

definition ensure_child_directory :: "string \<Rightarrow> (dir, unit) op" where
  "ensure_child_directory name root =
     (case map_of root name of
        Some (Dir _) \<Rightarrow> (Inr (), root)
      | Some _ \<Rightarrow> (Inl (Bail ''internal path exists but is not a real directory''), root)
      | None \<Rightarrow> (Inr (), AList.update name (Dir []) root))"

definition is_owner_temp :: "string \<Rightarrow> node \<Rightarrow> bool" where
  "is_owner_temp name x \<longleftrightarrow>
     prefix STAGING_OWNER_TEMP_PREFIX name \<and> suffix ''.tmp'' name \<and> is_file_or_link x"

text \<open>
  The scan of a staging directory without a marker: leftovers of earlier attempts are removed,
  and the first other entry stops it. Returns whether the scan ended, and what is left.
\<close>

fun drop_owner_temps :: "dir \<Rightarrow> bool \<times> dir" where
  "drop_owner_temps [] = (True, [])"
| "drop_owner_temps ((n, x) # es) =
     (if is_owner_temp n x then drop_owner_temps es else (False, (n, x) # es))"

definition claim_staging :: "dir \<Rightarrow> unit res \<times> dir" where
  "claim_staging es =
     (case map_of es STAGING_OWNER_FILE of
        Some (File c) \<Rightarrow>
          if length c > 128 then (Inl (Bail ''exceeds the byte safety limit''), es)
          else if c \<noteq> STAGING_OWNER_CONTENT
            then (Inl (Bail ''staging directory is not owned by this MiRelay format''), es)
          else (Inr (), es)
      | Some _ \<Rightarrow> (Inl (Bail ''staging ownership marker is not a regular file''), es)
      | None \<Rightarrow>
          (case drop_owner_temps es of
             (True, left) \<Rightarrow>
               (Inr (), AList.update STAGING_OWNER_FILE (File STAGING_OWNER_CONTENT) left)
           | (False, left) \<Rightarrow>
               (Inl (Bail ''refusing to claim non-empty staging directory''), left)))"

definition ensure_staging_directory :: "(dir, unit) op" where
  "ensure_staging_directory =
     bindo (ensure_child_directory STAGING_DIR_NAME) (\<lambda>_ root.
       case claim_staging (child root STAGING_DIR_NAME) of
         (r, es) \<Rightarrow> (r, AList.update STAGING_DIR_NAME (Dir es) root))"

definition is_owned_temporary :: "string \<Rightarrow> node \<Rightarrow> bool" where
  "is_owned_temporary name x \<longleftrightarrow>
     prefix ''mirelay-'' name \<and> suffix ''.part'' name \<and> is_file_or_link x"

definition cleanup_staging :: "(dir, nat) op" where
  "cleanup_staging =
     bindo ensure_staging_directory (\<lambda>_ root.
       let es = child root STAGING_DIR_NAME;
           stale = List.filter (\<lambda>(n, x). is_owned_temporary n x) es
       in (Inr (length stale),
           AList.update STAGING_DIR_NAME
             (Dir (List.filter (\<lambda>(n, x). \<not> is_owned_temporary n x) es)) root))"

section \<open>Inspecting stored files\<close>

text \<open>\<open>File::open\<close> follows links.\<close>

definition inspect_file :: "externals \<Rightarrow> node option \<Rightarrow> nat \<Rightarrow> inspection res" where
  "inspect_file X x mx =
     (case x of
        Some (File b) \<Rightarrow> inspect_bytes X mx b
      | Some (Link (Some b)) \<Rightarrow> inspect_bytes X mx b
      | _ \<Rightarrow> Inl (Bail ''failed to open media file''))"

definition verify_recorded_file ::
    "externals \<Rightarrow> node option \<Rightarrow> nat \<Rightarrow> string \<Rightarrow> string \<Rightarrow> nat \<Rightarrow> unit res" where
  "verify_recorded_file X x size' sha media mx =
     (case x of
        Some (File b) \<Rightarrow>
          andthen (inspect_bytes X mx b) (\<lambda>i.
            ensure (\<not> (in_size i \<noteq> size' \<or> in_sha256 i \<noteq> sha \<or> in_media_type i \<noteq> media))
              ''stored file no longer matches its recorded metadata'')
      | Some (Dir _) \<Rightarrow> Inl (Bail ''stored media file is not a regular file'')
      | Some Other \<Rightarrow> Inl (Bail ''stored media file is not a regular file'')
      | _ \<Rightarrow> Inl (Bail ''failed to open stored media file''))"

section \<open>Content paths\<close>

definition object_name :: "string \<Rightarrow> string \<Rightarrow> string" where
  "object_name sha ext = sha @ ''.'' @ ext"

definition content_path :: "string \<Rightarrow> string \<Rightarrow> (string \<times> string) res" where
  "content_path sha media =
     andthen (validate_sha256 sha) (\<lambda>_.
     andthen (of_option ''unsupported media type'' (extension_for_media_type media)) (\<lambda>ext.
     Inr (take 2 sha, object_name sha ext)))"

section \<open>Receiving a delivery\<close>

record stored_asset =
  sa_path :: "string \<times> string"
  sa_size :: nat
  sa_sha256 :: string
  sa_media_type :: string

definition target_exists :: "node option \<Rightarrow> bool" where
  "target_exists x = (case x of None \<Rightarrow> False | Some (Link None) \<Rightarrow> False | Some _ \<Rightarrow> True)"

text \<open>
  The commit: an existing target must hold the same content; a free one is created without
  replacing (\<open>persist_noclobber\<close>), which a broken link also refuses.
\<close>

definition commit_object ::
    "externals \<Rightarrow> nat \<Rightarrow> inspection \<Rightarrow> bytes \<Rightarrow> (dir, stored_asset) op" where
  "commit_object X mx i data root =
     (let shard = take 2 (in_sha256 i); name = object_name (in_sha256 i) (in_extension i);
          asset = \<lparr>sa_path = (shard, name), sa_size = in_size i, sa_sha256 = in_sha256 i,
            sa_media_type = in_media_type i\<rparr>;
          old = obj_at root shard name
      in if target_exists old then
           (case inspect_file X old mx of
              Inl e \<Rightarrow> (Inl e, root)
            | Inr existing \<Rightarrow>
                if existing \<noteq> i
                then (Inl (Bail ''content-addressed file exists but does not match its digest''), root)
                else (Inr asset, root))
         else if old = None then (Inr asset, put_obj shard name (File data) root)
         else
           (case inspect_file X old mx of
              Inl e \<Rightarrow> (Inl e, root)
            | Inr existing \<Rightarrow>
                if existing \<noteq> i
                then (Inl (Bail ''content-addressed file appeared concurrently with different content''), root)
                else (Inr asset, root)))"

definition receive ::
    "externals \<Rightarrow> delivery \<Rightarrow> read_event list \<Rightarrow> nat \<Rightarrow> (dir, stored_asset) op" where
  "receive X d es mx =
     bindo (lifto (validate_delivery_metadata d mx)) (\<lambda>_.
     bindo ensure_staging_directory (\<lambda>_.
     bindo (lifto (copy_and_inspect X mx (Some (d_size d)) es)) (\<lambda>(i, data).
     bindo (lifto (ensure (in_sha256 i = to_ascii_lowercase (d_sha256 d))
         ''delivery checksum mismatch'')) (\<lambda>_.
     bindo (lifto (ensure (in_media_type i = d_media_type d)
         ''delivery media type mismatch'')) (\<lambda>_.
     bindo (ensure_child_directory (take 2 (in_sha256 i))) (\<lambda>_.
     commit_object X mx i data))))))"

section \<open>Quarantine\<close>

definition quarantine_content_object :: "string \<Rightarrow> string \<Rightarrow> string \<Rightarrow> (dir, bool) op" where
  "quarantine_content_object uuid sha media =
     bindo (lifto (content_path sha media)) (\<lambda>(shard, name).
     bindo (readso (\<lambda>root. stat_obj root shard name)) (\<lambda>x.
       (case x of
          None \<Rightarrow> retn False
        | Some n \<Rightarrow>
            if \<not> is_file_or_link n then fails (Bail ''suspect object is not a file'')
            else
              bindo ensure_staging_directory (\<lambda>_ root.
                (Inr True,
                 put_obj STAGING_DIR_NAME (''mirelay-repair-'' @ uuid @ ''.part'') n
                   (del_obj shard name root))))))"

section \<open>Facts about directories\<close>

lemma map_of_update [simp]: "map_of (AList.update k v m) = (map_of m)(k \<mapsto> v)"
  by (rule update_conv')

lemma map_of_delete [simp]: "map_of (AList.delete k m) = (map_of m)(k := None)"
  by (rule delete_conv')

lemma child_update [simp]:
  "child (AList.update s (Dir es) root) t = (if t = s then es else child root t)"
  by (simp add: child_def)

lemma obj_at_update [simp]:
  "obj_at (AList.update s (Dir es) root) t n = (if t = s then map_of es n else obj_at root t n)"
  by (simp add: obj_at_def)

lemma obj_at_put:
  "obj_at (put_obj s n x root) t k = (if t = s \<and> k = n then Some x else obj_at root t k)"
  by (auto simp: put_obj_def obj_at_def)

lemma obj_at_del:
  "obj_at (del_obj s n root) t k = (if t = s \<and> k = n then None else obj_at root t k)"
  by (auto simp: del_obj_def obj_at_def)

text \<open>Everything outside the shard \<open>s\<close> is as before.\<close>

definition same_outside :: "string \<Rightarrow> dir \<Rightarrow> dir \<Rightarrow> bool" where
  "same_outside s root root' \<longleftrightarrow> (\<forall>t n. t \<noteq> s \<longrightarrow> obj_at root' t n = obj_at root t n)"

lemma same_outside_refl [simp]: "same_outside s root root"
  by (simp add: same_outside_def)

lemma same_outside_trans: "same_outside s a b \<Longrightarrow> same_outside s b c \<Longrightarrow> same_outside s a c"
  by (simp add: same_outside_def)

lemma ensure_child_directory_same:
  "ensure_child_directory name root = (r, root') \<Longrightarrow> obj_at root' t n = obj_at root t n"
  by (auto simp: ensure_child_directory_def obj_at_def child_def
      split: option.splits node.splits if_splits)

lemma ensure_staging_directory_same:
  "ensure_staging_directory root = (r, root') \<Longrightarrow> same_outside STAGING_DIR_NAME root root'"
  by (auto simp: ensure_staging_directory_def bindo_def same_outside_def
      dest: ensure_child_directory_same split: prod.splits sum.splits)

lemma lock_library_same:
  "lock_library root = (r, root') \<Longrightarrow> obj_at root' t n = obj_at root t n"
  by (auto simp: lock_library_def obj_at_def child_def split: option.splits node.splits if_splits)

lemma cleanup_staging_same:
  "cleanup_staging root = (r, root') \<Longrightarrow> same_outside STAGING_DIR_NAME root root'"
  by (auto simp: cleanup_staging_def bindo_def Let_def same_outside_def
      dest!: ensure_staging_directory_same split: prod.splits sum.splits)

lemma staging_not_short: "take 2 h \<noteq> STAGING_DIR_NAME"
proof
  assume "take 2 h = STAGING_DIR_NAME"
  then have "length (take 2 h) = length STAGING_DIR_NAME" by simp
  then show False by (simp add: STAGING_DIR_NAME_def)
qed

lemma content_path_Inr:
  "content_path sha media = Inr (s, n) \<longleftrightarrow> valid_sha256 sha \<and> s = take 2 sha
     \<and> (\<exists>ext. extension_for_media_type media = Some ext \<and> n = object_name sha ext)"
  by (auto simp: content_path_def andthen_Inr)

lemma verify_recorded_file_ok:
  "verify_recorded_file X x sz sha media mx = Inr u \<longleftrightarrow>
     (\<exists>b. x = Some (File b) \<and> inspectable mx None b \<and> length b = sz \<and> sha256_hex X b = sha
        \<and> in_media_type (inspection_of X b) = media)"
  by (auto simp: verify_recorded_file_def andthen_Inr inspect_bytes_Inr
      split: option.splits node.splits)

section \<open>Facts about receiving\<close>

text \<open>A stored object that reads as content with the digest, size and type given.\<close>

definition holds_content ::
    "externals \<Rightarrow> node option \<Rightarrow> nat \<Rightarrow> string \<Rightarrow> string \<Rightarrow> bool" where
  "holds_content X x sz sha media \<longleftrightarrow>
     (\<exists>b. (x = Some (File b) \<or> x = Some (Link (Some b))) \<and> length b = sz
        \<and> sha256_hex X b = sha \<and> in_media_type (inspection_of X b) = media)"

lemma inspect_file_Inr:
  "inspect_file X x mx = Inr i \<longleftrightarrow>
     (\<exists>b. (x = Some (File b) \<or> x = Some (Link (Some b))) \<and> inspectable mx None b
        \<and> i = inspection_of X b)"
  by (auto simp: inspect_file_def inspect_bytes_Inr split: option.splits node.splits)

lemma inspect_file_holds:
  "inspect_file X x mx = Inr i \<Longrightarrow>
     holds_content X x (in_size i) (in_sha256 i) (in_media_type i)"
  by (auto simp: inspect_file_Inr holds_content_def)

lemma commit_object_frame:
  assumes "commit_object X mx i data root = (r, root')"
  shows "obj_at root' s n = obj_at root s n
     \<or> (r = Inr \<lparr>sa_path = (s, n), sa_size = in_size i, sa_sha256 = in_sha256 i,
            sa_media_type = in_media_type i\<rparr> \<and> obj_at root s n = None
        \<and> obj_at root' s n = Some (File data))"
  using assms
  by (auto simp: commit_object_def Let_def obj_at_put split: if_splits sum.splits)

lemma commit_object_ok:
  assumes "commit_object X mx (inspection_of X data) data root = (Inr asset, root')"
  defines "i \<equiv> inspection_of X data"
  shows "asset = \<lparr>sa_path = (take 2 (in_sha256 i), object_name (in_sha256 i) (in_extension i)),
      sa_size = in_size i, sa_sha256 = in_sha256 i, sa_media_type = in_media_type i\<rparr>"
    and "holds_content X (obj_at root' (fst (sa_path asset)) (snd (sa_path asset)))
      (in_size i) (in_sha256 i) (in_media_type i)"
proof -
  show a: "asset = \<lparr>sa_path = (take 2 (in_sha256 i), object_name (in_sha256 i) (in_extension i)),
      sa_size = in_size i, sa_sha256 = in_sha256 i, sa_media_type = in_media_type i\<rparr>"
    using assms by (auto simp: commit_object_def Let_def split: if_splits sum.splits)
  show "holds_content X (obj_at root' (fst (sa_path asset)) (snd (sa_path asset)))
      (in_size i) (in_sha256 i) (in_media_type i)"
    using assms(1) a
    by (auto simp: commit_object_def Let_def obj_at_put i_def [symmetric]
        split: if_splits sum.splits dest: inspect_file_holds)
      (auto simp: holds_content_def i_def)
qed

lemma receive_Inr:
  assumes "receive X d (List.map Chunk bs) mx root = (Inr asset, root')" and "[] \<notin> set bs"
  shows "valid_metadata d mx \<and> inspectable mx (Some (d_size d)) (concat bs)
     \<and> sha256_hex X (concat bs) = d_sha256 d
     \<and> in_media_type (inspection_of X (concat bs)) = d_media_type d
     \<and> (\<exists>r1 r2. ensure_staging_directory root = (Inr (), r1)
         \<and> ensure_child_directory (take 2 (d_sha256 d)) r1 = (Inr (), r2)
         \<and> commit_object X mx (inspection_of X (concat bs)) (concat bs) r2 = (Inr asset, root'))"
  using assms
  by (auto simp: receive_def bindo_ok lifto_def copy_and_inspect_chunks valid_sha256_lower
      valid_metadata_iff dest!: valid_sha256_lower split: prod.splits)

lemma receive_frame:
  assumes "receive X d es mx root = (r, root')" and "s \<noteq> STAGING_DIR_NAME"
  shows "obj_at root' s n = obj_at root s n
     \<or> (\<exists>asset b. r = Inr asset \<and> sa_path asset = (s, n) \<and> obj_at root s n = None
          \<and> obj_at root' s n = Some (File b))"
proof -
  have st: "ensure_staging_directory a = (q, b) \<Longrightarrow> obj_at b s n = obj_at a s n" for a b q
    using ensure_staging_directory_same [of a q b] assms(2) by (simp add: same_outside_def)
  have cm: "commit_object X mx i data a = (q, b) \<Longrightarrow>
      obj_at b s n = obj_at a s n \<or> (\<exists>asset. q = Inr asset \<and> sa_path asset = (s, n)
        \<and> obj_at a s n = None \<and> (\<exists>c. obj_at b s n = Some (File c)))" for i data a b q
    using commit_object_frame [of X mx i data a q b s n] by auto
  show ?thesis
  proof (cases "is_ok r")
    case True
    then obtain asset where "r = Inr asset" by (auto simp: is_ok_iff)
    with assms(1) show ?thesis
      by (fastforce simp: receive_def bindo_ok lifto_def split: prod.splits
          dest: st cm ensure_child_directory_same [where t = s and n = n])
  next
    case False
    then obtain e where "r = Inl e" by (cases r) auto
    with assms(1) show ?thesis
      by (auto simp: receive_def bindo_err lifto_def split: prod.splits
          dest!: st cm ensure_child_directory_same [where t = s and n = n])
  qed
qed

end
