(* ===== verification/Directory.thy ===== *)
theory Directory
  imports Media
begin

text \<open>
  The portable paths, inventories and comparisons of \<open>src/directory.rs\<close>. A \<open>BTreeSet\<close> whose
  order does not matter is the list of its elements; a \<open>BTreeMap\<close> is an ordered association
  list.
\<close>

definition DIR_VERSION :: nat where "DIR_VERSION = 1"
definition MAX_ENTRIES :: nat where "MAX_ENTRIES = 5000"
definition DIR_MAX_FILE :: nat where "DIR_MAX_FILE = 100 * 1024 * 1024"

abbreviation slash :: char where "slash \<equiv> CHR 0x2F"

section \<open>Paths\<close>

definition check_component :: "string \<Rightarrow> unit res" where
  "check_component part =
     ensure (part \<noteq> [] \<and> part \<noteq> ''.'' \<and> part \<noteq> ''..'' \<and> length part \<le> 255
       \<and> \<not> has_control part \<and> \<not> prefix ''.mirelay'' (to_ascii_lowercase part)
       \<and> CHR '':'' \<notin> set part)
       ''Unsafe or reserved directory component.''"

definition validate_path :: "string \<Rightarrow> unit res" where
  "validate_path p =
     andthen (ensure (p \<noteq> [] \<and> length p \<le> 1024 \<and> CHR 0x5C \<notin> set p) ''Invalid relative path.'')
       (\<lambda>_. let parts = split_on slash p in
         andthen (ensure (length parts \<le> 17) ''Directory nesting exceeds 16 levels.'')
           (\<lambda>_. check_each check_component parts))"

record directory_version =
  dv_path :: string
  dv_version :: nat

definition validate_version :: "directory_version \<Rightarrow> unit res" where
  "validate_version v =
     andthen (validate_path (dv_path v)) (\<lambda>_.
       ensure (dv_version v > 0 \<and> dv_version v < i64_max) ''Invalid directory version.'')"

section \<open>Inventories\<close>

record inventory_entry =
  ie_path :: string
  ie_sha256 :: string
  ie_size :: nat

record inventory =
  inv_id :: string
  inv_entries :: "inventory_entry list"

record inventory_update =
  iu_previous_id :: "string option"
  iu_inventory :: inventory

fun collect_paths :: "inventory_entry list \<Rightarrow> string list \<Rightarrow> string list res" where
  "collect_paths [] paths = Inr paths"
| "collect_paths (e # es) paths =
     andthen (validate_path (ie_path e)) (\<lambda>_.
     andthen (validate_sha256 (ie_sha256 e)) (\<lambda>_.
     andthen (ensure (ie_size e \<le> i64_max \<and> ie_path e \<notin> set paths)
         ''Invalid or duplicate directory entry.'') (\<lambda>_.
     collect_paths es (ie_path e # paths))))"

text \<open>No path of the list is a directory of another path of the list.\<close>

definition check_collisions :: "string \<Rightarrow> string list \<Rightarrow> unit res" where
  "check_collisions msg paths =
     check_each (\<lambda>p. check_each (\<lambda>q. ensure (q \<notin> set paths) msg) (prefixes_at slash p)) paths"

definition check_uuid :: "externals \<Rightarrow> string \<Rightarrow> string \<Rightarrow> unit res" where
  "check_uuid X msg i =
     andthen (of_option ''invalid UUID'' (uuid_parse X i)) (\<lambda>t. ensure (t = i) msg)"

definition validate_inventory :: "externals \<Rightarrow> inventory \<Rightarrow> unit res" where
  "validate_inventory X v =
     andthen (check_uuid X ''Invalid inventory identity.'' (inv_id v)) (\<lambda>_.
     andthen (ensure (length (inv_entries v) \<le> MAX_ENTRIES) ''Directory exceeds 5,000 files.'') (\<lambda>_.
     andthen (collect_paths (inv_entries v) []) (\<lambda>paths.
     check_collisions ''File/directory path collision.'' paths)))"

section \<open>Directory state\<close>

record directory_entry =
  de_path :: string
  de_version :: nat
  de_delivery_id :: string
  de_sha256 :: string
  de_size :: nat
  de_media_type :: string
  de_acknowledged :: bool
  de_conflict :: bool

definition entry_delivery :: "directory_entry \<Rightarrow> delivery" where
  "entry_delivery e =
     \<lparr>d_schema_version = MANIFEST_SCHEMA_VERSION, d_id = de_delivery_id e,
      d_original_name = last_part slash (de_path e), d_payload = [], d_size = de_size e,
      d_sha256 = de_sha256 e, d_media_type = de_media_type e, d_created_at_unix = None\<rparr>"

record directory_state =
  ds_schema_version :: nat
  ds_receiver :: "inventory option"
  ds_entries :: "directory_entry list"

fun validate_entries :: "directory_entry list \<Rightarrow> string list \<Rightarrow> unit res" where
  "validate_entries [] paths = Inr ()"
| "validate_entries (e # es) paths =
     andthen (validate_version \<lparr>dv_path = de_path e, dv_version = de_version e\<rparr>) (\<lambda>_.
     andthen (validate_delivery_id (de_delivery_id e)) (\<lambda>_.
     andthen (validate_delivery_metadata (entry_delivery e) DIR_MAX_FILE) (\<lambda>_.
     andthen (ensure (de_path e \<notin> set paths) ''Duplicate source path.'') (\<lambda>_.
     validate_entries es (de_path e # paths)))))"

definition validate_directory_state :: "externals \<Rightarrow> directory_state \<Rightarrow> unit res" where
  "validate_directory_state X s =
     andthen (ensure (ds_schema_version s = DIR_VERSION \<and> length (ds_entries s) \<le> MAX_ENTRIES)
       ''Unsupported or oversized directory state.'') (\<lambda>_.
     andthen (case ds_receiver s of None \<Rightarrow> Inr () | Some v \<Rightarrow> validate_inventory X v) (\<lambda>_.
     validate_entries (ds_entries s) []))"

record directory_ack =
  da_path :: string
  da_version :: nat
  da_sha256 :: string
  da_conflict :: bool

section \<open>Comparison of two inventories\<close>

record comparison =
  cmp_identical :: nat
  cmp_missing :: "string list"
  cmp_different :: "string list"
  cmp_destination_only :: nat

fun compare_loop ::
    "(string \<times> inventory_entry) list \<Rightarrow> inventory_entry list \<Rightarrow> comparison \<Rightarrow> comparison" where
  "compare_loop targets [] c = c"
| "compare_loop targets (e # es) c =
     compare_loop targets es
       (case map_of targets (ie_path e) of
          None \<Rightarrow> c\<lparr>cmp_missing := cmp_missing c @ [ie_path e]\<rparr>
        | Some other \<Rightarrow>
            if ie_sha256 other = ie_sha256 e \<and> ie_size other = ie_size e
            then c\<lparr>cmp_identical := cmp_identical c + 1\<rparr>
            else c\<lparr>cmp_different := cmp_different c @ [ie_path e]\<rparr>)"

definition compare :: "externals \<Rightarrow> inventory \<Rightarrow> inventory \<Rightarrow> comparison res" where
  "compare X source receiver =
     andthen (validate_inventory X source) (\<lambda>_.
     andthen (validate_inventory X receiver) (\<lambda>_.
       let targets = bt_of_list (List.map (\<lambda>v. (ie_path v, v)) (inv_entries receiver));
           c = compare_loop targets (inv_entries source)
             \<lparr>cmp_identical = 0, cmp_missing = [], cmp_different = [], cmp_destination_only = 0\<rparr>;
           paths = List.map ie_path (inv_entries source);
           c' = c\<lparr>cmp_destination_only :=
             length (List.filter (\<lambda>p. p \<notin> set paths) (List.map fst targets))\<rparr>;
           all = paths @ List.map fst targets
       in andthen (check_collisions ''Source and destination disagree about a file/directory path.'' all)
            (\<lambda>_. Inr c')))"

definition pending_entry :: "directory_entry \<Rightarrow> inventory_entry" where
  "pending_entry e = \<lparr>ie_path = de_path e, ie_sha256 = de_sha256 e, ie_size = de_size e\<rparr>"

definition expected_inventory :: "inventory \<Rightarrow> directory_entry list \<Rightarrow> (string \<times> inventory_entry) list" where
  "expected_inventory receiver entries =
     fold (\<lambda>p. bt_insert (de_path p) (pending_entry p))
       (List.filter (\<lambda>e. \<not> de_acknowledged e) entries)
       (bt_of_list (List.map (\<lambda>e. (ie_path e, e)) (inv_entries receiver)))"

definition compare_remote :: "externals \<Rightarrow> inventory \<Rightarrow> directory_state \<Rightarrow> comparison res" where
  "compare_remote X source remote =
     andthen (validate_directory_state X remote) (\<lambda>_.
     andthen (of_option ''Run the Linux directory receiver once to publish its inventory first.''
         (ds_receiver remote)) (\<lambda>receiver.
     compare X source
       \<lparr>inv_id = inv_id receiver,
        inv_entries = List.map snd (expected_inventory receiver (ds_entries remote))\<rparr>))"

section \<open>Facts about paths\<close>

definition valid_path :: "string \<Rightarrow> bool" where
  "valid_path p = is_ok (validate_path p)"

lemma validate_path_ok [simp]: "validate_path p = Inr u \<longleftrightarrow> valid_path p"
  by (auto simp: valid_path_def is_ok_iff)

definition safe_component :: "string \<Rightarrow> bool" where
  "safe_component part \<longleftrightarrow> part \<noteq> [] \<and> part \<noteq> ''.'' \<and> part \<noteq> ''..'' \<and> length part \<le> 255
       \<and> \<not> has_control part \<and> \<not> prefix ''.mirelay'' (to_ascii_lowercase part)
       \<and> CHR '':'' \<notin> set part"

lemma valid_path_iff:
  "valid_path p \<longleftrightarrow> p \<noteq> [] \<and> length p \<le> 1024 \<and> CHR 0x5C \<notin> set p
     \<and> length (split_on slash p) \<le> 17 \<and> (\<forall>c \<in> set (split_on slash p). safe_component c)"
  by (simp add: valid_path_def validate_path_def is_ok_andthen check_each_ok Let_def
      check_component_def safe_component_def)

lemma validate_version_ok [simp]:
  "validate_version v = Inr u \<longleftrightarrow> valid_path (dv_path v) \<and> 0 < dv_version v \<and> dv_version v < i64_max"
  by (auto simp: validate_version_def andthen_Inr)

text \<open>Resolving a relative path component by component, as the kernel does.\<close>

fun resolve :: "string list \<Rightarrow> string list \<Rightarrow> string list" where
  "resolve at [] = at"
| "resolve at (c # cs) =
     resolve (if c = [] \<or> c = ''.'' then at else if c = ''..'' then butlast at else at @ [c]) cs"

lemma resolve_safe: "\<forall>c \<in> set cs. safe_component c \<Longrightarrow> resolve at cs = at @ cs"
  by (induction cs arbitrary: at) (auto simp: safe_component_def)

lemma ancestor_split:
  "(\<exists>r. q = p @ c # r) \<longleftrightarrow> strict_prefix (split_on c p) (split_on c q)"
proof
  assume "\<exists>r. q = p @ c # r"
  then show "strict_prefix (split_on c p) (split_on c q)"
    by (auto simp: split_on_append2 strict_prefix_def)
next
  assume "strict_prefix (split_on c p) (split_on c q)"
  then obtain x xs where q: "split_on c q = split_on c p @ x # xs"
    by (auto elim: strict_prefixE')
  have "join_with c (ys @ x # xs) = join_with c ys @ c # join_with c (x # xs)" if "ys \<noteq> []" for ys
    using that by (induction c ys rule: join_with.induct) auto
  then have "join_with c (split_on c q) = join_with c (split_on c p) @ c # join_with c (x # xs)"
    by (simp add: q)
  then show "\<exists>r. q = p @ c # r" by auto
qed

lemma split_on_inj: "split_on c p = split_on c q \<Longrightarrow> p = q"
  by (metis join_split)

section \<open>Facts about inventories\<close>

definition tree_consistent :: "string set \<Rightarrow> bool" where
  "tree_consistent P \<longleftrightarrow>
     (\<forall>p \<in> P. \<forall>q \<in> P. \<not> strict_prefix (split_on slash p) (split_on slash q))"

lemma check_collisions_ok: "is_ok (check_collisions msg paths) \<longleftrightarrow> tree_consistent (set paths)"
  by (auto simp: check_collisions_def check_each_ok set_prefixes_at tree_consistent_def
      ancestor_split [symmetric])

definition valid_entry :: "inventory_entry \<Rightarrow> bool" where
  "valid_entry e \<longleftrightarrow> valid_path (ie_path e) \<and> valid_sha256 (ie_sha256 e) \<and> ie_size e \<le> i64_max"

lemma collect_paths_Inr:
  "collect_paths es paths = Inr r \<longleftrightarrow>
     (\<forall>e \<in> set es. valid_entry e) \<and> distinct (List.map ie_path es)
     \<and> set (List.map ie_path es) \<inter> set paths = {} \<and> r = rev (List.map ie_path es) @ paths"
  by (induction es arbitrary: paths) (auto simp: andthen_Inr valid_entry_def)

definition valid_inventory :: "externals \<Rightarrow> inventory \<Rightarrow> bool" where
  "valid_inventory X v = is_ok (validate_inventory X v)"

lemma validate_inventory_ok [simp]: "validate_inventory X v = Inr u \<longleftrightarrow> valid_inventory X v"
  by (auto simp: valid_inventory_def is_ok_iff)

lemma check_uuid_ok: "check_uuid X msg i = Inr u \<longleftrightarrow> uuid_canonical X i"
  by (auto simp: check_uuid_def andthen_Inr uuid_canonical_def)

lemma valid_inventory_iff:
  "valid_inventory X v \<longleftrightarrow> uuid_canonical X (inv_id v) \<and> length (inv_entries v) \<le> MAX_ENTRIES
     \<and> (\<forall>e \<in> set (inv_entries v). valid_entry e) \<and> distinct (List.map ie_path (inv_entries v))
     \<and> tree_consistent (ie_path ` set (inv_entries v))"
  by (auto simp: valid_inventory_def validate_inventory_def is_ok_andthen check_uuid_ok
      collect_paths_Inr check_collisions_ok)

lemma validate_entries_ok:
  "is_ok (validate_entries es paths) \<longleftrightarrow>
     (\<forall>e \<in> set es. valid_path (de_path e) \<and> 0 < de_version e \<and> de_version e < i64_max
        \<and> valid_delivery_id (de_delivery_id e) \<and> valid_metadata (entry_delivery e) DIR_MAX_FILE)
     \<and> distinct (List.map de_path es) \<and> set (List.map de_path es) \<inter> set paths = {}"
  by (induction es arbitrary: paths) (auto simp: is_ok_andthen)

section \<open>Facts about comparison\<close>

lemma fold_bt_insert_map_of:
  "map_of (fold (\<lambda>(k, v). bt_insert k v) kvs m) = map_of m ++ map_of (rev kvs)"
  by (induction kvs arbitrary: m) (auto simp: map_add_def fun_eq_iff split: option.splits)

lemma map_of_bt_of_list: "distinct (List.map fst kvs) \<Longrightarrow> map_of (bt_of_list kvs) = map_of kvs"
proof -
  assume d: "distinct (List.map fst kvs)"
  have "map_of (rev kvs) = map_of kvs"
    by (subst map_of_inject_set) (simp_all add: d rev_map [symmetric])
  then show ?thesis by (simp add: bt_of_list_def fold_bt_insert_map_of)
qed

lemma bt_sorted_fold: "bt_sorted m \<Longrightarrow> bt_sorted (fold (\<lambda>(k, v). bt_insert k v) kvs m)"
  by (induction kvs arbitrary: m) (auto simp: bt_sorted_insert)

lemma bt_sorted_of_list: "bt_sorted (bt_of_list kvs)"
  by (simp add: bt_of_list_def bt_sorted_fold)

lemma set_bt_of_list: "fst ` set (bt_of_list kvs) = fst ` set kvs"
proof -
  have "fst ` set (fold (\<lambda>(k, v). bt_insert k v) kvs m) = fst ` set kvs \<union> fst ` set m" for m
    by (induction kvs arbitrary: m) (simp_all add: split_beta)
  then show ?thesis by (simp add: bt_of_list_def)
qed

definition entry_verdict ::
    "(string \<rightharpoonup> inventory_entry) \<Rightarrow> inventory_entry \<Rightarrow> nat" where
  "entry_verdict m e =
     (case m (ie_path e) of
        None \<Rightarrow> 0
      | Some other \<Rightarrow> if ie_sha256 other = ie_sha256 e \<and> ie_size other = ie_size e then 1 else 2)"

lemma compare_loop_eq:
  "compare_loop targets es c =
     c\<lparr>cmp_identical := cmp_identical c
         + length (List.filter (\<lambda>e. entry_verdict (map_of targets) e = 1) es),
       cmp_missing := cmp_missing c
         @ List.map ie_path (List.filter (\<lambda>e. entry_verdict (map_of targets) e = 0) es),
       cmp_different := cmp_different c
         @ List.map ie_path (List.filter (\<lambda>e. entry_verdict (map_of targets) e = 2) es)\<rparr>"
proof (induction es arbitrary: c)
  case Nil
  then show ?case by simp
next
  case (Cons e es)
  show ?case
    by (cases "map_of targets (ie_path e)") (auto simp: Cons.IH entry_verdict_def)
qed

definition inv_map :: "inventory \<Rightarrow> string \<rightharpoonup> inventory_entry" where
  "inv_map v = map_of (List.map (\<lambda>e. (ie_path e, e)) (inv_entries v))"

lemma compare_Inr:
  "compare X s r = Inr c \<longleftrightarrow> valid_inventory X s \<and> valid_inventory X r
     \<and> tree_consistent (ie_path ` set (inv_entries s) \<union> ie_path ` set (inv_entries r))
     \<and> c = \<lparr>cmp_identical = length (List.filter (\<lambda>e. entry_verdict (inv_map r) e = 1) (inv_entries s)),
         cmp_missing = List.map ie_path (List.filter (\<lambda>e. entry_verdict (inv_map r) e = 0) (inv_entries s)),
         cmp_different = List.map ie_path (List.filter (\<lambda>e. entry_verdict (inv_map r) e = 2) (inv_entries s)),
         cmp_destination_only = card (ie_path ` set (inv_entries r) - ie_path ` set (inv_entries s))\<rparr>"
  (is "_ \<longleftrightarrow> ?rhs")
proof -
  let ?t = "bt_of_list (List.map (\<lambda>v. (ie_path v, v)) (inv_entries r))"
  let ?P = "ie_path ` set (inv_entries s)"
  have k: "set (List.map fst ?t) = ie_path ` set (inv_entries r)"
    by (simp add: set_bt_of_list image_image)
  have d: "distinct (List.map fst ?t)"
    by (rule bt_sorted_distinct [OF bt_sorted_of_list])
  have "length (List.filter (\<lambda>p. p \<notin> ?P) (List.map fst ?t))
      = card (set (List.filter (\<lambda>p. p \<notin> ?P) (List.map fst ?t)))"
    using d by (intro distinct_card [symmetric] distinct_filter)
  also have "set (List.filter (\<lambda>p. p \<notin> ?P) (List.map fst ?t)) = ie_path ` set (inv_entries r) - ?P"
    using k by auto
  finally have n: "length (List.filter (\<lambda>p. p \<notin> ?P) (List.map fst ?t))
      = card (ie_path ` set (inv_entries r) - ?P)" .
  then have n': "length (List.filter ((\<lambda>p. p \<notin> ?P) \<circ> fst) ?t)
      = card (ie_path ` set (inv_entries r) - ?P)"
    by (simp add: filter_map)
  have m: "map_of ?t = inv_map r" if "valid_inventory X r"
    using that unfolding inv_map_def
    by (intro map_of_bt_of_list) (simp add: valid_inventory_iff comp_def)
  have c: "check_collisions msg (List.map ie_path (inv_entries s) @ List.map fst ?t) = Inr u
      \<longleftrightarrow> tree_consistent (?P \<union> ie_path ` set (inv_entries r))" for msg u
    using check_collisions_ok [of msg "List.map ie_path (inv_entries s) @ List.map fst ?t"] k
    by (simp add: unit_res_Inr)
  show ?thesis
    by (auto simp: compare_def andthen_Inr Let_def c m n' filter_map compare_loop_eq)
qed

end
