(* ===== verification/ServerState.thy ===== *)
theory ServerState
  imports Library Directory
begin

text \<open>
  The state of the relay server: the SQLite tables of \<open>src/server/store.rs\<close> as lists of rows,
  the content directory, and the upload directory of \<open>src/server/tus_store.rs\<close>. A query is a
  list comprehension over the rows of its table; an \<open>ORDER BY\<close> is a stable sort. A
  transaction that fails restores the tables and nothing else: files already written or
  removed stay as they are. The server's calls are atomic here, as the library locks and the
  immediate transactions make them with respect to the data each of them guards.
\<close>

section \<open>Tables\<close>

record delivery_row =
  r_seq :: int
  r_device :: string
  r_id :: string
  r_name :: string
  r_size :: int
  r_sha :: string
  r_media :: string
  r_created :: int
  r_acked :: "int option"

record version_row =
  v_device :: string
  v_delivery :: string
  v_path :: string
  v_version :: int
  v_conflict :: int

record folder_row =
  f_id :: string
  f_name :: string
  f_receiver_hash :: bytes
  f_sender_hash :: "bytes option"
  f_invite_hash :: bytes
  f_expires :: int
  f_ready :: bool
  f_disconnected :: bool

record exit_row =
  x_folder :: string
  x_server :: bool
  x_sender :: bool
  x_receiver :: bool

record database =
  t_user_version :: int
  t_deliveries :: "delivery_row list"
  t_sequence :: int
  t_versions :: "version_row list"
  t_indexes :: "(string \<times> inventory) list"
  t_folders :: "folder_row list"
  t_exits :: "exit_row list"

section \<open>Uploads\<close>

record upload_record =
  u_directory :: "directory_version option"
  u_version :: nat
  u_id :: string
  u_device_id :: string
  u_original_name :: string
  u_media_type :: string
  u_sha256 :: string
  u_length :: nat
  u_offset :: nat
  u_metadata_header :: string
  u_created_at_unix :: nat
  u_delivery_id :: "string option"

text \<open>A record file that the code can parse, or one that it refuses to read.\<close>

datatype record_file = Parsed upload_record | Unreadable

section \<open>The server\<close>

text \<open>
  \<open>srv_records\<close> and \<open>srv_parts\<close> are the files \<open><id>.json\<close> and \<open><id>.part\<close> of the upload
  directory, \<open>srv_uploads_other\<close> its other entries, such as the lock file.
\<close>

record server =
  srv_db :: database
  srv_content :: dir
  srv_records :: "(string \<times> record_file) list"
  srv_parts :: "(string \<times> node) list"
  srv_uploads_other :: dir

text \<open>
  What an operation is given besides the state: the third-party functions, the store's size
  limit, and the length of the JSON text that \<open>serde_json\<close> writes for a record.
\<close>

record store_env =
  ext :: externals
  max_file_size :: nat
  record_len :: "upload_record \<Rightarrow> nat"

definition SERVER_SCHEMA_VERSION :: int where "SERVER_SCHEMA_VERSION = 5"

definition ServerStore_new :: "bool \<Rightarrow> nat \<Rightarrow> unit res" where
  "ServerStore_new absolute mx =
     andthen (ensure absolute ''server data directory must be an absolute path'') (\<lambda>_.
     ensure (\<not> (mx = 0 \<or> mx > i64_max)) ''server maximum file size must be between 1 and i64::MAX'')"

definition transaction :: "(server, 'a) op \<Rightarrow> (server, 'a) op" where
  "transaction m s =
     (case m s of
        (Inl e, t) \<Rightarrow> (Inl e, t\<lparr>srv_db := srv_db s\<rparr>)
      | (Inr x, t) \<Rightarrow> (Inr x, t))"

definition on_content :: "(dir, 'a) op \<Rightarrow> (server, 'a) op" where
  "on_content m s = (case m (srv_content s) of (r, c) \<Rightarrow> (r, s\<lparr>srv_content := c\<rparr>))"

definition lock_content :: "(server, unit) op" where
  "lock_content = on_content lock_library"

definition lock_uploads :: "(server, unit) op" where
  "lock_uploads s =
     (case lock_library (srv_uploads_other s) of (r, d) \<Rightarrow> (r, s\<lparr>srv_uploads_other := d\<rparr>))"

definition on_db :: "(database \<Rightarrow> database) \<Rightarrow> server \<Rightarrow> server" where
  "on_db f s = s\<lparr>srv_db := f (srv_db s)\<rparr>"

text \<open>\<open>connection()\<close> refuses a database of another schema version.\<close>

definition connection :: "(server, database) op" where
  "connection = readso (\<lambda>s.
     if t_user_version (srv_db s) = SERVER_SCHEMA_VERSION then Inr (srv_db s)
     else Inl (Bail ''unsupported server database schema version''))"

definition open_connection_unchecked :: "(server, database) op" where
  "open_connection_unchecked = readso (\<lambda>s. Inr (srv_db s))"

definition validate_device_id :: "string \<Rightarrow> unit res" where
  "validate_device_id i =
     ensure (\<not> (i = [] \<or> length i > 128
        \<or> \<not> list_all (\<lambda>c. is_ascii_alphanumeric c \<or> c = CHR ''-'' \<or> c = CHR ''_'') i))
       ''device id must be 1-128 ASCII letters, digits, - or _''"

definition FOLDER_PREFIX :: string where "FOLDER_PREFIX = ''folder_''"

definition folder_device :: "string \<Rightarrow> string" where
  "folder_device i = FOLDER_PREFIX @ i"

definition exit_started :: "database \<Rightarrow> string \<Rightarrow> bool" where
  "exit_started d fid = (\<exists>x \<in> set (t_exits d). x_folder x = fid)"

definition require_device_open :: "database \<Rightarrow> string \<Rightarrow> unit res" where
  "require_device_open d device =
     (case strip_prefix FOLDER_PREFIX device of
        None \<Rightarrow> Inr ()
      | Some fid \<Rightarrow> ensure (\<not> exit_started d fid)
          ''Folder exit has begun; no new transfer data may be written.'')"

definition device_open :: "database \<Rightarrow> string \<Rightarrow> bool" where
  "device_open d device = is_ok (require_device_open d device)"

section \<open>Facts\<close>

lemma require_device_open_ok [simp]:
  "require_device_open d device = Inr u \<longleftrightarrow> device_open d device"
  by (auto simp: device_open_def is_ok_iff)

lemma device_open_folder [simp]: "device_open d (folder_device i) \<longleftrightarrow> \<not> exit_started d i"
  by (auto simp: device_open_def require_device_open_def folder_device_def strip_prefix_def)

lemma device_open_iff:
  "device_open d device \<longleftrightarrow> (\<forall>i. device = folder_device i \<longrightarrow> \<not> exit_started d i)"
proof (cases "strip_prefix FOLDER_PREFIX device")
  case None
  then have "device \<noteq> folder_device i" for i
    by (auto simp: strip_prefix_def folder_device_def split: if_splits)
  with None show ?thesis by (auto simp: device_open_def require_device_open_def)
next
  case (Some r)
  then have d: "device = folder_device r" by (simp add: strip_prefix_eq folder_device_def)
  have "folder_device r = folder_device i \<longleftrightarrow> r = i" for i by (simp add: folder_device_def)
  then show ?thesis unfolding d by auto
qed

lemma transaction_ok: "transaction m s = (Inr x, t) \<longleftrightarrow> m s = (Inr x, t)"
  by (auto simp: transaction_def split: prod.splits sum.splits)

lemma transaction_err:
  "transaction m s = (Inl e, t) \<longleftrightarrow> (\<exists>t'. m s = (Inl e, t') \<and> t = t'\<lparr>srv_db := srv_db s\<rparr>)"
  by (auto simp: transaction_def split: prod.splits sum.splits)

lemma pres_transaction_tables:
  assumes "pres P m" and "\<And>s d. P s \<Longrightarrow> P (s\<lparr>srv_db := d\<rparr>)"
  shows "pres P (transaction m)"
proof (rule presI)
  fix s assume "P s"
  with assms(1) have "P (snd (m s))" by (rule presD)
  with assms(2) show "P (snd (transaction m s))"
    by (cases "m s"; cases "fst (m s)") (auto simp: transaction_def)
qed

lemma connection_ok:
  "connection s = (Inr d, t) \<longleftrightarrow>
     t_user_version (srv_db s) = SERVER_SCHEMA_VERSION \<and> d = srv_db s \<and> t = s"
  by (auto simp: connection_def op_defs split: if_splits)

lemma open_connection_ok [simp]:
  "open_connection_unchecked s = (Inr d, t) \<longleftrightarrow> d = srv_db s \<and> t = s"
  by (auto simp: open_connection_unchecked_def op_defs)

lemma open_connection_eq: "bindo open_connection_unchecked f s = f (srv_db s) s"
  by (simp add: bindo_def open_connection_unchecked_def op_defs)

lemma on_db_fields [simp]:
  "srv_db (on_db f s) = f (srv_db s)" "srv_content (on_db f s) = srv_content s"
  "srv_records (on_db f s) = srv_records s" "srv_parts (on_db f s) = srv_parts s"
  "srv_uploads_other (on_db f s) = srv_uploads_other s"
  by (simp_all add: on_db_def)

text \<open>The locks only touch the lock file.\<close>

lemma lock_content_db:
  "lock_content s = (r, t) \<Longrightarrow> srv_db t = srv_db s \<and> srv_records t = srv_records s
     \<and> srv_parts t = srv_parts s
     \<and> (\<forall>a n. obj_at (srv_content t) a n = obj_at (srv_content s) a n)"
  by (auto simp: lock_content_def on_content_def split: prod.splits dest: lock_library_same)

lemma lock_uploads_same:
  "lock_uploads s = (r, t) \<Longrightarrow> srv_db t = srv_db s \<and> srv_records t = srv_records s
     \<and> srv_parts t = srv_parts s \<and> srv_content t = srv_content s"
  by (auto simp: lock_uploads_def split: prod.splits)

end
