(* ===== verification/Samples.thy ===== *)
theory Samples
  imports ServerState
begin

text \<open>
  Concrete values with which the theorems of the development are applied: stand-ins for the
  third-party functions (a digest that is the padded first 32 bytes, real hexadecimal, UUIDs
  recognised by their shape), and small server states.
\<close>

definition hex_digit :: "nat \<Rightarrow> char" where
  "hex_digit n = ''0123456789abcdef'' ! n"

definition sample_hex :: "bytes \<Rightarrow> string" where
  "sample_hex b = concat (List.map (\<lambda>c. [hex_digit (byte c div 16), hex_digit (byte c mod 16)]) b)"

definition sample_uuid_parse :: "string \<Rightarrow> string option" where
  "sample_uuid_parse s =
     (if length s = 36 \<and> list_all (\<lambda>c. c = CHR ''-'' \<or> (is_ascii_hexdigit c \<and> \<not> is_ascii_upper c)) s
      then Some s else None)"

definition sample_ext :: externals where
  "sample_ext =
     \<lparr>sha256 = (\<lambda>b. take 32 (b @ replicate 32 (CHR 0x00))), hex_encode = sample_hex,
      uuid_parse = sample_uuid_parse\<rparr>"

definition sample_env :: store_env where
  "sample_env = \<lparr>ext = sample_ext, max_file_size = 1024,
     record_len = (\<lambda>r. 300 + length (u_metadata_header r))\<rparr>"

definition sample_id :: "char \<Rightarrow> string" where
  "sample_id c = ''00000000-0000-4000-8000-00000000000'' @ [c]"

definition sample_png :: bytes where
  "sample_png = [CHR 0x89] @ ''PNG'' @ [CHR 0x0D, CHR 0x0A, CHR 0x1A, CHR 0x0A] @ ''data''"

definition sample_sha :: string where
  "sample_sha = sha256_hex sample_ext sample_png"

definition sample_row :: "int \<Rightarrow> string \<Rightarrow> char \<Rightarrow> delivery_row" where
  "sample_row n device c =
     \<lparr>r_seq = n, r_device = device, r_id = sample_id c, r_name = ''a.png'', r_size = 12,
      r_sha = sample_sha, r_media = ''image/png'', r_created = 100, r_acked = None\<rparr>"

definition empty_db :: database where
  "empty_db = \<lparr>t_user_version = SERVER_SCHEMA_VERSION, t_deliveries = [], t_sequence = 0,
     t_versions = [], t_indexes = [], t_folders = [], t_exits = []\<rparr>"

definition empty_server :: server where
  "empty_server = \<lparr>srv_db = empty_db, srv_content = [], srv_records = [], srv_parts = [],
     srv_uploads_other = []\<rparr>"

text \<open>Three deliveries of one content for the device \<open>linux\<close>.\<close>

definition queue_server :: server where
  "queue_server = empty_server\<lparr>
     srv_db := empty_db\<lparr>t_deliveries := [sample_row 1 ''linux'' (CHR ''1''),
         sample_row 2 ''linux'' (CHR ''2''), sample_row 5 ''linux'' (CHR ''5'')], t_sequence := 5\<rparr>,
     srv_content := [(take 2 sample_sha, Dir [(object_name sample_sha ''png'', File sample_png)])]\<rparr>"

text \<open>A server that has queued one delivery for \<open>linux\<close>, with its lock and staging directory.\<close>

definition delivered_server :: server where
  "delivered_server = empty_server\<lparr>
     srv_db := empty_db\<lparr>t_deliveries := [sample_row 1 ''linux'' (CHR ''1'')], t_sequence := 1\<rparr>,
     srv_content := [(LIBRARY_LOCK_FILE, File []),
       (STAGING_DIR_NAME, Dir [(STAGING_OWNER_FILE, File STAGING_OWNER_CONTENT)]),
       (take 2 sample_sha, Dir [(object_name sample_sha ''png'', File sample_png)])]\<rparr>"

section \<open>What they evaluate to\<close>

lemmas ascii_defs =
  is_ascii_alphanumeric_def is_ascii_digit_def is_ascii_upper_def is_ascii_lower_def
  is_ascii_hexdigit_def

lemmas sample_defs =
  sample_env_def queue_server_def empty_server_def empty_db_def sample_row_def

lemma sample_sha_eq: "sample_sha = ''89504e470d0a1a0a64617461'' @ replicate 40 (CHR ''0'')"
proof -
  have "concat (replicate 20 ''00'') = replicate 40 (CHR ''0'')" by code_simp
  then show ?thesis
    by (simp add: sample_sha_def sha256_hex_def sample_ext_def sample_png_def sample_hex_def
        hex_digit_def)
qed

lemma sample_sha_valid [simp]: "valid_sha256 sample_sha" "length sample_sha = 64"
  by (simp_all add: sample_sha_eq valid_sha256_iff ascii_defs)

lemma sample_id_eq [simp]: "sample_id a = sample_id b \<longleftrightarrow> a = b"
  by (simp add: sample_id_def)

lemma sample_id_valid [simp]:
  "valid_delivery_id (sample_id c) \<longleftrightarrow> is_ascii_alphanumeric c \<or> c = CHR ''-'' \<or> c = CHR ''_''"
  by (simp add: valid_delivery_id_iff sample_id_def ascii_defs)

lemma sample_uuid [simp]:
  "uuid_parse sample_ext (sample_id c) =
     (if c = CHR ''-'' \<or> (is_ascii_hexdigit c \<and> \<not> is_ascii_upper c) then Some (sample_id c) else None)"
  by (simp add: sample_ext_def sample_uuid_parse_def sample_id_def ascii_defs)

lemma sample_linux [simp]: "is_ok (validate_device_id ''linux'')"
  by (simp add: validate_device_id_def ascii_defs)

lemma sample_name [simp]: "valid_component ''a.png''"
  by (simp add: valid_component_iff)

lemma sample_shard: "take 2 sample_sha = ''89''"
  by (simp add: sample_sha_eq)

lemma sample_inspection:
  "inspection_of sample_ext sample_png =
     \<lparr>in_size = 12, in_sha256 = sample_sha, in_media_type = ''image/png'', in_extension = ''png''\<rparr>"
proof -
  have "prefix ([CHR 0x89] @ ''PNG'' @ [CHR 0x0D, CHR 0x0A, CHR 0x1A, CHR 0x0A]) (take HEADER_SIZE sample_png)"
    by (simp add: sample_png_def HEADER_SIZE_def)
  then have "detect_media_type (take HEADER_SIZE sample_png) p = (''image/png'', ''png'')" for p
    by (simp add: detect_media_type_def starts_with_def)
  moreover have "length sample_png = 12" by (simp add: sample_png_def)
  ultimately show ?thesis by (simp add: inspection_of_def sample_sha_def)
qed

lemma sample_inspectable: "inspectable 1024 None sample_png" "inspectable 1024 (Some 12) sample_png"
  by (simp_all add: inspectable_def sample_png_def u64_max_def)

lemma sample_inspect: "inspect_bytes sample_ext 1024 sample_png =
    Inr \<lparr>in_size = 12, in_sha256 = sample_sha, in_media_type = ''image/png'', in_extension = ''png''\<rparr>"
  using sample_inspectable by (simp add: inspect_bytes_Inr sample_inspection)

lemma sample_copy:
  "copy_and_inspect sample_ext 1024 (Some 12) (file_reads 12 sample_png) = Inr (
     \<lparr>in_size = 12, in_sha256 = sample_sha, in_media_type = ''image/png'', in_extension = ''png''\<rparr>,
     sample_png)"
proof -
  obtain bs where bs: "file_reads (length sample_png) sample_png = List.map Chunk bs" "[] \<notin> set bs"
    "concat bs = sample_png" using file_reads_chunks [of sample_png "length sample_png"] by blast
  have "length sample_png = 12" by (simp add: sample_png_def)
  then show ?thesis
    using bs copy_and_inspect_chunks [OF bs(2)] sample_inspectable(2) sample_inspection by simp
qed

lemma sample_row_fields [simp]:
  "r_seq (sample_row n d c) = n" "r_device (sample_row n d c) = d"
  "r_id (sample_row n d c) = sample_id c" "r_name (sample_row n d c) = ''a.png''"
  "r_size (sample_row n d c) = 12" "r_sha (sample_row n d c) = sample_sha"
  "r_media (sample_row n d c) = ''image/png''" "r_created (sample_row n d c) = 100"
  "r_acked (sample_row n d c) = None"
  by (simp_all add: sample_row_def)

lemma sample_env_fields [simp]:
  "ext sample_env = sample_ext" "max_file_size sample_env = 1024"
  "record_len sample_env r = 300 + length (u_metadata_header r)"
  by (simp_all add: sample_env_def)

lemma empty_server_fields [simp]:
  "srv_db empty_server = empty_db" "srv_content empty_server = []" "srv_records empty_server = []"
  "srv_parts empty_server = []" "srv_uploads_other empty_server = []"
  by (simp_all add: empty_server_def)

lemma empty_db_fields [simp]:
  "t_user_version empty_db = SERVER_SCHEMA_VERSION" "t_deliveries empty_db = []"
  "t_sequence empty_db = 0" "t_versions empty_db = []" "t_indexes empty_db = []"
  "t_folders empty_db = []" "t_exits empty_db = []"
  by (simp_all add: empty_db_def)

lemma queue_server_fields [simp]:
  "t_deliveries (srv_db queue_server) = [sample_row 1 ''linux'' (CHR ''1''),
     sample_row 2 ''linux'' (CHR ''2''), sample_row 5 ''linux'' (CHR ''5'')]"
  "t_sequence (srv_db queue_server) = 5"
  "t_user_version (srv_db queue_server) = SERVER_SCHEMA_VERSION"
  "t_versions (srv_db queue_server) = []" "t_exits (srv_db queue_server) = []"
  "srv_content queue_server = [(''89'', Dir [(object_name sample_sha ''png'', File sample_png)])]"
  by (simp_all add: queue_server_def sample_shard)

lemma delivered_server_fields [simp]:
  "t_deliveries (srv_db delivered_server) = [sample_row 1 ''linux'' (CHR ''1'')]"
  "t_sequence (srv_db delivered_server) = 1"
  "t_user_version (srv_db delivered_server) = SERVER_SCHEMA_VERSION"
  "t_versions (srv_db delivered_server) = []" "t_exits (srv_db delivered_server) = []"
  "srv_content delivered_server = [(LIBRARY_LOCK_FILE, File []),
       (STAGING_DIR_NAME, Dir [(STAGING_OWNER_FILE, File STAGING_OWNER_CONTENT)]),
       (''89'', Dir [(object_name sample_sha ''png'', File sample_png)])]"
  by (simp_all add: delivered_server_def sample_shard)

lemma sample_png_type [simp]: "extension_for_media_type ''image/png'' = Some ''png''"
  by (simp add: extension_for_media_type_def)

lemma directory_names [simp]:
  "LIBRARY_LOCK_FILE \<noteq> STAGING_DIR_NAME" "STAGING_DIR_NAME \<noteq> LIBRARY_LOCK_FILE"
  "LIBRARY_LOCK_FILE \<noteq> ''89''" "STAGING_DIR_NAME \<noteq> ''89''"
  "''89'' \<noteq> LIBRARY_LOCK_FILE" "''89'' \<noteq> STAGING_DIR_NAME"
  by (simp_all add: LIBRARY_LOCK_FILE_def STAGING_DIR_NAME_def)

end
