(* ===== verification/Store.thy ===== *)
theory Store
  imports Samples
begin

text \<open>
  The delivery queue of \<open>src/server/store.rs\<close> with the directory-version helpers of
  \<open>src/server/directory.rs\<close> that it calls: enqueue, pagination, lookup, acknowledgement, content
  access, garbage collection, reconciliation and statistics.
\<close>

section \<open>Rows and deliveries\<close>

record stored_delivery =
  st_sequence :: int
  st_id :: string
  st_original_name :: string
  st_size :: nat
  st_sha256 :: string
  st_media_type :: string
  st_created_at_unix :: nat

record pending_page =
  pp_deliveries :: "stored_delivery list"
  pp_snapshot_sequence :: int
  pp_has_more :: bool

datatype acknowledge_outcome = AckDone | AlreadyAcknowledged | AckNotFound | DigestConflict

record server_stats =
  ss_pending :: nat
  ss_acknowledged :: nat

definition stored_manifest :: "stored_delivery \<Rightarrow> delivery" where
  "stored_manifest d =
     \<lparr>d_schema_version = MANIFEST_SCHEMA_VERSION, d_id = st_id d,
      d_original_name = st_original_name d, d_payload = [], d_size = st_size d,
      d_sha256 = st_sha256 d, d_media_type = st_media_type d,
      d_created_at_unix = Some (st_created_at_unix d)\<rparr>"

definition validate_db_delivery :: "delivery_row \<Rightarrow> nat \<Rightarrow> stored_delivery res" where
  "validate_db_delivery row mx =
     andthen (ensure (r_seq row > 0) ''server database contains an invalid delivery sequence'') (\<lambda>_.
     andthen (u64_try_from ''server database contains a negative media size'' (r_size row)) (\<lambda>size'.
     andthen (u64_try_from ''server database contains a negative timestamp'' (r_created row)) (\<lambda>created.
       let d = \<lparr>st_sequence = r_seq row, st_id = r_id row, st_original_name = r_name row,
           st_size = size', st_sha256 = r_sha row, st_media_type = r_media row,
           st_created_at_unix = created\<rparr>
       in andthen (validate_delivery_metadata (stored_manifest d) mx) (\<lambda>_. Inr d))))"

fun map_res :: "('a \<Rightarrow> 'b res) \<Rightarrow> 'a list \<Rightarrow> 'b list res" where
  "map_res f [] = Inr []"
| "map_res f (x # xs) = andthen (f x) (\<lambda>y. andthen (map_res f xs) (\<lambda>ys. Inr (y # ys)))"

definition find_row :: "database \<Rightarrow> string \<Rightarrow> string \<Rightarrow> delivery_row option" where
  "find_row d device did =
     List.find (\<lambda>r. r_device r = device \<and> r_id r = did) (t_deliveries d)"

definition get_delivery ::
    "store_env \<Rightarrow> string \<Rightarrow> string \<Rightarrow> (server, stored_delivery option) op" where
  "get_delivery E device did =
     bindo (lifto (validate_device_id device)) (\<lambda>_.
     bindo (lifto (validate_delivery_id did)) (\<lambda>_.
     bindo connection (\<lambda>d.
       (case find_row d device did of
          None \<Rightarrow> retn None
        | Some row \<Rightarrow>
            lifto (andthen (validate_db_delivery row (max_file_size E)) (\<lambda>x. Inr (Some x)))))))"

section \<open>Directory versions\<close>

definition find_version :: "database \<Rightarrow> string \<Rightarrow> string \<Rightarrow> version_row option" where
  "find_version d device did =
     List.find (\<lambda>v. v_device v = device \<and> v_delivery v = did) (t_versions d)"

definition check_directory_replay ::
    "string \<Rightarrow> string \<Rightarrow> directory_version option \<Rightarrow> (server, unit) op" where
  "check_directory_replay device did expected =
     bindo open_connection_unchecked (\<lambda>d.
       let actual = map_option
           (\<lambda>v. \<lparr>dv_path = v_path v, dv_version = i64_as_u64 (v_version v)\<rparr>)
           (find_version d device did)
       in lifto (ensure (actual = expected) ''Directory replay metadata differs.''))"

definition device_versions :: "database \<Rightarrow> string \<Rightarrow> version_row list" where
  "device_versions d device = List.filter (\<lambda>v. v_device v = device) (t_versions d)"

text \<open>\<open>substr(a, 1, length(b) + 1) = b || '/'\<close>: the path \<open>b\<close> is a directory of \<open>a\<close>.\<close>

definition path_below :: "string \<Rightarrow> string \<Rightarrow> bool" where
  "path_below a b = (take (length b + 1) a = b @ [slash])"

definition version_acked :: "database \<Rightarrow> version_row \<Rightarrow> bool" where
  "version_acked d v =
     (\<exists>r \<in> set (t_deliveries d). r_device r = v_device v \<and> r_id r = v_delivery v \<and> r_acked r \<noteq> None)"

definition set_acked :: "(delivery_row \<Rightarrow> bool) \<Rightarrow> int \<Rightarrow> database \<Rightarrow> database" where
  "set_acked P now d = d\<lparr>t_deliveries :=
     List.map (\<lambda>r. if P r then r\<lparr>r_acked := Some now\<rparr> else r) (t_deliveries d)\<rparr>"

definition insert_directory_version ::
    "nat \<Rightarrow> string \<Rightarrow> string \<Rightarrow> directory_version \<Rightarrow> (server, unit) op" where
  "insert_directory_version now device did version =
     bindo (lifto (validate_version version)) (\<lambda>_.
     bindo (lifto (ensure (prefix FOLDER_PREFIX device) ''Directory versions require paired Folders.'')) (\<lambda>_.
     bindo open_connection_unchecked (\<lambda>d.
       let vs = device_versions d device; path = dv_path version;
           known = (\<exists>v \<in> set vs. v_path v = path);
           sequence = u64_as_i64 (dv_version version)
       in
       bindo (lifto (if known then Inr () else
         ensure (card (v_path ` set vs) < MAX_ENTRIES) ''Directory path limit reached.'')) (\<lambda>_.
       if (\<exists>v \<in> set vs. (v_path v = path \<and> v_version v = sequence)
            \<or> path_below (v_path v) path \<or> path_below path (v_path v))
       then fails DirectoryConflict
       else
         bindo (lifto (ensure (sequence > 0 \<and> find_version d device did = None
             \<and> find_row d device did \<noteq> None) ''constraint failed'')) (\<lambda>_.
         bindo (modifyo (on_db (\<lambda>d. d\<lparr>t_versions := t_versions d @
             [\<lparr>v_device = device, v_delivery = did, v_path = path, v_version = sequence,
               v_conflict = 0\<rparr>]\<rparr>))) (\<lambda>_.
         modifyo (on_db (\<lambda>d.
           if (\<exists>v \<in> set (t_versions d). v_device v = device \<and> v_path v = path
                \<and> v_version v > sequence \<and> version_acked d v)
           then set_acked (\<lambda>r. r_device r = device \<and> r_id r = did) (u64_as_i64 now) d
           else d))))))))"

section \<open>Enqueue\<close>

definition insert_delivery :: "delivery_row \<Rightarrow> (server, int) op" where
  "insert_delivery row =
     bindo open_connection_unchecked (\<lambda>d.
     bindo (lifto (ensure (find_row d (r_device row) (r_id row) = None \<and> r_size row > 0
         \<and> length (r_sha row) = 64 \<and> r_created row \<ge> 0 \<and> t_sequence d < int i64_max)
         ''failed to insert delivery'')) (\<lambda>_.
     bindo (modifyo (on_db (\<lambda>d. d\<lparr>
         t_deliveries := t_deliveries d @ [row\<lparr>r_seq := t_sequence d + 1\<rparr>],
         t_sequence := t_sequence d + 1\<rparr>))) (\<lambda>_.
     retn (t_sequence d + 1))))"

definition node_reader :: "node option \<Rightarrow> read_event list" where
  "node_reader x =
     (case x of
        Some (File b) \<Rightarrow> file_reads (length b) b
      | Some (Link (Some b)) \<Rightarrow> file_reads (length b) b
      | _ \<Rightarrow> [])"

definition enqueue_insert ::
    "store_env \<Rightarrow> nat \<Rightarrow> string \<Rightarrow> string \<Rightarrow> string \<Rightarrow> nat \<Rightarrow> directory_version option \<Rightarrow> inspection
       \<Rightarrow> (server, stored_delivery) op" where
  "enqueue_insert E now device name did created directory i =
     bindo connection (\<lambda>_.
     bindo (lifto (i64_try_from ''media size does not fit SQLite'' (in_size i))) (\<lambda>size'.
     bindo (lifto (i64_try_from ''timestamp does not fit SQLite'' created)) (\<lambda>created'.
     bindo (insert_delivery
       \<lparr>r_seq = 0, r_device = device, r_id = did, r_name = name, r_size = size',
        r_sha = in_sha256 i, r_media = in_media_type i, r_created = created', r_acked = None\<rparr>)
       (\<lambda>sequence.
     bindo (case directory of
         None \<Rightarrow> retn ()
       | Some v \<Rightarrow> insert_directory_version now device did v) (\<lambda>_.
     retn \<lparr>st_sequence = sequence, st_id = did, st_original_name = name, st_size = in_size i,
       st_sha256 = in_sha256 i, st_media_type = in_media_type i,
       st_created_at_unix = created\<rparr>)))))"

definition enqueue_replay ::
    "string \<Rightarrow> string \<Rightarrow> string \<Rightarrow> nat \<Rightarrow> directory_version option \<Rightarrow> inspection \<Rightarrow> stored_delivery
       \<Rightarrow> (server, stored_delivery) op" where
  "enqueue_replay device name did created directory i existing =
     (if st_original_name existing \<noteq> name \<or> st_size existing \<noteq> in_size i
        \<or> st_sha256 existing \<noteq> in_sha256 i \<or> st_media_type existing \<noteq> in_media_type i
        \<or> st_created_at_unix existing \<noteq> created
      then fails (Bail ''delivery already exists with different metadata'')
      else bindo (check_directory_replay device did directory) (\<lambda>_. retn existing))"

definition enqueue_fresh ::
    "store_env \<Rightarrow> nat \<Rightarrow> string \<Rightarrow> node option \<Rightarrow> delivery \<Rightarrow> nat \<Rightarrow> directory_version option \<Rightarrow> inspection
       \<Rightarrow> (server, stored_delivery) op" where
  "enqueue_fresh E now device input d created directory i =
     bindo (on_content (receive (ext E) d (node_reader input) (max_file_size E))) (\<lambda>stored.
     bindo (lifto (ensure (\<not> (sa_size stored \<noteq> in_size i \<or> sa_sha256 stored \<noteq> in_sha256 i
         \<or> sa_media_type stored \<noteq> in_media_type i))
         ''stored server content does not match inspected input'')) (\<lambda>_.
     transaction (enqueue_insert E now device (d_original_name d) (d_id d) created directory i)))"

definition inspected_delivery :: "string \<Rightarrow> string \<Rightarrow> nat \<Rightarrow> inspection \<Rightarrow> delivery" where
  "inspected_delivery name did created i =
     \<lparr>d_schema_version = MANIFEST_SCHEMA_VERSION, d_id = did, d_original_name = name,
      d_payload = [], d_size = in_size i, d_sha256 = in_sha256 i,
      d_media_type = in_media_type i, d_created_at_unix = Some created\<rparr>"

definition enqueue_directory_with_id ::
    "store_env \<Rightarrow> nat \<Rightarrow> string \<Rightarrow> node option \<Rightarrow> string \<Rightarrow> string \<Rightarrow> nat
       \<Rightarrow> directory_version option \<Rightarrow> (server, stored_delivery) op" where
  "enqueue_directory_with_id E now device input name did created directory =
     bindo (lifto (validate_device_id device)) (\<lambda>_.
     bindo (lifto (case directory of None \<Rightarrow> Inr () | Some v \<Rightarrow> validate_version v)) (\<lambda>_.
     bindo (lifto (inspect_file (ext E) input (max_file_size E))) (\<lambda>i.
       let d = inspected_delivery name did created i in
     bindo (lifto (validate_delivery_metadata d (max_file_size E))) (\<lambda>_.
     bindo lock_content (\<lambda>_.
     bindo connection (\<lambda>db.
     bindo (lifto (require_device_open db device)) (\<lambda>_.
     bindo (get_delivery E device did) (\<lambda>found.
       (case found of
          Some existing \<Rightarrow> enqueue_replay device name did created directory i existing
        | None \<Rightarrow> enqueue_fresh E now device input d created directory i)))))))))"

definition enqueue_with_id ::
    "store_env \<Rightarrow> nat \<Rightarrow> string \<Rightarrow> node option \<Rightarrow> string \<Rightarrow> string \<Rightarrow> nat
       \<Rightarrow> (server, stored_delivery) op" where
  "enqueue_with_id E now device input name did created =
     enqueue_directory_with_id E now device input name did created None"

definition enqueue ::
    "store_env \<Rightarrow> nat \<Rightarrow> string \<Rightarrow> string \<Rightarrow> node option \<Rightarrow> string
       \<Rightarrow> (server, stored_delivery) op" where
  "enqueue E now uuid device input name = enqueue_with_id E now device input name uuid now"

section \<open>Listing pending deliveries\<close>

definition is_pending :: "string \<Rightarrow> delivery_row \<Rightarrow> bool" where
  "is_pending device r \<longleftrightarrow> r_device r = device \<and> r_acked r = None"

definition is_directory_row :: "database \<Rightarrow> delivery_row \<Rightarrow> bool" where
  "is_directory_row d r =
     (\<exists>v \<in> set (t_versions d). v_device v = r_device r \<and> v_delivery v = r_id r)"

definition max_pending :: "database \<Rightarrow> string \<Rightarrow> int" where
  "max_pending d device =
     (case List.map r_seq (List.filter (is_pending device) (t_deliveries d)) of
        [] \<Rightarrow> 0
      | x # xs \<Rightarrow> fold max xs x)"

definition pending_rows :: "database \<Rightarrow> string \<Rightarrow> int \<Rightarrow> int \<Rightarrow> delivery_row list" where
  "pending_rows d device after snapshot =
     sort_key r_seq (List.filter
       (\<lambda>r. is_pending device r \<and> \<not> is_directory_row d r \<and> r_seq r > after \<and> r_seq r \<le> snapshot)
       (t_deliveries d))"

definition list_pending ::
    "store_env \<Rightarrow> string \<Rightarrow> int \<Rightarrow> int option \<Rightarrow> nat \<Rightarrow> (server, pending_page) op" where
  "list_pending E device after snapshot limit =
     bindo (lifto (validate_device_id device)) (\<lambda>_.
     bindo (lifto (ensure (\<not> after < 0) ''pagination sequence must not be negative'')) (\<lambda>_.
     bindo (lifto (ensure (\<not> (limit = 0 \<or> limit > 100))
         ''pagination limit must be between 1 and 100'')) (\<lambda>_.
     bindo connection (\<lambda>d.
     bindo (lifto (case snapshot of
         Some sn \<Rightarrow> if sn \<ge> after then Inr sn
           else Inl (Bail ''pagination cursor is internally inconsistent'')
       | None \<Rightarrow> Inr (max_pending d device))) (\<lambda>sn.
     bindo (lifto (map_res (\<lambda>r. validate_db_delivery r (max_file_size E))
         (take (limit + 1) (pending_rows d device after sn)))) (\<lambda>ds.
     let more = length ds > limit in
     retn \<lparr>pp_deliveries = (if more then take limit ds else ds), pp_snapshot_sequence = sn,
       pp_has_more = more\<rparr>))))))"

section \<open>Acknowledgement\<close>

definition acknowledge ::
    "nat \<Rightarrow> string \<Rightarrow> string \<Rightarrow> string \<Rightarrow> (server, acknowledge_outcome) op" where
  "acknowledge now device did sha =
     bindo (lifto (validate_device_id device)) (\<lambda>_.
     bindo (lifto (validate_delivery_id did)) (\<lambda>_.
     bindo (lifto (validate_sha256 sha)) (\<lambda>_.
     bindo connection (\<lambda>_.
     transaction (
       bindo open_connection_unchecked (\<lambda>d.
         (case find_row d device did of
            None \<Rightarrow> retn AckNotFound
          | Some row \<Rightarrow>
              if r_sha row \<noteq> sha then retn DigestConflict
              else if r_acked row \<noteq> None then retn AlreadyAcknowledged
              else
                bindo (lifto (i64_try_from ''timestamp does not fit SQLite'' now)) (\<lambda>t.
                bindo (modifyo (on_db
                    (set_acked (\<lambda>r. r_device r = device \<and> r_id r = did) t))) (\<lambda>_.
                retn AckDone)))))))))"

definition is_directory_delivery :: "string \<Rightarrow> string \<Rightarrow> (server, bool) op" where
  "is_directory_delivery device did =
     bindo open_connection_unchecked (\<lambda>d. retn (find_version d device did \<noteq> None))"

section \<open>Content\<close>

definition store_content_path :: "store_env \<Rightarrow> stored_delivery \<Rightarrow> (string \<times> string) res" where
  "store_content_path E d =
     andthen (validate_delivery_metadata (stored_manifest d) (max_file_size E)) (\<lambda>_.
     andthen (of_option ''stored delivery uses an unsupported media type''
         (extension_for_media_type (st_media_type d))) (\<lambda>x.
     Inr (take 2 (st_sha256 d), object_name (st_sha256 d) x)))"

definition open_content :: "store_env \<Rightarrow> stored_delivery \<Rightarrow> (server, bytes) op" where
  "open_content E d =
     bindo (lifto (store_content_path E d)) (\<lambda>(shard, name).
     readso (\<lambda>s.
       (case obj_at (srv_content s) shard name of
          Some (File b) \<Rightarrow>
            if length b \<noteq> st_size d then Inl (Bail ''staged content has another size'') else Inr b
        | Some (Dir _) \<Rightarrow> Inl (Bail ''staged content is not a regular file'')
        | Some Other \<Rightarrow> Inl (Bail ''staged content is not a regular file'')
        | _ \<Rightarrow> Inl (Bail ''failed to open staged content''))))"

text \<open>\<open>fs::remove_file\<close>: removes files and links; \<open>False\<close> is \<open>NotFound\<close>.\<close>

definition remove_object :: "string \<Rightarrow> string \<Rightarrow> (dir, bool) op" where
  "remove_object shard name root =
     (case stat_obj root shard name of
        Inl e \<Rightarrow> (Inl e, root)
      | Inr None \<Rightarrow> (Inr False, root)
      | Inr (Some (Dir _)) \<Rightarrow> (Inl (Bail ''failed to remove content''), root)
      | Inr (Some _) \<Rightarrow> (Inr True, del_obj shard name root))"

definition garbage_collect_digest :: "string \<Rightarrow> (server, bool) op" where
  "garbage_collect_digest sha =
     bindo (lifto (validate_sha256 sha)) (\<lambda>_.
     bindo lock_content (\<lambda>_.
     bindo connection (\<lambda>d.
       if (\<exists>r \<in> set (t_deliveries d). r_sha r = sha \<and> r_acked r = None) then retn False
       else
         (case List.find (\<lambda>r. r_sha r = sha) (t_deliveries d) of
            None \<Rightarrow> retn False
          | Some r \<Rightarrow>
              bindo (lifto (of_option ''unsupported stored media type''
                  (extension_for_media_type (r_media r)))) (\<lambda>x.
              on_content (remove_object (take 2 sha) (object_name sha x)))))))"

section \<open>Reconciling the content directory\<close>

record reconcile_report =
  rr_referenced_objects :: nat
  rr_healthy_objects :: nat
  rr_missing_objects :: nat
  rr_corrupt_objects :: nat
  rr_removed_unreferenced_objects :: nat
  rr_stale_staging_files_removed :: nat
  rr_unexpected_entries :: nat

definition is_content_shard_name :: "string \<Rightarrow> bool" where
  "is_content_shard_name name =
     (length name = 2
      \<and> list_all (\<lambda>c. is_ascii_digit c \<or> (97 \<le> byte c \<and> byte c \<le> 102)) name)"

definition is_owned_content_object_name :: "string \<Rightarrow> string \<Rightarrow> bool" where
  "is_owned_content_object_name shard name =
     (case rsplit_once (CHR ''.'') name of
        None \<Rightarrow> False
      | Some (sha, extension) \<Rightarrow>
          is_ok (validate_sha256 sha) \<and> prefix shard sha
            \<and> is_supported_content_extension extension)"

definition all_pending :: "database \<Rightarrow> delivery_row list" where
  "all_pending d = sort_key r_seq (List.filter (\<lambda>r. r_acked r = None) (t_deliveries d))"

type_synonym references = "((string \<times> string) \<times> stored_delivery) list"

fun collect_references :: "store_env \<Rightarrow> delivery_row list \<Rightarrow> references \<Rightarrow> references res" where
  "collect_references E [] refs = Inr refs"
| "collect_references E (row # rows) refs =
     andthen (validate_db_delivery row (max_file_size E)) (\<lambda>d.
     andthen (store_content_path E d) (\<lambda>p.
       (case map_of refs p of
          Some previous \<Rightarrow>
            if st_sha256 previous \<noteq> st_sha256 d \<or> st_size previous \<noteq> st_size d
              \<or> st_media_type previous \<noteq> st_media_type d
            then Inl (Bail ''pending deliveries contain inconsistent metadata'')
            else collect_references E rows refs
        | None \<Rightarrow> collect_references E rows (refs @ [(p, d)]))))"

fun check_references ::
    "store_env \<Rightarrow> dir \<Rightarrow> references \<Rightarrow> reconcile_report \<Rightarrow> reconcile_report res" where
  "check_references E root [] rep = Inr rep"
| "check_references E root (((shard, name), d) # refs) rep =
     andthen (stat_obj root shard name) (\<lambda>x.
       check_references E root refs
         (case x of
            None \<Rightarrow> rep\<lparr>rr_missing_objects := rr_missing_objects rep + 1\<rparr>
          | Some n \<Rightarrow>
              if is_regular n \<and> is_ok (verify_recorded_file (ext E) x (st_size d) (st_sha256 d)
                  (st_media_type d) (max_file_size E))
              then rep\<lparr>rr_healthy_objects := rr_healthy_objects rep + 1\<rparr>
              else rep\<lparr>rr_corrupt_objects := rr_corrupt_objects rep + 1\<rparr>))"

text \<open>The scan of one shard, and of the content directory: the report and what is left.\<close>

fun sweep_shard ::
    "(string \<times> string) list \<Rightarrow> string \<Rightarrow> dir \<Rightarrow> reconcile_report \<Rightarrow> reconcile_report \<times> dir" where
  "sweep_shard keep shard [] rep = (rep, [])"
| "sweep_shard keep shard ((name, x) # es) rep =
     (if \<not> is_owned_content_object_name shard name \<or> \<not> is_file_or_link x
      then apsnd ((#) (name, x))
        (sweep_shard keep shard es (rep\<lparr>rr_unexpected_entries := rr_unexpected_entries rep + 1\<rparr>))
      else if (shard, name) \<in> set keep
      then apsnd ((#) (name, x)) (sweep_shard keep shard es rep)
      else sweep_shard keep shard es
        (rep\<lparr>rr_removed_unreferenced_objects := rr_removed_unreferenced_objects rep + 1\<rparr>))"

fun sweep_root ::
    "(string \<times> string) list \<Rightarrow> dir \<Rightarrow> reconcile_report \<Rightarrow> reconcile_report \<times> dir" where
  "sweep_root keep [] rep = (rep, [])"
| "sweep_root keep ((name, x) # es) rep =
     (if name = LIBRARY_LOCK_FILE \<or> name = STAGING_DIR_NAME
      then apsnd ((#) (name, x)) (sweep_root keep es rep)
      else
        (case x of
           Dir objects \<Rightarrow>
             if \<not> is_content_shard_name name
             then apsnd ((#) (name, x)) (sweep_root keep es
               (rep\<lparr>rr_unexpected_entries := rr_unexpected_entries rep + 1\<rparr>))
             else
               (case sweep_shard keep name objects rep of
                  (rep', left) \<Rightarrow> apsnd ((#) (name, Dir left)) (sweep_root keep es rep'))
         | _ \<Rightarrow> apsnd ((#) (name, x)) (sweep_root keep es
               (rep\<lparr>rr_unexpected_entries := rr_unexpected_entries rep + 1\<rparr>))))"

definition reconcile_content :: "store_env \<Rightarrow> (server, reconcile_report) op" where
  "reconcile_content E =
     bindo lock_content (\<lambda>_.
     bindo (on_content cleanup_staging) (\<lambda>stale.
     bindo connection (\<lambda>d.
     bindo (lifto (collect_references E (all_pending d) [])) (\<lambda>refs.
     bindo (readso (\<lambda>s. check_references E (srv_content s) refs
       \<lparr>rr_referenced_objects = length refs, rr_healthy_objects = 0, rr_missing_objects = 0,
        rr_corrupt_objects = 0, rr_removed_unreferenced_objects = 0,
        rr_stale_staging_files_removed = stale, rr_unexpected_entries = 0\<rparr>)) (\<lambda>rep.
     on_content (\<lambda>root.
       (case sweep_root (List.map fst refs) root rep of (rep', root') \<Rightarrow> (Inr rep', root'))))))))"

section \<open>Statistics\<close>

definition stats :: "string \<Rightarrow> (server, server_stats) op" where
  "stats device =
     bindo (lifto (validate_device_id device)) (\<lambda>_.
     bindo connection (\<lambda>d.
       let rows = List.filter (\<lambda>r. r_device r = device) (t_deliveries d) in
       retn \<lparr>ss_pending = length (List.filter (\<lambda>r. r_acked r = None) rows),
         ss_acknowledged = length (List.filter (\<lambda>r. r_acked r \<noteq> None) rows)\<rparr>))"

section \<open>Well-formed tables\<close>

definition row_ok :: "store_env \<Rightarrow> delivery_row \<Rightarrow> bool" where
  "row_ok E r = is_ok (validate_db_delivery r (max_file_size E))"

definition row_key :: "delivery_row \<Rightarrow> string \<times> string" where
  "row_key r = (r_device r, r_id r)"

definition rows_ok :: "store_env \<Rightarrow> database \<Rightarrow> bool" where
  "rows_ok E d \<longleftrightarrow> 0 \<le> t_sequence d \<and> sorted_wrt (<) (List.map r_seq (t_deliveries d))
     \<and> list_all (\<lambda>r. 0 < r_seq r \<and> r_seq r \<le> t_sequence d \<and> row_ok E r) (t_deliveries d)
     \<and> distinct (List.map row_key (t_deliveries d))"

text \<open>The content a row promises is in its object; every pending row of an open device has it.\<close>

definition row_stored :: "store_env \<Rightarrow> dir \<Rightarrow> delivery_row \<Rightarrow> bool" where
  "row_stored E c r \<longleftrightarrow>
     holds_content (ext E)
       (obj_at c (take 2 (r_sha r))
         (object_name (r_sha r) (the (extension_for_media_type (r_media r)))))
       (nat (r_size r)) (r_sha r) (r_media r)"

definition must_keep :: "database \<Rightarrow> delivery_row \<Rightarrow> bool" where
  "must_keep d r \<longleftrightarrow> r \<in> set (t_deliveries d) \<and> r_acked r = None \<and> device_open d (r_device r)"

definition content_safe :: "store_env \<Rightarrow> server \<Rightarrow> bool" where
  "content_safe E s \<longleftrightarrow> (\<forall>r. must_keep (srv_db s) r \<longrightarrow> row_stored E (srv_content s) r)"

definition store_ok :: "store_env \<Rightarrow> server \<Rightarrow> bool" where
  "store_ok E s \<longleftrightarrow> rows_ok E (srv_db s) \<and> content_safe E s"

lemma validate_db_delivery_Inr:
  "validate_db_delivery r mx = Inr d \<longleftrightarrow>
     0 < r_seq r \<and> 0 \<le> r_size r \<and> 0 \<le> r_created r
     \<and> d = \<lparr>st_sequence = r_seq r, st_id = r_id r, st_original_name = r_name r,
           st_size = nat (r_size r), st_sha256 = r_sha r, st_media_type = r_media r,
           st_created_at_unix = nat (r_created r)\<rparr>
     \<and> valid_metadata (stored_manifest d) mx"
  by (auto simp: validate_db_delivery_def andthen_Inr Let_def)

lemma row_ok_iff:
  "row_ok E r \<longleftrightarrow> 0 < r_seq r \<and> 0 < r_size r \<and> r_size r \<le> int (max_file_size E) \<and> 0 \<le> r_created r
     \<and> valid_delivery_id (r_id r) \<and> valid_component (r_name r) \<and> valid_sha256 (r_sha r)
     \<and> (\<exists>x. extension_for_media_type (r_media r) = Some x)"
  by (auto simp: row_ok_def is_ok_iff validate_db_delivery_Inr valid_metadata_iff
      stored_manifest_def)

lemma row_ok_seq [simp]: "row_ok E (r\<lparr>r_acked := a\<rparr>) = row_ok E r"
  by (simp add: row_ok_iff)

lemma row_key_acked [simp]: "row_key (r\<lparr>r_acked := a\<rparr>) = row_key r"
  by (simp add: row_key_def)

lemma find_row_Some:
  "find_row d device i = Some r \<Longrightarrow> r \<in> set (t_deliveries d) \<and> r_device r = device \<and> r_id r = i"
  by (auto simp: find_row_def find_Some_iff in_set_conv_nth)

lemma find_row_None:
  "find_row d device i = None \<longleftrightarrow> (\<forall>r \<in> set (t_deliveries d). row_key r \<noteq> (device, i))"
  by (auto simp: find_row_def find_None_iff row_key_def)

lemma find_row_mem:
  assumes "distinct (List.map row_key (t_deliveries d))" "r \<in> set (t_deliveries d)"
  shows "find_row d (r_device r) (r_id r) = Some r"
proof (cases "find_row d (r_device r) (r_id r)")
  case None
  then show ?thesis using assms by (auto simp: find_row_None row_key_def)
next
  case (Some q)
  then have "q \<in> set (t_deliveries d)" "row_key q = row_key r"
    by (auto dest: find_row_Some simp: row_key_def)
  with assms have "q = r" by (metis distinct_map inj_onD)
  with Some show ?thesis by simp
qed

lemma object_name_inj:
  assumes "valid_sha256 a" "valid_sha256 b"
  shows "object_name a x = object_name b y \<longleftrightarrow> a = b \<and> x = y"
  using assms by (auto simp: object_name_def valid_sha256_iff)

section \<open>Keeping content\<close>

text \<open>Objects outside the staging directory are only added.\<close>

definition content_grows :: "dir \<Rightarrow> dir \<Rightarrow> bool" where
  "content_grows c c' \<longleftrightarrow>
     (\<forall>a n x. a \<noteq> STAGING_DIR_NAME \<longrightarrow> obj_at c a n = Some x \<longrightarrow> obj_at c' a n = Some x)"

lemma content_grows_same: "(\<And>a n. obj_at c' a n = obj_at c a n) \<Longrightarrow> content_grows c c'"
  by (simp add: content_grows_def)

lemma row_stored_grows: "content_grows c c' \<Longrightarrow> row_stored E c r \<Longrightarrow> row_stored E c' r"
  using staging_not_short [of "r_sha r"]
  by (auto simp: row_stored_def holds_content_def content_grows_def)

lemma content_safe_grows:
  assumes "content_safe E s" "content_grows (srv_content s) (srv_content t)"
    "\<And>r. must_keep (srv_db t) r \<Longrightarrow> must_keep (srv_db s) r"
  shows "content_safe E t"
  using assms row_stored_grows unfolding content_safe_def by blast

lemma store_ok_grows:
  assumes "store_ok E s" "content_grows (srv_content s) (srv_content t)" "srv_db t = srv_db s"
  shows "store_ok E t"
  using assms content_safe_grows [of E s t] by (simp add: store_ok_def)

lemma pres_lock_content [pres_intros]: "pres (store_ok E) lock_content"
  unfolding pres_iff
  by (auto dest!: lock_content_db intro: store_ok_grows content_grows_same)

lemma pres_lock_uploads [pres_intros]: "pres (store_ok E) lock_uploads"
  unfolding pres_iff
  by (auto dest!: lock_uploads_same simp: store_ok_def content_safe_def)

lemma pres_connection [pres_intros]: "pres P connection" "pres P open_connection_unchecked"
  by (simp_all add: connection_def open_connection_unchecked_def pres_atoms)

lemma receive_grows:
  "receive X d es mx c = (r, c') \<Longrightarrow> content_grows c c'"
  unfolding content_grows_def by (metis option.distinct(1) receive_frame)

lemma cleanup_grows: "cleanup_staging c = (r, c') \<Longrightarrow> content_grows c c'"
  by (auto simp: content_grows_def same_outside_def dest!: cleanup_staging_same)

lemma pres_on_content:
  assumes "\<And>c r c'. m c = (r, c') \<Longrightarrow> content_grows c c'"
  shows "pres (store_ok E) (on_content m)"
  unfolding pres_iff
proof (intro allI impI)
  fix s r t assume s: "store_ok E s" and "on_content m s = (r, t)"
  then obtain c' where "m (srv_content s) = (r, c')" "t = s\<lparr>srv_content := c'\<rparr>"
    by (auto simp: on_content_def split: prod.splits)
  with s assms show "store_ok E t" by (intro store_ok_grows [OF s]) auto
qed

lemma pres_get_delivery [pres_intros]: "pres P (get_delivery E device i)"
  by (simp add: get_delivery_def pres_intros)

lemma pres_check_directory_replay [pres_intros]: "pres P (check_directory_replay device i v)"
  by (simp add: check_directory_replay_def pres_intros Let_def)

section \<open>Changes of the tables\<close>

lemma device_open_cong: "t_exits d' = t_exits d \<Longrightarrow> device_open d' x = device_open d x"
  by (simp add: device_open_def require_device_open_def exit_started_def split: option.splits)

lemma device_open_update [simp]:
  "device_open (d\<lparr>t_deliveries := a\<rparr>) x = device_open d x"
  "device_open (d\<lparr>t_versions := b\<rparr>) x = device_open d x"
  "device_open (d\<lparr>t_indexes := c\<rparr>) x = device_open d x"
  "device_open (d\<lparr>t_folders := e\<rparr>) x = device_open d x"
  "device_open (d\<lparr>t_sequence := q\<rparr>) x = device_open d x"
  by (rule device_open_cong, simp)+

lemma set_acked_fields [simp]:
  "t_exits (set_acked P n d) = t_exits d" "t_versions (set_acked P n d) = t_versions d"
  "t_sequence (set_acked P n d) = t_sequence d" "t_folders (set_acked P n d) = t_folders d"
  "t_indexes (set_acked P n d) = t_indexes d"
  "t_user_version (set_acked P n d) = t_user_version d"
  by (simp_all add: set_acked_def)

lemma set_acked_rows:
  "List.map r_seq (t_deliveries (set_acked P n d)) = List.map r_seq (t_deliveries d)"
  "List.map row_key (t_deliveries (set_acked P n d)) = List.map row_key (t_deliveries d)"
  by (simp_all add: set_acked_def comp_def if_distrib cong: if_cong)

lemma rows_ok_set_acked: "rows_ok E (set_acked P n d) = rows_ok E d"
proof -
  have "list_all Q (List.map (\<lambda>r. if P r then r\<lparr>r_acked := Some n\<rparr> else r) rs) = list_all Q rs"
    if "\<And>r. Q (r\<lparr>r_acked := Some n\<rparr>) = Q r" for Q rs
    using that by (induction rs) auto
  from this [of "\<lambda>r. 0 < r_seq r \<and> r_seq r \<le> t_sequence d \<and> row_ok E r" "t_deliveries d"]
  show ?thesis by (simp add: rows_ok_def set_acked_rows) (simp add: set_acked_def)
qed

lemma must_keep_set_acked: "must_keep (set_acked P n d) r \<Longrightarrow> must_keep d r"
  by (auto simp: must_keep_def set_acked_def split: if_splits)

text \<open>A change of the tables that keeps the rows well formed and makes none pending.\<close>

definition tables_shrink :: "store_env \<Rightarrow> database \<Rightarrow> database \<Rightarrow> bool" where
  "tables_shrink E d d' \<longleftrightarrow>
     (rows_ok E d \<longrightarrow> rows_ok E d') \<and> (\<forall>r. must_keep d' r \<longrightarrow> must_keep d r)"

lemma pres_tables [pres_intros]:
  "(\<And>d. tables_shrink E d (f d)) \<Longrightarrow> pres (store_ok E) (modifyo (on_db f))"
  by (rule pres_modifyo) (auto simp: store_ok_def tables_shrink_def content_safe_def)

lemma tables_shrink_same [simp]:
  "tables_shrink E d d"
  "tables_shrink E d (set_acked P n d)"
  "tables_shrink E d (d\<lparr>t_versions := v\<rparr>)"
  "tables_shrink E d (d\<lparr>t_indexes := i\<rparr>)"
  "tables_shrink E d (d\<lparr>t_folders := fs\<rparr>)"
  by (auto simp: tables_shrink_def rows_ok_set_acked dest: must_keep_set_acked)
    (auto simp: rows_ok_def must_keep_def)

lemma pres_insert_directory_version [pres_intros]:
  "pres (store_ok E) (insert_directory_version now device i v)"
  unfolding insert_directory_version_def Let_def
  by (intro pres_intros) (auto split: if_splits)

lemma pres_transaction:
  assumes "pres (store_ok E) m"
    and "\<And>s e t. store_ok E s \<Longrightarrow> m s = (Inl e, t) \<Longrightarrow> content_grows (srv_content s) (srv_content t)"
  shows "pres (store_ok E) (transaction m)"
  unfolding pres_iff
proof (intro allI impI)
  fix s r t assume s: "store_ok E s" and m: "transaction m s = (r, t)"
  show "store_ok E t"
  proof (cases r)
    case (Inl e)
    with m obtain t' where t': "m s = (Inl e, t')" "t = t'\<lparr>srv_db := srv_db s\<rparr>"
      by (auto simp: transaction_err)
    show ?thesis
      by (rule store_ok_grows [OF s]) (use assms(2) [OF s t'(1)] t'(2) in auto)
  next
    case (Inr x)
    with m have "m s = (Inr x, t)" by (simp add: transaction_ok)
    with assms(1) s show ?thesis by (rule presD2)
  qed
qed

lemma insert_delivery_eq:
  "insert_delivery row s = (Inr q, t) \<longleftrightarrow>
     find_row (srv_db s) (r_device row) (r_id row) = None \<and> 0 < r_size row
     \<and> length (r_sha row) = 64 \<and> 0 \<le> r_created row \<and> t_sequence (srv_db s) < int i64_max
     \<and> q = t_sequence (srv_db s) + 1
     \<and> t = on_db (\<lambda>d. d\<lparr>t_deliveries := t_deliveries d @ [row\<lparr>r_seq := q\<rparr>], t_sequence := q\<rparr>) s"
  by (auto simp: insert_delivery_def bindo_ok open_connection_unchecked_def op_defs on_db_def)

lemma insert_delivery_err: "insert_delivery row s = (Inl e, t) \<Longrightarrow> t = s"
  by (auto simp: insert_delivery_def bindo_err bindo_ok open_connection_unchecked_def op_defs)

lemma rows_ok_append:
  assumes "rows_ok E d" "row_ok E x" "r_seq x = t_sequence d + 1"
    "row_key x \<notin> row_key ` set (t_deliveries d)"
    "t_deliveries d' = t_deliveries d @ [x]" "t_sequence d' = r_seq x"
  shows "rows_ok E d'"
proof -
  let ?Q = "\<lambda>n r. 0 < r_seq r \<and> r_seq r \<le> n \<and> row_ok E r"
  have a: "0 \<le> t_sequence d" "sorted_wrt (<) (List.map r_seq (t_deliveries d))"
    "list_all (?Q (t_sequence d)) (t_deliveries d)" "distinct (List.map row_key (t_deliveries d))"
    using assms(1) by (simp_all add: rows_ok_def)
  have "0 \<le> t_sequence d'" using a(1) assms(3,6) by simp
  moreover have "sorted_wrt (<) (List.map r_seq (t_deliveries d'))"
    using a(2,3) assms(3,5) by (auto simp: sorted_wrt_append list_all_iff)
  moreover have "list_all (?Q (t_sequence d')) (t_deliveries d')"
    using a(1,3) assms(2,3,5,6) by (auto simp: list_all_iff)
  moreover have "distinct (List.map row_key (t_deliveries d'))"
    using a(4) assms(4,5) by simp
  ultimately show ?thesis by (simp add: rows_ok_def)
qed

lemma insert_delivery_store_ok:
  assumes s: "store_ok E s" and i: "insert_delivery row s = (Inr q, t)"
    and "row_ok E (row\<lparr>r_seq := 1\<rparr>)" and "row_stored E (srv_content s) row"
  shows "store_ok E t"
proof -
  have q: "q = t_sequence (srv_db s) + 1" "find_row (srv_db s) (r_device row) (r_id row) = None"
    "srv_content t = srv_content s"
    "t_deliveries (srv_db t) = t_deliveries (srv_db s) @ [row\<lparr>r_seq := q\<rparr>]"
    "t_sequence (srv_db t) = q" "t_exits (srv_db t) = t_exits (srv_db s)"
    using i by (auto simp: insert_delivery_eq)
  have r: "rows_ok E (srv_db s)" and c: "content_safe E s" using s by (auto simp: store_ok_def)
  have p: "row_ok E (row\<lparr>r_seq := q\<rparr>)"
    using assms(3) r unfolding q(1) by (auto simp: row_ok_iff rows_ok_def)
  have "rows_ok E (srv_db t)"
    by (rule rows_ok_append [OF r p _ _ q(4)])
      (use q(1,2,5) in \<open>auto simp: find_row_None row_key_def\<close>)
  moreover have "content_safe E t"
    unfolding content_safe_def
  proof (intro allI impI)
    fix x assume x: "must_keep (srv_db t) x"
    show "row_stored E (srv_content t) x"
    proof (cases "x \<in> set (t_deliveries (srv_db s))")
      case True
      with x q(6) have "must_keep (srv_db s) x"
        by (simp add: must_keep_def device_open_cong [OF q(6)])
      with c q(3) show ?thesis by (simp add: content_safe_def)
    next
      case False
      with x q(4) have "x = row\<lparr>r_seq := q\<rparr>" by (auto simp: must_keep_def)
      with assms(4) q(3) show ?thesis by (simp add: row_stored_def)
    qed
  qed
  ultimately show ?thesis by (simp add: store_ok_def)
qed

section \<open>Enqueueing keeps the store in order\<close>

lemma node_reader_chunks: "\<exists>bs. node_reader x = List.map Chunk bs \<and> [] \<notin> set bs"
proof -
  have "\<exists>bs. file_reads (length b) b = List.map Chunk bs \<and> [] \<notin> set bs" for b
    using file_reads_chunks [of b "length b"] by blast
  moreover have "\<exists>bs. [] = List.map Chunk bs \<and> [] \<notin> set bs" by (intro exI [of _ "[]"]) simp
  ultimately show ?thesis
    by (auto simp: node_reader_def split: option.splits node.splits)
qed

definition delivery_stored :: "store_env \<Rightarrow> dir \<Rightarrow> delivery \<Rightarrow> bool" where
  "delivery_stored E c d \<longleftrightarrow>
     holds_content (ext E) (obj_at c (take 2 (d_sha256 d))
         (object_name (d_sha256 d) (the (extension_for_media_type (d_media_type d)))))
       (d_size d) (d_sha256 d) (d_media_type d)"

lemma receive_stored:
  assumes "receive (ext E) d (node_reader x) mx c = (Inr stored, c')"
  shows "valid_metadata d mx \<and> delivery_stored E c' d"
proof -
  obtain bs where bs: "node_reader x = List.map Chunk bs" "[] \<notin> set bs"
    using node_reader_chunks by blast
  let ?i = "inspection_of (ext E) (concat bs)"
  from receive_Inr [OF assms [unfolded bs(1)] bs(2)] obtain r2 where
    v: "valid_metadata d mx" "inspectable mx (Some (d_size d)) (concat bs)"
      "sha256_hex (ext E) (concat bs) = d_sha256 d" "in_media_type ?i = d_media_type d"
    and m: "commit_object (ext E) mx ?i (concat bs) r2 = (Inr stored, c')" by blast
  have "extension_for_media_type (d_media_type d) = Some (in_extension ?i)"
    using inspection_of_extension [of "ext E" "concat bs"] v(4) by simp
  moreover have "length (concat bs) = d_size d" using v(2) by (simp add: inspectable_def)
  ultimately show ?thesis
    using v commit_object_ok [OF m] by (simp add: delivery_stored_def)
qed

lemma on_content_eq:
  "on_content m s = (r, t) \<longleftrightarrow> (\<exists>c. m (srv_content s) = (r, c) \<and> t = s\<lparr>srv_content := c\<rparr>)"
  by (auto simp: on_content_def split: prod.splits)

lemma hoare_receive:
  "hoare (store_ok E) (on_content (receive (ext E) d (node_reader x) (max_file_size E)))
     (\<lambda>_ s. store_ok E s \<and> valid_metadata d (max_file_size E) \<and> delivery_stored E (srv_content s) d)
     (store_ok E)"
proof (rule hoareI)
  fix s y t
  assume s: "store_ok E s"
    and m: "on_content (receive (ext E) d (node_reader x) (max_file_size E)) s = (Inr y, t)"
  then obtain c where c: "receive (ext E) d (node_reader x) (max_file_size E) (srv_content s) = (Inr y, c)"
    "t = s\<lparr>srv_content := c\<rparr>" by (auto simp: on_content_eq)
  have "store_ok E t"
    by (rule store_ok_grows [OF s]) (use c receive_grows in auto)
  with receive_stored [OF c(1)] c(2)
  show "store_ok E t \<and> valid_metadata d (max_file_size E) \<and> delivery_stored E (srv_content t) d"
    by simp
next
  fix s e t
  assume s: "store_ok E s"
    and m: "on_content (receive (ext E) d (node_reader x) (max_file_size E)) s = (Inl e, t)"
  show "store_ok E t"
    by (rule store_ok_grows [OF s]) (use m receive_grows in \<open>auto simp: on_content_eq\<close>)
qed

definition new_row :: "string \<Rightarrow> string \<Rightarrow> string \<Rightarrow> nat \<Rightarrow> inspection \<Rightarrow> delivery_row" where
  "new_row device did name created i =
     \<lparr>r_seq = 0, r_device = device, r_id = did, r_name = name, r_size = int (in_size i),
      r_sha = in_sha256 i, r_media = in_media_type i, r_created = int created, r_acked = None\<rparr>"

lemma enqueue_insert_steps:
  "enqueue_insert E now device name did created directory i s = (Inr d, t) \<longleftrightarrow>
     t_user_version (srv_db s) = SERVER_SCHEMA_VERSION \<and> in_size i \<le> i64_max \<and> created \<le> i64_max
     \<and> (\<exists>q u. insert_delivery (new_row device did name created i) s = (Inr q, u)
          \<and> (case directory of None \<Rightarrow> u = t
             | Some v \<Rightarrow> insert_directory_version now device did v u = (Inr (), t))
          \<and> d = \<lparr>st_sequence = q, st_id = did, st_original_name = name, st_size = in_size i,
              st_sha256 = in_sha256 i, st_media_type = in_media_type i,
              st_created_at_unix = created\<rparr>)"
  by (cases directory)
    (auto simp: enqueue_insert_def new_row_def bindo_ok connection_def op_defs split: if_splits)

lemma insert_directory_version_content:
  "insert_directory_version now device i v s = (r, t) \<Longrightarrow> srv_content t = srv_content s"
proof -
  assume a: "insert_directory_version now device i v s = (r, t)"
  have "pres (\<lambda>u. srv_content u = srv_content s) (insert_directory_version now device i v)"
    unfolding insert_directory_version_def Let_def by (intro pres_intros pres_modifyo) auto
  from presD2 [OF this _ a] show ?thesis by simp
qed

lemma enqueue_insert_content:
  "enqueue_insert E now device name did created directory i s = (r, t)
     \<Longrightarrow> srv_content t = srv_content s"
proof -
  assume a: "enqueue_insert E now device name did created directory i s = (r, t)"
  let ?P = "\<lambda>u. srv_content u = srv_content s"
  have v: "pres ?P (insert_directory_version now device did v)" for v
    unfolding pres_iff using insert_directory_version_content by fastforce
  have n: "pres ?P (insert_delivery row)" for row
    unfolding insert_delivery_def by (intro pres_intros pres_modifyo) auto
  have "pres ?P (enqueue_insert E now device name did created directory i)"
    unfolding enqueue_insert_def by (intro pres_intros n v)
  from presD2 [OF this _ a] show ?thesis by simp
qed

lemma hoare_enqueue_insert:
  assumes d: "d_id d = did" "d_original_name d = name" "d_size d = in_size i"
    "d_sha256 d = in_sha256 i" "d_media_type d = in_media_type i"
  shows "hoare (\<lambda>s. store_ok E s \<and> valid_metadata d (max_file_size E)
        \<and> delivery_stored E (srv_content s) d)
     (transaction (enqueue_insert E now device name did created directory i))
     (\<lambda>_. store_ok E) (store_ok E)"
proof (rule hoareI)
  fix s y t
  assume s: "store_ok E s \<and> valid_metadata d (max_file_size E) \<and> delivery_stored E (srv_content s) d"
    and "transaction (enqueue_insert E now device name did created directory i) s = (Inr y, t)"
  then obtain q u where u: "insert_delivery (new_row device did name created i) s = (Inr q, u)"
    "case directory of None \<Rightarrow> u = t
       | Some v \<Rightarrow> insert_directory_version now device did v u = (Inr (), t)"
    by (auto simp: transaction_ok enqueue_insert_steps)
  have "store_ok E u"
  proof (rule insert_delivery_store_ok [OF _ u(1)])
    show "row_ok E (new_row device did name created i\<lparr>r_seq := 1\<rparr>)"
      using s d by (auto simp: row_ok_iff new_row_def valid_metadata_iff)
    show "row_stored E (srv_content s) (new_row device did name created i)"
      using s d by (simp add: row_stored_def delivery_stored_def new_row_def)
  qed (use s in simp)
  then show "store_ok E t"
    using u(2) by (auto split: option.splits intro: presD2 [OF pres_insert_directory_version])
next
  fix s e t
  assume s: "store_ok E s \<and> valid_metadata d (max_file_size E) \<and> delivery_stored E (srv_content s) d"
    and "transaction (enqueue_insert E now device name did created directory i) s = (Inl e, t)"
  then obtain t' where "enqueue_insert E now device name did created directory i s = (Inl e, t')"
    "t = t'\<lparr>srv_db := srv_db s\<rparr>" by (auto simp: transaction_err)
  then show "store_ok E t"
    using s enqueue_insert_content by (fastforce simp: store_ok_def content_safe_def)
qed

lemma inspected_delivery_fields [simp]:
  "d_id (inspected_delivery name did created i) = did"
  "d_original_name (inspected_delivery name did created i) = name"
  "d_size (inspected_delivery name did created i) = in_size i"
  "d_sha256 (inspected_delivery name did created i) = in_sha256 i"
  "d_media_type (inspected_delivery name did created i) = in_media_type i"
  by (simp_all add: inspected_delivery_def)

lemma pres_enqueue [pres_intros]:
  "pres (store_ok E) (enqueue_directory_with_id E now device x name did created directory)"
proof -
  have n: "pres (store_ok E)
      (enqueue_fresh E now device x (inspected_delivery name did created i) created directory i)" for i
    unfolding enqueue_fresh_def
    by (rule pres_bindo_hoare [OF hoare_receive], rule hoare_bindo, rule hoare_lifto, simp,
        rule hoare_conseq [OF hoare_enqueue_insert]) auto
  show ?thesis
    unfolding enqueue_directory_with_id_def enqueue_replay_def Let_def
    by (intro pres_intros n)
qed

section \<open>Acknowledging and collecting keep the store in order\<close>

lemma pres_transaction_content:
  assumes "pres (store_ok E) m" and "\<And>c. pres (\<lambda>u. srv_content u = c) m"
  shows "pres (store_ok E) (transaction m)"
proof (rule pres_transaction [OF assms(1)])
  fix s e t assume "m s = (Inl e, t)"
  with presD2 [OF assms(2)] have "srv_content t = srv_content s" by blast
  then show "content_grows (srv_content s) (srv_content t)" by (simp add: content_grows_same)
qed

lemma pres_content_modify [pres_intros]: "pres (\<lambda>u. srv_content u = c) (modifyo (on_db f))"
  by (rule pres_modifyo) simp

lemma pres_acknowledge [pres_intros]: "pres (store_ok E) (acknowledge now device i sha)"
  unfolding acknowledge_def
  by (intro pres_intros pres_transaction_content) simp_all

lemma remove_object_other:
  "remove_object shard name c = (r, c') \<Longrightarrow> (a, n) \<noteq> (shard, name) \<Longrightarrow> obj_at c' a n = obj_at c a n"
  by (auto simp: remove_object_def obj_at_del split: sum.splits option.splits node.splits)

lemma row_stored_other:
  assumes "valid_sha256 sha" "row_ok E r" "r_sha r \<noteq> sha" "row_stored E c r"
    and "\<And>a n. (a, n) \<noteq> (take 2 sha, object_name sha x) \<Longrightarrow> obj_at c' a n = obj_at c a n"
  shows "row_stored E c' r"
  using assms by (auto simp: row_stored_def row_ok_iff object_name_inj)

lemma must_keep_row_ok: "store_ok E s \<Longrightarrow> must_keep (srv_db s) r \<Longrightarrow> row_ok E r"
  by (auto simp: store_ok_def rows_ok_def must_keep_def list_all_iff)

lemma hoare_remove_object:
  assumes "valid_sha256 sha"
    and P: "\<And>s r. P s \<Longrightarrow> must_keep (srv_db s) r \<Longrightarrow> r_sha r \<noteq> sha" "\<And>s. P s \<Longrightarrow> store_ok E s"
    and m: "\<And>c r c' a n. m c = (r, c') \<Longrightarrow> (a, n) \<noteq> (take 2 sha, object_name sha x) \<Longrightarrow>
      obj_at c' a n = obj_at c a n"
  shows "hoare P (on_content m) (\<lambda>_. store_ok E) (store_ok E)"
proof -
  have "store_ok E t" if s: "P s" and t: "on_content m s = (r, t)" for s r t
  proof -
    from t obtain c' where c: "m (srv_content s) = (r, c')" "t = s\<lparr>srv_content := c'\<rparr>"
      by (auto simp: on_content_eq)
    have "content_safe E t"
      unfolding content_safe_def
    proof (intro allI impI)
      fix q assume "must_keep (srv_db t) q"
      then have q: "must_keep (srv_db s) q" using c(2) by simp
      have "row_stored E (srv_content s) q" using P(2) [OF s] q by (auto simp: store_ok_def content_safe_def)
      from row_stored_other [OF assms(1) must_keep_row_ok [OF P(2) [OF s] q] P(1) [OF s q] this m [OF c(1)]]
      show "row_stored E (srv_content t) q" using c(2) by simp
    qed
    with P(2) [OF s] c(2) show ?thesis by (simp add: store_ok_def)
  qed
  then show ?thesis by (auto intro: hoareI)
qed

lemma pres_garbage_collect [pres_intros]: "pres (store_ok E) (garbage_collect_digest sha)"
proof -
  have gc: "hoare (\<lambda>s. store_ok E s \<and> srv_db s = d)
      (if (\<exists>r \<in> set (t_deliveries d). r_sha r = sha \<and> r_acked r = None) then retn False
       else
         (case List.find (\<lambda>r. r_sha r = sha) (t_deliveries d) of
            None \<Rightarrow> retn False
          | Some r \<Rightarrow>
              bindo (lifto (of_option ''unsupported stored media type''
                  (extension_for_media_type (r_media r)))) (\<lambda>x.
              on_content (remove_object (take 2 sha) (object_name sha x)))))
      (\<lambda>_. store_ok E) (store_ok E)" if v: "valid_sha256 sha" for d
  proof -
    have r: "hoare (\<lambda>s. store_ok E s \<and> srv_db s = d) (retn False) (\<lambda>_. store_ok E) (store_ok E)"
      by (rule hoareI) (auto simp: op_defs)
    have "hoare (\<lambda>s. store_ok E s \<and> srv_db s = d)
        (bindo (lifto y) (\<lambda>x. on_content (remove_object (take 2 sha) (object_name sha x))))
        (\<lambda>_. store_ok E) (store_ok E)"
      if "\<not> (\<exists>r \<in> set (t_deliveries d). r_sha r = sha \<and> r_acked r = None)" for y
    proof (rule hoare_bindo, rule hoare_lifto, simp)
      fix x
      show "hoare (\<lambda>s. (store_ok E s \<and> srv_db s = d) \<and> y = Inr x)
          (on_content (remove_object (take 2 sha) (object_name sha x))) (\<lambda>_. store_ok E) (store_ok E)"
        by (rule hoare_remove_object [OF v _ _ remove_object_other])
          (use that in \<open>auto simp: must_keep_def\<close>)
    qed
    with r show ?thesis by (auto split: option.split)
  qed
  have db: "hoare (store_ok E) connection (\<lambda>d s. store_ok E s \<and> srv_db s = d) (store_ok E)"
    by (rule hoareI) (auto simp: connection_def op_defs split: if_splits)
  show ?thesis
  proof (cases "valid_sha256 sha")
    case True
    have l: "hoare (store_ok E) lock_content (\<lambda>_. store_ok E) (store_ok E)"
      using pres_lock_content by (simp add: pres_hoare)
    show ?thesis
      unfolding garbage_collect_digest_def pres_hoare
      by (rule hoare_bindo, rule hoare_lifto, simp, rule hoare_bindo,
          rule hoare_conseq [OF l], simp, assumption, assumption,
          rule hoare_bindo [OF db], rule gc [OF True])
  next
    case False
    then have "\<exists>e. validate_sha256 sha = Inl e"
      by (cases "validate_sha256 sha") auto
    then show ?thesis by (auto simp: garbage_collect_digest_def pres_def)
  qed
qed

section \<open>Facts about reconciliation\<close>

definition swept_out :: "(string \<times> string) list \<Rightarrow> string \<Rightarrow> string \<Rightarrow> node \<Rightarrow> bool" where
  "swept_out keep shard name x \<longleftrightarrow>
     is_owned_content_object_name shard name \<and> is_file_or_link x \<and> (shard, name) \<notin> set keep"

definition swept :: "(string \<times> string) list \<Rightarrow> string \<Rightarrow> node \<Rightarrow> node" where
  "swept keep shard x =
     (case x of
        Dir es \<Rightarrow>
          if shard \<noteq> LIBRARY_LOCK_FILE \<and> shard \<noteq> STAGING_DIR_NAME \<and> is_content_shard_name shard
          then Dir (List.filter (\<lambda>(n, y). \<not> swept_out keep shard n y) es) else x
      | _ \<Rightarrow> x)"

lemma sweep_shard_left:
  "snd (sweep_shard keep shard es rep) = List.filter (\<lambda>(n, y). \<not> swept_out keep shard n y) es"
  by (induction keep shard es rep rule: sweep_shard.induct) (auto simp: swept_out_def)

lemma sweep_root_left:
  "snd (sweep_root keep root rep) = List.map (\<lambda>(n, x). (n, swept keep n x)) root"
proof (induction keep root rep rule: sweep_root.induct)
  case (1 keep rep)
  then show ?case by simp
next
  case (2 keep name x es rep)
  show ?case
  proof (cases x)
    case (Dir objects)
    obtain r l where "sweep_shard keep name objects rep = (r, l)" by fastforce
    moreover from this have "l = List.filter (\<lambda>(n, y). \<not> swept_out keep name n y) objects"
      using sweep_shard_left [of keep name objects rep] by simp
    ultimately show ?thesis using 2 Dir by (simp add: swept_def)
  qed (use 2 in \<open>auto simp: swept_def\<close>)
qed

lemma map_of_map_pairs: "map_of (List.map (\<lambda>(n, x). (n, f n x)) m) k = map_option (f k) (map_of m k)"
  by (induction m) auto

lemma map_of_filter_keep:
  "(\<And>x. P (k, x)) \<Longrightarrow> map_of (List.filter P m) k = map_of m k"
  by (induction m) auto

lemma map_of_filter_Some: "map_of (List.filter P m) k = Some x \<Longrightarrow> P (k, x)"
  by (drule map_of_SomeD) simp

lemma sweep_keeps:
  assumes "sweep_root keep root rep = (rep', root')" "(a, n) \<in> set keep"
  shows "obj_at root' a n = obj_at root a n"
proof -
  have r: "root' = List.map (\<lambda>(n, x). (n, swept keep n x)) root"
    using sweep_root_left [of keep root rep] assms(1) by simp
  have "\<not> swept_out keep a n y" for y using assms(2) by (simp add: swept_out_def)
  then have "map_of (List.filter (\<lambda>(m, y). \<not> swept_out keep a m y) es) n = map_of es n" for es
    by (intro map_of_filter_keep) simp
  then show ?thesis
    by (auto simp: obj_at_def child_def r map_of_map_pairs swept_def
        split: option.splits node.splits)
qed

lemma sweep_leaves_referenced:
  assumes "sweep_root keep root rep = (rep', root')" "is_content_shard_name a"
    "is_owned_content_object_name a n" "obj_at root' a n = Some x" "is_file_or_link x"
  shows "(a, n) \<in> set keep"
proof -
  have r: "root' = List.map (\<lambda>(n, x). (n, swept keep n x)) root"
    using sweep_root_left [of keep root rep] assms(1) by simp
  have "a \<noteq> LIBRARY_LOCK_FILE" "a \<noteq> STAGING_DIR_NAME"
    using assms(2)
    by (auto simp: is_content_shard_name_def LIBRARY_LOCK_FILE_def STAGING_DIR_NAME_def)
  then obtain es where "map_of (List.filter (\<lambda>(m, y). \<not> swept_out keep a m y) es) n = Some x"
    using assms(2,4)
    by (auto simp: obj_at_def child_def r map_of_map_pairs swept_def split: option.splits node.splits)
  from map_of_filter_Some [OF this] have "\<not> swept_out keep a n x" by simp
  with assms(3,5) show ?thesis by (simp add: swept_out_def)
qed

text \<open>The report: every reference is counted once.\<close>

lemma check_references_counts:
  "check_references E root refs rep = Inr rep' \<Longrightarrow>
     rr_healthy_objects rep' + rr_missing_objects rep' + rr_corrupt_objects rep'
       = rr_healthy_objects rep + rr_missing_objects rep + rr_corrupt_objects rep + length refs
     \<and> rr_referenced_objects rep' = rr_referenced_objects rep"
proof (induction E root refs rep rule: check_references.induct)
  case (1 E root rep)
  then show ?case by simp
next
  case (2 E root shard name d refs rep)
  from "2.prems" obtain x where x: "stat_obj root shard name = Inr x"
    by (auto simp: andthen_Inr)
  show ?case
    using "2.IH" [of x] "2.prems" x by (cases x) (simp_all split: if_splits)
qed

definition healthy_object :: "store_env \<Rightarrow> dir \<Rightarrow> (string \<times> string) \<times> stored_delivery \<Rightarrow> bool" where
  "healthy_object E root p =
     (case p of ((a, n), d) \<Rightarrow>
       (case obj_at root a n of
          Some (File b) \<Rightarrow> is_ok (verify_recorded_file (ext E) (Some (File b)) (st_size d)
            (st_sha256 d) (st_media_type d) (max_file_size E))
        | _ \<Rightarrow> False))"

lemma check_references_healthy:
  "check_references E root refs rep = Inr rep' \<Longrightarrow>
     rr_healthy_objects rep' = rr_healthy_objects rep + length (List.filter (healthy_object E root) refs)"
proof (induction E root refs rep rule: check_references.induct)
  case (1 E root rep)
  then show ?case by simp
next
  case (2 E root shard name d refs rep)
  from "2.prems" obtain x where x: "stat_obj root shard name = Inr x"
    by (auto simp: andthen_Inr)
  then have o: "x = obj_at root shard name"
    by (auto simp: stat_obj_def obj_at_def child_def split: option.splits node.splits)
  show ?case
  proof (cases x)
    case None
    then show ?thesis
      using "2.IH" [of None] "2.prems" x o [symmetric] by (simp add: healthy_object_def)
  next
    case (Some n)
    have "healthy_object E root ((shard, name), d) \<longleftrightarrow> is_regular n
        \<and> is_ok (verify_recorded_file (ext E) (Some n) (st_size d) (st_sha256 d) (st_media_type d)
            (max_file_size E))"
      using o [symmetric] Some by (cases n) (simp_all add: healthy_object_def is_regular_def)
    then show ?thesis
      using "2.IH" [of "Some n"] "2.prems" x Some by (simp split: if_splits)
  qed
qed

definition report_core :: "reconcile_report \<Rightarrow> nat list" where
  "report_core rep =
     [rr_referenced_objects rep, rr_healthy_objects rep, rr_missing_objects rep,
      rr_corrupt_objects rep, rr_stale_staging_files_removed rep]"

lemma sweep_shard_core: "report_core (fst (sweep_shard keep shard es rep)) = report_core rep"
  by (induction keep shard es rep rule: sweep_shard.induct) (auto simp: report_core_def)

lemma sweep_root_core: "report_core (fst (sweep_root keep root rep)) = report_core rep"
proof (induction keep root rep rule: sweep_root.induct)
  case (1 keep rep)
  then show ?case by simp
next
  case (2 keep name x es rep)
  have s: "report_core (fst (sweep_shard keep name objects rep)) = report_core rep" for objects
    by (rule sweep_shard_core)
  have u: "report_core (rep\<lparr>rr_unexpected_entries := n\<rparr>) = report_core rep" for n
    by (simp add: report_core_def)
  show ?case
  proof (cases x)
    case (Dir objects)
    then show ?thesis
      using 2 s [of objects] u by (auto split: prod.splits)
  qed (use 2 u in auto)
qed

text \<open>What is kept: one reference for every object of a pending row.\<close>

definition row_path :: "delivery_row \<Rightarrow> string \<times> string" where
  "row_path r = (take 2 (r_sha r), object_name (r_sha r) (the (extension_for_media_type (r_media r))))"

lemma collect_references_Inr:
  "collect_references E rows refs = Inr refs' \<Longrightarrow> distinct (List.map fst refs) \<Longrightarrow>
     fst ` set refs' = fst ` set refs \<union> row_path ` set rows \<and> distinct (List.map fst refs')"
proof (induction E rows refs rule: collect_references.induct)
  case (1 E refs)
  then show ?case by simp
next
  case (2 E row rows refs)
  from "2.prems" obtain d p where d: "validate_db_delivery row (max_file_size E) = Inr d"
    "store_content_path E d = Inr p"
    by (auto simp: andthen_Inr)
  then have p: "p = row_path row"
    by (auto simp: store_content_path_def andthen_Inr validate_db_delivery_Inr row_path_def)
  show ?case
  proof (cases "map_of refs p")
    case None
    then have c: "collect_references E rows (refs @ [(p, d)]) = Inr refs'"
      using "2.prems" d by simp
    from None have n: "p \<notin> fst ` set refs" by (simp add: map_of_eq_None_iff)
    have "distinct (List.map fst (refs @ [(p, d)]))" using n "2.prems"(2) by simp
    from "2.IH"(1) [OF None c this] p show ?thesis by auto
  next
    case (Some q)
    then have m: "p \<in> fst ` set refs" by (auto dest!: map_of_SomeD intro: rev_image_eqI)
    have c: "collect_references E rows refs = Inr refs'"
      and n: "\<not> (st_sha256 q \<noteq> st_sha256 d \<or> st_size q \<noteq> st_size d \<or> st_media_type q \<noteq> st_media_type d)"
      using "2.prems" d Some by (auto split: if_splits)
    have "row_path ` set (row # rows) \<union> fst ` set refs = row_path ` set rows \<union> fst ` set refs"
      using m p by (simp add: insert_absorb)
    with "2.IH"(2) [OF Some n c "2.prems"(2)] show ?thesis by (simp only: Un_commute)
  qed
qed

lemma all_pending_set: "set (all_pending d) = {r \<in> set (t_deliveries d). r_acked r = None}"
  by (simp add: all_pending_def)

lemma reconcile_content_steps:
  "reconcile_content E s = (Inr rep, t) \<Longrightarrow>
     \<exists>a b stale refs rep0. lock_content s = (Inr (), a) \<and> on_content cleanup_staging a = (Inr stale, b)
       \<and> collect_references E (all_pending (srv_db b)) [] = Inr refs
       \<and> check_references E (srv_content b) refs
           \<lparr>rr_referenced_objects = length refs, rr_healthy_objects = 0, rr_missing_objects = 0,
            rr_corrupt_objects = 0, rr_removed_unreferenced_objects = 0,
            rr_stale_staging_files_removed = stale, rr_unexpected_entries = 0\<rparr> = Inr rep0
       \<and> sweep_root (List.map fst refs) (srv_content b) rep0 = (rep, srv_content t)
       \<and> srv_db t = srv_db s"
proof -
  assume a: "reconcile_content E s = (Inr rep, t)"
  then obtain u a stale c refs rep0 where l: "lock_content s = (Inr u, a)"
    and c: "cleanup_staging (srv_content a) = (Inr stale, c)"
    and r: "collect_references E (all_pending (srv_db a)) [] = Inr refs"
      "check_references E c refs
           \<lparr>rr_referenced_objects = length refs, rr_healthy_objects = 0, rr_missing_objects = 0,
            rr_corrupt_objects = 0, rr_removed_unreferenced_objects = 0,
            rr_stale_staging_files_removed = stale, rr_unexpected_entries = 0\<rparr> = Inr rep0"
    and w: "(case sweep_root (List.map fst refs) c rep0 of (rep', root') \<Rightarrow> (Inr rep', root'))
          = ((Inr rep, srv_content t) :: reconcile_report res \<times> dir)"
      "srv_db t = srv_db a"
    by (auto simp: reconcile_content_def bindo_ok connection_def op_defs on_content_eq
        split: if_splits)
  have "on_content cleanup_staging a = (Inr stale, a\<lparr>srv_content := c\<rparr>)"
    using c by (simp add: on_content_eq)
  moreover have "sweep_root (List.map fst refs) c rep0 = (rep, srv_content t)"
    using w(1) by (cases "sweep_root (List.map fst refs) c rep0") simp
  moreover have "srv_db a = srv_db s" using lock_content_db [OF l] by simp
  ultimately show ?thesis
    using l r w(2)
    by (intro exI [of _ a] exI [of _ "a\<lparr>srv_content := c\<rparr>"] exI [of _ stale] exI [of _ refs]
        exI [of _ rep0]) simp
qed

lemma pres_reconcile [pres_intros]: "pres (store_ok E) (reconcile_content E)"
proof -
  have sweep: "hoare (\<lambda>s. store_ok E s \<and> collect_references E (all_pending (srv_db s)) [] = Inr refs)
      (on_content (\<lambda>root. case sweep_root (List.map fst refs) root rep of (rep', root') \<Rightarrow> (Inr rep', root')))
      (\<lambda>_. store_ok E) (store_ok E)" for refs rep
  proof -
    have "store_ok E (s\<lparr>srv_content := c\<rparr>)"
      if s: "store_ok E s" and r: "collect_references E (all_pending (srv_db s)) [] = Inr refs"
        and c: "sweep_root (List.map fst refs) (srv_content s) rep = (rep', c)" for s c rep'
    proof -
      have "row_stored E c r" if "must_keep (srv_db s) r" for r
      proof -
        have "row_stored E (srv_content s) r" using s that by (simp add: store_ok_def content_safe_def)
        moreover have "row_path r \<in> set (List.map fst refs)"
          using collect_references_Inr [OF r] that by (simp add: all_pending_set must_keep_def)
        ultimately show ?thesis using sweep_keeps [OF c] by (simp add: row_stored_def row_path_def)
      qed
      with s show ?thesis by (simp add: store_ok_def content_safe_def)
    qed
    then show ?thesis by (auto intro!: hoareI simp: on_content_eq split: prod.splits)
  qed
  have db: "hoare (store_ok E) connection (\<lambda>d s. store_ok E s \<and> srv_db s = d) (store_ok E)"
    by (rule hoareI) (auto simp: connection_def op_defs split: if_splits)
  have st: "pres (store_ok E) (on_content cleanup_staging)"
    by (rule pres_on_content) (rule cleanup_grows)
  have rest: "hoare (\<lambda>s. store_ok E s \<and> srv_db s = d)
      (bindo (lifto (collect_references E (all_pending d) [])) (\<lambda>refs.
       bindo (readso (f refs)) (\<lambda>rep.
       on_content (\<lambda>root. case sweep_root (List.map fst refs) root rep of (rep', root') \<Rightarrow> (Inr rep', root')))))
      (\<lambda>_. store_ok E) (store_ok E)" for d f
    by (rule hoare_bindo, rule hoare_lifto, simp, rule hoare_bindo, rule hoare_readso, simp,
        rule hoare_conseq [OF sweep]) auto
  show ?thesis
    unfolding reconcile_content_def
    by (rule pres_bindo [OF pres_lock_content], rule pres_bindo [OF st],
        unfold pres_hoare, rule hoare_bindo [OF db], rule rest)
qed

section \<open>Facts about single operations\<close>

lemma get_delivery_eq:
  "get_delivery E device i s = (Inr x, t) \<longleftrightarrow>
     t = s \<and> is_ok (validate_device_id device) \<and> valid_delivery_id i
     \<and> t_user_version (srv_db s) = SERVER_SCHEMA_VERSION
     \<and> (case find_row (srv_db s) device i of
          None \<Rightarrow> x = None
        | Some row \<Rightarrow> (\<exists>d. validate_db_delivery row (max_file_size E) = Inr d \<and> x = Some d))"
  by (auto simp: get_delivery_def bindo_ok connection_def op_defs andthen_Inr is_ok_iff
      split: option.splits if_splits)

definition stored_of :: "delivery_row \<Rightarrow> stored_delivery" where
  "stored_of r =
     \<lparr>st_sequence = r_seq r, st_id = r_id r, st_original_name = r_name r, st_size = nat (r_size r),
      st_sha256 = r_sha r, st_media_type = r_media r, st_created_at_unix = nat (r_created r)\<rparr>"

lemma row_ok_stored: "row_ok E r \<Longrightarrow> validate_db_delivery r (max_file_size E) = Inr (stored_of r)"
  by (auto simp: row_ok_def is_ok_iff validate_db_delivery_Inr stored_of_def)

lemma map_res_stored:
  "list_all (row_ok E) rs \<Longrightarrow>
     map_res (\<lambda>r. validate_db_delivery r (max_file_size E)) rs = Inr (List.map stored_of rs)"
  by (induction rs) (auto simp: row_ok_stored)

lemma rows_ok_distinct: "rows_ok E d \<Longrightarrow> distinct (List.map row_key (t_deliveries d))"
  by (simp add: rows_ok_def)

lemma rows_ok_row: "rows_ok E d \<Longrightarrow> r \<in> set (t_deliveries d) \<Longrightarrow> row_ok E r"
  by (simp add: rows_ok_def list_all_iff)

section \<open>Paging through the queue\<close>

text \<open>
  What a reader of numbered pages relies on, and what it gets: asking again after the last item
  of a full page, it sees every row of its snapshot once, in order.
\<close>

locale pager =
  fixes ok :: "'d \<Rightarrow> bool"
    and rows :: "'d \<Rightarrow> int \<Rightarrow> int \<Rightarrow> 'a list"
    and key :: "'a \<Rightarrow> int"
  assumes rows_after: "ok d \<Longrightarrow> rows d a n = xs @ x # ys \<Longrightarrow> rows d (key x) n = ys"
begin

fun drain :: "'d \<Rightarrow> nat \<Rightarrow> nat \<Rightarrow> int \<Rightarrow> int \<Rightarrow> 'a list option" where
  "drain d limit 0 a n = None"
| "drain d limit (Suc fuel) a n =
     (let page = take limit (rows d a n) in
      if length (rows d a n) > limit
      then map_option (\<lambda>rest. page @ rest) (drain d limit fuel (key (last page)) n)
      else Some page)"

lemma rows_after_take:
  assumes "ok d" "0 < k" "k \<le> length (rows d a n)"
  shows "rows d (key (last (take k (rows d a n)))) n = drop k (rows d a n)"
proof -
  let ?r = "rows d a n"
  have "?r = take (k - 1) ?r @ ?r ! (k - 1) # drop k ?r"
    using assms(2,3) by (metis Suc_diff_1 Suc_le_lessD Suc_pred' id_take_nth_drop)
  moreover have "last (take k ?r) = ?r ! (k - 1)"
    using assms(2,3) by (subst last_conv_nth) (auto simp: min_absorb2)
  ultimately show ?thesis using rows_after [OF assms(1)] by metis
qed

lemma drain_all:
  assumes "ok d" "0 < limit" "length (rows d a n) < fuel"
  shows "drain d limit fuel a n = Some (rows d a n)"
  using assms
proof (induction fuel arbitrary: a)
  case 0
  then show ?case by simp
next
  case (Suc fuel)
  show ?case
  proof (cases "length (rows d a n) > limit")
    case True
    have r: "rows d (key (last (take limit (rows d a n)))) n = drop limit (rows d a n)"
      using Suc.prems True by (intro rows_after_take) auto
    have "drain d limit fuel (key (last (take limit (rows d a n)))) n
        = Some (drop limit (rows d a n))"
      using Suc.IH [of "key (last (take limit (rows d a n)))"] Suc.prems True by (simp add: r)
    with True show ?thesis by (simp add: Let_def)
  qed simp
qed

end

definition seq_sorted :: "database \<Rightarrow> bool" where
  "seq_sorted d = sorted_wrt (<) (List.map r_seq (t_deliveries d))"

lemma pending_rows_sorted:
  assumes "seq_sorted d"
  shows "pending_rows d device a n = List.filter
       (\<lambda>r. is_pending device r \<and> \<not> is_directory_row d r \<and> r_seq r > a \<and> r_seq r \<le> n) (t_deliveries d)"
proof -
  have "sorted (List.map r_seq (List.filter P (t_deliveries d)))" for P
    using assms unfolding seq_sorted_def
    by (intro sorted_filter) (simp add: strict_sorted_imp_sorted)
  then show ?thesis by (simp add: pending_rows_def sorted_sort_id sort_key_id_if_sorted)
qed

interpretation queue: pager "\<lambda>(d, device). seq_sorted d" "\<lambda>(d, device). pending_rows d device" r_seq
proof unfold_locales
  fix p :: "database \<times> string" and a n :: int and xs x ys
  obtain d device where p: "p = (d, device)" by fastforce
  assume "case p of (d, device) \<Rightarrow> seq_sorted d"
    and "(case p of (d, device) \<Rightarrow> pending_rows d device) a n = xs @ x # ys"
  then have s: "seq_sorted d" and e: "pending_rows d device a n = xs @ x # ys" by (simp_all add: p)
  let ?P = "\<lambda>r. is_pending device r \<and> \<not> is_directory_row d r \<and> r_seq r \<le> n"
  have f: "pending_rows d device b n = List.filter (\<lambda>r. r_seq r > b) (List.filter ?P (t_deliveries d))" for b
    by (simp add: pending_rows_sorted [OF s]) (metis (mono_tags, lifting))
  have w: "sorted_wrt (<) (List.map r_seq (xs @ x # ys))"
    using s e unfolding seq_sorted_def pending_rows_sorted [OF s] e [symmetric]
    by (simp add: sorted_wrt_map sorted_wrt_filter)
  have "r_seq x > a" using e f [of a] by (metis (mono_tags, lifting) filter_set in_set_conv_decomp mem_Collect_eq set_filter)
  then have "pending_rows d device (r_seq x) n = List.filter (\<lambda>r. r_seq r > r_seq x) (xs @ x # ys)"
    unfolding e [symmetric] f by (simp add: conj_commute) (metis (mono_tags, lifting) order_less_trans)
  also have "\<dots> = ys" using w by (auto simp: sorted_wrt_append filter_empty_conv filter_id_conv)
  finally show "(case p of (d, device) \<Rightarrow> pending_rows d device) (r_seq x) n = ys" by (simp add: p)
qed


section \<open>Properties of the queue\<close>

lemma list_pending_page:
  assumes "rows_ok E (srv_db s)" "is_ok (validate_device_id device)"
    "t_user_version (srv_db s) = SERVER_SCHEMA_VERSION" "0 < limit" "limit \<le> 100" "0 \<le> a"
    "case n of None \<Rightarrow> m = max_pending (srv_db s) device | Some k \<Rightarrow> m = k \<and> a \<le> k"
  defines "rs \<equiv> pending_rows (srv_db s) device a m"
  shows "list_pending E device a n limit s =
     (Inr \<lparr>pp_deliveries = List.map stored_of (take limit rs), pp_snapshot_sequence = m,
       pp_has_more = (length rs > limit)\<rparr>, s)"
proof -
  obtain u where u: "validate_device_id device = Inr u" using assms(2) by (auto simp: is_ok_iff)
  have "list_all (row_ok E) (take (limit + 1) rs)"
    using assms(1) by (auto simp: list_all_iff rs_def pending_rows_def rows_ok_row dest!: in_set_takeD)
  note r = map_res_stored [OF this]
  have t: "take (Suc limit) rs = take limit rs" if "\<not> limit < length rs" using that by simp
  show ?thesis
    using assms(3-7) r t unfolding rs_def
    by (cases n) (auto simp: list_pending_def u bindo_lifto connection_def bindo_readso op_defs Let_def
        ensure_def take_map min_def)
qed

lemma pending_nonneg:
  "rows_ok E d \<Longrightarrow> r \<in> set (pending_rows d device a n) \<Longrightarrow> 0 < r_seq r \<and> r_seq r \<le> n"
  by (auto simp: pending_rows_def rows_ok_def list_all_iff)

lemma fold_max_ge: "(x :: int) \<le> fold max xs x \<and> (\<forall>y \<in> set xs. y \<le> fold max xs x)"
proof (induction xs arbitrary: x)
  case Nil
  then show ?case by simp
next
  case (Cons z xs)
  from Cons [of "max z x"] show ?case by auto
qed

lemma max_pending_ge:
  assumes "r \<in> set (t_deliveries d)" "is_pending device r"
  shows "r_seq r \<le> max_pending d device"
proof -
  have "r_seq r \<in> set (List.map r_seq (List.filter (is_pending device) (t_deliveries d)))"
    using assms by auto
  then show ?thesis
    using fold_max_ge
    by (cases "List.map r_seq (List.filter (is_pending device) (t_deliveries d))")
      (auto simp: max_pending_def)
qed

lemma max_pending_nonneg: "rows_ok E d \<Longrightarrow> 0 \<le> max_pending d device"
proof (cases "List.filter (is_pending device) (t_deliveries d)")
  case Nil
  then show ?thesis by (simp add: max_pending_def)
next
  case (Cons r rs)
  assume "rows_ok E d"
  moreover have r: "r \<in> set (t_deliveries d)" "is_pending device r"
    using Cons by (auto simp: filter_eq_Cons_iff)
  ultimately show ?thesis using max_pending_ge [OF r] by (auto simp: rows_ok_def list_all_iff)
qed

lemma queue_ok: "rows_ok sample_env (srv_db queue_server)"
  by (simp add: rows_ok_def sample_defs row_ok_iff row_key_def extension_for_media_type_def ascii_defs)

section \<open>Enqueueing, step by step\<close>

definition enqueue_checks ::
    "store_env \<Rightarrow> string \<Rightarrow> node option \<Rightarrow> string \<Rightarrow> string \<Rightarrow> nat \<Rightarrow> directory_version option
       \<Rightarrow> inspection \<Rightarrow> database \<Rightarrow> bool" where
  "enqueue_checks E device x name did created directory i d \<longleftrightarrow>
     is_ok (validate_device_id device)
     \<and> (case directory of None \<Rightarrow> True | Some v \<Rightarrow> is_ok (validate_version v))
     \<and> inspect_file (ext E) x (max_file_size E) = Inr i
     \<and> valid_metadata (inspected_delivery name did created i) (max_file_size E)
     \<and> t_user_version d = SERVER_SCHEMA_VERSION \<and> device_open d device"

lemma enqueue_Inr:
  "enqueue_directory_with_id E now device x name did created directory s = (Inr d, t) \<longleftrightarrow>
     (\<exists>i a. enqueue_checks E device x name did created directory i (srv_db s)
        \<and> lock_content s = (Inr (), a)
        \<and> (case find_row (srv_db s) device did of
             Some row \<Rightarrow> (\<exists>e. validate_db_delivery row (max_file_size E) = Inr e
               \<and> enqueue_replay device name did created directory i e a = (Inr d, t))
           | None \<Rightarrow> enqueue_fresh E now device x (inspected_delivery name did created i) created
               directory i a = (Inr d, t)))"
  (is "?l \<longleftrightarrow> (\<exists>i a. ?r i a)")
proof -
  let ?rest = "\<lambda>i. bindo (get_delivery E device did) (\<lambda>found. case found of
          Some existing \<Rightarrow> enqueue_replay device name did created directory i existing
        | None \<Rightarrow> enqueue_fresh E now device x (inspected_delivery name did created i) created directory i)"
  have "?l \<longleftrightarrow> (\<exists>i a. enqueue_checks E device x name did created directory i (srv_db a)
      \<and> lock_content s = (Inr (), a) \<and> ?rest i a = (Inr d, t))"
    unfolding enqueue_directory_with_id_def Let_def enqueue_checks_def
    by (cases directory)
      (auto simp: bindo_ok [of lock_content] bindo_ok [of connection]
        bindo_ok [of "lifto _"] lifto_ok connection_ok is_ok_iff)
  also have "\<dots> \<longleftrightarrow> (\<exists>i a. ?r i a)"
  proof (intro ex_cong1)
    fix i a
    show "(enqueue_checks E device x name did created directory i (srv_db a)
        \<and> lock_content s = (Inr (), a) \<and> ?rest i a = (Inr d, t)) = ?r i a"
    proof (cases "lock_content s = (Inr (), a)")
      case True
      then have db: "srv_db a = srv_db s" using lock_content_db by blast
      have "?rest i a = (Inr d, t) \<longleftrightarrow> (case find_row (srv_db s) device did of
             Some row \<Rightarrow> (\<exists>e. validate_db_delivery row (max_file_size E) = Inr e
               \<and> enqueue_replay device name did created directory i e a = (Inr d, t))
           | None \<Rightarrow> enqueue_fresh E now device x (inspected_delivery name did created i) created
               directory i a = (Inr d, t))"
        if "enqueue_checks E device x name did created directory i (srv_db s)"
        using that db
        by (auto simp: bindo_ok get_delivery_eq enqueue_checks_def valid_metadata_iff split: option.splits)
      with True db show ?thesis by auto
    qed simp
  qed
  finally show ?thesis .
qed

lemma enqueue_fresh_Inr:
  "enqueue_fresh E now device x e created directory i a = (Inr d, t) \<longleftrightarrow>
     (\<exists>stored c. receive (ext E) e (node_reader x) (max_file_size E) (srv_content a) = (Inr stored, c)
        \<and> sa_size stored = in_size i \<and> sa_sha256 stored = in_sha256 i
        \<and> sa_media_type stored = in_media_type i
        \<and> enqueue_insert E now device (d_original_name e) (d_id e) created directory i
            (a\<lparr>srv_content := c\<rparr>) = (Inr d, t))"
  by (auto simp: enqueue_fresh_def op_ok on_content_eq transaction_ok)

lemma inspect_delivery_input:
  assumes "inspect_file X x mx = Inr i"
  obtains b where "x = Some (File b) \<or> x = Some (Link (Some b))" "i = inspection_of X b"
    "inspectable mx None b"
  using assms by (auto simp: inspect_file_Inr)

text \<open>
  C1. Queueing a new delivery succeeds only for a readable, non-empty input within the size
  limit and for a device that is not leaving. It then appends exactly one pending row with the
  next sequence number, returns that row's delivery, and the content is stored under its
  digest; no object stored before is touched.
\<close>

theorem enqueue_delivers:
  assumes "enqueue_with_id E now device x name did created s = (Inr d, t)"
    and "find_row (srv_db s) device did = None"
  shows "\<exists>b row. (x = Some (File b) \<or> x = Some (Link (Some b))) \<and> b \<noteq> []
     \<and> length b \<le> max_file_size E \<and> device_open (srv_db s) device
     \<and> row = \<lparr>r_seq = t_sequence (srv_db s) + 1, r_device = device, r_id = did, r_name = name,
         r_size = int (length b), r_sha = sha256_hex (ext E) b,
         r_media = in_media_type (inspection_of (ext E) b), r_created = int created,
         r_acked = None\<rparr>
     \<and> srv_db t = (srv_db s)\<lparr>t_deliveries := t_deliveries (srv_db s) @ [row],
         t_sequence := r_seq row\<rparr>
     \<and> d = stored_of row \<and> row_stored E (srv_content t) row
     \<and> content_grows (srv_content s) (srv_content t)"
proof -
  from assms(1) have e: "enqueue_directory_with_id E now device x name did created None s = (Inr d, t)"
    by (simp add: enqueue_with_id_def)
  obtain i a stored c where f: "inspect_file (ext E) x (max_file_size E) = Inr i"
    "lock_content s = (Inr (), a)" "device_open (srv_db s) device"
    and r: "receive (ext E) (inspected_delivery name did created i) (node_reader x)
      (max_file_size E) (srv_content a) = (Inr stored, c)"
    and n: "enqueue_insert E now device name did created None i (a\<lparr>srv_content := c\<rparr>) = (Inr d, t)"
    using e assms(2) by (auto simp: enqueue_Inr enqueue_fresh_Inr enqueue_checks_def)
  obtain b where b: "x = Some (File b) \<or> x = Some (Link (Some b))" "i = inspection_of (ext E) b"
    "inspectable (max_file_size E) None b"
    by (rule inspect_delivery_input [OF f(1)])
  have a: "srv_db a = srv_db s" "\<And>q k. obj_at (srv_content a) q k = obj_at (srv_content s) q k"
    using lock_content_db [OF f(2)] by auto
  let ?row = "(new_row device did name created i)\<lparr>r_seq := t_sequence (srv_db s) + 1\<rparr>"
  have t: "srv_db t = (srv_db s)\<lparr>t_deliveries := t_deliveries (srv_db s) @ [?row],
        t_sequence := t_sequence (srv_db s) + 1\<rparr>" "srv_content t = c" "d = stored_of ?row"
    using n a(1) by (auto simp: enqueue_insert_steps insert_delivery_eq on_db_def new_row_def stored_of_def)
  have "content_grows (srv_content s) c"
    using receive_grows [OF r] a(2) by (simp add: content_grows_def)
  moreover have "row_stored E c ?row"
    using receive_stored [OF r] by (simp add: row_stored_def delivery_stored_def new_row_def)
  ultimately show ?thesis
    using t b f(3)
    by (intro exI [of _ b] exI [of _ ?row]) (auto simp: new_row_def inspectable_def)
qed

lemma sample_enqueue:
  "enqueue_with_id sample_env 7 ''linux'' (Some (File sample_png)) ''a.png'' (sample_id (CHR ''1''))
     100 empty_server = (Inr (stored_of (sample_row 1 ''linux'' (CHR ''1''))), delivered_server)"
proof -
  have l: "length sample_png = 12" by (simp add: sample_png_def)
  have v: "valid_metadata (inspected_delivery ''a.png'' (sample_id (CHR ''1'')) 100
      \<lparr>in_size = 12, in_sha256 = sample_sha, in_media_type = ''image/png'', in_extension = ''png''\<rparr>) 1024"
    by (simp add: valid_metadata_iff inspected_delivery_def ascii_defs extension_for_media_type_def)
  have u: "validate_device_id ''linux'' = Inr ()" using sample_linux by (simp add: is_ok_iff)
  have o: "require_device_open d ''linux'' = Inr ()" for d
    by (simp add: require_device_open_def strip_prefix_def FOLDER_PREFIX_def)
  let ?i = "\<lparr>in_size = 12, in_sha256 = sample_sha, in_media_type = ''image/png'', in_extension = ''png''\<rparr>"
  let ?e = "inspected_delivery ''a.png'' (sample_id (CHR ''1'')) 100 ?i"
  let ?lock = "(LIBRARY_LOCK_FILE, File [])"
  let ?staging = "(STAGING_DIR_NAME, Dir [(STAGING_OWNER_FILE, File STAGING_OWNER_CONTENT)])"
  have n: "LIBRARY_LOCK_FILE \<noteq> STAGING_DIR_NAME" "LIBRARY_LOCK_FILE \<noteq> ''89''" "STAGING_DIR_NAME \<noteq> ''89''"
    by (simp_all add: LIBRARY_LOCK_FILE_def STAGING_DIR_NAME_def)
  have "ensure_staging_directory [?lock] = (Inr (), [?lock, ?staging])"
    using n by (simp add: ensure_staging_directory_def bindo_def ensure_child_directory_def
        claim_staging_def child_def)
  then have "receive sample_ext ?e (node_reader (Some (File sample_png))) 1024 [?lock]
      = (Inr \<lparr>sa_path = (''89'', object_name sample_sha ''png''), sa_size = 12, sa_sha256 = sample_sha,
           sa_media_type = ''image/png''\<rparr>, srv_content delivered_server)"
    using v n sample_copy l
    by (simp add: receive_def op_ok Let_def node_reader_def valid_sha256_lower sample_shard
        ensure_child_directory_def commit_object_def obj_at_def child_def put_obj_def target_exists_def
        delivered_server_def)
  moreover have "enqueue_checks sample_env ''linux'' (Some (File sample_png)) ''a.png''
      (sample_id (CHR ''1'')) 100 None ?i (srv_db empty_server)"
    using v by (simp add: enqueue_checks_def device_open_def o inspect_file_def sample_env_def
        sample_inspect empty_server_def empty_db_def)
  moreover have "lock_content empty_server = (Inr (), empty_server\<lparr>srv_content := [?lock]\<rparr>)"
    by (simp add: lock_content_def on_content_def lock_library_def empty_server_def)
  ultimately show ?thesis
    by (auto simp: enqueue_with_id_def enqueue_Inr enqueue_fresh_Inr enqueue_insert_steps
        insert_delivery_eq sample_defs find_row_def new_row_def on_db_def i64_max_def
        stored_of_def delivered_server_def)
qed

theorem enqueue_delivers_witness:
  "\<exists>b row. b \<noteq> [] \<and> row_stored sample_env (srv_content delivered_server) row
     \<and> stored_of row = stored_of (sample_row 1 ''linux'' (CHR ''1''))"
proof -
  have "find_row (srv_db empty_server) ''linux'' (sample_id (CHR ''1'')) = None"
    by (simp add: find_row_def sample_defs)
  from enqueue_delivers [OF sample_enqueue this] show ?thesis by auto
qed


section \<open>Replays\<close>

lemma check_directory_replay_Inr:
  "check_directory_replay device did expected s = (Inr u, t) \<longleftrightarrow> t = s
     \<and> map_option (\<lambda>v. \<lparr>dv_path = v_path v, dv_version = i64_as_u64 (v_version v)\<rparr>)
         (find_version (srv_db s) device did) = expected"
  by (auto simp: check_directory_replay_def op_ok Let_def)

lemma insert_directory_version_steps:
  assumes "insert_directory_version now device did v s = (Inr u, t)"
  shows "is_ok (validate_version v) \<and> prefix FOLDER_PREFIX device
     \<and> find_version (srv_db s) device did = None \<and> find_row (srv_db s) device did \<noteq> None
     \<and> \<not> (\<exists>w \<in> set (device_versions (srv_db s) device).
          (v_path w = dv_path v \<and> v_version w = u64_as_i64 (dv_version v))
          \<or> path_below (v_path w) (dv_path v) \<or> path_below (dv_path v) (v_path w))
     \<and> (\<exists>d. d = (srv_db s)\<lparr>t_versions := t_versions (srv_db s) @
            [\<lparr>v_device = device, v_delivery = did, v_path = dv_path v,
              v_version = u64_as_i64 (dv_version v), v_conflict = 0\<rparr>]\<rparr>
          \<and> t = s\<lparr>srv_db :=
            (if \<exists>w \<in> set (t_versions d). v_device w = device \<and> v_path w = dv_path v
                  \<and> v_version w > u64_as_i64 (dv_version v) \<and> version_acked d w
             then set_acked (\<lambda>r. r_device r = device \<and> r_id r = did) (u64_as_i64 now) d else d)\<rparr>)"
  using assms unfolding insert_directory_version_def
  by (auto simp: op_ok Let_def on_db_def is_ok_iff split: if_splits)

lemma lock_library_again:
  "lock_library c = (Inr u, c') \<Longrightarrow> \<exists>b. map_of c' LIBRARY_LOCK_FILE = Some (File b)"
  by (auto simp: lock_library_def split: option.splits node.splits)

lemma receive_top:
  assumes "receive X d (List.map Chunk bs) mx c = (Inr a, c')" "[] \<notin> set bs"
    "n \<noteq> STAGING_DIR_NAME" "n \<noteq> take 2 (d_sha256 d)"
  shows "map_of c' n = map_of c n"
proof -
  obtain r1 r2 where r: "ensure_staging_directory c = (Inr (), r1)"
    "ensure_child_directory (take 2 (d_sha256 d)) r1 = (Inr (), r2)"
    "commit_object X mx (inspection_of X (concat bs)) (concat bs) r2 = (Inr a, c')"
    "sha256_hex X (concat bs) = d_sha256 d"
    using receive_Inr [OF assms(1,2)] by blast
  have "map_of r1 n = map_of c n"
    using r(1) assms(3) by (auto simp: ensure_staging_directory_def bindo_ok ensure_child_directory_def
        split: option.splits node.splits prod.splits)
  moreover have "map_of r2 n = map_of r1 n"
    using r(2) assms(4) by (auto simp: ensure_child_directory_def split: option.splits node.splits)
  moreover have "map_of c' n = map_of r2 n"
    using r(3,4) assms(4) by (auto simp: commit_object_def Let_def put_obj_def split: if_splits sum.splits)
  ultimately show ?thesis by simp
qed

lemma find_row_append:
  "find_row d device did = None \<Longrightarrow> r_device x = device \<Longrightarrow> r_id x = did \<Longrightarrow>
     t_deliveries d' = t_deliveries d @ [x] \<Longrightarrow> find_row d' device did = Some x"
  by (simp add: find_row_def find_append)

lemma set_acked_deliveries:
  "t_deliveries (set_acked P n d) = List.map (\<lambda>r. if P r then r\<lparr>r_acked := Some n\<rparr> else r) (t_deliveries d)"
  by (simp add: set_acked_def)

lemma find_row_set_acked:
  "find_row (set_acked P n d) device did =
     map_option (\<lambda>r. if P r then r\<lparr>r_acked := Some n\<rparr> else r) (find_row d device did)"
proof -
  have "(r_device (if P r then r\<lparr>r_acked := Some n\<rparr> else r) = device
      \<and> r_id (if P r then r\<lparr>r_acked := Some n\<rparr> else r) = did) = (r_device r = device \<and> r_id r = did)" for r
    by auto
  then show ?thesis by (simp only: find_row_def set_acked_deliveries find_map)
qed

lemma find_version_append:
  "find_version d device did = None \<Longrightarrow> v_device x = device \<Longrightarrow> v_delivery x = did \<Longrightarrow>
     t_versions d' = t_versions d @ [x] \<Longrightarrow> find_version d' device did = Some x"
  by (simp add: find_version_def find_append)


lemma enqueue_insert_after:
  assumes "enqueue_insert E now device name did created directory i s = (Inr d, t)"
  shows "t_exits (srv_db t) = t_exits (srv_db s) \<and> t_user_version (srv_db t) = t_user_version (srv_db s)
     \<and> srv_content t = srv_content s
     \<and> (\<exists>row. find_row (srv_db t) device did = Some row \<and> stored_of row = d
          \<and> row\<lparr>r_acked := None\<rparr> = (new_row device did name created i)\<lparr>r_seq := r_seq row\<rparr>)
     \<and> (case directory of None \<Rightarrow> t_versions (srv_db t) = t_versions (srv_db s)
        | Some v \<Rightarrow> check_directory_replay device did directory t = (Inr (), t))"
proof -
  obtain q u where q: "insert_delivery (new_row device did name created i) s = (Inr q, u)"
    "case directory of None \<Rightarrow> u = t
       | Some v \<Rightarrow> insert_directory_version now device did v u = (Inr (), t)"
    "d = \<lparr>st_sequence = q, st_id = did, st_original_name = name, st_size = in_size i,
        st_sha256 = in_sha256 i, st_media_type = in_media_type i, st_created_at_unix = created\<rparr>"
    using assms by (auto simp: enqueue_insert_steps)
  let ?row = "(new_row device did name created i)\<lparr>r_seq := q\<rparr>"
  have u: "find_row (srv_db u) device did = Some ?row" "t_exits (srv_db u) = t_exits (srv_db s)"
    "t_user_version (srv_db u) = t_user_version (srv_db s)" "srv_content u = srv_content s"
    "t_versions (srv_db u) = t_versions (srv_db s)"
    using q(1) by (auto simp: insert_delivery_eq new_row_def on_db_def intro!: find_row_append)
  have r: "stored_of (?row\<lparr>r_acked := a\<rparr>) = d" for a
    by (simp add: stored_of_def new_row_def q(3))
  from r [of None] have r0: "stored_of ?row = d" by (simp add: stored_of_def)
  have k: "?row\<lparr>r_acked := None\<rparr> = ?row" by (simp add: new_row_def)
  show ?thesis
  proof (cases directory)
    case None
    with q(2) u r0 k show ?thesis by auto
  next
    case (Some v)
    with q(2) have i: "insert_directory_version now device did v u = (Inr (), t)" by simp
    note w = insert_directory_version_steps [OF i]
    obtain e b where e: "e = (srv_db u)\<lparr>t_versions := t_versions (srv_db u) @
            [\<lparr>v_device = device, v_delivery = did, v_path = dv_path v,
              v_version = u64_as_i64 (dv_version v), v_conflict = 0\<rparr>]\<rparr>"
      "t = u\<lparr>srv_db := if b then set_acked (\<lambda>r. r_device r = device \<and> r_id r = did) (u64_as_i64 now) e else e\<rparr>"
      using w by blast
    have "find_row e device did = Some ?row" using u(1) by (simp add: e(1) find_row_def)
    then have f: "\<exists>a. find_row (srv_db t) device did = Some (?row\<lparr>r_acked := a\<rparr>)"
      by (auto simp: e(2) find_row_set_acked new_row_def)
    have "find_version (srv_db t) device did = Some \<lparr>v_device = device, v_delivery = did, v_path = dv_path v,
        v_version = u64_as_i64 (dv_version v), v_conflict = 0\<rparr>"
      by (rule find_version_append [of "srv_db u"]) (use w e in auto)
    moreover have "i64_as_u64 (u64_as_i64 (dv_version v)) = dv_version v"
      using w by (intro i64_roundtrip) (auto simp: is_ok_iff u64_max_def i64_max_def)
    ultimately have "check_directory_replay device did directory t = (Inr (), t)"
      by (simp add: check_directory_replay_Inr Some)
    with f Some u r k e show ?thesis by auto
  qed
qed

text \<open>
  Queueing is idempotent: repeating a call that succeeded, at any later time as long as
  nothing else happened, returns the same delivery and changes neither a table nor an object.
\<close>

theorem enqueue_idempotent:
  assumes e: "enqueue_directory_with_id E now device x name did created directory s = (Inr d, t)"
    and n: "find_row (srv_db s) device did = None" "find_version (srv_db s) device did = None"
    and "rows_ok E (srv_db t)"
  shows "\<exists>u. enqueue_directory_with_id E later device x name did created directory t = (Inr d, u)
     \<and> srv_db u = srv_db t \<and> (\<forall>a k. obj_at (srv_content u) a k = obj_at (srv_content t) a k)"
proof -
  obtain i a stored c where c: "enqueue_checks E device x name did created directory i (srv_db s)"
    and l: "lock_content s = (Inr (), a)"
    and r: "receive (ext E) (inspected_delivery name did created i) (node_reader x)
      (max_file_size E) (srv_content a) = (Inr stored, c)"
    and ins: "enqueue_insert E now device name did created directory i (a\<lparr>srv_content := c\<rparr>) = (Inr d, t)"
    using e n by (auto simp: enqueue_Inr enqueue_fresh_Inr)
  have db: "srv_db a = srv_db s" using lock_content_db [OF l] by simp
  note after = enqueue_insert_after [OF ins]
  have "enqueue_checks E device x name did created directory i (srv_db t)"
    using c after db unfolding enqueue_checks_def
    by (auto simp: device_open_cong [of "srv_db t" "srv_db s"])
  moreover obtain b where b: "map_of (srv_content t) LIBRARY_LOCK_FILE = Some (File b)"
  proof -
    obtain bs where bs: "node_reader x = List.map Chunk bs" "[] \<notin> set bs"
      using node_reader_chunks by blast
    have "LIBRARY_LOCK_FILE \<noteq> take 2 h" for h :: string
    proof
      assume "LIBRARY_LOCK_FILE = take 2 h"
      then have "length LIBRARY_LOCK_FILE = length (take 2 h)" by simp
      then show False by (simp add: LIBRARY_LOCK_FILE_def)
    qed
    then have "map_of c LIBRARY_LOCK_FILE = map_of (srv_content a) LIBRARY_LOCK_FILE"
      using r bs by (intro receive_top) (auto simp: LIBRARY_LOCK_FILE_def STAGING_DIR_NAME_def)
    then show thesis using that l after lock_library_again by (fastforce simp: lock_content_def on_content_eq)
  qed
  moreover from b have "lock_content t = (Inr (), t)"
    by (simp add: lock_content_def on_content_def lock_library_def)
  moreover obtain row where row: "find_row (srv_db t) device did = Some row" "stored_of row = d"
    "row\<lparr>r_acked := None\<rparr> = (new_row device did name created i)\<lparr>r_seq := r_seq row\<rparr>"
    using after by blast
  moreover have "validate_db_delivery row (max_file_size E) = Inr d"
    using row(1,2) assms(4) find_row_Some rows_ok_row row_ok_stored by metis
  moreover have "check_directory_replay device did directory t = (Inr (), t)"
    using after n(2) db
    by (cases directory) (auto simp: check_directory_replay_Inr find_version_def)
  moreover have "st_original_name d = name \<and> st_size d = in_size i \<and> st_sha256 d = in_sha256 i
      \<and> st_media_type d = in_media_type i \<and> st_created_at_unix d = created"
    using row(2,3) by (cases row) (auto simp: stored_of_def new_row_def)
  ultimately show ?thesis
    by (auto simp: enqueue_Inr enqueue_replay_def op_ok)
qed

theorem enqueue_idempotent_witness:
  "\<exists>u. enqueue_directory_with_id sample_env 9 ''linux'' (Some (File sample_png)) ''a.png''
      (sample_id (CHR ''1'')) 100 None delivered_server
      = (Inr (stored_of (sample_row 1 ''linux'' (CHR ''1''))), u) \<and> srv_db u = srv_db delivered_server"
proof -
  have "rows_ok sample_env (srv_db delivered_server)"
    by (simp add: delivered_server_def rows_ok_def sample_defs row_ok_iff row_key_def
        extension_for_media_type_def ascii_defs)
  with enqueue_idempotent [OF sample_enqueue [unfolded enqueue_with_id_def], of 9]
  show ?thesis by (auto simp: sample_defs find_row_def find_version_def)
qed

section \<open>Acknowledging, collecting, reconciling\<close>

lemma acknowledge_Inr:
  "acknowledge now device i sha s = (Inr o', t) \<longleftrightarrow>
     is_ok (validate_device_id device) \<and> valid_delivery_id i \<and> valid_sha256 sha
     \<and> t_user_version (srv_db s) = SERVER_SCHEMA_VERSION
     \<and> (case find_row (srv_db s) device i of
          None \<Rightarrow> o' = AckNotFound \<and> t = s
        | Some row \<Rightarrow>
            if r_sha row \<noteq> sha then o' = DigestConflict \<and> t = s
            else if r_acked row \<noteq> None then o' = AlreadyAcknowledged \<and> t = s
            else now \<le> i64_max \<and> o' = AckDone
              \<and> t = on_db (set_acked (\<lambda>r. r_device r = device \<and> r_id r = i) (int now)) s)"
  by (auto simp: acknowledge_def op_ok connection_ok transaction_ok is_ok_iff split: option.splits if_splits)

text \<open>
  An acknowledgement takes effect exactly for a pending delivery of that device with that
  id and digest. It then marks that row alone; every other outcome leaves the server as it
  was; and after a success, the same acknowledgement is answered as already done, at any time.
\<close>

theorem acknowledge_contract:
  assumes a: "acknowledge now device i sha s = (Inr o', t)"
    and d: "distinct (List.map row_key (t_deliveries (srv_db s)))"
  shows "(o' = AckDone \<longleftrightarrow> (\<exists>r \<in> set (t_deliveries (srv_db s)).
        row_key r = (device, i) \<and> r_sha r = sha \<and> r_acked r = None))
     \<and> t = (if o' = AckDone then on_db (\<lambda>d. d\<lparr>t_deliveries := List.map
        (\<lambda>r. if row_key r = (device, i) then r\<lparr>r_acked := Some (int now)\<rparr> else r) (t_deliveries d)\<rparr>) s
        else s)
     \<and> (o' \<in> {AckDone, AlreadyAcknowledged} \<longleftrightarrow>
        acknowledge later device i sha t = (Inr AlreadyAcknowledged, t))"
proof -
  have k: "(\<lambda>r. r_device r = device \<and> r_id r = i) = (\<lambda>r. row_key r = (device, i))"
    by (simp add: row_key_def)
  have f: "find_row (srv_db s) device i = Some r"
    if "r \<in> set (t_deliveries (srv_db s))" "row_key r = (device, i)" for r
    using find_row_mem [OF d that(1)] that(2) by (simp add: row_key_def)
  show ?thesis
  proof (cases "find_row (srv_db s) device i")
    case None
    then have "\<forall>r \<in> set (t_deliveries (srv_db s)). row_key r \<noteq> (device, i)"
      by (simp add: find_row_None)
    with a None show ?thesis by (auto simp: acknowledge_Inr)
  next
    case (Some r)
    then have r: "r \<in> set (t_deliveries (srv_db s))" "row_key r = (device, i)"
      by (auto dest: find_row_Some simp: row_key_def)
    have u: "q = r" if "q \<in> set (t_deliveries (srv_db s))" "row_key q = (device, i)" for q
      using f [OF that] Some by simp
    have ex: "(\<exists>q \<in> set (t_deliveries (srv_db s)). row_key q = (device, i) \<and> P q) \<longleftrightarrow> P r" for P
      using r u by blast
    have m: "set_acked (\<lambda>q. r_device q = device \<and> r_id q = i) n d = d\<lparr>t_deliveries := List.map
        (\<lambda>q. if row_key q = (device, i) then q\<lparr>r_acked := Some n\<rparr> else q) (t_deliveries d)\<rparr>" for n d
      by (simp add: set_acked_def row_key_def)
    consider "r_sha r \<noteq> sha" | "r_sha r = sha" "r_acked r \<noteq> None" | "r_sha r = sha" "r_acked r = None"
      by blast
    then show ?thesis
    proof cases
      case 3
      then have t: "o' = AckDone"
        "t = on_db (set_acked (\<lambda>r. r_device r = device \<and> r_id r = i) (int now)) s"
        using a Some by (auto simp: acknowledge_Inr)
      have "r_device r = device" "r_id r = i" using r(2) by (auto simp: row_key_def)
      then have "find_row (srv_db t) device i = Some (r\<lparr>r_acked := Some (int now)\<rparr>)"
        using Some t(2) by (simp add: find_row_set_acked)
      then have "acknowledge later device i sha t = (Inr AlreadyAcknowledged, t)"
        using a 3 t by (simp add: acknowledge_Inr)
      with t 3 ex show ?thesis by (simp add: m on_db_def)
    qed (use a Some ex in \<open>auto simp: acknowledge_Inr\<close>)
  qed
qed

theorem acknowledge_contract_witness:
  "\<exists>t. acknowledge 5 ''linux'' (sample_id (CHR ''2'')) sample_sha queue_server = (Inr AckDone, t)
     \<and> acknowledge 6 ''linux'' (sample_id (CHR ''2'')) sample_sha t = (Inr AlreadyAcknowledged, t)"
proof -
  let ?t = "on_db (set_acked (\<lambda>r. r_device r = ''linux'' \<and> r_id r = sample_id (CHR ''2'')) 5) queue_server"
  have a: "acknowledge 5 ''linux'' (sample_id (CHR ''2'')) sample_sha queue_server = (Inr AckDone, ?t)"
    by (simp add: acknowledge_Inr find_row_def i64_max_def ascii_defs)
  have "distinct (List.map row_key (t_deliveries (srv_db queue_server)))"
    by (simp add: row_key_def)
  from acknowledge_contract [OF a this, of 6] a show ?thesis by auto
qed

lemma remove_object_gone:
  "remove_object a n c = (Inr b, c') \<Longrightarrow> obj_at c' a n = None \<and> (b \<longleftrightarrow> obj_at c a n \<noteq> None)"
  by (auto simp: remove_object_def stat_obj_def obj_at_del split: option.splits node.splits)
    (auto simp: obj_at_def child_def)

lemma garbage_collect_Inr:
  assumes "garbage_collect_digest sha s = (Inr removed, t)"
  obtains a where "lock_content s = (Inr (), a)" "valid_sha256 sha" "srv_db a = srv_db s"
    "if (\<exists>r \<in> set (t_deliveries (srv_db s)). r_sha r = sha \<and> r_acked r = None)
       \<or> (\<forall>r \<in> set (t_deliveries (srv_db s)). r_sha r \<noteq> sha)
     then \<not> removed \<and> t = a
     else (\<exists>r c. List.find (\<lambda>r. r_sha r = sha) (t_deliveries (srv_db s)) = Some r
        \<and> remove_object (fst (row_path r)) (snd (row_path r)) (srv_content a) = (Inr removed, c)
        \<and> t = a\<lparr>srv_content := c\<rparr>)"
proof -
  obtain a where a: "lock_content s = (Inr (), a)" "valid_sha256 sha"
    "(if (\<exists>r \<in> set (t_deliveries (srv_db a)). r_sha r = sha \<and> r_acked r = None) then retn False
       else
         (case List.find (\<lambda>r. r_sha r = sha) (t_deliveries (srv_db a)) of
            None \<Rightarrow> retn False
          | Some r \<Rightarrow>
              bindo (lifto (of_option ''unsupported stored media type''
                  (extension_for_media_type (r_media r)))) (\<lambda>x.
              on_content (remove_object (take 2 sha) (object_name sha x))))) a = (Inr removed, t)"
    using assms unfolding garbage_collect_digest_def
    by (auto simp: bindo_ok [of "lifto (validate_sha256 _)"] bindo_ok [of lock_content]
        bindo_ok [of connection] lifto_ok connection_ok)
  have db: "srv_db a = srv_db s" using lock_content_db [OF a(1)] by simp
  have n: "List.find (\<lambda>r. r_sha r = sha) (t_deliveries (srv_db s)) = None
      \<longleftrightarrow> (\<forall>r \<in> set (t_deliveries (srv_db s)). r_sha r \<noteq> sha)"
    by (auto simp: find_None_iff)
  show thesis
  proof (rule that [OF a(1,2) db])
    show "if (\<exists>r \<in> set (t_deliveries (srv_db s)). r_sha r = sha \<and> r_acked r = None)
       \<or> (\<forall>r \<in> set (t_deliveries (srv_db s)). r_sha r \<noteq> sha)
     then \<not> removed \<and> t = a
     else (\<exists>r c. List.find (\<lambda>r. r_sha r = sha) (t_deliveries (srv_db s)) = Some r
        \<and> remove_object (fst (row_path r)) (snd (row_path r)) (srv_content a) = (Inr removed, c)
        \<and> t = a\<lparr>srv_content := c\<rparr>)"
    proof (cases "List.find (\<lambda>r. r_sha r = sha) (t_deliveries (srv_db s))")
      case None
      with a(3) n db show ?thesis by auto
    next
      case (Some r)
      then have "r_sha r = sha" "\<not> (\<forall>r \<in> set (t_deliveries (srv_db s)). r_sha r \<noteq> sha)"
        using n find_SomeD [OF Some] by auto
      with a(3) Some db show ?thesis
        by (auto simp: op_ok on_content_eq row_path_def split: if_splits)
    qed
  qed
qed

text \<open>
  Collecting a digest never touches a table, and touches no object at all while a delivery
  of any device with that digest is pending. Otherwise, when the digest was ever delivered,
  the object of its rows is gone afterwards, and no object with another name is touched.
\<close>

theorem collect_contract:
  assumes g: "garbage_collect_digest sha s = (Inr removed, t)"
    and media: "\<And>q r. q \<in> set (t_deliveries (srv_db s)) \<Longrightarrow> r \<in> set (t_deliveries (srv_db s)) \<Longrightarrow>
      r_sha q = r_sha r \<Longrightarrow> r_media q = r_media r"
    and r: "r \<in> set (t_deliveries (srv_db s))" "r_sha r = sha"
  shows "srv_db t = srv_db s
     \<and> (if \<exists>q \<in> set (t_deliveries (srv_db s)). r_sha q = sha \<and> r_acked q = None
        then \<not> removed \<and> (\<forall>a n. obj_at (srv_content t) a n = obj_at (srv_content s) a n)
        else obj_at (srv_content t) (fst (row_path r)) (snd (row_path r)) = None
          \<and> (\<forall>a n. (a, n) \<noteq> row_path r \<longrightarrow> obj_at (srv_content t) a n = obj_at (srv_content s) a n))"
proof -
  obtain a where a: "lock_content s = (Inr (), a)" "valid_sha256 sha" "srv_db a = srv_db s"
    and c: "if (\<exists>r \<in> set (t_deliveries (srv_db s)). r_sha r = sha \<and> r_acked r = None)
       \<or> (\<forall>r \<in> set (t_deliveries (srv_db s)). r_sha r \<noteq> sha)
     then \<not> removed \<and> t = a
     else (\<exists>r c. List.find (\<lambda>r. r_sha r = sha) (t_deliveries (srv_db s)) = Some r
        \<and> remove_object (fst (row_path r)) (snd (row_path r)) (srv_content a) = (Inr removed, c)
        \<and> t = a\<lparr>srv_content := c\<rparr>)"
    by (rule garbage_collect_Inr [OF g])
  have o: "obj_at (srv_content a) b n = obj_at (srv_content s) b n" for b n
    using lock_content_db [OF a(1)] by simp
  show ?thesis
  proof (cases "\<exists>q \<in> set (t_deliveries (srv_db s)). r_sha q = sha \<and> r_acked q = None")
    case True
    then have "\<not> removed \<and> t = a" using c by auto
    with True a(3) o show ?thesis by auto
  next
    case False
    with r(1,2) have nc: "\<not> ((\<exists>r \<in> set (t_deliveries (srv_db s)). r_sha r = sha \<and> r_acked r = None)
        \<or> (\<forall>r \<in> set (t_deliveries (srv_db s)). r_sha r \<noteq> sha))" by blast
    obtain q k where q: "List.find (\<lambda>r. r_sha r = sha) (t_deliveries (srv_db s)) = Some q"
      "remove_object (fst (row_path q)) (snd (row_path q)) (srv_content a) = (Inr removed, k)"
      "t = a\<lparr>srv_content := k\<rparr>"
      using c unfolding if_not_P [OF nc] by blast
    have m: "q \<in> set (t_deliveries (srv_db s))" "r_sha q = r_sha r"
      using find_SomeD [OF q(1)] r(2) by auto
    from m(2) media [OF m(1) r(1) m(2)] have p: "row_path q = row_path r" by (simp add: row_path_def)
    have others: "\<forall>b n. (b, n) \<noteq> row_path r \<longrightarrow> obj_at k b n = obj_at (srv_content s) b n"
      using remove_object_other [OF q(2)] p o by auto
    have gone: "obj_at k (fst (row_path r)) (snd (row_path r)) = None"
      using remove_object_gone [OF q(2)] p by simp
    have "srv_content t = k" "srv_db t = srv_db s" using a(3) by (simp_all add: q(3))
    then show ?thesis
      unfolding if_not_P [OF False] using others gone by blast
  qed
qed

theorem collect_contract_witness:
  "\<exists>t. garbage_collect_digest sample_sha queue_server = (Inr False, t)
     \<and> (\<forall>a n. obj_at (srv_content t) a n = obj_at (srv_content queue_server) a n)"
proof -
  have "LIBRARY_LOCK_FILE \<noteq> take 2 sample_sha"
    by (simp add: sample_shard LIBRARY_LOCK_FILE_def)
  then obtain t where g: "garbage_collect_digest sample_sha queue_server = (Inr False, t)"
    by (auto simp: garbage_collect_digest_def op_ok connection_ok lock_content_def
        on_content_eq lock_library_def)
  have "sample_row 1 ''linux'' (CHR ''1'') \<in> set (t_deliveries (srv_db queue_server))" by simp
  moreover have "r_media q = r_media r" if "q \<in> set (t_deliveries (srv_db queue_server))"
    "r \<in> set (t_deliveries (srv_db queue_server))" for q r
    using that by auto
  ultimately have "\<forall>a n. obj_at (srv_content t) a n = obj_at (srv_content queue_server) a n"
    using collect_contract [OF g] by fastforce
  with g show ?thesis by blast
qed

text \<open>
  Reconciliation changes no table; it keeps every object that a pending delivery refers
  to; in the shards only objects of pending deliveries are left; its report counts every
  referenced object as healthy, missing or corrupt; and it finds all of them healthy exactly
  when every one passes the check of its recorded size, digest and type.
\<close>

theorem reconcile_contract:
  assumes "reconcile_content E s = (Inr rep, t)"
  shows "srv_db t = srv_db s
     \<and> (\<forall>r a n. r \<in> set (t_deliveries (srv_db s)) \<and> r_acked r = None \<and> row_path r = (a, n) \<longrightarrow>
          obj_at (srv_content t) a n = obj_at (srv_content s) a n)
     \<and> (\<forall>a n x. is_content_shard_name a \<and> is_owned_content_object_name a n
          \<and> obj_at (srv_content t) a n = Some x \<and> is_file_or_link x \<longrightarrow>
          (\<exists>r \<in> set (t_deliveries (srv_db s)). r_acked r = None \<and> row_path r = (a, n)))
     \<and> rr_referenced_objects rep
         = rr_healthy_objects rep + rr_missing_objects rep + rr_corrupt_objects rep
     \<and> rr_referenced_objects rep
         = card {row_path r |r. r \<in> set (t_deliveries (srv_db s)) \<and> r_acked r = None}"
proof -
  obtain a b stale refs rep0 where l: "lock_content s = (Inr (), a)"
    and st: "on_content cleanup_staging a = (Inr stale, b)"
    and r: "collect_references E (all_pending (srv_db b)) [] = Inr refs"
    and c: "check_references E (srv_content b) refs
           \<lparr>rr_referenced_objects = length refs, rr_healthy_objects = 0, rr_missing_objects = 0,
            rr_corrupt_objects = 0, rr_removed_unreferenced_objects = 0,
            rr_stale_staging_files_removed = stale, rr_unexpected_entries = 0\<rparr> = Inr rep0"
    and w: "sweep_root (List.map fst refs) (srv_content b) rep0 = (rep, srv_content t)"
    and t: "srv_db t = srv_db s"
    using reconcile_content_steps [OF assms] by blast
  have db: "srv_db b = srv_db s"
    using lock_content_db [OF l] st by (auto simp: on_content_eq)
  have same: "obj_at (srv_content b) x n = obj_at (srv_content s) x n" if "x \<noteq> STAGING_DIR_NAME" for x n
    using lock_content_db [OF l] st that
    by (auto simp: on_content_eq same_outside_def dest!: cleanup_staging_same)
  have refs: "fst ` set refs = row_path ` {r \<in> set (t_deliveries (srv_db s)). r_acked r = None}"
    "distinct (List.map fst refs)"
    using collect_references_Inr [OF r] by (simp_all add: all_pending_set db)
  have "obj_at (srv_content t) x n = obj_at (srv_content s) x n"
    if "q \<in> set (t_deliveries (srv_db s))" "r_acked q = None" "row_path q = (x, n)" for q x n
  proof -
    have "(x, n) \<in> set (List.map fst refs)" using refs(1) that by (auto simp: image_iff)
    moreover have "x \<noteq> STAGING_DIR_NAME"
      using that(3) staging_not_short by (auto simp: row_path_def)
    ultimately show ?thesis using sweep_keeps [OF w] same by simp
  qed
  moreover have "\<exists>q \<in> set (t_deliveries (srv_db s)). r_acked q = None \<and> row_path q = (x, n)"
    if "is_content_shard_name x" "is_owned_content_object_name x n"
      "obj_at (srv_content t) x n = Some y" "is_file_or_link y" for x n y
    using sweep_leaves_referenced [OF w that] refs(1) by (auto simp: image_iff)
  moreover have "report_core rep = report_core rep0" using sweep_root_core w by (metis fst_conv)
  moreover have "length refs = card (row_path ` {r \<in> set (t_deliveries (srv_db s)). r_acked r = None})"
    using distinct_card [OF refs(2)] refs(1) by simp
  moreover have "row_path ` {r \<in> set (t_deliveries (srv_db s)). r_acked r = None}
      = {row_path r |r. r \<in> set (t_deliveries (srv_db s)) \<and> r_acked r = None}"
    by auto
  ultimately show ?thesis
    using check_references_counts [OF c] t by (auto simp: report_core_def)
qed

lemma sample_row_ok: "row_ok sample_env (sample_row n device c) \<longleftrightarrow>
    0 < n \<and> (is_ascii_alphanumeric c \<or> c = CHR ''-'' \<or> c = CHR ''_'')"
  by (simp add: row_ok_iff)

lemma owned_object_name:
  "valid_sha256 sha \<Longrightarrow> extension_for_media_type m = Some x \<Longrightarrow>
     is_owned_content_object_name (take 2 sha) (object_name sha x)"
proof -
  assume sha: "valid_sha256 sha" and x: "extension_for_media_type m = Some x"
  have "CHR ''.'' \<notin> set x" using x by (auto simp: extension_for_media_type_def split: if_splits)
  then have "rsplit_once (CHR ''.'') (object_name sha x) = Some (sha, x)"
    by (simp add: rsplit_once_eq object_name_def)
  with sha extension_supported [OF x] show ?thesis
    by (simp add: is_owned_content_object_name_def valid_sha256_def take_is_prefix)
qed

theorem reconcile_contract_witness:
  "\<exists>rep. reconcile_content sample_env delivered_server = (Inr rep, delivered_server)
     \<and> rr_referenced_objects rep = 1
     \<and> rr_healthy_objects rep + rr_missing_objects rep + rr_corrupt_objects rep = 1"
proof -
  let ?r = "sample_row 1 ''linux'' (CHR ''1'')"
  have v: "validate_db_delivery ?r 1024 = Inr (stored_of ?r)"
    using row_ok_stored [of sample_env ?r] by (simp add: sample_row_ok ascii_defs)
  have p: "store_content_path sample_env (stored_of ?r) = Inr (''89'', object_name sample_sha ''png'')"
    using v by (simp add: store_content_path_def andthen_Inr validate_db_delivery_Inr stored_of_def
        sample_shard)
  have o: "is_owned_content_object_name ''89'' (object_name sample_sha ''png'')"
    using owned_object_name [of sample_sha "''image/png''" "''png''"] by (simp add: sample_shard)
  have c: "cleanup_staging (srv_content delivered_server) = (Inr 0, srv_content delivered_server)"
    by (simp add: cleanup_staging_def ensure_staging_directory_def ensure_child_directory_def
        claim_staging_def bindo_def child_def is_owned_temporary_def STAGING_OWNER_FILE_def
        STAGING_OWNER_CONTENT_def)
  have h: "is_content_shard_name ''89''" by (simp add: is_content_shard_name_def ascii_defs)
  have "\<exists>rep. reconcile_content sample_env delivered_server = (Inr rep, delivered_server)
      \<and> rr_referenced_objects rep = 1"
    using c
    by (simp add: reconcile_content_def op_ok connection_ok lock_content_def lock_library_def
        on_content_def all_pending_def v p o h stat_obj_def is_regular_def is_file_or_link_def)
  then obtain rep where r: "reconcile_content sample_env delivered_server = (Inr rep, delivered_server)"
    "rr_referenced_objects rep = 1" by blast
  from reconcile_contract [OF r(1)] r show ?thesis by auto
qed

end
