(* ===== verification/TusStore.thy ===== *)
theory TusStore
  imports Store
begin

text \<open>
  Resumable uploads, \<open>src/server/tus_store.rs\<close>: the record of an upload and its partial data,
  creation, appending at an offset, the repair of uncommitted bytes, and the hand-over of a
  completed upload to the delivery queue. Every operation runs under the upload lock, so it is
  one step here.
\<close>

definition UPLOAD_RECORD_VERSION :: nat where "UPLOAD_RECORD_VERSION = 1"
definition MAX_UPLOAD_RECORD_BYTES :: nat where "MAX_UPLOAD_RECORD_BYTES = 32 * 1024"

record new_upload =
  nu_directory :: "directory_version option"
  nu_original_name :: string
  nu_media_type :: string
  nu_sha256 :: string
  nu_length :: nat
  nu_metadata_header :: string

record upload_info =
  ui_id :: string
  ui_length :: nat
  ui_offset :: nat
  ui_metadata_header :: string
  ui_delivery_id :: "string option"

datatype append_upload_outcome =
    Appended upload_info
  | AppendNotFound
  | OffsetMismatch upload_info
  | TooLarge upload_info

definition info :: "upload_record \<Rightarrow> upload_info" where
  "info r =
     \<lparr>ui_id = u_id r, ui_length = u_length r, ui_offset = u_offset r,
      ui_metadata_header = u_metadata_header r, ui_delivery_id = u_delivery_id r\<rparr>"

section \<open>Validation\<close>

definition upload_delivery :: "new_upload \<Rightarrow> delivery" where
  "upload_delivery u =
     \<lparr>d_schema_version = MANIFEST_SCHEMA_VERSION, d_id = ''00000000-0000-4000-8000-000000000000'',
      d_original_name = nu_original_name u, d_payload = [], d_size = nu_length u,
      d_sha256 = nu_sha256 u, d_media_type = nu_media_type u, d_created_at_unix = Some 0\<rparr>"

definition validate_new_upload :: "store_env \<Rightarrow> new_upload \<Rightarrow> unit res" where
  "validate_new_upload E u =
     andthen (case nu_directory u of
         None \<Rightarrow> Inr ()
       | Some v \<Rightarrow> andthen (validate_version v) (\<lambda>_.
           ensure (last_part slash (dv_path v) = nu_original_name u)
             ''Directory filename and path disagree.'')) (\<lambda>_.
     andthen (validate_delivery_metadata (upload_delivery u) (max_file_size E)) (\<lambda>_.
     ensure (\<not> (nu_metadata_header u = []
        \<or> length (nu_metadata_header u) > MAX_UPLOAD_RECORD_BYTES
        \<or> has_control (nu_metadata_header u)))
       ''upload metadata header is empty, too long, or contains control characters''))"

definition validate_upload_id :: "externals \<Rightarrow> string \<Rightarrow> unit res" where
  "validate_upload_id X i =
     andthen (validate_delivery_id i) (\<lambda>_.
     andthen (of_option ''tus upload id is not a UUID'' (uuid_parse X i)) (\<lambda>t.
     ensure (t = i) ''tus upload id is not in canonical form''))"

definition record_upload :: "upload_record \<Rightarrow> new_upload" where
  "record_upload r =
     \<lparr>nu_directory = u_directory r, nu_original_name = u_original_name r,
      nu_media_type = u_media_type r, nu_sha256 = u_sha256 r, nu_length = u_length r,
      nu_metadata_header = u_metadata_header r\<rparr>"

definition validate_upload_record :: "store_env \<Rightarrow> string \<Rightarrow> upload_record \<Rightarrow> unit res" where
  "validate_upload_record E i r =
     andthen (validate_upload_id (ext E) i) (\<lambda>_.
     andthen (ensure (\<not> (u_version r \<noteq> UPLOAD_RECORD_VERSION \<or> u_id r \<noteq> i))
       ''tus record identity or version is invalid'') (\<lambda>_.
     andthen (validate_device_id (u_device_id r)) (\<lambda>_.
     andthen (ensure (\<not> u_offset r > u_length r)
       ''tus record offset exceeds its upload length'') (\<lambda>_.
     andthen (validate_new_upload E (record_upload r)) (\<lambda>_.
     ensure (\<not> (case u_delivery_id r of None \<Rightarrow> False | Some d \<Rightarrow> d \<noteq> u_id r))
       ''tus record contains an inconsistent delivery id'')))))"

section \<open>Records and parts\<close>

definition read_upload_record :: "store_env \<Rightarrow> string \<Rightarrow> (server, upload_record option) op" where
  "read_upload_record E i =
     bindo (lifto (validate_upload_id (ext E) i)) (\<lambda>_.
     bindo (readso (\<lambda>s. Inr (map_of (srv_records s) i))) (\<lambda>f.
       (case f of
          None \<Rightarrow> retn None
        | Some Unreadable \<Rightarrow> fails (Bail ''failed to read tus record'')
        | Some (Parsed r) \<Rightarrow>
            bindo (lifto (validate_upload_record E i r)) (\<lambda>_. retn (Some r)))))"

definition write_upload_record :: "store_env \<Rightarrow> upload_record \<Rightarrow> (server, unit) op" where
  "write_upload_record E r =
     bindo (lifto (validate_upload_record E (u_id r) r)) (\<lambda>_.
     bindo (lifto (validate_upload_id (ext E) (u_id r))) (\<lambda>_.
     bindo (lifto (ensure (\<not> record_len E r > MAX_UPLOAD_RECORD_BYTES)
         ''serialized tus record exceeds its safety limit'')) (\<lambda>_.
     modifyo (\<lambda>s. s\<lparr>srv_records := AList.update (u_id r) (Parsed r) (srv_records s)\<rparr>))))"

definition open_upload_part :: "string \<Rightarrow> (server, bytes) op" where
  "open_upload_part i =
     readso (\<lambda>s.
       (case map_of (srv_parts s) i of
          Some (File b) \<Rightarrow> Inr b
        | Some (Dir _) \<Rightarrow> Inl (Bail ''tus upload data is not a regular file'')
        | Some Other \<Rightarrow> Inl (Bail ''tus upload data is not a regular file'')
        | _ \<Rightarrow> Inl (Bail ''failed to open tus upload data'')))"

definition set_part :: "string \<Rightarrow> bytes \<Rightarrow> (server, unit) op" where
  "set_part i b = modifyo (\<lambda>s. s\<lparr>srv_parts := AList.update i (File b) (srv_parts s)\<rparr>)"

text \<open>Writing \<open>chunk\<close> after a seek to \<open>offset\<close>; a seek beyond the end leaves zero bytes.\<close>

definition write_at :: "nat \<Rightarrow> bytes \<Rightarrow> bytes \<Rightarrow> bytes" where
  "write_at offset chunk b =
     take offset b @ replicate (offset - length b) (CHR 0x00) @ chunk @ drop (offset + length chunk) b"

section \<open>Creating an upload\<close>

definition require_directory_receiver :: "string \<Rightarrow> (server, unit) op" where
  "require_directory_receiver device =
     (if \<not> prefix FOLDER_PREFIX device then fails DirectoryConflict
      else
        bindo open_connection_unchecked (\<lambda>d.
          if map_of (t_indexes d) device = None then fails DirectoryConflict else retn ()))"

definition fresh_record :: "string \<Rightarrow> new_upload \<Rightarrow> nat \<Rightarrow> string \<Rightarrow> upload_record" where
  "fresh_record device u now i =
     \<lparr>u_directory = nu_directory u, u_version = UPLOAD_RECORD_VERSION, u_id = i,
      u_device_id = device, u_original_name = nu_original_name u,
      u_media_type = nu_media_type u, u_sha256 = nu_sha256 u, u_length = nu_length u,
      u_offset = 0, u_metadata_header = nu_metadata_header u, u_created_at_unix = now,
      u_delivery_id = None\<rparr>"

fun allocate_upload ::
    "store_env \<Rightarrow> nat \<Rightarrow> string \<Rightarrow> new_upload \<Rightarrow> string list \<Rightarrow> (server, upload_info) op" where
  "allocate_upload E now device u [] = fails (Bail ''failed to allocate a unique tus upload id'')"
| "allocate_upload E now device u (i # is) =
     bindo (lifto (validate_upload_id (ext E) i)) (\<lambda>_.
     bindo (readso (\<lambda>s. Inr (map_of (srv_records s) i \<noteq> None
         \<or> target_exists (map_of (srv_parts s) i)))) (\<lambda>taken.
       if taken then allocate_upload E now device u is
       else
         bindo (write_upload_record E (fresh_record device u now i)) (\<lambda>_.
         bindo (readso (\<lambda>s. ensure (map_of (srv_parts s) i = None)
             ''failed to create tus upload data'')) (\<lambda>_.
         bindo (set_part i []) (\<lambda>_.
         retn (info (fresh_record device u now i)))))))"

definition create_upload ::
    "store_env \<Rightarrow> nat \<Rightarrow> (nat \<Rightarrow> string) \<Rightarrow> string \<Rightarrow> new_upload \<Rightarrow> (server, upload_info) op" where
  "create_upload E now uuids device u =
     bindo (lifto (validate_device_id device)) (\<lambda>_.
     bindo (lifto (validate_new_upload E u)) (\<lambda>_.
     bindo (if nu_directory u = None then retn () else require_directory_receiver device) (\<lambda>_.
     bindo lock_uploads (\<lambda>_.
     bindo open_connection_unchecked (\<lambda>d.
     bindo (lifto (require_device_open d device)) (\<lambda>_.
     allocate_upload E now device u (List.map uuids [0..<16])))))))"

section \<open>Completing an upload\<close>

text \<open>\<open>fs::remove_file\<close> on one of the two files; \<open>NotFound\<close> is success.\<close>

definition remove_record_file :: "string \<Rightarrow> (server, unit) op" where
  "remove_record_file i = modifyo (\<lambda>s. s\<lparr>srv_records := AList.delete i (srv_records s)\<rparr>)"

definition remove_part_file :: "string \<Rightarrow> (server, unit) op" where
  "remove_part_file i s =
     (case map_of (srv_parts s) i of
        Some (Dir _) \<Rightarrow> (Inl (Bail ''failed to discard invalid tus data''), s)
      | _ \<Rightarrow> (Inr (), s\<lparr>srv_parts := AList.delete i (srv_parts s)\<rparr>))"

definition discard_upload :: "store_env \<Rightarrow> upload_record \<Rightarrow> (server, unit) op" where
  "discard_upload E r =
     bindo (lifto (validate_upload_id (ext E) (u_id r))) (\<lambda>_.
     bindo (remove_record_file (u_id r)) (\<lambda>_.
     remove_part_file (u_id r)))"

text \<open>A failure to remove the completed part is only reported.\<close>

definition drop_completed_part :: "string \<Rightarrow> (server, unit) op" where
  "drop_completed_part i s = (Inr (), snd (remove_part_file i s))"

definition complete_upload :: "store_env \<Rightarrow> upload_record \<Rightarrow> string \<Rightarrow> (server, upload_record) op" where
  "complete_upload E r did =
     (let r' = r\<lparr>u_delivery_id := Some did\<rparr> in
      bindo (write_upload_record E r') (\<lambda>_.
      bindo (if u_directory r = None then retn False
          else garbage_collect_digest (u_sha256 r)) (\<lambda>_.
      bindo (drop_completed_part (u_id r)) (\<lambda>_.
      retn r'))))"

definition finalize_upload :: "store_env \<Rightarrow> nat \<Rightarrow> upload_record \<Rightarrow> (server, upload_record) op" where
  "finalize_upload E now r =
     (if u_offset r \<noteq> u_length r \<or> u_delivery_id r \<noteq> None then retn r
      else
        bindo (lifto (validate_upload_id (ext E) (u_id r))) (\<lambda>_.
        bindo (readso (\<lambda>s. Inr (map_of (srv_parts s) (u_id r)))) (\<lambda>part.
          (case verify_recorded_file (ext E) part (u_length r) (u_sha256 r) (u_media_type r)
               (max_file_size E) of
             Inl e \<Rightarrow>
               bindo (discard_upload E r) (\<lambda>_. fails (InvalidUploadContent (u_id r)))
           | Inr _ \<Rightarrow>
               bindo (enqueue_directory_with_id E now (u_device_id r) part (u_original_name r)
                   (u_id r) (u_created_at_unix r) (u_directory r)) (\<lambda>d.
               complete_upload E r (st_id d))))))"

section \<open>Reading and appending\<close>

definition reconcile_upload_data :: "store_env \<Rightarrow> upload_record \<Rightarrow> (server, unit) op" where
  "reconcile_upload_data E r =
     (if u_delivery_id r \<noteq> None then retn ()
      else
        bindo (lifto (validate_upload_id (ext E) (u_id r))) (\<lambda>_.
        bindo (open_upload_part (u_id r)) (\<lambda>b.
          if length b < u_offset r
          then fails (Bail ''tus upload contains fewer bytes than its recorded offset'')
          else if length b > u_offset r then set_part (u_id r) (take (u_offset r) b)
          else retn ())))"

definition get_upload ::
    "store_env \<Rightarrow> nat \<Rightarrow> string \<Rightarrow> string \<Rightarrow> (server, upload_info option) op" where
  "get_upload E now device i =
     bindo (lifto (validate_device_id device)) (\<lambda>_.
     bindo (lifto (validate_upload_id (ext E) i)) (\<lambda>_.
     bindo lock_uploads (\<lambda>_.
     bindo open_connection_unchecked (\<lambda>d.
     bindo (lifto (require_device_open d device)) (\<lambda>_.
     bindo (read_upload_record E i) (\<lambda>found.
       (case found of
          None \<Rightarrow> retn None
        | Some r \<Rightarrow>
            if u_device_id r \<noteq> device then retn None
            else
              bindo (reconcile_upload_data E r) (\<lambda>_.
              bindo (finalize_upload E now r) (\<lambda>r'.
              retn (Some (info r'))))))))))) "

definition write_chunk ::
    "store_env \<Rightarrow> upload_record \<Rightarrow> bytes \<Rightarrow> nat \<Rightarrow> (server, unit) op" where
  "write_chunk E r chunk chunk_length =
     (if chunk_length = 0 then retn ()
      else
        bindo (lifto (ensure (length chunk = chunk_length)
            ''buffered tus chunk has another size'')) (\<lambda>_.
        bindo (lifto (validate_upload_id (ext E) (u_id r))) (\<lambda>_.
        bindo (open_upload_part (u_id r)) (\<lambda>b.
        set_part (u_id r) (write_at (u_offset r) chunk b)))))"

definition append_record ::
    "store_env \<Rightarrow> nat \<Rightarrow> upload_record \<Rightarrow> nat \<Rightarrow> bytes \<Rightarrow> nat
       \<Rightarrow> (server, append_upload_outcome) op" where
  "append_record E now r expected chunk chunk_length =
     (if expected \<noteq> u_offset r then retn (OffsetMismatch (info r))
      else if chunk_length > u_length r - u_offset r then retn (TooLarge (info r))
      else if u_delivery_id r \<noteq> None then retn (Appended (info r))
      else
        bindo (write_chunk E r chunk chunk_length) (\<lambda>_.
        bindo (lifto (of_option ''tus upload offset overflow''
          (checked_add_u64 (u_offset r) chunk_length))) (\<lambda>offset.
        let r' = r\<lparr>u_offset := offset\<rparr> in
        bindo (write_upload_record E r') (\<lambda>_.
        bindo (finalize_upload E now r') (\<lambda>r''.
        retn (Appended (info r'')))))))"

definition append_upload ::
    "store_env \<Rightarrow> nat \<Rightarrow> string \<Rightarrow> string \<Rightarrow> nat \<Rightarrow> bytes \<Rightarrow> nat
       \<Rightarrow> (server, append_upload_outcome) op" where
  "append_upload E now device i expected chunk chunk_length =
     bindo (lifto (validate_device_id device)) (\<lambda>_.
     bindo (lifto (validate_upload_id (ext E) i)) (\<lambda>_.
     bindo lock_uploads (\<lambda>_.
     bindo open_connection_unchecked (\<lambda>d.
     bindo (lifto (require_device_open d device)) (\<lambda>_.
     bindo (read_upload_record E i) (\<lambda>found.
       (case found of
          None \<Rightarrow> retn AppendNotFound
        | Some r \<Rightarrow>
            if u_device_id r \<noteq> device then retn AppendNotFound
            else
              bindo (reconcile_upload_data E r) (\<lambda>_.
              bindo (finalize_upload E now r) (\<lambda>r'.
              append_record E now r' expected chunk chunk_length))))))))) "

section \<open>Uploads keep the store in order\<close>

lemma pres_files [pres_intros]:
  "pres (store_ok E) (modifyo (\<lambda>s. s\<lparr>srv_records := f s\<rparr>))"
  "pres (store_ok E) (modifyo (\<lambda>s. s\<lparr>srv_parts := g s\<rparr>))"
  by (auto intro!: pres_modifyo simp: store_ok_def content_safe_def)

lemma pres_uploads [pres_intros]:
  "pres (store_ok E) (set_part i b)" "pres (store_ok E) (remove_record_file i)"
  "pres (store_ok E) (write_upload_record E' r)" "pres (store_ok E) (read_upload_record E' i)"
  "pres (store_ok E) (open_upload_part i)" "pres (store_ok E) (require_directory_receiver device)"
  by (auto simp: set_part_def remove_record_file_def write_upload_record_def read_upload_record_def
      open_upload_part_def require_directory_receiver_def intro!: pres_intros split: option.split record_file.split)

lemma pres_remove_part [pres_intros]:
  "pres (store_ok E) (remove_part_file i)" "pres (store_ok E) (drop_completed_part i)"
  by (auto simp: pres_def remove_part_file_def drop_completed_part_def store_ok_def content_safe_def
      split: option.split node.split)

lemma pres_discard [pres_intros]: "pres (store_ok E) (discard_upload E' r)"
  unfolding discard_upload_def by (intro pres_intros)

lemma pres_finalize [pres_intros]: "pres (store_ok E) (finalize_upload E now r)"
  unfolding finalize_upload_def complete_upload_def Let_def
  by (auto intro!: pres_intros split: sum.split)

lemma pres_reconcile_upload [pres_intros]: "pres (store_ok E) (reconcile_upload_data E' r)"
  unfolding reconcile_upload_data_def by (intro pres_intros)

lemma pres_allocate [pres_intros]: "pres (store_ok E) (allocate_upload E' now device u is)"
  by (induction E' now device u "is" rule: allocate_upload.induct) (auto intro!: pres_intros)

lemma pres_create_upload [pres_intros]: "pres (store_ok E) (create_upload E' now ids device u)"
  unfolding create_upload_def by (intro pres_intros)

lemma pres_get_upload [pres_intros]: "pres (store_ok E) (get_upload E now device i)"
  unfolding get_upload_def by (intro pres_intros)

lemma pres_write_chunk [pres_intros]: "pres (store_ok E) (write_chunk E' r chunk n)"
  unfolding write_chunk_def by (intro pres_intros)

lemma pres_append_upload [pres_intros]:
  "pres (store_ok E) (append_upload E now device i expected chunk n)"
  unfolding append_upload_def append_record_def Let_def by (intro pres_intros)

section \<open>Facts about the steps\<close>

lemma validate_upload_id_ok [simp]:
  "validate_upload_id X i = Inr u \<longleftrightarrow> valid_delivery_id i \<and> uuid_canonical X i"
  by (auto simp: validate_upload_id_def andthen_Inr uuid_canonical_def)

lemma read_upload_record_Inr:
  "read_upload_record E i s = (Inr x, t) \<longleftrightarrow> t = s \<and> valid_delivery_id i \<and> uuid_canonical (ext E) i
     \<and> (case map_of (srv_records s) i of
          None \<Rightarrow> x = None
        | Some Unreadable \<Rightarrow> False
        | Some (Parsed r) \<Rightarrow> is_ok (validate_upload_record E i r) \<and> x = Some r)"
  by (auto simp: read_upload_record_def op_ok is_ok_iff split: option.splits record_file.splits)

lemma valid_record_id: "is_ok (validate_upload_record E i r) \<Longrightarrow> u_id r = i \<and> u_offset r \<le> u_length r"
  by (auto simp: validate_upload_record_def is_ok_andthen)

lemma write_upload_record_Inr:
  "write_upload_record E r s = (Inr u, t) \<longleftrightarrow> is_ok (validate_upload_record E (u_id r) r)
     \<and> record_len E r \<le> MAX_UPLOAD_RECORD_BYTES
     \<and> t = s\<lparr>srv_records := AList.update (u_id r) (Parsed r) (srv_records s)\<rparr>"
  by (auto simp: write_upload_record_def op_ok validate_upload_record_def is_ok_andthen)
    (auto simp: is_ok_iff andthen_Inr)

lemma open_upload_part_Inr:
  "open_upload_part i s = (Inr b, t) \<longleftrightarrow> t = s \<and> map_of (srv_parts s) i = Some (File b)"
  by (auto simp: open_upload_part_def op_ok split: option.splits node.splits)

text \<open>The bytes of an upload that its record vouches for.\<close>

definition committed :: "server \<Rightarrow> string \<Rightarrow> bytes option" where
  "committed s i =
     (case (map_of (srv_records s) i, map_of (srv_parts s) i) of
        (Some (Parsed r), Some (File b)) \<Rightarrow>
          if u_offset r \<le> length b then Some (take (u_offset r) b) else None
      | _ \<Rightarrow> None)"

lemma committed_Some:
  "committed s i = Some w \<longleftrightarrow> (\<exists>r b. map_of (srv_records s) i = Some (Parsed r)
     \<and> map_of (srv_parts s) i = Some (File b) \<and> u_offset r \<le> length b \<and> w = take (u_offset r) b)"
  by (auto simp: committed_def split: option.splits record_file.splits node.splits if_splits)

lemma reconcile_upload_data_Inr:
  assumes "reconcile_upload_data E r s = (Inr u, t)" "u_delivery_id r = None"
  shows "\<exists>b. map_of (srv_parts s) (u_id r) = Some (File b) \<and> u_offset r \<le> length b
     \<and> map_of (srv_parts t) = (map_of (srv_parts s))(u_id r \<mapsto> File (take (u_offset r) b))
     \<and> srv_records t = srv_records s \<and> srv_db t = srv_db s \<and> srv_content t = srv_content s"
  using assms
  by (auto simp: reconcile_upload_data_def op_ok open_upload_part_Inr set_part_def fun_upd_idem
      split: if_splits)

lemma finalize_incomplete:
  "u_offset r \<noteq> u_length r \<Longrightarrow> finalize_upload E now r s = (Inr r, s)"
  by (simp add: finalize_upload_def retn_def)

lemma write_at_end: "length b = n \<Longrightarrow> write_at n chunk b = b @ chunk"
  by (simp add: write_at_def)


lemma enqueue_row:
  assumes "enqueue_directory_with_id E now device x name did created directory s = (Inr d, t)"
  shows "\<exists>row i. find_row (srv_db t) device did = Some row \<and> st_id d = did
     \<and> inspect_file (ext E) x (max_file_size E) = Inr i \<and> r_name row = name
     \<and> nat (r_size row) = in_size i \<and> r_sha row = in_sha256 i \<and> r_media row = in_media_type i"
proof -
  obtain i a where c: "enqueue_checks E device x name did created directory i (srv_db s)"
    and l: "lock_content s = (Inr (), a)"
    and r: "case find_row (srv_db s) device did of
             Some row \<Rightarrow> (\<exists>e. validate_db_delivery row (max_file_size E) = Inr e
               \<and> enqueue_replay device name did created directory i e a = (Inr d, t))
           | None \<Rightarrow> enqueue_fresh E now device x (inspected_delivery name did created i) created
               directory i a = (Inr d, t)"
    using assms unfolding enqueue_Inr by blast
  have db: "srv_db a = srv_db s" using lock_content_db [OF l] by simp
  show ?thesis
  proof (cases "find_row (srv_db s) device did")
    case None
    with r obtain k where "enqueue_insert E now device name did created directory i k = (Inr d, t)"
      by (auto simp: enqueue_fresh_Inr)
    from enqueue_insert_after [OF this] obtain row where row: "find_row (srv_db t) device did = Some row"
      "stored_of row = d" "row\<lparr>r_acked := None\<rparr> = (new_row device did name created i)\<lparr>r_seq := r_seq row\<rparr>"
      by blast
    then have "r_name row = name \<and> r_size row = int (in_size i) \<and> r_sha row = in_sha256 i
        \<and> r_media row = in_media_type i \<and> r_id row = did"
      by (cases row) (simp add: new_row_def)
    with row c show ?thesis by (auto simp: enqueue_checks_def stored_of_def)
  next
    case (Some row)
    with r obtain e where e: "validate_db_delivery row (max_file_size E) = Inr e"
      "enqueue_replay device name did created directory i e a = (Inr d, t)" by auto
    then have "srv_db t = srv_db s" "d = e" "st_original_name e = name" "st_size e = in_size i"
      "st_sha256 e = in_sha256 i" "st_media_type e = in_media_type i"
      using db by (auto simp: enqueue_replay_def op_ok check_directory_replay_Inr split: if_splits)
    with Some e(1) c find_row_Some [OF Some] show ?thesis
      by (auto simp: validate_db_delivery_Inr enqueue_checks_def)
  qed
qed

lemma garbage_collect_tables: "garbage_collect_digest sha s = (r, t) \<Longrightarrow>
    srv_db t = srv_db s \<and> srv_records t = srv_records s \<and> srv_parts t = srv_parts s"
proof -
  assume g: "garbage_collect_digest sha s = (r, t)"
  let ?P = "\<lambda>u. srv_db u = srv_db s \<and> srv_records u = srv_records s \<and> srv_parts u = srv_parts s"
  have c: "pres ?P (on_content m)" for m
    by (auto simp: pres_iff on_content_eq)
  have "pres ?P (garbage_collect_digest sha)"
    unfolding garbage_collect_digest_def lock_content_def by (intro pres_intros c)
  from presD2 [OF this _ g] show ?thesis by simp
qed

lemma enqueue_files: "enqueue_directory_with_id E now device x name did created directory s = (r, t)
    \<Longrightarrow> srv_records t = srv_records s \<and> srv_parts t = srv_parts s"
proof -
  assume g: "enqueue_directory_with_id E now device x name did created directory s = (r, t)"
  let ?P = "\<lambda>u. srv_records u = srv_records s \<and> srv_parts u = srv_parts s"
  have c: "pres ?P (on_content m)" for m by (auto simp: pres_iff on_content_eq)
  have d: "pres ?P (modifyo (on_db f))" for f by (auto simp: pres_iff op_defs)
  have t: "pres ?P (transaction m)" if "pres ?P m" for m
    using that by (rule pres_transaction_tables) simp
  have "pres ?P (enqueue_directory_with_id E now device x name did created directory)"
    unfolding enqueue_directory_with_id_def enqueue_replay_def enqueue_fresh_def enqueue_insert_def
      insert_delivery_def insert_directory_version_def lock_content_def Let_def
    by (intro pres_intros c d t)
  from presD2 [OF this _ g] show ?thesis by simp
qed

lemma drop_completed_part_same:
  "drop_completed_part i s = (r, t) \<Longrightarrow> srv_db t = srv_db s \<and> srv_content t = srv_content s
     \<and> srv_records t = srv_records s \<and> (\<forall>k. k \<noteq> i \<longrightarrow> map_of (srv_parts t) k = map_of (srv_parts s) k)"
  by (auto simp: drop_completed_part_def remove_part_file_def split: option.splits node.splits)

lemma complete_upload_Inr:
  assumes "complete_upload E r did s = (Inr r', t)"
  shows "r' = r\<lparr>u_delivery_id := Some did\<rparr> \<and> srv_db t = srv_db s"
proof -
  obtain u x v where w: "write_upload_record E (r\<lparr>u_delivery_id := Some did\<rparr>) s = (Inr (), u)"
    and g: "(if u_directory r = None then retn False else garbage_collect_digest (u_sha256 r)) u = (Inr x, v)"
    and d: "bindo (drop_completed_part (u_id r)) (\<lambda>_. retn (r\<lparr>u_delivery_id := Some did\<rparr>)) v = (Inr r', t)"
    using assms unfolding complete_upload_def Let_def by (auto simp: bindo_ok)
  have "srv_db u = srv_db s" using w by (simp add: write_upload_record_Inr)
  moreover have "srv_db v = srv_db u"
    using g garbage_collect_tables [of "u_sha256 r" u] by (simp split: if_splits)
  ultimately show ?thesis using d by (auto simp: op_ok dest!: drop_completed_part_same)
qed

lemma finalize_complete:
  assumes f: "finalize_upload E now r s = (Inr r', t)"
    and r: "u_offset r = u_length r" "u_delivery_id r = None"
  shows "\<exists>b row. map_of (srv_parts s) (u_id r) = Some (File b) \<and> length b = u_length r
     \<and> sha256_hex (ext E) b = u_sha256 r \<and> r' = r\<lparr>u_delivery_id := Some (u_id r)\<rparr>
     \<and> find_row (srv_db t) (u_device_id r) (u_id r) = Some row \<and> r_name row = u_original_name r
     \<and> nat (r_size row) = u_length r \<and> r_sha row = u_sha256 r \<and> r_media row = u_media_type r"
proof -
  let ?x = "map_of (srv_parts s) (u_id r)"
  obtain d a where v: "is_ok (verify_recorded_file (ext E) ?x (u_length r) (u_sha256 r) (u_media_type r)
        (max_file_size E))"
    and e: "enqueue_directory_with_id E now (u_device_id r) ?x (u_original_name r) (u_id r)
        (u_created_at_unix r) (u_directory r) s = (Inr d, a)"
    and rest: "complete_upload E r (st_id d) a = (Inr r', t)"
    using f r by (auto simp: finalize_upload_def op_ok split: sum.splits)
  note c = complete_upload_Inr [OF rest]
  obtain b where b: "?x = Some (File b)" "length b = u_length r" "sha256_hex (ext E) b = u_sha256 r"
    "in_media_type (inspection_of (ext E) b) = u_media_type r" "inspectable (max_file_size E) None b"
    using v by (auto simp: is_ok_iff verify_recorded_file_ok)
  from enqueue_row [OF e] obtain row i where "find_row (srv_db a) (u_device_id r) (u_id r) = Some row"
    "st_id d = u_id r" "inspect_file (ext E) ?x (max_file_size E) = Inr i" "r_name row = u_original_name r"
    "nat (r_size row) = in_size i" "r_sha row = in_sha256 i" "r_media row = in_media_type i" by blast
  moreover from this have "i = inspection_of (ext E) b" using b by (simp add: inspect_file_Inr)
  ultimately show ?thesis using b c by (intro exI [of _ b] exI [of _ row]) simp
qed


section \<open>Properties of uploads\<close>

lemma append_upload_steps:
  assumes "append_upload E now device i expected chunk n s = (Inr out, t)"
    and "map_of (srv_records s) i = Some (Parsed r)" "u_device_id r = device"
  obtains a b c r1 where "lock_uploads s = (Inr (), a)" "is_ok (validate_upload_record E i r)"
    "device_open (srv_db s) device"
    "reconcile_upload_data E r a = (Inr (), b)" "finalize_upload E now r b = (Inr r1, c)"
    "append_record E now r1 expected chunk n c = (Inr out, t)"
proof -
  obtain a where a: "lock_uploads s = (Inr (), a)"
    and rest: "bindo (lifto (require_device_open (srv_db a) device)) (\<lambda>_.
     bindo (read_upload_record E i) (\<lambda>found.
       (case found of
          None \<Rightarrow> retn AppendNotFound
        | Some r \<Rightarrow>
            if u_device_id r \<noteq> device then retn AppendNotFound
            else
              bindo (reconcile_upload_data E r) (\<lambda>_.
              bindo (finalize_upload E now r) (\<lambda>r'.
              append_record E now r' expected chunk n))))) a = (Inr out, t)"
    using assms(1) unfolding append_upload_def
    by (auto simp: bindo_ok [of "lifto (validate_device_id _)"] bindo_ok [of lock_uploads]
        bindo_ok [of "lifto (validate_upload_id _ _)"] bindo_ok [of open_connection_unchecked] lifto_ok)
  have s: "srv_db a = srv_db s" "srv_records a = srv_records s" using lock_uploads_same [OF a] by auto
  show thesis
    using rest s assms(2,3) that [OF a]
    by (auto simp: bindo_ok [of "lifto _"] bindo_ok [of "read_upload_record _ _"] lifto_ok
        read_upload_record_Inr bindo_ok [of "reconcile_upload_data _ _"]
        bindo_ok [of "finalize_upload _ _ _"])
qed

definition outcome_info :: "append_upload_outcome \<Rightarrow> upload_info option" where
  "outcome_info out =
     (case out of Appended j \<Rightarrow> Some j | OffsetMismatch j \<Rightarrow> Some j | TooLarge j \<Rightarrow> Some j
      | AppendNotFound \<Rightarrow> None)"

lemma append_record_refused:
  assumes "append_record E now r expected chunk n c = (Inr out, t)"
    and "expected \<noteq> u_offset r \<or> n > u_length r - u_offset r"
  shows "t = c \<and> out = (if expected \<noteq> u_offset r then OffsetMismatch (info r) else TooLarge (info r))"
  using assms by (auto simp: append_record_def split: if_splits)

lemma append_record_taken:
  assumes a: "append_record E now r expected chunk n c = (Inr out, t)"
    and r: "expected = u_offset r" "n \<le> u_length r - u_offset r" "u_delivery_id r = None"
    and part: "map_of (srv_parts c) (u_id r) = Some (File w)" "length w = u_offset r"
  shows "\<exists>d r2. (n = 0 \<or> length chunk = n) \<and> u_offset r + n \<le> u64_max
     \<and> map_of (srv_parts d) (u_id r) = Some (File (w @ take n chunk))
     \<and> map_of (srv_records d) (u_id r) = Some (Parsed (r\<lparr>u_offset := u_offset r + n\<rparr>))
     \<and> srv_db d = srv_db c \<and> srv_content d = srv_content c
     \<and> finalize_upload E now (r\<lparr>u_offset := u_offset r + n\<rparr>) d = (Inr r2, t) \<and> out = Appended (info r2)"
proof -
  obtain d offset r2 e where w: "write_chunk E r chunk n c = (Inr (), d)"
    and o: "checked_add_u64 (u_offset r) n = Some offset"
    and u: "write_upload_record E (r\<lparr>u_offset := offset\<rparr>) d = (Inr (), e)"
    and f: "finalize_upload E now (r\<lparr>u_offset := offset\<rparr>) e = (Inr r2, t)" "out = Appended (info r2)"
    using a r unfolding append_record_def Let_def by (auto simp: op_ok)
  have d: "(n = 0 \<or> length chunk = n) \<and> map_of (srv_parts d) (u_id r) = Some (File (w @ take n chunk))
      \<and> srv_db d = srv_db c \<and> srv_content d = srv_content c"
    using w part
    by (auto simp: write_chunk_def op_ok open_upload_part_Inr set_part_def write_at_end split: if_splits)
  have "offset = u_offset r + n \<and> u_offset r + n \<le> u64_max"
    using o by (simp add: checked_add_u64_Some)
  with u f d show ?thesis by (intro exI [of _ e] exI [of _ r2]) (auto simp: write_upload_record_Inr)
qed

text \<open>
  Appending to an unfinished upload. Its record and its data agree on the bytes accepted so
  far. A chunk is accepted only at exactly that offset and only if it fits in the declared
  length; a refused chunk changes neither those bytes nor the queue, and the answer names the
  offset to resume from. An accepted chunk extends them by exactly itself. The chunk that
  completes the upload is accepted only if all bytes together have the declared digest, and
  then the delivery with that digest and size is in the queue of the device.
\<close>

theorem append_outcomes:
  assumes a: "append_upload E now device i expected chunk n s = (Inr out, t)"
    and r: "map_of (srv_records s) i = Some (Parsed r)" "u_device_id r = device"
      "u_delivery_id r = None" "u_offset r < u_length r"
  shows "\<exists>w. committed s i = Some w \<and> length w = u_offset r \<and>
    (case out of
       AppendNotFound \<Rightarrow> False
     | OffsetMismatch j \<Rightarrow> expected \<noteq> length w \<and> ui_offset j = length w
         \<and> committed t i = Some w \<and> srv_db t = srv_db s
     | TooLarge j \<Rightarrow> expected = length w \<and> length w + n > u_length r \<and> ui_offset j = length w
         \<and> committed t i = Some w \<and> srv_db t = srv_db s
     | Appended j \<Rightarrow> expected = length w \<and> ui_offset j = length w + n \<and> ui_offset j \<le> u_length r
         \<and> (n = 0 \<or> length chunk = n)
         \<and> (if ui_offset j < u_length r
            then ui_delivery_id j = None \<and> committed t i = Some (w @ take n chunk) \<and> srv_db t = srv_db s
            else ui_delivery_id j = Some i \<and> sha256_hex (ext E) (w @ take n chunk) = u_sha256 r
              \<and> (\<exists>row. find_row (srv_db t) device i = Some row
                   \<and> nat (r_size row) = u_length r \<and> r_sha row = u_sha256 r)))"
proof -
  obtain l b c r1 where l: "lock_uploads s = (Inr (), l)" and v: "is_ok (validate_upload_record E i r)"
    and rc: "reconcile_upload_data E r l = (Inr (), b)" and fin: "finalize_upload E now r b = (Inr r1, c)"
    and ar: "append_record E now r1 expected chunk n c = (Inr out, t)"
    by (rule append_upload_steps [OF a r(1,2)])
  have i: "u_id r = i" "u_offset r \<le> u_length r" using valid_record_id [OF v] by auto
  have c: "r1 = r" "c = b" using fin finalize_incomplete [of r E now b] r(4) by auto
  have ls: "srv_db l = srv_db s" "srv_records l = srv_records s" "srv_parts l = srv_parts s"
    using lock_uploads_same [OF l] by auto
  obtain x where x: "map_of (srv_parts s) i = Some (File x)" "u_offset r \<le> length x"
    "map_of (srv_parts b) = (map_of (srv_parts s))(i \<mapsto> File (take (u_offset r) x))"
    "srv_records b = srv_records s" "srv_db b = srv_db s"
    using reconcile_upload_data_Inr [OF rc r(3)] i ls by auto
  let ?w = "take (u_offset r) x"
  have w: "committed s i = Some ?w" "length ?w = u_offset r" "committed b i = Some ?w"
    using x r(1) by (auto simp: committed_Some)
  show ?thesis
  proof (cases "expected \<noteq> u_offset r \<or> n > u_length r - u_offset r")
    case True
    from append_record_refused [OF ar [unfolded c] True]
    have "t = b" "out = (if expected \<noteq> u_offset r then OffsetMismatch (info r) else TooLarge (info r))"
      by auto
    with True w x(5) i show ?thesis by (intro exI [of _ ?w]) (auto simp: info_def)
  next
    case False
    then obtain d r2 where d: "n = 0 \<or> length chunk = n"
      "map_of (srv_parts d) i = Some (File (?w @ take n chunk))"
      "map_of (srv_records d) i = Some (Parsed (r\<lparr>u_offset := u_offset r + n\<rparr>))" "srv_db d = srv_db s"
      "finalize_upload E now (r\<lparr>u_offset := u_offset r + n\<rparr>) d = (Inr r2, t)" "out = Appended (info r2)"
      using append_record_taken [OF ar [unfolded c], of ?w] r(3) x(3,5) w(2) i by auto
    have len: "length (?w @ take n chunk) = u_offset r + n" using d(1) w(2) by auto
    show ?thesis
    proof (cases "u_offset r + n < u_length r")
      case True
      then have e: "r2 = r\<lparr>u_offset := u_offset r + n\<rparr>" "t = d"
        using d(5) finalize_incomplete [of "r\<lparr>u_offset := u_offset r + n\<rparr>" E now d] by auto
      then have "committed t i = Some (?w @ take n chunk)"
        using d(2,3) len by (auto simp: committed_Some)
      with True False d(1,4,6) e w r(3) show ?thesis
        by (intro exI [of _ ?w]) (simp add: info_def)
    next
      case c2: False
      with False i have o: "u_offset r + n = u_length r" by arith
      then have "u_offset (r\<lparr>u_offset := u_offset r + n\<rparr>) = u_length (r\<lparr>u_offset := u_offset r + n\<rparr>)"
        "u_delivery_id (r\<lparr>u_offset := u_offset r + n\<rparr>) = None" using r(3) by simp_all
      from finalize_complete [OF d(5) this] obtain row where
        f: "sha256_hex (ext E) (?w @ take n chunk) = u_sha256 r"
          "r2 = (r\<lparr>u_offset := u_offset r + n\<rparr>)\<lparr>u_delivery_id := Some i\<rparr>"
          "find_row (srv_db t) device i = Some row" "nat (r_size row) = u_length r" "r_sha row = u_sha256 r"
        using d(2) i r(2) by auto
      with False d(1,6) o w show ?thesis
        by (intro exI [of _ ?w]) (simp add: info_def)
    qed
  qed
qed


definition sample_upload :: "nat \<Rightarrow> upload_record" where
  "sample_upload offset =
     \<lparr>u_directory = None, u_version = 1, u_id = sample_id (CHR ''1''), u_device_id = ''linux'',
      u_original_name = ''a.png'', u_media_type = ''image/png'', u_sha256 = sample_sha, u_length = 12,
      u_offset = offset, u_metadata_header = ''m'', u_created_at_unix = 100, u_delivery_id = None\<rparr>"

definition upload_server :: server where
  "upload_server = empty_server\<lparr>srv_records := [(sample_id (CHR ''1''), Parsed (sample_upload 4))],
     srv_parts := [(sample_id (CHR ''1''), File (take 6 sample_png))]\<rparr>"

lemma sample_upload_fields [simp]:
  "u_directory (sample_upload k) = None" "u_version (sample_upload k) = 1"
  "u_id (sample_upload k) = sample_id (CHR ''1'')" "u_device_id (sample_upload k) = ''linux''"
  "u_offset (sample_upload k) = k" "u_length (sample_upload k) = 12"
  "u_delivery_id (sample_upload k) = None" "u_metadata_header (sample_upload k) = ''m''"
  "(sample_upload k)\<lparr>u_offset := q\<rparr> = sample_upload q"
  by (simp_all add: sample_upload_def)

lemma sample_new_valid: "validate_new_upload sample_env (record_upload (sample_upload k)) = Inr ()"
proof -
  have "valid_delivery_id (sample_id (CHR ''0''))" by (simp add: ascii_defs)
  then have z: "valid_delivery_id ''00000000-0000-4000-8000-000000000000''" by (simp add: sample_id_def)
  then show ?thesis
    by (simp add: validate_new_upload_def andthen_Inr valid_metadata_iff record_upload_def
        sample_upload_def upload_delivery_def MAX_UPLOAD_RECORD_BYTES_def)
qed

lemma sample_linux_ok: "validate_device_id ''linux'' = Inr ()"
  using sample_linux by (simp add: is_ok_iff)

lemma sample_upload_valid: "is_ok (validate_upload_record sample_env (sample_id (CHR ''1'')) (sample_upload k))
    \<longleftrightarrow> k \<le> 12"
proof -
  have u: "validate_upload_id sample_ext (sample_id (CHR ''1'')) = Inr ()"
    by (simp add: uuid_canonical_def ascii_defs)
  show ?thesis
    by (simp add: validate_upload_record_def UPLOAD_RECORD_VERSION_def u sample_linux_ok sample_new_valid
        is_ok_andthen not_less)
qed

lemma sample_append:
  "\<exists>t. append_upload sample_env 7 ''linux'' (sample_id (CHR ''1'')) 4 ''xyz'' 3 upload_server
     = (Inr (Appended (info (sample_upload 7))), t)"
proof -
  have o: "device_open d ''linux''" for d
    by (simp add: device_open_def require_device_open_def strip_prefix_def FOLDER_PREFIX_def)
  have u: "uuid_canonical sample_ext (sample_id (CHR ''1''))"
    by (simp add: uuid_canonical_def ascii_defs)
  have png: "length sample_png = 12" by (simp add: sample_png_def)
  have f: "finalize_upload sample_env 7 (sample_upload k) s = (Inr (sample_upload k), s)" if "k < 12" for k s
    using that by (intro finalize_incomplete) simp
  show ?thesis
    by (simp add: append_upload_def op_ok lock_uploads_def upload_server_def lock_library_def o u
        read_upload_record_Inr sample_upload_valid reconcile_upload_data_def open_upload_part_Inr png
        set_part_def f append_record_def write_chunk_def checked_add_u64_def u64_max_def
        write_upload_record_Inr MAX_UPLOAD_RECORD_BYTES_def ascii_defs Let_def sample_linux_ok)
qed

theorem append_outcomes_witness:
  "\<exists>t :: server. committed upload_server (sample_id (CHR ''1'')) = Some (take 4 sample_png)
     \<and> committed t (sample_id (CHR ''1'')) = Some (take 4 sample_png @ ''xyz'')"
proof -
  obtain t where t: "append_upload sample_env 7 ''linux'' (sample_id (CHR ''1'')) 4 ''xyz'' 3 upload_server
     = (Inr (Appended (info (sample_upload 7))), t)"
    using sample_append by blast
  have r: "map_of (srv_records upload_server) (sample_id (CHR ''1'')) = Some (Parsed (sample_upload 4))"
    by (simp add: upload_server_def)
  have c: "committed upload_server (sample_id (CHR ''1'')) = Some (take 4 sample_png)"
    by (simp add: committed_def upload_server_def sample_png_def)
  from append_outcomes [OF t r] c show ?thesis by (auto simp: info_def)
qed

text \<open>
  After a crash between writing a chunk and recording it, asking for the upload repairs it:
  the answer reports the recorded offset and the data is cut back to exactly the bytes accepted.
\<close>

theorem get_upload_repairs:
  assumes g: "get_upload E now device i s = (Inr (Some j), t)"
    and r: "map_of (srv_records s) i = Some (Parsed r)" "u_delivery_id r = None" "u_offset r < u_length r"
  shows "u_device_id r = device \<and> ui_offset j = u_offset r \<and> srv_db t = srv_db s
     \<and> srv_records t = srv_records s
     \<and> (\<exists>w. committed s i = Some w \<and> map_of (srv_parts t) i = Some (File w) \<and> committed t i = Some w)"
proof -
  obtain l where l: "lock_uploads s = (Inr (), l)"
    and rest: "bindo (lifto (require_device_open (srv_db l) device)) (\<lambda>_.
     bindo (read_upload_record E i) (\<lambda>found.
       (case found of
          None \<Rightarrow> retn None
        | Some r \<Rightarrow>
            if u_device_id r \<noteq> device then retn None
            else
              bindo (reconcile_upload_data E r) (\<lambda>_.
              bindo (finalize_upload E now r) (\<lambda>r'.
              retn (Some (info r'))))))) l = (Inr (Some j), t)"
    using g unfolding get_upload_def
    by (auto simp: bindo_ok [of "lifto (validate_device_id _)"] bindo_ok [of lock_uploads]
        bindo_ok [of "lifto (validate_upload_id _ _)"] bindo_ok [of open_connection_unchecked] lifto_ok)
  have ls: "srv_db l = srv_db s" "srv_records l = srv_records s" "srv_parts l = srv_parts s"
    using lock_uploads_same [OF l] by auto
  have "u_device_id r = device" and v: "is_ok (validate_upload_record E i r)"
    and rc: "reconcile_upload_data E r l = (Inr (), t)" and j: "j = info r"
    using rest ls(2) r finalize_incomplete [of r E now]
    by (auto simp: bindo_ok [of "lifto _"] bindo_ok [of "read_upload_record _ _"] lifto_ok
        read_upload_record_Inr bindo_ok [of "reconcile_upload_data _ _"]
        bindo_ok [of "finalize_upload _ _ _"] split: if_splits)
  moreover obtain x where "map_of (srv_parts s) i = Some (File x)" "u_offset r \<le> length x"
    "map_of (srv_parts t) = (map_of (srv_parts s))(i \<mapsto> File (take (u_offset r) x))"
    "srv_records t = srv_records s" "srv_db t = srv_db s"
    using reconcile_upload_data_Inr [OF rc r(2)] valid_record_id [OF v] ls by auto
  ultimately show ?thesis
    using r(1) by (auto simp: committed_Some info_def)
qed


theorem get_upload_repairs_witness:
  "\<exists>t :: server. map_of (srv_parts upload_server) (sample_id (CHR ''1'')) = Some (File (take 6 sample_png))
     \<and> map_of (srv_parts t) (sample_id (CHR ''1'')) = Some (File (take 4 sample_png))"
proof -
  have o: "device_open d ''linux''" for d
    by (simp add: device_open_def require_device_open_def strip_prefix_def FOLDER_PREFIX_def)
  have u: "uuid_canonical sample_ext (sample_id (CHR ''1''))"
    by (simp add: uuid_canonical_def ascii_defs)
  have png: "length sample_png = 12" by (simp add: sample_png_def)
  have f: "finalize_upload sample_env 7 (sample_upload 4) s = (Inr (sample_upload 4), s)" for s
    by (intro finalize_incomplete) simp
  have "\<exists>t. get_upload sample_env 7 ''linux'' (sample_id (CHR ''1'')) upload_server
     = (Inr (Some (info (sample_upload 4))), t)"
    by (simp add: get_upload_def op_ok lock_uploads_def upload_server_def lock_library_def o u
        read_upload_record_Inr sample_upload_valid reconcile_upload_data_def open_upload_part_Inr png
        set_part_def f ascii_defs sample_linux_ok)
  then obtain t where t: "get_upload sample_env 7 ''linux'' (sample_id (CHR ''1'')) upload_server
     = (Inr (Some (info (sample_upload 4))), t)" ..
  have r: "map_of (srv_records upload_server) (sample_id (CHR ''1'')) = Some (Parsed (sample_upload 4))"
    by (simp add: upload_server_def)
  have c: "committed upload_server (sample_id (CHR ''1'')) = Some (take 4 sample_png)"
    by (simp add: committed_def upload_server_def sample_png_def)
  have "map_of (srv_parts upload_server) (sample_id (CHR ''1'')) = Some (File (take 6 sample_png))"
    by (simp add: upload_server_def)
  moreover have "map_of (srv_parts t) (sample_id (CHR ''1'')) = Some (File (take 4 sample_png))"
    using get_upload_repairs [OF t r] c by simp
  ultimately show ?thesis by blast
qed

text \<open>
  A completed upload whose bytes do not have the declared length, digest or type never
  reaches the queue: completing it fails with the error that tells the client so, its record
  and its data are removed, and nothing else of the server changes.
\<close>

theorem invalid_upload_discarded:
  assumes "u_offset r = u_length r" "u_delivery_id r = None" "valid_delivery_id (u_id r)"
    "uuid_canonical (ext E) (u_id r)" "map_of (srv_parts s) (u_id r) = Some (File b)"
    and "length b \<noteq> u_length r \<or> sha256_hex (ext E) b \<noteq> u_sha256 r
      \<or> in_media_type (inspection_of (ext E) b) \<noteq> u_media_type r"
  shows "\<exists>t. finalize_upload E now r s = (Inl (InvalidUploadContent (u_id r)), t)
     \<and> srv_db t = srv_db s \<and> srv_content t = srv_content s
     \<and> map_of (srv_records t) = (map_of (srv_records s))(u_id r := None)
     \<and> map_of (srv_parts t) = (map_of (srv_parts s))(u_id r := None)"
proof -
  have "\<not> is_ok (verify_recorded_file (ext E) (Some (File b)) (u_length r) (u_sha256 r) (u_media_type r)
      (max_file_size E))"
    using assms(6) by (auto simp: is_ok_iff verify_recorded_file_ok)
  then obtain e where e: "verify_recorded_file (ext E) (Some (File b)) (u_length r) (u_sha256 r)
      (u_media_type r) (max_file_size E) = Inl e"
    by (cases "verify_recorded_file (ext E) (Some (File b)) (u_length r) (u_sha256 r) (u_media_type r)
      (max_file_size E)") auto
  have v: "validate_upload_id (ext E) (u_id r) = Inr ()" using assms(3,4) by simp
  show ?thesis
    by (simp add: finalize_upload_def assms(1,2,5) v bindo_readso e discard_upload_def
        remove_record_file_def remove_part_file_def bindo_def lifto_def modifyo_def fails_def readso_def)
qed

theorem invalid_upload_discarded_witness:
  "\<exists>t. finalize_upload sample_env 7 (sample_upload 12)
      (upload_server\<lparr>srv_parts := [(sample_id (CHR ''1''), File ''not an image'')]\<rparr>)
      = (Inl (InvalidUploadContent (sample_id (CHR ''1''))), t)
     \<and> map_of (srv_parts t) (sample_id (CHR ''1'')) = None"
proof -
  have "sha256_hex sample_ext ''not an image'' \<noteq> u_sha256 (sample_upload 12)"
    by (simp add: sample_upload_def sample_sha_eq sha256_hex_def sample_ext_def sample_hex_def hex_digit_def)
  then show ?thesis
    using invalid_upload_discarded [of "sample_upload 12" sample_env
        "upload_server\<lparr>srv_parts := [(sample_id (CHR ''1''), File ''not an image'')]\<rparr>" "''not an image''" 7]
    by (auto simp: ascii_defs uuid_canonical_def)
qed

text \<open>
  Uploads are private to the device that created them: to any other device an upload looks
  as if it did not exist, and its requests change none of its files and no table.
\<close>

theorem upload_isolation:
  assumes r: "map_of (srv_records s) i = Some (Parsed r)" "u_device_id r \<noteq> device"
  shows "(case append_upload E now device i expected chunk n s of
        (Inr out, t) \<Rightarrow> out = AppendNotFound | (Inl e, t) \<Rightarrow> True)
     \<and> (case get_upload E now device i s of (Inr x, t) \<Rightarrow> x = None | (Inl e, t) \<Rightarrow> True)
     \<and> list_all (\<lambda>t. srv_records t = srv_records s \<and> srv_parts t = srv_parts s \<and> srv_db t = srv_db s
          \<and> srv_content t = srv_content s)
        [snd (append_upload E now device i expected chunk n s), snd (get_upload E now device i s)]"
proof -
  let ?P = "\<lambda>t. srv_records t = srv_records s \<and> srv_parts t = srv_parts s \<and> srv_db t = srv_db s
      \<and> srv_content t = srv_content s"
  have l: "hoare ?P lock_uploads (\<lambda>_. ?P) ?P"
    by (rule hoareI) (auto dest!: lock_uploads_same)
  have rd: "hoare ?P (read_upload_record E i) (\<lambda>x t. ?P t \<and> x = Some r) ?P"
    using r(1) by (auto intro!: hoareI simp: read_upload_record_Inr)
      (auto simp: read_upload_record_def bindo_err op_ok op_defs split: option.splits record_file.splits)
  have k: "hoare ?P (lifto y) (\<lambda>_. ?P) ?P" for y :: "unit res" by (rule hoareI) (auto simp: op_defs)
  have o: "hoare ?P open_connection_unchecked (\<lambda>_. ?P) ?P"
    by (rule hoareI) (auto simp: open_connection_unchecked_def op_defs)
  have z: "hoare (\<lambda>t. ?P t \<and> x = Some r) (case x of None \<Rightarrow> retn y
        | Some q \<Rightarrow> if u_device_id q \<noteq> device then retn y else f q) (\<lambda>v t. ?P t \<and> v = y) ?P"
    for x and y :: 'z and f
    using r(2) by (auto intro!: hoareI simp: op_defs)
  have "hoare ?P (append_upload E now device i expected chunk n) (\<lambda>v t. ?P t \<and> v = AppendNotFound) ?P"
    unfolding append_upload_def
    by (rule hoare_bindo [OF k], rule hoare_bindo [OF k], rule hoare_bindo [OF l], rule hoare_bindo [OF o],
        rule hoare_bindo [OF k], rule hoare_bindo [OF rd], rule z)
  moreover have "hoare ?P (get_upload E now device i) (\<lambda>v t. ?P t \<and> v = None) ?P"
    unfolding get_upload_def
    by (rule hoare_bindo [OF k], rule hoare_bindo [OF k], rule hoare_bindo [OF l], rule hoare_bindo [OF o],
        rule hoare_bindo [OF k], rule hoare_bindo [OF rd], rule z)
  ultimately show ?thesis
    by (auto split: prod.split sum.split dest: hoare_ok hoare_err)
qed


theorem upload_isolation_witness:
  "\<forall>j. fst (get_upload sample_env 7 ''other'' (sample_id (CHR ''1'')) upload_server) \<noteq> Inr (Some j)"
  using upload_isolation [of upload_server "sample_id (CHR ''1'')" "sample_upload 4" "''other''" sample_env 7]
  by (cases "get_upload sample_env 7 ''other'' (sample_id (CHR ''1'')) upload_server")
    (auto simp: upload_server_def split: sum.splits)

lemma allocate_upload_Inr:
  "allocate_upload E now device u is s = (Inr j, t) \<Longrightarrow>
     \<exists>i \<in> set is. map_of (srv_records s) i = None \<and> map_of (srv_parts s) i = None
       \<and> uuid_canonical (ext E) i \<and> j = info (fresh_record device u now i)
       \<and> map_of (srv_records t) = (map_of (srv_records s))(i \<mapsto> Parsed (fresh_record device u now i))
       \<and> map_of (srv_parts t) = (map_of (srv_parts s))(i \<mapsto> File [])
       \<and> srv_db t = srv_db s \<and> srv_content t = srv_content s"
proof (induction E now device u "is" arbitrary: s rule: allocate_upload.induct)
  case (1 E now device u)
  then show ?case by simp
next
  case (2 E now device u i "is")
  show ?case
  proof (cases "map_of (srv_records s) i \<noteq> None \<or> target_exists (map_of (srv_parts s) i)")
    case True
    with "2.prems" have "allocate_upload E now device u is s = (Inr j, t)"
      by (auto simp: op_ok)
    from "2.IH" [OF True this] show ?thesis by auto
  next
    case False
    with "2.prems" show ?thesis
      by (auto simp: op_ok write_upload_record_Inr set_part_def fresh_record_def)
  qed
qed

text \<open>
  A new upload gets an id that no upload has, for the device that asked and with exactly
  the declared metadata; it starts with no bytes accepted; every other upload, the queue and
  the contents stay as they are.
\<close>

theorem create_upload_fresh:
  assumes c: "create_upload E now uuids device u s = (Inr j, t)"
  shows "\<exists>i. map_of (srv_records s) i = None \<and> map_of (srv_parts s) i = None
     \<and> ui_id j = i \<and> ui_offset j = 0 \<and> ui_length j = nu_length u \<and> ui_delivery_id j = None
     \<and> committed t i = Some []
     \<and> map_of (srv_records t) = (map_of (srv_records s))(i \<mapsto> Parsed (fresh_record device u now i))
     \<and> map_of (srv_parts t) = (map_of (srv_parts s))(i \<mapsto> File [])
     \<and> srv_db t = srv_db s \<and> srv_content t = srv_content s
     \<and> is_ok (validate_new_upload E u) \<and> device_open (srv_db s) device"
proof -
  obtain a where l: "lock_uploads s = (Inr (), a)"
    and v: "is_ok (validate_new_upload E u)" "device_open (srv_db a) device"
    and al: "allocate_upload E now device u (List.map uuids [0..<16]) a = (Inr j, t)"
    using c by (auto simp: create_upload_def op_ok is_ok_iff require_directory_receiver_def
        simp del: upt.simps split: if_splits)
  have "srv_db a = srv_db s" "srv_records a = srv_records s" "srv_parts a = srv_parts s"
    "srv_content a = srv_content s" using lock_uploads_same [OF l] by auto
  with allocate_upload_Inr [OF al] v show ?thesis
    by (auto simp: committed_def info_def fresh_record_def)
qed

definition sample_new_upload :: new_upload where
  "sample_new_upload = record_upload (sample_upload 0)"

lemma sample_fresh_fields [simp]:
  "nu_directory sample_new_upload = None" "u_id (fresh_record device u now i) = i"
  "u_metadata_header (fresh_record device u now i) = nu_metadata_header u"
  "nu_metadata_header sample_new_upload = ''m''" "ui_id (info r) = u_id r"
  by (simp_all add: sample_new_upload_def record_upload_def fresh_record_def info_def)

theorem create_upload_fresh_witness:
  "\<exists>j t. create_upload sample_env 7 (\<lambda>_. sample_id (CHR ''2'')) ''linux'' sample_new_upload upload_server
      = (Inr j, t) \<and> committed t (sample_id (CHR ''2'')) = Some []"
proof -
  have o: "device_open d ''linux''" for d
    by (simp add: device_open_def require_device_open_def strip_prefix_def FOLDER_PREFIX_def)
  have u: "uuid_canonical sample_ext (sample_id (CHR ''2''))"
    by (simp add: uuid_canonical_def ascii_defs)
  have n: "validate_new_upload sample_env sample_new_upload = Inr ()"
    by (simp add: sample_new_upload_def sample_new_valid)
  have w: "is_ok (validate_upload_record sample_env (sample_id (CHR ''2''))
      (fresh_record ''linux'' sample_new_upload 7 (sample_id (CHR ''2''))))"
    using n u sample_linux_ok by (simp add: validate_upload_record_def is_ok_andthen fresh_record_def
        UPLOAD_RECORD_VERSION_def ascii_defs record_upload_def sample_new_upload_def sample_upload_def)
  have i: "List.map (\<lambda>_. sample_id (CHR ''2'')) [0..<16] = sample_id (CHR ''2'')
      # List.map (\<lambda>_. sample_id (CHR ''2'')) [1..<16]"
    by (simp add: upt_rec [of 0])
  have "\<exists>j t. create_upload sample_env 7 (\<lambda>_. sample_id (CHR ''2'')) ''linux'' sample_new_upload upload_server
      = (Inr j, t) \<and> ui_id j = sample_id (CHR ''2'')"
    unfolding create_upload_def i
    using w u
    by (simp add: op_ok sample_linux_ok n lock_uploads_def lock_library_def upload_server_def
        o target_exists_def write_upload_record_Inr set_part_def ascii_defs MAX_UPLOAD_RECORD_BYTES_def)
  then obtain j t where j: "create_upload sample_env 7 (\<lambda>_. sample_id (CHR ''2'')) ''linux''
      sample_new_upload upload_server = (Inr j, t)" "ui_id j = sample_id (CHR ''2'')" by blast
  from create_upload_fresh [OF j(1)] j show ?thesis by auto
qed

end
