(* ===== verification/ServerDirectory.thy ===== *)
theory ServerDirectory
  imports TusStore
begin

text \<open>
  The directory half of the store, \<open>src/server/directory.rs\<close>: the state a device sees, the
  publication of the receiver's inventory, and the receipt of a version with everything older.
  The insertion of a version and its replay check, which enqueueing calls, are in the theory of
  the queue.
\<close>

section \<open>Directory state\<close>

definition superseded :: "database \<Rightarrow> version_row \<Rightarrow> bool" where
  "superseded d v =
     (\<exists>l \<in> set (t_versions d). v_device l = v_device v \<and> v_path l = v_path v
        \<and> v_version l > v_version v)"

definition row_entry :: "database \<Rightarrow> version_row \<Rightarrow> directory_entry option" where
  "row_entry d v =
     map_option (\<lambda>r. \<lparr>de_path = v_path v, de_version = i64_as_u64 (v_version v),
         de_delivery_id = r_id r, de_sha256 = r_sha r, de_size = i64_as_u64 (r_size r),
         de_media_type = r_media r, de_acknowledged = (r_acked r \<noteq> None),
         de_conflict = (v_conflict v \<noteq> 0)\<rparr>)
       (find_row d (v_device v) (v_delivery v))"

definition latest_entries :: "database \<Rightarrow> string \<Rightarrow> directory_entry list" where
  "latest_entries d device =
     sort_key de_path (List.map_filter (row_entry d)
       (List.filter (\<lambda>v. v_device v = device \<and> \<not> superseded d v) (t_versions d)))"

definition directory_state_of :: "store_env \<Rightarrow> string \<Rightarrow> (server, directory_state) op" where
  "directory_state_of E device =
     bindo open_connection_unchecked (\<lambda>d.
       let st = \<lparr>ds_schema_version = DIR_VERSION, ds_receiver = map_of (t_indexes d) device,
           ds_entries = take 5001 (latest_entries d device)\<rparr>
       in bindo (lifto (validate_directory_state (ext E) st)) (\<lambda>_. retn st))"

section \<open>Publishing the receiver's inventory\<close>

definition publish_step :: "string \<Rightarrow> inventory_update \<Rightarrow> (server, inventory option) op" where
  "publish_step device update =
     bindo open_connection_unchecked (\<lambda>d.
     bindo (lifto (require_device_open d device)) (\<lambda>_.
       let previous = map_of (t_indexes d) device in
       if previous = Some (iu_inventory update) then retn previous
       else if map_option inv_id previous \<noteq> iu_previous_id update
         \<or> (case previous of None \<Rightarrow> False | Some v \<Rightarrow> inv_id v = inv_id (iu_inventory update))
       then retn None
       else
         bindo (modifyo (on_db (\<lambda>d. d\<lparr>t_indexes :=
             AList.update device (iu_inventory update) (t_indexes d)\<rparr>))) (\<lambda>_.
         retn (Some (iu_inventory update)))))"

definition publish_directory ::
    "store_env \<Rightarrow> string \<Rightarrow> inventory_update \<Rightarrow> (server, inventory option) op" where
  "publish_directory E device update =
     bindo (lifto (ensure (prefix FOLDER_PREFIX device)
         ''Directory sync requires a paired Folder.'')) (\<lambda>_.
     bindo (lifto (validate_inventory (ext E) (iu_inventory update))) (\<lambda>_.
     transaction (publish_step device update)))"

section \<open>Acknowledging a version\<close>

definition ack_row :: "string \<Rightarrow> directory_ack \<Rightarrow> database \<Rightarrow> version_row \<Rightarrow> bool" where
  "ack_row device ack d v \<longleftrightarrow>
     v_device v = device \<and> v_path v = da_path ack \<and> v_version v \<le> u64_as_i64 (da_version ack)"

definition ack_matches :: "string \<Rightarrow> directory_ack \<Rightarrow> database \<Rightarrow> bool" where
  "ack_matches device ack d =
     (\<exists>v \<in> set (t_versions d). v_device v = device \<and> v_path v = da_path ack
        \<and> v_version v = u64_as_i64 (da_version ack)
        \<and> (\<exists>r \<in> set (t_deliveries d). r_device r = v_device v \<and> r_id r = v_delivery v
             \<and> r_sha r = da_sha256 ack))"

definition ack_hashes :: "string \<Rightarrow> directory_ack \<Rightarrow> database \<Rightarrow> string list" where
  "ack_hashes device ack d =
     remdups (List.map r_sha (List.filter (\<lambda>r. r_device r = device
       \<and> (\<exists>v \<in> set (t_versions d). ack_row device ack d v \<and> v_delivery v = r_id r))
       (t_deliveries d)))"

text \<open>\<open>COALESCE(acknowledged_at_unix, now)\<close> for every version up to the one acknowledged.\<close>

definition ack_update :: "nat \<Rightarrow> string \<Rightarrow> directory_ack \<Rightarrow> database \<Rightarrow> database" where
  "ack_update now device ack d =
     d\<lparr>t_deliveries := List.map (\<lambda>r.
          if r_device r = device
             \<and> (\<exists>v \<in> set (t_versions d). ack_row device ack d v \<and> v_delivery v = r_id r)
          then r\<lparr>r_acked := Some (case r_acked r of None \<Rightarrow> u64_as_i64 now | Some t \<Rightarrow> t)\<rparr>
          else r) (t_deliveries d),
       t_versions := List.map (\<lambda>v.
          if v_device v = device \<and> v_path v = da_path ack \<and> v_version v = u64_as_i64 (da_version ack)
          then v\<lparr>v_conflict := max (v_conflict v) (if da_conflict ack then 1 else 0)\<rparr>
          else v) (t_versions d)\<rparr>"

definition ack_directory :: "nat \<Rightarrow> string \<Rightarrow> directory_ack \<Rightarrow> (server, bool) op" where
  "ack_directory now device ack =
     bindo (lifto (validate_version \<lparr>dv_path = da_path ack, dv_version = da_version ack\<rparr>)) (\<lambda>_.
     bindo (lifto (validate_sha256 (da_sha256 ack))) (\<lambda>_.
     bindo open_connection_unchecked (\<lambda>d.
       if \<not> ack_matches device ack d then retn False
       else
         bindo (modifyo (on_db (ack_update now device ack))) (\<lambda>_.
         bindo (for_each (\<lambda>h. bindo (garbage_collect_digest h) (\<lambda>_. retn ()))
             (ack_hashes device ack d)) (\<lambda>_.
         retn True)))))"

section \<open>The version table\<close>

text \<open>
  Its keys, its foreign key, positive versions, and that for one device no path is a directory
  of another.
\<close>

definition version_key :: "version_row \<Rightarrow> string \<times> string \<times> int" where
  "version_key v = (v_device v, v_path v, v_version v)"

definition versions_ok :: "database \<Rightarrow> bool" where
  "versions_ok d \<longleftrightarrow>
     list_all (\<lambda>v. 0 < v_version v \<and> find_row d (v_device v) (v_delivery v) \<noteq> None
       \<and> prefix FOLDER_PREFIX (v_device v)) (t_versions d)
     \<and> distinct (List.map version_key (t_versions d))
     \<and> distinct (List.map (\<lambda>v. (v_device v, v_delivery v)) (t_versions d))
     \<and> (\<forall>v \<in> set (t_versions d). \<forall>w \<in> set (t_versions d).
          v_device v = v_device w \<longrightarrow> \<not> path_below (v_path v) (v_path w))"

abbreviation versions_good :: "server \<Rightarrow> bool" where
  "versions_good s \<equiv> versions_ok (srv_db s)"

lemma versions_ok_rows:
  assumes "versions_ok d" "t_versions d' = t_versions d"
    "\<And>v. v \<in> set (t_versions d) \<Longrightarrow> find_row d (v_device v) (v_delivery v) \<noteq> None
       \<Longrightarrow> find_row d' (v_device v) (v_delivery v) \<noteq> None"
  shows "versions_ok d'"
  using assms by (auto simp: versions_ok_def list_all_iff)

lemma versions_ok_set_acked [simp]: "versions_ok (set_acked P n d) = versions_ok d"
  by (auto simp: versions_ok_def find_row_set_acked)

lemma versions_ok_append:
  assumes "versions_ok d" "0 < v_version v" "find_row d (v_device v) (v_delivery v) \<noteq> None"
    "prefix FOLDER_PREFIX (v_device v)" "find_version d (v_device v) (v_delivery v) = None"
    "\<not> (\<exists>w \<in> set (device_versions d (v_device v)). (v_path w = v_path v \<and> v_version w = v_version v)
       \<or> path_below (v_path w) (v_path v) \<or> path_below (v_path v) (v_path w))"
    and d': "t_versions d' = t_versions d @ [v]" "t_deliveries d' = t_deliveries d"
  shows "versions_ok d'"
proof -
  have f: "find_row d' = find_row d" by (simp add: fun_eq_iff find_row_def d'(2))
  have "\<not> path_below (v_path v) (v_path v)" by (simp add: path_below_def)
  with assms show ?thesis
    by (auto simp: versions_ok_def d'(1) f version_key_def device_versions_def find_version_def find_None_iff)
qed

lemma pres_versions_tables:
  "(\<And>d. versions_ok d \<Longrightarrow> versions_ok (f d)) \<Longrightarrow> pres versions_good (modifyo (on_db f))"
  by (rule pres_modifyo) simp

lemma pres_versions_content [pres_intros]: "pres versions_good (on_content m)"
  by (auto simp: pres_iff on_content_eq)

lemma pres_versions_files [pres_intros]:
  "pres versions_good (modifyo (\<lambda>s. s\<lparr>srv_records := f s\<rparr>))"
  "pres versions_good (modifyo (\<lambda>s. s\<lparr>srv_parts := g s\<rparr>))"
  by (auto intro!: pres_modifyo)

lemma pres_versions_transaction:
  assumes "pres versions_good m" shows "pres versions_good (transaction m)"
proof (rule presI)
  fix s assume s: "versions_good s"
  with assms have "versions_good (snd (m s))" by (rule presD)
  with s show "versions_good (snd (transaction m s))"
    by (cases "m s"; cases "fst (m s)") (auto simp: transaction_def)
qed

lemma versions_insert:
  "insert_directory_version now device did v s = (r, t) \<Longrightarrow> versions_good s \<Longrightarrow> versions_good t"
proof (cases r)
  case (Inl e)
  assume "insert_directory_version now device did v s = (r, t)" "versions_good s"
  then show ?thesis
    using Inl by (auto simp: insert_directory_version_def bindo_err op_ok Let_def op_defs
        open_connection_unchecked_def split: if_splits)
next
  case (Inr u)
  assume i: "insert_directory_version now device did v s = (r, t)" and s: "versions_good s"
  from i Inr have "insert_directory_version now device did v s = (Inr u, t)" by simp
  note w = insert_directory_version_steps [OF this]
  let ?v = "\<lparr>v_device = device, v_delivery = did, v_path = dv_path v,
              v_version = u64_as_i64 (dv_version v), v_conflict = 0\<rparr>"
  let ?d = "(srv_db s)\<lparr>t_versions := t_versions (srv_db s) @ [?v]\<rparr>"
  have "0 < dv_version v" "dv_version v < i64_max" using w by (auto simp: is_ok_iff)
  then have "versions_ok ?d"
    using w by (intro versions_ok_append [OF s, of ?v]) (auto simp: u64_as_i64_small)
  with w show ?thesis by auto
qed

lemma pres_versions_insert [pres_intros]: "pres versions_good (insert_directory_version now device did v)"
  using versions_insert by (simp add: pres_iff)

lemma pres_versions_delivery [pres_intros]: "pres versions_good (insert_delivery row)"
  unfolding pres_iff
proof (intro allI impI)
  fix s r t assume s: "versions_good s" and i: "insert_delivery row s = (r, t)"
  show "versions_good t"
  proof (cases r)
    case (Inl e)
    with s i insert_delivery_err show ?thesis by blast
  next
    case (Inr q)
    with i show ?thesis
      by (intro versions_ok_rows [OF s]) (auto simp: insert_delivery_eq find_row_def find_append)
  qed
qed

lemma pres_versions_acked [pres_intros]: "pres versions_good (modifyo (on_db (set_acked P n)))"
  by (rule pres_versions_tables) simp

lemma pres_versions_lock [pres_intros]: "pres versions_good lock_content" "pres versions_good lock_uploads"
  by (auto simp: pres_iff dest: lock_content_db lock_uploads_same)

lemma pres_versions_store [pres_intros]:
  "pres versions_good (enqueue_directory_with_id E now device x name did created directory)"
  "pres versions_good (acknowledge now device i sha)"
  "pres versions_good (garbage_collect_digest sha)"
  "pres versions_good (reconcile_content E)"
  unfolding enqueue_directory_with_id_def enqueue_replay_def enqueue_fresh_def enqueue_insert_def
    acknowledge_def garbage_collect_digest_def reconcile_content_def Let_def
  by (intro pres_intros pres_versions_transaction)+

lemma pres_versions_uploads [pres_intros]:
  "pres versions_good (set_part i b)" "pres versions_good (remove_record_file i)"
  "pres versions_good (write_upload_record E' r)" "pres versions_good (read_upload_record E' i)"
  "pres versions_good (open_upload_part i)" "pres versions_good (require_directory_receiver device)"
  by (auto simp: set_part_def remove_record_file_def write_upload_record_def read_upload_record_def
      open_upload_part_def require_directory_receiver_def intro!: pres_intros split: option.split record_file.split)

lemma pres_versions_part [pres_intros]:
  "pres versions_good (remove_part_file i)" "pres versions_good (drop_completed_part i)"
  by (auto simp: pres_def remove_part_file_def drop_completed_part_def split: option.split node.split)

lemma pres_versions_finalize [pres_intros]: "pres versions_good (finalize_upload E now r)"
  unfolding finalize_upload_def complete_upload_def discard_upload_def Let_def
  by (auto intro!: pres_intros split: sum.split)

lemma pres_versions_allocate [pres_intros]: "pres versions_good (allocate_upload E' now device u is)"
  by (induction E' now device u "is" rule: allocate_upload.induct) (auto intro!: pres_intros)

lemma pres_versions_append [pres_intros]:
  "pres versions_good (create_upload E now ids device u)"
  "pres versions_good (get_upload E now device i)"
  "pres versions_good (append_upload E now device i expected chunk n)"
  unfolding create_upload_def get_upload_def append_upload_def append_record_def write_chunk_def
    reconcile_upload_data_def Let_def
  by (intro pres_intros)+

section \<open>Receipts and inventories keep the tables in order\<close>

text \<open>The delivery that a receipt acknowledges.\<close>

definition ack_covers :: "string \<Rightarrow> directory_ack \<Rightarrow> database \<Rightarrow> delivery_row \<Rightarrow> bool" where
  "ack_covers device ack d r \<longleftrightarrow> r_device r = device
     \<and> (\<exists>v \<in> set (t_versions d). ack_row device ack d v \<and> v_delivery v = r_id r)"

definition ack_delivery :: "nat \<Rightarrow> string \<Rightarrow> directory_ack \<Rightarrow> database \<Rightarrow> delivery_row \<Rightarrow> delivery_row" where
  "ack_delivery now device ack d r =
     (if ack_covers device ack d r
      then r\<lparr>r_acked := Some (case r_acked r of None \<Rightarrow> u64_as_i64 now | Some t \<Rightarrow> t)\<rparr> else r)"

definition ack_version :: "string \<Rightarrow> directory_ack \<Rightarrow> version_row \<Rightarrow> version_row" where
  "ack_version device ack v =
     (if v_device v = device \<and> v_path v = da_path ack \<and> v_version v = u64_as_i64 (da_version ack)
      then v\<lparr>v_conflict := max (v_conflict v) (if da_conflict ack then 1 else 0)\<rparr> else v)"

lemma ack_update_eq:
  "ack_update now device ack d =
     d\<lparr>t_deliveries := List.map (ack_delivery now device ack d) (t_deliveries d),
       t_versions := List.map (ack_version device ack) (t_versions d)\<rparr>"
  by (simp add: ack_update_def ack_delivery_def [abs_def] ack_version_def [abs_def] ack_covers_def)

lemma ack_delivery_fields [simp]:
  "r_seq (ack_delivery now device ack d r) = r_seq r" "row_key (ack_delivery now device ack d r) = row_key r"
  "r_device (ack_delivery now device ack d r) = r_device r" "r_id (ack_delivery now device ack d r) = r_id r"
  "r_sha (ack_delivery now device ack d r) = r_sha r" "row_ok E (ack_delivery now device ack d r) = row_ok E r"
  by (auto simp: ack_delivery_def row_ok_seq)

lemma ack_version_fields [simp]:
  "v_device (ack_version device ack v) = v_device v" "v_path (ack_version device ack v) = v_path v"
  "v_version (ack_version device ack v) = v_version v" "v_delivery (ack_version device ack v) = v_delivery v"
  "version_key (ack_version device ack v) = version_key v"
  by (auto simp: ack_version_def version_key_def)

lemma ack_update_rows:
  "List.map r_seq (t_deliveries (ack_update now device ack d)) = List.map r_seq (t_deliveries d)"
  "List.map row_key (t_deliveries (ack_update now device ack d)) = List.map row_key (t_deliveries d)"
  "t_sequence (ack_update now device ack d) = t_sequence d"
  "t_exits (ack_update now device ack d) = t_exits d" "t_folders (ack_update now device ack d) = t_folders d"
  "t_indexes (ack_update now device ack d) = t_indexes d"
  "t_user_version (ack_update now device ack d) = t_user_version d"
  by (simp_all add: ack_update_eq comp_def)

lemma find_row_ack:
  "find_row (ack_update now device ack d) x i = map_option (ack_delivery now device ack d) (find_row d x i)"
  by (simp add: find_row_def ack_update_eq find_map)

lemma ack_update_shrinks [simp]: "tables_shrink E d (ack_update now device ack d)"
  unfolding tables_shrink_def
proof (intro conjI impI allI)
  assume "rows_ok E d"
  then show "rows_ok E (ack_update now device ack d)"
    by (auto simp: rows_ok_def ack_update_rows) (auto simp: ack_update_eq list_all_iff)
next
  fix r assume r: "must_keep (ack_update now device ack d) r"
  then have "device_open d (r_device r)"
    using device_open_cong [OF ack_update_rows(4)] by (simp add: must_keep_def)
  with r show "must_keep d r"
    by (auto simp: must_keep_def ack_update_eq) (auto simp: ack_delivery_def split: if_splits)
qed

lemma versions_ok_ack [simp]: "versions_ok (ack_update now device ack d) = versions_ok d"
proof -
  have "(\<exists>y. map_option g x = Some y) = (\<exists>y. x = Some y)" for g :: "delivery_row \<Rightarrow> delivery_row" and x
    by (cases x) auto
  moreover have "list_all P (List.map g xs) = list_all (\<lambda>x. P (g x)) xs"
    for P and g :: "version_row \<Rightarrow> version_row" and xs by (simp add: list_all_iff)
  ultimately show ?thesis
    by (simp add: versions_ok_def find_row_ack) (simp add: ack_update_eq comp_def)
qed

lemma pres_directory_ack [pres_intros]:
  "pres (store_ok E) (ack_directory now device ack)" "pres versions_good (ack_directory now device ack)"
  unfolding ack_directory_def by (intro pres_intros pres_versions_tables; simp)+

lemma pres_directory_publish [pres_intros]:
  "pres (store_ok E) (publish_directory E' device update)" "pres versions_good (publish_directory E' device update)"
  unfolding publish_directory_def publish_step_def Let_def
  by (intro pres_intros pres_transaction_content pres_versions_transaction pres_versions_tables;
      simp add: versions_ok_def find_row_def)+

section \<open>Properties\<close>

definition receiver_index :: "server \<Rightarrow> string \<Rightarrow> inventory option" where
  "receiver_index s device = map_of (t_indexes (srv_db s)) device"

lemma publish_steps:
  assumes "publish_directory E device u s = (Inr (Some v), t)"
  shows "v = iu_inventory u \<and> valid_inventory (ext E) v \<and> prefix FOLDER_PREFIX device
     \<and> device_open (srv_db s) device
     \<and> (receiver_index s device = Some v \<and> t = s
        \<or> map_option inv_id (receiver_index s device) = iu_previous_id u
          \<and> map_option inv_id (receiver_index s device) \<noteq> Some (inv_id v)
          \<and> t = on_db (\<lambda>d. d\<lparr>t_indexes := AList.update device v (t_indexes d)\<rparr>) s)"
  using assms unfolding publish_directory_def
  by (auto simp: bindo_ok [of "lifto _"] op_ok transaction_ok publish_step_def open_connection_eq Let_def
      receiver_index_def split: if_splits option.splits)

lemma publish_unchanged:
  assumes "publish_directory E device u s = (r, t)" "\<forall>v. r \<noteq> Inr (Some v)"
  shows "t = s"
  using assms unfolding publish_directory_def
  by (auto simp: bindo_lifto publish_step_def transaction_def open_connection_eq Let_def op_defs
      split: if_splits sum.splits)

text \<open>
  C26. Publishing the receiver's inventory is a compare-and-swap. When it succeeds the device
  has that inventory, valid, and nothing else of the server has changed; it was computed from
  the inventory that the server held, or repeats it. A second publication from the same base
  is refused from then on, so no update is lost. When it does not succeed nothing changes.
\<close>

theorem publish_compare_and_swap:
  assumes p: "publish_directory E device u s = (r, t)"
  shows "(case r of
      Inr (Some v) \<Rightarrow> v = iu_inventory u \<and> valid_inventory (ext E) v \<and> device_open (srv_db s) device
        \<and> map_of (t_indexes (srv_db t)) = (map_of (t_indexes (srv_db s)))(device \<mapsto> v)
        \<and> t = s\<lparr>srv_db := (srv_db s)\<lparr>t_indexes := t_indexes (srv_db t)\<rparr>\<rparr>
        \<and> (map_of (t_indexes (srv_db s)) device = Some v
           \<or> map_option inv_id (map_of (t_indexes (srv_db s)) device) = iu_previous_id u
             \<and> (\<forall>E' u' w t'. iu_previous_id u' = iu_previous_id u \<and> iu_inventory u' \<noteq> v
                  \<longrightarrow> publish_directory E' device u' t \<noteq> (Inr (Some w), t')))
    | _ \<Rightarrow> t = s)"
proof (cases "\<exists>v. r = Inr (Some v)")
  case False
  then have "t = s" using publish_unchanged [OF p] by auto
  with False show ?thesis by (auto split: sum.split option.split)
next
  case True
  then obtain v where r: "r = Inr (Some v)" by blast
  note st = publish_steps [OF p [unfolded r]]
  have "publish_directory E' device u' t \<noteq> (Inr (Some w), t')"
    if "iu_previous_id u' = map_option inv_id (receiver_index s device)" "iu_inventory u' \<noteq> v"
      "map_option inv_id (receiver_index s device) \<noteq> Some (inv_id v)" "receiver_index t device = Some v"
    for E' u' w t'
    using that publish_steps [of E' device u' t w t'] by (cases "receiver_index s device") auto
  then show ?thesis
    using st by (auto simp: r receiver_index_def update_conv' map_upd_triv on_db_def)
qed

definition sample_folder :: string where
  "sample_folder = folder_device (sample_id (CHR ''f''))"

definition sample_inventory :: inventory where
  "sample_inventory = \<lparr>inv_id = sample_id (CHR ''a''),
     inv_entries = [\<lparr>ie_path = ''docs/a.png'', ie_sha256 = sample_sha, ie_size = 12\<rparr>]\<rparr>"

lemma valid_docs [simp]: "valid_path ''docs/a.png''"
  by (simp add: valid_path_iff safe_component_def to_ascii_lowercase_def ascii_defs)

lemma sample_inventory_valid [simp]: "valid_inventory sample_ext sample_inventory"
  by (simp add: valid_inventory_iff sample_inventory_def uuid_canonical_def MAX_ENTRIES_def ascii_defs
      valid_entry_def i64_max_def tree_consistent_def)

lemma sample_folder_open [simp]:
  "device_open empty_db sample_folder" "prefix FOLDER_PREFIX sample_folder"
  by (simp_all add: sample_folder_def exit_started_def) (simp add: folder_device_def)

theorem publish_compare_and_swap_witness:
  "\<exists>t. publish_directory sample_env sample_folder
       \<lparr>iu_previous_id = None, iu_inventory = sample_inventory\<rparr> empty_server = (Inr (Some sample_inventory), t)
     \<and> map_of (t_indexes (srv_db t)) = [sample_folder \<mapsto> sample_inventory]"
proof -
  let ?u = "\<lparr>iu_previous_id = None, iu_inventory = sample_inventory\<rparr>"
  obtain t where p: "publish_directory sample_env sample_folder ?u empty_server
      = (Inr (Some sample_inventory), t)"
    by (auto simp: publish_directory_def op_ok transaction_ok publish_step_def Let_def)
  from publish_compare_and_swap [OF p] p show ?thesis by auto
qed

section \<open>Receipts\<close>

text \<open>
  A receipt for a version of a path is accepted only when that version was delivered with
  that digest. Then every delivery of that path up to the version is acknowledged and keeps
  the time it already had, and no other delivery and no version is touched, except for the
  conflict mark. A receipt that is not accepted changes nothing.
\<close>

theorem ack_directory_contract:
  assumes "ack_directory now device ack s = (Inr b, t)"
  shows "if b
    then t_deliveries (srv_db t) = List.map (\<lambda>r.
        if r_device r = device \<and> (\<exists>v \<in> set (t_versions (srv_db s)). v_device v = device
             \<and> v_path v = da_path ack \<and> v_version v \<le> int (da_version ack) \<and> v_delivery v = r_id r)
        then r\<lparr>r_acked := Some (case r_acked r of None \<Rightarrow> u64_as_i64 now | Some n \<Rightarrow> n)\<rparr> else r)
        (t_deliveries (srv_db s))
      \<and> List.map (\<lambda>v. v\<lparr>v_conflict := 0\<rparr>) (t_versions (srv_db t))
        = List.map (\<lambda>v. v\<lparr>v_conflict := 0\<rparr>) (t_versions (srv_db s))
      \<and> (\<exists>v \<in> set (t_versions (srv_db s)). \<exists>r \<in> set (t_deliveries (srv_db s)).
          v_device v = device \<and> v_path v = da_path ack \<and> v_version v = int (da_version ack)
          \<and> r_device r = device \<and> r_id r = v_delivery v \<and> r_sha r = da_sha256 ack)
    else t = s \<and> \<not> ack_matches device ack (srv_db s)"
proof -
  have gc: "srv_db t' = srv_db s'" if "for_each (\<lambda>h. bindo (garbage_collect_digest h) (\<lambda>_. retn ())) hs s'
      = (Inr u, t')" for hs u s' t'
  proof -
    have "pres (\<lambda>x. srv_db x = srv_db s') (for_each (\<lambda>h. bindo (garbage_collect_digest h) (\<lambda>_. retn ())) hs)"
      by (intro pres_intros) (auto simp: pres_iff dest: garbage_collect_tables)
    from presD2 [OF this _ that] show ?thesis by simp
  qed
  have v: "valid_path (da_path ack) \<and> 0 < da_version ack \<and> da_version ack < i64_max"
    using assms by (auto simp: ack_directory_def op_ok)
  then have n: "u64_as_i64 (da_version ack) = int (da_version ack)" by (simp add: u64_as_i64_small)
  have m: "\<not> b \<and> t = s \<and> \<not> ack_matches device ack (srv_db s)
      \<or> b \<and> ack_matches device ack (srv_db s) \<and> srv_db t = ack_update now device ack (srv_db s)"
    using assms by (auto simp: ack_directory_def op_ok bindo_ok [of "for_each _ _"] open_connection_eq
        dest: gc split: if_splits)
  have c: "List.map (\<lambda>v. v\<lparr>v_conflict := 0\<rparr>) (t_versions (ack_update now device ack d))
      = List.map (\<lambda>v. v\<lparr>v_conflict := 0\<rparr>) (t_versions d)" for d
    by (simp add: ack_update_eq ack_version_def)
  show ?thesis
    using m n c by (auto simp: ack_update_def ack_row_def ack_matches_def)
qed


definition folder_row_of :: "int \<Rightarrow> char \<Rightarrow> int option \<Rightarrow> delivery_row" where
  "folder_row_of n c a = (sample_row n sample_folder c)\<lparr>r_acked := a\<rparr>"

definition folder_version :: "char \<Rightarrow> int \<Rightarrow> version_row" where
  "folder_version c n = \<lparr>v_device = sample_folder, v_delivery = sample_id c, v_path = ''docs/a.png'',
     v_version = n, v_conflict = 0\<rparr>"

text \<open>A Folder with two versions of one file, both pending.\<close>

definition versions_server :: server where
  "versions_server = empty_server\<lparr>
     srv_db := empty_db\<lparr>t_deliveries := [folder_row_of 1 (CHR ''1'') None, folder_row_of 2 (CHR ''2'') None],
       t_sequence := 2, t_versions := [folder_version (CHR ''1'') 2, folder_version (CHR ''2'') 3]\<rparr>,
     srv_content := [(''89'', Dir [(object_name sample_sha ''png'', File sample_png)])]\<rparr>"

lemma folder_row_fields [simp]:
  "r_device (folder_row_of n c a) = sample_folder" "r_id (folder_row_of n c a) = sample_id c"
  "r_acked (folder_row_of n c a) = a" "r_sha (folder_row_of n c a) = sample_sha"
  "r_media (folder_row_of n c a) = ''image/png''" "r_size (folder_row_of n c a) = 12"
  "r_seq (folder_row_of n c a) = n"
  by (simp_all add: folder_row_of_def)

lemma folder_version_fields [simp]:
  "v_device (folder_version c n) = sample_folder" "v_delivery (folder_version c n) = sample_id c"
  "v_path (folder_version c n) = ''docs/a.png''" "v_version (folder_version c n) = n"
  "v_conflict (folder_version c n) = 0"
  by (simp_all add: folder_version_def)

lemma versions_server_fields [simp]:
  "t_deliveries (srv_db versions_server) =
     [folder_row_of 1 (CHR ''1'') None, folder_row_of 2 (CHR ''2'') None]"
  "t_versions (srv_db versions_server) = [folder_version (CHR ''1'') 2, folder_version (CHR ''2'') 3]"
  "t_sequence (srv_db versions_server) = 2" "t_exits (srv_db versions_server) = []"
  "t_indexes (srv_db versions_server) = []" "t_folders (srv_db versions_server) = []"
  "t_user_version (srv_db versions_server) = SERVER_SCHEMA_VERSION"
  "srv_content versions_server = [(''89'', Dir [(object_name sample_sha ''png'', File sample_png)])]"
  by (simp_all add: versions_server_def)

definition sample_ack :: "nat \<Rightarrow> directory_ack" where
  "sample_ack n = \<lparr>da_path = ''docs/a.png'', da_version = n, da_sha256 = sample_sha, da_conflict = False\<rparr>"

lemma sample_ack_fields [simp]:
  "da_path (sample_ack n) = ''docs/a.png''" "da_version (sample_ack n) = n"
  "da_sha256 (sample_ack n) = sample_sha" "da_conflict (sample_ack n) = False"
  by (simp_all add: sample_ack_def)

theorem ack_directory_contract_witness:
  "\<exists>t. ack_directory 500 sample_folder (sample_ack 2) versions_server = (Inr True, t)
     \<and> t_deliveries (srv_db t) = [folder_row_of 1 (CHR ''1'') (Some 500), folder_row_of 2 (CHR ''2'') None]"
proof -
  have n: "u64_as_i64 2 = 2" "u64_as_i64 500 = 500" by (simp_all add: u64_as_i64_def i64_max_def)
  have m: "ack_matches sample_folder (sample_ack 2) (srv_db versions_server)"
    by (simp add: ack_matches_def n)
  have "LIBRARY_LOCK_FILE \<noteq> ''89''" by simp
  moreover have "ack_hashes sample_folder (sample_ack 2) (srv_db versions_server) = [sample_sha]"
    by (simp add: ack_hashes_def ack_row_def n)
  moreover have "t_deliveries (ack_update 500 sample_folder (sample_ack 2) (srv_db versions_server)) =
      [folder_row_of 1 (CHR ''1'') (Some 500), folder_row_of 2 (CHR ''2'') None]"
    by (simp add: ack_update_def ack_row_def n folder_row_of_def)
  ultimately obtain t where t: "ack_directory 500 sample_folder (sample_ack 2) versions_server = (Inr True, t)"
    by (auto simp: ack_directory_def op_ok m open_connection_eq garbage_collect_digest_def lock_content_def
        on_content_eq lock_library_def connection_ok i64_max_def ack_update_rows)
  from ack_directory_contract [OF t] t show ?thesis by (auto simp: folder_row_of_def n)
qed

section \<open>The state that a device reads\<close>

lemma row_entry_Some:
  "row_entry d v = Some e \<longleftrightarrow> (\<exists>r. find_row d (v_device v) (v_delivery v) = Some r
     \<and> e = \<lparr>de_path = v_path v, de_version = i64_as_u64 (v_version v),
         de_delivery_id = r_id r, de_sha256 = r_sha r, de_size = i64_as_u64 (r_size r),
         de_media_type = r_media r, de_acknowledged = (r_acked r \<noteq> None),
         de_conflict = (v_conflict v \<noteq> 0)\<rparr>)"
  by (auto simp: row_entry_def)

lemma row_entry_fields:
  "row_entry d v = Some e \<Longrightarrow> de_path e = v_path v"
  "row_entry d v = Some e \<Longrightarrow> 0 < v_version v \<Longrightarrow> int (de_version e) = v_version v"
  by (auto simp: row_entry_Some i64_as_u64_def)

lemma latest_entries_set:
  "e \<in> set (latest_entries d device) \<longleftrightarrow> (\<exists>v \<in> set (t_versions d). v_device v = device
     \<and> \<not> superseded d v \<and> row_entry d v = Some e)"
  by (auto simp: latest_entries_def map_filter_def) (auto simp: image_iff intro: bexI)

lemma newest_version:
  assumes "v \<in> set (t_versions d)"
  obtains w where "w \<in> set (t_versions d)" "v_device w = v_device v" "v_path w = v_path v"
    "v_version v \<le> v_version w" "\<not> superseded d w"
proof -
  let ?S = "{w \<in> set (t_versions d). v_device w = v_device v \<and> v_path w = v_path v}"
  have "finite ?S" "?S \<noteq> {}" using assms by auto
  then have f: "finite (v_version ` ?S)" "v_version ` ?S \<noteq> {}" by auto
  from Max_in [OF f] obtain w where "w \<in> ?S" "v_version w = Max (v_version ` ?S)" by auto
  with Max_ge [OF f(1)] have w: "w \<in> ?S" "\<forall>x \<in> ?S. v_version x \<le> v_version w" by auto
  then have "\<not> superseded d w" by (fastforce simp: superseded_def)
  with w assms that show thesis by blast
qed

lemma directory_state_entries:
  assumes "directory_state_of E device s = (Inr st, t)"
  shows "t = s" "ds_receiver st = map_of (t_indexes (srv_db s)) device"
    "ds_entries st = latest_entries (srv_db s) device"
    "distinct (List.map de_path (ds_entries st))"
proof -
  have a: "t = s \<and> ds_receiver st = map_of (t_indexes (srv_db s)) device
      \<and> ds_entries st = take 5001 (latest_entries (srv_db s) device)
      \<and> is_ok (validate_directory_state (ext E) st)"
    using assms by (auto simp: directory_state_of_def op_ok open_connection_eq Let_def is_ok_iff)
  then have v: "length (ds_entries st) \<le> MAX_ENTRIES" "distinct (List.map de_path (ds_entries st))"
    by (auto simp: validate_directory_state_def is_ok_andthen validate_entries_ok)
  with a have "length (latest_entries (srv_db s) device) \<le> 5000"
    by (auto simp: MAX_ENTRIES_def min_def split: if_splits)
  with a v show "t = s" "ds_receiver st = map_of (t_indexes (srv_db s)) device"
    "ds_entries st = latest_entries (srv_db s) device"
    "distinct (List.map de_path (ds_entries st))" by auto
qed

text \<open>
  The directory state lists, in the order of the paths and each path once, the newest
  version of every path that the device ever received, with the content and receipt of its
  delivery; reading it changes nothing.
\<close>

theorem directory_state_newest:
  assumes "directory_state_of E device s = (Inr st, t)" and "versions_ok (srv_db s)"
  shows "t = s \<and> ds_receiver st = map_of (t_indexes (srv_db s)) device
     \<and> sorted_wrt (<) (List.map de_path (ds_entries st))
     \<and> (\<forall>e \<in> set (ds_entries st). \<exists>v \<in> set (t_versions (srv_db s)).
          v_device v = device \<and> v_path v = de_path e \<and> v_version v = int (de_version e)
          \<and> (\<exists>r. find_row (srv_db s) device (de_delivery_id e) = Some r \<and> v_delivery v = de_delivery_id e
               \<and> r_sha r = de_sha256 e \<and> (de_acknowledged e \<longleftrightarrow> r_acked r \<noteq> None)))
     \<and> (\<forall>v \<in> set (t_versions (srv_db s)). v_device v = device
          \<longrightarrow> (\<exists>e \<in> set (ds_entries st). de_path e = v_path v \<and> v_version v \<le> int (de_version e)))"
proof -
  note d = directory_state_entries [OF assms(1)]
  have v: "0 < v_version v \<and> find_row (srv_db s) (v_device v) (v_delivery v) \<noteq> None"
    if "v \<in> set (t_versions (srv_db s))" for v
    using assms(2) that by (auto simp: versions_ok_def list_all_iff)
  have sorted: "sorted_wrt (<) (List.map de_path (ds_entries st))"
    using d(4) by (simp add: strict_sorted_iff d(3)) (simp add: latest_entries_def)
  have newest: "\<exists>e \<in> set (ds_entries st). de_path e = v_path v \<and> v_version v \<le> int (de_version e)"
    if vs: "v \<in> set (t_versions (srv_db s))" "v_device v = device" for v
  proof -
    obtain w where w: "w \<in> set (t_versions (srv_db s))" "v_device w = device" "v_path w = v_path v"
      "v_version v \<le> v_version w" "\<not> superseded (srv_db s) w"
      using newest_version [OF vs(1)] vs(2) by blast
    obtain e where "row_entry (srv_db s) w = Some e" using v [OF w(1)] by (auto simp: row_entry_Some)
    then have "e \<in> set (ds_entries st)" "de_path e = v_path v" "int (de_version e) = v_version w"
      using w v [OF w(1)] by (auto simp: d(3) latest_entries_set row_entry_fields)
    with w(4) show ?thesis by auto
  qed
  have "\<exists>v \<in> set (t_versions (srv_db s)).
          v_device v = device \<and> v_path v = de_path e \<and> v_version v = int (de_version e)
          \<and> (\<exists>r. find_row (srv_db s) device (de_delivery_id e) = Some r \<and> v_delivery v = de_delivery_id e
               \<and> r_sha r = de_sha256 e \<and> (de_acknowledged e \<longleftrightarrow> r_acked r \<noteq> None))"
    if e: "e \<in> set (ds_entries st)" for e
  proof -
    from e obtain w r where w: "w \<in> set (t_versions (srv_db s))" "v_device w = device"
      "find_row (srv_db s) device (v_delivery w) = Some r" "row_entry (srv_db s) w = Some e"
      by (auto simp: d(3) latest_entries_set row_entry_Some)
    then have "r_id r = v_delivery w" by (auto simp: find_row_Some)
    with w v [OF w(1)] show ?thesis
      by (intro bexI [of _ w]) (auto simp: row_entry_Some i64_as_u64_def)
  qed
  with d sorted newest show ?thesis by blast
qed

lemma versions_server_ok: "versions_ok (srv_db versions_server)"
  by (simp add: versions_ok_def find_row_def version_key_def path_below_def)

definition sample_entry :: directory_entry where
  "sample_entry = \<lparr>de_path = ''docs/a.png'', de_version = 3, de_delivery_id = sample_id (CHR ''2''),
        de_sha256 = sample_sha, de_size = 12, de_media_type = ''image/png'', de_acknowledged = False,
        de_conflict = False\<rparr>"

lemma sample_entry_valid: "is_ok (validate_entries [sample_entry] [])"
proof -
  have "last_part slash ''docs/a.png'' = ''a.png''" by (simp add: last_part_def)
  then show ?thesis
    unfolding validate_entries_ok
    by (simp add: sample_entry_def valid_metadata_iff entry_delivery_def DIR_MAX_FILE_def i64_max_def
        is_ascii_alphanumeric_def is_ascii_digit_def)
qed

theorem directory_state_newest_witness:
  "\<exists>st. directory_state_of sample_env sample_folder versions_server = (Inr st, versions_server)
     \<and> List.map de_path (ds_entries st) = [''docs/a.png'']"
proof -
  let ?st = "\<lparr>ds_schema_version = DIR_VERSION, ds_receiver = None, ds_entries = [sample_entry]\<rparr>"
  have "latest_entries (srv_db versions_server) sample_folder = [sample_entry]"
    by (simp add: latest_entries_def superseded_def row_entry_def find_row_def map_filter_def
        i64_as_u64_def sample_entry_def)
  moreover have "is_ok (validate_directory_state sample_ext ?st)"
    using sample_entry_valid by (simp add: validate_directory_state_def is_ok_andthen MAX_ENTRIES_def)
  ultimately have st: "directory_state_of sample_env sample_folder versions_server = (Inr ?st, versions_server)"
    by (auto simp: directory_state_of_def op_ok open_connection_eq Let_def unit_res_Inr)
  have "de_path sample_entry = ''docs/a.png''" by (simp add: sample_entry_def)
  with directory_state_newest [OF st versions_server_ok] st show ?thesis by (intro exI [of _ ?st]) simp
qed

end
