(* ===== verification/FolderExit.thy ===== *)
theory FolderExit
  imports ServerDirectory
begin

text \<open>
  The retirement of a Folder, \<open>src/server/exit.rs\<close> with \<open>purge_folder_uploads_locked\<close> of
  \<open>src/server/tus_store.rs\<close>: revocation first, in a transaction of its own, then the removal of
  the Folder's uploads, contents and rows, resumable after a failure at any point.
\<close>

section \<open>Removing uploads\<close>

definition remove_regular_part :: "string \<Rightarrow> (server, unit) op" where
  "remove_regular_part i s =
     (case map_of (srv_parts s) i of
        None \<Rightarrow> (Inr (), s)
      | Some (File _) \<Rightarrow> (Inr (), s\<lparr>srv_parts := AList.delete i (srv_parts s)\<rparr>)
      | Some _ \<Rightarrow> (Inl (Bail ''Refusing non-regular cleanup target''), s))"

definition check_owned_part :: "store_env \<Rightarrow> string \<Rightarrow> (server, unit) op" where
  "check_owned_part E i =
     bindo (read_upload_record E i) (\<lambda>r.
     lifto (ensure (r \<noteq> None)
       ''Unowned legacy upload fragment requires administrator review before cleanup''))"

definition purge_upload :: "store_env \<Rightarrow> string \<Rightarrow> string \<Rightarrow> (server, unit) op" where
  "purge_upload E device i =
     bindo (read_upload_record E i) (\<lambda>found.
       (case found of
          None \<Rightarrow> retn ()
        | Some r \<Rightarrow>
            if u_device_id r \<noteq> device then retn ()
            else bindo (remove_regular_part i) (\<lambda>_. remove_record_file i)))"

definition purge_folder_uploads_locked :: "store_env \<Rightarrow> string \<Rightarrow> (server, unit) op" where
  "purge_folder_uploads_locked E device =
     bindo (readso (\<lambda>s. Inr (List.map fst (srv_parts s)))) (\<lambda>parts.
     bindo (for_each (check_owned_part E) parts) (\<lambda>_.
     bindo (readso (\<lambda>s. Inr (List.map fst (srv_records s)))) (\<lambda>records.
     for_each (purge_upload E device) records)))"

section \<open>Revocation\<close>

definition find_folder :: "database \<Rightarrow> string \<Rightarrow> folder_row option" where
  "find_folder d fid = List.find (\<lambda>f. f_id f = fid) (t_folders d)"

definition update_folder :: "string \<Rightarrow> (folder_row \<Rightarrow> folder_row) \<Rightarrow> database \<Rightarrow> database" where
  "update_folder fid g d =
     d\<lparr>t_folders := List.map (\<lambda>f. if f_id f = fid then g f else f) (t_folders d)\<rparr>"

definition revoke :: "folder_row \<Rightarrow> folder_row" where
  "revoke f = f\<lparr>f_disconnected := True, f_ready := False, f_expires := 0\<rparr>"

definition authorized :: "database \<Rightarrow> string \<Rightarrow> bytes \<Rightarrow> bool" where
  "authorized d fid hash =
     (case find_folder d fid of
        None \<Rightarrow> False
      | Some f \<Rightarrow> f_receiver_hash f = hash \<or> f_sender_hash f = Some hash)"

definition request_exit :: "string \<Rightarrow> database \<Rightarrow> database" where
  "request_exit fid d =
     (if exit_started d fid then d
      else
        (case find_folder d fid of
           None \<Rightarrow> d
         | Some f \<Rightarrow> d\<lparr>t_exits := t_exits d @
             [\<lparr>x_folder = fid, x_server = False, x_sender = (f_sender_hash f = None),
               x_receiver = False\<rparr>]\<rparr>))"

definition revoke_folder :: "string \<Rightarrow> bytes option \<Rightarrow> (server, bool) op" where
  "revoke_folder fid credential =
     bindo open_connection_unchecked (\<lambda>d.
       if (case credential of Some h \<Rightarrow> \<not> authorized d fid h | None \<Rightarrow> False) then retn False
       else
         bindo (lifto (ensure (credential \<noteq> None \<or> exit_started d fid)
             ''Only a previously requested exit may be resumed internally'')) (\<lambda>_.
         bindo (lifto (ensure (find_folder d fid \<noteq> None) ''Folder no longer exists'')) (\<lambda>_.
         bindo (modifyo (on_db (\<lambda>d. request_exit fid (update_folder fid revoke d)))) (\<lambda>_.
         retn True))))"

section \<open>Removing contents and rows\<close>

definition folder_objects :: "database \<Rightarrow> string \<Rightarrow> (string \<times> string) list" where
  "folder_objects d device =
     remdups (List.map (\<lambda>r. (r_sha r, r_media r))
       (List.filter (\<lambda>r. r_device r = device) (t_deliveries d)))"

definition shared_object :: "database \<Rightarrow> string \<Rightarrow> string \<Rightarrow> bool" where
  "shared_object d device sha =
     (\<exists>r \<in> set (t_deliveries d). r_sha r = sha \<and> r_device r \<noteq> device \<and> r_acked r = None)"

definition remove_regular_object :: "string \<Rightarrow> string \<Rightarrow> (dir, unit) op" where
  "remove_regular_object shard name root =
     (case map_of root shard of
        None \<Rightarrow> (Inr (), root)
      | Some (Dir es) \<Rightarrow>
          (case map_of es name of
             None \<Rightarrow> (Inr (), root)
           | Some (File _) \<Rightarrow> (Inr (), del_obj shard name root)
           | Some _ \<Rightarrow> (Inl (Bail ''Refusing non-regular cleanup target''), root))
      | Some _ \<Rightarrow> (Inl (Bail ''Refusing non-directory content shard''), root))"

definition remove_folder_object :: "database \<Rightarrow> string \<Rightarrow> string \<times> string \<Rightarrow> (server, unit) op" where
  "remove_folder_object d device sm =
     (case sm of (sha, media) \<Rightarrow>
       bindo (lifto (validate_sha256 sha)) (\<lambda>_.
       if shared_object d device sha then retn ()
       else
         bindo (lifto (of_option ''Invalid stored content type'' (extension_for_media_type media)))
           (\<lambda>x. on_content (remove_regular_object (take 2 sha) (object_name sha x)))))"

definition retire_rows :: "string \<Rightarrow> database \<Rightarrow> database" where
  "retire_rows fid d =
     (let device = folder_device fid;
          d' = d\<lparr>t_versions := List.filter (\<lambda>v. v_device v \<noteq> device) (t_versions d),
            t_indexes := AList.delete device (t_indexes d),
            t_deliveries := List.filter (\<lambda>r. r_device r \<noteq> device) (t_deliveries d),
            t_exits := List.map (\<lambda>x. if x_folder x = fid then x\<lparr>x_server := True\<rparr> else x) (t_exits d)\<rparr>
      in update_folder fid (\<lambda>f. f\<lparr>f_name := ''Retired Folder'',
           f_invite_hash := replicate 32 (CHR 0x00)\<rparr>) d')"

definition retire_step :: "string \<Rightarrow> (server, unit) op" where
  "retire_step fid =
     bindo open_connection_unchecked (\<lambda>d.
     bindo (for_each (remove_folder_object d (folder_device fid))
         (folder_objects d (folder_device fid))) (\<lambda>_.
     modifyo (on_db (retire_rows fid))))"

definition clean_exit :: "store_env \<Rightarrow> string \<Rightarrow> bytes option \<Rightarrow> (server, bool) op" where
  "clean_exit E fid credential =
     bindo (transaction (revoke_folder fid credential)) (\<lambda>ok.
       if \<not> ok then retn False
       else
         bindo lock_uploads (\<lambda>_.
         bindo lock_content (\<lambda>_.
         bindo (purge_folder_uploads_locked E (folder_device fid)) (\<lambda>_.
         bindo (transaction (retire_step fid)) (\<lambda>_.
         retn True)))))"

section \<open>Status and resumption\<close>

definition find_exit :: "database \<Rightarrow> string \<Rightarrow> exit_row option" where
  "find_exit d fid = List.find (\<lambda>x. x_folder x = fid) (t_exits d)"

definition exit_status :: "string \<Rightarrow> string \<Rightarrow> (server, folder_exit_status) op" where
  "exit_status fid role =
     bindo open_connection_unchecked (\<lambda>d.
       let row = find_exit d fid in
       retn \<lparr>fx_schema_version = PROTOCOL_VERSION, fx_folder_id = fid, fx_role = role,
         fx_requested = (row \<noteq> None),
         fx_server_cleaned = (case row of None \<Rightarrow> False | Some x \<Rightarrow> x_server x),
         fx_sender_cleaned = (case row of None \<Rightarrow> False | Some x \<Rightarrow> x_sender x),
         fx_receiver_cleaned = (case row of None \<Rightarrow> False | Some x \<Rightarrow> x_receiver x)\<rparr>)"

text \<open>A failing exit is reported and left for the next attempt.\<close>

definition resume_exits :: "store_env \<Rightarrow> (server, unit) op" where
  "resume_exits E =
     bindo open_connection_unchecked (\<lambda>d.
       for_each (\<lambda>fid s. (Inr (), snd (clean_exit E fid None s)))
         (List.map x_folder (List.filter (\<lambda>x. \<not> x_server x) (t_exits d))))"

section \<open>An exit keeps the tables in order\<close>

lemma hoare_any: "hoare P m (\<lambda>_. Q) Q \<Longrightarrow> P s \<Longrightarrow> m s = (r, t) \<Longrightarrow> Q t"
  by (cases r) (auto dest: hoare_ok hoare_err)

lemma update_folder_fields [simp]:
  "t_deliveries (update_folder fid g d) = t_deliveries d" "t_versions (update_folder fid g d) = t_versions d"
  "t_sequence (update_folder fid g d) = t_sequence d" "t_indexes (update_folder fid g d) = t_indexes d"
  "t_exits (update_folder fid g d) = t_exits d" "t_user_version (update_folder fid g d) = t_user_version d"
  by (simp_all add: update_folder_def)

lemma request_exit_fields [simp]:
  "t_deliveries (request_exit fid d) = t_deliveries d" "t_versions (request_exit fid d) = t_versions d"
  "t_sequence (request_exit fid d) = t_sequence d" "t_indexes (request_exit fid d) = t_indexes d"
  "t_folders (request_exit fid d) = t_folders d" "t_user_version (request_exit fid d) = t_user_version d"
  by (auto simp: request_exit_def split: option.split)

lemma find_folder_update:
  "find_folder (update_folder fid g d) i =
     (if i = fid then map_option g (find_folder d i) else find_folder d i)"
  if "\<And>f. f_id (g f) = f_id f"
proof -
  have "List.find (\<lambda>f. f_id f = i) (List.map (\<lambda>f. if f_id f = fid then g f else f) fs)
      = (if i = fid then map_option g (List.find (\<lambda>f. f_id f = i) fs) else List.find (\<lambda>f. f_id f = i) fs)" for fs
    using that by (induction fs) auto
  then show ?thesis by (simp add: find_folder_def update_folder_def)
qed

lemma revoke_id [simp]: "f_id (revoke f) = f_id f"
  by (simp add: revoke_def)

lemma exit_started_request:
  "exit_started (request_exit fid d) i \<longleftrightarrow> exit_started d i \<or> i = fid \<and> find_folder d fid \<noteq> None"
  by (auto simp: request_exit_def exit_started_def split: option.split)

lemma device_open_request: "device_open (request_exit fid d) x \<Longrightarrow> device_open d x"
  by (auto simp: device_open_iff exit_started_request)

lemma device_open_update_folder [simp]: "device_open (update_folder fid g d) x = device_open d x"
  by (rule device_open_cong) simp

lemma request_shrinks [simp]: "tables_shrink E d (request_exit fid (update_folder fid revoke d))"
  by (auto simp: tables_shrink_def rows_ok_def must_keep_def dest: device_open_request)

lemma versions_request [simp]:
  "versions_ok (request_exit fid (update_folder fid revoke d)) = versions_ok d"
  by (simp add: versions_ok_def find_row_def)

lemma revoke_folder_Inr:
  "revoke_folder fid credential s = (Inr ok, t) \<longleftrightarrow>
     (if ok then find_folder (srv_db s) fid \<noteq> None
        \<and> (case credential of Some h \<Rightarrow> authorized (srv_db s) fid h | None \<Rightarrow> exit_started (srv_db s) fid)
        \<and> t = on_db (\<lambda>d. request_exit fid (update_folder fid revoke d)) s
      else (\<exists>h. credential = Some h \<and> \<not> authorized (srv_db s) fid h) \<and> t = s)"
  by (auto simp: revoke_folder_def op_ok open_connection_eq split: option.splits if_splits)

lemma revoke_folder_Inl: "revoke_folder fid credential s = (Inl e, t) \<Longrightarrow> t = s"
  by (auto simp: revoke_folder_def open_connection_eq bindo_lifto op_defs split: if_splits sum.splits)

lemma pres_revoke:
  "pres (store_ok E) (transaction (revoke_folder fid credential))"
  "pres versions_good (transaction (revoke_folder fid credential))"
  unfolding revoke_folder_def
  by (intro pres_intros pres_transaction_content pres_versions_transaction pres_versions_tables; simp)+

lemma remove_regular_other:
  "remove_regular_object shard name c = (r, c') \<Longrightarrow> (a, n) \<noteq> (shard, name) \<Longrightarrow> obj_at c' a n = obj_at c a n"
  by (auto simp: remove_regular_object_def obj_at_del split: option.splits node.splits)

text \<open>With the device closed, an object that no other device waits for may go.\<close>

lemma pres_remove_folder_object:
  assumes "\<not> device_open d device"
  shows "pres (\<lambda>s. store_ok E s \<and> srv_db s = d) (remove_folder_object d device sm)"
proof -
  obtain sha media where sm: "sm = (sha, media)" by fastforce
  let ?P = "\<lambda>s. store_ok E s \<and> srv_db s = d"
  have m: "pres ?P (on_content (remove_regular_object (take 2 sha) (object_name sha x)))"
    if v: "valid_sha256 sha" and n: "\<not> shared_object d device sha" for x
  proof -
    have h: "hoare ?P (on_content (remove_regular_object (take 2 sha) (object_name sha x)))
        (\<lambda>_. store_ok E) (store_ok E)"
      by (rule hoare_remove_object [OF v _ _ remove_regular_other])
        (use n assms in \<open>auto simp: must_keep_def shared_object_def\<close>)
    show ?thesis
      unfolding pres_iff
      by (intro allI impI conjI, rule hoare_any [OF h]) (auto simp: on_content_eq)
  qed
  have "pres ?P (if shared_object d device sha then retn () else
      bindo (lifto y) (\<lambda>x. on_content (remove_regular_object (take 2 sha) (object_name sha x))))"
    if v: "valid_sha256 sha" for y
  proof (cases "shared_object d device sha")
    case True
    then show ?thesis by (simp add: pres_atoms)
  next
    case False
    show ?thesis
      unfolding if_not_P [OF False] by (rule pres_bindo [OF pres_atoms(3)]) (rule m [OF v False])
  qed
  moreover have "pres ?P (bindo (lifto (validate_sha256 sha)) (\<lambda>_. m))" if "valid_sha256 sha \<Longrightarrow> pres ?P m" for m
  proof (cases "validate_sha256 sha")
    case (Inl e)
    then show ?thesis by (simp add: pres_def)
  next
    case (Inr u)
    have "bindo (lifto (validate_sha256 sha)) (\<lambda>_. m) = m" by (rule ext, subst Inr, simp)
    moreover have "valid_sha256 sha" using Inr by simp
    ultimately show ?thesis using that by simp
  qed
  ultimately show ?thesis
    unfolding sm remove_folder_object_def prod.case by blast
qed

lemma retire_rows_fields [simp]:
  "t_deliveries (retire_rows fid d) = List.filter (\<lambda>r. r_device r \<noteq> folder_device fid) (t_deliveries d)"
  "t_versions (retire_rows fid d) = List.filter (\<lambda>v. v_device v \<noteq> folder_device fid) (t_versions d)"
  "t_indexes (retire_rows fid d) = AList.delete (folder_device fid) (t_indexes d)"
  "t_sequence (retire_rows fid d) = t_sequence d"
  "t_exits (retire_rows fid d) = List.map (\<lambda>x. if x_folder x = fid then x\<lparr>x_server := True\<rparr> else x) (t_exits d)"
  "t_user_version (retire_rows fid d) = t_user_version d"
  by (simp_all add: retire_rows_def Let_def)

lemma exit_started_retire [simp]: "exit_started (retire_rows fid d) i = exit_started d i"
proof -
  have "(\<exists>x \<in> set (List.map (\<lambda>x. if x_folder x = fid then x\<lparr>x_server := True\<rparr> else x) xs). x_folder x = i)
      = (\<exists>x \<in> set xs. x_folder x = i)" for xs
    by (induction xs) auto
  then show ?thesis by (simp add: exit_started_def)
qed

lemma device_open_retire [simp]: "device_open (retire_rows fid d) x = device_open d x"
  by (simp add: device_open_iff)

lemma retire_shrinks [simp]: "tables_shrink E d (retire_rows fid d)"
  by (auto simp: tables_shrink_def rows_ok_def must_keep_def list_all_iff sorted_wrt_map
      distinct_map_filter intro: sorted_wrt_filter)

lemma find_filter: "(\<And>x. P x \<Longrightarrow> Q x) \<Longrightarrow> List.find P (List.filter Q xs) = List.find P xs"
  by (induction xs) auto

lemma find_row_retire:
  "device \<noteq> folder_device fid \<Longrightarrow> find_row (retire_rows fid d) device i = find_row d device i"
  unfolding find_row_def retire_rows_fields by (rule find_filter) auto

lemma versions_retire: "versions_ok d \<Longrightarrow> versions_ok (retire_rows fid d)"
  by (auto simp: versions_ok_def list_all_iff find_row_retire intro: distinct_map_filter)

section \<open>What an exit removes\<close>

definition owned_upload :: "string \<Rightarrow> server \<Rightarrow> string \<Rightarrow> bool" where
  "owned_upload device s i =
     (case map_of (srv_records s) i of Some (Parsed r) \<Rightarrow> u_device_id r = device | _ \<Rightarrow> False)"

lemma remove_regular_part_Inr:
  "remove_regular_part i s = (Inr u, t) \<Longrightarrow> srv_db t = srv_db s \<and> srv_content t = srv_content s
     \<and> srv_records t = srv_records s \<and> map_of (srv_parts t) = (map_of (srv_parts s))(i := None)"
  by (auto simp: remove_regular_part_def split: option.splits node.splits)

lemma purge_upload_Inr:
  assumes "purge_upload E device i s = (Inr u, t)"
  shows "srv_db t = srv_db s \<and> srv_content t = srv_content s
     \<and> (if owned_upload device s i
        then map_of (srv_records t) = (map_of (srv_records s))(i := None)
          \<and> map_of (srv_parts t) = (map_of (srv_parts s))(i := None)
        else srv_records t = srv_records s \<and> srv_parts t = srv_parts s)
     \<and> map_of (srv_records s) i \<noteq> Some Unreadable"
proof -
  obtain found b where f: "read_upload_record E i s = (Inr found, b)"
    "(case found of None \<Rightarrow> retn ()
        | Some r \<Rightarrow> if u_device_id r \<noteq> device then retn ()
            else bindo (remove_regular_part i) (\<lambda>_. remove_record_file i)) b = (Inr u, t)"
    using assms unfolding purge_upload_def bindo_ok by blast
  have b: "b = s" using f(1) by (simp add: read_upload_record_Inr)
  note f = f [unfolded b]
  show ?thesis
  proof (cases "map_of (srv_records s) i")
    case None
    with f show ?thesis by (simp add: read_upload_record_Inr owned_upload_def)
  next
    case (Some x)
    with f(1) obtain r where r: "x = Parsed r" "found = Some r"
      by (cases x) (auto simp: read_upload_record_Inr)
    with Some f(2) show ?thesis
      by (auto simp: owned_upload_def bindo_ok remove_record_file_def dest!: remove_regular_part_Inr
          split: if_splits)
  qed
qed

lemma purge_uploads_Inr:
  "for_each (purge_upload E device) is s = (Inr u, t) \<Longrightarrow>
     srv_db t = srv_db s \<and> srv_content t = srv_content s
     \<and> (\<forall>i. map_of (srv_records t) i =
          (if owned_upload device s i \<and> i \<in> set is then None else map_of (srv_records s) i))
     \<and> (\<forall>i. map_of (srv_parts t) i =
          (if owned_upload device s i \<and> i \<in> set is then None else map_of (srv_parts s) i))
     \<and> (\<forall>i \<in> set is. map_of (srv_records s) i \<noteq> Some Unreadable)"
proof (induction "is" arbitrary: s)
  case Nil
  then show ?case by simp
next
  case (Cons j js)
  then obtain a where a: "purge_upload E device j s = (Inr (), a)"
    "for_each (purge_upload E device) js a = (Inr u, t)" by (auto simp: bindo_ok)
  note p = purge_upload_Inr [OF a(1)] and h = Cons.IH [OF a(2)]
  have m: "map_of (srv_records a) i = (if owned_upload device s j \<and> i = j then None else map_of (srv_records s) i)"
    "map_of (srv_parts a) i = (if owned_upload device s j \<and> i = j then None else map_of (srv_parts s) i)" for i
    using p by (auto split: if_splits)
  have o: "owned_upload device a i \<longleftrightarrow> owned_upload device s i \<and> \<not> (owned_upload device s j \<and> i = j)" for i
    by (simp add: owned_upload_def m)
  show ?case using h p by (auto simp: m o split: if_splits)
qed

lemma check_owned_same: "check_owned_part E i s = (Inr u, t) \<Longrightarrow> t = s \<and> map_of (srv_records s) i \<noteq> None"
  by (auto simp: check_owned_part_def bindo_ok read_upload_record_Inr lifto_ok split: option.splits)

lemma check_parts_same:
  "for_each (check_owned_part E) is s = (Inr u, t) \<Longrightarrow> t = s \<and> (\<forall>i \<in> set is. map_of (srv_records s) i \<noteq> None)"
  by (induction "is" arbitrary: s) (auto simp: bindo_ok dest!: check_owned_same)

lemma purge_folder_Inr:
  assumes "purge_folder_uploads_locked E device s = (Inr u, t)"
  shows "srv_db t = srv_db s \<and> srv_content t = srv_content s
     \<and> (\<forall>i. map_of (srv_records t) i = (if owned_upload device s i then None else map_of (srv_records s) i))
     \<and> (\<forall>i. map_of (srv_parts t) i = (if owned_upload device s i then None else map_of (srv_parts s) i))
     \<and> (\<forall>i. map_of (srv_parts t) i \<noteq> None \<longrightarrow> map_of (srv_records t) i \<noteq> None)"
proof -
  obtain a where a: "for_each (check_owned_part E) (List.map fst (srv_parts s)) s = (Inr (), a)"
    "for_each (purge_upload E device) (List.map fst (srv_records a)) a = (Inr u, t)"
    using assms by (auto simp: purge_folder_uploads_locked_def bindo_ok readso_ok)
  note c = check_parts_same [OF a(1)]
  have as: "a = s" using c by simp
  note p = purge_uploads_Inr [OF a(2) [unfolded as]]
  have o: "owned_upload device s i \<Longrightarrow> i \<in> set (List.map fst (srv_records s))" for i
    by (auto simp: owned_upload_def image_iff split: option.splits dest!: map_of_SomeD) force
  have parts: "map_of (srv_parts s) i \<noteq> None \<Longrightarrow> map_of (srv_records s) i \<noteq> None" for i
    using c map_of_eq_None_iff [of "srv_parts s" i] by (auto simp del: map_of_eq_None_iff)
  show ?thesis using p o parts by auto
qed

definition object_path :: "string \<times> string \<Rightarrow> string \<times> string" where
  "object_path sm = (take 2 (fst sm), object_name (fst sm) (the (extension_for_media_type (snd sm))))"

lemma remove_regular_Inr:
  "remove_regular_object shard name c = (Inr u, c') \<Longrightarrow>
     obj_at c' a n = (if (a, n) = (shard, name) then None else obj_at c a n)"
  by (auto simp: remove_regular_object_def obj_at_del split: option.splits node.splits)
    (auto simp: obj_at_def child_def)

lemma remove_folder_object_Inr:
  assumes "remove_folder_object d device sm s = (Inr u, t)"
  shows "srv_db t = srv_db s \<and> srv_records t = srv_records s \<and> srv_parts t = srv_parts s
     \<and> obj_at (srv_content t) a n =
         (if \<not> shared_object d device (fst sm) \<and> (a, n) = object_path sm then None
          else obj_at (srv_content s) a n)"
  using assms
  by (cases sm) (auto simp: remove_folder_object_def bindo_ok lifto_ok on_content_eq object_path_def
      remove_regular_Inr split: if_splits)

lemma remove_objects_Inr:
  "for_each (remove_folder_object d device) sms s = (Inr u, t) \<Longrightarrow>
     srv_db t = srv_db s \<and> srv_records t = srv_records s \<and> srv_parts t = srv_parts s
     \<and> (\<forall>a n. obj_at (srv_content t) a n =
         (if \<exists>sm \<in> set sms. \<not> shared_object d device (fst sm) \<and> (a, n) = object_path sm then None
          else obj_at (srv_content s) a n))"
proof (induction sms arbitrary: s)
  case Nil
  then show ?case by simp
next
  case (Cons x xs)
  then obtain b where b: "remove_folder_object d device x s = (Inr (), b)"
    "for_each (remove_folder_object d device) xs b = (Inr u, t)" by (auto simp: bindo_ok)
  note p = remove_folder_object_Inr [OF b(1)]
  show ?case using Cons.IH [OF b(2)] p by auto
qed

lemma folder_objects_set:
  "set (folder_objects d device) = {(r_sha r, r_media r) | r. r \<in> set (t_deliveries d) \<and> r_device r = device}"
  by (auto simp: folder_objects_def)

section \<open>The whole exit\<close>

lemma exit_steps:
  assumes "clean_exit E fid credential s = (Inr True, t)"
  obtains a b c e where
    "revoke_folder fid credential s = (Inr True, a)" "srv_db b = srv_db a"
    "\<forall>x n. obj_at (srv_content b) x n = obj_at (srv_content a) x n"
    "srv_records b = srv_records a" "srv_parts b = srv_parts a"
    "purge_folder_uploads_locked E (folder_device fid) b = (Inr (), c)"
    "for_each (remove_folder_object (srv_db c) (folder_device fid))
       (folder_objects (srv_db c) (folder_device fid)) c = (Inr (), e)"
    "t = on_db (retire_rows fid) e"
proof -
  obtain a l b c where r: "revoke_folder fid credential s = (Inr True, a)"
    "lock_uploads a = (Inr (), l)" "lock_content l = (Inr (), b)"
    "purge_folder_uploads_locked E (folder_device fid) b = (Inr (), c)"
    "retire_step fid c = (Inr (), t)"
    using assms unfolding clean_exit_def
    by (auto simp: bindo_ok transaction_ok split: if_splits)
  from r(5) obtain e where "for_each (remove_folder_object (srv_db c) (folder_device fid))
       (folder_objects (srv_db c) (folder_device fid)) c = (Inr (), e)" "t = on_db (retire_rows fid) e"
    by (auto simp: retire_step_def open_connection_eq bindo_ok)
  with r(1,4) lock_uploads_same [OF r(2)] lock_content_db [OF r(3)] that show thesis by auto
qed

lemma clean_exit_intro:
  assumes "revoke_folder fid credential s = (Inr True, a)" "lock_uploads a = (Inr (), l)"
    "lock_content l = (Inr (), b)" "purge_folder_uploads_locked E (folder_device fid) b = (Inr (), c)"
    "for_each (remove_folder_object (srv_db c) (folder_device fid))
       (folder_objects (srv_db c) (folder_device fid)) c = (Inr (), e)"
  shows "clean_exit E fid credential s = (Inr True, on_db (retire_rows fid) e)"
proof -
  have "transaction (revoke_folder fid credential) s = (Inr True, a)"
    using assms(1) by (simp add: transaction_ok)
  moreover have "transaction (retire_step fid) c = (Inr (), on_db (retire_rows fid) e)"
    using assms(5) by (simp add: transaction_ok retire_step_def open_connection_eq bindo_Inr op_defs)
  ultimately show ?thesis
    using assms(2-4) by (simp add: clean_exit_def bindo_Inr op_defs)
qed

lemma shared_cong:
  "t_deliveries d' = t_deliveries d \<Longrightarrow> shared_object d' device sha = shared_object d device sha"
  by (simp add: shared_object_def)

lemma objects_cong: "t_deliveries d' = t_deliveries d \<Longrightarrow> folder_objects d' device = folder_objects d device"
  by (simp add: folder_objects_def)

lemma find_folder_revoked:
  "find_folder (request_exit fid (update_folder fid revoke d)) i =
     (if i = fid then map_option revoke (find_folder d i) else find_folder d i)"
  using find_folder_update [of revoke fid d i] by (simp add: find_folder_def)

lemma find_folder_retired:
  "find_folder (retire_rows fid d) i =
     (if i = fid then map_option (\<lambda>f. f\<lparr>f_name := ''Retired Folder'',
        f_invite_hash := replicate 32 (CHR 0x00)\<rparr>) (find_folder d i) else find_folder d i)"
proof -
  let ?g = "\<lambda>f. f\<lparr>f_name := ''Retired Folder'', f_invite_hash := replicate 32 (CHR 0x00)\<rparr>"
  have "find_folder (update_folder fid ?g d') i =
      (if i = fid then map_option ?g (find_folder d' i) else find_folder d' i)" for d'
    by (rule find_folder_update) simp
  then show ?thesis by (simp add: retire_rows_def Let_def find_folder_def)
qed

lemma pres_db_purge:
  assumes P: "\<And>u v. P u \<Longrightarrow> srv_db v = srv_db u \<Longrightarrow> P v"
  shows "pres P (purge_folder_uploads_locked E device)"
proof -
  have f: "pres P (read_upload_record E i)" "pres P (remove_record_file i)" "pres P (remove_regular_part i)"
    "pres P (modifyo g)" if "\<And>u. srv_db (g u) = srv_db u" for i g
    using P that
    by (auto simp: read_upload_record_def remove_record_file_def pres_intros pres_modifyo
        intro!: pres_intros pres_modifyo split: option.split record_file.split)
      (auto simp: pres_def remove_regular_part_def split: option.split node.split)
  show ?thesis
    unfolding purge_folder_uploads_locked_def check_owned_part_def purge_upload_def
    by (intro pres_intros f) simp_all
qed

lemma exit_effect:
  assumes x: "clean_exit E fid credential s = (Inr True, t)"
  shows "(case credential of None \<Rightarrow> exit_started (srv_db s) fid | Some h \<Rightarrow> authorized (srv_db s) fid h)
     \<and> exit_started (srv_db t) fid
     \<and> (\<exists>f. find_folder (srv_db t) fid = Some f \<and> f_disconnected f \<and> \<not> f_ready f)
     \<and> t_deliveries (srv_db t) = List.filter (\<lambda>r. r_device r \<noteq> folder_device fid) (t_deliveries (srv_db s))
     \<and> t_versions (srv_db t) = List.filter (\<lambda>v. v_device v \<noteq> folder_device fid) (t_versions (srv_db s))
     \<and> map_of (t_indexes (srv_db t)) = (map_of (t_indexes (srv_db s)))(folder_device fid := None)
     \<and> (\<forall>i. map_of (srv_records t) i =
          (if owned_upload (folder_device fid) s i then None else map_of (srv_records s) i)
        \<and> map_of (srv_parts t) i =
          (if owned_upload (folder_device fid) s i then None else map_of (srv_parts s) i))
     \<and> (\<forall>a n. obj_at (srv_content t) a n =
          (if \<exists>r \<in> set (t_deliveries (srv_db s)). r_device r = folder_device fid
                \<and> \<not> shared_object (srv_db s) (folder_device fid) (r_sha r) \<and> (a, n) = row_path r
           then None else obj_at (srv_content s) a n))"
proof -
  let ?dev = "folder_device fid"
  from exit_steps [OF x] obtain a b c e where st:
    "revoke_folder fid credential s = (Inr True, a)" "srv_db b = srv_db a"
    "\<forall>x n. obj_at (srv_content b) x n = obj_at (srv_content a) x n"
    "srv_records b = srv_records a" "srv_parts b = srv_parts a"
    "purge_folder_uploads_locked E ?dev b = (Inr (), c)"
    "for_each (remove_folder_object (srv_db c) ?dev) (folder_objects (srv_db c) ?dev) c = (Inr (), e)"
    "t = on_db (retire_rows fid) e" by blast
  have r: "find_folder (srv_db s) fid \<noteq> None"
    "case credential of Some h \<Rightarrow> authorized (srv_db s) fid h | None \<Rightarrow> exit_started (srv_db s) fid"
    "a = on_db (\<lambda>d. request_exit fid (update_folder fid revoke d)) s"
    using st(1) by (simp_all add: revoke_folder_Inr)
  note p = purge_folder_Inr [OF st(6)] and o = remove_objects_Inr [OF st(7)]
  have db: "srv_db c = request_exit fid (update_folder fid revoke (srv_db s))"
    "srv_db t = retire_rows fid (srv_db c)"
    using p o st(2,8) r(3) by auto
  have ow: "owned_upload ?dev b = owned_upload ?dev s"
    using st(4) r(3) by (simp add: owned_upload_def fun_eq_iff)
  have files: "map_of (srv_records t) i = (if owned_upload ?dev s i then None else map_of (srv_records s) i)"
    "map_of (srv_parts t) i = (if owned_upload ?dev s i then None else map_of (srv_parts s) i)" for i
    using p o st(4,5,8) r(3) ow by auto
  have sh: "shared_object (srv_db c) ?dev = shared_object (srv_db s) ?dev"
    by (rule ext, rule shared_cong) (simp add: db(1))
  have ob: "folder_objects (srv_db c) ?dev = folder_objects (srv_db s) ?dev"
    by (rule objects_cong) (simp add: db(1))
  have content: "obj_at (srv_content t) x n = (if \<exists>sm \<in> set (folder_objects (srv_db s) ?dev).
      \<not> shared_object (srv_db s) ?dev (fst sm) \<and> (x, n) = object_path sm then None
      else obj_at (srv_content s) x n)" for x n
    using o [unfolded sh ob] p st(3,8) r(3) by auto
  have same: "(\<exists>sm \<in> set (folder_objects (srv_db s) ?dev).
      \<not> shared_object (srv_db s) ?dev (fst sm) \<and> (x, n) = object_path sm)
    \<longleftrightarrow> (\<exists>r \<in> set (t_deliveries (srv_db s)). r_device r = ?dev
      \<and> \<not> shared_object (srv_db s) ?dev (r_sha r) \<and> (x, n) = row_path r)" for x n
    by (auto simp: folder_objects_set object_path_def row_path_def)
  have folder: "\<exists>f. find_folder (srv_db t) fid = Some f \<and> f_disconnected f \<and> \<not> f_ready f"
    using r(1) by (auto simp: db find_folder_retired find_folder_revoked revoke_def)
  have started: "exit_started (srv_db t) fid"
    using r(1) by (simp add: db exit_started_request find_folder_update)
  show ?thesis
    using r(2) folder started files content unfolding same by (auto simp: db split: option.splits)
qed

text \<open>
  C27. A completed exit was asked for by a device of the Folder, or had been asked for before.
  It removes every delivery, directory version, inventory and upload of the Folder, and the
  contents of its deliveries that no other device still waits for. Nothing else goes: the rows,
  the uploads and every other content object are as before. The Folder can no longer transfer.
\<close>

theorem exit_removes_everything:
  assumes x: "clean_exit E fid credential s = (Inr True, t)"
  shows "(case credential of None \<Rightarrow> exit_started (srv_db s) fid | Some h \<Rightarrow> authorized (srv_db s) fid h)
     \<and> exit_started (srv_db t) fid
     \<and> (\<exists>f. find_folder (srv_db t) fid = Some f \<and> f_disconnected f \<and> \<not> f_ready f)
     \<and> t_deliveries (srv_db t) = List.filter (\<lambda>r. r_device r \<noteq> folder_device fid) (t_deliveries (srv_db s))
     \<and> t_versions (srv_db t) = List.filter (\<lambda>v. v_device v \<noteq> folder_device fid) (t_versions (srv_db s))
     \<and> map_of (t_indexes (srv_db t)) = (map_of (t_indexes (srv_db s)))(folder_device fid := None)
     \<and> (\<forall>i. map_of (srv_records t) i =
          (if owned_upload (folder_device fid) s i then None else map_of (srv_records s) i)
        \<and> map_of (srv_parts t) i =
          (if owned_upload (folder_device fid) s i then None else map_of (srv_parts s) i))
     \<and> (\<forall>a n. obj_at (srv_content t) a n =
          (if \<exists>r \<in> set (t_deliveries (srv_db s)). r_device r = folder_device fid
                \<and> \<not> shared_object (srv_db s) (folder_device fid) (r_sha r) \<and> (a, n) = row_path r
           then None else obj_at (srv_content s) a n))"
  using x by (rule exit_effect)

definition sample_token :: "char \<Rightarrow> string" where
  "sample_token c = replicate 64 c"

definition sample_hash :: "char \<Rightarrow> bytes" where
  "sample_hash c = sha256 sample_ext (''Bearer '' @ sample_token c)"

definition sample_folder_row :: folder_row where
  "sample_folder_row = \<lparr>f_id = sample_id (CHR ''f''), f_name = ''Phone'', f_receiver_hash = sample_hash (CHR ''a''),
     f_sender_hash = Some (sample_hash (CHR ''b'')), f_invite_hash = sample_hash (CHR ''c''), f_expires = 700,
     f_ready = True, f_disconnected = False\<rparr>"

text \<open>The Folder of two versions, paired and ready.\<close>

definition paired_server :: server where
  "paired_server = versions_server\<lparr>srv_db := (srv_db versions_server)\<lparr>t_folders := [sample_folder_row]\<rparr>\<rparr>"

lemma sample_hash_eq [simp]: "sample_hash a = sample_hash b \<longleftrightarrow> a = b"
  by (simp add: sample_hash_def sample_ext_def sample_token_def)

lemma sample_folder_row_fields [simp]:
  "f_id sample_folder_row = sample_id (CHR ''f'')" "f_name sample_folder_row = ''Phone''"
  "f_receiver_hash sample_folder_row = sample_hash (CHR ''a'')"
  "f_sender_hash sample_folder_row = Some (sample_hash (CHR ''b''))"
  "f_invite_hash sample_folder_row = sample_hash (CHR ''c'')" "f_expires sample_folder_row = 700"
  "f_ready sample_folder_row" "\<not> f_disconnected sample_folder_row"
  by (simp_all add: sample_folder_row_def)

lemma paired_server_fields [simp]:
  "t_deliveries (srv_db paired_server) =
     [folder_row_of 1 (CHR ''1'') None, folder_row_of 2 (CHR ''2'') None]"
  "t_versions (srv_db paired_server) = [folder_version (CHR ''1'') 2, folder_version (CHR ''2'') 3]"
  "t_exits (srv_db paired_server) = []" "t_indexes (srv_db paired_server) = []"
  "t_folders (srv_db paired_server) = [sample_folder_row]"
  "t_user_version (srv_db paired_server) = SERVER_SCHEMA_VERSION"
  "srv_content paired_server = [(''89'', Dir [(object_name sample_sha ''png'', File sample_png)])]"
  "srv_records paired_server = []" "srv_parts paired_server = []" "srv_uploads_other paired_server = []"
  by (simp_all add: paired_server_def) (simp_all add: versions_server_def)

theorem exit_removes_everything_witness:
  "\<exists>t. clean_exit sample_env (sample_id (CHR ''f'')) (Some (sample_hash (CHR ''b''))) paired_server
       = (Inr True, t)
     \<and> t_deliveries (srv_db t) = [] \<and> t_versions (srv_db t) = []
     \<and> obj_at (srv_content t) ''89'' (object_name sample_sha ''png'') = None"
proof -
  let ?f = "sample_id (CHR ''f'')"
  let ?h = "Some (sample_hash (CHR ''b''))"
  let ?a = "on_db (\<lambda>d. request_exit ?f (update_folder ?f revoke d)) paired_server"
  let ?l = "?a\<lparr>srv_uploads_other := [(LIBRARY_LOCK_FILE, File [])]\<rparr>"
  let ?b = "?l\<lparr>srv_content := srv_content paired_server @ [(LIBRARY_LOCK_FILE, File [])]\<rparr>"
  have dev: "folder_device ?f = sample_folder" by (simp add: sample_folder_def)
  have f: "find_folder (srv_db paired_server) ?f = Some sample_folder_row" by (simp add: find_folder_def)
  have 1: "revoke_folder ?f ?h paired_server = (Inr True, ?a)"
    by (simp add: revoke_folder_Inr f authorized_def)
  have 2: "lock_uploads ?a = (Inr (), ?l)" by (simp add: lock_uploads_def lock_library_def)
  have 3: "lock_content ?l = (Inr (), ?b)"
    by (simp add: lock_content_def on_content_eq lock_library_def)
  have 4: "purge_folder_uploads_locked sample_env (folder_device ?f) ?b = (Inr (), ?b)"
    by (simp add: purge_folder_uploads_locked_def bindo_ok readso_ok)
  have "folder_objects (srv_db ?b) (folder_device ?f) = [(sample_sha, ''image/png'')]"
    by (simp add: folder_objects_def dev)
  then have "\<exists>e. for_each (remove_folder_object (srv_db ?b) (folder_device ?f))
      (folder_objects (srv_db ?b) (folder_device ?f)) ?b = (Inr (), e)"
    by (simp add: bindo_ok remove_folder_object_def lifto_ok shared_object_def dev on_content_eq
        remove_regular_object_def sample_shard)
  then obtain e where 5: "for_each (remove_folder_object (srv_db ?b) (folder_device ?f))
      (folder_objects (srv_db ?b) (folder_device ?f)) ?b = (Inr (), e)" by blast
  obtain t where t: "clean_exit sample_env ?f ?h paired_server = (Inr True, t)"
    using clean_exit_intro [OF 1 2 3 4 5] by blast
  have "\<not> shared_object (srv_db paired_server) sample_folder sample_sha" by (simp add: shared_object_def)
  with exit_removes_everything [OF t] t show ?thesis
    by (auto simp: row_path_def sample_shard sample_folder_def [symmetric])
qed

section \<open>Exits keep the invariants\<close>

lemma pres_purge_store [pres_intros]:
  "pres (store_ok E) (purge_folder_uploads_locked E' device)"
  "pres versions_good (purge_folder_uploads_locked E' device)"
proof -
  have r: "pres (store_ok E) (remove_regular_part i)" for i
    by (auto simp: pres_def remove_regular_part_def store_ok_def content_safe_def split: option.split node.split)
  show "pres (store_ok E) (purge_folder_uploads_locked E' device)"
    unfolding purge_folder_uploads_locked_def check_owned_part_def purge_upload_def
    by (intro pres_intros r)
  show "pres versions_good (purge_folder_uploads_locked E' device)"
    by (rule pres_db_purge) simp
qed

lemma hoare_clean_exit:
  assumes a: "pres P (transaction (revoke_folder fid credential))"
    and l: "pres P lock_uploads" "pres P lock_content"
    and p: "pres P (purge_folder_uploads_locked E (folder_device fid))"
    and t: "\<And>s. P s \<Longrightarrow> \<not> device_open (srv_db s) (folder_device fid) \<Longrightarrow> P (snd (transaction (retire_step fid) s))"
  shows "pres P (clean_exit E fid credential)"
proof -
  let ?J = "\<lambda>u. P u \<and> \<not> device_open (srv_db u) (folder_device fid)"
  have a': "hoare P (transaction (revoke_folder fid credential)) (\<lambda>ok u. P u \<and> (ok \<longrightarrow> ?J u)) P"
  proof (rule hoareI)
    fix s ok u assume s: "P s" and m: "transaction (revoke_folder fid credential) s = (Inr ok, u)"
    have "revoke_folder fid credential s = (Inr ok, u)" using m by (simp add: transaction_ok)
    then have "ok \<longrightarrow> \<not> device_open (srv_db u) (folder_device fid)"
      by (auto simp: revoke_folder_Inr exit_started_request find_folder_update split: if_splits)
    with presD2 [OF a s m] show "P u \<and> (ok \<longrightarrow> ?J u)" by simp
  next
    fix s e u assume "P s" "transaction (revoke_folder fid credential) s = (Inl e, u)"
    then show "P u" by (rule presD2 [OF a])
  qed
  have J: "hoare ?J m (\<lambda>_. ?J) P" if "pres P m" "\<And>c. pres (\<lambda>u. srv_db u = c) m" for m :: "(server, unit) op"
  proof (rule hoareI)
    fix s x t assume s: "?J s" "m s = (Inr x, t)"
    then show "?J t" using presD2 [OF that(1) _ s(2)] presD2 [OF that(2) _ s(2), of "srv_db s"] by simp
  next
    fix s e t assume "?J s" "m s = (Inl e, t)"
    then show "P t" using presD2 [OF that(1)] by blast
  qed
  have d: "pres (\<lambda>u. srv_db u = c) lock_uploads" "pres (\<lambda>u. srv_db u = c) lock_content"
    "pres (\<lambda>u. srv_db u = c) (purge_folder_uploads_locked E (folder_device fid))" for c
    by (auto simp: pres_iff dest: lock_uploads_same lock_content_db) (auto intro: presD2 [OF pres_db_purge])
  have re: "hoare ?J (transaction (retire_step fid)) (\<lambda>_. P) P"
    using t by (auto intro!: hoareI) (metis snd_conv)+
  show ?thesis
    unfolding clean_exit_def
  proof (rule pres_bindo_hoare [OF a'])
    fix ok
    show "hoare (\<lambda>u. P u \<and> (ok \<longrightarrow> ?J u)) (if \<not> ok then retn False
       else bindo lock_uploads (\<lambda>_. bindo lock_content (\<lambda>_.
         bindo (purge_folder_uploads_locked E (folder_device fid)) (\<lambda>_.
         bindo (transaction (retire_step fid)) (\<lambda>_. retn True))))) (\<lambda>_. P) P"
    proof (cases ok)
      case True
      have "hoare ?J (bindo lock_uploads (\<lambda>_. bindo lock_content (\<lambda>_.
         bindo (purge_folder_uploads_locked E (folder_device fid)) (\<lambda>_.
         bindo (transaction (retire_step fid)) (\<lambda>_. retn True))))) (\<lambda>_. P) P"
        by (intro hoare_bindo [OF J [OF l(1) d(1)]] hoare_bindo [OF J [OF l(2) d(2)]]
            hoare_bindo [OF J [OF p d(3)]] hoare_bindo [OF re]) (auto intro: hoareI simp: op_defs)
      with True show ?thesis by (simp add: hoare_conseq)
    next
      case False
      then show ?thesis by (auto intro: hoareI simp: op_defs)
    qed
  qed
qed

lemma retire_versions: "versions_good s \<Longrightarrow> versions_good (snd (transaction (retire_step fid) s))"
proof -
  assume s: "versions_good s"
  have o: "pres versions_good (remove_folder_object d device sm)" for d device sm
    by (cases sm) (auto simp: remove_folder_object_def intro!: pres_intros)
  have "pres versions_good (retire_step fid)"
    unfolding retire_step_def by (intro pres_intros pres_versions_tables o versions_retire)
  then show ?thesis using s presD [OF pres_versions_transaction] by blast
qed

lemma hoare_cong:
  assumes "\<And>s. P s \<Longrightarrow> m s = n s" "hoare P n Q R"
  shows "hoare P m Q R"
  by (rule hoareI) (auto simp: assms(1) dest: hoare_ok [OF assms(2)] hoare_err [OF assms(2)])

lemma retire_store:
  assumes s: "store_ok E s" and d: "\<not> device_open (srv_db s) (folder_device fid)"
  shows "store_ok E (snd (transaction (retire_step fid) s))"
proof -
  let ?P = "\<lambda>u. store_ok E u \<and> srv_db u = srv_db s"
  have o: "hoare ?P (for_each (remove_folder_object (srv_db s) (folder_device fid))
      (folder_objects (srv_db s) (folder_device fid))) (\<lambda>_. ?P) ?P"
    using pres_for_each [OF pres_remove_folder_object [OF d]] by (simp add: pres_hoare)
  have m: "hoare ?P (modifyo (on_db (retire_rows fid))) (\<lambda>_. store_ok E) ?P"
    using presD [OF pres_tables, of E "retire_rows fid"] by (auto intro!: hoareI simp: op_defs)
  have h: "hoare ?P (retire_step fid) (\<lambda>_. store_ok E) ?P"
  proof -
    have "retire_step fid u = bindo (for_each (remove_folder_object (srv_db s) (folder_device fid))
        (folder_objects (srv_db s) (folder_device fid))) (\<lambda>_. modifyo (on_db (retire_rows fid))) u"
      if "?P u" for u
      using that by (simp add: retire_step_def open_connection_eq)
    from hoare_cong [OF this hoare_bindo [OF o m]] show ?thesis .
  qed
  show ?thesis
  proof (cases "retire_step fid s")
    case (Pair r t)
    show ?thesis
    proof (cases r)
      case (Inl e)
      have "?P t" by (rule hoare_err [OF h _ Pair [unfolded Inl]]) (simp add: s)
      then have "store_ok E (t\<lparr>srv_db := srv_db s\<rparr>)" by (auto simp: store_ok_def content_safe_def)
      with Inl Pair show ?thesis by (simp add: transaction_def)
    next
      case (Inr u)
      have "store_ok E t" by (rule hoare_ok [OF h _ Pair [unfolded Inr]]) (simp add: s)
      with Inr Pair show ?thesis by (simp add: transaction_def)
    qed
  qed
qed

lemma pres_clean_exit [pres_intros]:
  "pres (store_ok E) (clean_exit E' fid credential)" "pres versions_good (clean_exit E' fid credential)"
  by (rule hoare_clean_exit; intro pres_revoke pres_intros retire_store retire_versions; assumption)+

lemma pres_resume [pres_intros]:
  assumes "\<And>fid. pres P (clean_exit E fid None)" shows "pres P (resume_exits E)"
proof -
  have "pres P (\<lambda>s. (Inr (), snd (clean_exit E fid None s)))" for fid
    using assms by (simp add: pres_def)
  then show ?thesis unfolding resume_exits_def by (intro pres_intros)
qed

end
