(* ===== verification/Http.thy ===== *)
theory Http
  imports FolderExit
begin

text \<open>
  What the handlers of \<open>src/server/api.rs\<close> share: error answers, headers, the protocol check, the
  state of the API with its legacy credential, and the step from a store error to an answer. An
  answer keeps its status and code; its human-readable detail and its random request id are
  left out. Constant-time comparison is equality.
\<close>

record api_error =
  ae_status :: nat
  ae_code :: string

type_synonym 'a api_result = "api_error + 'a"
type_synonym 'a handler = "(api_error, server, 'a) eop"

definition api_err :: "nat \<Rightarrow> string \<Rightarrow> api_error" where
  "api_err status code = \<lparr>ae_status = status, ae_code = code\<rparr>"

definition bad_request :: "string \<Rightarrow> api_error" where
  "bad_request code = api_err 400 code"

definition unauthorized :: api_error where
  "unauthorized = api_err 401 ''unauthorized''"

definition internal :: api_error where
  "internal = api_err 500 ''internal_error''"

definition require :: "bool \<Rightarrow> api_error \<Rightarrow> unit api_result" where
  "require c e = (if c then Inr () else Inl e)"

definition map_err :: "api_error \<Rightarrow> 'a res \<Rightarrow> 'a api_result" where
  "map_err e r = (case r of Inl _ \<Rightarrow> Inl e | Inr x \<Rightarrow> Inr x)"

text \<open>A store call whose error is answered with 500.\<close>

definition run_store :: "(server, 'a) op \<Rightarrow> 'a handler" where
  "run_store m s = (case m s of (r, t) \<Rightarrow> (map_err internal r, t))"

text \<open>
  \<open>folder_store\<close> takes one of 32 permits for the time of the call; handlers run one at a time
  here, so one is always free.
\<close>

definition folder_store :: "(server, 'a) op \<Rightarrow> 'a handler" where
  "folder_store m = run_store m"

section \<open>Headers\<close>

text \<open>Header names are lower case, as \<open>HeaderName\<close> keeps them.\<close>

type_synonym headers = "(string \<times> bytes) list"

definition header_all :: "headers \<Rightarrow> string \<Rightarrow> bytes list" where
  "header_all h n = List.map snd (List.filter (\<lambda>kv. fst kv = n) h)"

definition single_header :: "headers \<Rightarrow> string \<Rightarrow> bytes option" where
  "single_header h n = (case header_all h n of [v] \<Rightarrow> Some v | _ \<Rightarrow> None)"

definition check_protocol :: "headers \<Rightarrow> unit api_result" where
  "check_protocol h =
     require (single_header h ''mirelay-protocol-version'' = Some ''1'')
       (api_err 426 ''unsupported_protocol'')"

definition token_hash :: "externals \<Rightarrow> string \<Rightarrow> bytes" where
  "token_hash X token = sha256 X (''Bearer '' @ token)"

definition supplied_hash :: "externals \<Rightarrow> headers \<Rightarrow> bytes api_result" where
  "supplied_hash X h =
     (case single_header h ''authorization'' of
        None \<Rightarrow> Inl unauthorized
      | Some b \<Rightarrow>
          if length b > 4103 \<or> \<not> prefix ''Bearer '' b then Inl unauthorized
          else Inr (sha256 X b))"

section \<open>Credentials of the server\<close>

definition MAX_TOKEN_BYTES :: nat where "MAX_TOKEN_BYTES = 4096"

definition token_byte :: "char \<Rightarrow> bool" where
  "token_byte c \<longleftrightarrow> is_ascii_alphanumeric c \<or> c \<in> set ''-._~+/''"

fun scan_token :: "bytes \<Rightarrow> bool \<Rightarrow> bool \<Rightarrow> bool res" where
  "scan_token [] saw_data saw_padding = Inr saw_data"
| "scan_token (c # cs) saw_data saw_padding =
     (if c = CHR ''='' then scan_token cs saw_data True
      else if \<not> token_byte c \<or> saw_padding
      then Inl (Bail ''server bearer token is not a valid RFC 6750 token'')
      else scan_token cs True saw_padding)"

definition validate_bearer_token :: "bytes \<Rightarrow> unit res" where
  "validate_bearer_token token =
     andthen (ensure (\<not> (token = [] \<or> length token > MAX_TOKEN_BYTES))
       ''server bearer token must contain 1-4096 bytes'') (\<lambda>_.
     andthen (scan_token token False False) (\<lambda>saw_data.
     ensure saw_data ''server bearer token must contain token data''))"

record api_state =
  env :: store_env
  device_id :: string
  authorization_hash :: bytes
  admin_hash :: "bytes option"

definition ApiState_new :: "store_env \<Rightarrow> string \<Rightarrow> string \<Rightarrow> api_state res" where
  "ApiState_new E device token =
     andthen (validate_device_id device) (\<lambda>_.
     andthen (ensure (\<not> prefix FOLDER_PREFIX device)
       ''folder_ identities are reserved for isolated Folder queues'') (\<lambda>_.
     andthen (validate_bearer_token token) (\<lambda>_.
     Inr \<lparr>env = E, device_id = device, authorization_hash = token_hash (ext E) token,
       admin_hash = None\<rparr>)))"

definition with_admin_token :: "api_state \<Rightarrow> string \<Rightarrow> api_state res" where
  "with_admin_token S token =
     andthen (validate_bearer_token token) (\<lambda>_.
     andthen (ensure (length token \<ge> 32)
       ''administrator credential must contain at least 32 bytes'') (\<lambda>_.
     let hash = token_hash (ext (env S)) token in
     andthen (ensure (hash \<noteq> authorization_hash S)
       ''administrator and legacy device credentials must differ'') (\<lambda>_.
     Inr (S\<lparr>admin_hash := Some hash\<rparr>))))"

definition authorize_bearer :: "api_state \<Rightarrow> headers \<Rightarrow> unit api_result" where
  "authorize_bearer S h =
     (case single_header h ''authorization'' of
        None \<Rightarrow> Inl unauthorized
      | Some b \<Rightarrow> require (sha256 (ext (env S)) b = authorization_hash S) unauthorized)"

section \<open>Facts\<close>

lemma require_simps [simp]:
  "require c e = Inr u \<longleftrightarrow> c" "require c e = Inl f \<longleftrightarrow> \<not> c \<and> f = e"
  by (auto simp: require_def)

lemma map_err_simps [simp]:
  "map_err e r = Inr x \<longleftrightarrow> r = Inr x" "map_err e r = Inl f \<longleftrightarrow> (\<exists>g. r = Inl g) \<and> f = e"
  by (auto simp: map_err_def split: sum.splits)

lemma run_store_ok: "run_store m s = (Inr x, t) \<longleftrightarrow> m s = (Inr x, t)"
  by (auto simp: run_store_def split: prod.splits)

lemma run_store_err: "run_store m s = (Inl e, t) \<longleftrightarrow> (\<exists>g. m s = (Inl g, t)) \<and> e = internal"
  by (auto simp: run_store_def split: prod.splits)

lemma run_store_state: "snd (run_store m s) = snd (m s)"
  by (simp add: run_store_def split: prod.splits)

lemma pres_run_store [pres_intros]: "pres P m \<Longrightarrow> pres P (run_store m)"
  by (simp add: pres_def run_store_state)

lemma pres_folder_store [pres_intros]: "pres P m \<Longrightarrow> pres P (folder_store m)"
  by (simp add: folder_store_def pres_run_store)

end
