(* ===== verification/Folders.thy ===== *)
theory Folders
  imports Http
begin

text \<open>
  Folder credentials and the two-party pairing of \<open>src/server/folders.rs\<close>. Random values (ids and
  credentials of two random UUIDs) and the clock are arguments. SQLite's \<open>lower(hex(b))\<close> is
  the same text as \<open>hex::encode(b)\<close>, which \<open>hex_encode\<close> stands for.
\<close>

definition INVITATION_SECONDS :: nat where "INVITATION_SECONDS = 600"

definition validate_id :: "externals \<Rightarrow> string \<Rightarrow> unit api_result" where
  "validate_id X i = require (uuid_canonical X i) unauthorized"

definition pending :: api_error where
  "pending = api_err 409 ''pairing_pending''"

definition require_connected :: "folder_handshake \<Rightarrow> unit api_result" where
  "require_connected i =
     require (fh_state i \<noteq> ''disconnected'') (api_err 410 ''folder_disconnected'')"

section \<open>Identity\<close>

definition folder_role :: "folder_row \<Rightarrow> bytes \<Rightarrow> string option" where
  "folder_role f hash =
     (if f_receiver_hash f = hash then Some ''receiver''
      else if f_sender_hash f = Some hash then Some ''sender''
      else None)"

definition folder_status :: "folder_row \<Rightarrow> string" where
  "folder_status f =
     (if f_disconnected f then ''disconnected''
      else if f_ready f then ''ready''
      else if f_sender_hash f \<noteq> None then ''awaiting_confirmation''
      else ''awaiting_peer'')"

definition folder_handshake_of :: "store_env \<Rightarrow> folder_row \<Rightarrow> string \<Rightarrow> folder_handshake" where
  "folder_handshake_of E f role =
     \<lparr>fh_schema_version = PROTOCOL_VERSION, fh_folder_id = f_id f, fh_name = f_name f,
      fh_role = role, fh_state = folder_status f,
      fh_verification = (if f_disconnected f then None
        else map_option (\<lambda>v. hex_encode (ext E) (take 6 v)) (f_sender_hash f)),
      fh_max_file_size = max_file_size E\<rparr>"

definition read_identity ::
    "store_env \<Rightarrow> string \<Rightarrow> bytes \<Rightarrow> (server, folder_handshake option) op" where
  "read_identity E fid hash =
     bindo open_connection_unchecked (\<lambda>d.
       (case find_folder d fid of
          None \<Rightarrow> retn None
        | Some f \<Rightarrow> retn (map_option (folder_handshake_of E f) (folder_role f hash))))"

definition identity :: "api_state \<Rightarrow> string \<Rightarrow> bytes \<Rightarrow> folder_handshake handler" where
  "identity S fid hash =
     bindo (lifto (validate_id (ext (env S)) fid)) (\<lambda>_.
     bindo (folder_store (read_identity (env S) fid hash)) (\<lambda>r.
       (case r of None \<Rightarrow> fails unauthorized | Some i \<Rightarrow> retn i)))"

definition handshake :: "api_state \<Rightarrow> string \<Rightarrow> headers \<Rightarrow> folder_handshake handler" where
  "handshake S fid h =
     bindo (lifto (supplied_hash (ext (env S)) h)) (\<lambda>hash.
     bindo (lifto (check_protocol h)) (\<lambda>_.
     identity S fid hash))"

section \<open>Creating a Folder\<close>

definition insert_folder ::
    "externals \<Rightarrow> nat \<Rightarrow> string \<Rightarrow> string \<Rightarrow> string \<Rightarrow> string \<Rightarrow> (server, folder_created) op" where
  "insert_folder X now name fid token secret =
     bindo open_connection_unchecked (\<lambda>d.
     bindo (lifto (ensure (length (t_folders d) < 1000) ''Folder limit reached'')) (\<lambda>_.
       let code = fid @ ''.'' @ secret; expires = now + INVITATION_SECONDS in
     bindo (lifto (ensure (find_folder d fid = None
         \<and> \<not> list_ex (\<lambda>f. f_receiver_hash f = token_hash X token) (t_folders d))
         ''constraint failed'')) (\<lambda>_.
     bindo (modifyo (on_db (\<lambda>d. d\<lparr>t_folders := t_folders d @
         [\<lparr>f_id = fid, f_name = name, f_receiver_hash = token_hash X token, f_sender_hash = None,
           f_invite_hash = token_hash X code, f_expires = u64_as_i64 expires, f_ready = False,
           f_disconnected = False\<rparr>]\<rparr>))) (\<lambda>_.
     retn \<lparr>fc_folder_id = fid, fc_receiver_token = token, fc_pairing_code = code,
       fc_expires_at_unix = expires\<rparr>))))"

definition create_folder ::
    "api_state \<Rightarrow> nat \<Rightarrow> string \<Rightarrow> string \<Rightarrow> string \<Rightarrow> headers \<Rightarrow> string \<Rightarrow> folder_created handler" where
  "create_folder S now fid token secret h requested =
     bindo (lifto (supplied_hash (ext (env S)) h)) (\<lambda>supplied.
     bindo (lifto (require (admin_hash S = Some supplied) unauthorized)) (\<lambda>_.
     bindo (lifto (check_protocol h)) (\<lambda>_.
       let name = trim requested in
     bindo (lifto (require (\<not> (name = [] \<or> length name > 128 \<or> has_control name))
       (bad_request ''invalid_name''))) (\<lambda>_.
     folder_store (transaction (insert_folder (ext (env S)) now name fid token secret))))))"

section \<open>Claiming an invitation\<close>

definition claim_step ::
    "nat \<Rightarrow> string \<Rightarrow> bytes \<Rightarrow> bytes \<Rightarrow> (server, bool) op" where
  "claim_step now fid invite_hash sender_hash =
     bindo open_connection_unchecked (\<lambda>d.
       (case List.find (\<lambda>f. f_id f = fid \<and> \<not> f_disconnected f) (t_folders d) of
          None \<Rightarrow> retn False
        | Some f \<Rightarrow>
            if f_invite_hash f \<noteq> invite_hash then retn False
            else
              (case f_sender_hash f of
                 Some previous \<Rightarrow> retn (previous = sender_hash)
               | None \<Rightarrow>
                   if f_expires f \<le> 0 \<or> now \<ge> i64_as_u64 (f_expires f) then retn False
                   else
                     bindo (modifyo (on_db
                         (update_folder fid (\<lambda>f. f\<lparr>f_sender_hash := Some sender_hash\<rparr>)))) (\<lambda>_.
                     retn True))))"

definition hex_token :: "string \<Rightarrow> bool" where
  "hex_token t \<longleftrightarrow> length t = 64 \<and> list_all is_ascii_hexdigit t"

definition claim :: "api_state \<Rightarrow> nat \<Rightarrow> headers \<Rightarrow> claim_request \<Rightarrow> folder_handshake handler" where
  "claim S now h request =
     bindo (lifto (check_protocol h)) (\<lambda>_.
       (case split_once (CHR ''.'') (cr_pairing_code request) of
          None \<Rightarrow> fails unauthorized
        | Some (fid, secret) \<Rightarrow>
            bindo (lifto (validate_id (ext (env S)) fid)) (\<lambda>_.
            bindo (lifto (require (hex_token secret \<and> hex_token (cr_sender_token request))
              unauthorized)) (\<lambda>_.
              let sender = token_hash (ext (env S)) (cr_sender_token request) in
            bindo (folder_store (transaction (claim_step now fid
                (token_hash (ext (env S)) (cr_pairing_code request)) sender))) (\<lambda>claimed.
              if \<not> claimed then fails unauthorized else identity S fid sender)))))"

section \<open>Confirming, renewing, disconnecting\<close>

definition confirm_step :: "externals \<Rightarrow> string \<Rightarrow> string \<Rightarrow> (server, bool) op" where
  "confirm_step X fid verification =
     bindo open_connection_unchecked (\<lambda>d.
       let matching = (\<lambda>f. f_id f = fid \<and> \<not> f_disconnected f
         \<and> (case f_sender_hash f of
              None \<Rightarrow> False
            | Some v \<Rightarrow> take 12 (hex_encode X v) = verification))
       in
       bindo (modifyo (on_db (\<lambda>d. d\<lparr>t_folders :=
           List.map (\<lambda>f. if matching f then f\<lparr>f_ready := True\<rparr> else f) (t_folders d)\<rparr>))) (\<lambda>_.
       retn (length (List.filter matching (t_folders d)) = 1)))"

definition confirm ::
    "api_state \<Rightarrow> string \<Rightarrow> headers \<Rightarrow> string \<Rightarrow> folder_handshake handler" where
  "confirm S fid h verification =
     bindo (lifto (supplied_hash (ext (env S)) h)) (\<lambda>hash.
     bindo (lifto (check_protocol h)) (\<lambda>_.
     bindo (identity S fid hash) (\<lambda>i.
     bindo (lifto (require_connected i)) (\<lambda>_.
     bindo (lifto (require (fh_role i = ''receiver'') (api_err 403 ''wrong_role''))) (\<lambda>_.
     bindo (lifto (require (fh_verification i = Some verification) pending)) (\<lambda>_.
     bindo (folder_store (confirm_step (ext (env S)) fid verification)) (\<lambda>confirmed.
       if \<not> confirmed then fails pending else identity S (fh_folder_id i) hash)))))))"

definition renew_step :: "string \<Rightarrow> bytes \<Rightarrow> nat \<Rightarrow> (server, unit) op" where
  "renew_step fid stored expires =
     bindo open_connection_unchecked (\<lambda>d.
     bindo (modifyo (on_db (\<lambda>d. d\<lparr>t_folders :=
         List.map (\<lambda>f. if f_id f = fid \<and> \<not> f_disconnected f
           then f\<lparr>f_invite_hash := stored, f_expires := u64_as_i64 expires,
             f_sender_hash := None, f_ready := False\<rparr> else f) (t_folders d)\<rparr>))) (\<lambda>_.
     lifto (ensure (length (List.filter (\<lambda>f. f_id f = fid \<and> \<not> f_disconnected f) (t_folders d)) = 1)
       ''Folder disconnected while replacing invitation'')))"

definition renew ::
    "api_state \<Rightarrow> nat \<Rightarrow> string \<Rightarrow> string \<Rightarrow> headers \<Rightarrow> folder_invitation handler" where
  "renew S now secret fid h =
     bindo (lifto (supplied_hash (ext (env S)) h)) (\<lambda>hash.
     bindo (lifto (check_protocol h)) (\<lambda>_.
     bindo (identity S fid hash) (\<lambda>i.
     bindo (lifto (require_connected i)) (\<lambda>_.
     bindo (lifto (require (fh_role i = ''receiver'') (api_err 403 ''wrong_role''))) (\<lambda>_.
       let code = fid @ ''.'' @ secret; expires = now + INVITATION_SECONDS in
     bindo (folder_store (renew_step fid (token_hash (ext (env S)) code) expires)) (\<lambda>_.
     retn \<lparr>fi_pairing_code = code, fi_expires_at_unix = expires\<rparr>))))))"

definition disconnect_step :: "string \<Rightarrow> bytes \<Rightarrow> (server, bool) op" where
  "disconnect_step fid hash =
     bindo open_connection_unchecked (\<lambda>d.
       if \<not> authorized d fid hash then retn False
       else bindo (modifyo (on_db (update_folder fid revoke))) (\<lambda>_. retn True))"

definition disconnect :: "api_state \<Rightarrow> string \<Rightarrow> headers \<Rightarrow> folder_handshake handler" where
  "disconnect S fid h =
     bindo (lifto (validate_id (ext (env S)) fid)) (\<lambda>_.
     bindo (lifto (supplied_hash (ext (env S)) h)) (\<lambda>hash.
     bindo (lifto (check_protocol h)) (\<lambda>_.
     bindo (folder_store (transaction (disconnect_step fid hash))) (\<lambda>accepted.
       if \<not> accepted then fails unauthorized else identity S fid hash))))"

section \<open>Authorizing a transfer\<close>

definition authorize_transfer ::
    "api_state \<Rightarrow> headers \<Rightarrow> string \<Rightarrow> string \<Rightarrow> string handler" where
  "authorize_transfer S h uri role =
     (case strip_prefix ''/f/'' uri of
        Some path \<Rightarrow>
          bindo (lifto (supplied_hash (ext (env S)) h)) (\<lambda>hash.
          bindo (identity S (hd (split_on slash path)) hash) (\<lambda>i.
          bindo (lifto (require_connected i)) (\<lambda>_.
          bindo (lifto (require (fh_role i = role) (api_err 403 ''wrong_role''))) (\<lambda>_.
          bindo (lifto (require (fh_state i = ''ready'') pending)) (\<lambda>_.
          retn (folder_device (fh_folder_id i)))))))
      | None \<Rightarrow>
          bindo (lifto (authorize_bearer S h)) (\<lambda>_. retn (device_id S)))"

end
