(* ===== verification/Api.thy ===== *)
theory Api
  imports Folders
begin

text \<open>
  The delivery handlers of \<open>src/server/api.rs\<close>, the directory handlers of
  \<open>src/server/directory.rs\<close> and the exit handlers of \<open>src/server/exit.rs\<close>. The decoding of
  query, path and body that the web framework does is an argument: \<open>None\<close> where it rejects.
  Base64 and JSON are third-party functions, given in a record.
\<close>

definition MAX_CURSOR_BYTES :: nat where "MAX_CURSOR_BYTES = 2048"

record cursor =
  cu_version :: nat
  cu_after_sequence :: int
  cu_snapshot_sequence :: int

record codecs =
  cursor_to_json :: "cursor \<Rightarrow> bytes"
  cursor_of_json :: "bytes \<Rightarrow> cursor option"
  url_safe_encode :: "bytes \<Rightarrow> string"
  url_safe_decode :: "string \<Rightarrow> bytes option"
  standard_encode :: "bytes \<Rightarrow> string"
  standard_decode :: "string \<Rightarrow> bytes option"
  standard_no_pad_decode :: "string \<Rightarrow> bytes option"

section \<open>Cursors and pages\<close>

definition encode_cursor :: "codecs \<Rightarrow> cursor \<Rightarrow> string" where
  "encode_cursor C c = url_safe_encode C (cursor_to_json C c)"

definition decode_cursor :: "codecs \<Rightarrow> string \<Rightarrow> cursor api_result" where
  "decode_cursor C encoded =
     (let invalid = bad_request ''invalid_cursor'' in
      andthen (require (\<not> (encoded = [] \<or> length encoded > MAX_CURSOR_BYTES
        \<or> has_control encoded)) invalid) (\<lambda>_.
      andthen (map_err invalid (of_option ''base64'' (url_safe_decode C encoded))) (\<lambda>bs.
      andthen (map_err invalid (of_option ''json'' (cursor_of_json C bs))) (\<lambda>c.
      andthen (require (\<not> (cu_version c \<noteq> PROTOCOL_VERSION \<or> cu_after_sequence c < 0
        \<or> cu_snapshot_sequence c < cu_after_sequence c)) invalid) (\<lambda>_.
      Inr c)))))"

definition descriptor :: "stored_delivery \<Rightarrow> delivery_descriptor" where
  "descriptor d =
     \<lparr>dd_delivery_id = st_id d, dd_original_name = st_original_name d, dd_size_bytes = st_size d,
      dd_sha256 = st_sha256 d, dd_media_type = st_media_type d,
      dd_created_at_unix = Some (st_created_at_unix d)\<rparr>"

definition index_response :: "codecs \<Rightarrow> pending_page \<Rightarrow> delivery_index api_result" where
  "index_response C page =
     andthen (if pp_has_more page then
         (if pp_deliveries page = [] then Inl internal
          else Inr (Some (encode_cursor C
            \<lparr>cu_version = PROTOCOL_VERSION,
             cu_after_sequence = st_sequence (last (pp_deliveries page)),
             cu_snapshot_sequence = pp_snapshot_sequence page\<rparr>)))
       else Inr None) (\<lambda>next.
     Inr \<lparr>di_schema_version = PROTOCOL_VERSION, di_items = List.map descriptor (pp_deliveries page),
       di_next_cursor = next\<rparr>)"

section \<open>Deliveries\<close>

record list_query =
  lq_status :: string
  lq_limit :: "nat option"
  lq_cursor :: "string option"

definition default_page_size :: nat where "default_page_size = 50"

definition list_deliveries ::
    "api_state \<Rightarrow> codecs \<Rightarrow> string \<Rightarrow> headers \<Rightarrow> list_query option \<Rightarrow> delivery_index handler" where
  "list_deliveries S C uri h query =
     bindo (authorize_transfer S h uri ''receiver'') (\<lambda>device.
     bindo (lifto (check_protocol h)) (\<lambda>_.
       (case query of
          None \<Rightarrow> fails (bad_request ''invalid_query'')
        | Some q \<Rightarrow>
            let limit = (case lq_limit q of None \<Rightarrow> default_page_size | Some n \<Rightarrow> n) in
            bindo (lifto (require (lq_status q = ''pending'') (bad_request ''invalid_status''))) (\<lambda>_.
            bindo (lifto (require (\<not> (limit = 0 \<or> limit > 100)) (bad_request ''invalid_limit''))) (\<lambda>_.
            bindo (lifto (case lq_cursor q of
                Some t \<Rightarrow> andthen (decode_cursor C t)
                  (\<lambda>c. Inr (cu_after_sequence c, Some (cu_snapshot_sequence c)))
              | None \<Rightarrow> Inr (0, None))) (\<lambda>(after, snapshot).
            bindo (run_store (list_pending (env S) device after snapshot limit)) (\<lambda>page.
            lifto (index_response C page))))))))"

record download_reply =
  dl_content_type :: string
  dl_content_length :: nat
  dl_etag :: string
  dl_body :: bytes

definition etag :: "string \<Rightarrow> string" where
  "etag sha = CHR 0x22 # ''sha256:'' @ sha @ [CHR 0x22]"

definition download_content ::
    "api_state \<Rightarrow> string \<Rightarrow> string \<Rightarrow> headers \<Rightarrow> download_reply handler" where
  "download_content S uri did h =
     bindo (authorize_transfer S h uri ''receiver'') (\<lambda>device.
     bindo (lifto (check_protocol h)) (\<lambda>_.
     bindo (lifto (map_err (bad_request ''invalid_delivery_id'') (validate_delivery_id did))) (\<lambda>_.
     bindo (lifto (require (length (header_all h ''if-match'') = 1)
       (api_err 428 ''if_match_required''))) (\<lambda>_.
     bindo (run_store (get_delivery (env S) device did)) (\<lambda>found.
       (case found of
          None \<Rightarrow> fails (api_err 404 ''delivery_not_found'')
        | Some d \<Rightarrow>
            bindo (lifto (require (single_header h ''if-match'' = Some (etag (st_sha256 d)))
              (api_err 412 ''etag_mismatch''))) (\<lambda>_.
            bindo (run_store (open_content (env S) d)) (\<lambda>b.
            retn \<lparr>dl_content_type = st_media_type d, dl_content_length = st_size d,
              dl_etag = etag (st_sha256 d), dl_body = b\<rparr>))))))))"

definition log_nonfatal :: "'a handler \<Rightarrow> unit handler" where
  "log_nonfatal m s = (Inr (), snd (m s))"

definition acknowledge_queued ::
    "nat \<Rightarrow> string \<Rightarrow> string \<Rightarrow> string \<Rightarrow> (server, acknowledge_outcome option) op" where
  "acknowledge_queued now device did sha =
     bindo (is_directory_delivery device did) (\<lambda>directory.
       if directory then retn None
       else bindo (acknowledge now device did sha) (\<lambda>r. retn (Some r)))"

definition acknowledge_delivery ::
    "api_state \<Rightarrow> nat \<Rightarrow> string \<Rightarrow> string \<Rightarrow> headers \<Rightarrow> string option \<Rightarrow> nat handler" where
  "acknowledge_delivery S now uri did h body =
     bindo (authorize_transfer S h uri ''receiver'') (\<lambda>device.
     bindo (lifto (check_protocol h)) (\<lambda>_.
     bindo (lifto (map_err (bad_request ''invalid_delivery_id'') (validate_delivery_id did))) (\<lambda>_.
       (case body of
          None \<Rightarrow> fails (bad_request ''invalid_json'')
        | Some sha \<Rightarrow>
            bindo (lifto (map_err (bad_request ''invalid_sha256'') (validate_sha256 sha))) (\<lambda>_.
            bindo (run_store (acknowledge_queued now device did sha)) (\<lambda>outcome.
              (case outcome of
                 None \<Rightarrow> fails (api_err 409 ''directory_receipt_required'')
               | Some AckNotFound \<Rightarrow> fails (api_err 404 ''delivery_not_found'')
               | Some DigestConflict \<Rightarrow> fails (api_err 409 ''digest_conflict'')
               | Some _ \<Rightarrow>
                   bindo (log_nonfatal (run_store (garbage_collect_digest sha))) (\<lambda>_.
                   retn 204))))))))"

definition health_check :: "(server, unit) op" where
  "health_check = bindo connection (\<lambda>_. retn ())"

definition health :: "(nat \<times> string) handler" where
  "health = bindo (run_store health_check) (\<lambda>_. retn (200, ''ok'' @ [CHR 0x0A]))"

section \<open>Directory handlers\<close>

definition authorize_directory ::
    "api_state \<Rightarrow> headers \<Rightarrow> string \<Rightarrow> string option \<Rightarrow> string handler" where
  "authorize_directory S h fid role =
     bindo (lifto (supplied_hash (ext (env S)) h)) (\<lambda>hash.
     bindo (identity S fid hash) (\<lambda>i.
     bindo (lifto (require_connected i)) (\<lambda>_.
     bindo (lifto (check_protocol h)) (\<lambda>_.
     bindo (lifto (require (\<not> (case role of None \<Rightarrow> False | Some r \<Rightarrow> r \<noteq> fh_role i))
       (api_err 403 ''wrong_role''))) (\<lambda>_.
     bindo (lifto (require (fh_state i = ''ready'') (api_err 409 ''pairing_pending''))) (\<lambda>_.
     retn (folder_device (fh_folder_id i))))))))"

definition directory_get :: "api_state \<Rightarrow> string \<Rightarrow> headers \<Rightarrow> directory_state handler" where
  "directory_get S fid h =
     bindo (authorize_directory S h fid None) (\<lambda>device.
     folder_store (directory_state_of (env S) device))"

definition directory_index ::
    "api_state \<Rightarrow> string \<Rightarrow> headers \<Rightarrow> inventory_update \<Rightarrow> inventory handler" where
  "directory_index S fid h update =
     bindo (authorize_directory S h fid (Some ''receiver'')) (\<lambda>device.
     bindo (lifto (map_err (bad_request ''invalid_index'')
       (validate_inventory (ext (env S)) (iu_inventory update)))) (\<lambda>_.
     bindo (folder_store (publish_directory (env S) device update)) (\<lambda>r.
       (case r of None \<Rightarrow> fails (api_err 409 ''stale_index'') | Some v \<Rightarrow> retn v))))"

definition directory_receipt ::
    "api_state \<Rightarrow> nat \<Rightarrow> string \<Rightarrow> headers \<Rightarrow> directory_ack \<Rightarrow> unit handler" where
  "directory_receipt S now fid h ack =
     bindo (authorize_directory S h fid (Some ''receiver'')) (\<lambda>device.
     bindo (lifto (map_err (bad_request ''invalid_receipt'')
       (andthen (validate_version \<lparr>dv_path = da_path ack, dv_version = da_version ack\<rparr>)
         (\<lambda>_. validate_sha256 (da_sha256 ack))))) (\<lambda>_.
     bindo (folder_store (ack_directory now device ack)) (\<lambda>accepted.
     lifto (require accepted (api_err 409 ''receipt_mismatch'')))))"

section \<open>Exit handlers\<close>

datatype exit_outcome =
    ExitUnauthorized
  | CleanupPending
  | ExitStatus folder_exit_status

definition mark_cleaned :: "string \<Rightarrow> string \<Rightarrow> exit_row \<Rightarrow> exit_row" where
  "mark_cleaned fid role x =
     (if x_folder x = fid \<and> x_server x
      then (if role = ''sender'' then x\<lparr>x_sender := True\<rparr> else x\<lparr>x_receiver := True\<rparr>)
      else x)"

datatype receipt = ReceiptUnauthorized | ReceiptEarly | ReceiptTaken

definition exit_receipt :: "string \<Rightarrow> string \<Rightarrow> bytes \<Rightarrow> (server, receipt) op" where
  "exit_receipt fid role hash =
     bindo open_connection_unchecked (\<lambda>d.
       if \<not> authorized d fid hash then retn ReceiptUnauthorized
       else if length (List.filter (\<lambda>x. x_folder x = fid \<and> x_server x) (t_exits d)) \<noteq> 1
       then retn ReceiptEarly
       else
         bindo (modifyo (on_db (\<lambda>d. d\<lparr>t_exits := List.map (mark_cleaned fid role) (t_exits d)\<rparr>)))
           (\<lambda>_. retn ReceiptTaken))"

definition exit_work ::
    "store_env \<Rightarrow> string \<Rightarrow> string \<Rightarrow> bytes \<Rightarrow> nat \<Rightarrow> (server, exit_outcome) op" where
  "exit_work E fid role hash operation =
     bindo (if operation = 1 then clean_exit E fid (Some hash) else retn True) (\<lambda>ok.
       if \<not> ok then retn ExitUnauthorized
       else
         bindo (if operation = 2 then transaction (exit_receipt fid role hash)
           else retn ReceiptTaken) (\<lambda>r.
           (case r of
              ReceiptUnauthorized \<Rightarrow> retn ExitUnauthorized
            | ReceiptEarly \<Rightarrow> retn CleanupPending
            | ReceiptTaken \<Rightarrow>
                bindo (exit_status fid role) (\<lambda>st. retn (ExitStatus st)))))"

text \<open>Operation 0 asks for the status, 1 starts the exit, 2 acknowledges a local cleanup.\<close>

definition exit_dispatch ::
    "api_state \<Rightarrow> string \<Rightarrow> headers \<Rightarrow> nat \<Rightarrow> folder_exit_status handler" where
  "exit_dispatch S fid h operation =
     bindo (lifto (check_protocol h)) (\<lambda>_.
     bindo (lifto (supplied_hash (ext (env S)) h)) (\<lambda>hash.
     bindo (identity S fid hash) (\<lambda>i.
     bindo (folder_store (exit_work (env S) fid (fh_role i) hash operation)) (\<lambda>r.
       (case r of
          ExitStatus st \<Rightarrow> retn st
        | ExitUnauthorized \<Rightarrow> fails unauthorized
        | CleanupPending \<Rightarrow> fails (api_err 409 ''exit_cleanup_pending''))))))"

end
