(* ===== verification/TusApi.thy ===== *)
theory TusApi
  imports Api
begin

text \<open>
  The resumable-upload handlers of \<open>src/server/tus_api.rs\<close>: header and metadata parsing, the
  three requests, and the answers with their offsets.
\<close>

definition MAX_METADATA_HEADER_BYTES :: nat where "MAX_METADATA_HEADER_BYTES = 8 * 1024"

record tus_error =
  te_inner :: api_error
  te_offset :: "nat option"

type_synonym 'a tus_result = "tus_error + 'a"
type_synonym 'a tus_handler = "(tus_error, server, 'a) eop"

definition tus_err :: "nat \<Rightarrow> string \<Rightarrow> tus_error" where
  "tus_err status code = \<lparr>te_inner = api_err status code, te_offset = None\<rparr>"

definition tus_bad_request :: "string \<Rightarrow> tus_error" where
  "tus_bad_request code = tus_err 400 code"

definition tus_not_found :: tus_error where
  "tus_not_found = tus_err 404 ''upload_not_found''"

definition offset_conflict :: "nat \<Rightarrow> tus_error" where
  "offset_conflict offset =
     \<lparr>te_inner = api_err 409 ''upload_offset_conflict'', te_offset = Some offset\<rparr>"

definition too_large :: "nat \<Rightarrow> tus_error" where
  "too_large offset = \<lparr>te_inner = api_err 413 ''upload_too_large'', te_offset = Some offset\<rparr>"

definition invalid_content :: tus_error where
  "invalid_content = tus_err 422 ''invalid_upload_content''"

definition of_api_error :: "api_error \<Rightarrow> tus_error" where
  "of_api_error e = \<lparr>te_inner = e, te_offset = None\<rparr>"

definition tus_require :: "bool \<Rightarrow> tus_error \<Rightarrow> unit tus_result" where
  "tus_require c e = (if c then Inr () else Inl e)"

text \<open>The two errors a store call may raise on purpose have answers of their own.\<close>

definition tus_store_error :: "error \<Rightarrow> tus_error" where
  "tus_store_error e =
     (case e of
        DirectoryConflict \<Rightarrow> tus_err 409 ''directory_conflict''
      | InvalidUploadContent _ \<Rightarrow> invalid_content
      | Bail _ \<Rightarrow> of_api_error internal)"

definition run_tus_store :: "(server, 'a) op \<Rightarrow> 'a tus_handler" where
  "run_tus_store m s =
     (case m s of
        (Inl e, t) \<Rightarrow> (Inl (tus_store_error e), t)
      | (Inr x, t) \<Rightarrow> (Inr x, t))"

definition as_tus :: "'a handler \<Rightarrow> 'a tus_handler" where
  "as_tus m s =
     (case m s of
        (Inl e, t) \<Rightarrow> (Inl (of_api_error e), t)
      | (Inr x, t) \<Rightarrow> (Inr x, t))"

section \<open>Numbers\<close>

fun digits_value :: "nat \<Rightarrow> string \<Rightarrow> nat" where
  "digits_value n [] = n"
| "digits_value n (c # cs) = digits_value (10 * n + (byte c - 48)) cs"

text \<open>\<open>u64::from_str\<close>: an optional plus sign, at least one digit, and no overflow.\<close>

definition parse_u64 :: "string \<Rightarrow> nat option" where
  "parse_u64 s =
     (let ds = (case s of c # cs \<Rightarrow> if c = CHR ''+'' then cs else s | [] \<Rightarrow> s) in
      if ds = [] \<or> \<not> list_all is_ascii_digit ds \<or> digits_value 0 ds > u64_max then None
      else Some (digits_value 0 ds))"

text \<open>\<open>HeaderValue::to_str\<close> accepts visible ASCII, spaces and tabs.\<close>

definition header_text :: "bytes \<Rightarrow> bool" where
  "header_text v = list_all (\<lambda>c. (32 \<le> byte c \<and> byte c \<le> 126) \<or> byte c = 9) v"

definition parse_u64_header :: "bytes \<Rightarrow> string \<Rightarrow> nat tus_result" where
  "parse_u64_header v code =
     (if header_text v \<and> v \<noteq> [] \<and> list_all is_ascii_digit v then
        (case parse_u64 v of Some n \<Rightarrow> Inr n | None \<Rightarrow> Inl (tus_bad_request code))
      else Inl (tus_bad_request code))"

definition required_header :: "headers \<Rightarrow> string \<Rightarrow> string \<Rightarrow> bytes tus_result" where
  "required_header h n code =
     (case single_header h n of None \<Rightarrow> Inl (tus_bad_request code) | Some v \<Rightarrow> Inr v)"

definition required_u64_header :: "headers \<Rightarrow> string \<Rightarrow> string \<Rightarrow> nat tus_result" where
  "required_u64_header h n code =
     andthen (required_header h n code) (\<lambda>v. parse_u64_header v code)"

definition optional_u64_header :: "headers \<Rightarrow> string \<Rightarrow> nat option tus_result" where
  "optional_u64_header h n =
     (case header_all h n of
        [] \<Rightarrow> Inr None
      | [v] \<Rightarrow> andthen (parse_u64_header v ''invalid_content_length'') (\<lambda>x. Inr (Some x))
      | _ \<Rightarrow> Inl (tus_bad_request ''invalid_content_length''))"

definition require_tus_version :: "headers \<Rightarrow> unit tus_result" where
  "require_tus_version h =
     tus_require (single_header h ''tus-resumable'' = Some ''1.0.0'')
       (tus_err 412 ''unsupported_tus_version'')"

definition require_offset_content_type :: "headers \<Rightarrow> unit tus_result" where
  "require_offset_content_type h =
     tus_require (case single_header h ''content-type'' of
         None \<Rightarrow> False
       | Some v \<Rightarrow> header_text v
           \<and> to_ascii_lowercase v = to_ascii_lowercase ''application/offset+octet-stream'')
       (tus_err 415 ''invalid_patch_content_type'')"

section \<open>Upload metadata\<close>

definition metadata_keys :: "string list" where
  "metadata_keys = [''filename'', ''media_type'', ''sha256'', ''relative_path'', ''source_version'']"

definition valid_utf8 :: "bytes \<Rightarrow> bool" where
  "valid_utf8 b = (snd (snd (utf8_scan b)) = Complete)"

definition parse_metadata_pair :: "codecs \<Rightarrow> string \<Rightarrow> (string \<times> string) option" where
  "parse_metadata_pair C pair =
     (case split_once (CHR '' '') (trim pair) of
        None \<Rightarrow> None
      | Some (key, encoded) \<Rightarrow>
          if key \<notin> set metadata_keys \<or> encoded = [] \<or> has_whitespace encoded then None
          else
            (case (case standard_decode C encoded of
                     Some b \<Rightarrow> Some b
                   | None \<Rightarrow> standard_no_pad_decode C encoded) of
               None \<Rightarrow> None
             | Some decoded \<Rightarrow>
                 if length decoded > 1024 \<or> \<not> valid_utf8 decoded then None
                 else Some (key, decoded)))"

fun parse_metadata_pairs ::
    "codecs \<Rightarrow> string list \<Rightarrow> (string \<times> string) list \<Rightarrow> (string \<times> string) list option" where
  "parse_metadata_pairs C [] m = Some m"
| "parse_metadata_pairs C (p # ps) m =
     (case parse_metadata_pair C p of
        None \<Rightarrow> None
      | Some (k, v) \<Rightarrow>
          if map_of m k \<noteq> None then None else parse_metadata_pairs C ps (bt_insert k v m))"

definition parse_upload_metadata :: "codecs \<Rightarrow> headers \<Rightarrow> (string \<times> string) list tus_result" where
  "parse_upload_metadata C h =
     andthen (required_header h ''upload-metadata'' ''upload_metadata'') (\<lambda>raw.
       let invalid = tus_bad_request ''invalid_upload_metadata'' in
       if raw = [] \<or> length raw > MAX_METADATA_HEADER_BYTES \<or> \<not> header_text raw then Inl invalid
       else
         (case parse_metadata_pairs C (split_on (CHR '','') raw) [] of
            None \<Rightarrow> Inl invalid
          | Some m \<Rightarrow>
              if list_all (\<lambda>k. map_of m k \<noteq> None) [''filename'', ''media_type'', ''sha256'']
              then Inr m else Inl invalid))"

definition canonical_metadata_header :: "codecs \<Rightarrow> (string \<times> string) list \<Rightarrow> string" where
  "canonical_metadata_header C m =
     join_with (CHR '','')
       (List.map (\<lambda>k. k @ '' '' @ standard_encode C (the (map_of m k)))
         (List.filter (\<lambda>k. map_of m k \<noteq> None) metadata_keys))"

section \<open>Handlers\<close>

record tus_reply =
  tr_status :: nat
  tr_location :: "string option"
  tr_offset :: "nat option"
  tr_length :: "nat option"
  tr_metadata :: "string option"
  tr_delivery_id :: "string option"
  tr_max_size :: "nat option"

definition upload_status_response :: "nat \<Rightarrow> upload_info \<Rightarrow> tus_reply" where
  "upload_status_response status i =
     \<lparr>tr_status = status, tr_location = None, tr_offset = Some (ui_offset i),
      tr_length = Some (ui_length i), tr_metadata = Some (ui_metadata_header i),
      tr_delivery_id = ui_delivery_id i, tr_max_size = None\<rparr>"

definition tus_options :: "api_state \<Rightarrow> tus_reply tus_handler" where
  "tus_options S =
     retn \<lparr>tr_status = 204, tr_location = None, tr_offset = None, tr_length = None,
       tr_metadata = None, tr_delivery_id = None, tr_max_size = Some (max_file_size (env S))\<rparr>"

definition upload_directory :: "(string \<times> string) list \<Rightarrow> directory_version option tus_result" where
  "upload_directory m =
     (case (map_of m ''relative_path'', map_of m ''source_version'') of
        (None, None) \<Rightarrow> Inr None
      | (Some p, Some v) \<Rightarrow>
          (case parse_u64 v of
             None \<Rightarrow> Inl (tus_bad_request ''invalid_directory_version'')
           | Some n \<Rightarrow> Inr (Some \<lparr>dv_path = p, dv_version = n\<rparr>))
      | _ \<Rightarrow> Inl (tus_bad_request ''incomplete_directory_metadata''))"

definition requested_upload ::
    "api_state \<Rightarrow> codecs \<Rightarrow> headers \<Rightarrow> bytes option \<Rightarrow> new_upload tus_result" where
  "requested_upload S C h body =
     andthen (require_tus_version h) (\<lambda>_.
     andthen (tus_require (header_all h ''upload-defer-length'' = [])
       (tus_bad_request ''upload_defer_unsupported'')) (\<lambda>_.
     andthen (required_u64_header h ''upload-length'' ''upload_length'') (\<lambda>len.
     andthen (tus_require (\<not> len > max_file_size (env S)) (tus_err 413 ''upload_too_large'')) (\<lambda>_.
     andthen (parse_upload_metadata C h) (\<lambda>m.
     andthen (tus_require (body = Some []) (tus_bad_request ''creation_body_unsupported'')) (\<lambda>_.
     andthen (upload_directory m) (\<lambda>directory.
       let u = \<lparr>nu_directory = directory, nu_original_name = the (map_of m ''filename''),
           nu_media_type = the (map_of m ''media_type''), nu_sha256 = the (map_of m ''sha256''),
           nu_length = len, nu_metadata_header = canonical_metadata_header C m\<rparr>
       in
       andthen (tus_require (is_ok (validate_new_upload (env S) u))
         (tus_bad_request ''invalid_upload_metadata'')) (\<lambda>_. Inr u))))))))"

definition tus_create ::
    "api_state \<Rightarrow> codecs \<Rightarrow> nat \<Rightarrow> (nat \<Rightarrow> string) \<Rightarrow> string \<Rightarrow> headers \<Rightarrow> bytes option
       \<Rightarrow> tus_reply tus_handler" where
  "tus_create S C now uuids uri h body =
     bindo (as_tus (authorize_transfer S h uri ''sender'')) (\<lambda>device.
     bindo (lifto (requested_upload S C h body)) (\<lambda>u.
     bindo (run_tus_store (create_upload (env S) now uuids device u)) (\<lambda>i.
     retn \<lparr>tr_status = 201, tr_location = Some (''uploads/'' @ ui_id i), tr_offset = Some 0,
       tr_length = None, tr_metadata = None, tr_delivery_id = None, tr_max_size = None\<rparr>)))"

definition tus_head ::
    "api_state \<Rightarrow> nat \<Rightarrow> string \<Rightarrow> string \<Rightarrow> headers \<Rightarrow> tus_reply tus_handler" where
  "tus_head S now uri i h =
     bindo (as_tus (authorize_transfer S h uri ''sender'')) (\<lambda>device.
     bindo (lifto (require_tus_version h)) (\<lambda>_.
     bindo (run_tus_store (get_upload (env S) now device i)) (\<lambda>found.
       (case found of
          None \<Rightarrow> fails tus_not_found
        | Some current \<Rightarrow> retn (upload_status_response 200 current)))))"

text \<open>
  \<open>body\<close> is what the request stream gives, \<open>None\<close> if reading fails; at most one byte more than
  the upload still needs is read.
\<close>

definition tus_patch ::
    "api_state \<Rightarrow> nat \<Rightarrow> string \<Rightarrow> string \<Rightarrow> headers \<Rightarrow> bytes option \<Rightarrow> tus_reply tus_handler" where
  "tus_patch S now uri i h body =
     bindo (as_tus (authorize_transfer S h uri ''sender'')) (\<lambda>device.
     bindo (lifto (require_tus_version h)) (\<lambda>_.
     bindo (lifto (require_offset_content_type h)) (\<lambda>_.
     bindo (lifto (required_u64_header h ''upload-offset'' ''upload_offset'')) (\<lambda>expected.
     bindo (run_tus_store (get_upload (env S) now device i)) (\<lambda>found.
       (case found of
          None \<Rightarrow> fails tus_not_found
        | Some current \<Rightarrow>
            if expected \<noteq> ui_offset current then fails (offset_conflict (ui_offset current))
            else
              let remaining = ui_length current - ui_offset current in
              bindo (lifto (optional_u64_header h ''content-length'')) (\<lambda>content_length.
              if (case content_length of None \<Rightarrow> False | Some n \<Rightarrow> n > remaining)
              then fails (too_large (ui_offset current))
              else
                (case body of
                   None \<Rightarrow> fails (of_api_error internal)
                 | Some b \<Rightarrow>
                     let chunk = take (remaining + 1) b in
                     if length chunk > remaining then fails (too_large (ui_offset current))
                     else
                       bindo (run_tus_store (append_upload (env S) now device i expected chunk
                           (length chunk))) (\<lambda>outcome.
                         (case outcome of
                            Appended j \<Rightarrow> retn (upload_status_response 204 j)
                          | AppendNotFound \<Rightarrow> fails tus_not_found
                          | OffsetMismatch j \<Rightarrow> fails (offset_conflict (ui_offset j))
                          | TooLarge j \<Rightarrow> fails (too_large (ui_offset j)))))))))))) "

end
