(* ===== verification/TusClient.thy ===== *)
theory TusClient
  imports TusApi
begin

text \<open>
  The sending client of \<open>src/tus_client.rs\<close>: its checks of the server's address and replies, the
  state file that lets an upload be resumed, and the transfer loop. The network with whatever
  server is behind it and the caller's callback are arguments, as are URL parsing and Base64. The
  source file does not change during a call, and the file system does not fail.
\<close>

section \<open>What the client is given\<close>

text \<open>
  An error is an HTTP status that the caller did not expect, a failure of the transport (with
  whether it is one of connecting, timing out or sending the body), or anything else.
\<close>

datatype client_error = HttpStatus nat | Transport bool | Failure string

definition is_retryable_upload_error :: "client_error \<Rightarrow> bool" where
  "is_retryable_upload_error e =
     (case e of
        HttpStatus n \<Rightarrow> n \<in> {408, 429, 500, 502, 503, 504}
      | Transport t \<Rightarrow> t
      | Failure _ \<Rightarrow> False)"

definition should_discard_upload_state :: "client_error \<Rightarrow> bool" where
  "should_discard_upload_state e = (case e of HttpStatus n \<Rightarrow> n \<in> {404, 410, 422} | _ \<Rightarrow> False)"

definition demand :: "bool \<Rightarrow> string \<Rightarrow> client_error + unit" where
  "demand c msg = (if c then Inr () else Inl (Failure msg))"

definition demand_some :: "string \<Rightarrow> 'a option \<Rightarrow> client_error + 'a" where
  "demand_some msg v = (case v of None \<Rightarrow> Inl (Failure msg) | Some x \<Rightarrow> Inr x)"

definition demand_ok :: "'a res \<Rightarrow> client_error + 'a" where
  "demand_ok r = (case r of Inl _ \<Rightarrow> Inl (Failure ''invalid'') | Inr x \<Rightarrow> Inr x)"

datatype http_method = Options | Post | HeadMethod | Patch | Get | Put

record http_request =
  rq_method :: http_method
  rq_url :: string
  rq_headers :: headers
  rq_body :: bytes

text \<open>\<open>hr_body\<close> is what reading the body of a refused request gives, \<open>None\<close> if it fails.\<close>

record http_response =
  hr_status :: nat
  hr_headers :: headers
  hr_body :: "bytes option"

record url =
  url_scheme :: string
  url_host :: "string option"
  url_port :: "nat option"
  url_username :: string
  url_password :: "string option"
  url_query :: "string option"
  url_fragment :: "string option"
  url_path :: string

record url_library =
  url_parse :: "string \<Rightarrow> url option"
  url_string :: "url \<Rightarrow> string"
  url_join :: "url \<Rightarrow> string \<Rightarrow> url option"
  url_set_path :: "string \<Rightarrow> url \<Rightarrow> url"
  url_extend :: "string list \<Rightarrow> url \<Rightarrow> url option"

datatype upload_event = Created string | Resuming string | Progress nat nat

text \<open>
  \<open>'w\<close> is everything outside the program: the network with the server behind it, and the
  caller that hears of events and answers whether to go on.
\<close>

record 'w outside =
  out_ext :: externals
  out_codecs :: codecs
  out_urls :: url_library
  out_send :: "http_request \<Rightarrow> (client_error, 'w, http_response) eop"
  out_event :: "upload_event \<Rightarrow> 'w \<Rightarrow> bool \<times> 'w"

section \<open>State of the sender\<close>

definition UPLOAD_STATE_SCHEMA :: nat where "UPLOAD_STATE_SCHEMA = 1"
definition MAX_CHUNK_SIZE :: nat where "MAX_CHUNK_SIZE = 16 * 1024 * 1024"

record upload_state =
  us_schema_version :: nat
  us_collection_url :: string
  us_upload_url :: string
  us_original_name :: string
  us_size :: nat
  us_sha256 :: string
  us_media_type :: string
  us_directory :: "directory_version option"

text \<open>The state file: missing, a saved state, or contents that cannot be read as one.\<close>

datatype saved_state = NoState | Saved upload_state | BadState

record 'w sender =
  sn_state :: saved_state
  sn_world :: 'w

type_synonym ('w, 'a) sending = "(client_error, 'w sender, 'a) eop"

definition on_world :: "(client_error, 'w, 'a) eop \<Rightarrow> ('w, 'a) sending" where
  "on_world m s = (case m (sn_world s) of (r, w) \<Rightarrow> (r, s\<lparr>sn_world := w\<rparr>))"

definition tell :: "'w outside \<Rightarrow> upload_event \<Rightarrow> ('w, bool) sending" where
  "tell V e s = (case out_event V e (sn_world s) of (go, w) \<Rightarrow> (Inr go, s\<lparr>sn_world := w\<rparr>))"

definition load_state :: "('w, upload_state) sending" where
  "load_state = readso (\<lambda>s.
     (case sn_state s of
        Saved st \<Rightarrow> Inr st
      | NoState \<Rightarrow> Inl (Failure ''failed to read upload state'')
      | BadState \<Rightarrow> Inl (Failure ''failed to parse upload state'')))"

definition save_state :: "upload_state \<Rightarrow> ('w, unit) sending" where
  "save_state st = modifyo (\<lambda>s. s\<lparr>sn_state := Saved st\<rparr>)"

definition remove_state :: "('w, unit) sending" where
  "remove_state = modifyo (\<lambda>s. s\<lparr>sn_state := NoState\<rparr>)"

text \<open>A status that ends the upload for good takes the resume state with it.\<close>

definition or_discard :: "('w, 'a) sending \<Rightarrow> ('w, 'a) sending" where
  "or_discard m s =
     (case m s of
        (Inl e, t) \<Rightarrow>
          if should_discard_upload_state e
          then (case remove_state t of (_ :: client_error + unit, u) \<Rightarrow> (Inl e, u))
          else (Inl e, t)
      | (Inr x, t) \<Rightarrow> (Inr x, t))"

section \<open>Names and metadata\<close>

fun decimal :: "nat \<Rightarrow> string" where
  "decimal n = (if n < 10 then [char_of (48 + n)] else decimal (n div 10) @ [char_of (48 + n mod 10)])"

declare decimal.simps [simp del]

definition validate_upload_name :: "string \<Rightarrow> client_error + unit" where
  "validate_upload_name name =
     demand (\<not> (name = [] \<or> length name > 255 \<or> slash \<in> set name \<or> CHR 0x5C \<in> set name
        \<or> has_control name \<or> name = ''.'' \<or> name = ''..''))
       ''upload name must be a single UTF-8 filename of at most 255 bytes''"

definition metadata_header :: "codecs \<Rightarrow> string \<Rightarrow> inspection \<Rightarrow> string" where
  "metadata_header C original_name i =
     join_with (CHR '','')
       (List.map (\<lambda>(key, v). key @ '' '' @ standard_encode C v)
         [(''filename'', original_name), (''media_type'', in_media_type i), (''sha256'', in_sha256 i)])"

definition directory_metadata_header ::
    "codecs \<Rightarrow> string \<Rightarrow> inspection \<Rightarrow> directory_version option \<Rightarrow> string" where
  "directory_metadata_header C original_name i directory =
     metadata_header C original_name i
     @ (case directory of
          None \<Rightarrow> []
        | Some v \<Rightarrow> '',relative_path '' @ standard_encode C (dv_path v)
            @ '',source_version '' @ standard_encode C (decimal (dv_version v)))"

section \<open>Replies\<close>

record remote_upload =
  ru_offset :: nat
  ru_length :: nat
  ru_metadata :: string
  ru_delivery_id :: "string option"

definition response_header :: "headers \<Rightarrow> string \<Rightarrow> client_error + string" where
  "response_header h name =
     (case header_all h name of
        [v] \<Rightarrow> if header_text v then Inr v else Inl (Failure ''header is not valid ASCII'')
      | _ \<Rightarrow> Inl (Failure ''server response must contain exactly one header''))"

definition optional_response_header :: "headers \<Rightarrow> string \<Rightarrow> client_error + string option" where
  "optional_response_header h name =
     (case header_all h name of
        [] \<Rightarrow> Inr None
      | [v] \<Rightarrow> if header_text v then Inr (Some v) else Inl (Failure ''header is not valid ASCII'')
      | _ \<Rightarrow> Inl (Failure ''server response contains more than one header''))"

definition client_parse_u64 :: "string \<Rightarrow> client_error + nat" where
  "client_parse_u64 v =
     (if v = [] \<or> \<not> list_all is_ascii_digit v then Inl (Failure ''not an unsigned decimal integer'')
      else demand_some ''out of range'' (parse_u64 v))"

definition response_u64 :: "headers \<Rightarrow> string \<Rightarrow> client_error + nat" where
  "response_u64 h name =
     (case response_header h name of Inl e \<Rightarrow> Inl e | Inr v \<Rightarrow> client_parse_u64 v)"

definition require_status :: "http_response \<Rightarrow> nat list \<Rightarrow> client_error + http_response" where
  "require_status r expected =
     (if hr_status r \<in> set expected then Inr r
      else (case hr_body r of
          None \<Rightarrow> Inl (Failure ''failed to read server error response'')
        | Some _ \<Rightarrow> Inl (HttpStatus (hr_status r))))"

definition require_tus_response :: "http_response \<Rightarrow> client_error + unit" where
  "require_tus_response r =
     (case response_header (hr_headers r) ''tus-resumable'' of
        Inl e \<Rightarrow> Inl e
      | Inr v \<Rightarrow> demand (v = ''1.0.0'') ''server response does not confirm tus'')"

definition remote_upload_of :: "headers \<Rightarrow> ('w, remote_upload) sending" where
  "remote_upload_of h =
     bindo (lifto (response_u64 h ''upload-offset'')) (\<lambda>offset.
     bindo (lifto (response_u64 h ''upload-length'')) (\<lambda>len.
     bindo (lifto (response_header h ''upload-metadata'')) (\<lambda>metadata.
     bindo (lifto (optional_response_header h ''mirelay-delivery-id'')) (\<lambda>delivery_id.
     retn \<lparr>ru_offset = offset, ru_length = len, ru_metadata = metadata, ru_delivery_id = delivery_id\<rparr>))))"

definition validate_remote_upload ::
    "upload_state \<Rightarrow> string \<Rightarrow> remote_upload \<Rightarrow> client_error + unit" where
  "validate_remote_upload st expected r =
     (if ru_length r \<noteq> us_size st then Inl (Failure ''server upload length'')
      else if ru_offset r > ru_length r then Inl (Failure ''server upload offset exceeds its declared length'')
      else if ru_metadata r \<noteq> expected
      then Inl (Failure ''server upload metadata no longer matches the source file'')
      else if ru_delivery_id r \<noteq> None \<and> ru_offset r \<noteq> ru_length r
      then Inl (Failure ''server confirmed a delivery before the tus upload completed'')
      else Inr ())"

definition validate_source_state ::
    "upload_state \<Rightarrow> inspection \<Rightarrow> string option \<Rightarrow> client_error + unit" where
  "validate_source_state st i requested =
     (if in_size i \<noteq> us_size st \<or> in_sha256 i \<noteq> us_sha256 st \<or> in_media_type i \<noteq> us_media_type st
      then Inl (Failure ''source file content differs from the saved upload state'')
      else demand (case requested of None \<Rightarrow> True | Some n \<Rightarrow> n = us_original_name st)
        ''--name differs from the name saved in upload state'')"

section \<open>The client\<close>

record tus_client =
  tc_collection :: url
  tc_authorization :: bytes

record upload_request =
  ur_source :: "node option"
  ur_file_name :: "string option"
  ur_same_file :: bool
  ur_locked :: bool
  ur_server_url :: string
  ur_token :: string
  ur_name :: "string option"
  ur_directory :: "directory_version option"
  ur_chunk_size :: nat
  ur_max_chunks :: "nat option"
  ur_allow_http :: bool
  ur_timeout :: nat
  ur_keep_completed :: bool

definition with_collection_path :: "url_library \<Rightarrow> url \<Rightarrow> url option" where
  "with_collection_path U u =
     url_extend U [''api'', ''v1'', ''uploads'']
       (if suffix [slash] (url_path u) then u else url_set_path U (url_path u @ [slash]) u)"

definition TusClient_new :: "url_library \<Rightarrow> string \<Rightarrow> string \<Rightarrow> bool \<Rightarrow> ('w, tus_client) sending" where
  "TusClient_new U base token allow_http =
     bindo (lifto (demand (\<not> (token = [] \<or> length token > MAX_TOKEN_BYTES \<or> has_control token))
       ''HTTP bearer token is empty, too long, or contains control characters'')) (\<lambda>_.
     bindo (lifto (demand_some ''invalid server base URL'' (url_parse U base))) (\<lambda>u.
     bindo (lifto (demand (url_host u \<noteq> None) ''server base URL must include a host'')) (\<lambda>_.
     bindo (lifto (demand (url_scheme u = ''https'' \<or> url_scheme u = ''http'' \<and> allow_http)
       ''refusing plain HTTP or an unsupported scheme'')) (\<lambda>_.
     bindo (lifto (demand (url_username u = [] \<and> url_password u = None)
       ''server base URL must not contain credentials'')) (\<lambda>_.
     bindo (lifto (demand (url_query u = None \<and> url_fragment u = None)
       ''server base URL must not contain a query string or fragment'')) (\<lambda>_.
     bindo (lifto (demand_some ''server base URL cannot contain path segments'' (with_collection_path U u))) (\<lambda>c.
     bindo (lifto (demand (header_text (''Bearer '' @ token))
       ''HTTP bearer token cannot be represented as a header'')) (\<lambda>_.
     retn \<lparr>tc_collection = c, tc_authorization = ''Bearer '' @ token\<rparr>))))))))"

definition trim_end_slashes :: "string \<Rightarrow> string" where
  "trim_end_slashes p = rev (dropWhile (\<lambda>c. c = slash) (rev p))"

definition validate_upload_url :: "'w outside \<Rightarrow> tus_client \<Rightarrow> string \<Rightarrow> client_error + url" where
  "validate_upload_url V c value =
     (case url_parse (out_urls V) value of
        None \<Rightarrow> Inl (Failure ''tus upload URL is invalid'')
      | Some u \<Rightarrow>
          if url_scheme u \<noteq> url_scheme (tc_collection c) \<or> url_host u \<noteq> url_host (tc_collection c)
            \<or> url_port u \<noteq> url_port (tc_collection c) \<or> url_username u \<noteq> [] \<or> url_password u \<noteq> None
            \<or> url_query u \<noteq> None \<or> url_fragment u \<noteq> None
          then Inl (Failure ''refusing a tus upload URL outside the configured server origin'')
          else
            (case strip_prefix (trim_end_slashes (url_path (tc_collection c)) @ [slash]) (url_path u) of
               None \<Rightarrow> Inl (Failure ''tus upload URL is outside the configured upload collection'')
             | Some upload_id \<Rightarrow>
                 if upload_id = [] \<or> slash \<in> set upload_id \<or> \<not> uuid_canonical (out_ext V) upload_id
                 then Inl (Failure ''tus upload URL does not contain a canonical upload id'')
                 else Inr u))"

text \<open>The headers of every request but the discovery.\<close>

definition tus_headers :: "tus_client \<Rightarrow> headers \<Rightarrow> headers" where
  "tus_headers c extra =
     (''authorization'', tc_authorization c) # (''tus-resumable'', ''1.0.0'')
     # (''cache-control'', ''no-store'') # extra"

definition discover :: "'w outside \<Rightarrow> tus_client \<Rightarrow> ('w, nat) sending" where
  "discover V c =
     bindo (on_world (out_send V \<lparr>rq_method = Options, rq_url = url_string (out_urls V) (tc_collection c),
         rq_headers = [], rq_body = []\<rparr>)) (\<lambda>r.
     bindo (lifto (require_status r [204, 200])) (\<lambda>r.
     bindo (lifto (response_header (hr_headers r) ''tus-version'')) (\<lambda>versions.
     bindo (lifto (demand (''1.0.0'' \<in> set (List.map trim (split_on (CHR '','') versions)))
       ''server does not advertise tus'')) (\<lambda>_.
     bindo (lifto (response_header (hr_headers r) ''tus-extension'')) (\<lambda>extensions.
     bindo (lifto (demand (''creation'' \<in> set (List.map trim (split_on (CHR '','') extensions)))
       ''server does not advertise the tus creation extension'')) (\<lambda>_.
     bindo (lifto (response_header (hr_headers r) ''tus-max-size'')) (\<lambda>n.
     lifto (client_parse_u64 n))))))))"

definition create_remote :: "'w outside \<Rightarrow> tus_client \<Rightarrow> inspection \<Rightarrow> string \<Rightarrow> ('w, url) sending" where
  "create_remote V c i metadata =
     bindo (on_world (out_send V \<lparr>rq_method = Post, rq_url = url_string (out_urls V) (tc_collection c),
         rq_headers = tus_headers c [(''upload-length'', decimal (in_size i)), (''upload-metadata'', metadata)],
         rq_body = []\<rparr>)) (\<lambda>r.
     bindo (lifto (require_status r [201])) (\<lambda>r.
     bindo (lifto (require_tus_response r)) (\<lambda>_.
     bindo (lifto (response_header (hr_headers r) ''location'')) (\<lambda>location.
     bindo (lifto (demand_some ''server returned an invalid tus Location''
       (url_join (out_urls V) (tc_collection c) location))) (\<lambda>u.
     lifto (validate_upload_url V c (url_string (out_urls V) u)))))))"

definition head_remote :: "'w outside \<Rightarrow> tus_client \<Rightarrow> url \<Rightarrow> ('w, remote_upload) sending" where
  "head_remote V c u =
     bindo (on_world (out_send V \<lparr>rq_method = HeadMethod, rq_url = url_string (out_urls V) u,
         rq_headers = tus_headers c [], rq_body = []\<rparr>)) (\<lambda>r.
     bindo (lifto (require_status r [200, 204])) (\<lambda>r.
     bindo (lifto (require_tus_response r)) (\<lambda>_.
     remote_upload_of (hr_headers r))))"

definition patch_remote ::
    "'w outside \<Rightarrow> tus_client \<Rightarrow> url \<Rightarrow> nat \<Rightarrow> bytes \<Rightarrow> ('w, remote_upload) sending" where
  "patch_remote V c u offset chunk =
     bindo (on_world (out_send V \<lparr>rq_method = Patch, rq_url = url_string (out_urls V) u,
         rq_headers = tus_headers c
           [(''content-type'', ''application/offset+octet-stream''), (''upload-offset'', decimal offset)],
         rq_body = chunk\<rparr>)) (\<lambda>r.
       if hr_status r = 409 then
         bindo (lifto (require_tus_response r)) (\<lambda>_.
         bindo (lifto (response_u64 (hr_headers r) ''upload-offset'')) (\<lambda>server_offset.
         bindo (head_remote V c u) (\<lambda>recovered.
           if ru_offset recovered \<noteq> server_offset
           then fails (Failure ''server reported conflicting tus offsets'') else retn recovered)))
       else
         bindo (lifto (require_status r [204])) (\<lambda>r.
         bindo (lifto (require_tus_response r)) (\<lambda>_.
         remote_upload_of (hr_headers r))))"

definition validate_state :: "'w outside \<Rightarrow> tus_client \<Rightarrow> upload_state \<Rightarrow> client_error + unit" where
  "validate_state V c st =
     (if us_schema_version st \<noteq> UPLOAD_STATE_SCHEMA then Inl (Failure ''unsupported upload state schema'')
      else if us_collection_url st \<noteq> url_string (out_urls V) (tc_collection c)
      then Inl (Failure ''upload state belongs to a different server URL'')
      else (case validate_upload_url V c (us_upload_url st) of Inl e \<Rightarrow> Inl e | Inr _ \<Rightarrow> Inr ()))"

section \<open>The transfer\<close>

record upload_outcome =
  uo_uploaded_bytes :: nat
  uo_size :: nat
  uo_sha256 :: string
  uo_delivery_id :: "string option"

definition upload_outcome_of :: "upload_state \<Rightarrow> nat \<Rightarrow> string option \<Rightarrow> upload_outcome" where
  "upload_outcome_of st n i =
     \<lparr>uo_uploaded_bytes = n, uo_size = us_size st, uo_sha256 = us_sha256 st, uo_delivery_id = i\<rparr>"

text \<open>Opening follows links; \<open>read_exact\<close> fails when the file ends early.\<close>

definition source_bytes :: "node option \<Rightarrow> bytes option" where
  "source_bytes x =
     (case x of Some (File b) \<Rightarrow> Some b | Some (Link (Some b)) \<Rightarrow> Some b | _ \<Rightarrow> None)"

definition read_chunk :: "bytes \<Rightarrow> nat \<Rightarrow> nat \<Rightarrow> client_error + bytes" where
  "read_chunk b offset n =
     (if offset + n \<le> length b then Inr (take n (drop offset b)) else Inl (Failure ''failed to read source file''))"

definition send_chunk ::
    "'w outside \<Rightarrow> tus_client \<Rightarrow> url \<Rightarrow> upload_state \<Rightarrow> string \<Rightarrow> bytes \<Rightarrow> nat \<Rightarrow> nat
       \<Rightarrow> ('w, remote_upload) sending" where
  "send_chunk V c u st expected b chunk_size offset =
     bindo (lifto (read_chunk b offset (min (us_size st - offset) chunk_size))) (\<lambda>chunk.
     bindo (or_discard (patch_remote V c u offset chunk)) (\<lambda>r.
     bindo (lifto (validate_remote_upload st expected r)) (\<lambda>_.
     if ru_offset r \<le> offset then fails (Failure ''server did not advance the tus upload offset'')
     else retn r)))"

definition limit_reached :: "nat option \<Rightarrow> nat \<Rightarrow> bool" where
  "limit_reached limit n = (case limit of None \<Rightarrow> False | Some l \<Rightarrow> n \<ge> l)"

text \<open>The loop ends with the last reply, and whether the transfer paused.\<close>

function (sequential) upload_loop ::
    "'w outside \<Rightarrow> tus_client \<Rightarrow> url \<Rightarrow> upload_state \<Rightarrow> string \<Rightarrow> bytes \<Rightarrow> upload_request \<Rightarrow> bool
       \<Rightarrow> nat \<Rightarrow> remote_upload \<Rightarrow> ('w, remote_upload \<times> bool) sending" where
  "upload_loop V c u st expected b q go sent r s =
     (if \<not> ru_offset r < us_size st then (Inr (r, False), s)
      else if \<not> go then (Inr (r, True), s)
      else
        (case out_event V (Progress (ru_offset r) (us_size st)) (sn_world s) of
           (False, w) \<Rightarrow> (Inr (r, True), s\<lparr>sn_world := w\<rparr>)
         | (True, w) \<Rightarrow>
             (case send_chunk V c u st expected b (ur_chunk_size q) (ru_offset r) (s\<lparr>sn_world := w\<rparr>) of
                (Inl e, s2) \<Rightarrow> (Inl e, s2)
              | (Inr r', s2) \<Rightarrow>
                  if limit_reached (ur_max_chunks q) (sent + 1) \<and> ru_offset r' < us_size st
                  then bindo (tell V (Progress (ru_offset r') (us_size st))) (\<lambda>_. retn (r', True)) s2
                  else upload_loop V c u st expected b q go (sent + 1) r' s2)))"
  by pat_completeness auto

lemma send_chunk_advances:
  "send_chunk V c u st expected b n offset s = (Inr r, t) \<Longrightarrow> offset < ru_offset r \<and> ru_offset r \<le> us_size st"
  by (auto simp: send_chunk_def bindo_ok lifto_ok validate_remote_upload_def split: if_splits)

termination upload_loop
  by (relation "measure (\<lambda>(V, c, u, st, expected, b, q, go, sent, r, s). us_size st - ru_offset r)")
    (auto dest!: send_chunk_advances [OF sym])

declare upload_loop.simps [simp del]

text \<open>Before the transfer: resume what the state file describes, or create an upload.\<close>

definition resume_upload ::
    "'w outside \<Rightarrow> tus_client \<Rightarrow> upload_request \<Rightarrow> ('w, upload_state \<times> inspection \<times> bool) sending" where
  "resume_upload V c q =
     bindo load_state (\<lambda>st.
     bindo (lifto (validate_state V c st)) (\<lambda>_.
     bindo (lifto (demand (us_directory st = ur_directory q)
       ''Directory path/version differs from saved upload state.'')) (\<lambda>_.
     bindo (lifto (demand_ok (inspect_file (out_ext V) (ur_source q) (us_size st)))) (\<lambda>i.
     bindo (lifto (validate_source_state st i (ur_name q))) (\<lambda>_.
     bindo (lifto (validate_upload_name (us_original_name st))) (\<lambda>_.
     bindo (tell V (Resuming (us_upload_url st))) (\<lambda>go.
     retn (st, i, go))))))))"

definition start_upload ::
    "'w outside \<Rightarrow> tus_client \<Rightarrow> upload_request \<Rightarrow> ('w, upload_state \<times> inspection \<times> bool) sending" where
  "start_upload V c q =
     bindo (discover V c) (\<lambda>mx.
     bindo (lifto (demand_ok (inspect_file (out_ext V) (ur_source q) mx))) (\<lambda>i.
     bindo (lifto (case ur_name q of
         Some n \<Rightarrow> Inr n
       | None \<Rightarrow> demand_some ''file name is not valid UTF-8; pass --name'' (ur_file_name q))) (\<lambda>name.
     bindo (lifto (validate_upload_name name)) (\<lambda>_.
     bindo (create_remote V c i (directory_metadata_header (out_codecs V) name i (ur_directory q))) (\<lambda>u.
       let st = \<lparr>us_schema_version = UPLOAD_STATE_SCHEMA,
           us_collection_url = url_string (out_urls V) (tc_collection c),
           us_upload_url = url_string (out_urls V) u, us_original_name = name, us_size = in_size i,
           us_sha256 = in_sha256 i, us_media_type = in_media_type i, us_directory = ur_directory q\<rparr>
       in
     bindo (save_state st) (\<lambda>_.
     bindo (tell V (Created (us_upload_url st))) (\<lambda>go.
     retn (st, i, go))))))))"

definition finish_upload ::
    "'w outside \<Rightarrow> tus_client \<Rightarrow> url \<Rightarrow> upload_state \<Rightarrow> string \<Rightarrow> upload_request \<Rightarrow> remote_upload
       \<Rightarrow> ('w, upload_outcome) sending" where
  "finish_upload V c u st expected q r =
     bindo (if ru_delivery_id r = None then
         bindo (or_discard (head_remote V c u)) (\<lambda>r'.
         bindo (lifto (validate_remote_upload st expected r')) (\<lambda>_. retn r'))
       else retn r) (\<lambda>r'.
     bindo (lifto (demand_some ''server reached the final tus offset without confirming a MiRelay delivery id''
       (ru_delivery_id r'))) (\<lambda>did.
     bindo (lifto (demand_ok (validate_delivery_id did))) (\<lambda>_.
     bindo (if \<not> ur_keep_completed q then remove_state else retn ()) (\<lambda>_.
     bindo (tell V (Progress (us_size st) (us_size st))) (\<lambda>_.
     retn (upload_outcome_of st (us_size st) (Some did)))))))"

definition upload_with_events :: "'w outside \<Rightarrow> upload_request \<Rightarrow> ('w, upload_outcome) sending" where
  "upload_with_events V q =
     bindo (lifto (demand (1 \<le> ur_chunk_size q \<and> ur_chunk_size q \<le> MAX_CHUNK_SIZE \<and> 1 \<le> ur_timeout q
         \<and> ur_timeout q \<le> 3600 \<and> ur_max_chunks q \<noteq> Some 0)
       ''invalid upload chunk size, timeout, or chunk limit'')) (\<lambda>_.
     bindo (lifto (case ur_name q of None \<Rightarrow> Inr () | Some n \<Rightarrow> validate_upload_name n)) (\<lambda>_.
     bindo (lifto (case ur_directory q of None \<Rightarrow> Inr () | Some v \<Rightarrow> demand_ok (validate_version v))) (\<lambda>_.
     bindo (TusClient_new (out_urls V) (ur_server_url q) (ur_token q) (ur_allow_http q)) (\<lambda>c.
     bindo (lifto (demand (\<not> ur_same_file q) ''source file and resume state must be different files'')) (\<lambda>_.
     bindo (lifto (demand (\<not> ur_locked q) ''another process holds the state lock'')) (\<lambda>_.
     bindo (readso (\<lambda>s. Inr (sn_state s \<noteq> NoState))) (\<lambda>exists.
     bindo (if exists then resume_upload V c q else start_upload V c q) (\<lambda>(st, i, go).
     bindo (lifto (validate_upload_url V c (us_upload_url st))) (\<lambda>u.
       let expected = directory_metadata_header (out_codecs V) (us_original_name st) i (us_directory st) in
     bindo (or_discard (head_remote V c u)) (\<lambda>r.
     bindo (lifto (validate_remote_upload st expected r)) (\<lambda>_.
     bindo (lifto (demand_some ''failed to open source file'' (source_bytes (ur_source q)))) (\<lambda>b.
     bindo (upload_loop V c u st expected b q go 0 r) (\<lambda>(r', paused).
       if paused then retn (upload_outcome_of st (ru_offset r') None)
       else finish_upload V c u st expected q r')))))))))))))"

end
