(* ===== verification/Content.thy ===== *)
theory Content
  imports Samples Library Directory
begin

text \<open>
  What the inspection of contents, the content library and the directory inventories promise:
  text against the definition of UTF-8, a received delivery against its declaration, an
  inventory as a tree of files, and the comparison of two inventories.
\<close>

section \<open>Text, as the Unicode standard defines it\<close>

text \<open>The scalar values, their encoding in UTF-8, and the ones a plain text may hold.\<close>

definition scalar :: "nat \<Rightarrow> bool" where
  "scalar c \<longleftrightarrow> c < 0xD800 \<or> 0xE000 \<le> c \<and> c < 0x110000"

definition utf8_encode :: "nat \<Rightarrow> bytes" where
  "utf8_encode c = List.map char_of
     (if c < 0x80 then [c]
      else if c < 0x800 then [192 + c div 64, 128 + c mod 64]
      else if c < 0x10000 then [224 + c div 4096, 128 + c div 64 mod 64, 128 + c mod 64]
      else [240 + c div 262144, 128 + c div 4096 mod 64, 128 + c div 64 mod 64, 128 + c mod 64])"

definition printable :: "nat \<Rightarrow> bool" where
  "printable c \<longleftrightarrow> c \<in> {9, 10, 13} \<or> \<not> (c < 32 \<or> 127 \<le> c \<and> c < 160)"

lemma byte_char_of: "n < 256 \<Longrightarrow> byte (char_of n) = n"
  by simp

lemma char_of_byte: "char_of (byte a) = a"
  by simp

lemma scalar_cases [consumes 1]:
  assumes "scalar c"
  obtains "c < 0x80" | "0x80 \<le> c" "c < 0x800" | "0x800 \<le> c" "c < 0x10000" "c < 0xD800 \<or> 0xE000 \<le> c"
    | "0x10000 \<le> c" "c < 0x110000"
  using assms unfolding scalar_def by linarith

text \<open>The code point that the bits of two, three or four bytes stand for.\<close>

lemma encode_2: "2 \<le> x \<Longrightarrow> x < 32 \<Longrightarrow> z < 64 \<Longrightarrow>
    utf8_encode (64 * x + z) = [char_of (192 + x), char_of (128 + z)]"
  by (simp add: utf8_encode_def)

lemma encode_3:
  assumes "x < 16" "y < 64" "z < 64" "0x800 \<le> 4096 * x + 64 * y + z"
  shows "utf8_encode (4096 * x + 64 * y + z) = [char_of (224 + x), char_of (128 + y), char_of (128 + z)]"
proof -
  let ?c = "4096 * x + 64 * y + z"
  have "?c div 4096 = x" "?c div 64 = 64 * x + y" using assms by auto
  moreover have "?c = 64 * (64 * x + y) + z" by simp
  then have "?c mod 64 = z" using assms(3) by (simp del: distrib_left distrib_left_numeral)
  moreover have "(64 * x + y) mod 64 = y" using assms by simp
  ultimately show ?thesis using assms by (simp add: utf8_encode_def)
qed

lemma encode_4:
  assumes "w < 5" "x < 64" "y < 64" "z < 64" "0x10000 \<le> 262144 * w + 4096 * x + 64 * y + z"
  shows "utf8_encode (262144 * w + 4096 * x + 64 * y + z) =
    [char_of (240 + w), char_of (128 + x), char_of (128 + y), char_of (128 + z)]"
proof -
  let ?c = "262144 * w + 4096 * x + 64 * y + z"
  have "?c div 262144 = w" "?c div 4096 = 64 * w + x" "?c div 64 = 4096 * w + 64 * x + y"
    using assms by auto
  moreover have "?c = 64 * (4096 * w + 64 * x + y) + z" by simp
  then have "?c mod 64 = z" using assms(4) by (simp del: distrib_left distrib_left_numeral)
  moreover have "(64 * w + x) mod 64 = x" using assms(2) by simp
  moreover have "4096 * w + 64 * x + y = 64 * (64 * w + x) + y" by simp
  then have "(4096 * w + 64 * x + y) mod 64 = y" using assms(3) by (simp del: distrib_left distrib_left_numeral)
  ultimately show ?thesis using assms by (simp add: utf8_encode_def)
qed

lemma split_2: "\<exists>x z. (c :: nat) = 64 * x + z \<and> z < 64"
  by (rule exI [of _ "c div 64"], rule exI [of _ "c mod 64"]) simp

lemma split_3: "\<exists>x y z. (c :: nat) = 4096 * x + 64 * y + z \<and> y < 64 \<and> z < 64"
proof -
  obtain a z where "c = 64 * a + z" "z < 64" using split_2 by blast
  moreover obtain x y where "a = 64 * x + y" "y < 64" using split_2 by blast
  ultimately show ?thesis by (intro exI [of _ x] exI [of _ y] exI [of _ z]) simp
qed

lemma split_4: "\<exists>w x y z. (c :: nat) = 262144 * w + 4096 * x + 64 * y + z \<and> x < 64 \<and> y < 64 \<and> z < 64"
proof -
  obtain a y z where "c = 4096 * a + 64 * y + z" "y < 64" "z < 64" using split_3 by blast
  moreover obtain w x where "a = 64 * w + x" "x < 64" using split_2 by blast
  ultimately show ?thesis by (intro exI [of _ w] exI [of _ x] exI [of _ y] exI [of _ z]) simp
qed

text \<open>An encoded scalar value is one well-formed character, and each such character is one.\<close>

definition one_char :: "bytes \<Rightarrow> bool" where
  "one_char e \<longleftrightarrow> (\<exists>a k. e = a # k \<and> (\<forall>r. utf8_next a (k @ r) = WellFormed (length k)))"

lemma one_char_encode:
  assumes "scalar c"
  shows "one_char (utf8_encode c)"
  using assms
proof (cases rule: scalar_cases)
  case 1
  then show ?thesis by (simp add: one_char_def utf8_encode_def utf8_next_def char_width_def)
next
  case 2
  obtain x z where c: "c = 64 * x + z" "z < 64" using split_2 by blast
  with 2 have "2 \<le> x" "x < 32" by auto
  with c show ?thesis
    by (simp add: encode_2 one_char_def utf8_next_def char_width_def second_ok_def)
next
  case 3
  obtain x y z where c: "c = 4096 * x + 64 * y + z" "y < 64" "z < 64" using split_3 by blast
  with 3 have x: "x < 16" "x = 0 \<Longrightarrow> 32 \<le> y" "x = 13 \<Longrightarrow> y < 32" by auto
  then have "second_ok (char_of (224 + x)) (char_of (128 + y))" using c by (auto simp: second_ok_def)
  with c x 3 show ?thesis
    by (simp add: encode_3 one_char_def utf8_next_def char_width_def is_cont_def)
next
  case 4
  obtain w x y z where c: "c = 262144 * w + 4096 * x + 64 * y + z" "x < 64" "y < 64" "z < 64" using split_4 by blast
  with 4 have w: "w < 5" "w = 0 \<Longrightarrow> 16 \<le> x" "w = 4 \<Longrightarrow> x < 16" by auto
  then have "w = 0 \<and> 16 \<le> x \<or> 1 \<le> w \<and> w \<le> 3 \<or> w = 4 \<and> x < 16" by linarith
  then have "second_ok (char_of (240 + w)) (char_of (128 + x))" using c by (auto simp: second_ok_def)
  with c w 4 show ?thesis
    by (simp add: encode_4 one_char_def utf8_next_def char_width_def is_cont_def)
qed

lemma low_bits: "128 \<le> byte a \<Longrightarrow> byte a \<le> 191 \<Longrightarrow> \<exists>z :: nat. z < 64 \<and> a = char_of (128 + z)"
  by (rule exI [of _ "byte a - 128"]) simp

lemma second_3:
  assumes "char_width a = 3" "second_ok a b"
  obtains x y :: nat where "a = char_of (224 + x)" "b = char_of (128 + y)" "x < 16" "y < 64"
    "x = 0 \<longrightarrow> 32 \<le> y" "x = 13 \<longrightarrow> y < 32"
proof
  have a: "224 \<le> byte a" "byte a \<le> 239" using assms(1) by (auto simp: char_width_def Let_def split: if_splits)
  moreover from a assms(2) have "128 \<le> byte b" "byte b \<le> 191" "byte a = 224 \<longrightarrow> 160 \<le> byte b"
    "byte a - 224 = 13 \<longrightarrow> byte b \<le> 159" by (auto simp: second_ok_def Let_def)
  ultimately show "a = char_of (224 + (byte a - 224))" "b = char_of (128 + (byte b - 128))" "byte a - 224 < 16"
    "byte b - 128 < 64" "byte a - 224 = 0 \<longrightarrow> 32 \<le> byte b - 128" "byte a - 224 = 13 \<longrightarrow> byte b - 128 < 32"
    by (simp_all, (linarith | arith | auto)+)
qed

lemma second_4:
  assumes "char_width a = 4" "second_ok a b"
  obtains w x :: nat where "a = char_of (240 + w)" "b = char_of (128 + x)" "w < 5" "x < 64"
    "w = 0 \<longrightarrow> 16 \<le> x" "w = 4 \<longrightarrow> x < 16"
proof
  have a: "240 \<le> byte a" "byte a \<le> 244" using assms(1) by (auto simp: char_width_def Let_def split: if_splits)
  moreover from a assms(2) have "128 \<le> byte b" "byte b \<le> 191" "byte a = 240 \<longrightarrow> 144 \<le> byte b"
    "byte a - 240 = 4 \<longrightarrow> byte b \<le> 143" by (auto simp: second_ok_def Let_def)
  ultimately show "a = char_of (240 + (byte a - 240))" "b = char_of (128 + (byte b - 128))" "byte a - 240 < 5"
    "byte b - 128 < 64" "byte a - 240 = 0 \<longrightarrow> 16 \<le> byte b - 128" "byte a - 240 = 4 \<longrightarrow> byte b - 128 < 16"
    by (simp_all, (linarith | arith | auto)+)
qed

lemma cont_bits: "is_cont a \<Longrightarrow> \<exists>z :: nat. z < 64 \<and> a = char_of (128 + z)"
  using low_bits by (simp add: is_cont_def)

lemma next_decoded:
  assumes "utf8_next a r = WellFormed k"
  shows "\<exists>c. scalar c \<and> a # take k r = utf8_encode c"
proof -
  consider "byte a < 128" "k = 0"
    | b r' where "r = b # r'" "k = 1" "char_width a = 2" "second_ok a b"
    | b c r' where "r = b # c # r'" "k = 2" "char_width a = 3" "second_ok a b" "is_cont c"
    | b c d r' where "r = b # c # d # r'" "k = 3" "char_width a = 4" "second_ok a b" "is_cont c" "is_cont d"
    using assms by (auto simp: utf8_next_def char_width_def Let_def split: if_splits list.splits)
  then show ?thesis
  proof cases
    case 1
    then show ?thesis by (intro exI [of _ "byte a"]) (simp add: scalar_def utf8_encode_def)
  next
    case 2
    then have a: "194 \<le> byte a" "byte a \<le> 223" "128 \<le> byte b" "byte b \<le> 191"
      by (auto simp: char_width_def second_ok_def Let_def split: if_splits)
    define x z where "x = byte a - 192" and "z = byte b - 128"
    with a have e: "a = char_of (192 + x)" "b = char_of (128 + z)" and n: "2 \<le> x" "x < 32" "z < 64" by auto
    show ?thesis
      by (rule exI [of _ "64 * x + z"]) (use n in \<open>auto simp: 2 e encode_2 scalar_def\<close>)
  next
    case 3
    obtain x y :: nat where e: "a = char_of (224 + x)" "b = char_of (128 + y)" and n: "x < 16" "y < 64"
      "x = 0 \<longrightarrow> 32 \<le> y" "x = 13 \<longrightarrow> y < 32" using second_3 [OF 3(3,4)] by blast
    obtain z :: nat where z: "z < 64" "c = char_of (128 + z)" using cont_bits [OF 3(5)] by blast
    have l: "0x800 \<le> 4096 * x + 64 * y + z" using n(3) by (cases "x = 0") auto
    have "x < 13 \<or> x = 13 \<and> y < 32 \<or> 13 < x" using n by linarith
    then have "scalar (4096 * x + 64 * y + z)" using n z by (auto simp: scalar_def)
    with encode_3 [OF n(1,2) z(1) l] show ?thesis
      by (intro exI [of _ "4096 * x + 64 * y + z"]) (simp add: 3 e z)
  next
    case 4
    obtain w x :: nat where e: "a = char_of (240 + w)" "b = char_of (128 + x)" and n: "w < 5" "x < 64"
      "w = 0 \<longrightarrow> 16 \<le> x" "w = 4 \<longrightarrow> x < 16" using second_4 [OF 4(3,4)] by blast
    obtain y z :: nat where z: "y < 64" "c = char_of (128 + y)" "z < 64" "d = char_of (128 + z)"
      using cont_bits [OF 4(5)] cont_bits [OF 4(6)] by blast
    have l: "0x10000 \<le> 262144 * w + 4096 * x + 64 * y + z" using n(3) by (cases "w = 0") auto
    have "w < 4 \<or> w = 4 \<and> x < 16" using n by linarith
    then have "scalar (262144 * w + 4096 * x + 64 * y + z)" using n z l by (auto simp: scalar_def)
    with encode_4 [OF n(1,2) z(1,3) l] show ?thesis
      by (intro exI [of _ "262144 * w + 4096 * x + 64 * y + z"]) (simp add: 4 e z)
  qed
qed

lemma scan_encode: "list_all scalar cps \<Longrightarrow>
    utf8_scan (concat (List.map utf8_encode cps)) = (List.map utf8_encode cps, [], Complete)"
proof (induction cps)
  case Nil
  then show ?case by simp
next
  case (Cons c cps)
  from Cons.prems have "one_char (utf8_encode c)" by (simp add: one_char_encode)
  then obtain a k where "utf8_encode c = a # k" "\<And>r. utf8_next a (k @ r) = WellFormed (length k)"
    unfolding one_char_def by blast
  with Cons show ?case by simp
qed

lemma scan_decode: "utf8_scan s = (cs, rest, Complete) \<Longrightarrow> \<exists>cps. list_all scalar cps \<and> cs = List.map utf8_encode cps"
proof (induction s arbitrary: cs rest rule: utf8_scan.induct)
  case 1
  then show ?case by (intro exI [of _ "[]"]) simp
next
  case (2 a r)
  then obtain k ds q where k: "utf8_next a r = WellFormed k" "utf8_scan (drop k r) = (ds, q, Complete)"
    "cs = (a # take k r) # ds"
    by (auto split: utf8_step.splits prod.splits)
  from "2.IH" [OF k(1,2)] obtain cps where "list_all scalar cps" "ds = List.map utf8_encode cps" by blast
  moreover obtain c where "scalar c" "a # take k r = utf8_encode c" using next_decoded [OF k(1)] by blast
  ultimately show ?case by (intro exI [of _ "c # cps"]) (simp add: k(3))
qed

lemma encode_plain:
  assumes "scalar c"
  shows "is_plain_text_character (utf8_encode c) = printable c"
  using assms
proof (cases rule: scalar_cases)
  case 1
  have "[char_of c] = [d] \<longleftrightarrow> c = byte d" for d :: char using 1 by auto
  with 1 show ?thesis
    by (auto simp: utf8_encode_def is_plain_text_character_def printable_def)
next
  case 2
  obtain x z where c: "c = 64 * x + z" "z < 64" using split_2 by blast
  with 2 have x: "2 \<le> x" "x < 32" by auto
  have "192 + x = 194 \<and> 128 + z \<le> 159 \<longleftrightarrow> c < 160" using c x by auto
  with c x show ?thesis
    by (auto simp: encode_2 is_plain_text_character_def printable_def)
next
  case 3
  obtain x y z where c: "c = 4096 * x + 64 * y + z" "y < 64" "z < 64" using split_3 by blast
  with 3 have "x < 16" by auto
  with c 3 show ?thesis
    by (simp add: encode_3 is_plain_text_character_def printable_def)
next
  case 4
  obtain w x y z where c: "c = 262144 * w + 4096 * x + 64 * y + z" "x < 64" "y < 64" "z < 64" using split_4 by blast
  with 4 have "w < 5" by auto
  with c 4 show ?thesis
    by (simp add: encode_4 is_plain_text_character_def printable_def)
qed

lemma plain_text_iff:
  "plain_text b \<longleftrightarrow> (\<exists>cps. list_all (\<lambda>c. scalar c \<and> printable c) cps \<and> b = concat (List.map utf8_encode cps))"
proof
  assume p: "plain_text b"
  then obtain cs r where sc: "utf8_scan b = (cs, r, Complete)" and a: "list_all is_plain_text_character cs"
    by (auto simp: plain_text_def split: prod.splits utf8_end.splits)
  obtain cps where cps: "list_all scalar cps" "cs = List.map utf8_encode cps" using scan_decode [OF sc] by blast
  with a have "list_all (\<lambda>c. scalar c \<and> printable c) cps" by (auto simp: list_all_iff encode_plain)
  moreover have "b = concat cs" using utf8_scan_rest [OF sc] by simp
  ultimately show "\<exists>cps. list_all (\<lambda>c. scalar c \<and> printable c) cps \<and> b = concat (List.map utf8_encode cps)"
    using cps by blast
next
  assume "\<exists>cps. list_all (\<lambda>c. scalar c \<and> printable c) cps \<and> b = concat (List.map utf8_encode cps)"
  then obtain cps where c: "list_all (\<lambda>c. scalar c \<and> printable c) cps" and b: "b = concat (List.map utf8_encode cps)"
    by blast
  then have "utf8_scan b = (List.map utf8_encode cps, [], Complete)" by (simp add: scan_encode list_all_iff)
  with c show "plain_text b" by (auto simp: plain_text_def list_all_iff encode_plain)
qed

text \<open>
  C35. However the bytes of a stream are cut into reads, the incremental probe ends with the
  verdict that they are plain text exactly when they are the UTF-8 encoding of a sequence of
  Unicode scalar values without control characters other than tab, line feed and carriage
  return; so no character is lost or misread at a boundary.
\<close>

theorem text_probe_streaming:
  "probe_is_plain_text (fold (\<lambda>b p. probe_observe p b) bs probe_default) \<longleftrightarrow>
     (\<exists>cps. list_all (\<lambda>c. scalar c \<and> printable c) cps \<and> concat bs = concat (List.map utf8_encode cps))"
  using fold_probe_observe [of bs "[]"] by (simp add: probe_of_Nil probe_of_plain plain_text_iff)

section \<open>Receiving\<close>

lemma receive_effect:
  assumes "receive X d (List.map Chunk bs) mx root = (r, root')" and "[] \<notin> set bs"
  shows "(case r of
      Inr asset \<Rightarrow> valid_metadata d mx \<and> length (concat bs) = d_size d \<and> d_size d \<le> mx
        \<and> sha256_hex X (concat bs) = d_sha256 d
        \<and> (\<exists>x. extension_for_media_type (d_media_type d) = Some x
             \<and> sa_path asset = (take 2 (d_sha256 d), object_name (d_sha256 d) x))
        \<and> holds_content X (obj_at root' (fst (sa_path asset)) (snd (sa_path asset)))
             (d_size d) (d_sha256 d) (d_media_type d)
        \<and> (\<forall>s n. s \<noteq> STAGING_DIR_NAME \<longrightarrow> (s, n) \<noteq> sa_path asset \<longrightarrow> obj_at root' s n = obj_at root s n)
    | Inl _ \<Rightarrow> (\<forall>s n. s \<noteq> STAGING_DIR_NAME \<longrightarrow> obj_at root' s n = obj_at root s n))"
proof (cases r)
  case (Inl e)
  with receive_frame [OF assms(1)] show ?thesis by auto
next
  case (Inr asset)
  let ?i = "inspection_of X (concat bs)"
  note f = receive_Inr [OF assms(1) [unfolded Inr] assms(2)]
  then obtain r2 where c: "commit_object X mx ?i (concat bs) r2 = (Inr asset, root')" by blast
  note a = commit_object_ok [OF c]
  have m: "in_size ?i = d_size d" "in_sha256 ?i = d_sha256 d" "in_media_type ?i = d_media_type d"
    using f by (auto simp: inspectable_def)
  have "extension_for_media_type (d_media_type d) = Some (in_extension ?i)"
    using inspection_of_extension [of X "concat bs"] by (simp add: m)
  moreover have "obj_at root' s n = obj_at root s n" if "s \<noteq> STAGING_DIR_NAME" "(s, n) \<noteq> sa_path asset" for s n
    using receive_frame [OF assms(1) that(1), of n] that(2) Inr by auto
  ultimately show ?thesis
    using f a m by (auto simp: Inr inspectable_def valid_metadata_iff)
qed

text \<open>
  C36. A delivery is received exactly for what it declares: on success the bytes read have the
  declared size, digest and type and obey the limit, the object at the content address of the
  digest holds such content, and every other object of the library is as before. On failure every
  object is as before. Only the staging directory may differ.
\<close>

theorem receive_contract:
  assumes "receive X d (List.map Chunk bs) mx root = (r, root')" and "[] \<notin> set bs"
  shows "(case r of
      Inr asset \<Rightarrow> valid_metadata d mx \<and> length (concat bs) = d_size d \<and> d_size d \<le> mx
        \<and> sha256_hex X (concat bs) = d_sha256 d
        \<and> (\<exists>x. extension_for_media_type (d_media_type d) = Some x
             \<and> sa_path asset = (take 2 (d_sha256 d), object_name (d_sha256 d) x))
        \<and> holds_content X (obj_at root' (fst (sa_path asset)) (snd (sa_path asset)))
             (d_size d) (d_sha256 d) (d_media_type d)
        \<and> (\<forall>s n. s \<noteq> STAGING_DIR_NAME \<longrightarrow> (s, n) \<noteq> sa_path asset \<longrightarrow> obj_at root' s n = obj_at root s n)
    | Inl _ \<Rightarrow> (\<forall>s n. s \<noteq> STAGING_DIR_NAME \<longrightarrow> obj_at root' s n = obj_at root s n))"
  using assms by (rule receive_effect)

definition sample_delivery :: delivery where
  "sample_delivery = \<lparr>d_schema_version = MANIFEST_SCHEMA_VERSION, d_id = sample_id (CHR ''1''), d_original_name = ''a.png'',
     d_payload = [], d_size = 12, d_sha256 = sample_sha, d_media_type = ''image/png'', d_created_at_unix = None\<rparr>"

lemma sample_received:
  "\<exists>asset root. receive sample_ext sample_delivery (List.map Chunk [take 5 sample_png, drop 5 sample_png]) 1024 []
     = (Inr asset, root)"
proof -
  have n: "[] \<notin> set [take 5 sample_png, drop 5 sample_png]" by (simp add: sample_png_def)
  have c: "concat [take 5 sample_png, drop 5 sample_png] = sample_png" by simp
  have "copy_and_inspect sample_ext 1024 (Some 12) (List.map Chunk [take 5 sample_png, drop 5 sample_png])
      = Inr (\<lparr>in_size = 12, in_sha256 = sample_sha, in_media_type = ''image/png'', in_extension = ''png''\<rparr>, sample_png)"
    unfolding copy_and_inspect_chunks [OF n] c by (simp add: sample_inspectable sample_inspection)
  moreover have "ensure_staging_directory [] = (Inr (), [(STAGING_DIR_NAME, Dir [(STAGING_OWNER_FILE, File STAGING_OWNER_CONTENT)])])"
    by (simp add: ensure_staging_directory_def bindo_def ensure_child_directory_def claim_staging_def child_def)
  moreover have "valid_metadata sample_delivery 1024"
    by (simp add: valid_metadata_iff sample_delivery_def extension_for_media_type_def valid_component_iff ascii_defs)
  moreover have "STAGING_DIR_NAME \<noteq> ''89''" by (simp add: STAGING_DIR_NAME_def)
  ultimately show ?thesis
    by (simp add: receive_def op_ok Let_def sample_delivery_def valid_sha256_lower sample_shard
        ensure_child_directory_def commit_object_def obj_at_def child_def put_obj_def target_exists_def)
qed

theorem receive_contract_witness:
  "\<exists>asset root. receive sample_ext sample_delivery (List.map Chunk [take 5 sample_png, drop 5 sample_png]) 1024 []
       = (Inr asset, root)
     \<and> holds_content sample_ext (obj_at root (fst (sa_path asset)) (snd (sa_path asset))) 12 sample_sha ''image/png''"
proof -
  have n: "[] \<notin> set [take 5 sample_png, drop 5 sample_png]" by (simp add: sample_png_def)
  obtain asset root where "receive sample_ext sample_delivery (List.map Chunk [take 5 sample_png, drop 5 sample_png]) 1024 []
     = (Inr asset, root)" using sample_received by blast
  with receive_contract [OF this n] show ?thesis by (auto simp: sample_delivery_def)
qed

section \<open>Inventories as trees of files\<close>

lemma strict_prefix_append [simp]: "strict_prefix (a @ x) (a @ y) = strict_prefix x y"
  by (auto simp: strict_prefix_def)

text \<open>
  C37. An accepted inventory is a tree of files below whatever directory it is placed in: every
  path leads to a place of its own, strictly below that directory and by components that are
  neither special nor reserved, and no file's place is a directory of another's. There are at
  most 5,000 entries, and none is so long or nested that it could not be created.
\<close>

theorem inventory_tree:
  assumes v: "validate_inventory X v = Inr u" and e: "e \<in> set (inv_entries v)" and f: "f \<in> set (inv_entries v)"
  shows "strict_prefix root (resolve root (split_on slash (ie_path e)))
     \<and> list_all safe_component (drop (length root) (resolve root (split_on slash (ie_path e))))
     \<and> length (resolve root (split_on slash (ie_path e))) \<le> length root + 17
     \<and> (prefix (resolve root (split_on slash (ie_path e))) (resolve root (split_on slash (ie_path f))) \<longrightarrow> e = f)
     \<and> length (inv_entries v) \<le> 5000"
proof -
  have i: "valid_inventory X v" using v by simp
  have r: "resolve root (split_on slash (ie_path g)) = root @ split_on slash (ie_path g)
      \<and> list_all safe_component (split_on slash (ie_path g)) \<and> length (split_on slash (ie_path g)) \<le> 17"
    if "g \<in> set (inv_entries v)" for g
    using i that by (auto simp: valid_inventory_iff valid_entry_def valid_path_iff list_all_iff intro!: resolve_safe)
  have "e = f" if "prefix (split_on slash (ie_path e)) (split_on slash (ie_path f))"
  proof -
    have "\<not> strict_prefix (split_on slash (ie_path e)) (split_on slash (ie_path f))"
      using i e f by (auto simp: valid_inventory_iff tree_consistent_def)
    with that have "split_on slash (ie_path e) = split_on slash (ie_path f)" by (simp add: strict_prefix_def)
    then have "ie_path e = ie_path f" by (rule split_on_inj)
    with i e f show ?thesis by (auto simp: valid_inventory_iff distinct_map inj_on_def)
  qed
  moreover have "split_on slash (ie_path e) \<noteq> []" by simp
  moreover have "length (inv_entries v) \<le> 5000" using i by (simp add: valid_inventory_iff MAX_ENTRIES_def)
  ultimately show ?thesis using r [OF e] r [OF f] by (simp add: strict_prefix_def)
qed

section \<open>Comparing inventories\<close>

definition same_content :: "inventory_entry \<Rightarrow> inventory_entry \<Rightarrow> bool" where
  "same_content e f \<longleftrightarrow> ie_path f = ie_path e \<and> ie_sha256 f = ie_sha256 e \<and> ie_size f = ie_size e"

lemma same_content_eq: "same_content e f \<longleftrightarrow> e = f"
  by (cases e; cases f) (auto simp: same_content_def)

lemma inv_map_Some:
  "valid_inventory X v \<Longrightarrow> inv_map v p = Some e \<longleftrightarrow> e \<in> set (inv_entries v) \<and> ie_path e = p"
  unfolding inv_map_def
  by (subst map_of_eq_Some_iff) (auto simp: valid_inventory_iff comp_def)

lemma inv_map_None: "inv_map v p = None \<longleftrightarrow> p \<notin> ie_path ` set (inv_entries v)"
  by (auto simp: inv_map_def map_of_eq_None_iff image_image)

lemma verdict_cases:
  assumes "valid_inventory X r"
  shows "entry_verdict (inv_map r) e = 0 \<longleftrightarrow> ie_path e \<notin> ie_path ` set (inv_entries r)"
    and "entry_verdict (inv_map r) e = 1 \<longleftrightarrow> e \<in> set (inv_entries r)"
    and "entry_verdict (inv_map r) e = 2 \<longleftrightarrow> e \<notin> set (inv_entries r) \<and> ie_path e \<in> ie_path ` set (inv_entries r)"
proof -
  consider "inv_map r (ie_path e) = None" | f where "inv_map r (ie_path e) = Some f" by (cases "inv_map r (ie_path e)")
  then have "(entry_verdict (inv_map r) e = 0 \<longleftrightarrow> ie_path e \<notin> ie_path ` set (inv_entries r))
    \<and> (entry_verdict (inv_map r) e = 1 \<longleftrightarrow> e \<in> set (inv_entries r))
    \<and> (entry_verdict (inv_map r) e = 2 \<longleftrightarrow> e \<notin> set (inv_entries r) \<and> ie_path e \<in> ie_path ` set (inv_entries r))"
  proof cases
    case 1
    then have "ie_path e \<notin> ie_path ` set (inv_entries r)" by (simp add: inv_map_None)
    with 1 show ?thesis by (auto simp: entry_verdict_def)
  next
    case 2
    then have f: "f \<in> set (inv_entries r)" "ie_path f = ie_path e" using inv_map_Some [OF assms] by blast+
    have "e \<in> set (inv_entries r) \<longleftrightarrow> e = f"
      using f inv_map_Some [OF assms, of "ie_path e" e] 2 by auto
    moreover have "ie_path e \<in> ie_path ` set (inv_entries r)" using f by (metis image_eqI)
    moreover have "ie_sha256 f = ie_sha256 e \<and> ie_size f = ie_size e \<longleftrightarrow> e = f"
      using f same_content_eq [of e f] by (simp add: same_content_def)
    ultimately show ?thesis by (simp add: entry_verdict_def 2)
  qed
  then show "entry_verdict (inv_map r) e = 0 \<longleftrightarrow> ie_path e \<notin> ie_path ` set (inv_entries r)"
    and "entry_verdict (inv_map r) e = 1 \<longleftrightarrow> e \<in> set (inv_entries r)"
    and "entry_verdict (inv_map r) e = 2 \<longleftrightarrow> e \<notin> set (inv_entries r) \<and> ie_path e \<in> ie_path ` set (inv_entries r)"
    by simp_all
qed

lemma verdict_total: "entry_verdict m e = 0 \<or> entry_verdict m e = 1 \<or> entry_verdict m e = 2"
  by (auto simp: entry_verdict_def split: option.splits)

lemma verdict_count:
  "length (List.filter (\<lambda>e. entry_verdict m e = 1) es) + length (List.filter (\<lambda>e. entry_verdict m e = 0) es)
     + length (List.filter (\<lambda>e. entry_verdict m e = 2) es) = length es"
proof (induction es)
  case Nil
  then show ?case by simp
next
  case (Cons e es)
  then show ?case using verdict_total [of m e] by auto
qed

text \<open>
  A comparison accounts for every file of the source once: as identical, missing or
  different. The missing ones are those whose path the receiver does not have, the different ones
  those it has with another digest or size, the identical ones those it has exactly; the count of
  files only the receiver has is exact. It finds nothing to do exactly when both hold the same
  files. Inventories that disagree about what is a directory are refused.
\<close>

theorem compare_contract:
  assumes "compare X s r = Inr c"
  shows "cmp_identical c + length (cmp_missing c) + length (cmp_different c) = length (inv_entries s)
     \<and> cmp_identical c = card (set (inv_entries s) \<inter> set (inv_entries r))
     \<and> set (cmp_missing c) = ie_path ` set (inv_entries s) - ie_path ` set (inv_entries r)
     \<and> set (cmp_different c) = ie_path ` (set (inv_entries s) - set (inv_entries r)) \<inter> ie_path ` set (inv_entries r)
     \<and> distinct (cmp_missing c @ cmp_different c)
     \<and> cmp_destination_only c = card (ie_path ` set (inv_entries r) - ie_path ` set (inv_entries s))
     \<and> (cmp_missing c = [] \<and> cmp_different c = [] \<and> cmp_destination_only c = 0
          \<longleftrightarrow> set (inv_entries s) = set (inv_entries r))
     \<and> tree_consistent (ie_path ` set (inv_entries s) \<union> ie_path ` set (inv_entries r))"
proof -
  let ?S = "set (inv_entries s)" and ?R = "set (inv_entries r)"
  have v: "valid_inventory X s" "valid_inventory X r" and t: "tree_consistent (ie_path ` ?S \<union> ie_path ` ?R)"
    and c: "c = \<lparr>cmp_identical = length (List.filter (\<lambda>e. e \<in> ?R) (inv_entries s)),
         cmp_missing = List.map ie_path (List.filter (\<lambda>e. ie_path e \<notin> ie_path ` ?R) (inv_entries s)),
         cmp_different = List.map ie_path (List.filter (\<lambda>e. e \<notin> ?R \<and> ie_path e \<in> ie_path ` ?R) (inv_entries s)),
         cmp_destination_only = card (ie_path ` ?R - ie_path ` ?S)\<rparr>"
    using assms unfolding compare_Inr using verdict_cases [of X r] by auto
  have n: "cmp_identical c + length (cmp_missing c) + length (cmp_different c) = length (inv_entries s)"
    using verdict_count [of "inv_map r" "inv_entries s"] unfolding verdict_cases [OF v(2)] by (simp add: c)
  have d: "distinct (inv_entries s)" "inj_on ie_path ?S" using v(1) by (auto simp: valid_inventory_iff distinct_map)
  have ident: "cmp_identical c = card (?S \<inter> ?R)"
    using distinct_card [of "List.filter (\<lambda>e. e \<in> ?R) (inv_entries s)"] d by (simp add: c Int_def)
  have miss: "set (cmp_missing c) = ie_path ` ?S - ie_path ` ?R" by (auto simp: c)
  have dif: "set (cmp_different c) = ie_path ` (?S - ?R) \<inter> ie_path ` ?R" by (auto simp: c)
  have "distinct (cmp_missing c @ cmp_different c)"
    using d by (auto simp: c distinct_map inj_on_def)
  moreover have "cmp_missing c = [] \<and> cmp_different c = [] \<and> cmp_destination_only c = 0 \<longleftrightarrow> ?S = ?R"
  proof -
    have "cmp_missing c = [] \<and> cmp_different c = [] \<longleftrightarrow> ?S \<subseteq> ?R"
      unfolding set_empty [symmetric] miss dif by blast
    moreover have "cmp_destination_only c = 0 \<longleftrightarrow> ie_path ` ?R \<subseteq> ie_path ` ?S" by (auto simp: c)
    moreover have "?S = ?R" if "?S \<subseteq> ?R" "ie_path ` ?R \<subseteq> ie_path ` ?S"
    proof -
      have "inj_on ie_path ?R" using v(2) by (simp add: valid_inventory_iff distinct_map)
      with that show ?thesis by (metis inj_on_image_eq_iff order_antisym image_mono order_refl)
    qed
    ultimately show ?thesis by blast
  qed
  ultimately show ?thesis using n ident miss dif t by (simp add: c)
qed

definition sample_source :: inventory where
  "sample_source = \<lparr>inv_id = sample_id (CHR ''a''),
     inv_entries = [\<lparr>ie_path = ''a/b'', ie_sha256 = sample_sha, ie_size = 12\<rparr>,
       \<lparr>ie_path = ''c'', ie_sha256 = sample_sha, ie_size = 12\<rparr>]\<rparr>"

definition sample_target :: inventory where
  "sample_target = \<lparr>inv_id = sample_id (CHR ''b''),
     inv_entries = [\<lparr>ie_path = ''a/b'', ie_sha256 = sample_sha, ie_size = 13\<rparr>]\<rparr>"

lemma sample_inventories: "valid_inventory sample_ext sample_source" "valid_inventory sample_ext sample_target"
  by (simp_all add: valid_inventory_iff sample_source_def sample_target_def uuid_canonical_def valid_entry_def
      valid_path_iff safe_component_def tree_consistent_def MAX_ENTRIES_def i64_max_def ascii_defs
      to_ascii_lowercase_def ascii_lower_char_def)

theorem inventory_tree_witness:
  "strict_prefix [''home''] (resolve [''home''] (split_on slash ''a/b''))"
  using inventory_tree [where e = "hd (inv_entries sample_source)" and f = "hd (inv_entries sample_source)",
      OF validate_inventory_ok [THEN iffD2, OF sample_inventories(1)]]
  by (simp add: sample_source_def)

theorem compare_contract_witness:
  "\<exists>c. compare sample_ext sample_source sample_target = Inr c \<and> set (cmp_missing c) = {''c''}
     \<and> set (cmp_different c) = {''a/b''}"
proof -
  obtain c where c: "compare sample_ext sample_source sample_target = Inr c"
    using sample_inventories
    by (auto simp: compare_Inr tree_consistent_def) (simp add: sample_source_def sample_target_def)
  from compare_contract [OF c] c show ?thesis by (auto simp: sample_source_def sample_target_def)
qed

end
