(* ===== verification/ServerFrame.thy ===== *)
theory ServerFrame
  imports Folders
begin

text \<open>
  What every operation of the store may do to the server, as an interface: it may change
  contents, parts and the lock file freely, remove upload records, acknowledge deliveries, and
  it may add rows, versions, inventories and upload records, but only for a device that is
  open; a new row has the next number of the sequence. A predicate that allows these changes is kept by every operation. The interface is
  instantiated with the Folder table, with the record of exits, and with the emptiness of a
  retired Folder.
\<close>

section \<open>The interface\<close>

locale store_frame =
  fixes P :: "server \<Rightarrow> bool"
  assumes free_content: "P s \<Longrightarrow> P (s\<lparr>srv_content := c\<rparr>)"
    and free_parts: "P s \<Longrightarrow> P (s\<lparr>srv_parts := p\<rparr>)"
    and free_other: "P s \<Longrightarrow> P (s\<lparr>srv_uploads_other := u\<rparr>)"
    and drop_record: "P s \<Longrightarrow> P (s\<lparr>srv_records := AList.delete i (srv_records s)\<rparr>)"
    and put_record: "P s \<Longrightarrow> device_open (srv_db s) (u_device_id r) \<Longrightarrow>
      P (s\<lparr>srv_records := AList.update i (Parsed r) (srv_records s)\<rparr>)"
    and put_row: "P s \<Longrightarrow> device_open (srv_db s) (r_device row) \<Longrightarrow> q = t_sequence (srv_db s) + 1 \<Longrightarrow> r_seq row = q \<Longrightarrow>
      P (on_db (\<lambda>d. d\<lparr>t_deliveries := t_deliveries d @ [row], t_sequence := q\<rparr>) s)"
    and put_version: "P s \<Longrightarrow> device_open (srv_db s) (v_device v) \<Longrightarrow>
      P (on_db (\<lambda>d. d\<lparr>t_versions := t_versions d @ [v]\<rparr>) s)"
    and put_index: "P s \<Longrightarrow> device_open (srv_db s) device \<Longrightarrow>
      P (on_db (\<lambda>d. d\<lparr>t_indexes := AList.update device x (t_indexes d)\<rparr>) s)"
    and acked: "P s \<Longrightarrow> P (on_db (set_acked F n) s)"
    and ack_dir: "P s \<Longrightarrow> P (on_db (ack_update now device ack) s)"
    and rollback: "P s \<Longrightarrow> P t \<Longrightarrow> P (t\<lparr>srv_db := srv_db s\<rparr>)"
begin

lemma fr_content: "pres P (on_content m)"
  by (auto simp: pres_iff on_content_eq free_content)

lemma fr_locks: "pres P lock_content" "pres P lock_uploads"
  by (auto simp: lock_content_def fr_content)
    (auto simp: pres_iff lock_uploads_def free_other split: prod.splits)

lemma fr_transaction: "pres P m \<Longrightarrow> pres P (transaction m)"
  unfolding pres_def transaction_def by (auto simp: split_beta rollback split: sum.split)

lemma fr_acked: "pres P (modifyo (on_db (set_acked F n)))"
  by (rule pres_modifyo) (rule acked)

lemma fr_files:
  "pres P (set_part i b)" "pres P (remove_record_file i)" "pres P (remove_part_file i)"
  "pres P (drop_completed_part i)" "pres P (remove_regular_part i)"
  by (auto simp: set_part_def remove_record_file_def intro!: pres_modifyo free_parts drop_record)
    (auto simp: pres_def remove_part_file_def drop_completed_part_def remove_regular_part_def free_parts
      split: option.split node.split)

lemma fr_reads:
  "pres P (read_upload_record E i)" "pres P (open_upload_part i)" "pres P (require_directory_receiver device)"
  by (auto simp: read_upload_record_def open_upload_part_def require_directory_receiver_def
      intro!: pres_intros split: option.split record_file.split)

lemma fr_acknowledge: "pres P (acknowledge now device i sha)"
  unfolding acknowledge_def by (intro pres_intros fr_transaction fr_acked)

lemma fr_collect: "pres P (garbage_collect_digest sha)"
  unfolding garbage_collect_digest_def by (intro pres_intros fr_locks fr_content)

lemma fr_reconcile: "pres P (reconcile_content E)"
  unfolding reconcile_content_def by (intro pres_intros fr_locks fr_content)

lemma fr_ack_directory: "pres P (ack_directory now device ack)"
  unfolding ack_directory_def by (intro pres_intros fr_collect pres_modifyo ack_dir)

lemma fr_discard: "pres P (discard_upload E r)"
  unfolding discard_upload_def by (intro pres_intros fr_files)

lemma fr_repair: "pres P (reconcile_upload_data E r)"
  unfolding reconcile_upload_data_def by (intro pres_intros fr_files fr_reads)

lemma fr_write_chunk: "pres P (write_chunk E r chunk n)"
  unfolding write_chunk_def by (intro pres_intros fr_files fr_reads)

lemma fr_purge: "pres P (purge_folder_uploads_locked E device)"
  unfolding purge_folder_uploads_locked_def check_owned_part_def purge_upload_def
  by (intro pres_intros fr_files fr_reads)

text \<open>An open device stays open, and what follows its check may use that.\<close>

lemma still_open: "store_frame (\<lambda>s. P s \<and> device_open (srv_db s) device)"
proof -
  have d: "device_open (set_acked F n d) x = device_open d x" "device_open (ack_update now y ack d) x = device_open d x"
    for F n d x now y ack
    by (auto intro!: device_open_cong simp: ack_update_rows)
  show ?thesis
    by unfold_locales
      (auto simp: d free_content free_parts free_other drop_record put_record put_row put_version put_index
        acked ack_dir rollback)
qed

lemma hoare_guard:
  assumes "\<And>u. pres (\<lambda>s. P s \<and> device_open (srv_db s) device) (f u)"
  shows "hoare (\<lambda>s. P s \<and> srv_db s = d) (bindo (lifto (require_device_open d device)) f) (\<lambda>_. P) P"
proof (rule hoare_bindo, rule hoare_lifto, simp)
  fix u
  show "hoare (\<lambda>s. (P s \<and> srv_db s = d) \<and> require_device_open d device = Inr u) (f u) (\<lambda>_. P) P"
    using assms [of u] unfolding pres_hoare by (rule hoare_conseq) auto
qed

lemma fr_guarded:
  assumes "\<And>d u. pres (\<lambda>s. P s \<and> device_open (srv_db s) device) (f d u)"
  shows "pres P (bindo open_connection_unchecked (\<lambda>d. bindo (lifto (require_device_open d device)) (f d)))"
    and "pres P (bindo connection (\<lambda>d. bindo (lifto (require_device_open d device)) (f d)))"
proof -
  have c: "hoare P open_connection_unchecked (\<lambda>d s. P s \<and> srv_db s = d) P"
    "hoare P connection (\<lambda>d s. P s \<and> srv_db s = d) P"
    by (auto intro!: hoareI simp: open_connection_unchecked_def connection_def op_defs split: if_splits)
  show "pres P (bindo open_connection_unchecked (\<lambda>d. bindo (lifto (require_device_open d device)) (f d)))"
    and "pres P (bindo connection (\<lambda>d. bindo (lifto (require_device_open d device)) (f d)))"
    by (rule pres_bindo_hoare [OF c(1)], rule hoare_guard [OF assms])
      (rule pres_bindo_hoare [OF c(2)], rule hoare_guard [OF assms])
qed

end

section \<open>Operations of an open device\<close>

locale open_frame = store_frame P for P +
  fixes device :: string
  assumes is_open: "P s \<Longrightarrow> device_open (srv_db s) device"
begin

lemma op_insert_delivery: "r_device row = device \<Longrightarrow> pres P (insert_delivery row)"
  unfolding pres_iff
proof (intro allI impI)
  fix s r t assume d: "r_device row = device" and s: "P s" and i: "insert_delivery row s = (r, t)"
  show "P t"
  proof (cases r)
    case (Inl e)
    with i s show ?thesis using insert_delivery_err by blast
  next
    case (Inr q)
    have "P (on_db (\<lambda>d. d\<lparr>t_deliveries := t_deliveries d @ [row\<lparr>r_seq := q\<rparr>], t_sequence := q\<rparr>) s)"
      by (rule put_row [OF s]) (use i Inr in \<open>simp_all add: d is_open [OF s] insert_delivery_eq\<close>)
    with i Inr show ?thesis by (simp add: insert_delivery_eq)
  qed
qed

lemma op_insert_version: "pres P (insert_directory_version now device did v)"
proof -
  have a: "pres P (modifyo (on_db (\<lambda>d. d\<lparr>t_versions := t_versions d @ [w]\<rparr>)))" if "v_device w = device" for w
    by (rule pres_modifyo, rule put_version) (simp_all add: that is_open)
  have b: "pres P (modifyo (on_db (\<lambda>d. if Q d then set_acked F n d else d)))" for Q F n
  proof (rule pres_modifyo)
    fix s assume "P s"
    then show "P (on_db (\<lambda>d. if Q d then set_acked F n d else d) s)"
      using acked [of s F n] by (cases "Q (srv_db s)") (simp_all add: on_db_def)
  qed
  show ?thesis
    unfolding insert_directory_version_def Let_def by (intro pres_intros a b) simp_all
qed

lemma op_enqueue_fresh: "pres P (enqueue_fresh E now device input d created directory i)"
proof -
  have "pres P (enqueue_insert E now device name did created directory i)" for name did
    unfolding enqueue_insert_def by (intro pres_intros op_insert_delivery op_insert_version) simp_all
  then show ?thesis unfolding enqueue_fresh_def by (intro pres_intros fr_content fr_transaction)
qed

lemma op_write_record:
  assumes "u_device_id r = device" shows "pres P (write_upload_record E r)"
  unfolding write_upload_record_def
  by (intro pres_intros pres_modifyo put_record) (simp_all add: assms is_open)

lemma op_allocate: "pres P (allocate_upload E now device u is)"
proof (induction "is")
  case Nil
  show ?case by (simp add: pres_intros)
next
  case (Cons i "is")
  have "pres P (write_upload_record E (fresh_record device u now i))"
    by (rule op_write_record) (simp add: fresh_record_def)
  with Cons.IH show ?case
    unfolding allocate_upload.simps by (intro pres_intros fr_files)
qed

end

section \<open>Every operation\<close>

context store_frame
begin

lemma open_frames: "open_frame (\<lambda>s. P s \<and> device_open (srv_db s) device) device"
  unfolding open_frame_def open_frame_axioms_def using still_open by simp

lemma fr_enqueue: "pres P (enqueue_directory_with_id E now device x name did created directory)"
  unfolding enqueue_directory_with_id_def Let_def enqueue_replay_def
  by (intro pres_intros fr_locks fr_guarded open_frame.op_enqueue_fresh [OF open_frames])

lemma fr_create_upload: "pres P (create_upload E now ids device u)"
  unfolding create_upload_def
  by (intro pres_intros fr_locks fr_reads fr_guarded open_frame.op_allocate [OF open_frames])

lemma fr_publish: "pres P (publish_directory E device update)"
proof -
  have "pres P (publish_step device update)"
    unfolding publish_step_def Let_def
    by (rule fr_guarded, intro pres_intros pres_modifyo store_frame.put_index [OF still_open]) simp_all
  then show ?thesis unfolding publish_directory_def by (intro pres_intros fr_transaction)
qed

end

context open_frame
begin

lemma op_finalize:
  assumes "u_device_id r = device" shows "pres P (finalize_upload E now r)"
proof -
  have "pres P (complete_upload E r did)" for did
    unfolding complete_upload_def Let_def using assms
    by (intro pres_intros op_write_record fr_collect fr_files) simp
  then show ?thesis
    unfolding finalize_upload_def
    by (auto intro!: pres_intros fr_discard fr_enqueue split: sum.split)
qed

lemma op_append_record:
  assumes "u_device_id r = device" shows "pres P (append_record E now r expected chunk n)"
  unfolding append_record_def Let_def using assms
  by (intro pres_intros fr_write_chunk op_write_record op_finalize) simp_all

end

context store_frame
begin

lemma fr_found:
  assumes "\<And>r. u_device_id r = device \<Longrightarrow> pres P (f r)"
  shows "pres P (case found of None \<Rightarrow> retn x | Some r \<Rightarrow> if u_device_id r \<noteq> device then retn x else f r)"
  using assms by (auto intro: pres_atoms split: option.split)

lemma fr_get_upload: "pres P (get_upload E now device i)"
  unfolding get_upload_def
  by (intro pres_bindo pres_atoms fr_locks fr_guarded store_frame.fr_found [OF still_open]
      store_frame.fr_reads [OF still_open] store_frame.fr_repair [OF still_open]
      open_frame.op_finalize [OF open_frames]) simp_all

lemma fr_append_upload: "pres P (append_upload E now device i expected chunk n)"
proof -
  have f: "pres (\<lambda>s. P s \<and> device_open (srv_db s) device) (bindo (finalize_upload E now r)
      (\<lambda>r'. append_record E now r' expected chunk n))" if "u_device_id r = device" for r
  proof -
    let ?Q = "\<lambda>s. P s \<and> device_open (srv_db s) device"
    have "hoare ?Q (finalize_upload E now r) (\<lambda>r' s. ?Q s \<and> u_device_id r' = device) ?Q"
    proof (rule hoareI)
      fix s r' t assume s: "?Q s" "finalize_upload E now r s = (Inr r', t)"
      have "u_device_id r' = u_device_id r"
        using s(2) unfolding finalize_upload_def complete_upload_def Let_def
        by (auto simp: bindo_ok split: if_splits sum.splits) (metis old.unit.exhaust sumE)+
      with that presD2 [OF open_frame.op_finalize [OF open_frames that] s] show "?Q t \<and> u_device_id r' = device"
        by simp
    next
      fix s e t assume "?Q s" "finalize_upload E now r s = (Inl e, t)"
      then show "?Q t" by (rule presD2 [OF open_frame.op_finalize [OF open_frames that]])
    qed
    moreover have "hoare (\<lambda>s. ?Q s \<and> u_device_id r' = device) (append_record E now r' expected chunk n) (\<lambda>_. ?Q) ?Q"
      for r'
    proof (cases "u_device_id r' = device")
      case True
      have "hoare ?Q (append_record E now r' expected chunk n) (\<lambda>_. ?Q) ?Q"
        using open_frame.op_append_record [OF open_frames True] by (simp add: pres_hoare)
      then show ?thesis by (rule hoare_conseq) simp_all
    next
      case False
      then show ?thesis by (simp add: hoare_def)
    qed
    ultimately show ?thesis by (rule pres_bindo_hoare)
  qed
  show ?thesis
    unfolding append_upload_def
    by (intro pres_bindo [of _ "lifto _"] pres_bindo [of _ lock_uploads] pres_atoms fr_locks fr_guarded
        pres_bindo [of _ "read_upload_record _ _"] pres_bindo [of _ "reconcile_upload_data _ _"]
        store_frame.fr_found [OF still_open] store_frame.fr_reads [OF still_open]
        store_frame.fr_repair [OF still_open] f) simp_all
qed

end

section \<open>The Folder tables\<close>

text \<open>No store operation touches the table of Folders or the table of exits.\<close>

interpretation tables: store_frame "\<lambda>s. t_folders (srv_db s) = fs \<and> t_exits (srv_db s) = xs" for fs xs
  by unfold_locales (auto simp: ack_update_rows)

section \<open>A retired Folder\<close>

definition retired :: "string \<Rightarrow> server \<Rightarrow> bool" where
  "retired fid s \<longleftrightarrow> exit_started (srv_db s) fid
     \<and> (\<forall>r \<in> set (t_deliveries (srv_db s)). r_device r \<noteq> folder_device fid)
     \<and> (\<forall>v \<in> set (t_versions (srv_db s)). v_device v \<noteq> folder_device fid)
     \<and> map_of (t_indexes (srv_db s)) (folder_device fid) = None
     \<and> (\<forall>i. \<not> owned_upload (folder_device fid) s i)"

interpretation empty: store_frame "retired fid" for fid
proof unfold_locales
  fix s F n assume "retired fid s"
  then show "retired fid (on_db (set_acked F n) s)"
    by (auto simp: retired_def owned_upload_def exit_started_def set_acked_def split: if_splits)
next
  fix s now device ack assume "retired fid s"
  then show "retired fid (on_db (ack_update now device ack) s)"
    by (auto simp: retired_def owned_upload_def exit_started_def ack_update_eq)
qed (auto simp: retired_def owned_upload_def exit_started_def device_open_iff update_conv'
    split: option.splits record_file.splits if_splits)

end
