(* ===== verification/Pairing.thy ===== *)
theory Pairing
  imports ServerFrame
begin

text \<open>
  The life of a Folder: created by the administrator, claimed by one sender, confirmed by its
  receiver, renewed, and disconnected for good. The invariant of the Folder tables, the rules of
  each transition, and what it takes to be allowed a transfer.
\<close>

section \<open>The invariant of the tables\<close>

definition folder_ok :: "folder_row \<Rightarrow> bool" where
  "folder_ok f \<longleftrightarrow> (f_ready f \<longrightarrow> f_sender_hash f \<noteq> None \<and> \<not> f_disconnected f)"

definition folders_ok :: "database \<Rightarrow> bool" where
  "folders_ok d \<longleftrightarrow> distinct (List.map f_id (t_folders d))
     \<and> distinct (List.map f_receiver_hash (t_folders d)) \<and> list_all folder_ok (t_folders d)
     \<and> distinct (List.map x_folder (t_exits d))
     \<and> list_all (\<lambda>x. (x_receiver x \<longrightarrow> x_server x)
          \<and> (\<exists>f \<in> set (t_folders d). f_id f = x_folder x \<and> f_disconnected f)) (t_exits d)"

abbreviation folders_good :: "server \<Rightarrow> bool" where
  "folders_good s \<equiv> folders_ok (srv_db s)"

lemma folders_ok_cong:
  "t_folders d' = t_folders d \<Longrightarrow> t_exits d' = t_exits d \<Longrightarrow> folders_ok d' = folders_ok d"
  by (simp add: folders_ok_def)

lemma folders_ok_map:
  assumes d: "folders_ok d" and d': "t_folders d' = List.map g (t_folders d)" "t_exits d' = t_exits d"
    and g: "\<And>f. f \<in> set (t_folders d) \<Longrightarrow> f_id (g f) = f_id f \<and> f_receiver_hash (g f) = f_receiver_hash f
      \<and> (folder_ok f \<longrightarrow> folder_ok (g f)) \<and> (f_disconnected f \<longrightarrow> f_disconnected (g f))"
  shows "folders_ok d'"
proof -
  have m: "List.map f_id (List.map g (t_folders d)) = List.map f_id (t_folders d)"
    "List.map f_receiver_hash (List.map g (t_folders d)) = List.map f_receiver_hash (t_folders d)"
    using g by auto
  have "list_all folder_ok (List.map g (t_folders d))"
    using d g by (auto simp: folders_ok_def list_all_iff)
  moreover have "\<exists>f \<in> set (List.map g (t_folders d)). f_id f = i \<and> f_disconnected f"
    if "\<exists>f \<in> set (t_folders d). f_id f = i \<and> f_disconnected f" for i
    using that g by fastforce
  ultimately show ?thesis
    using d unfolding folders_ok_def d' m by (auto simp: list_all_iff)
qed

lemma folders_ok_map_update:
  assumes "folders_ok d"
    and "\<And>f. f \<in> set (t_folders d) \<Longrightarrow> f_id (g f) = f_id f \<and> f_receiver_hash (g f) = f_receiver_hash f
      \<and> (folder_ok f \<longrightarrow> folder_ok (g f)) \<and> (f_disconnected f \<longrightarrow> f_disconnected (g f))"
  shows "folders_ok (d\<lparr>t_folders := List.map g (t_folders d)\<rparr>)"
  by (rule folders_ok_map [OF assms(1)]) (use assms(2) in auto)

lemma folders_ok_update:
  assumes "folders_ok d"
    and "\<And>f. f_id (g f) = f_id f \<and> f_receiver_hash (g f) = f_receiver_hash f
      \<and> (folder_ok f \<longrightarrow> folder_ok (g f)) \<and> (f_disconnected f \<longrightarrow> f_disconnected (g f))"
  shows "folders_ok (update_folder fid g d)"
  by (rule folders_ok_map [OF assms(1), of _ "\<lambda>f. if f_id f = fid then g f else f"])
    (use assms(2) in \<open>auto simp: update_folder_def\<close>)

lemma folder_mem: "folders_ok d \<Longrightarrow> f \<in> set (t_folders d) \<Longrightarrow> find_folder d (f_id f) = Some f"
proof -
  have "distinct (List.map f_id fs) \<Longrightarrow> f \<in> set fs \<Longrightarrow> List.find (\<lambda>g. f_id g = f_id f) fs = Some f" for fs
    by (induction fs) auto
  then show "folders_ok d \<Longrightarrow> f \<in> set (t_folders d) \<Longrightarrow> find_folder d (f_id f) = Some f"
    by (simp add: folders_ok_def find_folder_def)
qed

lemma find_folder_mem: "find_folder d i = Some f \<Longrightarrow> f \<in> set (t_folders d) \<and> f_id f = i"
  unfolding find_folder_def by (rule find_SomeD)

lemma pres_folders_same:
  assumes "\<And>fs xs. pres (\<lambda>s. t_folders (srv_db s) = fs \<and> t_exits (srv_db s) = xs) m"
  shows "pres folders_good m"
  unfolding pres_iff
proof (intro allI impI)
  fix s r t assume s: "folders_good s" "m s = (r, t)"
  have "t_folders (srv_db t) = t_folders (srv_db s) \<and> t_exits (srv_db t) = t_exits (srv_db s)"
    by (rule presD2 [OF assms _ s(2)]) simp
  with s(1) show "folders_good t" by (simp add: folders_ok_cong [of "srv_db t" "srv_db s"])
qed

lemma pres_folders_transaction:
  assumes "pres folders_good m" shows "pres folders_good (transaction m)"
  using assms by (auto simp: pres_def transaction_def split_beta split: sum.split)

lemmas pres_folders_store [pres_intros] =
  tables.fr_enqueue [THEN pres_folders_same] tables.fr_acknowledge [THEN pres_folders_same]
  tables.fr_collect [THEN pres_folders_same] tables.fr_reconcile [THEN pres_folders_same]
  tables.fr_ack_directory [THEN pres_folders_same] tables.fr_publish [THEN pres_folders_same]
  tables.fr_create_upload [THEN pres_folders_same] tables.fr_get_upload [THEN pres_folders_same]
  tables.fr_append_upload [THEN pres_folders_same] tables.fr_purge [THEN pres_folders_same]
  tables.fr_locks(1) [THEN pres_folders_same] tables.fr_locks(2) [THEN pres_folders_same]

section \<open>Transitions keep the invariant\<close>

lemma pres_folders_db:
  "(\<And>d. folders_ok d \<Longrightarrow> folders_ok (f d)) \<Longrightarrow> pres folders_good (modifyo (on_db f))"
  by (rule pres_modifyo) simp

lemma folders_ok_insert:
  assumes "folders_ok d" "find_folder d (f_id f) = None"
    "\<not> list_ex (\<lambda>g. f_receiver_hash g = f_receiver_hash f) (t_folders d)" "folder_ok f"
  shows "folders_ok (d\<lparr>t_folders := t_folders d @ [f]\<rparr>)"
  using assms by (auto simp: folders_ok_def find_folder_def find_None_iff list_ex_iff list_all_iff)

lemma pres_insert_folder [pres_intros]: "pres folders_good (insert_folder X now name fid token secret)"
  unfolding pres_iff
proof (intro allI impI)
  fix s r t assume s: "folders_good s" and i: "insert_folder X now name fid token secret s = (r, t)"
  show "folders_good t"
  proof (cases "length (t_folders (srv_db s)) < 1000 \<and> find_folder (srv_db s) fid = None
      \<and> \<not> list_ex (\<lambda>f. f_receiver_hash f = token_hash X token) (t_folders (srv_db s))")
    case True
    with i show ?thesis
      by (auto simp: insert_folder_def open_connection_eq bindo_lifto Let_def op_defs folder_ok_def
          intro!: folders_ok_insert [OF s])
  next
    case False
    with i s show ?thesis
      by (auto simp: insert_folder_def open_connection_eq bindo_lifto Let_def op_defs ensure_def split: if_splits)
  qed
qed

lemma pres_claim_step [pres_intros]: "pres folders_good (claim_step now fid invite sender)"
  unfolding claim_step_def
  by (intro pres_intros pres_folders_db folders_ok_update) (auto simp: folder_ok_def)

lemma pres_confirm_step [pres_intros]: "pres folders_good (confirm_step X fid verification)"
  unfolding confirm_step_def Let_def
  by (intro pres_intros pres_folders_db folders_ok_map_update) (auto simp: folder_ok_def split: option.splits)

lemma pres_renew_step [pres_intros]: "pres folders_good (renew_step fid stored expires)"
  unfolding renew_step_def
  by (intro pres_intros pres_folders_db folders_ok_map_update) (auto simp: folder_ok_def)

lemma folders_ok_revoke: "folders_ok d \<Longrightarrow> folders_ok (update_folder fid revoke d)"
  by (rule folders_ok_update) (auto simp: folder_ok_def revoke_def)

lemma pres_disconnect_step [pres_intros]: "pres folders_good (disconnect_step fid hash)"
  unfolding disconnect_step_def
  by (intro pres_intros pres_folders_db folders_ok_revoke)

lemma folders_ok_request: "folders_ok d \<Longrightarrow> folders_ok (request_exit fid (update_folder fid revoke d))"
proof -
  assume d: "folders_ok d"
  let ?d = "update_folder fid revoke d"
  have r: "folders_ok ?d" by (rule folders_ok_revoke [OF d])
  show ?thesis
  proof (cases "exit_started ?d fid \<or> find_folder ?d fid = None")
    case True
    with r show ?thesis by (auto simp: request_exit_def)
  next
    case False
    then obtain f where f: "find_folder ?d fid = Some f" by auto
    then have "f_disconnected f" by (auto simp: find_folder_update revoke_def)
    moreover have "f \<in> set (t_folders ?d)" "f_id f = fid" using find_folder_mem [OF f] by auto
    ultimately show ?thesis
      using r False f by (auto simp: request_exit_def folders_ok_def list_all_iff exit_started_def)
  qed
qed

lemma pres_folders_revoke: "pres folders_good (transaction (revoke_folder fid credential))"
  unfolding revoke_folder_def
  by (intro pres_folders_transaction pres_intros pres_folders_db folders_ok_request)

lemma folders_ok_retire: "folders_ok d \<Longrightarrow> folders_ok (retire_rows fid d)"
proof -
  assume d: "folders_ok d"
  let ?x = "\<lambda>x. if x_folder x = fid then x\<lparr>x_server := True\<rparr> else x"
  let ?d = "d\<lparr>t_exits := List.map ?x (t_exits d)\<rparr>"
  have m: "List.map x_folder (List.map ?x xs) = List.map x_folder xs" for xs by (induction xs) auto
  from d have "folders_ok ?d"
    unfolding folders_ok_def by (auto simp: list_all_iff m simp del: List.map_map)
  then have "folders_ok (update_folder fid (\<lambda>f. f\<lparr>f_name := ''Retired Folder'',
      f_invite_hash := replicate 32 (CHR 0x00)\<rparr>) ?d)"
    by (rule folders_ok_update) (auto simp: folder_ok_def)
  then show ?thesis
    by (rule folders_ok_cong [THEN iffD1, rotated 2]) (simp_all add: retire_rows_def Let_def update_folder_def)
qed

lemma pres_folders_retire: "pres folders_good (transaction (retire_step fid))"
proof -
  have "pres folders_good (remove_folder_object d device sm)" for d device sm
    by (rule pres_folders_same)
      (cases sm; auto simp: remove_folder_object_def intro!: pres_intros tables.fr_content)
  then show ?thesis
    unfolding retire_step_def by (intro pres_folders_transaction pres_intros pres_folders_db folders_ok_retire)
qed

lemma pres_folders_exit [pres_intros]: "pres folders_good (clean_exit E fid credential)"
  by (rule hoare_clean_exit; intro pres_folders_revoke pres_intros presD [OF pres_folders_retire]; assumption)

section \<open>Who may transfer\<close>

lemma folder_store_ok: "folder_store m s = (Inr x, t) \<longleftrightarrow> m s = (Inr x, t)"
  by (simp add: folder_store_def run_store_ok)

lemma read_identity_ok:
  "read_identity E fid hash s = (Inr x, t) \<longleftrightarrow> t = s
     \<and> x = (case find_folder (srv_db s) fid of None \<Rightarrow> None
         | Some f \<Rightarrow> map_option (folder_handshake_of E f) (folder_role f hash))"
  by (auto simp: read_identity_def open_connection_eq split: option.splits)

lemma identity_ok:
  "identity S fid hash s = (Inr i, t) \<longleftrightarrow> t = s \<and> uuid_canonical (ext (env S)) fid
     \<and> (\<exists>f role. find_folder (srv_db s) fid = Some f \<and> folder_role f hash = Some role
          \<and> i = folder_handshake_of (env S) f role)"
  by (auto simp: identity_def bindo_ok lifto_ok validate_id_def folder_store_ok read_identity_ok
      split: option.splits)

lemma supplied_hash_ok:
  "supplied_hash X h = Inr v \<longleftrightarrow> (\<exists>b. single_header h ''authorization'' = Some b \<and> length b \<le> 4103
     \<and> prefix ''Bearer '' b \<and> v = sha256 X b)"
  by (auto simp: supplied_hash_def split: option.splits if_splits)

lemma handshake_fields [simp]:
  "fh_state (folder_handshake_of E f role) = folder_status f" "fh_role (folder_handshake_of E f role) = role"
  "fh_folder_id (folder_handshake_of E f role) = f_id f"
  by (simp_all add: folder_handshake_of_def)

lemma status_cases:
  "folder_status f = ''ready'' \<longleftrightarrow> \<not> f_disconnected f \<and> f_ready f"
  "folder_status f = ''disconnected'' \<longleftrightarrow> f_disconnected f"
  by (auto simp: folder_status_def)

lemma require_connected_ok: "require_connected i = Inr u \<longleftrightarrow> fh_state i \<noteq> ''disconnected''"
  by (simp add: require_connected_def)

lemma transfer_authorized_iff:
  "authorize_transfer S h uri role s = (Inr device, t) \<longleftrightarrow> t = s \<and>
     (\<exists>b. single_header h ''authorization'' = Some b \<and>
       (case strip_prefix ''/f/'' uri of
          None \<Rightarrow> sha256 (ext (env S)) b = authorization_hash S \<and> device = device_id S
        | Some path \<Rightarrow>
            length b \<le> 4103 \<and> prefix ''Bearer '' b \<and> uuid_canonical (ext (env S)) (hd (split_on slash path))
            \<and> device = folder_device (hd (split_on slash path))
            \<and> (\<exists>f. find_folder (srv_db s) (hd (split_on slash path)) = Some f \<and> \<not> f_disconnected f \<and> f_ready f
                \<and> folder_role f (sha256 (ext (env S)) b) = Some role)))"
  (is "?l \<longleftrightarrow> ?r")
proof (cases "strip_prefix ''/f/'' uri")
  case None
  then show ?thesis
    by (auto simp: authorize_transfer_def bindo_ok lifto_ok authorize_bearer_def split: option.splits)
next
  case (Some path)
  have "find_folder d i = Some f \<Longrightarrow> f_id f = i" for d i f using find_folder_mem by blast
  with Some show ?thesis
    by (auto simp: authorize_transfer_def bindo_ok lifto_ok supplied_hash_ok identity_ok require_connected_ok
        status_cases)
qed

text \<open>
  C29. A transfer is authorised for exactly two kinds of request, and the check changes
  nothing. A request outside the Folders is for the legacy device and carries its credential. A
  request under a Folder's address is for that Folder's device alone: it carries a bearer
  credential of this very Folder, in the role asked for, and the Folder is connected and ready.
\<close>

theorem transfer_authorized:
  "authorize_transfer S h uri role s = (Inr device, t) \<longleftrightarrow> t = s \<and>
     (\<exists>b. single_header h ''authorization'' = Some b \<and>
       (case strip_prefix ''/f/'' uri of
          None \<Rightarrow> sha256 (ext (env S)) b = authorization_hash S \<and> device = device_id S
        | Some path \<Rightarrow>
            length b \<le> 4103 \<and> prefix ''Bearer '' b \<and> uuid_canonical (ext (env S)) (hd (split_on slash path))
            \<and> device = folder_device (hd (split_on slash path))
            \<and> (\<exists>f. find_folder (srv_db s) (hd (split_on slash path)) = Some f \<and> \<not> f_disconnected f \<and> f_ready f
                \<and> folder_role f (sha256 (ext (env S)) b) = Some role)))"
  by (rule transfer_authorized_iff)

section \<open>Claiming\<close>

lemma find_connected:
  assumes "folders_ok d"
  shows "List.find (\<lambda>f. f_id f = fid \<and> \<not> f_disconnected f) (t_folders d) =
     (case find_folder d fid of Some f \<Rightarrow> if f_disconnected f then None else Some f | None \<Rightarrow> None)"
proof -
  have "distinct (List.map f_id fs) \<Longrightarrow> List.find (\<lambda>f. f_id f = fid \<and> \<not> f_disconnected f) fs =
      (case List.find (\<lambda>f. f_id f = fid) fs of Some f \<Rightarrow> if f_disconnected f then None else Some f | None \<Rightarrow> None)" for fs
  proof (induction fs)
    case Nil
    then show ?case by simp
  next
    case (Cons f fs)
    have "List.find (\<lambda>f. f_id f = fid) fs = None" if "f_id f = fid"
      using that Cons.prems by (auto simp: find_None_iff) (metis image_eqI)
    with Cons show ?case by auto
  qed
  from this [of "t_folders d"] assms show ?thesis unfolding folders_ok_def find_folder_def by blast
qed

text \<open>
  C30. An invitation is claimed exactly when the Folder is connected, the code is its current
  one, and either the same sender repeats its claim or no sender is there and the code has not
  expired. No claim, of whatever Folder, ever replaces a sender that is there.
\<close>

theorem claim_contract:
  assumes d: "folders_ok (srv_db s)" and c: "claim_step now fid invite sender s = (Inr ok, t)"
  shows "(ok \<longleftrightarrow> (\<exists>f. find_folder (srv_db s) fid = Some f \<and> \<not> f_disconnected f \<and> f_invite_hash f = invite
        \<and> (f_sender_hash f = Some sender \<or> f_sender_hash f = None \<and> int now < f_expires f)))
     \<and> (\<forall>i f. find_folder (srv_db s) i = Some f \<longrightarrow>
          find_folder (srv_db t) i = Some (if i = fid \<and> ok then f\<lparr>f_sender_hash := Some sender\<rparr> else f))
     \<and> (\<forall>i f old. find_folder (srv_db s) i = Some f \<longrightarrow> f_sender_hash f = Some old \<longrightarrow>
          map_option f_sender_hash (find_folder (srv_db t) i) = Some (Some old))"
proof -
  have e: "\<not> (f_expires f \<le> 0 \<or> now \<ge> i64_as_u64 (f_expires f)) \<longleftrightarrow> int now < f_expires f" for f
    by (auto simp: i64_as_u64_def)
  have u: "find_folder (update_folder fid (\<lambda>f. f\<lparr>f_sender_hash := Some sender\<rparr>) d') i =
      (if i = fid then map_option (\<lambda>f. f\<lparr>f_sender_hash := Some sender\<rparr>) (find_folder d' i) else find_folder d' i)"
    for d' i by (rule find_folder_update) simp
  show ?thesis
    using c unfolding claim_step_def open_connection_eq find_connected [OF d]
    by (auto simp: u e [symmetric] split: option.splits if_splits)
qed

definition open_folder_row :: folder_row where
  "open_folder_row = sample_folder_row\<lparr>f_sender_hash := None, f_ready := False\<rparr>"

definition open_folder_server :: server where
  "open_folder_server = empty_server\<lparr>srv_db := empty_db\<lparr>t_folders := [open_folder_row]\<rparr>\<rparr>"

lemma open_folder_fields [simp]:
  "f_id open_folder_row = sample_id (CHR ''f'')" "f_sender_hash open_folder_row = None"
  "f_invite_hash open_folder_row = sample_hash (CHR ''c'')" "f_expires open_folder_row = 700"
  "\<not> f_ready open_folder_row" "\<not> f_disconnected open_folder_row"
  "f_receiver_hash open_folder_row = sample_hash (CHR ''a'')"
  by (simp_all add: open_folder_row_def)

lemma open_folder_server_fields [simp]:
  "srv_db open_folder_server = empty_db\<lparr>t_folders := [open_folder_row]\<rparr>"
  by (simp add: open_folder_server_def)

lemma open_folder_ok: "folders_ok (srv_db open_folder_server)"
  by (simp add: folders_ok_def folder_ok_def)

theorem claim_contract_witness:
  "\<exists>t. claim_step 699 (sample_id (CHR ''f'')) (sample_hash (CHR ''c'')) (sample_hash (CHR ''b'')) open_folder_server
       = (Inr True, t)
     \<and> map_option f_sender_hash (find_folder (srv_db t) (sample_id (CHR ''f''))) = Some (Some (sample_hash (CHR ''b'')))"
proof -
  let ?f = "sample_id (CHR ''f'')"
  obtain ok t where c: "claim_step 699 ?f (sample_hash (CHR ''c'')) (sample_hash (CHR ''b'')) open_folder_server
      = (Inr ok, t)"
    by (auto simp: claim_step_def open_connection_eq i64_as_u64_def)
  have f: "find_folder (srv_db open_folder_server) ?f = Some open_folder_row" by (simp add: find_folder_def)
  have "ok" using claim_contract [OF open_folder_ok c] f by auto
  with claim_contract [OF open_folder_ok c] f c show ?thesis by auto
qed

section \<open>Disconnecting and renewing\<close>

text \<open>A disconnected Folder, and one whose sender has just been dropped.\<close>

definition no_transfer :: "api_state \<Rightarrow> string \<Rightarrow> server \<Rightarrow> bool" where
  "no_transfer S fid s \<longleftrightarrow> (\<forall>h path role device t. hd (split_on slash path) = fid \<longrightarrow>
     authorize_transfer S h (''/f/'' @ path) role s \<noteq> (Inr device, t))"

lemma strip_folder [simp]: "strip_prefix ''/f/'' (slash # CHR ''f'' # slash # path) = Some path"
  by (simp add: strip_prefix_def)

lemma no_transferI:
  assumes "\<And>f. find_folder (srv_db s) fid = Some f \<Longrightarrow> f_disconnected f \<or> \<not> f_ready f"
  shows "no_transfer S fid s"
  unfolding no_transfer_def transfer_authorized_iff using assms by auto

lemma confirm_nobody:
  assumes "\<And>f. f \<in> set (t_folders (srv_db s)) \<Longrightarrow> f_id f = fid \<Longrightarrow> f_disconnected f"
  shows "confirm_step X fid v s = (Inr False, s)"
proof -
  define matching where "matching = (\<lambda>f :: folder_row. f_id f = fid \<and> \<not> f_disconnected f
         \<and> (case f_sender_hash f of None \<Rightarrow> False | Some w \<Rightarrow> take 12 (hex_encode X w) = v))"
  have n: "\<not> matching f" if "f \<in> set (t_folders (srv_db s))" for f
    using assms [OF that] by (auto simp: matching_def)
  have "List.map (\<lambda>f. if matching f then f\<lparr>f_ready := True\<rparr> else f) (t_folders (srv_db s)) = t_folders (srv_db s)"
    by (rule map_idI) (simp add: n)
  moreover have "List.filter matching (t_folders (srv_db s)) = []" using n by (simp add: filter_empty_conv)
  ultimately show ?thesis
    unfolding confirm_step_def Let_def open_connection_eq matching_def [symmetric]
    by (simp add: op_defs on_db_def)
qed

lemma renew_nobody:
  assumes "\<And>f. f \<in> set (t_folders (srv_db s)) \<Longrightarrow> f_id f = fid \<Longrightarrow> f_disconnected f"
  shows "\<exists>e t. renew_step fid stored expires s = (Inl e, t)"
proof -
  have "List.filter (\<lambda>f. f_id f = fid \<and> \<not> f_disconnected f) (t_folders (srv_db s)) = []"
    using assms by (auto simp: filter_empty_conv)
  then show ?thesis by (simp add: renew_step_def open_connection_eq op_defs)
qed

lemma find_folder_map:
  "(\<And>f. f_id (g f) = f_id f) \<Longrightarrow> t_folders d' = List.map g (t_folders d) \<Longrightarrow>
     find_folder d' i = map_option g (find_folder d i)"
  by (simp add: find_folder_def find_map)

lemma revoked_mem:
  assumes f: "f \<in> set (t_folders (update_folder fid revoke d))" and i: "f_id f = fid"
  shows "f_disconnected f"
proof -
  have "f \<in> (\<lambda>g. if f_id g = fid then revoke g else g) ` set (t_folders d)"
    using f unfolding update_folder_def by (simp del: if_image_distrib)
  then obtain g where g: "f = (if f_id g = fid then revoke g else g)" by (rule imageE)
  with i have "f = revoke g" by (cases "f_id g = fid") simp_all
  then show ?thesis by (simp add: revoke_def)
qed

text \<open>
  Either party's disconnection is final. Afterwards no request under the Folder's address
  is authorised, no claim succeeds, no confirmation and no renewal takes effect, whatever the
  credentials; other Folders are as before. Without a credential of the Folder nothing changes.
\<close>

theorem disconnect_final:
  assumes d: "folders_ok (srv_db s)" and c: "disconnect_step fid hash s = (Inr ok, t)"
  shows "(ok \<longleftrightarrow> authorized (srv_db s) fid hash)
     \<and> (\<forall>i. i \<noteq> fid \<longrightarrow> find_folder (srv_db t) i = find_folder (srv_db s) i)
     \<and> (if ok then no_transfer S fid t
          \<and> (\<forall>now invite sender. claim_step now fid invite sender t = (Inr False, t))
          \<and> (\<forall>v. fst (confirm_step X fid v t) = Inr False \<and> find_folder (srv_db (snd (confirm_step X fid v t))) fid
               = find_folder (srv_db t) fid)
          \<and> (\<forall>stored expires u. fst (renew_step fid stored expires t) \<noteq> Inr u)
        else t = s)"
proof -
  have a: "(ok \<longleftrightarrow> authorized (srv_db s) fid hash) \<and> (if ok then t = on_db (update_folder fid revoke) s else t = s)"
    using c by (auto simp: disconnect_step_def open_connection_eq bindo_ok split: if_splits)
  have u: "find_folder (update_folder fid revoke d') i =
      (if i = fid then map_option revoke (find_folder d' i) else find_folder d' i)" for d' i
    by (rule find_folder_update) simp
  show ?thesis
  proof (cases ok)
    case False
    with a show ?thesis by simp
  next
    case True
    with a have t: "srv_db t = update_folder fid revoke (srv_db s)" by simp
    have f: "find_folder (srv_db t) fid = map_option revoke (find_folder (srv_db s) fid)" by (simp add: t u)
    have ok': "folders_ok (srv_db t)" by (simp add: t folders_ok_revoke [OF d])
    have none: "f \<in> set (t_folders (srv_db t)) \<Longrightarrow> f_id f = fid \<Longrightarrow> f_disconnected f" for f
      unfolding t by (rule revoked_mem)
    have "no_transfer S fid t" by (rule no_transferI) (auto simp: f revoke_def)
    moreover have "claim_step now fid invite sender t = (Inr False, t)" for now invite sender
    proof -
      have "List.find (\<lambda>f. f_id f = fid \<and> \<not> f_disconnected f) (t_folders (srv_db t)) = None"
        using none by (auto simp: find_None_iff)
      then show ?thesis by (simp add: claim_step_def open_connection_eq retn_def)
    qed
    moreover have "fst (confirm_step X fid v t) = Inr False \<and>
        find_folder (srv_db (snd (confirm_step X fid v t))) fid = find_folder (srv_db t) fid" for v
      using confirm_nobody [OF none] by simp
    moreover have "fst (renew_step fid stored expires t) \<noteq> Inr w" for stored expires w
      using renew_nobody [where fid = fid, of t, OF none] by (metis fst_conv Inl_Inr_False)
    ultimately show ?thesis using True a t u by simp
  qed
qed

text \<open>
  Renewing an invitation drops the sender. Afterwards nobody may transfer until a new
  claim is confirmed, and a claim with any other code than the new one is refused.
\<close>

theorem renew_revokes:
  assumes d: "folders_ok (srv_db s)" and c: "renew_step fid stored expires s = (Inr u, t)"
  shows "no_transfer S fid t
     \<and> (\<exists>f. find_folder (srv_db t) fid = Some f \<and> f_sender_hash f = None \<and> f_invite_hash f = stored)
     \<and> (\<forall>now invite sender. invite \<noteq> stored \<longrightarrow> claim_step now fid invite sender t = (Inr False, t))
     \<and> (\<forall>i. i \<noteq> fid \<longrightarrow> find_folder (srv_db t) i = find_folder (srv_db s) i)"
proof -
  let ?g = "\<lambda>f. if f_id f = fid \<and> \<not> f_disconnected f
           then f\<lparr>f_invite_hash := stored, f_expires := u64_as_i64 expires,
             f_sender_hash := None, f_ready := False\<rparr> else f"
  have t: "t_folders (srv_db t) = List.map ?g (t_folders (srv_db s))"
    and l: "length (List.filter (\<lambda>f. f_id f = fid \<and> \<not> f_disconnected f) (t_folders (srv_db s))) = 1"
    using c by (auto simp: renew_step_def open_connection_eq bindo_ok lifto_ok)
  have g: "find_folder (srv_db t) i = map_option ?g (find_folder (srv_db s) i)" for i
    by (rule find_folder_map [OF _ t]) simp
  have "List.filter (\<lambda>f. f_id f = fid \<and> \<not> f_disconnected f) (t_folders (srv_db s)) \<noteq> []" using l by auto
  then obtain f where "f \<in> set (t_folders (srv_db s))" "f_id f = fid" "\<not> f_disconnected f"
    by (auto simp: filter_empty_conv)
  with folder_mem [OF d] have f: "find_folder (srv_db s) fid = Some f" "\<not> f_disconnected f" "f_id f = fid" by auto
  define f' where "f' = f\<lparr>f_invite_hash := stored, f_expires := u64_as_i64 expires,
             f_sender_hash := None, f_ready := False\<rparr>"
  have f': "find_folder (srv_db t) fid = Some f'" by (simp add: g f f'_def)
  have ok': "folders_ok (srv_db t)"
    using presD2 [OF pres_renew_step d c] .
  have "claim_step now fid invite sender t = (Inr False, t)" if "invite \<noteq> stored" for now invite sender
  proof -
    have "List.find (\<lambda>f. f_id f = fid \<and> \<not> f_disconnected f) (t_folders (srv_db t)) = Some f'"
      unfolding find_connected [OF ok'] f' by (simp add: f'_def f)
    with that show ?thesis by (simp add: claim_step_def open_connection_eq retn_def f'_def)
  qed
  moreover have "no_transfer S fid t" by (rule no_transferI) (simp add: f' f'_def)
  moreover have "find_folder (srv_db t) i = find_folder (srv_db s) i" if "i \<noteq> fid" for i
    using that find_folder_mem [of "srv_db s" i] by (cases "find_folder (srv_db s) i") (auto simp: g)
  ultimately show ?thesis using f' by (auto simp: f'_def)
qed

lemma paired_folders_ok: "folders_ok (srv_db paired_server)"
  by (simp add: folders_ok_def folder_ok_def)

lemma paired_folder: "find_folder (srv_db paired_server) (sample_id (CHR ''f'')) = Some sample_folder_row"
  by (simp add: find_folder_def)

theorem disconnect_final_witness:
  "\<exists>t. disconnect_step (sample_id (CHR ''f'')) (sample_hash (CHR ''b'')) paired_server = (Inr True, t)
     \<and> claim_step 1 (sample_id (CHR ''f'')) (sample_hash (CHR ''c'')) (sample_hash (CHR ''b'')) t = (Inr False, t)"
proof -
  let ?f = "sample_id (CHR ''f'')"
  obtain ok t where c: "disconnect_step ?f (sample_hash (CHR ''b'')) paired_server = (Inr ok, t)"
    by (cases "authorized (srv_db paired_server) ?f (sample_hash (CHR ''b''))")
      (auto simp: disconnect_step_def open_connection_eq op_defs)
  have "authorized (srv_db paired_server) ?f (sample_hash (CHR ''b''))"
    by (simp add: authorized_def paired_folder)
  with disconnect_final [OF paired_folders_ok c, where X = sample_ext] c show ?thesis by auto
qed

theorem renew_revokes_witness:
  "\<exists>t. renew_step (sample_id (CHR ''f'')) (sample_hash (CHR ''d'')) 900 paired_server = (Inr (), t)
     \<and> claim_step 1 (sample_id (CHR ''f'')) (sample_hash (CHR ''c'')) (sample_hash (CHR ''b'')) t = (Inr False, t)"
proof -
  let ?f = "sample_id (CHR ''f'')"
  obtain t where c: "renew_step ?f (sample_hash (CHR ''d'')) 900 paired_server = (Inr (), t)"
    by (auto simp: renew_step_def open_connection_eq bindo_ok lifto_ok)
  from renew_revokes [OF paired_folders_ok c] c show ?thesis by auto
qed

end
