(* ===== verification/ServerSteps.thy ===== *)
theory ServerSteps
  imports TusApi Pairing
begin

text \<open>
  The server as a transition system. A step is one call of the store; a predicate that every
  store call keeps is kept by every handler and by every interleaving of handlers. The
  invariants of the tables, the finality of disconnection and of exit are such predicates.
\<close>

section \<open>The interface of a kept predicate\<close>

text \<open>
  \<open>E\<close> is the environment of the store, and \<open>P\<close> a predicate that every transition keeps. The
  routes of the server are made of these transitions and of reads.
\<close>

locale kept =
  fixes E :: store_env and P :: "server \<Rightarrow> bool"
  assumes k_enqueue: "pres P (enqueue_directory_with_id E now device x name did created directory)"
    and k_acknowledge: "pres P (acknowledge now device did sha)"
    and k_collect: "pres P (garbage_collect_digest sha)"
    and k_reconcile: "pres P (reconcile_content E)"
    and k_create_upload: "pres P (create_upload E now ids device u)"
    and k_get_upload: "pres P (get_upload E now device did)"
    and k_append: "pres P (append_upload E now device did expected chunk n)"
    and k_publish: "pres P (publish_directory E device update)"
    and k_ack_directory: "pres P (ack_directory now device ack)"
    and k_insert_folder: "pres P (transaction (insert_folder X now name fid token secret))"
    and k_claim: "pres P (transaction (claim_step now fid invite sender))"
    and k_confirm: "pres P (confirm_step X fid verification)"
    and k_renew: "pres P (renew_step fid stored expires)"
    and k_disconnect: "pres P (transaction (disconnect_step fid hash))"
    and k_exit: "pres P (clean_exit E fid credential)"
    and k_receipt: "pres P (transaction (exit_receipt fid role hash))"
begin

lemmas k_all = k_enqueue k_acknowledge k_collect k_reconcile k_create_upload k_get_upload k_append k_publish
  k_ack_directory k_insert_folder k_claim k_confirm k_renew k_disconnect k_exit k_receipt

lemma k_resume: "pres P (resume_exits E)"
  by (rule pres_resume) (rule k_exit)

end

section \<open>Steps\<close>

text \<open>
  One step of the server is one store call of any request or command, with whatever arguments:
  requests run side by side, and their store calls interleave in any order.
\<close>

inductive server_step :: "store_env \<Rightarrow> server \<Rightarrow> server \<Rightarrow> bool" for E :: store_env where
  step_enqueue: "server_step E s (snd (enqueue_directory_with_id E now device x name did created directory s))"
| step_acknowledge: "server_step E s (snd (acknowledge now device did sha s))"
| step_collect: "server_step E s (snd (garbage_collect_digest sha s))"
| step_reconcile: "server_step E s (snd (reconcile_content E s))"
| step_create_upload: "server_step E s (snd (create_upload E now ids device u s))"
| step_get_upload: "server_step E s (snd (get_upload E now device did s))"
| step_append: "server_step E s (snd (append_upload E now device did expected chunk n s))"
| step_publish: "server_step E s (snd (publish_directory E device update s))"
| step_ack_directory: "server_step E s (snd (ack_directory now device ack s))"
| step_insert_folder: "server_step E s (snd (transaction (insert_folder X now name fid token secret) s))"
| step_claim: "server_step E s (snd (transaction (claim_step now fid invite sender) s))"
| step_confirm: "server_step E s (snd (confirm_step X fid verification s))"
| step_renew: "server_step E s (snd (renew_step fid stored expires s))"
| step_disconnect: "server_step E s (snd (transaction (disconnect_step fid hash) s))"
| step_exit: "server_step E s (snd (clean_exit E fid credential s))"
| step_receipt: "server_step E s (snd (transaction (exit_receipt fid role hash) s))"

inductive server_steps :: "store_env \<Rightarrow> server \<Rightarrow> server \<Rightarrow> bool" for E :: store_env where
  steps_none [intro, simp]: "server_steps E s s"
| steps_more: "server_steps E s t \<Longrightarrow> server_step E t u \<Longrightarrow> server_steps E s u"

lemma steps_trans: "server_steps E t u \<Longrightarrow> server_steps E s t \<Longrightarrow> server_steps E s u"
  by (induction rule: server_steps.induct) (auto intro: steps_more)

context kept
begin

lemma step_keeps: "server_step E s t \<Longrightarrow> P s \<Longrightarrow> P t"
  by (induction rule: server_step.induct) (rule presD, rule k_all, assumption)+

lemma steps_keep: "server_steps E s t \<Longrightarrow> P s \<Longrightarrow> P t"
  by (induction rule: server_steps.induct) (auto dest: step_keeps)

end

text \<open>Having been reached is itself kept.\<close>

lemma pres_steps: "(\<And>t. server_step E t (snd (m t))) \<Longrightarrow> pres (server_steps E s) m"
  by (auto simp: pres_def intro: steps_more)

interpretation trail: kept E "server_steps E s" for E s
  by unfold_locales (rule pres_steps, rule server_step.intros)+

section \<open>Requests and commands\<close>

text \<open>
  What the router of the server hands to each handler, and what its command line does. The
  random values and the clock are the first arguments.
\<close>

datatype event =
    Health
  | ListDeliveries string headers "list_query option"
  | DownloadContent string string headers
  | AcknowledgeDelivery nat string string headers "string option"
  | TusOptions
  | TusCreate nat "nat \<Rightarrow> string" string headers "bytes option"
  | TusHead nat string string headers
  | TusPatch nat string string headers "bytes option"
  | CreateFolder nat string string string headers string
  | Claim nat headers claim_request
  | Handshake string headers
  | Confirm string headers string
  | Renew nat string string headers
  | Disconnect string headers
  | DirectoryGet string headers
  | DirectoryIndex string headers inventory_update
  | DirectoryReceipt nat string headers directory_ack
  | ExitStatusGet string headers
  | ExitStart string headers
  | ExitAck string headers
  | EnqueueCommand nat string string "node option" string
  | StatusCommand string
  | ReconcileCommand

fun run_event :: "api_state \<Rightarrow> codecs \<Rightarrow> event \<Rightarrow> server \<Rightarrow> server" where
  "run_event S C Health s = snd (health s)"
| "run_event S C (ListDeliveries uri h q) s = snd (list_deliveries S C uri h q s)"
| "run_event S C (DownloadContent uri did h) s = snd (download_content S uri did h s)"
| "run_event S C (AcknowledgeDelivery now uri did h b) s = snd (acknowledge_delivery S now uri did h b s)"
| "run_event S C TusOptions s = snd (tus_options S s)"
| "run_event S C (TusCreate now uuids uri h b) s = snd (tus_create S C now uuids uri h b s)"
| "run_event S C (TusHead now uri i h) s = snd (tus_head S now uri i h s)"
| "run_event S C (TusPatch now uri i h b) s = snd (tus_patch S now uri i h b s)"
| "run_event S C (CreateFolder now fid token secret h n) s = snd (create_folder S now fid token secret h n s)"
| "run_event S C (Claim now h r) s = snd (claim S now h r s)"
| "run_event S C (Handshake fid h) s = snd (handshake S fid h s)"
| "run_event S C (Confirm fid h v) s = snd (confirm S fid h v s)"
| "run_event S C (Renew now secret fid h) s = snd (renew S now secret fid h s)"
| "run_event S C (Disconnect fid h) s = snd (disconnect S fid h s)"
| "run_event S C (DirectoryGet fid h) s = snd (directory_get S fid h s)"
| "run_event S C (DirectoryIndex fid h u) s = snd (directory_index S fid h u s)"
| "run_event S C (DirectoryReceipt now fid h a) s = snd (directory_receipt S now fid h a s)"
| "run_event S C (ExitStatusGet fid h) s = snd (exit_dispatch S fid h 0 s)"
| "run_event S C (ExitStart fid h) s = snd (exit_dispatch S fid h 1 s)"
| "run_event S C (ExitAck fid h) s = snd (exit_dispatch S fid h 2 s)"
| "run_event S C (EnqueueCommand now uuid device x name) s = snd (enqueue (env S) now uuid device x name s)"
| "run_event S C (StatusCommand device) s = snd (stats device s)"
| "run_event S C ReconcileCommand s = snd (bindo (resume_exits (env S)) (\<lambda>_. reconcile_content (env S)) s)"

lemma run_store_states:
  "snd (run_tus_store m s) = snd (m s)" "snd (as_tus n s) = snd (n s)" "snd (log_nonfatal n s) = snd (n s)"
  by (simp_all add: run_tus_store_def as_tus_def log_nonfatal_def split: prod.splits sum.splits)

lemma pres_wrappers [pres_intros]:
  "pres P m \<Longrightarrow> pres P (run_tus_store m)" "pres P n \<Longrightarrow> pres P (as_tus n)" "pres P n \<Longrightarrow> pres P (log_nonfatal n)"
  by (simp_all add: pres_def run_store_states)

lemma pres_reads [pres_intros]:
  "pres P (list_pending E device after snapshot limit)" "pres P (is_directory_delivery device did)"
  "pres P (open_content E d)" "pres P (stats device)" "pres P (directory_state_of E device)"
  "pres P (read_identity E fid hash)" "pres P (exit_status fid role)" "pres P health_check"
  unfolding list_pending_def is_directory_delivery_def open_content_def stats_def directory_state_of_def
    read_identity_def exit_status_def health_check_def Let_def split_def
  by (intro pres_intros)+

lemma pres_identity [pres_intros]: "pres P (identity S fid hash)"
  unfolding identity_def by (intro pres_intros)

lemma pres_authorize [pres_intros]:
  "pres P (authorize_transfer S h uri role)" "pres P (authorize_directory S h fid dr)"
  unfolding authorize_transfer_def authorize_directory_def by (intro pres_intros)+

lemma pres_case_receipt [pres_intros]:
  "pres P a \<Longrightarrow> pres P b \<Longrightarrow> pres P c \<Longrightarrow>
     pres P (case r of ReceiptUnauthorized \<Rightarrow> a | ReceiptEarly \<Rightarrow> b | ReceiptTaken \<Rightarrow> c)"
  by (cases r) auto

lemma pres_case_exit [pres_intros]:
  "pres P a \<Longrightarrow> pres P b \<Longrightarrow> (\<And>st. pres P (c st)) \<Longrightarrow>
     pres P (case r of ExitUnauthorized \<Rightarrow> a | CleanupPending \<Rightarrow> b | ExitStatus st \<Rightarrow> c st)"
  by (cases r) auto

lemma pres_case_appended [pres_intros]:
  "(\<And>j. pres P (a j)) \<Longrightarrow> pres P b \<Longrightarrow> (\<And>j. pres P (c j)) \<Longrightarrow> (\<And>j. pres P (d j)) \<Longrightarrow>
     pres P (case r of Appended j \<Rightarrow> a j | AppendNotFound \<Rightarrow> b | OffsetMismatch j \<Rightarrow> c j | TooLarge j \<Rightarrow> d j)"
  by (cases r) auto

lemma pres_case_acknowledged:
  "pres P a \<Longrightarrow> pres P b \<Longrightarrow> pres P c \<Longrightarrow> pres P d \<Longrightarrow>
     pres P (case r of None \<Rightarrow> a | Some AckNotFound \<Rightarrow> b | Some DigestConflict \<Rightarrow> c | Some _ \<Rightarrow> d)"
  by (auto split: option.split acknowledge_outcome.split)

context kept
begin

lemma keeps_deliveries:
  assumes S: "env S = E"
  shows "pres P (list_deliveries S C uri h q)" "pres P (download_content S uri did h)"
    "pres P (acknowledge_delivery S now uri did h b)" "pres P health"
  unfolding list_deliveries_def download_content_def acknowledge_delivery_def acknowledge_queued_def
    health_def Let_def split_def S
  by (intro pres_intros k_all pres_case_acknowledged)+

lemma keeps_uploads:
  assumes S: "env S = E"
  shows "pres P (tus_options S)" "pres P (tus_create S C now uuids uri h body)" "pres P (tus_head S now uri i h)"
    "pres P (tus_patch S now uri i h body)"
  unfolding tus_options_def tus_create_def tus_head_def tus_patch_def Let_def S
  by (intro pres_intros k_all)+

lemma keeps_folders:
  "pres P (create_folder S now fid token secret h n)" "pres P (claim S now h r)" "pres P (handshake S fid h)"
  "pres P (confirm S fid h v)" "pres P (renew S now secret fid h)" "pres P (disconnect S fid h)"
  unfolding create_folder_def claim_def handshake_def confirm_def renew_def disconnect_def Let_def split_def
  by (intro pres_intros k_all)+

lemma keeps_directory:
  assumes S: "env S = E"
  shows "pres P (directory_get S fid h)" "pres P (directory_index S fid h update)"
    "pres P (directory_receipt S now fid h ack)" "pres P (exit_dispatch S fid h operation)"
  unfolding directory_get_def directory_index_def directory_receipt_def exit_dispatch_def exit_work_def S
  by (intro pres_intros k_all)+

lemma event_keeps:
  assumes S: "env S = E" and s: "P s"
  shows "P (run_event S C e s)"
proof -
  have c: "pres P (enqueue E now uuid device x name)" "pres P (bindo (resume_exits E) (\<lambda>_. reconcile_content E))"
    for now uuid device x name
    unfolding enqueue_def enqueue_with_id_def by (intro pres_intros k_all k_resume)+
  show ?thesis
    by (cases e) (simp_all add: S s presD [OF keeps_deliveries(1)] presD [OF keeps_deliveries(2)]
        presD [OF keeps_deliveries(3)] presD [OF keeps_deliveries(4) [OF S]] presD [OF keeps_uploads(1)]
        presD [OF keeps_uploads(2)] presD [OF keeps_uploads(3)] presD [OF keeps_uploads(4)]
        presD [OF keeps_folders(1)] presD [OF keeps_folders(2)] presD [OF keeps_folders(3)]
        presD [OF keeps_folders(4)] presD [OF keeps_folders(5)] presD [OF keeps_folders(6)]
        presD [OF keeps_directory(1)] presD [OF keeps_directory(2)] presD [OF keeps_directory(3)]
        presD [OF keeps_directory(4)] presD [OF c(1)] presD [OF c(2)] presD [OF pres_reads(4)])
qed

end

section \<open>The invariants of the server\<close>

lemma pres_folders_receipt: "pres folders_good (transaction (exit_receipt fid role hash))"
proof -
  have m: "List.map x_folder (List.map (mark_cleaned fid role) xs) = List.map x_folder xs" for xs
    by (induction xs) (auto simp: mark_cleaned_def)
  have "folders_ok (d\<lparr>t_exits := List.map (mark_cleaned fid role) (t_exits d)\<rparr>)" if "folders_ok d" for d
    using that unfolding folders_ok_def
    by (auto simp: list_all_iff m simp del: List.map_map) (auto simp: mark_cleaned_def split: if_splits)
  then show ?thesis
    unfolding exit_receipt_def by (intro pres_folders_transaction pres_intros pres_folders_db)
qed

lemma exit_started_marked: "exit_started (d\<lparr>t_exits := List.map (mark_cleaned fid role) (t_exits d)\<rparr>) i = exit_started d i"
proof -
  have "x_folder (mark_cleaned fid role x) = x_folder x" for x by (simp add: mark_cleaned_def)
  then show ?thesis by (simp add: exit_started_def)
qed

lemma shrink_folder_tables:
  "tables_shrink E d (d\<lparr>t_folders := fs\<rparr>)" "tables_shrink E d (update_folder fid g d)"
  "tables_shrink E d (d\<lparr>t_exits := List.map (mark_cleaned fid role) (t_exits d)\<rparr>)"
proof -
  show "tables_shrink E d (d\<lparr>t_folders := fs\<rparr>)" by simp
  show "tables_shrink E d (update_folder fid g d)" by (simp add: update_folder_def)
  have "device_open (d\<lparr>t_exits := List.map (mark_cleaned fid role) (t_exits d)\<rparr>) x = device_open d x" for x
    unfolding device_open_iff exit_started_marked ..
  then show "tables_shrink E d (d\<lparr>t_exits := List.map (mark_cleaned fid role) (t_exits d)\<rparr>)"
    by (simp add: tables_shrink_def rows_ok_def must_keep_def)
qed

lemma pres_folder_tables:
  "pres (store_ok E) (transaction (insert_folder X now name fid token secret))"
  "pres (store_ok E) (transaction (claim_step now fid invite sender))"
  "pres (store_ok E) (confirm_step X fid verification)" "pres (store_ok E) (renew_step fid stored expires)"
  "pres (store_ok E) (transaction (disconnect_step fid hash))"
  "pres (store_ok E) (transaction (exit_receipt fid role hash))"
  unfolding insert_folder_def claim_step_def confirm_step_def renew_step_def disconnect_step_def
    exit_receipt_def Let_def
  by (intro pres_transaction_content pres_intros shrink_folder_tables)+

lemma pres_folder_versions:
  "pres versions_good (transaction (insert_folder X now name fid token secret))"
  "pres versions_good (transaction (claim_step now fid invite sender))"
  "pres versions_good (confirm_step X fid verification)" "pres versions_good (renew_step fid stored expires)"
  "pres versions_good (transaction (disconnect_step fid hash))"
  "pres versions_good (transaction (exit_receipt fid role hash))"
  unfolding insert_folder_def claim_step_def confirm_step_def renew_step_def disconnect_step_def
    exit_receipt_def Let_def
  by (intro pres_versions_transaction pres_intros pres_versions_tables;
      simp add: versions_ok_def find_row_def update_folder_def)+

interpretation stored: kept E "store_ok E" for E
  by unfold_locales (intro pres_intros pres_folder_tables)+

interpretation versioned: kept E versions_good for E
  by unfold_locales (intro pres_intros pres_folder_versions)+

interpretation foldered: kept E folders_good for E
  by unfold_locales (intro pres_folders_transaction pres_folders_receipt pres_intros)+

text \<open>
  Every request of every route, and every command of the server, is a sequence of the
  transitions of the store, whatever its headers and its body are.
\<close>

lemma events_are_steps: "server_steps (env S) s (run_event S C e s)"
  by (rule trail.event_keeps) simp_all

definition server_good :: "store_env \<Rightarrow> server \<Rightarrow> bool" where
  "server_good E s \<longleftrightarrow> store_ok E s \<and> versions_good s \<and> folders_good s"

lemma empty_good: "server_good E empty_server"
  by (simp add: server_good_def store_ok_def rows_ok_def content_safe_def must_keep_def versions_ok_def
      folders_ok_def)

lemma steps_good: "server_steps E s t \<Longrightarrow> server_good E s \<Longrightarrow> server_good E t"
  using stored.steps_keep versioned.steps_keep foldered.steps_keep by (auto simp: server_good_def)

section \<open>From the empty server\<close>

text \<open>
  C31. Whatever the requests and their interleaving, a server that started empty has well-formed
  tables: every row is valid and its content is kept while it is pending, versions are positive,
  unique and name rows, and the Folders, their credentials and their exits agree.
\<close>

theorem server_invariant:
  assumes "server_steps E empty_server s"
  shows "store_ok E s \<and> versions_ok (srv_db s) \<and> folders_ok (srv_db s)"
  using steps_good [OF assms empty_good] by (simp add: server_good_def)

definition first_folder :: server where
  "first_folder = snd (transaction (insert_folder sample_ext 100 ''folder'' (sample_id (CHR ''f'')) ''t'' ''s'') empty_server)"

lemma first_folder_steps: "server_steps sample_env empty_server first_folder"
  unfolding first_folder_def by (rule steps_more [OF steps_none step_insert_folder])

lemma first_folder_rows:
  "List.map f_id (t_folders (srv_db first_folder)) = [sample_id (CHR ''f'')]"
  by (simp add: first_folder_def transaction_def insert_folder_def open_connection_eq bindo_lifto Let_def op_defs
      find_folder_def)

theorem server_invariant_witness:
  "\<exists>s :: server. List.map f_id (t_folders (srv_db s)) = [sample_id (CHR ''f'')] \<and> folders_ok (srv_db s)"
  by (rule exI [of _ first_folder]) (simp add: server_invariant [OF first_folder_steps] first_folder_rows)

section \<open>Disconnection is for good\<close>

definition gone :: "string \<Rightarrow> server \<Rightarrow> bool" where
  "gone fid s \<longleftrightarrow> (\<exists>f. find_folder (srv_db s) fid = Some f \<and> f_disconnected f)"

lemma pres_same:
  assumes "\<And>fs xs. pres (\<lambda>s. t_folders (srv_db s) = fs \<and> t_exits (srv_db s) = xs) m"
    and "\<And>s t. t_folders (srv_db t) = t_folders (srv_db s) \<Longrightarrow> t_exits (srv_db t) = t_exits (srv_db s) \<Longrightarrow> P s \<Longrightarrow> P t"
  shows "pres P m"
  unfolding pres_iff
proof (intro allI impI)
  fix s r t assume s: "P s" "m s = (r, t)"
  have "t_folders (srv_db t) = t_folders (srv_db s) \<and> t_exits (srv_db t) = t_exits (srv_db s)"
    by (rule presD2 [OF assms(1) _ s(2)]) simp
  with s(1) assms(2) [of t s] show "P t" by blast
qed

lemma gone_cong: "t_folders (srv_db t) = t_folders (srv_db s) \<Longrightarrow> t_exits (srv_db t) = t_exits (srv_db s) \<Longrightarrow> gone fid s \<Longrightarrow> gone fid t"
  by (simp add: gone_def find_folder_def)

lemma gone_map:
  assumes "\<And>f. f_id (g f) = f_id f" "\<And>f. f_disconnected f \<Longrightarrow> f_disconnected (g f)" "gone fid s"
  shows "gone fid (on_db (\<lambda>d. d\<lparr>t_folders := List.map g (t_folders d)\<rparr>) s)"
proof -
  have "find_folder (srv_db (on_db (\<lambda>d. d\<lparr>t_folders := List.map g (t_folders d)\<rparr>) s)) fid
      = map_option g (find_folder (srv_db s) fid)"
    by (rule find_folder_map [OF assms(1)]) simp
  with assms(2,3) show ?thesis by (auto simp: gone_def)
qed

lemma gone_update:
  assumes "\<And>f. f_id (g f) = f_id f" "\<And>f. f_disconnected f \<Longrightarrow> f_disconnected (g f)" "gone fid s"
  shows "gone fid (on_db (update_folder i g) s)"
  using assms by (auto simp: gone_def find_folder_update)

lemma gone_db: "gone fid s \<Longrightarrow> gone fid (t\<lparr>srv_db := srv_db s\<rparr>)"
  by (simp add: gone_def)

lemma pres_gone_transaction: "pres (gone fid) m \<Longrightarrow> pres (gone fid) (transaction m)"
  unfolding pres_def transaction_def by (auto simp: split_beta gone_db split: sum.split)

lemma gone_same:
  "(\<And>fs xs. pres (\<lambda>s. t_folders (srv_db s) = fs \<and> t_exits (srv_db s) = xs) m) \<Longrightarrow> pres (gone fid) m"
  by (rule pres_same) (auto dest: gone_cong)

lemma gone_insert: "gone fid s \<Longrightarrow> gone fid (on_db (\<lambda>d. d\<lparr>t_folders := t_folders d @ fs\<rparr>) s)"
proof -
  have "List.find Q (xs @ ys) = (case List.find Q xs of None \<Rightarrow> List.find Q ys | Some x \<Rightarrow> Some x)"
    for Q :: "folder_row \<Rightarrow> bool" and xs ys by (induction xs) auto
  then show "gone fid s \<Longrightarrow> ?thesis" by (auto simp: gone_def find_folder_def)
qed

lemma gone_folders:
  "pres (gone fid) (transaction (insert_folder X now name i token secret))"
  "pres (gone fid) (transaction (claim_step now i invite sender))"
  "pres (gone fid) (confirm_step X i verification)" "pres (gone fid) (renew_step i stored expires)"
  "pres (gone fid) (transaction (disconnect_step i hash))"
  "pres (gone fid) (transaction (exit_receipt i role hash))"
  unfolding insert_folder_def claim_step_def confirm_step_def renew_step_def disconnect_step_def
    exit_receipt_def Let_def
       apply (intro pres_gone_transaction pres_intros pres_modifyo gone_insert; assumption)
      apply (intro pres_gone_transaction pres_intros pres_modifyo gone_update; simp)
     apply (intro pres_intros pres_modifyo; rule gone_map; simp)
    apply (intro pres_intros pres_modifyo; rule gone_map; simp)
   apply (intro pres_gone_transaction pres_intros pres_modifyo gone_update; simp add: revoke_def)
  by (intro pres_gone_transaction pres_intros pres_modifyo) (simp add: gone_def find_folder_def)

lemma gone_exit: "pres (gone fid) (clean_exit E i credential)"
proof (rule hoare_clean_exit)
  have "gone fid (on_db (\<lambda>d. request_exit i (update_folder i revoke d)) s)" if "gone fid s" for s
    using that by (auto simp: gone_def find_folder_revoked revoke_def)
  then show "pres (gone fid) (transaction (revoke_folder i credential))"
    unfolding revoke_folder_def by (intro pres_gone_transaction pres_intros pres_modifyo)
  show "pres (gone fid) lock_uploads" "pres (gone fid) lock_content"
    "pres (gone fid) (purge_folder_uploads_locked E (folder_device i))"
    by (rule gone_same, rule tables.fr_locks tables.fr_purge)+
  have "pres (gone fid) (remove_folder_object d device sm)" for d device sm
    by (rule gone_same) (cases sm; auto simp: remove_folder_object_def intro!: pres_intros tables.fr_content)
  then have "pres (gone fid) (transaction (retire_step i))"
    unfolding retire_step_def
    by (intro pres_gone_transaction pres_intros pres_modifyo) (auto simp: gone_def find_folder_retired)
  then show "gone fid (snd (transaction (retire_step i) s))" if "gone fid s" for s
    using that by (rule presD)
qed

interpretation absent: kept E "gone fid" for E fid
  by unfold_locales
    (rule gone_folders gone_exit | (rule gone_same, rule tables.fr_enqueue tables.fr_acknowledge tables.fr_collect
       tables.fr_reconcile tables.fr_create_upload tables.fr_get_upload tables.fr_append_upload tables.fr_publish
       tables.fr_ack_directory))+

text \<open>
  C33. A disconnected Folder stays disconnected through every later request, of whatever
  credentials and in whatever interleaving: no transfer under its address is ever authorised
  again, and no claim of it succeeds.
\<close>

theorem disconnected_for_good:
  assumes good: "server_good E s" and d: "disconnect_step fid hash s = (Inr True, t)" and later: "server_steps E t u"
  shows "no_transfer S fid u \<and> (\<exists>f. find_folder (srv_db u) fid = Some f \<and> folder_status f = ''disconnected'')
     \<and> (\<forall>now invite sender. claim_step now fid invite sender u = (Inr False, u))"
proof -
  have "authorized (srv_db s) fid hash" "t = on_db (update_folder fid revoke) s"
    using d by (auto simp: disconnect_step_def open_connection_eq bindo_ok split: if_splits)
  then have "gone fid t"
    by (auto simp: authorized_def gone_def find_folder_update revoke_def split: option.splits)
  then have g: "gone fid u" by (rule absent.steps_keep [OF later])
  have "folders_ok (srv_db t)"
    using presD2 [OF pres_disconnect_step _ d] good by (simp add: server_good_def)
  then have ok: "folders_ok (srv_db u)" by (rule foldered.steps_keep [OF later])
  from g obtain f where f: "find_folder (srv_db u) fid = Some f" "f_disconnected f" by (auto simp: gone_def)
  have "claim_step now fid invite sender u = (Inr False, u)" for now invite sender
    by (simp add: claim_step_def open_connection_eq find_connected [OF ok] f retn_def)
  moreover have "no_transfer S fid u" by (rule no_transferI) (simp add: f)
  ultimately show ?thesis using f by (simp add: status_cases)
qed

theorem disconnected_for_good_witness:
  "\<exists>t. disconnect_step (sample_id (CHR ''f'')) (token_hash sample_ext ''t'') first_folder = (Inr True, t)
     \<and> (\<forall>S. no_transfer S (sample_id (CHR ''f'')) t)"
proof -
  have "authorized (srv_db first_folder) (sample_id (CHR ''f'')) (token_hash sample_ext ''t'')"
    by (simp add: first_folder_def transaction_def insert_folder_def open_connection_eq bindo_lifto Let_def op_defs
      find_folder_def authorized_def)
  then obtain t where d: "disconnect_step (sample_id (CHR ''f'')) (token_hash sample_ext ''t'') first_folder = (Inr True, t)"
    by (auto simp: disconnect_step_def open_connection_eq bindo_ok)
  have "no_transfer S (sample_id (CHR ''f'')) t" for S
    using disconnected_for_good [OF steps_good [OF first_folder_steps empty_good] d steps_none] by blast
  with d show ?thesis by blast
qed

section \<open>An exit is for good\<close>

lemma retired_db:
  assumes "t_deliveries (f d) = t_deliveries d" "t_versions (f d) = t_versions d" "t_indexes (f d) = t_indexes d"
    "\<And>i. exit_started d i \<Longrightarrow> exit_started (f d) i"
    "retired fid s" "srv_db s = d"
  shows "retired fid (on_db f s)"
  using assms by (auto simp: retired_def owned_upload_def)

lemma retired_folders:
  "pres (retired fid) (transaction (insert_folder X now name i token secret))"
  "pres (retired fid) (transaction (claim_step now i invite sender))"
  "pres (retired fid) (confirm_step X i verification)" "pres (retired fid) (renew_step i stored expires)"
  "pres (retired fid) (transaction (disconnect_step i hash))"
  "pres (retired fid) (transaction (exit_receipt i role hash))"
  unfolding insert_folder_def claim_step_def confirm_step_def renew_step_def disconnect_step_def
    exit_receipt_def Let_def
  by (intro empty.fr_transaction pres_intros pres_modifyo; rule retired_db [OF _ _ _ _ _ refl];
      simp add: exit_started_marked; simp add: exit_started_def update_folder_def)+

lemma retired_retire: "retired fid s \<Longrightarrow> retired fid (on_db (retire_rows i) s)"
  by (auto simp: retired_def owned_upload_def delete_conv')

lemma retired_exit: "pres (retired fid) (clean_exit E i credential)"
proof (rule hoare_clean_exit)
  have "retired fid (on_db (\<lambda>d. request_exit i (update_folder i revoke d)) s)" if "retired fid s" for s
    by (rule retired_db [OF _ _ _ _ that refl]) (simp_all add: exit_started_request, simp add: exit_started_def)
  then show "pres (retired fid) (transaction (revoke_folder i credential))"
    unfolding revoke_folder_def by (intro empty.fr_transaction pres_intros pres_modifyo)
  show "pres (retired fid) lock_uploads" "pres (retired fid) lock_content"
    "pres (retired fid) (purge_folder_uploads_locked E (folder_device i))"
    by (rule empty.fr_locks empty.fr_purge)+
  have "pres (retired fid) (remove_folder_object d device sm)" for d device sm
    by (cases sm) (auto simp: remove_folder_object_def intro!: pres_intros empty.fr_content)
  then have "pres (retired fid) (transaction (retire_step i))"
    unfolding retire_step_def
    by (intro empty.fr_transaction pres_intros pres_modifyo retired_retire)
  then show "retired fid (snd (transaction (retire_step i) s))" if "retired fid s" for s
    using that by (rule presD)
qed

interpretation left: kept E "retired fid" for E fid
  by unfold_locales
    (rule retired_folders retired_exit empty.fr_enqueue empty.fr_acknowledge empty.fr_collect
       empty.fr_reconcile empty.fr_create_upload empty.fr_get_upload empty.fr_append_upload empty.fr_publish
       empty.fr_ack_directory)+

section \<open>After an exit\<close>

lemma exit_retires:
  assumes "clean_exit E fid credential s = (Inr True, t)"
  shows "retired fid t" "gone fid t"
  using exit_effect [OF assms] by (auto simp: retired_def owned_upload_def gone_def)

text \<open>
  C34. Once an exit has completed, no later request of any client, in any interleaving, puts a
  delivery, a directory version, an inventory or an upload of that Folder on the server again,
  and no transfer under its address is authorised.
\<close>

theorem exited_for_good:
  assumes x: "clean_exit E fid credential s = (Inr True, t)" and later: "server_steps E t u"
  shows "(\<forall>r \<in> set (t_deliveries (srv_db u)). r_device r \<noteq> folder_device fid)
     \<and> (\<forall>v \<in> set (t_versions (srv_db u)). v_device v \<noteq> folder_device fid)
     \<and> map_of (t_indexes (srv_db u)) (folder_device fid) = None
     \<and> (\<forall>i. \<not> owned_upload (folder_device fid) u i) \<and> no_transfer S fid u"
proof -
  have "retired fid u" by (rule left.steps_keep [OF later exit_retires(1) [OF x]])
  moreover have "gone fid u" by (rule absent.steps_keep [OF later exit_retires(2) [OF x]])
  then have "no_transfer S fid u" by (intro no_transferI) (auto simp: gone_def)
  ultimately show ?thesis by (simp add: retired_def)
qed

theorem exited_for_good_witness:
  "\<exists>t. clean_exit sample_env (sample_id (CHR ''f'')) (Some (token_hash sample_ext ''t'')) first_folder = (Inr True, t)
     \<and> (\<forall>S. no_transfer S (sample_id (CHR ''f'')) t)"
proof -
  let ?f = "sample_id (CHR ''f'')" and ?h = "Some (token_hash sample_ext ''t'')"
  let ?a = "on_db (\<lambda>d. request_exit ?f (update_folder ?f revoke d)) first_folder"
  let ?l = "?a\<lparr>srv_uploads_other := [(LIBRARY_LOCK_FILE, File [])]\<rparr>"
  let ?b = "?l\<lparr>srv_content := [(LIBRARY_LOCK_FILE, File [])]\<rparr>"
  have e: "t_deliveries (srv_db first_folder) = []" "srv_parts first_folder = []" "srv_records first_folder = []"
    "srv_content first_folder = []" "srv_uploads_other first_folder = []"
    "authorized (srv_db first_folder) ?f (token_hash sample_ext ''t'')"
    by (simp_all add: first_folder_def transaction_def insert_folder_def open_connection_eq bindo_lifto Let_def op_defs
      find_folder_def authorized_def)
  then have 1: "revoke_folder ?f ?h first_folder = (Inr True, ?a)"
    by (auto simp: revoke_folder_Inr authorized_def split: option.splits)
  have 2: "lock_uploads ?a = (Inr (), ?l)" by (simp add: lock_uploads_def lock_library_def e)
  have 3: "lock_content ?l = (Inr (), ?b)" by (simp add: lock_content_def on_content_eq lock_library_def e)
  have 4: "purge_folder_uploads_locked sample_env (folder_device ?f) ?b = (Inr (), ?b)"
    by (simp add: purge_folder_uploads_locked_def bindo_ok readso_ok e)
  have 5: "for_each (remove_folder_object (srv_db ?b) (folder_device ?f)) (folder_objects (srv_db ?b) (folder_device ?f)) ?b
      = (Inr (), ?b)"
    by (simp add: folder_objects_def e op_defs)
  from clean_exit_intro [OF 1 2 3 4 5] obtain t where t: "clean_exit sample_env ?f ?h first_folder = (Inr True, t)"
    by blast
  have "no_transfer S ?f t" for S using exited_for_good [OF t steps_none] by blast
  with t show ?thesis by blast
qed

end
