(* ===== verification/Upload.thy ===== *)
theory Upload
  imports TusClient Content ServerSteps
begin

text \<open>
  The sending client and the server together: what the client says of a file and what the server
  understands, the requests that a client makes whatever the server answers, and what a client
  may conclude from a finished upload.
\<close>

section \<open>Printable text\<close>

text \<open>What is documented of the standard Base64 engine, and a stand-in that satisfies it.\<close>

definition base64_char :: "char \<Rightarrow> bool" where
  "base64_char c \<longleftrightarrow> is_ascii_alphanumeric c \<or> c \<in> set ''+/=''"

definition good_codec :: "codecs \<Rightarrow> bool" where
  "good_codec C \<longleftrightarrow> (\<forall>b. standard_decode C (standard_encode C b) = Some b
     \<and> list_all base64_char (standard_encode C b)
     \<and> (b \<noteq> [] \<longrightarrow> standard_encode C b \<noteq> [])
     \<and> length (standard_encode C b) \<le> 2 * length b + 2)"

lemma base64_printable: "base64_char c \<Longrightarrow> printable_char c \<and> c \<noteq> CHR '',''"
  by (auto simp: base64_char_def printable_char_def ascii_defs)

lemma has_whitespace_printable: "list_all printable_char s \<Longrightarrow> \<not> has_whitespace s"
proof -
  assume s: "list_all printable_char s"
  have "\<not> prefix w t" if "t \<in> set (suffixes s)" "w \<in> set whitespace" for t w
  proof
    assume "prefix w t"
    with whitespace_ends [OF that(2)] have "hd w \<in> set t" by (auto simp: prefix_def)
    with that(1) have "hd w \<in> set s" by (auto simp: suffix_def)
    with s whitespace_ends [OF that(2)] show False by (auto simp: list_all_iff)
  qed
  then show ?thesis by (auto simp: has_whitespace_def list_ex_iff)
qed

section \<open>One metadata pair\<close>

definition metadata_pair :: "codecs \<Rightarrow> string \<times> string \<Rightarrow> string" where
  "metadata_pair C kv = fst kv @ '' '' @ standard_encode C (snd kv)"

definition metadata_value :: "string \<Rightarrow> bool" where
  "metadata_value v \<longleftrightarrow> v \<noteq> [] \<and> length v \<le> 1024 \<and> valid_utf8 v"

lemma metadata_keys_shape: "k \<in> set metadata_keys \<Longrightarrow>
    k \<noteq> [] \<and> list_all printable_char k \<and> CHR '' '' \<notin> set k \<and> CHR '','' \<notin> set k \<and> length k \<le> 14"
  by (auto simp: metadata_keys_def printable_char_def)

lemma parse_pair_back:
  assumes C: "good_codec C" and k: "k \<in> set metadata_keys" and v: "metadata_value v"
  shows "parse_metadata_pair C (metadata_pair C (k, v)) = Some (k, v)"
proof -
  let ?e = "standard_encode C v"
  have e: "?e \<noteq> []" "list_all printable_char ?e" "standard_decode C ?e = Some v"
    using C v by (auto simp: good_codec_def metadata_value_def list_all_iff dest: base64_printable)
  note kk = metadata_keys_shape [OF k]
  obtain a r where k': "k = a # r" using kk by (cases k) auto
  have "trim (metadata_pair C (k, v)) = metadata_pair C (k, v)"
    unfolding metadata_pair_def k' fst_conv snd_conv append_Cons
    by (rule trim_printable) (use kk e k' in \<open>auto simp: list_all_iff\<close>)
  moreover have "split_once (CHR '' '') (metadata_pair C (k, v)) = Some (k, ?e)"
    unfolding split_once_eq metadata_pair_def using kk by simp
  ultimately show ?thesis
    using k e v has_whitespace_printable [OF e(2)]
    by (auto simp: parse_metadata_pair_def metadata_value_def)
qed

lemma parse_pairs_back:
  assumes C: "good_codec C"
  shows "distinct (List.map fst kvs) \<Longrightarrow> \<forall>kv \<in> set kvs. fst kv \<in> set metadata_keys \<and> metadata_value (snd kv)
     \<Longrightarrow> \<forall>kv \<in> set kvs. map_of m (fst kv) = None
     \<Longrightarrow> parse_metadata_pairs C (List.map (metadata_pair C) kvs) m = Some (fold (\<lambda>(k, v). bt_insert k v) kvs m)"
proof (induction kvs arbitrary: m)
  case Nil
  then show ?case by simp
next
  case (Cons kv kvs)
  obtain k v where kv: "kv = (k, v)" by fastforce
  have "parse_metadata_pair C (metadata_pair C (k, v)) = Some (k, v)"
    by (rule parse_pair_back [OF C]) (use Cons.prems kv in auto)
  moreover have "map_of m k = None" using Cons.prems kv by auto
  moreover have "parse_metadata_pairs C (List.map (metadata_pair C) kvs) (bt_insert k v m)
      = Some (fold (\<lambda>(k, v). bt_insert k v) kvs (bt_insert k v m))"
    using Cons.prems kv by (intro Cons.IH) auto
  ultimately show ?case by (simp add: kv)
qed

section \<open>Decimal numbers\<close>

lemma digits_value_append: "digits_value n (xs @ ys) = digits_value (digits_value n xs) ys"
  by (induction n xs rule: digits_value.induct) simp_all

lemma decimal_digits: "decimal n \<noteq> [] \<and> list_all is_ascii_digit (decimal n) \<and> digits_value 0 (decimal n) = n"
proof (induction n rule: decimal.induct)
  case (1 n)
  show ?case
  proof (cases "n < 10")
    case True
    then show ?thesis by (subst (1 2 3) decimal.simps) (simp add: is_ascii_digit_def)
  next
    case False
    have d: "decimal n = decimal (n div 10) @ [char_of (48 + n mod 10)]" using False by (subst decimal.simps) simp
    have "48 + n mod 10 < 256" by (rule less_le_trans [of _ 58]) simp_all
    with 1 [OF False] False show ?thesis
      unfolding d by (simp add: digits_value_append is_ascii_digit_def)
  qed
qed

lemma decimal_length: "n < 10 ^ Suc k \<Longrightarrow> length (decimal n) \<le> Suc k"
proof (induction k arbitrary: n)
  case 0
  then show ?case by (subst decimal.simps) simp
next
  case (Suc k)
  show ?case
  proof (cases "n < 10")
    case True
    then show ?thesis by (subst decimal.simps) simp
  next
    case False
    have "n div 10 < 10 ^ Suc k" using Suc.prems by (simp add: less_mult_imp_div_less)
    from Suc.IH [OF this] False show ?thesis by (subst decimal.simps) simp
  qed
qed

lemma digit_facts: "is_ascii_digit c \<Longrightarrow> c \<noteq> CHR ''+'' \<and> printable_char c"
  by (auto simp: is_ascii_digit_def printable_char_def)

lemma parse_decimal: "n \<le> u64_max \<Longrightarrow> parse_u64 (decimal n) = Some n"
proof -
  assume n: "n \<le> u64_max"
  obtain c cs where d: "decimal n = c # cs" using decimal_digits [of n] by (cases "decimal n") auto
  have "c \<noteq> CHR ''+''" using decimal_digits [of n] d by (auto dest: digit_facts)
  with d n decimal_digits [of n] show ?thesis by (simp add: parse_u64_def Let_def)
qed

lemma header_text_printable: "list_all printable_char s \<Longrightarrow> header_text s"
  by (auto simp: header_text_def printable_char_def list_all_iff)

lemma decimal_header: "n \<le> u64_max \<Longrightarrow> parse_u64_header (decimal n) code = Inr n"
proof -
  assume n: "n \<le> u64_max"
  have "header_text (decimal n)"
    by (rule header_text_printable) (use decimal_digits [of n] digit_facts in \<open>auto simp: list_all_iff\<close>)
  with decimal_digits [of n] parse_decimal [OF n] show ?thesis by (simp add: parse_u64_header_def)
qed

section \<open>The metadata of an upload\<close>

definition upload_pairs ::
    "string \<Rightarrow> string \<Rightarrow> string \<Rightarrow> directory_version option \<Rightarrow> (string \<times> string) list" where
  "upload_pairs name media sha directory =
     [(''filename'', name), (''media_type'', media), (''sha256'', sha)]
     @ (case directory of None \<Rightarrow> []
        | Some v \<Rightarrow> [(''relative_path'', dv_path v), (''source_version'', decimal (dv_version v))])"

lemma directory_header_pairs:
  "directory_metadata_header C name i directory =
     join_with (CHR '','') (List.map (metadata_pair C) (upload_pairs name (in_media_type i) (in_sha256 i) directory))"
  by (cases directory) (simp_all add: directory_metadata_header_def metadata_header_def upload_pairs_def metadata_pair_def)

lemma upload_pairs_keys: "distinct (List.map fst (upload_pairs name media sha directory))"
  "\<forall>kv \<in> set (upload_pairs name media sha directory). fst kv \<in> set metadata_keys"
  by (cases directory; simp add: upload_pairs_def metadata_keys_def)+

lemma fold_bt_pairs: "map_of (fold (\<lambda>(k, v). bt_insert k v) kvs []) = map_of (rev kvs)"
  using fold_bt_insert_map_of [of kvs "[]"] by simp

lemma upload_pairs_map:
  "map_of (fold (\<lambda>(k, v). bt_insert k v) (upload_pairs name media sha directory) []) =
     [''filename'' \<mapsto> name, ''media_type'' \<mapsto> media, ''sha256'' \<mapsto> sha]
     ++ (case directory of None \<Rightarrow> Map.empty
         | Some v \<Rightarrow> [''relative_path'' \<mapsto> dv_path v, ''source_version'' \<mapsto> decimal (dv_version v)])"
  unfolding fold_bt_pairs by (cases directory) (auto simp: upload_pairs_def fun_eq_iff)

definition ascii_text :: "string \<Rightarrow> bool" where
  "ascii_text s \<longleftrightarrow> list_all (\<lambda>c. 32 \<le> byte c \<and> byte c \<le> 126) s"

lemma ascii_text_append [simp]: "ascii_text (a @ b) \<longleftrightarrow> ascii_text a \<and> ascii_text b"
  by (simp add: ascii_text_def)

lemma ascii_text_header: "ascii_text s \<Longrightarrow> header_text s \<and> \<not> has_control s \<and> valid_utf8 s"
proof (induction s)
  case Nil
  then show ?case by (simp add: header_text_def valid_utf8_def)
next
  case (Cons c s)
  then have "utf8_next c s = WellFormed 0" by (simp add: ascii_text_def utf8_next_def char_width_def)
  with Cons show ?case
    by (auto simp: ascii_text_def header_text_def valid_utf8_def split_beta)
qed

lemma printable_ascii: "list_all printable_char s \<Longrightarrow> ascii_text s"
  by (auto simp: ascii_text_def printable_char_def list_all_iff)

lemma metadata_pair_clean:
  assumes C: "good_codec C" and k: "fst kv \<in> set metadata_keys"
  shows "CHR '','' \<notin> set (metadata_pair C kv)" "ascii_text (metadata_pair C kv)"
    "length (metadata_pair C kv) \<le> 17 + 2 * length (snd kv)"
proof -
  note kk = metadata_keys_shape [OF k]
  have e: "list_all base64_char (standard_encode C (snd kv))" "length (standard_encode C (snd kv)) \<le> 2 * length (snd kv) + 2"
    using C by (auto simp: good_codec_def)
  then show "CHR '','' \<notin> set (metadata_pair C kv)"
    using kk by (auto simp: metadata_pair_def list_all_iff dest: base64_printable)
  have "list_all printable_char (standard_encode C (snd kv))"
    using e(1) by (auto simp: list_all_iff dest: base64_printable)
  with kk show "ascii_text (metadata_pair C kv)"
    by (auto simp: metadata_pair_def ascii_text_def list_all_iff printable_char_def)
  show "length (metadata_pair C kv) \<le> 17 + 2 * length (snd kv)"
    using kk e(2) by (simp add: metadata_pair_def)
qed

lemma ascii_text_join: "\<forall>p \<in> set ps. ascii_text p \<Longrightarrow> ascii_text (join_with (CHR '','') ps)"
  by (induction "CHR '',''" ps rule: join_with.induct) (simp_all, simp_all add: ascii_text_def)

lemma directory_header_ascii: "good_codec C \<Longrightarrow> ascii_text (directory_metadata_header C name i directory)"
  unfolding directory_header_pairs
  by (rule ascii_text_join) (use upload_pairs_keys metadata_pair_clean(2) in auto)

lemma length_join: "length (join_with c ps) \<le> (\<Sum>p \<leftarrow> ps. Suc (length p))"
  by (induction c ps rule: join_with.induct) simp_all

lemma parse_metadata_back:
  assumes C: "good_codec C" and h: "single_header h ''upload-metadata'' = Some (directory_metadata_header C name i directory)"
    and v: "\<forall>kv \<in> set (upload_pairs name (in_media_type i) (in_sha256 i) directory). metadata_value (snd kv)"
    and l: "length (directory_metadata_header C name i directory) \<le> 8192"
  shows "\<exists>m. parse_upload_metadata C h = Inr m
     \<and> map_of m = [''filename'' \<mapsto> name, ''media_type'' \<mapsto> in_media_type i, ''sha256'' \<mapsto> in_sha256 i]
         ++ (case directory of None \<Rightarrow> Map.empty
             | Some v \<Rightarrow> [''relative_path'' \<mapsto> dv_path v, ''source_version'' \<mapsto> decimal (dv_version v)])
     \<and> canonical_metadata_header C m = directory_metadata_header C name i directory"
proof -
  let ?kvs = "upload_pairs name (in_media_type i) (in_sha256 i) directory"
  let ?m = "fold (\<lambda>(k, v). bt_insert k v) ?kvs []"
  let ?h = "directory_metadata_header C name i directory"
  note k = upload_pairs_keys [of name "in_media_type i" "in_sha256 i" directory]
  have ne: "List.map (metadata_pair C) ?kvs \<noteq> []" by (simp add: upload_pairs_def)
  have "split_on (CHR '','') ?h = List.map (metadata_pair C) ?kvs"
    unfolding directory_header_pairs
    by (rule split_join [OF ne]) (use k metadata_pair_clean(1) [OF C] in auto)
  moreover have "parse_metadata_pairs C (List.map (metadata_pair C) ?kvs) [] = Some ?m"
    by (rule parse_pairs_back [OF C]) (use k v in auto)
  moreover have "header_text ?h" using directory_header_ascii [OF C] ascii_text_header by blast
  moreover have "?h \<noteq> []" by (simp add: directory_metadata_header_def metadata_header_def)
  moreover have "list_all (\<lambda>k. map_of ?m k \<noteq> None) [''filename'', ''media_type'', ''sha256'']"
    unfolding upload_pairs_map by (cases directory) simp_all
  ultimately have p: "parse_upload_metadata C h = Inr ?m"
    using h l by (simp add: parse_upload_metadata_def required_header_def MAX_METADATA_HEADER_BYTES_def)
  have "canonical_metadata_header C ?m = ?h"
    unfolding canonical_metadata_header_def directory_header_pairs metadata_keys_def upload_pairs_map
    by (cases directory) (simp_all add: upload_pairs_def metadata_pair_def)
  with p show ?thesis by (intro exI [of _ ?m]) (simp add: upload_pairs_map)
qed

lemma media_type_value: "extension_for_media_type m = Some x \<Longrightarrow> metadata_value m \<and> length m \<le> 40"
proof -
  assume "extension_for_media_type m = Some x"
  then have "ascii_text m \<and> m \<noteq> [] \<and> length m \<le> 40"
    by (auto simp: extension_for_media_type_def ascii_text_def split: if_splits)
  then show ?thesis by (auto simp: metadata_value_def dest: ascii_text_header)
qed

lemma sha256_value: "valid_sha256 d \<Longrightarrow> metadata_value d \<and> length d = 64"
proof -
  assume d: "valid_sha256 d"
  then have "ascii_text d" by (auto simp: valid_sha256_iff ascii_text_def list_all_iff ascii_defs)
  with d show ?thesis by (auto simp: metadata_value_def valid_sha256_iff dest: ascii_text_header)
qed

lemma decimal_value: "n \<le> u64_max \<Longrightarrow> metadata_value (decimal n) \<and> length (decimal n) \<le> 20"
proof -
  assume "n \<le> u64_max"
  then have "n < 10 ^ Suc 19" by (simp add: u64_max_def)
  then have "length (decimal n) \<le> 20" using decimal_length by fastforce
  moreover have "ascii_text (decimal n)"
    by (rule printable_ascii) (use decimal_digits [of n] digit_facts in \<open>auto simp: list_all_iff\<close>)
  ultimately show ?thesis
    using decimal_digits [of n] by (auto simp: metadata_value_def dest: ascii_text_header)
qed

text \<open>A directory version that the sender may announce for a file name.\<close>

definition announced :: "string \<Rightarrow> directory_version option \<Rightarrow> bool" where
  "announced name directory \<longleftrightarrow>
     (case directory of None \<Rightarrow> True
      | Some v \<Rightarrow> is_ok (validate_version v) \<and> valid_utf8 (dv_path v) \<and> last_part slash (dv_path v) = name)"

lemma upload_values:
  assumes "valid_utf8 name" "name \<noteq> []" "length name \<le> 255" "extension_for_media_type (in_media_type i) = Some x"
    "valid_sha256 (in_sha256 i)" "announced name directory" and C: "good_codec C"
  shows "\<forall>kv \<in> set (upload_pairs name (in_media_type i) (in_sha256 i) directory). metadata_value (snd kv)"
    and "length (directory_metadata_header C name i directory) \<le> 8192"
proof -
  let ?kvs = "upload_pairs name (in_media_type i) (in_sha256 i) directory"
  have d: "metadata_value (dv_path v) \<and> length (dv_path v) \<le> 1024 \<and> dv_version v \<le> u64_max" if "directory = Some v" for v
    using assms(6) that by (auto simp: announced_def is_ok_iff metadata_value_def valid_path_iff u64_max_def i64_max_def)
  note f = media_type_value [OF assms(4)] sha256_value [OF assms(5)]
  show "\<forall>kv \<in> set ?kvs. metadata_value (snd kv)"
    using f d assms(1-3) decimal_value by (cases directory) (auto simp: upload_pairs_def metadata_value_def)
  have "length (directory_metadata_header C name i directory) \<le> (\<Sum>p \<leftarrow> List.map (metadata_pair C) ?kvs. Suc (length p))"
    unfolding directory_header_pairs by (rule length_join)
  also have "\<dots> = (\<Sum>kv \<leftarrow> ?kvs. Suc (length (metadata_pair C kv)))" by (simp add: comp_def)
  also have "\<dots> \<le> (\<Sum>kv \<leftarrow> ?kvs. 18 + 2 * length (snd kv))"
    by (rule sum_list_mono) (use metadata_pair_clean(3) [OF C] upload_pairs_keys in fastforce)
  also have "\<dots> \<le> 8192"
  proof (cases directory)
    case None
    with f assms(3) show ?thesis by (simp add: upload_pairs_def)
  next
    case (Some v)
    with d [OF Some] decimal_value [of "dv_version v"] f assms(3) show ?thesis by (simp add: upload_pairs_def)
  qed
  finally show "length (directory_metadata_header C name i directory) \<le> 8192" .
qed

lemma upload_name_component: "validate_upload_name name = Inr () \<Longrightarrow> valid_component name \<and> name \<noteq> [] \<and> length name \<le> 255"
proof -
  assume v: "validate_upload_name name = Inr ()"
  have n: "CHR 0x00 \<in> set s \<Longrightarrow> has_control s" for s by (induction s) auto
  from v n [of name] show ?thesis
    by (auto simp: validate_upload_name_def demand_def valid_component_iff split: if_splits)
qed

lemma tus_headers_single [simp]:
  "single_header (tus_headers c [(''upload-length'', a), (''upload-metadata'', b)]) ''upload-metadata'' = Some b"
  "single_header (tus_headers c [(''upload-length'', a), (''upload-metadata'', b)]) ''upload-length'' = Some a"
  "single_header (tus_headers c h) ''tus-resumable'' = Some ''1.0.0''
     \<longleftrightarrow> header_all h ''tus-resumable'' = []"
  "header_all (tus_headers c [(''upload-length'', a), (''upload-metadata'', b)]) ''upload-defer-length'' = []"
  by (auto simp: tus_headers_def single_header_def header_all_def split: list.split)

text \<open>
  C38. Client and server agree on what an upload is. The request that the client makes for a file
  is understood by the server as exactly that name, type, digest, length and directory version,
  and the metadata the server will repeat in its answers is the text that the client compares
  them with.
\<close>

theorem creation_agreement:
  assumes C: "good_codec C" and name: "validate_upload_name name = Inr ()" "valid_utf8 name"
    and i: "extension_for_media_type (in_media_type i) = Some x" "valid_sha256 (in_sha256 i)" "0 < in_size i"
      "in_size i \<le> max_file_size (env S)" "in_size i \<le> u64_max"
    and d: "announced name directory"
  shows "requested_upload S C (tus_headers c [(''upload-length'', decimal (in_size i)),
        (''upload-metadata'', directory_metadata_header C name i directory)]) (Some [])
     = Inr \<lparr>nu_directory = directory, nu_original_name = name, nu_media_type = in_media_type i,
         nu_sha256 = in_sha256 i, nu_length = in_size i,
         nu_metadata_header = directory_metadata_header C name i directory\<rparr>"
proof -
  let ?h = "tus_headers c [(''upload-length'', decimal (in_size i)),
        (''upload-metadata'', directory_metadata_header C name i directory)]"
  note n = upload_name_component [OF name(1)]
  note u = upload_values [OF name(2) _ _ i(1,2) d C]
  obtain m where m: "parse_upload_metadata C ?h = Inr m"
    "map_of m = [''filename'' \<mapsto> name, ''media_type'' \<mapsto> in_media_type i, ''sha256'' \<mapsto> in_sha256 i]
         ++ (case directory of None \<Rightarrow> Map.empty
             | Some v \<Rightarrow> [''relative_path'' \<mapsto> dv_path v, ''source_version'' \<mapsto> decimal (dv_version v)])"
    "canonical_metadata_header C m = directory_metadata_header C name i directory"
    using parse_metadata_back [OF C _ u(1) u(2), of ?h] n by auto
  have dir: "upload_directory m = Inr directory"
  proof (cases directory)
    case None
    then show ?thesis by (simp add: upload_directory_def m(2))
  next
    case (Some v)
    have "dv_version v \<le> u64_max" using d Some by (auto simp: announced_def is_ok_iff u64_max_def i64_max_def)
    with Some show ?thesis by (simp add: upload_directory_def m(2) parse_decimal)
  qed
  have f: "map_of m ''filename'' = Some name" "map_of m ''media_type'' = Some (in_media_type i)"
    "map_of m ''sha256'' = Some (in_sha256 i)" by (cases directory; simp add: m(2))+
  let ?u = "\<lparr>nu_directory = directory, nu_original_name = name, nu_media_type = in_media_type i,
         nu_sha256 = in_sha256 i, nu_length = in_size i,
         nu_metadata_header = directory_metadata_header C name i directory\<rparr>"
  have z: "directory_metadata_header C name i directory \<noteq> []"
    by (simp add: directory_metadata_header_def metadata_header_def)
  have l: "length (directory_metadata_header C name i directory) \<le> 8192" using u(2) n by blast
  have v: "is_ok (validate_new_upload (env S) ?u)"
    using d n i z l ascii_text_header [OF directory_header_ascii [OF C, of name i directory]]
    by (cases directory)
      (auto simp: validate_new_upload_def is_ok_andthen announced_def is_ok_iff upload_delivery_def valid_metadata_iff
        MAX_UPLOAD_RECORD_BYTES_def valid_delivery_id_iff ascii_defs andthen_Inr)
  have p: "required_u64_header ?h ''upload-length'' ''upload_length'' = Inr (in_size i)"
    using decimal_header [OF i(5)] by (simp add: required_u64_header_def required_header_def)
  have t: "require_tus_version ?h = Inr ()"
    by (simp add: require_tus_version_def tus_require_def header_all_def)
  show ?thesis
    unfolding requested_upload_def Let_def t p m(1) andthen_simps dir f m(3)
    using v i(4) by (simp add: tus_require_def andthen_def)
qed

section \<open>A concrete codec\<close>

fun hex_value :: "char \<Rightarrow> nat" where
  "hex_value c = (if byte c < 58 then byte c - 48 else byte c - 87)"

fun sample_unhex :: "string \<Rightarrow> bytes option" where
  "sample_unhex [] = Some []"
| "sample_unhex (a # b # r) = map_option ((#) (char_of (16 * hex_value a + hex_value b))) (sample_unhex r)"
| "sample_unhex [a] = None"

definition sample_cursor :: cursor where
  "sample_cursor = \<lparr>cu_version = PROTOCOL_VERSION, cu_after_sequence = 3, cu_snapshot_sequence = 5\<rparr>"

definition sample_codecs :: codecs where
  "sample_codecs =
     \<lparr>cursor_to_json = (\<lambda>c. if c = sample_cursor then ''c'' else ''d''),
      cursor_of_json = (\<lambda>b. if b = ''c'' then Some sample_cursor else None),
      url_safe_encode = sample_hex, url_safe_decode = sample_unhex,
      standard_encode = sample_hex, standard_decode = sample_unhex, standard_no_pad_decode = sample_unhex\<rparr>"

lemma sample_digits: "n < 16 \<Longrightarrow> hex_value (hex_digit n) = n \<and> base64_char (hex_digit n)"
proof -
  have "list_all (\<lambda>n. hex_value (hex_digit n) = n \<and> base64_char (hex_digit n)) [0..<16]"
    by (simp add: upt_rec hex_digit_def base64_char_def ascii_defs)
  then show "n < 16 \<Longrightarrow> ?thesis" by (simp add: list_all_iff)
qed

lemma sample_unhex_back: "sample_unhex (sample_hex b) = Some b"
proof (induction b)
  case Nil
  then show ?case by (simp add: sample_hex_def)
next
  case (Cons c b)
  have "byte c div 16 < 16" using nat_of_char_less_256 [of c] by linarith
  then have "hex_value (hex_digit (byte c div 16)) = byte c div 16" "hex_value (hex_digit (byte c mod 16)) = byte c mod 16"
    using sample_digits by (blast, simp add: sample_digits)
  with Cons show ?case by (simp add: sample_hex_def del: hex_value.simps)
qed

lemma sample_good_codec: "good_codec sample_codecs"
proof -
  have d: "byte c div 16 < 16" for c using nat_of_char_less_256 [of c] by linarith
  have "list_all base64_char (sample_hex b)" for b
    by (induction b) (simp_all add: sample_hex_def sample_digits d)
  moreover have "length (sample_hex b) = 2 * length b" for b by (induction b) (simp_all add: sample_hex_def)
  moreover have "b \<noteq> [] \<longrightarrow> sample_hex b \<noteq> []" for b by (cases b) (simp_all add: sample_hex_def)
  ultimately show ?thesis by (simp add: good_codec_def sample_codecs_def sample_unhex_back)
qed

definition sample_api :: api_state where
  "sample_api = \<lparr>env = sample_env, device_id = ''linux'', authorization_hash = [], admin_hash = None\<rparr>"

theorem creation_agreement_witness:
  "\<forall>c. \<exists>u. requested_upload sample_api sample_codecs
     (tus_headers c [(''upload-length'', decimal 12), (''upload-metadata'',
        directory_metadata_header sample_codecs ''a.png'' (inspection_of sample_ext sample_png)
          (Some \<lparr>dv_path = ''p/a.png'', dv_version = 7\<rparr>))]) (Some []) = Inr u
     \<and> nu_original_name u = ''a.png'' \<and> nu_directory u = Some \<lparr>dv_path = ''p/a.png'', dv_version = 7\<rparr>"
proof
  fix c :: tus_client
  have "validate_upload_name ''a.png'' = Inr ()" by (simp add: validate_upload_name_def demand_def)
  moreover have "ascii_text ''a.png''" "ascii_text ''p/a.png''" by (simp_all add: ascii_text_def)
  then have "valid_utf8 ''a.png''" "valid_utf8 ''p/a.png''" using ascii_text_header by blast+
  moreover have "announced ''a.png'' (Some \<lparr>dv_path = ''p/a.png'', dv_version = 7\<rparr>)"
    using \<open>valid_utf8 ''p/a.png''\<close>
    by (simp add: announced_def is_ok_iff valid_path_iff safe_component_def i64_max_def last_part_def ascii_defs
        to_ascii_lowercase_def ascii_lower_char_def)
  moreover have "extension_for_media_type ''image/png'' = Some ''png''" by (simp add: extension_for_media_type_def)
  ultimately show "\<exists>u. requested_upload sample_api sample_codecs
     (tus_headers c [(''upload-length'', decimal 12), (''upload-metadata'',
        directory_metadata_header sample_codecs ''a.png'' (inspection_of sample_ext sample_png)
          (Some \<lparr>dv_path = ''p/a.png'', dv_version = 7\<rparr>))]) (Some []) = Inr u
     \<and> nu_original_name u = ''a.png'' \<and> nu_directory u = Some \<lparr>dv_path = ''p/a.png'', dv_version = 7\<rparr>"
    using creation_agreement [OF sample_good_codec, of "''a.png''" "inspection_of sample_ext sample_png" "''png''" sample_api
        "Some \<lparr>dv_path = ''p/a.png'', dv_version = 7\<rparr>" c]
    by (simp add: sample_inspection sample_api_def sample_env_def u64_max_def)
qed

section \<open>Outcomes that depend on the error\<close>

text \<open>From \<open>P\<close>, success leads to \<open>Q\<close> of the value, and failure to \<open>R\<close> of the error.\<close>

definition triple ::
    "('s \<Rightarrow> bool) \<Rightarrow> ('e, 's, 'a) eop \<Rightarrow> ('a \<Rightarrow> 's \<Rightarrow> bool) \<Rightarrow> ('e \<Rightarrow> 's \<Rightarrow> bool) \<Rightarrow> bool" where
  "triple P m Q R \<longleftrightarrow> (\<forall>s. P s \<longrightarrow> (case m s of (Inr x, t) \<Rightarrow> Q x t | (Inl e, t) \<Rightarrow> R e t))"

lemma tripleI:
  "(\<And>s x t. P s \<Longrightarrow> m s = (Inr x, t) \<Longrightarrow> Q x t) \<Longrightarrow> (\<And>s e t. P s \<Longrightarrow> m s = (Inl e, t) \<Longrightarrow> R e t)
     \<Longrightarrow> triple P m Q R"
  by (auto simp: triple_def split: prod.split sum.split)

lemma triple_ok: "triple P m Q R \<Longrightarrow> P s \<Longrightarrow> m s = (Inr x, t) \<Longrightarrow> Q x t"
  unfolding triple_def by (metis (no_types, lifting) old.prod.case old.sum.simps(6))

lemma triple_err: "triple P m Q R \<Longrightarrow> P s \<Longrightarrow> m s = (Inl e, t) \<Longrightarrow> R e t"
  unfolding triple_def by (metis (no_types, lifting) old.prod.case old.sum.simps(5))

lemma triple_bindo:
  assumes "triple P m Q R" and "\<And>x. triple (Q x) (f x) T R"
  shows "triple P (bindo m f) T R"
  by (rule tripleI) (auto simp: bindo_ok bindo_err dest: triple_ok [OF assms(1)] triple_err [OF assms(1)]
      triple_ok [OF assms(2)] triple_err [OF assms(2)])

lemma triple_lifto: "(\<And>e s. P s \<Longrightarrow> r = Inl e \<Longrightarrow> R e s) \<Longrightarrow> triple P (lifto r) (\<lambda>x s. P s \<and> r = Inr x) R"
  by (auto intro!: tripleI simp: lifto_def)

lemma triple_pres: "pres P m \<Longrightarrow> (\<And>e s. P s \<Longrightarrow> R e s) \<Longrightarrow> triple P m (\<lambda>_. P) R"
  by (auto intro!: tripleI dest: presD2)

lemma triple_conseq:
  "triple P m Q R \<Longrightarrow> (\<And>s. P' s \<Longrightarrow> P s) \<Longrightarrow> (\<And>x s. Q x s \<Longrightarrow> Q' x s) \<Longrightarrow> (\<And>e s. R e s \<Longrightarrow> R' e s) \<Longrightarrow> triple P' m Q' R'"
  unfolding triple_def by (fastforce split: prod.splits sum.splits)

section \<open>What the client sends\<close>

definition own_client :: "'w outside \<Rightarrow> upload_request \<Rightarrow> tus_client \<Rightarrow> bool" where
  "own_client V q c \<longleftrightarrow> tc_authorization c = ''Bearer '' @ ur_token q
     \<and> (\<exists>base. url_parse (out_urls V) (ur_server_url q) = Some base
          \<and> (url_scheme base = ''https'' \<or> url_scheme base = ''http'' \<and> ur_allow_http q)
          \<and> with_collection_path (out_urls V) base = Some (tc_collection c))"

text \<open>An address in the collection of the client's server, at the same origin.\<close>

definition in_collection :: "'w outside \<Rightarrow> tus_client \<Rightarrow> url \<Rightarrow> bool" where
  "in_collection V c u \<longleftrightarrow> url_scheme u = url_scheme (tc_collection c) \<and> url_host u = url_host (tc_collection c)
     \<and> url_port u = url_port (tc_collection c) \<and> url_username u = [] \<and> url_password u = None
     \<and> url_query u = None \<and> url_fragment u = None
     \<and> (\<exists>i. url_path u = trim_end_slashes (url_path (tc_collection c)) @ [slash] @ i
          \<and> slash \<notin> set i \<and> i \<noteq> [] \<and> uuid_canonical (out_ext V) i)"

lemma upload_url_checked:
  "validate_upload_url V c addr = Inr u \<longleftrightarrow> url_parse (out_urls V) addr = Some u \<and> in_collection V c u"
proof -
  have p: "strip_prefix (p @ [slash]) (p @ slash # i) = Some i" for p i by (simp add: strip_prefix_eq)
  show ?thesis
    by (auto simp: validate_upload_url_def in_collection_def p split: option.splits if_splits) (auto simp: strip_prefix_eq)
qed

text \<open>
  The requests that the client may send: the discovery, without the credential; the creation at
  the collection; the status of an upload and a piece of the source, at an address that has
  passed the check against the collection.
\<close>

definition client_request :: "'w outside \<Rightarrow> upload_request \<Rightarrow> http_request \<Rightarrow> bool" where
  "client_request V q rq \<longleftrightarrow> (\<exists>c. own_client V q c
     \<and> (rq = \<lparr>rq_method = Options, rq_url = url_string (out_urls V) (tc_collection c), rq_headers = [], rq_body = []\<rparr>
      \<or> (\<exists>n metadata. rq = \<lparr>rq_method = Post, rq_url = url_string (out_urls V) (tc_collection c),
            rq_headers = tus_headers c [(''upload-length'', decimal n), (''upload-metadata'', metadata)], rq_body = []\<rparr>)
      \<or> (\<exists>u. in_collection V c u
          \<and> (rq = \<lparr>rq_method = HeadMethod, rq_url = url_string (out_urls V) u, rq_headers = tus_headers c [], rq_body = []\<rparr>
           \<or> (\<exists>b offset n. source_bytes (ur_source q) = Some b \<and> offset + n \<le> length b \<and> n \<le> ur_chunk_size q
                \<and> rq = \<lparr>rq_method = Patch, rq_url = url_string (out_urls V) u,
                     rq_headers = tus_headers c [(''content-type'', ''application/offset+octet-stream''),
                       (''upload-offset'', decimal offset)],
                     rq_body = take n (drop offset b)\<rparr>)))))"

lemma pres_bindo_when:
  assumes "pres P m" and "\<And>s x t. m s = (Inr x, t) \<Longrightarrow> pres P (f x)"
  shows "pres P (bindo m f)"
  unfolding pres_iff
proof (intro allI impI)
  fix s r t assume s: "P s" and m: "bindo m f s = (r, t)"
  show "P t"
  proof (cases r)
    case (Inl e)
    with m consider "m s = (Inl e, t)" | x u where "m s = (Inr x, u)" "f x u = (Inl e, t)" by (auto simp: bindo_err)
    then show ?thesis using presD2 [OF assms(1) s] presD2 [OF assms(2)] by cases blast+
  next
    case (Inr y)
    with m obtain x u where "m s = (Inr x, u)" "f x u = (Inr y, t)" by (auto simp: bindo_ok)
    then show ?thesis using presD2 [OF assms(1) s] presD2 [OF assms(2)] by blast
  qed
qed

lemma demand_simps [simp]:
  "demand c msg = Inr u \<longleftrightarrow> c" "demand_some msg v = Inr x \<longleftrightarrow> v = Some x" "demand_ok r = Inr y \<longleftrightarrow> r = Inr y"
  by (auto simp: demand_def demand_some_def demand_ok_def split: option.splits sum.splits)

lemma new_client: "TusClient_new (out_urls V) (ur_server_url q) (ur_token q) (ur_allow_http q) s = (Inr c, t) \<Longrightarrow> own_client V q c"
  by (auto simp: TusClient_new_def own_client_def bindo_ok lifto_ok)

lemma pres_new_client: "pres Q (TusClient_new U base token http)"
  unfolding TusClient_new_def by (intro pres_intros)

locale cautious_network =
  fixes V :: "'w outside" and q :: upload_request and P :: "'w \<Rightarrow> bool"
  assumes send: "client_request V q rq \<Longrightarrow> pres P (out_send V rq)"
    and event: "P w \<Longrightarrow> P (snd (out_event V e w))"
begin

abbreviation outside_ok :: "'w sender \<Rightarrow> bool" where
  "outside_ok s \<equiv> P (sn_world s)"

lemma c_send: "client_request V q rq \<Longrightarrow> pres outside_ok (on_world (out_send V rq))"
  using send by (auto simp: pres_def on_world_def split_beta)

lemma c_local:
  "pres outside_ok load_state" "pres outside_ok (save_state st)" "pres outside_ok remove_state" "pres outside_ok (tell V e)"
  "pres outside_ok m \<Longrightarrow> pres outside_ok (or_discard m)"
  using event
  by (auto simp: pres_def load_state_def save_state_def remove_state_def tell_def or_discard_def op_defs split_beta
      split: sum.split prod.split)

lemma c_remote: "pres outside_ok (remote_upload_of h)"
  unfolding remote_upload_of_def by (intro pres_intros)

lemma c_discover: "own_client V q c \<Longrightarrow> pres outside_ok (discover V c)"
  unfolding discover_def by (intro pres_intros c_send) (auto simp: client_request_def)

lemma c_create: "own_client V q c \<Longrightarrow> pres outside_ok (create_remote V c i metadata)"
  unfolding create_remote_def by (intro pres_intros c_send) (auto simp: client_request_def)

lemma c_head: "own_client V q c \<Longrightarrow> validate_upload_url V c addr = Inr u \<Longrightarrow> pres outside_ok (head_remote V c u)"
  unfolding head_remote_def by (intro pres_intros c_send c_remote) (auto simp: client_request_def upload_url_checked)

lemma c_patch:
  assumes c: "own_client V q c" "validate_upload_url V c addr = Inr u"
    and b: "source_bytes (ur_source q) = Some b" "offset + n \<le> length b" "n \<le> ur_chunk_size q"
  shows "pres outside_ok (patch_remote V c u offset (take n (drop offset b)))"
proof -
  have "client_request V q \<lparr>rq_method = Patch, rq_url = url_string (out_urls V) u,
      rq_headers = tus_headers c [(''content-type'', ''application/offset+octet-stream''), (''upload-offset'', decimal offset)],
      rq_body = take n (drop offset b)\<rparr>"
    unfolding client_request_def using c b
    by (intro exI [of _ c] conjI disjI2 exI [of _ u] exI [of _ b] exI [of _ offset] exI [of _ n]) (simp_all add: upload_url_checked)
  then show ?thesis
    unfolding patch_remote_def by (intro pres_intros c_send c_head [OF c] c_remote)
qed

lemma c_chunk:
  assumes c: "own_client V q c" "validate_upload_url V c addr = Inr u" and b: "source_bytes (ur_source q) = Some b"
  shows "pres outside_ok (send_chunk V c u st expected b (ur_chunk_size q) offset)"
  unfolding send_chunk_def
proof (rule pres_bindo_when [OF pres_atoms(3)])
  fix s :: "'w sender" and chunk t
  assume "lifto (read_chunk b offset (min (us_size st - offset) (ur_chunk_size q))) s = (Inr chunk, t)"
  then have k: "chunk = take (min (us_size st - offset) (ur_chunk_size q)) (drop offset b)"
    "offset + min (us_size st - offset) (ur_chunk_size q) \<le> length b"
    by (auto simp: lifto_ok read_chunk_def split: if_splits)
  show "pres outside_ok (bindo (or_discard (patch_remote V c u offset chunk)) (\<lambda>r.
     bindo (lifto (validate_remote_upload st expected r)) (\<lambda>_.
     if ru_offset r \<le> offset then fails (Failure ''server did not advance the tus upload offset'') else retn r)))"
    unfolding k(1) by (intro pres_intros c_local(5) c_patch [OF c b k(2)]) simp
qed

lemma c_loop:
  assumes c: "own_client V q c" "validate_upload_url V c addr = Inr u" and b: "source_bytes (ur_source q) = Some b"
  shows "outside_ok s \<Longrightarrow> outside_ok (snd (upload_loop V c u st expected b q go sent r s))"
proof (induction "us_size st - ru_offset r" arbitrary: sent r s rule: less_induct)
  case less
  show ?case
  proof (cases "ru_offset r < us_size st \<and> go")
    case False
    with less.prems show ?thesis by (subst upload_loop.simps) auto
  next
    case True
    obtain more w where e: "out_event V (Progress (ru_offset r) (us_size st)) (sn_world s) = (more, w)" by fastforce
    have w: "P w" using event [OF less.prems, of "Progress (ru_offset r) (us_size st)"] e by simp
    show ?thesis
    proof (cases more)
      case False
      with e True w show ?thesis by (subst upload_loop.simps) simp
    next
      case t: True
      let ?s = "s\<lparr>sn_world := w\<rparr>"
      obtain x s2 where x: "send_chunk V c u st expected b (ur_chunk_size q) (ru_offset r) ?s = (x, s2)" by fastforce
      have s2: "outside_ok s2" by (rule presD2 [OF c_chunk [OF c b] _ x]) (simp add: w)
      show ?thesis
      proof (cases x)
        case (Inl err)
        with e t True x s2 show ?thesis by (subst upload_loop.simps) simp
      next
        case (Inr r')
        have "us_size st - ru_offset r' < us_size st - ru_offset r"
          using send_chunk_advances [OF x [unfolded Inr]] True by linarith
        from less.hyps [OF this s2] have "outside_ok (snd (upload_loop V c u st expected b q go (sent + 1) r' s2))" .
        moreover have "outside_ok (snd (bindo (tell V (Progress (ru_offset r') (us_size st))) (\<lambda>_. retn (r', True)) s2))"
          by (rule presD [OF pres_bindo [OF c_local(4) pres_atoms(1)] s2])
        ultimately show ?thesis using e t True x Inr by (subst upload_loop.simps) simp
      qed
    qed
  qed
qed

lemma c_upload: "pres outside_ok (upload_with_events V q)"
proof -
  have r: "pres outside_ok (resume_upload V c q)" for c
    unfolding resume_upload_def by (intro pres_intros c_local)
  have s: "pres outside_ok (start_upload V c q)" if "own_client V q c" for c
    unfolding start_upload_def Let_def by (intro pres_intros c_local c_discover [OF that] c_create [OF that])
  have l: "pres outside_ok (upload_loop V c u st expected b q go sent ru)"
    if "own_client V q c" "validate_upload_url V c addr = Inr u" "source_bytes (ur_source q) = Some b"
    for c addr u st expected b go sent ru
    by (rule presI) (rule c_loop [OF that])
  have f: "pres outside_ok (finish_upload V c u st expected q ru)"
    if "own_client V q c" "validate_upload_url V c addr = Inr u" for c addr u st expected ru
    unfolding finish_upload_def by (intro pres_intros c_local c_head [OF that])
  show ?thesis
    unfolding upload_with_events_def Let_def split_def
    by (intro pres_bindo [OF pres_atoms(3)] pres_bindo_when [OF pres_new_client] pres_bindo [OF pres_atoms(4)]
        pres_bindo [OF pres_if [OF r s]] pres_bindo_when [OF pres_atoms(3)] pres_bindo [OF c_local(5)] c_head
        pres_bindo [OF l] pres_if pres_atoms f; (erule new_client | simp add: lifto_ok)?)
qed

end

section \<open>A network that is listened to\<close>

definition logged :: "'w outside \<Rightarrow> ('w \<times> http_request list) outside" where
  "logged V = \<lparr>out_ext = out_ext V, out_codecs = out_codecs V, out_urls = out_urls V,
     out_send = (\<lambda>rq (w, l). case out_send V rq w of (r, w') \<Rightarrow> (r, (w', l @ [rq]))),
     out_event = (\<lambda>e (w, l). case out_event V e w of (go, w') \<Rightarrow> (go, (w', l)))\<rparr>"

interpretation listened: cautious_network "logged V" q "\<lambda>w. list_all (client_request (logged V) q) (snd w)" for V q
  by unfold_locales (auto simp: pres_def logged_def split: prod.splits)

text \<open>
  C39. Whatever the server answers, the credential is sent to no other place than the configured
  server: every request of an upload goes to the collection of the base address, over HTTPS
  unless plain HTTP was allowed, or to an upload in it, at the same origin; the discovery
  carries no credential, and every piece sent is the part of the source at the offset it
  announces, no longer than the chunk size.
\<close>

theorem requests_confined:
  assumes "upload_with_events (logged V) q \<lparr>sn_state = st, sn_world = (w, [])\<rparr> = (r, t)"
  shows "list_all (client_request (logged V) q) (snd (sn_world t))"
  using presD2 [OF listened.c_upload _ assms] by simp

section \<open>What a finished upload means\<close>

text \<open>How the state file may have changed, given the result.\<close>

definition state_change :: "saved_state \<Rightarrow> upload_request \<Rightarrow> client_error + upload_outcome \<Rightarrow> saved_state \<Rightarrow> bool" where
  "state_change a q r b \<longleftrightarrow>
     (case r of
        Inl e \<Rightarrow> b = a \<or> should_discard_upload_state e \<and> b = NoState \<or> a = NoState \<and> (\<exists>st. b = Saved st)
      | Inr u \<Rightarrow>
          (case uo_delivery_id u of
             None \<Rightarrow> b = a \<and> a \<noteq> NoState \<or> a = NoState \<and> (\<exists>st. b = Saved st)
           | Some _ \<Rightarrow> if ur_keep_completed q then b = a \<and> a \<noteq> NoState \<or> a = NoState \<and> (\<exists>st. b = Saved st)
               else b = NoState))"

definition state_is :: "saved_state \<Rightarrow> 'w sender \<Rightarrow> bool" where
  "state_is a s \<longleftrightarrow> sn_state s = a"

lemma state_is_ops:
  "pres (state_is a) (on_world m)" "pres (state_is a) (tell V e)" "pres (state_is a) load_state"
  by (auto simp: pres_def state_is_def on_world_def tell_def load_state_def op_defs split_beta split: saved_state.split)

lemma state_is_remote: "pres (state_is a) (remote_upload_of h)"
  unfolding remote_upload_of_def by (intro pres_intros)

lemma state_is_requests:
  "pres (state_is a) (discover V c)" "pres (state_is a) (create_remote V c i metadata)" "pres (state_is a) (head_remote V c u)"
  "pres (state_is a) (TusClient_new U base token http)" "pres (state_is a) (resume_upload V c q)"
  unfolding discover_def create_remote_def head_remote_def TusClient_new_def resume_upload_def
  by (intro pres_intros state_is_ops state_is_remote)+

lemma state_is_patch: "pres (state_is a) (patch_remote V c u offset chunk)"
  unfolding patch_remote_def by (intro pres_intros state_is_ops state_is_remote state_is_requests)

text \<open>With the state \<open>b\<close>, an error leaves it alone or is one that discards it.\<close>

definition kept_or_discarded :: "saved_state \<Rightarrow> client_error \<Rightarrow> 'w sender \<Rightarrow> bool" where
  "kept_or_discarded b e s \<longleftrightarrow> sn_state s = b \<or> should_discard_upload_state e \<and> sn_state s = NoState"

lemma keeps_state: "pres (state_is b) m \<Longrightarrow> triple (state_is b) m (\<lambda>_. state_is b) (kept_or_discarded b)"
  by (rule triple_pres) (auto simp: state_is_def kept_or_discarded_def)

lemma or_discard_state: "pres (state_is b) m \<Longrightarrow> triple (state_is b) (or_discard m) (\<lambda>_. state_is b) (kept_or_discarded b)"
  by (auto intro!: tripleI dest: presD2 simp: or_discard_def state_is_def kept_or_discarded_def remove_state_def op_defs
      split: prod.splits sum.splits if_splits) (metis presD2 state_is_def)+

lemma chunk_state: "triple (state_is b) (send_chunk V c u st expected bs n offset) (\<lambda>_. state_is b) (kept_or_discarded b)"
  unfolding send_chunk_def
  by (intro triple_bindo [OF keeps_state [OF pres_atoms(3)]] triple_bindo [OF or_discard_state [OF state_is_patch]]
      keeps_state pres_intros)

lemma loop_state: "triple (state_is b) (upload_loop V c u st expected bs q go sent r) (\<lambda>_. state_is b) (kept_or_discarded b)"
proof -
  have "state_is b s \<Longrightarrow> case upload_loop V c u st expected bs q go sent r s of
      (Inr x, t) \<Rightarrow> state_is b t | (Inl e, t) \<Rightarrow> kept_or_discarded b e t" for s
  proof (induction "us_size st - ru_offset r" arbitrary: sent r s rule: less_induct)
    case less
    show ?case
    proof (cases "ru_offset r < us_size st \<and> go")
      case False
      with less.prems show ?thesis by (subst upload_loop.simps) auto
    next
      case True
      obtain more w where e: "out_event V (Progress (ru_offset r) (us_size st)) (sn_world s) = (more, w)" by fastforce
      let ?s = "s\<lparr>sn_world := w\<rparr>"
      have s: "state_is b ?s" using less.prems by (simp add: state_is_def)
      show ?thesis
      proof (cases more)
        case False
        with e True s show ?thesis by (subst upload_loop.simps) simp
      next
        case t: True
        obtain x s2 where x: "send_chunk V c u st expected bs (ur_chunk_size q) (ru_offset r) ?s = (x, s2)" by fastforce
        show ?thesis
        proof (cases x)
          case (Inl err)
          with e t True x triple_err [OF chunk_state s x [unfolded Inl]] show ?thesis
            by (subst upload_loop.simps) simp
        next
          case (Inr r')
          have "us_size st - ru_offset r' < us_size st - ru_offset r"
            using send_chunk_advances [OF x [unfolded Inr]] True by linarith
          note ih = less.hyps [OF this triple_ok [OF chunk_state s x [unfolded Inr]], of "sent + 1"]
          have "state_is b s2" by (rule triple_ok [OF chunk_state s x [unfolded Inr]])
          then show ?thesis
            using e t True x Inr ih by (subst upload_loop.simps) (auto simp: bindo_def tell_def state_is_def op_defs split: prod.splits)
        qed
      qed
    qed
  qed
  then show ?thesis unfolding triple_def by blast
qed

text \<open>After the set-up the state file holds the upload that goes on.\<close>

definition settled :: "saved_state \<Rightarrow> saved_state \<Rightarrow> bool" where
  "settled a b \<longleftrightarrow> a \<noteq> NoState \<and> b = a \<or> a = NoState \<and> (\<exists>st. b = Saved st)"

lemma start_state:
  "start_upload V c q s = (Inr x, t) \<Longrightarrow> sn_state s = NoState \<Longrightarrow> \<exists>st. sn_state t = Saved st"
  "start_upload V c q s = (Inl e, t) \<Longrightarrow> sn_state s = NoState \<Longrightarrow> sn_state t = NoState"
proof -
  have 1: "triple (state_is NoState) (start_upload V c q) (\<lambda>_ s. \<exists>st. sn_state s = Saved st) (\<lambda>_. state_is NoState)"
  proof -
    have sv: "triple (state_is NoState) (save_state st) (\<lambda>_. state_is (Saved st)) (\<lambda>_. state_is NoState)" for st
      by (auto intro!: tripleI simp: save_state_def state_is_def op_defs)
    have tl: "triple (state_is (Saved st)) (bindo (tell V e) (\<lambda>go. retn (f go))) (\<lambda>_ s. \<exists>st. sn_state s = Saved st)
        (\<lambda>_. state_is NoState)" for st e f
      by (auto intro!: tripleI simp: tell_def bindo_def state_is_def op_defs split: prod.splits)
    have p: "triple (state_is NoState) m (\<lambda>_. state_is NoState) (\<lambda>_. state_is NoState)"
      if "pres (state_is NoState) m" for m by (rule triple_pres [OF that])
    show ?thesis
      unfolding start_upload_def Let_def
      by (intro triple_bindo [OF p [OF state_is_requests(1)]] triple_bindo [OF p [OF pres_atoms(3)]]
          triple_bindo [OF p [OF state_is_requests(2)]] triple_bindo [OF sv] tl)
  qed
  show "start_upload V c q s = (Inr x, t) \<Longrightarrow> sn_state s = NoState \<Longrightarrow> \<exists>st. sn_state t = Saved st"
    using triple_ok [OF 1, of s x t] by (simp add: state_is_def)
  show "start_upload V c q s = (Inl e, t) \<Longrightarrow> sn_state s = NoState \<Longrightarrow> sn_state t = NoState"
    using triple_err [OF 1, of s e t] by (simp add: state_is_def)
qed

lemma finish_state:
  "triple (state_is b) (finish_upload V c u st expected q r)
     (\<lambda>o'. state_is (if ur_keep_completed q then b else NoState)) (kept_or_discarded b)"
proof -
  have rm: "triple (state_is b) (bindo (if \<not> ur_keep_completed q then remove_state else retn ()) (\<lambda>_.
      bindo (tell V e) (\<lambda>_. retn z))) (\<lambda>o'. state_is (if ur_keep_completed q then b else NoState)) (kept_or_discarded b)" for e z
    by (auto intro!: tripleI simp: tell_def bindo_def state_is_def op_defs remove_state_def split: prod.splits)
  have h: "triple (state_is b) (if ru_delivery_id r = None then
         bindo (or_discard (head_remote V c u)) (\<lambda>r'.
         bindo (lifto (validate_remote_upload st expected r')) (\<lambda>_. retn r'))
       else retn r) (\<lambda>_. state_is b) (kept_or_discarded b)"
  proof (cases "ru_delivery_id r = None")
    case True
    have "triple (state_is b) (bindo (or_discard (head_remote V c u)) (\<lambda>r'.
         bindo (lifto (validate_remote_upload st expected r')) (\<lambda>_. retn r'))) (\<lambda>_. state_is b) (kept_or_discarded b)"
      by (intro triple_bindo [OF or_discard_state [OF state_is_requests(3)]] keeps_state pres_intros)
    with True show ?thesis by simp
  next
    case False
    show ?thesis unfolding if_not_P [OF False] by (rule keeps_state [OF pres_atoms(1)])
  qed
  show ?thesis
    unfolding finish_upload_def
    by (intro triple_bindo [OF h] triple_bindo [OF keeps_state [OF pres_atoms(3)]] rm)
qed

section \<open>The whole upload\<close>

text \<open>The part of an upload after the set-up.\<close>

definition transfer ::
    "'w outside \<Rightarrow> tus_client \<Rightarrow> upload_request \<Rightarrow> upload_state \<times> inspection \<times> bool \<Rightarrow> ('w, upload_outcome) sending" where
  "transfer V c q = (\<lambda>(st, i, go).
     bindo (lifto (validate_upload_url V c (us_upload_url st))) (\<lambda>u.
       let expected = directory_metadata_header (out_codecs V) (us_original_name st) i (us_directory st) in
     bindo (or_discard (head_remote V c u)) (\<lambda>r.
     bindo (lifto (validate_remote_upload st expected r)) (\<lambda>_.
     bindo (lifto (demand_some ''failed to open source file'' (source_bytes (ur_source q)))) (\<lambda>b.
     bindo (upload_loop V c u st expected b q go 0 r) (\<lambda>(r', paused).
       if paused then retn (upload_outcome_of st (ru_offset r') None)
       else finish_upload V c u st expected q r'))))))"

lemma loop_end:
  "upload_loop V c u st expected bs q go sent r s = (Inr (r', paused), t) \<Longrightarrow>
     paused = (ru_offset r' < us_size st)"
proof (induction "us_size st - ru_offset r" arbitrary: sent r s rule: less_induct)
  case less
  show ?case
  proof (cases "ru_offset r < us_size st \<and> go")
    case False
    with less.prems show ?thesis by (subst (asm) upload_loop.simps) (auto split: if_splits)
  next
    case True
    obtain more w where e: "out_event V (Progress (ru_offset r) (us_size st)) (sn_world s) = (more, w)" by fastforce
    obtain x s2 where x: "send_chunk V c u st expected bs (ur_chunk_size q) (ru_offset r) (s\<lparr>sn_world := w\<rparr>) = (x, s2)"
      by fastforce
    show ?thesis
    proof (cases x)
      case (Inl err)
      with less.prems e True x show ?thesis by (subst (asm) upload_loop.simps) (cases more; auto)
    next
      case (Inr r2)
      have "us_size st - ru_offset r2 < us_size st - ru_offset r"
        using send_chunk_advances [OF x [unfolded Inr]] True by linarith
      note ih = less.hyps [OF this, of "sent + 1" s2]
      show ?thesis
        using less.prems e True x Inr ih
        by (subst (asm) upload_loop.simps) (cases more; auto simp: bindo_ok split: if_splits)
    qed
  qed
qed

lemma transfer_triple:
  "triple (state_is b) (transfer V c q z)
     (\<lambda>o' s. if uo_delivery_id o' = None then state_is b s
        else state_is (if ur_keep_completed q then b else NoState) s) (kept_or_discarded b)"
proof -
  obtain st i go where z: "z = (st, i, go)" by (cases z)
  have f: "triple (state_is b) (finish_upload V c u st expected q r)
     (\<lambda>o' s. if uo_delivery_id o' = None then state_is b s
        else state_is (if ur_keep_completed q then b else NoState) s) (kept_or_discarded b)" for u expected r
  proof (rule tripleI)
    fix s o' t assume s: "state_is b s" "finish_upload V c u st expected q r s = (Inr o', t)"
    then have "uo_delivery_id o' \<noteq> None"
      by (auto simp: finish_upload_def bindo_ok upload_outcome_of_def)
    with triple_ok [OF finish_state s] show "if uo_delivery_id o' = None then state_is b t
        else state_is (if ur_keep_completed q then b else NoState) t" by auto
  next
    fix s e t assume "state_is b s" "finish_upload V c u st expected q r s = (Inl e, t)"
    then show "kept_or_discarded b e t" by (rule triple_err [OF finish_state])
  qed
  have p: "triple (state_is b) (retn (upload_outcome_of st n None))
     (\<lambda>o' s. if uo_delivery_id o' = None then state_is b s
        else state_is (if ur_keep_completed q then b else NoState) s) (kept_or_discarded b)" for n
    by (auto intro!: tripleI simp: op_defs upload_outcome_of_def)
  have k: "triple (state_is b) (if paused then retn (upload_outcome_of st n None) else finish_upload V c u st expected q r)
     (\<lambda>o' s. if uo_delivery_id o' = None then state_is b s
        else state_is (if ur_keep_completed q then b else NoState) s) (kept_or_discarded b)" for paused n u expected r
  proof (cases paused)
    case True
    show ?thesis unfolding if_P [OF True] by (rule p)
  next
    case False
    show ?thesis unfolding if_not_P [OF False] by (rule f)
  qed
  show ?thesis
    unfolding transfer_def z prod.case Let_def
    by (rule triple_bindo [OF keeps_state [OF pres_atoms(3)]], rule triple_bindo [OF or_discard_state [OF state_is_requests(3)]],
        rule triple_bindo [OF keeps_state [OF pres_atoms(3)]], rule triple_bindo [OF keeps_state [OF pres_atoms(3)]],
        rule triple_bindo [OF loop_state], unfold split_beta, rule k)
qed

definition upload_checks :: "'w outside \<Rightarrow> upload_request \<Rightarrow> ('w, tus_client) sending" where
  "upload_checks V q =
     bindo (lifto (demand (1 \<le> ur_chunk_size q \<and> ur_chunk_size q \<le> MAX_CHUNK_SIZE \<and> 1 \<le> ur_timeout q
         \<and> ur_timeout q \<le> 3600 \<and> ur_max_chunks q \<noteq> Some 0)
       ''invalid upload chunk size, timeout, or chunk limit'')) (\<lambda>_.
     bindo (lifto (case ur_name q of None \<Rightarrow> Inr () | Some n \<Rightarrow> validate_upload_name n)) (\<lambda>_.
     bindo (lifto (case ur_directory q of None \<Rightarrow> Inr () | Some v \<Rightarrow> demand_ok (validate_version v))) (\<lambda>_.
     bindo (TusClient_new (out_urls V) (ur_server_url q) (ur_token q) (ur_allow_http q)) (\<lambda>c.
     bindo (lifto (demand (\<not> ur_same_file q) ''source file and resume state must be different files'')) (\<lambda>_.
     bindo (lifto (demand (\<not> ur_locked q) ''another process holds the state lock'')) (\<lambda>_. retn c))))))"

lemma bindo_retn: "bindo (retn x) f = f x"
  by (rule ext) simp

lemma upload_parts:
  "upload_with_events V q = bindo (upload_checks V q) (\<lambda>c.
     bindo (\<lambda>s. (if sn_state s \<noteq> NoState then resume_upload V c q else start_upload V c q) s) (transfer V c q))"
proof -
  have r: "bindo (readso (\<lambda>s. Inr (sn_state s \<noteq> NoState))) (\<lambda>exists.
      bindo (if exists then resume_upload V c q else start_upload V c q) f)
    = bindo (\<lambda>s. (if sn_state s \<noteq> NoState then resume_upload V c q else start_upload V c q) s) f" for c f
    by (rule ext) (simp add: bindo_def readso_def)
  show ?thesis
    unfolding upload_with_events_def upload_checks_def bindo_assoc bindo_retn transfer_def r [symmetric] by (rule refl)
qed

lemma checks_state: "upload_checks V q s = (r, t) \<Longrightarrow> t = s"
proof -
  have "upload_checks V q s = (fst (upload_checks V q s), s)"
    by (simp add: upload_checks_def TusClient_new_def bindo_lifto bindo_assoc op_defs split: sum.split)
  then show "upload_checks V q s = (r, t) \<Longrightarrow> t = s" by simp
qed

text \<open>The set-up describes the source: its size and digest are the ones that were inspected.\<close>

lemma set_up_source:
  assumes "(if sn_state s \<noteq> NoState then resume_upload V c q else start_upload V c q) s = (Inr (st, i, go), t)"
  shows "us_size st = in_size i \<and> us_sha256 st = in_sha256 i \<and> (\<exists>mx. inspect_file (out_ext V) (ur_source q) mx = Inr i)"
  using assms
  by (auto simp: resume_upload_def start_upload_def Let_def bindo_ok lifto_ok validate_source_state_def split: if_splits)

lemma transfer_source:
  assumes "transfer V c q (st, i, go) s = (Inr u, t)"
  shows "uo_size u = us_size st \<and> uo_sha256 u = us_sha256 st
     \<and> (if uo_delivery_id u = None then uo_uploaded_bytes u < us_size st else uo_uploaded_bytes u = us_size st)
     \<and> (\<forall>did. uo_delivery_id u = Some did \<longrightarrow> is_ok (validate_delivery_id did))"
  using assms
  by (auto simp: transfer_def bindo_ok lifto_ok Let_def upload_outcome_of_def finish_upload_def is_ok_iff
      split: if_splits dest: loop_end)

lemma inspected_source: "inspect_file X x mx = Inr i \<Longrightarrow> \<exists>b. source_bytes x = Some b \<and> in_size i = length b \<and> in_sha256 i = sha256_hex X b"
  by (auto simp: inspect_file_Inr source_bytes_def)

text \<open>
  C40. What a caller may rely on when an upload returns, whatever the server did. On success the
  reported size and digest are those of the source file; with a delivery id, a well-formed one,
  all of it was taken, and without one the transfer paused before the end. The resume state is
  dropped only then, or when the server says that the upload is gone or refused for good: after a
  pause or any other error it is on disk for the next attempt.
\<close>

theorem upload_result:
  assumes "upload_with_events V q s = (r, t)"
  shows "state_change (sn_state s) q r (sn_state t)
     \<and> (case r of Inl _ \<Rightarrow> True
        | Inr u \<Rightarrow> (\<exists>b. source_bytes (ur_source q) = Some b \<and> uo_size u = length b
            \<and> uo_sha256 u = sha256_hex (out_ext V) b
            \<and> (case uo_delivery_id u of None \<Rightarrow> uo_uploaded_bytes u < length b
               | Some did \<Rightarrow> uo_uploaded_bytes u = length b \<and> is_ok (validate_delivery_id did))))"
proof -
  let ?set = "\<lambda>c s. (if sn_state s \<noteq> NoState then resume_upload V c q else start_upload V c q) s"
  have m: "bindo (upload_checks V q) (\<lambda>c. bindo (?set c) (transfer V c q)) s = (r, t)"
    using assms unfolding upload_parts .
  obtain k s0 where k: "upload_checks V q s = (k, s0)" by fastforce
  then have s0: "s0 = s" by (rule checks_state)
  show ?thesis
  proof (cases k)
    case (Inl e)
    with m k s0 show ?thesis by (auto simp: bindo_def state_change_def)
  next
    case (Inr c)
    with m k s0 have m': "bindo (?set c) (transfer V c q) s = (r, t)" by (simp add: bindo_def)
    obtain z s1 where z: "?set c s = (z, s1)" by fastforce
    have st: "case z of Inl _ \<Rightarrow> sn_state s1 = sn_state s | Inr _ \<Rightarrow> settled (sn_state s) (sn_state s1)"
    proof (cases "sn_state s = NoState")
      case True
      with z start_state [of V c q s] show ?thesis by (auto simp: settled_def split: sum.split)
    next
      case False
      with z have "sn_state s1 = sn_state s"
        using presD2 [OF state_is_requests(5), of "sn_state s" s V c q] by (simp add: state_is_def)
      with False show ?thesis by (auto simp: settled_def split: sum.split)
    qed
    show ?thesis
    proof (cases z)
      case (Inl e)
      with m' z st show ?thesis by (auto simp: bindo_def state_change_def)
    next
      case z': (Inr y)
      obtain us i go where y: "y = (us, i, go)" by (cases y)
      from m' z z' y have tr: "transfer V c q (us, i, go) s1 = (r, t)" by (simp add: bindo_def)
      have b: "settled (sn_state s) (sn_state s1)" "state_is (sn_state s1) s1" using st z' by (simp_all add: state_is_def)
      show ?thesis
      proof (cases r)
        case (Inl e)
        have "kept_or_discarded (sn_state s1) e t" by (rule triple_err [OF transfer_triple b(2) tr [unfolded Inl]])
        with b(1) Inl show ?thesis by (auto simp: state_change_def settled_def kept_or_discarded_def)
      next
        case (Inr u)
        note f = triple_ok [OF transfer_triple b(2) tr [unfolded Inr]]
        note g = transfer_source [OF tr [unfolded Inr]]
        obtain mx where "us_size us = in_size i" "us_sha256 us = in_sha256 i"
          "inspect_file (out_ext V) (ur_source q) mx = Inr i"
          using set_up_source [of s V c q us i go s1] z z' y by auto
        with g inspected_source obtain bs where "source_bytes (ur_source q) = Some bs" "uo_size u = length bs"
          "uo_sha256 u = sha256_hex (out_ext V) bs" "us_size us = length bs" by metis
        moreover have "state_change (sn_state s) q r (sn_state t)"
          using f b(1) Inr by (cases "uo_delivery_id u") (auto simp: state_change_def settled_def state_is_def split: if_splits)
        ultimately show ?thesis using g Inr by (auto split: option.split)
      qed
    qed
  qed
qed

section \<open>A run\<close>

text \<open>A server that already holds all of the upload, met by a client that resumes.\<close>

definition sample_url :: "string \<Rightarrow> url" where
  "sample_url path = \<lparr>url_scheme = ''https'', url_host = Some ''h'', url_port = Some 443, url_username = [],
     url_password = None, url_query = None, url_fragment = None, url_path = path\<rparr>"

definition sample_address :: string where
  "sample_address = ''/api/v1/uploads/'' @ sample_id (CHR ''1'')"

definition sample_metadata :: string where
  "sample_metadata = directory_metadata_header sample_codecs ''a.png'' (inspection_of sample_ext sample_png) None"

definition sample_outside :: "unit outside" where
  "sample_outside = \<lparr>out_ext = sample_ext, out_codecs = sample_codecs,
     out_urls = \<lparr>url_parse = (\<lambda>a. Some (sample_url a)), url_string = url_path,
       url_join = (\<lambda>u a. Some (sample_url a)), url_set_path = (\<lambda>a u. sample_url a),
       url_extend = (\<lambda>a u. Some (sample_url ''/api/v1/uploads''))\<rparr>,
     out_send = (\<lambda>rq w. (Inr \<lparr>hr_status = 200, hr_headers = [(''tus-resumable'', ''1.0.0''),
         (''upload-offset'', decimal 12), (''upload-length'', decimal 12), (''upload-metadata'', sample_metadata),
         (''mirelay-delivery-id'', sample_id (CHR ''1''))], hr_body = None\<rparr>, w)),
     out_event = (\<lambda>e w. (True, w))\<rparr>"

definition sample_request :: upload_request where
  "sample_request = \<lparr>ur_source = Some (File sample_png), ur_file_name = Some ''a.png'', ur_same_file = False,
     ur_locked = False, ur_server_url = ''/'', ur_token = ''t'', ur_name = None, ur_directory = None,
     ur_chunk_size = 5, ur_max_chunks = None, ur_allow_http = False, ur_timeout = 120, ur_keep_completed = False\<rparr>"

definition sample_resume :: upload_state where
  "sample_resume = \<lparr>us_schema_version = UPLOAD_STATE_SCHEMA, us_collection_url = ''/api/v1/uploads'',
     us_upload_url = sample_address, us_original_name = ''a.png'', us_size = 12, us_sha256 = sample_sha,
     us_media_type = ''image/png'', us_directory = None\<rparr>"

lemma sample_client: "TusClient_new (out_urls (logged sample_outside)) (ur_server_url sample_request) (ur_token sample_request)
    (ur_allow_http sample_request) s
  = (Inr \<lparr>tc_collection = sample_url ''/api/v1/uploads'', tc_authorization = ''Bearer t''\<rparr>, s)"
  by (simp add: TusClient_new_def logged_def sample_outside_def sample_request_def bindo_lifto demand_def demand_some_def
      sample_url_def with_collection_path_def header_text_def op_defs MAX_TOKEN_BYTES_def)

lemma sample_address_ok:
  "validate_upload_url (logged sample_outside) \<lparr>tc_collection = sample_url ''/api/v1/uploads'', tc_authorization = ''Bearer t''\<rparr>
     sample_address = Inr (sample_url sample_address)"
proof -
  have "trim_end_slashes ''/api/v1/uploads'' = ''/api/v1/uploads''" by (simp add: trim_end_slashes_def)
  moreover have "slash \<notin> set (sample_id (CHR ''1''))" "sample_id (CHR ''1'') \<noteq> []" by (simp_all add: sample_id_def)
  moreover have "uuid_canonical sample_ext (sample_id (CHR ''1''))"
    by (simp add: uuid_canonical_def ascii_defs)
  ultimately show ?thesis
    by (simp add: upload_url_checked in_collection_def logged_def sample_outside_def sample_url_def sample_address_def)
qed

lemma client_parse_decimal: "n \<le> u64_max \<Longrightarrow> client_parse_u64 (decimal n) = Inr n \<and> header_text (decimal n)"
  using decimal_digits [of n] parse_decimal [of n] header_text_printable [of "decimal n"] digit_facts
  by (auto simp: client_parse_u64_def demand_some_def list_all_iff)

lemma sample_head:
  "head_remote (logged sample_outside) c u s
   = (Inr \<lparr>ru_offset = 12, ru_length = 12, ru_metadata = sample_metadata, ru_delivery_id = Some (sample_id (CHR ''1''))\<rparr>,
      s\<lparr>sn_world := (fst (sn_world s), snd (sn_world s) @ [\<lparr>rq_method = HeadMethod, rq_url = url_path u,
         rq_headers = tus_headers c [], rq_body = []\<rparr>])\<rparr>)"
proof -
  have "ascii_text (sample_id (CHR ''1''))" by (simp add: sample_id_def ascii_text_def)
  then have h: "header_text sample_metadata" "header_text (sample_id (CHR ''1''))"
    using ascii_text_header directory_header_ascii [OF sample_good_codec] unfolding sample_metadata_def by blast+
  show ?thesis
    using h client_parse_decimal [of 12]
    by (simp add: head_remote_def on_world_def logged_def sample_outside_def bindo_def split_beta require_status_def
        lifto_def require_tus_response_def response_header_def header_all_def header_text_def demand_def remote_upload_of_def
        response_u64_def optional_response_header_def op_defs u64_max_def)
qed

lemma sample_fields:
  "us_upload_url sample_resume = sample_address" "us_size sample_resume = 12" "us_original_name sample_resume = ''a.png''"
  "us_directory sample_resume = None" "us_sha256 sample_resume = sample_sha" "us_media_type sample_resume = ''image/png''"
  "us_schema_version sample_resume = UPLOAD_STATE_SCHEMA" "us_collection_url sample_resume = ''/api/v1/uploads''"
  "ur_source sample_request = Some (File sample_png)" "ur_keep_completed sample_request = False"
  "ur_name sample_request = None" "ur_directory sample_request = None" "ur_same_file sample_request = False"
  "ur_locked sample_request = False" "ur_chunk_size sample_request = 5" "ur_timeout sample_request = 120"
  "ur_max_chunks sample_request = None"
  "out_codecs (logged sample_outside) = sample_codecs" "out_ext (logged sample_outside) = sample_ext"
  "out_event (logged sample_outside) e ((), l) = (True, ((), l))" "url_string (out_urls (logged sample_outside)) u = url_path u"
  by (simp_all add: logged_def sample_outside_def sample_request_def sample_resume_def split_beta)

lemma sample_set_up:
  "resume_upload (logged sample_outside) \<lparr>tc_collection = sample_url ''/api/v1/uploads'', tc_authorization = ''Bearer t''\<rparr>
     sample_request \<lparr>sn_state = Saved sample_resume, sn_world = ((), l)\<rparr>
   = (Inr (sample_resume, inspection_of sample_ext sample_png, True), \<lparr>sn_state = Saved sample_resume, sn_world = ((), l)\<rparr>)"
proof -
  have "validate_state (logged sample_outside) \<lparr>tc_collection = sample_url ''/api/v1/uploads'', tc_authorization = ''Bearer t''\<rparr>
      sample_resume = Inr ()"
    using sample_address_ok
    by (simp add: validate_state_def sample_fields) (simp add: sample_url_def)
  moreover have "inspectable 12 None sample_png" by (simp add: inspectable_def sample_png_def u64_max_def)
  then have "inspect_file sample_ext (Some (File sample_png)) 12 = Inr (inspection_of sample_ext sample_png)"
    by (simp add: inspect_file_Inr)
  moreover have "validate_upload_name ''a.png'' = Inr ()" by (simp add: validate_upload_name_def demand_def)
  ultimately show ?thesis
    by (simp add: resume_upload_def load_state_def bindo_lifto bindo_readso demand_def demand_ok_def
        validate_source_state_def sample_inspection tell_def bindo_def op_defs sample_fields)
qed

lemma sample_run:
  "\<exists>t. upload_with_events (logged sample_outside) sample_request \<lparr>sn_state = Saved sample_resume, sn_world = ((), [])\<rparr>
     = (Inr (upload_outcome_of sample_resume 12 (Some (sample_id (CHR ''1'')))), t) \<and> length (snd (sn_world t)) = 1"
proof -
  let ?c = "\<lparr>tc_collection = sample_url ''/api/v1/uploads'', tc_authorization = ''Bearer t''\<rparr>"
  let ?s = "\<lparr>sn_state = Saved sample_resume, sn_world = ((), [])\<rparr>"
  have k: "upload_checks (logged sample_outside) sample_request ?s = (Inr ?c, ?s)"
    unfolding upload_checks_def
    by (simp add: bindo_lifto bindo_Inr [OF sample_client] demand_def sample_fields MAX_CHUNK_SIZE_def op_defs)
  have did: "validate_delivery_id (sample_id (CHR ''1'')) = Inr ()" by (simp add: ascii_defs)
  show ?thesis
    unfolding upload_parts
    by (simp add: k sample_set_up transfer_def sample_address_ok bindo_lifto or_discard_def
        sample_head sample_fields sample_metadata_def [symmetric] Let_def validate_remote_upload_def demand_some_def
        source_bytes_def upload_loop.simps finish_upload_def did demand_ok_def remove_state_def tell_def bindo_def op_defs)
qed

theorem requests_confined_witness:
  "\<exists>t. upload_with_events (logged sample_outside) sample_request \<lparr>sn_state = Saved sample_resume, sn_world = ((), [])\<rparr>
     = (Inr (upload_outcome_of sample_resume 12 (Some (sample_id (CHR ''1'')))), t)
     \<and> length (snd (sn_world t)) = 1 \<and> list_all (client_request (logged sample_outside) sample_request) (snd (sn_world t))"
proof -
  obtain t where t: "upload_with_events (logged sample_outside) sample_request \<lparr>sn_state = Saved sample_resume, sn_world = ((), [])\<rparr>
     = (Inr (upload_outcome_of sample_resume 12 (Some (sample_id (CHR ''1'')))), t)" "length (snd (sn_world t)) = 1"
    using sample_run by blast
  with requests_confined [OF t(1)] show ?thesis by (intro exI [of _ t]) simp
qed

theorem upload_result_witness:
  "\<exists>u t. upload_with_events (logged sample_outside) sample_request \<lparr>sn_state = Saved sample_resume, sn_world = ((), [])\<rparr>
     = (Inr u, t) \<and> uo_sha256 u = sample_sha \<and> sn_state t = NoState"
proof -
  obtain t where t: "upload_with_events (logged sample_outside) sample_request \<lparr>sn_state = Saved sample_resume, sn_world = ((), [])\<rparr>
     = (Inr (upload_outcome_of sample_resume 12 (Some (sample_id (CHR ''1'')))), t)" using sample_run by blast
  from upload_result [OF t] t show ?thesis
    by (auto simp: state_change_def upload_outcome_of_def source_bytes_def sample_fields)
qed

end
