(* ===== verification/Paging.thy ===== *)
theory Paging
  imports ServerSteps
begin

text \<open>
  Reading the queue page after page while the server goes on working: between two pages any requests
  may run. The first page fixes the snapshot; later deliveries are left to the next reading.
\<close>

section \<open>Since the snapshot\<close>

text \<open>Up to the snapshot, no delivery comes back, and none is taken out of a directory.\<close>

definition since :: "int \<Rightarrow> database \<Rightarrow> server \<Rightarrow> bool" where
  "since m d s \<longleftrightarrow> m \<le> t_sequence (srv_db s) \<and> t_user_version (srv_db s) = SERVER_SCHEMA_VERSION
     \<and> (\<forall>r \<in> set (t_deliveries (srv_db s)). r_acked r = None \<longrightarrow> r_seq r \<le> m \<longrightarrow>
          r \<in> set (t_deliveries d) \<and> (is_directory_row d r \<longrightarrow> is_directory_row (srv_db s) r))"

lemma since_cong:
  "since m d s \<Longrightarrow> t_deliveries (srv_db t) = t_deliveries (srv_db s) \<Longrightarrow> t_versions (srv_db t) = t_versions (srv_db s)
     \<Longrightarrow> t_sequence (srv_db t) = t_sequence (srv_db s) \<Longrightarrow> t_user_version (srv_db t) = t_user_version (srv_db s) \<Longrightarrow> since m d t"
  by (simp add: since_def is_directory_row_def)

lemma since_acked: "since m d s \<Longrightarrow> since m d (on_db (set_acked F n) s)"
  by (auto simp: since_def set_acked_def is_directory_row_def)

lemma since_directory: "since m d s \<Longrightarrow> since m d (on_db (ack_update now device ack) s)"
proof -
  have v: "is_directory_row (ack_update now device ack x) r = is_directory_row x r" for x r
    by (auto simp: is_directory_row_def ack_update_eq)
  assume s: "since m d s"
  have same: "r \<in> set (t_deliveries (srv_db s))"
    if "r \<in> set (t_deliveries (ack_update now device ack (srv_db s)))" "r_acked r = None" for r
    using that by (auto simp: ack_update_eq ack_delivery_def split: if_splits)
  with s show ?thesis unfolding since_def by (simp add: v ack_update_rows)
qed

interpretation after: store_frame "since m d" for m d
proof unfold_locales
  fix s F n now device ack assume "since m d s"
  then show "since m d (on_db (set_acked F n) s)" "since m d (on_db (ack_update now device ack) s)"
    by (rule since_acked, rule since_directory)
next
  fix s v assume "since m d s"
  then show "since m d (on_db (\<lambda>d. d\<lparr>t_versions := t_versions d @ [v]\<rparr>) s)"
    by (auto simp: since_def is_directory_row_def)
qed (auto simp: since_def is_directory_row_def)

lemma since_folders:
  "pres (since m d) (transaction (insert_folder X now name i token secret))"
  "pres (since m d) (transaction (claim_step now i invite sender))"
  "pres (since m d) (confirm_step X i verification)" "pres (since m d) (renew_step i stored expires)"
  "pres (since m d) (transaction (disconnect_step i hash))"
  "pres (since m d) (transaction (exit_receipt i role hash))"
  unfolding insert_folder_def claim_step_def confirm_step_def renew_step_def disconnect_step_def
    exit_receipt_def Let_def
  by (intro after.fr_transaction pres_intros pres_modifyo; erule since_cong; simp add: update_folder_def)+

lemma since_retire: "since m d s \<Longrightarrow> since m d (on_db (retire_rows i) s)"
  by (fastforce simp: since_def retire_rows_def Let_def is_directory_row_def)

lemma since_exit: "pres (since m d) (clean_exit E i credential)"
proof (rule hoare_clean_exit)
  have "since m d (on_db (\<lambda>d. request_exit i (update_folder i revoke d)) s)" if "since m d s" for s
    using that by (rule since_cong) simp_all
  then show "pres (since m d) (transaction (revoke_folder i credential))"
    unfolding revoke_folder_def by (intro after.fr_transaction pres_intros pres_modifyo)
  show "pres (since m d) lock_uploads" "pres (since m d) lock_content"
    "pres (since m d) (purge_folder_uploads_locked E (folder_device i))"
    by (rule after.fr_locks after.fr_purge)+
  have "pres (since m d) (remove_folder_object x device sm)" for x device sm
    by (cases sm) (auto simp: remove_folder_object_def intro!: pres_intros after.fr_content)
  then have "pres (since m d) (transaction (retire_step i))"
    unfolding retire_step_def by (intro after.fr_transaction pres_intros pres_modifyo since_retire)
  then show "since m d (snd (transaction (retire_step i) s))" if "since m d s" for s
    using that by (rule presD)
qed

interpretation onwards: kept E "since m d" for E m d
  by unfold_locales
    (rule since_folders since_exit after.fr_enqueue after.fr_acknowledge after.fr_collect after.fr_reconcile
       after.fr_create_upload after.fr_get_upload after.fr_append_upload after.fr_publish after.fr_ack_directory)+

section \<open>Reading\<close>

text \<open>A reader that asks for page after page, as the client does; the list has the server at each of its requests.\<close>

fun read_pages ::
    "store_env \<Rightarrow> string \<Rightarrow> nat \<Rightarrow> server list \<Rightarrow> int \<Rightarrow> int option \<Rightarrow> stored_delivery list res" where
  "read_pages E device limit [] a n = Inl (Bail ''too many pages'')"
| "read_pages E device limit (s # ss) a n =
     andthen (fst (list_pending E device a n limit s)) (\<lambda>page.
       if pp_has_more page
       then andthen (read_pages E device limit ss (st_sequence (last (pp_deliveries page)))
           (Some (pp_snapshot_sequence page))) (\<lambda>rest. Inr (pp_deliveries page @ rest))
       else Inr (pp_deliveries page))"

definition waits :: "string \<Rightarrow> server \<Rightarrow> delivery_row \<Rightarrow> bool" where
  "waits device s r \<longleftrightarrow> r \<in> set (t_deliveries (srv_db s)) \<and> is_pending device r \<and> \<not> is_directory_row (srv_db s) r"

lemma pending_rows_set: "set (pending_rows (srv_db s) device a m) = {r. waits device s r \<and> a < r_seq r \<and> r_seq r \<le> m}"
  by (auto simp: pending_rows_def waits_def)

lemma rows_ok_sorted: "rows_ok E d \<Longrightarrow> seq_sorted d"
  by (simp add: rows_ok_def seq_sorted_def)

lemma pending_strict: "rows_ok E d \<Longrightarrow> sorted_wrt (<) (List.map r_seq (pending_rows d device a m))"
  using rows_ok_sorted by (simp add: pending_rows_sorted) (simp add: seq_sorted_def sorted_wrt_map sorted_wrt_filter)

lemma strict_parts:
  "sorted_wrt (<) (List.map r_seq (xs @ ys)) \<Longrightarrow> sorted_wrt (<) (List.map r_seq rows) \<Longrightarrow> set rows \<subseteq> set ys
     \<Longrightarrow> sorted_wrt (<) (List.map r_seq (xs @ rows))"
  by (auto simp: sorted_wrt_append)

text \<open>What is left after a page does not grow while the server goes on.\<close>

lemma later_rows:
  fixes s t :: server
  assumes "since m (srv_db s) t" and "rows_ok E (srv_db t)"
  shows "set (pending_rows (srv_db t) device a m) \<subseteq> set (pending_rows (srv_db s) device a m)"
    and "length (pending_rows (srv_db t) device a m) \<le> length (pending_rows (srv_db s) device a m)"
proof -
  show s: "set (pending_rows (srv_db t) device a m) \<subseteq> set (pending_rows (srv_db s) device a m)"
    unfolding pending_rows_set using assms(1) by (auto simp: waits_def since_def is_pending_def)
  have "distinct (pending_rows (srv_db t) device a m)"
    using pending_strict [OF assms(2)] by (metis distinct_map strict_sorted_iff)
  then have "length (pending_rows (srv_db t) device a m) = card (set (pending_rows (srv_db t) device a m))"
    by (simp add: distinct_card)
  also have "\<dots> \<le> card (set (pending_rows (srv_db s) device a m))" using s by (simp add: card_mono)
  also have "\<dots> \<le> length (pending_rows (srv_db s) device a m)" by (rule card_length)
  finally show "length (pending_rows (srv_db t) device a m) \<le> length (pending_rows (srv_db s) device a m)" .
qed

lemma pages_from:
  assumes "is_ok (validate_device_id device)" and "0 < limit" and "limit \<le> 100"
  shows "successively (server_steps E) (s # ss) \<Longrightarrow> store_ok E s \<Longrightarrow> since m d s \<Longrightarrow> 0 \<le> a \<Longrightarrow> a \<le> m
     \<Longrightarrow> length (pending_rows (srv_db s) device a m) \<le> length ss
     \<Longrightarrow> \<exists>rows. read_pages E device limit (s # ss) a (Some m) = Inr (List.map stored_of rows)
       \<and> sorted_wrt (<) (List.map r_seq rows) \<and> set rows \<subseteq> set (pending_rows (srv_db s) device a m)
       \<and> (\<forall>r. (\<forall>u \<in> set (s # ss). waits device u r) \<and> a < r_seq r \<and> r_seq r \<le> m \<longrightarrow> r \<in> set rows)"
proof (induction ss arbitrary: s a)
  case (Cons t ts)
  let ?r = "pending_rows (srv_db s) device a m"
  have ok: "rows_ok E (srv_db s)" "t_user_version (srv_db s) = SERVER_SCHEMA_VERSION"
    using Cons.prems(2,3) by (simp_all add: store_ok_def since_def)
  note page = list_pending_page [OF ok(1) assms(1) ok(2) assms(2,3) Cons.prems(4), where n = "Some m" and m = m]
  show ?case
  proof (cases "length ?r > limit")
    case True
    let ?k = "r_seq (last (take limit ?r))"
    have n: "take limit ?r \<noteq> []" using True assms(2) by auto
    then have l: "last (take limit ?r) \<in> set ?r" by (metis in_set_takeD last_in_set)
    have k: "0 \<le> ?k" "?k \<le> m" "a < ?k" using pending_nonneg [OF ok(1) l] l by (auto simp: pending_rows_set)
    have rest: "pending_rows (srv_db s) device ?k m = drop limit ?r"
      using queue.rows_after_take [of "(srv_db s, device)" limit a m] rows_ok_sorted [OF ok(1)] assms(2) True by simp
    have st: "server_steps E s t" "successively (server_steps E) (t # ts)" using Cons.prems(1) by simp_all
    have t: "store_ok E t" "since m d t" by (rule stored.steps_keep [OF st(1) Cons.prems(2)], rule onwards.steps_keep [OF st(1) Cons.prems(3)])
    have "since m (srv_db s) s" using Cons.prems(3) by (simp add: since_def)
    then have f: "since m (srv_db s) t" by (rule onwards.steps_keep [OF st(1)])
    have "rows_ok E (srv_db t)" using t(1) by (simp add: store_ok_def)
    note later = later_rows [OF f this, of device ?k]
    have "length (pending_rows (srv_db t) device ?k m) \<le> length ts"
      using later(2) Cons.prems(6) assms(2) True by (simp add: rest)
    from Cons.IH [OF st(2) t k(1,2) this] obtain rows where rows:
      "read_pages E device limit (t # ts) ?k (Some m) = Inr (List.map stored_of rows)"
      "sorted_wrt (<) (List.map r_seq rows)" "set rows \<subseteq> set (pending_rows (srv_db t) device ?k m)"
      "\<forall>r. (\<forall>u \<in> set (t # ts). waits device u r) \<and> ?k < r_seq r \<and> r_seq r \<le> m \<longrightarrow> r \<in> set rows" by blast
    have "last (List.map stored_of (take limit ?r)) = stored_of (last (take limit ?r))" using n by (rule last_map)
    then have "read_pages E device limit (s # t # ts) a (Some m) = Inr (List.map stored_of (take limit ?r @ rows))"
      using page True rows(1) Cons.prems(5) by (simp add: stored_of_def del: read_pages.simps(2)) (simp add: stored_of_def)
    moreover have "sorted_wrt (<) (List.map r_seq (take limit ?r @ rows))"
    proof (rule strict_parts [OF _ rows(2)])
      show "sorted_wrt (<) (List.map r_seq (take limit ?r @ drop limit ?r))"
        unfolding append_take_drop_id by (rule pending_strict [OF ok(1)])
      show "set rows \<subseteq> set (drop limit ?r)" using rows(3) later(1) unfolding rest by blast
    qed
    moreover have "set (take limit ?r @ rows) \<subseteq> set ?r"
      using rows(3) later(1) rest by (auto dest: in_set_takeD in_set_dropD)
    moreover have "r \<in> set (take limit ?r @ rows)"
      if r: "\<forall>u \<in> set (s # t # ts). waits device u r" "a < r_seq r" "r_seq r \<le> m" for r
    proof -
      have "r \<in> set ?r" using r by (simp add: pending_rows_set)
      then have "r \<in> set (take limit ?r) \<or> r \<in> set (drop limit ?r)" by (metis Un_iff append_take_drop_id set_append)
      moreover have "r \<in> set rows" if "r \<in> set (drop limit ?r)"
        using that rows(4) r unfolding rest [symmetric] by (simp add: pending_rows_set)
      ultimately show ?thesis by auto
    qed
    ultimately show ?thesis by blast
  next
    case False
    have "read_pages E device limit (s # t # ts) a (Some m) = Inr (List.map stored_of ?r)"
      using page Cons.prems(5) False by simp
    then show ?thesis using pending_strict [OF ok(1)] by (intro exI [of _ ?r]) (simp add: pending_rows_set)
  qed
next
  case Nil
  then have ok: "rows_ok E (srv_db s)" "t_user_version (srv_db s) = SERVER_SCHEMA_VERSION" "pending_rows (srv_db s) device a m = []"
    by (simp_all add: store_ok_def since_def)
  have "\<not> (waits device s r \<and> a < r_seq r \<and> r_seq r \<le> m)" for r
    using ok(3) pending_rows_set [of s device a m] by auto
  with list_pending_page [OF ok(1) assms(1) ok(2) assms(2,3) Nil.prems(4), where n = "Some m" and m = m] ok(3) Nil.prems(5)
  show ?case by (intro exI [of _ "[]"]) auto
qed

text \<open>
  C2. A reader pages through the queue of a device while any requests run between its pages. It ends,
  and what it has read is in the order of the queue, each delivery once, nothing but deliveries that
  waited when the first page was read, and every one of these that still waited at each later page.
  Later deliveries never get into the pages. Directory versions are not in this queue.
\<close>

theorem pagination_complete:
  assumes "successively (server_steps E) (s # ss)" and "store_ok E s" and "t_user_version (srv_db s) = SERVER_SCHEMA_VERSION"
    and "is_ok (validate_device_id device)" and "0 < limit" and "limit \<le> 100"
    and "length (t_deliveries (srv_db s)) \<le> length ss"
  shows "\<exists>rows. read_pages E device limit (s # ss) 0 None = Inr (List.map stored_of rows)
     \<and> sorted_wrt (<) (List.map r_seq rows) \<and> set rows \<subseteq> {r. waits device s r}
     \<and> {r. \<forall>u \<in> set (s # ss). waits device u r} \<subseteq> set rows"
proof -
  let ?m = "max_pending (srv_db s) device"
  have ok: "rows_ok E (srv_db s)" using assms(2) by (simp add: store_ok_def)
  have m: "0 \<le> ?m" by (rule max_pending_nonneg [OF ok])
  have "?m \<in> insert 0 (r_seq ` set (t_deliveries (srv_db s)))"
  proof (cases "List.map r_seq (List.filter (is_pending device) (t_deliveries (srv_db s)))")
    case (Cons x xs)
    have "fold max xs x \<in> insert x (set xs)" for xs and x :: int
      by (induction xs arbitrary: x) (auto simp: max_def split: if_splits)
    then have "?m \<in> set (List.map r_seq (List.filter (is_pending device) (t_deliveries (srv_db s))))"
      by (simp add: max_pending_def Cons)
    then show ?thesis by auto
  qed (simp add: max_pending_def)
  then have "since ?m (srv_db s) s" using ok assms(3) by (auto simp: since_def rows_ok_def list_all_iff)
  moreover have "length (pending_rows (srv_db s) device 0 ?m) \<le> length ss"
    using assms(7) by (simp add: pending_rows_def order_trans [OF length_filter_le])
  ultimately obtain rows where rows: "read_pages E device limit (s # ss) 0 (Some ?m) = Inr (List.map stored_of rows)"
    "sorted_wrt (<) (List.map r_seq rows)" "set rows \<subseteq> set (pending_rows (srv_db s) device 0 ?m)"
    "\<forall>r. (\<forall>u \<in> set (s # ss). waits device u r) \<and> 0 < r_seq r \<and> r_seq r \<le> ?m \<longrightarrow> r \<in> set rows"
    using pages_from [OF assms(4-6,1,2) _ order_refl m] by blast
  have "list_pending E device 0 None limit s = list_pending E device 0 (Some ?m) limit s"
    using list_pending_page [OF ok assms(4,3,5,6), where a = 0 and n = None and m = ?m]
      list_pending_page [OF ok assms(4,3,5,6), where a = 0 and n = "Some ?m" and m = ?m] m by simp
  then have "read_pages E device limit (s # ss) 0 None = Inr (List.map stored_of rows)" using rows(1) by simp
  moreover have "0 < r_seq r \<and> r_seq r \<le> ?m" if "waits device s r" for r
    using that ok max_pending_ge by (auto simp: waits_def rows_ok_def list_all_iff)
  ultimately show ?thesis using rows(2-4) by (intro exI [of _ rows]) (auto simp: pending_rows_set)
qed

text \<open>The second of three deliveries is acknowledged between the first page and the second.\<close>

definition acknowledged_server :: server where
  "acknowledged_server = snd (acknowledge 5 ''linux'' (sample_id (CHR ''2'')) sample_sha queue_server)"

lemma acknowledged_db:
  "srv_db acknowledged_server = set_acked (\<lambda>r. r_device r = ''linux'' \<and> r_id r = sample_id (CHR ''2'')) 5 (srv_db queue_server)"
proof -
  have "acknowledge 5 ''linux'' (sample_id (CHR ''2'')) sample_sha queue_server = (Inr AckDone,
      on_db (set_acked (\<lambda>r. r_device r = ''linux'' \<and> r_id r = sample_id (CHR ''2'')) 5) queue_server)"
    by (simp add: acknowledge_Inr find_row_def i64_max_def ascii_defs)
  then show ?thesis by (simp add: acknowledged_server_def on_db_def)
qed

lemma queue_store_ok: "store_ok sample_env queue_server"
proof -
  have "holds_content sample_ext (Some (File sample_png)) 12 sample_sha ''image/png''"
    using sample_inspection by (auto simp: holds_content_def sample_sha_def sample_png_def)
  then show ?thesis
    using queue_ok by (auto simp: store_ok_def content_safe_def must_keep_def row_stored_def sample_shard obj_at_def child_def)
qed

theorem pagination_complete_witness:
  "\<exists>rows. read_pages sample_env ''linux'' 1 [queue_server, acknowledged_server, acknowledged_server, acknowledged_server] 0 None
       = Inr (List.map stored_of rows)
     \<and> sample_row 1 ''linux'' (CHR ''1'') \<in> set rows \<and> sample_row 5 ''linux'' (CHR ''5'') \<in> set rows"
proof -
  let ?ss = "[acknowledged_server, acknowledged_server, acknowledged_server]"
  have "server_step sample_env queue_server acknowledged_server"
    unfolding acknowledged_server_def by (rule step_acknowledge)
  then have "server_steps sample_env queue_server acknowledged_server" by (rule steps_more [OF steps_none])
  then have c: "successively (server_steps sample_env) (queue_server # ?ss)" by simp
  obtain rows where rows: "read_pages sample_env ''linux'' 1 (queue_server # ?ss) 0 None = Inr (List.map stored_of rows)"
    "{r. \<forall>u \<in> set (queue_server # ?ss). waits ''linux'' u r} \<subseteq> set rows"
    using pagination_complete [OF c queue_store_ok _ sample_linux, of 1] by auto
  have "waits ''linux'' u r" if "u \<in> set (queue_server # ?ss)"
    "r \<in> {sample_row 1 ''linux'' (CHR ''1''), sample_row 5 ''linux'' (CHR ''5'')}" for u r
    using that by (auto simp: waits_def is_pending_def is_directory_row_def acknowledged_db set_acked_def)
  with rows show ?thesis by (intro exI [of _ rows]) blast
qed

end
