(* ===== verification/Resuming.thy ===== *)
theory Resuming
  imports FolderExit
begin

text \<open>
  Running the exit of a Folder again, \<open>clean_exit\<close> and \<open>resume_exits\<close> of \<open>src/server/exit.rs\<close>:
  the states in which a run can stop, by an error on the way or by the end of the process, and
  the completion of the next run once nothing obstructs it.
\<close>

section \<open>Obstacles\<close>

definition lockable :: "dir \<Rightarrow> bool" where
  "lockable d = (case map_of d LIBRARY_LOCK_FILE of None \<Rightarrow> True | Some (File _) \<Rightarrow> True | Some _ \<Rightarrow> False)"

definition regular_or_none :: "node option \<Rightarrow> bool" where
  "regular_or_none x = (case x of None \<Rightarrow> True | Some (File _) \<Rightarrow> True | Some _ \<Rightarrow> False)"

definition readable_record :: "store_env \<Rightarrow> server \<Rightarrow> string \<Rightarrow> bool" where
  "readable_record E s i =
     (is_ok (validate_upload_id (ext E) i)
      \<and> (case map_of (srv_records s) i of
           Some (Parsed r) \<Rightarrow> is_ok (validate_upload_record E i r)
         | _ \<Rightarrow> False))"

definition object_clear :: "dir \<Rightarrow> string \<Rightarrow> string \<Rightarrow> bool" where
  "object_clear root shard name =
     (case map_of root shard of
        None \<Rightarrow> True
      | Some (Dir es) \<Rightarrow> regular_or_none (map_of es name)
      | Some _ \<Rightarrow> False)"

definition object_removable :: "server \<Rightarrow> string \<Rightarrow> string \<times> string \<Rightarrow> bool" where
  "object_removable s device sm =
     (valid_sha256 (fst sm)
      \<and> (shared_object (srv_db s) device (fst sm)
         \<or> extension_for_media_type (snd sm) \<noteq> None
           \<and> object_clear (srv_content s) (fst (object_path sm)) (snd (object_path sm))))"

text \<open>
  Nothing obstructs the removal: the two lock files can be taken, every upload record can be
  read, every part has a record, what is to be removed is a regular file, and the Folder's
  deliveries name contents that can be found.
\<close>

definition removable :: "store_env \<Rightarrow> string \<Rightarrow> server \<Rightarrow> bool" where
  "removable E fid s =
     (lockable (srv_uploads_other s) \<and> lockable (srv_content s)
      \<and> list_all (readable_record E s) (List.map fst (srv_parts s))
      \<and> list_all (readable_record E s) (List.map fst (srv_records s))
      \<and> list_all (\<lambda>i. owned_upload (folder_device fid) s i \<longrightarrow> regular_or_none (map_of (srv_parts s) i))
          (List.map fst (srv_records s))
      \<and> list_all (object_removable s (folder_device fid)) (folder_objects (srv_db s) (folder_device fid)))"

lemma list_all_keys: "list_all P (List.map fst xs) \<longleftrightarrow> (\<forall>i. map_of xs i \<noteq> None \<longrightarrow> P i)"
  by (auto simp: list_all_iff map_of_eq_None_iff)

lemma removable_iff:
  "removable E fid s \<longleftrightarrow> lockable (srv_uploads_other s) \<and> lockable (srv_content s)
     \<and> (\<forall>i. map_of (srv_parts s) i \<noteq> None \<longrightarrow> readable_record E s i)
     \<and> (\<forall>i. map_of (srv_records s) i \<noteq> None \<longrightarrow> readable_record E s i)
     \<and> (\<forall>i. owned_upload (folder_device fid) s i \<longrightarrow> regular_or_none (map_of (srv_parts s) i))
     \<and> (\<forall>sm \<in> set (folder_objects (srv_db s) (folder_device fid)).
          object_removable s (folder_device fid) sm)"
proof -
  have "owned_upload (folder_device fid) s i \<Longrightarrow> map_of (srv_records s) i \<noteq> None" for i
    by (auto simp: owned_upload_def split: option.splits)
  then show ?thesis unfolding removable_def list_all_keys by (auto simp: list_all_iff)
qed

section \<open>The steps of the removal\<close>

text \<open>What a run does after its revocation, file by file; a run may stop between any two.\<close>

inductive exit_removes :: "string \<Rightarrow> server \<Rightarrow> server \<Rightarrow> bool" for fid where
  locks_uploads: "lock_uploads s = (Inr (), t) \<Longrightarrow> exit_removes fid s t"
| locks_content: "lock_content s = (Inr (), t) \<Longrightarrow> exit_removes fid s t"
| removes_part: "owned_upload (folder_device fid) s i \<Longrightarrow> remove_regular_part i s = (Inr (), t) \<Longrightarrow>
    exit_removes fid s t"
| removes_record: "owned_upload (folder_device fid) s i \<Longrightarrow> map_of (srv_parts s) i = None \<Longrightarrow>
    remove_record_file i s = (Inr (), t) \<Longrightarrow> exit_removes fid s t"
| removes_object: "sm \<in> set (folder_objects (srv_db s) (folder_device fid)) \<Longrightarrow>
    remove_folder_object (srv_db s) (folder_device fid) sm s = (Inr (), t) \<Longrightarrow> exit_removes fid s t"

abbreviation removing :: "string \<Rightarrow> server \<Rightarrow> server \<Rightarrow> bool" where
  "removing fid \<equiv> (exit_removes fid)\<^sup>*\<^sup>*"

lemma exit_removes_db: "exit_removes fid s t \<Longrightarrow> srv_db t = srv_db s"
  by (induction rule: exit_removes.induct)
    (auto dest: lock_uploads_same lock_content_db remove_regular_part_Inr remove_folder_object_Inr
      simp: remove_record_file_def)

lemma removing_db: "removing fid s t \<Longrightarrow> srv_db t = srv_db s"
  by (induction rule: rtranclp_induct) (auto dest: exit_removes_db)

subsection \<open>No step puts an obstacle in the way\<close>

lemma lock_library_clear:
  assumes "lock_library c = (Inr u, c')"
  shows "lockable c' \<and> (\<forall>k. k \<noteq> LIBRARY_LOCK_FILE \<longrightarrow> map_of c' k = map_of c k)"
  using assms
  by (auto simp: lock_library_def lockable_def update_conv' split: option.splits node.splits)

lemma short_not_lock: "take 2 h \<noteq> LIBRARY_LOCK_FILE"
proof
  assume "take 2 h = LIBRARY_LOCK_FILE"
  then have "length (take 2 h) = length LIBRARY_LOCK_FILE" by simp
  then show False by (simp add: LIBRARY_LOCK_FILE_def)
qed

lemma object_clear_delete:
  assumes "object_clear c a n" "remove_regular_object a' n' c = (Inr u, c')"
  shows "object_clear c' a n"
  using assms
  by (auto simp: object_clear_def remove_regular_object_def regular_or_none_def del_obj_def child_def
      update_conv' delete_conv' split: option.splits node.splits if_splits)

lemma remove_regular_lock:
  assumes "remove_regular_object (take 2 h) n' c = (Inr u, c')"
  shows "lockable c' = lockable c"
  using assms short_not_lock [of h]
  by (auto simp: lockable_def remove_regular_object_def del_obj_def update_conv'
      split: option.splits node.splits if_splits)

lemma remove_folder_object_clear:
  assumes "remove_folder_object d device sm s = (Inr u, t)"
  shows "srv_uploads_other t = srv_uploads_other s \<and> lockable (srv_content t) = lockable (srv_content s)
     \<and> (object_clear (srv_content s) a n \<longrightarrow> object_clear (srv_content t) a n)"
  using assms
  by (cases sm) (auto simp: remove_folder_object_def bindo_ok lifto_ok on_content_eq
      dest: remove_regular_lock object_clear_delete split: if_splits)

lemma object_removable_mono:
  assumes "srv_db t = srv_db s"
    "\<And>h n. object_clear (srv_content s) (take 2 h) n \<Longrightarrow> object_clear (srv_content t) (take 2 h) n"
    "object_removable s device sm"
  shows "object_removable t device sm"
  using assms by (auto simp: object_removable_def object_path_def)

lemma removable_fewer:
  assumes s: "removable E fid s" and db: "srv_db t = srv_db s"
    and locks: "lockable (srv_uploads_other t)" "lockable (srv_content t)"
    and objects: "\<And>h n. object_clear (srv_content s) (take 2 h) n \<Longrightarrow> object_clear (srv_content t) (take 2 h) n"
    and records: "\<And>i. map_of (srv_records t) i = None \<or> map_of (srv_records t) i = map_of (srv_records s) i"
    and parts: "\<And>i. map_of (srv_parts t) i = None \<or> map_of (srv_parts t) i = map_of (srv_parts s) i"
    and owned: "\<And>i. map_of (srv_parts t) i \<noteq> None \<Longrightarrow> map_of (srv_records t) i = map_of (srv_records s) i"
  shows "removable E fid t"
proof -
  note s = s [unfolded removable_iff]
  have "readable_record E t i" if "map_of (srv_parts t) i \<noteq> None" for i
  proof -
    have "map_of (srv_parts s) i \<noteq> None" using parts [of i] that by auto
    then have "readable_record E s i" using s by blast
    then show ?thesis using owned [OF that] by (simp add: readable_record_def)
  qed
  moreover have "readable_record E t i" if "map_of (srv_records t) i \<noteq> None" for i
  proof -
    have same: "map_of (srv_records t) i = map_of (srv_records s) i" using records [of i] that by auto
    with that s have "readable_record E s i" by (metis (no_types, lifting))
    then show ?thesis using same by (simp add: readable_record_def)
  qed
  moreover have "regular_or_none (map_of (srv_parts t) i)" if "owned_upload (folder_device fid) t i" for i
  proof -
    have same: "map_of (srv_records t) i = map_of (srv_records s) i"
      using records [of i] that by (auto simp: owned_upload_def)
    with that have "owned_upload (folder_device fid) s i" by (simp add: owned_upload_def)
    then have "regular_or_none (map_of (srv_parts s) i)" using s by blast
    then show ?thesis using parts [of i] by (auto simp: regular_or_none_def)
  qed
  moreover have "object_removable t (folder_device fid) sm"
    if "sm \<in> set (folder_objects (srv_db t) (folder_device fid))" for sm
    by (rule object_removable_mono [OF db objects]) (use s that db in auto)
  ultimately show ?thesis unfolding removable_iff using locks by blast
qed

lemma exit_removes_removable:
  assumes "exit_removes fid s t" "removable E fid s"
  shows "removable E fid t"
  using assms
proof (induction rule: exit_removes.induct)
  case (locks_uploads s t)
  have c: "srv_db t = srv_db s" "srv_records t = srv_records s" "srv_parts t = srv_parts s"
    "srv_content t = srv_content s" using lock_uploads_same [OF locks_uploads(1)] by simp_all
  have "lockable (srv_uploads_other t)"
    using locks_uploads(1) by (auto simp: lock_uploads_def dest!: lock_library_clear split: prod.splits)
  moreover have "lockable (srv_content t)" using locks_uploads(2) c(4) by (simp add: removable_iff)
  ultimately show ?case by (intro removable_fewer [OF locks_uploads(2)]) (simp_all add: c)
next
  case (locks_content s t)
  have c: "srv_db t = srv_db s" "srv_records t = srv_records s" "srv_parts t = srv_parts s"
    using lock_content_db [OF locks_content(1)] by simp_all
  have l: "srv_uploads_other t = srv_uploads_other s" "lock_library (srv_content s) = (Inr (), srv_content t)"
    using locks_content(1) by (auto simp: lock_content_def on_content_eq split: prod.splits)
  have "lockable (srv_uploads_other t)" using locks_content(2) l(1) by (simp add: removable_iff)
  then show ?case
    using lock_library_clear [OF l(2)]
    by (intro removable_fewer [OF locks_content(2)]) (auto simp: c object_clear_def short_not_lock)
next
  case (removes_part s i t)
  note p = remove_regular_part_Inr [OF removes_part(2)]
  have "srv_uploads_other t = srv_uploads_other s"
    using removes_part(2) by (auto simp: remove_regular_part_def split: option.splits node.splits)
  with p removes_part(3) show ?case
    by (intro removable_fewer [OF removes_part(3)]) (auto simp: removable_iff)
next
  case (removes_record s i t)
  have t: "t = s\<lparr>srv_records := AList.delete i (srv_records s)\<rparr>"
    using removes_record(3) by (simp add: remove_record_file_def modifyo_def)
  show ?case
    using removes_record(2,4)
    by (intro removable_fewer [OF removes_record(4)]) (auto simp: t removable_iff delete_conv')
next
  case (removes_object sm s t)
  note p = remove_folder_object_Inr [OF removes_object(2)]
    and q = remove_folder_object_clear [OF removes_object(2)]
  show ?case
    using removes_object(3) p q
    by (intro removable_fewer [OF removes_object(3)]) (auto simp: removable_iff)
qed

lemma removing_removable: "removing fid s t \<Longrightarrow> removable E fid s \<Longrightarrow> removable E fid t"
  by (induction rule: rtranclp_induct) (auto intro: exit_removes_removable)

section \<open>Every run proceeds by these steps\<close>

lemma lock_uploads_err: "lock_uploads s = (Inl e, t) \<Longrightarrow> t = s"
  by (auto simp: lock_uploads_def lock_library_def split: option.splits node.splits)

lemma lock_content_err: "lock_content s = (Inl e, t) \<Longrightarrow> t = s"
  by (auto simp: lock_content_def on_content_eq lock_library_def split: option.splits node.splits)

lemma locks_move:
  "lock_uploads s = (r, t) \<Longrightarrow> removing fid s t" "lock_content s = (r, t) \<Longrightarrow> removing fid s t"
  by (cases r; auto dest: lock_uploads_err lock_content_err exit_removes.intros(1,2))+

lemma check_owned_stays: "check_owned_part E i s = (r, t) \<Longrightarrow> t = s"
  by (auto simp: check_owned_part_def read_upload_record_def bindo_def op_defs
      split: sum.splits option.splits record_file.splits prod.splits)

lemma read_record_stays: "read_upload_record E i s = (r, t) \<Longrightarrow> t = s"
  by (auto simp: read_upload_record_def bindo_def op_defs
      split: sum.splits option.splits record_file.splits prod.splits)

lemma read_record_owned:
  "read_upload_record E i s = (Inr (Some r), t) \<Longrightarrow> owned_upload (u_device_id r) s i"
  by (auto simp: read_upload_record_Inr owned_upload_def split: option.splits record_file.splits)

lemma remove_part_err: "remove_regular_part i s = (Inl e, t) \<Longrightarrow> t = s"
  by (auto simp: remove_regular_part_def split: option.splits node.splits)

lemma purge_upload_moves:
  assumes "purge_upload E (folder_device fid) i s = (r, t)"
  shows "removing fid s t"
proof (cases "read_upload_record E i s")
  case (Pair f b)
  note b = read_record_stays [OF Pair]
  show ?thesis
  proof (cases f)
    case (Inl e)
    then show ?thesis using assms Pair b by (simp add: purge_upload_def bindo_Inl)
  next
    case (Inr found)
    show ?thesis
    proof (cases "\<exists>x. found = Some x \<and> u_device_id x = folder_device fid")
      case False
      then show ?thesis
        using assms Pair b Inr by (auto simp: purge_upload_def bindo_Inr op_defs split: option.splits if_splits)
    next
      case True
      then have o: "owned_upload (folder_device fid) s i" using Pair Inr read_record_owned by fastforce
      have m: "bindo (remove_regular_part i) (\<lambda>_. remove_record_file i) s = (r, t)"
        using assms Pair b Inr True by (auto simp: purge_upload_def bindo_Inr)
      show ?thesis
      proof (cases "remove_regular_part i s")
        case (Pair q c)
        show ?thesis
        proof (cases q)
          case (Inl e)
          then show ?thesis using Pair m by (auto simp: bindo_Inl dest: remove_part_err)
        next
          case (Inr u)
          with Pair m have q: "remove_regular_part i s = (Inr (), c)" "remove_record_file i c = (r, t)"
            by (simp_all add: bindo_Inr)
          note p = remove_regular_part_Inr [OF q(1)]
          have "owned_upload (folder_device fid) c i" using o p by (simp add: owned_upload_def)
          moreover have "remove_record_file i c = (Inr (), t)"
            using q(2) by (simp add: remove_record_file_def modifyo_def)
          ultimately have "exit_removes fid c t" using p by (intro removes_record) auto
          with removes_part [OF o q(1)] show ?thesis by (auto intro: converse_rtranclp_into_rtranclp)
        qed
      qed
    qed
  qed
qed

lemma remove_regular_err: "remove_regular_object a n c = (Inl e, c') \<Longrightarrow> c' = c"
  by (auto simp: remove_regular_object_def split: option.splits node.splits)

lemma remove_object_err: "remove_folder_object d device sm s = (Inl e, t) \<Longrightarrow> t = s"
  by (cases sm) (auto simp: remove_folder_object_def bindo_err op_defs on_content_eq
      dest: remove_regular_err split: if_splits)

lemma remove_object_moves:
  assumes "sm \<in> set (folder_objects (srv_db s) (folder_device fid))"
    "remove_folder_object (srv_db s) (folder_device fid) sm s = (r, t)"
  shows "removing fid s t"
  using assms by (cases r) (auto dest: remove_object_err removes_object)

text \<open>Operations that only move along the steps, from a given database.\<close>

definition moving :: "string \<Rightarrow> database \<Rightarrow> (server, 'a) op \<Rightarrow> bool" where
  "moving fid d m \<longleftrightarrow> (\<forall>a. pres (\<lambda>u. srv_db u = d \<and> removing fid a u) m)"

lemma movingI:
  "(\<And>s r t. srv_db s = d \<Longrightarrow> m s = (r, t) \<Longrightarrow> removing fid s t) \<Longrightarrow> moving fid d m"
  unfolding moving_def pres_iff by (metis removing_db rtranclp_trans)

lemma movingD:
  assumes "moving fid d m" "srv_db s = d" "m s = (r, t)" shows "removing fid s t"
proof -
  have "pres (\<lambda>u. srv_db u = d \<and> removing fid s u) m" using assms(1) by (simp add: moving_def)
  from presD2 [OF this _ assms(3)] assms(2) show ?thesis by simp
qed

lemma moving_bindo: "moving fid d m \<Longrightarrow> (\<And>x. moving fid d (f x)) \<Longrightarrow> moving fid d (bindo m f)"
  unfolding moving_def by (blast intro: pres_bindo)

lemma moving_for_each:
  "(\<And>x. x \<in> set xs \<Longrightarrow> moving fid d (f x)) \<Longrightarrow> moving fid d (for_each f xs)"
  by (induction xs) (auto intro: moving_bindo movingI simp: retn_def)

lemma moving_atoms:
  "moving fid d lock_uploads" "moving fid d lock_content" "moving fid d (check_owned_part E i)"
  "moving fid d (purge_upload E (folder_device fid) i)" "moving fid d (readso g)"
  "sm \<in> set (folder_objects d (folder_device fid)) \<Longrightarrow>
     moving fid d (remove_folder_object d (folder_device fid) sm)"
  by (rule movingI, erule locks_move)+
    (rule movingI, auto intro: purge_upload_moves remove_object_moves dest: check_owned_stays
      simp: readso_def)+

lemma moving_purge: "moving fid d (purge_folder_uploads_locked E (folder_device fid))"
  unfolding purge_folder_uploads_locked_def
  by (intro moving_bindo moving_for_each moving_atoms)

lemma moving_objects:
  "moving fid d (for_each (remove_folder_object d (folder_device fid)) (folder_objects d (folder_device fid)))"
  by (intro moving_for_each moving_atoms)

lemma retire_moves:
  assumes "transaction (retire_step fid) s = (Inl e, t)"
  shows "removing fid s t"
proof -
  let ?d = "srv_db s"
  from assms obtain u where u: "retire_step fid s = (Inl e, u)" "t = u\<lparr>srv_db := ?d\<rparr>"
    by (auto simp: transaction_err)
  then have "for_each (remove_folder_object ?d (folder_device fid)) (folder_objects ?d (folder_device fid)) s
      = (Inl e, u)"
    by (auto simp: retire_step_def open_connection_eq bindo_err modifyo_def)
  with movingD [OF moving_objects refl] have m: "removing fid s u" by blast
  then have "t = u" using u(2) removing_db [OF m] by simp
  with m show ?thesis by simp
qed

section \<open>A run with nothing in its way\<close>

definition able :: "store_env \<Rightarrow> string \<Rightarrow> database \<Rightarrow> server \<Rightarrow> bool" where
  "able E fid d s \<longleftrightarrow> removable E fid s \<and> srv_db s = d"

lemma moving_able: "moving fid d m \<Longrightarrow> able E fid d s \<Longrightarrow> m s = (r, t) \<Longrightarrow> able E fid d t"
  unfolding able_def by (metis movingD removing_db removing_removable)

lemma hoare_for_members:
  "(\<And>x. x \<in> set xs \<Longrightarrow> hoare P (f x) (\<lambda>_. P) R) \<Longrightarrow> hoare P (for_each f xs) (\<lambda>_. P) R"
proof (induction xs)
  case Nil
  show ?case by (rule hoareI) (simp_all add: retn_def)
next
  case (Cons x xs)
  then show ?case by (auto intro!: hoare_bindo [where Q = "\<lambda>_. P"])
qed

lemma hoare_total: "hoare P m Q (\<lambda>_. False) \<Longrightarrow> P s \<Longrightarrow> \<exists>x t. m s = (Inr x, t) \<and> Q x t"
  by (cases "m s", cases "fst (m s)") (auto dest: hoare_ok hoare_err)

lemma able_op:
  assumes "moving fid d m" "\<And>s e t. able E fid d s \<Longrightarrow> m s \<noteq> (Inl e, t)"
  shows "hoare (able E fid d) m (\<lambda>_. able E fid d) (\<lambda>_. False)"
  by (rule hoareI) (use assms moving_able [OF assms(1)] in blast)+

lemma able_locks:
  "hoare (able E fid d) lock_uploads (\<lambda>_. able E fid d) (\<lambda>_. False)"
  "hoare (able E fid d) lock_content (\<lambda>_. able E fid d) (\<lambda>_. False)"
  by (rule able_op [OF moving_atoms(1)], auto simp: able_def removable_iff lockable_def lock_uploads_def
      lock_library_def split: option.splits node.splits)
    (rule able_op [OF moving_atoms(2)], auto simp: able_def removable_iff lockable_def lock_content_def
      on_content_eq lock_library_def split: option.splits node.splits)

lemma readable_read:
  assumes "is_ok (validate_upload_id (ext E) i)"
    "map_of (srv_records s) i \<noteq> None \<longrightarrow> readable_record E s i"
  shows "read_upload_record E i s =
     (Inr (case map_of (srv_records s) i of Some (Parsed r) \<Rightarrow> Some r | _ \<Rightarrow> None), s)"
  using assms
  by (auto simp: read_upload_record_Inr readable_record_def is_ok_iff split: option.splits record_file.splits)

lemma able_check:
  "hoare (\<lambda>s. able E fid d s \<and> s = s0) (for_each (check_owned_part E) (List.map fst (srv_parts s0)))
     (\<lambda>_ s. able E fid d s \<and> s = s0) (\<lambda>_. False)"
proof (rule hoare_for_members)
  fix i assume i: "i \<in> set (List.map fst (srv_parts s0))"
  have "check_owned_part E i s0 = (Inr (), s0)" if "able E fid d s0"
  proof -
    have r: "readable_record E s0 i"
      using that i unfolding able_def removable_def list_all_iff by blast
    then have f: "is_ok (validate_upload_id (ext E) i)" "map_of (srv_records s0) i \<noteq> None"
      by (auto simp: readable_record_def split: option.splits)
    show ?thesis
      using readable_read [OF f(1), of s0] r f(2)
      by (auto simp: check_owned_part_def bindo_Inr op_defs readable_record_def
          split: option.splits record_file.splits)
  qed
  then show "hoare (\<lambda>s. able E fid d s \<and> s = s0) (check_owned_part E i)
      (\<lambda>_ s. able E fid d s \<and> s = s0) (\<lambda>_. False)"
    by (auto intro!: hoareI)
qed

lemma able_purge_upload:
  assumes "is_ok (validate_upload_id (ext E) i)"
  shows "hoare (able E fid d) (purge_upload E (folder_device fid) i) (\<lambda>_. able E fid d) (\<lambda>_. False)"
proof (rule able_op [OF moving_atoms(4)])
  fix s e t assume s: "able E fid d s"
  have r: "read_upload_record E i s =
      (Inr (case map_of (srv_records s) i of Some (Parsed r) \<Rightarrow> Some r | _ \<Rightarrow> None), s)"
    by (rule readable_read [OF assms]) (use s in \<open>auto simp: able_def removable_iff\<close>)
  have o: "regular_or_none (map_of (srv_parts s) i)" if "owned_upload (folder_device fid) s i"
    using s that by (simp add: able_def removable_iff)
  show "purge_upload E (folder_device fid) i s \<noteq> (Inl e, t)"
    using o
    by (auto simp: purge_upload_def r bindo_err op_defs owned_upload_def
        remove_regular_part_def regular_or_none_def remove_record_file_def
        split: option.splits record_file.splits node.splits if_splits)
qed

lemma able_purge:
  assumes "able E fid d s"
  shows "\<exists>t. purge_folder_uploads_locked E (folder_device fid) s = (Inr (), t) \<and> able E fid d t"
proof -
  have c: "for_each (check_owned_part E) (List.map fst (srv_parts s)) s = (Inr (), s)"
    using hoare_total [OF able_check [of E fid d s]] assms by auto
  have "is_ok (validate_upload_id (ext E) i)" if "i \<in> set (List.map fst (srv_records s))" for i
    using assms that unfolding able_def removable_def list_all_iff readable_record_def by blast
  then have "hoare (able E fid d) (for_each (purge_upload E (folder_device fid)) (List.map fst (srv_records s)))
      (\<lambda>_. able E fid d) (\<lambda>_. False)"
    by (intro hoare_for_members able_purge_upload)
  from hoare_total [OF this assms]
  obtain t where "for_each (purge_upload E (folder_device fid)) (List.map fst (srv_records s)) s = (Inr (), t)"
    "able E fid d t" by auto
  with c show ?thesis
    by (auto simp: purge_folder_uploads_locked_def bindo_ok readso_ok)
qed

lemma remove_regular_clear: "object_clear c a n \<Longrightarrow> fst (remove_regular_object a n c) = Inr ()"
  by (auto simp: object_clear_def regular_or_none_def remove_regular_object_def
      split: option.splits node.splits)

lemma able_object:
  assumes sm: "sm \<in> set (folder_objects d (folder_device fid))"
  shows "hoare (able E fid d) (remove_folder_object d (folder_device fid) sm) (\<lambda>_. able E fid d) (\<lambda>_. False)"
proof (rule able_op [OF moving_atoms(6) [OF sm]])
  fix s e t assume s: "able E fid d s"
  obtain sha media where sm': "sm = (sha, media)" by fastforce
  have d: "srv_db s = d" using s by (simp add: able_def)
  have "object_removable s (folder_device fid) sm" using s sm by (auto simp: able_def removable_iff)
  then have v: "validate_sha256 sha = Inr ()" and
    o: "shared_object d (folder_device fid) sha \<or> (\<exists>x. extension_for_media_type media = Some x
      \<and> object_clear (srv_content s) (take 2 sha) (object_name sha x))"
    by (auto simp: object_removable_def sm' d object_path_def)
  have v: "validate_sha256 sha \<noteq> Inl e'" for e' by (subst v) simp
  show "remove_folder_object d (folder_device fid) sm s \<noteq> (Inl e, t)"
  proof (cases "shared_object d (folder_device fid) sha")
    case True
    then show ?thesis using v by (simp add: remove_folder_object_def sm' bindo_err op_defs)
  next
    case False
    with o obtain x where x: "extension_for_media_type media = Some x"
      "object_clear (srv_content s) (take 2 sha) (object_name sha x)" by blast
    from remove_regular_clear [OF x(2)] show ?thesis
      using v by (auto simp: remove_folder_object_def sm' False x(1) bindo_err lifto_def on_content_def
          of_option_def split: prod.splits)
  qed
qed

lemma able_objects:
  "hoare (able E fid d) (for_each (remove_folder_object d (folder_device fid))
     (folder_objects d (folder_device fid))) (\<lambda>_. able E fid d) (\<lambda>_. False)"
  by (intro hoare_for_members able_object)

definition may_exit :: "database \<Rightarrow> string \<Rightarrow> bytes option \<Rightarrow> bool" where
  "may_exit d fid credential =
     (find_folder d fid \<noteq> None
      \<and> (case credential of None \<Rightarrow> exit_started d fid | Some h \<Rightarrow> authorized d fid h))"

lemma removable_revoked:
  assumes "removable E fid s"
  shows "removable E fid (on_db (\<lambda>d. request_exit fid (update_folder fid revoke d)) s)"
proof -
  let ?a = "on_db (\<lambda>d. request_exit fid (update_folder fid revoke d)) s"
  have ob: "folder_objects (srv_db ?a) x = folder_objects (srv_db s) x" for x by (rule objects_cong) simp
  have sh: "shared_object (srv_db ?a) x y = shared_object (srv_db s) x y" for x y by (rule shared_cong) simp
  have "owned_upload x ?a = owned_upload x s" "readable_record E ?a = readable_record E s"
    "object_removable ?a x = object_removable s x" for x
    using sh by (simp_all add: owned_upload_def readable_record_def object_removable_def fun_eq_iff)
  with assms show ?thesis unfolding removable_def ob by simp
qed

lemma exit_completes:
  assumes "removable E fid s" "may_exit (srv_db s) fid credential"
  shows "\<exists>u. clean_exit E fid credential s = (Inr True, u)"
proof -
  let ?a = "on_db (\<lambda>d. request_exit fid (update_folder fid revoke d)) s"
  let ?d = "srv_db ?a"
  have r: "revoke_folder fid credential s = (Inr True, ?a)"
    using assms(2) by (auto simp: revoke_folder_Inr may_exit_def split: option.splits)
  have "able E fid ?d ?a" using removable_revoked [OF assms(1)] by (simp add: able_def)
  then obtain l where l: "lock_uploads ?a = (Inr (), l)" "able E fid ?d l"
    using hoare_total [OF able_locks(1)] by fastforce
  then obtain b where b: "lock_content l = (Inr (), b)" "able E fid ?d b"
    using hoare_total [OF able_locks(2)] by fastforce
  then obtain c where c: "purge_folder_uploads_locked E (folder_device fid) b = (Inr (), c)" "able E fid ?d c"
    using able_purge by blast
  have "srv_db c = ?d" using c(2) by (simp add: able_def)
  moreover obtain e where "for_each (remove_folder_object ?d (folder_device fid))
      (folder_objects ?d (folder_device fid)) c = (Inr (), e)"
    using hoare_total [OF able_objects c(2)] by auto
  ultimately show ?thesis using clean_exit_intro [OF r l(1) b(1) c(1)] by auto
qed

section \<open>Running an exit again\<close>

text \<open>
  How a run of an exit can end without completing: with an error, or at any step of the removal
  when the process ends.
\<close>

inductive exit_halts :: "store_env \<Rightarrow> string \<Rightarrow> bytes option \<Rightarrow> server \<Rightarrow> server \<Rightarrow> bool"
  for E fid credential s where
  failed: "clean_exit E fid credential s = (Inl e, t) \<Longrightarrow> exit_halts E fid credential s t"
| interrupted: "revoke_folder fid credential s = (Inr True, a) \<Longrightarrow> removing fid a t \<Longrightarrow>
    exit_halts E fid credential s t"

lemma revoked_state:
  assumes "may_exit (srv_db s) fid credential"
  shows "revoke_folder fid credential s
     = (Inr True, on_db (\<lambda>d. request_exit fid (update_folder fid revoke d)) s)"
  using assms by (auto simp: revoke_folder_Inr may_exit_def split: option.splits)

text \<open>An error too leaves one of the states that the removal passes through.\<close>

lemma halts_removing:
  assumes "may_exit (srv_db s) fid credential" "exit_halts E fid credential s t"
  shows "removing fid (on_db (\<lambda>d. request_exit fid (update_folder fid revoke d)) s) t"
  using assms(2)
proof cases
  case (interrupted a)
  then show ?thesis using revoked_state [OF assms(1)] by simp
next
  case (failed e)
  let ?a = "on_db (\<lambda>d. request_exit fid (update_folder fid revoke d)) s"
  have "transaction (revoke_folder fid credential) s = (Inr True, ?a)"
    using revoked_state [OF assms(1)] by (simp add: transaction_ok)
  with failed have f: "bindo lock_uploads (\<lambda>_. bindo lock_content (\<lambda>_.
      bindo (purge_folder_uploads_locked E (folder_device fid)) (\<lambda>_.
      bindo (transaction (retire_step fid)) (\<lambda>_. retn True)))) ?a = (Inl e, t)"
    by (simp add: clean_exit_def bindo_Inr)
  have m: "removing fid u v" if "moving fid (srv_db u) m" "m u = (r, v)"
    for u v r and m :: "(server, unit) op"
    by (rule movingD [OF that(1) refl that(2)])
  note steps = m [OF moving_atoms(1)] m [OF moving_atoms(2)] m [OF moving_purge]
  from f consider "lock_uploads ?a = (Inl e, t)"
    | l where "lock_uploads ?a = (Inr (), l)" "lock_content l = (Inl e, t)"
    | l b where "lock_uploads ?a = (Inr (), l)" "lock_content l = (Inr (), b)"
        "purge_folder_uploads_locked E (folder_device fid) b = (Inl e, t)"
    | l b c where "lock_uploads ?a = (Inr (), l)" "lock_content l = (Inr (), b)"
        "purge_folder_uploads_locked E (folder_device fid) b = (Inr (), c)"
        "transaction (retire_step fid) c = (Inl e, t)"
    unfolding bindo_err by (auto simp: retn_def)
  then show ?thesis by cases (blast intro: steps retire_moves rtranclp_trans)+
qed

lemma may_exit_again:
  assumes "may_exit d fid credential"
  shows "may_exit (request_exit fid (update_folder fid revoke d)) fid credential"
    "may_exit (request_exit fid (update_folder fid revoke d)) fid None"
proof -
  have "authorized (request_exit fid (update_folder fid revoke d)) fid h = authorized d fid h" for h
    by (auto simp: authorized_def find_folder_revoked revoke_def split: option.splits)
  with assms show "may_exit (request_exit fid (update_folder fid revoke d)) fid credential"
    "may_exit (request_exit fid (update_folder fid revoke d)) fid None"
    by (auto simp: may_exit_def find_folder_revoked exit_started_request find_folder_update
        split: option.splits)
qed

text \<open>
  C28. An exit that stops half-way can be run again and then completes. Let a run of the exit,
  asked for by a device of the Folder or asked for before, end in an error or be cut off after
  any of its steps. The Folder is then closed, and no row of a table is lost; and the run itself
  has put nothing in the way of the next one. Once nothing obstructs the removal, a second run
  completes: the one a device asks for with the same credential, and the one the server makes by
  itself without any. After it no delivery, version, inventory or upload of the Folder is left,
  nor any content of its deliveries that no other device waits for; the rows of the other
  devices are those from before the first run.
\<close>

theorem exit_resumable:
  assumes asked: "may_exit (srv_db s) fid credential"
    and halts: "exit_halts E fid credential s t"
    and cleared: "srv_db t' = srv_db t" "removable E fid t'"
    and again: "again = credential \<or> again = None"
  shows "\<not> device_open (srv_db t) (folder_device fid)
     \<and> t_deliveries (srv_db t) = t_deliveries (srv_db s)
     \<and> t_versions (srv_db t) = t_versions (srv_db s) \<and> t_indexes (srv_db t) = t_indexes (srv_db s)
     \<and> (removable E fid s \<longrightarrow> removable E fid t)
     \<and> (\<exists>u. clean_exit E fid again t' = (Inr True, u)
        \<and> t_deliveries (srv_db u) = List.filter (\<lambda>r. r_device r \<noteq> folder_device fid) (t_deliveries (srv_db s))
        \<and> t_versions (srv_db u) = List.filter (\<lambda>v. v_device v \<noteq> folder_device fid) (t_versions (srv_db s))
        \<and> map_of (t_indexes (srv_db u)) = (map_of (t_indexes (srv_db s)))(folder_device fid := None)
        \<and> (\<forall>i. \<not> owned_upload (folder_device fid) u i)
        \<and> (\<forall>r \<in> set (t_deliveries (srv_db s)). r_device r = folder_device fid
             \<and> \<not> shared_object (srv_db s) (folder_device fid) (r_sha r)
             \<longrightarrow> obj_at (srv_content u) (fst (row_path r)) (snd (row_path r)) = None))"
proof -
  let ?dev = "folder_device fid"
  let ?a = "on_db (\<lambda>d. request_exit fid (update_folder fid revoke d)) s"
  have m: "removing fid ?a t" by (rule halts_removing [OF asked halts])
  have db: "srv_db t = request_exit fid (update_folder fid revoke (srv_db s))"
    using removing_db [OF m] by simp
  have "may_exit (srv_db t') fid again"
    using again may_exit_again [OF asked] by (auto simp: cleared(1) db)
  with exit_completes [OF cleared(2)] obtain u where u: "clean_exit E fid again t' = (Inr True, u)" by blast
  note x = exit_effect [OF u, unfolded cleared(1)]
  have sh: "shared_object (srv_db t) ?dev = shared_object (srv_db s) ?dev"
    by (rule ext, rule shared_cong) (simp add: db)
  have closed: "\<not> device_open (srv_db t) ?dev"
    using asked by (auto simp: db may_exit_def exit_started_request find_folder_update)
  have kept: "removable E fid s \<longrightarrow> removable E fid t"
    using removing_removable [OF m] removable_revoked by blast
  have uploads: "\<not> owned_upload ?dev u i" for i using x by (simp add: owned_upload_def)
  have content: "obj_at (srv_content u) (fst (row_path r)) (snd (row_path r)) = None"
    if "r \<in> set (t_deliveries (srv_db s))" "r_device r = ?dev" "\<not> shared_object (srv_db s) ?dev (r_sha r)" for r
    using x [unfolded sh] that by (auto simp: db)
  show ?thesis
    using u x closed kept uploads content by (simp add: db)
qed

text \<open>A fragment without a record stops the exit.\<close>

definition blocked_server :: server where
  "blocked_server = paired_server\<lparr>srv_parts := [(sample_id (CHR ''9''), File [])]\<rparr>"

lemma blocked_server_fields [simp]:
  "srv_db blocked_server = srv_db paired_server" "srv_content blocked_server = srv_content paired_server"
  "srv_records blocked_server = []" "srv_parts blocked_server = [(sample_id (CHR ''9''), File [])]"
  "srv_uploads_other blocked_server = []"
  by (simp_all add: blocked_server_def)

text \<open>The exit fails; the fragment is taken away; the server completes the exit by itself.\<close>

theorem exit_resumable_witness:
  "\<exists>e t u. clean_exit sample_env (sample_id (CHR ''f'')) (Some (sample_hash (CHR ''b''))) blocked_server = (Inl e, t)
     \<and> t_deliveries (srv_db t) = [folder_row_of 1 (CHR ''1'') None, folder_row_of 2 (CHR ''2'') None]
     \<and> clean_exit sample_env (sample_id (CHR ''f'')) None (t\<lparr>srv_parts := []\<rparr>) = (Inr True, u)
     \<and> t_deliveries (srv_db u) = [] \<and> t_versions (srv_db u) = []
     \<and> obj_at (srv_content u) ''89'' (object_name sample_sha ''png'') = None"
proof -
  let ?f = "sample_id (CHR ''f'')" and ?h = "Some (sample_hash (CHR ''b''))"
  let ?a = "on_db (\<lambda>d. request_exit ?f (update_folder ?f revoke d)) blocked_server"
  let ?l = "?a\<lparr>srv_uploads_other := [(LIBRARY_LOCK_FILE, File [])]\<rparr>"
  let ?b = "?l\<lparr>srv_content := srv_content paired_server @ [(LIBRARY_LOCK_FILE, File [])]\<rparr>"
  have dev: "folder_device ?f = sample_folder" by (simp add: sample_folder_def)
  have f: "find_folder (srv_db paired_server) ?f = Some sample_folder_row" by (simp add: find_folder_def)
  have asked: "may_exit (srv_db blocked_server) ?f ?h"
    by (simp add: may_exit_def f authorized_def)
  have 1: "transaction (revoke_folder ?f ?h) blocked_server = (Inr True, ?a)"
    using revoked_state [OF asked] by (simp add: transaction_ok)
  have 2: "lock_uploads ?a = (Inr (), ?l)" by (simp add: lock_uploads_def lock_library_def)
  have 3: "lock_content ?l = (Inr (), ?b)"
    by (simp add: lock_content_def on_content_eq lock_library_def)
  obtain q c where p: "check_owned_part sample_env (sample_id (CHR ''9'')) ?b = (q, c)" by fastforce
  have "c = ?b" using check_owned_stays [OF p] .
  moreover obtain e where "q = Inl e" using p check_owned_same [of sample_env _ ?b _ c] by (cases q) auto
  ultimately have "purge_folder_uploads_locked sample_env (folder_device ?f) ?b = (Inl e, ?b)"
    using p by (simp add: purge_folder_uploads_locked_def bindo_err readso_ok)
  with 1 2 3 have fails: "clean_exit sample_env ?f ?h blocked_server = (Inl e, ?b)"
    by (simp add: clean_exit_def bindo_Inr bindo_Inl)
  have ob: "folder_objects (srv_db ?b) sample_folder = [(sample_sha, ''image/png'')]"
    by (simp add: folder_objects_def)
  have clear: "removable sample_env ?f (?b\<lparr>srv_parts := []\<rparr>)"
    using ob by (simp add: removable_def lockable_def dev object_removable_def object_path_def
        object_clear_def regular_or_none_def sample_shard)
  have sh: "\<not> shared_object (srv_db blocked_server) sample_folder sample_sha" by (simp add: shared_object_def)
  from exit_resumable [OF asked failed [OF fails] _ clear, of None] obtain u
    where "clean_exit sample_env ?f None (?b\<lparr>srv_parts := []\<rparr>) = (Inr True, u)"
      "t_deliveries (srv_db u) = []" "t_versions (srv_db u) = []"
      "obj_at (srv_content u) ''89'' (object_name sample_sha ''png'') = None"
    using sh by (auto simp: dev row_path_def sample_shard)
  with fails show ?thesis by (intro exI [of _ e] exI [of _ ?b] exI [of _ u]) simp
qed

text \<open>Refused for lack of a credential, a run changes nothing.\<close>

lemma exit_refused:
  assumes "clean_exit E fid credential s = (Inr False, t)"
  shows "t = s \<and> (\<exists>h. credential = Some h \<and> \<not> authorized (srv_db s) fid h)"
proof -
  have "revoke_folder fid credential s = (Inr False, t)"
    using assms unfolding clean_exit_def by (auto simp: bindo_ok transaction_ok split: if_splits)
  then show ?thesis by (simp add: revoke_folder_Inr)
qed

end
