(* ===== verification/Config.thy ===== *)
theory Config
  imports TusClient
begin

text \<open>
  The client configuration of \<open>src/config.rs\<close>: its record, the defaults, the checks of
  \<open>Config::validate\<close>, and the choice of the data directories. Paths are byte strings. URL and UUID
  parsing, the environment and the working directory are arguments; TOML is serde's.
\<close>

section \<open>Paths\<close>

definition is_absolute :: "string \<Rightarrow> bool" where
  "is_absolute p = prefix [slash] p"

text \<open>\<open>base.join(p)\<close> on Unix.\<close>

definition path_join :: "string \<Rightarrow> string \<Rightarrow> string" where
  "path_join base p =
     (if is_absolute p then p
      else if base = [] \<or> suffix [slash] base then base @ p
      else base @ slash # p)"

definition absolute_path :: "string option \<Rightarrow> string \<Rightarrow> string res" where
  "absolute_path cwd p =
     (if is_absolute p then Inr p
      else andthen (of_option ''failed to determine the current directory'' cwd) (\<lambda>d.
        Inr (path_join d p)))"

record environment =
  ev_cwd :: "string option"
  ev_home :: "string option"
  ev_data_home :: "string option"
  ev_config_home :: "string option"

definition home_dir :: "environment \<Rightarrow> string res" where
  "home_dir e =
     (case ev_home e of
        Some h \<Rightarrow> if h = [] then Inl (Bail ''cannot determine the home directory'') else Inr h
      | None \<Rightarrow> Inl (Bail ''cannot determine the home directory''))"

definition default_config_path :: "environment \<Rightarrow> string res" where
  "default_config_path e =
     (case ev_config_home e of
        Some p \<Rightarrow> absolute_path (ev_cwd e) (path_join p ''mirelay/config.toml'')
      | None \<Rightarrow> andthen (home_dir e) (\<lambda>h. absolute_path (ev_cwd e) (path_join h ''.config/mirelay/config.toml'')))"

definition default_data_dir :: "environment \<Rightarrow> string res" where
  "default_data_dir e =
     (case ev_data_home e of
        Some p \<Rightarrow> absolute_path (ev_cwd e) (path_join p ''mirelay'')
      | None \<Rightarrow> andthen (home_dir e) (\<lambda>h. absolute_path (ev_cwd e) (path_join h ''.local/share/mirelay'')))"

section \<open>The record\<close>

definition CONFIG_SCHEMA_VERSION :: nat where "CONFIG_SCHEMA_VERSION = 1"
definition DEFAULT_MAX_FILE_SIZE_BYTES :: nat where "DEFAULT_MAX_FILE_SIZE_BYTES = 100 * 1024 * 1024"
definition MAX_WALLPAPER_TIMEOUT_SECONDS :: nat where "MAX_WALLPAPER_TIMEOUT_SECONDS = 60 * 60"
definition MAX_HTTP_PAGE_SIZE :: nat where "MAX_HTTP_PAGE_SIZE = 100"
definition MAX_HTTP_RETRY_ATTEMPTS :: nat where "MAX_HTTP_RETRY_ATTEMPTS = 10"
definition MAX_HTTP_RETRY_DELAY_MILLISECONDS :: nat where
  "MAX_HTTP_RETRY_DELAY_MILLISECONDS = 60000"

datatype connection_state =
    Connected | DisconnectPending | Disconnected | ExitPending | ExitLocalCleaned | Exited

definition is_connected :: "connection_state \<Rightarrow> bool" where
  "is_connected c \<longleftrightarrow> c = Connected"

record http_server =
  hs_base_url :: string
  hs_token_env :: string
  hs_request_timeout_seconds :: nat
  hs_page_size :: nat
  hs_retry_max_attempts :: nat
  hs_retry_base_delay_milliseconds :: nat
  hs_retry_max_delay_milliseconds :: nat
  hs_allow_insecure_http :: bool

datatype server_config = Filesystem string | HttpServer http_server

record config =
  cf_schema_version :: nat
  cf_connection_state :: connection_state
  cf_directory_sync :: bool
  cf_device_id :: string
  cf_server :: server_config
  cf_library_dir :: string
  cf_state_file :: string
  cf_wallpaper_command :: "string list"
  cf_wallpaper_timeout :: nat
  cf_max_file_size_bytes :: nat

definition config_connected :: "config \<Rightarrow> unit res" where
  "config_connected c = ensure (is_connected (cf_connection_state c)) ''This Folder is disconnected''"

definition directory_state_dir :: "config \<Rightarrow> string" where
  "directory_state_dir c = cf_state_file c @ ''.directory''"

definition default_wallpaper_timeout_seconds :: nat where "default_wallpaper_timeout_seconds = 30"

record init_overrides =
  io_data_dir :: "string option"
  io_library_dir :: "string option"
  io_inbox_dir :: "string option"

text \<open>\<open>uuid\<close> is what \<open>Uuid::new_v4\<close> gives.\<close>

definition config_defaults :: "environment \<Rightarrow> string \<Rightarrow> init_overrides \<Rightarrow> config res" where
  "config_defaults e uuid v =
     andthen (case io_data_dir v of Some p \<Rightarrow> absolute_path (ev_cwd e) p | None \<Rightarrow> default_data_dir e) (\<lambda>data_dir.
     andthen (case io_inbox_dir v of Some p \<Rightarrow> absolute_path (ev_cwd e) p
       | None \<Rightarrow> Inr (path_join data_dir ''mock-inbox'')) (\<lambda>inbox_dir.
     andthen (case io_library_dir v of Some p \<Rightarrow> absolute_path (ev_cwd e) p
       | None \<Rightarrow> Inr (path_join data_dir ''library'')) (\<lambda>library_dir.
     Inr \<lparr>cf_schema_version = CONFIG_SCHEMA_VERSION, cf_connection_state = Connected,
       cf_directory_sync = False, cf_device_id = uuid, cf_server = Filesystem inbox_dir,
       cf_library_dir = library_dir, cf_state_file = path_join data_dir ''state.json'',
       cf_wallpaper_command = [], cf_wallpaper_timeout = default_wallpaper_timeout_seconds,
       cf_max_file_size_bytes = DEFAULT_MAX_FILE_SIZE_BYTES\<rparr>)))"

section \<open>Validation\<close>

definition validate_http_server :: "url_library \<Rightarrow> http_server \<Rightarrow> unit res" where
  "validate_http_server U h =
     andthen (ensure (\<not> (length (hs_base_url h) > 2048 \<or> has_control (hs_base_url h)))
       ''server.base_url is too long or contains control characters'') (\<lambda>_.
     andthen (of_option ''server.base_url is not a valid URL'' (url_parse U (hs_base_url h))) (\<lambda>u.
     andthen (ensure (url_host u \<noteq> None) ''server.base_url must include a host'') (\<lambda>_.
     andthen (ensure (url_scheme u = ''https'' \<or> url_scheme u = ''http'' \<and> hs_allow_insecure_http h)
       ''plain HTTP is disabled or the scheme is unsupported'') (\<lambda>_.
     andthen (ensure (\<not> (url_username u \<noteq> [] \<or> url_password u \<noteq> None))
       ''server.base_url must not contain credentials'') (\<lambda>_.
     andthen (ensure (\<not> (url_query u \<noteq> None \<or> url_fragment u \<noteq> None))
       ''server.base_url must not contain a query string or fragment'') (\<lambda>_.
     andthen (ensure (\<not> (hs_token_env h = [] \<or> length (hs_token_env h) > 128
          \<or> \<not> list_all (\<lambda>c. is_ascii_alphanumeric c \<or> c = CHR ''_'') (hs_token_env h)))
       ''server.token_env must be a valid environment variable name'') (\<lambda>_.
     andthen (ensure (\<not> (hs_request_timeout_seconds h = 0 \<or> hs_request_timeout_seconds h > 60 * 60))
       ''server.request_timeout_seconds must be between 1 and 3600'') (\<lambda>_.
     andthen (ensure (\<not> (hs_page_size h = 0 \<or> hs_page_size h > MAX_HTTP_PAGE_SIZE))
       ''server.page_size'') (\<lambda>_.
     andthen (ensure (\<not> (hs_retry_max_attempts h = 0 \<or> hs_retry_max_attempts h > MAX_HTTP_RETRY_ATTEMPTS))
       ''server.retry_max_attempts'') (\<lambda>_.
     andthen (ensure (\<not> (hs_retry_base_delay_milliseconds h = 0
          \<or> hs_retry_base_delay_milliseconds h > MAX_HTTP_RETRY_DELAY_MILLISECONDS))
       ''server.retry_base_delay_milliseconds'') (\<lambda>_.
     ensure (\<not> (hs_retry_max_delay_milliseconds h < hs_retry_base_delay_milliseconds h
          \<or> hs_retry_max_delay_milliseconds h > MAX_HTTP_RETRY_DELAY_MILLISECONDS))
       ''server.retry_max_delay_milliseconds'')))))))))))"

definition contains_text :: "string \<Rightarrow> string \<Rightarrow> bool" where
  "contains_text s p = list_ex (prefix p) (suffixes s)"

definition validate_wallpaper_command :: "string list \<Rightarrow> unit res" where
  "validate_wallpaper_command command =
     (case command of
        [] \<Rightarrow> Inr ()
      | program # arguments \<Rightarrow>
          andthen (ensure (trim program \<noteq> []) ''wallpaper.command executable must not be empty'') (\<lambda>_.
          andthen (ensure (\<not> contains_text program ''{path}'')
            ''wallpaper.command executable cannot contain path'') (\<lambda>_.
          andthen (ensure (list_ex (\<lambda>p. p = ''{path}'') arguments)
            ''wallpaper.command must contain a standalone path argument'') (\<lambda>_.
          ensure (\<not> list_ex (\<lambda>p. contains_text p ''{path}'' \<and> p \<noteq> ''{path}'') arguments)
            ''path must be a standalone wallpaper.command argument''))))"

definition validate_server :: "url_library \<Rightarrow> server_config \<Rightarrow> unit res" where
  "validate_server U v =
     (case v of
        Filesystem inbox_dir \<Rightarrow>
          andthen (ensure (inbox_dir \<noteq> []) ''server.inbox_dir must not be empty'') (\<lambda>_.
          ensure (is_absolute inbox_dir) ''server.inbox_dir must be an absolute path'')
      | HttpServer h \<Rightarrow> validate_http_server U h)"

definition validate_directory_sync :: "externals \<Rightarrow> url_library \<Rightarrow> config \<Rightarrow> unit res" where
  "validate_directory_sync X U c =
     (case cf_server c of
        Filesystem _ \<Rightarrow> Inl (Bail ''Directory sync requires a paired HTTP Folder.'')
      | HttpServer h \<Rightarrow>
          andthen (of_option ''invalid URL'' (url_parse U (hs_base_url h))) (\<lambda>u.
          andthen (ensure (case strip_prefix ''/f/'' (trim_end_slashes (url_path u)) of
               None \<Rightarrow> False | Some i \<Rightarrow> uuid_canonical X i)
            ''Directory sync requires a scoped URL.'') (\<lambda>_.
          andthen (ensure (cf_wallpaper_command c = [])
            ''Directory sync does not run wallpaper commands.'') (\<lambda>_.
          ensure (cf_max_file_size_bytes c = DEFAULT_MAX_FILE_SIZE_BYTES)
            ''Directory sync currently requires the 100 MiB file limit.''))))"

definition config_validate :: "externals \<Rightarrow> url_library \<Rightarrow> config \<Rightarrow> unit res" where
  "config_validate X U c =
     andthen (ensure (cf_schema_version c = CONFIG_SCHEMA_VERSION) ''unsupported config schema version'') (\<lambda>_.
     andthen (ensure (\<not> (cf_device_id c = [] \<or> length (cf_device_id c) > 128
          \<or> \<not> list_all (\<lambda>b. is_ascii_alphanumeric b \<or> b = CHR ''-'' \<or> b = CHR ''_'') (cf_device_id c)))
       ''device_id must contain 1-128 ASCII letters or digits'') (\<lambda>_.
     andthen (validate_server U (cf_server c)) (\<lambda>_.
     andthen (if cf_directory_sync c then validate_directory_sync X U c else Inr ()) (\<lambda>_.
     andthen (ensure (cf_library_dir c \<noteq> []) ''storage.library_dir must not be empty'') (\<lambda>_.
     andthen (ensure (is_absolute (cf_library_dir c)) ''storage.library_dir must be an absolute path'') (\<lambda>_.
     andthen (ensure (cf_state_file c \<noteq> []) ''storage.state_file must not be empty'') (\<lambda>_.
     andthen (ensure (is_absolute (cf_state_file c)) ''storage.state_file must be an absolute path'') (\<lambda>_.
     andthen (ensure (cf_max_file_size_bytes c \<noteq> 0) ''limits.max_file_size_bytes must be greater than zero'') (\<lambda>_.
     andthen (validate_wallpaper_command (cf_wallpaper_command c)) (\<lambda>_.
     andthen (ensure (cf_wallpaper_timeout c \<noteq> 0) ''wallpaper.timeout_seconds must be greater than zero'') (\<lambda>_.
     ensure (cf_wallpaper_timeout c \<le> MAX_WALLPAPER_TIMEOUT_SECONDS)
       ''wallpaper.timeout_seconds is too large'')))))))))))"

section \<open>Facts\<close>

lemma absolute_path_ok:
  assumes "absolute_path cwd p = Inr q" and "\<forall>d. cwd = Some d \<longrightarrow> is_absolute d"
  shows "is_absolute q"
  using assms by (cases cwd) (auto simp: absolute_path_def path_join_def is_absolute_def split: if_splits)

lemma path_join_absolute: "is_absolute b \<Longrightarrow> is_absolute (path_join b p)"
  by (cases b) (auto simp: path_join_def is_absolute_def)

lemma absolute_nonempty: "is_absolute p \<Longrightarrow> p \<noteq> []"
  by (auto simp: is_absolute_def)

lemma default_data_dir_ok:
  "default_data_dir e = Inr q \<Longrightarrow> \<forall>d. ev_cwd e = Some d \<longrightarrow> is_absolute d \<Longrightarrow> is_absolute q"
  by (auto simp: default_data_dir_def andthen_Inr dest: absolute_path_ok split: option.splits)

end
