(* ===== verification/Source.thy ===== *)
theory Source
  imports Samples "HOL-Library.Product_Lexorder"
begin

text \<open>
  Where deliveries come from: the interface \<open>DeliverySource\<close> of \<open>src/source.rs\<close> and its
  implementation over a local inbox directory, \<open>FilesystemSource\<close>. The inbox is a directory tree,
  JSON is a pair of functions. \<open>canonicalize\<close> is an argument that tells which links of the inbox
  lead to a place inside it.
\<close>

section \<open>The interface\<close>

record source_issue =
  si_item :: string
  si_message :: error

record source_scan =
  sc_deliveries :: "delivery list"
  sc_issues :: "source_issue list"

text \<open>
  \<open>'w\<close> is the world outside the program. An opened payload is what reading it gives. The delay
  before another attempt, in milliseconds, may be random.
\<close>

record 'w delivery_source =
  scan_pending :: "nat \<Rightarrow> ('w, source_scan) op"
  open_payload :: "delivery \<Rightarrow> ('w, read_event list) op"
  acknowledge :: "string \<Rightarrow> string \<Rightarrow> ('w, unit) op"
  payload_retry_delay :: "error \<Rightarrow> nat \<Rightarrow> 'w \<Rightarrow> nat option \<times> 'w"

definition no_retry :: "error \<Rightarrow> nat \<Rightarrow> 'w \<Rightarrow> nat option \<times> 'w" where
  "no_retry e failed_attempts w = (None, w)"

definition by_time_and_id :: "delivery \<Rightarrow> nat \<times> string" where
  "by_time_and_id d = ((case d_created_at_unix d of None \<Rightarrow> 0 | Some t \<Rightarrow> t), d_id d)"

section \<open>The inbox\<close>

definition MAX_MANIFEST_SIZE_BYTES :: nat where "MAX_MANIFEST_SIZE_BYTES = 64 * 1024"
definition MAX_ACK_SIZE_BYTES :: nat where "MAX_ACK_SIZE_BYTES = 16 * 1024"

record ack_marker =
  ak_id :: string
  ak_sha256 :: string
  ak_acknowledged_at_unix :: nat

record inbox_codec =
  manifest_json :: "delivery \<Rightarrow> bytes"
  parse_manifest :: "bytes \<Rightarrow> delivery option"
  ack_json :: "ack_marker \<Rightarrow> bytes"
  parse_ack :: "bytes \<Rightarrow> ack_marker option"

definition newline :: bytes where "newline = [CHR 0x0A]"

definition json_name :: "string \<Rightarrow> string" where
  "json_name i = i @ ''.json''"

text \<open>\<open>Path::extension\<close> of a file name.\<close>

definition path_extension :: "string \<Rightarrow> string option" where
  "path_extension name =
     (case rsplit_once (CHR ''.'') name of
        None \<Rightarrow> None
      | Some (stem, e) \<Rightarrow> if stem = [] then None else Some e)"

definition read_limited :: "node option \<Rightarrow> nat \<Rightarrow> bytes res" where
  "read_limited x mx =
     (case x of
        Some (File b) \<Rightarrow> if length b > mx then Inl (Bail ''exceeds the byte safety limit'') else Inr b
      | Some (Link (Some b)) \<Rightarrow> if length b > mx then Inl (Bail ''exceeds the byte safety limit'') else Inr b
      | _ \<Rightarrow> Inl (Bail ''failed to open''))"

definition ACK_DIR :: string where "ACK_DIR = ''.acks''"

definition read_ack :: "inbox_codec \<Rightarrow> string \<Rightarrow> dir \<Rightarrow> ack_marker option res" where
  "read_ack K i inbox =
     (case map_of inbox ACK_DIR of
        None \<Rightarrow> Inr None
      | Some (Dir es) \<Rightarrow>
          (case map_of es (json_name i) of
             None \<Rightarrow> Inr None
           | Some (File b) \<Rightarrow>
               andthen (read_limited (Some (File b)) MAX_ACK_SIZE_BYTES) (\<lambda>raw.
               andthen (of_option ''failed to parse ACK marker'' (parse_ack K raw)) (\<lambda>m. Inr (Some m)))
           | Some _ \<Rightarrow> Inl (Bail ''ACK marker is not a regular file''))
      | Some _ \<Rightarrow> Inl (Bail ''ACK path is not a real directory''))"

definition read_manifest :: "inbox_codec \<Rightarrow> nat \<Rightarrow> node option \<Rightarrow> delivery res" where
  "read_manifest K mx x =
     andthen (read_limited x MAX_MANIFEST_SIZE_BYTES) (\<lambda>raw.
     andthen (of_option ''failed to parse manifest'' (parse_manifest K raw)) (\<lambda>d.
     andthen (validate_delivery_metadata d mx) (\<lambda>_.
     andthen (ensure (d_payload d \<noteq> []) ''filesystem delivery is missing payload'') (\<lambda>_.
     Inr d))))"

text \<open>The directory listing: symbolic links are reported, the regular manifests are sorted.\<close>

definition link_issues :: "dir \<Rightarrow> source_issue list" where
  "link_issues inbox =
     List.map (\<lambda>(n, x). \<lparr>si_item = n, si_message = Bail ''manifest symlinks are not allowed''\<rparr>)
       (List.filter (\<lambda>(n, x). path_extension n = Some ''json'' \<and> (case x of Link _ \<Rightarrow> True | _ \<Rightarrow> False)) inbox)"

definition manifest_names :: "dir \<Rightarrow> string list" where
  "manifest_names inbox =
     sort (List.map fst
       (List.filter (\<lambda>(n, x). path_extension n = Some ''json'' \<and> is_regular x) inbox))"

record scan_state =
  ss_by_id :: "(string \<times> delivery) list"
  ss_conflicts :: "string list"
  ss_issues :: "source_issue list"

definition scan_issue :: "string \<Rightarrow> error \<Rightarrow> scan_state \<Rightarrow> scan_state" where
  "scan_issue item e st = st\<lparr>ss_issues := ss_issues st @ [\<lparr>si_item = item, si_message = e\<rparr>]\<rparr>"

definition scan_delivery :: "string \<Rightarrow> delivery \<Rightarrow> scan_state \<Rightarrow> scan_state" where
  "scan_delivery item d st =
     (case map_of (ss_by_id st) (d_id d) of
        Some previous \<Rightarrow>
          scan_issue item (Bail ''duplicate delivery id'') (st\<lparr>ss_conflicts := d_id d # ss_conflicts st\<rparr>)
      | None \<Rightarrow> st\<lparr>ss_by_id := bt_insert (d_id d) d (ss_by_id st)\<rparr>)"

definition scan_manifest ::
    "inbox_codec \<Rightarrow> nat \<Rightarrow> dir \<Rightarrow> string \<Rightarrow> scan_state \<Rightarrow> scan_state" where
  "scan_manifest K mx inbox item st =
     (case read_manifest K mx (map_of inbox item) of
        Inl e \<Rightarrow> scan_issue item e st
      | Inr d \<Rightarrow>
          (case read_ack K (d_id d) inbox of
             Inl e \<Rightarrow> scan_issue item e st
           | Inr (Some m) \<Rightarrow>
               if ak_id m = d_id d \<and> ak_sha256 m = d_sha256 d then st
               else scan_issue item (Bail ''ACK marker conflicts with delivery'') st
           | Inr None \<Rightarrow> scan_delivery item d st))"

definition scan_result :: "scan_state \<Rightarrow> source_scan" where
  "scan_result st =
     \<lparr>sc_deliveries = sort_key by_time_and_id
        (List.map snd (List.filter (\<lambda>(i, d). i \<notin> set (ss_conflicts st)) (ss_by_id st))),
      sc_issues = ss_issues st\<rparr>"

definition inbox_scan_pending :: "inbox_codec \<Rightarrow> nat \<Rightarrow> (dir, source_scan) op" where
  "inbox_scan_pending K mx inbox =
     (Inr (scan_result (fold (scan_manifest K mx inbox) (manifest_names inbox)
        \<lparr>ss_by_id = [], ss_conflicts = [], ss_issues = link_issues inbox\<rparr>)), inbox)"

definition inbox_open_payload ::
    "(string \<Rightarrow> bool) \<Rightarrow> delivery \<Rightarrow> (dir, read_event list) op" where
  "inbox_open_payload inside d =
     bindo (lifto (validate_delivery_id (d_id d))) (\<lambda>_.
     readso (\<lambda>inbox.
       case map_of inbox (d_payload d) of
         None \<Rightarrow> Inl (Bail ''failed to resolve payload'')
       | Some (Link None) \<Rightarrow> Inl (Bail ''failed to resolve payload'')
       | Some (Link (Some b)) \<Rightarrow>
           if inside (d_payload d) then Inr (file_reads (length b) b)
           else Inl (Bail ''payload resolves outside the mock inbox'')
       | Some (File b) \<Rightarrow> Inr (file_reads (length b) b)
       | Some _ \<Rightarrow> Inl (Bail ''payload is not a regular file'')))"

definition inbox_acknowledge :: "inbox_codec \<Rightarrow> nat \<Rightarrow> string \<Rightarrow> string \<Rightarrow> (dir, unit) op" where
  "inbox_acknowledge K now i sha =
     bindo (lifto (validate_delivery_id i)) (\<lambda>_.
     bindo (lifto (ensure (\<not> (length sha \<noteq> 64 \<or> \<not> list_all is_ascii_hexdigit sha))
       ''invalid SHA-256 digest'')) (\<lambda>_.
     bindo (readso (read_ack K i)) (\<lambda>found.
       case found of
         Some m \<Rightarrow>
           if ak_id m = i \<and> ak_sha256 m = sha then retn ()
           else fails (Bail ''existing ACK marker has conflicting metadata'')
       | None \<Rightarrow>
           bindo (ensure_child_directory ACK_DIR) (\<lambda>_.
           modifyo (put_obj ACK_DIR (json_name i)
             (File (ack_json K \<lparr>ak_id = i, ak_sha256 = sha, ak_acknowledged_at_unix = now\<rparr> @ newline)))))))"

text \<open>
  \<open>input\<close> is the file to enqueue with its name, \<open>None\<close> when that is not valid UTF-8. It does not
  change during the call.
\<close>

definition inbox_enqueue ::
    "externals \<Rightarrow> inbox_codec \<Rightarrow> nat \<Rightarrow> string \<Rightarrow> node option \<Rightarrow> string option \<Rightarrow> nat \<Rightarrow> (dir, delivery) op" where
  "inbox_enqueue X K now uuid input name mx =
     bindo (lifto (inspect_file X input mx)) (\<lambda>i.
     bindo (lifto (of_option ''mock input file name must be valid UTF-8'' name)) (\<lambda>original_name.
       let d = \<lparr>d_schema_version = MANIFEST_SCHEMA_VERSION, d_id = uuid, d_original_name = original_name,
             d_payload = uuid @ ''.payload'', d_size = in_size i, d_sha256 = in_sha256 i,
             d_media_type = in_media_type i, d_created_at_unix = Some now\<rparr> in
     bindo (lifto (validate_delivery_metadata d mx)) (\<lambda>_.
     bindo (lifto (of_option ''failed to open'' (case input of
         Some (File b) \<Rightarrow> Some b | Some (Link (Some b)) \<Rightarrow> Some b | _ \<Rightarrow> None))) (\<lambda>b.
     bindo (readso (\<lambda>inbox. ensure (map_of inbox (d_payload d) = None) ''failed to publish mock payload'')) (\<lambda>_.
     bindo (modifyo (AList.update (d_payload d) (File b))) (\<lambda>_.
     bindo (readso (\<lambda>inbox. ensure (case map_of inbox (json_name uuid) of Some (Dir _) \<Rightarrow> False | _ \<Rightarrow> True) ''failed to replace'')) (\<lambda>_.
     bindo (modifyo (AList.update (json_name uuid) (File (manifest_json K d @ newline)))) (\<lambda>_.
     retn d))))))))"

section \<open>What a scan lists\<close>

text \<open>The valid manifests without a marker, in the order they are read.\<close>

definition pending_manifest :: "inbox_codec \<Rightarrow> nat \<Rightarrow> dir \<Rightarrow> string \<Rightarrow> delivery option" where
  "pending_manifest K mx inbox n =
     (case read_manifest K mx (map_of inbox n) of
        Inl _ \<Rightarrow> None
      | Inr d \<Rightarrow> if read_ack K (d_id d) inbox = Inr None then Some d else None)"

definition pending_deliveries :: "inbox_codec \<Rightarrow> nat \<Rightarrow> dir \<Rightarrow> delivery list" where
  "pending_deliveries K mx inbox = List.map_filter (pending_manifest K mx inbox) (manifest_names inbox)"

text \<open>Deliveries whose id no other one in the list has.\<close>

definition unambiguous :: "delivery list \<Rightarrow> delivery set" where
  "unambiguous ds = {d. List.filter (\<lambda>e. d_id e = d_id d) ds = [d]}"

definition listed :: "(string \<times> delivery) list \<Rightarrow> string list \<Rightarrow> delivery list" where
  "listed m cs = List.map snd (List.filter (\<lambda>(i, d). i \<notin> set cs) m)"

text \<open>After \<open>ds\<close> the map holds the first delivery of each id, the conflicts the ids met again.\<close>

definition scanned :: "delivery list \<Rightarrow> (string \<times> delivery) list \<Rightarrow> string list \<Rightarrow> bool" where
  "scanned ds m cs \<longleftrightarrow> bt_sorted m
     \<and> (\<forall>i. map_of m i = List.find (\<lambda>d. d_id d = i) ds)
     \<and> set cs = {i. 2 \<le> length (List.filter (\<lambda>d. d_id d = i) ds)}"

lemma find_as_filter: "List.find P xs = (case List.filter P xs of [] \<Rightarrow> None | x # _ \<Rightarrow> Some x)"
  by (induction xs) auto

lemma listed_scanned:
  assumes "scanned ds m cs"
  shows "set (listed m cs) = unambiguous ds" and "distinct (List.map d_id (listed m cs))"
proof -
  have dm: "distinct (List.map fst m)" using assms by (simp add: scanned_def bt_sorted_distinct)
  then have mem: "(i, d) \<in> set m \<longleftrightarrow> List.find (\<lambda>e. d_id e = i) ds = Some d" for i d
    using assms by (metis map_of_eq_Some_iff scanned_def)
  have key: "(i, d) \<in> set m \<Longrightarrow> d_id d = i" for i d
    using mem [of i d] find_SomeD [of "\<lambda>e. d_id e = i" ds d] by simp
  have one: "(i, d) \<in> set m \<and> i \<notin> set cs \<longleftrightarrow> List.filter (\<lambda>e. d_id e = i) ds = [d]" for i d
  proof -
    have "i \<notin> set cs \<longleftrightarrow> length (List.filter (\<lambda>e. d_id e = i) ds) \<le> 1"
      using assms by (simp add: scanned_def not_le) linarith
    then show ?thesis
      by (cases "List.filter (\<lambda>e. d_id e = i) ds") (auto simp: mem find_as_filter)
  qed
  show "set (listed m cs) = unambiguous ds"
  proof (rule set_eqI)
    fix d
    have "d \<in> set (listed m cs) \<longleftrightarrow> (\<exists>i. (i, d) \<in> set m \<and> i \<notin> set cs)"
      by (force simp: listed_def)
    also have "\<dots> \<longleftrightarrow> (d_id d, d) \<in> set m \<and> d_id d \<notin> set cs" using key by blast
    finally show "d \<in> set (listed m cs) \<longleftrightarrow> d \<in> unambiguous ds"
      by (simp add: one unambiguous_def)
  qed
  have "List.map d_id (listed m cs) = List.map fst (List.filter (\<lambda>(i, d). i \<notin> set cs) m)"
    unfolding listed_def map_map by (rule map_cong) (auto dest: key)
  then show "distinct (List.map d_id (listed m cs))"
    using dm by (simp add: distinct_map_filter)
qed

lemma scanned_Nil: "scanned [] [] []"
  by (simp add: scanned_def)

lemma scanned_new:
  "scanned ds m cs \<Longrightarrow> map_of m (d_id d) = None \<Longrightarrow> scanned (ds @ [d]) (bt_insert (d_id d) d m) cs"
  by (auto simp: scanned_def bt_sorted_insert find_append find_as_filter split: option.splits list.splits)

lemma scanned_again:
  assumes "scanned ds m cs" and "map_of m (d_id d) = Some e"
  shows "scanned (ds @ [d]) m (d_id d # cs)"
proof -
  obtain x xs where "List.filter (\<lambda>e. d_id e = d_id d) ds = x # xs"
    using assms by (auto simp: scanned_def find_as_filter split: list.splits)
  then show ?thesis
    using assms by (auto simp: scanned_def find_append split: option.splits)
qed

lemma scan_delivery_scanned:
  assumes "scanned ds (ss_by_id st) (ss_conflicts st)"
  shows "scanned (ds @ [d]) (ss_by_id (scan_delivery item d st)) (ss_conflicts (scan_delivery item d st))"
  using assms
  by (cases "map_of (ss_by_id st) (d_id d)")
    (simp_all add: scan_delivery_def scan_issue_def scanned_new scanned_again)

lemma scan_manifest_scanned:
  assumes "scanned ds (ss_by_id st) (ss_conflicts st)"
  shows "scanned (ds @ List.map_filter (pending_manifest K mx inbox) [n])
      (ss_by_id (scan_manifest K mx inbox n st)) (ss_conflicts (scan_manifest K mx inbox n st))"
proof (cases "read_manifest K mx (map_of inbox n)")
  case (Inl e)
  with assms show ?thesis
    by (simp add: scan_manifest_def pending_manifest_def scan_issue_def List.map_filter_def)
next
  case (Inr d)
  show ?thesis
  proof (cases "read_ack K (d_id d) inbox = Inr None")
    case True
    with assms Inr show ?thesis
      by (simp add: scan_manifest_def pending_manifest_def scan_delivery_scanned List.map_filter_def)
  next
    case False
    with assms Inr show ?thesis
      by (auto simp: scan_manifest_def pending_manifest_def scan_issue_def List.map_filter_def
          split: sum.splits option.splits)
  qed
qed

lemma fold_scan_manifest:
  "scanned ds (ss_by_id st) (ss_conflicts st) \<Longrightarrow>
     scanned (ds @ List.map_filter (pending_manifest K mx inbox) ns)
       (ss_by_id (fold (scan_manifest K mx inbox) ns st))
       (ss_conflicts (fold (scan_manifest K mx inbox) ns st))"
proof (induction ns arbitrary: ds st)
  case Nil
  then show ?case by (simp add: List.map_filter_def)
next
  case (Cons n ns)
  have e: "List.map_filter (pending_manifest K mx inbox) (n # ns) =
      List.map_filter (pending_manifest K mx inbox) [n] @ List.map_filter (pending_manifest K mx inbox) ns"
    by (simp add: List.map_filter_def)
  show ?case
    unfolding e append_assoc [symmetric] fold.simps o_apply
    by (rule Cons.IH [OF scan_manifest_scanned [OF Cons.prems]])
qed

lemma scan_result_listed:
  "sc_deliveries (scan_result st) = sort_key by_time_and_id (listed (ss_by_id st) (ss_conflicts st))"
  by (simp add: scan_result_def listed_def)

lemma inbox_scan_listed:
  assumes "inbox_scan_pending K mx inbox = (Inr scan, t)"
  shows "set (sc_deliveries scan) = unambiguous (pending_deliveries K mx inbox)"
    and "distinct (List.map d_id (sc_deliveries scan))"
    and "sorted (List.map by_time_and_id (sc_deliveries scan))"
proof -
  let ?st = "fold (scan_manifest K mx inbox) (manifest_names inbox)
      \<lparr>ss_by_id = [], ss_conflicts = [], ss_issues = link_issues inbox\<rparr>"
  have "scanned ([] @ pending_deliveries K mx inbox) (ss_by_id ?st) (ss_conflicts ?st)"
    unfolding pending_deliveries_def by (rule fold_scan_manifest) (simp add: scanned_Nil)
  then have s: "scanned (pending_deliveries K mx inbox) (ss_by_id ?st) (ss_conflicts ?st)" by simp
  have e: "scan = scan_result ?st" using assms by (auto simp: inbox_scan_pending_def)
  note l = listed_scanned [OF s]
  show "set (sc_deliveries scan) = unambiguous (pending_deliveries K mx inbox)"
    by (simp add: e scan_result_listed l)
  show "distinct (List.map d_id (sc_deliveries scan))"
    using l(2) by (simp add: e scan_result_listed distinct_map)
  show "sorted (List.map by_time_and_id (sc_deliveries scan))"
    by (simp add: e scan_result_listed)
qed

section \<open>Acknowledging\<close>

lemma map_filter_cong_names:
  "(\<And>n. n \<in> set ns \<Longrightarrow> f n = g n) \<Longrightarrow> List.map_filter f ns = List.map_filter g ns"
  by (induction ns) (auto simp: List.map_filter_def)

text \<open>What an acknowledgement leaves: every entry but the marker directory, and a marker for the id.\<close>

lemma filter_update_other:
  "(\<And>x. \<not> P (k, x)) \<Longrightarrow> List.filter P (AList.update k v m) = List.filter P m"
  by (induction m) auto

lemma acks_not_manifest: "path_extension ACK_DIR = None"
  by (simp add: path_extension_def ACK_DIR_def rsplit_once_def)

lemma json_name_inj [simp]: "json_name i = json_name j \<longleftrightarrow> i = j"
  by (simp add: json_name_def)

lemma read_ack_put:
  "read_ack K j (put_obj ACK_DIR (json_name i) (File b) t) =
     (if j = i then andthen (read_limited (Some (File b)) MAX_ACK_SIZE_BYTES) (\<lambda>raw.
        andthen (of_option ''failed to parse ACK marker'' (parse_ack K raw)) (\<lambda>m. Inr (Some m)))
      else (case map_of (child t ACK_DIR) (json_name j) of
             None \<Rightarrow> Inr None
           | Some (File b) \<Rightarrow>
               andthen (read_limited (Some (File b)) MAX_ACK_SIZE_BYTES) (\<lambda>raw.
               andthen (of_option ''failed to parse ACK marker'' (parse_ack K raw)) (\<lambda>m. Inr (Some m)))
           | Some _ \<Rightarrow> Inl (Bail ''ACK marker is not a regular file'')))"
  by (simp add: read_ack_def put_obj_def)

definition written_markers_read :: "inbox_codec \<Rightarrow> bool" where
  "written_markers_read K \<longleftrightarrow>
     (\<forall>m. valid_delivery_id (ak_id m) \<longrightarrow> length (ak_sha256 m) = 64 \<longrightarrow> ak_acknowledged_at_unix m \<le> u64_max \<longrightarrow>
        parse_ack K (ack_json K m @ newline) = Some m
        \<and> length (ack_json K m @ newline) \<le> MAX_ACK_SIZE_BYTES)"

text \<open>What an acknowledgement leaves: every manifest, and a marker for the id.\<close>

lemma inbox_acknowledge_ok:
  assumes "inbox_acknowledge K now i sha inbox = (Inr u, t)" and "written_markers_read K" and "now \<le> u64_max"
  shows "(\<exists>m. read_ack K i t = Inr (Some m) \<and> ak_id m = i \<and> ak_sha256 m = sha)
    \<and> (\<forall>n. n \<noteq> ACK_DIR \<longrightarrow> map_of t n = map_of inbox n)
    \<and> (\<forall>j. j \<noteq> i \<longrightarrow> read_ack K j t = read_ack K j inbox)
    \<and> manifest_names t = manifest_names inbox"
proof -
  have v: "valid_delivery_id i" "length sha = 64"
    using assms(1) by (auto simp: inbox_acknowledge_def op_ok ensure_def split: if_splits)
  obtain found where f: "read_ack K i inbox = Inr found"
    using assms(1) by (auto simp: inbox_acknowledge_def op_ok)
  show ?thesis
  proof (cases found)
    case (Some m)
    then show ?thesis
      using assms(1) f by (auto simp: inbox_acknowledge_def op_ok split: if_splits)
  next
    case None
    let ?m = "\<lparr>ak_id = i, ak_sha256 = sha, ak_acknowledged_at_unix = now\<rparr>"
    have m: "parse_ack K (ack_json K ?m @ newline) = Some ?m" "length (ack_json K ?m @ newline) \<le> MAX_ACK_SIZE_BYTES"
      using assms(2,3) v by (auto simp: written_markers_read_def)
    obtain r where r: "ensure_child_directory ACK_DIR inbox = (Inr (), r)"
        and t: "t = put_obj ACK_DIR (json_name i) (File (ack_json K ?m @ newline)) r"
      using assms(1) f None by (auto simp: inbox_acknowledge_def op_ok)
    have same: "n \<noteq> ACK_DIR \<Longrightarrow> map_of r n = map_of inbox n"
        "(n = ACK_DIR \<Longrightarrow> False) \<Longrightarrow> map_of t n = map_of r n" for n
      using r by (auto simp: t put_obj_def ensure_child_directory_def split: option.splits node.splits if_splits)
    have names: "manifest_names r = manifest_names inbox" "manifest_names t = manifest_names r"
      using r acks_not_manifest
      by (auto simp: t put_obj_def manifest_names_def filter_update_other ensure_child_directory_def
          split: option.splits node.splits if_splits)
    have new: "read_ack K i t = Inr (Some ?m)"
      using m by (simp add: t read_ack_put read_limited_def)
    have old: "read_ack K j t = read_ack K j inbox" if "j \<noteq> i" for j
      unfolding t read_ack_put using r that
      by (auto simp: read_ack_def ensure_child_directory_def child_def split: option.splits node.splits if_splits)
    show ?thesis using new old same names by auto
  qed
qed

lemma pending_deliveries_acknowledged:
  assumes "inbox_acknowledge K now i sha inbox = (Inr u, t)" and "written_markers_read K" and "now \<le> u64_max"
  shows "pending_deliveries K mx t = List.filter (\<lambda>d. d_id d \<noteq> i) (pending_deliveries K mx inbox)"
proof -
  note a = inbox_acknowledge_ok [OF assms]
  have p: "pending_manifest K mx t n =
      (case pending_manifest K mx inbox n of None \<Rightarrow> None | Some d \<Rightarrow> if d_id d = i then None else Some d)"
    if "n \<in> set (manifest_names inbox)" for n
  proof -
    have "n \<noteq> ACK_DIR" using that acks_not_manifest by (auto simp: manifest_names_def)
    then show ?thesis using a
      by (cases "read_manifest K mx (map_of inbox n)") (auto simp: pending_manifest_def)
  qed
  have "List.map_filter (\<lambda>n. case f n of None \<Rightarrow> None | Some d \<Rightarrow> if d_id d = i then None else Some d) ns
      = List.filter (\<lambda>d. d_id d \<noteq> i) (List.map_filter f ns)" for f :: "string \<Rightarrow> delivery option" and ns
    by (induction ns) (auto simp: List.map_filter_def split: option.splits)
  then show ?thesis
    using a by (simp add: pending_deliveries_def map_filter_cong_names [OF p])
qed

lemma unambiguous_filter:
  "unambiguous (List.filter (\<lambda>d. d_id d \<noteq> i) ds) = {d \<in> unambiguous ds. d_id d \<noteq> i}"
proof -
  have f: "List.filter (\<lambda>e. d_id e = d_id d) (List.filter (\<lambda>d. d_id d \<noteq> i) ds) =
      (if d_id d = i then [] else List.filter (\<lambda>e. d_id e = d_id d) ds)" for d
    by (induction ds) auto
  show ?thesis unfolding unambiguous_def f by auto
qed


text \<open>
  A scan of the inbox lists exactly the deliveries that one manifest describes and no other
  manifest shares the id of: valid under the size limit, with a payload name, and without an
  acknowledgement marker. Ids are distinct, the order is by creation time and then id, and a
  malformed manifest hides nothing but itself. Scanning changes nothing.
\<close>

theorem inbox_scan_contract:
  "\<exists>scan. inbox_scan_pending K mx inbox = (Inr scan, inbox)
     \<and> set (sc_deliveries scan) = unambiguous (pending_deliveries K mx inbox)
     \<and> distinct (List.map d_id (sc_deliveries scan))
     \<and> sorted (List.map by_time_and_id (sc_deliveries scan))
     \<and> list_all (\<lambda>d. valid_metadata d mx \<and> d_payload d \<noteq> [] \<and> read_ack K (d_id d) inbox = Inr None)
          (sc_deliveries scan)"
proof -
  obtain scan where s: "inbox_scan_pending K mx inbox = (Inr scan, inbox)"
    by (simp add: inbox_scan_pending_def)
  note l = inbox_scan_listed [OF s]
  have "valid_metadata d mx \<and> d_payload d \<noteq> [] \<and> read_ack K (d_id d) inbox = Inr None"
    if d: "d \<in> set (sc_deliveries scan)" for d
  proof -
    have "List.filter (\<lambda>e. d_id e = d_id d) (pending_deliveries K mx inbox) = [d]"
      using d l(1) by (simp add: unambiguous_def)
    then have "d \<in> set (pending_deliveries K mx inbox)"
      by (metis (no_types, lifting) filter_is_subset list.set_intros(1) subsetD)
    then obtain n where "pending_manifest K mx inbox n = Some d"
      by (auto simp: pending_deliveries_def List.map_filter_def)
    then show ?thesis
      by (auto simp: pending_manifest_def read_manifest_def andthen_Inr split: sum.splits if_splits)
  qed
  with s l show ?thesis by (auto simp: list_all_iff)
qed

text \<open>
  Acknowledging a delivery to the inbox takes it, and only it, off every later scan; it may be
  repeated with the same digest, which changes nothing, and it is refused with another digest.
  The marker is JSON that reads back as written and fits its size limit.
\<close>

theorem inbox_acknowledge_contract:
  assumes "written_markers_read K" and "now \<le> u64_max" and "inbox_acknowledge K now i sha inbox = (Inr u, t)"
  shows "(\<forall>later. inbox_acknowledge K later i sha t = (Inr (), t))
     \<and> (\<forall>later other. other \<noteq> sha \<longrightarrow> (\<exists>e. inbox_acknowledge K later i other t = (Inl e, t)))
     \<and> (\<forall>mx scan scan'. inbox_scan_pending K mx inbox = (Inr scan, inbox)
          \<and> inbox_scan_pending K mx t = (Inr scan', t)
          \<longrightarrow> set (sc_deliveries scan') = {d \<in> set (sc_deliveries scan). d_id d \<noteq> i})"
proof -
  note a = inbox_acknowledge_ok [OF assms(3,1,2)]
  obtain m where m: "read_ack K i t = Inr (Some m)" "ak_id m = i" "ak_sha256 m = sha" using a by blast
  have v: "validate_delivery_id i = Inr ()" "length sha = 64" "list_all is_ascii_hexdigit sha"
    using assms(3) by (auto simp: inbox_acknowledge_def op_ok ensure_def simp del: validate_delivery_id_ok split: if_splits)
  have same: "inbox_acknowledge K later i sha t = (Inr (), t)" for later
    using m v by (simp add: inbox_acknowledge_def bindo_def op_defs del: validate_delivery_id_ok)
  have other: "\<exists>e. inbox_acknowledge K later i sha' t = (Inl e, t)" if "sha' \<noteq> sha" for later sha'
    using m v that by (auto simp: inbox_acknowledge_def bindo_def op_defs ensure_def simp del: validate_delivery_id_ok)
  have listed: "set (sc_deliveries scan') = {d \<in> set (sc_deliveries scan). d_id d \<noteq> i}"
    if "inbox_scan_pending K mx inbox = (Inr scan, inbox)" "inbox_scan_pending K mx t = (Inr scan', t)" for mx scan scan'
    using inbox_scan_listed(1) [OF that(1)] inbox_scan_listed(1) [OF that(2)]
      pending_deliveries_acknowledged [OF assms(3,1,2)] by (simp add: unambiguous_filter)
  show ?thesis using same other listed by blast
qed

section \<open>A sample inbox\<close>

text \<open>A marker is its id, a space, the digest and 64 binary digits of the time.\<close>

definition bits_text :: "nat \<Rightarrow> string" where
  "bits_text n = List.map (\<lambda>k. if bit n k then CHR ''1'' else CHR ''0'') [0..<64]"

definition bits_value :: "string \<Rightarrow> nat" where
  "bits_value s = horner_sum of_bool 2 (List.map (\<lambda>c. c = CHR ''1'') s)"

definition sample_inbox_codec :: "delivery \<Rightarrow> inbox_codec" where
  "sample_inbox_codec d =
     \<lparr>manifest_json = \<lambda>e. if e = d then ''m'' else ''n'',
      parse_manifest = \<lambda>b. if b = ''m'' then Some d else None,
      ack_json = \<lambda>m. ak_id m @ '' '' @ ak_sha256 m @ bits_text (ak_acknowledged_at_unix m),
      parse_ack = \<lambda>b. (case split_once (CHR '' '') b of
         None \<Rightarrow> None
       | Some (i, r) \<Rightarrow> Some \<lparr>ak_id = i, ak_sha256 = take 64 r,
           ak_acknowledged_at_unix = bits_value (take 64 (drop 64 r))\<rparr>)\<rparr>"

lemma bits_roundtrip: "n \<le> u64_max \<Longrightarrow> bits_value (bits_text n) = n"
proof -
  assume "n \<le> u64_max"
  then have n: "n < 2 ^ 64" by (simp add: u64_max_def)
  have "List.map (\<lambda>c. c = CHR ''1'') (bits_text n) = List.map (bit n) [0..<64]"
    by (simp add: bits_text_def comp_def)
  then have "bits_value (bits_text n) = take_bit 64 n"
    by (simp add: bits_value_def horner_sum_bit_eq_take_bit)
  with n show ?thesis by (simp add: take_bit_nat_eq_self)
qed

lemma sample_markers: "written_markers_read (sample_inbox_codec d)"
proof -
  have "parse_ack (sample_inbox_codec d) (ack_json (sample_inbox_codec d) m @ newline) = Some m
      \<and> length (ack_json (sample_inbox_codec d) m @ newline) \<le> MAX_ACK_SIZE_BYTES"
    if "valid_delivery_id (ak_id m)" "length (ak_sha256 m) = 64" "ak_acknowledged_at_unix m \<le> u64_max" for m
  proof -
    have "CHR '' '' \<notin> set (ak_id m)" using that(1) by (auto simp: valid_delivery_id_iff ascii_defs)
    then have "split_once (CHR '' '') (ak_id m @ CHR '' '' # ak_sha256 m @ bits_text (ak_acknowledged_at_unix m) @ newline)
        = Some (ak_id m, ak_sha256 m @ bits_text (ak_acknowledged_at_unix m) @ newline)"
      by (simp add: split_once_eq)
    moreover have "length (bits_text n) = 64" for n by (simp add: bits_text_def)
    ultimately show ?thesis
      using that by (simp add: sample_inbox_codec_def bits_roundtrip MAX_ACK_SIZE_BYTES_def newline_def valid_delivery_id_iff)
  qed
  then show ?thesis by (simp add: written_markers_read_def)
qed

definition inbox_delivery :: delivery where
  "inbox_delivery = \<lparr>d_schema_version = MANIFEST_SCHEMA_VERSION, d_id = ''a'', d_original_name = ''a.png'',
     d_payload = ''p'', d_size = 12, d_sha256 = sample_sha, d_media_type = ''image/png'', d_created_at_unix = None\<rparr>"

definition sample_inbox :: dir where
  "sample_inbox = [(''m.json'', File ''m''), (''p'', File sample_png)]"

lemma sample_inbox_listed:
  "inbox_scan_pending (sample_inbox_codec inbox_delivery) 1024 sample_inbox
     = (Inr \<lparr>sc_deliveries = [inbox_delivery], sc_issues = []\<rparr>, sample_inbox)"
proof -
  have e: "path_extension ''m.json'' = Some ''json''" "path_extension ''p'' = None"
    by (simp_all add: path_extension_def rsplit_once_def)
  have v: "valid_metadata inbox_delivery 1024"
    by (simp add: valid_metadata_iff inbox_delivery_def valid_delivery_id_iff extension_for_media_type_def valid_component_iff ascii_defs)
  then have "validate_delivery_metadata inbox_delivery 1024 = Inr ()" by simp
  then have "read_manifest (sample_inbox_codec inbox_delivery) 1024 (Some (File ''m'')) = Inr inbox_delivery"
    by (simp add: read_manifest_def read_limited_def MAX_MANIFEST_SIZE_BYTES_def sample_inbox_codec_def del: validate_delivery_metadata_ok)
      (simp add: inbox_delivery_def)
  then show ?thesis
    by (simp add: inbox_scan_pending_def manifest_names_def link_issues_def sample_inbox_def e scan_manifest_def is_regular_def
        read_ack_def ACK_DIR_def scan_delivery_def scan_result_def)
qed

theorem inbox_acknowledge_contract_witness:
  "\<exists>t. inbox_acknowledge (sample_inbox_codec inbox_delivery) 7 ''a'' sample_sha sample_inbox = (Inr (), t)
     \<and> (\<exists>scan. inbox_scan_pending (sample_inbox_codec inbox_delivery) 1024 t = (Inr scan, t) \<and> sc_deliveries scan = [])"
proof -
  let ?K = "sample_inbox_codec inbox_delivery"
  have "valid_delivery_id ''a''" "list_all is_ascii_hexdigit sample_sha"
    using sample_sha_valid by (auto simp: valid_delivery_id_iff valid_sha256_iff list_all_iff ascii_defs)
  then have v: "validate_delivery_id ''a'' = Inr ()" "list_all is_ascii_hexdigit sample_sha" by simp_all
  obtain t where t: "inbox_acknowledge ?K 7 ''a'' sample_sha sample_inbox = (Inr (), t)"
    by (simp add: inbox_acknowledge_def v read_ack_def sample_inbox_def ACK_DIR_def ensure_child_directory_def bindo_def op_defs
        del: validate_delivery_id_ok)
  have n: "(7 :: nat) \<le> u64_max" by (simp add: u64_max_def)
  obtain scan where s: "inbox_scan_pending ?K 1024 t = (Inr scan, t)"
    by (simp add: inbox_scan_pending_def)
  have "set (sc_deliveries scan) = {}"
    using inbox_acknowledge_contract [OF sample_markers n t] s sample_inbox_listed by (simp add: inbox_delivery_def)
  with t s show ?thesis by auto
qed

end
