(* ===== verification/Wallpaper.thy ===== *)
theory Wallpaper
  imports Protocol
begin

text \<open>
  Running the desktop's wallpaper command, \<open>src/wallpaper.rs\<close>: its arguments, the wait with a
  deadline, and what each ending means. The operating system (starting, polling and killing a
  process, the clock in milliseconds) is an argument. An error tells whether the command may
  have had its effect.
\<close>

datatype apply_outcome = OutNotConfigured | OutApplied

record apply_error =
  ap_message :: error
  ap_uncertain :: bool

datatype poll = ExitedWith bool | StillRunning | WaitFailed

record 'w process_api =
  pa_deadline :: "nat \<Rightarrow> 'w \<Rightarrow> nat option \<times> 'w"
  pa_spawn :: "string list \<Rightarrow> 'w \<Rightarrow> bool \<times> 'w"
  pa_try_wait :: "'w \<Rightarrow> poll \<times> 'w"
  pa_now :: "'w \<Rightarrow> nat \<times> 'w"
  pa_sleep :: "nat \<Rightarrow> 'w \<Rightarrow> 'w"
  pa_kill :: "'w \<Rightarrow> bool \<times> 'w"

type_synonym 'w apply_result = "(apply_error + apply_outcome) \<times> 'w"

section \<open>Arguments\<close>

text \<open>\<open>str::replace\<close> of a nonempty pattern.\<close>

function replace_text :: "string \<Rightarrow> string \<Rightarrow> string \<Rightarrow> string" where
  "replace_text pat by_text s =
     (case s of
        [] \<Rightarrow> []
      | c # cs \<Rightarrow>
          if pat \<noteq> [] \<and> prefix pat s then by_text @ replace_text pat by_text (drop (length pat) s)
          else c # replace_text pat by_text cs)"
  by pat_completeness auto
termination
  by (relation "measure (\<lambda>(p, b, s). length s)") (auto simp: prefix_def)

declare replace_text.simps [simp del]

definition apply_argument :: "delivery_record \<Rightarrow> string \<Rightarrow> string" where
  "apply_argument r a =
     (if a = ''{path}'' then dr_stored_path r
      else replace_text ''{sha256}'' (dr_sha256 r) (replace_text ''{id}'' (dr_id r) a))"

section \<open>Waiting\<close>

definition certain :: "string \<Rightarrow> apply_error" where
  "certain msg = \<lparr>ap_message = Bail msg, ap_uncertain = False\<rparr>"

definition uncertain :: "string \<Rightarrow> apply_error" where
  "uncertain msg = \<lparr>ap_message = Bail msg, ap_uncertain = True\<rparr>"

fun wait_loop :: "'w process_api \<Rightarrow> nat \<Rightarrow> nat \<Rightarrow> 'w \<Rightarrow> 'w apply_result" where
  "wait_loop P deadline 0 w = (Inl (uncertain ''out of fuel''), w)"
| "wait_loop P deadline (Suc n) w =
     (case pa_try_wait P w of
        (ExitedWith True, w1) \<Rightarrow> (Inr OutApplied, w1)
      | (ExitedWith False, w1) \<Rightarrow> (Inl (certain ''wallpaper command exited with status''), w1)
      | (WaitFailed, w1) \<Rightarrow> (Inl (uncertain ''failed to wait for wallpaper command''), w1)
      | (StillRunning, w1) \<Rightarrow>
          (case pa_now P w1 of
             (t, w2) \<Rightarrow>
               if t < deadline then wait_loop P deadline n (pa_sleep P 50 w2)
               else
                 (case pa_kill P w2 of
                    (True, w3) \<Rightarrow> (Inl (uncertain ''exceeded the timeout and was killed''), w3)
                  | (False, w3) \<Rightarrow> (Inl (uncertain ''exceeded the timeout and could not be killed''), w3))))"

text \<open>A poll every 50 milliseconds of the timeout, the last one after the deadline.\<close>

definition wait_fuel :: "nat \<Rightarrow> nat" where
  "wait_fuel seconds = 20 * seconds + 2"

definition apply_wallpaper ::
    "'w process_api \<Rightarrow> string list \<Rightarrow> nat \<Rightarrow> delivery_record \<Rightarrow> 'w \<Rightarrow> 'w apply_result" where
  "apply_wallpaper P command timeout r w =
     (case command of
        [] \<Rightarrow> (Inr OutNotConfigured, w)
      | program # arguments \<Rightarrow>
          (case pa_deadline P timeout w of
             (None, w1) \<Rightarrow> (Inl (certain ''wallpaper timeout is too large for the system clock''), w1)
           | (Some deadline, w1) \<Rightarrow>
               (case pa_spawn P (program # List.map (apply_argument r) arguments) w1 of
                  (False, w2) \<Rightarrow> (Inl (certain ''failed to start wallpaper command''), w2)
                | (True, w2) \<Rightarrow> wait_loop P deadline (wait_fuel timeout) w2)))"

section \<open>Facts\<close>

text \<open>
  A clock that does not go back and that a sleep advances, as \<open>Instant\<close> and \<open>thread::sleep\<close> are
  documented; \<open>pa_deadline\<close> adds the timeout to the present.
\<close>

definition clock_runs :: "'w process_api \<Rightarrow> ('w \<Rightarrow> nat) \<Rightarrow> bool" where
  "clock_runs P clock \<longleftrightarrow>
     (\<forall>w. clock w \<le> clock (snd (pa_try_wait P w)) \<and> fst (pa_now P w) = clock (snd (pa_now P w))
        \<and> clock w \<le> clock (snd (pa_now P w)) \<and> (\<forall>n. clock w + n \<le> clock (pa_sleep P n w))
        \<and> (\<forall>a. clock w \<le> clock (snd (pa_spawn P a w)))
        \<and> (\<forall>n d. fst (pa_deadline P n w) = Some d \<longrightarrow> d \<le> clock (snd (pa_deadline P n w)) + 1000 * n))"

lemma wait_loop_fuel:
  assumes "clock_runs P clock" and "deadline \<le> clock w + 50 * n"
  shows "wait_loop P deadline (Suc n + k) w = wait_loop P deadline (Suc n) w"
  using assms(2)
proof (induction n arbitrary: w)
  case 0
  obtain p w1 where p: "pa_try_wait P w = (p, w1)" by fastforce
  obtain t w2 where t: "pa_now P w1 = (t, w2)" by fastforce
  have "clock w \<le> clock w1 \<and> t = clock w2 \<and> clock w1 \<le> clock w2"
    using assms(1) p t unfolding clock_runs_def by (metis fst_conv snd_conv)
  then have "\<not> t < deadline" using 0 by simp
  then show ?case by (simp add: p t split: poll.split bool.split)
next
  case (Suc n)
  obtain p w1 where p: "pa_try_wait P w = (p, w1)" by fastforce
  obtain t w2 where t: "pa_now P w1 = (t, w2)" by fastforce
  have "clock w \<le> clock w1 \<and> clock w1 \<le> clock w2 \<and> clock w2 + 50 \<le> clock (pa_sleep P 50 w2)"
    using assms(1) p t unfolding clock_runs_def by (metis snd_conv)
  then have "deadline \<le> clock (pa_sleep P 50 w2) + 50 * n" using Suc.prems by simp
  from Suc.IH [OF this]
  show ?case by (simp add: p t split: poll.split bool.split)
qed

text \<open>
  Waiting for the wallpaper command ends: between the start of the command and the deadline
  there are at most 20 polls a second of the timeout, and two more. The result of
  \<open>apply_wallpaper\<close> is therefore that of a loop without a bound: every larger number of polls
  gives the same.
\<close>

theorem wallpaper_wait_ends:
  assumes "clock_runs P clock" and "pa_deadline P timeout w = (Some deadline, w1)"
    and "pa_spawn P (program # List.map (apply_argument r) arguments) w1 = (True, w2)"
  shows "apply_wallpaper P (program # arguments) timeout r w = wait_loop P deadline (wait_fuel timeout + k) w2"
proof -
  have "deadline \<le> clock w1 + 1000 * timeout" "clock w1 \<le> clock w2"
    using assms unfolding clock_runs_def by (metis fst_conv snd_conv)+
  then have "deadline \<le> clock w2 + 50 * (20 * timeout + 1)" by simp
  from wait_loop_fuel [OF assms(1) this, of k] assms(2,3) show ?thesis
    by (simp add: apply_wallpaper_def wait_fuel_def eval_nat_numeral)
qed

text \<open>A process that never exits, with a clock that counts the milliseconds slept.\<close>

definition endless_process :: "nat process_api" where
  "endless_process = \<lparr>pa_deadline = \<lambda>n w. (Some (w + 1000 * n), w), pa_spawn = \<lambda>a w. (True, w),
     pa_try_wait = \<lambda>w. (StillRunning, w), pa_now = \<lambda>w. (w, w), pa_sleep = \<lambda>n w. w + n, pa_kill = \<lambda>w. (True, w)\<rparr>"

theorem wallpaper_wait_ends_witness:
  "\<forall>r k. apply_wallpaper endless_process [''w''] 1 r 0 = wait_loop endless_process 1000 (wait_fuel 1 + k) 0"
proof (intro allI)
  fix r k
  have "clock_runs endless_process id" by (simp add: clock_runs_def endless_process_def)
  then show "apply_wallpaper endless_process [''w''] 1 r 0 = wait_loop endless_process 1000 (wait_fuel 1 + k) 0"
    by (rule wallpaper_wait_ends) (simp_all add: endless_process_def)
qed

end
