(* ===== verification/Sync.thy ===== *)
theory Sync
  imports Content Config Source Wallpaper
begin

text \<open>
  The receiving client: the state file of \<open>src/state.rs\<close> and the synchronisation of
  \<open>src/sync.rs\<close>. One record holds everything a run works on: the world outside, the library
  directory, the state file, and the local variables that the functions pass to each other by
  mutable reference (the state in memory, the summary, the progress of the current file). The
  events emitted so far are a list. \<open>rn_calls\<close> is a history variable: what was on disk
  each time a delivery was acknowledged or the wallpaper command started.
  Files outside the library do not change during a run; the exclusive locks are held throughout.
\<close>

section \<open>State\<close>

datatype state_file = NoFile | StateFile app_state | Unreadable

datatype write_outcome = Written | WrittenNotSynced | NotWritten

datatype sync_phase = Downloading | Verifying | Confirming | Retrying | ApplyingWallpaper

datatype sync_event =
    FileActive string string string nat sync_phase
  | FileSettled string "delivery_record option" "error option"

record file_progress =
  fp_id :: string
  fp_original_name :: string
  fp_media_type :: string
  fp_size :: nat
  fp_record :: "delivery_record option"
  fp_active :: bool

record sync_failure =
  sf_item :: string
  sf_message :: error

record sync_summary =
  sy_stale_removed :: nat
  sy_received :: nat
  sy_repaired :: nat
  sy_already_stored :: nat
  sy_acknowledged :: nat
  sy_applied :: nat
  sy_not_applicable :: nat
  sy_not_configured :: nat
  sy_failures :: "sync_failure list"

definition summary_default :: sync_summary where
  "summary_default = \<lparr>sy_stale_removed = 0, sy_received = 0, sy_repaired = 0, sy_already_stored = 0,
     sy_acknowledged = 0, sy_applied = 0, sy_not_applicable = 0, sy_not_configured = 0, sy_failures = []\<rparr>"

datatype call =
    AckCall string string state_file dir
  | ApplyCall string state_file dir

record 'w run =
  rn_world :: 'w
  rn_library :: dir
  rn_saved :: state_file
  rn_retired :: bool
  rn_state :: app_state
  rn_summary :: sync_summary
  rn_progress :: file_progress
  rn_events :: "sync_event list"
  rn_calls :: "call list"

text \<open>\<open>se_elsewhere\<close> is what is at a path outside the library.\<close>

record 'w setting =
  se_ext :: externals
  se_urls :: url_library
  se_config :: config
  se_source :: "'w delivery_source"
  se_process :: "'w process_api"
  se_now :: "'w \<Rightarrow> nat \<times> 'w"
  se_uuid :: "'w \<Rightarrow> string \<times> 'w"
  se_json_length :: "app_state \<Rightarrow> nat"
  se_write :: "app_state \<Rightarrow> 'w \<Rightarrow> write_outcome \<times> 'w"
  se_elsewhere :: "string \<Rightarrow> node option"

type_synonym ('w, 'a) sync = "('w run, 'a) op"

definition limit_of :: "'w setting \<Rightarrow> nat" where
  "limit_of V = cf_max_file_size_bytes (se_config V)"

section \<open>Access to the parts\<close>

definition on_library :: "(dir, 'a) op \<Rightarrow> ('w, 'a) sync" where
  "on_library m s = (case m (rn_library s) of (r, d) \<Rightarrow> (r, s\<lparr>rn_library := d\<rparr>))"

definition outside_op :: "('w, 'a) op \<Rightarrow> ('w, 'a) sync" where
  "outside_op m s = (case m (rn_world s) of (r, w) \<Rightarrow> (r, s\<lparr>rn_world := w\<rparr>))"

definition asking :: "('w \<Rightarrow> 'a \<times> 'w) \<Rightarrow> ('w, 'a) sync" where
  "asking f s = (case f (rn_world s) of (x, w) \<Rightarrow> (Inr x, s\<lparr>rn_world := w\<rparr>))"

definition unix_now :: "'w setting \<Rightarrow> ('w, nat) sync" where
  "unix_now V = asking (se_now V)"

definition count :: "(sync_summary \<Rightarrow> sync_summary) \<Rightarrow> ('w, unit) sync" where
  "count f = modifyo (\<lambda>s. s\<lparr>rn_summary := f (rn_summary s)\<rparr>)"

definition push_failure :: "string \<Rightarrow> error \<Rightarrow> ('w, unit) sync" where
  "push_failure item e = count (\<lambda>y. y\<lparr>sy_failures := sy_failures y @ [\<lparr>sf_item = item, sf_message = e\<rparr>]\<rparr>)"

definition record_of :: "string \<Rightarrow> 'w run \<Rightarrow> delivery_record option" where
  "record_of i s = map_of (as_deliveries (rn_state s)) i"

text \<open>\<open>state.deliveries.get_mut(&id).expect(..)\<close> is used for ids that are in the state.\<close>

definition edit_record :: "string \<Rightarrow> (delivery_record \<Rightarrow> delivery_record) \<Rightarrow> ('w, unit) sync" where
  "edit_record i f = modifyo (\<lambda>s. s\<lparr>rn_state := (rn_state s)\<lparr>as_deliveries :=
     List.map (\<lambda>(k, r). (k, if k = i then f r else r)) (as_deliveries (rn_state s))\<rparr>\<rparr>)"

definition snapshot :: "string \<Rightarrow> ('w, delivery_record) sync" where
  "snapshot i = readso (\<lambda>s. of_option ''no entry found for key'' (record_of i s))"

text \<open>The file at an absolute path.\<close>

definition file_at :: "'w setting \<Rightarrow> dir \<Rightarrow> string \<Rightarrow> node option" where
  "file_at V root p =
     (case strip_prefix (path_join (cf_library_dir (se_config V)) []) p of
        None \<Rightarrow> se_elsewhere V p
      | Some rest \<Rightarrow>
          (case split_once slash rest of
             None \<Rightarrow> se_elsewhere V p
           | Some (shard, name) \<Rightarrow> obj_at root shard name))"

definition stored_file_path :: "'w setting \<Rightarrow> string \<times> string \<Rightarrow> string" where
  "stored_file_path V p = path_join (path_join (cf_library_dir (se_config V)) (fst p)) (snd p)"

definition verify_record :: "'w setting \<Rightarrow> delivery_record \<Rightarrow> 'w run \<Rightarrow> unit res" where
  "verify_record V r s =
     verify_recorded_file (se_ext V) (file_at V (rn_library s) (dr_stored_path r)) (dr_size r)
       (dr_sha256 r) (dr_media_type r) (limit_of V)"

section \<open>The state file\<close>

definition MAX_STATE_SIZE_BYTES :: nat where "MAX_STATE_SIZE_BYTES = 64 * 1024 * 1024"

definition state_load :: "('w, app_state) sync" where
  "state_load = readso (\<lambda>s.
     case rn_saved s of
       NoFile \<Rightarrow> Inr app_state_default
     | Unreadable \<Rightarrow> Inl (Bail ''failed to read or parse state'')
     | StateFile st \<Rightarrow>
         andthen (ensure (as_schema_version st = STATE_SCHEMA_VERSION) ''unsupported state schema version'') (\<lambda>_.
         andthen (ensure (list_all (\<lambda>(i, r). i = dr_id r) (as_deliveries st))
           ''state maps a key to another delivery'') (\<lambda>_. Inr st)))"

definition state_save :: "'w setting \<Rightarrow> ('w, unit) sync" where
  "state_save V =
     bindo (readso (\<lambda>s. Inr (rn_state s))) (\<lambda>st.
     bindo (lifto (ensure (as_schema_version st = STATE_SCHEMA_VERSION)
       ''refusing to save an unsupported state schema'')) (\<lambda>_.
     bindo (lifto (ensure (se_json_length V st + 1 \<le> MAX_STATE_SIZE_BYTES)
       ''refusing to grow state beyond the safety limit'')) (\<lambda>_.
     bindo (asking (se_write V st)) (\<lambda>w.
       case w of
         Written \<Rightarrow> modifyo (\<lambda>s. s\<lparr>rn_saved := StateFile st\<rparr>)
       | WrittenNotSynced \<Rightarrow>
           bindo (modifyo (\<lambda>s. s\<lparr>rn_saved := StateFile st\<rparr>)) (\<lambda>_. fails (Bail ''failed to persist state''))
       | NotWritten \<Rightarrow> fails (Bail ''failed to persist state'')))))"

section \<open>Progress of a file\<close>

definition progress_for_delivery :: "delivery \<Rightarrow> delivery_record option \<Rightarrow> file_progress" where
  "progress_for_delivery d r = \<lparr>fp_id = d_id d, fp_original_name = d_original_name d,
     fp_media_type = d_media_type d, fp_size = d_size d, fp_record = r, fp_active = False\<rparr>"

definition progress_for_record :: "delivery_record \<Rightarrow> file_progress" where
  "progress_for_record r = \<lparr>fp_id = dr_id r, fp_original_name = dr_original_name r,
     fp_media_type = dr_media_type r, fp_size = dr_size r, fp_record = Some r, fp_active = False\<rparr>"

definition start_progress :: "file_progress \<Rightarrow> ('w, unit) sync" where
  "start_progress p = modifyo (\<lambda>s. s\<lparr>rn_progress := p\<rparr>)"

definition progress_phase :: "sync_phase \<Rightarrow> ('w, unit) sync" where
  "progress_phase ph = modifyo (\<lambda>s.
     let p = rn_progress s in
     s\<lparr>rn_progress := p\<lparr>fp_active := True\<rparr>,
       rn_events := rn_events s @ [FileActive (fp_id p) (fp_original_name p) (fp_media_type p) (fp_size p) ph]\<rparr>)"

definition progress_save :: "'w setting \<Rightarrow> ('w, unit) sync" where
  "progress_save V =
     bindo (state_save V) (\<lambda>_.
     modifyo (\<lambda>s. s\<lparr>rn_progress := (rn_progress s)\<lparr>fp_record := record_of (fp_id (rn_progress s)) s\<rparr>\<rparr>))"

definition progress_settle :: "error option \<Rightarrow> ('w, unit) sync" where
  "progress_settle e = modifyo (\<lambda>s.
     let p = rn_progress s in
     if fp_active p \<or> e \<noteq> None
     then s\<lparr>rn_events := rn_events s @ [FileSettled (fp_id p) (fp_record p) e]\<rparr> else s)"

text \<open>The error to show: that of the step, or one that the saved record has.\<close>

definition settle_with ::
    "(delivery_record \<Rightarrow> error option) \<Rightarrow> error + 'a \<Rightarrow> ('w, unit) sync" where
  "settle_with field r =
     bindo (readso (\<lambda>s. Inr (fp_record (rn_progress s)))) (\<lambda>saved.
     progress_settle (case r of
        Inl e \<Rightarrow> Some e
      | Inr _ \<Rightarrow> (case saved of None \<Rightarrow> None | Some d \<Rightarrow> field d)))"

section \<open>Calls to the outside\<close>

definition logging :: "(state_file \<Rightarrow> dir \<Rightarrow> call) \<Rightarrow> ('w, unit) sync" where
  "logging c = modifyo (\<lambda>s. s\<lparr>rn_calls := rn_calls s @ [c (rn_saved s) (rn_library s)]\<rparr>)"

definition call_open :: "'w setting \<Rightarrow> delivery \<Rightarrow> ('w, read_event list) sync" where
  "call_open V d = outside_op (open_payload (se_source V) d)"

definition call_acknowledge :: "'w setting \<Rightarrow> string \<Rightarrow> string \<Rightarrow> ('w, unit) sync" where
  "call_acknowledge V i sha =
     bindo (logging (AckCall i sha)) (\<lambda>_. outside_op (acknowledge (se_source V) i sha))"

definition call_apply :: "'w setting \<Rightarrow> delivery_record \<Rightarrow> ('w, apply_error + apply_outcome) sync" where
  "call_apply V r =
     bindo (logging (ApplyCall (dr_id r))) (\<lambda>_.
     asking (apply_wallpaper (se_process V) (cf_wallpaper_command (se_config V))
       (cf_wallpaper_timeout (se_config V)) r))"

section \<open>Receiving with retries\<close>

text \<open>
  A source that allows attempts for ever makes the loop endless; \<open>fuel\<close> bounds it. With a source
  that gives up after \<open>n\<close> failures every fuel of at least \<open>n\<close> gives the same result.
\<close>

definition u32_max :: nat where "u32_max = 4294967295"

definition u32_succ :: "nat \<Rightarrow> nat" where
  "u32_succ n = min (Suc n) u32_max"

definition open_and_receive :: "'w setting \<Rightarrow> delivery \<Rightarrow> ('w, stored_asset) sync" where
  "open_and_receive V d =
     bindo (call_open V d) (\<lambda>es. on_library (receive (se_ext V) d es (limit_of V)))"

fun receive_delivery_with_retry ::
    "'w setting \<Rightarrow> delivery \<Rightarrow> nat \<Rightarrow> nat \<Rightarrow> ('w, stored_asset) sync" where
  "receive_delivery_with_retry V d 0 failed = fails (Bail ''out of fuel'')"
| "receive_delivery_with_retry V d (Suc fuel) failed =
     bindo (progress_phase Downloading) (\<lambda>_.
     bindo (attempt (open_and_receive V d)) (\<lambda>r.
       case r of
         Inr stored \<Rightarrow> retn stored
       | Inl e \<Rightarrow>
           bindo (asking (payload_retry_delay (se_source V) e (u32_succ failed))) (\<lambda>delay.
             case delay of
               None \<Rightarrow> fails e
             | Some _ \<Rightarrow>
                 bindo (progress_phase Retrying) (\<lambda>_.
                 receive_delivery_with_retry V d fuel (u32_succ failed)))))"

section \<open>One delivery\<close>

definition quarantine :: "'w setting \<Rightarrow> delivery_record \<Rightarrow> ('w, bool) sync" where
  "quarantine V r =
     bindo (asking (se_uuid V)) (\<lambda>uuid.
     on_library (quarantine_content_object uuid (dr_sha256 r) (dr_media_type r)))"

definition set_error :: "error \<Rightarrow> delivery_record \<Rightarrow> delivery_record" where
  "set_error e r = r\<lparr>dr_delivery_error := Some e\<rparr>"

definition repair_record :: "'w setting \<Rightarrow> stored_asset \<Rightarrow> delivery_record \<Rightarrow> delivery_record" where
  "repair_record V a r = r\<lparr>dr_stored_path := stored_file_path V (sa_path a), dr_size := sa_size a,
     dr_sha256 := sa_sha256 a, dr_media_type := sa_media_type a, dr_delivery_error := None\<rparr>"

definition repair_delivery :: "'w setting \<Rightarrow> nat \<Rightarrow> delivery \<Rightarrow> delivery_record \<Rightarrow> ('w, unit) sync" where
  "repair_delivery V fuel d existing =
     bindo (progress_phase Retrying) (\<lambda>_.
     bindo (quarantine V existing) (\<lambda>_.
     bindo (attempt (receive_delivery_with_retry V d fuel 0)) (\<lambda>r.
       case r of
         Inl e \<Rightarrow>
           bindo (edit_record (d_id d) (set_error e)) (\<lambda>_.
           bindo (progress_save V) (\<lambda>_. fails e))
       | Inr stored \<Rightarrow>
           bindo (on_library cleanup_staging) (\<lambda>n.
           bindo (count (\<lambda>y. y\<lparr>sy_stale_removed := sy_stale_removed y + n\<rparr>)) (\<lambda>_.
           bindo (edit_record (d_id d) (repair_record V stored)) (\<lambda>_.
           bindo (progress_save V) (\<lambda>_.
           count (\<lambda>y. y\<lparr>sy_repaired := sy_repaired y + 1\<rparr>))))))))"

definition mark_acknowledged :: "bool \<Rightarrow> nat \<Rightarrow> delivery_record \<Rightarrow> delivery_record" where
  "mark_acknowledged newly now r =
     (if newly then r\<lparr>dr_delivery_status := Acknowledged, dr_acknowledged_at_unix := Some now, dr_delivery_error := None\<rparr>
      else r\<lparr>dr_delivery_status := Acknowledged, dr_delivery_error := None\<rparr>)"

definition settle_acknowledgement :: "'w setting \<Rightarrow> string \<Rightarrow> delivery_record \<Rightarrow> ('w, unit) sync" where
  "settle_acknowledgement V i r =
     (if dr_delivery_status r \<noteq> Acknowledged \<or> dr_delivery_error r \<noteq> None then
        bindo (if dr_delivery_status r \<noteq> Acknowledged then unix_now V else retn 0) (\<lambda>now.
        bindo (edit_record i (mark_acknowledged (dr_delivery_status r \<noteq> Acknowledged) now)) (\<lambda>_.
        bindo (progress_save V) (\<lambda>_.
        if dr_delivery_status r \<noteq> Acknowledged then count (\<lambda>y. y\<lparr>sy_acknowledged := sy_acknowledged y + 1\<rparr>)
        else retn ())))
      else retn ())"

definition process_existing :: "'w setting \<Rightarrow> nat \<Rightarrow> delivery \<Rightarrow> delivery_record \<Rightarrow> ('w, unit) sync" where
  "process_existing V fuel d existing =
     bindo (lifto (ensure (\<not> (dr_sha256 existing \<noteq> d_sha256 d \<or> dr_size existing \<noteq> d_size d
          \<or> dr_media_type existing \<noteq> d_media_type d)) ''delivery id collision'')) (\<lambda>_.
     bindo (if dr_delivery_status existing = AckPending \<or> dr_delivery_error existing \<noteq> None
       then progress_phase Verifying else retn ()) (\<lambda>_.
     bindo (readso (\<lambda>s. Inr (is_ok (verify_record V existing s)))) (\<lambda>intact.
     bindo (if intact then retn () else repair_delivery V fuel d existing) (\<lambda>_.
     bindo (snapshot (d_id d)) (\<lambda>r.
     bindo (readso (\<lambda>s. Inr (fp_active (rn_progress s)))) (\<lambda>active.
     bindo (if active then progress_phase Confirming else retn ()) (\<lambda>_.
     bindo (attempt (call_acknowledge V (dr_id r) (dr_sha256 r))) (\<lambda>a.
       case a of
         Inl e \<Rightarrow>
           bindo (edit_record (d_id d) (set_error e)) (\<lambda>_.
           bindo (progress_save V) (\<lambda>_. fails e))
       | Inr _ \<Rightarrow>
           bindo (settle_acknowledgement V (d_id d) r) (\<lambda>_.
           if intact then count (\<lambda>y. y\<lparr>sy_already_stored := sy_already_stored y + 1\<rparr>) else retn ())))))))))"

definition new_record :: "'w setting \<Rightarrow> delivery \<Rightarrow> stored_asset \<Rightarrow> nat \<Rightarrow> delivery_record" where
  "new_record V d a now = \<lparr>dr_id = d_id d, dr_original_name = d_original_name d,
     dr_media_type = sa_media_type a, dr_sha256 = sa_sha256 a, dr_size = sa_size a,
     dr_stored_path = stored_file_path V (sa_path a), dr_delivery_status = AckPending,
     dr_wallpaper_status = (if is_image_media_type (sa_media_type a) then WPending else NotApplicable),
     dr_wallpaper_attempts = 0, dr_delivery_error = None, dr_wallpaper_error = None,
     dr_source_created_at_unix = d_created_at_unix d, dr_received_at_unix = now,
     dr_acknowledged_at_unix = None, dr_imported_at_unix = None\<rparr>"

definition insert_record :: "delivery_record \<Rightarrow> ('w, unit) sync" where
  "insert_record r = modifyo (\<lambda>s. s\<lparr>rn_state := (rn_state s)\<lparr>as_deliveries :=
     bt_insert (dr_id r) r (as_deliveries (rn_state s))\<rparr>\<rparr>)"

definition confirm_new :: "'w setting \<Rightarrow> delivery \<Rightarrow> ('w, unit) sync" where
  "confirm_new V d =
     bindo (progress_phase Confirming) (\<lambda>_.
     bindo (attempt (call_acknowledge V (d_id d) (d_sha256 d))) (\<lambda>a.
       case a of
         Inr _ \<Rightarrow>
           bindo (unix_now V) (\<lambda>now.
           bindo (edit_record (d_id d) (mark_acknowledged True now)) (\<lambda>_.
           bindo (progress_save V) (\<lambda>_.
           count (\<lambda>y. y\<lparr>sy_acknowledged := sy_acknowledged y + 1\<rparr>))))
       | Inl e \<Rightarrow>
           bindo (edit_record (d_id d) (set_error e)) (\<lambda>_.
           bindo (progress_save V) (\<lambda>_.
           push_failure (d_id d) e))))"

definition process_new :: "'w setting \<Rightarrow> nat \<Rightarrow> delivery \<Rightarrow> ('w, unit) sync" where
  "process_new V fuel d =
     bindo (receive_delivery_with_retry V d fuel 0) (\<lambda>stored.
     bindo (unix_now V) (\<lambda>now.
     bindo (if is_image_media_type (sa_media_type stored) then retn ()
       else count (\<lambda>y. y\<lparr>sy_not_applicable := sy_not_applicable y + 1\<rparr>)) (\<lambda>_.
     bindo (insert_record (new_record V d stored now)) (\<lambda>_.
     bindo (progress_save V) (\<lambda>_.
     bindo (count (\<lambda>y. y\<lparr>sy_received := sy_received y + 1\<rparr>)) (\<lambda>_.
     confirm_new V d))))))"

definition process_delivery :: "'w setting \<Rightarrow> nat \<Rightarrow> delivery \<Rightarrow> ('w, unit) sync" where
  "process_delivery V fuel d =
     bindo (readso (\<lambda>s. Inr (record_of (d_id d) s))) (\<lambda>r.
       case r of
         Some existing \<Rightarrow> process_existing V fuel d existing
       | None \<Rightarrow> process_new V fuel d)"

section \<open>Reconciliation at the start\<close>

definition ids_where :: "(delivery_record \<Rightarrow> bool) \<Rightarrow> 'w run \<Rightarrow> string list" where
  "ids_where P s = List.map fst (List.filter (\<lambda>(i, r). P r) (as_deliveries (rn_state s)))"

definition interrupted :: "delivery_record \<Rightarrow> delivery_record" where
  "interrupted r = r\<lparr>dr_wallpaper_status := Uncertain,
     dr_wallpaper_error := Some (Bail ''the previous CLI run ended while the wallpaper command was running'')\<rparr>"

definition reconcile_interrupted_wallpapers :: "'w setting \<Rightarrow> ('w, unit) sync" where
  "reconcile_interrupted_wallpapers V =
     bindo (readso (\<lambda>s. Inr (ids_where (\<lambda>r. dr_wallpaper_status r = Running) s))) (\<lambda>ids.
     if ids = [] then retn ()
     else bindo (for_each (\<lambda>i. edit_record i interrupted) ids) (\<lambda>_. state_save V))"

text \<open>One pending acknowledgement: whether it is handled, or the error for which it needs a repair.\<close>

definition reconcile_ack_step :: "'w setting \<Rightarrow> string \<Rightarrow> delivery_record \<Rightarrow> ('w, error option) sync" where
  "reconcile_ack_step V i r =
     bindo (progress_phase Verifying) (\<lambda>_.
     bindo (attempt (readso (verify_record V r))) (\<lambda>v.
       case v of
         Inr _ \<Rightarrow>
           bindo (progress_phase Confirming) (\<lambda>_.
           bindo (attempt (call_acknowledge V (dr_id r) (dr_sha256 r))) (\<lambda>a.
             case a of
               Inr _ \<Rightarrow>
                 bindo (unix_now V) (\<lambda>now.
                 bindo (edit_record i (mark_acknowledged True now)) (\<lambda>_.
                 bindo (progress_save V) (\<lambda>_.
                 bindo (count (\<lambda>y. y\<lparr>sy_acknowledged := sy_acknowledged y + 1\<rparr>)) (\<lambda>_. retn None))))
             | Inl e \<Rightarrow>
                 bindo (edit_record i (set_error e)) (\<lambda>_.
                 bindo (progress_save V) (\<lambda>_.
                 bindo (push_failure i e) (\<lambda>_. retn None)))))
       | Inl e \<Rightarrow>
           bindo (edit_record i (set_error e)) (\<lambda>_.
           bindo (progress_save V) (\<lambda>_. retn (Some e)))))"

fun reconcile_acks ::
    "'w setting \<Rightarrow> string list \<Rightarrow> string list \<Rightarrow> (string \<times> error) list
       \<Rightarrow> ('w, string list \<times> (string \<times> error) list) sync" where
  "reconcile_acks V [] handled repair = retn (handled, repair)"
| "reconcile_acks V (i # ids) handled repair =
     bindo (snapshot i) (\<lambda>r.
     bindo (start_progress (progress_for_record r)) (\<lambda>_.
     bindo (attempt (reconcile_ack_step V i r)) (\<lambda>q.
     bindo (settle_with dr_delivery_error q) (\<lambda>_.
     bindo (lifto q) (\<lambda>outcome.
       case outcome of
         None \<Rightarrow> reconcile_acks V ids (i # handled) repair
       | Some e \<Rightarrow> reconcile_acks V ids handled (bt_insert i e repair))))))"

definition reconcile_pending_acks ::
    "'w setting \<Rightarrow> ('w, string list \<times> (string \<times> error) list) sync" where
  "reconcile_pending_acks V =
     bindo (readso (\<lambda>s. Inr (ids_where (\<lambda>r. dr_delivery_status r = AckPending) s))) (\<lambda>ids.
     reconcile_acks V ids [] [])"

section \<open>Wallpapers\<close>

datatype wallpaper_run_mode = Automatic | ExplicitRetry bool

definition not_applicable :: "delivery_record \<Rightarrow> delivery_record" where
  "not_applicable r = r\<lparr>dr_wallpaper_status := NotApplicable, dr_wallpaper_error := None,
     dr_imported_at_unix := None\<rparr>"

definition legacy_non_image :: "delivery_record \<Rightarrow> bool" where
  "legacy_non_image r \<longleftrightarrow> \<not> is_image_media_type (dr_media_type r) \<and> dr_wallpaper_status r \<noteq> NotApplicable"

definition drop_legacy :: "'w setting \<Rightarrow> ('w, unit) sync" where
  "drop_legacy V =
     bindo (readso (\<lambda>s. Inr (ids_where legacy_non_image s))) (\<lambda>ids.
     if ids = [] then retn ()
     else
       bindo (for_each (\<lambda>i. bindo (edit_record i not_applicable) (\<lambda>_.
         count (\<lambda>y. y\<lparr>sy_not_applicable := sy_not_applicable y + 1\<rparr>))) ids) (\<lambda>_.
       state_save V))"

definition eligible :: "wallpaper_run_mode \<Rightarrow> delivery_record \<Rightarrow> bool" where
  "eligible mode r \<longleftrightarrow> dr_delivery_status r = Acknowledged
     \<and> (case mode of
          Automatic \<Rightarrow> dr_wallpaper_status r \<in> {WPending, NotConfigured}
        | ExplicitRetry include_uncertain \<Rightarrow>
            dr_wallpaper_status r \<in> {WPending, NotConfigured, Failed}
            \<or> include_uncertain \<and> dr_wallpaper_status r = Uncertain)"

definition candidates :: "wallpaper_run_mode \<Rightarrow> 'w run \<Rightarrow> (nat \<times> string) list" where
  "candidates mode s =
     sort (List.map (\<lambda>(i, r). (case dr_source_created_at_unix r of Some t \<Rightarrow> t | None \<Rightarrow> dr_received_at_unix r, i))
       (List.filter (\<lambda>(i, r). eligible mode r) (as_deliveries (rn_state s))))"

definition not_configured :: "delivery_record \<Rightarrow> delivery_record" where
  "not_configured r = r\<lparr>dr_wallpaper_status := NotConfigured, dr_wallpaper_error := None\<rparr>"

definition broken_file :: "error \<Rightarrow> delivery_record \<Rightarrow> delivery_record" where
  "broken_file e r = r\<lparr>dr_delivery_error := Some e, dr_wallpaper_status := Failed, dr_wallpaper_error := Some e\<rparr>"

definition running :: "delivery_record \<Rightarrow> delivery_record" where
  "running r = r\<lparr>dr_delivery_error := None, dr_wallpaper_status := Running,
     dr_wallpaper_attempts := u32_succ (dr_wallpaper_attempts r), dr_wallpaper_error := None\<rparr>"

definition applied :: "nat \<Rightarrow> delivery_record \<Rightarrow> delivery_record" where
  "applied now r = r\<lparr>dr_wallpaper_status := Applied, dr_imported_at_unix := Some now, dr_wallpaper_error := None\<rparr>"

definition apply_failed :: "apply_error \<Rightarrow> delivery_record \<Rightarrow> delivery_record" where
  "apply_failed e r = r\<lparr>dr_wallpaper_status := (if ap_uncertain e then Uncertain else Failed),
     dr_wallpaper_error := Some (ap_message e)\<rparr>"

definition record_outcome :: "'w setting \<Rightarrow> string \<Rightarrow> apply_error + apply_outcome \<Rightarrow> ('w, unit) sync" where
  "record_outcome V i a =
     (case a of
        Inr OutApplied \<Rightarrow>
          bindo (unix_now V) (\<lambda>now.
          bindo (edit_record i (applied now)) (\<lambda>_.
          bindo (progress_save V) (\<lambda>_.
          count (\<lambda>y. y\<lparr>sy_applied := sy_applied y + 1\<rparr>))))
      | Inr OutNotConfigured \<Rightarrow>
          bindo (edit_record i (\<lambda>r. r\<lparr>dr_wallpaper_status := NotConfigured\<rparr>)) (\<lambda>_.
          bindo (progress_save V) (\<lambda>_.
          count (\<lambda>y. y\<lparr>sy_not_configured := sy_not_configured y + 1\<rparr>)))
      | Inl e \<Rightarrow>
          bindo (edit_record i (apply_failed e)) (\<lambda>_.
          bindo (progress_save V) (\<lambda>_.
          push_failure i (ap_message e))))"

definition run_wallpaper :: "'w setting \<Rightarrow> string \<Rightarrow> delivery_record \<Rightarrow> ('w, unit) sync" where
  "run_wallpaper V i r =
     bindo (progress_phase Verifying) (\<lambda>_.
     bindo (attempt (readso (verify_record V r))) (\<lambda>v.
       case v of
         Inl e \<Rightarrow>
           bindo (edit_record i (broken_file e)) (\<lambda>_.
           bindo (progress_save V) (\<lambda>_.
           push_failure i e))
       | Inr _ \<Rightarrow>
           bindo (edit_record i running) (\<lambda>_.
           bindo (progress_save V) (\<lambda>_.
           bindo (progress_phase ApplyingWallpaper) (\<lambda>_.
           bindo (call_apply V r) (record_outcome V i))))))"

definition process_candidate :: "'w setting \<Rightarrow> string \<Rightarrow> ('w, unit) sync" where
  "process_candidate V i =
     bindo (snapshot i) (\<lambda>r.
     if cf_wallpaper_command (se_config V) = [] then
       bindo (edit_record i not_configured) (\<lambda>_.
       bindo (state_save V) (\<lambda>_.
       count (\<lambda>y. y\<lparr>sy_not_configured := sy_not_configured y + 1\<rparr>)))
     else
       bindo (start_progress (progress_for_record r)) (\<lambda>_.
       bindo (attempt (run_wallpaper V i r)) (\<lambda>q.
       bindo (settle_with dr_wallpaper_error q) (\<lambda>_.
       lifto q))))"

definition process_wallpaper_queue :: "'w setting \<Rightarrow> wallpaper_run_mode \<Rightarrow> ('w, unit) sync" where
  "process_wallpaper_queue V mode =
     bindo (drop_legacy V) (\<lambda>_.
     bindo (readso (\<lambda>s. Inr (candidates mode s))) (\<lambda>cs.
     for_each (\<lambda>(t, i). process_candidate V i) cs))"

section \<open>A synchronisation\<close>

definition config_ready :: "'w setting \<Rightarrow> ('w, unit) sync" where
  "config_ready V =
     bindo (lifto (config_validate (se_ext V) (se_urls V) (se_config V))) (\<lambda>_.
     bindo (lifto (config_connected (se_config V))) (\<lambda>_.
     bindo (lifto (ensure (\<not> cf_directory_sync (se_config V)) ''This Folder uses directory sync'')) (\<lambda>_.
     readso (\<lambda>s. ensure (\<not> rn_retired s) ''This local Folder has completed cleanup''))))"

definition load_run :: "('w, unit) sync" where
  "load_run =
     bindo state_load (\<lambda>st.
     modifyo (\<lambda>s. s\<lparr>rn_state := st, rn_summary := summary_default\<rparr>))"

definition sync_delivery :: "'w setting \<Rightarrow> nat \<Rightarrow> delivery \<Rightarrow> ('w, unit) sync" where
  "sync_delivery V fuel d =
     bindo (readso (\<lambda>s. Inr (record_of (d_id d) s))) (\<lambda>known.
     bindo (start_progress (progress_for_delivery d known)) (\<lambda>_.
     bindo (attempt (process_delivery V fuel d)) (\<lambda>q.
     bindo (settle_with dr_delivery_error q) (\<lambda>_.
     case q of Inl e \<Rightarrow> push_failure (d_id d) e | Inr _ \<Rightarrow> retn ()))))"

fun sync_deliveries ::
    "'w setting \<Rightarrow> nat \<Rightarrow> string list \<Rightarrow> delivery list \<Rightarrow> (string \<times> error) list
       \<Rightarrow> ('w, (string \<times> error) list) sync" where
  "sync_deliveries V fuel handled [] repair = retn repair"
| "sync_deliveries V fuel handled (d # ds) repair =
     (if d_id d \<in> set handled then
        bindo (count (\<lambda>y. y\<lparr>sy_already_stored := sy_already_stored y + 1\<rparr>)) (\<lambda>_.
        sync_deliveries V fuel handled ds repair)
      else
        bindo (sync_delivery V fuel d) (\<lambda>_.
        sync_deliveries V fuel handled ds (AList.delete (d_id d) repair)))"

definition sync_once_with_events :: "'w setting \<Rightarrow> nat \<Rightarrow> ('w, sync_summary) sync" where
  "sync_once_with_events V fuel =
     bindo (config_ready V) (\<lambda>_.
     bindo (on_library lock_library) (\<lambda>_.
     bindo load_run (\<lambda>_.
     bindo (on_library cleanup_staging) (\<lambda>n.
     bindo (count (\<lambda>y. y\<lparr>sy_stale_removed := n\<rparr>)) (\<lambda>_.
     bindo (reconcile_interrupted_wallpapers V) (\<lambda>_.
     bindo (reconcile_pending_acks V) (\<lambda>(handled, repair).
     bindo (outside_op (scan_pending (se_source V) (limit_of V))) (\<lambda>scan.
     bindo (for_each (\<lambda>i. push_failure (si_item i) (si_message i)) (sc_issues scan)) (\<lambda>_.
     bindo (sync_deliveries V fuel handled (sc_deliveries scan) repair) (\<lambda>left.
     bindo (for_each (\<lambda>(i, e). push_failure i e) left) (\<lambda>_.
     bindo (process_wallpaper_queue V Automatic) (\<lambda>_.
     readso (\<lambda>s. Inr (rn_summary s))))))))))))))"

record retry_summary =
  rs_attempted :: nat
  rs_applied :: nat
  rs_not_configured :: nat
  rs_skipped_uncertain :: nat
  rs_failures :: "sync_failure list"

definition retry_wallpapers :: "'w setting \<Rightarrow> bool \<Rightarrow> ('w, retry_summary) sync" where
  "retry_wallpapers V include_uncertain =
     bindo (config_ready V) (\<lambda>_.
     bindo load_run (\<lambda>_.
     bindo (reconcile_interrupted_wallpapers V) (\<lambda>_.
     bindo (readso (\<lambda>s. Inr (if include_uncertain then 0
       else length (ids_where (\<lambda>r. dr_wallpaper_status r = Uncertain) s)))) (\<lambda>skipped.
     bindo (process_wallpaper_queue V (ExplicitRetry include_uncertain)) (\<lambda>_.
     readso (\<lambda>s. let y = rn_summary s in
       Inr \<lparr>rs_attempted = sy_applied y + sy_not_configured y + length (sy_failures y),
         rs_applied = sy_applied y, rs_not_configured = sy_not_configured y,
         rs_skipped_uncertain = skipped, rs_failures = sy_failures y\<rparr>))))))"

section \<open>Counts\<close>

record status_count =
  st_total :: nat
  st_ack_pending :: nat
  st_acknowledged :: nat
  st_wallpaper_pending :: nat
  st_not_applicable :: nat
  st_applied :: nat
  st_failed :: nat
  st_uncertain :: nat
  st_not_configured :: nat

definition count_delivery :: "delivery_record \<Rightarrow> status_count \<Rightarrow> status_count" where
  "count_delivery r c =
     (case dr_delivery_status r of
        AckPending \<Rightarrow> c\<lparr>st_ack_pending := st_ack_pending c + 1\<rparr>
      | Acknowledged \<Rightarrow> c\<lparr>st_acknowledged := st_acknowledged c + 1\<rparr>)"

definition count_wallpaper :: "delivery_record \<Rightarrow> status_count \<Rightarrow> status_count" where
  "count_wallpaper r c =
     (case dr_wallpaper_status r of
        WPending \<Rightarrow> c\<lparr>st_wallpaper_pending := st_wallpaper_pending c + 1\<rparr>
      | Running \<Rightarrow> c\<lparr>st_wallpaper_pending := st_wallpaper_pending c + 1\<rparr>
      | NotConfigured \<Rightarrow> c\<lparr>st_not_configured := st_not_configured c + 1\<rparr>
      | NotApplicable \<Rightarrow> c\<lparr>st_not_applicable := st_not_applicable c + 1\<rparr>
      | Applied \<Rightarrow> c\<lparr>st_applied := st_applied c + 1\<rparr>
      | Failed \<Rightarrow> c\<lparr>st_failed := st_failed c + 1\<rparr>
      | Uncertain \<Rightarrow> c\<lparr>st_uncertain := st_uncertain c + 1\<rparr>)"

definition status_counts :: "app_state \<Rightarrow> status_count" where
  "status_counts st =
     fold (\<lambda>(i, r) c. count_wallpaper r (count_delivery r (c\<lparr>st_total := st_total c + 1\<rparr>)))
       (as_deliveries st)
       \<lparr>st_total = 0, st_ack_pending = 0, st_acknowledged = 0, st_wallpaper_pending = 0,
        st_not_applicable = 0, st_applied = 0, st_failed = 0, st_uncertain = 0, st_not_configured = 0\<rparr>"

end
