(* ===== verification/SyncSafe.thy ===== *)
theory SyncSafe
  imports Sync
begin

text \<open>
  What a synchronisation promises. The first part has rules for the operations of a run that keep
  the calls, the state file, the state in memory or the library as they are; then come the
  predicates over the logged calls, the rules of the operations that change them, and the
  properties of a whole run: nothing is acknowledged before it is safely stored, and no wallpaper
  command is run twice.
\<close>

section \<open>Operations that leave things alone\<close>

definition same_run :: "'w run \<Rightarrow> 'w run \<Rightarrow> bool" where
  "same_run s t \<longleftrightarrow> rn_calls t = rn_calls s \<and> rn_saved t = rn_saved s \<and> rn_state t = rn_state s
     \<and> rn_library t = rn_library s"

text \<open>As before but for the staging directory.\<close>

definition same_but_staging :: "'w run \<Rightarrow> 'w run \<Rightarrow> bool" where
  "same_but_staging s t \<longleftrightarrow> rn_calls t = rn_calls s \<and> rn_saved t = rn_saved s \<and> rn_state t = rn_state s
     \<and> same_outside STAGING_DIR_NAME (rn_library s) (rn_library t)"

text \<open>As before but for the library.\<close>

definition same_but_library :: "'w run \<Rightarrow> 'w run \<Rightarrow> bool" where
  "same_but_library s t \<longleftrightarrow> rn_calls t = rn_calls s \<and> rn_saved t = rn_saved s \<and> rn_state t = rn_state s"

lemma same_run_refl [simp]: "same_run s s" "same_but_staging s s" "same_but_library s s"
  by (simp_all add: same_run_def same_but_staging_def same_but_library_def)

lemma same_trans:
  "same_run a b \<Longrightarrow> same_run b c \<Longrightarrow> same_run a c"
  "same_but_library a b \<Longrightarrow> same_but_library b c \<Longrightarrow> same_but_library a c"
  by (simp_all add: same_run_def same_but_library_def)

lemma hoare_still: "moves same_run m \<Longrightarrow> stable same_run P \<Longrightarrow> (\<And>s. P s \<Longrightarrow> E s) \<Longrightarrow> hoare P m (\<lambda>_. P) E"
  by (rule hoare_moves)

named_theorems still \<open>operations that only change the events, the summary, the progress or the world\<close>

lemma still_run [still]:
  "moves same_run (progress_phase ph)" "moves same_run (progress_settle e)"
  "moves same_run (start_progress p)" "moves same_run (count f)" "moves same_run (push_failure i f1)"
  "moves same_run (unix_now V)" "moves same_run (asking g)" "moves same_run (outside_op h)"
  "moves same_run (readso k)" "moves same_run (lifto r)" "moves same_run (snapshot i)"
  "moves same_run (retn x)" "moves same_run (fails e1)" "moves same_run (call_open V d)"
  by (auto simp: moves_def same_run_def progress_phase_def progress_settle_def start_progress_def count_def
      push_failure_def unix_now_def asking_def outside_op_def snapshot_def call_open_def op_defs Let_def
      split: prod.splits)

lemma still_bindo [still]:
  "moves same_run m \<Longrightarrow> (\<And>x. moves same_run (f x)) \<Longrightarrow> moves same_run (bindo m f)"
  by (rule moves_bindo [OF same_trans(1)])

lemma still_if [still]: "moves same_run m \<Longrightarrow> moves same_run n \<Longrightarrow> moves same_run (if c then m else n)"
  by simp

lemma still_settle [still]: "moves same_run (settle_with field r)"
  unfolding settle_with_def by (intro still)

lemma still_for_each [still]: "(\<And>x. moves same_run (f x)) \<Longrightarrow> moves same_run (for_each f xs)"
  by (induction xs) (auto intro: still simp: still)

lemma moves_library:
  "(\<And>d r d'. m d = (r, d') \<Longrightarrow> same_outside STAGING_DIR_NAME d d') \<Longrightarrow> moves same_but_staging (on_library m)"
  by (auto simp: moves_def same_but_staging_def on_library_def split: prod.splits)

lemma moves_any_library: "moves same_but_library (on_library m)"
  by (auto simp: moves_def same_but_library_def on_library_def split: prod.splits)

lemma moves_weaken: "moves same_run m \<Longrightarrow> moves same_but_library m"
  by (auto simp: moves_def same_run_def same_but_library_def)

section \<open>Safe calls\<close>

definition saved_record :: "state_file \<Rightarrow> string \<Rightarrow> delivery_record option" where
  "saved_record f i = (case f of StateFile st \<Rightarrow> map_of (as_deliveries st) i | _ \<Rightarrow> None)"

definition stored :: "'w setting \<Rightarrow> dir \<Rightarrow> delivery_record \<Rightarrow> bool" where
  "stored V lib r \<longleftrightarrow>
     holds_content (se_ext V) (file_at V lib (dr_stored_path r)) (dr_size r) (dr_sha256 r) (dr_media_type r)"

definition safe_call :: "'w setting \<Rightarrow> call \<Rightarrow> bool" where
  "safe_call V c =
     (case c of
        AckCall i sha f lib \<Rightarrow> (\<exists>r. saved_record f i = Some r \<and> dr_sha256 r = sha \<and> stored V lib r)
      | ApplyCall i f lib \<Rightarrow> (\<exists>r. saved_record f i = Some r \<and> dr_wallpaper_status r = Running \<and> stored V lib r))"

definition calls_safe :: "'w setting \<Rightarrow> string set \<Rightarrow> 'w run \<Rightarrow> bool" where
  "calls_safe V R s \<longleftrightarrow> (\<forall>c \<in> set (rn_calls s). safe_call V c)
     \<and> (\<forall>i \<in> R. saved_record (rn_saved s) i = record_of i s)
     \<and> (\<forall>i r. record_of i s = Some r \<longrightarrow> dr_id r = i)"

definition holding :: "'w setting \<Rightarrow> string \<Rightarrow> 'w run \<Rightarrow> bool" where
  "holding V i s \<longleftrightarrow> (\<exists>r. record_of i s = Some r \<and> stored V (rn_library s) r)"

lemma calls_safe_mono: "calls_safe V R s \<Longrightarrow> Q \<subseteq> R \<Longrightarrow> calls_safe V Q s"
  by (auto simp: calls_safe_def)

lemma stable_calls_safe [intro, simp]:
  "stable same_but_library (calls_safe V R)" "stable same_run (calls_safe V R)"
  by (auto simp: stable_def same_run_def same_but_library_def calls_safe_def record_of_def)

lemma stable_record [intro, simp]:
  "stable same_but_library (\<lambda>s. Q (record_of i s))" "stable same_run (\<lambda>s. Q (record_of i s))"
  by (auto simp: stable_def same_run_def same_but_library_def record_of_def)

lemma stable_holding [intro, simp]: "stable same_run (holding V i)"
  by (auto simp: stable_def same_run_def holding_def record_of_def)

lemma stable_verify [intro, simp]: "stable same_run (\<lambda>s. Q (verify_record V r s))"
  by (auto simp: stable_def same_run_def verify_record_def)

lemma verify_record_stored: "verify_record V r s = Inr u \<Longrightarrow> stored V (rn_library s) r"
  by (auto simp: verify_record_def stored_def verify_recorded_file_ok holds_content_def)

section \<open>Rules\<close>

lemma hoare_state_save:
  assumes "\<And>i. i \<in> Q \<Longrightarrow> i \<in> R"
  shows "hoare (calls_safe V R) (state_save V) (\<lambda>_. calls_safe V UNIV) (calls_safe V Q)"
proof (rule hoareI)
  fix s x t assume "calls_safe V R s" "state_save V s = (Inr x, t)"
  then show "calls_safe V UNIV t"
    by (auto simp: state_save_def op_ok asking_def calls_safe_def saved_record_def record_of_def
        split: prod.splits write_outcome.splits)
next
  fix s e t assume "calls_safe V R s" "state_save V s = (Inl e, t)"
  then show "calls_safe V Q t"
    using assms by (auto simp: state_save_def bindo_err op_defs op_ok asking_def calls_safe_def saved_record_def
        record_of_def split: prod.splits write_outcome.splits)
qed

lemma state_save_keeps:
  "state_save V s = (r, t) \<Longrightarrow> rn_state t = rn_state s \<and> rn_library t = rn_library s \<and> rn_calls t = rn_calls s"
  by (auto simp: state_save_def bindo_def op_defs asking_def split: prod.splits sum.splits write_outcome.splits)

lemma progress_save_keeps:
  "progress_save V s = (r, t) \<Longrightarrow> rn_state t = rn_state s \<and> rn_library t = rn_library s \<and> rn_calls t = rn_calls s"
  by (auto simp: progress_save_def bindo_def op_defs dest!: state_save_keeps split: prod.splits sum.splits)

lemma record_of_edit [simp]:
  "record_of j (s\<lparr>rn_state := (rn_state s)\<lparr>as_deliveries :=
       List.map (\<lambda>(k, r). (k, if k = i then f r else r)) (as_deliveries (rn_state s))\<rparr>\<rparr>)
     = (if j = i then map_option f (record_of j s) else record_of j s)"
proof -
  have "map_of (List.map (\<lambda>(k, r). (k, if k = i then f r else r)) m) j =
      (if j = i then map_option f (map_of m j) else map_of m j)" for m
    by (induction m) auto
  then show ?thesis by (simp add: record_of_def)
qed

section \<open>Rules of the changes\<close>

lemma hoare_edit:
  assumes "\<And>r. dr_id (f r) = dr_id r"
  shows "hoare (calls_safe V R) (edit_record i f) (\<lambda>_. calls_safe V (R - {i})) E"
  by (rule hoareI) (auto simp: edit_record_def op_defs calls_safe_def assms split: if_splits)

lemma hoare_edit_holding:
  assumes "\<And>r. dr_id (f r) = dr_id r"
    and "\<And>r lib. stored V lib r \<Longrightarrow> stored V lib (f r)"
  shows "hoare (\<lambda>s. calls_safe V R s \<and> holding V i s) (edit_record i f)
      (\<lambda>_ s. calls_safe V (R - {i}) s \<and> holding V i s) E"
  by (rule hoareI) (auto simp: edit_record_def op_defs calls_safe_def holding_def assms split: if_splits)

lemma hoare_progress_save:
  assumes "Q \<subseteq> R"
  shows "hoare (calls_safe V R) (progress_save V) (\<lambda>_. calls_safe V UNIV) (calls_safe V Q)"
  unfolding progress_save_def
  by (rule hoare_bindo [OF hoare_state_save])
    (use assms in \<open>auto intro!: hoareI simp: op_defs calls_safe_def record_of_def\<close>)

lemma hoare_progress_save_holding:
  assumes "Q \<subseteq> R"
  shows "hoare (\<lambda>s. calls_safe V R s \<and> holding V i s) (progress_save V)
      (\<lambda>_ s. calls_safe V UNIV s \<and> holding V i s) (calls_safe V Q)"
proof (rule hoareI)
  fix s x t assume a: "calls_safe V R s \<and> holding V i s" "progress_save V s = (Inr x, t)"
  from a hoare_ok [OF hoare_progress_save [OF assms]] have "calls_safe V UNIV t" by blast
  with a progress_save_keeps [OF a(2)] show "calls_safe V UNIV t \<and> holding V i t"
    by (simp add: holding_def record_of_def)
qed (use hoare_err [OF hoare_progress_save [OF assms]] in blast)

lemma hoare_edit_save:
  assumes "\<And>r. dr_id (f r) = dr_id r" and "Q \<subseteq> R - {i}"
  shows "hoare (calls_safe V R) (bindo (edit_record i f) (\<lambda>_. progress_save V)) (\<lambda>_. calls_safe V UNIV) (calls_safe V Q)"
  by (rule hoare_bindo [OF hoare_edit hoare_progress_save]) (use assms in auto)

lemma hoare_edit_state_save:
  assumes "\<And>r. dr_id (f r) = dr_id r" and "Q \<subseteq> R - {i}"
  shows "hoare (calls_safe V R) (bindo (edit_record i f) (\<lambda>_. state_save V)) (\<lambda>_. calls_safe V UNIV) (calls_safe V Q)"
  by (rule hoare_bindo [OF hoare_edit hoare_state_save]) (use assms in auto)

text \<open>A change of one record, the save, and something that leaves everything alone.\<close>

lemma hoare_edit_save_then:
  assumes "\<And>r. dr_id (f r) = dr_id r" and "Q \<subseteq> R - {i}" and "moves same_run m"
  shows "hoare (calls_safe V R) (bindo (edit_record i f) (\<lambda>_. bindo (progress_save V) (\<lambda>_. m)))
      (\<lambda>_. calls_safe V Q) (calls_safe V Q)"
  unfolding bindo_assoc [symmetric]
  by (rule hoare_bindo [OF hoare_edit_save hoare_conseq [OF hoare_still]])
    (use assms in \<open>auto elim: calls_safe_mono\<close>)

lemma hoare_call_acknowledge:
  assumes "i \<in> R" and "sha = dr_sha256 r"
  shows "hoare (\<lambda>s. calls_safe V R s \<and> holding V i s \<and> record_of i s = Some r) (call_acknowledge V i sha)
      (\<lambda>_. calls_safe V R) (calls_safe V R)"
proof -
  have "calls_safe V R t"
    if "calls_safe V R s" "holding V i s" "record_of i s = Some r" "call_acknowledge V i sha s = (x, t)" for s x t
  proof -
    let ?c = "AckCall i sha (rn_saved s) (rn_library s)"
    have "safe_call V ?c"
      using that assms by (auto simp: safe_call_def calls_safe_def holding_def)
    moreover have "rn_calls t = rn_calls s @ [?c] \<and> rn_saved t = rn_saved s \<and> rn_state t = rn_state s"
      using that(4) by (auto simp: call_acknowledge_def logging_def op_defs outside_op_def bindo_def split: prod.splits)
    ultimately show ?thesis using that(1) by (auto simp: calls_safe_def record_of_def)
  qed
  then show ?thesis by (intro hoareI) blast+
qed

section \<open>Storing a delivery\<close>

lemma copy_loop_data:
  "copy_loop mx expected es st = Inr u \<Longrightarrow>
     \<exists>bs. [] \<notin> set bs \<and> copy_loop mx expected (List.map Chunk bs) st = Inr u"
proof (induction mx expected es st rule: copy_loop.induct)
  case (1 mx expected st)
  then show ?case by (intro exI [of _ "[]"]) simp
next
  case (2 mx expected e es st)
  then show ?case by simp
next
  case (3 mx expected b es st)
  show ?case
  proof (cases "b = []")
    case True
    with 3 show ?thesis by (intro exI [of _ "[]"]) simp
  next
    case False
    with 3 obtain bs where "[] \<notin> set bs" "copy_loop mx expected (List.map Chunk bs)
        (copy_put st b (cs_size st + length b)) = Inr u"
      by (auto simp: checked_add_u64_def split: if_splits option.splits)
    with 3 False show ?thesis
      by (intro exI [of _ "b # bs"]) (auto simp: checked_add_u64_def split: if_splits option.splits)
  qed
qed

lemma copy_and_inspect_data:
  "copy_and_inspect X mx expected es = Inr u \<Longrightarrow>
     \<exists>bs. [] \<notin> set bs \<and> copy_and_inspect X mx expected (List.map Chunk bs) = Inr u"
  unfolding copy_and_inspect_def andthen_Inr using copy_loop_data by blast

lemma receive_data:
  assumes "receive X d es mx root = (Inr a, root')"
  shows "\<exists>bs. [] \<notin> set bs \<and> receive X d (List.map Chunk bs) mx root = (Inr a, root')"
proof -
  from assms obtain i data where c: "copy_and_inspect X mx (Some (d_size d)) es = Inr (i, data)"
    by (auto simp: receive_def bindo_ok lifto_ok)
  with copy_and_inspect_data obtain bs where
    b: "[] \<notin> set bs" "copy_and_inspect X mx (Some (d_size d)) (List.map Chunk bs) = Inr (i, data)" by blast
  have "receive X d (List.map Chunk bs) mx root = receive X d es mx root"
    by (simp add: receive_def b(2) c)
  with assms b(1) show ?thesis by auto
qed

lemma file_at_stored:
  assumes "cf_library_dir (se_config V) \<noteq> []" and "sh \<noteq> []" and "slash \<notin> set sh"
    and "n \<noteq> []" and "slash \<notin> set n"
  shows "file_at V root (stored_file_path V (sh, n)) = obj_at root sh n"
proof -
  let ?L = "path_join (cf_library_dir (se_config V)) []"
  have L: "?L \<noteq> []" "suffix [slash] ?L"
    using assms(1) by (auto simp: path_join_def is_absolute_def suffix_def)
  have na: "\<not> is_absolute sh" "\<not> is_absolute n"
    using assms by (auto simp: is_absolute_def prefix_def)
  have "path_join (cf_library_dir (se_config V)) sh = ?L @ sh"
    using assms(1) na by (auto simp: path_join_def is_absolute_def)
  moreover have "\<not> suffix [slash] (?L @ sh)"
    using assms(2,3) by (metis last_appendR last_in_set snoc_eq_iff_butlast suffix_def)
  ultimately have "stored_file_path V (sh, n) = ?L @ sh @ slash # n"
    using na assms by (auto simp: stored_file_path_def path_join_def)
  moreover have "split_once slash (sh @ slash # n) = Some (sh, n)"
    using assms(3) by (simp add: split_once_eq)
  ultimately show ?thesis by (simp add: file_at_def strip_prefix_def)
qed

lemma hex_no_slash: "valid_sha256 h \<Longrightarrow> slash \<notin> set h"
  by (auto simp: valid_sha256_iff ascii_defs)

lemma receive_kept:
  assumes "receive (se_ext V) d es mx root = (Inr a, root')" and "cf_library_dir (se_config V) \<noteq> []"
  shows "sa_size a = d_size d \<and> sa_sha256 a = d_sha256 d \<and> sa_media_type a = d_media_type d
     \<and> fst (sa_path a) \<noteq> STAGING_DIR_NAME
     \<and> file_at V lib (stored_file_path V (sa_path a)) = obj_at lib (fst (sa_path a)) (snd (sa_path a))
     \<and> holds_content (se_ext V) (obj_at root' (fst (sa_path a)) (snd (sa_path a))) (d_size d) (d_sha256 d) (d_media_type d)"
proof -
  obtain bs where bs: "[] \<notin> set bs" "receive (se_ext V) d (List.map Chunk bs) mx root = (Inr a, root')"
    using receive_data [OF assms(1)] by blast
  note e = receive_effect [OF bs(2,1), simplified]
  note i = receive_Inr [OF bs(2,1)]
  then obtain r2 where c: "commit_object (se_ext V) mx (inspection_of (se_ext V) (concat bs)) (concat bs) r2 = (Inr a, root')"
    by blast
  have v: "valid_sha256 (d_sha256 d)" using e by (simp add: valid_metadata_iff)
  obtain x where x: "extension_for_media_type (d_media_type d) = Some x"
      "sa_path a = (take 2 (d_sha256 d), object_name (d_sha256 d) x)" using e by blast
  have xs: "slash \<notin> set x"
    using extension_supported [OF x(1)] by (auto simp: is_supported_content_extension_def)
  have "take 2 (d_sha256 d) \<noteq> []" "slash \<notin> set (take 2 (d_sha256 d))"
    using v hex_no_slash [OF v] by (auto simp: valid_sha256_iff dest: in_set_takeD)
  moreover have "object_name (d_sha256 d) x \<noteq> []" "slash \<notin> set (object_name (d_sha256 d) x)"
    using xs hex_no_slash [OF v] by (auto simp: object_name_def)
  ultimately have "file_at V lib (stored_file_path V (sa_path a)) = obj_at lib (fst (sa_path a)) (snd (sa_path a))"
    using file_at_stored [OF assms(2)] x(2) by simp
  moreover have "sa_size a = d_size d" "sa_sha256 a = d_sha256 d" "sa_media_type a = d_media_type d"
    using commit_object_ok(1) [OF c] i by (auto simp: inspectable_def)
  ultimately show ?thesis using e x(2) by (simp add: staging_not_short)
qed

section \<open>Processing a delivery\<close>

definition got :: "'w setting \<Rightarrow> delivery \<Rightarrow> stored_asset \<Rightarrow> 'w run \<Rightarrow> bool" where
  "got V d a s \<longleftrightarrow> sa_size a = d_size d \<and> sa_sha256 a = d_sha256 d \<and> sa_media_type a = d_media_type d
     \<and> fst (sa_path a) \<noteq> STAGING_DIR_NAME
     \<and> (\<forall>lib. file_at V lib (stored_file_path V (sa_path a)) = obj_at lib (fst (sa_path a)) (snd (sa_path a)))
     \<and> holds_content (se_ext V) (obj_at (rn_library s) (fst (sa_path a)) (snd (sa_path a)))
          (d_size d) (d_sha256 d) (d_media_type d)"

lemma stable_got [intro, simp]:
  "stable same_run (got V d a)" "stable same_but_staging (got V d a)"
  by (auto simp: stable_def same_run_def same_but_staging_def got_def same_outside_def)

lemma stable_staging [intro, simp]: "stable same_but_library P \<Longrightarrow> stable same_but_staging P"
  by (auto simp: stable_def same_but_library_def same_but_staging_def)

lemma stable_run [intro, simp]: "stable same_but_library P \<Longrightarrow> stable same_run P"
  by (auto simp: stable_def same_but_library_def same_run_def)

lemma stable_known [intro, simp]:
  "stable same_but_library (\<lambda>s. \<exists>y. record_of i s = Some y)" "stable same_but_staging (\<lambda>s. \<exists>y. record_of i s = Some y)"
  "stable same_run (\<lambda>s. \<exists>y. record_of i s = Some y)" "stable same_but_staging (\<lambda>s. record_of i s = Some r)"
  by (auto simp: stable_def same_run_def same_but_library_def same_but_staging_def record_of_def)

lemma hoare_open_and_receive:
  assumes "cf_library_dir (se_config V) \<noteq> []" and "stable same_but_library P" and "\<And>s. P s \<Longrightarrow> E s"
  shows "hoare P (open_and_receive V d) (\<lambda>a s. P s \<and> got V d a s) E"
  unfolding open_and_receive_def
proof (rule hoare_bindo [OF hoare_still])
  show "hoare P (on_library (receive (se_ext V) d es (limit_of V))) (\<lambda>a s. P s \<and> got V d a s) E" for es
  proof (rule hoareI)
    fix s a t assume a: "P s" "on_library (receive (se_ext V) d es (limit_of V)) s = (Inr a, t)"
    then have "receive (se_ext V) d es (limit_of V) (rn_library s) = (Inr a, rn_library t)"
      by (auto simp: on_library_def split: prod.splits)
    from receive_kept [OF this assms(1)] have "got V d a t" by (auto simp: got_def)
    moreover have "P t" using a movesD [OF moves_any_library a(2)] assms(2) by (auto simp: stable_def)
    ultimately show "P t \<and> got V d a t" by simp
  next
    fix s e t assume a: "P s" "on_library (receive (se_ext V) d es (limit_of V)) s = (Inl e, t)"
    then show "E t" using movesD [OF moves_any_library a(2)] assms(2,3) by (auto simp: stable_def)
  qed
qed (use assms in \<open>auto intro: still\<close>)

lemma hoare_receive_delivery:
  assumes "cf_library_dir (se_config V) \<noteq> []" and "stable same_but_library P" and "\<And>s. P s \<Longrightarrow> E s"
  shows "hoare P (receive_delivery_with_retry V d fuel failed) (\<lambda>a s. P s \<and> got V d a s) E"
proof (induction fuel arbitrary: failed)
  case 0
  show ?case by (rule hoareI) (auto simp: fails_def assms)
next
  case (Suc fuel)
  have fin: "hoare P (fails e) Q E" for e :: error and Q
    by (rule hoareI) (auto simp: fails_def assms)
  have ok: "hoare (\<lambda>s. P s \<and> got V d a s) (retn a) (\<lambda>a s. P s \<and> got V d a s) E" for a
    by (rule hoareI) (auto simp: retn_def)
  have again: "hoare P (bindo (progress_phase Retrying) (\<lambda>_. receive_delivery_with_retry V d fuel (u32_succ failed)))
      (\<lambda>a s. P s \<and> got V d a s) E"
    by (rule hoare_bindo [OF hoare_still Suc.IH]) (use assms in \<open>auto intro: still\<close>)
  have "hoare P (bindo (asking (payload_retry_delay (se_source V) e (u32_succ failed))) (\<lambda>delay.
      case delay of None \<Rightarrow> fails e
      | Some _ \<Rightarrow> bindo (progress_phase Retrying) (\<lambda>_. receive_delivery_with_retry V d fuel (u32_succ failed))))
      (\<lambda>a s. P s \<and> got V d a s) E" for e
    by (rule hoare_bindo [OF hoare_still])
      (use assms fin again in \<open>auto intro: still split: option.split\<close>)
  then have "hoare (\<lambda>s. case r of Inl e \<Rightarrow> P s | Inr a \<Rightarrow> P s \<and> got V d a s)
      (case r of Inr a \<Rightarrow> retn a
        | Inl e \<Rightarrow> bindo (asking (payload_retry_delay (se_source V) e (u32_succ failed))) (\<lambda>delay.
            case delay of None \<Rightarrow> fails e
            | Some _ \<Rightarrow> bindo (progress_phase Retrying) (\<lambda>_. receive_delivery_with_retry V d fuel (u32_succ failed))))
      (\<lambda>a s. P s \<and> got V d a s) E" for r
    using ok by (cases r) auto
  moreover have "hoare P (attempt (open_and_receive V d))
      (\<lambda>r s. case r of Inl e \<Rightarrow> P s | Inr a \<Rightarrow> P s \<and> got V d a s) E"
    by (rule hoare_attempt [OF hoare_open_and_receive]) (use assms in auto)
  ultimately show ?case
    unfolding receive_delivery_with_retry.simps
    by (intro hoare_bindo [OF hoare_still hoare_bindo]) (use assms in \<open>auto intro: still\<close>)
qed

lemma got_repaired: "got V d a s \<Longrightarrow> stored V (rn_library s) (repair_record V a r)"
  by (simp add: got_def stored_def repair_record_def)

lemma got_new: "got V d a s \<Longrightarrow> stored V (rn_library s) (new_record V d a now)"
  by (simp add: got_def stored_def new_record_def)

lemma dr_id_kept [simp]:
  "dr_id (set_error e r) = dr_id r" "dr_id (repair_record V a r) = dr_id r"
  "dr_id (mark_acknowledged b now r) = dr_id r" "dr_id (interrupted r) = dr_id r"
  "dr_id (not_applicable r) = dr_id r" "dr_id (not_configured r) = dr_id r"
  "dr_id (broken_file e r) = dr_id r" "dr_id (running r) = dr_id r" "dr_id (applied now r) = dr_id r"
  "dr_id (apply_failed e1 r) = dr_id r"
  by (simp_all add: set_error_def repair_record_def mark_acknowledged_def interrupted_def not_applicable_def
      not_configured_def broken_file_def running_def applied_def apply_failed_def)

lemma hoare_edit_repaired:
  "hoare (\<lambda>s. calls_safe V R s \<and> got V d a s \<and> record_of i s \<noteq> None) (edit_record i (repair_record V a))
     (\<lambda>_ s. calls_safe V (R - {i}) s \<and> holding V i s) E"
  by (rule hoareI)
    (auto simp: edit_record_def op_defs calls_safe_def holding_def got_repaired split: if_splits)

lemma hoare_insert_new:
  "hoare (\<lambda>s. calls_safe V R s \<and> got V d a s) (insert_record (new_record V d a now))
     (\<lambda>_ s. calls_safe V (R - {d_id d}) s \<and> holding V (d_id d) s
        \<and> record_of (d_id d) s = Some (new_record V d a now)) E"
proof -
  have i: "dr_id (new_record V d a now) = d_id d" by (simp add: new_record_def)
  show ?thesis
    by (rule hoareI)
      (auto simp: insert_record_def op_defs calls_safe_def holding_def record_of_def i dest: got_new split: if_splits)
qed

lemma moves_quarantine: "moves same_but_library (quarantine V r)"
  unfolding quarantine_def
  by (intro moves_bindo [OF same_trans(2)] moves_weaken moves_any_library still)

lemma moves_cleanup: "moves same_but_staging (on_library cleanup_staging)"
  by (rule moves_library) (rule cleanup_staging_same)

lemma hoare_repair:
  assumes "cf_library_dir (se_config V) \<noteq> []"
  shows "hoare (\<lambda>s. calls_safe V R s \<and> record_of (d_id d) s \<noteq> None) (repair_delivery V fuel d r)
      (\<lambda>_ s. calls_safe V UNIV s \<and> holding V (d_id d) s) (calls_safe V (R - {d_id d}))"
    (is "hoare ?P _ ?Q ?E")
proof -
  have P: "stable same_but_library ?P" "\<And>s. ?P s \<Longrightarrow> ?E s"
    by (auto elim: calls_safe_mono)
  have fail: "hoare ?P (bindo (edit_record (d_id d) (set_error e)) (\<lambda>_. bindo (progress_save V) (\<lambda>_. fails e))) ?Q ?E" for e
    unfolding bindo_assoc [symmetric]
  proof (rule hoare_bindo)
    show "hoare ?P (bindo (edit_record (d_id d) (set_error e)) (\<lambda>_. progress_save V)) (\<lambda>_. calls_safe V UNIV) ?E"
      by (rule hoare_strengthen [OF hoare_edit_save]) auto
    show "hoare (calls_safe V UNIV) (fails e) ?Q ?E"
      by (rule hoareI) (auto simp: fails_def elim: calls_safe_mono)
  qed
  let ?G = "\<lambda>a s. calls_safe V R s \<and> got V d a s \<and> record_of (d_id d) s \<noteq> None"
  have fin: "hoare (?G a) (bindo (on_library cleanup_staging) (\<lambda>n.
      bindo (count (\<lambda>y. y\<lparr>sy_stale_removed := sy_stale_removed y + n\<rparr>)) (\<lambda>_.
      bindo (edit_record (d_id d) (repair_record V a)) (\<lambda>_.
      bindo (progress_save V) (\<lambda>_. count (\<lambda>y. y\<lparr>sy_repaired := sy_repaired y + 1\<rparr>)))))) ?Q ?E" for a
  proof (intro hoare_bindo)
    show "hoare (?G a) (on_library cleanup_staging) (\<lambda>_. ?G a) ?E"
      by (rule hoare_moves [OF moves_cleanup]) (auto elim: calls_safe_mono)
    show "hoare (?G a) (count (\<lambda>y. y\<lparr>sy_stale_removed := sy_stale_removed y + n\<rparr>)) (\<lambda>_. ?G a) ?E" for n
      by (rule hoare_still) (auto intro: still elim: calls_safe_mono)
    show "hoare (?G a) (edit_record (d_id d) (repair_record V a))
        (\<lambda>_ s. calls_safe V (R - {d_id d}) s \<and> holding V (d_id d) s) ?E"
      by (rule hoare_edit_repaired)
    show "hoare (\<lambda>s. calls_safe V (R - {d_id d}) s \<and> holding V (d_id d) s) (progress_save V)
        (\<lambda>_ s. calls_safe V UNIV s \<and> holding V (d_id d) s) ?E"
      by (rule hoare_progress_save_holding) simp
    show "hoare (\<lambda>s. calls_safe V UNIV s \<and> holding V (d_id d) s)
        (count (\<lambda>y. y\<lparr>sy_repaired := sy_repaired y + 1\<rparr>)) ?Q ?E"
      by (rule hoare_still) (auto intro: still elim: calls_safe_mono)
  qed
  have rec: "hoare ?P (attempt (receive_delivery_with_retry V d fuel 0))
      (\<lambda>q s. case q of Inl e \<Rightarrow> ?P s | Inr a \<Rightarrow> ?G a s) ?E"
    by (rule hoare_attempt [OF hoare_weaken [OF hoare_receive_delivery [OF assms P(1), where E = ?P]]]) auto
  show ?thesis
    unfolding repair_delivery_def
  proof (intro hoare_bindo)
    show "hoare ?P (progress_phase Retrying) (\<lambda>_. ?P) ?E"
      by (rule hoare_still) (use P in \<open>auto intro: still\<close>)
    show "hoare ?P (quarantine V r) (\<lambda>_. ?P) ?E" by (rule hoare_moves [OF moves_quarantine P])
    show "hoare ?P (attempt (receive_delivery_with_retry V d fuel 0))
      (\<lambda>q s. case q of Inl e \<Rightarrow> ?P s | Inr a \<Rightarrow> ?G a s) ?E" by (rule rec)
  qed (use fail fin in \<open>auto split: sum.split\<close>)
qed

section \<open>Acknowledging\<close>

lemma stable_exact [intro, simp]:
  "stable same_run (\<lambda>s. record_of i s = Some r)" "stable same_but_library (\<lambda>s. record_of i s = Some r)"
  by (auto simp: stable_def same_run_def same_but_library_def record_of_def)

text \<open>The acknowledgement of a record at hand, and what follows in either case.\<close>

lemma hoare_acknowledge_then:
  assumes "i \<in> R" and "sha = dr_sha256 r"
    and "\<And>e. hoare (calls_safe V R) (f e) Q E" and "\<And>x. hoare (calls_safe V R) (g x) Q E"
  shows "hoare (\<lambda>s. calls_safe V R s \<and> holding V i s \<and> record_of i s = Some r)
      (bindo (attempt (call_acknowledge V i sha)) (\<lambda>a. case a of Inl e \<Rightarrow> f e | Inr x \<Rightarrow> g x)) Q E"
proof (rule hoare_bindo [OF hoare_attempt [OF hoare_call_acknowledge [OF assms(1,2)]]])
  show "hoare (\<lambda>s. case a of Inl e \<Rightarrow> calls_safe V R s | Inr x \<Rightarrow> calls_safe V R s)
      (case a of Inl e \<Rightarrow> f e | Inr x \<Rightarrow> g x) Q E" for a
    using assms(3,4) by (cases a) auto
qed

lemma hoare_snapshot:
  "(\<And>s. P s \<Longrightarrow> E s) \<Longrightarrow> hoare P (snapshot i) (\<lambda>r s. P s \<and> record_of i s = Some r) E"
  by (rule hoareI) (auto simp: snapshot_def op_defs of_option_def split: option.splits)

lemma hoare_settle:
  assumes "Q \<subseteq> R - {i}"
  shows "hoare (calls_safe V R) (settle_acknowledgement V i r) (\<lambda>_. calls_safe V Q) (calls_safe V Q)"
proof -
  have e: "hoare (calls_safe V R) (bindo (edit_record i (mark_acknowledged b now)) (\<lambda>_.
      bindo (progress_save V) (\<lambda>_. m))) (\<lambda>_. calls_safe V Q) (calls_safe V Q)"
    if "moves same_run m" for b now m
    by (rule hoare_edit_save_then) (use assms that in auto)
  show ?thesis
    unfolding settle_acknowledgement_def
    by (intro hoare_if hoare_bindo [OF hoare_still e] hoare_retn)
      (use assms in \<open>auto intro: still elim: calls_safe_mono\<close>)
qed

lemma hoare_existing:
  assumes "cf_library_dir (se_config V) \<noteq> []" and "d_id d \<in> R"
  shows "hoare (\<lambda>s. calls_safe V R s \<and> record_of (d_id d) s = Some r) (process_existing V fuel d r)
      (\<lambda>_. calls_safe V (R - {d_id d})) (calls_safe V (R - {d_id d}))"
    (is "hoare ?P _ ?Q ?E")
proof -
  let ?H = "\<lambda>s. calls_safe V R s \<and> holding V (d_id d) s"
  have down: "calls_safe V UNIV s \<Longrightarrow> calls_safe V R s" "calls_safe V R s \<Longrightarrow> ?E s" for s
    by (auto elim: calls_safe_mono)
  have fail: "hoare (calls_safe V R) (bindo (edit_record (d_id d) (set_error e)) (\<lambda>_. bindo (progress_save V) (\<lambda>_. fails e))) ?Q ?E" for e
    by (rule hoare_edit_save_then) (auto intro: still)
  have okay: "hoare (calls_safe V R) (bindo (settle_acknowledgement V (d_id d) q) (\<lambda>_.
      if b then count (\<lambda>y. y\<lparr>sy_already_stored := sy_already_stored y + 1\<rparr>) else retn ())) ?Q ?E" for q b
    by (rule hoare_bindo [OF hoare_settle hoare_still]) (auto intro: still)
  have ack: "hoare (\<lambda>s. ?H s \<and> record_of (d_id d) s = Some q)
      (bindo (attempt (call_acknowledge V (dr_id q) (dr_sha256 q))) (\<lambda>a. case a of
         Inl e \<Rightarrow> bindo (edit_record (d_id d) (set_error e)) (\<lambda>_. bindo (progress_save V) (\<lambda>_. fails e))
       | Inr _ \<Rightarrow> bindo (settle_acknowledgement V (d_id d) q) (\<lambda>_.
           if b then count (\<lambda>y. y\<lparr>sy_already_stored := sy_already_stored y + 1\<rparr>) else retn ()))) ?Q ?E" for q b
  proof (rule hoare_pre_imp)
    show "?H s \<and> record_of (d_id d) s = Some q \<Longrightarrow> dr_id q = d_id d" for s
      by (auto simp: calls_safe_def)
    assume i: "dr_id q = d_id d"
    show ?thesis unfolding i
      by (rule hoare_strengthen [OF hoare_acknowledge_then [OF assms(2) refl fail okay, where r = q]]) auto
  qed
  have repair: "hoare (\<lambda>s. ?P s \<and> b = is_ok (verify_record V r s))
      (if b then retn () else repair_delivery V fuel d r) (\<lambda>_. ?H) ?E" for b
  proof (rule hoare_if)
    assume b
    then show "hoare (\<lambda>s. ?P s \<and> b = is_ok (verify_record V r s)) (retn ()) (\<lambda>_. ?H) ?E"
      by (intro hoare_retn) (auto simp: is_ok_iff holding_def dest: verify_record_stored)
  next
    assume "\<not> b"
    show "hoare (\<lambda>s. ?P s \<and> b = is_ok (verify_record V r s)) (repair_delivery V fuel d r) (\<lambda>_. ?H) ?E"
      by (rule hoare_conseq [OF hoare_repair [OF assms(1)]]) (auto intro: down)
  qed
  have tail: "hoare ?H (bindo (snapshot (d_id d)) (\<lambda>q. bindo (readso (\<lambda>s. Inr (fp_active (rn_progress s)))) (\<lambda>active.
      bindo (if active then progress_phase Confirming else retn ()) (\<lambda>_.
      bindo (attempt (call_acknowledge V (dr_id q) (dr_sha256 q))) (\<lambda>a. case a of
         Inl e \<Rightarrow> bindo (edit_record (d_id d) (set_error e)) (\<lambda>_. bindo (progress_save V) (\<lambda>_. fails e))
       | Inr _ \<Rightarrow> bindo (settle_acknowledgement V (d_id d) q) (\<lambda>_.
           if b then count (\<lambda>y. y\<lparr>sy_already_stored := sy_already_stored y + 1\<rparr>) else retn ()))))))
      ?Q ?E" for b
    by (rule hoare_bindo [OF hoare_snapshot], use down in blast)
      (rule hoare_bindo [OF hoare_still hoare_bindo [OF hoare_still ack]]; (auto intro: still down)?)
  show ?thesis
    unfolding process_existing_def
    by (rule hoare_bindo [OF hoare_still], (auto intro: still down)[3])
      (rule hoare_bindo [OF hoare_still], (auto intro: still down)[3],
       rule hoare_bindo [OF hoare_readso_any hoare_bindo [OF repair tail]], use down in blast)
qed

lemma hoare_new:
  assumes "cf_library_dir (se_config V) \<noteq> []" and "d_id d \<in> R"
  shows "hoare (calls_safe V R) (process_new V fuel d)
      (\<lambda>_. calls_safe V (R - {d_id d})) (calls_safe V (R - {d_id d}))"
    (is "hoare ?P _ ?Q ?E")
proof -
  have down: "calls_safe V R s \<Longrightarrow> ?E s" "calls_safe V UNIV s \<Longrightarrow> ?E s" for s
    by (auto elim: calls_safe_mono)
  let ?G = "\<lambda>a s. calls_safe V R s \<and> got V d a s"
  let ?N = "\<lambda>R a now s. calls_safe V R s \<and> holding V (d_id d) s \<and> record_of (d_id d) s = Some (new_record V d a now)"
  have fail: "hoare (calls_safe V UNIV) (bindo (edit_record (d_id d) (set_error e)) (\<lambda>_. bindo (progress_save V) (\<lambda>_. push_failure (d_id d) e))) ?Q ?E" for e
    by (rule hoare_edit_save_then) (auto intro: still)
  have okay: "hoare (calls_safe V UNIV) (bindo (unix_now V) (\<lambda>now. bindo (edit_record (d_id d) (mark_acknowledged True now)) (\<lambda>_.
      bindo (progress_save V) (\<lambda>_. count (\<lambda>y. y\<lparr>sy_acknowledged := sy_acknowledged y + 1\<rparr>))))) ?Q ?E"
    by (rule hoare_bindo [OF hoare_still hoare_edit_save_then]) (auto intro: still down)
  have confirm: "hoare (?N UNIV a now) (confirm_new V d) ?Q ?E" if "sa_sha256 a = d_sha256 d" for a now
    unfolding confirm_new_def
    by (rule hoare_bindo [OF hoare_still hoare_acknowledge_then [OF _ _ fail okay]])
      (use that in \<open>auto intro: still down simp: new_record_def\<close>)
  have save: "hoare (?N (R - {d_id d}) a now) (progress_save V) (\<lambda>_. ?N UNIV a now) ?E" for a now
  proof (rule hoareI)
    fix s x t assume a: "?N (R - {d_id d}) a now s" "progress_save V s = (Inr x, t)"
    with hoare_ok [OF hoare_progress_save_holding [of "R - {d_id d}" "R - {d_id d}" V "d_id d"], of s x t]
    show "?N UNIV a now t" using progress_save_keeps [OF a(2)] by (auto simp: record_of_def)
  qed (use hoare_err [OF hoare_progress_save_holding [of "R - {d_id d}" "R - {d_id d}" V "d_id d"]] in blast)
  have rest: "hoare (?G a) (bindo (unix_now V) (\<lambda>now.
      bindo (if is_image_media_type (sa_media_type a) then retn ()
        else count (\<lambda>y. y\<lparr>sy_not_applicable := sy_not_applicable y + 1\<rparr>)) (\<lambda>_.
      bindo (insert_record (new_record V d a now)) (\<lambda>_.
      bindo (progress_save V) (\<lambda>_.
      bindo (count (\<lambda>y. y\<lparr>sy_received := sy_received y + 1\<rparr>)) (\<lambda>_. confirm_new V d)))))) ?Q ?E" for a
  proof (rule hoare_pre_imp)
    show "?G a s \<Longrightarrow> sa_sha256 a = d_sha256 d" for s by (simp add: got_def)
    assume sha: "sa_sha256 a = d_sha256 d"
    show ?thesis
      by (rule hoare_bindo [OF hoare_still hoare_bindo [OF hoare_still hoare_bindo [OF hoare_insert_new
            hoare_bindo [OF save hoare_bindo [OF hoare_still confirm [OF sha]]]]]])
        (auto intro: still down)
  qed
  show ?thesis
    unfolding process_new_def
    by (rule hoare_bindo [OF hoare_weaken [OF hoare_receive_delivery [OF assms(1), where P = ?P and E = ?P]] rest])
      (auto intro: down)
qed

lemma hoare_process:
  assumes "cf_library_dir (se_config V) \<noteq> []" and "d_id d \<in> R"
  shows "hoare (calls_safe V R) (process_delivery V fuel d)
      (\<lambda>_. calls_safe V (R - {d_id d})) (calls_safe V (R - {d_id d}))"
  unfolding process_delivery_def
proof (rule hoare_bindo [OF hoare_readso_any])
  show "hoare (\<lambda>s. calls_safe V R s \<and> r = record_of (d_id d) s)
      (case r of None \<Rightarrow> process_new V fuel d | Some existing \<Rightarrow> process_existing V fuel d existing)
      (\<lambda>_. calls_safe V (R - {d_id d})) (calls_safe V (R - {d_id d}))" for r
    by (cases r) (auto intro: hoare_strengthen [OF hoare_new [OF assms]] hoare_strengthen [OF hoare_existing [OF assms]])
qed (auto elim: calls_safe_mono)

lemma hoare_sync_delivery:
  assumes "cf_library_dir (se_config V) \<noteq> []" and "d_id d \<in> R"
  shows "hoare (calls_safe V R) (sync_delivery V fuel d)
      (\<lambda>_. calls_safe V (R - {d_id d})) (calls_safe V (R - {d_id d}))"
proof -
  have s: "hoare (calls_safe V (R - {d_id d})) (bindo (settle_with dr_delivery_error q) (\<lambda>_.
      case q of Inl e \<Rightarrow> push_failure (d_id d) e | Inr _ \<Rightarrow> retn ()))
      (\<lambda>_. calls_safe V (R - {d_id d})) (calls_safe V (R - {d_id d}))" for q :: "error + unit"
    by (rule hoare_still) (auto intro: still split: sum.split)
  have p: "hoare (calls_safe V R) (attempt (process_delivery V fuel d)) (\<lambda>_. calls_safe V (R - {d_id d})) E" for E
    by (rule hoare_weaken [OF hoare_attempt [OF hoare_process [OF assms]]]) (auto split: sum.splits)
  show ?thesis
    unfolding sync_delivery_def
    by (rule hoare_bindo [OF hoare_still hoare_bindo [OF hoare_still hoare_bindo [OF p s]]])
      (auto intro: still elim: calls_safe_mono)
qed

lemma hoare_sync_deliveries:
  assumes "cf_library_dir (se_config V) \<noteq> []" and "distinct (List.map d_id ds)" and "d_id ` set ds \<subseteq> R"
  shows "hoare (calls_safe V R) (sync_deliveries V fuel handled ds repair) (\<lambda>_. calls_safe V {}) (calls_safe V {})"
  using assms(2,3)
proof (induction ds arbitrary: R repair)
  case Nil
  then show ?case by (auto intro: hoare_retn elim: calls_safe_mono)
next
  case (Cons d ds)
  have n: "d_id ` set ds \<subseteq> R" "d_id ` set ds \<subseteq> R - {d_id d}"
    using Cons.prems by (simp_all add: subset_Diff_insert)
  have s: "hoare (calls_safe V R) (sync_delivery V fuel d) (\<lambda>_. calls_safe V (R - {d_id d})) (calls_safe V {})"
    by (rule hoare_weaken [OF hoare_sync_delivery [OF assms(1)]]) (use Cons.prems in \<open>auto elim: calls_safe_mono\<close>)
  have i: "hoare (calls_safe V R) (sync_deliveries V fuel handled ds repair) (\<lambda>_. calls_safe V {}) (calls_safe V {})"
      "hoare (calls_safe V (R - {d_id d})) (sync_deliveries V fuel handled ds (AList.delete (d_id d) repair)) (\<lambda>_. calls_safe V {}) (calls_safe V {})"
    using n Cons.prems(1) by (auto intro: Cons.IH)
  show ?case
    unfolding sync_deliveries.simps
    by (intro hoare_if hoare_bindo [OF hoare_still i(1)] hoare_bindo [OF s i(2)])
      (auto intro: still elim: calls_safe_mono)
qed

section \<open>Reconciliation and wallpapers\<close>

lemma hoare_for_each:
  "(\<And>x. hoare P (f x) (\<lambda>_. P) E) \<Longrightarrow> (\<And>s. P s \<Longrightarrow> E s) \<Longrightarrow> hoare P (for_each f xs) (\<lambda>_. P) E"
  by (induction xs) (auto intro: hoare_retn hoare_bindo)

lemma hoare_edit_any:
  assumes "\<And>r. dr_id (f r) = dr_id r"
  shows "hoare (calls_safe V {}) (edit_record i f) (\<lambda>_. calls_safe V {}) E"
  by (rule hoare_weaken [OF hoare_edit [OF assms]]) auto

lemma hoare_save_any: "hoare (calls_safe V {}) (state_save V) (\<lambda>_. calls_safe V UNIV) (calls_safe V {})"
  by (rule hoare_state_save) simp

lemma hoare_reconcile_interrupted:
  "hoare (calls_safe V UNIV) (reconcile_interrupted_wallpapers V) (\<lambda>_. calls_safe V UNIV) (calls_safe V {})"
proof -
  have "hoare (calls_safe V UNIV) (bindo (for_each (\<lambda>i. edit_record i interrupted) ids) (\<lambda>_. state_save V))
      (\<lambda>_. calls_safe V UNIV) (calls_safe V {})" for ids
    by (rule hoare_bindo [OF hoare_strengthen [OF hoare_for_each [OF hoare_edit_any]] hoare_save_any])
      (auto elim: calls_safe_mono)
  then show ?thesis
    unfolding reconcile_interrupted_wallpapers_def
    by (intro hoare_bindo [OF hoare_still hoare_if] hoare_retn) (auto intro: still elim: calls_safe_mono)
qed

lemma hoare_reconcile_step:
  "hoare (\<lambda>s. calls_safe V UNIV s \<and> record_of i s = Some r) (reconcile_ack_step V i r)
     (\<lambda>_. calls_safe V UNIV) (calls_safe V {})"
    (is "hoare ?P _ ?Q ?E")
proof -
  let ?A = "\<lambda>s. calls_safe V UNIV s \<and> holding V i s \<and> record_of i s = Some r"
  have esave: "hoare (calls_safe V UNIV) (bindo (edit_record i f) (\<lambda>_. bindo (progress_save V) (\<lambda>_. m))) ?Q ?E"
    if "\<And>r. dr_id (f r) = dr_id r" "moves same_run m" for f and m :: "('a, error option) sync"
    unfolding bindo_assoc [symmetric]
    by (rule hoare_bindo [OF hoare_edit_save [OF that(1)] hoare_still [OF that(2)]]) (auto elim: calls_safe_mono)
  have fail: "hoare (calls_safe V UNIV) (bindo (edit_record i (set_error e)) (\<lambda>_. bindo (progress_save V) (\<lambda>_.
      bindo (push_failure i e) (\<lambda>_. retn None)))) ?Q ?E" for e
    by (rule esave) (auto intro: still)
  have okay: "hoare (calls_safe V UNIV) (bindo (unix_now V) (\<lambda>now. bindo (edit_record i (mark_acknowledged True now)) (\<lambda>_.
      bindo (progress_save V) (\<lambda>_. bindo (count (\<lambda>y. y\<lparr>sy_acknowledged := sy_acknowledged y + 1\<rparr>)) (\<lambda>_. retn None))))) ?Q ?E"
    by (rule hoare_bindo [OF hoare_still esave]) (auto intro: still elim: calls_safe_mono)
  have ack: "hoare ?A (bindo (progress_phase Confirming) (\<lambda>_.
      bindo (attempt (call_acknowledge V (dr_id r) (dr_sha256 r))) (\<lambda>a. case a of
        Inl e \<Rightarrow> bindo (edit_record i (set_error e)) (\<lambda>_. bindo (progress_save V) (\<lambda>_.
          bindo (push_failure i e) (\<lambda>_. retn None)))
      | Inr _ \<Rightarrow> bindo (unix_now V) (\<lambda>now. bindo (edit_record i (mark_acknowledged True now)) (\<lambda>_.
          bindo (progress_save V) (\<lambda>_. bindo (count (\<lambda>y. y\<lparr>sy_acknowledged := sy_acknowledged y + 1\<rparr>)) (\<lambda>_.
          retn None))))))) ?Q ?E"
  proof (rule hoare_pre_imp)
    show "?A s \<Longrightarrow> dr_id r = i" for s by (auto simp: calls_safe_def)
    assume i: "dr_id r = i"
    show ?thesis unfolding i
      by (rule hoare_bindo [OF hoare_still hoare_acknowledge_then [OF _ refl fail okay]])
        (auto intro: still elim: calls_safe_mono)
  qed
  have broken: "hoare ?P (bindo (edit_record i (set_error e)) (\<lambda>_. bindo (progress_save V) (\<lambda>_. retn (Some e)))) ?Q ?E" for e
    by (rule hoare_strengthen [OF esave]) (auto intro: still)
  have verify: "hoare ?P (attempt (readso (verify_record V r))) (\<lambda>v s. case v of Inl e \<Rightarrow> ?P s | Inr x \<Rightarrow> ?A s) ?E"
    by (rule hoareI) (auto simp: attempt_def op_defs holding_def dest: verify_record_stored split: sum.splits)
  show ?thesis
    unfolding reconcile_ack_step_def
    by (rule hoare_bindo [OF hoare_still hoare_bindo [OF verify]])
      (use ack broken in \<open>auto intro: still elim: calls_safe_mono split: sum.split\<close>)
qed

lemma hoare_reconcile_acks:
  "hoare (calls_safe V UNIV) (reconcile_acks V ids handled repair) (\<lambda>_. calls_safe V UNIV) (calls_safe V {})"
proof (induction ids arbitrary: handled repair)
  case Nil
  show ?case by (auto intro: hoare_retn)
next
  case (Cons i ids)
  have step: "hoare (\<lambda>s. calls_safe V UNIV s \<and> record_of i s = Some r) (attempt (reconcile_ack_step V i r))
      (\<lambda>q s. case q of Inl e \<Rightarrow> calls_safe V {} s | Inr x \<Rightarrow> calls_safe V UNIV s) (calls_safe V {})" for r
    by (rule hoare_attempt [OF hoare_reconcile_step])
  have tail: "hoare (\<lambda>s. case q of Inl e \<Rightarrow> calls_safe V {} s | Inr x \<Rightarrow> calls_safe V UNIV s)
      (bindo (settle_with dr_delivery_error q) (\<lambda>_. bindo (lifto q) (\<lambda>outcome.
        case outcome of None \<Rightarrow> reconcile_acks V ids (i # handled) repair
        | Some e \<Rightarrow> reconcile_acks V ids handled (bt_insert i e repair)))) (\<lambda>_. calls_safe V UNIV) (calls_safe V {})" for q
  proof (cases q)
    case (Inl e)
    have l: "hoare (calls_safe V {}) (lifto (Inl e)) (\<lambda>_ _. False) (calls_safe V {})"
      by (rule hoareI) (auto simp: op_defs)
    have n: "hoare (\<lambda>_. False) m Q' E'" for m :: "('a, string list \<times> (string \<times> error) list) sync" and Q' E'
      by (rule hoareI) auto
    show ?thesis unfolding Inl sum.case
      by (rule hoare_bindo [OF hoare_still hoare_bindo [OF l n]]) (auto intro: still)
  next
    case (Inr x)
    show ?thesis unfolding Inr
      by (rule hoare_bindo [OF hoare_still hoare_bindo [OF hoare_still]])
        (use Cons.IH in \<open>auto intro: still elim: calls_safe_mono split: option.split\<close>)
  qed
  show ?case
    unfolding reconcile_acks.simps
    by (rule hoare_bindo [OF hoare_snapshot hoare_bindo [OF hoare_still hoare_bindo [OF step tail]]])
      (auto intro: still elim: calls_safe_mono)
qed

lemma hoare_run_wallpaper:
  "hoare (\<lambda>s. calls_safe V {} s \<and> record_of i s = Some r) (run_wallpaper V i r) (\<lambda>_. calls_safe V {}) (calls_safe V {})"
    (is "hoare ?P _ ?Q ?E")
proof -
  let ?S = "\<lambda>R s. calls_safe V R s \<and> record_of i s = Some (running r) \<and> stored V (rn_library s) (running r)"
  have esave: "hoare (calls_safe V R) (bindo (edit_record i f) (\<lambda>_. bindo (progress_save V) (\<lambda>_. m))) ?Q ?E"
    if "\<And>r. dr_id (f r) = dr_id r" "moves same_run m" for f and m :: "('a, unit) sync" and R
    by (rule hoare_edit_save_then) (use that in auto)
  have broken: "hoare ?P (bindo (edit_record i (broken_file e)) (\<lambda>_. bindo (progress_save V) (\<lambda>_. push_failure i e))) ?Q ?E" for e
    by (rule hoare_strengthen [OF esave]) (auto intro: still)
  have verify: "hoare ?P (attempt (readso (verify_record V r)))
      (\<lambda>v s. case v of Inl e \<Rightarrow> ?P s | Inr x \<Rightarrow> ?P s \<and> stored V (rn_library s) r) ?E"
    by (rule hoareI) (auto simp: attempt_def op_defs dest: verify_record_stored split: sum.splits)
  have run: "stored V lib (running q) = stored V lib q" for lib q by (simp add: stored_def running_def)
  have edit: "hoare (\<lambda>s. ?P s \<and> stored V (rn_library s) r) (edit_record i running) (\<lambda>_. ?S {}) ?E"
  proof (rule hoareI)
    fix s x t assume a: "?P s \<and> stored V (rn_library s) r" "edit_record i running s = (Inr x, t)"
    then have "calls_safe V {} t"
      using hoare_ok [OF hoare_edit_any [of running V i ?E]] by auto
    then show "?S {} t" using a by (auto simp: edit_record_def op_defs run)
  qed (auto simp: edit_record_def op_defs)
  have save: "hoare (?S {}) (progress_save V) (\<lambda>_. ?S UNIV) ?E"
  proof (rule hoareI)
    fix s x t assume a: "?S {} s" "progress_save V s = (Inr x, t)"
    with hoare_ok [OF hoare_progress_save [of "{}" "{}" V]] have "calls_safe V UNIV t" by blast
    with a(1) progress_save_keeps [OF a(2)] show "?S UNIV t" by (simp add: record_of_def)
  qed (use hoare_err [OF hoare_progress_save [of "{}" "{}" V]] in blast)
  have call: "hoare (?S UNIV) (call_apply V r) (\<lambda>_. calls_safe V UNIV) ?E"
  proof (rule hoareI)
    fix s x t assume a: "?S UNIV s" "call_apply V r s = (Inr x, t)"
    let ?c = "ApplyCall (dr_id r) (rn_saved s) (rn_library s)"
    have "dr_id (running r) = i" using a(1) unfolding calls_safe_def by blast
    then have i: "dr_id r = i" by simp
    have "saved_record (rn_saved s) i = Some (running r)" using a(1) by (simp add: calls_safe_def)
    then have "safe_call V ?c" using a(1) by (simp add: safe_call_def i running_def)
    moreover have "rn_calls t = rn_calls s @ [?c] \<and> rn_saved t = rn_saved s \<and> rn_state t = rn_state s"
      using a(2) by (auto simp: call_apply_def logging_def op_defs asking_def bindo_def split: prod.splits)
    ultimately show "calls_safe V UNIV t" using a(1) by (auto simp: calls_safe_def record_of_def)
  qed (auto simp: call_apply_def logging_def op_defs asking_def bindo_def split: prod.splits)
  have out: "hoare (calls_safe V UNIV) (record_outcome V i a) ?Q ?E" for a
    unfolding record_outcome_def
    by (auto intro!: esave hoare_bindo [OF hoare_still] intro: still elim: calls_safe_mono
        split: sum.split apply_outcome.split)
  have start: "hoare (\<lambda>s. ?P s \<and> stored V (rn_library s) r) (bindo (edit_record i running) (\<lambda>_. bindo (progress_save V) (\<lambda>_.
      bindo (progress_phase ApplyingWallpaper) (\<lambda>_. bindo (call_apply V r) (record_outcome V i))))) ?Q ?E"
  proof (rule hoare_bindo [OF edit hoare_bindo [OF save hoare_bindo [OF _ hoare_bindo [OF call out]]]])
    show "hoare (?S UNIV) (progress_phase ApplyingWallpaper) (\<lambda>_. ?S UNIV) ?E"
      by (rule hoareI) (auto simp: progress_phase_def op_defs Let_def calls_safe_def record_of_def)
  qed
  show ?thesis
    unfolding run_wallpaper_def
    by (rule hoare_bindo [OF hoare_still hoare_bindo [OF verify]])
      (use start broken in \<open>auto intro: still split: sum.split\<close>)
qed

lemma hoare_process_candidate:
  "hoare (calls_safe V {}) (process_candidate V i) (\<lambda>_. calls_safe V {}) (calls_safe V {})"
proof -
  have none: "hoare (\<lambda>s. calls_safe V {} s \<and> record_of i s = Some r) (bindo (edit_record i not_configured) (\<lambda>_.
      bindo (state_save V) (\<lambda>_. count f))) (\<lambda>_. calls_safe V {}) (calls_safe V {})" for r f
    unfolding bindo_assoc [symmetric]
    by (rule hoare_strengthen [OF hoare_bindo [OF hoare_edit_state_save [of _ "{}" "{}"] hoare_conseq [OF hoare_still]]])
      (auto intro: still elim: calls_safe_mono)
  have one: "hoare (\<lambda>s. calls_safe V {} s \<and> record_of i s = Some r) (attempt (run_wallpaper V i r))
      (\<lambda>_. calls_safe V {}) (calls_safe V {})" for r
    by (rule hoare_weaken [OF hoare_attempt [OF hoare_run_wallpaper]]) (auto split: sum.splits)
  show ?thesis
    unfolding process_candidate_def
    by (rule hoare_bindo [OF hoare_snapshot hoare_if [OF none hoare_bindo [OF hoare_still
            hoare_bindo [OF one hoare_bindo [OF hoare_still hoare_still]]]]])
      (auto intro: still)
qed

lemma hoare_wallpaper_queue:
  "hoare (calls_safe V {}) (process_wallpaper_queue V mode) (\<lambda>_. calls_safe V {}) (calls_safe V {})"
proof -
  have legacy: "hoare (calls_safe V {}) (drop_legacy V) (\<lambda>_. calls_safe V {}) (calls_safe V {})"
    unfolding drop_legacy_def
    by (intro hoare_bindo [OF hoare_still] hoare_if hoare_retn hoare_bindo [OF hoare_for_each]
        hoare_weaken [OF hoare_save_any] hoare_bindo [OF hoare_edit_any hoare_still])
      (auto intro: still elim: calls_safe_mono)
  show ?thesis
    unfolding process_wallpaper_queue_def
    by (rule hoare_bindo [OF legacy hoare_bindo [OF hoare_still hoare_for_each]])
      (auto intro: still hoare_process_candidate)
qed

section \<open>A whole run\<close>

definition scan_distinct :: "'w delivery_source \<Rightarrow> bool" where
  "scan_distinct S \<longleftrightarrow>
     (\<forall>mx w scan u. scan_pending S mx w = (Inr scan, u) \<longrightarrow> distinct (List.map d_id (sc_deliveries scan)))"

definition no_unsafe :: "'w setting \<Rightarrow> 'w run \<Rightarrow> bool" where
  "no_unsafe V s \<longleftrightarrow> (\<forall>c \<in> set (rn_calls s). safe_call V c)"

lemma stable_no_unsafe [intro, simp]: "stable same_but_library (no_unsafe V)" "stable same_run (no_unsafe V)"
  by (auto simp: stable_def same_run_def same_but_library_def no_unsafe_def)

lemma calls_safe_no_unsafe: "calls_safe V R s \<Longrightarrow> no_unsafe V s"
  by (simp add: calls_safe_def no_unsafe_def)

lemma hoare_load_run: "hoare (no_unsafe V) load_run (\<lambda>_. calls_safe V UNIV) (no_unsafe V)"
  by (rule hoareI)
    (auto simp: load_run_def state_load_def op_ok op_defs bindo_err andthen_Inr no_unsafe_def calls_safe_def saved_record_def
      record_of_def app_state_default_def list_all_iff split: state_file.splits dest!: map_of_SomeD)

lemma still_config_ready [still]: "moves same_run (config_ready V)"
  unfolding config_ready_def by (intro still)

lemma config_ready_ok:
  assumes "config_ready V s = (Inr u, t)"
  shows "cf_library_dir (se_config V) \<noteq> []"
  using assms by (auto simp: config_ready_def op_ok config_validate_def andthen_Inr)

lemma hoare_config_ready: "hoare (no_unsafe V) (config_ready V) (\<lambda>_ s. no_unsafe V s \<and> cf_library_dir (se_config V) \<noteq> []) (no_unsafe V)"
proof (rule hoareI)
  fix s x t assume a: "no_unsafe V s" "config_ready V s = (Inr x, t)"
  with config_ready_ok [OF a(2)] movesD [OF still_config_ready a(2)]
  show "no_unsafe V t \<and> cf_library_dir (se_config V) \<noteq> []" by (simp add: no_unsafe_def same_run_def)
next
  fix s e t assume a: "no_unsafe V s" "config_ready V s = (Inl e, t)"
  with movesD [OF still_config_ready a(2)] show "no_unsafe V t" by (simp add: no_unsafe_def same_run_def)
qed

lemma hoare_scan:
  assumes "scan_distinct (se_source V)" and "\<And>s. P s \<Longrightarrow> E s" and "stable same_run P"
  shows "hoare P (outside_op (scan_pending (se_source V) mx))
     (\<lambda>scan s. P s \<and> distinct (List.map d_id (sc_deliveries scan))) E"
proof (rule hoareI)
  fix s x t assume a: "P s" "outside_op (scan_pending (se_source V) mx) s = (Inr x, t)"
  then have "\<exists>u. scan_pending (se_source V) mx (rn_world s) = (Inr x, u)"
    by (auto simp: outside_op_def split: prod.splits)
  with assms(1) have "distinct (List.map d_id (sc_deliveries x))" by (auto simp: scan_distinct_def)
  moreover have "same_run s t" using a(2) by (rule movesD [OF still_run(8)])
  ultimately show "P t \<and> distinct (List.map d_id (sc_deliveries x))" using a(1) assms(3) by (auto simp: stable_def)
next
  fix s e t assume a: "P s" "outside_op (scan_pending (se_source V) mx) s = (Inl e, t)"
  moreover have "same_run s t" using a(2) by (rule movesD [OF still_run(8)])
  ultimately show "E t" using assms by (auto simp: stable_def)
qed

lemma hoare_scanned:
  assumes L: "cf_library_dir (se_config V) \<noteq> []" and "scan_distinct (se_source V)"
  shows "hoare (calls_safe V UNIV)
      (bindo (outside_op (scan_pending (se_source V) (limit_of V))) (\<lambda>scan.
       bindo (for_each (\<lambda>i. push_failure (si_item i) (si_message i)) (sc_issues scan)) (\<lambda>_.
       bindo (sync_deliveries V fuel handled (sc_deliveries scan) repair) (\<lambda>left.
       bindo (for_each (\<lambda>(i, e). push_failure i e) left) (\<lambda>_.
       bindo (process_wallpaper_queue V Automatic) (\<lambda>_.
       readso (\<lambda>s. Inr (rn_summary s))))))))
      (\<lambda>_. no_unsafe V) (no_unsafe V)"
proof (rule hoare_bindo [OF hoare_scan [OF assms(2)]])
  fix scan
  have "hoare (calls_safe V UNIV)
      (sync_deliveries V fuel handled (sc_deliveries scan) repair) (\<lambda>_. calls_safe V {}) (no_unsafe V)"
    if "distinct (List.map d_id (sc_deliveries scan))"
    by (rule hoare_weaken [OF hoare_sync_deliveries [OF L that]]) (auto dest: calls_safe_no_unsafe)
  note one = this
  have q: "hoare (calls_safe V {}) (bindo (process_wallpaper_queue V Automatic) (\<lambda>_. readso (\<lambda>s. Inr (rn_summary s))))
      (\<lambda>_. no_unsafe V) (no_unsafe V)"
    by (rule hoare_bindo [OF hoare_weaken [OF hoare_wallpaper_queue] hoare_still])
      (auto intro: still calls_safe_no_unsafe)
  show "hoare (\<lambda>s. calls_safe V UNIV s \<and> distinct (List.map d_id (sc_deliveries scan)))
      (bindo (for_each (\<lambda>i. push_failure (si_item i) (si_message i)) (sc_issues scan)) (\<lambda>_.
       bindo (sync_deliveries V fuel handled (sc_deliveries scan) repair) (\<lambda>left.
       bindo (for_each (\<lambda>(i, e). push_failure i e) left) (\<lambda>_.
       bindo (process_wallpaper_queue V Automatic) (\<lambda>_.
       readso (\<lambda>s. Inr (rn_summary s)))))))
      (\<lambda>_. no_unsafe V) (no_unsafe V)"
    by (rule hoare_pre_imp [where c = "distinct (List.map d_id (sc_deliveries scan))"], simp)
      (rule hoare_strengthen [OF hoare_bindo [OF hoare_still hoare_bindo [OF one hoare_bindo [OF hoare_still q]]]],
       auto intro: still calls_safe_no_unsafe)
qed (auto dest: calls_safe_no_unsafe)

lemma hoare_sync_once:
  assumes "scan_distinct (se_source V)"
  shows "hoare (no_unsafe V) (sync_once_with_events V fuel) (\<lambda>_. no_unsafe V) (no_unsafe V)"
proof -
  have weak: "hoare P m Q (calls_safe V {}) \<Longrightarrow> hoare P m Q (no_unsafe V)" for P Q and m :: "('a, 'b) sync"
    by (erule hoare_weaken) (auto dest: calls_safe_no_unsafe)
  note p = hoare_pre_imp [where P = "\<lambda>s. no_unsafe V s \<and> cf_library_dir (se_config V) \<noteq> []"
      and c = "cf_library_dir (se_config V) \<noteq> []"]
  have recon: "hoare (calls_safe V UNIV) (reconcile_pending_acks V) (\<lambda>_. calls_safe V UNIV) (calls_safe V {})"
    unfolding reconcile_pending_acks_def
    by (rule hoare_bindo [OF hoare_still hoare_reconcile_acks]) (auto intro: still elim: calls_safe_mono)
  have lib: "hoare P (on_library m) (\<lambda>_. P) (no_unsafe V)"
    if "stable same_but_library P" "\<And>s. P s \<Longrightarrow> no_unsafe V s" for P and m :: "(dir, 'b) op"
    by (rule hoare_moves [OF moves_any_library]) (use that in auto)
  show ?thesis
    unfolding sync_once_with_events_def
  proof (rule hoare_bindo [OF hoare_config_ready p])
    fix u :: unit and s :: "'a run"
    assume L: "cf_library_dir (se_config V) \<noteq> []"
    note rest = hoare_scanned [OF L assms]
    show "hoare (\<lambda>s. no_unsafe V s \<and> cf_library_dir (se_config V) \<noteq> [])
      (bindo (on_library lock_library) (\<lambda>_. bindo load_run (\<lambda>_. bindo (on_library cleanup_staging) (\<lambda>n.
       bindo (count (\<lambda>y. y\<lparr>sy_stale_removed := n\<rparr>)) (\<lambda>_. bindo (reconcile_interrupted_wallpapers V) (\<lambda>_.
       bindo (reconcile_pending_acks V) (\<lambda>(handled, repair).
       bindo (outside_op (scan_pending (se_source V) (limit_of V))) (\<lambda>scan.
       bindo (for_each (\<lambda>i. push_failure (si_item i) (si_message i)) (sc_issues scan)) (\<lambda>_.
       bindo (sync_deliveries V fuel handled (sc_deliveries scan) repair) (\<lambda>left.
       bindo (for_each (\<lambda>(i, e). push_failure i e) left) (\<lambda>_.
       bindo (process_wallpaper_queue V Automatic) (\<lambda>_.
       readso (\<lambda>s. Inr (rn_summary s)))))))))))))) (\<lambda>_. no_unsafe V) (no_unsafe V)"
    proof (rule hoare_strengthen [OF hoare_bindo [OF lib]])
      show "hoare (no_unsafe V) (bindo load_run (\<lambda>_. bindo (on_library cleanup_staging) (\<lambda>n.
       bindo (count (\<lambda>y. y\<lparr>sy_stale_removed := n\<rparr>)) (\<lambda>_. bindo (reconcile_interrupted_wallpapers V) (\<lambda>_.
       bindo (reconcile_pending_acks V) (\<lambda>(handled, repair).
       bindo (outside_op (scan_pending (se_source V) (limit_of V))) (\<lambda>scan.
       bindo (for_each (\<lambda>i. push_failure (si_item i) (si_message i)) (sc_issues scan)) (\<lambda>_.
       bindo (sync_deliveries V fuel handled (sc_deliveries scan) repair) (\<lambda>left.
       bindo (for_each (\<lambda>(i, e). push_failure i e) left) (\<lambda>_.
       bindo (process_wallpaper_queue V Automatic) (\<lambda>_.
       readso (\<lambda>s. Inr (rn_summary s))))))))))))) (\<lambda>_. no_unsafe V) (no_unsafe V)"
        by (rule hoare_bindo [OF hoare_load_run hoare_bindo [OF lib hoare_bindo [OF hoare_still
              hoare_bindo [OF weak [OF hoare_reconcile_interrupted] hoare_bindo [OF weak [OF recon]]]]]])
          (use rest in \<open>auto intro: still dest: calls_safe_no_unsafe split: prod.split\<close>)
    qed auto
  qed simp
qed

text \<open>
  C3. Nothing is acknowledged before it is safe: whenever a synchronisation confirms a delivery to
  its source, whatever fails before or after, the state file on disk has a record of that id with
  the confirmed digest, and the file of the record holds content with that digest, and with the
  size and type of the record. So a device that stops at any moment has lost nothing that the
  source may now delete. The source must not list an id twice.
\<close>

theorem ack_after_save:
  assumes "scan_distinct (se_source V)" and "rn_calls s = []"
    and "sync_once_with_events V fuel s = (r, t)" and "AckCall i sha f lib \<in> set (rn_calls t)"
  shows "\<exists>d. saved_record f i = Some d \<and> dr_sha256 d = sha
     \<and> holds_content (se_ext V) (file_at V lib (dr_stored_path d)) (dr_size d) sha (dr_media_type d)"
proof -
  have "no_unsafe V s" by (simp add: assms(2) no_unsafe_def)
  then have "no_unsafe V t"
    using hoare_ok [OF hoare_sync_once [OF assms(1)]] hoare_err [OF hoare_sync_once [OF assms(1)]] assms(3)
    by (cases r) blast+
  with assms(4) have "safe_call V (AckCall i sha f lib)" by (simp add: no_unsafe_def)
  then show ?thesis by (auto simp: safe_call_def stored_def)
qed

section \<open>Wallpapers are applied at most once\<close>

fun apply_ids :: "call list \<Rightarrow> string list" where
  "apply_ids [] = []"
| "apply_ids (AckCall i sha f lib # cs) = apply_ids cs"
| "apply_ids (ApplyCall i f lib # cs) = i # apply_ids cs"

lemma apply_ids_append [simp]: "apply_ids (xs @ ys) = apply_ids xs @ apply_ids ys"
  by (induction xs rule: apply_ids.induct) auto

text \<open>The states that no automatic run leaves.\<close>

definition settled :: "wallpaper_status set" where
  "settled = {NotApplicable, Applied, Failed, Uncertain}"

text \<open>Before the wallpapers: no command was run, the keys are in order, and the ids in \<open>D\<close> are settled.\<close>

definition before_apply :: "string set \<Rightarrow> 'w run \<Rightarrow> bool" where
  "before_apply D s \<longleftrightarrow> apply_ids (rn_calls s) = [] \<and> bt_sorted (as_deliveries (rn_state s))
     \<and> (\<forall>i r. record_of i s = Some r \<longrightarrow> dr_id r = i)
     \<and> (\<forall>i \<in> D. \<exists>r. record_of i s = Some r \<and> dr_wallpaper_status r \<in> settled)"

lemma stable_before [intro, simp]:
  "stable same_but_library (before_apply D)" "stable same_run (before_apply D)"
  by (auto simp: stable_def same_run_def same_but_library_def before_apply_def record_of_def)

lemma pres_moves: "moves rel m \<Longrightarrow> stable rel P \<Longrightarrow> pres P m"
  by (rule presI) (auto simp: moves_def stable_def)

lemma pres_still: "moves same_run m \<Longrightarrow> pres (before_apply D) m"
  by (rule pres_moves) auto

lemma pres_on_library [pres_intros]: "pres (before_apply D) (on_library m)"
  by (rule pres_moves [OF moves_any_library]) auto

lemma pres_attempt [pres_intros]: "pres P m \<Longrightarrow> pres P (attempt m)"
  by (auto simp: pres_def attempt_def split: prod.splits)

lemma pres_sum [pres_intros]:
  "(\<And>e. pres P (f e)) \<Longrightarrow> (\<And>x. pres P (g x)) \<Longrightarrow> pres P (case r of Inl e \<Rightarrow> f e | Inr x \<Rightarrow> g x)"
  by (cases r) auto

lemma pres_prod [pres_intros]: "(\<And>a b. pres P (f a b)) \<Longrightarrow> pres P (case r of (a, b) \<Rightarrow> f a b)"
  by (cases r) auto

lemma keys_edit: "List.map fst (List.map (\<lambda>(k, r). (k, if k = i then f r else r)) m) = List.map fst m"
  by (induction m) auto

lemma pres_edit:
  assumes "\<And>r. dr_id (f r) = dr_id r" and "\<And>r. dr_wallpaper_status r \<in> settled \<Longrightarrow> dr_wallpaper_status (f r) \<in> settled"
  shows "pres (before_apply D) (edit_record i f)"
proof (rule presI)
  fix s assume a: "before_apply D s"
  then have "bt_sorted (as_deliveries (rn_state (snd (edit_record i f s))))"
    using keys_edit [of i f "as_deliveries (rn_state s)"]
    by (simp add: edit_record_def op_defs before_apply_def del: List.map_map)
  with a assms show "before_apply D (snd (edit_record i f s))"
    by (fastforce simp: edit_record_def op_defs before_apply_def split: if_splits)
qed

lemma status_kept [simp]:
  "dr_wallpaper_status (set_error e r) = dr_wallpaper_status r"
  "dr_wallpaper_status (repair_record V a r) = dr_wallpaper_status r"
  "dr_wallpaper_status (mark_acknowledged b now r) = dr_wallpaper_status r"
  by (simp_all add: set_error_def repair_record_def mark_acknowledged_def)

lemma pres_edits [pres_intros]:
  "pres (before_apply D) (edit_record i (set_error e))"
  "pres (before_apply D) (edit_record i (repair_record V a))"
  "pres (before_apply D) (edit_record i (mark_acknowledged b now))"
  "pres (before_apply D) (edit_record i interrupted)"
  "pres (before_apply D) (edit_record i not_applicable)"
  by (rule pres_edit; simp add: interrupted_def not_applicable_def settled_def)+

lemma pres_saves [pres_intros]:
  "pres (before_apply D) (state_save V)" "pres (before_apply D) (progress_save V)"
proof -
  show "pres (before_apply D) (state_save V)"
    unfolding pres_iff using state_save_keeps by (fastforce simp: before_apply_def record_of_def)
  show "pres (before_apply D) (progress_save V)"
    unfolding pres_iff using progress_save_keeps by (fastforce simp: before_apply_def record_of_def)
qed

lemma pres_call_ack [pres_intros]: "pres (before_apply D) (call_acknowledge V i sha)"
  by (rule presI)
    (auto simp: call_acknowledge_def logging_def op_defs outside_op_def bindo_def before_apply_def record_of_def split: prod.splits)

lemma still_atoms [pres_intros]:
  "pres (before_apply D) (progress_phase ph)" "pres (before_apply D) (start_progress p)"
  "pres (before_apply D) (count f)" "pres (before_apply D) (push_failure i f1)"
  "pres (before_apply D) (unix_now V)" "pres (before_apply D) (asking g)"
  "pres (before_apply D) (outside_op h)" "pres (before_apply D) (snapshot i)"
  "pres (before_apply D) (call_open V d)" "pres (before_apply D) (settle_with field q)"
  "pres (before_apply D) (config_ready V)"
  by (rule pres_still; rule still)+

lemma pres_receive [pres_intros]: "pres (before_apply D) (receive_delivery_with_retry V d fuel failed)"
proof (induction fuel arbitrary: failed)
  case 0
  show ?case by (simp add: pres_intros)
next
  case (Suc fuel)
  show ?case
    unfolding receive_delivery_with_retry.simps open_and_receive_def
    by (intro pres_intros Suc.IH)
qed

lemma pres_existing [pres_intros]: "pres (before_apply D) (process_existing V fuel d r)"
  unfolding process_existing_def repair_delivery_def quarantine_def settle_acknowledgement_def
  by (intro pres_intros)

lemma pres_insert: "d_id d \<notin> D \<Longrightarrow> pres (before_apply D) (insert_record (new_record V d a now))"
proof (rule presI)
  fix s assume "d_id d \<notin> D" "before_apply D s"
  moreover have "dr_id (new_record V d a now) = d_id d" by (simp add: new_record_def)
  ultimately show "before_apply D (snd (insert_record (new_record V d a now) s))"
    by (auto simp: insert_record_def op_defs before_apply_def record_of_def bt_sorted_insert)
qed

lemma pres_new: "d_id d \<notin> D \<Longrightarrow> pres (before_apply D) (process_new V fuel d)"
  unfolding process_new_def confirm_new_def
  by (intro pres_intros pres_insert)

lemma pres_process [pres_intros]: "pres (before_apply D) (process_delivery V fuel d)"
proof (rule presI)
  fix s :: "'a run" assume a: "before_apply D s"
  show "before_apply D (snd (process_delivery V fuel d s))"
  proof (cases "record_of (d_id d) s")
    case None
    with a have "d_id d \<notin> D" by (auto simp: before_apply_def)
    with a None show ?thesis using presD [OF pres_new] by (auto simp: process_delivery_def op_defs bindo_def)
  next
    case (Some r)
    with a show ?thesis using presD [OF pres_existing] by (auto simp: process_delivery_def op_defs bindo_def)
  qed
qed

lemma pres_sync_deliveries [pres_intros]: "pres (before_apply D) (sync_deliveries V fuel handled ds repair)"
proof (induction ds arbitrary: repair)
  case Nil
  show ?case by (simp add: pres_intros)
next
  case (Cons d ds)
  show ?case
    unfolding sync_deliveries.simps sync_delivery_def
    by (intro pres_intros Cons.IH)
qed

lemma pres_reconcile_acks [pres_intros]: "pres (before_apply D) (reconcile_acks V ids handled repair)"
proof (induction ids arbitrary: handled repair)
  case Nil
  show ?case by (simp add: pres_intros)
next
  case (Cons i ids)
  show ?case
    unfolding reconcile_acks.simps reconcile_ack_step_def
    by (intro pres_intros Cons.IH)
qed

lemma pres_reconcile_interrupted [pres_intros]: "pres (before_apply D) (reconcile_interrupted_wallpapers V)"
  unfolding reconcile_interrupted_wallpapers_def
  by (intro pres_intros)

lemma pres_drop_legacy [pres_intros]: "pres (before_apply D) (drop_legacy V)"
  unfolding drop_legacy_def
  by (intro pres_intros)

text \<open>A candidate runs at most its own command.\<close>

definition key_ids :: "'w run \<Rightarrow> bool" where
  "key_ids s \<longleftrightarrow> (\<forall>i r. record_of i s = Some r \<longrightarrow> dr_id r = i)"

definition adds :: "string \<Rightarrow> string list \<Rightarrow> 'w run \<Rightarrow> bool" where
  "adds i is s \<longleftrightarrow> key_ids s \<and> (apply_ids (rn_calls s) = is \<or> apply_ids (rn_calls s) = is @ [i])"

definition now_at :: "string list \<Rightarrow> 'w run \<Rightarrow> bool" where
  "now_at is s \<longleftrightarrow> key_ids s \<and> apply_ids (rn_calls s) = is"

lemma stable_now [intro, simp]: "stable same_run (now_at is)" "stable same_run (adds i is)" "stable same_run key_ids"
  by (auto simp: stable_def same_run_def now_at_def adds_def key_ids_def record_of_def)

lemma now_adds: "now_at is s \<Longrightarrow> adds i is s"
  by (simp add: now_at_def adds_def)

lemma pres_key_edit:
  assumes "\<And>r. dr_id (f r) = dr_id r" shows "pres (now_at is) (edit_record i f)" "pres (adds j is) (edit_record i f)"
  by (auto intro!: presI simp: edit_record_def op_defs now_at_def adds_def key_ids_def assms split: if_splits)

lemma pres_key_save: "pres (now_at is) (progress_save V)" "pres (adds j is) (progress_save V)"
    "pres (now_at is) (state_save V)"
  unfolding pres_iff using progress_save_keeps state_save_keeps
  by (fastforce simp: now_at_def adds_def key_ids_def record_of_def)+

lemma pres_key_still: "moves same_run m \<Longrightarrow> pres (now_at is) m" "moves same_run m \<Longrightarrow> pres (adds i is) m"
  by (rule pres_moves, assumption, simp)+

lemma pres_key_atoms:
  "pres (now_at is) (count f)" "pres (now_at is) (push_failure j e)"
  "pres (adds i is) (count f)" "pres (adds i is) (push_failure j e)" "pres (adds i is) (unix_now V)"
  by (rule pres_key_still; rule still)+

lemma pres_to_hoare: "pres P m \<Longrightarrow> (\<And>s. P s \<Longrightarrow> E s) \<Longrightarrow> hoare P m (\<lambda>_. P) E"
  unfolding pres_hoare by (erule hoare_weaken) auto

lemma hoare_one_apply:
  "dr_id r = i \<Longrightarrow> hoare (now_at is) (call_apply V r) (\<lambda>_. adds i is) (adds i is)"
  by (rule hoareI)
    (auto simp: call_apply_def logging_def op_defs asking_def bindo_def now_at_def adds_def key_ids_def record_of_def split: prod.splits)

lemma hoare_run_one:
  "hoare (\<lambda>s. now_at is s \<and> record_of i s = Some r) (run_wallpaper V i r) (\<lambda>_. adds i is) (adds i is)"
proof (rule hoare_pre_imp)
  show "now_at is s \<and> record_of i s = Some r \<Longrightarrow> dr_id r = i" for s by (auto simp: now_at_def key_ids_def)
  assume i: "dr_id r = i"
  have out: "pres (adds i is) (record_outcome V i a)" for a
    unfolding record_outcome_def
    by (auto intro!: pres_bindo pres_key_edit pres_key_save pres_key_atoms intro: still split: sum.split apply_outcome.split)
  have out2: "hoare (adds i is) (record_outcome V i a) (\<lambda>_. adds i is) (adds i is)" for a
    by (rule pres_to_hoare [OF out])
  have run: "hoare (now_at is) (bindo (edit_record i running) (\<lambda>_. bindo (progress_save V) (\<lambda>_.
      bindo (progress_phase ApplyingWallpaper) (\<lambda>_. bindo (call_apply V r) (record_outcome V i)))))
      (\<lambda>_. adds i is) (adds i is)"
    by (intro hoare_bindo [OF pres_to_hoare] hoare_bindo [OF hoare_one_apply [OF i] out2])
      (auto intro: pres_key_edit pres_key_save pres_key_still still now_adds)
  have broken: "hoare (now_at is) (bindo (edit_record i (broken_file e)) (\<lambda>_. bindo (progress_save V) (\<lambda>_. push_failure i e)))
      (\<lambda>_. adds i is) (adds i is)" for e
    by (rule hoare_weaken [OF pres_to_hoare])
      (auto intro!: pres_bindo pres_key_edit pres_key_save pres_key_atoms intro: still now_adds)
  have "hoare (now_at is) (run_wallpaper V i r) (\<lambda>_. adds i is) (adds i is)"
    unfolding run_wallpaper_def
    by (intro hoare_bindo [OF pres_to_hoare])
      (use run broken in \<open>auto intro: pres_key_still pres_attempt pres_atoms still now_adds split: sum.split\<close>)
  then show "hoare (\<lambda>s. now_at is s \<and> record_of i s = Some r) (run_wallpaper V i r) (\<lambda>_. adds i is) (adds i is)"
    by (rule hoare_strengthen) simp
qed

lemma hoare_candidate_one: "hoare (now_at is) (process_candidate V i) (\<lambda>_. adds i is) (adds i is)"
proof -
  have none: "hoare (\<lambda>s. now_at is s \<and> record_of i s = Some r) (bindo (edit_record i not_configured) (\<lambda>_.
      bindo (state_save V) (\<lambda>_. count f))) (\<lambda>_. adds i is) (adds i is)" for r f
    by (rule hoare_conseq [OF pres_to_hoare [where P = "now_at is"]])
      (auto intro!: pres_bindo pres_key_edit pres_key_save pres_key_atoms intro: still now_adds)
  have one: "hoare (\<lambda>s. now_at is s \<and> record_of i s = Some r) (attempt (run_wallpaper V i r))
      (\<lambda>_. adds i is) (adds i is)" for r
    by (rule hoare_weaken [OF hoare_attempt [OF hoare_run_one]]) (auto split: sum.splits)
  show ?thesis
    unfolding process_candidate_def
    by (rule hoare_bindo [OF hoare_snapshot hoare_if [OF none hoare_bindo [OF hoare_still
            hoare_bindo [OF one hoare_bindo [OF hoare_still hoare_still]]]]])
      (auto intro: still now_adds)
qed

definition only :: "string list \<Rightarrow> string list \<Rightarrow> 'w run \<Rightarrow> bool" where
  "only is cs s \<longleftrightarrow> key_ids s \<and> (\<exists>js. apply_ids (rn_calls s) = is @ js \<and> subseq js cs)"

lemma hoare_candidates_once:
  "hoare (now_at is) (for_each (\<lambda>(t, i). process_candidate V i) cs) (\<lambda>_. only is (List.map snd cs)) (only is (List.map snd cs))"
proof (induction cs arbitrary: "is")
  case Nil
  show ?case by (rule hoareI) (auto simp: retn_def only_def now_at_def)
next
  case (Cons c cs)
  obtain t i where c: "c = (t, i)" by fastforce
  let ?cs = "List.map snd cs"
  have first: "hoare (now_at is) (process_candidate V i) (\<lambda>_. adds i is) (only is (i # ?cs))"
    by (rule hoare_weaken [OF hoare_candidate_one]) (auto simp: adds_def only_def)
  have rest: "hoare (now_at js) (for_each (\<lambda>(t, i). process_candidate V i) cs) (\<lambda>_. only is (i # ?cs)) (only is (i # ?cs))"
    if "js = is \<or> js = is @ [i]" for js
    by (rule hoare_weaken [OF Cons.IH]) (use that in \<open>auto simp: only_def\<close>)
  have "hoare (adds i is) (for_each (\<lambda>(t, i). process_candidate V i) cs) (\<lambda>_. only is (i # ?cs)) (only is (i # ?cs))"
    unfolding hoare_def
    using rest [of "is"] rest [of "is @ [i]"] unfolding hoare_def adds_def now_at_def by blast
  then show ?case by (auto simp: c intro: hoare_bindo [OF first])
qed


lemma map_of_sorted_mem: "bt_sorted m \<Longrightarrow> (k, v) \<in> set m \<longleftrightarrow> map_of m k = Some v"
  by (auto simp: bt_sorted_distinct)

definition once_outside :: "string set \<Rightarrow> 'w run \<Rightarrow> bool" where
  "once_outside D s \<longleftrightarrow> distinct (apply_ids (rn_calls s)) \<and> set (apply_ids (rn_calls s)) \<inter> D = {}"

lemma before_once: "before_apply D s \<Longrightarrow> once_outside D s"
  by (simp add: before_apply_def once_outside_def)

lemma distinct_subseq: "subseq xs ys \<Longrightarrow> distinct ys \<Longrightarrow> distinct xs \<and> set xs \<subseteq> set ys"
  by (induction rule: list_emb.induct) auto

lemma candidates_ids:
  assumes "bt_sorted (as_deliveries (rn_state s))"
  shows "distinct (List.map snd (candidates mode s))"
    and "i \<in> snd ` set (candidates mode s) \<Longrightarrow> \<exists>r. record_of i s = Some r \<and> eligible mode r"
proof -
  let ?f = "\<lambda>(i, r). (case dr_source_created_at_unix r of Some t \<Rightarrow> t | None \<Rightarrow> dr_received_at_unix r, i :: string)"
  let ?xs = "List.filter (\<lambda>(i, r). eligible mode r) (as_deliveries (rn_state s))"
  have d: "distinct (List.map fst ?xs)"
    using assms by (simp add: bt_sorted_distinct distinct_map_filter)
  have "List.map snd (List.map ?f ?xs) = List.map fst ?xs"
    by (simp add: comp_def split_beta)
  then have "distinct (List.map snd (List.map ?f ?xs))" using d by (simp only:)
  then have dd: "distinct (List.map ?f ?xs) \<and> inj_on snd (set (List.map ?f ?xs))"
    by (simp only: distinct_map)
  then have "distinct (sort (List.map ?f ?xs)) \<and> inj_on snd (set (sort (List.map ?f ?xs)))"
    by (simp only: distinct_sort set_sort)
  then show "distinct (List.map snd (candidates mode s))"
    by (simp only: candidates_def distinct_map)
  show "i \<in> snd ` set (candidates mode s) \<Longrightarrow> \<exists>r. record_of i s = Some r \<and> eligible mode r"
    using assms by (auto simp: candidates_def record_of_def map_of_sorted_mem)
qed

lemma hoare_queue_once:
  "hoare (before_apply D) (process_wallpaper_queue V Automatic) (\<lambda>_. once_outside D) (once_outside D)"
proof -
  have "hoare (\<lambda>s. before_apply D s \<and> cs = candidates Automatic s) (for_each (\<lambda>(t, i). process_candidate V i) cs)
      (\<lambda>_. once_outside D) (once_outside D)" for cs
  proof (rule hoare_pre_imp)
    show "before_apply D s \<and> cs = candidates Automatic s \<Longrightarrow>
        distinct (List.map snd cs) \<and> set (List.map snd cs) \<inter> D = {}" for s :: "'a run"
    proof -
      assume a: "before_apply D s \<and> cs = candidates Automatic s"
      then have b: "bt_sorted (as_deliveries (rn_state s))" by (simp add: before_apply_def)
      have "i \<notin> D" if i: "i \<in> snd ` set cs" for i
      proof
        assume "i \<in> D"
        with a obtain r where "record_of i s = Some r" "dr_wallpaper_status r \<in> settled"
          unfolding before_apply_def by blast
        with candidates_ids(2) [OF b, of i Automatic] i a show False by (auto simp: eligible_def settled_def)
      qed
      with candidates_ids(1) [OF b, of Automatic] a show ?thesis by auto
    qed
    assume c: "distinct (List.map snd cs) \<and> set (List.map snd cs) \<inter> D = {}"
    have o: "only [] (List.map snd cs) s \<Longrightarrow> once_outside D s" for s :: "'a run"
      using c distinct_subseq [of _ "List.map snd cs"] unfolding only_def once_outside_def by fastforce
    show "hoare (\<lambda>s. before_apply D s \<and> cs = candidates Automatic s) (for_each (\<lambda>(t, i). process_candidate V i) cs)
      (\<lambda>_. once_outside D) (once_outside D)"
      by (rule hoare_conseq [OF hoare_candidates_once [of "[]"]])
        (auto simp: now_at_def before_apply_def key_ids_def o)
  qed
  note cs = this
  show ?thesis
    unfolding process_wallpaper_queue_def
    by (rule hoare_bindo [OF pres_to_hoare [OF pres_drop_legacy] hoare_bindo [OF hoare_readso_any cs]])
      (auto dest: before_once)
qed

text \<open>A loaded state may still have commands that were interrupted.\<close>

definition loaded :: "string set \<Rightarrow> 'w run \<Rightarrow> bool" where
  "loaded D s \<longleftrightarrow> apply_ids (rn_calls s) = [] \<and> bt_sorted (as_deliveries (rn_state s)) \<and> key_ids s
     \<and> (\<forall>i \<in> D. \<exists>r. record_of i s = Some r \<and> dr_wallpaper_status r \<in> insert Running settled)"

lemma stable_loaded [intro, simp]: "stable same_but_library (loaded D)" "stable same_run (loaded D)"
  by (auto simp: stable_def same_run_def same_but_library_def loaded_def key_ids_def record_of_def)

lemma loaded_once: "loaded D s \<Longrightarrow> once_outside D s"
  by (simp add: loaded_def once_outside_def)

lemma interrupted_twice [simp]: "interrupted (interrupted r) = interrupted r"
  by (simp add: interrupted_def)

lemma edit_interrupted:
  "\<exists>t. for_each (\<lambda>i. edit_record i interrupted) ids s = (Inr (), t)
     \<and> (\<forall>j. record_of j t = (if j \<in> set ids then map_option interrupted (record_of j s) else record_of j s))
     \<and> rn_calls t = rn_calls s
     \<and> List.map fst (as_deliveries (rn_state t)) = List.map fst (as_deliveries (rn_state s))"
proof (induction ids arbitrary: s)
  case Nil
  show ?case by (simp add: retn_def)
next
  case (Cons i ids)
  obtain u where e: "edit_record i interrupted s = (Inr (), u)" by (simp add: edit_record_def op_defs)
  then have u: "record_of j u = (if j = i then map_option interrupted (record_of j s) else record_of j s)"
      "rn_calls u = rn_calls s"
      "List.map fst (as_deliveries (rn_state u)) = List.map fst (as_deliveries (rn_state s))" for j
    by (auto simp: edit_record_def op_defs keys_edit simp del: List.map_map)
  have m: "map_option interrupted (map_option interrupted v) = map_option interrupted v" for v
    by (cases v) auto
  from Cons.IH [of u] obtain t where t: "for_each (\<lambda>i. edit_record i interrupted) ids u = (Inr (), t)"
      "\<forall>j. record_of j t = (if j \<in> set ids then map_option interrupted (record_of j u) else record_of j u)"
      "rn_calls t = rn_calls u" "List.map fst (as_deliveries (rn_state t)) = List.map fst (as_deliveries (rn_state u))"
    by blast
  have "for_each (\<lambda>i. edit_record i interrupted) (i # ids) s = (Inr (), t)"
    by (simp add: bindo_def e t(1))
  moreover have "record_of j t = (if j \<in> set (i # ids) then map_option interrupted (record_of j s) else record_of j s)" for j
    using t(2) by (simp add: u(1) m)
  ultimately show ?case using t(3,4) u(2,3) by (intro exI [of _ t]) simp
qed

lemma hoare_reconcile_once:
  fixes V :: "'a setting"
  shows "hoare (loaded D) (reconcile_interrupted_wallpapers V) (\<lambda>_. before_apply D) (once_outside D)"
proof -
  let ?run = "\<lambda>r. dr_wallpaper_status r = Running"
  have ids: "record_of i s = Some r \<and> ?run r \<Longrightarrow> i \<in> set (ids_where ?run s)" for i r and s :: "'a run"
    by (force simp: ids_where_def record_of_def dest: map_of_SomeD)
  have none: "before_apply D s" if l: "loaded D s" "[] = ids_where ?run s" for s :: "'a run"
  proof -
    have "\<exists>r. record_of i s = Some r \<and> dr_wallpaper_status r \<in> settled" if i: "i \<in> D" for i
    proof -
      obtain r where r: "record_of i s = Some r" "dr_wallpaper_status r \<in> insert Running settled"
        using l(1) i unfolding loaded_def by blast
      then show ?thesis using ids [of i s r] l(2) by auto
    qed
    then show ?thesis using l(1) by (simp add: loaded_def before_apply_def key_ids_def)
  qed
  have edit: "hoare (\<lambda>s :: 'a run. loaded D s \<and> l = ids_where ?run s) (for_each (\<lambda>i. edit_record i interrupted) l)
      (\<lambda>_. before_apply D) (once_outside D)" for l
  proof (rule hoareI)
    fix s t :: "'a run" and x assume a: "loaded D s \<and> l = ids_where ?run s" "for_each (\<lambda>i. edit_record i interrupted) l s = (Inr x, t)"
    with edit_interrupted [of l s] have t: "rn_calls t = rn_calls s"
        "List.map fst (as_deliveries (rn_state t)) = List.map fst (as_deliveries (rn_state s))"
        "record_of j t = (if j \<in> set l then map_option interrupted (record_of j s) else record_of j s)" for j by auto
    have "\<exists>r. record_of i t = Some r \<and> dr_wallpaper_status r \<in> settled" if i: "i \<in> D" for i
    proof -
      obtain r where r: "record_of i s = Some r" "dr_wallpaper_status r \<in> insert Running settled"
        using a i unfolding loaded_def by blast
      then show ?thesis
        using ids [of i s r] a by (auto simp: t(3) interrupted_def settled_def)
    qed
    moreover have "record_of i t = Some r \<Longrightarrow> dr_id r = i" for i r
      using a by (auto simp: t(3) loaded_def key_ids_def split: if_splits)
    ultimately show "before_apply D t"
      using a t(1,2) by (simp add: before_apply_def loaded_def)
  next
    fix s t :: "'a run" and e assume "for_each (\<lambda>i. edit_record i interrupted) l s = (Inl e, t)"
    with edit_interrupted [of l s] show "once_outside D t" by auto
  qed
  have "hoare (\<lambda>s. loaded D s \<and> l = ids_where ?run s)
      (if l = [] then retn () else bindo (for_each (\<lambda>i. edit_record i interrupted) l) (\<lambda>_. state_save V))
      (\<lambda>_. before_apply D) (once_outside D)" for l
    by (intro hoare_if hoare_retn hoare_bindo [OF edit pres_to_hoare [OF pres_saves(1)]])
      (use none in \<open>auto dest: before_once\<close>)
  then show ?thesis
    unfolding reconcile_interrupted_wallpapers_def
    by (rule hoare_bindo [OF hoare_readso_any, rotated]) (rule loaded_once)
qed


definition sorted_file :: "state_file \<Rightarrow> bool" where
  "sorted_file f = (case f of StateFile st \<Rightarrow> bt_sorted (as_deliveries st) | _ \<Rightarrow> True)"

text \<open>The ids whose wallpaper an automatic run must leave alone.\<close>

definition left_alone :: "state_file \<Rightarrow> string set" where
  "left_alone f = {i. \<exists>d. saved_record f i = Some d \<and> dr_wallpaper_status d \<notin> {WPending, NotConfigured}}"

definition starting :: "state_file \<Rightarrow> 'w run \<Rightarrow> bool" where
  "starting f s \<longleftrightarrow> apply_ids (rn_calls s) = [] \<and> rn_saved s = f"

lemma stable_starting [intro, simp]:
  "stable same_but_library (starting f)" "stable same_run (starting f)"
  by (auto simp: stable_def same_run_def same_but_library_def starting_def)

lemma starting_once: "starting f s \<Longrightarrow> once_outside D s"
  by (simp add: starting_def once_outside_def)

lemma state_load_ok:
  "state_load s = (Inr st, t) \<Longrightarrow> t = s \<and> (rn_saved s = NoFile \<and> st = app_state_default
     \<or> rn_saved s = StateFile st \<and> list_all (\<lambda>(i, r). i = dr_id r) (as_deliveries st))"
  by (auto simp: state_load_def op_defs andthen_Inr split: state_file.splits)

lemma hoare_load_once:
  assumes "sorted_file f"
  shows "hoare (starting f) load_run (\<lambda>_. loaded (left_alone f)) (once_outside (left_alone f))"
proof (rule hoareI)
  fix s x t assume a: "starting f s" "load_run s = (Inr x, t)"
  then obtain st where st: "state_load s = (Inr st, s)" "rn_state t = st" "rn_calls t = rn_calls s"
    by (auto simp: load_run_def state_load_def op_ok)
  have c: "f = NoFile \<and> st = app_state_default
      \<or> f = StateFile st \<and> list_all (\<lambda>(i, r). i = dr_id r) (as_deliveries st)"
    using state_load_ok [OF st(1)] a(1) by (simp add: starting_def)
  then have r: "record_of i t = saved_record f i" for i
    by (auto simp: st(2) record_of_def saved_record_def app_state_default_def)
  from c have k: "record_of i t = Some d \<Longrightarrow> dr_id d = i" for i d
    by (auto simp: st(2) record_of_def app_state_default_def list_all_iff dest!: map_of_SomeD)
  from c have b: "bt_sorted (as_deliveries (rn_state t))"
    using assms by (auto simp: st(2) sorted_file_def app_state_default_def)
  have "dr_wallpaper_status d \<notin> {WPending, NotConfigured} \<Longrightarrow> dr_wallpaper_status d \<in> insert Running settled" for d
    by (cases "dr_wallpaper_status d") (auto simp: settled_def)
  then show "loaded (left_alone f) t"
    using a(1) b k by (auto simp: loaded_def key_ids_def starting_def st(3) r left_alone_def)
next
  fix s e t assume "starting f s" "load_run s = (Inl e, t)"
  then show "once_outside (left_alone f) t"
    by (auto simp: load_run_def state_load_def op_defs bindo_err starting_def once_outside_def)
qed

lemma hoare_sync_once_outside:
  assumes "sorted_file f"
  shows "hoare (starting f) (sync_once_with_events V fuel)
      (\<lambda>_. once_outside (left_alone f)) (once_outside (left_alone f))"
proof -
  let ?D = "left_alone f"
  have recon: "pres (before_apply ?D) (reconcile_pending_acks V)"
    unfolding reconcile_pending_acks_def by (intro pres_intros)
  have lib: "hoare P (on_library m) (\<lambda>_. P) (once_outside ?D)"
    if "stable same_but_library P" "\<And>s. P s \<Longrightarrow> once_outside ?D s" for P and m :: "(dir, 'b) op"
    by (rule hoare_moves [OF moves_any_library]) (use that in auto)
  have keep: "hoare (before_apply ?D) m (\<lambda>_. before_apply ?D) (once_outside ?D)"
    if "pres (before_apply ?D) m" for m :: "('a, 'b) sync"
    by (rule pres_to_hoare [OF that before_once])
  have queue: "hoare (before_apply ?D) (bindo (process_wallpaper_queue V Automatic) (\<lambda>_. readso (\<lambda>s. Inr (rn_summary s))))
      (\<lambda>_. once_outside ?D) (once_outside ?D)"
    by (rule hoare_bindo [OF hoare_queue_once], rule hoareI) (auto simp: op_defs)
  have tail: "hoare (before_apply ?D)
      (bindo (outside_op (scan_pending (se_source V) (limit_of V))) (\<lambda>scan.
       bindo (for_each (\<lambda>i. push_failure (si_item i) (si_message i)) (sc_issues scan)) (\<lambda>_.
       bindo (sync_deliveries V fuel handled (sc_deliveries scan) repair) (\<lambda>left.
       bindo (for_each (\<lambda>(i, e). push_failure i e) left) (\<lambda>_.
       bindo (process_wallpaper_queue V Automatic) (\<lambda>_. readso (\<lambda>s. Inr (rn_summary s))))))))
      (\<lambda>_. once_outside ?D) (once_outside ?D)" for handled repair
    by (rule hoare_bindo [OF pres_to_hoare hoare_bindo [OF pres_to_hoare hoare_bindo [OF pres_to_hoare
          hoare_bindo [OF pres_to_hoare queue]]]];
        (intro pres_intros)?; (erule before_once)?)
  show ?thesis
    unfolding sync_once_with_events_def
    by (rule hoare_bindo [OF hoare_still hoare_bindo [OF lib hoare_bindo [OF hoare_load_once [OF assms]
          hoare_bindo [OF lib hoare_bindo [OF hoare_still hoare_bindo [OF hoare_reconcile_once
          hoare_bindo [OF pres_to_hoare [OF recon]]]]]]]])
      (use tail in \<open>auto intro: still dest: starting_once loaded_once before_once split: prod.split\<close>)
qed

text \<open>
  C23. A wallpaper command is run at most once for a delivery, across crashes: a synchronisation
  starts it at most once per delivery, only for deliveries that are new or that the state file
  shows as pending or not configured, and whenever it starts one, the file on disk
  already has that delivery as running and its content is intact. So a run that
  was cut off while the command ran (its record says running), and one that ended, failed or
  timed out, is never repeated unless the user asks for it.
\<close>

theorem wallpaper_at_most_once:
  assumes "scan_distinct (se_source V)" and "sorted_file (rn_saved s)" and "rn_calls s = []"
    and "sync_once_with_events V fuel s = (r, t)"
  shows "distinct (apply_ids (rn_calls t))
     \<and> (\<forall>i d. i \<in> set (apply_ids (rn_calls t)) \<and> saved_record (rn_saved s) i = Some d
          \<longrightarrow> dr_wallpaper_status d = WPending \<or> dr_wallpaper_status d = NotConfigured)
     \<and> (\<forall>i f lib. ApplyCall i f lib \<in> set (rn_calls t) \<longrightarrow>
          (\<exists>d. saved_record f i = Some d \<and> dr_wallpaper_status d = Running
             \<and> holds_content (se_ext V) (file_at V lib (dr_stored_path d)) (dr_size d) (dr_sha256 d) (dr_media_type d)))"
proof -
  have i: "starting (rn_saved s) s" "no_unsafe V s" by (simp_all add: assms(3) starting_def no_unsafe_def)
  have o: "once_outside (left_alone (rn_saved s)) t"
    using i hoare_ok [OF hoare_sync_once_outside [OF assms(2)]] hoare_err [OF hoare_sync_once_outside [OF assms(2)]] assms(4)
    by (cases r) blast+
  have n: "no_unsafe V t"
    using i hoare_ok [OF hoare_sync_once [OF assms(1)]] hoare_err [OF hoare_sync_once [OF assms(1)]] assms(4)
    by (cases r) blast+
  have "\<exists>d. saved_record f i = Some d \<and> dr_wallpaper_status d = Running
      \<and> holds_content (se_ext V) (file_at V lib (dr_stored_path d)) (dr_size d) (dr_sha256 d) (dr_media_type d)"
    if "ApplyCall i f lib \<in> set (rn_calls t)" for i f lib
    using n that by (auto simp: no_unsafe_def safe_call_def stored_def dest!: bspec)
  with o show ?thesis unfolding once_outside_def left_alone_def by blast
qed


section \<open>A sample run\<close>

definition quiet_source :: "unit delivery_source" where
  "quiet_source = \<lparr>scan_pending = \<lambda>mx w. (Inr \<lparr>sc_deliveries = [], sc_issues = []\<rparr>, w),
     open_payload = \<lambda>d w. (Inr [], w), acknowledge = \<lambda>i sha w. (Inr (), w), payload_retry_delay = no_retry\<rparr>"

definition sample_process :: "unit process_api" where
  "sample_process = \<lparr>pa_deadline = \<lambda>n w. (Some n, w), pa_spawn = \<lambda>a w. (True, w),
     pa_try_wait = \<lambda>w. (ExitedWith True, w), pa_now = \<lambda>w. (0, w), pa_sleep = \<lambda>n w. w, pa_kill = \<lambda>w. (True, w)\<rparr>"

definition no_urls :: url_library where
  "no_urls = \<lparr>url_parse = \<lambda>s. None, url_string = url_path, url_join = \<lambda>u s. None, url_set_path = \<lambda>s u. u,
     url_extend = \<lambda>p u. None\<rparr>"

definition sample_config :: config where
  "sample_config = \<lparr>cf_schema_version = CONFIG_SCHEMA_VERSION, cf_connection_state = Connected,
     cf_directory_sync = False, cf_device_id = ''linux'', cf_server = Filesystem ''/i'', cf_library_dir = ''/l'',
     cf_state_file = ''/s'', cf_wallpaper_command = [''w'', ''{path}''], cf_wallpaper_timeout = 1,
     cf_max_file_size_bytes = 1024\<rparr>"

definition sample_setting :: "unit setting" where
  "sample_setting = \<lparr>se_ext = sample_ext, se_urls = no_urls, se_config = sample_config, se_source = quiet_source,
     se_process = sample_process, se_now = \<lambda>w. (7, w), se_uuid = \<lambda>w. (''u'', w), se_json_length = \<lambda>st. 0,
     se_write = \<lambda>st w. (Written, w), se_elsewhere = \<lambda>p. None\<rparr>"

definition sample_place :: string where
  "sample_place = ''/l/89/'' @ object_name sample_sha ''png''"

definition sample_record :: delivery_record where
  "sample_record = \<lparr>dr_id = ''a'', dr_original_name = ''a.png'', dr_media_type = ''image/png'', dr_sha256 = sample_sha,
     dr_size = 12, dr_stored_path = sample_place, dr_delivery_status = AckPending,
     dr_wallpaper_status = WPending, dr_wallpaper_attempts = 0, dr_delivery_error = None, dr_wallpaper_error = None,
     dr_source_created_at_unix = None, dr_received_at_unix = 5, dr_acknowledged_at_unix = None, dr_imported_at_unix = None\<rparr>"

definition sample_file :: state_file where
  "sample_file = StateFile \<lparr>as_schema_version = STATE_SCHEMA_VERSION, as_deliveries = [(''a'', sample_record)]\<rparr>"

definition sample_library :: dir where
  "sample_library = [(''89'', Dir [(object_name sample_sha ''png'', File sample_png)])]"

definition sample_run :: "unit run" where
  "sample_run = \<lparr>rn_world = (), rn_library = sample_library, rn_saved = sample_file, rn_retired = False,
     rn_state = app_state_default, rn_summary = summary_default, rn_progress = progress_for_record sample_record,
     rn_events = [], rn_calls = []\<rparr>"

lemma setting_fields [simp]:
  "se_ext sample_setting = sample_ext" "se_urls sample_setting = no_urls" "se_config sample_setting = sample_config"
  "se_source sample_setting = quiet_source" "se_process sample_setting = sample_process"
  "se_now sample_setting = (\<lambda>w. (7, w))" "se_json_length sample_setting = (\<lambda>st. 0)"
  "se_write sample_setting = (\<lambda>st w. (Written, w))" "limit_of sample_setting = 1024"
  "cf_library_dir sample_config = ''/l''" "cf_wallpaper_command sample_config = [''w'', ''{path}'']"
  "cf_wallpaper_timeout sample_config = 1"
  by (simp_all add: sample_setting_def limit_of_def sample_config_def)

lemma record_fields [simp]:
  "dr_id sample_record = ''a''" "dr_sha256 sample_record = sample_sha" "dr_size sample_record = 12"
  "dr_media_type sample_record = ''image/png''" "dr_delivery_status sample_record = AckPending"
  "dr_wallpaper_status sample_record = WPending" "dr_delivery_error sample_record = None"
  "dr_stored_path sample_record = sample_place"
  "dr_source_created_at_unix sample_record = None"
  by (simp_all add: sample_record_def)

lemma object_no_slash: "slash \<notin> set (object_name sample_sha ''png'')"
  using hex_no_slash [OF sample_sha_valid(1)] by (simp add: object_name_def)

lemma sample_path:
  "file_at sample_setting lib sample_place = obj_at lib ''89'' (object_name sample_sha ''png'')"
proof -
  have "stored_file_path sample_setting (''89'', object_name sample_sha ''png'') = sample_place"
    using object_no_slash
    by (auto simp: sample_place_def stored_file_path_def path_join_def is_absolute_def object_name_def suffix_def prefix_def sample_sha_eq)
  moreover have "file_at sample_setting lib (stored_file_path sample_setting (''89'', object_name sample_sha ''png''))
      = obj_at lib ''89'' (object_name sample_sha ''png'')"
    by (rule file_at_stored) (use object_no_slash in \<open>auto simp: object_name_def\<close>)
  ultimately show ?thesis by simp
qed

text \<open>The library after locking and cleaning.\<close>

definition locked_library :: dir where
  "locked_library = snd (lock_library sample_library)"

definition open_library :: dir where
  "open_library = snd (cleanup_staging locked_library)"

lemma open_library:
  "lock_library sample_library = (Inr (), locked_library)"
  "cleanup_staging locked_library = (Inr 0, open_library)"
  "obj_at open_library ''89'' (object_name sample_sha ''png'') = Some (File sample_png)"
proof -
  have n: "LIBRARY_LOCK_FILE \<noteq> ''89''" "STAGING_DIR_NAME \<noteq> ''89''" "STAGING_DIR_NAME \<noteq> LIBRARY_LOCK_FILE"
    by (simp_all add: LIBRARY_LOCK_FILE_def STAGING_DIR_NAME_def)
  show l: "lock_library sample_library = (Inr (), locked_library)"
    using n by (simp add: locked_library_def lock_library_def sample_library_def)
  have own: "\<not> is_owned_temporary STAGING_OWNER_FILE x" for x
    by (simp add: is_owned_temporary_def STAGING_OWNER_FILE_def)
  show c: "cleanup_staging locked_library = (Inr 0, open_library)"
    using n own by (simp add: open_library_def locked_library_def lock_library_def sample_library_def cleanup_staging_def bindo_def
        ensure_staging_directory_def ensure_child_directory_def claim_staging_def Let_def child_def)
  show "obj_at open_library ''89'' (object_name sample_sha ''png'') = Some (File sample_png)"
    using cleanup_staging_same [OF c] lock_library_same [OF l, of "''89''" "object_name sample_sha ''png''"] n
    by (simp add: same_outside_def) (simp add: obj_at_def child_def sample_library_def)
qed

lemma sample_verified:
  "dr_sha256 r = sample_sha \<Longrightarrow> dr_size r = 12 \<Longrightarrow> dr_media_type r = ''image/png'' \<Longrightarrow>
   dr_stored_path r = sample_place \<Longrightarrow> rn_library s = open_library \<Longrightarrow>
     verify_record sample_setting r s = Inr ()"
  unfolding verify_record_def verify_recorded_file_ok
  by (simp add: sample_path open_library sample_inspectable sample_inspection) (simp add: sample_sha_def sample_png_def)

definition after_start :: "unit run" where
  "after_start = sample_run\<lparr>rn_library := open_library,
     rn_state := \<lparr>as_schema_version = STATE_SCHEMA_VERSION, as_deliveries = [(''a'', sample_record)]\<rparr>\<rparr>"

lemma sample_trim: "trim ''w'' \<noteq> []"
  using trim_printable [of "CHR ''w''" "[]"] by (simp add: printable_char_def)

lemma sample_config_ready: "config_ready sample_setting s = (Inr (), s)" if "\<not> rn_retired s"
  using that
  by (simp add: config_ready_def config_validate_def validate_server_def validate_wallpaper_command_def config_connected_def
      is_connected_def sample_config_def is_absolute_def contains_text_def CONFIG_SCHEMA_VERSION_def
      MAX_WALLPAPER_TIMEOUT_SECONDS_def sample_trim ascii_defs op_defs bindo_def)

lemma sample_started:
  "bindo (config_ready sample_setting) (\<lambda>_. bindo (on_library lock_library) (\<lambda>_. bindo load_run (\<lambda>_.
     bindo (on_library cleanup_staging) (\<lambda>n. bindo (count (\<lambda>y. y\<lparr>sy_stale_removed := n\<rparr>)) (\<lambda>_.
     bindo (reconcile_interrupted_wallpapers sample_setting) f))))) sample_run = f () after_start"
  using open_library
  by (simp add: sample_config_ready bindo_def on_library_def load_run_def state_load_def count_def op_defs after_start_def sample_run_def
    sample_file_def reconcile_interrupted_wallpapers_def ids_where_def summary_default_def)

definition acked_record :: delivery_record where
  "acked_record = mark_acknowledged True 7 sample_record"

definition one_record :: "delivery_record \<Rightarrow> app_state" where
  "one_record r = \<lparr>as_schema_version = STATE_SCHEMA_VERSION, as_deliveries = [(''a'', r)]\<rparr>"

lemma acked_fields [simp]:
  "dr_id acked_record = ''a''" "dr_sha256 acked_record = sample_sha" "dr_size acked_record = 12"
  "dr_media_type acked_record = ''image/png''" "dr_delivery_status acked_record = Acknowledged"
  "dr_wallpaper_status acked_record = WPending" "dr_delivery_error acked_record = None"
  "dr_stored_path acked_record = sample_place"
  by (simp_all add: acked_record_def mark_acknowledged_def)

lemmas run_defs = bindo_def op_defs attempt_def progress_phase_def start_progress_def Let_def snapshot_def record_of_def
  logging_def outside_op_def asking_def unix_now_def edit_record_def progress_save_def state_save_def count_def
  settle_with_def progress_settle_def push_failure_def

lemma sample_reconciled:
  "\<exists>t. reconcile_pending_acks sample_setting after_start = (Inr ([''a''], []), t)
     \<and> rn_calls t = [AckCall ''a'' sample_sha sample_file open_library]
     \<and> rn_state t = one_record acked_record \<and> rn_library t = open_library"
proof -
  have v: "verify_record sample_setting sample_record s = Inr ()" if "rn_library s = open_library" for s
    by (rule sample_verified) (simp_all add: that)
  have a: "acknowledge quiet_source i sha w = (Inr (), w)" for i sha w
    by (simp add: quiet_source_def)
  show ?thesis
    by (simp add: reconcile_pending_acks_def ids_where_def after_start_def reconcile_ack_step_def run_defs v a call_acknowledge_def
        sample_run_def one_record_def acked_record_def progress_for_record_def MAX_STATE_SIZE_BYTES_def sample_file_def)
qed

lemma sample_applied:
  assumes "rn_state s = one_record acked_record" and "rn_library s = open_library"
  shows "\<exists>t. process_wallpaper_queue sample_setting Automatic s = (Inr (), t)
     \<and> rn_calls t = rn_calls s @ [ApplyCall ''a'' (StateFile (one_record (running acked_record))) open_library]"
proof -
  have v: "verify_record sample_setting acked_record s = Inr ()" if "rn_library s = open_library" for s
    by (rule sample_verified) (simp_all add: that)
  have a: "apply_wallpaper sample_process [''w'', ''{path}''] (Suc 0) r w = (Inr OutApplied, w)" for r w
    by (simp add: apply_wallpaper_def sample_process_def wait_fuel_def eval_nat_numeral)
  show ?thesis
    using assms
    by (simp add: process_wallpaper_queue_def drop_legacy_def ids_where_def legacy_non_image_def is_image_media_type_def candidates_def
        eligible_def one_record_def process_candidate_def run_wallpaper_def record_outcome_def run_defs v a call_apply_def
        progress_for_record_def MAX_STATE_SIZE_BYTES_def)
qed

lemma sample_synchronised:
  "\<exists>r t. sync_once_with_events sample_setting 1 sample_run = (r, t)
     \<and> rn_calls t = [AckCall ''a'' sample_sha sample_file open_library,
          ApplyCall ''a'' (StateFile (one_record (running acked_record))) open_library]"
proof -
  obtain t1 where t1: "reconcile_pending_acks sample_setting after_start = (Inr ([''a''], []), t1)"
      "rn_calls t1 = [AckCall ''a'' sample_sha sample_file open_library]"
      "rn_state t1 = one_record acked_record" "rn_library t1 = open_library"
    using sample_reconciled by blast
  obtain t2 where t2: "process_wallpaper_queue sample_setting Automatic t1 = (Inr (), t2)"
      "rn_calls t2 = rn_calls t1 @ [ApplyCall ''a'' (StateFile (one_record (running acked_record))) open_library]"
    using sample_applied [OF t1(3,4)] by blast
  have scan: "outside_op (scan_pending quiet_source 1024) t1 = (Inr \<lparr>sc_deliveries = [], sc_issues = []\<rparr>, t1)"
    by (simp add: outside_op_def quiet_source_def)
  have "sync_once_with_events sample_setting 1 sample_run = (Inr (rn_summary t2), t2)"
    unfolding sync_once_with_events_def sample_started
    by (simp add: bindo_def t1(1) scan t2(1) op_defs)
  then show ?thesis using t1(2) t2(2) by simp
qed

lemma quiet_distinct: "scan_distinct (se_source sample_setting)"
  by (simp add: scan_distinct_def quiet_source_def)

lemma sample_start: "rn_calls sample_run = []" "sorted_file (rn_saved sample_run)"
  by (simp_all add: sample_run_def sorted_file_def sample_file_def)

theorem ack_after_save_witness:
  "\<exists>r t f lib d. sync_once_with_events sample_setting 1 sample_run = (r, t)
     \<and> AckCall ''a'' sample_sha f lib \<in> set (rn_calls t) \<and> saved_record f ''a'' = Some d \<and> dr_sha256 d = sample_sha
     \<and> holds_content sample_ext (file_at sample_setting lib (dr_stored_path d)) (dr_size d) sample_sha (dr_media_type d)"
proof -
  obtain r t where t: "sync_once_with_events sample_setting 1 sample_run = (r, t)"
      "AckCall ''a'' sample_sha sample_file open_library \<in> set (rn_calls t)"
    using sample_synchronised by auto
  from ack_after_save [OF quiet_distinct sample_start(1) t] t show ?thesis by auto
qed

theorem wallpaper_at_most_once_witness:
  "\<exists>r t f lib d. sync_once_with_events sample_setting 1 sample_run = (r, t) \<and> apply_ids (rn_calls t) = [''a'']
     \<and> distinct (apply_ids (rn_calls t)) \<and> ApplyCall ''a'' f lib \<in> set (rn_calls t)
     \<and> saved_record f ''a'' = Some d \<and> dr_wallpaper_status d = Running"
proof -
  obtain r t where t: "sync_once_with_events sample_setting 1 sample_run = (r, t)"
      "ApplyCall ''a'' (StateFile (one_record (running acked_record))) open_library \<in> set (rn_calls t)"
      "apply_ids (rn_calls t) = [''a'']"
    using sample_synchronised by auto
  from wallpaper_at_most_once [OF quiet_distinct sample_start(2,1) t(1)] t show ?thesis by blast
qed

end
