(* ===== verification/HttpSource.thy ===== *)
theory HttpSource
  imports Config Source
begin

text \<open>
  The delivery source over HTTP, \<open>src/http_source.rs\<close>, with the choice of a source in
  \<open>src/client.rs\<close>: the retry policy, the pages of a scan, downloads and acknowledgements. The HTTP
  library, URLs, JSON, random numbers and HTTP dates are arguments. Durations are in milliseconds;
  waiting has no effect here.
\<close>

section \<open>What the client is given\<close>

text \<open>
  The body of a reply is what reading it gives. A failed request tells whether the failure is
  permanent (building the request, a redirect, decoding).
\<close>

record reply =
  rp_status :: nat
  rp_headers :: headers
  rp_body :: "read_event list"

record index_page =
  ip_schema_version :: nat
  ip_items :: "bytes list"
  ip_next_cursor :: "string option"

record 'w http_api =
  ha_urls :: url_library
  ha_with_query :: "(string \<times> string) list \<Rightarrow> url \<Rightarrow> url"
  ha_send :: "http_request \<Rightarrow> 'w \<Rightarrow> (bool + reply) \<times> 'w"
  ha_random :: "nat \<Rightarrow> nat \<Rightarrow> 'w \<Rightarrow> nat \<times> 'w"
  ha_parse_index :: "bytes \<Rightarrow> index_page option"
  ha_parse_item :: "bytes \<Rightarrow> delivery_descriptor option"
  ha_ack_json :: "string \<Rightarrow> bytes"
  ha_http_date :: "string \<Rightarrow> 'w \<Rightarrow> nat option \<times> 'w"

definition MAX_INDEX_BODY_BYTES :: nat where "MAX_INDEX_BODY_BYTES = 4 * 1024 * 1024"
definition SOURCE_MAX_CURSOR_BYTES :: nat where "SOURCE_MAX_CURSOR_BYTES = 2048"
definition MAX_PAGES_PER_SCAN :: nat where "MAX_PAGES_PER_SCAN = 100"
definition MAX_DELIVERIES_PER_SCAN :: nat where "MAX_DELIVERIES_PER_SCAN = 10000"

section \<open>Retries\<close>

record retry_policy =
  ry_max_attempts :: nat
  ry_base_delay :: nat
  ry_max_delay :: nat

definition retry_policy_new :: "nat \<Rightarrow> nat \<Rightarrow> nat \<Rightarrow> retry_policy res" where
  "retry_policy_new attempts base_delay max_delay =
     andthen (ensure (\<not> (attempts = 0 \<or> attempts > MAX_HTTP_RETRY_ATTEMPTS))
       ''HTTP retry attempts'') (\<lambda>_.
     andthen (ensure (\<not> max_delay < base_delay)
       ''HTTP retry maximum delay must not be shorter than its base delay'') (\<lambda>_.
     andthen (ensure (max_delay \<le> MAX_HTTP_RETRY_DELAY_MILLISECONDS)
       ''HTTP retry maximum delay'') (\<lambda>_.
     Inr \<lparr>ry_max_attempts = attempts, ry_base_delay = base_delay, ry_max_delay = max_delay\<rparr>)))"

definition backoff_ceiling :: "retry_policy \<Rightarrow> nat \<Rightarrow> nat" where
  "backoff_ceiling R failed = min (ry_base_delay R * 2 ^ min (failed - 1) 31) (ry_max_delay R)"

definition delay_after ::
    "retry_policy \<Rightarrow> (nat \<Rightarrow> nat \<Rightarrow> 'w \<Rightarrow> nat \<times> 'w) \<Rightarrow> error \<Rightarrow> nat \<Rightarrow> 'w \<Rightarrow> nat option \<times> 'w" where
  "delay_after R random e failed w =
     (if failed \<ge> ry_max_attempts R then (None, w)
      else
        (case e of
           RetryableHttp _ (Some d) \<Rightarrow> (Some (min d (ry_max_delay R)), w)
         | RetryableHttp _ None \<Rightarrow>
             let ceiling = backoff_ceiling R failed in
             if ceiling \<le> 1 then (Some ceiling, w)
             else (case random (ceiling div 2) ceiling w of (n, u) \<Rightarrow> (Some n, u))
         | _ \<Rightarrow> (None, w)))"

lemma delay_after_some: "delay_after R random e failed w = (Some d, u) \<Longrightarrow> failed < ry_max_attempts R"
  by (auto simp: delay_after_def split: if_splits)

function (sequential) with_retry ::
    "retry_policy \<Rightarrow> (nat \<Rightarrow> nat \<Rightarrow> 'w \<Rightarrow> nat \<times> 'w) \<Rightarrow> ('w, 'a) op \<Rightarrow> nat \<Rightarrow> ('w, 'a) op" where
  "with_retry R random action failed w =
     (case action w of
        (Inr x, w1) \<Rightarrow> (Inr x, w1)
      | (Inl e, w1) \<Rightarrow>
          (case delay_after R random e (Suc failed) w1 of
             (None, w2) \<Rightarrow> (Inl e, w2)
           | (Some _, w2) \<Rightarrow> with_retry R random action (Suc failed) w2))"
  by pat_completeness auto
termination
  by (relation "measure (\<lambda>(R, random, m, failed, w). ry_max_attempts R - failed)")
    (auto dest!: delay_after_some [OF sym])

declare with_retry.simps [simp del]

section \<open>Requests and replies\<close>

record http_source =
  ho_base_url :: url
  ho_authorization :: bytes
  ho_page_size :: nat
  ho_retry :: retry_policy

definition http_source_new ::
    "url_library \<Rightarrow> string \<Rightarrow> string \<Rightarrow> nat \<Rightarrow> nat \<Rightarrow> bool \<Rightarrow> retry_policy \<Rightarrow> http_source res" where
  "http_source_new U base token timeout page_size insecure R =
     andthen (ensure (\<not> (timeout = 0 \<or> timeout > 60 * 60)) ''HTTP request timeout'') (\<lambda>_.
     andthen (ensure (\<not> (page_size = 0 \<or> page_size > MAX_HTTP_PAGE_SIZE)) ''HTTP page size'') (\<lambda>_.
     andthen (ensure (token \<noteq> []) ''HTTP bearer token must not be empty'') (\<lambda>_.
     andthen (ensure (length token \<le> MAX_TOKEN_BYTES) ''HTTP bearer token exceeds the safety limit'') (\<lambda>_.
     andthen (ensure (\<not> has_control token) ''HTTP bearer token contains control characters'') (\<lambda>_.
     andthen (of_option ''invalid HTTP server base URL'' (url_parse U base)) (\<lambda>u.
     andthen (ensure (url_host u \<noteq> None) ''HTTP server base URL must include a host'') (\<lambda>_.
     andthen (ensure (url_scheme u = ''https'' \<or> url_scheme u = ''http'' \<and> insecure)
       ''refusing plain HTTP or an unsupported scheme'') (\<lambda>_.
     andthen (ensure (\<not> (url_username u \<noteq> [] \<or> url_password u \<noteq> None))
       ''HTTP server base URL must not contain credentials'') (\<lambda>_.
     andthen (ensure (\<not> (url_query u \<noteq> None \<or> url_fragment u \<noteq> None))
       ''HTTP server base URL must not contain a query string or fragment'') (\<lambda>_.
     andthen (ensure (header_text (''Bearer '' @ token))
       ''HTTP bearer token cannot be represented as a header'') (\<lambda>_.
     Inr \<lparr>ho_base_url = (if suffix [slash] (url_path u) then u else url_set_path U (url_path u @ [slash]) u),
       ho_authorization = ''Bearer '' @ token, ho_page_size = page_size, ho_retry = R\<rparr>)))))))))))"

definition endpoint :: "'w http_api \<Rightarrow> http_source \<Rightarrow> string list \<Rightarrow> url res" where
  "endpoint H c parts =
     of_option ''HTTP server base URL cannot contain path segments''
       (url_extend (ha_urls H) ([''api'', ''v1'', ''deliveries''] @ parts) (ho_base_url c))"

definition source_headers :: "http_source \<Rightarrow> headers \<Rightarrow> headers" where
  "source_headers c extra =
     (''authorization'', ho_authorization c) # (''mirelay-protocol-version'', ''1'')
     # (''cache-control'', ''no-store'') # extra"

definition send_request :: "'w http_api \<Rightarrow> http_request \<Rightarrow> ('w, reply) op" where
  "send_request H q w =
     (case ha_send H q w of
        (Inl permanent, u) \<Rightarrow>
          (Inl (if permanent then Bail ''failed while requesting'' else RetryableHttp ''failed while requesting'' None), u)
      | (Inr r, u) \<Rightarrow> (Inr r, u))"

definition first_header :: "headers \<Rightarrow> string \<Rightarrow> bytes option" where
  "first_header h n = (case header_all h n of [] \<Rightarrow> None | v # _ \<Rightarrow> Some v)"

definition is_retryable_status :: "nat \<Rightarrow> bool" where
  "is_retryable_status n \<longleftrightarrow> n \<in> {408, 425, 429, 500, 502, 503, 504}"

definition parse_retry_after :: "'w http_api \<Rightarrow> string \<Rightarrow> 'w \<Rightarrow> nat option \<times> 'w" where
  "parse_retry_after H v w =
     (case parse_u64 (trim v) of Some n \<Rightarrow> (Some (1000 * n), w) | None \<Rightarrow> ha_http_date H v w)"

definition success_response :: "'w http_api \<Rightarrow> reply \<Rightarrow> ('w, reply) op" where
  "success_response H r w =
     (if 200 \<le> rp_status r \<and> rp_status r < 300 then (Inr r, w)
      else
        (case (case first_header (rp_headers r) ''retry-after'' of
             Some v \<Rightarrow> if header_text v then parse_retry_after H v w else (None, w)
           | None \<Rightarrow> (None, w)) of
           (delay, u) \<Rightarrow>
             (Inl (if is_retryable_status (rp_status r) then RetryableHttp ''HTTP status'' delay else Bail ''HTTP status''), u)))"

definition require_exact_status :: "reply \<Rightarrow> nat \<Rightarrow> unit res" where
  "require_exact_status r n = ensure (rp_status r = n) ''unexpected successful status''"

definition header_string :: "headers \<Rightarrow> string \<Rightarrow> string res" where
  "header_string h n =
     andthen (of_option ''response is missing a header'' (first_header h n)) (\<lambda>v.
     andthen (ensure (header_text v) ''header is not valid ASCII'') (\<lambda>_. Inr v))"

definition eq_ignore_case :: "string \<Rightarrow> string \<Rightarrow> bool" where
  "eq_ignore_case a b \<longleftrightarrow> to_ascii_lowercase a = to_ascii_lowercase b"

definition require_content_type :: "reply \<Rightarrow> string \<Rightarrow> unit res" where
  "require_content_type r expected =
     andthen (header_string (rp_headers r) ''content-type'') (\<lambda>v.
     ensure (eq_ignore_case (trim (hd (split_on (CHR '';'') v))) expected) ''unexpected Content-Type'')"

text \<open>\<open>take(n).read_to_end()\<close>.\<close>

fun read_take :: "nat \<Rightarrow> read_event list \<Rightarrow> bytes res" where
  "read_take n [] = Inr []"
| "read_take n (ReadError e # es) = (if n = 0 then Inr [] else Inl e)"
| "read_take n (Chunk b # es) =
     (if n = 0 \<or> b = [] then Inr []
      else andthen (read_take (n - length b) es) (\<lambda>rest. Inr (take n b @ rest)))"

definition read_body_limited :: "read_event list \<Rightarrow> nat \<Rightarrow> bool \<Rightarrow> bytes res" where
  "read_body_limited es mx reject_oversized =
     andthen (read_take (mx + 1) es) (\<lambda>b.
       if length b > mx then
         if reject_oversized then Inl (Bail ''HTTP response body exceeds the safety limit'') else Inr (take mx b)
       else Inr b)"

text \<open>The reader of a download: a failure or an early end may be tried again.\<close>

fun body_reader :: "nat \<Rightarrow> nat \<Rightarrow> read_event list \<Rightarrow> read_event list" where
  "body_reader expected n [] =
     (if n < expected then [ReadError (RetryableHttp ''HTTP response body ended early'' None)] else [])"
| "body_reader expected n (ReadError e # es) = [ReadError (RetryableHttp ''HTTP response body failed'' None)]"
| "body_reader expected n (Chunk b # es) =
     (if b = [] then
        if n < expected then [ReadError (RetryableHttp ''HTTP response body ended early'' None)] else []
      else
        (case checked_add_u64 n (length b) of
           None \<Rightarrow> [ReadError (Bail ''HTTP response byte count overflow'')]
         | Some m \<Rightarrow> Chunk b # body_reader expected m es))"

section \<open>Listing\<close>

definition get_request :: "'w http_api \<Rightarrow> http_source \<Rightarrow> url \<Rightarrow> headers \<Rightarrow> http_request" where
  "get_request H c u extra = \<lparr>rq_method = Get, rq_url = url_string (ha_urls H) u,
     rq_headers = source_headers c extra, rq_body = []\<rparr>"

definition fetch_once :: "'w http_api \<Rightarrow> http_source \<Rightarrow> url \<Rightarrow> ('w, index_page) op" where
  "fetch_once H c u =
     bindo (send_request H (get_request H c u [(''accept'', ''application/json'')])) (\<lambda>r0.
     bindo (success_response H r0) (\<lambda>r.
     bindo (lifto (require_exact_status r 200)) (\<lambda>_.
     bindo (lifto (require_content_type r ''application/json'')) (\<lambda>_.
     bindo (lifto (read_body_limited (rp_body r) MAX_INDEX_BODY_BYTES True)) (\<lambda>body.
     bindo (lifto (of_option ''failed to parse delivery index JSON'' (ha_parse_index H body))) (\<lambda>page.
     bindo (lifto (ensure (ip_schema_version page = PROTOCOL_VERSION) ''server uses unsupported index schema'')) (\<lambda>_.
     bindo (lifto (ensure (length (ip_items page) \<le> ho_page_size c) ''server returned too many deliveries'')) (\<lambda>_.
     retn page))))))))"

definition fetch_page :: "'w http_api \<Rightarrow> http_source \<Rightarrow> string option \<Rightarrow> ('w, index_page) op" where
  "fetch_page H c cursor =
     bindo (lifto (endpoint H c [])) (\<lambda>u.
     with_retry (ho_retry c) (ha_random H)
       (fetch_once H c (ha_with_query H
         ([(''status'', ''pending''), (''limit'', decimal (ho_page_size c))]
          @ (case cursor of None \<Rightarrow> [] | Some v \<Rightarrow> [(''cursor'', v)])) u)) 0)"

definition wire_delivery :: "delivery_descriptor \<Rightarrow> delivery" where
  "wire_delivery d = \<lparr>d_schema_version = MANIFEST_SCHEMA_VERSION, d_id = dd_delivery_id d,
     d_original_name = dd_original_name d, d_payload = [], d_size = dd_size_bytes d, d_sha256 = dd_sha256 d,
     d_media_type = dd_media_type d, d_created_at_unix = dd_created_at_unix d\<rparr>"

definition scan_wire :: "string \<Rightarrow> delivery \<Rightarrow> scan_state \<Rightarrow> scan_state" where
  "scan_wire item d st =
     (case map_of (ss_by_id st) (d_id d) of
        Some previous \<Rightarrow>
          scan_issue item (Bail ''duplicate delivery id'') (st\<lparr>ss_conflicts := List.insert (d_id d) (ss_conflicts st)\<rparr>)
      | None \<Rightarrow>
          if d_id d \<notin> set (ss_conflicts st) then st\<lparr>ss_by_id := bt_insert (d_id d) d (ss_by_id st)\<rparr> else st)"

definition scan_item :: "'w http_api \<Rightarrow> nat \<Rightarrow> string \<Rightarrow> bytes \<Rightarrow> scan_state \<Rightarrow> scan_state res" where
  "scan_item H mx item v st =
     (case ha_parse_item H v of
        None \<Rightarrow> Inr (scan_issue item (Bail ''invalid delivery object'') st)
      | Some w \<Rightarrow>
          (case validate_delivery_metadata (wire_delivery w) mx of
             Inl e \<Rightarrow> Inr (scan_issue item e st)
           | Inr _ \<Rightarrow>
               let t = scan_wire item (wire_delivery w) st in
               andthen (ensure (\<not> length (ss_by_id t) + length (ss_conflicts t) > MAX_DELIVERIES_PER_SCAN)
                 ''server returned too many deliveries in one scan'') (\<lambda>_. Inr t)))"

fun scan_items :: "'w http_api \<Rightarrow> nat \<Rightarrow> nat \<Rightarrow> nat \<Rightarrow> bytes list \<Rightarrow> scan_state \<Rightarrow> scan_state res" where
  "scan_items H mx page i [] st = Inr st"
| "scan_items H mx page i (v # vs) st =
     andthen (scan_item H mx (''HTTP page '' @ decimal page @ '', item '' @ decimal (i + 1)) v st)
       (scan_items H mx page (i + 1) vs)"

definition check_cursor :: "string list \<Rightarrow> string \<Rightarrow> unit res" where
  "check_cursor seen next_cursor =
     andthen (ensure (\<not> (next_cursor = [] \<or> length next_cursor > SOURCE_MAX_CURSOR_BYTES \<or> has_control next_cursor))
       ''server returned an invalid pagination cursor'') (\<lambda>_.
     ensure (next_cursor \<notin> set seen) ''server repeated a pagination cursor'')"

text \<open>\<open>left\<close> pages may still be fetched; the current one has the number \<open>MAX_PAGES_PER_SCAN - left\<close>.\<close>

fun scan_pages ::
    "'w http_api \<Rightarrow> http_source \<Rightarrow> nat \<Rightarrow> nat \<Rightarrow> string option \<Rightarrow> string list \<Rightarrow> scan_state \<Rightarrow> ('w, scan_state) op" where
  "scan_pages H c mx left cursor seen st =
     bindo (fetch_page H c cursor) (\<lambda>page.
     bindo (lifto (scan_items H mx (MAX_PAGES_PER_SCAN - left) 0 (ip_items page) st)) (\<lambda>t.
       case ip_next_cursor page of
         None \<Rightarrow> retn t
       | Some next_cursor \<Rightarrow>
           bindo (lifto (check_cursor seen next_cursor)) (\<lambda>_.
             case left of
               0 \<Rightarrow> fails (Bail ''server pagination exceeded the page safety limit'')
             | Suc n \<Rightarrow> scan_pages H c mx n (Some next_cursor) (next_cursor # seen) t)))"

definition http_scan_pending :: "'w http_api \<Rightarrow> http_source \<Rightarrow> nat \<Rightarrow> ('w, source_scan) op" where
  "http_scan_pending H c mx =
     bindo (scan_pages H c mx (MAX_PAGES_PER_SCAN - 1) None [] \<lparr>ss_by_id = [], ss_conflicts = [], ss_issues = []\<rparr>)
       (\<lambda>st. retn (scan_result st))"

section \<open>Downloading and acknowledging\<close>

definition http_open_payload :: "'w http_api \<Rightarrow> http_source \<Rightarrow> delivery \<Rightarrow> ('w, read_event list) op" where
  "http_open_payload H c d =
     bindo (lifto (validate_delivery_metadata d (d_size d))) (\<lambda>_.
     bindo (lifto (endpoint H c [d_id d, ''content''])) (\<lambda>u.
     let etag = ''\"sha256:'' @ d_sha256 d @ ''\"'' in
     bindo (send_request H (get_request H c u [(''accept'', d_media_type d), (''accept-encoding'', ''identity''),
       (''if-match'', etag)])) (\<lambda>r0.
     bindo (success_response H r0) (\<lambda>r.
     bindo (lifto (require_exact_status r 200)) (\<lambda>_.
     bindo (lifto (require_content_type r (d_media_type d))) (\<lambda>_.
     bindo (lifto (case first_header (rp_headers r) ''content-encoding'' of
         None \<Rightarrow> Inr ()
       | Some v \<Rightarrow>
           andthen (ensure (header_text v) ''delivery Content-Encoding is not valid ASCII'') (\<lambda>_.
           ensure (eq_ignore_case v ''identity'') ''server encoded delivery content''))) (\<lambda>_.
     bindo (lifto (header_string (rp_headers r) ''etag'')) (\<lambda>v.
     bindo (lifto (ensure (v = etag) ''delivery ETag mismatch'')) (\<lambda>_.
     bindo (lifto (header_string (rp_headers r) ''content-length'')) (\<lambda>n.
     bindo (lifto (of_option ''delivery Content-Length is not an integer'' (parse_u64 n))) (\<lambda>len.
     bindo (lifto (ensure (len = d_size d) ''delivery Content-Length mismatch'')) (\<lambda>_.
     retn (body_reader (d_size d) 0 (rp_body r))))))))))))))"

definition acknowledge_once :: "'w http_api \<Rightarrow> http_source \<Rightarrow> url \<Rightarrow> string \<Rightarrow> ('w, unit) op" where
  "acknowledge_once H c u sha =
     bindo (send_request H \<lparr>rq_method = Put, rq_url = url_string (ha_urls H) u,
       rq_headers = source_headers c [(''accept'', ''application/json''), (''content-type'', ''application/json'')],
       rq_body = ha_ack_json H sha\<rparr>) (\<lambda>r0.
     bindo (success_response H r0) (\<lambda>r.
     lifto (ensure (rp_status r = 204 \<or> rp_status r = 200) ''unexpected successful ACK status'')))"

definition http_acknowledge :: "'w http_api \<Rightarrow> http_source \<Rightarrow> string \<Rightarrow> string \<Rightarrow> ('w, unit) op" where
  "http_acknowledge H c i sha =
     bindo (lifto (validate_delivery_id i)) (\<lambda>_.
     bindo (lifto (ensure (\<not> (length sha \<noteq> 64 \<or> sha \<noteq> to_ascii_lowercase sha \<or> \<not> list_all is_ascii_hexdigit sha))
       ''invalid SHA-256 digest'')) (\<lambda>_.
     bindo (lifto (endpoint H c [i, ''ack''])) (\<lambda>u.
     with_retry (ho_retry c) (ha_random H) (acknowledge_once H c u sha) 0)))"

section \<open>The sources of a configuration\<close>

definition http_delivery_source :: "'w http_api \<Rightarrow> http_source \<Rightarrow> 'w delivery_source" where
  "http_delivery_source H c =
     \<lparr>scan_pending = http_scan_pending H c, open_payload = http_open_payload H c,
      acknowledge = http_acknowledge H c, payload_retry_delay = delay_after (ho_retry c) (ha_random H)\<rparr>"

text \<open>The inbox is the world of a local source; its clock is a counter of the caller's.\<close>

definition inbox_delivery_source :: "inbox_codec \<Rightarrow> (string \<Rightarrow> bool) \<Rightarrow> nat \<Rightarrow> dir delivery_source" where
  "inbox_delivery_source K inside now =
     \<lparr>scan_pending = inbox_scan_pending K, open_payload = inbox_open_payload inside,
      acknowledge = inbox_acknowledge K now, payload_retry_delay = no_retry\<rparr>"

datatype chosen_source = LocalSource string | RemoteSource http_source

text \<open>\<open>variables\<close> are the environment variables that are valid UTF-8.\<close>

definition source_for ::
    "url_library \<Rightarrow> (string \<Rightarrow> string option) \<Rightarrow> config \<Rightarrow> string option \<Rightarrow> chosen_source res" where
  "source_for U variables c token_override =
     andthen (config_connected c) (\<lambda>_.
       case cf_server c of
         Filesystem inbox_dir \<Rightarrow> Inr (LocalSource inbox_dir)
       | HttpServer h \<Rightarrow>
           andthen (case token_override of Some t \<Rightarrow> Inr t
             | None \<Rightarrow> of_option ''HTTP token environment variable is not set'' (variables (hs_token_env h))) (\<lambda>token.
           andthen (retry_policy_new (hs_retry_max_attempts h) (hs_retry_base_delay_milliseconds h)
             (hs_retry_max_delay_milliseconds h)) (\<lambda>R.
           andthen (http_source_new U (hs_base_url h) token (hs_request_timeout_seconds h) (hs_page_size h)
             (hs_allow_insecure_http h) R) (\<lambda>s. Inr (RemoteSource s)))))"


section \<open>What a scan lists\<close>

lemma scan_wire_scanned:
  assumes "scanned ds (ss_by_id st) (ss_conflicts st)"
  shows "scanned (ds @ [d]) (ss_by_id (scan_wire item d st)) (ss_conflicts (scan_wire item d st))"
proof (cases "map_of (ss_by_id st) (d_id d)")
  case None
  have "d_id d \<notin> set (ss_conflicts st)"
  proof
    assume "d_id d \<in> set (ss_conflicts st)"
    then have "2 \<le> length (List.filter (\<lambda>e. d_id e = d_id d) ds)" using assms by (simp add: scanned_def)
    moreover have "List.filter (\<lambda>e. d_id e = d_id d) ds = []"
      using None assms by (simp add: scanned_def find_as_filter split: list.splits)
    ultimately show False by simp
  qed
  with None assms show ?thesis by (simp add: scan_wire_def scanned_new)
next
  case (Some e)
  have "scanned (ds @ [d]) (ss_by_id st) (d_id d # ss_conflicts st)" by (rule scanned_again [OF assms Some])
  with Some show ?thesis by (simp add: scan_wire_def scan_issue_def scanned_def)
qed

text \<open>The valid deliveries of the items of a page.\<close>

definition wire_item :: "'w http_api \<Rightarrow> nat \<Rightarrow> bytes \<Rightarrow> delivery option" where
  "wire_item H mx v =
     (case ha_parse_item H v of
        None \<Rightarrow> None
      | Some w \<Rightarrow> if valid_metadata (wire_delivery w) mx then Some (wire_delivery w) else None)"

lemma scan_item_scanned:
  assumes "scan_item H mx item v st = Inr t" and "scanned ds (ss_by_id st) (ss_conflicts st)"
  shows "scanned (ds @ List.map_filter (wire_item H mx) [v]) (ss_by_id t) (ss_conflicts t)"
proof (cases "ha_parse_item H v")
  case None
  with assms show ?thesis by (auto simp: scan_item_def wire_item_def List.map_filter_def scan_issue_def)
next
  case (Some w)
  show ?thesis
  proof (cases "validate_delivery_metadata (wire_delivery w) mx")
    case (Inl e)
    then have "\<not> valid_metadata (wire_delivery w) mx" by (simp add: valid_metadata_def)
    with assms Some Inl show ?thesis
      by (auto simp: scan_item_def wire_item_def List.map_filter_def scan_issue_def)
  next
    case (Inr u)
    then have "valid_metadata (wire_delivery w) mx" by (simp add: valid_metadata_def)
    with assms Some Inr show ?thesis
      by (auto simp: scan_item_def wire_item_def List.map_filter_def Let_def andthen_Inr
          intro: scan_wire_scanned simp del: validate_delivery_metadata_ok)
  qed
qed

lemma map_filter_append: "List.map_filter f (xs @ ys) = List.map_filter f xs @ List.map_filter f ys"
  by (simp add: List.map_filter_def)

lemma scan_items_scanned:
  "scan_items H mx page i vs st = Inr t \<Longrightarrow> scanned ds (ss_by_id st) (ss_conflicts st) \<Longrightarrow>
     scanned (ds @ List.map_filter (wire_item H mx) vs) (ss_by_id t) (ss_conflicts t)"
proof (induction vs arbitrary: i st ds)
  case Nil
  then show ?case by (simp add: List.map_filter_def)
next
  case (Cons v vs)
  then obtain u where u: "scan_item H mx (''HTTP page '' @ decimal page @ '', item '' @ decimal (i + 1)) v st = Inr u"
      "scan_items H mx page (i + 1) vs u = Inr t" by (auto simp: andthen_Inr)
  have "ds @ List.map_filter (wire_item H mx) (v # vs) =
      (ds @ List.map_filter (wire_item H mx) [v]) @ List.map_filter (wire_item H mx) vs"
    using map_filter_append [of _ "[v]" vs] by simp
  then show ?case
    using Cons.IH [OF u(2) scan_item_scanned [OF u(1) Cons.prems(2)]] by simp
qed

declare scan_pages.simps [simp del]

text \<open>The items of all the pages from a cursor on, as the server serves them.\<close>

fun all_items :: "'w http_api \<Rightarrow> http_source \<Rightarrow> nat \<Rightarrow> string option \<Rightarrow> ('w, bytes list) op" where
  "all_items H c left cursor =
     bindo (fetch_page H c cursor) (\<lambda>page.
       case ip_next_cursor page of
         None \<Rightarrow> retn (ip_items page)
       | Some n \<Rightarrow>
           (case left of
              0 \<Rightarrow> fails (Bail ''too many pages'')
            | Suc m \<Rightarrow> bindo (all_items H c m (Some n)) (\<lambda>vs. retn (ip_items page @ vs))))"

declare all_items.simps [simp del]

lemma scan_pages_step:
  assumes "scan_pages H c mx left cursor seen st w = (Inr t, u)"
  shows "\<exists>(page :: index_page) v w1. fetch_page H c cursor w = (Inr page, w1)
     \<and> scan_items H mx (MAX_PAGES_PER_SCAN - left) 0 (ip_items page) st = Inr v
     \<and> (ip_next_cursor page = None \<and> v = t \<and> w1 = u
        \<or> (\<exists>m n. ip_next_cursor page = Some n \<and> left = Suc m \<and> scan_pages H c mx m (Some n) (n # seen) v w1 = (Inr t, u)))"
proof -
  from assms obtain page :: index_page and w1 v where f: "fetch_page H c cursor w = (Inr page, w1)"
    and v: "scan_items H mx (MAX_PAGES_PER_SCAN - left) 0 (ip_items page) st = Inr v"
    and tail: "(case ip_next_cursor page of
         None \<Rightarrow> retn v
       | Some next_cursor \<Rightarrow>
           bindo (lifto (check_cursor seen next_cursor)) (\<lambda>_.
             case left of
               0 \<Rightarrow> fails (Bail ''server pagination exceeded the page safety limit'')
             | Suc n \<Rightarrow> scan_pages H c mx n (Some next_cursor) (next_cursor # seen) v)) w1 = (Inr t, u)"
    unfolding scan_pages.simps [of H c mx left] op_ok by blast
  show ?thesis
  proof (cases "ip_next_cursor page")
    case None
    with tail have "v = t" "w1 = u" by simp_all
    with f v None show ?thesis by (intro exI [of _ page] exI [of _ v] exI [of _ w1]) simp
  next
    case (Some n)
    with tail have "\<exists>m. left = Suc m \<and> scan_pages H c mx m (Some n) (n # seen) v w1 = (Inr t, u)"
      by (cases left) (auto simp: op_ok)
    with f v Some show ?thesis by blast
  qed
qed

lemma scan_pages_scanned:
  "scan_pages H c mx left cursor seen st w = (Inr t, u) \<Longrightarrow> scanned ds (ss_by_id st) (ss_conflicts st)
     \<Longrightarrow> \<exists>vs. all_items H c left cursor w = (Inr vs, u)
       \<and> scanned (ds @ List.map_filter (wire_item H mx) vs) (ss_by_id t) (ss_conflicts t)"
proof (induction left arbitrary: cursor seen st w ds)
  case 0
  obtain page :: index_page and v and w1 where f: "fetch_page H c cursor w = (Inr page, w1)"
    and p: "scan_items H mx (MAX_PAGES_PER_SCAN - 0) 0 (ip_items page) st = Inr v"
    and r: "ip_next_cursor page = None" "v = t" "w1 = u"
    using scan_pages_step [OF 0(1)] by blast
  have "all_items H c 0 cursor w = (Inr (ip_items page), u)"
    using f r by (subst all_items.simps) (simp add: op_ok)
  then show ?case using scan_items_scanned [OF p 0(2)] r(2) by blast
next
  case (Suc left)
  obtain page :: index_page and v and w1 where f: "fetch_page H c cursor w = (Inr page, w1)"
    and p: "scan_items H mx (MAX_PAGES_PER_SCAN - Suc left) 0 (ip_items page) st = Inr v"
    and r: "ip_next_cursor page = None \<and> v = t \<and> w1 = u
      \<or> (\<exists>n. ip_next_cursor page = Some n \<and> scan_pages H c mx left (Some n) (n # seen) v w1 = (Inr t, u))"
    using scan_pages_step [OF Suc.prems(1)] by auto
  note s = scan_items_scanned [OF p Suc.prems(2)]
  from r show ?case
  proof
    assume r: "ip_next_cursor page = None \<and> v = t \<and> w1 = u"
    have "all_items H c (Suc left) cursor w = (Inr (ip_items page), u)"
      using f r by (subst all_items.simps) (simp add: op_ok)
    then show ?thesis using s r by blast
  next
    assume "\<exists>n. ip_next_cursor page = Some n \<and> scan_pages H c mx left (Some n) (n # seen) v w1 = (Inr t, u)"
    then obtain n vs where n: "ip_next_cursor page = Some n" "all_items H c left (Some n) w1 = (Inr vs, u)"
      "scanned ((ds @ List.map_filter (wire_item H mx) (ip_items page)) @ List.map_filter (wire_item H mx) vs)
        (ss_by_id t) (ss_conflicts t)" using Suc.IH [OF _ s] by blast
    have "all_items H c (Suc left) cursor w = (Inr (ip_items page @ vs), u)"
      using f n by (subst all_items.simps) (simp add: op_ok)
    moreover have "scanned (ds @ List.map_filter (wire_item H mx) (ip_items page @ vs)) (ss_by_id t) (ss_conflicts t)"
      using n(3) by (simp add: map_filter_append)
    ultimately show ?thesis by blast
  qed
qed

lemma http_scan_listed:
  assumes "http_scan_pending H c mx w = (Inr scan, u)"
  shows "\<exists>vs. all_items H c (MAX_PAGES_PER_SCAN - 1) None w = (Inr vs, u)
     \<and> set (sc_deliveries scan) = unambiguous (List.map_filter (wire_item H mx) vs)
     \<and> distinct (List.map d_id (sc_deliveries scan))
     \<and> sorted (List.map by_time_and_id (sc_deliveries scan))"
proof -
  obtain st where st: "scan_pages H c mx (MAX_PAGES_PER_SCAN - 1) None []
      \<lparr>ss_by_id = [], ss_conflicts = [], ss_issues = []\<rparr> w = (Inr st, u)" "scan = scan_result st"
    using assms by (auto simp: http_scan_pending_def op_ok)
  from scan_pages_scanned [OF st(1), of "[]"]
  obtain vs where a: "all_items H c (MAX_PAGES_PER_SCAN - 1) None w = (Inr vs, u)"
    and s: "scanned (List.map_filter (wire_item H mx) vs) (ss_by_id st) (ss_conflicts st)"
    by (auto simp: scanned_Nil)
  note l = listed_scanned [OF s]
  have "distinct (List.map d_id (sc_deliveries scan))"
    using l(2) by (simp add: st(2) scan_result_listed distinct_map)
  then show ?thesis using a l(1) by (intro exI [of _ vs]) (simp add: st(2) scan_result_listed)
qed

section \<open>Retries are bounded\<close>

lemma with_retry_count:
  fixes calls :: "'w \<Rightarrow> nat"
  assumes "\<And>w. calls (snd (action w)) \<le> calls w + 1" and "\<And>a b w. calls (snd (random a b w)) = calls w"
  shows "failed < ry_max_attempts R \<Longrightarrow>
     calls (snd (with_retry R random action failed w)) + failed \<le> calls w + ry_max_attempts R"
proof (induction "ry_max_attempts R - failed" arbitrary: failed w)
  case 0
  then show ?case by simp
next
  case (Suc n)
  obtain r w1 where r: "action w = (r, w1)" by fastforce
  then have c: "calls w1 \<le> calls w + 1" using assms(1) [of w] by simp
  show ?case
  proof (cases r)
    case (Inr x)
    with r c Suc show ?thesis by (subst with_retry.simps) simp
  next
    case (Inl e)
    obtain d w2 where d: "delay_after R random e (Suc failed) w1 = (d, w2)" by fastforce
    then have c2: "calls w2 = calls w1"
      using assms(2) by (auto simp: delay_after_def Let_def split: if_splits error.splits option.splits prod.splits)
        (metis snd_conv)
    show ?thesis
    proof (cases d)
      case None
      with r Inl d c c2 Suc show ?thesis by (subst with_retry.simps) simp
    next
      case (Some z)
      then have "Suc failed < ry_max_attempts R" using d delay_after_some by metis
      with Suc.hyps have "calls (snd (with_retry R random action (Suc failed) w2)) + Suc failed \<le> calls w2 + ry_max_attempts R"
        by (intro Suc.hyps(1)) auto
      with r Inl d c c2 Some show ?thesis by (subst with_retry.simps) simp
    qed
  qed
qed


text \<open>
  How many requests an operation makes: \<open>calls\<close> reads a count off the world, which sending raises
  by one and the other arguments leave alone.
\<close>

definition costs :: "('w \<Rightarrow> nat) \<Rightarrow> nat \<Rightarrow> ('e, 'w, 'a) eop \<Rightarrow> bool" where
  "costs calls n m \<longleftrightarrow> (\<forall>w. calls (snd (m w)) \<le> calls w + n)"

definition counts_requests :: "('w \<Rightarrow> nat) \<Rightarrow> 'w http_api \<Rightarrow> bool" where
  "counts_requests calls H \<longleftrightarrow>
     (\<forall>q w. calls (snd (ha_send H q w)) = calls w + 1)
     \<and> (\<forall>a b w. calls (snd (ha_random H a b w)) = calls w)
     \<and> (\<forall>v w. calls (snd (ha_http_date H v w)) = calls w)"

lemma costs_lifto [simp]: "costs calls n (lifto r)"
  by (simp add: costs_def op_defs)

lemma costs_retn [simp]: "costs calls n (retn x)"
  by (simp add: costs_def op_defs)

lemma costs_fails [simp]: "costs calls n (fails e)"
  by (simp add: costs_def op_defs)

lemma costs_bindo:
  assumes "costs calls a m" and "\<And>x. costs calls b (f x)" and "a + b \<le> n"
  shows "costs calls n (bindo m f)"
proof -
  have "calls (snd (bindo m f w)) \<le> calls w + n" for w
  proof -
    obtain r v where m: "m w = (r, v)" by fastforce
    then have v: "calls v \<le> calls w + a" using assms(1) by (auto simp: costs_def dest: spec [of _ w])
    show ?thesis
    proof (cases r)
      case (Inr x)
      have "calls (snd (f x v)) \<le> calls v + b" using assms(2) by (simp add: costs_def)
      with m Inr v assms(3) show ?thesis by (simp add: bindo_def)
    qed (use m v assms(3) in \<open>simp add: bindo_def\<close>)
  qed
  then show ?thesis by (simp add: costs_def)
qed

lemma costs_then: "costs calls n m \<Longrightarrow> (\<And>x. costs calls 0 (f x)) \<Longrightarrow> costs calls n (bindo m f)"
  by (rule costs_bindo) auto

lemma costs_free: "costs calls 0 m \<Longrightarrow> (\<And>x. costs calls n (f x)) \<Longrightarrow> costs calls n (bindo m f)"
  by (rule costs_bindo) auto

lemma costs_mono: "costs calls a m \<Longrightarrow> a \<le> b \<Longrightarrow> costs calls b m"
  unfolding costs_def by (meson add_left_mono le_trans)

lemma costs_send: "counts_requests calls H \<Longrightarrow> costs calls 1 (send_request H q)"
proof -
  assume "counts_requests calls H"
  then have "calls (snd (ha_send H q w)) = calls w + 1" for w by (simp add: counts_requests_def)
  then show ?thesis by (auto simp: costs_def send_request_def split: prod.split sum.split) (metis Suc_eq_plus1 le_refl snd_conv)+
qed

lemma costs_success: "counts_requests calls H \<Longrightarrow> costs calls 0 (success_response H r)"
proof -
  assume "counts_requests calls H"
  then have "calls (snd (ha_http_date H v w)) = calls w" for v w by (simp add: counts_requests_def)
  then have d: "calls (snd (parse_retry_after H v w)) = calls w" for v w
    by (simp add: parse_retry_after_def split: option.split)
  show ?thesis
    using d by (auto simp: costs_def success_response_def split: prod.split option.split) (metis le_refl snd_conv)+
qed

lemma costs_with_retry:
  assumes "counts_requests calls H" and "costs calls 1 m" and "1 \<le> ry_max_attempts R"
  shows "costs calls (ry_max_attempts R) (with_retry R (ha_random H) m 0)"
  unfolding costs_def
proof
  fix w
  show "calls (snd (with_retry R (ha_random H) m 0 w)) \<le> calls w + ry_max_attempts R"
    using with_retry_count [of calls m "ha_random H" 0 R w] assms by (simp add: costs_def counts_requests_def)
qed

lemma costs_fetch_once: "counts_requests calls H \<Longrightarrow> costs calls 1 (fetch_once H c u)"
  unfolding fetch_once_def
  by (rule costs_then [OF costs_send costs_free [OF costs_success]]) (auto intro!: costs_free)

lemma costs_fetch_page:
  "counts_requests calls H \<Longrightarrow> 1 \<le> ry_max_attempts (ho_retry c) \<Longrightarrow>
     costs calls (ry_max_attempts (ho_retry c)) (fetch_page H c cursor)"
  unfolding fetch_page_def by (rule costs_free) (auto intro: costs_with_retry costs_fetch_once)

lemma costs_scan_pages:
  assumes "counts_requests calls H" and "1 \<le> ry_max_attempts (ho_retry c)"
  shows "costs calls (Suc left * ry_max_attempts (ho_retry c)) (scan_pages H c mx left cursor seen st)"
proof (induction left arbitrary: cursor seen st)
  case 0
  show ?case
    by (subst scan_pages.simps, rule costs_bindo [OF costs_fetch_page [OF assms]], rule costs_free)
      (auto intro!: costs_free split: option.split)
next
  case (Suc left)
  show ?case
    by (subst scan_pages.simps, rule costs_bindo [OF costs_fetch_page [OF assms]], rule costs_free)
      (auto intro!: costs_free Suc.IH split: option.split)
qed

lemma costs_acknowledge:
  assumes "counts_requests calls H" and "1 \<le> ry_max_attempts (ho_retry c)"
  shows "costs calls (ry_max_attempts (ho_retry c)) (http_acknowledge H c i sha)"
proof -
  have "costs calls 1 (acknowledge_once H c u sha)" for u
    unfolding acknowledge_once_def
    by (rule costs_then [OF costs_send [OF assms(1)] costs_free [OF costs_success [OF assms(1)]]]) auto
  then show ?thesis
    unfolding http_acknowledge_def by (auto intro!: costs_free costs_with_retry assms)
qed

lemma costs_open: "counts_requests calls H \<Longrightarrow> costs calls 1 (http_open_payload H c d)"
  unfolding http_open_payload_def Let_def
  by (rule costs_free [OF _ costs_free], simp, simp, rule costs_then [OF costs_send costs_free [OF costs_success]])
    (auto intro!: costs_free)

lemma retry_policy_new_ok:
  "retry_policy_new attempts base_delay max_delay = Inr R \<Longrightarrow>
     R = \<lparr>ry_max_attempts = attempts, ry_base_delay = base_delay, ry_max_delay = max_delay\<rparr>
     \<and> 1 \<le> attempts \<and> attempts \<le> MAX_HTTP_RETRY_ATTEMPTS
     \<and> base_delay \<le> max_delay \<and> max_delay \<le> MAX_HTTP_RETRY_DELAY_MILLISECONDS"
  by (auto simp: retry_policy_new_def andthen_Inr)

text \<open>
  A scan over HTTP that succeeds has read every page to the last cursor, and lists exactly the
  valid deliveries of those pages whose id no other valid one shares: distinct ids, ordered by
  creation time and then id. An item that is not a valid delivery hides nothing but itself.
\<close>

theorem http_scan_contract:
  assumes "http_scan_pending H c mx w = (Inr scan, u)"
  shows "\<exists>vs. all_items H c (MAX_PAGES_PER_SCAN - 1) None w = (Inr vs, u)
     \<and> set (sc_deliveries scan) = unambiguous (List.map_filter (wire_item H mx) vs)
     \<and> distinct (List.map d_id (sc_deliveries scan))
     \<and> sorted (List.map by_time_and_id (sc_deliveries scan))"
  using assms by (rule http_scan_listed)

text \<open>
  With a policy that \<open>retry_policy_new\<close> accepts, a scan makes at most 100 pages of 10 attempts,
  an acknowledgement at most 10 attempts and opening a payload one request.
\<close>

theorem http_requests_bounded:
  assumes "counts_requests calls H" and "retry_policy_new attempts base_delay max_delay = Inr (ho_retry c)"
  shows "calls (snd (http_scan_pending H c mx w)) \<le> calls w + MAX_PAGES_PER_SCAN * attempts
    \<and> calls (snd (http_acknowledge H c i sha w)) \<le> calls w + attempts
    \<and> calls (snd (http_open_payload H c d w)) \<le> calls w + 1
    \<and> attempts \<le> MAX_HTTP_RETRY_ATTEMPTS"
proof -
  have a: "ry_max_attempts (ho_retry c) = attempts" "1 \<le> attempts" "attempts \<le> MAX_HTTP_RETRY_ATTEMPTS"
    using retry_policy_new_ok [OF assms(2)] by simp_all
  have "costs calls (MAX_PAGES_PER_SCAN * attempts) (http_scan_pending H c mx)"
    unfolding http_scan_pending_def
    using costs_scan_pages [OF assms(1), of c "MAX_PAGES_PER_SCAN - 1"] a
    by (intro costs_then) (auto simp: MAX_PAGES_PER_SCAN_def)
  then show ?thesis
    using costs_acknowledge [OF assms(1), of c] costs_open [OF assms(1), of c] a by (simp add: costs_def)
qed

section \<open>A sample server\<close>

text \<open>Its world is the number of requests; every request is answered with one page.\<close>

definition sample_descriptor :: delivery_descriptor where
  "sample_descriptor = \<lparr>dd_delivery_id = ''a'', dd_original_name = ''a.png'', dd_size_bytes = 12,
     dd_sha256 = sample_sha, dd_media_type = ''image/png'', dd_created_at_unix = None\<rparr>"

definition sample_page :: index_page where
  "sample_page = \<lparr>ip_schema_version = PROTOCOL_VERSION, ip_items = [''i''], ip_next_cursor = None\<rparr>"

definition sample_http :: "nat http_api" where
  "sample_http = \<lparr>
     ha_urls = \<lparr>url_parse = (\<lambda>a. None), url_string = url_path, url_join = (\<lambda>u a. None),
       url_set_path = (\<lambda>a u. u), url_extend = (\<lambda>a u. Some u)\<rparr>,
     ha_with_query = (\<lambda>q u. u),
     ha_send = (\<lambda>q n. (Inr \<lparr>rp_status = 200, rp_headers = [(''content-type'', ''application/json'')],
       rp_body = [Chunk ''x'']\<rparr>, n + 1)),
     ha_random = (\<lambda>a b n. (a, n)),
     ha_parse_index = (\<lambda>b. Some sample_page),
     ha_parse_item = (\<lambda>b. Some sample_descriptor),
     ha_ack_json = (\<lambda>s. s),
     ha_http_date = (\<lambda>v n. (None, n))\<rparr>"

definition sample_source :: http_source where
  "sample_source = \<lparr>ho_base_url = \<lparr>url_scheme = ''https'', url_host = Some ''h'', url_port = None, url_username = [],
       url_password = None, url_query = None, url_fragment = None, url_path = [slash]\<rparr>,
     ho_authorization = ''Bearer t'', ho_page_size = 50,
     ho_retry = \<lparr>ry_max_attempts = 3, ry_base_delay = 500, ry_max_delay = 5000\<rparr>\<rparr>"

lemma sample_fetch: "fetch_once sample_http sample_source u n = (Inr sample_page, n + 1)"
proof -
  have "require_content_type \<lparr>rp_status = 200, rp_headers = [(''content-type'', ''application/json'')],
      rp_body = [Chunk ''x'']\<rparr> ''application/json'' = Inr ()"
    using trim_printable [of "CHR ''a''" "''pplication/json''"]
    by (simp add: require_content_type_def header_string_def first_header_def header_all_def of_option_def
        header_text_def eq_ignore_case_def printable_char_def)
  then show ?thesis
    by (simp add: fetch_once_def send_request_def success_response_def bindo_def op_defs require_exact_status_def
        read_body_limited_def MAX_INDEX_BODY_BYTES_def of_option_def sample_page_def sample_source_def sample_http_def)
qed

lemma sample_fetch_page: "fetch_page sample_http sample_source cursor n = (Inr sample_page, n + 1)"
proof -
  have "endpoint sample_http sample_source [] = Inr (ho_base_url sample_source)"
    by (simp add: endpoint_def sample_http_def)
  then show ?thesis
    by (simp add: fetch_page_def bindo_def op_defs with_retry.simps [of _ _ "fetch_once sample_http sample_source u" for u] sample_fetch)
qed

lemma sample_scan: "http_scan_pending sample_http sample_source 1024 n
    = (Inr \<lparr>sc_deliveries = [wire_delivery sample_descriptor], sc_issues = []\<rparr>, n + 1)"
proof -
  have "valid_metadata (wire_delivery sample_descriptor) 1024"
    by (simp add: valid_metadata_iff wire_delivery_def sample_descriptor_def valid_delivery_id_iff
        extension_for_media_type_def valid_component_iff ascii_defs)
  then have v: "validate_delivery_metadata (wire_delivery sample_descriptor) 1024 = Inr ()" by simp
  have "scan_items sample_http 1024 k 0 [''i''] \<lparr>ss_by_id = [], ss_conflicts = [], ss_issues = []\<rparr>
      = Inr \<lparr>ss_by_id = [(''a'', wire_delivery sample_descriptor)], ss_conflicts = [], ss_issues = []\<rparr>" for k
    by (simp add: scan_item_def v sample_http_def scan_wire_def MAX_DELIVERIES_PER_SCAN_def del: validate_delivery_metadata_ok)
      (simp add: wire_delivery_def sample_descriptor_def)
  then show ?thesis
    unfolding http_scan_pending_def
    by (subst scan_pages.simps) (simp add: bindo_def op_defs sample_fetch_page sample_page_def scan_result_def del: scan_items.simps)
qed

theorem http_scan_contract_witness:
  "unambiguous (List.map_filter (wire_item sample_http 1024) [''i'']) = {wire_delivery sample_descriptor}"
proof -
  have "all_items sample_http sample_source (MAX_PAGES_PER_SCAN - 1) None 0 = (Inr [''i''], 0 + 1)"
    by (subst all_items.simps)
      (simp add: sample_fetch_page bindo_def op_defs sample_page_def)
  then show ?thesis using http_scan_contract [OF sample_scan [of 0]] by simp
qed

theorem http_requests_bounded_witness:
  "snd (http_scan_pending sample_http sample_source 1024 0) \<le> 0 + MAX_PAGES_PER_SCAN * 3"
proof -
  have "counts_requests (\<lambda>n. n) sample_http" by (simp add: counts_requests_def sample_http_def)
  moreover have "retry_policy_new 3 500 5000 = Inr (ho_retry sample_source)"
    by (simp add: retry_policy_new_def sample_source_def MAX_HTTP_RETRY_ATTEMPTS_def MAX_HTTP_RETRY_DELAY_MILLISECONDS_def)
  ultimately show ?thesis using http_requests_bounded [of "\<lambda>n. n" sample_http] by blast
qed

end
