(* ===== verification/Receiving.thy ===== *)
theory Receiving
  imports SyncSafe HttpSource
begin

text \<open>
  What a synchronisation relies on from its source, as an interface: a scan lists no id twice, and
  an attempt at a payload is not repeated for ever. Both sources of \<open>src/client.rs\<close> provide it. With
  it the fuel of the retry loop does not matter.
\<close>

section \<open>The interface\<close>

locale bounded_source =
  fixes source :: "'w delivery_source" and attempts :: nat
  assumes lists_once: "scan_distinct source"
    and some_attempt: "0 < attempts"
    and countable: "attempts \<le> u32_max"
    and gives_up: "attempts \<le> n \<Longrightarrow> fst (payload_retry_delay source e n w) = None"
begin

lemma retry_fuel:
  assumes "se_source V = source"
  shows "attempts \<le> failed + Suc n \<Longrightarrow> failed < attempts \<Longrightarrow>
     receive_delivery_with_retry V d (Suc n + k) failed = receive_delivery_with_retry V d (Suc n) failed"
proof (induction n arbitrary: failed)
  case 0
  then have u: "u32_succ failed = Suc failed" "attempts \<le> Suc failed"
    using countable by (auto simp: u32_succ_def)
  have "asking (payload_retry_delay source e (Suc failed)) s
      = (Inr None, s\<lparr>rn_world := snd (payload_retry_delay source e (Suc failed) (rn_world s))\<rparr>)" for e and s :: "'w run"
    using gives_up [OF u(2), of e "rn_world s"] by (simp add: asking_def split_beta)
  then show ?case
    by (intro ext) (simp add: u(1) assms bindo_def split: prod.split sum.split)
next
  case (Suc n)
  then have u: "u32_succ failed = Suc failed" using countable by (auto simp: u32_succ_def)
  show ?case
  proof (cases "Suc failed < attempts")
    case True
    from Suc.IH [OF _ this] Suc.prems u show ?thesis by simp
  next
    case False
    then have f: "attempts \<le> Suc failed" by simp
    have "asking (payload_retry_delay source e (Suc failed)) s
        = (Inr None, s\<lparr>rn_world := snd (payload_retry_delay source e (Suc failed) (rn_world s))\<rparr>)" for e and s :: "'w run"
      using gives_up [OF f, of e "rn_world s"] by (simp add: asking_def split_beta)
    then show ?thesis
      by (intro ext) (simp add: u assms bindo_def split: prod.split sum.split)
  qed
qed

lemma enough_fuel:
  assumes "se_source V = source" and "attempts \<le> fuel"
  shows "receive_delivery_with_retry V d fuel 0 = receive_delivery_with_retry V d attempts 0"
proof -
  obtain n where n: "attempts = Suc n" using some_attempt by (cases attempts) auto
  obtain k where "fuel = Suc n + k" using assms(2) n le_Suc_ex by blast
  then show ?thesis using retry_fuel [OF assms(1), of 0 n d k] n by simp
qed

lemma process_fuel:
  assumes "se_source V = source" and "attempts \<le> fuel"
  shows "process_delivery V fuel d = process_delivery V attempts d"
proof -
  note e = enough_fuel [OF assms]
  have "process_new V fuel d = process_new V attempts d" by (simp add: process_new_def e)
  moreover have r: "repair_delivery V fuel d x = repair_delivery V attempts d x" for x
    by (simp add: repair_delivery_def e)
  have "process_existing V fuel d = process_existing V attempts d"
    by (rule ext) (simp only: process_existing_def r)
  ultimately show ?thesis by (simp only: process_delivery_def)
qed

lemma deliveries_fuel:
  assumes "se_source V = source" and "attempts \<le> fuel"
  shows "sync_deliveries V fuel handled ds repair = sync_deliveries V attempts handled ds repair"
  by (induction ds arbitrary: repair) (simp_all add: sync_delivery_def process_fuel [OF assms])

lemma sync_fuel:
  assumes "se_source V = source" and "attempts \<le> fuel"
  shows "sync_once_with_events V fuel = sync_once_with_events V attempts"
  by (simp add: sync_once_with_events_def deliveries_fuel [OF assms])

end

section \<open>The two sources\<close>

lemma inbox_bounded: "bounded_source (inbox_delivery_source K inside now) 1"
proof
  show "scan_distinct (inbox_delivery_source K inside now)"
    using inbox_scan_listed(2) by (fastforce simp: scan_distinct_def inbox_delivery_source_def)
qed (simp_all add: inbox_delivery_source_def no_retry_def u32_max_def)

lemma http_bounded:
  assumes "retry_policy_new attempts base_delay max_delay = Inr (ho_retry c)"
  shows "bounded_source (http_delivery_source H c) attempts"
proof
  note p = retry_policy_new_ok [OF assms]
  show "scan_distinct (http_delivery_source H c)"
    using http_scan_listed by (fastforce simp: scan_distinct_def http_delivery_source_def)
  show "0 < attempts" "attempts \<le> u32_max" using p by (simp_all add: MAX_HTTP_RETRY_ATTEMPTS_def u32_max_def)
  show "fst (payload_retry_delay (http_delivery_source H c) e n w) = None" if "attempts \<le> n" for n e w
    using p that by (simp add: http_delivery_source_def delay_after_def)
qed

interpretation inbox: bounded_source "inbox_delivery_source K inside now" 1 for K inside now
  by (rule inbox_bounded)

text \<open>
  C25. A synchronisation ends, with either source: a payload is tried at most as often as the source
  allows, once from a local inbox and the configured number of times over HTTP, which is at most
  10. A larger bound on the retry loop gives the same run.
\<close>

theorem synchronisation_ends:
  assumes "retry_policy_new attempts base_delay max_delay = Inr (ho_retry c)" and "attempts \<le> fuel"
  shows "attempts \<le> MAX_HTTP_RETRY_ATTEMPTS
     \<and> sync_once_with_events (V\<lparr>se_source := http_delivery_source H c\<rparr>) fuel
         = sync_once_with_events (V\<lparr>se_source := http_delivery_source H c\<rparr>) attempts
     \<and> sync_once_with_events (V'\<lparr>se_source := inbox_delivery_source K inside now\<rparr>) fuel
         = sync_once_with_events (V'\<lparr>se_source := inbox_delivery_source K inside now\<rparr>) 1"
  using bounded_source.sync_fuel [OF http_bounded [OF assms(1)] _ assms(2), where V = "V\<lparr>se_source := http_delivery_source H c\<rparr>"]
    inbox.sync_fuel [of "V'\<lparr>se_source := inbox_delivery_source K inside now\<rparr>" K inside now fuel]
    retry_policy_new_ok [OF assms(1)] assms(2)
  by simp

theorem synchronisation_ends_witness:
  "\<forall>V :: nat setting. sync_once_with_events (V\<lparr>se_source := http_delivery_source sample_http sample_source\<rparr>) 7
     = sync_once_with_events (V\<lparr>se_source := http_delivery_source sample_http sample_source\<rparr>) 3"
proof
  fix V :: "nat setting"
  have "retry_policy_new 3 500 5000 = Inr (ho_retry sample_source)"
    by (simp add: retry_policy_new_def sample_source_def MAX_HTTP_RETRY_ATTEMPTS_def MAX_HTTP_RETRY_DELAY_MILLISECONDS_def)
  then show "sync_once_with_events (V\<lparr>se_source := http_delivery_source sample_http sample_source\<rparr>) 7
     = sync_once_with_events (V\<lparr>se_source := http_delivery_source sample_http sample_source\<rparr>) 3"
    using synchronisation_ends [where c = sample_source and V = V and H = sample_http and fuel = 7] by simp
qed

section \<open>A delivery arrives\<close>

text \<open>
  A step that succeeds from one state to another.
\<close>

definition saves :: "'w setting \<Rightarrow> bool" where
  "saves V \<longleftrightarrow> (\<forall>st. se_json_length V st + 1 \<le> MAX_STATE_SIZE_BYTES) \<and> (\<forall>st w. fst (se_write V st w) = Written)"

lemma state_save_succeeds:
  assumes "saves V" and "as_schema_version (rn_state s) = STATE_SCHEMA_VERSION"
  shows "state_save V s = (Inr (), s\<lparr>rn_world := snd (se_write V (rn_state s) (rn_world s)), rn_saved := StateFile (rn_state s)\<rparr>)"
proof -
  obtain w where "se_write V (rn_state s) (rn_world s) = (Written, w)"
    using assms(1) by (metis saves_def prod.collapse)
  then show ?thesis
    using assms by (simp add: state_save_def bindo_def op_defs asking_def saves_def)
qed

lemma progress_save_succeeds:
  assumes "saves V" and "as_schema_version (rn_state s) = STATE_SCHEMA_VERSION"
  shows "\<exists>t. progress_save V s = (Inr (), t) \<and> rn_saved t = StateFile (rn_state s) \<and> rn_state t = rn_state s
    \<and> rn_summary t = rn_summary s \<and> rn_library t = rn_library s"
  using state_save_succeeds [OF assms] by (simp add: progress_save_def bindo_def op_defs)

lemma state_edit:
  "edit_record i f s = (Inr (), s\<lparr>rn_state := (rn_state s)\<lparr>as_deliveries :=
     List.map (\<lambda>(k, r). (k, if k = i then f r else r)) (as_deliveries (rn_state s))\<rparr>\<rparr>)"
  by (simp add: edit_record_def op_defs)

lemma confirm_new_succeeds:
  assumes "saves V" and "as_schema_version (rn_state s) = STATE_SCHEMA_VERSION"
    and "\<And>w. fst (acknowledge (se_source V) (d_id d) (d_sha256 d) w) = Inr ()"
    and "record_of (d_id d) s = Some r"
  shows "\<exists>t now. confirm_new V d s = (Inr (), t) \<and> record_of (d_id d) t = Some (mark_acknowledged True now r)
    \<and> rn_saved t = StateFile (rn_state t) \<and> rn_library t = rn_library s
    \<and> rn_summary t = (rn_summary s)\<lparr>sy_acknowledged := sy_acknowledged (rn_summary s) + 1\<rparr>"
proof -
  obtain s1 where p: "progress_phase Confirming s = (Inr (), s1)" "rn_state s1 = rn_state s"
      "rn_library s1 = rn_library s" "rn_summary s1 = rn_summary s"
    by (simp add: progress_phase_def op_defs Let_def)
  obtain s2 where c: "attempt (call_acknowledge V (d_id d) (d_sha256 d)) s1 = (Inr (Inr ()), s2)"
      "rn_state s2 = rn_state s1" "rn_library s2 = rn_library s1" "rn_summary s2 = rn_summary s1"
    using assms(3) [of "rn_world s1"]
    by (cases "acknowledge (se_source V) (d_id d) (d_sha256 d) (rn_world s1)")
      (simp add: attempt_def call_acknowledge_def logging_def outside_op_def bindo_def op_defs)
  obtain now s3 where u: "unix_now V s2 = (Inr now, s3)" "rn_state s3 = rn_state s2" "rn_library s3 = rn_library s2"
      "rn_summary s3 = rn_summary s2"
    by (cases "se_now V (rn_world s2)") (simp add: unix_now_def asking_def)
  have rs: "record_of (d_id d) s3 = Some r" using assms(4) p(2) c(2) u(2) by (simp add: record_of_def)
  obtain s4 where e: "edit_record (d_id d) (mark_acknowledged True now) s3 = (Inr (), s4)"
      "record_of (d_id d) s4 = Some (mark_acknowledged True now r)"
      "as_schema_version (rn_state s4) = STATE_SCHEMA_VERSION" "rn_library s4 = rn_library s3" "rn_summary s4 = rn_summary s3"
  proof -
    let ?e = "edit_record (d_id d) (mark_acknowledged True now) s3"
    have "record_of (d_id d) (snd ?e) = Some (mark_acknowledged True now r)" using rs by (simp add: state_edit)
    moreover have "?e = (Inr (), snd ?e)" by (simp add: state_edit)
    moreover have "as_schema_version (rn_state (snd ?e)) = STATE_SCHEMA_VERSION" "rn_library (snd ?e) = rn_library s3"
        "rn_summary (snd ?e) = rn_summary s3"
      using assms(2) p(2) c(2) u(2) by (simp_all add: state_edit)
    ultimately show ?thesis using that by blast
  qed
  obtain t where t: "progress_save V s4 = (Inr (), t)" "rn_saved t = StateFile (rn_state s4)" "rn_state t = rn_state s4"
      "rn_summary t = rn_summary s4" "rn_library t = rn_library s4"
    using progress_save_succeeds [OF assms(1) e(3)] by blast
  show ?thesis
    using p c u e t
    by (intro exI [of _ "t\<lparr>rn_summary := (rn_summary s)\<lparr>sy_acknowledged := sy_acknowledged (rn_summary s) + 1\<rparr>\<rparr>"] exI [of _ now])
      (simp add: confirm_new_def bindo_def count_def op_defs record_of_def)
qed


text \<open>A source with one payload, and a run with an empty library.\<close>

definition arriving_setting :: "unit setting" where
  "arriving_setting = sample_setting\<lparr>se_source := quiet_source\<lparr>open_payload :=
     \<lambda>d w. (Inr (List.map Chunk [take 5 sample_png, drop 5 sample_png]), w)\<rparr>\<rparr>"

definition empty_run :: "unit run" where
  "empty_run = sample_run\<lparr>rn_library := [], rn_saved := NoFile\<rparr>"


end
