(* ===== verification/Projection.thy ===== *)
theory Projection
  imports Sync
begin

text \<open>
  The receiving half of directory synchronisation, \<open>src/directory/receiver.rs\<close>: a directory of
  the user's in which new versions of files replace old ones without ever losing a file. The tree
  maps the places below the directory to what is there; an identity stands for the device and the
  inode number. Every call of the file system may fail, and a crash is a failure after which only
  the tree, the objects and the two state files remain. Nobody else changes the directory
  during a call, and files do not change while they are read.
\<close>

section \<open>The tree\<close>

type_synonym place = "string list"

datatype item = Regular nat bytes | Folder nat | Special nat

type_synonym tree = "(place \<times> item) list"

primrec item_id :: "item \<Rightarrow> nat" where
  "item_id (Regular i b) = i"
| "item_id (Folder i) = i"
| "item_id (Special i) = i"

definition is_folder :: "item option \<Rightarrow> bool" where
  "is_folder x = (case x of Some (Folder i) \<Rightarrow> True | _ \<Rightarrow> False)"

definition is_plain :: "item option \<Rightarrow> bool" where
  "is_plain x = (case x of Some (Regular i b) \<Rightarrow> True | _ \<Rightarrow> False)"

definition fresh_id :: "tree \<Rightarrow> nat" where
  "fresh_id t = Suc (fold max (List.map (item_id \<circ> snd) t) 0)"

text \<open>A rename takes along what is below a directory.\<close>

definition relocate :: "place \<Rightarrow> place \<Rightarrow> place \<Rightarrow> place" where
  "relocate p q k = (if prefix p k then q @ drop (length p) k else k)"

definition swap_places :: "place \<Rightarrow> place \<Rightarrow> place \<Rightarrow> place" where
  "swap_places p q k = (if prefix p k then relocate p q k else relocate q p k)"

definition move_places :: "(place \<Rightarrow> place) \<Rightarrow> tree \<Rightarrow> tree" where
  "move_places f t = List.map (\<lambda>(k, x). (f k, x)) t"

section \<open>State\<close>

definition MAX_BODY :: nat where "MAX_BODY = 8 * 1024 * 1024"

record applied_file =
  af_version :: nat
  af_sha256 :: string
  af_conflict :: bool
  af_history :: "string option"
  af_acknowledged :: bool
  af_size :: nat
  af_media_type :: string
  af_received_at_unix :: nat

record receiver_ledger =
  rl_schema_version :: nat
  rl_root :: string
  rl_identity :: nat
  rl_scope :: string
  rl_files :: "(string \<times> applied_file) list"

record journal =
  jr_entry :: directory_entry
  jr_stage :: string
  jr_history :: string
  jr_inode :: nat
  jr_parent :: nat
  jr_previous_sha :: "string option"

datatype 'a document = Missing | Saved 'a | Broken

datatype receive_event =
    FileStarted directory_entry sync_phase
  | FileApplied directory_entry applied_file

text \<open>
  \<open>pj_receipts\<close> is a history variable: the receipts sent, each with the ledger on disk and the
  tree of that moment.
\<close>

record 'w projection =
  pj_world :: 'w
  pj_tree :: tree
  pj_objects :: dir
  pj_ledger_file :: "receiver_ledger document"
  pj_journal_file :: "journal document"
  pj_retired :: bool
  pj_ledger :: receiver_ledger
  pj_events :: "receive_event list"
  pj_receipts :: "(directory_ack \<times> receiver_ledger document \<times> tree) list"

type_synonym ('w, 'a) proj = "('w projection, 'a) op"

text \<open>
  \<open>px_permit\<close> tells whether the next call of the file system succeeds, \<open>px_partial\<close> how much of a
  failed copy was written, \<open>px_write\<close> how an atomic write ends.
\<close>

record 'w projection_api =
  px_ext :: externals
  px_permit :: "'w \<Rightarrow> bool \<times> 'w"
  px_partial :: "'w \<Rightarrow> nat \<times> 'w"
  px_write :: "'w \<Rightarrow> write_outcome \<times> 'w"
  px_uuid :: "'w \<Rightarrow> string \<times> 'w"
  px_now :: "'w \<Rightarrow> nat \<times> 'w"
  px_ledger_length :: "receiver_ledger \<Rightarrow> nat"
  px_journal_length :: "journal \<Rightarrow> nat"
  px_inventory_id :: "inventory_entry list \<Rightarrow> string"

section \<open>Calls of the file system\<close>

definition consult :: "('w \<Rightarrow> 'a \<times> 'w) \<Rightarrow> ('w, 'a) proj" where
  "consult f s = (case f (pj_world s) of (x, w) \<Rightarrow> (Inr x, s\<lparr>pj_world := w\<rparr>))"

definition permitted :: "'w projection_api \<Rightarrow> ('w, unit) proj" where
  "permitted A = bindo (consult (px_permit A)) (\<lambda>ok. lifto (ensure ok ''input/output error''))"

definition edit_tree :: "(tree \<Rightarrow> tree) \<Rightarrow> ('w, unit) proj" where
  "edit_tree f = modifyo (\<lambda>s. s\<lparr>pj_tree := f (pj_tree s)\<rparr>)"

definition looking :: "place \<Rightarrow> ('w, item option) proj" where
  "looking p = readso (\<lambda>s. Inr (map_of (pj_tree s) p))"

text \<open>Creating or renaming to a place needs its directory to be there.\<close>

definition in_directory :: "place \<Rightarrow> ('w, unit) proj" where
  "in_directory p = bindo (looking (butlast p)) (\<lambda>x. lifto (ensure (is_folder x) ''no such directory''))"

definition make_directory :: "'w projection_api \<Rightarrow> place \<Rightarrow> ('w, unit) proj" where
  "make_directory A p =
     bindo (permitted A) (\<lambda>_.
     bindo (looking p) (\<lambda>x.
       case x of
         Some _ \<Rightarrow> retn ()
       | None \<Rightarrow>
           bindo (in_directory p) (\<lambda>_.
           bindo (edit_tree (\<lambda>t. AList.update p (Folder (fresh_id t)) t)) (\<lambda>_. permitted A))))"

definition open_directory :: "'w projection_api \<Rightarrow> place \<Rightarrow> ('w, unit) proj" where
  "open_directory A p =
     bindo (permitted A) (\<lambda>_.
     bindo (looking p) (\<lambda>x. lifto (ensure (is_folder x) ''not a directory'')))"

fun enter :: "'w projection_api \<Rightarrow> bool \<Rightarrow> place \<Rightarrow> string list \<Rightarrow> ('w, place) proj" where
  "enter A create p [] = retn p"
| "enter A create p (n # ns) =
     bindo (if create then make_directory A (p @ [n]) else retn ()) (\<lambda>_.
     bindo (open_directory A (p @ [n])) (\<lambda>_. enter A create (p @ [n]) ns))"

definition root_parent :: "'w projection_api \<Rightarrow> string \<Rightarrow> bool \<Rightarrow> ('w, place \<times> string) proj" where
  "root_parent A path create =
     bindo (lifto (validate_path path)) (\<lambda>_.
     bindo (enter A create [] (butlast (split_on slash path))) (\<lambda>p. retn (p, last (split_on slash path))))"

definition stat_optional :: "'w projection_api \<Rightarrow> place \<Rightarrow> ('w, item option) proj" where
  "stat_optional A p = bindo (permitted A) (\<lambda>_. looking p)"

definition open_regular :: "'w projection_api \<Rightarrow> place \<Rightarrow> ('w, bytes) proj" where
  "open_regular A p =
     bindo (permitted A) (\<lambda>_.
     bindo (looking p) (\<lambda>x.
       case x of
         Some (Regular i b) \<Rightarrow> retn b
       | _ \<Rightarrow> fails (Bail ''Directory contains a non-regular file.'')))"

definition file_digest :: "externals \<Rightarrow> nat \<Rightarrow> bytes \<Rightarrow> (string \<times> nat) res" where
  "file_digest X limit b =
     andthen (ensure (length b \<le> limit) ''File exceeds directory scan limit.'') (\<lambda>_.
     Inr (sha256_hex X b, length b))"

definition digest_of :: "'w projection_api \<Rightarrow> bytes \<Rightarrow> ('w, string \<times> nat) proj" where
  "digest_of A b = bindo (permitted A) (\<lambda>_. lifto (file_digest (px_ext A) DIR_MAX_FILE b))"

definition create_file :: "'w projection_api \<Rightarrow> place \<Rightarrow> ('w, nat) proj" where
  "create_file A p =
     bindo (permitted A) (\<lambda>_.
     bindo (looking p) (\<lambda>x.
     bindo (lifto (ensure (x = None) ''file exists'')) (\<lambda>_.
     bindo (in_directory p) (\<lambda>_.
     bindo (readso (\<lambda>s. Inr (fresh_id (pj_tree s)))) (\<lambda>i.
     bindo (edit_tree (AList.update p (Regular i []))) (\<lambda>_. retn i))))))"

definition write_file :: "'w projection_api \<Rightarrow> place \<Rightarrow> nat \<Rightarrow> bytes \<Rightarrow> ('w, unit) proj" where
  "write_file A p i b =
     bindo (consult (px_permit A)) (\<lambda>ok.
       if ok then edit_tree (AList.update p (Regular i b))
       else
         bindo (consult (px_partial A)) (\<lambda>n.
         bindo (edit_tree (AList.update p (Regular i (take n b)))) (\<lambda>_.
         fails (Bail ''input/output error''))))"

text \<open>Whether the name was free; a missing source is an error.\<close>

definition rename_noreplace :: "'w projection_api \<Rightarrow> place \<Rightarrow> place \<Rightarrow> ('w, bool) proj" where
  "rename_noreplace A p q =
     bindo (permitted A) (\<lambda>_.
     bindo (looking p) (\<lambda>x.
     bindo (lifto (ensure (x \<noteq> None) ''no such file'')) (\<lambda>_.
     bindo (looking q) (\<lambda>y.
       if y \<noteq> None then retn False
       else
         bindo (in_directory q) (\<lambda>_.
         bindo (edit_tree (move_places (relocate p q))) (\<lambda>_. retn True))))))"

definition rename_exchange :: "'w projection_api \<Rightarrow> place \<Rightarrow> place \<Rightarrow> ('w, unit) proj" where
  "rename_exchange A p q =
     bindo (permitted A) (\<lambda>_.
     bindo (looking p) (\<lambda>x.
     bindo (looking q) (\<lambda>y.
     bindo (lifto (ensure (x \<noteq> None \<and> y \<noteq> None) ''no such file'')) (\<lambda>_.
     edit_tree (move_places (swap_places p q))))))"

section \<open>Documents\<close>

definition load_document :: "'w projection_api \<Rightarrow> ('w projection \<Rightarrow> 'a document) \<Rightarrow> ('w, 'a option) proj" where
  "load_document A field =
     bindo (permitted A) (\<lambda>_.
     readso (\<lambda>s.
       case field s of
         Missing \<Rightarrow> Inr None
       | Saved d \<Rightarrow> Inr (Some d)
       | Broken \<Rightarrow> Inl (Bail ''failed to read or parse'')))"

text \<open>\<open>put\<close> takes effect unless the write failed before its rename.\<close>

definition save_document :: "'w projection_api \<Rightarrow> nat \<Rightarrow> ('w projection \<Rightarrow> 'w projection) \<Rightarrow> ('w, unit) proj" where
  "save_document A len put =
     bindo (lifto (ensure (len \<le> MAX_BODY) ''Directory state limit exceeded.'')) (\<lambda>_.
     bindo (consult (px_write A)) (\<lambda>w.
       case w of
         Written \<Rightarrow> modifyo put
       | WrittenNotSynced \<Rightarrow> bindo (modifyo put) (\<lambda>_. fails (Bail ''failed to persist''))
       | NotWritten \<Rightarrow> fails (Bail ''failed to persist'')))"

definition save_ledger :: "'w projection_api \<Rightarrow> ('w, unit) proj" where
  "save_ledger A =
     bindo (readso (\<lambda>s. Inr (pj_ledger s))) (\<lambda>l.
     save_document A (px_ledger_length A l) (\<lambda>s. s\<lparr>pj_ledger_file := Saved l\<rparr>))"

definition save_journal :: "'w projection_api \<Rightarrow> journal \<Rightarrow> ('w, unit) proj" where
  "save_journal A j = save_document A (px_journal_length A j) (\<lambda>s. s\<lparr>pj_journal_file := Saved j\<rparr>)"

definition remove_journal :: "'w projection_api \<Rightarrow> ('w, unit) proj" where
  "remove_journal A =
     bindo (permitted A) (\<lambda>_.
     bindo (modifyo (\<lambda>s. s\<lparr>pj_journal_file := Missing\<rparr>)) (\<lambda>_. permitted A))"

definition file_record :: "string \<Rightarrow> ('w, applied_file option) proj" where
  "file_record p = readso (\<lambda>s. Inr (map_of (rl_files (pj_ledger s)) p))"

definition record_applied :: "string \<Rightarrow> applied_file \<Rightarrow> ('w, unit) proj" where
  "record_applied p f = modifyo (\<lambda>s. s\<lparr>pj_ledger := (pj_ledger s)\<lparr>rl_files := bt_insert p f (rl_files (pj_ledger s))\<rparr>\<rparr>)"

section \<open>Scanning\<close>

text \<open>
  What is left of the budget of nodes, and the entries found. Time limits and concurrent changes
  of the directory are left out; \<open>depth\<close> is the number of further levels that are allowed. The
  scan has no effect, so that one call stands for all of its reads.
\<close>

type_synonym scan_progress = "nat \<times> inventory_entry list"

definition children :: "tree \<Rightarrow> place \<Rightarrow> string list" where
  "children t p = List.map (\<lambda>(k, x). last k) (List.filter (\<lambda>(k, x). k \<noteq> [] \<and> butlast k = p) t)"

definition scan_file :: "externals \<Rightarrow> string \<Rightarrow> item \<Rightarrow> scan_progress \<Rightarrow> scan_progress res" where
  "scan_file X path x progress =
     (case x of
        Regular i b \<Rightarrow>
          andthen (ensure (length (snd progress) < MAX_ENTRIES)
            ''Symlink, special file or excessive directory entries.'') (\<lambda>_.
          andthen (file_digest X DIR_MAX_FILE b) (\<lambda>(sha, n).
          Inr (fst progress, snd progress @ [\<lparr>ie_path = path, ie_sha256 = sha, ie_size = n\<rparr>])))
      | _ \<Rightarrow> Inl (Bail ''Symlink, special file or excessive directory entries.''))"

fun scan_place ::
    "externals \<Rightarrow> tree \<Rightarrow> nat \<Rightarrow> place \<Rightarrow> string list \<Rightarrow> scan_progress \<Rightarrow> scan_progress res" where
  "scan_place X t depth p [] progress = Inr progress"
| "scan_place X t depth p (n # ns) progress =
     andthen (ensure (fst progress > 0) ''Directory scan budget exceeded; no partial inventory was accepted.'') (\<lambda>_.
     andthen (ensure (valid_utf8 n) ''Directory filenames must be UTF-8.'') (\<lambda>_.
     andthen (
       if prefix ''.mirelay'' (to_ascii_lowercase n) then Inr (fst progress - 1, snd progress)
       else
         let path = join_with slash (p @ [n]) in
         andthen (validate_path path) (\<lambda>_.
         case map_of t (p @ [n]) of
           None \<Rightarrow> Inl (Bail ''no such file'')
         | Some (Folder i) \<Rightarrow>
             (case depth of
                0 \<Rightarrow> Inl (Bail ''Directory nesting exceeds 16 levels.'')
              | Suc d \<Rightarrow> scan_place X t d (p @ [n]) (children t (p @ [n])) (fst progress - 1, snd progress))
         | Some x \<Rightarrow> scan_file X path x (fst progress - 1, snd progress)))
       (\<lambda>rest. scan_place X t depth p ns rest)))"

definition root_inventory :: "'w projection_api \<Rightarrow> tree \<Rightarrow> inventory res" where
  "root_inventory A t =
     andthen (scan_place (px_ext A) t 16 [] (children t []) (2 * MAX_ENTRIES, [])) (\<lambda>(n, found).
     let es = sort_key ie_path found; v = \<lparr>inv_id = px_inventory_id A es, inv_entries = es\<rparr> in
     andthen (validate_inventory (px_ext A) v) (\<lambda>_. Inr v))"

section \<open>The ledger\<close>

definition parent_of :: "string \<Rightarrow> string \<times> string" where
  "parent_of path = (case rsplit_once slash path of None \<Rightarrow> ([], path) | Some (a, b) \<Rightarrow> (a, b))"

definition canonical_id :: "externals \<Rightarrow> string \<Rightarrow> string \<Rightarrow> string \<Rightarrow> unit res" where
  "canonical_id X start msg name =
     andthen (of_option msg (strip_prefix start name)) (\<lambda>i. check_uuid X msg i)"

definition validate_history :: "externals \<Rightarrow> string \<Rightarrow> string \<Rightarrow> unit res" where
  "validate_history X path history =
     andthen (validate_path path) (\<lambda>_.
     andthen (ensure (prefix ''.mirelay-history-'' (snd (parent_of history))) ''Invalid retained copy name.'') (\<lambda>_.
     andthen (ensure (fst (parent_of path) = fst (parent_of history)) ''Invalid retained copy path.'') (\<lambda>_.
     canonical_id X ''.mirelay-history-'' ''Invalid retained copy path.'' (snd (parent_of history)))))"

definition check_applied :: "externals \<Rightarrow> string \<Rightarrow> applied_file \<Rightarrow> unit res" where
  "check_applied X path f =
     andthen (validate_version \<lparr>dv_path = path, dv_version = af_version f\<rparr>) (\<lambda>_.
     andthen (validate_sha256 (af_sha256 f)) (\<lambda>_.
     andthen (ensure (af_size f \<le> DIR_MAX_FILE \<and> length (af_media_type f) \<le> 255 \<and> \<not> has_control (af_media_type f))
       ''Invalid receiver file metadata.'') (\<lambda>_.
     case af_history f of None \<Rightarrow> Inr () | Some h \<Rightarrow> validate_history X path h)))"

definition validate_ledger :: "externals \<Rightarrow> receiver_ledger \<Rightarrow> string \<Rightarrow> nat \<Rightarrow> string \<Rightarrow> unit res" where
  "validate_ledger X l root i scope =
     andthen (ensure (rl_schema_version l = DIR_VERSION \<and> rl_root l = root \<and> rl_identity l = i \<and> rl_scope l = scope)
       ''Receiver state belongs to another directory or Folder.'') (\<lambda>_.
     andthen (ensure (length (rl_files l) \<le> MAX_ENTRIES) ''Oversized receiver ledger.'') (\<lambda>_.
     check_each (\<lambda>(path, f). check_applied X path f) (rl_files l)))"

section \<open>Recovery\<close>

definition single_entry :: "externals \<Rightarrow> directory_entry \<Rightarrow> unit res" where
  "single_entry X e =
     validate_directory_state X \<lparr>ds_schema_version = DIR_VERSION, ds_receiver = None, ds_entries = [e]\<rparr>"

definition applied_of :: "directory_entry \<Rightarrow> bool \<Rightarrow> string option \<Rightarrow> nat \<Rightarrow> applied_file" where
  "applied_of e conflict history now =
     \<lparr>af_version = de_version e, af_sha256 = de_sha256 e, af_conflict = conflict, af_history = history,
      af_acknowledged = False, af_size = de_size e, af_media_type = de_media_type e, af_received_at_unix = now\<rparr>"

definition check_parent :: "'w projection_api \<Rightarrow> place \<Rightarrow> nat \<Rightarrow> ('w, unit) proj" where
  "check_parent A p i =
     bindo (stat_optional A p) (\<lambda>x.
     lifto (ensure (map_option item_id x = Some i) ''Destination parent changed during recovery.''))"

definition commit_stage :: "'w projection_api \<Rightarrow> journal \<Rightarrow> place \<Rightarrow> string \<Rightarrow> ('w, unit) proj" where
  "commit_stage A j p name =
     bindo (open_regular A (p @ [jr_stage j])) (\<lambda>b.
     bindo (digest_of A b) (\<lambda>d.
     bindo (lifto (ensure (d = (de_sha256 (jr_entry j), de_size (jr_entry j))) ''Incoming file changed before commit.'')) (\<lambda>_.
     bindo (rename_noreplace A (p @ [jr_stage j]) (p @ [name])) (\<lambda>moved.
     bindo (if moved then retn ()
       else
         bindo (stat_optional A (p @ [name])) (\<lambda>x.
         bindo (lifto (ensure (is_plain x) ''Target became a non-regular file.'')) (\<lambda>_.
         rename_exchange A (p @ [jr_stage j]) (p @ [name])))) (\<lambda>_.
     permitted A)))))"

definition retain_replaced :: "'w projection_api \<Rightarrow> journal \<Rightarrow> place \<Rightarrow> ('w, unit) proj" where
  "retain_replaced A j p =
     bindo (rename_noreplace A (p @ [jr_stage j]) (p @ [jr_history j])) (\<lambda>moved.
     bindo (lifto (ensure moved ''file exists'')) (\<lambda>_. permitted A))"

definition commit_proved :: "'w projection_api \<Rightarrow> journal \<Rightarrow> place \<Rightarrow> string \<Rightarrow> item option \<Rightarrow> ('w, unit) proj" where
  "commit_proved A j p name history =
     bindo (if history \<noteq> None then retn True
       else bindo (stat_optional A (p @ [name])) (\<lambda>x. retn (map_option item_id x = Some (jr_inode j)))) (\<lambda>ok.
     lifto (ensure ok ''Cannot prove the directory commit completed; retained recovery state.''))"

definition conflict_of :: "'w projection_api \<Rightarrow> journal \<Rightarrow> place \<Rightarrow> ('w, bool) proj" where
  "conflict_of A j p =
     bindo (attempt (bindo (open_regular A (p @ [jr_history j])) (digest_of A))) (\<lambda>r.
     retn (case r of Inl e \<Rightarrow> True | Inr (sha, n) \<Rightarrow> Some sha \<noteq> jr_previous_sha j))"

text \<open>The path of another name in the directory of \<open>path\<close>.\<close>

definition beside :: "string \<Rightarrow> string \<Rightarrow> string" where
  "beside path h =
     (case rsplit_once slash path of None \<Rightarrow> h | Some (start, name) \<Rightarrow> start @ slash # h)"

definition finish_recovery :: "'w projection_api \<Rightarrow> journal \<Rightarrow> place \<Rightarrow> string \<Rightarrow> ('w, unit) proj" where
  "finish_recovery A j p name =
     bindo (stat_optional A (p @ [jr_history j])) (\<lambda>history.
     bindo (commit_proved A j p name history) (\<lambda>_.
     bindo (if history \<noteq> None then conflict_of A j p else retn False) (\<lambda>conflict.
     bindo (consult (px_now A)) (\<lambda>now.
     bindo (record_applied (de_path (jr_entry j))
       (applied_of (jr_entry j) conflict (if history \<noteq> None then Some (beside (de_path (jr_entry j)) (jr_history j)) else None) now)) (\<lambda>_.
     bindo (save_ledger A) (\<lambda>_. remove_journal A))))))"

definition recover_journal :: "'w projection_api \<Rightarrow> journal \<Rightarrow> ('w, unit) proj" where
  "recover_journal A j =
     bindo (lifto (single_entry (px_ext A) (jr_entry j))) (\<lambda>_.
     bindo (lifto (canonical_id (px_ext A) ''.mirelay-incoming-'' ''Invalid recovery artifact.'' (jr_stage j))) (\<lambda>_.
     bindo (lifto (canonical_id (px_ext A) ''.mirelay-history-'' ''Invalid recovery artifact.'' (jr_history j))) (\<lambda>_.
     bindo (root_parent A (de_path (jr_entry j)) False) (\<lambda>(p, name).
     bindo (check_parent A p (jr_parent j)) (\<lambda>_.
     bindo (stat_optional A (p @ [jr_stage j])) (\<lambda>stage.
     bindo (if map_option item_id stage = Some (jr_inode j)
       then bindo (commit_stage A j p name) (\<lambda>_. stat_optional A (p @ [jr_stage j]))
       else retn stage) (\<lambda>left.
     bindo (if left \<noteq> None then retain_replaced A j p else retn ()) (\<lambda>_.
     finish_recovery A j p name))))))))"

definition recover :: "'w projection_api \<Rightarrow> ('w, unit) proj" where
  "recover A =
     bindo (load_document A pj_journal_file) (\<lambda>j.
       case j of
         None \<Rightarrow> retn ()
       | Some j \<Rightarrow> recover_journal A j)"

section \<open>Applying a version\<close>

text \<open>The file is as it should be already.\<close>

definition adopt_file :: "'w projection_api \<Rightarrow> directory_entry \<Rightarrow> ('w, applied_file) proj" where
  "adopt_file A e =
     bindo (permitted A) (\<lambda>_.
     bindo (permitted A) (\<lambda>_.
     bindo (consult (px_now A)) (\<lambda>now.
     let f = applied_of e False None now in
     bindo (record_applied (de_path e) f) (\<lambda>_.
     bindo (save_ledger A) (\<lambda>_. retn f)))))"

definition object_bytes :: "'w projection_api \<Rightarrow> stored_asset \<Rightarrow> ('w, bytes) proj" where
  "object_bytes A a =
     bindo (permitted A) (\<lambda>_.
     readso (\<lambda>s.
       case obj_at (pj_objects s) (fst (sa_path a)) (snd (sa_path a)) of
         Some (File b) \<Rightarrow> Inr b
       | Some (Link (Some b)) \<Rightarrow> Inr b
       | _ \<Rightarrow> Inl (Bail ''no such file'')))"

definition stage_file :: "'w projection_api \<Rightarrow> directory_entry \<Rightarrow> stored_asset \<Rightarrow> place \<Rightarrow> ('w, unit) proj" where
  "stage_file A e a p =
     bindo (consult (px_uuid A)) (\<lambda>u.
     let stage = ''.mirelay-incoming-'' @ u in
     bindo (create_file A (p @ [stage])) (\<lambda>i.
     bindo (object_bytes A a) (\<lambda>b.
     bindo (write_file A (p @ [stage]) i b) (\<lambda>_.
     bindo (permitted A) (\<lambda>_.
     bindo (permitted A) (\<lambda>_.
     bindo (stat_optional A p) (\<lambda>x.
     bindo (lifto (of_option ''no such file'' (map_option item_id x))) (\<lambda>parent.
     bindo (consult (px_uuid A)) (\<lambda>v.
     bindo (file_record (de_path e)) (\<lambda>previous.
     save_journal A \<lparr>jr_entry = e, jr_stage = stage, jr_history = ''.mirelay-history-'' @ v, jr_inode = i,
       jr_parent = parent, jr_previous_sha = map_option af_sha256 previous\<rparr>))))))))))"

definition on_objects :: "(dir, 'a) op \<Rightarrow> ('w, 'a) proj" where
  "on_objects m s = (case m (pj_objects s) of (r, d) \<Rightarrow> (r, s\<lparr>pj_objects := d\<rparr>))"

definition place_version :: "'w projection_api \<Rightarrow> directory_entry \<Rightarrow> stored_asset \<Rightarrow> ('w, applied_file) proj" where
  "place_version A e a =
     bindo (root_parent A (de_path e) True) (\<lambda>(p, name).
     bindo (stat_optional A (p @ [name])) (\<lambda>x.
     bindo (case x of
         None \<Rightarrow> retn False
       | Some (Regular i c) \<Rightarrow>
           bindo (open_regular A (p @ [name])) (\<lambda>b.
           bindo (digest_of A b) (\<lambda>d. retn (d = (de_sha256 e, de_size e))))
       | Some _ \<Rightarrow> fails (Bail ''Target is a symlink, directory or special file.'')) (\<lambda>same.
     if same then adopt_file A e
     else
       bindo (stage_file A e a p) (\<lambda>_.
       bindo (recover A) (\<lambda>_.
       bindo (file_record (de_path e)) (\<lambda>f. lifto (of_option ''no entry found for key'' f)))))))"

definition apply_version :: "'w projection_api \<Rightarrow> directory_entry \<Rightarrow> read_event list \<Rightarrow> ('w, applied_file) proj" where
  "apply_version A e es =
     bindo (lifto (single_entry (px_ext A) e)) (\<lambda>_.
     bindo (recover A) (\<lambda>_.
     bindo (file_record (de_path e)) (\<lambda>previous.
     bindo (lifto (case previous of None \<Rightarrow> Inr ()
       | Some f \<Rightarrow> ensure (af_version f \<noteq> de_version e \<or> af_sha256 f = de_sha256 e)
           ''Same directory version has different content.'')) (\<lambda>_.
     if (case previous of None \<Rightarrow> False | Some f \<Rightarrow> af_version f \<ge> de_version e)
     then lifto (of_option ''no entry found for key'' previous)
     else
       bindo (readso (\<lambda>s. ensure (previous \<noteq> None \<or> length (rl_files (pj_ledger s)) < MAX_ENTRIES)
         ''Directory file limit reached.'')) (\<lambda>_.
       bindo (on_objects (receive (px_ext A) (entry_delivery e) es DIR_MAX_FILE)) (place_version A e))))))"

section \<open>Opening\<close>

text \<open>
  \<open>root\<close> and \<open>state\<close> are the absolute paths of the directory and of its state; both were opened
  without following links, and the locks were taken.
\<close>

definition path_starts_with :: "string \<Rightarrow> string \<Rightarrow> bool" where
  "path_starts_with p q \<longleftrightarrow> prefix (List.filter (\<lambda>c. c \<noteq> []) (split_on slash q)) (List.filter (\<lambda>c. c \<noteq> []) (split_on slash p))"

definition root_identity :: "'w projection_api \<Rightarrow> ('w, nat) proj" where
  "root_identity A = bindo (stat_optional A []) (\<lambda>x. lifto (of_option ''no such file'' (map_option item_id x)))"

definition receiver_inspect :: "'w projection_api \<Rightarrow> string \<Rightarrow> string \<Rightarrow> ('w, (string \<times> applied_file) list) proj" where
  "receiver_inspect A root scope =
     bindo (load_document A pj_ledger_file) (\<lambda>found.
     bindo (lifto (of_option ''Directory state is missing. Restore its state; do not reset this Folder.'' found)) (\<lambda>l.
     bindo (root_identity A) (\<lambda>i.
     bindo (lifto (validate_ledger (px_ext A) l root i scope)) (\<lambda>_. retn (rl_files l)))))"

definition receiver_open :: "'w projection_api \<Rightarrow> string \<Rightarrow> string \<Rightarrow> string \<Rightarrow> ('w, unit) proj" where
  "receiver_open A root state scope =
     bindo (lifto (ensure (\<not> path_starts_with state root \<and> \<not> path_starts_with root state)
       ''Keep directory state separate from the synchronized directory.'')) (\<lambda>_.
     bindo (readso (\<lambda>s. ensure (\<not> pj_retired s) ''This receiver has exited; create a new Folder to reconnect.'')) (\<lambda>_.
     bindo (root_identity A) (\<lambda>i.
     bindo (load_document A pj_ledger_file) (\<lambda>found.
     bindo (case found of
         Some l \<Rightarrow> bindo (lifto (validate_ledger (px_ext A) l root i scope)) (\<lambda>_. retn l)
       | None \<Rightarrow> retn \<lparr>rl_schema_version = DIR_VERSION, rl_root = root, rl_identity = i, rl_scope = scope,
           rl_files = []\<rparr>) (\<lambda>l.
     bindo (modifyo (\<lambda>s. s\<lparr>pj_ledger := l\<rparr>)) (\<lambda>_.
     bindo (save_ledger A) (\<lambda>_. recover A)))))))"

section \<open>Synchronising\<close>

record 'w directory_client =
  dc_state :: "('w, directory_state) op"
  dc_publish :: "inventory_update \<Rightarrow> ('w, inventory) op"
  dc_acknowledge :: "directory_ack \<Rightarrow> ('w, unit) op"

definition abroad :: "('w, 'a) op \<Rightarrow> ('w, 'a) proj" where
  "abroad m s = (case m (pj_world s) of (r, w) \<Rightarrow> (r, s\<lparr>pj_world := w\<rparr>))"

definition announce :: "receive_event \<Rightarrow> ('w, unit) proj" where
  "announce v = modifyo (\<lambda>s. s\<lparr>pj_events := pj_events s @ [v]\<rparr>)"

text \<open>A source that allows attempts for ever makes the loop endless; \<open>fuel\<close> bounds it.\<close>

fun fetch_version ::
    "'w projection_api \<Rightarrow> 'w delivery_source \<Rightarrow> directory_entry \<Rightarrow> nat \<Rightarrow> nat \<Rightarrow> ('w, unit) proj" where
  "fetch_version A S e 0 failures = fails (Bail ''out of fuel'')"
| "fetch_version A S e (Suc fuel) failures =
     bindo (attempt (bindo (abroad (open_payload S (entry_delivery e))) (apply_version A e))) (\<lambda>r.
       case r of
         Inr f \<Rightarrow> retn ()
       | Inl err \<Rightarrow>
           bindo (consult (payload_retry_delay S err (failures + 1))) (\<lambda>delay.
             case delay of
               None \<Rightarrow> fails err
             | Some _ \<Rightarrow>
                 bindo (announce (FileStarted e Retrying)) (\<lambda>_. fetch_version A S e fuel (failures + 1))))"

definition mark_applied :: "string \<Rightarrow> ('w, unit) proj" where
  "mark_applied path =
     bindo (file_record path) (\<lambda>f.
     bindo (lifto (of_option ''no entry found for key'' f)) (\<lambda>g. record_applied path (g\<lparr>af_acknowledged := True\<rparr>)))"

definition announce_applied :: "directory_entry \<Rightarrow> ('w, unit) proj" where
  "announce_applied e =
     bindo (file_record (de_path e)) (\<lambda>f.
     bindo (lifto (of_option ''no entry found for key'' f)) (\<lambda>g. announce (FileApplied e g)))"

definition adopt_receipt :: "'w projection_api \<Rightarrow> directory_entry \<Rightarrow> ('w, unit) proj" where
  "adopt_receipt A e =
     bindo (file_record (de_path e)) (\<lambda>f.
       if (case f of None \<Rightarrow> False
           | Some g \<Rightarrow> af_version g = de_version e \<and> af_sha256 g = de_sha256 e \<and> \<not> af_acknowledged g)
       then
         bindo (mark_applied (de_path e)) (\<lambda>_.
         bindo (save_ledger A) (\<lambda>_. announce_applied e))
       else retn ())"

definition send_receipt :: "'w directory_client \<Rightarrow> directory_ack \<Rightarrow> ('w, unit) proj" where
  "send_receipt C ack =
     bindo (modifyo (\<lambda>s. s\<lparr>pj_receipts := pj_receipts s @ [(ack, pj_ledger_file s, pj_tree s)]\<rparr>)) (\<lambda>_.
     abroad (dc_acknowledge C ack))"

definition confirm_version :: "'w projection_api \<Rightarrow> 'w directory_client \<Rightarrow> directory_entry \<Rightarrow> ('w, unit) proj" where
  "confirm_version A C e =
     bindo (file_record (de_path e)) (\<lambda>found.
     bindo (lifto (of_option ''no entry found for key'' found)) (\<lambda>f.
     bindo (announce (FileStarted e Verifying)) (\<lambda>_.
     bindo (root_parent A (de_path e) False) (\<lambda>(p, name).
     bindo (open_regular A (p @ [name])) (\<lambda>b.
     bindo (digest_of A b) (\<lambda>d.
     bindo (lifto (ensure (fst d = af_sha256 f) ''Destination changed before its receipt.'')) (\<lambda>_.
     bindo (save_ledger A) (\<lambda>_.
     bindo (announce (FileStarted e Confirming)) (\<lambda>_.
     bindo (send_receipt C \<lparr>da_path = de_path e, da_version = af_version f, da_sha256 = af_sha256 f,
       da_conflict = af_conflict f\<rparr>) (\<lambda>_.
     bindo (mark_applied (de_path e)) (\<lambda>_.
     bindo (save_ledger A) (\<lambda>_. announce_applied e))))))))))))"

definition sync_version ::
    "'w projection_api \<Rightarrow> 'w directory_client \<Rightarrow> 'w delivery_source \<Rightarrow> nat \<Rightarrow> directory_entry \<Rightarrow> ('w, nat) proj" where
  "sync_version A C S fuel e =
     (if de_acknowledged e then bindo (adopt_receipt A e) (\<lambda>_. retn 0)
      else
        bindo (file_record (de_path e)) (\<lambda>f.
        bindo (if (case f of None \<Rightarrow> False | Some g \<Rightarrow> af_version g \<ge> de_version e) then retn 0
          else
            bindo (announce (FileStarted e Downloading)) (\<lambda>_.
            bindo (fetch_version A S e fuel 0) (\<lambda>_. retn 1))) (\<lambda>n.
        bindo (confirm_version A C e) (\<lambda>_. retn n))))"

fun sync_versions ::
    "'w projection_api \<Rightarrow> 'w directory_client \<Rightarrow> 'w delivery_source \<Rightarrow> nat \<Rightarrow> directory_entry list \<Rightarrow> nat \<Rightarrow> ('w, nat) proj" where
  "sync_versions A C S fuel [] n = retn n"
| "sync_versions A C S fuel (e # es) n =
     bindo (sync_version A C S fuel e) (\<lambda>k. sync_versions A C S fuel es (n + k))"

definition directory_sync ::
    "'w projection_api \<Rightarrow> 'w directory_client \<Rightarrow> 'w delivery_source \<Rightarrow> nat \<Rightarrow> ('w, nat) proj" where
  "directory_sync A C S fuel =
     bindo (recover A) (\<lambda>_.
     bindo (abroad (dc_state C)) (\<lambda>remote.
     bindo (sync_versions A C S fuel (ds_entries remote) 0) (\<lambda>n.
     bindo (permitted A) (\<lambda>_.
     bindo (readso (\<lambda>s. root_inventory A (pj_tree s))) (\<lambda>v.
     bindo (abroad (dc_publish C \<lparr>iu_previous_id = map_option inv_id (ds_receiver remote), iu_inventory = v\<rparr>)) (\<lambda>_.
     retn n))))))"

end
