(* ===== verification/ProjectionSafe.thy ===== *)
theory ProjectionSafe
  imports Projection
begin

text \<open>
  What the receiving half of directory synchronisation promises: no file is lost, a version is
  applied as a whole or not at all however often the program stops in between, and a receipt is
  sent only for what is saved and in place. The first part has facts about trees.
\<close>

section \<open>Trees\<close>

definition tree_ok :: "tree \<Rightarrow> bool" where
  "tree_ok t \<longleftrightarrow> distinct (List.map fst t) \<and> distinct (List.map (item_id \<circ> snd) t)
     \<and> (\<forall>k x. map_of t k = Some x \<longrightarrow> k \<noteq> [] \<longrightarrow> is_folder (map_of t (butlast k)))"

lemma is_folder_iff: "is_folder x \<longleftrightarrow> (\<exists>i. x = Some (Folder i))"
  by (auto simp: is_folder_def split: option.splits item.splits)

lemma is_plain_iff: "is_plain x \<longleftrightarrow> (\<exists>i b. x = Some (Regular i b))"
  by (auto simp: is_plain_def split: option.splits item.splits)

lemma tree_ancestor:
  assumes "tree_ok t"
  shows "map_of t (q @ r) = Some x \<Longrightarrow> r \<noteq> [] \<Longrightarrow> is_folder (map_of t q)"
proof (induction r arbitrary: x rule: rev_induct)
  case Nil
  then show ?case by simp
next
  case (snoc c r)
  then have f: "is_folder (map_of t (q @ r))"
    using assms unfolding tree_ok_def by (metis append_assoc append_is_Nil_conv butlast_snoc not_Cons_self2)
  show ?case
  proof (cases r)
    case Nil
    with f show ?thesis by simp
  next
    case (Cons a as)
    from f obtain i where "map_of t (q @ r) = Some (Folder i)" by (auto simp: is_folder_iff)
    then show ?thesis using snoc.IH Cons by blast
  qed
qed

lemma tree_below: "tree_ok t \<Longrightarrow> map_of t k = Some x \<Longrightarrow> prefix q k \<Longrightarrow> map_of t q \<noteq> None"
  using tree_ancestor [of t q] by (cases "q = k") (fastforce simp: prefix_def is_folder_iff)+

lemma update_new: "map_of t p = None \<Longrightarrow> AList.update p x t = t @ [(p, x)]"
  by (induction t) (auto split: if_splits)

lemma fresh_id_less: "(k, x) \<in> set t \<Longrightarrow> item_id x < fresh_id t"
proof -
  assume "(k, x) \<in> set t"
  then have "item_id x \<in> set (0 # List.map (item_id \<circ> snd) t)" by force
  then have "item_id x \<le> Max (set (0 # List.map (item_id \<circ> snd) t))" by (intro Max_ge) simp_all
  then show ?thesis unfolding Max.set_eq_fold by (simp add: fresh_id_def)
qed

lemma tree_create:
  assumes "tree_ok t" and "map_of t p = None" and "p \<noteq> []" and "is_folder (map_of t (butlast p))"
    and "item_id x = fresh_id t"
  shows "tree_ok (AList.update p x t)" and "map_of (AList.update p x t) = (map_of t)(p \<mapsto> x)"
proof -
  show m: "map_of (AList.update p x t) = (map_of t)(p \<mapsto> x)" by (rule update_conv')
  have "fresh_id t \<notin> (item_id \<circ> snd) ` set t" using fresh_id_less by fastforce
  moreover have "butlast k \<noteq> p" if "map_of t k = Some y" "k \<noteq> []" for k y
    using assms(1,2) that unfolding tree_ok_def is_folder_iff by fastforce
  moreover have "butlast p \<noteq> p" using assms(3) by (cases p rule: rev_cases) auto
  ultimately show "tree_ok (AList.update p x t)"
    using assms unfolding tree_ok_def m
    by (auto simp: update_new map_of_eq_None_iff split: if_splits)
qed

lemma tree_write:
  assumes "tree_ok t" and "map_of t p = Some (Regular i b)"
  shows "tree_ok (AList.update p (Regular i c) t)"
proof -
  have k: "p \<in> fst ` set t" using assms(2) by (metis domI dom_map_of_conv_image_fst)
  have f: "p \<in> fst ` set t \<Longrightarrow> List.map fst (AList.update p (Regular i c) t) = List.map fst t" for t :: tree
    by (induction t) auto
  note f = f [OF k]
  have "distinct (List.map fst t) \<Longrightarrow> map_of t p = Some (Regular i b) \<Longrightarrow>
      List.map (item_id \<circ> snd) (AList.update p (Regular i c) t) = List.map (item_id \<circ> snd) t" for t :: tree
    by (induction t) (auto split: if_splits)
  with assms have d: "List.map (item_id \<circ> snd) (AList.update p (Regular i c) t) = List.map (item_id \<circ> snd) t"
    by (simp add: tree_ok_def)
  have "is_folder (((map_of t)(p \<mapsto> Regular i c)) (butlast k))"
    if k: "((map_of t)(p \<mapsto> Regular i c)) k = Some x" "k \<noteq> []" for k x
  proof -
    obtain y where "map_of t k = Some y" using k(1) assms(2) by (cases "k = p") auto
    then have "is_folder (map_of t (butlast k))" using assms(1) k(2) unfolding tree_ok_def by blast
    then show ?thesis using assms(2) by (auto simp: is_folder_iff)
  qed
  then show ?thesis
    using assms(1) unfolding tree_ok_def f d update_conv' by blast
qed

lemma map_of_move:
  assumes "inj_on f (fst ` set t)"
  shows "k \<in> fst ` set t \<Longrightarrow> map_of (move_places f t) (f k) = map_of t k"
    and "k \<notin> f ` fst ` set t \<Longrightarrow> map_of (move_places f t) k = None"
proof -
  show "k \<in> fst ` set t \<Longrightarrow> map_of (move_places f t) (f k) = map_of t k"
    using assms by (induction t) (auto simp: move_places_def inj_on_def)
  show "k \<notin> f ` fst ` set t \<Longrightarrow> map_of (move_places f t) k = None"
    by (induction t) (auto simp: move_places_def)
qed

lemma tree_move:
  assumes "tree_ok t" and "inj_on f (fst ` set t)"
    and "\<And>k. k \<in> fst ` set t \<Longrightarrow> k \<noteq> [] \<Longrightarrow> f k \<noteq> [] \<and> butlast (f k) = f (butlast k)" and "f [] = []"
  shows "tree_ok (move_places f t)"
proof -
  have "List.map fst (move_places f t) = List.map f (List.map fst t)"
      "List.map (item_id \<circ> snd) (move_places f t) = List.map (item_id \<circ> snd) t"
    by (induction t) (auto simp: move_places_def)
  moreover have "is_folder (map_of (move_places f t) (butlast k))"
    if k: "map_of (move_places f t) k = Some x" "k \<noteq> []" for k x
  proof -
    obtain h where h: "k = f h" "h \<in> fst ` set t"
      using k(1) map_of_move(2) [OF assms(2), of k] by fastforce
    then have "h \<noteq> []" using k(2) assms(4) by auto
    obtain y where "map_of t h = Some y" using h(2) by (metis domD dom_map_of_conv_image_fst)
    with assms(1) \<open>h \<noteq> []\<close> have p: "is_folder (map_of t (butlast h))" by (auto simp: tree_ok_def)
    then have "butlast h \<in> fst ` set t"
      by (metis domI dom_map_of_conv_image_fst is_folder_iff)
    with p show ?thesis
      using map_of_move(1) [OF assms(2), of "butlast h"] assms(3) [OF h(2) \<open>h \<noteq> []\<close>] h(1) by simp
  qed
  ultimately show ?thesis
    using assms(1,2) by (auto simp: tree_ok_def distinct_map intro: comp_inj_on)
qed

text \<open>Places below the same directory.\<close>

definition siblings :: "place \<Rightarrow> place \<Rightarrow> bool" where
  "siblings p q \<longleftrightarrow> p \<noteq> [] \<and> q \<noteq> [] \<and> p \<noteq> q \<and> butlast p = butlast q"

lemma siblings_length: "siblings p q \<Longrightarrow> length p = length q"
  by (cases p rule: rev_cases; cases q rule: rev_cases) (auto simp: siblings_def)

lemma siblings_apart: "siblings p q \<Longrightarrow> \<not> prefix p (q @ r) \<and> \<not> prefix q (p @ r)"
proof -
  assume s: "siblings p q"
  then have "take (length p) (q @ r) = q" "take (length q) (p @ r) = p" by (simp_all add: siblings_length)
  then have "\<not> prefix p (q @ r)" "\<not> prefix q (p @ r)"
    using s by (metis append_eq_conv_conj prefix_def siblings_def)+
  then show ?thesis by simp
qed

lemma siblings_snoc [simp]: "siblings (p @ [a]) (p @ [b]) \<longleftrightarrow> a \<noteq> b"
  by (simp add: siblings_def)

lemma relocate_at:
  "relocate p q p = q" "\<not> prefix p k \<Longrightarrow> relocate p q k = k" "relocate p q (p @ r) = q @ r"
  by (simp_all add: relocate_def)

lemma butlast_relocate:
  assumes "siblings p q" and "k \<noteq> []"
  shows "relocate p q k \<noteq> [] \<and> butlast (relocate p q k) = relocate p q (butlast k)"
proof (cases "prefix p k")
  case False
  then have "\<not> prefix p (butlast k)" by (meson prefix_order.trans prefixeq_butlast)
  with False assms show ?thesis by (simp add: relocate_at)
next
  case True
  then obtain r where k: "k = p @ r" by (auto simp: prefix_def)
  show ?thesis
  proof (cases r rule: rev_cases)
    case Nil
    have "\<not> prefix p (butlast p)"
      using assms(1) by (cases p rule: rev_cases) (auto simp: siblings_def prefix_def)
    with Nil k assms(1) show ?thesis by (simp add: relocate_at siblings_def)
  next
    case (snoc s c)
    then have "k = (p @ s) @ [c]" using k by simp
    then show ?thesis using assms(1) by (simp add: relocate_at(3) siblings_def butlast_append)
  qed
qed

lemma tree_relocate:
  assumes "tree_ok t" and "map_of t p = Some x" and "map_of t q = None" and "siblings p q"
  shows "tree_ok (move_places (relocate p q) t)" and "map_of (move_places (relocate p q) t) q = Some x"
    and "map_of (move_places (relocate p q) t) p = None"
    and "\<not> prefix p k \<Longrightarrow> \<not> prefix q k \<Longrightarrow> map_of (move_places (relocate p q) t) k = map_of t k"
proof -
  note a = siblings_apart [OF assms(4), of "[]", simplified]
  have out: "\<not> prefix q k" if "k \<in> fst ` set t" for k
    using that assms(3) tree_below [OF assms(1), of k _ q] by (metis domD dom_map_of_conv_image_fst)
  have inj: "inj_on (relocate p q) (fst ` set t)"
  proof (rule inj_onI)
    fix k h assume k: "k \<in> fst ` set t" "h \<in> fst ` set t" "relocate p q k = relocate p q h"
    then show "k = h"
      using out [OF k(1)] out [OF k(2)] by (auto simp: relocate_def prefix_def split: if_splits)
  qed
  have k: "p \<in> fst ` set t" using assms(2) by (metis domI dom_map_of_conv_image_fst)
  show "tree_ok (move_places (relocate p q) t)"
    by (rule tree_move [OF assms(1) inj]) (use assms(4) butlast_relocate in \<open>auto simp: relocate_def siblings_def\<close>)
  show "map_of (move_places (relocate p q) t) q = Some x"
    using map_of_move(1) [OF inj k] assms(2) by (simp add: relocate_at)
  have "p \<notin> relocate p q ` fst ` set t"
    using a by (auto simp: relocate_def prefix_def split: if_splits)
  then show "map_of (move_places (relocate p q) t) p = None" by (rule map_of_move(2) [OF inj])
  show "map_of (move_places (relocate p q) t) k = map_of t k" if n: "\<not> prefix p k" "\<not> prefix q k"
  proof (cases "k \<in> fst ` set t")
    case True
    then show ?thesis using map_of_move(1) [OF inj True] n by (simp add: relocate_at)
  next
    case False
    then have "k \<notin> relocate p q ` fst ` set t"
      using n by (auto simp: relocate_def prefix_def split: if_splits)
    then have "map_of (move_places (relocate p q) t) k = None" by (rule map_of_move(2) [OF inj])
    moreover have "map_of t k = None" using False by (simp add: map_of_eq_None_iff)
    ultimately show ?thesis by simp
  qed
qed

lemma swap_at:
  assumes "siblings p q"
  shows "swap_places p q p = q" and "swap_places p q q = p"
    and "\<not> prefix p k \<Longrightarrow> \<not> prefix q k \<Longrightarrow> swap_places p q k = k"
    and "swap_places p q (swap_places p q k) = k"
proof -
  note a = siblings_apart [OF assms]
  show "swap_places p q p = q" "swap_places p q q = p" "\<not> prefix p k \<Longrightarrow> \<not> prefix q k \<Longrightarrow> swap_places p q k = k"
    using a [of "[]"] by (auto simp: swap_places_def relocate_def)
  consider r where "k = p @ r" | r where "k = q @ r" | "\<not> prefix p k" "\<not> prefix q k" by (auto simp: prefix_def)
  then show "swap_places p q (swap_places p q k) = k"
    using a by cases (simp_all add: swap_places_def relocate_def)
qed

lemma siblings_sym: "siblings p q \<Longrightarrow> siblings q p"
  by (auto simp: siblings_def)

lemma tree_exchange:
  assumes "tree_ok t" and "map_of t p = Some x" and "map_of t q = Some y" and "siblings p q"
  shows "tree_ok (move_places (swap_places p q) t)" and "map_of (move_places (swap_places p q) t) q = Some x"
    and "map_of (move_places (swap_places p q) t) p = Some y"
    and "\<not> prefix p k \<Longrightarrow> \<not> prefix q k \<Longrightarrow> map_of (move_places (swap_places p q) t) k = map_of t k"
proof -
  note s = swap_at [OF assms(4)]
  have inj: "inj_on (swap_places p q) A" for A by (rule inj_on_inverseI) (rule s(4))
  have k: "p \<in> fst ` set t" "q \<in> fst ` set t"
    using assms(2,3) by (metis domI dom_map_of_conv_image_fst)+
  show "map_of (move_places (swap_places p q) t) q = Some x"
    using map_of_move(1) [OF inj k(1)] assms(2) s(1) by simp
  show "map_of (move_places (swap_places p q) t) p = Some y"
    using map_of_move(1) [OF inj k(2)] assms(3) s(2) by simp
  have "swap_places p q k \<noteq> [] \<and> butlast (swap_places p q k) = swap_places p q (butlast k)" if "k \<noteq> []" for k
  proof (cases "k = q")
    case True
    have "\<not> prefix p (butlast k)" "\<not> prefix q (butlast k)"
      using assms(4) True by (cases q rule: rev_cases; cases p rule: rev_cases; auto simp: siblings_def prefix_def)+
    then show ?thesis using True s(2,3) assms(4) by (simp add: siblings_def)
  next
    case False
    then show ?thesis
    proof (cases "prefix p k")
      case True
      then have "prefix p (butlast k) \<or> k = p"
        by (metis append_is_Nil_conv butlast_append prefix_def self_append_conv)
      moreover have "\<not> prefix q (butlast p)" "\<not> prefix p (butlast p)"
        using assms(4) by (cases q rule: rev_cases; cases p rule: rev_cases; auto simp: siblings_def prefix_def)+
      ultimately show ?thesis
        using True butlast_relocate [OF assms(4) that] assms(4)
        by (auto simp: swap_places_def relocate_at siblings_def)
    next
      case n: False
      then have "\<not> prefix p (butlast k)" by (meson prefix_order.trans prefixeq_butlast)
      then show ?thesis
        using n butlast_relocate [OF siblings_sym [OF assms(4)] that] by (simp add: swap_places_def)
    qed
  qed
  then show "tree_ok (move_places (swap_places p q) t)"
    by (intro tree_move [OF assms(1) inj]) (use assms(4) in \<open>auto simp: swap_places_def relocate_def siblings_def\<close>)
  show "map_of (move_places (swap_places p q) t) k = map_of t k" if n: "\<not> prefix p k" "\<not> prefix q k"
  proof (cases "k \<in> fst ` set t")
    case True
    then show ?thesis using map_of_move(1) [OF inj True] s(3) n by simp
  next
    case False
    have "k \<notin> swap_places p q ` fst ` set t"
    proof
      assume "k \<in> swap_places p q ` fst ` set t"
      then obtain h where "h \<in> fst ` set t" "k = swap_places p q h" by blast
      then have "swap_places p q k = h" using s(4) by simp
      then show False using s(3) [OF n] False \<open>h \<in> fst ` set t\<close> by simp
    qed
    then have "map_of (move_places (swap_places p q) t) k = None" by (rule map_of_move(2) [OF inj])
    moreover have "map_of t k = None" using False by (simp add: map_of_eq_None_iff)
    ultimately show ?thesis by simp
  qed
qed

section \<open>Operations that leave the disk alone\<close>

definition same_disk :: "'w projection \<Rightarrow> 'w projection \<Rightarrow> bool" where
  "same_disk s t \<longleftrightarrow> pj_tree t = pj_tree s \<and> pj_objects t = pj_objects s \<and> pj_ledger_file t = pj_ledger_file s
     \<and> pj_journal_file t = pj_journal_file s \<and> pj_ledger t = pj_ledger s \<and> pj_receipts t = pj_receipts s"

named_theorems calm \<open>operations that only change the world and the events\<close>

lemma calm_atoms [calm]:
  "moves same_disk (consult f)" "moves same_disk (looking p)" "moves same_disk (lifto r)" "moves same_disk (readso g)"
  "moves same_disk (retn x)" "moves same_disk (fails e)" "moves same_disk (announce v)" "moves same_disk (abroad m)"
  by (auto simp: moves_def same_disk_def consult_def looking_def announce_def abroad_def op_defs split: prod.splits)

lemma calm_bindo [calm]: "moves same_disk m \<Longrightarrow> (\<And>x. moves same_disk (f x)) \<Longrightarrow> moves same_disk (bindo m f)"
  by (rule moves_bindo) (simp_all add: same_disk_def)

lemma calm_cases [calm]:
  "moves same_disk m \<Longrightarrow> moves same_disk n \<Longrightarrow> moves same_disk (if c then m else n)"
  "moves same_disk m \<Longrightarrow> (\<And>x. moves same_disk (f x)) \<Longrightarrow> moves same_disk (case v of None \<Rightarrow> m | Some x \<Rightarrow> f x)"
  "(\<And>i b. moves same_disk (g i b)) \<Longrightarrow> (\<And>i. moves same_disk (h i)) \<Longrightarrow> (\<And>i. moves same_disk (k i)) \<Longrightarrow>
     moves same_disk (case y of Regular i b \<Rightarrow> g i b | Folder i \<Rightarrow> h i | Special i \<Rightarrow> k i)"
  by (simp_all split: option.split item.split)

lemma calm_attempt [calm]: "moves same_disk m \<Longrightarrow> moves same_disk (attempt m)"
  by (auto simp: moves_def attempt_def split: prod.splits) (metis snd_conv)

lemma calm_calls [calm]:
  "moves same_disk (permitted A)" "moves same_disk (stat_optional A p)" "moves same_disk (open_directory A p)"
  "moves same_disk (open_regular A p)" "moves same_disk (digest_of A b)" "moves same_disk (in_directory p)"
  "moves same_disk (load_document A field)" "moves same_disk (file_record path)" "moves same_disk (object_bytes A a)"
  "moves same_disk (check_parent A p i)" "moves same_disk (commit_proved A j p n x)" "moves same_disk (conflict_of A j p)"
  "moves same_disk (root_identity A)" "moves same_disk (announce_applied e)"
  unfolding permitted_def stat_optional_def open_directory_def open_regular_def digest_of_def in_directory_def
    load_document_def file_record_def object_bytes_def check_parent_def commit_proved_def conflict_of_def
    root_identity_def announce_applied_def
  by (intro calm)+

lemma calm_enter [calm]: "moves same_disk (enter A False p ns)"
  by (induction ns arbitrary: p) (auto intro!: calm)

lemma calm_root_parent [calm]: "moves same_disk (root_parent A path False)"
  unfolding root_parent_def by (intro calm)

lemma hoare_calm: "moves same_disk m \<Longrightarrow> stable same_disk P \<Longrightarrow> (\<And>s. P s \<Longrightarrow> E s) \<Longrightarrow> hoare P m (\<lambda>_. P) E"
  by (rule hoare_moves)

lemma hoare_never: "(\<And>s. \<not> P s) \<Longrightarrow> hoare P m Q E"
  by (simp add: hoare_def)

lemma hoare_after: "hoare P m (\<lambda>_. Q) E \<Longrightarrow> P s \<Longrightarrow> Q (snd (m s)) \<or> E (snd (m s))"
  unfolding hoare_def by (cases "m s"; cases "fst (m s)") fastforce+

text \<open>What reading tells.\<close>

lemma hoare_looking: "(\<And>s. P s \<Longrightarrow> E s) \<Longrightarrow> hoare P (looking p) (\<lambda>x s. P s \<and> x = map_of (pj_tree s) p) E"
  unfolding looking_def by (rule hoare_readso_any)

lemma hoare_permitted: "stable same_disk P \<Longrightarrow> (\<And>s. P s \<Longrightarrow> E s) \<Longrightarrow> hoare P (permitted A) (\<lambda>_. P) E"
  by (rule hoare_calm) (intro calm)

lemma hoare_stat:
  assumes "stable same_disk P" and "\<And>s. P s \<Longrightarrow> E s"
  shows "hoare P (stat_optional A p) (\<lambda>x s. P s \<and> x = map_of (pj_tree s) p) E"
  unfolding stat_optional_def by (rule hoare_bindo [OF hoare_permitted hoare_looking]) (use assms in auto)

lemma hoare_open_regular:
  assumes "stable same_disk P" and "\<And>s. P s \<Longrightarrow> E s"
  shows "hoare P (open_regular A p) (\<lambda>b s. P s \<and> (\<exists>i. map_of (pj_tree s) p = Some (Regular i b))) E"
  unfolding open_regular_def
proof (rule hoare_bindo [OF hoare_permitted hoare_bindo [OF hoare_looking]])
  show "hoare (\<lambda>s. P s \<and> x = map_of (pj_tree s) p)
      (case x of Some (Regular i b) \<Rightarrow> retn b | _ \<Rightarrow> fails (Bail ''Directory contains a non-regular file.''))
      (\<lambda>b s. P s \<and> (\<exists>i. map_of (pj_tree s) p = Some (Regular i b))) E" for x
    using assms by (auto intro!: hoare_fails hoare_retn split: option.split item.split) (metis+)?
qed (use assms in auto)

lemma hoare_digest:
  assumes "stable same_disk P" and "\<And>s. P s \<Longrightarrow> E s"
  shows "hoare P (digest_of A b) (\<lambda>d s. P s \<and> d = (sha256_hex (px_ext A) b, length b)) E"
  unfolding digest_of_def
  by (rule hoare_bindo [OF hoare_permitted hoare_weaken [OF hoare_lifto]])
    (use assms in \<open>auto simp: file_digest_def andthen_Inr\<close>)

lemma hoare_ensure:
  "(\<And>s. P s \<Longrightarrow> E s) \<Longrightarrow> hoare P (lifto (ensure c msg)) (\<lambda>_ s. P s \<and> c) E"
  by (rule hoare_weaken [OF hoare_lifto]) auto

lemma hoare_enter:
  assumes "stable same_disk P" and "\<And>s. P s \<Longrightarrow> E s"
  shows "hoare P (enter A False p ns) (\<lambda>q s. P s \<and> q = p @ ns) E"
proof (induction ns arbitrary: p)
  case Nil
  then show ?case using assms by (auto intro: hoare_retn)
next
  case (Cons n ns)
  show ?case
    unfolding enter.simps if_False
    by (rule hoare_bindo [OF hoare_retn hoare_bindo [OF hoare_calm hoare_weaken [OF Cons.IH]]])
      (use assms in \<open>auto intro: calm\<close>)
qed

lemma hoare_root_parent:
  assumes "stable same_disk P" and "\<And>s. P s \<Longrightarrow> E s"
  shows "hoare P (root_parent A path False)
     (\<lambda>r s. P s \<and> valid_path path \<and> fst r @ [snd r] = split_on slash path) E"
  unfolding root_parent_def
  by (rule hoare_bindo [OF hoare_lifto hoare_bindo [OF hoare_enter hoare_retn]])
    (use assms split_on_nonempty in \<open>auto simp: stable_def\<close>)

text \<open>What the operations with an effect do.\<close>

lemma hoare_edit_tree: "(\<And>s. P s \<Longrightarrow> Q (s\<lparr>pj_tree := f (pj_tree s)\<rparr>)) \<Longrightarrow> hoare P (edit_tree f) (\<lambda>_. Q) E"
  by (rule hoareI) (auto simp: edit_tree_def op_defs)

lemma hoare_rename:
  assumes "stable same_disk P" and "\<And>s. P s \<Longrightarrow> E s"
    and "\<And>s x. P s \<Longrightarrow> map_of (pj_tree s) p = Some x \<Longrightarrow> map_of (pj_tree s) q = None
      \<Longrightarrow> Q True (s\<lparr>pj_tree := move_places (relocate p q) (pj_tree s)\<rparr>)"
    and "\<And>s. P s \<Longrightarrow> map_of (pj_tree s) q \<noteq> None \<Longrightarrow> Q False s"
  shows "hoare P (rename_noreplace A p q) Q E"
proof -
  have free: "hoare (\<lambda>s. P s \<and> map_of (pj_tree s) p \<noteq> None \<and> map_of (pj_tree s) q = None)
      (bindo (in_directory q) (\<lambda>_. bindo (edit_tree (move_places (relocate p q))) (\<lambda>_. retn True))) Q E"
    by (rule hoare_bindo [OF hoare_calm hoare_bindo [OF hoare_edit_tree [where Q = "Q True"] hoare_retn]])
      (use assms in \<open>auto intro: calm simp: stable_def same_disk_def\<close>)
  have fin: "hoare (\<lambda>s. ((P s \<and> x = map_of (pj_tree s) p) \<and> x \<noteq> None) \<and> y = map_of (pj_tree s) q)
      (if y \<noteq> None then retn False
       else bindo (in_directory q) (\<lambda>_. bindo (edit_tree (move_places (relocate p q))) (\<lambda>_. retn True))) Q E" for x y
  proof (cases y)
    case None
    then show ?thesis by (auto intro!: hoare_strengthen [OF free])
  next
    case (Some z)
    have "hoare (\<lambda>s. ((P s \<and> x = map_of (pj_tree s) p) \<and> x \<noteq> None) \<and> y = map_of (pj_tree s) q) (retn False) Q E"
    proof (rule hoare_retn)
      fix s assume a: "((P s \<and> x = map_of (pj_tree s) p) \<and> x \<noteq> None) \<and> y = map_of (pj_tree s) q"
      then have "map_of (pj_tree s) q = Some z" using Some by simp
      with a show "Q False s" using assms(4) by simp
    qed
    with Some show ?thesis by simp
  qed
  show ?thesis
    unfolding rename_noreplace_def
    by (rule hoare_bindo [OF hoare_permitted hoare_bindo [OF hoare_looking hoare_bindo [OF hoare_ensure hoare_bindo [OF hoare_looking fin]]]])
      (use assms(1,2) in auto)
qed

lemma hoare_exchange:
  assumes "stable same_disk P" and "\<And>s. P s \<Longrightarrow> E s"
    and "\<And>s x y. P s \<Longrightarrow> map_of (pj_tree s) p = Some x \<Longrightarrow> map_of (pj_tree s) q = Some y
      \<Longrightarrow> Q (s\<lparr>pj_tree := move_places (swap_places p q) (pj_tree s)\<rparr>)"
  shows "hoare P (rename_exchange A p q) (\<lambda>_. Q) E"
  unfolding rename_exchange_def
  by (rule hoare_bindo [OF hoare_permitted hoare_bindo [OF hoare_looking hoare_bindo [OF hoare_looking hoare_bindo [OF hoare_ensure hoare_edit_tree]]]])
    (use assms in auto)

lemma hoare_save:
  assumes "stable same_disk P" and "\<And>s. P s \<Longrightarrow> E s" and "\<And>s. P s \<Longrightarrow> Q (put s)" and "\<And>s. Q s \<Longrightarrow> E s"
  shows "hoare P (save_document A len put) (\<lambda>_. Q) E"
proof -
  have p: "hoare P (modifyo put) (\<lambda>_. Q) E" by (rule hoareI) (use assms in \<open>auto simp: op_defs\<close>)
  have "hoare P (case w of Written \<Rightarrow> modifyo put
      | WrittenNotSynced \<Rightarrow> bindo (modifyo put) (\<lambda>_. fails (Bail ''failed to persist''))
      | NotWritten \<Rightarrow> fails (Bail ''failed to persist'')) (\<lambda>_. Q) E" for w
    by (cases w) (use assms p in \<open>auto intro!: hoare_bindo [OF p] hoare_fails\<close>)
  note w = this
  show ?thesis
    unfolding save_document_def
    by (rule hoare_bindo [OF hoare_calm hoare_bindo [OF hoare_calm w]]) (use assms(1,2) in \<open>auto intro: calm\<close>)
qed

lemma hoare_save_ledger:
  assumes "stable same_disk P" and "\<And>s. P s \<Longrightarrow> E s" and "\<And>s. P s \<Longrightarrow> Q (s\<lparr>pj_ledger_file := Saved (pj_ledger s)\<rparr>)"
    and "\<And>s. Q s \<Longrightarrow> E s"
  shows "hoare P (save_ledger A) (\<lambda>_. Q) E"
  unfolding save_ledger_def
proof (rule hoare_bindo [OF hoare_readso_any])
  fix l
  show "hoare (\<lambda>s. P s \<and> l = pj_ledger s) (save_document A (px_ledger_length A l) (\<lambda>s. s\<lparr>pj_ledger_file := Saved l\<rparr>)) (\<lambda>_. Q) E"
    by (rule hoare_save) (use assms in \<open>auto simp: stable_def same_disk_def\<close>)
qed (rule assms(2))

lemma hoare_remove_journal:
  assumes "stable same_disk P" and "stable same_disk Q" and "\<And>s. P s \<Longrightarrow> E s"
    and "\<And>s. P s \<Longrightarrow> Q (s\<lparr>pj_journal_file := Missing\<rparr>)" and "\<And>s. Q s \<Longrightarrow> E s"
  shows "hoare P (remove_journal A) (\<lambda>_. Q) E"
proof -
  have m: "hoare P (modifyo (\<lambda>s. s\<lparr>pj_journal_file := Missing\<rparr>)) (\<lambda>_. Q) E"
    by (rule hoareI) (use assms in \<open>auto simp: op_defs\<close>)
  show ?thesis
    unfolding remove_journal_def
    by (rule hoare_bindo [OF hoare_permitted hoare_bindo [OF m hoare_permitted]]) (use assms in auto)
qed

section \<open>Stages of a replacement\<close>

definition content_at :: "externals \<Rightarrow> directory_entry \<Rightarrow> nat \<Rightarrow> item option \<Rightarrow> bool" where
  "content_at X e i x \<longleftrightarrow> (\<exists>b. x = Some (Regular i b) \<and> sha256_hex X b = de_sha256 e \<and> length b = de_size e)"

text \<open>
  The new file is staged beside the old one \<open>x\<close>, the two have changed places, the old one has been
  put aside.
\<close>

definition staged :: "journal \<Rightarrow> place \<Rightarrow> string \<Rightarrow> item option \<Rightarrow> tree \<Rightarrow> bool" where
  "staged j p n x t \<longleftrightarrow> tree_ok t \<and> map_option item_id (map_of t (p @ [jr_stage j])) = Some (jr_inode j)
     \<and> map_of t (p @ [n]) = x \<and> map_of t (p @ [jr_history j]) = None"

definition exchanged :: "externals \<Rightarrow> journal \<Rightarrow> place \<Rightarrow> string \<Rightarrow> item option \<Rightarrow> tree \<Rightarrow> bool" where
  "exchanged X j p n x t \<longleftrightarrow> tree_ok t \<and> map_of t (p @ [jr_stage j]) = x \<and> is_plain x
     \<and> content_at X (jr_entry j) (jr_inode j) (map_of t (p @ [n])) \<and> map_of t (p @ [jr_history j]) = None"

definition retained :: "externals \<Rightarrow> journal \<Rightarrow> place \<Rightarrow> string \<Rightarrow> item option \<Rightarrow> tree \<Rightarrow> bool" where
  "retained X j p n x t \<longleftrightarrow> tree_ok t \<and> map_of t (p @ [jr_stage j]) = None \<and> (x = None \<or> is_plain x)
     \<and> content_at X (jr_entry j) (jr_inode j) (map_of t (p @ [n])) \<and> map_of t (p @ [jr_history j]) = x"

definition apart :: "journal \<Rightarrow> string \<Rightarrow> bool" where
  "apart j n \<longleftrightarrow> jr_stage j \<noteq> n \<and> jr_history j \<noteq> n \<and> jr_stage j \<noteq> jr_history j"

lemma staged_rename:
  assumes "apart j n" and "staged j p n x t" and "map_of t (p @ [n]) = None"
    and "content_at X (jr_entry j) (jr_inode j) (map_of t (p @ [jr_stage j]))"
  shows "retained X j p n x (move_places (relocate (p @ [jr_stage j]) (p @ [n])) t)"
proof -
  let ?s = "p @ [jr_stage j]" and ?n = "p @ [n]" and ?h = "p @ [jr_history j]"
  obtain y where y: "map_of t ?s = Some y" using assms(2) by (auto simp: staged_def)
  have sib: "siblings ?s ?n" using assms(1) by (auto simp: apart_def)
  have "tree_ok t" using assms(2) by (simp add: staged_def)
  note r = tree_relocate [OF this y assms(3) sib]
  have "\<not> prefix ?s ?h" "\<not> prefix ?n ?h"
    using assms(1) siblings_apart [of ?s ?h "[]"] siblings_apart [of ?n ?h "[]"] by (auto simp: apart_def)
  then show ?thesis using assms r y by (simp add: retained_def staged_def)
qed

lemma staged_exchange:
  assumes "apart j n" and "staged j p n x t" and "is_plain x"
    and "content_at X (jr_entry j) (jr_inode j) (map_of t (p @ [jr_stage j]))"
  shows "exchanged X j p n x (move_places (swap_places (p @ [jr_stage j]) (p @ [n])) t)"
proof -
  let ?s = "p @ [jr_stage j]" and ?n = "p @ [n]" and ?h = "p @ [jr_history j]"
  obtain y z where y: "map_of t ?s = Some y" "map_of t ?n = Some z"
    using assms(2,3) by (auto simp: staged_def is_plain_iff)
  have sib: "siblings ?s ?n" using assms(1) by (auto simp: apart_def)
  have "tree_ok t" using assms(2) by (simp add: staged_def)
  note r = tree_exchange [OF this y sib]
  have "\<not> prefix ?s ?h" "\<not> prefix ?n ?h"
    using assms(1) siblings_apart [of ?s ?h "[]"] siblings_apart [of ?n ?h "[]"] by (auto simp: apart_def)
  then show ?thesis using assms r y by (simp add: exchanged_def staged_def)
qed

lemma exchanged_retain:
  assumes "apart j n" and "exchanged X j p n x t"
  shows "retained X j p n x (move_places (relocate (p @ [jr_stage j]) (p @ [jr_history j])) t)"
proof -
  let ?s = "p @ [jr_stage j]" and ?n = "p @ [n]" and ?h = "p @ [jr_history j]"
  obtain y where y: "map_of t ?s = Some y" using assms(2) by (auto simp: exchanged_def is_plain_iff)
  have sib: "siblings ?s ?h" using assms(1) by (auto simp: apart_def)
  have "tree_ok t" "map_of t ?h = None" using assms(2) by (simp_all add: exchanged_def)
  note r = tree_relocate [OF this(1) y this(2) sib]
  have "\<not> prefix ?s ?n" "\<not> prefix ?h ?n"
    using assms(1) siblings_apart [of ?s ?n "[]"] siblings_apart [of ?n ?h "[]"] by (auto simp: apart_def)
  then show ?thesis using assms r y by (simp add: retained_def exchanged_def)
qed

text \<open>Only a staged file has the identity of the journal under the name of the stage.\<close>

lemma map_of_id_inj:
  assumes "tree_ok t" and "map_of t k = Some x" and "map_of t h = Some y" and "item_id x = item_id y"
  shows "k = h"
proof -
  have m: "(k, x) \<in> set t" "(h, y) \<in> set t" using assms(2,3) by (auto dest: map_of_SomeD)
  have "inj_on (item_id \<circ> snd) (set t)" using assms(1) by (auto simp: tree_ok_def distinct_map)
  from inj_onD [OF this _ m] assms(4) have "(k, x) = (h, y)" by simp
  then show ?thesis by simp
qed

lemma exchanged_not_staged:
  "apart j n \<Longrightarrow> exchanged X j p n x t \<Longrightarrow> map_option item_id (map_of t (p @ [jr_stage j])) \<noteq> Some (jr_inode j)"
proof
  assume a: "apart j n" "exchanged X j p n x t" "map_option item_id (map_of t (p @ [jr_stage j])) = Some (jr_inode j)"
  then obtain y where y: "map_of t (p @ [jr_stage j]) = Some y" "item_id y = jr_inode j" by auto
  obtain b where "map_of t (p @ [n]) = Some (Regular (jr_inode j) b)"
    using a(2) by (auto simp: exchanged_def content_at_def)
  with map_of_id_inj [OF _ y(1) this] a y show False by (auto simp: exchanged_def apart_def)
qed

section \<open>Recovery\<close>

definition ledger_at :: "'w projection \<Rightarrow> string \<Rightarrow> applied_file option" where
  "ledger_at s path = (case pj_ledger_file s of Saved l \<Rightarrow> map_of (rl_files l) path | _ \<Rightarrow> None)"

definition recovering :: "externals \<Rightarrow> journal \<Rightarrow> place \<Rightarrow> string \<Rightarrow> item option \<Rightarrow> 'w projection \<Rightarrow> bool" where
  "recovering X j p n x s \<longleftrightarrow> pj_journal_file s = Saved j \<and> (\<exists>l. pj_ledger_file s = Saved l)
     \<and> (staged j p n x (pj_tree s) \<or> exchanged X j p n x (pj_tree s) \<or> retained X j p n x (pj_tree s))"

text \<open>
  What was at the place before is still there or was put aside; it is not reported as a conflict
  only when it was what had been applied there.
\<close>

definition kept_aside ::
    "externals \<Rightarrow> string \<Rightarrow> place \<Rightarrow> string \<Rightarrow> item option \<Rightarrow> string option \<Rightarrow> applied_file \<Rightarrow> tree \<Rightarrow> bool" where
  "kept_aside X path p n x previous f t \<longleftrightarrow>
     (case x of
        None \<Rightarrow> True
      | Some y \<Rightarrow> map_of t (p @ [n]) = Some y
          \<or> (\<exists>h i c. y = Regular i c \<and> af_history f = Some (beside path h) \<and> map_of t (p @ [h]) = Some y
               \<and> (af_conflict f \<or> previous = Some (sha256_hex X c))))"

definition version_in_place ::
    "externals \<Rightarrow> directory_entry \<Rightarrow> place \<Rightarrow> string \<Rightarrow> item option \<Rightarrow> string option \<Rightarrow> 'w projection \<Rightarrow> bool" where
  "version_in_place X e p n x previous s \<longleftrightarrow> pj_journal_file s = Missing \<and> tree_ok (pj_tree s)
     \<and> (\<exists>i. content_at X e i (map_of (pj_tree s) (p @ [n])))
     \<and> (\<exists>f. ledger_at s (de_path e) = Some f \<and> af_version f = de_version e \<and> af_sha256 f = de_sha256 e
          \<and> kept_aside X (de_path e) p n x previous f (pj_tree s))"

lemma stable_disk [intro, simp]:
  "stable same_disk (recovering X j p n x)" "stable same_disk (version_in_place X e p n x v)"
  "stable same_disk (\<lambda>s. Q (pj_tree s))" "stable same_disk (\<lambda>s. R (pj_journal_file s))"
  "stable same_disk (\<lambda>s. U (pj_ledger s))" "stable same_disk (\<lambda>s. S (ledger_at s path))"
  "stable same_disk (\<lambda>s. T (pj_ledger_file s))" "stable same_disk (\<lambda>s. W (pj_objects s))"
  by (auto simp: stable_def same_disk_def recovering_def version_in_place_def ledger_at_def)

text \<open>A mark for the journal and the stage that a step needs.\<close>

definition at_stage :: "journal \<Rightarrow> (tree \<Rightarrow> bool) \<Rightarrow> 'w projection \<Rightarrow> bool" where
  "at_stage j T s \<longleftrightarrow> pj_journal_file s = Saved j \<and> (\<exists>l. pj_ledger_file s = Saved l) \<and> T (pj_tree s)"

lemma stable_at_stage [intro, simp]: "stable same_disk (at_stage j T)"
  by (auto simp: stable_def same_disk_def at_stage_def)

lemma at_stage_pending:
  "at_stage j (staged j p n x) s \<Longrightarrow> recovering X j p n x s" "at_stage j (exchanged X j p n x) s \<Longrightarrow> recovering X j p n x s"
  "at_stage j (retained X j p n x) s \<Longrightarrow> recovering X j p n x s"
  by (auto simp: at_stage_def recovering_def)

lemma hoare_commit_stage:
  assumes "apart j n"
  shows "hoare (at_stage j (staged j p n x)) (commit_stage A j p n)
     (\<lambda>_. at_stage j (\<lambda>t. exchanged (px_ext A) j p n x t \<or> retained (px_ext A) j p n x t)) (recovering (px_ext A) j p n x)"
proof -
  let ?X = "px_ext A" and ?s = "p @ [jr_stage j]" and ?n = "p @ [n]"
  let ?S = "at_stage j (staged j p n x)" and ?E = "recovering (px_ext A) j p n x"
  let ?Q = "at_stage j (\<lambda>t. exchanged ?X j p n x t \<or> retained ?X j p n x t)"
  let ?G = "at_stage j (\<lambda>t. staged j p n x t \<and> content_at ?X (jr_entry j) (jr_inode j) (map_of t ?s))"
  have e: "?G s \<Longrightarrow> ?E s" "?S s \<Longrightarrow> ?E s" "?Q s \<Longrightarrow> ?E s" for s :: "'a projection"
    by (auto simp: at_stage_def recovering_def)
  have swap: "hoare ?G (bindo (stat_optional A ?n) (\<lambda>x. bindo (lifto (ensure (is_plain x) ''Target became a non-regular file.''))
      (\<lambda>_. rename_exchange A ?s ?n))) (\<lambda>_. ?Q) ?E"
  proof (rule hoare_bindo [OF hoare_stat hoare_bindo [OF hoare_ensure]])
    fix y u
    have "hoare (\<lambda>s. ?G s \<and> is_plain x) (rename_exchange A ?s ?n) (\<lambda>_. ?Q) ?E"
      by (rule hoare_exchange) (use e staged_exchange [OF assms] in \<open>auto simp: at_stage_def stable_def same_disk_def\<close>)
    then show "hoare (\<lambda>s. (?G s \<and> y = map_of (pj_tree s) ?n) \<and> is_plain y) (rename_exchange A ?s ?n) (\<lambda>_. ?Q) ?E"
      by (rule hoare_strengthen) (auto simp: at_stage_def staged_def)
  qed (use e in auto)
  have place: "hoare ?G (rename_noreplace A ?s ?n) (\<lambda>moved s. if moved then ?Q s else ?G s) ?E"
    by (rule hoare_rename) (use e staged_rename [OF assms] in \<open>auto simp: at_stage_def\<close>)
  have fin: "hoare (\<lambda>s. if moved then ?Q s else ?G s)
      (bindo (if moved then retn () else bindo (stat_optional A ?n) (\<lambda>x. bindo (lifto (ensure (is_plain x) ''Target became a non-regular file.''))
         (\<lambda>_. rename_exchange A ?s ?n))) (\<lambda>_. permitted A)) (\<lambda>_. ?Q) ?E" for moved
    by (rule hoare_bindo [OF hoare_if hoare_permitted])
      (use e swap in \<open>auto intro: hoare_retn split: if_splits\<close>)
  have known: "hoare (\<lambda>s. ((?S s \<and> (\<exists>i. map_of (pj_tree s) ?s = Some (Regular i b))) \<and> d = (sha256_hex ?X b, length b))
        \<and> d = (de_sha256 (jr_entry j), de_size (jr_entry j)))
      (bindo (rename_noreplace A ?s ?n) (\<lambda>moved. bindo (if moved then retn () else bindo (stat_optional A ?n)
        (\<lambda>x. bindo (lifto (ensure (is_plain x) ''Target became a non-regular file.'')) (\<lambda>_. rename_exchange A ?s ?n)))
        (\<lambda>_. permitted A))) (\<lambda>_. ?Q) ?E" for b d
    by (rule hoare_strengthen [OF hoare_bindo [OF place fin]]) (auto simp: at_stage_def staged_def content_at_def)
  show ?thesis
    unfolding commit_stage_def
    by (rule hoare_bindo [OF hoare_open_regular hoare_bindo [OF hoare_digest hoare_bindo [OF hoare_ensure known]]])
      (use e in auto)
qed

lemma hoare_retain:
  assumes "apart j n"
  shows "hoare (at_stage j (exchanged X j p n x)) (retain_replaced A j p) (\<lambda>_. at_stage j (retained X j p n x)) (recovering X j p n x)"
proof -
  let ?S = "at_stage j (exchanged X j p n x)" and ?R = "at_stage j (retained X j p n x)"
  note e = at_stage_pending [where X = X]
  have "hoare ?S (rename_noreplace A (p @ [jr_stage j]) (p @ [jr_history j])) (\<lambda>moved s. if moved then ?R s else ?S s) (recovering X j p n x)"
    by (rule hoare_rename) (use e exchanged_retain [OF assms] in \<open>auto simp: at_stage_def recovering_def\<close>)
  moreover have "hoare (\<lambda>s. if moved then ?R s else ?S s) (bindo (lifto (ensure moved ''file exists'')) (\<lambda>_. permitted A))
      (\<lambda>_. ?R) (recovering X j p n x)" for moved
    by (rule hoare_bindo [OF hoare_ensure hoare_strengthen [OF hoare_permitted [where P = ?R]]])
      (auto simp: at_stage_def recovering_def split: if_splits)
  ultimately show ?thesis unfolding retain_replaced_def by (rule hoare_bindo)
qed

text \<open>The report of a conflict is left out only for what had been applied.\<close>

definition conflict_known :: "externals \<Rightarrow> journal \<Rightarrow> item option \<Rightarrow> bool \<Rightarrow> bool" where
  "conflict_known X j x conflict \<longleftrightarrow>
     (\<forall>i c. x = Some (Regular i c) \<longrightarrow> conflict \<or> jr_previous_sha j = Some (sha256_hex X c))"

lemma hoare_conflict:
  "hoare (at_stage j (retained (px_ext A) j p n x)) (conflict_of A j p)
     (\<lambda>c s. at_stage j (retained (px_ext A) j p n x) s \<and> conflict_known (px_ext A) j x c) (recovering (px_ext A) j p n x)"
proof -
  let ?X = "px_ext A"
  let ?R = "at_stage j (retained ?X j p n x)"
  let ?K = "\<lambda>r s. case r of Inl e \<Rightarrow> ?R s
    | Inr d \<Rightarrow> \<exists>b. (?R s \<and> (\<exists>i. map_of (pj_tree s) (p @ [jr_history j]) = Some (Regular i b))) \<and> d = (sha256_hex ?X b, length b)"
  have read: "hoare ?R (bindo (open_regular A (p @ [jr_history j])) (digest_of A))
      (\<lambda>d s. \<exists>b. (?R s \<and> (\<exists>i. map_of (pj_tree s) (p @ [jr_history j]) = Some (Regular i b))) \<and> d = (sha256_hex ?X b, length b)) ?R"
    by (rule hoare_bindo [OF hoare_open_regular hoare_weaken [OF hoare_digest]]) auto
  have "hoare (?K r) (retn (case r of Inl e \<Rightarrow> True | Inr (sha, m) \<Rightarrow> Some sha \<noteq> jr_previous_sha j))
      (\<lambda>c s. ?R s \<and> conflict_known ?X j x c) (recovering ?X j p n x)" for r
    by (rule hoare_retn) (auto simp: conflict_known_def at_stage_def retained_def split: sum.splits)
  then show ?thesis
    unfolding conflict_of_def by (rule hoare_bindo [OF hoare_attempt [OF read]])
qed

lemma hoare_finish:
  "hoare (at_stage j (retained (px_ext A) j p n x)) (finish_recovery A j p n)
     (\<lambda>_. version_in_place (px_ext A) (jr_entry j) p n x (jr_previous_sha j)) (\<lambda>s. recovering (px_ext A) j p n x s
        \<or> version_in_place (px_ext A) (jr_entry j) p n x (jr_previous_sha j) s)"
proof -
  let ?X = "px_ext A" and ?e = "jr_entry j"
  let ?R = "at_stage j (retained ?X j p n x)" and ?Z = "version_in_place ?X ?e p n x (jr_previous_sha j)"
  let ?E = "\<lambda>s :: 'a projection. recovering ?X j p n x s \<or> ?Z s"
  note pe = at_stage_pending(3) [where X = ?X]
  have conflict: "hoare (\<lambda>s. ?R s \<and> h = map_of (pj_tree s) (p @ [jr_history j]))
      (if h \<noteq> None then conflict_of A j p else retn False)
      (\<lambda>c s. (?R s \<and> conflict_known ?X j x c) \<and> h = x) ?E" for h
  proof (rule hoare_pre_imp)
    show "h = x" if "?R s \<and> h = map_of (pj_tree s) (p @ [jr_history j])" for s :: "'a projection"
      using that by (auto simp: at_stage_def retained_def)
    assume h: "h = x"
    have "hoare ?R (if x \<noteq> None then conflict_of A j p else retn False) (\<lambda>c s. ?R s \<and> conflict_known ?X j x c) ?E"
    proof (cases x)
      case None
      then show ?thesis by (auto intro: hoare_retn simp: conflict_known_def)
    next
      case (Some y)
      have "hoare ?R (conflict_of A j p) (\<lambda>c s. ?R s \<and> conflict_known ?X j x c) ?E"
        by (rule hoare_weaken [OF hoare_conflict]) auto
      with Some show ?thesis by simp
    qed
    then have "hoare ?R (if h \<noteq> None then conflict_of A j p else retn False)
        (\<lambda>c s. (?R s \<and> conflict_known ?X j x c) \<and> h = x) ?E" by (simp add: h)
    then show "hoare (\<lambda>s. ?R s \<and> h = map_of (pj_tree s) (p @ [jr_history j])) (if h \<noteq> None then conflict_of A j p else retn False)
        (\<lambda>c s. (?R s \<and> conflict_known ?X j x c) \<and> h = x) ?E"
      by (rule hoare_strengthen) auto
  qed
  have rec: "hoare (\<lambda>s. (?R s \<and> conflict_known ?X j x c) \<and> h = x)
      (bindo (record_applied (de_path ?e) (applied_of ?e c (if h \<noteq> None then Some (beside (de_path ?e) (jr_history j)) else None) now))
        (\<lambda>_. bindo (save_ledger A) (\<lambda>_. remove_journal A))) (\<lambda>_. ?Z) ?E" for h c now
  proof -
    let ?f = "applied_of ?e c (if h \<noteq> None then Some (beside (de_path ?e) (jr_history j)) else None) now"
    let ?I = "\<lambda>s. (?R s \<and> conflict_known ?X j x c) \<and> h = x"
    let ?M = "\<lambda>s. ?I s \<and> map_of (rl_files (pj_ledger s)) (de_path ?e) = Some ?f"
    let ?L = "\<lambda>s. ?I s \<and> ledger_at s (de_path ?e) = Some ?f"
    have "hoare ?I (record_applied (de_path ?e) ?f) (\<lambda>_. ?M) ?E"
      by (rule hoareI) (auto simp: record_applied_def op_defs at_stage_def)
    moreover have "hoare ?M (save_ledger A) (\<lambda>_. ?L) ?E"
      by (rule hoare_save_ledger) (auto simp: stable_def same_disk_def at_stage_def ledger_at_def recovering_def)
    moreover have "hoare ?L (remove_journal A) (\<lambda>_. ?Z) ?E"
    proof (rule hoare_remove_journal)
      fix s assume l: "?L s"
      then have "kept_aside ?X (de_path ?e) p n x (jr_previous_sha j) ?f (pj_tree s)"
        by (auto simp: kept_aside_def at_stage_def retained_def conflict_known_def applied_of_def is_plain_iff)
      with l show "?Z (s\<lparr>pj_journal_file := Missing\<rparr>)"
        by (auto simp: version_in_place_def at_stage_def retained_def ledger_at_def applied_of_def)
    qed (use pe in auto)
    ultimately show ?thesis by (intro hoare_bindo)
  qed
  show ?thesis
    unfolding finish_recovery_def
    by (rule hoare_bindo [OF hoare_stat hoare_bindo [OF hoare_calm hoare_bindo [OF conflict hoare_bindo [OF hoare_calm rec]]]])
      (use pe in \<open>auto intro: calm\<close>)
qed

text \<open>Names that the receiver makes are not names of the user's.\<close>

lemma artifact_apart:
  assumes "canonical_id X ''.mirelay-incoming-'' m (jr_stage j) = Inr u"
    and "canonical_id X ''.mirelay-history-'' m' (jr_history j) = Inr v" and "safe_component n"
  shows "apart j n"
proof -
  have s: "prefix ''.mirelay-incoming-'' (jr_stage j)" "prefix ''.mirelay-history-'' (jr_history j)"
    using assms(1,2) by (auto simp: canonical_id_def andthen_Inr strip_prefix_def split: if_splits)
  have low: "prefix ''.mirelay'' (to_ascii_lowercase m)" if p: "prefix ''.mirelay-'' m" for m
  proof -
    obtain r where "m = ''.mirelay-'' @ r" using p by (auto simp: prefix_def)
    then have "to_ascii_lowercase m = ''.mirelay-'' @ to_ascii_lowercase r"
      by (simp add: to_ascii_lowercase_def ascii_lower_char_def ascii_defs)
    then show ?thesis by simp
  qed
  have "prefix ''.mirelay-'' (jr_stage j)" "prefix ''.mirelay-'' (jr_history j)"
    using s by (auto simp: prefix_def)
  then have "jr_stage j \<noteq> n" "jr_history j \<noteq> n"
    using low assms(3) by (auto simp: safe_component_def)
  moreover have "jr_stage j \<noteq> jr_history j" using s by (auto simp: prefix_def)
  ultimately show ?thesis by (simp add: apart_def)
qed

lemma hoare_recover_journal:
  assumes "p @ [n] = split_on slash (de_path (jr_entry j))"
  shows "hoare (recovering (px_ext A) j p n x) (recover_journal A j)
     (\<lambda>_. version_in_place (px_ext A) (jr_entry j) p n x (jr_previous_sha j)) (\<lambda>s. recovering (px_ext A) j p n x s
        \<or> version_in_place (px_ext A) (jr_entry j) p n x (jr_previous_sha j) s)"
proof -
  let ?X = "px_ext A" and ?s = "p @ [jr_stage j]"
  let ?P = "recovering ?X j p n x" and ?Z = "version_in_place ?X (jr_entry j) p n x (jr_previous_sha j)"
  let ?E = "\<lambda>s :: 'a projection. ?P s \<or> ?Z s"
  let ?Q = "at_stage j (\<lambda>t. exchanged ?X j p n x t \<or> retained ?X j p n x t)"
  have e: "?Q s \<Longrightarrow> ?P s" "at_stage j (retained ?X j p n x) s \<Longrightarrow> ?P s" for s :: "'a projection"
    by (auto simp: at_stage_def recovering_def)
  have advance: "hoare (\<lambda>s. ?P s \<and> stage = map_of (pj_tree s) ?s)
      (if map_option item_id stage = Some (jr_inode j)
       then bindo (commit_stage A j p n) (\<lambda>_. stat_optional A ?s) else retn stage)
      (\<lambda>left s. ?Q s \<and> left = map_of (pj_tree s) ?s) ?E" if a: "apart j n" for stage
  proof (rule hoare_if)
    assume i: "map_option item_id stage = Some (jr_inode j)"
    have "hoare (at_stage j (staged j p n x)) (bindo (commit_stage A j p n) (\<lambda>_. stat_optional A ?s))
        (\<lambda>left s. ?Q s \<and> left = map_of (pj_tree s) ?s) ?P"
      by (rule hoare_bindo [OF hoare_commit_stage [OF a] hoare_stat]) (use e in auto)
    then have c: "hoare (at_stage j (staged j p n x)) (bindo (commit_stage A j p n) (\<lambda>_. stat_optional A ?s))
        (\<lambda>left s. ?Q s \<and> left = map_of (pj_tree s) ?s) ?E"
      by (rule hoare_weaken) auto
    show "hoare (\<lambda>s. ?P s \<and> stage = map_of (pj_tree s) ?s) (bindo (commit_stage A j p n) (\<lambda>_. stat_optional A ?s))
        (\<lambda>left s. ?Q s \<and> left = map_of (pj_tree s) ?s) ?E"
    proof (rule hoare_strengthen [OF c])
      fix s :: "'a projection" assume "?P s \<and> stage = map_of (pj_tree s) ?s"
      then show "at_stage j (staged j p n x) s"
        using i exchanged_not_staged [OF a] by (auto simp: recovering_def at_stage_def retained_def)
    qed
  next
    assume i: "map_option item_id stage \<noteq> Some (jr_inode j)"
    then show "hoare (\<lambda>s. ?P s \<and> stage = map_of (pj_tree s) ?s) (retn stage)
        (\<lambda>left s. ?Q s \<and> left = map_of (pj_tree s) ?s) ?E"
      by (intro hoare_retn) (auto simp: recovering_def at_stage_def staged_def)
  qed
  have aside: "hoare (\<lambda>s. ?Q s \<and> left = map_of (pj_tree s) ?s) (if left \<noteq> None then retain_replaced A j p else retn ())
      (\<lambda>_. at_stage j (retained ?X j p n x)) ?E" if a: "apart j n" for left
  proof (rule hoare_if)
    assume l: "left \<noteq> None"
    have "hoare (at_stage j (exchanged ?X j p n x)) (retain_replaced A j p) (\<lambda>_. at_stage j (retained ?X j p n x)) ?E"
      by (rule hoare_weaken [OF hoare_retain [OF a]]) auto
    then show "hoare (\<lambda>s. ?Q s \<and> left = map_of (pj_tree s) ?s) (retain_replaced A j p) (\<lambda>_. at_stage j (retained ?X j p n x)) ?E"
      by (rule hoare_strengthen) (use l in \<open>auto simp: at_stage_def retained_def\<close>)
  next
    assume "\<not> left \<noteq> None"
    then show "hoare (\<lambda>s. ?Q s \<and> left = map_of (pj_tree s) ?s) (retn ()) (\<lambda>_. at_stage j (retained ?X j p n x)) ?E"
      by (intro hoare_retn) (auto simp: at_stage_def exchanged_def is_plain_def)
  qed
  have rest: "hoare (\<lambda>s. ?P s \<and> valid_path (de_path (jr_entry j)) \<and> fst r @ [snd r] = split_on slash (de_path (jr_entry j)))
      (case r of (q, m) \<Rightarrow> bindo (check_parent A q (jr_parent j)) (\<lambda>_. bindo (stat_optional A (q @ [jr_stage j])) (\<lambda>stage.
       bindo (if map_option item_id stage = Some (jr_inode j)
         then bindo (commit_stage A j q m) (\<lambda>_. stat_optional A (q @ [jr_stage j])) else retn stage) (\<lambda>left.
       bindo (if left \<noteq> None then retain_replaced A j q else retn ()) (\<lambda>_. finish_recovery A j q m))))) (\<lambda>_. ?Z) ?E"
    if a: "apart j n" for r
  proof (rule hoare_pre_imp)
    show "r = (p, n)" if "?P s \<and> valid_path (de_path (jr_entry j)) \<and> fst r @ [snd r] = split_on slash (de_path (jr_entry j))"
      for s :: "'a projection" using that assms by (metis append1_eq_conv prod.collapse)
    assume r: "r = (p, n)"
    have "hoare ?P (bindo (check_parent A p (jr_parent j)) (\<lambda>_. bindo (stat_optional A ?s) (\<lambda>stage.
       bindo (if map_option item_id stage = Some (jr_inode j)
         then bindo (commit_stage A j p n) (\<lambda>_. stat_optional A ?s) else retn stage) (\<lambda>left.
       bindo (if left \<noteq> None then retain_replaced A j p else retn ()) (\<lambda>_. finish_recovery A j p n))))) (\<lambda>_. ?Z) ?E"
      by (rule hoare_bindo [OF hoare_calm hoare_bindo [OF hoare_stat hoare_bindo [OF advance [OF a]
            hoare_bindo [OF aside [OF a] hoare_finish]]]]) (auto intro: calm)
    then show "hoare (\<lambda>s. ?P s \<and> valid_path (de_path (jr_entry j)) \<and> fst r @ [snd r] = split_on slash (de_path (jr_entry j)))
      (case r of (q, m) \<Rightarrow> bindo (check_parent A q (jr_parent j)) (\<lambda>_. bindo (stat_optional A (q @ [jr_stage j])) (\<lambda>stage.
       bindo (if map_option item_id stage = Some (jr_inode j)
         then bindo (commit_stage A j q m) (\<lambda>_. stat_optional A (q @ [jr_stage j])) else retn stage) (\<lambda>left.
       bindo (if left \<noteq> None then retain_replaced A j q else retn ()) (\<lambda>_. finish_recovery A j q m))))) (\<lambda>_. ?Z) ?E"
      unfolding r prod.case by (rule hoare_strengthen) simp
  qed
  have go: "hoare (\<lambda>s. (((?P s \<and> single_entry ?X (jr_entry j) = Inr w)
        \<and> canonical_id ?X ''.mirelay-incoming-'' ''Invalid recovery artifact.'' (jr_stage j) = Inr u)
        \<and> canonical_id ?X ''.mirelay-history-'' ''Invalid recovery artifact.'' (jr_history j) = Inr v)
        \<and> valid_path (de_path (jr_entry j)) \<and> fst r @ [snd r] = split_on slash (de_path (jr_entry j)))
      (case r of (q, m) \<Rightarrow> bindo (check_parent A q (jr_parent j)) (\<lambda>_. bindo (stat_optional A (q @ [jr_stage j])) (\<lambda>stage.
       bindo (if map_option item_id stage = Some (jr_inode j)
         then bindo (commit_stage A j q m) (\<lambda>_. stat_optional A (q @ [jr_stage j])) else retn stage) (\<lambda>left.
       bindo (if left \<noteq> None then retain_replaced A j q else retn ()) (\<lambda>_. finish_recovery A j q m))))) (\<lambda>_. ?Z) ?E"
    (is "hoare ?pre ?m _ _") for w u v r
  proof (rule hoare_pre_imp)
    show "apart j n" if "?pre s" for s :: "'a projection"
    proof -
      have "n \<in> set (split_on slash (de_path (jr_entry j)))" using assms by (metis in_set_conv_decomp)
      then have "safe_component n" using that by (simp add: valid_path_iff)
      with that show ?thesis by (blast intro: artifact_apart)
    qed
    assume "apart j n"
    from rest [OF this] show "hoare ?pre ?m (\<lambda>_. ?Z) ?E" by (rule hoare_strengthen) blast
  qed
  show ?thesis
    unfolding recover_journal_def
    by (rule hoare_bindo [OF hoare_lifto hoare_bindo [OF hoare_lifto hoare_bindo [OF hoare_lifto hoare_bindo [OF hoare_root_parent go]]]])
      auto
qed

section \<open>After a stop\<close>

text \<open>Nothing happened at the place yet.\<close>

definition intact :: "string \<Rightarrow> place \<Rightarrow> string \<Rightarrow> item option \<Rightarrow> applied_file option \<Rightarrow> 'w projection \<Rightarrow> bool" where
  "intact path p n x old s \<longleftrightarrow> pj_journal_file s = Missing \<and> (\<exists>l. pj_ledger_file s = Saved l)
     \<and> tree_ok (pj_tree s) \<and> map_of (pj_tree s) (p @ [n]) = x \<and> ledger_at s path = old"

definition resolved ::
    "externals \<Rightarrow> directory_entry \<Rightarrow> place \<Rightarrow> string \<Rightarrow> item option \<Rightarrow> applied_file option \<Rightarrow> 'w projection \<Rightarrow> bool" where
  "resolved X e p n x old s \<longleftrightarrow>
     intact (de_path e) p n x old s \<or> version_in_place X e p n x (map_option af_sha256 old) s"

definition underway ::
    "externals \<Rightarrow> directory_entry \<Rightarrow> place \<Rightarrow> string \<Rightarrow> item option \<Rightarrow> applied_file option \<Rightarrow> 'w projection \<Rightarrow> bool" where
  "underway X e p n x old s \<longleftrightarrow>
     (\<exists>j. jr_entry j = e \<and> jr_previous_sha j = map_option af_sha256 old \<and> recovering X j p n x s)"

definition stopped ::
    "externals \<Rightarrow> directory_entry \<Rightarrow> place \<Rightarrow> string \<Rightarrow> item option \<Rightarrow> applied_file option \<Rightarrow> 'w projection \<Rightarrow> bool" where
  "stopped X e p n x old s \<longleftrightarrow> resolved X e p n x old s \<or> underway X e p n x old s"

lemma stable_settled [intro, simp]:
  "stable same_disk (intact path p n x old)" "stable same_disk (resolved X e p n x old)"
  "stable same_disk (underway X e p n x old)" "stable same_disk (stopped X e p n x old)"
  by (auto simp: stable_def same_disk_def resolved_def stopped_def underway_def intact_def recovering_def version_in_place_def
    ledger_at_def)

lemma hoare_load:
  assumes "stable same_disk P" and "\<And>s. P s \<Longrightarrow> E s"
  shows "hoare P (load_document A field)
     (\<lambda>d s. P s \<and> (case d of None \<Rightarrow> field s = Missing | Some y \<Rightarrow> field s = Saved y)) E"
proof -
  have load: "hoare P (readso (\<lambda>s. case field s of Missing \<Rightarrow> Inr None | Saved d \<Rightarrow> Inr (Some d)
      | Broken \<Rightarrow> Inl (Bail ''failed to read or parse'')))
      (\<lambda>d s. P s \<and> (case d of None \<Rightarrow> field s = Missing | Some y \<Rightarrow> field s = Saved y)) E"
    by (rule hoareI) (use assms(2) in \<open>auto simp: op_defs split: document.splits\<close>)
  show ?thesis
    unfolding load_document_def by (rule hoare_bindo [OF hoare_permitted load]) (use assms in auto)
qed

lemma hoare_recover_pending:
  assumes "p @ [n] = split_on slash (de_path e)"
  shows "hoare (underway (px_ext A) e p n x old)
     (recover A) (\<lambda>_. version_in_place (px_ext A) e p n x (map_option af_sha256 old)) (stopped (px_ext A) e p n x old)"
proof -
  let ?Z = "version_in_place (px_ext A) e p n x (map_option af_sha256 old)" and ?E = "stopped (px_ext A) e p n x old"
  let ?P = "underway (px_ext A) e p n x old"
  have "hoare (\<lambda>s. ?P s \<and> (case d of None \<Rightarrow> pj_journal_file s = Missing | Some j \<Rightarrow> pj_journal_file s = Saved j))
      (case d of None \<Rightarrow> retn () | Some j \<Rightarrow> recover_journal A j) (\<lambda>_. ?Z) ?E" for d
  proof (cases d)
    case None
    then show ?thesis by (auto intro!: hoare_retn simp: underway_def recovering_def)
  next
    case (Some j)
    have "hoare (\<lambda>s. ?P s \<and> pj_journal_file s = Saved j) (recover_journal A j) (\<lambda>_. ?Z) ?E"
    proof (rule hoare_pre_imp)
      show "jr_entry j = e \<and> jr_previous_sha j = map_option af_sha256 old" if "?P s \<and> pj_journal_file s = Saved j"
        for s :: "'a projection"
        using that by (auto simp: underway_def recovering_def)
      assume j: "jr_entry j = e \<and> jr_previous_sha j = map_option af_sha256 old"
      with assms have "p @ [n] = split_on slash (de_path (jr_entry j))" by simp
      note r = hoare_recover_journal [OF this, of A x]
      have "hoare (recovering (px_ext A) j p n x) (recover_journal A j) (\<lambda>_. ?Z) ?E"
        by (rule hoare_weaken [OF r]) (use j in \<open>auto simp: stopped_def resolved_def underway_def\<close>)
      then show "hoare (\<lambda>s. ?P s \<and> pj_journal_file s = Saved j) (recover_journal A j) (\<lambda>_. ?Z) ?E"
        by (rule hoare_strengthen) (auto simp: underway_def recovering_def)
    qed
    with Some show ?thesis by simp
  qed
  note go = this
  show ?thesis
    unfolding recover_def by (rule hoare_bindo [OF hoare_load go]) (auto simp: stopped_def)
qed

lemma hoare_recover:
  assumes "p @ [n] = split_on slash (de_path e)"
  shows "hoare (stopped (px_ext A) e p n x old) (recover A) (\<lambda>_. resolved (px_ext A) e p n x old)
     (stopped (px_ext A) e p n x old)"
proof -
  let ?P = "stopped (px_ext A) e p n x old" and ?Q = "resolved (px_ext A) e p n x old"
  let ?K = "\<lambda>d s. ?Q s \<and> (case d of None \<Rightarrow> pj_journal_file s = Missing | Some j \<Rightarrow> pj_journal_file s = Saved j)"
  have idle: "hoare (?K d) (case d of None \<Rightarrow> retn () | Some j \<Rightarrow> recover_journal A j) (\<lambda>_. ?Q) ?P" for d
  proof (cases d)
    case None
    then show ?thesis by (auto intro: hoare_retn)
  next
    case (Some j)
    have "\<not> ?K (Some j) s" for s :: "'a projection" by (auto simp: resolved_def intact_def version_in_place_def)
    then show ?thesis unfolding Some by (auto intro: hoare_never)
  qed
  have "hoare ?Q (recover A) (\<lambda>_. ?Q) ?P"
    unfolding recover_def by (rule hoare_bindo [OF hoare_load idle]) (auto simp: stopped_def)
  moreover have "hoare (underway (px_ext A) e p n x old) (recover A) (\<lambda>_. ?Q) ?P"
    by (rule hoare_weaken [OF hoare_recover_pending [OF assms]]) (auto simp: resolved_def)
  ultimately show ?thesis unfolding hoare_def stopped_def by blast
qed

lemma stopped_reload:
  "stopped X e p n x old s \<Longrightarrow> stopped X e p n x old (s\<lparr>pj_ledger := l, pj_world := w\<rparr>)"
  by (auto simp: stopped_def resolved_def underway_def intact_def version_in_place_def recovering_def ledger_at_def)

end
