(* ===== verification/Replacing.thy ===== *)
theory Replacing
  imports ProjectionSafe ServerDirectory
begin

text \<open>
  A version is applied as a whole or not at all. The invariant of \<open>ProjectionSafe\<close> is established
  by the operations that look for the place and stage the new file, and is kept by every later
  attempt to open the receiver, however often it fails.
\<close>

section \<open>Before the journal is written\<close>

text \<open>The names made from generated identifiers are free.\<close>

definition unnamed :: "'w projection_api \<Rightarrow> place \<Rightarrow> tree \<Rightarrow> bool" where
  "unnamed A p t \<longleftrightarrow> (\<forall>w. map_of t (p @ [''.mirelay-history-'' @ fst (px_uuid A w)]) = None)"

definition prepared ::
    "'w projection_api \<Rightarrow> directory_entry \<Rightarrow> place \<Rightarrow> string \<Rightarrow> item option \<Rightarrow> applied_file option \<Rightarrow> 'w projection \<Rightarrow> bool" where
  "prepared A e p n x old s \<longleftrightarrow> intact (de_path e) p n x old s \<and> unnamed A p (pj_tree s)
     \<and> map_of (rl_files (pj_ledger s)) (de_path e) = old"

lemma stable_prepared [intro, simp]: "stable same_disk (prepared A e p n x old)"
  by (auto simp: stable_def same_disk_def prepared_def intact_def ledger_at_def)

lemma prepared_settled: "prepared A e p n x old s \<Longrightarrow> resolved X e p n x old s"
  by (simp add: prepared_def resolved_def)

lemma prepared_stopped: "prepared A e p n x old s \<Longrightarrow> stopped X e p n x old s"
  by (simp add: prepared_def resolved_def stopped_def)

lemma prepared_create:
  assumes "prepared A e p n x old s" and "map_of (pj_tree s) q = None" and "q \<noteq> []"
    and "is_folder (map_of (pj_tree s) (butlast q))" and "item_id y = fresh_id (pj_tree s)"
    and "q \<noteq> p @ [n]" and "\<And>w. q \<noteq> p @ [''.mirelay-history-'' @ fst (px_uuid A w)]"
  shows "prepared A e p n x old (s\<lparr>pj_tree := AList.update q y (pj_tree s)\<rparr>)"
proof -
  have "tree_ok (pj_tree s)" using assms(1) by (simp add: prepared_def intact_def)
  note t = tree_create [OF this assms(2-5)]
  then show ?thesis
    using assms(1) assms(6) assms(7) [symmetric] by (simp add: prepared_def intact_def unnamed_def ledger_at_def)
qed

lemma hoare_make_directory:
  assumes "prepared A e p n x old = P" and "length q < length p"
  shows "hoare P (make_directory A (q @ [c])) (\<lambda>_. P) P"
proof -
  let ?k = "q @ [c]" and ?t = "\<lambda>s :: 'a projection. pj_tree s"
  note P = assms(1) [symmetric]
  have st: "stable same_disk P" by (simp add: P)
  have edit: "hoare (\<lambda>s. (P s \<and> map_of (?t s) ?k = None) \<and> is_folder (map_of (?t s) q))
      (edit_tree (\<lambda>t. AList.update ?k (Folder (fresh_id t)) t)) (\<lambda>_. P) P"
    by (rule hoare_edit_tree) (use assms(2) in \<open>auto simp: P intro!: prepared_create\<close>)
  have new: "hoare (\<lambda>s. P s \<and> map_of (?t s) ?k = None)
      (bindo (in_directory ?k) (\<lambda>_. bindo (edit_tree (\<lambda>t. AList.update ?k (Folder (fresh_id t)) t)) (\<lambda>_. permitted A)))
      (\<lambda>_. P) P"
    unfolding in_directory_def bindo_assoc
    by (rule hoare_bindo [OF hoare_looking hoare_bindo [OF hoare_ensure hoare_bindo [OF hoare_strengthen [OF edit]]]])
      (use st in \<open>auto intro: hoare_permitted\<close>)
  have "hoare (\<lambda>s. P s \<and> y = map_of (?t s) ?k)
      (case y of Some _ \<Rightarrow> retn () | None \<Rightarrow> bindo (in_directory ?k)
        (\<lambda>_. bindo (edit_tree (\<lambda>t. AList.update ?k (Folder (fresh_id t)) t)) (\<lambda>_. permitted A))) (\<lambda>_. P) P" for y
    by (cases y) (auto intro!: hoare_retn intro: hoare_strengthen [OF new])
  note go = this
  show ?thesis
    unfolding make_directory_def
    by (rule hoare_bindo [OF hoare_permitted hoare_bindo [OF hoare_looking go]]) (use st in auto)
qed

lemma hoare_enter_create:
  assumes "prepared A e p n x old = P"
  shows "length (q @ ns) \<le> length p \<Longrightarrow> hoare P (enter A True q ns) (\<lambda>r s. P s \<and> r = q @ ns) P"
proof (induction ns arbitrary: q)
  case Nil
  then show ?case by (auto intro: hoare_retn)
next
  case (Cons c ns)
  have "stable same_disk P" using assms by auto
  with Cons show ?case
    unfolding enter.simps if_True
    by (intro hoare_bindo [OF hoare_make_directory hoare_bindo [OF hoare_calm hoare_weaken [OF Cons.IH]]])
      (use assms in \<open>auto intro: calm\<close>)
qed

lemma hoare_root_parent_create:
  assumes "p @ [n] = split_on slash (de_path e)" and "prepared A e p n x old = P"
  shows "hoare P (root_parent A (de_path e) True) (\<lambda>r s. P s \<and> r = (p, n) \<and> safe_component n) P"
proof -
  have p: "butlast (split_on slash (de_path e)) = p" "last (split_on slash (de_path e)) = n"
    using assms(1) [symmetric] by simp_all
  have st: "stable same_disk P" using assms(2) by auto
  have "n \<in> set (split_on slash (de_path e))" using assms(1) by (metis in_set_conv_decomp)
  then have n: "valid_path (de_path e) \<Longrightarrow> safe_component n" by (simp add: valid_path_iff)
  have v: "hoare P (lifto (validate_path (de_path e))) (\<lambda>_ s. P s \<and> safe_component n) P"
    by (rule hoare_weaken [OF hoare_lifto]) (use n in auto)
  have "hoare (\<lambda>s. P s \<and> safe_component n) (enter A True [] p) (\<lambda>r s. (P s \<and> r = p) \<and> safe_component n) P"
    by (rule hoare_pre_imp [where c = "safe_component n"])
      (auto intro: hoare_weaken [OF hoare_strengthen [OF hoare_enter_create [OF assms(2), of "[]" p]]])
  then show ?thesis
    unfolding root_parent_def p by (intro hoare_bindo [OF v hoare_bindo [OF _ hoare_retn]]) auto
qed

section \<open>Staging\<close>

lemma hoare_consult: "stable same_disk P \<Longrightarrow> (\<And>s. P s \<Longrightarrow> E s) \<Longrightarrow> hoare P (consult f) (\<lambda>v s. P s \<and> (\<exists>w. v = fst (f w))) E"
  by (rule hoareI) (auto simp: consult_def stable_def same_disk_def split: prod.splits, (metis fst_conv)+)

lemma hoare_create_file:
  assumes "stable same_disk P" and "\<And>s. P s \<Longrightarrow> E s"
    and "\<And>s. P s \<Longrightarrow> map_of (pj_tree s) k = None \<Longrightarrow> is_folder (map_of (pj_tree s) (butlast k))
      \<Longrightarrow> Q (fresh_id (pj_tree s)) (s\<lparr>pj_tree := AList.update k (Regular (fresh_id (pj_tree s)) []) (pj_tree s)\<rparr>)"
  shows "hoare P (create_file A k) Q E"
proof -
  let ?G = "\<lambda>s. (P s \<and> map_of (pj_tree s) k = None) \<and> is_folder (map_of (pj_tree s) (butlast k))"
  have edit: "hoare (\<lambda>s. ?G s \<and> i = fresh_id (pj_tree s)) (edit_tree (AList.update k (Regular i []))) (\<lambda>_. Q i) E" for i
    by (rule hoare_edit_tree) (use assms(3) in auto)
  have dir: "hoare (\<lambda>s. P s \<and> map_of (pj_tree s) k = None) (in_directory k) (\<lambda>_. ?G) E"
    unfolding in_directory_def
    by (rule hoare_bindo [OF hoare_looking hoare_weaken [OF hoare_ensure]]) (use assms(2) in auto)
  have "hoare (\<lambda>s. (P s \<and> x = map_of (pj_tree s) k) \<and> x = None) (in_directory k) (\<lambda>_. ?G) E" for x
    by (rule hoare_strengthen [OF dir]) auto
  note dir = this
  show ?thesis
    unfolding create_file_def
    by (rule hoare_bindo [OF hoare_permitted hoare_bindo [OF hoare_looking hoare_bindo [OF hoare_ensure hoare_bindo
          [OF dir hoare_bindo [OF hoare_readso_any hoare_bindo [OF edit hoare_retn]]]]]])
      (use assms(1,2) in auto)
qed

lemma hoare_write_file:
  assumes "stable same_disk P" and "\<And>s. P s \<Longrightarrow> E s"
    and "\<And>s c. P s \<Longrightarrow> P (s\<lparr>pj_tree := AList.update k (Regular i c) (pj_tree s)\<rparr>)"
  shows "hoare P (write_file A k i b) (\<lambda>_. P) E"
proof -
  have edit: "hoare P (edit_tree (AList.update k (Regular i c))) (\<lambda>_. P) E" for c
    by (rule hoare_edit_tree) (rule assms(3))
  have part: "hoare P (bindo (edit_tree (AList.update k (Regular i (take m b)))) (\<lambda>_. fails err)) (\<lambda>_. P) E" for m err
    by (rule hoare_bindo [OF edit hoare_fails]) (rule assms(2))
  have "hoare P (if ok then edit_tree (AList.update k (Regular i b))
      else bindo (consult (px_partial A)) (\<lambda>n. bindo (edit_tree (AList.update k (Regular i (take n b))))
        (\<lambda>_. fails (Bail ''input/output error'')))) (\<lambda>_. P) E" for ok
    by (rule hoare_if [OF edit hoare_bindo [OF hoare_calm part]]) (use assms(1,2) in \<open>auto intro: calm\<close>)
  then show ?thesis
    unfolding write_file_def by (intro hoare_bindo [OF hoare_calm]) (use assms(1,2) in \<open>auto intro: calm\<close>)
qed

text \<open>The staged file has the identity that is written to the journal.\<close>

definition filed :: "place \<Rightarrow> nat \<Rightarrow> 'w projection \<Rightarrow> bool" where
  "filed k i s \<longleftrightarrow> (\<exists>b. map_of (pj_tree s) k = Some (Regular i b))"

lemma stable_filed [intro, simp]: "stable same_disk (\<lambda>s. P s \<and> filed k i s)" if "stable same_disk P"
  using that by (auto simp: stable_def same_disk_def filed_def)

lemma prepared_write:
  assumes "prepared A e p n x old s" and "filed k i s" and "k \<noteq> p @ [n]"
  shows "prepared A e p n x old (s\<lparr>pj_tree := AList.update k (Regular i c) (pj_tree s)\<rparr>)
    \<and> filed k i (s\<lparr>pj_tree := AList.update k (Regular i c) (pj_tree s)\<rparr>)"
proof -
  obtain b where b: "map_of (pj_tree s) k = Some (Regular i b)" using assms(2) by (auto simp: filed_def)
  have u: "k \<noteq> p @ [''.mirelay-history-'' @ fst (px_uuid A w)]" for w
    using assms(1) b by (auto simp: prepared_def unnamed_def)
  have "tree_ok (pj_tree s)" using assms(1) by (simp add: prepared_def intact_def)
  from tree_write [OF this b] show ?thesis
    using assms(1) assms(3) u [symmetric]
    by (simp add: prepared_def intact_def unnamed_def ledger_at_def update_conv' filed_def)
qed

lemma hoare_stage_file:
  assumes "safe_component n"
  shows "hoare (prepared A e p n x old) (stage_file A e a p)
     (\<lambda>_. underway (px_ext A) e p n x old)
     (stopped (px_ext A) e p n x old)"
proof -
  let ?X = "px_ext A" and ?P = "prepared A e p n x old" and ?E = "stopped (px_ext A) e p n x old"
  let ?Z = "underway (px_ext A) e p n x old"
  have pe: "?P s \<Longrightarrow> ?E s" for s :: "'a projection" by (rule prepared_stopped)
  have name: "''.mirelay-incoming-'' @ u \<noteq> n" for u
  proof
    assume "''.mirelay-incoming-'' @ u = n"
    moreover have "prefix ''.mirelay'' (to_ascii_lowercase (''.mirelay-incoming-'' @ u))"
      by (simp add: to_ascii_lowercase_def ascii_lower_char_def ascii_defs)
    ultimately show False using assms by (auto simp: safe_component_def)
  qed
  have rest: "hoare (\<lambda>s. ?P s \<and> (\<exists>w. u = fst (px_uuid A w)))
      (bindo (create_file A (p @ [''.mirelay-incoming-'' @ u])) (\<lambda>i.
       bindo (object_bytes A a) (\<lambda>b.
       bindo (write_file A (p @ [''.mirelay-incoming-'' @ u]) i b) (\<lambda>_.
       bindo (permitted A) (\<lambda>_. bindo (permitted A) (\<lambda>_.
       bindo (stat_optional A p) (\<lambda>x.
       bindo (lifto (of_option ''no such file'' (map_option item_id x))) (\<lambda>parent.
       bindo (consult (px_uuid A)) (\<lambda>v.
       bindo (file_record (de_path e)) (\<lambda>previous.
       save_journal A \<lparr>jr_entry = e, jr_stage = ''.mirelay-incoming-'' @ u, jr_history = ''.mirelay-history-'' @ v, jr_inode = i,
         jr_parent = parent, jr_previous_sha = map_option af_sha256 previous\<rparr>)))))))))) (\<lambda>_. ?Z) ?E" for u
  proof (rule hoare_strengthen [where P = ?P])
    let ?k = "p @ [''.mirelay-incoming-'' @ u]"
    let ?F = "\<lambda>i s. ?P s \<and> filed ?k i s"
    have st: "stable same_disk (?F i)" for i by simp
    have create: "hoare ?P (create_file A ?k) ?F ?E"
    proof (rule hoare_create_file)
      fix s :: "'a projection" assume s: "?P s" "map_of (pj_tree s) ?k = None" "is_folder (map_of (pj_tree s) (butlast ?k))"
      then show "?F (fresh_id (pj_tree s)) (s\<lparr>pj_tree := AList.update ?k (Regular (fresh_id (pj_tree s)) []) (pj_tree s)\<rparr>)"
        using name by (auto simp: filed_def update_conv' intro!: prepared_create)
    qed (use pe in auto)
    have fill: "hoare (?F i) (write_file A ?k i b) (\<lambda>_. ?F i) ?E" for i b
      by (rule hoare_write_file) (use pe st name in \<open>auto dest: prepared_write\<close>)
    have save: "hoare (\<lambda>s. (?F i s \<and> (\<exists>w. v = fst (px_uuid A w))) \<and> previous = map_of (rl_files (pj_ledger s)) (de_path e))
        (save_journal A \<lparr>jr_entry = e, jr_stage = ''.mirelay-incoming-'' @ u, jr_history = ''.mirelay-history-'' @ v, jr_inode = i,
         jr_parent = parent, jr_previous_sha = map_option af_sha256 previous\<rparr>) (\<lambda>_. ?Z) ?E" for i v previous parent
      unfolding save_journal_def
    proof (rule hoare_save)
      fix s :: "'a projection"
      let ?j = "\<lparr>jr_entry = e, jr_stage = ''.mirelay-incoming-'' @ u, jr_history = ''.mirelay-history-'' @ v, jr_inode = i,
         jr_parent = parent, jr_previous_sha = map_option af_sha256 previous\<rparr>"
      assume s: "(?F i s \<and> (\<exists>w. v = fst (px_uuid A w))) \<and> previous = map_of (rl_files (pj_ledger s)) (de_path e)"
      then have "staged ?j p n x (pj_tree s)"
        by (auto simp: staged_def prepared_def intact_def unnamed_def filed_def)
      with s have "recovering ?X ?j p n x (s\<lparr>pj_journal_file := Saved ?j\<rparr>)" "jr_previous_sha ?j = map_option af_sha256 old"
        by (simp_all add: recovering_def prepared_def intact_def)
      then show "?Z (s\<lparr>pj_journal_file := Saved ?j\<rparr>)" unfolding underway_def by (intro exI [of _ ?j]) simp
    qed (use pe st in \<open>auto simp: stopped_def stable_def same_disk_def prepared_def intact_def ledger_at_def filed_def\<close>)
    have look: "hoare Q (file_record path) (\<lambda>f s. Q s \<and> f = map_of (rl_files (pj_ledger s)) path) ?E"
      if "\<And>s. Q s \<Longrightarrow> ?E s" for Q path
      unfolding file_record_def by (rule hoare_readso_any) (rule that)
    show "hoare ?P (bindo (create_file A ?k) (\<lambda>i. bindo (object_bytes A a) (\<lambda>b. bindo (write_file A ?k i b) (\<lambda>_.
       bindo (permitted A) (\<lambda>_. bindo (permitted A) (\<lambda>_.
       bindo (stat_optional A p) (\<lambda>x.
       bindo (lifto (of_option ''no such file'' (map_option item_id x))) (\<lambda>parent.
       bindo (consult (px_uuid A)) (\<lambda>v.
       bindo (file_record (de_path e)) (\<lambda>previous.
       save_journal A \<lparr>jr_entry = e, jr_stage = ''.mirelay-incoming-'' @ u, jr_history = ''.mirelay-history-'' @ v, jr_inode = i,
         jr_parent = parent, jr_previous_sha = map_option af_sha256 previous\<rparr>)))))))))) (\<lambda>_. ?Z) ?E"
      by (rule hoare_bindo [OF create hoare_bindo [OF hoare_calm hoare_bindo [OF fill hoare_bindo [OF hoare_calm
            hoare_bindo [OF hoare_calm hoare_bindo [OF hoare_calm hoare_bindo [OF hoare_calm hoare_bindo [OF hoare_consult
            hoare_bindo [OF look save]]]]]]]]])
        (use pe st in \<open>auto intro: calm\<close>)
  qed simp
  show ?thesis
    unfolding stage_file_def Let_def by (rule hoare_bindo [OF hoare_consult rest]) (use pe in auto)
qed

section \<open>Applying a version\<close>

text \<open>The version is in place, or nothing had to be done.\<close>

definition up_to_date :: "directory_entry \<Rightarrow> applied_file option \<Rightarrow> bool" where
  "up_to_date e old \<longleftrightarrow> (case old of None \<Rightarrow> False | Some f \<Rightarrow> af_version f \<ge> de_version e)"

lemma hoare_file_record:
  "(\<And>s. P s \<Longrightarrow> E s) \<Longrightarrow> hoare P (file_record path) (\<lambda>f s. P s \<and> f = map_of (rl_files (pj_ledger s)) path) E"
  unfolding file_record_def by (rule hoare_readso_any)

lemma hoare_adopt:
  assumes "content_at (px_ext A) e i x"
  shows "hoare (prepared A e p n x old) (adopt_file A e)
     (\<lambda>_. version_in_place (px_ext A) e p n x (map_option af_sha256 old)) (resolved (px_ext A) e p n x old)"
proof -
  let ?E = "resolved (px_ext A) e p n x old" and ?Z = "version_in_place (px_ext A) e p n x (map_option af_sha256 old)"
  let ?I = "\<lambda>f s. intact (de_path e) p n x old s \<and> map_of (rl_files (pj_ledger s)) (de_path e) = Some f"
  have mark: "hoare (prepared A e p n x old) (record_applied (de_path e) f) (\<lambda>_. ?I f) ?E" for f
    by (rule hoareI) (auto simp: record_applied_def op_defs prepared_def intact_def ledger_at_def)
  have save: "hoare (?I (applied_of e False None now)) (save_ledger A) (\<lambda>_. ?Z) ?E" for now
  proof (rule hoare_save_ledger)
    fix s :: "'a projection" assume s: "?I (applied_of e False None now) s"
    obtain y where y: "x = Some y" using assms by (auto simp: content_at_def)
    with s assms show "?Z (s\<lparr>pj_ledger_file := Saved (pj_ledger s)\<rparr>)"
      by (auto simp: version_in_place_def intact_def ledger_at_def applied_of_def kept_aside_def)
  qed (auto simp: resolved_def stable_def same_disk_def intact_def ledger_at_def)
  show ?thesis
    unfolding adopt_file_def Let_def
    by (rule hoare_bindo [OF hoare_calm hoare_bindo [OF hoare_calm hoare_bindo [OF hoare_calm hoare_bindo [OF mark
          hoare_bindo [OF save hoare_retn]]]]])
      (auto intro: calm prepared_settled)
qed

lemma hoare_place_version:
  assumes "p @ [n] = split_on slash (de_path e)"
  shows "hoare (prepared A e p n x old) (place_version A e a)
     (\<lambda>_. version_in_place (px_ext A) e p n x (map_option af_sha256 old)) (stopped (px_ext A) e p n x old)"
proof -
  let ?X = "px_ext A" and ?P = "prepared A e p n x old" and ?E = "stopped (px_ext A) e p n x old"
  let ?Z = "version_in_place ?X e p n x (map_option af_sha256 old)"
  let ?S = "\<lambda>same. same \<longrightarrow> (\<exists>i. content_at ?X e i x)"
  let ?look = "\<lambda>y. (case y of None \<Rightarrow> retn False
       | Some (Regular i c) \<Rightarrow> bindo (open_regular A (p @ [n])) (\<lambda>b. bindo (digest_of A b) (\<lambda>d. retn (d = (de_sha256 e, de_size e))))
       | Some _ \<Rightarrow> fails (Bail ''Target is a symlink, directory or special file.''))"
  have pe: "?P s \<Longrightarrow> ?E s" for s :: "'a projection" by (rule prepared_stopped)
  have read: "hoare ?P (bindo (open_regular A (p @ [n])) (\<lambda>b. bindo (digest_of A b) (\<lambda>d. retn (d = (de_sha256 e, de_size e)))))
      (\<lambda>same s. ?P s \<and> ?S same) ?E"
    by (rule hoare_bindo [OF hoare_open_regular hoare_bindo [OF hoare_digest hoare_retn]])
      (use pe in \<open>auto simp: prepared_def intact_def content_at_def stable_def same_disk_def ledger_at_def\<close>)
  have look: "hoare (\<lambda>s. ?P s \<and> y = map_of (pj_tree s) (p @ [n])) (?look y) (\<lambda>same s. ?P s \<and> ?S same) ?E" for y
    by (rule hoare_strengthen [where P = ?P])
      (use pe in \<open>auto intro!: read hoare_retn hoare_fails split: option.split item.split\<close>)
  have same: "hoare (\<lambda>s. ?P s \<and> ?S True) (adopt_file A e) (\<lambda>_. ?Z) ?E"
  proof (rule hoare_pre_imp [where c = "\<exists>i. content_at ?X e i x"])
    assume "\<exists>i. content_at ?X e i x"
    then obtain i where "content_at ?X e i x" by blast
    have "hoare ?P (adopt_file A e) (\<lambda>_. ?Z) ?E"
      by (rule hoare_weaken [OF hoare_adopt [OF \<open>content_at ?X e i x\<close>]]) (auto simp: stopped_def)
    then show "hoare (\<lambda>s. ?P s \<and> ?S True) (adopt_file A e) (\<lambda>_. ?Z) ?E" by (rule hoare_strengthen) simp
  qed simp
  have fresh: "hoare ?P (bindo (stage_file A e a p) (\<lambda>_. bindo (recover A) (\<lambda>_.
      bindo (file_record (de_path e)) (\<lambda>f. lifto (of_option ''no entry found for key'' f))))) (\<lambda>_. ?Z) ?E" if "safe_component n"
    by (rule hoare_bindo [OF hoare_stage_file [OF that] hoare_bindo [OF hoare_recover_pending [OF assms]
          hoare_bindo [OF hoare_calm hoare_calm]]])
      (auto intro: calm simp: stopped_def resolved_def)
  have go: "hoare (\<lambda>s. ?P s \<and> r = (p, n) \<and> safe_component n)
      (case r of (p, name) \<Rightarrow> bindo (stat_optional A (p @ [name])) (\<lambda>x.
         bindo (case x of None \<Rightarrow> retn False
           | Some (Regular i c) \<Rightarrow> bindo (open_regular A (p @ [name])) (\<lambda>b. bindo (digest_of A b) (\<lambda>d. retn (d = (de_sha256 e, de_size e))))
           | Some _ \<Rightarrow> fails (Bail ''Target is a symlink, directory or special file.'')) (\<lambda>same.
         if same then adopt_file A e
         else bindo (stage_file A e a p) (\<lambda>_. bindo (recover A) (\<lambda>_.
           bindo (file_record (de_path e)) (\<lambda>f. lifto (of_option ''no entry found for key'' f))))))) (\<lambda>_. ?Z) ?E" for r
  proof (rule hoare_pre_imp [where c = "r = (p, n) \<and> safe_component n"])
    assume r: "r = (p, n) \<and> safe_component n"
    have fin: "hoare (\<lambda>s. ?P s \<and> ?S same) (if same then adopt_file A e
         else bindo (stage_file A e a p) (\<lambda>_. bindo (recover A) (\<lambda>_.
           bindo (file_record (de_path e)) (\<lambda>f. lifto (of_option ''no entry found for key'' f))))) (\<lambda>_. ?Z) ?E" for same
      using same hoare_strengthen [OF fresh, of "\<lambda>s. ?P s \<and> ?S same"] r by (cases same) auto
    have "hoare ?P (bindo (stat_optional A (p @ [n])) (\<lambda>x. bindo (?look x) (\<lambda>same.
         if same then adopt_file A e
         else bindo (stage_file A e a p) (\<lambda>_. bindo (recover A) (\<lambda>_.
           bindo (file_record (de_path e)) (\<lambda>f. lifto (of_option ''no entry found for key'' f))))))) (\<lambda>_. ?Z) ?E"
      by (rule hoare_bindo [OF hoare_stat hoare_bindo [OF look fin]]) (use pe in auto)
    then show ?thesis using r by (auto elim: hoare_strengthen)
  qed auto
  show ?thesis
    unfolding place_version_def
    by (rule hoare_bindo [OF hoare_weaken [OF hoare_root_parent_create [OF assms refl]] go]) (use pe in auto)
qed

lemma hoare_apply:
  assumes "p @ [n] = split_on slash (de_path e)"
  shows "hoare (prepared A e p n x old) (apply_version A e es)
     (\<lambda>_ s. if up_to_date e old then intact (de_path e) p n x old s
        else version_in_place (px_ext A) e p n x (map_option af_sha256 old) s) (stopped (px_ext A) e p n x old)"
proof -
  let ?P = "prepared A e p n x old" and ?E = "stopped (px_ext A) e p n x old"
  let ?Q = "\<lambda>s :: 'a projection. if up_to_date e old then intact (de_path e) p n x old s
        else version_in_place (px_ext A) e p n x (map_option af_sha256 old) s"
  have pe: "?P s \<Longrightarrow> ?E s" for s :: "'a projection" by (rule prepared_stopped)
  have idle: "hoare (\<lambda>s. ?P s \<and> (case d of None \<Rightarrow> pj_journal_file s = Missing | Some j \<Rightarrow> pj_journal_file s = Saved j))
      (case d of None \<Rightarrow> retn () | Some j \<Rightarrow> recover_journal A j) (\<lambda>_. ?P) ?E" for d
  proof (cases d)
    case None
    then show ?thesis by (auto intro: hoare_retn)
  next
    case (Some j)
    have "\<not> (?P s \<and> pj_journal_file s = Saved j)" for s :: "'a projection" by (auto simp: prepared_def intact_def)
    then show ?thesis unfolding Some by (auto intro: hoare_never)
  qed
  have recover: "hoare ?P (recover A) (\<lambda>_. ?P) ?E"
    unfolding recover_def by (rule hoare_bindo [OF hoare_load idle]) (use pe in auto)
  have receive: "hoare ?P (on_objects m) (\<lambda>_. ?P) ?E" for m :: "(dir, stored_asset) op"
    by (rule hoareI) (use pe in \<open>auto simp: on_objects_def prepared_def intact_def ledger_at_def stopped_def resolved_def
      split: prod.splits\<close>)
  have fin: "hoare (\<lambda>s. ?P s \<and> previous = map_of (rl_files (pj_ledger s)) (de_path e))
      (if (case previous of None \<Rightarrow> False | Some f \<Rightarrow> af_version f \<ge> de_version e)
       then lifto (of_option ''no entry found for key'' previous)
       else bindo (readso (\<lambda>s. ensure (previous \<noteq> None \<or> length (rl_files (pj_ledger s)) < MAX_ENTRIES)
         ''Directory file limit reached.'')) (\<lambda>_.
         bindo (on_objects (receive (px_ext A) (entry_delivery e) es DIR_MAX_FILE)) (place_version A e))) (\<lambda>_. ?Q) ?E" for previous
  proof (rule hoare_pre_imp)
    show "previous = old" if "?P s \<and> previous = map_of (rl_files (pj_ledger s)) (de_path e)" for s :: "'a projection"
      using that by (simp add: prepared_def)
    assume o: "previous = old"
    note place = hoare_place_version [OF assms, where A = A and x = x and old = old]
    have "hoare ?P (bindo (readso (\<lambda>s. ensure (previous \<noteq> None \<or> length (rl_files (pj_ledger s)) < MAX_ENTRIES)
         ''Directory file limit reached.'')) (\<lambda>_.
         bindo (on_objects (receive (px_ext A) (entry_delivery e) es DIR_MAX_FILE)) (place_version A e)))
         (\<lambda>_. version_in_place (px_ext A) e p n x (map_option af_sha256 old)) ?E"
      by (rule hoare_bindo [OF hoare_calm hoare_bindo [OF receive place]]) (use pe in \<open>auto intro: calm\<close>)
    note new = this
    have "hoare ?P (lifto (of_option ''no entry found for key'' previous)) (\<lambda>_. intact (de_path e) p n x old) ?E"
      by (rule hoare_weaken [OF hoare_lifto]) (use pe in \<open>auto simp: prepared_def\<close>)
    note keep = this
    show ?thesis
      unfolding o up_to_date_def [symmetric]
      by (rule hoare_if) (use keep new in \<open>auto simp: o elim!: hoare_strengthen\<close>)
  qed
  have known: "hoare (\<lambda>s. ?P s \<and> previous = map_of (rl_files (pj_ledger s)) (de_path e)) (lifto r)
      (\<lambda>_ s. ?P s \<and> previous = map_of (rl_files (pj_ledger s)) (de_path e)) ?E" for previous and r :: "unit res"
    by (rule hoare_weaken [OF hoare_lifto]) (use pe in auto)
  show ?thesis
    unfolding apply_version_def
    by (rule hoare_bindo [OF hoare_calm hoare_bindo [OF recover hoare_bindo [OF hoare_file_record hoare_bindo [OF known fin]]]])
      (use pe in \<open>auto intro: calm\<close>)
qed

section \<open>Opening again\<close>

text \<open>Any number of attempts to open the receiver, each in a world of its own.\<close>

inductive reopened :: "externals \<Rightarrow> 'w projection \<Rightarrow> 'w projection \<Rightarrow> bool" for X where
  reopened_stop: "reopened X s s"
| reopened_open:
    "reopened X s t \<Longrightarrow> px_ext A = X \<Longrightarrow> snd (receiver_open A root state scope (t\<lparr>pj_world := w\<rparr>)) = u \<Longrightarrow> reopened X s u"

lemma hoare_open:
  assumes "p @ [n] = split_on slash (de_path e)"
  shows "hoare (stopped (px_ext A) e p n x old) (receiver_open A root state scope)
     (\<lambda>_. resolved (px_ext A) e p n x old) (stopped (px_ext A) e p n x old)"
proof -
  let ?P = "stopped (px_ext A) e p n x old :: 'a projection \<Rightarrow> bool"
  have saved: "?P s \<Longrightarrow> \<exists>l. pj_ledger_file s = Saved l" for s :: "'a projection"
    by (auto simp: stopped_def resolved_def underway_def intact_def version_in_place_def recovering_def ledger_at_def
      split: document.splits)
  have same: "?P s \<Longrightarrow> pj_ledger_file s = Saved l \<Longrightarrow> ?P (s\<lparr>pj_ledger := l, pj_ledger_file := Saved l\<rparr>)"
    "?P s \<Longrightarrow> ?P (s\<lparr>pj_ledger := l\<rparr>)" for s :: "'a projection" and l
    by (auto simp: stopped_def resolved_def underway_def intact_def version_in_place_def recovering_def ledger_at_def)
  let ?K = "\<lambda>found s. ?P s \<and> (case found of None \<Rightarrow> pj_ledger_file s = Missing | Some l \<Rightarrow> pj_ledger_file s = Saved l)"
  have choose: "hoare (?K found)
      (case found of
         Some l \<Rightarrow> bindo (lifto (validate_ledger (px_ext A) l root i scope)) (\<lambda>_. retn l)
       | None \<Rightarrow> retn \<lparr>rl_schema_version = DIR_VERSION, rl_root = root, rl_identity = i, rl_scope = scope, rl_files = []\<rparr>)
      (\<lambda>l s. ?P s \<and> pj_ledger_file s = Saved l) ?P" for found i
  proof (cases found)
    case None
    show ?thesis unfolding None by (rule hoare_never) (use saved in fastforce)
  next
    case (Some l)
    have "hoare (?K (Some l)) (bindo (lifto (validate_ledger (px_ext A) l root i scope)) (\<lambda>_. retn l))
        (\<lambda>l s. ?P s \<and> pj_ledger_file s = Saved l) ?P"
      by (rule hoare_bindo [OF hoare_weaken [OF hoare_lifto] hoare_retn [where P = "?K (Some l)"]]) auto
    then show ?thesis by (simp add: Some)
  qed
  have assign: "hoare (\<lambda>s. ?P s \<and> pj_ledger_file s = Saved l) (modifyo (\<lambda>s. s\<lparr>pj_ledger := l\<rparr>))
      (\<lambda>_ s. ?P s \<and> pj_ledger_file s = Saved (pj_ledger s)) ?P" for l
    by (rule hoareI) (use same(2) in \<open>auto simp: op_defs\<close>)
  have save: "hoare (\<lambda>s. ?P s \<and> pj_ledger_file s = Saved (pj_ledger s)) (save_ledger A) (\<lambda>_. ?P) ?P"
  proof (rule hoare_save_ledger)
    fix s :: "'a projection" assume s: "?P s \<and> pj_ledger_file s = Saved (pj_ledger s)"
    then show "?P (s\<lparr>pj_ledger_file := Saved (pj_ledger s)\<rparr>)" using same(1) [of s "pj_ledger s"] by simp
  qed (auto simp: stable_def same_disk_def stopped_def resolved_def underway_def intact_def version_in_place_def
    recovering_def ledger_at_def)
  show ?thesis
    unfolding receiver_open_def
    by (rule hoare_bindo [OF hoare_calm hoare_bindo [OF hoare_calm hoare_bindo [OF hoare_calm hoare_bindo [OF hoare_load
          hoare_bindo [OF choose hoare_bindo [OF assign hoare_bindo [OF save hoare_recover [OF assms]]]]]]]])
      (auto intro: calm)
qed

lemma reopened_stopped:
  assumes "reopened X s t" and "stopped X e p n x old s" and "p @ [n] = split_on slash (de_path e)"
  shows "stopped X e p n x old t"
  using assms(1,2)
proof (induction rule: reopened.induct)
  case (reopened_open s t A root state scope w u)
  note h = hoare_open [OF assms(3), of A x old root state scope]
  have "stopped (px_ext A) e p n x old (t\<lparr>pj_ledger := pj_ledger t, pj_world := w\<rparr>)"
    using reopened_open by (intro stopped_reload) simp
  then have "stopped (px_ext A) e p n x old (t\<lparr>pj_world := w\<rparr>)" by simp
  from hoare_after [OF h this] have "stopped (px_ext A) e p n x old (snd (receiver_open A root state scope (t\<lparr>pj_world := w\<rparr>)))"
    by (auto simp: stopped_def)
  then show ?case using reopened_open by simp
qed

section \<open>What is promised\<close>

text \<open>
  C4. A new version is applied as a whole or not at all. Whatever call fails while it is applied,
  wherever the program stops and however many attempts to open the receiver fail afterwards: once
  the receiver is open again, either nothing has happened at the path, or the new version is there
  with the digest and the size that were announced, the ledger on disk says so, and what was there
  before lies beside it under the name that the ledger gives and is reported as a conflict unless
  it was what had been applied before.
\<close>

theorem apply_crash_safe:
  assumes "tree_ok (pj_tree s)" and "pj_journal_file s = Missing" and "pj_ledger_file s = Saved (pj_ledger s)"
    and "unnamed A p (pj_tree s)" and "p @ [n] = split_on slash (de_path e)"
    and "reopened (px_ext A) (snd (apply_version A e es s)) t" and "px_ext B = px_ext A"
    and "receiver_open B root state scope (t\<lparr>pj_world := w\<rparr>) = (Inr (), u)"
  shows "intact (de_path e) p n (map_of (pj_tree s) (p @ [n])) (map_of (rl_files (pj_ledger s)) (de_path e)) u
     \<or> version_in_place (px_ext A) e p n (map_of (pj_tree s) (p @ [n]))
         (map_option af_sha256 (map_of (rl_files (pj_ledger s)) (de_path e))) u"
proof -
  let ?x = "map_of (pj_tree s) (p @ [n])" and ?old = "map_of (rl_files (pj_ledger s)) (de_path e)"
  have "prepared A e p n ?x ?old s" using assms(1-4) by (simp add: prepared_def intact_def ledger_at_def)
  then have "stopped (px_ext A) e p n ?x ?old (snd (apply_version A e es s))"
    using hoare_apply [OF assms(5), of A ?x ?old es] unfolding hoare_def
    by (cases "apply_version A e es s"; cases "fst (apply_version A e es s)")
      (auto simp: stopped_def resolved_def split: if_splits)
  from reopened_stopped [OF assms(6) this assms(5)] have "stopped (px_ext A) e p n ?x ?old t" .
  from stopped_reload [OF this, where l = "pj_ledger t" and w = w] have "stopped (px_ext A) e p n ?x ?old (t\<lparr>pj_world := w\<rparr>)" by simp
  with hoare_open [OF assms(5), of B ?x ?old root state scope] assms(7,8) have "resolved (px_ext A) e p n ?x ?old u"
    unfolding hoare_def by metis
  then show ?thesis by (simp add: resolved_def)
qed

text \<open>
  A version that was applied without an error is in place, unless the ledger already had this
  version or a later one; then nothing was touched at its path.
\<close>

theorem apply_places:
  assumes "tree_ok (pj_tree s)" and "pj_journal_file s = Missing" and "pj_ledger_file s = Saved (pj_ledger s)"
    and "unnamed A p (pj_tree s)" and "p @ [n] = split_on slash (de_path e)"
    and "apply_version A e es s = (Inr f, t)"
  shows "if up_to_date e (map_of (rl_files (pj_ledger s)) (de_path e))
     then intact (de_path e) p n (map_of (pj_tree s) (p @ [n])) (map_of (rl_files (pj_ledger s)) (de_path e)) t
     else version_in_place (px_ext A) e p n (map_of (pj_tree s) (p @ [n]))
       (map_option af_sha256 (map_of (rl_files (pj_ledger s)) (de_path e))) t"
proof -
  let ?x = "map_of (pj_tree s) (p @ [n])" and ?old = "map_of (rl_files (pj_ledger s)) (de_path e)"
  have "prepared A e p n ?x ?old s" using assms(1-4) by (simp add: prepared_def intact_def ledger_at_def)
  from hoare_ok [OF hoare_apply [OF assms(5)] this assms(6)] show ?thesis .
qed

section \<open>A sample run\<close>

text \<open>The world counts the calls of the file system that still succeed.\<close>

definition sample_disk :: "nat projection_api" where
  "sample_disk = \<lparr>px_ext = sample_ext, px_permit = \<lambda>k. (0 < k, k - 1), px_partial = \<lambda>k. (3, k),
     px_write = \<lambda>k. (if 0 < k then Written else NotWritten, k - 1), px_uuid = \<lambda>k. (sample_id (CHR ''7''), k), px_now = \<lambda>k. (9, k),
     px_ledger_length = \<lambda>l. 0, px_journal_length = \<lambda>j. 0, px_inventory_id = \<lambda>es. sample_id (CHR ''8'')\<rparr>"

definition sample_reads :: "read_event list" where
  "sample_reads = List.map Chunk [take 5 sample_png, drop 5 sample_png]"

definition sample_ledger :: receiver_ledger where
  "sample_ledger = \<lparr>rl_schema_version = DIR_VERSION, rl_root = ''/d'', rl_identity = 1, rl_scope = ''f'', rl_files = []\<rparr>"

definition sample_projection :: "nat \<Rightarrow> nat projection" where
  "sample_projection k = \<lparr>pj_world = k, pj_tree = [([], Folder 1), ([''docs''], Folder 2), ([''docs'', ''a.png''], Regular 3 ''old'')],
     pj_objects = [(''89'', Dir [(object_name sample_sha ''png'', File sample_png)])],
     pj_ledger_file = Saved sample_ledger, pj_journal_file = Missing, pj_retired = False, pj_ledger = sample_ledger,
     pj_events = [], pj_receipts = []\<rparr>"

lemma disk_fields [simp]:
  "px_ext sample_disk = sample_ext" "px_permit sample_disk = (\<lambda>k. (0 < k, k - 1))" "px_partial sample_disk = (\<lambda>k. (3, k))"
  "px_write sample_disk = (\<lambda>k. (if 0 < k then Written else NotWritten, k - 1))"
  "px_uuid sample_disk = (\<lambda>k. (sample_id (CHR ''7''), k))" "px_now sample_disk = (\<lambda>k. (9, k))"
  "px_ledger_length sample_disk l = 0" "px_journal_length sample_disk j = 0"
  by (simp_all add: sample_disk_def)

lemma entry_fields [simp]:
  "de_path sample_entry = ''docs/a.png''" "de_version sample_entry = 3" "de_sha256 sample_entry = sample_sha"
  "de_size sample_entry = 12"
  by (simp_all add: sample_entry_def)

lemma sample_single: "single_entry sample_ext sample_entry = Inr ()"
  using sample_entry_valid
  by (simp add: single_entry_def validate_directory_state_def MAX_ENTRIES_def is_ok_iff)

lemma sample_split: "split_on slash ''docs/a.png'' = [''docs'', ''a.png'']"
  by simp

lemma sample_path_ok: "validate_path ''docs/a.png'' = Inr ()"
  by (simp add: valid_path_iff safe_component_def to_ascii_lowercase_def ascii_lower_char_def ascii_defs)

text \<open>The object was received before.\<close>

lemma sample_receive:
  "\<exists>d. receive sample_ext (entry_delivery sample_entry) sample_reads DIR_MAX_FILE (pj_objects (sample_projection k))
     = (Inr \<lparr>sa_path = (''89'', object_name sample_sha ''png''), sa_size = 12, sa_sha256 = sample_sha, sa_media_type = ''image/png''\<rparr>, d)
     \<and> obj_at d ''89'' (object_name sample_sha ''png'') = Some (File sample_png)"
proof -
  have n: "[] \<notin> set [take 5 sample_png, drop 5 sample_png]" by (simp add: sample_png_def)
  have c: "concat [take 5 sample_png, drop 5 sample_png] = sample_png" by simp
  have l: "inspectable DIR_MAX_FILE (Some 12) sample_png" "inspectable DIR_MAX_FILE None sample_png"
    by (simp_all add: inspectable_def sample_png_def u64_max_def DIR_MAX_FILE_def)
  have "copy_and_inspect sample_ext DIR_MAX_FILE (Some 12) sample_reads
      = Inr (\<lparr>in_size = 12, in_sha256 = sample_sha, in_media_type = ''image/png'', in_extension = ''png''\<rparr>, sample_png)"
    unfolding sample_reads_def copy_and_inspect_chunks [OF n] c by (simp add: l sample_inspection)
  moreover have "last_part slash ''docs/a.png'' = ''a.png''" by (simp add: last_part_def)
  moreover have "valid_metadata (entry_delivery sample_entry) DIR_MAX_FILE"
    using sample_entry_valid unfolding validate_entries_ok by simp
  moreover have "STAGING_DIR_NAME \<noteq> ''89''" by (simp add: STAGING_DIR_NAME_def)
  moreover have "inspect_bytes sample_ext DIR_MAX_FILE sample_png =
      Inr \<lparr>in_size = 12, in_sha256 = sample_sha, in_media_type = ''image/png'', in_extension = ''png''\<rparr>"
    using l by (simp add: inspect_bytes_Inr sample_inspection)
  moreover have "ensure_staging_directory [(''89'', Dir [(object_name sample_sha ''png'', File sample_png)])]
      = (Inr (), [(''89'', Dir [(object_name sample_sha ''png'', File sample_png)]),
           (STAGING_DIR_NAME, Dir [(STAGING_OWNER_FILE, File STAGING_OWNER_CONTENT)])])"
    by (simp add: ensure_staging_directory_def bindo_def ensure_child_directory_def claim_staging_def child_def STAGING_DIR_NAME_def)
  ultimately show ?thesis
    by (simp add: receive_def op_ok Let_def sample_projection_def valid_sha256_lower sample_shard entry_delivery_def sample_entry_def
        ensure_child_directory_def commit_object_def obj_at_def child_def put_obj_def target_exists_def
        inspect_file_def)
qed

lemmas disk_defs = bindo_def op_defs consult_def permitted_def looking_def stat_optional_def open_regular_def open_directory_def
  digest_of_def file_digest_def Let_def

definition incoming_name :: string where
  "incoming_name = ''.mirelay-incoming-'' @ sample_id (CHR ''7'')"

definition history_name :: string where
  "history_name = ''.mirelay-history-'' @ sample_id (CHR ''7'')"

definition sample_journal :: journal where
  "sample_journal = \<lparr>jr_entry = sample_entry, jr_stage = incoming_name, jr_history = history_name, jr_inode = 4,
     jr_parent = 2, jr_previous_sha = None\<rparr>"

lemma sample_names:
  "canonical_id sample_ext ''.mirelay-incoming-'' m incoming_name = Inr ()"
  "canonical_id sample_ext ''.mirelay-history-'' m history_name = Inr ()"
  "incoming_name \<noteq> ''a.png''" "history_name \<noteq> ''a.png''" "incoming_name \<noteq> history_name"
  by (simp_all add: canonical_id_def strip_prefix_def check_uuid_ok uuid_canonical_def ascii_defs andthen_Inr
    incoming_name_def history_name_def)

lemma sample_digests:
  "sha256_hex sample_ext ''old'' \<noteq> sample_sha" "sha256_hex sample_ext sample_png = sample_sha" "length sample_png = 12"
proof -
  show "sha256_hex sample_ext ''old'' \<noteq> sample_sha"
    by (simp add: sample_sha_eq sha256_hex_def sample_ext_def sample_hex_def hex_digit_def)
qed (simp_all add: sample_sha_def, simp add: sample_png_def)

lemma sample_small: "n \<le> 12 \<Longrightarrow> n \<le> DIR_MAX_FILE"
  by (simp add: DIR_MAX_FILE_def)

lemmas disk_calls = disk_defs recover_def load_document_def file_record_def root_parent_def make_directory_def is_folder_def
  in_directory_def edit_tree_def save_document_def check_parent_def commit_stage_def rename_noreplace_def
  rename_exchange_def is_plain_def recover_journal_def move_places_def swap_places_def relocate_def

text \<open>The program stops right after the two files have changed places.\<close>

lemma sample_crash:
  "\<exists>t. apply_version sample_disk sample_entry sample_reads (sample_projection 22) = (Inl (Bail ''input/output error''), t)
     \<and> pj_tree t = [([], Folder 1), ([''docs''], Folder 2), ([''docs'', incoming_name], Regular 3 ''old''),
         ([''docs'', ''a.png''], Regular 4 sample_png)]
     \<and> pj_journal_file t = Saved sample_journal \<and> pj_ledger_file t = Saved sample_ledger \<and> \<not> pj_retired t"
proof -
  obtain d where d: "receive sample_ext (entry_delivery sample_entry) sample_reads DIR_MAX_FILE (pj_objects (sample_projection 22))
     = (Inr \<lparr>sa_path = (''89'', object_name sample_sha ''png''), sa_size = 12, sa_sha256 = sample_sha, sa_media_type = ''image/png''\<rparr>, d)"
     "obj_at d ''89'' (object_name sample_sha ''png'') = Some (File sample_png)" using sample_receive by blast
  note d' = d(1) [unfolded sample_projection_def projection.simps]
  note n = sample_names [simplified incoming_name_def history_name_def]
  show ?thesis
    using sample_digests(1)
    by (simp add: apply_version_def sample_single disk_calls sample_projection_def sample_ledger_def
      MAX_ENTRIES_def on_objects_def d' place_version_def sample_path_ok stage_file_def create_file_def object_bytes_def d(2)
      write_file_def save_journal_def sample_small fresh_id_def sample_digests(2,3) MAX_BODY_def n(1,2) [simplified]
      sample_journal_def incoming_name_def history_name_def)
qed

lemma sample_reopen:
  assumes "pj_tree t = [([], Folder 1), ([''docs''], Folder 2), ([''docs'', incoming_name], Regular 3 ''old''),
         ([''docs'', ''a.png''], Regular 4 sample_png)]"
    and "pj_journal_file t = Saved sample_journal" and "pj_ledger_file t = Saved sample_ledger" and "\<not> pj_retired t"
  shows "\<exists>u. receiver_open sample_disk ''/d'' ''/s'' ''f'' (t\<lparr>pj_world := 100\<rparr>) = (Inr (), u)
     \<and> pj_tree u = [([], Folder 1), ([''docs''], Folder 2), ([''docs'', history_name], Regular 3 ''old''),
         ([''docs'', ''a.png''], Regular 4 sample_png)]"
proof -
  have "validate_ledger sample_ext sample_ledger ''/d'' 1 ''f'' = Inr ()"
    by (simp add: validate_ledger_def sample_ledger_def MAX_ENTRIES_def andthen_Inr)
  then show ?thesis
    using assms sample_digests(1) sample_names
    by (simp add: receiver_open_def disk_calls path_starts_with_def root_identity_def save_ledger_def MAX_BODY_def
      sample_journal_def sample_single sample_path_ok sample_small sample_digests(2,3) finish_recovery_def retain_replaced_def
      commit_proved_def conflict_of_def attempt_def record_applied_def remove_journal_def)
qed

lemma sample_prepared:
  "tree_ok (pj_tree (sample_projection k))" "pj_journal_file (sample_projection k) = Missing"
  "pj_ledger_file (sample_projection k) = Saved (pj_ledger (sample_projection k))"
  "unnamed sample_disk [''docs''] (pj_tree (sample_projection k))" "rl_files (pj_ledger (sample_projection k)) = []"
  "map_of (pj_tree (sample_projection k)) ([''docs''] @ [''a.png'']) = Some (Regular 3 ''old'')"
  "[''docs''] @ [''a.png''] = split_on slash (de_path sample_entry)"
  by (simp_all add: sample_projection_def tree_ok_def is_folder_def unnamed_def sample_ledger_def)

theorem apply_crash_safe_witness:
  "\<exists>t u. apply_version sample_disk sample_entry sample_reads (sample_projection 22) = (Inl (Bail ''input/output error''), t)
     \<and> receiver_open sample_disk ''/d'' ''/s'' ''f'' (t\<lparr>pj_world := 100\<rparr>) = (Inr (), u)
     \<and> version_in_place sample_ext sample_entry [''docs''] ''a.png'' (Some (Regular 3 ''old'')) None u"
proof -
  obtain t where t: "apply_version sample_disk sample_entry sample_reads (sample_projection 22) = (Inl (Bail ''input/output error''), t)"
      "pj_tree t = [([], Folder 1), ([''docs''], Folder 2), ([''docs'', incoming_name], Regular 3 ''old''),
         ([''docs'', ''a.png''], Regular 4 sample_png)]"
      "pj_journal_file t = Saved sample_journal" "pj_ledger_file t = Saved sample_ledger" "\<not> pj_retired t"
    using sample_crash by blast
  obtain u where u: "receiver_open sample_disk ''/d'' ''/s'' ''f'' (t\<lparr>pj_world := 100\<rparr>) = (Inr (), u)"
      "pj_tree u = [([], Folder 1), ([''docs''], Folder 2), ([''docs'', history_name], Regular 3 ''old''),
         ([''docs'', ''a.png''], Regular 4 sample_png)]"
    using sample_reopen [OF t(2-5)] by blast
  have r: "reopened (px_ext sample_disk) (snd (apply_version sample_disk sample_entry sample_reads (sample_projection 22))) t"
    by (simp add: t(1) reopened_stop)
  from apply_crash_safe [OF sample_prepared(1-4,7) r refl u(1)]
  have "version_in_place sample_ext sample_entry [''docs''] ''a.png'' (Some (Regular 3 ''old'')) None u"
    using u(2) sample_prepared(5,6) sample_names(4) [symmetric] by (auto simp: intact_def)
  with t(1) u(1) show ?thesis by blast
qed

lemma sample_applies:
  "\<exists>f t. apply_version sample_disk sample_entry sample_reads (sample_projection 100) = (Inr f, t)"
proof -
  obtain d where d: "receive sample_ext (entry_delivery sample_entry) sample_reads DIR_MAX_FILE (pj_objects (sample_projection 100))
     = (Inr \<lparr>sa_path = (''89'', object_name sample_sha ''png''), sa_size = 12, sa_sha256 = sample_sha, sa_media_type = ''image/png''\<rparr>, d)"
     "obj_at d ''89'' (object_name sample_sha ''png'') = Some (File sample_png)" using sample_receive by blast
  note d' = d(1) [unfolded sample_projection_def projection.simps]
  note n = sample_names [simplified incoming_name_def history_name_def]
  show ?thesis
    using sample_digests(1)
    by (simp add: apply_version_def sample_single disk_calls sample_projection_def sample_ledger_def
      MAX_ENTRIES_def on_objects_def d' place_version_def sample_path_ok stage_file_def create_file_def object_bytes_def d(2)
      write_file_def save_journal_def sample_small fresh_id_def sample_digests(2,3) MAX_BODY_def n(1,2) [simplified]
      finish_recovery_def retain_replaced_def commit_proved_def conflict_of_def attempt_def record_applied_def remove_journal_def
      save_ledger_def)
qed

theorem apply_places_witness:
  "\<exists>f t. apply_version sample_disk sample_entry sample_reads (sample_projection 100) = (Inr f, t)
     \<and> version_in_place sample_ext sample_entry [''docs''] ''a.png'' (Some (Regular 3 ''old'')) None t"
proof -
  obtain f t where t: "apply_version sample_disk sample_entry sample_reads (sample_projection 100) = (Inr f, t)"
    using sample_applies by blast
  from apply_places [OF sample_prepared(1-4,7) this] have "version_in_place sample_ext sample_entry [''docs''] ''a.png''
      (Some (Regular 3 ''old'')) None t"
    by (simp add: sample_prepared(5,6) [simplified] up_to_date_def)
  with t show ?thesis by blast
qed

end
