(* ===== verification/Retaining.thy ===== *)
theory Retaining
  imports Replacing
begin

text \<open>
  No run of the receiver loses a file, and no receipt is sent for what is not saved and in place.
  Both hold from every state, with every failure, and for any number of runs.
\<close>

section \<open>Steps that keep the items\<close>

definition items :: "tree \<Rightarrow> item set" where
  "items t = snd ` set t"

text \<open>
  What a receipt vouches for: the ledger on disk has the version, and the file at the path has its
  digest.
\<close>

definition honest :: "externals \<Rightarrow> directory_ack \<times> receiver_ledger document \<times> tree \<Rightarrow> bool" where
  "honest X r \<longleftrightarrow>
     (case r of (ack, doc, t) \<Rightarrow>
        (\<exists>l f. doc = Saved l \<and> map_of (rl_files l) (da_path ack) = Some f \<and> af_version f = da_version ack
           \<and> af_sha256 f = da_sha256 ack \<and> af_conflict f = da_conflict ack)
        \<and> (\<exists>i b. map_of t (split_on slash (da_path ack)) = Some (Regular i b) \<and> sha256_hex X b = da_sha256 ack))"

definition onward :: "externals \<Rightarrow> 'w projection \<Rightarrow> 'w projection \<Rightarrow> bool" where
  "onward X s t \<longleftrightarrow> items (pj_tree s) \<subseteq> items (pj_tree t) \<and> (tree_ok (pj_tree s) \<longrightarrow> tree_ok (pj_tree t))
     \<and> (\<exists>rs. pj_receipts t = pj_receipts s @ rs \<and> (\<forall>r \<in> set rs. honest X r))"

lemma onward_refl [simp]: "onward X s s"
  by (simp add: onward_def)

lemma onward_trans: "onward X s t \<Longrightarrow> onward X t u \<Longrightarrow> onward X s u"
  unfolding onward_def by (auto simp: ball_Un)

named_theorems keeps \<open>operations that keep every item and send honest receipts\<close>

lemma keeps_calm: "moves same_disk m \<Longrightarrow> moves (onward X) m"
  by (fastforce simp: moves_def same_disk_def onward_def)

lemmas keeps_calls [keeps] = calm_atoms [THEN keeps_calm] calm_calls [THEN keeps_calm] calm_root_parent [THEN keeps_calm]

lemma keeps_bindo [keeps]: "moves (onward X) m \<Longrightarrow> (\<And>x. moves (onward X) (f x)) \<Longrightarrow> moves (onward X) (bindo m f)"
  by (rule moves_bindo) (auto intro: onward_trans)

lemma keeps_cases [keeps]:
  "moves (onward X) m \<Longrightarrow> moves (onward X) n \<Longrightarrow> moves (onward X) (if c then m else n)"
  "moves (onward X) m \<Longrightarrow> (\<And>x. moves (onward X) (f x)) \<Longrightarrow> moves (onward X) (case v of None \<Rightarrow> m | Some x \<Rightarrow> f x)"
  "(\<And>i b. moves (onward X) (g i b)) \<Longrightarrow> (\<And>i. moves (onward X) (h i)) \<Longrightarrow> (\<And>i. moves (onward X) (k i)) \<Longrightarrow>
     moves (onward X) (case y of Regular i b \<Rightarrow> g i b | Folder i \<Rightarrow> h i | Special i \<Rightarrow> k i)"
  "(\<And>a b. moves (onward X) (p a b)) \<Longrightarrow> moves (onward X) (case z of (a, b) \<Rightarrow> p a b)"
  "(\<And>e. moves (onward X) (l e)) \<Longrightarrow> (\<And>a. moves (onward X) (r a)) \<Longrightarrow> moves (onward X) (case w of Inl e \<Rightarrow> l e | Inr a \<Rightarrow> r a)"
  "moves (onward X) w1 \<Longrightarrow> moves (onward X) w2 \<Longrightarrow> moves (onward X) w3 \<Longrightarrow>
     moves (onward X) (case q of Written \<Rightarrow> w1 | WrittenNotSynced \<Rightarrow> w2 | NotWritten \<Rightarrow> w3)"
  by (simp_all split: option.split item.split prod.split sum.split write_outcome.split)

lemma keeps_attempt [keeps]: "moves (onward X) m \<Longrightarrow> moves (onward X) (attempt m)"
  by (auto simp: moves_def attempt_def split: prod.splits) (metis snd_conv)

lemma keeps_modify [keeps]:
  "(\<And>s. pj_tree (f s) = pj_tree s \<and> pj_receipts (f s) = pj_receipts s) \<Longrightarrow> moves (onward X) (modifyo f)"
  by (auto simp: moves_def op_defs onward_def)

lemma keeps_objects [keeps]: "moves (onward X) (on_objects m)"
  by (auto simp: moves_def on_objects_def onward_def split: prod.splits)

lemma items_move [simp]: "items (move_places f t) = items t"
  by (force simp: move_places_def items_def)

text \<open>A new item is added at a free place; only the file created there is written.\<close>

definition has_items :: "item set \<Rightarrow> (directory_ack \<times> receiver_ledger document \<times> tree) list \<Rightarrow> bool \<Rightarrow> 'w projection \<Rightarrow> bool" where
  "has_items Y rs w s \<longleftrightarrow> Y \<subseteq> items (pj_tree s) \<and> pj_receipts s = rs \<and> (w \<longrightarrow> tree_ok (pj_tree s))"

definition holds :: "item set \<Rightarrow> (directory_ack \<times> receiver_ledger document \<times> tree) list \<Rightarrow> bool \<Rightarrow> place \<Rightarrow> 'w projection \<Rightarrow> bool" where
  "holds Y rs w k s \<longleftrightarrow> Y \<subseteq> snd ` {x \<in> set (pj_tree s). fst x \<noteq> k} \<and> pj_receipts s = rs \<and> (w \<longrightarrow> tree_ok (pj_tree s))"

lemma stable_holds [intro, simp]: "stable same_disk (holds Y rs w k)" "stable same_disk (has_items Y rs w)"
  by (auto simp: stable_def same_disk_def holds_def has_items_def)

lemma others_stay: "{x \<in> set t. fst x \<noteq> k} \<subseteq> {x \<in> set (AList.update k y t). fst x \<noteq> k}"
  by (induction t) auto

lemma holds_update:
  assumes "holds Y rs w k s" and "tree_ok (pj_tree s) \<Longrightarrow> tree_ok (AList.update k y (pj_tree s))"
  shows "holds Y rs w k (s\<lparr>pj_tree := AList.update k y (pj_tree s)\<rparr>)"
  using assms others_stay [of "pj_tree s" k y] unfolding holds_def by simp (meson image_mono subset_trans)

lemma holds_create:
  assumes "holds Y rs w k s" and "map_of (pj_tree s) k = None" and "is_folder (map_of (pj_tree s) (butlast k))"
    and "item_id y = fresh_id (pj_tree s)"
  shows "holds Y rs w k (s\<lparr>pj_tree := AList.update k y (pj_tree s)\<rparr>)"
proof -
  have "k \<noteq> []" using assms(2,3) by (auto simp: is_folder_def)
  with assms show ?thesis by (intro holds_update tree_create(1))
qed

lemma holds_write:
  assumes "holds Y rs w k s \<and> filed k i s"
  shows "holds Y rs w k (s\<lparr>pj_tree := AList.update k (Regular i c) (pj_tree s)\<rparr>)
     \<and> filed k i (s\<lparr>pj_tree := AList.update k (Regular i c) (pj_tree s)\<rparr>)"
proof -
  from assms obtain b where "map_of (pj_tree s) k = Some (Regular i b)" by (auto simp: filed_def)
  then have "tree_ok (pj_tree s) \<Longrightarrow> tree_ok (AList.update k (Regular i c) (pj_tree s))" by (rule tree_write [rotated])
  with assms show ?thesis by (auto intro!: holds_update simp: filed_def update_conv')
qed

lemma holds_items: "holds Y rs w k s \<Longrightarrow> has_items Y rs w s"
  by (auto simp: holds_def has_items_def items_def)

lemma items_hold: "has_items Y rs w s \<Longrightarrow> map_of (pj_tree s) k = None \<Longrightarrow> holds Y rs w k s"
proof -
  assume a: "has_items Y rs w s" "map_of (pj_tree s) k = None"
  then have "{x \<in> set (pj_tree s). fst x \<noteq> k} = set (pj_tree s)" by (force simp: map_of_eq_None_iff)
  with a show ?thesis by (simp add: holds_def has_items_def items_def)
qed

lemma keeps_hoare:
  assumes "\<And>Y rs w. hoare (has_items Y rs w) m (\<lambda>_. has_items Y rs w) (has_items Y rs w)"
  shows "moves (onward X) m"
proof -
  have "onward X s (snd (m s))" for s
    using hoare_after [OF assms, of "items (pj_tree s)" "pj_receipts s" "tree_ok (pj_tree s)" s]
    by (auto simp: onward_def has_items_def)
  then show ?thesis by (simp add: moves_def)
qed

text \<open>Renames happen within a directory, and never to a place that is taken.\<close>

lemma keeps_renames [keeps]:
  "moves (onward X) (rename_noreplace A (p @ [a]) (p @ [b]))" "moves (onward X) (rename_exchange A (p @ [a]) (p @ [b]))"
proof -
  let ?p = "p @ [a]" and ?q = "p @ [b]"
  have free: "tree_ok (move_places (relocate ?p ?q) t)"
    if "tree_ok t" "map_of t ?p = Some x" "map_of t ?q = None" for t x
    using tree_relocate(1) [OF that] that(2,3) by (cases "a = b") auto
  have both: "tree_ok (move_places (swap_places ?p ?q) t)"
    if "tree_ok t" "map_of t ?p = Some x" "map_of t ?q = Some y" for t x y
  proof (cases "a = b")
    case True
    have "swap_places ?p ?p k = k" for k by (auto simp: swap_places_def relocate_def prefix_def)
    then have "move_places (swap_places ?p ?q) t = t" using True by (simp add: move_places_def)
    with that show ?thesis by simp
  qed (use tree_exchange(1) [OF that] in simp)
  show "moves (onward X) (rename_noreplace A ?p ?q)"
    by (rule keeps_hoare, rule hoare_rename) (auto simp: has_items_def free)
  show "moves (onward X) (rename_exchange A ?p ?q)"
    by (rule keeps_hoare, rule hoare_exchange) (auto simp: has_items_def both)
qed

lemma keeps_make_directory [keeps]: "moves (onward X) (make_directory A p)"
proof (rule keeps_hoare)
  fix Y rs w
  let ?P = "has_items Y rs w :: 'a projection \<Rightarrow> bool"
  let ?H = "\<lambda>s :: 'a projection. holds Y rs w p s \<and> map_of (pj_tree s) p = None"
  have st: "stable same_disk ?H" by (auto simp: stable_def same_disk_def holds_def)
  have edit: "hoare (\<lambda>s. ?H s \<and> is_folder (map_of (pj_tree s) (butlast p)))
      (edit_tree (\<lambda>t. AList.update p (Folder (fresh_id t)) t)) (\<lambda>_. ?P) ?P"
    by (rule hoare_edit_tree) (auto intro!: holds_items [OF holds_create])
  have new: "hoare ?H
      (bindo (in_directory p) (\<lambda>_. bindo (edit_tree (\<lambda>t. AList.update p (Folder (fresh_id t)) t)) (\<lambda>_. permitted A)))
      (\<lambda>_. ?P) ?P"
    unfolding in_directory_def bindo_assoc
    by (rule hoare_bindo [OF hoare_looking hoare_bindo [OF hoare_ensure hoare_bindo [OF hoare_strengthen [OF edit]]]])
      (use st in \<open>auto intro: holds_items hoare_permitted\<close>)
  have "hoare (\<lambda>s. ?P s \<and> x = map_of (pj_tree s) p)
      (case x of Some _ \<Rightarrow> retn () | None \<Rightarrow> bindo (in_directory p)
        (\<lambda>_. bindo (edit_tree (\<lambda>t. AList.update p (Folder (fresh_id t)) t)) (\<lambda>_. permitted A))) (\<lambda>_. ?P) ?P" for x
    by (cases x) (auto intro!: hoare_retn hoare_strengthen [OF new] items_hold simp: eq_commute [of None])
  note go = this
  show "hoare ?P (make_directory A p) (\<lambda>_. ?P) ?P"
    unfolding make_directory_def by (rule hoare_bindo [OF hoare_permitted hoare_bindo [OF hoare_looking go]]) auto
qed

lemma keeps_enter [keeps]: "moves (onward X) (enter A create p ns)"
  by (induction ns arbitrary: p) (auto intro!: keeps)

lemma keeps_parent [keeps]: "moves (onward X) (root_parent A path create)"
  unfolding root_parent_def by (intro keeps)

lemma keeps_documents [keeps]:
  "moves (onward X) (save_ledger A)" "moves (onward X) (save_journal A j)" "moves (onward X) (remove_journal A)"
  "moves (onward X) (record_applied path f)"
  unfolding save_ledger_def save_journal_def save_document_def remove_journal_def record_applied_def
  by (intro keeps; simp)+

lemma keeps_recover [keeps]: "moves (onward X) (recover A)"
  unfolding recover_def recover_journal_def commit_stage_def retain_replaced_def finish_recovery_def by (intro keeps)

lemma keeps_stage_file [keeps]: "moves (onward X) (stage_file A e a p)"
proof (rule keeps_hoare)
  fix Y rs w
  let ?P = "has_items Y rs w :: 'a projection \<Rightarrow> bool"
  have save: "hoare ?P (save_journal A j) (\<lambda>_. ?P) ?P" for j
    unfolding save_journal_def by (rule hoare_save) (auto simp: has_items_def)
  have rest: "hoare ?P (bindo (create_file A k) (\<lambda>i. bindo (object_bytes A a) (\<lambda>b. bindo (write_file A k i b) (\<lambda>_.
       bindo (permitted A) (\<lambda>_. bindo (permitted A) (\<lambda>_. bindo (stat_optional A p) (\<lambda>x.
       bindo (lifto (of_option msg (map_option item_id x))) (\<lambda>parent. bindo (consult (px_uuid A)) (\<lambda>v.
       bindo (file_record path) (\<lambda>previous. save_journal A (f i parent v previous))))))))))) (\<lambda>_. ?P) ?P" for k msg path f
  proof -
    let ?F = "\<lambda>i s :: 'a projection. holds Y rs w k s \<and> filed k i s"
    have create: "hoare ?P (create_file A k) ?F ?P"
      by (rule hoare_create_file) (auto intro: holds_create items_hold simp: filed_def update_conv')
    have "hoare (?F i) (write_file A k i b) (\<lambda>_. ?F i) ?P" for i b
    proof (rule hoare_write_file)
      show "?F i (s\<lparr>pj_tree := AList.update k (Regular i c) (pj_tree s)\<rparr>)" if "?F i s" for s c
        using that by (rule holds_write)
    qed (auto intro: holds_items)
    then have fill: "hoare (?F i) (write_file A k i b) (\<lambda>_. ?P) ?P" for i b
      by (rule hoare_weaken) (auto intro: holds_items)
    show ?thesis
      by (rule hoare_bindo [OF create hoare_bindo [OF hoare_calm hoare_bindo [OF fill hoare_bindo [OF hoare_calm
            hoare_bindo [OF hoare_calm hoare_bindo [OF hoare_calm hoare_bindo [OF hoare_calm hoare_bindo [OF hoare_calm
            hoare_bindo [OF hoare_calm save]]]]]]]]])
        (auto intro: calm holds_items)
  qed
  show "hoare ?P (stage_file A e a p) (\<lambda>_. ?P) ?P"
    unfolding stage_file_def Let_def by (rule hoare_bindo [OF hoare_calm rest]) (auto intro: calm)
qed

lemma keeps_apply [keeps]: "moves (onward X) (apply_version A e es)"
  unfolding apply_version_def place_version_def adopt_file_def Let_def by (intro keeps)

lemma keeps_fetch [keeps]: "moves (onward X) (fetch_version A S e fuel failures)"
  by (induction fuel arbitrary: failures) (auto intro!: keeps)

lemma keeps_open: "moves (onward X) (receiver_open A root state scope)"
  unfolding receiver_open_def by (intro keeps) simp_all

section \<open>Receipts\<close>

lemma keeps_mark [keeps]: "moves (onward X) (mark_applied path)"
  unfolding mark_applied_def by (intro keeps)

lemma keeps_adopt_receipt [keeps]: "moves (onward X) (adopt_receipt A e)"
  unfolding adopt_receipt_def by (intro keeps)

text \<open>The version is recorded and its file was read; then the ledger is saved.\<close>

definition checked :: "externals \<Rightarrow> 'w projection \<Rightarrow> string \<Rightarrow> applied_file \<Rightarrow> 'w projection \<Rightarrow> bool" where
  "checked X s path f t \<longleftrightarrow> onward X s t \<and> map_of (rl_files (pj_ledger t)) path = Some f
     \<and> (\<exists>i b. map_of (pj_tree t) (split_on slash path) = Some (Regular i b) \<and> sha256_hex X b = af_sha256 f)"

lemma stable_onward [intro, simp]: "stable same_disk (onward X s)" "stable (onward X) (onward X s)"
  "stable same_disk (checked X s path f)"
  by (auto simp: stable_def same_disk_def onward_def checked_def intro: onward_trans)

lemma hoare_send:
  assumes "da_path ack = path" and "da_version ack = af_version f" and "da_sha256 ack = af_sha256 f"
    and "da_conflict ack = af_conflict f"
  shows "hoare (\<lambda>t. checked X s path f t \<and> pj_ledger_file t = Saved (pj_ledger t)) (send_receipt C ack)
     (\<lambda>_. onward X s) (onward X s)"
proof -
  have send: "hoare (\<lambda>t. checked X s path f t \<and> pj_ledger_file t = Saved (pj_ledger t))
      (modifyo (\<lambda>s. s\<lparr>pj_receipts := pj_receipts s @ [(ack, pj_ledger_file s, pj_tree s)]\<rparr>)) (\<lambda>_. onward X s) (onward X s)"
    by (rule hoareI) (use assms in \<open>auto simp: op_defs checked_def onward_def honest_def\<close>)
  show ?thesis
    unfolding send_receipt_def by (rule hoare_bindo [OF send hoare_calm]) (auto intro: calm)
qed

lemma keeps_confirm [keeps]:
  assumes "px_ext A = X"
  shows "moves (onward X) (confirm_version A C e)"
proof -
  have "onward X s (snd (confirm_version A C e s))" for s :: "'a projection"
  proof -
    let ?P = "onward X s" and ?p = "de_path e"
    let ?F = "\<lambda>f t. ?P t \<and> map_of (rl_files (pj_ledger t)) ?p = Some f"
    have found: "hoare (\<lambda>t. ?P t \<and> g = map_of (rl_files (pj_ledger t)) ?p) (lifto (of_option msg g)) ?F ?P" for g msg
      by (rule hoare_weaken [OF hoare_lifto]) auto
    have st: "stable same_disk (?F f)" for f by (auto simp: stable_def same_disk_def onward_def)
    have same: "hoare (\<lambda>t. (((?F f t \<and> valid_path ?p \<and> fst r @ [snd r] = split_on slash ?p)
          \<and> (\<exists>i. map_of (pj_tree t) (fst r @ [snd r]) = Some (Regular i b))) \<and> d = (sha256_hex (px_ext A) b, length b)))
        (lifto (ensure (fst d = af_sha256 f) msg)) (\<lambda>_. checked X s ?p f) ?P" for f r b d msg
      by (rule hoare_weaken [OF hoare_ensure]) (use assms in \<open>auto simp: checked_def\<close>)
    have save: "hoare (checked X s ?p f) (save_ledger A) (\<lambda>_ t. checked X s ?p f t \<and> pj_ledger_file t = Saved (pj_ledger t)) ?P" for f
      by (rule hoare_save_ledger) (auto simp: checked_def onward_def)
    have after: "hoare ?P (bindo (mark_applied ?p) (\<lambda>_. bindo (save_ledger A) (\<lambda>_. announce_applied e))) (\<lambda>_. ?P) ?P"
      by (rule hoare_moves [where rel = "onward X"]) (auto intro: keeps)
    have fin: "hoare (\<lambda>t. checked X s ?p f t \<and> pj_ledger_file t = Saved (pj_ledger t))
        (bindo (announce (FileStarted e Confirming)) (\<lambda>_. bindo (send_receipt C \<lparr>da_path = ?p, da_version = af_version f,
          da_sha256 = af_sha256 f, da_conflict = af_conflict f\<rparr>) (\<lambda>_. bindo (mark_applied ?p)
          (\<lambda>_. bindo (save_ledger A) (\<lambda>_. announce_applied e))))) (\<lambda>_. ?P) ?P" for f
      by (rule hoare_bindo [OF hoare_calm hoare_bindo [OF hoare_send after]])
        (auto intro: calm simp: checked_def stable_def same_disk_def onward_def)
    have go: "hoare (\<lambda>t. ?F f t \<and> valid_path ?p \<and> fst r @ [snd r] = split_on slash ?p)
        (case r of (p, name) \<Rightarrow> bindo (open_regular A (p @ [name])) (\<lambda>b. bindo (digest_of A b) (\<lambda>d.
         bindo (lifto (ensure (fst d = af_sha256 f) ''Destination changed before its receipt.'')) (\<lambda>_.
         bindo (save_ledger A) (\<lambda>_. bindo (announce (FileStarted e Confirming)) (\<lambda>_.
         bindo (send_receipt C \<lparr>da_path = ?p, da_version = af_version f, da_sha256 = af_sha256 f,
           da_conflict = af_conflict f\<rparr>) (\<lambda>_. bindo (mark_applied ?p)
         (\<lambda>_. bindo (save_ledger A) (\<lambda>_. announce_applied e))))))))) (\<lambda>_. ?P) ?P" for f r
      unfolding prod.case_eq_if
      by (rule hoare_bindo [OF hoare_open_regular hoare_bindo [OF hoare_digest hoare_bindo [OF same hoare_bindo [OF save fin]]]])
        (use st in \<open>auto simp: stable_def same_disk_def\<close>)
    have "hoare ?P (confirm_version A C e) (\<lambda>_. ?P) ?P"
      unfolding confirm_version_def
      by (rule hoare_bindo [OF hoare_file_record hoare_bindo [OF found hoare_bindo [OF hoare_calm hoare_bindo [OF hoare_root_parent go]]]])
        (use st in \<open>auto intro: calm\<close>)
    from hoare_after [OF this onward_refl] show ?thesis by simp
  qed
  then show ?thesis by (simp add: moves_def)
qed

lemma keeps_versions [keeps]:
  assumes "px_ext A = X"
  shows "moves (onward X) (sync_versions A C S fuel es n)"
  by (induction es arbitrary: n) (auto intro!: keeps assms simp: sync_version_def)

lemma keeps_sync: "px_ext A = X \<Longrightarrow> moves (onward X) (directory_sync A C S fuel)"
  unfolding directory_sync_def by (intro keeps)

section \<open>Any number of runs\<close>

text \<open>Openings and synchronisations in any order, each in a world of its own.\<close>

inductive runs :: "externals \<Rightarrow> 'w projection \<Rightarrow> 'w projection \<Rightarrow> bool" for X where
  runs_none: "runs X s s"
| runs_open:
    "runs X s t \<Longrightarrow> px_ext A = X \<Longrightarrow> receiver_open A root state scope (t\<lparr>pj_world := w\<rparr>) = (r, u) \<Longrightarrow> runs X s u"
| runs_sync:
    "runs X s t \<Longrightarrow> px_ext A = X \<Longrightarrow> directory_sync A C S fuel (t\<lparr>pj_world := w\<rparr>) = (r, u) \<Longrightarrow> runs X s u"

lemma runs_onward: "runs X s t \<Longrightarrow> onward X s t"
proof (induction rule: runs.induct)
  case (runs_open s t A root state scope w r u)
  from movesD [OF keeps_open runs_open(3)] have "onward X (t\<lparr>pj_world := w\<rparr>) u" .
  then have "onward X t u" by (simp add: onward_def)
  with runs_open show ?case by (blast intro: onward_trans)
next
  case (runs_sync s t A C S fuel w r u)
  from movesD [OF keeps_sync [OF runs_sync(2)] runs_sync(3)] have "onward X (t\<lparr>pj_world := w\<rparr>) u" .
  then have "onward X t u" by (simp add: onward_def)
  with runs_sync show ?case by (blast intro: onward_trans)
qed simp

text \<open>
  C5. The receiver never loses a file. Whatever the server sends, whatever is in the state files
  and however many openings and synchronisations fail, every file that was in the directory is
  still found at some place with the same bytes; it may only have moved to another name. No place is
  taken twice, so no file hides another, and every place is below a directory that is there.
\<close>

theorem files_never_lost:
  assumes "runs X s t" and "tree_ok (pj_tree s)" and "map_of (pj_tree s) p = Some (Regular i b)"
  shows "tree_ok (pj_tree t) \<and> (\<exists>q. map_of (pj_tree t) q = Some (Regular i b))"
proof -
  have "Regular i b \<in> items (pj_tree s)" using map_of_SomeD [OF assms(3)] by (force simp: items_def)
  with runs_onward [OF assms(1)] assms(2) have t: "tree_ok (pj_tree t)" "Regular i b \<in> items (pj_tree t)"
    by (auto simp: onward_def)
  from t(2) obtain q where "(q, Regular i b) \<in> set (pj_tree t)" by (force simp: items_def)
  with t(1) show ?thesis by (auto simp: tree_ok_def intro: map_of_is_SomeI)
qed

text \<open>
  C6. A receipt is sent only for a version that the ledger on disk records with the same digest and
  the same conflict flag, and whose file, read just before, has that digest at its path.
\<close>

theorem receipt_after_save:
  assumes "runs X s t" and "pj_receipts s = []" and "(ack, doc, tr) \<in> set (pj_receipts t)"
  shows "\<exists>l f i b. doc = Saved l \<and> map_of (rl_files l) (da_path ack) = Some f \<and> af_version f = da_version ack
     \<and> af_sha256 f = da_sha256 ack \<and> af_conflict f = da_conflict ack
     \<and> map_of tr (split_on slash (da_path ack)) = Some (Regular i b) \<and> sha256_hex X b = da_sha256 ack"
proof -
  have "honest X (ack, doc, tr)" using runs_onward [OF assms(1)] assms(2,3) by (auto simp: onward_def)
  then show ?thesis by (auto simp: honest_def)
qed

section \<open>A sample run\<close>

definition sample_bridge :: "nat directory_client" where
  "sample_bridge = \<lparr>dc_state = \<lambda>w. (Inr \<lparr>ds_schema_version = DIR_VERSION, ds_receiver = None, ds_entries = [sample_entry]\<rparr>, w),
     dc_publish = \<lambda>u w. (Inr (iu_inventory u), w), dc_acknowledge = \<lambda>a w. (Inr (), w)\<rparr>"

definition sample_feed :: "nat delivery_source" where
  "sample_feed = \<lparr>scan_pending = \<lambda>mx w. (Inr \<lparr>sc_deliveries = [], sc_issues = []\<rparr>, w),
     open_payload = \<lambda>d w. (Inr sample_reads, w), acknowledge = \<lambda>i sha w. (Inr (), w), payload_retry_delay = no_retry\<rparr>"

lemma sample_services [simp]:
  "dc_state sample_bridge = (\<lambda>w. (Inr \<lparr>ds_schema_version = DIR_VERSION, ds_receiver = None, ds_entries = [sample_entry]\<rparr>, w))"
  "dc_acknowledge sample_bridge a = (\<lambda>w. (Inr (), w))" "open_payload sample_feed d = (\<lambda>w. (Inr sample_reads, w))"
  by (simp_all add: sample_bridge_def sample_feed_def)

definition sample_receipt :: directory_ack where
  "sample_receipt = \<lparr>da_path = ''docs/a.png'', da_version = 3, da_sha256 = sample_sha, da_conflict = True\<rparr>"

lemma sample_version_synced:
  "\<exists>n t l tr. sync_versions sample_disk sample_bridge sample_feed 1 [sample_entry] 0 (sample_projection 99) = (Inr n, t)
     \<and> pj_receipts t = [(sample_receipt, l, tr)]"
proof -
  obtain d where d: "receive sample_ext (entry_delivery sample_entry) sample_reads DIR_MAX_FILE (pj_objects (sample_projection 99))
     = (Inr \<lparr>sa_path = (''89'', object_name sample_sha ''png''), sa_size = 12, sa_sha256 = sample_sha, sa_media_type = ''image/png''\<rparr>, d)"
     "obj_at d ''89'' (object_name sample_sha ''png'') = Some (File sample_png)" using sample_receive by blast
  note d' = d(1) [unfolded sample_projection_def projection.simps]
  note n = sample_names [simplified incoming_name_def history_name_def]
  have u: "de_acknowledged sample_entry = False" "de_media_type sample_entry = ''image/png''" by (simp_all add: sample_entry_def)
  show ?thesis
    using sample_digests(1)
    by (simp add: sync_version_def u announce_def abroad_def confirm_version_def send_receipt_def mark_applied_def announce_applied_def
      apply_version_def sample_single disk_calls sample_projection_def sample_ledger_def applied_of_def bt_insert.simps
      MAX_ENTRIES_def on_objects_def d' place_version_def sample_path_ok stage_file_def create_file_def object_bytes_def d(2)
      write_file_def save_journal_def sample_small fresh_id_def sample_digests(2,3) MAX_BODY_def n(1,2) [simplified]
      finish_recovery_def retain_replaced_def commit_proved_def conflict_of_def attempt_def record_applied_def remove_journal_def
      save_ledger_def sample_receipt_def)
qed

lemma sample_directory_synced:
  "\<exists>r t l tr. directory_sync sample_disk sample_bridge sample_feed 1 (sample_projection 100) = (r, t)
     \<and> (sample_receipt, l, tr) \<in> set (pj_receipts t)"
proof -
  obtain n t l tr where t: "sync_versions sample_disk sample_bridge sample_feed 1 [sample_entry] 0 (sample_projection 99) = (Inr n, t)"
      "pj_receipts t = [(sample_receipt, l, tr)]" using sample_version_synced by blast
  let ?rest = "bindo (permitted sample_disk) (\<lambda>_. bindo (readso (\<lambda>s. root_inventory sample_disk (pj_tree s))) (\<lambda>v.
     bindo (abroad (dc_publish sample_bridge \<lparr>iu_previous_id = None, iu_inventory = v\<rparr>)) (\<lambda>_. retn n)))"
  have s: "recover sample_disk (sample_projection 100) = (Inr (), sample_projection 99)"
    by (simp add: disk_calls sample_projection_def)
  have a: "abroad (dc_state sample_bridge) (sample_projection 99)
      = (Inr \<lparr>ds_schema_version = DIR_VERSION, ds_receiver = None, ds_entries = [sample_entry]\<rparr>, sample_projection 99)"
    by (simp add: abroad_def sample_projection_def)
  have "directory_sync sample_disk sample_bridge sample_feed 1 (sample_projection 100) = ?rest t"
    by (simp add: directory_sync_def s a t(1) bindo_def [of "recover sample_disk"]
        bindo_def [of "abroad (dc_state sample_bridge)"] bindo_def [of "sync_versions sample_disk sample_bridge sample_feed 1 [sample_entry] 0"]
        del: sync_versions.simps sample_services One_nat_def)
  moreover have "moves same_disk ?rest" by (intro calm)
  then have "pj_receipts (snd (?rest t)) = pj_receipts t" by (simp add: moves_def same_disk_def)
  ultimately show ?thesis using t(2) by (metis list.set_intros(1) prod.collapse)
qed

theorem files_never_lost_witness:
  "\<exists>t q. runs sample_ext (sample_projection 100) t \<and> pj_receipts t \<noteq> [] \<and> map_of (pj_tree t) q = Some (Regular 3 ''old'')"
proof -
  obtain r t l tr where t: "directory_sync sample_disk sample_bridge sample_feed 1 (sample_projection 100) = (r, t)"
      "(sample_receipt, l, tr) \<in> set (pj_receipts t)" using sample_directory_synced by blast
  have "runs sample_ext (sample_projection 100) t"
    by (rule runs_sync [OF runs_none, where w = 100]) (use t(1) in \<open>simp_all add: sample_projection_def\<close>)
  moreover have "tree_ok (pj_tree (sample_projection 100))"
    by (auto simp: sample_projection_def tree_ok_def is_folder_def split: if_splits)
  moreover have "map_of (pj_tree (sample_projection 100)) [''docs'', ''a.png''] = Some (Regular 3 ''old'')"
    by (simp add: sample_projection_def)
  ultimately show ?thesis
    using files_never_lost [of sample_ext "sample_projection 100" t "[''docs'', ''a.png'']" 3 "''old''"] t(2) by auto
qed

theorem receipt_after_save_witness:
  "\<exists>t tr i b l f. runs sample_ext (sample_projection 100) t \<and> (sample_receipt, Saved l, tr) \<in> set (pj_receipts t)
     \<and> map_of (rl_files l) ''docs/a.png'' = Some f \<and> af_version f = 3 \<and> af_conflict f
     \<and> map_of tr [''docs'', ''a.png''] = Some (Regular i b) \<and> sha256_hex sample_ext b = sample_sha"
proof -
  obtain r t l tr where t: "directory_sync sample_disk sample_bridge sample_feed 1 (sample_projection 100) = (r, t)"
      "(sample_receipt, l, tr) \<in> set (pj_receipts t)" using sample_directory_synced by blast
  have r: "runs sample_ext (sample_projection 100) t"
    by (rule runs_sync [OF runs_none, where w = 100]) (use t(1) in \<open>simp_all add: sample_projection_def\<close>)
  have "pj_receipts (sample_projection 100) = []" by (simp add: sample_projection_def)
  from receipt_after_save [OF r this t(2)] obtain m f i b where "l = Saved m" "map_of (rl_files m) ''docs/a.png'' = Some f"
      "af_version f = 3" "af_conflict f" "map_of tr [''docs'', ''a.png''] = Some (Regular i b)" "sha256_hex sample_ext b = sample_sha"
    by (auto simp: sample_receipt_def)
  with r t(2) show ?thesis by blast
qed

end
