(* ===== verification/DirectorySender.thy ===== *)
theory DirectorySender
  imports TusClient Projection
begin

text \<open>
  The sending half of directory synchronisation, \<open>src/directory/sender.rs\<close>, with the commands of
  \<open>src/bin/mirelay-directory.rs\<close> that use it. A change is first copied to a job of its own, then
  recorded with a version, then uploaded by the client of \<open>TusClient\<close>, whose resume state belongs
  to the job. As in \<open>Projection\<close>, every call of the file system may fail and the tree of the user
  does not change during a call; the locks, with their file in the directory, are left out.
\<close>

section \<open>State\<close>

record preview =
  pv_source :: inventory
  pv_remote :: directory_state
  pv_comparison :: comparison

record staged_change =
  sc_id :: string
  sc_entry :: inventory_entry
  sc_version :: nat

record sender_ledger =
  sl_schema_version :: nat
  sl_root :: string
  sl_identity :: nat
  sl_scope :: string
  sl_initialized :: bool
  sl_next_version :: nat
  sl_files :: "(string \<times> string) list"
  sl_pending :: "staged_change list"

text \<open>A job's directory: the copy of the file and the resume state of its upload.\<close>

record job =
  jb_payload :: "bytes option"
  jb_resume :: saved_state

text \<open>
  The last three fields are history variables: the uploads begun, each with the bytes given to the
  client; the changes taken as delivered, with what the client returned as the id of the delivery;
  what was agreed on at the initialisation.
\<close>

record 'w outbox =
  ob_world :: 'w
  ob_tree :: tree
  ob_jobs :: "(string \<times> job) list"
  ob_ledger_file :: "sender_ledger document"
  ob_preview_file :: "preview document"
  ob_retired :: bool
  ob_ledger :: sender_ledger
  ob_begun :: "(staged_change \<times> bytes) list"
  ob_confirmed :: "(staged_change \<times> string option) list"
  ob_agreed :: "(inventory \<times> directory_state) option"

type_synonym ('w, 'a) outboxed = "('w outbox, 'a) op"

record 'w outbox_api =
  ox_disk :: "'w projection_api"
  ox_net :: "'w outside"
  ox_ledger_length :: "sender_ledger \<Rightarrow> nat"
  ox_preview_length :: "preview \<Rightarrow> nat"

definition query :: "('w \<Rightarrow> 'a \<times> 'w) \<Rightarrow> ('w, 'a) outboxed" where
  "query f s = (case f (ob_world s) of (x, w) \<Rightarrow> (Inr x, s\<lparr>ob_world := w\<rparr>))"

definition allowed :: "'w outbox_api \<Rightarrow> ('w, unit) outboxed" where
  "allowed A = bindo (query (px_permit (ox_disk A))) (\<lambda>ok. lifto (ensure ok ''input/output error''))"

definition edit_job :: "string \<Rightarrow> (job \<Rightarrow> job) \<Rightarrow> ('w, unit) outboxed" where
  "edit_job i f = modifyo (\<lambda>s. s\<lparr>ob_jobs :=
     (case map_of (ob_jobs s) i of None \<Rightarrow> ob_jobs s | Some j \<Rightarrow> AList.update i (f j) (ob_jobs s))\<rparr>)"

definition edit_ledger :: "(sender_ledger \<Rightarrow> sender_ledger) \<Rightarrow> ('w, unit) outboxed" where
  "edit_ledger f = modifyo (\<lambda>s. s\<lparr>ob_ledger := f (ob_ledger s)\<rparr>)"

definition load_file :: "'w outbox_api \<Rightarrow> ('w outbox \<Rightarrow> 'a document) \<Rightarrow> ('w, 'a option) outboxed" where
  "load_file A field =
     bindo (allowed A) (\<lambda>_.
     readso (\<lambda>s.
       case field s of
         Missing \<Rightarrow> Inr None
       | document.Saved d \<Rightarrow> Inr (Some d)
       | Broken \<Rightarrow> Inl (Bail ''failed to read or parse'')))"

definition save_file :: "'w outbox_api \<Rightarrow> nat \<Rightarrow> ('w outbox \<Rightarrow> 'w outbox) \<Rightarrow> ('w, unit) outboxed" where
  "save_file A len put =
     bindo (lifto (ensure (len \<le> MAX_BODY) ''Directory state limit exceeded.'')) (\<lambda>_.
     bindo (query (px_write (ox_disk A))) (\<lambda>w.
       case w of
         Written \<Rightarrow> modifyo put
       | WrittenNotSynced \<Rightarrow> bindo (modifyo put) (\<lambda>_. fails (Bail ''failed to persist''))
       | NotWritten \<Rightarrow> fails (Bail ''failed to persist'')))"

definition sender_save :: "'w outbox_api \<Rightarrow> ('w, unit) outboxed" where
  "sender_save A =
     bindo (readso (\<lambda>s. Inr (ob_ledger s))) (\<lambda>l.
     save_file A (ox_ledger_length A l) (\<lambda>s. s\<lparr>ob_ledger_file := document.Saved l\<rparr>))"

section \<open>Opening\<close>

definition check_change :: "externals \<Rightarrow> staged_change \<Rightarrow> unit res" where
  "check_change X p =
     andthen (check_uuid X ''Invalid staged job identity.'' (sc_id p)) (\<lambda>_.
     andthen (validate_version \<lparr>dv_path = ie_path (sc_entry p), dv_version = sc_version p\<rparr>) (\<lambda>_.
     validate_sha256 (ie_sha256 (sc_entry p))))"

definition validate_sender_ledger :: "externals \<Rightarrow> sender_ledger \<Rightarrow> string \<Rightarrow> nat \<Rightarrow> string \<Rightarrow> unit res" where
  "validate_sender_ledger X l root i scope =
     andthen (ensure (sl_schema_version l = DIR_VERSION \<and> sl_root l = root \<and> sl_identity l = i \<and> sl_scope l = scope)
       ''Sender state belongs to another directory or Folder.'') (\<lambda>_.
     andthen (ensure (length (sl_files l) \<le> MAX_ENTRIES \<and> length (sl_pending l) \<le> MAX_ENTRIES \<and> sl_next_version l > 0)
       ''Invalid sender ledger.'') (\<lambda>_.
     check_each (check_change X) (sl_pending l)))"

definition new_sender_ledger :: "string \<Rightarrow> nat \<Rightarrow> string \<Rightarrow> sender_ledger" where
  "new_sender_ledger root i scope =
     \<lparr>sl_schema_version = DIR_VERSION, sl_root = root, sl_identity = i, sl_scope = scope, sl_initialized = False,
      sl_next_version = 1, sl_files = [], sl_pending = []\<rparr>"

definition sender_open :: "'w outbox_api \<Rightarrow> string \<Rightarrow> string \<Rightarrow> string \<Rightarrow> ('w, unit) outboxed" where
  "sender_open A root state scope =
     bindo (lifto (ensure (\<not> path_starts_with state root \<and> \<not> path_starts_with root state)
       ''Keep sender state separate from the synchronized directory.'')) (\<lambda>_.
     bindo (readso (\<lambda>s. ensure (\<not> ob_retired s) ''This sender has exited; create a new Folder to reconnect.'')) (\<lambda>_.
     bindo (allowed A) (\<lambda>_.
     bindo (readso (\<lambda>s. of_option ''no such file'' (map_option item_id (map_of (ob_tree s) [])))) (\<lambda>i.
     bindo (load_file A ob_ledger_file) (\<lambda>found.
     bindo (case found of
         Some l \<Rightarrow> bindo (lifto (validate_sender_ledger (px_ext (ox_disk A)) l root i scope)) (\<lambda>_. retn l)
       | None \<Rightarrow> retn (new_sender_ledger root i scope)) (\<lambda>l.
     bindo (edit_ledger (\<lambda>_. l)) (\<lambda>_. sender_save A)))))))"

section \<open>Preview and consent\<close>

definition sender_inventory :: "'w outbox_api \<Rightarrow> ('w, inventory) outboxed" where
  "sender_inventory A = bindo (allowed A) (\<lambda>_. readso (\<lambda>s. root_inventory (ox_disk A) (ob_tree s)))"

definition no_empty_files :: "inventory \<Rightarrow> unit res" where
  "no_empty_files v = ensure (list_all (\<lambda>e. ie_size e > 0) (inv_entries v)) ''Empty files are not supported yet.''"

definition outward :: "('w, 'a) op \<Rightarrow> ('w, 'a) outboxed" where
  "outward m s = (case m (ob_world s) of (r, w) \<Rightarrow> (r, s\<lparr>ob_world := w\<rparr>))"

definition sender_preview :: "'w outbox_api \<Rightarrow> 'w directory_client \<Rightarrow> ('w, preview) outboxed" where
  "sender_preview A C =
     bindo (readso (\<lambda>s. ensure (\<not> sl_initialized (ob_ledger s))
       ''This directory is already initialized. Use send to process changes.'')) (\<lambda>_.
     bindo (sender_inventory A) (\<lambda>source.
     bindo (lifto (no_empty_files source)) (\<lambda>_.
     bindo (outward (dc_state C)) (\<lambda>remote.
     bindo (lifto (compare_remote (px_ext (ox_disk A)) source remote)) (\<lambda>c.
     let p = \<lparr>pv_source = source, pv_remote = remote, pv_comparison = c\<rparr> in
     bindo (save_file A (ox_preview_length A p) (\<lambda>s. s\<lparr>ob_preview_file := document.Saved p\<rparr>)) (\<lambda>_. retn p))))))"

definition newest :: "directory_state \<Rightarrow> nat" where
  "newest remote = fold max (List.map de_version (ds_entries remote)) 0"

definition unchanged_files :: "inventory \<Rightarrow> comparison \<Rightarrow> (string \<times> string) list" where
  "unchanged_files source c =
     bt_of_list (List.map (\<lambda>e. (ie_path e, ie_sha256 e))
       (List.filter (\<lambda>e. ie_path e \<notin> set (cmp_missing c) \<union> set (cmp_different c)) (inv_entries source)))"

definition agree :: "inventory \<Rightarrow> directory_state \<Rightarrow> ('w, unit) outboxed" where
  "agree source remote = modifyo (\<lambda>s. s\<lparr>ob_agreed := Some (source, remote)\<rparr>)"

definition sender_initialize :: "'w outbox_api \<Rightarrow> 'w directory_client \<Rightarrow> ('w, unit) outboxed" where
  "sender_initialize A C =
     bindo (readso (\<lambda>s. ensure (\<not> sl_initialized (ob_ledger s)) ''Directory is already initialized.'')) (\<lambda>_.
     bindo (load_file A ob_preview_file) (\<lambda>found.
     bindo (lifto (of_option ''Preview and review this directory before initialization.'' found)) (\<lambda>p.
     bindo (sender_inventory A) (\<lambda>source.
     bindo (outward (dc_state C)) (\<lambda>remote.
     bindo (lifto (ensure (source = pv_source p \<and> remote = pv_remote p)
       ''Source or receiver changed since preview. Preview again before confirming.'')) (\<lambda>_.
     bindo (lifto (compare_remote (px_ext (ox_disk A)) source remote)) (\<lambda>c.
     bindo (lifto (no_empty_files source)) (\<lambda>_.
     bindo (lifto (of_option ''Source version exhausted.'' (checked_add_u64 (newest remote) 1))) (\<lambda>next.
     bindo (agree source remote) (\<lambda>_.
     bindo (edit_ledger (\<lambda>l. l\<lparr>sl_next_version := next, sl_files := unchanged_files source c,
       sl_initialized := True\<rparr>)) (\<lambda>_.
     sender_save A)))))))))))"

section \<open>Uploading what is staged\<close>

definition payload_of :: "string \<Rightarrow> ('w, bytes option) outboxed" where
  "payload_of i = readso (\<lambda>s. Inr (case map_of (ob_jobs s) i of None \<Rightarrow> None | Some j \<Rightarrow> jb_payload j))"

definition change_request :: "sender_ledger \<Rightarrow> string \<Rightarrow> bool \<Rightarrow> staged_change \<Rightarrow> bytes \<Rightarrow> upload_request" where
  "change_request l token insecure p b =
     \<lparr>ur_source = Some (File b), ur_file_name = Some ''payload'', ur_same_file = False, ur_locked = False,
      ur_server_url = sl_scope l, ur_token = token, ur_name = Some (last_part slash (ie_path (sc_entry p))),
      ur_directory = Some \<lparr>dv_path = ie_path (sc_entry p), dv_version = sc_version p\<rparr>,
      ur_chunk_size = 1024 * 1024, ur_max_chunks = None, ur_allow_http = insecure, ur_timeout = 30,
      ur_keep_completed = True\<rparr>"

text \<open>The client works on the resume state of the job.\<close>

definition upload_job ::
    "'w outbox_api \<Rightarrow> string \<Rightarrow> bool \<Rightarrow> staged_change \<Rightarrow> bytes \<Rightarrow> ('w, upload_outcome) outboxed" where
  "upload_job A token insecure p b s =
     (case upload_with_events ((ox_net A)\<lparr>out_event := \<lambda>e w. (True, w)\<rparr>) (change_request (ob_ledger s) token insecure p b)
         \<lparr>sn_state = (case map_of (ob_jobs s) (sc_id p) of None \<Rightarrow> NoState | Some j \<Rightarrow> jb_resume j), sn_world = ob_world s\<rparr> of
        (r, t) \<Rightarrow>
          case edit_job (sc_id p) (\<lambda>j. j\<lparr>jb_resume := sn_state t\<rparr>) (s\<lparr>ob_world := sn_world t\<rparr>) of
            (_ :: unit res, u) \<Rightarrow> (case r of Inl e \<Rightarrow> Inl (Bail ''upload failed'') | Inr out \<Rightarrow> Inr out, u))"

definition begin_upload :: "staged_change \<Rightarrow> bytes \<Rightarrow> ('w, unit) outboxed" where
  "begin_upload p b = modifyo (\<lambda>s. s\<lparr>ob_begun := ob_begun s @ [(p, b)]\<rparr>)"

definition confirm_change :: "staged_change \<Rightarrow> string option \<Rightarrow> ('w, unit) outboxed" where
  "confirm_change p d = modifyo (\<lambda>s. s\<lparr>ob_confirmed := ob_confirmed s @ [(p, d)]\<rparr>)"

definition remove_job :: "'w outbox_api \<Rightarrow> string \<Rightarrow> ('w, unit) outboxed" where
  "remove_job A i =
     bindo (allowed A) (\<lambda>_.
     bindo (edit_job i (\<lambda>j. j\<lparr>jb_payload := None\<rparr>)) (\<lambda>_.
     bindo (allowed A) (\<lambda>_.
     bindo (edit_job i (\<lambda>j. j\<lparr>jb_resume := NoState\<rparr>)) (\<lambda>_.
     bindo (allowed A) (\<lambda>_.
     bindo (allowed A) (\<lambda>_.
     bindo (modifyo (\<lambda>s. s\<lparr>ob_jobs := AList.delete i (ob_jobs s)\<rparr>)) (\<lambda>_. allowed A)))))))"

definition flush_change :: "'w outbox_api \<Rightarrow> string \<Rightarrow> bool \<Rightarrow> staged_change \<Rightarrow> ('w, unit) outboxed" where
  "flush_change A token insecure p =
     bindo (allowed A) (\<lambda>_.
     bindo (payload_of (sc_id p)) (\<lambda>x.
     bindo (lifto (inspect_file (px_ext (ox_disk A)) (map_option File x) DIR_MAX_FILE)) (\<lambda>i.
     bindo (lifto (ensure (in_sha256 i = ie_sha256 (sc_entry p) \<and> in_size i = ie_size (sc_entry p))
       ''Staged source changed; refusing to resume another file.'')) (\<lambda>_.
     bindo (lifto (of_option ''no such file'' x)) (\<lambda>b.
     bindo (begin_upload p b) (\<lambda>_.
     bindo (upload_job A token insecure p b) (\<lambda>out.
     bindo (lifto (ensure (uo_delivery_id out \<noteq> None) ''Upload did not complete.'')) (\<lambda>_.
     bindo (confirm_change p (uo_delivery_id out)) (\<lambda>_.
     bindo (edit_ledger (\<lambda>l. l\<lparr>sl_files := bt_insert (ie_path (sc_entry p)) (ie_sha256 (sc_entry p)) (sl_files l),
       sl_pending := tl (sl_pending l)\<rparr>)) (\<lambda>_.
     bindo (sender_save A) (\<lambda>_. remove_job A (sc_id p))))))))))))"

text \<open>The loop takes the first pending change until there is none; each round removes just that one.\<close>

fun flush_changes :: "'w outbox_api \<Rightarrow> string \<Rightarrow> bool \<Rightarrow> staged_change list \<Rightarrow> ('w, nat) outboxed" where
  "flush_changes A token insecure [] = retn 0"
| "flush_changes A token insecure (p # ps) =
     bindo (flush_change A token insecure p) (\<lambda>_.
     bindo (flush_changes A token insecure ps) (\<lambda>n. retn (n + 1)))"

definition sender_flush :: "'w outbox_api \<Rightarrow> string \<Rightarrow> bool \<Rightarrow> ('w, nat) outboxed" where
  "sender_flush A token insecure =
     bindo (readso (\<lambda>s. Inr (sl_pending (ob_ledger s)))) (flush_changes A token insecure)"

section \<open>Sending\<close>

text \<open>Every directory on the way is opened without following links, and the file must be regular.\<close>

definition read_source :: "tree \<Rightarrow> string \<Rightarrow> bytes res" where
  "read_source t path =
     andthen (validate_path path) (\<lambda>_.
     let parts = split_on slash path in
     andthen (ensure (list_all (\<lambda>k. is_folder (map_of t (take k parts))) [1..<length parts]) ''not a directory'') (\<lambda>_.
     case map_of t parts of
       Some (Regular i b) \<Rightarrow> Inr b
     | _ \<Rightarrow> Inl (Bail ''Directory contains a non-regular file.'')))"

definition create_job :: "'w outbox_api \<Rightarrow> string \<Rightarrow> ('w, unit) outboxed" where
  "create_job A i =
     bindo (allowed A) (\<lambda>_.
     bindo (modifyo (\<lambda>s. s\<lparr>ob_jobs := (case map_of (ob_jobs s) i of
       None \<Rightarrow> AList.update i \<lparr>jb_payload = None, jb_resume = NoState\<rparr> (ob_jobs s) | Some j \<Rightarrow> ob_jobs s)\<rparr>)) (\<lambda>_.
     bindo (allowed A) (\<lambda>_.
     bindo (payload_of i) (\<lambda>x.
     bindo (lifto (ensure (x = None) ''file exists'')) (\<lambda>_.
     edit_job i (\<lambda>j. j\<lparr>jb_payload := Some []\<rparr>))))))"

definition copy_source :: "'w outbox_api \<Rightarrow> string \<Rightarrow> string \<Rightarrow> ('w, nat) outboxed" where
  "copy_source A i path =
     bindo (allowed A) (\<lambda>_.
     bindo (readso (\<lambda>s. read_source (ob_tree s) path)) (\<lambda>b.
     let c = take (DIR_MAX_FILE + 1) b in
     bindo (query (px_permit (ox_disk A))) (\<lambda>ok.
       if ok then bindo (edit_job i (\<lambda>j. j\<lparr>jb_payload := Some c\<rparr>)) (\<lambda>_. retn (length c))
       else
         bindo (query (px_partial (ox_disk A))) (\<lambda>n.
         bindo (edit_job i (\<lambda>j. j\<lparr>jb_payload := Some (take n c)\<rparr>)) (\<lambda>_.
         fails (Bail ''input/output error''))))))"

definition stage_change :: "'w outbox_api \<Rightarrow> inventory_entry \<Rightarrow> nat \<Rightarrow> ('w, unit) outboxed" where
  "stage_change A e version =
     bindo (query (px_uuid (ox_disk A))) (\<lambda>i.
     bindo (create_job A i) (\<lambda>_.
     bindo (copy_source A i (ie_path e)) (\<lambda>n.
     bindo (allowed A) (\<lambda>_.
     bindo (allowed A) (\<lambda>_.
     bindo (allowed A) (\<lambda>_.
     bindo (payload_of i) (\<lambda>x.
     bindo (lifto (inspect_file (px_ext (ox_disk A)) (map_option File x) DIR_MAX_FILE)) (\<lambda>inspection.
     bindo (lifto (ensure (n = ie_size e \<and> in_sha256 inspection = ie_sha256 e)
       ''Source changed while staging; retry after it settles.'')) (\<lambda>_.
     edit_ledger (\<lambda>l. l\<lparr>sl_next_version := sl_next_version l + 1,
       sl_pending := sl_pending l @ [\<lparr>sc_id = i, sc_entry = e, sc_version = version\<rparr>]\<rparr>))))))))))"

definition send_entry :: "'w outbox_api \<Rightarrow> string \<Rightarrow> bool \<Rightarrow> inventory_entry \<Rightarrow> ('w, nat) outboxed" where
  "send_entry A token insecure e =
     bindo (readso (\<lambda>s. Inr (ob_ledger s))) (\<lambda>l.
       if map_of (sl_files l) (ie_path e) = Some (ie_sha256 e) then retn 0
       else
         bindo (lifto (ensure (map_of (sl_files l) (ie_path e) \<noteq> None \<or> length (sl_files l) < MAX_ENTRIES)
           ''Sender history limit reached; no source files were deleted.'')) (\<lambda>_.
         bindo (lifto (validate_version \<lparr>dv_path = ie_path e, dv_version = sl_next_version l\<rparr>)) (\<lambda>_.
         bindo (stage_change A e (sl_next_version l)) (\<lambda>_.
         bindo (sender_save A) (\<lambda>_. sender_flush A token insecure)))))"

fun send_entries :: "'w outbox_api \<Rightarrow> string \<Rightarrow> bool \<Rightarrow> inventory_entry list \<Rightarrow> nat \<Rightarrow> ('w, nat) outboxed" where
  "send_entries A token insecure [] n = retn n"
| "send_entries A token insecure (e # es) n =
     bindo (send_entry A token insecure e) (\<lambda>k. send_entries A token insecure es (n + k))"

definition adopt_floor :: "directory_state \<Rightarrow> ('w, unit) outboxed" where
  "adopt_floor remote = edit_ledger (\<lambda>l. l\<lparr>sl_next_version :=
     max (sl_next_version l) (min u64_max (newest remote + 1))\<rparr>)"

definition sender_send :: "'w outbox_api \<Rightarrow> 'w directory_client \<Rightarrow> string \<Rightarrow> bool \<Rightarrow> ('w, nat) outboxed" where
  "sender_send A C token insecure =
     bindo (readso (\<lambda>s. ensure (sl_initialized (ob_ledger s))
       ''Review preview and confirm initialization before sending files.'')) (\<lambda>_.
     bindo (sender_flush A token insecure) (\<lambda>n.
     bindo (sender_inventory A) (\<lambda>source.
     bindo (lifto (no_empty_files source)) (\<lambda>_.
     bindo (outward (dc_state C)) (\<lambda>remote.
     bindo (lifto (compare_remote (px_ext (ox_disk A)) source remote)) (\<lambda>_.
     bindo (adopt_floor remote) (\<lambda>_.
     send_entries A token insecure (inv_entries source) n)))))))"

section \<open>The commands\<close>

datatype sender_command = PreviewCommand | InitializeCommand bool | SendCommand

definition sender_command_run ::
    "'w outbox_api \<Rightarrow> 'w directory_client \<Rightarrow> string \<Rightarrow> string \<Rightarrow> string \<Rightarrow> string \<Rightarrow> bool \<Rightarrow> sender_command \<Rightarrow> ('w, unit) outboxed" where
  "sender_command_run A C root state scope token insecure c =
     bindo (sender_open A root state scope) (\<lambda>_.
       case c of
         PreviewCommand \<Rightarrow> bindo (sender_preview A C) (\<lambda>_. retn ())
       | InitializeCommand sure \<Rightarrow>
           bindo (lifto (ensure sure ''Explicit confirmation is required.'')) (\<lambda>_. sender_initialize A C)
       | SendCommand \<Rightarrow> bindo (sender_send A C token insecure) (\<lambda>_. retn ()))"

end
