(* ===== verification/SenderSafe.thy ===== *)
theory SenderSafe
  imports DirectorySender Retaining
begin

text \<open>
  What the sending half of directory synchronisation promises: a version stands for one content
  only, versions go out in order, a file is recorded as sent only after the server confirmed a
  delivery or the receiver had it already, and a send that ends well leaves nothing behind.
\<close>

section \<open>Invariants\<close>

definition ledger_inv :: "sender_ledger \<Rightarrow> (staged_change \<times> bytes) list \<Rightarrow> bool" where
  "ledger_inv l h \<longleftrightarrow> sorted_wrt (\<lambda>p q. sc_version p < sc_version q) (sl_pending l)
     \<and> (\<forall>p \<in> set (sl_pending l). sc_version p < sl_next_version l)
     \<and> (\<forall>(p, b) \<in> set h. sc_version p < sl_next_version l
          \<and> (\<forall>q \<in> set (sl_pending l). sc_version p \<le> sc_version q \<and> (sc_version p = sc_version q \<longrightarrow> p = q)))
     \<and> (\<not> sl_initialized l \<longrightarrow> sl_pending l = [] \<and> sl_files l = [] \<and> h = [])"

text \<open>The uploads begun so far.\<close>

definition history_ok :: "externals \<Rightarrow> (staged_change \<times> bytes) list \<Rightarrow> bool" where
  "history_ok X h \<longleftrightarrow> sorted (List.map (sc_version \<circ> fst) h)
     \<and> (\<forall>(p, b) \<in> set h. sha256_hex X b = ie_sha256 (sc_entry p) \<and> length b = ie_size (sc_entry p))
     \<and> (\<forall>(p, b) \<in> set h. \<forall>(q, c) \<in> set h. sc_version p = sc_version q \<longrightarrow> p = q)"

text \<open>The receiver had the file already when the two sides agreed.\<close>

definition agreed_on :: "externals \<Rightarrow> (inventory \<times> directory_state) option \<Rightarrow> string \<Rightarrow> string \<Rightarrow> bool" where
  "agreed_on X agreed path sha \<longleftrightarrow>
     (\<exists>source remote c e. agreed = Some (source, remote) \<and> compare_remote X source remote = Inr c
        \<and> e \<in> set (inv_entries source) \<and> ie_path e = path \<and> ie_sha256 e = sha
        \<and> path \<notin> set (cmp_missing c) \<union> set (cmp_different c))"

definition accounted ::
    "externals \<Rightarrow> (string \<times> string) list \<Rightarrow> (staged_change \<times> string option) list \<Rightarrow> (inventory \<times> directory_state) option \<Rightarrow> bool" where
  "accounted X files confirmed agreed \<longleftrightarrow>
     (\<forall>path sha. map_of files path = Some sha \<longrightarrow>
        (\<exists>p d. (p, d) \<in> set confirmed \<and> ie_path (sc_entry p) = path \<and> ie_sha256 (sc_entry p) = sha) \<or> agreed_on X agreed path sha)"

text \<open>What was taken as delivered was begun before and has the id of a delivery.\<close>

definition confirmed_ok :: "(staged_change \<times> bytes) list \<Rightarrow> (staged_change \<times> string option) list \<Rightarrow> bool" where
  "confirmed_ok begun confirmed \<longleftrightarrow> (\<forall>(p, d) \<in> set confirmed. d \<noteq> None \<and> (\<exists>b. (p, b) \<in> set begun))"

lemma confirmed_simps [simp]:
  "confirmed_ok [] confirmed \<longleftrightarrow> confirmed = []"
  "confirmed_ok begun [] "
  "confirmed_ok begun confirmed \<Longrightarrow> confirmed_ok (begun @ more_begun) confirmed"
  "confirmed_ok begun (confirmed @ [(p, d)]) \<longleftrightarrow> confirmed_ok begun confirmed \<and> d \<noteq> None \<and> (\<exists>b. (p, b) \<in> set begun)"
proof -
  show "confirmed_ok [] confirmed \<longleftrightarrow> confirmed = []" by (cases confirmed) (auto simp: confirmed_ok_def)
qed (fastforce simp: confirmed_ok_def)+

lemma accounted_append: "accounted X files confirmed agreed \<Longrightarrow> accounted X files (confirmed @ [x]) agreed"
  by (fastforce simp: accounted_def)

definition disk_ok :: "externals \<Rightarrow> 'w outbox \<Rightarrow> bool" where
  "disk_ok X s \<longleftrightarrow> history_ok X (ob_begun s) \<and> confirmed_ok (ob_begun s) (ob_confirmed s)
     \<and> (case ob_ledger_file s of
          Missing \<Rightarrow> ob_begun s = []
        | document.Saved l \<Rightarrow> ledger_inv l (ob_begun s) \<and> accounted X (sl_files l) (ob_confirmed s) (ob_agreed s)
        | Broken \<Rightarrow> True)"

text \<open>
  In memory the ledger is that of the disk, with a possibly higher version; \<open>f\<close> and \<open>ps\<close> are the files
  and the pending changes.
\<close>

definition sending :: "externals \<Rightarrow> (string \<rightharpoonup> string) \<Rightarrow> staged_change list \<Rightarrow> 'w outbox \<Rightarrow> bool" where
  "sending X f ps s \<longleftrightarrow> disk_ok X s
     \<and> (\<exists>l m. ob_ledger_file s = document.Saved l \<and> sl_initialized l \<and> sl_pending l = ps \<and> map_of (sl_files l) = f
          \<and> sl_next_version l \<le> m \<and> ob_ledger s = l\<lparr>sl_next_version := m\<rparr>)"

definition opened :: "externals \<Rightarrow> 'w outbox \<Rightarrow> bool" where
  "opened X s \<longleftrightarrow> disk_ok X s \<and> ob_ledger_file s = document.Saved (ob_ledger s)"

lemma sending_disk: "sending X f ps s \<Longrightarrow> disk_ok X s"
  by (simp add: sending_def)

lemma opened_disk: "opened X s \<Longrightarrow> disk_ok X s"
  by (simp add: opened_def)

lemma opened_sending:
  "opened X s \<Longrightarrow> sl_initialized (ob_ledger s) \<Longrightarrow> sending X (map_of (sl_files (ob_ledger s))) (sl_pending (ob_ledger s)) s"
  unfolding opened_def sending_def by (intro conjI exI [of _ "ob_ledger s"] exI [of _ "sl_next_version (ob_ledger s)"]) auto

section \<open>Operations that leave the ledger alone\<close>

definition same_ledger :: "'w outbox \<Rightarrow> 'w outbox \<Rightarrow> bool" where
  "same_ledger s t \<longleftrightarrow> ob_tree t = ob_tree s \<and> ob_ledger_file t = ob_ledger_file s \<and> ob_ledger t = ob_ledger s
     \<and> ob_begun t = ob_begun s \<and> ob_confirmed t = ob_confirmed s \<and> ob_agreed t = ob_agreed s"

lemma stable_sender [intro, simp]:
  "stable same_ledger (disk_ok X)" "stable same_ledger (sending X f ps)" "stable same_ledger (opened X)"
  by (auto simp: stable_def same_ledger_def disk_ok_def sending_def opened_def split: document.splits)

named_theorems quiet \<open>operations that leave the ledger and the histories alone\<close>

lemma quiet_atoms [quiet]:
  "moves same_ledger (query f)" "moves same_ledger (lifto r)" "moves same_ledger (readso g)" "moves same_ledger (retn x)"
  "moves same_ledger (fails e)" "moves same_ledger (outward m)" "moves same_ledger (edit_job i h)"
  "moves same_ledger (upload_job A token insecure p b)"
  by (auto simp: moves_def same_ledger_def query_def outward_def edit_job_def upload_job_def op_defs split: prod.splits)

lemma quiet_bindo [quiet]: "moves same_ledger m \<Longrightarrow> (\<And>x. moves same_ledger (f x)) \<Longrightarrow> moves same_ledger (bindo m f)"
  by (rule moves_bindo) (simp_all add: same_ledger_def)

lemma quiet_cases [quiet]:
  "moves same_ledger m \<Longrightarrow> moves same_ledger n \<Longrightarrow> moves same_ledger (if c then m else n)"
  "moves same_ledger w1 \<Longrightarrow> moves same_ledger w2 \<Longrightarrow> moves same_ledger w3 \<Longrightarrow>
     moves same_ledger (case q of Written \<Rightarrow> w1 | WrittenNotSynced \<Rightarrow> w2 | NotWritten \<Rightarrow> w3)"
  by (simp_all split: write_outcome.split)

lemma quiet_modify [quiet]: "(\<And>s. same_ledger s (f s)) \<Longrightarrow> moves same_ledger (modifyo f)"
  by (simp add: moves_def op_defs)

lemma quiet_calls [quiet]:
  "moves same_ledger (allowed A)" "moves same_ledger (payload_of i)" "moves same_ledger (load_file A field)"
  "moves same_ledger (sender_inventory A)" "moves same_ledger (remove_job A i)" "moves same_ledger (create_job A i)"
  "moves same_ledger (copy_source A i path)"
  unfolding allowed_def payload_of_def load_file_def sender_inventory_def remove_job_def create_job_def copy_source_def Let_def
  by (intro quiet; simp add: same_ledger_def)+

lemma quiet_preview [quiet]: "moves same_ledger (sender_preview A C)"
  unfolding sender_preview_def save_file_def Let_def by (intro quiet; simp add: same_ledger_def)

lemma hoare_quiet: "moves same_ledger m \<Longrightarrow> stable same_ledger P \<Longrightarrow> (\<And>s. P s \<Longrightarrow> E s) \<Longrightarrow> hoare P m (\<lambda>_. P) E"
  by (rule hoare_moves)

lemma hoare_sender_save:
  assumes "stable same_ledger P" and "\<And>s. P s \<Longrightarrow> E s"
    and "\<And>s. P s \<Longrightarrow> Q (s\<lparr>ob_ledger_file := document.Saved (ob_ledger s)\<rparr>)" and "\<And>s. Q s \<Longrightarrow> E s"
  shows "hoare P (sender_save A) (\<lambda>_. Q) E"
proof -
  have put: "hoare (\<lambda>s. P s \<and> l = ob_ledger s) (modifyo (\<lambda>s. s\<lparr>ob_ledger_file := document.Saved l\<rparr>)) (\<lambda>_. Q) E" for l
    by (rule hoareI) (use assms in \<open>auto simp: op_defs\<close>)
  have w: "hoare (\<lambda>s. P s \<and> l = ob_ledger s)
      (case w of Written \<Rightarrow> modifyo (\<lambda>s. s\<lparr>ob_ledger_file := document.Saved l\<rparr>)
        | WrittenNotSynced \<Rightarrow> bindo (modifyo (\<lambda>s. s\<lparr>ob_ledger_file := document.Saved l\<rparr>)) (\<lambda>_. fails (Bail ''failed to persist''))
        | NotWritten \<Rightarrow> fails (Bail ''failed to persist'')) (\<lambda>_. Q) E" for l w
    by (cases w) (use assms put in \<open>auto intro!: hoare_bindo [OF put] hoare_fails\<close>)
  have st: "stable same_ledger (\<lambda>s. P s \<and> l = ob_ledger s)" for l
    using assms(1) by (auto simp: stable_def same_ledger_def)
  show ?thesis
    unfolding sender_save_def save_file_def
    by (rule hoare_bindo [OF hoare_readso_any hoare_bindo [OF hoare_quiet hoare_bindo [OF hoare_quiet w]]])
      (use assms(2) st in \<open>auto intro: quiet\<close>)
qed

section \<open>Uploading\<close>

text \<open>An upload begins with the first pending change and its checked payload.\<close>

lemma inv_begin:
  assumes "ledger_inv l h" and "sl_pending l = p # ps" and "history_ok X h" and "sl_initialized l"
    and "sha256_hex X b = ie_sha256 (sc_entry p)" and "length b = ie_size (sc_entry p)"
  shows "ledger_inv l (h @ [(p, b)])" and "history_ok X (h @ [(p, b)])"
proof -
  have le: "sc_version q \<le> sc_version p \<and> (sc_version q = sc_version p \<longrightarrow> q = p)" if "(q, c) \<in> set h" for q c
    using assms(1,2) that by (fastforce simp: ledger_inv_def)
  then show "history_ok X (h @ [(p, b)])"
    using assms(3,5,6) by (fastforce simp: history_ok_def sorted_append)
  show "ledger_inv l (h @ [(p, b)])"
    using assms(1,2,4) by (fastforce simp: ledger_inv_def)
qed

lemma disk_begin:
  assumes "sending X f (p # ps) s" and "sha256_hex X b = ie_sha256 (sc_entry p)" and "length b = ie_size (sc_entry p)"
  shows "sending X f (p # ps) (s\<lparr>ob_begun := ob_begun s @ [(p, b)]\<rparr>)"
  using assms inv_begin [of _ "ob_begun s" p ps X b]
  by (auto simp: sending_def disk_ok_def)

text \<open>The change is off the pending list and among the files, in memory only.\<close>

definition removed :: "externals \<Rightarrow> (string \<rightharpoonup> string) \<Rightarrow> staged_change \<Rightarrow> staged_change list \<Rightarrow> 'w outbox \<Rightarrow> bool" where
  "removed X f p ps s \<longleftrightarrow> disk_ok X s \<and> (\<exists>d. (p, d) \<in> set (ob_confirmed s))
     \<and> (\<exists>l m. ob_ledger_file s = document.Saved l \<and> sl_initialized l \<and> sl_pending l = p # ps \<and> map_of (sl_files l) = f
          \<and> sl_next_version l \<le> m \<and> ob_ledger s = l\<lparr>sl_next_version := m,
              sl_files := bt_insert (ie_path (sc_entry p)) (ie_sha256 (sc_entry p)) (sl_files l), sl_pending := ps\<rparr>)"

lemma removed_save:
  assumes "removed X f p ps s"
  shows "sending X (f(ie_path (sc_entry p) \<mapsto> ie_sha256 (sc_entry p))) ps (s\<lparr>ob_ledger_file := document.Saved (ob_ledger s)\<rparr>)"
proof -
  obtain l m where l: "ob_ledger_file s = document.Saved l" "sl_initialized l" "sl_pending l = p # ps" "map_of (sl_files l) = f"
      "sl_next_version l \<le> m" "ob_ledger s = l\<lparr>sl_next_version := m,
         sl_files := bt_insert (ie_path (sc_entry p)) (ie_sha256 (sc_entry p)) (sl_files l), sl_pending := ps\<rparr>" "\<exists>d. (p, d) \<in> set (ob_confirmed s)"
      "disk_ok X s"
    using assms unfolding removed_def by blast
  let ?l = "ob_ledger s"
  have "ledger_inv ?l (ob_begun s)" using l by (fastforce simp: disk_ok_def ledger_inv_def)
  moreover have "accounted X (sl_files ?l) (ob_confirmed s) (ob_agreed s)"
    using l by (auto simp: disk_ok_def accounted_def)
  ultimately have "disk_ok X (s\<lparr>ob_ledger_file := document.Saved ?l\<rparr>)"
    using l(8) by (simp add: disk_ok_def)
  then show ?thesis
    using l unfolding sending_def
    by (intro conjI exI [of _ ?l] exI [of _ "sl_next_version ?l"]) auto
qed

lemma stable_removed [intro, simp]: "stable same_ledger (removed X f p ps)"
  by (auto simp: stable_def same_ledger_def removed_def disk_ok_def split: document.splits)

lemma hoare_flush_change:
  assumes "px_ext (ox_disk A) = X"
  shows "hoare (sending X f (p # ps)) (flush_change A token insecure p)
     (\<lambda>_. sending X (f(ie_path (sc_entry p) \<mapsto> ie_sha256 (sc_entry p))) ps) (disk_ok X)"
proof -
  let ?S = "sending X f (p # ps) :: 'a outbox \<Rightarrow> bool" and ?R = "removed X f p ps" and ?E = "disk_ok X"
  let ?T = "sending X (f(ie_path (sc_entry p) \<mapsto> ie_sha256 (sc_entry p))) ps"
  let ?C = "\<lambda>s. ?S s \<and> (\<exists>d. (p, d) \<in> set (ob_confirmed s))"
  have e: "?S s \<Longrightarrow> ?E s" "?T s \<Longrightarrow> ?E s" "?R s \<Longrightarrow> ?E s" for s :: "'a outbox"
    by (simp_all add: sending_def removed_def)
  have c: "(p, b) \<in> set (ob_begun s) \<Longrightarrow> d \<noteq> None \<Longrightarrow> ?S s \<Longrightarrow> ?C (s\<lparr>ob_confirmed := ob_confirmed s @ [(p, d)]\<rparr>)"
    for s :: "'a outbox" and b d
    by (fastforce simp: sending_def disk_ok_def accounted_append)
  have confirm: "hoare (\<lambda>s. (?S s \<and> (\<exists>b. (p, b) \<in> set (ob_begun s))) \<and> uo_delivery_id out \<noteq> None) (confirm_change p (uo_delivery_id out)) (\<lambda>_. ?C) ?E" for out
    unfolding confirm_change_def by (intro hoareI) (auto simp: op_defs dest: c)
  have drop: "hoare ?C (edit_ledger (\<lambda>l. l\<lparr>sl_files := bt_insert (ie_path (sc_entry p)) (ie_sha256 (sc_entry p)) (sl_files l),
       sl_pending := tl (sl_pending l)\<rparr>)) (\<lambda>_. ?R) ?E"
    unfolding edit_ledger_def by (rule hoareI) (auto simp: op_defs sending_def removed_def disk_ok_def)
  have save: "hoare ?R (sender_save A) (\<lambda>_. ?T) ?E"
    by (rule hoare_sender_save) (use e removed_save in auto)
  have b: "hoare (\<lambda>s. ?S s \<and> sha256_hex X b = ie_sha256 (sc_entry p) \<and> length b = ie_size (sc_entry p)) (begin_upload p b)
      (\<lambda>_ s. ?S s \<and> (\<exists>b. (p, b) \<in> set (ob_begun s))) ?E" for b
    unfolding begin_upload_def by (rule hoareI) (auto simp: op_defs intro: disk_begin)
  have st: "stable same_ledger (\<lambda>s. ?S s \<and> (\<exists>b. (p, b) \<in> set (ob_begun s)))"
    by (auto simp: stable_def same_ledger_def sending_def disk_ok_def)
  have rest: "hoare (\<lambda>s. ?S s \<and> sha256_hex X b = ie_sha256 (sc_entry p) \<and> length b = ie_size (sc_entry p))
      (bindo (begin_upload p b) (\<lambda>_. bindo (upload_job A token insecure p b) (\<lambda>out.
       bindo (lifto (ensure (uo_delivery_id out \<noteq> None) ''Upload did not complete.'')) (\<lambda>_. bindo (confirm_change p (uo_delivery_id out)) (\<lambda>_.
       bindo (edit_ledger (\<lambda>l. l\<lparr>sl_files := bt_insert (ie_path (sc_entry p)) (ie_sha256 (sc_entry p)) (sl_files l),
         sl_pending := tl (sl_pending l)\<rparr>)) (\<lambda>_. bindo (sender_save A) (\<lambda>_. remove_job A (sc_id p)))))))) (\<lambda>_. ?T) ?E" for b
    by (rule hoare_bindo [OF b hoare_bindo [OF hoare_quiet hoare_bindo [OF hoare_ensure hoare_bindo [OF confirm hoare_bindo
          [OF drop hoare_bindo [OF save hoare_quiet]]]]]])
      (use e st in \<open>auto intro: quiet\<close>)
  have go: "hoare (\<lambda>s. ((?S s \<and> inspect_file (px_ext (ox_disk A)) (map_option File x) DIR_MAX_FILE = Inr i)
        \<and> in_sha256 i = ie_sha256 (sc_entry p) \<and> in_size i = ie_size (sc_entry p)) \<and> x = Some b)
      (bindo (begin_upload p b) (\<lambda>_. bindo (upload_job A token insecure p b) (\<lambda>out.
       bindo (lifto (ensure (uo_delivery_id out \<noteq> None) ''Upload did not complete.'')) (\<lambda>_. bindo (confirm_change p (uo_delivery_id out)) (\<lambda>_.
       bindo (edit_ledger (\<lambda>l. l\<lparr>sl_files := bt_insert (ie_path (sc_entry p)) (ie_sha256 (sc_entry p)) (sl_files l),
         sl_pending := tl (sl_pending l)\<rparr>)) (\<lambda>_. bindo (sender_save A) (\<lambda>_. remove_job A (sc_id p)))))))) (\<lambda>_. ?T) ?E" for x i b
    by (rule hoare_strengthen [OF rest])
      (use assms in \<open>auto simp: inspect_file_def inspect_bytes_Inr inspection_of_def split: prod.splits\<close>)
  show ?thesis
    unfolding flush_change_def
    by (rule hoare_bindo [OF hoare_quiet hoare_bindo [OF hoare_quiet hoare_bindo [OF hoare_lifto hoare_bindo [OF hoare_ensure hoare_bindo
          [OF hoare_weaken [OF hoare_lifto] go]]]]])
      (use e in \<open>auto intro: quiet\<close>)
qed

definition recorded :: "staged_change list \<Rightarrow> (string \<rightharpoonup> string) \<Rightarrow> (string \<rightharpoonup> string)" where
  "recorded ps f = fold (\<lambda>p f. f(ie_path (sc_entry p) \<mapsto> ie_sha256 (sc_entry p))) ps f"

lemma hoare_flush_changes:
  assumes "px_ext (ox_disk A) = X"
  shows "hoare (sending X f ps) (flush_changes A token insecure ps) (\<lambda>_. sending X (recorded ps f) []) (disk_ok X)"
proof (induction ps arbitrary: f)
  case Nil
  then show ?case by (auto intro: hoare_retn simp: recorded_def)
next
  case (Cons p ps)
  let ?f = "f(ie_path (sc_entry p) \<mapsto> ie_sha256 (sc_entry p))"
  have r: "recorded (p # ps) f = recorded ps ?f" by (simp add: recorded_def)
  show ?case
    unfolding flush_changes.simps r
    by (rule hoare_bindo [OF hoare_flush_change [OF assms] hoare_bindo [OF Cons.IH hoare_retn]])
qed

lemma hoare_sender_flush:
  assumes "px_ext (ox_disk A) = X"
  shows "hoare (sending X f ps) (sender_flush A token insecure) (\<lambda>_. sending X (recorded ps f) []) (disk_ok X)"
proof -
  have "hoare (\<lambda>s. sending X f ps s \<and> qs = sl_pending (ob_ledger s)) (flush_changes A token insecure qs)
      (\<lambda>_. sending X (recorded ps f) []) (disk_ok X)" for qs
  proof (rule hoare_pre_imp [where c = "qs = ps"])
    show "qs = ps" if "sending X f ps s \<and> qs = sl_pending (ob_ledger s)" for s :: "'a outbox"
      using that by (auto simp: sending_def)
    assume "qs = ps"
    then show "hoare (\<lambda>s. sending X f ps s \<and> qs = sl_pending (ob_ledger s)) (flush_changes A token insecure qs)
      (\<lambda>_. sending X (recorded ps f) []) (disk_ok X)"
      by (auto intro: hoare_strengthen [OF hoare_flush_changes [OF assms]])
  qed
  note go = this
  show ?thesis
    unfolding sender_flush_def by (rule hoare_bindo [OF hoare_readso_any go]) (simp add: sending_def)
qed

section \<open>Staging\<close>

text \<open>The new change is recorded in memory only.\<close>

definition staged_in_memory ::
    "externals \<Rightarrow> (string \<rightharpoonup> string) \<Rightarrow> inventory_entry \<Rightarrow> 'w outbox \<Rightarrow> bool" where
  "staged_in_memory X f e s \<longleftrightarrow> disk_ok X s
     \<and> (\<exists>l m c. ob_ledger_file s = document.Saved l \<and> sl_initialized l \<and> sl_pending l = [] \<and> map_of (sl_files l) = f
          \<and> sl_next_version l \<le> m \<and> sc_version c = m \<and> sc_entry c = e
          \<and> ob_ledger s = l\<lparr>sl_next_version := m + 1, sl_pending := [c]\<rparr>)"

lemma stable_staged [intro, simp]: "stable same_ledger (staged_in_memory X f e)"
  by (auto simp: stable_def same_ledger_def staged_in_memory_def disk_ok_def split: document.splits)

lemma staged_save:
  assumes "staged_in_memory X f e s"
  shows "\<exists>c. sc_entry c = e \<and> sending X f [c] (s\<lparr>ob_ledger_file := document.Saved (ob_ledger s)\<rparr>)"
proof -
  obtain l c where l: "ob_ledger_file s = document.Saved l" "sl_initialized l" "sl_pending l = []" "map_of (sl_files l) = f"
      "sl_next_version l \<le> sc_version c" "sc_entry c = e" "ob_ledger s = l\<lparr>sl_next_version := sc_version c + 1, sl_pending := [c]\<rparr>"
      "disk_ok X s"
    using assms unfolding staged_in_memory_def by blast
  let ?l = "ob_ledger s"
  have "ledger_inv ?l (ob_begun s)" using l by (fastforce simp: disk_ok_def ledger_inv_def)
  then have "disk_ok X (s\<lparr>ob_ledger_file := document.Saved ?l\<rparr>)"
    using l by (simp add: disk_ok_def)
  then have "sending X f [c] (s\<lparr>ob_ledger_file := document.Saved ?l\<rparr>)"
    using l unfolding sending_def
    by (intro conjI exI [of _ ?l] exI [of _ "sl_next_version ?l"]) auto
  with l(6) show ?thesis by blast
qed

lemma hoare_stage_change:
  "hoare (\<lambda>s. sending X f [] s \<and> v = sl_next_version (ob_ledger s)) (stage_change A e v)
     (\<lambda>_. staged_in_memory X f e) (disk_ok X)"
proof -
  let ?P = "\<lambda>s :: 'a outbox. sending X f [] s \<and> v = sl_next_version (ob_ledger s)"
  have st: "stable same_ledger ?P"
    using stable_sender(2) [of X f "[]"] by (auto simp: stable_def same_ledger_def)
  have push: "hoare ?P (edit_ledger (\<lambda>l. l\<lparr>sl_next_version := sl_next_version l + 1,
       sl_pending := sl_pending l @ [\<lparr>sc_id = i, sc_entry = e, sc_version = v\<rparr>]\<rparr>)) (\<lambda>_. staged_in_memory X f e) (disk_ok X)" for i
    unfolding edit_ledger_def
  proof (rule hoareI)
    fix s x t assume a: "?P s" "modifyo (\<lambda>s. s\<lparr>ob_ledger := (ob_ledger s)\<lparr>sl_next_version := sl_next_version (ob_ledger s) + 1,
       sl_pending := sl_pending (ob_ledger s) @ [\<lparr>sc_id = i, sc_entry = e, sc_version = v\<rparr>]\<rparr>\<rparr>) s = (Inr x :: unit res, t)"
    let ?c = "\<lparr>sc_id = i, sc_entry = e, sc_version = v\<rparr>"
    obtain l where l: "disk_ok X s" "ob_ledger_file s = document.Saved l" "sl_initialized l" "sl_pending l = []"
      "map_of (sl_files l) = f" "sl_next_version l \<le> v" "ob_ledger s = l\<lparr>sl_next_version := v\<rparr>"
    proof -
      obtain l m where "ob_ledger_file s = document.Saved l" "sl_initialized l" "sl_pending l = []" "map_of (sl_files l) = f"
          "sl_next_version l \<le> m" "ob_ledger s = l\<lparr>sl_next_version := m\<rparr>" "disk_ok X s"
        using a(1) unfolding sending_def by blast
      moreover from this(6) have "m = v" using a(1) by simp
      ultimately show thesis using that by blast
    qed
    have t: "t = s\<lparr>ob_ledger := l\<lparr>sl_next_version := v + 1, sl_pending := [?c]\<rparr>\<rparr>" using a(2) l by (simp add: op_defs)
    show "staged_in_memory X f e t"
      unfolding t staged_in_memory_def
      by (intro conjI exI [of _ l] exI [of _ v] exI [of _ ?c]) (use l in \<open>auto simp: disk_ok_def\<close>)
  qed (simp_all add: op_defs)
  show ?thesis
    unfolding stage_change_def
    by (rule hoare_bindo [OF hoare_quiet hoare_bindo [OF hoare_quiet hoare_bindo [OF hoare_quiet hoare_bindo [OF hoare_quiet
          hoare_bindo [OF hoare_quiet hoare_bindo [OF hoare_quiet hoare_bindo [OF hoare_quiet hoare_bindo [OF hoare_quiet
          hoare_bindo [OF hoare_quiet push]]]]]]]]])
      (use st sending_disk in \<open>auto intro: quiet\<close>)
qed

lemma hoare_send_entry:
  assumes "px_ext (ox_disk A) = X"
  shows "hoare (sending X f []) (send_entry A token insecure e) (\<lambda>_. sending X (f(ie_path e \<mapsto> ie_sha256 e)) []) (disk_ok X)"
proof -
  let ?P = "\<lambda>l (s :: 'a outbox). sending X f [] s \<and> l = ob_ledger s"
  let ?Q = "sending X (f(ie_path e \<mapsto> ie_sha256 e)) [] :: 'a outbox \<Rightarrow> bool"
  have done': "hoare (\<lambda>s. ?P l s \<and> map_of (sl_files l) (ie_path e) = Some (ie_sha256 e)) (retn 0) (\<lambda>_. ?Q) (disk_ok X)" for l
  proof (rule hoare_retn)
    fix s :: "'a outbox" assume s: "?P l s \<and> map_of (sl_files l) (ie_path e) = Some (ie_sha256 e)"
    then have "f (ie_path e) = Some (ie_sha256 e)" by (auto simp: sending_def)
    then have "f(ie_path e \<mapsto> ie_sha256 e) = f" by (simp add: fun_upd_idem)
    with s show "?Q s" by simp
  qed
  have save: "hoare (staged_in_memory X f e) (sender_save A) (\<lambda>_ s. \<exists>c. sc_entry c = e \<and> sending X f [c] s) (disk_ok X)"
  proof (rule hoare_sender_save)
    fix s :: "'a outbox" assume "staged_in_memory X f e s"
    then show "\<exists>c. sc_entry c = e \<and> sending X f [c] (s\<lparr>ob_ledger_file := document.Saved (ob_ledger s)\<rparr>)" by (rule staged_save)
  qed (auto dest: sending_disk simp: staged_in_memory_def)
  have flush: "hoare (\<lambda>s. \<exists>c. sc_entry c = e \<and> sending X f [c] s) (sender_flush A token insecure) (\<lambda>_. ?Q) (disk_ok X)"
  proof (rule hoareI)
    fix s x t assume a: "\<exists>c. sc_entry c = e \<and> sending X f [c] s" "sender_flush A token insecure s = (Inr x, t)"
    then obtain c where c: "sc_entry c = e" "sending X f [c] s" by blast
    from hoare_ok [OF hoare_sender_flush [OF assms] c(2) a(2)] c(1) show "?Q t" by (simp add: recorded_def)
  next
    fix s x t assume a: "\<exists>c. sc_entry c = e \<and> sending X f [c] s" "sender_flush A token insecure s = (Inl x, t)"
    then obtain c where c: "sc_entry c = e" "sending X f [c] s" by blast
    from hoare_err [OF hoare_sender_flush [OF assms] c(2) a(2)] show "disk_ok X t" .
  qed
  have go: "hoare (?P l) (if map_of (sl_files l) (ie_path e) = Some (ie_sha256 e) then retn 0
       else
         bindo (lifto (ensure (map_of (sl_files l) (ie_path e) \<noteq> None \<or> length (sl_files l) < MAX_ENTRIES)
           ''Sender history limit reached; no source files were deleted.'')) (\<lambda>_.
         bindo (lifto (validate_version \<lparr>dv_path = ie_path e, dv_version = sl_next_version l\<rparr>)) (\<lambda>_.
         bindo (stage_change A e (sl_next_version l)) (\<lambda>_.
         bindo (sender_save A) (\<lambda>_. sender_flush A token insecure))))) (\<lambda>_. ?Q) (disk_ok X)" for l
  proof (rule hoare_if)
    assume "map_of (sl_files l) (ie_path e) = Some (ie_sha256 e)"
    then show "hoare (?P l) (retn 0) (\<lambda>_. ?Q) (disk_ok X)" by (intro hoare_strengthen [OF done' [of l]]) simp
  next
    have st: "stable same_ledger (\<lambda>s. sending X f [] s \<and> sl_next_version l = sl_next_version (ob_ledger s))"
      using stable_sender(2) [of X f "[]"] by (auto simp: stable_def same_ledger_def)
    have "hoare (\<lambda>s. sending X f [] s \<and> sl_next_version l = sl_next_version (ob_ledger s))
         (bindo (lifto (ensure (map_of (sl_files l) (ie_path e) \<noteq> None \<or> length (sl_files l) < MAX_ENTRIES)
           ''Sender history limit reached; no source files were deleted.'')) (\<lambda>_.
         bindo (lifto (validate_version \<lparr>dv_path = ie_path e, dv_version = sl_next_version l\<rparr>)) (\<lambda>_.
         bindo (stage_change A e (sl_next_version l)) (\<lambda>_.
         bindo (sender_save A) (\<lambda>_. sender_flush A token insecure))))) (\<lambda>_. ?Q) (disk_ok X)"
      by (rule hoare_bindo [OF hoare_quiet hoare_bindo [OF hoare_quiet hoare_bindo [OF hoare_stage_change hoare_bindo [OF save flush]]]])
        (use st sending_disk in \<open>auto intro: quiet\<close>)
    then show "hoare (?P l) (bindo (lifto (ensure (map_of (sl_files l) (ie_path e) \<noteq> None \<or> length (sl_files l) < MAX_ENTRIES)
           ''Sender history limit reached; no source files were deleted.'')) (\<lambda>_.
         bindo (lifto (validate_version \<lparr>dv_path = ie_path e, dv_version = sl_next_version l\<rparr>)) (\<lambda>_.
         bindo (stage_change A e (sl_next_version l)) (\<lambda>_.
         bindo (sender_save A) (\<lambda>_. sender_flush A token insecure))))) (\<lambda>_. ?Q) (disk_ok X)"
      by (rule hoare_strengthen) simp
  qed
  show ?thesis
    unfolding send_entry_def by (rule hoare_bindo [OF hoare_readso_any go]) (rule sending_disk)
qed

lemma hoare_send_entries:
  assumes "px_ext (ox_disk A) = X"
  shows "hoare (sending X f []) (send_entries A token insecure es n)
     (\<lambda>_. sending X (fold (\<lambda>e f. f(ie_path e \<mapsto> ie_sha256 e)) es f) []) (disk_ok X)"
proof (induction es arbitrary: f n)
  case Nil
  then show ?case by (auto intro: hoare_retn)
next
  case (Cons e es)
  then show ?case
    unfolding send_entries.simps fold_simps by (rule hoare_bindo [OF hoare_send_entry [OF assms]])
qed

section \<open>Whole commands\<close>

text \<open>No operation touches the user's tree.\<close>

definition same_tree :: "'w outbox \<Rightarrow> 'w outbox \<Rightarrow> bool" where
  "same_tree s t \<longleftrightarrow> ob_tree t = ob_tree s"

named_theorems rooted \<open>operations that leave the tree alone\<close>

lemma rooted_quiet: "moves same_ledger m \<Longrightarrow> moves same_tree m"
  by (simp add: moves_def same_ledger_def same_tree_def)

lemmas rooted_calls [rooted] = quiet_atoms [THEN rooted_quiet] quiet_calls [THEN rooted_quiet]

lemma rooted_steps [rooted]:
  "moves same_tree m \<Longrightarrow> (\<And>x. moves same_tree (k x)) \<Longrightarrow> moves same_tree (bindo m k)"
  "moves same_tree m \<Longrightarrow> moves same_tree n \<Longrightarrow> moves same_tree (if c then m else n)"
  "(\<And>s. same_tree s (g s)) \<Longrightarrow> moves same_tree (modifyo g)"
  "moves same_tree w1 \<Longrightarrow> moves same_tree w2 \<Longrightarrow> moves same_tree w3 \<Longrightarrow>
     moves same_tree (case q of Written \<Rightarrow> w1 | WrittenNotSynced \<Rightarrow> w2 | NotWritten \<Rightarrow> w3)"
  by (rule moves_bindo) (simp_all add: same_tree_def moves_def op_defs split: write_outcome.split)

lemma rooted_edits [rooted]:
  "moves same_tree (edit_ledger g)" "moves same_tree (begin_upload p b)" "moves same_tree (confirm_change p d)"
  "moves same_tree (sender_save A)"
  unfolding edit_ledger_def begin_upload_def confirm_change_def sender_save_def save_file_def
  by (intro rooted; simp add: same_tree_def)+

lemma rooted_flush [rooted]: "moves same_tree (sender_flush A token insecure)"
proof -
  have "moves same_tree (flush_changes A token insecure ps)" for ps
    by (induction ps) (auto intro!: rooted simp: flush_change_def)
  then show ?thesis unfolding sender_flush_def by (intro rooted)
qed

lemma sending_floor:
  assumes "sending X f ps s" and "sl_next_version (ob_ledger s) \<le> k"
  shows "sending X f ps (s\<lparr>ob_ledger := (ob_ledger s)\<lparr>sl_next_version := k\<rparr>\<rparr>)"
proof -
  obtain l m where l: "disk_ok X s" "ob_ledger_file s = document.Saved l" "sl_initialized l" "sl_pending l = ps"
      "map_of (sl_files l) = f" "sl_next_version l \<le> m" "ob_ledger s = l\<lparr>sl_next_version := m\<rparr>"
    using assms(1) unfolding sending_def by blast
  have "disk_ok X (s\<lparr>ob_ledger := (ob_ledger s)\<lparr>sl_next_version := k\<rparr>\<rparr>)" using l(1,2) by (simp add: disk_ok_def)
  then show ?thesis
    unfolding sending_def using l assms(2) by (intro conjI exI [of _ l] exI [of _ k]) auto
qed

lemma hoare_sender_send:
  assumes "px_ext (ox_disk A) = X"
  shows "hoare (\<lambda>s. opened X s \<and> ob_tree s = tr) (sender_send A C token insecure)
     (\<lambda>_ s. \<exists>v f. root_inventory (ox_disk A) tr = Inr v
        \<and> sending X (fold (\<lambda>e f. f(ie_path e \<mapsto> ie_sha256 e)) (inv_entries v) f) [] s) (disk_ok X)"
proof -
  let ?S = "\<lambda>s :: 'a outbox. \<exists>f. sending X f [] s"
  let ?I = "\<lambda>s :: 'a outbox. ?S s \<and> ob_tree s = tr"
  let ?Q = "\<lambda>s :: 'a outbox. \<exists>v f. root_inventory (ox_disk A) tr = Inr v
        \<and> sending X (fold (\<lambda>e f. f(ie_path e \<mapsto> ie_sha256 e)) (inv_entries v) f) [] s"
  have st: "stable same_ledger ?S" "stable same_ledger ?I"
    using stable_sender(2) [of X _ "[]"] by (auto simp: stable_def same_ledger_def)
  have init: "hoare (\<lambda>s. opened X s \<and> ob_tree s = tr)
      (readso (\<lambda>s. ensure (sl_initialized (ob_ledger s)) msg)) (\<lambda>_ s. (\<exists>f ps. sending X f ps s) \<and> ob_tree s = tr) (disk_ok X)" for msg
    by (rule hoareI) (auto simp: op_defs dest: opened_sending opened_disk)
  have flush: "hoare (\<lambda>s. (\<exists>f ps. sending X f ps s) \<and> ob_tree s = tr) (sender_flush A token insecure) (\<lambda>_. ?I) (disk_ok X)"
  proof (rule hoareI)
    fix s x t assume a: "(\<exists>f ps. sending X f ps s) \<and> ob_tree s = tr" "sender_flush A token insecure s = (Inr x, t)"
    then obtain f ps where f: "sending X f ps s" by blast
    from hoare_ok [OF hoare_sender_flush [OF assms] f a(2)] movesD [OF rooted_flush a(2)] a(1)
    show "?I t" by (auto simp: same_tree_def)
  next
    fix s x t assume a: "(\<exists>f ps. sending X f ps s) \<and> ob_tree s = tr" "sender_flush A token insecure s = (Inl x, t)"
    then obtain f ps where f: "sending X f ps s" by blast
    from hoare_err [OF hoare_sender_flush [OF assms] f a(2)] show "disk_ok X t" .
  qed
  have read: "hoare ?I (sender_inventory A) (\<lambda>v s. ?S s \<and> root_inventory (ox_disk A) tr = Inr v) (disk_ok X)"
    unfolding sender_inventory_def
    by (rule hoare_bindo [OF hoare_quiet hoare_weaken [OF hoare_readso]])
      (use st(2) in \<open>auto intro: quiet dest: sending_disk\<close>)
  have floor: "hoare (\<lambda>s. ?S s \<and> root_inventory (ox_disk A) tr = Inr v) (adopt_floor remote)
      (\<lambda>_ s. ?S s \<and> root_inventory (ox_disk A) tr = Inr v) (disk_ok X)" for v remote
    unfolding adopt_floor_def edit_ledger_def
    by (rule hoareI) (auto simp: op_defs dest: sending_floor [OF _ max.cobounded1])
  have entries: "hoare (\<lambda>s. ?S s \<and> root_inventory (ox_disk A) tr = Inr v) (send_entries A token insecure (inv_entries v) n) (\<lambda>_. ?Q) (disk_ok X)" for v n
  proof (rule hoareI)
    fix s x t assume a: "?S s \<and> root_inventory (ox_disk A) tr = Inr v" "send_entries A token insecure (inv_entries v) n s = (Inr x, t)"
    then obtain f where f: "sending X f [] s" by blast
    from hoare_ok [OF hoare_send_entries [OF assms] f a(2)] a(1) show "?Q t" by blast
  next
    fix s x t assume a: "?S s \<and> root_inventory (ox_disk A) tr = Inr v" "send_entries A token insecure (inv_entries v) n s = (Inl x, t)"
    then obtain f where f: "sending X f [] s" by blast
    from hoare_err [OF hoare_send_entries [OF assms] f a(2)] show "disk_ok X t" .
  qed
  have stv: "stable same_ledger (\<lambda>s. ?S s \<and> root_inventory (ox_disk A) tr = Inr v)" for v
    using st(1) by (intro stable_conj) auto
  show ?thesis
    unfolding sender_send_def
    by (rule hoare_bindo [OF init hoare_bindo [OF flush hoare_bindo [OF read hoare_bindo [OF hoare_quiet hoare_bindo [OF hoare_quiet
          hoare_bindo [OF hoare_quiet hoare_bindo [OF floor entries]]]]]]])
      (use stv in \<open>auto intro: quiet dest: sending_disk\<close>)
qed

lemma hoare_load_file:
  assumes "stable same_ledger P" and "\<And>s. P s \<Longrightarrow> E s"
  shows "hoare P (load_file A field)
     (\<lambda>d s. P s \<and> (case d of None \<Rightarrow> field s = Missing | Some y \<Rightarrow> field s = document.Saved y)) E"
proof -
  have read: "hoare P (readso (\<lambda>s. case field s of Missing \<Rightarrow> Inr None | document.Saved d \<Rightarrow> Inr (Some d)
      | Broken \<Rightarrow> Inl (Bail ''failed to read or parse'')))
      (\<lambda>d s. P s \<and> (case d of None \<Rightarrow> field s = Missing | Some y \<Rightarrow> field s = document.Saved y)) E"
    by (rule hoareI) (use assms(2) in \<open>auto simp: op_defs split: document.splits\<close>)
  show ?thesis
    unfolding load_file_def by (rule hoare_bindo [OF hoare_quiet read]) (use assms in \<open>auto intro: quiet\<close>)
qed

text \<open>The ledger that is about to be saved when the sender is opened.\<close>

definition chosen :: "externals \<Rightarrow> sender_ledger \<Rightarrow> 'w outbox \<Rightarrow> bool" where
  "chosen X l s \<longleftrightarrow> disk_ok X s \<and> (ob_ledger_file s = document.Saved l
     \<or> ob_ledger_file s = Missing \<and> \<not> sl_initialized l \<and> sl_pending l = [] \<and> sl_files l = [])"

lemma chosen_save:
  assumes "chosen X l s" and "ob_ledger s = l"
  shows "opened X (s\<lparr>ob_ledger_file := document.Saved l\<rparr>)"
proof (cases "ob_ledger_file s")
  case (Saved k)
  with assms have "k = l" "ob_ledger s = l" "disk_ok X s" by (auto simp: chosen_def)
  with Saved show ?thesis by (simp add: opened_def disk_ok_def)
next
  case Missing
  with assms have c: "disk_ok X s" "\<not> sl_initialized l" "sl_pending l = []" "sl_files l = []"
    by (simp_all add: chosen_def)
  with Missing have "ob_begun s = []" by (simp add: disk_ok_def)
  with c show ?thesis using assms(2) by (auto simp: opened_def disk_ok_def ledger_inv_def accounted_def)
next
  case Broken
  then show ?thesis using assms by (simp add: chosen_def)
qed

lemma hoare_sender_open:
  "hoare (disk_ok X) (sender_open A root state scope) (\<lambda>_. opened X) (disk_ok X)"
proof -
  let ?P = "disk_ok X :: 'a outbox \<Rightarrow> bool" and ?C = "chosen X :: sender_ledger \<Rightarrow> 'a outbox \<Rightarrow> bool"
  have cd: "?C l s \<Longrightarrow> ?P s" for l s by (simp add: chosen_def)
  have choose: "hoare (\<lambda>s. ?P s \<and> (case found of None \<Rightarrow> ob_ledger_file s = Missing | Some y \<Rightarrow> ob_ledger_file s = document.Saved y))
      (case found of
         Some l \<Rightarrow> bindo (lifto (validate_sender_ledger X' l root i scope)) (\<lambda>_. retn l)
       | None \<Rightarrow> retn (new_sender_ledger root i scope)) ?C ?P" for found X' i
  proof (cases found)
    case None
    then show ?thesis by (auto intro!: hoare_retn simp: chosen_def new_sender_ledger_def)
  next
    case (Some l)
    have "hoare (\<lambda>s. ?P s \<and> ob_ledger_file s = document.Saved l)
        (bindo (lifto (validate_sender_ledger X' l root i scope)) (\<lambda>_. retn l)) ?C ?P"
      by (rule hoare_bindo [OF hoare_lifto hoare_retn]) (auto simp: chosen_def)
    with Some show ?thesis by simp
  qed
  have assign: "hoare (?C l) (edit_ledger (\<lambda>_. l)) (\<lambda>_ s. ?C l s \<and> ob_ledger s = l) ?P" for l
    unfolding edit_ledger_def by (rule hoareI) (auto simp: op_defs chosen_def disk_ok_def)
  have save: "hoare (\<lambda>s. ?C l s \<and> ob_ledger s = l) (sender_save A) (\<lambda>_. opened X) ?P" for l
  proof (rule hoare_sender_save)
    show "stable same_ledger (\<lambda>s. ?C l s \<and> ob_ledger s = l)"
      by (auto simp: stable_def same_ledger_def chosen_def disk_ok_def split: document.splits)
  qed (use cd in \<open>auto intro: chosen_save opened_disk\<close>)
  show ?thesis
    unfolding sender_open_def
    by (rule hoare_bindo [OF hoare_quiet hoare_bindo [OF hoare_quiet hoare_bindo [OF hoare_quiet hoare_bindo [OF hoare_quiet
          hoare_bindo [OF hoare_load_file hoare_bindo [OF choose hoare_bindo [OF assign save]]]]]]])
      (auto intro: quiet)
qed

lemma rooted_open [rooted]: "moves same_tree (sender_open A root state scope)"
proof -
  have "moves same_tree (case found of Some l \<Rightarrow> bindo (lifto (r l)) (\<lambda>_. retn l) | None \<Rightarrow> retn l')" for found l' and r :: "_ \<Rightarrow> unit res"
    by (cases found) (auto intro!: rooted)
  then show ?thesis unfolding sender_open_def by (intro rooted)
qed

lemma unchanged_accounted:
  assumes "compare_remote X source remote = Inr c"
  shows "accounted X (unchanged_files source c) confirmed (Some (source, remote))"
proof -
  have "agreed_on X (Some (source, remote)) path sha" if "map_of (unchanged_files source c) path = Some sha" for path sha
  proof -
    let ?kvs = "List.map (\<lambda>e. (ie_path e, ie_sha256 e))
       (List.filter (\<lambda>e. ie_path e \<notin> set (cmp_missing c) \<union> set (cmp_different c)) (inv_entries source))"
    have "map_of (rev ?kvs) path = Some sha"
      using that by (simp add: unchanged_files_def bt_of_list_def fold_bt_insert_map_of)
    then have "(path, sha) \<in> set ?kvs" using map_of_SomeD by fastforce
    with assms show ?thesis by (auto simp: agreed_on_def)
  qed
  then show ?thesis by (simp add: accounted_def)
qed

text \<open>The consent is in memory only.\<close>

definition consented :: "externals \<Rightarrow> 'w outbox \<Rightarrow> bool" where
  "consented X s \<longleftrightarrow> disk_ok X s \<and> ob_begun s = [] \<and> sl_pending (ob_ledger s) = [] \<and> sl_initialized (ob_ledger s)
     \<and> accounted X (sl_files (ob_ledger s)) (ob_confirmed s) (ob_agreed s)"

lemma opened_untouched:
  assumes "opened X s" and "\<not> sl_initialized (ob_ledger s)"
  shows "ob_begun s = [] \<and> sl_pending (ob_ledger s) = [] \<and> sl_files (ob_ledger s) = [] \<and> ob_confirmed s = []
    \<and> history_ok X [] \<and> ledger_inv (ob_ledger s) [] \<and> disk_ok X s"
proof -
  from assms(1) have d: "disk_ok X s" and f: "ob_ledger_file s = document.Saved (ob_ledger s)" by (simp_all add: opened_def)
  with assms(2) have l: "ledger_inv (ob_ledger s) (ob_begun s)" by (simp add: disk_ok_def)
  with assms(2) have b: "ob_begun s = []" "sl_pending (ob_ledger s) = []" "sl_files (ob_ledger s) = []"
    unfolding ledger_inv_def by blast+
  with d l show ?thesis by (auto simp: disk_ok_def)
qed

lemma opened_agree:
  assumes "opened X s" and "\<not> sl_initialized (ob_ledger s)"
  shows "opened X (s\<lparr>ob_agreed := g\<rparr>)"
  using assms(1) opened_untouched [OF assms] by (auto simp: opened_def disk_ok_def accounted_def)

lemma consented_save:
  assumes "consented X s"
  shows "opened X (s\<lparr>ob_ledger_file := document.Saved (ob_ledger s)\<rparr>)"
proof -
  from assms have "disk_ok X s" "ob_begun s = []" by (simp_all add: consented_def)
  then have "history_ok X [] \<and> ob_confirmed s = []" by (auto simp: disk_ok_def)
  with assms show ?thesis by (simp add: consented_def opened_def disk_ok_def ledger_inv_def)
qed

lemma consented_disk: "consented X s \<Longrightarrow> disk_ok X s"
  by (simp add: consented_def)

lemma opened_consented:
  assumes "opened X s" and "\<not> sl_initialized (ob_ledger s)" and "compare_remote X source remote = Inr c"
    and "ob_agreed s = Some (source, remote)"
  shows "consented X (s\<lparr>ob_ledger := (ob_ledger s)\<lparr>sl_next_version := n, sl_files := unchanged_files source c,
    sl_initialized := True\<rparr>\<rparr>)"
proof -
  note u = opened_untouched [OF assms(1,2)]
  have "disk_ok X (s\<lparr>ob_ledger := l\<rparr>)" for l using opened_disk [OF assms(1)] by (simp add: disk_ok_def cong: document.case_cong)
  then show ?thesis using u assms(4) unchanged_accounted [OF assms(3)] by (simp add: consented_def)
qed

lemma hoare_initialize:
  assumes "px_ext (ox_disk A) = X"
  shows "hoare (opened X) (sender_initialize A C) (\<lambda>_. opened X) (disk_ok X)"
proof -
  let ?P = "\<lambda>s :: 'a outbox. opened X s \<and> \<not> sl_initialized (ob_ledger s)"
  let ?G = "\<lambda>source remote c (s :: 'a outbox). ?P s \<and> compare_remote X source remote = Inr c \<and> ob_agreed s = Some (source, remote)"
  have pd: "?P s \<Longrightarrow> disk_ok X s" for s by (simp add: opened_def)
  have st: "stable same_ledger ?P" using stable_sender(3) [of X] by (auto simp: stable_def same_ledger_def)
  have init: "hoare (opened X) (readso (\<lambda>s. ensure (\<not> sl_initialized (ob_ledger s)) msg)) (\<lambda>_. ?P) (disk_ok X)" for msg
    by (rule hoareI) (auto simp: op_defs dest: opened_disk)
  have ag: "hoare (\<lambda>s. ?P s \<and> compare_remote X source remote = Inr c) (agree source remote) (\<lambda>_. ?G source remote c) (disk_ok X)" for source remote c
    unfolding agree_def by (rule hoareI) (auto simp: op_defs intro: opened_agree)
  have edit: "hoare (?G source remote c) (edit_ledger (\<lambda>l. l\<lparr>sl_next_version := n, sl_files := unchanged_files source c,
       sl_initialized := True\<rparr>)) (\<lambda>_. consented X) (disk_ok X)" for source remote c n
    unfolding edit_ledger_def
    by (rule hoareI) (auto simp: op_defs intro: opened_consented)
  have save: "hoare (consented X) (sender_save A) (\<lambda>_. opened X) (disk_ok X)"
  proof (rule hoare_sender_save)
    show "stable same_ledger (consented X)"
      by (auto simp: stable_def same_ledger_def consented_def disk_ok_def split: document.splits)
  qed (auto dest: opened_disk consented_disk intro: consented_save)
  have cmp: "hoare ?P (lifto (compare_remote (px_ext (ox_disk A)) source remote))
      (\<lambda>c s. ?P s \<and> compare_remote X source remote = Inr c) (disk_ok X)" for source remote
    by (rule hoare_weaken [OF hoare_lifto]) (use pd assms in auto)
  have stc: "stable same_ledger (\<lambda>s. ?P s \<and> b)" for b using st by (auto simp: stable_def)
  show ?thesis
    unfolding sender_initialize_def
    by (rule hoare_bindo [OF init hoare_bindo [OF hoare_quiet hoare_bindo [OF hoare_quiet hoare_bindo [OF hoare_quiet hoare_bindo
          [OF hoare_quiet hoare_bindo [OF hoare_quiet hoare_bindo [OF cmp hoare_bindo [OF hoare_quiet hoare_bindo [OF hoare_quiet
          hoare_bindo [OF ag hoare_bindo [OF edit save]]]]]]]]]]])
      (use st stc pd in \<open>auto intro: quiet\<close>)
qed

lemma hoare_sender_command:
  assumes "px_ext (ox_disk A) = X"
  shows "hoare (disk_ok X) (sender_command_run A C root state scope token insecure c) (\<lambda>_. disk_ok X) (disk_ok X)"
proof -
  have preview: "hoare (opened X) (bindo (sender_preview A C) (\<lambda>_. retn ())) (\<lambda>_. disk_ok X) (disk_ok X)"
    by (rule hoare_bindo [OF hoare_quiet hoare_retn]) (auto intro: quiet dest: opened_disk)
  have init: "hoare (opened X) (bindo (lifto (ensure sure msg)) (\<lambda>_. sender_initialize A C)) (\<lambda>_. disk_ok X) (disk_ok X)" for sure msg
  proof (rule hoare_bindo [OF hoare_quiet])
    show "hoare (opened X) (sender_initialize A C) (\<lambda>_. disk_ok X) (disk_ok X)"
      by (rule hoareI) (use hoare_ok [OF hoare_initialize [OF assms]] hoare_err [OF hoare_initialize [OF assms]] in
        \<open>blast dest: opened_disk\<close>)+
  qed (auto intro: quiet dest: opened_disk)
  have send: "hoare (opened X) (bindo (sender_send A C token insecure) (\<lambda>_. retn ())) (\<lambda>_. disk_ok X) (disk_ok X)"
  proof -
    have "hoare (opened X) (sender_send A C token insecure) (\<lambda>_. disk_ok X) (disk_ok X)"
      by (rule hoareI) (use hoare_ok [OF hoare_sender_send [OF assms]] hoare_err [OF hoare_sender_send [OF assms]] in \<open>blast dest: sending_disk\<close>)+
    then show ?thesis by (rule hoare_bindo [OF _ hoare_retn]) auto
  qed
  show ?thesis
    unfolding sender_command_run_def
    by (rule hoare_bindo [OF hoare_sender_open]) (cases c; use preview init send in simp)
qed

lemma send_command_ok:
  assumes "px_ext (ox_disk A) = X" and "disk_ok X s"
    and "sender_command_run A C root state scope token insecure SendCommand s = (Inr (), t)"
  shows "\<exists>v f. root_inventory (ox_disk A) (ob_tree s) = Inr v
     \<and> sending X (fold (\<lambda>e f. f(ie_path e \<mapsto> ie_sha256 e)) (inv_entries v) f) [] t"
proof -
  obtain u n where o: "sender_open A root state scope s = (Inr (), u)" and n: "sender_send A C token insecure u = (Inr n, t)"
    using assms(3) by (auto simp: sender_command_run_def bindo_def split: prod.splits sum.splits)
  have "opened X u" using hoare_ok [OF hoare_sender_open assms(2) o] .
  moreover have "ob_tree u = ob_tree s" using movesD [OF rooted_open o] by (simp add: same_tree_def)
  ultimately show ?thesis using hoare_ok [OF hoare_sender_send [OF assms(1)] _ n] by blast
qed

section \<open>Runs\<close>

text \<open>
  Commands run one after another, each in a world of its own; between two commands the user
  changes the directory at will. A command that is killed is one whose calls fail from some point on.
\<close>

inductive sender_runs :: "externals \<Rightarrow> 'w outbox \<Rightarrow> 'w outbox \<Rightarrow> bool" for X :: externals where
  sender_idle: "sender_runs X s s"
| sender_edit: "sender_runs X s t \<Longrightarrow> sender_runs X s (t\<lparr>ob_tree := tree, ob_world := w\<rparr>)"
| sender_call: "sender_runs X s t \<Longrightarrow> px_ext (ox_disk A) = X \<Longrightarrow>
    sender_runs X s (snd (sender_command_run A C root state scope token insecure c t))"

lemma sender_runs_disk: "sender_runs X s t \<Longrightarrow> disk_ok X s \<Longrightarrow> disk_ok X t"
proof (induction rule: sender_runs.induct)
  case (sender_edit s t tree w)
  then show ?case by (simp add: disk_ok_def cong: document.case_cong)
next
  case (sender_call s t A C root state scope token insecure c)
  then show ?case
    using hoare_sender_command [of A X C root state scope token insecure c]
    by (cases "sender_command_run A C root state scope token insecure c t"; cases "fst (sender_command_run A C root state scope token insecure c t)")
      (auto dest: hoare_ok hoare_err)
qed simp

definition outbox_start :: "'w outbox \<Rightarrow> bool" where
  "outbox_start s \<longleftrightarrow> ob_ledger_file s = Missing \<and> ob_begun s = [] \<and> ob_confirmed s = []"

lemma start_disk: "outbox_start s \<Longrightarrow> disk_ok X s"
  by (simp add: outbox_start_def disk_ok_def history_ok_def)

end
