(* ===== verification/Sending.thy ===== *)
theory Sending
  imports SenderSafe Upload
begin

text \<open>
  The guarantees of the sending half over whole runs of the commands, with a sample run: initialising
  an empty directory, adding a file, and sending it.
\<close>

section \<open>What a scan finds\<close>

text \<open>A name that the scan passes over; a file that it reaches.\<close>

definition skipped :: "string \<Rightarrow> bool" where
  "skipped n \<longleftrightarrow> prefix ''.mirelay'' (to_ascii_lowercase n)"

definition shown_below :: "tree \<Rightarrow> place \<Rightarrow> place \<Rightarrow> bool" where
  "shown_below t p ks \<longleftrightarrow> ks \<noteq> [] \<and> (\<forall>k \<in> set ks. \<not> skipped k)
     \<and> (\<forall>j. 0 < j \<and> j < length ks \<longrightarrow> is_folder (map_of t (p @ take j ks)))"

lemma in_children: "map_of t (p @ [n]) = Some x \<Longrightarrow> n \<in> set (children t p)"
  by (force simp: children_def dest: map_of_SomeD)

lemma shown_next:
  assumes "shown_below t p (k # ks)" and "ks \<noteq> []"
  shows "shown_below t (p @ [k]) ks" and "\<exists>i. map_of t (p @ [k]) = Some (Folder i)"
proof -
  have f: "is_folder (map_of t (p @ take j (k # ks)))" if "0 < j" "j < Suc (length ks)" for j
    using assms(1) that by (simp add: shown_below_def)
  from f [of "Suc j" for j] have "is_folder (map_of t ((p @ [k]) @ take j ks))" if "0 < j" "j < length ks" for j
    using that by simp
  with assms show "shown_below t (p @ [k]) ks" by (simp add: shown_below_def)
  from f [of 1] assms(2) show "\<exists>i. map_of t (p @ [k]) = Some (Folder i)"
    by (auto simp: is_folder_def split: option.splits item.splits)
qed

definition listed :: "externals \<Rightarrow> place \<Rightarrow> bytes \<Rightarrow> inventory_entry list \<Rightarrow> bool" where
  "listed X ks b es \<longleftrightarrow> (\<exists>e \<in> set es. ie_path e = join_with slash ks \<and> ie_sha256 e = sha256_hex X b \<and> ie_size e = length b)"

lemma listed_mono: "listed X ks b es \<Longrightarrow> set es \<subseteq> set fs \<Longrightarrow> listed X ks b fs"
  by (auto simp: listed_def)

lemma scan_file_finds:
  assumes "scan_file X (join_with slash ks) x progress = Inr (n, found)"
  shows "set (snd progress) \<subseteq> set found" and "x = Regular i b \<Longrightarrow> listed X ks b found"
  using assms by (auto simp: scan_file_def file_digest_def andthen_Inr listed_def split: item.splits if_splits)

lemma scan_step:
  assumes "scan_place X t depth p (k # ns) progress = Inr (n, found)"
  obtains rest where "scan_place X t depth p ns rest = Inr (n, found)"
    and "skipped k \<and> snd rest = snd progress
       \<or> \<not> skipped k \<and> (\<exists>i d. map_of t (p @ [k]) = Some (Folder i) \<and> depth = Suc d
            \<and> scan_place X t d (p @ [k]) (children t (p @ [k])) (fst progress - 1, snd progress) = Inr rest)
       \<or> \<not> skipped k \<and> (\<exists>x. map_of t (p @ [k]) = Some x \<and> (\<forall>i. x \<noteq> Folder i)
            \<and> scan_file X (join_with slash (p @ [k])) x (fst progress - 1, snd progress) = Inr rest)"
proof -
  from assms obtain rest where r: "scan_place X t depth p ns rest = Inr (n, found)"
    and c: "(if skipped k then Inr (fst progress - 1, snd progress)
       else
         let path = join_with slash (p @ [k]) in
         andthen (validate_path path) (\<lambda>_.
         case map_of t (p @ [k]) of
           None \<Rightarrow> Inl (Bail ''no such file'')
         | Some (Folder i) \<Rightarrow>
             (case depth of
                0 \<Rightarrow> Inl (Bail ''Directory nesting exceeds 16 levels.'')
              | Suc d \<Rightarrow> scan_place X t d (p @ [k]) (children t (p @ [k])) (fst progress - 1, snd progress))
         | Some x \<Rightarrow> scan_file X path x (fst progress - 1, snd progress))) = Inr rest"
    by (auto simp: andthen_Inr skipped_def simp del: validate_path_ok)
  from c show thesis
    by (intro that [OF r]) (auto simp: andthen_Inr Let_def split: if_splits option.splits item.splits nat.splits)
qed

lemma scan_finds:
  "scan_place X t depth p ns progress = Inr (n, found) \<Longrightarrow>
     set (snd progress) \<subseteq> set found
     \<and> (\<forall>k ks i b. k \<in> set ns \<and> shown_below t p (k # ks) \<and> map_of t (p @ k # ks) = Some (Regular i b)
          \<longrightarrow> listed X (p @ k # ks) b found)"
proof (induction depth arbitrary: p ns progress n found rule: less_induct)
  case (less depth)
  from less.prems show ?case
  proof (induction ns arbitrary: progress)
    case Nil
    then show ?case by simp
  next
    case (Cons k ns)
    from Cons.prems obtain rest where r: "scan_place X t depth p ns rest = Inr (n, found)"
      and c: "skipped k \<and> snd rest = snd progress
       \<or> \<not> skipped k \<and> (\<exists>i d. map_of t (p @ [k]) = Some (Folder i) \<and> depth = Suc d
            \<and> scan_place X t d (p @ [k]) (children t (p @ [k])) (fst progress - 1, snd progress) = Inr rest)
       \<or> \<not> skipped k \<and> (\<exists>x. map_of t (p @ [k]) = Some x \<and> (\<forall>i. x \<noteq> Folder i)
            \<and> scan_file X (join_with slash (p @ [k])) x (fst progress - 1, snd progress) = Inr rest)"
      by (rule scan_step)
    note later = Cons.IH [OF r]
    have "set (snd progress) \<subseteq> set (snd rest)
        \<and> (\<forall>ks i b. shown_below t p (k # ks) \<and> map_of t (p @ k # ks) = Some (Regular i b) \<longrightarrow> listed X (p @ k # ks) b (snd rest))"
      using c
    proof (elim disjE conjE exE)
      assume "skipped k" "snd rest = snd progress"
      then show ?thesis by (simp add: shown_below_def)
    next
      fix i d assume f: "map_of t (p @ [k]) = Some (Folder i)" "depth = Suc d"
        and s: "scan_place X t d (p @ [k]) (children t (p @ [k])) (fst progress - 1, snd progress) = Inr rest"
      note below = less.IH [of d "p @ [k]" "children t (p @ [k])" "(fst progress - 1, snd progress)" "fst rest" "snd rest"]
      have "listed X (p @ k # ks) b (snd rest)"
        if a: "shown_below t p (k # ks)" "map_of t (p @ k # ks) = Some (Regular i' b)" for ks i' b
      proof (cases ks)
        case Nil
        with a(2) f(1) show ?thesis by simp
      next
        case (Cons k' ks')
        have "k' \<in> set (children t (p @ [k]))"
        proof (cases ks')
          case Nil
          with a(2) Cons show ?thesis by (intro in_children [of t "p @ [k]"]) simp
        next
          case Cons': (Cons k'' ks'')
          from shown_next(2) [of t "p @ [k]" k' ks'] shown_next(1) [OF a(1)] Cons Cons' show ?thesis
            by (auto intro: in_children)
        qed
        with below s f(2) shown_next(1) [OF a(1)] a(2) Cons show ?thesis by fastforce
      qed
      with below s f(2) show ?thesis by simp
    next
      fix x assume x: "map_of t (p @ [k]) = Some x" "\<forall>i. x \<noteq> Folder i"
        and s: "scan_file X (join_with slash (p @ [k])) x (fst progress - 1, snd progress) = Inr rest"
      from s have g: "scan_file X (join_with slash (p @ [k])) x (fst progress - 1, snd progress) = Inr (fst rest, snd rest)" by simp
      have "listed X (p @ k # ks) b (snd rest)"
        if a: "shown_below t p (k # ks)" "map_of t (p @ k # ks) = Some (Regular i b)" for ks i b
      proof (cases "ks = []")
        case True
        with a(2) x(1) scan_file_finds(2) [OF g] show ?thesis by simp
      next
        case False
        from shown_next(2) [OF a(1) False] x show ?thesis by auto
      qed
      with scan_file_finds(1) [OF g] show ?thesis by simp
    qed
    with later show ?case by (auto intro: listed_mono [of X _ _ "snd rest"])
  qed
qed

lemma inventory_finds:
  assumes "root_inventory A t = Inr v" and "shown_below t [] ks" and "map_of t ks = Some (Regular i b)"
  shows "listed (px_ext A) ks b (inv_entries v)" and "distinct (List.map ie_path (inv_entries v))"
proof -
  from assms(1) obtain n found where s: "scan_place (px_ext A) t 16 [] (children t []) (2 * MAX_ENTRIES, []) = Inr (n, found)"
    and v: "inv_entries v = sort_key ie_path found" "valid_inventory (px_ext A) v"
    by (auto simp: root_inventory_def andthen_Inr Let_def)
  obtain k ks' where k: "ks = k # ks'" using assms(2) by (cases ks) (auto simp: shown_below_def)
  have "k \<in> set (children t [])"
  proof (cases ks')
    case Nil
    with assms(3) k show ?thesis by (intro in_children [of t "[]"]) simp
  next
    case Cons
    with shown_next(2) [of t "[]" k ks'] assms(2) k show ?thesis by (auto intro: in_children [of t "[]", simplified])
  qed
  with scan_finds [OF s] assms(2,3) k have "listed (px_ext A) ks b found" by fastforce
  then show "listed (px_ext A) ks b (inv_entries v)" by (rule listed_mono) (simp add: v)
  show "distinct (List.map ie_path (inv_entries v))" using v(2) by (simp add: valid_inventory_iff)
qed

section \<open>Guarantees\<close>

lemma fold_entries:
  "distinct (List.map ie_path es) \<Longrightarrow> e \<in> set es \<Longrightarrow>
     fold (\<lambda>e f. f(ie_path e \<mapsto> ie_sha256 e)) es f (ie_path e) = Some (ie_sha256 e)"
proof (induction es arbitrary: f)
  case (Cons a es)
  have keep: "ie_path e \<notin> ie_path ` set fs \<Longrightarrow> fold (\<lambda>e f. f(ie_path e \<mapsto> ie_sha256 e)) fs f (ie_path e) = f (ie_path e)" for fs f
    by (induction fs arbitrary: f) auto
  show ?case
  proof (cases "e \<in> set es")
    case True
    with Cons show ?thesis by simp
  next
    case False
    with Cons.prems have "e = a" "ie_path e \<notin> ie_path ` set es" by auto
    with keep [of es] show ?thesis by (simp del: fun_upd_apply) (simp add: fun_upd_same)
  qed
qed simp

text \<open>
  C7. A version number stands for one change only. Whatever commands ran, were killed or failed, the
  uploads begun have versions that never go back, two of them with the same version are of the same
  change (a retry), and every one of them was of bytes with the length and the digest recorded.
\<close>

theorem versions_unique:
  assumes "outbox_start s" and "sender_runs X s t"
  shows "sorted (List.map (sc_version \<circ> fst) (ob_begun t))
     \<and> (\<forall>(p, b) \<in> set (ob_begun t). sha256_hex X b = ie_sha256 (sc_entry p) \<and> length b = ie_size (sc_entry p))
     \<and> (\<forall>(p, b) \<in> set (ob_begun t). \<forall>(q, c) \<in> set (ob_begun t). sc_version p = sc_version q \<longrightarrow> p = q)"
  using sender_runs_disk [OF assms(2) start_disk [OF assms(1)]] by (simp add: disk_ok_def history_ok_def)

text \<open>
  C9. The ledger on disk records a file as sent only when the server confirmed a delivery of that
  content, whose upload was begun before, or when the receiver had it already at the initialisation.
\<close>

theorem tracked_only_delivered:
  assumes "outbox_start s" and "sender_runs X s t" and "ob_ledger_file t = document.Saved l"
    and "map_of (sl_files l) path = Some sha"
  shows "(\<exists>p b d. (p, Some d) \<in> set (ob_confirmed t) \<and> (p, b) \<in> set (ob_begun t) \<and> ie_path (sc_entry p) = path
       \<and> ie_sha256 (sc_entry p) = sha \<and> sha256_hex X b = sha)
     \<or> agreed_on X (ob_agreed t) path sha"
proof -
  have d: "disk_ok X t" using sender_runs_disk [OF assms(2) start_disk [OF assms(1)]] .
  then have a: "accounted X (sl_files l) (ob_confirmed t) (ob_agreed t)" and c: "confirmed_ok (ob_begun t) (ob_confirmed t)"
    and h: "history_ok X (ob_begun t)"
    using assms(3) by (simp_all add: disk_ok_def)
  from a assms(4) consider p d where "(p, d) \<in> set (ob_confirmed t)" "ie_path (sc_entry p) = path" "ie_sha256 (sc_entry p) = sha"
    | "agreed_on X (ob_agreed t) path sha"
    unfolding accounted_def by blast
  then show ?thesis
  proof cases
    case 1
    with c obtain b i where b: "(p, b) \<in> set (ob_begun t)" "d = Some i" by (fastforce simp: confirmed_ok_def)
    with h have "sha256_hex X b = ie_sha256 (sc_entry p)" by (fastforce simp: history_ok_def)
    with 1 b show ?thesis by blast
  qed simp
qed

text \<open>
  C8. A send that ends without an error leaves nothing pending, and records every file of the
  directory that a scan reaches with the digest of its contents.
\<close>

theorem send_complete:
  assumes "outbox_start s" and "sender_runs X s t" and "px_ext (ox_disk A) = X"
    and "sender_command_run A C root state scope token insecure SendCommand t = (Inr (), u)"
    and "shown_below (ob_tree t) [] ks" and "map_of (ob_tree t) ks = Some (Regular i b)"
  shows "\<exists>l. ob_ledger_file u = document.Saved l \<and> sl_pending l = []
     \<and> map_of (sl_files l) (join_with slash ks) = Some (sha256_hex X b)"
proof -
  obtain v f where v: "root_inventory (ox_disk A) (ob_tree t) = Inr v"
    and f: "sending X (fold (\<lambda>e f. f(ie_path e \<mapsto> ie_sha256 e)) (inv_entries v) f) [] u"
    using send_command_ok [OF assms(3) sender_runs_disk [OF assms(2) start_disk [OF assms(1)]] assms(4)] by blast
  obtain e where e: "e \<in> set (inv_entries v)" "ie_path e = join_with slash ks" "ie_sha256 e = sha256_hex X b"
    using inventory_finds(1) [OF v assms(5,6)] assms(3) by (auto simp: listed_def)
  from fold_entries [OF inventory_finds(2) [OF v assms(5,6)] e(1), of f] e f show ?thesis
    by (auto simp: sending_def)
qed

section \<open>A sample run\<close>

text \<open>A server that holds the upload complete as soon as it was created.\<close>

definition sent_metadata :: string where
  "sent_metadata = directory_metadata_header sample_codecs ''a.png'' (inspection_of sample_ext sample_png)
     (Some \<lparr>dv_path = ''a.png'', dv_version = 1\<rparr>)"

definition sample_net :: "nat outside" where
  "sample_net = \<lparr>out_ext = sample_ext, out_codecs = sample_codecs, out_urls = out_urls sample_outside,
     out_send = (\<lambda>rq w. (Inr \<lparr>hr_status = (if rq_method rq = Post then 201 else 200),
         hr_headers = [(''tus-resumable'', ''1.0.0''), (''tus-version'', ''1.0.0''), (''tus-extension'', ''creation''),
           (''tus-max-size'', decimal 1024), (''location'', sample_address), (''upload-offset'', decimal 12),
           (''upload-length'', decimal 12), (''upload-metadata'', sent_metadata),
           (''mirelay-delivery-id'', sample_id (CHR ''1''))], hr_body = None\<rparr>, w)),
     out_event = (\<lambda>e w. (True, w))\<rparr>"

definition sample_outbox_api :: "nat outbox_api" where
  "sample_outbox_api = \<lparr>ox_disk = sample_disk, ox_net = sample_net, ox_ledger_length = \<lambda>l. 0, ox_preview_length = \<lambda>p. 0\<rparr>"

definition empty_inventory :: inventory where
  "empty_inventory = \<lparr>inv_id = sample_id (CHR ''8''), inv_entries = []\<rparr>"

definition empty_remote :: directory_state where
  "empty_remote = \<lparr>ds_schema_version = DIR_VERSION, ds_receiver = Some empty_inventory, ds_entries = []\<rparr>"

definition sample_folder :: "nat directory_client" where
  "sample_folder = \<lparr>dc_state = \<lambda>w. (Inr empty_remote, w), dc_publish = \<lambda>u w. (Inr (iu_inventory u), w),
     dc_acknowledge = \<lambda>a w. (Inr (), w)\<rparr>"

definition empty_comparison :: comparison where
  "empty_comparison = \<lparr>cmp_identical = 0, cmp_missing = [], cmp_different = [], cmp_destination_only = 0\<rparr>"

definition sample_outbox :: "nat outbox" where
  "sample_outbox = \<lparr>ob_world = 1000, ob_tree = [([], Folder 4)], ob_jobs = [], ob_ledger_file = Missing,
     ob_preview_file = document.Saved \<lparr>pv_source = empty_inventory, pv_remote = empty_remote, pv_comparison = empty_comparison\<rparr>,
     ob_retired = False, ob_ledger = new_sender_ledger ''/'' 0 ''/'', ob_begun = [], ob_confirmed = [], ob_agreed = None\<rparr>"

lemma sample_outbox_fields [simp]:
  "ox_disk sample_outbox_api = sample_disk" "ox_net sample_outbox_api = sample_net"
  "ox_ledger_length sample_outbox_api l = 0" "ox_preview_length sample_outbox_api p = 0"
  "dc_state sample_folder = (\<lambda>w. (Inr empty_remote, w))" "inv_entries empty_inventory = []" "ds_entries empty_remote = []"
  by (simp_all add: sample_outbox_api_def sample_folder_def empty_inventory_def empty_remote_def)

lemma empty_compared: "compare_remote sample_ext empty_inventory empty_remote = Inr empty_comparison"
proof -
  have "valid_inventory sample_ext \<lparr>inv_id = sample_id (CHR ''8''), inv_entries = []\<rparr>"
    by (simp add: valid_inventory_iff uuid_canonical_def tree_consistent_def ascii_defs)
  then have "valid_inventory sample_ext empty_inventory" "compare sample_ext empty_inventory empty_inventory = Inr empty_comparison"
    by (simp_all add: compare_Inr empty_inventory_def empty_comparison_def tree_consistent_def)
  then show ?thesis
    by (simp add: compare_remote_def validate_directory_state_def empty_remote_def andthen_Inr MAX_ENTRIES_def
      expected_inventory_def bt_of_list_def) (simp add: empty_inventory_def)
qed

lemma empty_scanned: "root_inventory sample_disk [([], Folder 4)] = Inr empty_inventory"
  by (simp add: root_inventory_def children_def andthen_Inr valid_inventory_iff uuid_canonical_def tree_consistent_def
    ascii_defs empty_inventory_def sample_disk_def Let_def)

definition ready_ledger :: sender_ledger where
  "ready_ledger = (new_sender_ledger ''/d'' 4 ''/'')\<lparr>sl_initialized := True\<rparr>"

lemmas outbox_calls = sender_command_run_def sender_open_def bindo_def op_defs query_def allowed_def load_file_def save_file_def
  sender_save_def edit_ledger_def sender_inventory_def outward_def path_starts_with_def

lemma sample_initialized:
  "\<exists>t. sender_command_run sample_outbox_api sample_folder ''/d'' ''/s'' ''/'' ''t'' False (InitializeCommand True) sample_outbox = (Inr (), t)
     \<and> ob_ledger_file t = document.Saved ready_ledger \<and> ob_jobs t = [] \<and> ob_begun t = [] \<and> ob_confirmed t = []
     \<and> \<not> ob_retired t"
  by (simp add: outbox_calls sample_outbox_def new_sender_ledger_def sender_initialize_def empty_scanned empty_compared no_empty_files_def
    newest_def unchanged_files_def agree_def bt_of_list_def MAX_BODY_def checked_add_u64_def u64_max_def ready_ledger_def
    del: One_nat_def)

definition sent_entry :: inventory_entry where
  "sent_entry = \<lparr>ie_path = ''a.png'', ie_sha256 = sample_sha, ie_size = 12\<rparr>"

definition sent_change :: staged_change where
  "sent_change = \<lparr>sc_id = sample_id (CHR ''7''), sc_entry = sent_entry, sc_version = 1\<rparr>"

definition sent_inventory :: inventory where
  "sent_inventory = \<lparr>inv_id = sample_id (CHR ''8''), inv_entries = [sent_entry]\<rparr>"

definition sent_tree :: tree where
  "sent_tree = [([], Folder 4), ([''a.png''], Regular 5 sample_png)]"

lemma sent_facts [simp]:
  "inv_entries sent_inventory = [sent_entry]" "ie_path sent_entry = ''a.png''" "ie_sha256 sent_entry = sample_sha"
  "ie_size sent_entry = 12" "sc_id sent_change = sample_id (CHR ''7'')" "sc_entry sent_change = sent_entry" "sc_version sent_change = 1"
  by (simp_all add: sent_inventory_def sent_entry_def sent_change_def)

lemma sent_path: "valid_path ''a.png''"
  by (simp add: valid_path_iff safe_component_def to_ascii_lowercase_def ascii_lower_char_def ascii_defs)

lemma sent_valid: "valid_inventory sample_ext \<lparr>inv_id = sample_id (CHR ''8''), inv_entries = [sent_entry]\<rparr>"
  using sent_path by (simp add: valid_inventory_iff uuid_canonical_def tree_consistent_def valid_entry_def MAX_ENTRIES_def i64_max_def ascii_defs)

lemma sent_scanned: "root_inventory sample_disk sent_tree = Inr sent_inventory"
proof -
  have "\<not> prefix ''.mirelay'' (to_ascii_lowercase ''a.png'')" by (simp add: to_ascii_lowercase_def ascii_lower_char_def ascii_defs)
  moreover have "valid_utf8 ''a.png''" using ascii_text_header [of "''a.png''"] by (simp add: ascii_text_def)
  ultimately show ?thesis
    using sent_path sent_valid [unfolded sent_entry_def] sample_digests
    by (simp add: root_inventory_def sent_tree_def children_def andthen_Inr scan_file_def file_digest_def MAX_ENTRIES_def
      sample_small sent_inventory_def sample_disk_def Let_def sent_entry_def)
qed

lemma sent_compared: "\<exists>c. compare_remote sample_ext sent_inventory empty_remote = Inr c"
proof -
  have "valid_inventory sample_ext \<lparr>inv_id = sample_id (CHR ''8''), inv_entries = []\<rparr>"
    by (simp add: valid_inventory_iff uuid_canonical_def tree_consistent_def ascii_defs)
  then have v: "valid_inventory sample_ext empty_inventory" by (simp add: empty_inventory_def)
  have "valid_inventory sample_ext sent_inventory" using sent_valid by (simp add: sent_inventory_def)
  with v have "\<exists>c. compare sample_ext sent_inventory empty_inventory = Inr c"
    by (simp add: compare_Inr tree_consistent_def)
  with v show ?thesis
    by (simp add: compare_remote_def validate_directory_state_def empty_remote_def andthen_Inr MAX_ENTRIES_def
      expected_inventory_def bt_of_list_def) (simp add: empty_inventory_def)
qed

lemma sample_net_heard: "sample_net\<lparr>out_event := \<lambda>e w. (True, w)\<rparr> = sample_net"
  by (simp add: sample_net_def)

lemma net_send: "out_send sample_net rq w =
    (Inr \<lparr>hr_status = (if rq_method rq = Post then 201 else 200),
         hr_headers = [(''tus-resumable'', ''1.0.0''), (''tus-version'', ''1.0.0''), (''tus-extension'', ''creation''),
           (''tus-max-size'', decimal 1024), (''location'', sample_address), (''upload-offset'', decimal 12),
           (''upload-length'', decimal 12), (''upload-metadata'', sent_metadata),
           (''mirelay-delivery-id'', sample_id (CHR ''1''))], hr_body = None\<rparr>, w)"
  by (simp add: sample_net_def)

lemma net_fields:
  "out_codecs sample_net = sample_codecs" "out_ext sample_net = sample_ext" "out_event sample_net e w = (True, w)"
  "out_urls sample_net = out_urls sample_outside" "url_string (out_urls sample_outside) u = url_path u"
  "url_join (out_urls sample_outside) u a = Some (sample_url a)" "url_path (sample_url a) = a"
  by (simp_all add: sample_net_def sample_outside_def sample_url_def)

definition sent_client :: tus_client where
  "sent_client = \<lparr>tc_collection = sample_url ''/api/v1/uploads'', tc_authorization = ''Bearer t''\<rparr>"

lemma sent_collection: "url_path (tc_collection sent_client) = ''/api/v1/uploads''"
  by (simp add: sent_client_def sample_url_def)

lemma sent_client_made: "TusClient_new (out_urls sample_outside) ''/'' ''t'' False s = (Inr sent_client, s)"
  by (simp add: TusClient_new_def sample_outside_def bindo_lifto demand_def demand_some_def sent_client_def
      sample_url_def with_collection_path_def header_text_def op_defs MAX_TOKEN_BYTES_def)

lemma sent_address_ok: "validate_upload_url sample_net sent_client sample_address = Inr (sample_url sample_address)"
proof -
  have "out_ext (logged sample_outside) = sample_ext" "out_urls (logged sample_outside) = out_urls sample_outside"
    by (simp_all add: logged_def) (simp add: sample_outside_def)
  then have "validate_upload_url sample_net c a = validate_upload_url (logged sample_outside) c a" for c a
    by (simp add: validate_upload_url_def net_fields(2,4) split: option.split)
  with sample_address_ok show ?thesis by (simp add: sent_client_def)
qed

lemma sent_headers:
  "header_text sent_metadata" "header_text (sample_id (CHR ''1''))" "header_text sample_address"
  "header_text ''1.0.0''" "header_text ''creation''"
proof -
  have "ascii_text (sample_id (CHR ''1''))" "ascii_text sample_address" by (simp_all add: sample_id_def sample_address_def ascii_text_def)
  moreover have "ascii_text ''1.0.0''" "ascii_text ''creation''" by (simp_all add: ascii_text_def)
  ultimately show "header_text sent_metadata" "header_text (sample_id (CHR ''1''))" "header_text sample_address"
      "header_text ''1.0.0''" "header_text ''creation''"
    using ascii_text_header directory_header_ascii [OF sample_good_codec] unfolding sent_metadata_def by blast+
qed

lemmas reply_defs = on_world_def bindo_def split_beta require_status_def lifto_def require_tus_response_def response_header_def
  header_all_def demand_def remote_upload_of_def response_u64_def optional_response_header_def op_defs u64_max_def demand_some_def

lemma sent_head:
  "head_remote sample_net c u s
   = (Inr \<lparr>ru_offset = 12, ru_length = 12, ru_metadata = sent_metadata, ru_delivery_id = Some (sample_id (CHR ''1''))\<rparr>, s)"
  using sent_headers client_parse_decimal [of 12] by (simp add: head_remote_def sample_net_def reply_defs)

lemma sent_discover: "discover sample_net c s = (Inr 1024, s)"
proof -
  have "split_on (CHR '','') ''1.0.0'' = [''1.0.0'']" "split_on (CHR '','') ''creation'' = [''creation'']" by simp_all
  moreover have "trim ''1.0.0'' = ''1.0.0''" "trim ''creation'' = ''creation''"
    by (simp_all add: trim_printable printable_char_def)
  ultimately show ?thesis
    using sent_headers client_parse_decimal [of 1024] by (simp add: discover_def sample_net_def reply_defs)
qed

lemma sent_create: "create_remote sample_net sent_client i m s = (Inr (sample_url sample_address), s)"
  using sent_headers sent_address_ok by (simp add: create_remote_def net_fields net_send reply_defs)

definition sent_resume :: upload_state where
  "sent_resume = \<lparr>us_schema_version = UPLOAD_STATE_SCHEMA, us_collection_url = ''/api/v1/uploads'',
     us_upload_url = sample_address, us_original_name = ''a.png'', us_size = 12, us_sha256 = sample_sha,
     us_media_type = ''image/png'', us_directory = Some \<lparr>dv_path = ''a.png'', dv_version = 1\<rparr>\<rparr>"

lemma sent_upload:
  assumes "sl_scope l = ''/''"
  shows "upload_with_events sample_net (change_request l ''t'' False sent_change sample_png) \<lparr>sn_state = NoState, sn_world = w\<rparr>
     = (Inr (upload_outcome_of sent_resume 12 (Some (sample_id (CHR ''1'')))), \<lparr>sn_state = saved_state.Saved sent_resume, sn_world = w\<rparr>)"
proof -
  let ?q = "change_request l ''t'' False sent_change sample_png"
  let ?s = "\<lparr>sn_state = NoState, sn_world = w\<rparr>"
  have q: "ur_source ?q = Some (File sample_png)" "ur_same_file ?q = False" "ur_locked ?q = False" "ur_server_url ?q = ''/''"
    "ur_token ?q = ''t''" "ur_name ?q = Some ''a.png''" "ur_directory ?q = Some \<lparr>dv_path = ''a.png'', dv_version = 1\<rparr>"
    "ur_chunk_size ?q = 1024 * 1024" "ur_max_chunks ?q = None" "ur_allow_http ?q = False" "ur_timeout ?q = 30" "ur_keep_completed ?q = True"
    using assms by (simp_all add: change_request_def last_part_def)
  have n: "validate_upload_name ''a.png'' = Inr ()" by (simp add: validate_upload_name_def demand_def)
  have v: "validate_version \<lparr>dv_path = ''a.png'', dv_version = 1\<rparr> = Inr ()" using sent_path by (simp add: i64_max_def)
  have k: "upload_checks sample_net ?q ?s = (Inr sent_client, ?s)"
    unfolding upload_checks_def
    by (simp add: q n v bindo_lifto bindo_Inr [OF sent_client_made] demand_def demand_ok_def net_fields MAX_CHUNK_SIZE_def op_defs del: validate_version_ok One_nat_def)
  have i: "inspect_file sample_ext (Some (File sample_png)) 1024 = Inr (inspection_of sample_ext sample_png)"
    using sample_inspectable(1) by (simp add: inspect_file_Inr)
  have st: "start_upload sample_net sent_client ?q ?s = (Inr (sent_resume, inspection_of sample_ext sample_png, True),
      \<lparr>sn_state = saved_state.Saved sent_resume, sn_world = w\<rparr>)"
    by (simp add: start_upload_def bindo_Inr [OF sent_discover] bindo_Inr [OF sent_create] bindo_lifto q n i demand_ok_def net_fields
      Let_def save_state_def tell_def sent_resume_def sample_inspection sent_collection bindo_def op_defs del: One_nat_def)
  have did: "validate_delivery_id (sample_id (CHR ''1'')) = Inr ()" by (simp add: ascii_defs)
  have r: "us_upload_url sent_resume = sample_address" "us_original_name sent_resume = ''a.png''" "us_size sent_resume = 12"
    "us_directory sent_resume = Some \<lparr>dv_path = ''a.png'', dv_version = 1\<rparr>" by (simp_all add: sent_resume_def)
  show ?thesis
    unfolding upload_parts
    by (simp add: k st transfer_def sent_address_ok bindo_lifto or_discard_def sent_head r net_fields sent_metadata_def [symmetric] q
        Let_def validate_remote_upload_def demand_some_def source_bytes_def upload_loop.simps finish_upload_def did demand_ok_def
        tell_def bindo_def op_defs del: One_nat_def)
qed

lemma sample_sent:
  assumes "ob_ledger_file t = document.Saved ready_ledger" and "ob_jobs t = []" and "\<not> ob_retired t" and "ob_tree t = sent_tree"
    and "ob_world t = 1000" and "ob_begun t = []" and "ob_confirmed t = []"
  shows "\<exists>u. sender_command_run sample_outbox_api sample_folder ''/d'' ''/s'' ''/'' ''t'' False SendCommand t = (Inr (), u)
     \<and> ob_begun u = [(sent_change, sample_png)] \<and> ob_confirmed u = [(sent_change, Some (sample_id (CHR ''1'')))]
     \<and> (\<exists>l. ob_ledger_file u = document.Saved l \<and> sl_files l = [(''a.png'', sample_sha)])"
proof -
  obtain c where c: "compare_remote sample_ext sent_inventory empty_remote = Inr c" using sent_compared by blast
  have v: "validate_sender_ledger sample_ext ready_ledger ''/d'' 4 ''/'' = Inr ()"
    by (simp add: validate_sender_ledger_def ready_ledger_def new_sender_ledger_def MAX_ENTRIES_def andthen_Inr)
  have r: "sl_initialized ready_ledger" "sl_next_version ready_ledger = 1" "sl_files ready_ledger = []" "sl_pending ready_ledger = []"
    "sl_scope ready_ledger = ''/''" by (simp_all add: ready_ledger_def new_sender_ledger_def)
  have w: "validate_version \<lparr>dv_path = ''a.png'', dv_version = 1\<rparr> = Inr ()" using sent_path by (simp add: i64_max_def)
  have f: "map_of sent_tree [] = Some (Folder 4)" "read_source sent_tree ''a.png'' = Inr sample_png"
    using sent_path by (simp_all add: sent_tree_def read_source_def andthen_Inr Let_def)
  have i: "inspect_file sample_ext (Some (File sample_png)) DIR_MAX_FILE = Inr \<lparr>in_size = 12, in_sha256 = sample_sha,
      in_media_type = ''image/png'', in_extension = ''png''\<rparr>"
  proof -
    have "inspectable DIR_MAX_FILE None sample_png"
      by (simp add: inspectable_def sample_png_def u64_max_def DIR_MAX_FILE_def)
    then show ?thesis by (simp add: inspect_file_Inr sample_inspection)
  qed
  have k: "take (DIR_MAX_FILE + 1) sample_png = sample_png" using sample_digests(3) sample_small by simp
  have p: "\<lparr>sc_id = sample_id (CHR ''7''), sc_entry = sent_entry, sc_version = 1\<rparr> = sent_change" by (simp add: sent_change_def)
  show ?thesis
    using assms sample_digests(3)
    by (simp add: outbox_calls bt_insert.simps f v w sender_send_def sender_flush_def sent_scanned c no_empty_files_def adopt_floor_def newest_def
      send_entry_def r stage_change_def create_job_def payload_of_def edit_job_def copy_source_def
      k i p flush_change_def begin_upload_def upload_job_def sent_upload sample_net_heard confirm_change_def remove_job_def
      upload_outcome_of_def MAX_BODY_def MAX_ENTRIES_def Let_def del: One_nat_def validate_version_ok)
qed

lemma sample_sending:
  "\<exists>t u. outbox_start sample_outbox \<and> sender_runs sample_ext sample_outbox t \<and> ob_tree t = sent_tree
     \<and> sender_command_run sample_outbox_api sample_folder ''/d'' ''/s'' ''/'' ''t'' False SendCommand t = (Inr (), u)
     \<and> sender_runs sample_ext sample_outbox u \<and> ob_begun u = [(sent_change, sample_png)] \<and> ob_confirmed u = [(sent_change, Some (sample_id (CHR ''1'')))]
     \<and> (\<exists>l. ob_ledger_file u = document.Saved l \<and> sl_files l = [(''a.png'', sample_sha)])"
proof -
  obtain t where t: "sender_command_run sample_outbox_api sample_folder ''/d'' ''/s'' ''/'' ''t'' False (InitializeCommand True) sample_outbox = (Inr (), t)"
    "ob_ledger_file t = document.Saved ready_ledger" "ob_jobs t = []" "ob_begun t = []" "ob_confirmed t = []" "\<not> ob_retired t"
    using sample_initialized by blast
  let ?t = "t\<lparr>ob_tree := sent_tree, ob_world := 1000\<rparr>"
  have "sender_runs sample_ext sample_outbox t"
    using sender_call [OF sender_idle, of sample_outbox_api sample_ext sample_outbox sample_folder "''/d''" "''/s''" "''/''" "''t''" False
        "InitializeCommand True"] t(1) by simp
  then have r: "sender_runs sample_ext sample_outbox ?t" by (rule sender_edit)
  obtain u where u: "sender_command_run sample_outbox_api sample_folder ''/d'' ''/s'' ''/'' ''t'' False SendCommand ?t = (Inr (), u)"
    "ob_begun u = [(sent_change, sample_png)]" "ob_confirmed u = [(sent_change, Some (sample_id (CHR ''1'')))]"
    "\<exists>l. ob_ledger_file u = document.Saved l \<and> sl_files l = [(''a.png'', sample_sha)]"
    using sample_sent [of ?t] t by auto
  have "sender_runs sample_ext sample_outbox u"
    using sender_call [OF r, of sample_outbox_api sample_folder "''/d''" "''/s''" "''/''" "''t''" False SendCommand] u(1) by simp
  moreover have "outbox_start sample_outbox" by (simp add: outbox_start_def sample_outbox_def)
  ultimately show ?thesis using r u by (intro exI [of _ ?t] exI [of _ u]) simp
qed

theorem versions_unique_witness:
  "\<exists>u. sender_runs sample_ext sample_outbox u \<and> ob_begun u = [(sent_change, sample_png)]
     \<and> sha256_hex sample_ext sample_png = ie_sha256 (sc_entry sent_change)"
proof -
  obtain u where u: "outbox_start sample_outbox" "sender_runs sample_ext sample_outbox u" "ob_begun u = [(sent_change, sample_png)]"
    using sample_sending by blast
  from versions_unique [OF u(1,2)] u(2,3) show ?thesis by (intro exI [of _ u]) auto
qed

theorem tracked_only_delivered_witness:
  "\<exists>u l. sender_runs sample_ext sample_outbox u \<and> ob_ledger_file u = document.Saved l
     \<and> map_of (sl_files l) ''a.png'' = Some sample_sha
     \<and> ((\<exists>p b d. (p, Some d) \<in> set (ob_confirmed u) \<and> (p, b) \<in> set (ob_begun u) \<and> ie_path (sc_entry p) = ''a.png''
            \<and> ie_sha256 (sc_entry p) = sample_sha \<and> sha256_hex sample_ext b = sample_sha)
          \<or> agreed_on sample_ext (ob_agreed u) ''a.png'' sample_sha)"
proof -
  obtain u l where u: "outbox_start sample_outbox" "sender_runs sample_ext sample_outbox u" "ob_ledger_file u = document.Saved l"
      "sl_files l = [(''a.png'', sample_sha)]"
    using sample_sending by blast
  then have m: "map_of (sl_files l) ''a.png'' = Some sample_sha" by simp
  from tracked_only_delivered [OF u(1-3) m] u(2,3) m show ?thesis by blast
qed

theorem send_complete_witness:
  "\<exists>t u l. sender_runs sample_ext sample_outbox t \<and> map_of (ob_tree t) [''a.png''] = Some (Regular 5 sample_png)
     \<and> sender_command_run sample_outbox_api sample_folder ''/d'' ''/s'' ''/'' ''t'' False SendCommand t = (Inr (), u)
     \<and> ob_ledger_file u = document.Saved l \<and> sl_pending l = [] \<and> map_of (sl_files l) ''a.png'' = Some sample_sha"
proof -
  obtain t u where u: "outbox_start sample_outbox" "sender_runs sample_ext sample_outbox t" "ob_tree t = sent_tree"
      "sender_command_run sample_outbox_api sample_folder ''/d'' ''/s'' ''/'' ''t'' False SendCommand t = (Inr (), u)"
    using sample_sending by blast
  have "shown_below (ob_tree t) [] [''a.png'']"
    by (simp add: shown_below_def skipped_def to_ascii_lowercase_def ascii_lower_char_def ascii_defs)
  moreover have m: "map_of (ob_tree t) [''a.png''] = Some (Regular 5 sample_png)" by (simp add: u(3) sent_tree_def)
  moreover have "px_ext (ox_disk sample_outbox_api) = sample_ext" by simp
  ultimately obtain l where "ob_ledger_file u = document.Saved l" "sl_pending l = []"
      "map_of (sl_files l) (join_with slash [''a.png'']) = Some (sha256_hex sample_ext sample_png)"
    using send_complete [OF u(1,2) _ u(4), of "[''a.png'']" 5 sample_png] by blast
  with u(2,4) m show ?thesis using sample_digests(2) by auto
qed

end
