(* ===== verification/Registry.thy ===== *)
theory Registry
  imports Config Projection Upload
begin

text \<open>
  The registry of Folders of the desktop, \<open>src/bridge_registry.rs\<close>: its record, its checks, its
  operations, and the store that applies an operation to the file under an exclusive lock. TOML is
  serde's: a file is missing, holds a registry, or cannot be used (not a regular file, several links,
  too large, unreadable or unparsable). Two paths are the same when their components are.
\<close>

section \<open>Paths\<close>

datatype path_component = RootDir | CurDir | ParentDir | Normal string

text \<open>
  \<open>Path::components\<close> on Unix: repeated and trailing slashes go, and so does every \<open>.\<close> but a leading
  one of a relative path.
\<close>

definition normal_components :: "string list \<Rightarrow> path_component list" where
  "normal_components parts =
     List.map (\<lambda>c. if c = ''..'' then ParentDir else Normal c) (List.filter (\<lambda>c. c \<noteq> [] \<and> c \<noteq> ''.'') parts)"

definition path_components :: "string \<Rightarrow> path_component list" where
  "path_components p =
     (if is_absolute p then RootDir # normal_components (split_on slash p)
      else if hd (split_on slash p) = ''.'' then CurDir # normal_components (split_on slash p)
      else normal_components (split_on slash p))"

definition path_parent :: "string \<Rightarrow> string option" where
  "path_parent p = map_option fst (rsplit_once slash p)"

text \<open>The path of the configuration ends with its file name.\<close>

definition default_registry_path :: "environment \<Rightarrow> string res" where
  "default_registry_path e =
     andthen (default_config_path e) (\<lambda>p.
     andthen (of_option ''default config path has no parent'' (path_parent p)) (\<lambda>d. Inr (path_join d ''bridges.toml'')))"

section \<open>The record\<close>

definition BRIDGE_REGISTRY_SCHEMA_VERSION :: nat where "BRIDGE_REGISTRY_SCHEMA_VERSION = 1"
definition MAX_BRIDGES :: nat where "MAX_BRIDGES = 256"
definition MAX_REGISTRY_SIZE_BYTES :: nat where "MAX_REGISTRY_SIZE_BYTES = 1024 * 1024"
definition MAX_BRIDGE_NAME_CHARS :: nat where "MAX_BRIDGE_NAME_CHARS = 128"

datatype folder_kind = Photos | General

record registration =
  rg_kind :: folder_kind
  rg_id :: string
  rg_name :: string
  rg_config_path :: string
  rg_auto_receive :: bool

record registry =
  rs_schema_version :: nat
  rs_selected :: "string option"
  rs_bridges :: "registration list"

definition default_registry :: registry where
  "default_registry = \<lparr>rs_schema_version = BRIDGE_REGISTRY_SCHEMA_VERSION, rs_selected = None, rs_bridges = []\<rparr>"

section \<open>Validation\<close>

definition validate_bridge_id :: "string \<Rightarrow> unit res" where
  "validate_bridge_id i =
     ensure (\<not> (i = [] \<or> length i > 128
        \<or> \<not> list_all (\<lambda>c. is_ascii_alphanumeric c \<or> c = CHR ''-'' \<or> c = CHR ''_'') i))
       ''Folder ID must contain 1-128 ASCII letters, digits, - or _''"

definition char_count :: "string \<Rightarrow> nat" where
  "char_count s = length (fst (utf8_scan s))"

definition validate_bridge_name :: "string \<Rightarrow> unit res" where
  "validate_bridge_name name =
     ensure (\<not> (name = [] \<or> name \<noteq> trim name \<or> char_count name > MAX_BRIDGE_NAME_CHARS \<or> has_control name))
       ''Folder name must be trimmed, non-empty, and at most 128 characters''"

definition validate_config_path :: "string \<Rightarrow> unit res" where
  "validate_config_path p =
     andthen (ensure (is_absolute p) ''Folder configuration path must be absolute'') (\<lambda>_.
     ensure (\<not> list_ex (\<lambda>c. c = CurDir \<or> c = ParentDir) (path_components p))
       ''Folder configuration path must not contain . or ..'')"

fun check_bridges :: "registration list \<Rightarrow> string list \<Rightarrow> path_component list list \<Rightarrow> string list res" where
  "check_bridges [] ids paths = Inr ids"
| "check_bridges (b # bs) ids paths =
     andthen (validate_bridge_id (rg_id b)) (\<lambda>_.
     andthen (validate_bridge_name (rg_name b)) (\<lambda>_.
     andthen (validate_config_path (rg_config_path b)) (\<lambda>_.
     andthen (ensure (rg_id b \<notin> set ids) ''duplicate Folder ID'') (\<lambda>_.
     andthen (ensure (path_components (rg_config_path b) \<notin> set paths) ''multiple Folders reference configuration'') (\<lambda>_.
     check_bridges bs (rg_id b # ids) (path_components (rg_config_path b) # paths))))))"

definition validate_registry :: "registry \<Rightarrow> unit res" where
  "validate_registry r =
     andthen (ensure (rs_schema_version r = BRIDGE_REGISTRY_SCHEMA_VERSION) ''unsupported Folder registry schema version'') (\<lambda>_.
     andthen (ensure (length (rs_bridges r) \<le> MAX_BRIDGES) ''Folder registry cannot contain more folders'') (\<lambda>_.
     andthen (check_bridges (rs_bridges r) [] []) (\<lambda>ids.
     case rs_selected r of
       None \<Rightarrow> Inr ()
     | Some i \<Rightarrow> ensure (i \<in> set ids) ''selected Folder is not registered'')))"

section \<open>Operations\<close>

type_synonym 'a registering = "(registry, 'a) op"

definition registry_add :: "registration \<Rightarrow> unit registering" where
  "registry_add b r =
     (let bridges = rs_bridges r @ [b];
          s = r\<lparr>rs_bridges := bridges, rs_selected := map_option rg_id (if bridges = [] then None else Some (last bridges))\<rparr>
      in case validate_registry s of
           Inl e \<Rightarrow> (Inl e, s\<lparr>rs_bridges := butlast bridges, rs_selected := rs_selected r\<rparr>)
         | Inr _ \<Rightarrow> (Inr (), s))"

definition position :: "('a \<Rightarrow> bool) \<Rightarrow> 'a list \<Rightarrow> nat option" where
  "position P xs = (if list_ex P xs then Some (length (takeWhile (\<lambda>x. \<not> P x) xs)) else None)"

definition remove_at :: "nat \<Rightarrow> 'a list \<Rightarrow> 'a list" where
  "remove_at n xs = take n xs @ drop (Suc n) xs"

definition get_at :: "nat \<Rightarrow> 'a list \<Rightarrow> 'a option" where
  "get_at n xs = (if n < length xs then Some (xs ! n) else None)"

definition registry_remove :: "string \<Rightarrow> registration registering" where
  "registry_remove i r =
     (case position (\<lambda>b. rg_id b = i) (rs_bridges r) of
        None \<Rightarrow> (Inl (Bail ''Folder is not registered''), r)
      | Some n \<Rightarrow>
          let removed = rs_bridges r ! n; bridges = remove_at n (rs_bridges r);
              s = r\<lparr>rs_bridges := bridges, rs_selected :=
                (if rs_selected r = Some i then map_option rg_id (get_at (min n (length bridges - 1)) bridges)
                 else rs_selected r)\<rparr>
          in case validate_registry s of Inl e \<Rightarrow> (Inl e, s) | Inr _ \<Rightarrow> (Inr removed, s))"

text \<open>\<open>iter_mut().find\<close>, with what the caller then writes.\<close>

fun edit_first :: "('a \<Rightarrow> bool) \<Rightarrow> ('a \<Rightarrow> 'a) \<Rightarrow> 'a list \<Rightarrow> 'a list option" where
  "edit_first P f [] = None"
| "edit_first P f (x # xs) =
     (if P x then Some (f x # xs) else map_option (\<lambda>ys. x # ys) (edit_first P f xs))"

definition edit_bridge :: "string \<Rightarrow> (registration \<Rightarrow> registration) \<Rightarrow> unit registering" where
  "edit_bridge i f r =
     (case edit_first (\<lambda>b. rg_id b = i) f (rs_bridges r) of
        None \<Rightarrow> (Inl (Bail ''Folder is not registered''), r)
      | Some bs \<Rightarrow> (Inr (), r\<lparr>rs_bridges := bs\<rparr>))"

definition registry_rename :: "string \<Rightarrow> string \<Rightarrow> unit registering" where
  "registry_rename i name =
     bindo (lifto (validate_bridge_name name)) (\<lambda>_.
     bindo (readso (\<lambda>r. Inr (map_option rg_name (List.find (\<lambda>b. rg_id b = i) (rs_bridges r))))) (\<lambda>previous.
     bindo (edit_bridge i (\<lambda>b. b\<lparr>rg_name := name\<rparr>)) (\<lambda>_.
     bindo (readso (\<lambda>r. Inr (validate_registry r))) (\<lambda>v.
       case v of
         Inl e \<Rightarrow> bindo (edit_bridge i (\<lambda>b. b\<lparr>rg_name := the previous\<rparr>)) (\<lambda>_. fails e)
       | Inr _ \<Rightarrow> retn ()))))"

definition registry_set_auto_receive :: "string \<Rightarrow> bool \<Rightarrow> unit registering" where
  "registry_set_auto_receive i enabled = edit_bridge i (\<lambda>b. b\<lparr>rg_auto_receive := enabled\<rparr>)"

definition registry_set_kind :: "string \<Rightarrow> folder_kind \<Rightarrow> unit registering" where
  "registry_set_kind i kind = edit_bridge i (\<lambda>b. b\<lparr>rg_kind := kind\<rparr>)"

definition registry_select :: "string \<Rightarrow> unit registering" where
  "registry_select i r =
     (if \<not> list_ex (\<lambda>b. rg_id b = i) (rs_bridges r) then (Inl (Bail ''Folder is not registered''), r)
      else (Inr (), r\<lparr>rs_selected := Some i\<rparr>))"

section \<open>The store\<close>

text \<open>\<open>sf_length\<close> is the length of the text of a registry, with its first line.\<close>

record 'w registry_api =
  sf_permit :: "'w \<Rightarrow> bool \<times> 'w"
  sf_write :: "'w \<Rightarrow> write_outcome \<times> 'w"
  sf_length :: "registry \<Rightarrow> nat"

record 'w registry_store =
  rf_world :: 'w
  rf_file :: "registry document"

type_synonym ('w, 'a) storing = "('w registry_store, 'a) op"

definition with_world :: "('w \<Rightarrow> 'a \<times> 'w) \<Rightarrow> ('w, 'a) storing" where
  "with_world f s = (case f (rf_world s) of (x, w) \<Rightarrow> (Inr x, s\<lparr>rf_world := w\<rparr>))"

text \<open>Opening the lock file and taking the lock, or looking at the registry.\<close>

definition store_access :: "'w registry_api \<Rightarrow> ('w, unit) storing" where
  "store_access A = bindo (with_world (sf_permit A)) (\<lambda>ok. lifto (ensure ok ''failed to open or lock Folder registry''))"

definition registry_load_unlocked :: "'w registry_api \<Rightarrow> ('w, registry) storing" where
  "registry_load_unlocked A =
     bindo (store_access A) (\<lambda>_.
     bindo (readso (\<lambda>s. Inr (rf_file s))) (\<lambda>d.
       case d of
         Missing \<Rightarrow> retn default_registry
       | document.Saved r \<Rightarrow> bindo (lifto (validate_registry r)) (\<lambda>_. retn r)
       | Broken \<Rightarrow> fails (Bail ''failed to read or parse Folder registry'')))"

definition registry_save_unlocked :: "'w registry_api \<Rightarrow> registry \<Rightarrow> ('w, unit) storing" where
  "registry_save_unlocked A r =
     bindo (lifto (validate_registry r)) (\<lambda>_.
     bindo (lifto (ensure (sf_length A r \<le> MAX_REGISTRY_SIZE_BYTES) ''refusing to grow Folder registry'')) (\<lambda>_.
     bindo (with_world (sf_write A)) (\<lambda>w.
       case w of
         Written \<Rightarrow> modifyo (\<lambda>s. s\<lparr>rf_file := document.Saved r\<rparr>)
       | WrittenNotSynced \<Rightarrow>
           bindo (modifyo (\<lambda>s. s\<lparr>rf_file := document.Saved r\<rparr>)) (\<lambda>_. fails (Bail ''failed to save Folder registry''))
       | NotWritten \<Rightarrow> fails (Bail ''failed to save Folder registry''))))"

definition registry_load :: "'w registry_api \<Rightarrow> ('w, registry) storing" where
  "registry_load A = bindo (store_access A) (\<lambda>_. registry_load_unlocked A)"

text \<open>
  The caller's closure gets the registry and returns it changed; it may act on the rest of the world,
  which keeps its effects when the closure fails.
\<close>

definition in_world :: "('w, 'a) op \<Rightarrow> ('w, 'a) storing" where
  "in_world m s = (case m (rf_world s) of (r, w) \<Rightarrow> (r, s\<lparr>rf_world := w\<rparr>))"

definition registry_update :: "'w registry_api \<Rightarrow> (registry \<Rightarrow> ('w, 'a \<times> registry) op) \<Rightarrow> ('w, 'a) storing" where
  "registry_update A f =
     bindo (store_access A) (\<lambda>_.
     bindo (registry_load_unlocked A) (\<lambda>r.
     bindo (in_world (f r)) (\<lambda>(x, r').
     bindo (lifto (validate_registry r')) (\<lambda>_.
     bindo (registry_save_unlocked A r') (\<lambda>_. retn x)))))"

text \<open>A closure that only edits the registry.\<close>

definition editing :: "'a registering \<Rightarrow> registry \<Rightarrow> ('w, 'a \<times> registry) op" where
  "editing g r w = (case g r of (Inl e, _) \<Rightarrow> (Inl e, w) | (Inr x, r') \<Rightarrow> (Inr (x, r'), w))"

section \<open>What a valid registry is\<close>

definition valid_registration :: "registration \<Rightarrow> bool" where
  "valid_registration b \<longleftrightarrow> is_ok (validate_bridge_id (rg_id b)) \<and> is_ok (validate_bridge_name (rg_name b))
     \<and> is_ok (validate_config_path (rg_config_path b))"

definition valid_registry :: "registry \<Rightarrow> bool" where
  "valid_registry r = is_ok (validate_registry r)"

lemma validate_registry_ok [simp]: "validate_registry r = Inr u \<longleftrightarrow> valid_registry r"
  by (auto simp: valid_registry_def is_ok_iff)

abbreviation bridge_path :: "registration \<Rightarrow> path_component list" where
  "bridge_path b \<equiv> path_components (rg_config_path b)"

lemma check_bridges_Inr:
  "check_bridges bs ids paths = Inr r \<longleftrightarrow> (\<forall>b \<in> set bs. valid_registration b)
     \<and> distinct (List.map rg_id bs) \<and> rg_id ` set bs \<inter> set ids = {}
     \<and> distinct (List.map bridge_path bs) \<and> bridge_path ` set bs \<inter> set paths = {}
     \<and> r = rev (List.map rg_id bs) @ ids"
  by (induction bs arbitrary: ids paths) (auto simp: andthen_Inr unit_res_Inr valid_registration_def)

lemma valid_registry_iff:
  "valid_registry r \<longleftrightarrow> rs_schema_version r = BRIDGE_REGISTRY_SCHEMA_VERSION \<and> length (rs_bridges r) \<le> MAX_BRIDGES
     \<and> (\<forall>b \<in> set (rs_bridges r). valid_registration b) \<and> distinct (List.map rg_id (rs_bridges r))
     \<and> distinct (List.map bridge_path (rs_bridges r))
     \<and> (\<forall>i. rs_selected r = Some i \<longrightarrow> i \<in> rg_id ` set (rs_bridges r))"
  by (auto simp: valid_registry_def is_ok_iff validate_registry_def andthen_Inr check_bridges_Inr split: option.splits)

text \<open>A \<open>.\<close> between slashes is not a component of an absolute path.\<close>

lemma validate_config_path_iff:
  "validate_config_path p = Inr u \<longleftrightarrow> is_absolute p \<and> ''..'' \<notin> set (split_on slash p)"
  by (auto simp: validate_config_path_def andthen_Inr path_components_def normal_components_def list_ex_iff split: if_splits)

lemma dot_component_accepted: "validate_config_path ''/a/./b.toml'' = Inr ()"
  by (simp add: validate_config_path_iff is_absolute_def)

section \<open>What the operations do\<close>

definition addable :: "registry \<Rightarrow> registration \<Rightarrow> bool" where
  "addable r b \<longleftrightarrow> length (rs_bridges r) < MAX_BRIDGES \<and> valid_registration b
     \<and> rg_id b \<notin> rg_id ` set (rs_bridges r) \<and> bridge_path b \<notin> bridge_path ` set (rs_bridges r)"

lemma validate_valid: "valid_registry r \<Longrightarrow> (case validate_registry r of Inl e \<Rightarrow> f e | Inr u \<Rightarrow> g u) = g ()"
  by (cases "validate_registry r") (simp_all add: valid_registry_def del: validate_registry_ok)

lemma registry_add_outcome:
  assumes "valid_registry r"
  shows "if addable r b
     then registry_add b r = (Inr (), r\<lparr>rs_bridges := rs_bridges r @ [b], rs_selected := Some (rg_id b)\<rparr>)
     else \<exists>e. registry_add b r = (Inl e, r)"
proof -
  have v: "valid_registry (r\<lparr>rs_bridges := rs_bridges r @ [b], rs_selected := Some (rg_id b)\<rparr>) \<longleftrightarrow> addable r b"
    using assms by (auto simp: valid_registry_iff addable_def)
  show ?thesis
  proof (cases "addable r b")
    case True
    with v show ?thesis by (simp add: registry_add_def Let_def validate_valid)
  next
    case False
    with v obtain e where "validate_registry (r\<lparr>rs_bridges := rs_bridges r @ [b], rs_selected := Some (rg_id b)\<rparr>) = Inl e"
      by (auto simp: valid_registry_def is_ok_def split: sum.splits)
    with False show ?thesis by (simp add: registry_add_def Let_def)
  qed
qed

lemma position_split:
  assumes "b \<in> set xs" and "P b" and "distinct (List.map f xs)" and "\<And>c. P c \<longleftrightarrow> f c = f b"
  obtains us vs where "xs = us @ b # vs" and "position P xs = Some (length us)" and "\<forall>c \<in> set us \<union> set vs. \<not> P c"
proof -
  obtain us vs where xs: "xs = us @ b # vs" using assms(1) by (meson split_list)
  have n: "\<forall>c \<in> set us \<union> set vs. \<not> P c"
  proof
    fix c assume "c \<in> set us \<union> set vs"
    then have "f c \<in> f ` set us \<union> f ` set vs" by blast
    moreover from assms(3) have "f b \<notin> f ` set us \<union> f ` set vs" by (simp add: xs)
    ultimately have "f c \<noteq> f b" by metis
    then show "\<not> P c" by (simp add: assms(4))
  qed
  then have "takeWhile (\<lambda>x. \<not> P x) xs = us" using assms(2) by (simp add: xs takeWhile_append)
  then have "position P xs = Some (length us)" using assms(2) by (simp add: position_def xs)
  with xs n show thesis using that by blast
qed

text \<open>The registration that takes over the selection.\<close>

definition neighbour :: "registration list \<Rightarrow> registration list \<Rightarrow> string option" where
  "neighbour us vs = map_option rg_id (if vs \<noteq> [] then Some (hd vs) else if us \<noteq> [] then Some (last us) else None)"

lemma remove_outcome:
  assumes "valid_registry r" and "b \<in> set (rs_bridges r)"
  shows "\<exists>us vs. rs_bridges r = us @ b # vs
     \<and> registry_remove (rg_id b) r = (Inr b, r\<lparr>rs_bridges := us @ vs,
         rs_selected := (if rs_selected r = Some (rg_id b) then neighbour us vs else rs_selected r)\<rparr>)
     \<and> valid_registry (snd (registry_remove (rg_id b) r))"
proof -
  obtain us vs where s: "rs_bridges r = us @ b # vs" "position (\<lambda>c. rg_id c = rg_id b) (rs_bridges r) = Some (length us)"
      "\<forall>c \<in> set us \<union> set vs. rg_id c \<noteq> rg_id b"
    using position_split [of b "rs_bridges r" "\<lambda>c. rg_id c = rg_id b" rg_id] assms by (auto simp: valid_registry_iff)
  have g: "map_option rg_id (get_at (min (length us) (length (us @ vs) - 1)) (us @ vs)) = neighbour us vs"
  proof (cases vs)
    case Nil
    then show ?thesis by (cases us rule: rev_cases) (simp_all add: get_at_def neighbour_def nth_append)
  next
    case (Cons v vs')
    then have "min (length us) (length (us @ vs) - 1) = length us" by simp
    with Cons show ?thesis by (simp add: get_at_def neighbour_def)
  qed
  let ?s = "r\<lparr>rs_bridges := us @ vs, rs_selected := (if rs_selected r = Some (rg_id b) then neighbour us vs else rs_selected r)\<rparr>"
  have "neighbour us vs = Some i \<Longrightarrow> i \<in> rg_id ` set (us @ vs)" for i by (auto simp: neighbour_def split: if_splits)
  then have v: "valid_registry ?s" using assms(1) s(3) by (auto simp: valid_registry_iff s(1))
  then have r: "registry_remove (rg_id b) r = (Inr b, ?s)"
    using s(2) g
    by (cases "rs_selected r = Some (rg_id b)") (simp_all add: registry_remove_def Let_def validate_valid s(1) remove_at_def)
  have "valid_registry (snd (registry_remove (rg_id b) r))" unfolding r using v by simp
  with r s(1) show ?thesis by blast
qed

section \<open>Nothing breaks a registry\<close>

text \<open>An operation keeps a registry valid, and one that fails leaves it as it was.\<close>

definition keeps_registry :: "registry \<Rightarrow> 'a res \<times> registry \<Rightarrow> bool" where
  "keeps_registry r out \<longleftrightarrow> valid_registry (snd out) \<and> (is_ok (fst out) \<or> snd out = r)"

lemma edit_first_Some:
  "edit_first P f xs = Some ys \<longleftrightarrow> (\<exists>us b vs. xs = us @ b # vs \<and> P b \<and> (\<forall>c \<in> set us. \<not> P c) \<and> ys = us @ f b # vs)"
proof (induction xs arbitrary: ys)
  case Nil
  then show ?case by simp
next
  case (Cons x xs)
  show ?case
  proof (cases "P x")
    case True
    have "(\<exists>us b vs. x # xs = us @ b # vs \<and> P b \<and> (\<forall>c \<in> set us. \<not> P c) \<and> ys = us @ f b # vs) \<longleftrightarrow> ys = f x # xs"
      using True by (metis append_Nil append_Cons list.inject list.set_intros(1) neq_Nil_conv list.distinct(1) empty_iff list.set(1))
    with True show ?thesis by auto
  next
    case False
    then have "edit_first P f (x # xs) = Some ys \<longleftrightarrow> (\<exists>zs. edit_first P f xs = Some zs \<and> ys = x # zs)" by auto
    also have "\<dots> \<longleftrightarrow> (\<exists>us b vs. x # xs = us @ b # vs \<and> P b \<and> (\<forall>c \<in> set us. \<not> P c) \<and> ys = us @ f b # vs)"
    proof
      assume "\<exists>zs. edit_first P f xs = Some zs \<and> ys = x # zs"
      then obtain us b vs where "xs = us @ b # vs" "P b" "\<forall>c \<in> set us. \<not> P c" "ys = x # us @ f b # vs"
        unfolding Cons.IH by blast
      with False show "\<exists>us b vs. x # xs = us @ b # vs \<and> P b \<and> (\<forall>c \<in> set us. \<not> P c) \<and> ys = us @ f b # vs"
        by (intro exI [of _ "x # us"] exI [of _ b] exI [of _ vs]) simp
    next
      assume "\<exists>us b vs. x # xs = us @ b # vs \<and> P b \<and> (\<forall>c \<in> set us. \<not> P c) \<and> ys = us @ f b # vs"
      then obtain us b vs where a: "x # xs = us @ b # vs" "P b" "\<forall>c \<in> set us. \<not> P c" "ys = us @ f b # vs" by blast
      with False obtain us' where "us = x # us'" by (cases us) auto
      with a show "\<exists>zs. edit_first P f xs = Some zs \<and> ys = x # zs" unfolding Cons.IH by auto
    qed
    finally show ?thesis .
  qed
qed

lemma edit_bridge_ok:
  "edit_bridge i f r = (Inr (), s) \<Longrightarrow> \<exists>us b vs. rs_bridges r = us @ b # vs \<and> rg_id b = i \<and> (\<forall>c \<in> set us. rg_id c \<noteq> i)
     \<and> s = r\<lparr>rs_bridges := us @ f b # vs\<rparr>"
  by (auto simp: edit_bridge_def edit_first_Some split: option.splits)

lemma keeps_error: "valid_registry r \<Longrightarrow> keeps_registry r (Inl e, r)"
  by (simp add: keeps_registry_def)

lemma edit_keeps:
  assumes "valid_registry r" and "\<And>b. rg_id (f b) = rg_id b" and "\<And>b. rg_config_path (f b) = rg_config_path b"
    and "\<And>b. rg_name (f b) = rg_name b"
  shows "keeps_registry r (edit_bridge i f r)"
proof (cases "edit_first (\<lambda>b. rg_id b = i) f (rs_bridges r)")
  case None
  with assms(1) show ?thesis by (simp add: edit_bridge_def keeps_error)
next
  case (Some bs)
  then obtain us b vs where "rs_bridges r = us @ b # vs" "bs = us @ f b # vs" by (auto simp: edit_first_Some)
  with assms Some show ?thesis
    by (auto simp: keeps_registry_def edit_bridge_def valid_registry_iff valid_registration_def)
qed

lemma add_keeps: "valid_registry r \<Longrightarrow> keeps_registry r (registry_add b r)"
proof -
  assume v: "valid_registry r"
  have "valid_registry (r\<lparr>rs_bridges := rs_bridges r @ [b], rs_selected := Some (rg_id b)\<rparr>)" if "addable r b"
    using v that by (auto simp: valid_registry_iff addable_def)
  with v registry_add_outcome [OF v, of b] show ?thesis by (auto simp: keeps_registry_def split: if_splits)
qed

lemma remove_keeps: "valid_registry r \<Longrightarrow> keeps_registry r (registry_remove i r)"
proof -
  assume v: "valid_registry r"
  show ?thesis
  proof (cases "i \<in> rg_id ` set (rs_bridges r)")
    case True
    then obtain b where "b \<in> set (rs_bridges r)" "i = rg_id b" by blast
    with remove_outcome [OF v, of b] show ?thesis by (auto simp: keeps_registry_def)
  next
    case False
    then have "position (\<lambda>b. rg_id b = i) (rs_bridges r) = None" by (auto simp: position_def list_ex_iff)
    with v show ?thesis by (simp add: registry_remove_def keeps_error)
  qed
qed

lemma rename_keeps: "valid_registry r \<Longrightarrow> keeps_registry r (registry_rename i name r)"
proof -
  assume v: "valid_registry r"
  show ?thesis
  proof (cases "validate_bridge_name name")
    case (Inl e)
    with v show ?thesis by (simp add: registry_rename_def bindo_lifto keeps_error)
  next
    case n: (Inr u)
    show ?thesis
    proof (cases "edit_first (\<lambda>b. rg_id b = i) (\<lambda>b. b\<lparr>rg_name := name\<rparr>) (rs_bridges r)")
      case None
      with n v show ?thesis
        by (simp add: registry_rename_def bindo_lifto bindo_readso edit_bridge_def bindo_def lifto_def readso_def keeps_error)
    next
      case (Some bs)
      then obtain us b vs where "rs_bridges r = us @ b # vs" "bs = us @ b\<lparr>rg_name := name\<rparr> # vs" by (auto simp: edit_first_Some)
      with v n have "valid_registry (r\<lparr>rs_bridges := bs\<rparr>)"
        by (auto simp: valid_registry_iff valid_registration_def)
      moreover from this have "registry_rename i name r = (Inr (), r\<lparr>rs_bridges := bs\<rparr>)"
        using n Some by (simp add: registry_rename_def bindo_lifto bindo_readso edit_bridge_def bindo_def validate_valid op_defs)
      ultimately show ?thesis by (simp add: keeps_registry_def)
    qed
  qed
qed

text \<open>
  C22. Every operation on a valid registry leaves a valid registry, and one that fails leaves the registry
  exactly as it was.
\<close>

theorem registry_kept:
  assumes "valid_registry r"
  shows "keeps_registry r (registry_add b r) \<and> keeps_registry r (registry_remove i r) \<and> keeps_registry r (registry_rename i name r)
     \<and> keeps_registry r (registry_set_auto_receive i enabled r) \<and> keeps_registry r (registry_set_kind i kind r)
     \<and> keeps_registry r (registry_select i r)"
proof -
  have "keeps_registry r (registry_select i r)"
    using assms by (auto simp: registry_select_def keeps_registry_def valid_registry_iff list_ex_iff)
  with add_keeps [OF assms] remove_keeps [OF assms] rename_keeps [OF assms] show ?thesis
    by (simp add: registry_set_auto_receive_def registry_set_kind_def edit_keeps [OF assms])
qed

text \<open>
  A registration is added exactly when there is room for it, it is valid, and neither its id nor its
  configuration is registered; then it is the last one and selected. Otherwise nothing changes.
\<close>

theorem registry_add_contract:
  assumes "valid_registry r"
  shows "if addable r b
     then registry_add b r = (Inr (), r\<lparr>rs_bridges := rs_bridges r @ [b], rs_selected := Some (rg_id b)\<rparr>)
     else \<exists>e. registry_add b r = (Inl e, r)"
  using assms by (rule registry_add_outcome)

text \<open>
  Removing a registered Folder takes away just that registration. If it was selected, the next one
  is, or the last one if there is no next one.
\<close>

theorem registry_remove_contract:
  assumes "valid_registry r" and "b \<in> set (rs_bridges r)"
  shows "\<exists>us vs. rs_bridges r = us @ b # vs
     \<and> registry_remove (rg_id b) r = (Inr b, r\<lparr>rs_bridges := us @ vs,
         rs_selected := (if rs_selected r = Some (rg_id b) then neighbour us vs else rs_selected r)\<rparr>)"
  using remove_outcome [OF assms] by blast

section \<open>The file\<close>

text \<open>What the closure is given, and what ends up in the file.\<close>

definition registry_read :: "registry document \<Rightarrow> registry \<Rightarrow> bool" where
  "registry_read d r \<longleftrightarrow> (case d of Missing \<Rightarrow> r = default_registry | document.Saved q \<Rightarrow> r = q \<and> valid_registry q | Broken \<Rightarrow> False)"

lemma default_valid: "valid_registry default_registry"
  by (simp add: valid_registry_iff default_registry_def MAX_BRIDGES_def)

lemma registry_read_valid: "registry_read d r \<Longrightarrow> valid_registry r"
  by (auto simp: registry_read_def default_valid split: document.splits)

definition replaced ::
    "'w registry_api \<Rightarrow> (registry \<Rightarrow> ('w, 'a \<times> registry) op) \<Rightarrow> 'w registry_store \<Rightarrow> 'a \<Rightarrow> 'w registry_store \<Rightarrow> bool" where
  "replaced A f s x t \<longleftrightarrow> (\<exists>r w r' w'. registry_read (rf_file s) r \<and> f r w = (Inr (x, r'), w') \<and> valid_registry r'
     \<and> sf_length A r' \<le> MAX_REGISTRY_SIZE_BYTES \<and> rf_file t = document.Saved r')"

lemma store_access_file: "store_access A s = (x, t) \<Longrightarrow> rf_file t = rf_file s"
  by (auto simp: store_access_def with_world_def bindo_def op_defs split: prod.splits sum.splits)

lemma load_unlocked_file:
  "registry_load_unlocked A s = (x, t) \<Longrightarrow> rf_file t = rf_file s \<and> (\<forall>r. x = Inr r \<longrightarrow> registry_read (rf_file s) r)"
  by (auto simp: registry_load_unlocked_def bindo_def op_defs registry_read_def dest!: store_access_file
    split: prod.splits sum.splits document.splits)

lemma save_unlocked_file:
  assumes "registry_save_unlocked A r s = (x, t)"
  shows "if is_ok x then rf_file t = document.Saved r \<and> valid_registry r \<and> sf_length A r \<le> MAX_REGISTRY_SIZE_BYTES
     else rf_file t = rf_file s \<or> rf_file t = document.Saved r \<and> valid_registry r \<and> sf_length A r \<le> MAX_REGISTRY_SIZE_BYTES"
proof (cases "validate_registry r")
  case (Inl e)
  with assms have "x = Inl e" "t = s" by (simp_all add: registry_save_unlocked_def bindo_lifto)
  then show ?thesis by simp
next
  case (Inr u)
  with assms show ?thesis
    by (auto simp: registry_save_unlocked_def bindo_def op_defs with_world_def ensure_def split: prod.splits write_outcome.splits if_splits)
qed

lemma update_outcome:
  assumes "registry_update A f s = (x, t)"
  shows "case x of Inr y \<Rightarrow> replaced A f s y t | Inl e \<Rightarrow> rf_file t = rf_file s \<or> (\<exists>y. replaced A f s y t)"
proof -
  obtain o1 s1 where 1: "store_access A s = (o1, s1)" by fastforce
  show ?thesis
  proof (cases o1)
    case (Inl e)
    with assms 1 store_access_file [OF 1] show ?thesis by (auto simp: registry_update_def bindo_def)
  next
    case o1: (Inr u)
    obtain o2 s2 where 2: "registry_load_unlocked A s1 = (o2, s2)" by fastforce
    show ?thesis
    proof (cases o2)
      case (Inl e)
      with assms 1 2 o1 store_access_file [OF 1] load_unlocked_file [OF 2] show ?thesis by (auto simp: registry_update_def bindo_def)
    next
      case o2: (Inr r)
      with load_unlocked_file [OF 2] store_access_file [OF 1] have r: "registry_read (rf_file s) r" "rf_file s2 = rf_file s" by auto
      obtain o3 w where 3: "f r (rf_world s2) = (o3, w)" by fastforce
      show ?thesis
      proof (cases o3)
        case (Inl e)
        with assms 1 2 3 o1 o2 r(2) show ?thesis by (auto simp: registry_update_def bindo_def in_world_def)
      next
        case o3: (Inr y)
        obtain z r' where y: "y = (z, r')" by fastforce
        let ?s3 = "s2\<lparr>rf_world := w\<rparr>"
        have a: "bindo (lifto (validate_registry r')) (\<lambda>_. bindo (registry_save_unlocked A r') (\<lambda>_. retn z)) ?s3 = (x, t)"
          using assms 1 2 3 o1 o2 o3 y by (simp add: registry_update_def bindo_def in_world_def)
        show ?thesis
        proof (cases "validate_registry r'")
          case (Inl e)
          with a r(2) show ?thesis by (auto simp: bindo_lifto)
        next
          case (Inr u)
          obtain o4 s4 where 4: "registry_save_unlocked A r' ?s3 = (o4, s4)" by fastforce
          have "t = s4" "case o4 of Inl e \<Rightarrow> x = Inl e | Inr u \<Rightarrow> x = Inr z"
            using a Inr 4 by (auto simp: bindo_def lifto_def retn_def split: sum.splits)
          with save_unlocked_file [OF 4] r 3 o3 y show ?thesis
            by (cases o4) (auto simp: replaced_def)
        qed
      qed
    qed
  qed
qed


section \<open>A sample registry\<close>

definition sample_registration :: "char \<Rightarrow> registration" where
  "sample_registration c = \<lparr>rg_kind = General, rg_id = [c], rg_name = ''Art'', rg_config_path = ''/c/'' @ [c], rg_auto_receive = False\<rparr>"

definition sample_registry :: registry where
  "sample_registry = \<lparr>rs_schema_version = BRIDGE_REGISTRY_SCHEMA_VERSION, rs_selected = Some ''b'',
     rs_bridges = [sample_registration (CHR ''a''), sample_registration (CHR ''b'')]\<rparr>"

lemma sample_registration_valid:
  "valid_registration (sample_registration (CHR ''a''))" "valid_registration (sample_registration (CHR ''b''))"
  "valid_registration (sample_registration (CHR ''c''))"
proof -
  have "trim ''Art'' = ''Art''" by (simp add: trim_printable printable_char_def)
  moreover have "char_count ''Art'' = 3" by (simp add: char_count_def utf8_next_def char_width_def)
  moreover have "\<not> has_control ''Art''" using ascii_text_header [of "''Art''"] by (simp add: ascii_text_def)
  ultimately have name: "is_ok (validate_bridge_name ''Art'')" by (simp add: validate_bridge_name_def MAX_BRIDGE_NAME_CHARS_def)
  have "valid_registration (sample_registration c)" if "is_ascii_alphanumeric c" "c \<noteq> slash" for c
    using name that by (simp add: valid_registration_def sample_registration_def validate_bridge_id_def
      is_ok_iff [of "validate_config_path p" for p] validate_config_path_iff is_absolute_def)
  then show "valid_registration (sample_registration (CHR ''a''))" "valid_registration (sample_registration (CHR ''b''))"
    "valid_registration (sample_registration (CHR ''c''))"
    by (simp_all add: ascii_defs)
qed

lemma sample_registry_valid: "valid_registry sample_registry"
  using sample_registration_valid
  by (simp add: valid_registry_iff sample_registry_def MAX_BRIDGES_def)
    (simp add: sample_registration_def path_components_def normal_components_def is_absolute_def)

lemma sample_addable: "addable sample_registry (sample_registration (CHR ''c''))" "\<not> addable sample_registry (sample_registration (CHR ''a''))"
  using sample_registration_valid
  by (simp_all add: addable_def sample_registry_def MAX_BRIDGES_def)
    (simp_all add: sample_registration_def path_components_def normal_components_def is_absolute_def)

theorem registry_add_contract_witness:
  "registry_add (sample_registration (CHR ''c'')) sample_registry
     = (Inr (), sample_registry\<lparr>rs_bridges := rs_bridges sample_registry @ [sample_registration (CHR ''c'')],
         rs_selected := Some ''c''\<rparr>)"
  using registry_add_contract [OF sample_registry_valid, of "sample_registration (CHR ''c'')"] sample_addable(1)
  by (simp add: sample_registration_def)

theorem registry_remove_contract_witness:
  "fst (registry_remove ''b'' sample_registry) = Inr (sample_registration (CHR ''b''))
     \<and> rs_selected (snd (registry_remove ''b'' sample_registry)) = Some ''a''"
proof -
  let ?a = "sample_registration (CHR ''a'')" and ?b = "sample_registration (CHR ''b'')"
  have i: "rg_id ?b = ''b''" "rg_id ?a = ''a''" "?a \<noteq> ?b" by (simp_all add: sample_registration_def)
  have m: "?b \<in> set (rs_bridges sample_registry)" by (simp add: sample_registry_def)
  obtain us vs where u: "rs_bridges sample_registry = us @ ?b # vs"
    "registry_remove ''b'' sample_registry = (Inr ?b, sample_registry\<lparr>rs_bridges := us @ vs,
       rs_selected := (if rs_selected sample_registry = Some ''b'' then neighbour us vs else rs_selected sample_registry)\<rparr>)"
    using registry_remove_contract [OF sample_registry_valid m] i(1) by auto
  from u(1) i(3) have "us = [?a]" "vs = []" by (auto simp: sample_registry_def Cons_eq_append_conv)
  with u(2) i show ?thesis by (simp add: neighbour_def sample_registry_def)
qed

theorem registry_kept_witness:
  "keeps_registry sample_registry (registry_add (sample_registration (CHR ''a'')) sample_registry)
     \<and> snd (registry_add (sample_registration (CHR ''a'')) sample_registry) = sample_registry"
proof -
  have "\<not> is_ok (fst (registry_add (sample_registration (CHR ''a'')) sample_registry))"
    using registry_add_outcome [OF sample_registry_valid, of "sample_registration (CHR ''a'')"] sample_addable(2) by auto
  moreover have "keeps_registry sample_registry (registry_add (sample_registration (CHR ''a'')) sample_registry)"
    using registry_kept [OF sample_registry_valid, of "sample_registration (CHR ''a'')" "''b''" "''Art''" True Photos] by blast
  ultimately show ?thesis using sample_registry_valid by (simp add: keeps_registry_def)
qed

definition sample_registry_api :: "unit registry_api" where
  "sample_registry_api = \<lparr>sf_permit = \<lambda>w. (True, w), sf_write = \<lambda>w. (WrittenNotSynced, w), sf_length = \<lambda>r. 9\<rparr>"


end
