(* ===== verification/PairingClient.thy ===== *)
theory PairingClient
  imports Pairing Projection Upload
begin

text \<open>
  The client side of the pairing of a Folder, \<open>src/pairing.rs\<close>, and the directory client built on it,
  \<open>src/directory/client.rs\<close>. The HTTP library with the network behind it, URL parsing and JSON are
  arguments; the HTTP library never follows a redirect.
\<close>

section \<open>Requests\<close>

text \<open>Encoders of the bodies and decoders of the answers.\<close>

record wire_json =
  wj_create :: "string \<Rightarrow> bytes"
  wj_claim :: "claim_request \<Rightarrow> bytes"
  wj_confirm :: "string \<Rightarrow> bytes"
  wj_update :: "inventory_update \<Rightarrow> bytes"
  wj_receipt :: "directory_ack \<Rightarrow> bytes"
  wj_created :: "bytes \<Rightarrow> folder_created option"
  wj_handshake :: "bytes \<Rightarrow> folder_handshake option"
  wj_invitation :: "bytes \<Rightarrow> folder_invitation option"
  wj_exit :: "bytes \<Rightarrow> folder_exit_status option"
  wj_index :: "bytes \<Rightarrow> delivery_index option"
  wj_state :: "bytes \<Rightarrow> directory_state option"
  wj_inventory :: "bytes \<Rightarrow> inventory option"
  wj_acknowledged :: "bytes \<Rightarrow> bool option"

record pairing_client =
  pc_base :: url
  pc_token :: string

definition PairingClient_new :: "url_library \<Rightarrow> string \<Rightarrow> string \<Rightarrow> bool \<Rightarrow> pairing_client res" where
  "PairingClient_new U base token insecure =
     andthen (ensure (length base \<le> 2048) ''Server URL is too long.'') (\<lambda>_.
     andthen (of_option ''Invalid server URL.'' (url_parse U base)) (\<lambda>u.
     andthen (ensure (url_host u \<noteq> None \<and> url_username u = [] \<and> url_password u = None \<and> url_query u = None
         \<and> url_fragment u = None) ''Use a server URL without credentials, query or fragment.'') (\<lambda>_.
     andthen (ensure (url_scheme u = ''https'' \<or> insecure \<and> url_scheme u = ''http'') ''HTTPS is required.'') (\<lambda>_.
     let base_url = (if suffix [slash] (url_path u) then u else url_set_path U (url_path u @ [slash]) u) in
     andthen (ensure (token \<noteq> [] \<and> length token \<le> 4096 \<and> list_all printable_char token) ''Enter a valid credential.'') (\<lambda>_.
     Inr \<lparr>pc_base = base_url, pc_token = token\<rparr>)))))"

definition setup_status :: "nat \<Rightarrow> unit res" where
  "setup_status n =
     (if 200 \<le> n \<and> n \<le> 299 then Inr ()
      else if n = 401 then Inl (Bail ''Credential or pairing code is invalid, expired, or already used by another device.'')
      else if n = 403 then Inl (Bail ''This credential does not have the required Folder permission.'')
      else if n = 404 then Inl (Bail ''This server does not support Folder pairing, or the Folder address is incorrect.'')
      else if n = 409 then Inl (Bail ''Folder state changed or needs confirmation. Refresh before retrying.'')
      else if n = 410 then Inl (Bail ''This Folder has been disconnected. Create a new Folder to reconnect.'')
      else if n = 426 then Inl (Bail ''Server and app protocol versions are incompatible.'')
      else Inl (Bail ''The server could not complete setup. No automatic retry was made.''))"

definition pairing_headers :: "pairing_client \<Rightarrow> bytes option \<Rightarrow> headers" where
  "pairing_headers P body =
     (''authorization'', ''Bearer '' @ pc_token P) # (''mirelay-protocol-version'', ''1'')
     # (case body of None \<Rightarrow> [] | Some _ \<Rightarrow> [(''content-type'', ''application/json'')])"

definition pairing_send :: "'w outside \<Rightarrow> http_request \<Rightarrow> ('w, http_response) op" where
  "pairing_send V rq w =
     (case out_send V rq w of
        (Inl _, w') \<Rightarrow> (Inl (Bail ''Connection failed.''), w')
      | (Inr r, w') \<Rightarrow> (Inr r, w'))"

text \<open>At most one byte more than the limit is read.\<close>

definition setup_reply :: "nat \<Rightarrow> (bytes \<Rightarrow> 'a option) \<Rightarrow> http_response \<Rightarrow> 'a res" where
  "setup_reply limit decode r =
     andthen (setup_status (hr_status r)) (\<lambda>_.
     andthen (of_option ''Incomplete setup response.'' (map_option (take (limit + 1)) (hr_body r))) (\<lambda>b.
     andthen (ensure (length b \<le> limit) ''Setup response is too large.'') (\<lambda>_.
     of_option ''Invalid setup response from server.'' (decode b))))"

definition request_limited ::
    "'w outside \<Rightarrow> pairing_client \<Rightarrow> http_method \<Rightarrow> string \<Rightarrow> bytes option \<Rightarrow> nat \<Rightarrow> (bytes \<Rightarrow> 'a option) \<Rightarrow> ('w, 'a) op" where
  "request_limited V P method path body limit decode =
     bindo (lifto (of_option ''invalid URL'' (url_join (out_urls V) (pc_base P) path))) (\<lambda>u.
     bindo (pairing_send V \<lparr>rq_method = method, rq_url = url_string (out_urls V) u, rq_headers = pairing_headers P body,
       rq_body = (case body of None \<Rightarrow> [] | Some b \<Rightarrow> b)\<rparr>) (\<lambda>r.
     lifto (setup_reply limit decode r)))"

definition setup_request ::
    "'w outside \<Rightarrow> pairing_client \<Rightarrow> http_method \<Rightarrow> string \<Rightarrow> bytes option \<Rightarrow> (bytes \<Rightarrow> 'a option) \<Rightarrow> ('w, 'a) op" where
  "setup_request V P method path body decode = request_limited V P method path body (16 * 1024) decode"

section \<open>What the client accepts\<close>

definition valid_secret :: "string \<Rightarrow> bool" where
  "valid_secret s \<longleftrightarrow> length s = 64 \<and> list_all is_ascii_hexdigit s"

definition validate_code :: "externals \<Rightarrow> string \<Rightarrow> string res" where
  "validate_code X code =
     andthen (of_option ''Paste the full pairing code from Linux.'' (split_once (CHR ''.'') code)) (\<lambda>(i, secret).
     andthen (ensure (uuid_canonical X i \<and> valid_secret secret) ''Invalid pairing code.'') (\<lambda>_. Inr i))"

definition validate_handshake :: "externals \<Rightarrow> folder_handshake \<Rightarrow> unit res" where
  "validate_handshake X i =
     ensure (fh_schema_version i = PROTOCOL_VERSION \<and> uuid_canonical X (fh_folder_id i)
       \<and> fh_role i \<in> {''receiver'', ''sender''}
       \<and> fh_state i \<in> {''ready'', ''awaiting_peer'', ''awaiting_confirmation'', ''disconnected''}
       \<and> trim (fh_name i) \<noteq> [] \<and> length (fh_name i) \<le> 128 \<and> \<not> has_control (fh_name i)
       \<and> fh_max_file_size i > 0
       \<and> (case fh_verification i of
            None \<Rightarrow> fh_state i \<in> {''awaiting_peer'', ''disconnected''}
          | Some v \<Rightarrow> fh_state i \<in> {''ready'', ''awaiting_confirmation''} \<and> length v = 12 \<and> list_all is_ascii_hexdigit v))
       ''Invalid Folder handshake.''"

text \<open>The base path ends with the Folder's.\<close>

definition at_folder :: "pairing_client \<Rightarrow> string \<Rightarrow> bool" where
  "at_folder P i \<longleftrightarrow> suffix (''/f/'' @ i @ [slash]) (url_path (pc_base P))"

definition accept_created :: "externals \<Rightarrow> folder_created \<Rightarrow> unit res" where
  "accept_created X c =
     andthen (validate_code X (fc_pairing_code c)) (\<lambda>_.
     ensure (prefix (fc_folder_id c @ ''.'') (fc_pairing_code c) \<and> valid_secret (fc_receiver_token c))
       ''Invalid Folder credentials from server.'')"

definition accept_claim :: "externals \<Rightarrow> string \<Rightarrow> folder_handshake \<Rightarrow> unit res" where
  "accept_claim X i got =
     andthen (validate_handshake X got) (\<lambda>_.
     ensure (fh_folder_id got = i \<and> fh_role got = ''sender'') ''Server returned a different Folder identity or permission.'')"

definition accept_handshake :: "externals \<Rightarrow> pairing_client \<Rightarrow> folder_handshake \<Rightarrow> unit res" where
  "accept_handshake X P got =
     andthen (validate_handshake X got) (\<lambda>_.
     ensure (at_folder P (fh_folder_id got)) ''Server returned a different Folder identity.'')"

definition accept_confirm :: "externals \<Rightarrow> pairing_client \<Rightarrow> folder_handshake \<Rightarrow> unit res" where
  "accept_confirm X P got =
     andthen (validate_handshake X got) (\<lambda>_.
     ensure (fh_state got = ''ready'' \<and> fh_role got = ''receiver'' \<and> at_folder P (fh_folder_id got))
       ''Pairing was not confirmed for this receiver.'')"

definition accept_invitation :: "externals \<Rightarrow> pairing_client \<Rightarrow> folder_invitation \<Rightarrow> unit res" where
  "accept_invitation X P v =
     andthen (validate_code X (fi_pairing_code v)) (\<lambda>i.
     ensure (at_folder P i) ''Server returned a different Folder invitation.'')"

definition accept_disconnect :: "externals \<Rightarrow> pairing_client \<Rightarrow> folder_handshake \<Rightarrow> unit res" where
  "accept_disconnect X P got =
     andthen (validate_handshake X got) (\<lambda>_.
     ensure (fh_state got = ''disconnected'' \<and> at_folder P (fh_folder_id got))
       ''Server did not confirm disconnection of this Folder. Keep the credential and retry.'')"

definition accept_exit :: "externals \<Rightarrow> pairing_client \<Rightarrow> http_method \<Rightarrow> folder_exit_status \<Rightarrow> unit res" where
  "accept_exit X P method got =
     ensure (fx_schema_version got = PROTOCOL_VERSION \<and> uuid_canonical X (fx_folder_id got)
       \<and> at_folder P (fx_folder_id got) \<and> fx_role got \<in> {''sender'', ''receiver''}
       \<and> (fx_requested got \<or> \<not> (fx_server_cleaned got \<or> fx_sender_cleaned got \<or> fx_receiver_cleaned got))
       \<and> (method \<noteq> Post \<or> fx_requested got \<and> fx_server_cleaned got))
       ''Invalid exit receipt. Keep this Folder and retry; the relay may need an update.''"

section \<open>The operations\<close>

definition accepting :: "('w, 'a) op \<Rightarrow> ('a \<Rightarrow> unit res) \<Rightarrow> ('w, 'a) op" where
  "accepting m f = bindo m (\<lambda>x. bindo (lifto (f x)) (\<lambda>_. retn x))"

definition client_create_folder :: "'w outside \<Rightarrow> wire_json \<Rightarrow> pairing_client \<Rightarrow> string \<Rightarrow> ('w, folder_created) op" where
  "client_create_folder V J P name =
     bindo (lifto (ensure (trim name \<noteq> [] \<and> length name \<le> 128 \<and> \<not> has_control name)
       ''Enter a Folder name (up to 128 bytes).'')) (\<lambda>_.
     accepting (setup_request V P Post ''api/v1/folders'' (Some (wj_create J (trim name))) (wj_created J))
       (accept_created (out_ext V)))"

definition client_claim :: "'w outside \<Rightarrow> wire_json \<Rightarrow> pairing_client \<Rightarrow> string \<Rightarrow> string \<Rightarrow> ('w, folder_handshake) op" where
  "client_claim V J P code sender_token =
     bindo (lifto (validate_code (out_ext V) code)) (\<lambda>i.
     bindo (lifto (ensure (valid_secret sender_token) ''Invalid sender credential.'')) (\<lambda>_.
     accepting (setup_request V P Post ''api/v1/pairings/claim''
         (Some (wj_claim J \<lparr>cr_pairing_code = code, cr_sender_token = sender_token\<rparr>)) (wj_handshake J))
       (accept_claim (out_ext V) i)))"

definition client_handshake :: "'w outside \<Rightarrow> wire_json \<Rightarrow> pairing_client \<Rightarrow> ('w, folder_handshake) op" where
  "client_handshake V J P =
     accepting (setup_request V P Get ''api/v1/handshake'' None (wj_handshake J)) (accept_handshake (out_ext V) P)"

definition client_confirm :: "'w outside \<Rightarrow> wire_json \<Rightarrow> pairing_client \<Rightarrow> string \<Rightarrow> ('w, folder_handshake) op" where
  "client_confirm V J P verification =
     accepting (setup_request V P Post ''api/v1/pairing/confirm'' (Some (wj_confirm J verification)) (wj_handshake J))
       (accept_confirm (out_ext V) P)"

definition client_renew :: "'w outside \<Rightarrow> wire_json \<Rightarrow> pairing_client \<Rightarrow> ('w, folder_invitation) op" where
  "client_renew V J P =
     accepting (setup_request V P Post ''api/v1/pairing/renew'' None (wj_invitation J)) (accept_invitation (out_ext V) P)"

definition client_disconnect :: "'w outside \<Rightarrow> wire_json \<Rightarrow> pairing_client \<Rightarrow> ('w, folder_handshake) op" where
  "client_disconnect V J P =
     accepting (setup_request V P Post ''api/v1/pairing/disconnect'' None (wj_handshake J)) (accept_disconnect (out_ext V) P)"

definition exit_request :: "'w outside \<Rightarrow> wire_json \<Rightarrow> pairing_client \<Rightarrow> http_method \<Rightarrow> string \<Rightarrow> ('w, folder_exit_status) op" where
  "exit_request V J P method path =
     accepting (setup_request V P method path None (wj_exit J)) (accept_exit (out_ext V) P method)"

definition client_exit_status :: "'w outside \<Rightarrow> wire_json \<Rightarrow> pairing_client \<Rightarrow> ('w, folder_exit_status) op" where
  "client_exit_status V J P = exit_request V J P Get ''api/v1/pairing/exit''"

definition client_clean_exit :: "'w outside \<Rightarrow> wire_json \<Rightarrow> pairing_client \<Rightarrow> ('w, folder_exit_status) op" where
  "client_clean_exit V J P = exit_request V J P Post ''api/v1/pairing/exit''"

definition client_acknowledge_exit :: "'w outside \<Rightarrow> wire_json \<Rightarrow> pairing_client \<Rightarrow> ('w, folder_exit_status) op" where
  "client_acknowledge_exit V J P = exit_request V J P Post ''api/v1/pairing/exit/ack''"

definition verify_receiver :: "'w outside \<Rightarrow> wire_json \<Rightarrow> pairing_client \<Rightarrow> ('w, folder_handshake option) op" where
  "verify_receiver V J P =
     (if sublist ''/f/'' (url_path (pc_base P)) then
        bindo (client_handshake V J P) (\<lambda>got.
        bindo (lifto (ensure (fh_role got = ''receiver'') ''Use a receiver credential on Linux.'')) (\<lambda>_. retn (Some got)))
      else
        bindo (setup_request V P Get ''api/v1/deliveries?status=pending&limit=1'' None (wj_index J)) (\<lambda>index.
        bindo (lifto (ensure (di_schema_version index = PROTOCOL_VERSION) ''Incompatible server protocol.'')) (\<lambda>_. retn None)))"

section \<open>The directory client\<close>

definition DirectoryClient_new ::
    "'w outside \<Rightarrow> wire_json \<Rightarrow> string \<Rightarrow> string \<Rightarrow> bool \<Rightarrow> string \<Rightarrow> ('w, pairing_client) op" where
  "DirectoryClient_new V J base token insecure role =
     bindo (lifto (PairingClient_new (out_urls V) base token insecure)) (\<lambda>P.
     bindo (client_handshake V J P) (\<lambda>got.
     bindo (lifto (ensure (fh_role got = role \<and> fh_state got = ''ready'')
       ''Confirm the paired Folder using the correct device credential first.'')) (\<lambda>_. retn P)))"

definition client_directory_state :: "'w outside \<Rightarrow> wire_json \<Rightarrow> pairing_client \<Rightarrow> ('w, directory_state) op" where
  "client_directory_state V J P =
     accepting (request_limited V P Get ''api/v1/directory'' None MAX_BODY (wj_state J)) (validate_directory_state (out_ext V))"

definition client_publish :: "'w outside \<Rightarrow> wire_json \<Rightarrow> pairing_client \<Rightarrow> inventory_update \<Rightarrow> ('w, inventory) op" where
  "client_publish V J P u =
     bindo (lifto (validate_inventory (out_ext V) (iu_inventory u))) (\<lambda>_.
     accepting (request_limited V P Put ''api/v1/directory/index'' (Some (wj_update J u)) MAX_BODY (wj_inventory J))
       (\<lambda>v. ensure (v = iu_inventory u) ''Receiver index was not confirmed.''))"

definition client_acknowledge :: "'w outside \<Rightarrow> wire_json \<Rightarrow> pairing_client \<Rightarrow> directory_ack \<Rightarrow> ('w, unit) op" where
  "client_acknowledge V J P a =
     bindo (request_limited V P Post ''api/v1/directory/ack'' (Some (wj_receipt J a)) (16 * 1024) (wj_acknowledged J)) (\<lambda>yes.
     lifto (ensure yes ''Directory receipt was not confirmed.''))"

text \<open>What the directory receiver and sender are given.\<close>

definition directory_client_of :: "'w outside \<Rightarrow> wire_json \<Rightarrow> pairing_client \<Rightarrow> 'w directory_client" where
  "directory_client_of V J P = \<lparr>dc_state = client_directory_state V J P, dc_publish = client_publish V J P,
     dc_acknowledge = client_acknowledge V J P\<rparr>"

end
