(* ===== verification/Agreement.thy ===== *)
theory Agreement
  imports PairingClient Api
begin

text \<open>
  The two halves of pairing fit together: what a handler of the server answers is what the client's
  checks accept. And the client never sends more than one request for one operation.
\<close>

section \<open>What the two sides rely on\<close>

text \<open>
  Hexadecimal has two lower-case digits a byte, and a UUID has no full stop.
\<close>

definition documented :: "externals \<Rightarrow> bool" where
  "documented X \<longleftrightarrow> (\<forall>b. length (hex_encode X b) = 2 * length b \<and> list_all is_ascii_hexdigit (hex_encode X b))
     \<and> (\<forall>i. uuid_canonical X i \<longrightarrow> CHR ''.'' \<notin> set i)"

text \<open>A Folder as the server stores it: its name was checked at its creation, and a hash has 32 bytes.\<close>

definition named_folder :: "folder_row \<Rightarrow> bool" where
  "named_folder f \<longleftrightarrow> trim (f_name f) \<noteq> [] \<and> length (f_name f) \<le> 128 \<and> \<not> has_control (f_name f)
     \<and> (\<forall>v. f_sender_hash f = Some v \<longrightarrow> length v = 32)"

definition named_folders :: "server \<Rightarrow> bool" where
  "named_folders s \<longleftrightarrow> (\<forall>f \<in> set (t_folders (srv_db s)). named_folder f)"

lemma documented_hex: "documented X \<Longrightarrow> length v = 32 \<Longrightarrow> length (hex_encode X (take 6 v)) = 12 \<and> list_all is_ascii_hexdigit (hex_encode X (take 6 v))"
  by (simp add: documented_def)

section \<open>Identities\<close>

lemma handshake_accepted:
  assumes "documented (ext E)" and "0 < max_file_size E" and "uuid_canonical (ext E) (f_id f)"
    and "named_folder f" and "folder_ok f" and "role \<in> {''receiver'', ''sender''}"
  shows "validate_handshake (ext E) (folder_handshake_of E f role) = Inr ()"
proof (cases "f_disconnected f")
  case True
  with assms show ?thesis
    by (simp add: validate_handshake_def folder_handshake_of_def named_folder_def folder_status_def)
next
  case False
  show ?thesis
  proof (cases "f_sender_hash f")
    case None
    with False assms show ?thesis
      by (simp add: validate_handshake_def folder_handshake_of_def named_folder_def folder_status_def folder_ok_def)
  next
    case (Some v)
    with assms(4) have "length v = 32" by (simp add: named_folder_def)
    with Some False assms documented_hex [OF assms(1)] show ?thesis
      by (simp add: validate_handshake_def folder_handshake_of_def named_folder_def folder_status_def)
  qed
qed

lemma role_cases: "folder_role f hash = Some role \<Longrightarrow> role \<in> {''receiver'', ''sender''}"
  by (auto simp: folder_role_def split: if_splits)

lemma identity_accepted:
  assumes "documented (ext (env S))" and "0 < max_file_size (env S)" and "folders_ok (srv_db s)" and "named_folders s"
    and "identity S fid hash s = (Inr g, t)"
  shows "t = s \<and> validate_handshake (ext (env S)) g = Inr () \<and> fh_folder_id g = fid \<and> uuid_canonical (ext (env S)) fid
     \<and> (\<exists>f. find_folder (srv_db s) fid = Some f \<and> folder_role f hash = Some (fh_role g) \<and> fh_state g = folder_status f)"
proof -
  from assms(5) obtain f role where f: "t = s" "uuid_canonical (ext (env S)) fid" "find_folder (srv_db s) fid = Some f"
      "folder_role f hash = Some role" "g = folder_handshake_of (env S) f role"
    by (auto simp: identity_ok)
  from find_folder_mem [OF f(3)] have m: "f \<in> set (t_folders (srv_db s))" "f_id f = fid" by auto
  with assms(3,4) have "folder_ok f" "named_folder f" by (auto simp: folders_ok_def list_all_iff named_folders_def)
  with handshake_accepted [OF assms(1,2)] role_cases [OF f(4)] f m show ?thesis by auto
qed

section \<open>Folder rows after a request\<close>

definition all_folders :: "(folder_row \<Rightarrow> bool) \<Rightarrow> server \<Rightarrow> bool" where
  "all_folders Q s \<longleftrightarrow> (\<forall>f \<in> set (t_folders (srv_db s)). Q f)"

lemma named_all: "named_folders = all_folders named_folder"
  by (simp add: fun_eq_iff named_folders_def all_folders_def)

lemma all_folders_db:
  "(\<And>d. \<forall>f \<in> set (t_folders d). Q f \<Longrightarrow> \<forall>f \<in> set (t_folders (g d)). Q f) \<Longrightarrow> pres (all_folders Q) (modifyo (on_db g))"
  by (rule pres_modifyo) (simp add: all_folders_def)

lemma all_folders_map:
  "\<forall>f \<in> set (t_folders d). Q f \<Longrightarrow> (\<And>f. Q f \<Longrightarrow> Q (g f)) \<Longrightarrow> \<forall>f \<in> set (t_folders (d\<lparr>t_folders := List.map g (t_folders d)\<rparr>)). Q f"
  by auto

lemma all_folders_update:
  "\<forall>f \<in> set (t_folders d). Q f \<Longrightarrow> (\<And>f. Q f \<Longrightarrow> Q (g f)) \<Longrightarrow> \<forall>f \<in> set (t_folders (update_folder fid g d)). Q f"
  by (auto simp: update_folder_def)

lemma all_folders_claim:
  assumes "\<And>f. Q f \<Longrightarrow> Q (f\<lparr>f_sender_hash := Some sender\<rparr>)"
  shows "pres (all_folders Q) (claim_step now fid invite sender)"
  unfolding claim_step_def by (intro pres_intros all_folders_db all_folders_update) (auto intro: assms)

lemma all_folders_confirm:
  assumes "\<And>f. Q f \<Longrightarrow> Q (f\<lparr>f_ready := True\<rparr>)"
  shows "pres (all_folders Q) (confirm_step X fid verification)"
  unfolding confirm_step_def Let_def by (intro pres_intros all_folders_db all_folders_map) (auto intro: assms)

lemma all_folders_disconnect:
  assumes "\<And>f. Q f \<Longrightarrow> Q (revoke f)"
  shows "pres (all_folders Q) (disconnect_step fid hash)"
  unfolding disconnect_step_def by (intro pres_intros all_folders_db all_folders_update) (auto intro: assms)

lemma transaction_state: "transaction m s = (Inr x, t) \<Longrightarrow> m s = (Inr x, t)"
  by (simp add: transaction_ok)

lemma pres_at: "pres P m \<Longrightarrow> P s \<Longrightarrow> m s = (r, t) \<Longrightarrow> P t"
  using presD [of P m s] by (cases "m s") auto

section \<open>Answers are accepted\<close>

lemma created_accepted:
  assumes "documented X" and "uuid_canonical X fid" and "valid_secret token" and "valid_secret secret"
    and "create_folder S now fid token secret h name s = (Inr c, t)"
  shows "accept_created X c = Inr ()"
proof -
  have "c = \<lparr>fc_folder_id = fid, fc_receiver_token = token, fc_pairing_code = fid @ ''.'' @ secret,
      fc_expires_at_unix = now + INVITATION_SECONDS\<rparr>"
    using assms(5) by (auto simp: create_folder_def insert_folder_def op_ok Let_def folder_store_ok transaction_ok)
  moreover have "CHR ''.'' \<notin> set fid" using assms(1,2) by (simp add: documented_def)
  then have "split_once (CHR ''.'') (fid @ CHR ''.'' # secret) = Some (fid, secret)" by (simp add: split_once_eq)
  ultimately show ?thesis using assms(2-4) by (simp add: accept_created_def validate_code_def)
qed

lemma claim_accepted:
  assumes "documented (ext (env S))" and "0 < max_file_size (env S)" and "folders_ok (srv_db s)" and "named_folders s"
    and "\<forall>b. length (sha256 (ext (env S)) b) = 32"
    and "\<forall>f \<in> set (t_folders (srv_db s)). f_receiver_hash f \<noteq> token_hash (ext (env S)) (cr_sender_token rq)"
    and "claim S now h rq s = (Inr g, t)"
  shows "\<exists>i. validate_code (ext (env S)) (cr_pairing_code rq) = Inr i \<and> accept_claim (ext (env S)) i g = Inr ()"
proof -
  let ?X = "ext (env S)" and ?v = "token_hash (ext (env S)) (cr_sender_token rq)"
  obtain fid secret u where c: "split_once (CHR ''.'') (cr_pairing_code rq) = Some (fid, secret)" "uuid_canonical ?X fid"
      "hex_token secret" "claim_step now fid (token_hash ?X (cr_pairing_code rq)) ?v s = (Inr True, u)"
      "identity S fid ?v u = (Inr g, t)"
    using assms(7) by (auto simp: claim_def op_ok Let_def folder_store_ok transaction_ok validate_id_def split: option.splits if_splits)
  have "length ?v = 32" using assms(5) by (simp add: token_hash_def)
  then have n: "named_folders u"
    using pres_at [OF all_folders_claim [of named_folder] _ c(4)] assms(4) by (auto simp: named_all named_folder_def)
  have r: "all_folders (\<lambda>f. f_receiver_hash f \<noteq> ?v) u"
    by (rule pres_at [OF all_folders_claim _ c(4)]) (use assms(6) in \<open>auto simp: all_folders_def\<close>)
  have "folders_ok (srv_db u)" using pres_at [OF pres_claim_step assms(3) c(4)] .
  from identity_accepted [OF assms(1,2) this n c(5)] obtain f where f: "validate_handshake ?X g = Inr ()" "fh_folder_id g = fid"
      "find_folder (srv_db u) fid = Some f" "folder_role f ?v = Some (fh_role g)" by auto
  have "f_receiver_hash f \<noteq> ?v" using r find_folder_mem [OF f(3)] by (auto simp: all_folders_def)
  with f(4) have "fh_role g = ''sender''" by (auto simp: folder_role_def split: if_splits)
  with c f show ?thesis by (simp add: accept_claim_def validate_code_def hex_token_def valid_secret_def)
qed

lemma confirm_accepted:
  assumes "documented (ext (env S))" and "0 < max_file_size (env S)" and "folders_ok (srv_db s)" and "named_folders s"
    and "at_folder P fid" and "confirm S fid h verification s = (Inr g, t)"
  shows "accept_confirm (ext (env S)) P g = Inr ()"
proof -
  let ?X = "ext (env S)"
  obtain hash i u where c: "identity S fid hash s = (Inr i, s)" "fh_role i = ''receiver''" "fh_folder_id i = fid"
      "confirm_step ?X fid verification s = (Inr True, u)" "identity S fid hash u = (Inr g, t)"
    using assms(6) identity_accepted [OF assms(1-4)]
    by (auto simp: confirm_def op_ok folder_store_ok split: if_splits) metis
  have n: "named_folders u"
    using pres_at [OF all_folders_confirm [of named_folder] _ c(4)] assms(4) by (auto simp: named_all named_folder_def)
  have o: "folders_ok (srv_db u)" using pres_at [OF pres_confirm_step assms(3) c(4)] .
  from identity_accepted [OF assms(1-4) c(1)] obtain f where f: "find_folder (srv_db s) fid = Some f" "folder_role f hash = Some ''receiver''"
    using c(2) by auto
  from identity_accepted [OF assms(1,2) o n c(5)] obtain f' where f': "validate_handshake ?X g = Inr ()" "fh_folder_id g = fid"
      "find_folder (srv_db u) fid = Some f'" "folder_role f' hash = Some (fh_role g)" "fh_state g = folder_status f'" by auto
  define matching where "matching = (\<lambda>f :: folder_row. f_id f = fid \<and> \<not> f_disconnected f
         \<and> (case f_sender_hash f of None \<Rightarrow> False | Some w \<Rightarrow> take 12 (hex_encode ?X w) = verification))"
  have u: "length (List.filter matching (t_folders (srv_db s))) = 1"
      "t_folders (srv_db u) = List.map (\<lambda>f. if matching f then f\<lparr>f_ready := True\<rparr> else f) (t_folders (srv_db s))"
    using c(4) unfolding confirm_step_def Let_def open_connection_eq matching_def [symmetric] by (auto simp: op_defs on_db_def)
  from u(1) have "List.filter matching (t_folders (srv_db s)) \<noteq> []" by auto
  then obtain f0 where m: "f0 \<in> set (t_folders (srv_db s))" "matching f0" by (auto simp: filter_empty_conv)
  then have "find_folder (srv_db s) fid = Some f0" using folder_mem [OF assms(3) m(1)] by (simp add: matching_def)
  with f(1) have "f0 = f" by simp
  have "find_folder (srv_db u) fid = map_option (\<lambda>f. if matching f then f\<lparr>f_ready := True\<rparr> else f) (find_folder (srv_db s) fid)"
    by (rule find_folder_map) (use u(2) in auto)
  with f(1) m(2) f'(3) \<open>f0 = f\<close> have "f' = f\<lparr>f_ready := True\<rparr>" "\<not> f_disconnected f" by (auto simp: matching_def)
  with f(2) f'(4,5) have "fh_state g = ''ready''" "fh_role g = ''receiver''"
    by (auto simp: folder_status_def folder_role_def split: if_splits)
  with f' assms(5) show ?thesis by (simp add: accept_confirm_def)
qed

lemma invitation_accepted:
  assumes "documented (ext (env S))" and "valid_secret secret" and "at_folder P fid"
    and "renew S now secret fid h s = (Inr v, t)"
  shows "accept_invitation (ext (env S)) P v = Inr ()"
proof -
  have v: "fi_pairing_code v = fid @ CHR ''.'' # secret" "uuid_canonical (ext (env S)) fid"
    using assms(4) by (auto simp: renew_def op_ok Let_def folder_store_ok identity_ok)
  then have "CHR ''.'' \<notin> set fid" using assms(1) by (simp add: documented_def)
  then have "split_once (CHR ''.'') (fid @ CHR ''.'' # secret) = Some (fid, secret)" by (simp add: split_once_eq)
  with v assms(2,3) show ?thesis by (simp add: accept_invitation_def validate_code_def)
qed

lemma named_revoke: "named_folder f \<Longrightarrow> named_folder (revoke f)"
  by (simp add: named_folder_def revoke_def)

lemma disconnect_accepted:
  assumes "documented (ext (env S))" and "0 < max_file_size (env S)" and "folders_ok (srv_db s)" and "named_folders s"
    and "at_folder P fid" and "disconnect S fid h s = (Inr g, t)"
  shows "accept_disconnect (ext (env S)) P g = Inr ()"
proof -
  obtain hash u where c: "disconnect_step fid hash s = (Inr True, u)" "identity S fid hash u = (Inr g, t)"
    using assms(6) by (auto simp: disconnect_def op_ok folder_store_ok transaction_ok split: if_splits)
  have n: "named_folders u"
    using pres_at [OF all_folders_disconnect [of named_folder] _ c(1)] assms(4) by (auto simp: named_all named_revoke)
  have o: "folders_ok (srv_db u)" using pres_at [OF pres_disconnect_step assms(3) c(1)] .
  from identity_accepted [OF assms(1,2) o n c(2)] obtain f where f: "validate_handshake (ext (env S)) g = Inr ()" "fh_folder_id g = fid"
      "find_folder (srv_db u) fid = Some f" "fh_state g = folder_status f" by auto
  have "srv_db u = update_folder fid revoke (srv_db s)"
    using c(1) by (auto simp: disconnect_step_def open_connection_eq op_defs on_db_def split: if_splits)
  with find_folder_mem [OF f(3)] revoked_mem [of f fid "srv_db s"] have "f_disconnected f" by simp
  with f assms(5) show ?thesis by (simp add: accept_disconnect_def folder_status_def)
qed

text \<open>The exit row after a completed exit, and after a receipt.\<close>

lemma exit_cleaned:
  assumes "clean_exit E fid credential s = (Inr True, t)"
  shows "\<exists>x. find_exit (srv_db t) fid = Some x \<and> x_server x"
proof -
  obtain e where t: "t = on_db (retire_rows fid) e" using assms by (rule exit_steps)
  have "exit_started (srv_db t) fid" using exit_effect [OF assms] by blast
  then have "find_exit (srv_db t) fid \<noteq> None" unfolding exit_started_def find_exit_def find_None_iff by blast
  then obtain x where x: "find_exit (srv_db t) fid = Some x" by blast
  then have m: "x \<in> set (t_exits (srv_db t))" and "x_folder x = fid" using find_SomeD unfolding find_exit_def by fast+
  note m
  moreover have "t_exits (srv_db t) = List.map (\<lambda>x. if x_folder x = fid then x\<lparr>x_server := True\<rparr> else x) (t_exits (srv_db e))"
    by (simp add: t on_db_def)
  ultimately have "x \<in> (\<lambda>x. if x_folder x = fid then x\<lparr>x_server := True\<rparr> else x) ` set (t_exits (srv_db e))" by (metis set_map)
  then obtain y where "x = (if x_folder y = fid then y\<lparr>x_server := True\<rparr> else y)" by (rule imageE)
  with \<open>x_folder x = fid\<close> have "x_server x" by (cases "x_folder y = fid") simp_all
  with x show ?thesis by blast
qed

lemma mark_cleaned_folder [simp]: "x_folder (mark_cleaned fid role x) = x_folder x" "x_server (mark_cleaned fid role x) = x_server x"
  by (simp_all add: mark_cleaned_def)

lemma receipt_cleaned:
  assumes "folders_ok (srv_db s)" and "exit_receipt fid role hash s = (Inr ReceiptTaken, t)"
  shows "\<exists>x. find_exit (srv_db t) fid = Some x \<and> x_server x"
proof -
  have l: "length (List.filter (\<lambda>x. x_folder x = fid \<and> x_server x) (t_exits (srv_db s))) = 1"
    and t: "t_exits (srv_db t) = List.map (mark_cleaned fid role) (t_exits (srv_db s))"
    using assms(2) by (auto simp: exit_receipt_def open_connection_eq op_defs on_db_def split: if_splits)
  from l have "List.filter (\<lambda>x. x_folder x = fid \<and> x_server x) (t_exits (srv_db s)) \<noteq> []" by auto
  then obtain x where x: "x \<in> set (t_exits (srv_db s))" "x_folder x = fid" "x_server x" by (auto simp: filter_empty_conv)
  have "distinct (List.map x_folder xs) \<Longrightarrow> x \<in> set xs \<Longrightarrow> List.find (\<lambda>y. x_folder y = fid) xs = Some x" for xs
    using x(2) by (induction xs) auto
  with assms(1) x(1) have "find_exit (srv_db s) fid = Some x" by (simp add: folders_ok_def find_exit_def)
  then have "find_exit (srv_db t) fid = Some (mark_cleaned fid role x)"
    unfolding find_exit_def t find_map comp_def mark_cleaned_folder by simp
  with x(3) show ?thesis by simp
qed

lemma status_accepted:
  assumes "at_folder P fid" and "uuid_canonical X fid" and "role \<in> {''sender'', ''receiver''}"
    and "exit_status fid role s = (Inr st, t)"
    and "m = Post \<Longrightarrow> \<exists>x. find_exit (srv_db s) fid = Some x \<and> x_server x"
  shows "accept_exit X P m st = Inr ()"
  using assms by (cases "find_exit (srv_db s) fid") (auto simp: exit_status_def open_connection_eq Let_def accept_exit_def)

lemma exit_accepted:
  assumes "documented (ext (env S))" and "0 < max_file_size (env S)" and "folders_ok (srv_db s)" and "named_folders s"
    and "at_folder P fid" and "operation \<le> 2" and "exit_dispatch S fid h operation s = (Inr st, t)"
  shows "accept_exit (ext (env S)) P (if operation = 0 then Get else Post) st = Inr ()"
proof -
  obtain hash i u where j: "identity S fid hash s = (Inr i, u)" "exit_work (env S) fid (fh_role i) hash operation u = (Inr (ExitStatus st), t)"
  proof -
    from assms(7) obtain hash i u x v where x: "identity S fid hash s = (Inr i, u)"
        "exit_work (env S) fid (fh_role i) hash operation u = (Inr x, v)"
        "(case x of ExitStatus st \<Rightarrow> retn st | ExitUnauthorized \<Rightarrow> fails unauthorized
          | CleanupPending \<Rightarrow> fails (api_err 409 ''exit_cleanup_pending'')) v = (Inr st, t)"
      unfolding exit_dispatch_def op_ok folder_store_ok by blast
    from x(3) have "x = ExitStatus st \<and> v = t" by (cases x) auto
    with x(1,2) that show thesis by blast
  qed
  with identity_accepted [OF assms(1-4) j(1)] have i: "identity S fid hash s = (Inr i, s)"
      "exit_work (env S) fid (fh_role i) hash operation s = (Inr (ExitStatus st), t)" by auto
  from identity_accepted [OF assms(1-4) i(1)] have u: "uuid_canonical (ext (env S)) fid" and r: "fh_role i \<in> {''sender'', ''receiver''}"
    by (auto dest: role_cases)
  consider "operation = 0" | "operation = 1" | "operation = 2" using assms(6) by linarith
  then show ?thesis
  proof cases
    case 1
    with i(2) have "exit_status fid (fh_role i) s = (Inr st, t)" by (auto simp: exit_work_def op_ok)
    from status_accepted [OF assms(5) u r this, of Get] 1 show ?thesis by simp
  next
    case 2
    with i(2) obtain v where v: "clean_exit (env S) fid (Some hash) s = (Inr True, v)" "exit_status fid (fh_role i) v = (Inr st, t)"
      by (auto simp: exit_work_def op_ok split: if_splits)
    from status_accepted [OF assms(5) u r v(2), of Post] exit_cleaned [OF v(1)] 2 show ?thesis by simp
  next
    case 3
    with i(2) obtain v where v: "transaction (exit_receipt fid (fh_role i) hash) s = (Inr ReceiptTaken, v)" "exit_status fid (fh_role i) v = (Inr st, t)"
    proof -
      from 3 i(2) obtain x v where x: "transaction (exit_receipt fid (fh_role i) hash) s = (Inr x, v)"
          "(case x of ReceiptUnauthorized \<Rightarrow> retn ExitUnauthorized | ReceiptEarly \<Rightarrow> retn CleanupPending
            | ReceiptTaken \<Rightarrow> bindo (exit_status fid (fh_role i)) (\<lambda>st. retn (ExitStatus st))) v = (Inr (ExitStatus st), t)"
        by (auto simp: exit_work_def bindo_ok)
      then have "x = ReceiptTaken" by (cases x) auto
      with x that show thesis by (auto simp: bindo_ok)
    qed
    from status_accepted [OF assms(5) u r v(2), of Post] receipt_cleaned [OF assms(3) transaction_state [OF v(1)]] 3 show ?thesis by simp
  qed
qed

text \<open>
  C20. The client accepts every answer of the server: whatever a handler of the Folder answers without
  an error, to a client whose address is that of the Folder, passes the client's checks. For a new
  Folder and for a renewal this takes ids and credentials of the form that the server draws them in,
  and for a claim a sender's credential that is not the receiver's.
\<close>

theorem pairing_agreement:
  assumes "documented (ext (env S))" and "0 < max_file_size (env S)" and "\<forall>b. length (sha256 (ext (env S)) b) = 32"
    and "folders_ok (srv_db s)" and "named_folders s" and "at_folder P fid"
  shows "(uuid_canonical (ext (env S)) fid \<and> valid_secret token \<and> valid_secret secret
        \<and> create_folder S now fid token secret h name s = (Inr c, t) \<longrightarrow> accept_created (ext (env S)) c = Inr ())
     \<and> ((\<forall>f \<in> set (t_folders (srv_db s)). f_receiver_hash f \<noteq> token_hash (ext (env S)) (cr_sender_token rq))
        \<and> claim S now h rq s = (Inr g, t) \<longrightarrow>
        (\<exists>i. validate_code (ext (env S)) (cr_pairing_code rq) = Inr i \<and> accept_claim (ext (env S)) i g = Inr ()))
     \<and> (handshake S fid h s = (Inr g, t) \<longrightarrow> accept_handshake (ext (env S)) P g = Inr ())
     \<and> (confirm S fid h verification s = (Inr g, t) \<longrightarrow> accept_confirm (ext (env S)) P g = Inr ())
     \<and> (valid_secret secret \<and> renew S now secret fid h s = (Inr v, t) \<longrightarrow> accept_invitation (ext (env S)) P v = Inr ())
     \<and> (disconnect S fid h s = (Inr g, t) \<longrightarrow> accept_disconnect (ext (env S)) P g = Inr ())
     \<and> (operation \<le> 2 \<and> exit_dispatch S fid h operation s = (Inr st, t) \<longrightarrow>
        accept_exit (ext (env S)) P (if operation = 0 then Get else Post) st = Inr ())"
proof -
  have 1: "uuid_canonical (ext (env S)) fid \<and> valid_secret token \<and> valid_secret secret
      \<and> create_folder S now fid token secret h name s = (Inr c, t) \<longrightarrow> accept_created (ext (env S)) c = Inr ()"
    using created_accepted [OF assms(1)] by blast
  have 2: "(\<forall>f \<in> set (t_folders (srv_db s)). f_receiver_hash f \<noteq> token_hash (ext (env S)) (cr_sender_token rq))
      \<and> claim S now h rq s = (Inr g, t) \<longrightarrow>
      (\<exists>i. validate_code (ext (env S)) (cr_pairing_code rq) = Inr i \<and> accept_claim (ext (env S)) i g = Inr ())"
    using claim_accepted [OF assms(1,2,4,5,3)] by blast
  have 3: "handshake S fid h s = (Inr g, t) \<longrightarrow> accept_handshake (ext (env S)) P g = Inr ()"
    using identity_accepted [OF assms(1,2,4,5)] assms(6) by (auto simp: handshake_def op_ok accept_handshake_def)
  have 4: "confirm S fid h verification s = (Inr g, t) \<longrightarrow> accept_confirm (ext (env S)) P g = Inr ()"
    using confirm_accepted [OF assms(1,2,4,5,6)] by blast
  have 5: "valid_secret secret \<and> renew S now secret fid h s = (Inr v, t) \<longrightarrow> accept_invitation (ext (env S)) P v = Inr ()"
    using invitation_accepted [OF assms(1) _ assms(6)] by blast
  have 6: "disconnect S fid h s = (Inr g, t) \<longrightarrow> accept_disconnect (ext (env S)) P g = Inr ()"
    using disconnect_accepted [OF assms(1,2,4,5,6)] by blast
  have 7: "operation \<le> 2 \<and> exit_dispatch S fid h operation s = (Inr st, t) \<longrightarrow>
      accept_exit (ext (env S)) P (if operation = 0 then Get else Post) st = Inr ()"
    using exit_accepted [OF assms(1,2,4,5,6)] by blast
  show ?thesis by (intro conjI) (fact 1, fact 2, fact 3, fact 4, fact 5, fact 6, fact 7)
qed

section \<open>One request for one operation\<close>

text \<open>
  An operation on a network that logs what is sent: nothing, or one request to an address below the
  base, with the credential.
\<close>

definition single_request :: "'w outside \<Rightarrow> pairing_client \<Rightarrow> ('w \<times> http_request list, 'a) op \<Rightarrow> bool" where
  "single_request V P m \<longleftrightarrow> (\<forall>s r t. m s = (r, t) \<longrightarrow> snd t = snd s \<or> (\<exists>rq path u. snd t = snd s @ [rq]
     \<and> prefix ''api/v1/'' path \<and> url_join (out_urls V) (pc_base P) path = Some u \<and> rq_url rq = url_string (out_urls V) u
     \<and> hd (rq_headers rq) = (''authorization'', ''Bearer '' @ pc_token P)))"

lemma single_lift: "(\<And>x. r = Inr x \<Longrightarrow> single_request V P (f x)) \<Longrightarrow> single_request V P (bindo (lifto r) f)"
  by (auto simp: single_request_def bindo_lifto split: sum.splits)

lemma single_then:
  assumes "single_request V P m" and "\<And>x s. snd (f x s) = s"
  shows "single_request V P (bindo m f)"
  unfolding single_request_def
proof (intro allI impI)
  fix s r t assume a: "bindo m f s = (r, t)"
  obtain o1 u where m: "m s = (o1, u)" by (cases "m s")
  have "t = u"
  proof (cases o1)
    case (Inl e)
    with a m show ?thesis by (simp add: bindo_def)
  next
    case (Inr x)
    with a m have "f x u = (r, t)" by (simp add: bindo_def)
    with assms(2) [of x u] show ?thesis by simp
  qed
  with m assms(1) show "snd t = snd s \<or> (\<exists>rq path u. snd t = snd s @ [rq]
     \<and> prefix ''api/v1/'' path \<and> url_join (out_urls V) (pc_base P) path = Some u \<and> rq_url rq = url_string (out_urls V) u
     \<and> hd (rq_headers rq) = (''authorization'', ''Bearer '' @ pc_token P))"
    unfolding single_request_def by blast
qed

lemma single_limited:
  assumes "prefix ''api/v1/'' path"
  shows "single_request V P (request_limited (logged V) P method path body limit decode)"
proof -
  have u: "out_urls (logged V) = out_urls V" by (simp add: logged_def)
  have "single_request V P (pairing_send (logged V) \<lparr>rq_method = method, rq_url = url_string (out_urls V) u,
      rq_headers = pairing_headers P body, rq_body = b\<rparr>)"
    if "url_join (out_urls V) (pc_base P) path = Some u" for u b
    unfolding single_request_def
    using that assms by (auto simp: pairing_send_def logged_def pairing_headers_def split: prod.splits sum.splits)
  then show ?thesis
    unfolding request_limited_def u
    by (intro single_lift single_then) (auto simp: lifto_def)
qed

lemma single_accepting: "single_request V P m \<Longrightarrow> single_request V P (accepting m f)"
  unfolding accepting_def by (rule single_then) (auto simp: bindo_lifto retn_def split: sum.splits)

lemma single_setup: "prefix ''api/v1/'' path \<Longrightarrow> single_request V P (setup_request (logged V) P method path body decode)"
  unfolding setup_request_def by (rule single_limited)

lemma single_exit: "prefix ''api/v1/'' path \<Longrightarrow> single_request V P (exit_request (logged V) J P method path)"
  unfolding exit_request_def by (intro single_accepting single_setup)

lemma snd_lifto: "snd (bindo (lifto r) (\<lambda>_. retn x) s) = s" "snd (lifto r s) = s"
  by (simp_all add: bindo_lifto lifto_def retn_def split: sum.splits)

text \<open>
  C21. No operation of the client sends more than one request, none is repeated, and each goes to an
  address that is joined to the base of the Folder, with the credential in its header.
\<close>

theorem pairing_single_request:
  "single_request V P (client_create_folder (logged V) J P name) \<and> single_request V P (client_claim (logged V) J P code sender)
   \<and> single_request V P (client_handshake (logged V) J P) \<and> single_request V P (client_confirm (logged V) J P verification)
   \<and> single_request V P (client_renew (logged V) J P) \<and> single_request V P (client_disconnect (logged V) J P)
   \<and> single_request V P (client_exit_status (logged V) J P) \<and> single_request V P (client_clean_exit (logged V) J P)
   \<and> single_request V P (client_acknowledge_exit (logged V) J P) \<and> single_request V P (verify_receiver (logged V) J P)
   \<and> single_request V P (client_directory_state (logged V) J P) \<and> single_request V P (client_publish (logged V) J P u)
   \<and> single_request V P (client_acknowledge (logged V) J P a)"
proof -
  have h: "single_request V P (client_handshake (logged V) J P)"
    unfolding client_handshake_def by (intro single_accepting single_setup) simp
  then have v: "single_request V P (verify_receiver (logged V) J P)"
    unfolding verify_receiver_def using single_setup [of "''api/v1/deliveries?status=pending&limit=1''"]
    by (auto intro!: single_then simp: snd_lifto)
  show ?thesis
    unfolding client_create_folder_def client_claim_def client_confirm_def client_renew_def client_disconnect_def
      client_exit_status_def client_clean_exit_def client_acknowledge_exit_def client_directory_state_def client_publish_def
      client_acknowledge_def
    by (intro conjI h v single_lift single_accepting single_setup single_limited single_exit single_then) (simp_all add: snd_lifto)
qed

section \<open>A sample handshake\<close>

definition sample_pairing :: pairing_client where
  "sample_pairing = \<lparr>pc_base = sample_url (''/f/'' @ sample_id (CHR ''f'') @ [slash]), pc_token = sample_token (CHR ''a'')\<rparr>"

definition sample_headers :: headers where
  "sample_headers = [(''authorization'', ''Bearer '' @ sample_token (CHR ''a'')), (''mirelay-protocol-version'', ''1'')]"

lemma sample_documented: "documented sample_ext"
proof -
  have d: "byte c div 16 < 16" "byte c mod 16 < 16" for c using nat_of_char_less_256 [of c] by linarith+
  have "list_all (\<lambda>n. is_ascii_hexdigit (hex_digit n)) [0..<16]" by (simp add: upt_rec hex_digit_def ascii_defs)
  then have "n < 16 \<Longrightarrow> is_ascii_hexdigit (hex_digit n)" for n by (simp add: list_all_iff)
  with d have "length (sample_hex b) = 2 * length b \<and> list_all is_ascii_hexdigit (sample_hex b)" for b
    by (induction b) (simp_all add: sample_hex_def)
  moreover have "CHR ''.'' \<notin> set i" if "uuid_canonical sample_ext i" for i
  proof
    assume "CHR ''.'' \<in> set i"
    moreover have "list_all (\<lambda>c. c = CHR ''-'' \<or> (is_ascii_hexdigit c \<and> \<not> is_ascii_upper c)) i"
      using that by (simp add: uuid_canonical_def sample_ext_def sample_uuid_parse_def split: if_splits)
    ultimately have "is_ascii_hexdigit (CHR ''.'')" unfolding list_all_iff by blast
    then show False by (simp add: ascii_defs)
  qed
  ultimately show ?thesis by (simp add: documented_def sample_ext_def)
qed

lemma sample_named: "named_folders paired_server"
proof -
  have "trim ''Phone'' = ''Phone''" by (simp add: trim_printable printable_char_def)
  moreover have "\<not> has_control ''Phone''" using ascii_text_header [of "''Phone''"] by (simp add: ascii_text_def)
  moreover have "length (sample_hash (CHR ''b'')) = 32" by (simp add: sample_hash_def sample_ext_def)
  ultimately show ?thesis by (simp add: named_folders_def named_folder_def)
qed

theorem pairing_agreement_witness:
  "\<exists>g. handshake sample_api (sample_id (CHR ''f'')) sample_headers paired_server = (Inr g, paired_server)
     \<and> fh_role g = ''receiver'' \<and> accept_handshake sample_ext sample_pairing g = Inr ()"
proof -
  let ?f = "sample_id (CHR ''f'')"
  have h: "supplied_hash sample_ext sample_headers = Inr (sample_hash (CHR ''a''))"
    by (simp add: supplied_hash_ok sample_headers_def single_header_def header_all_def sample_hash_def sample_token_def header_text_def)
  have e: "ext (env sample_api) = sample_ext" "max_file_size (env sample_api) = 1024" by (simp_all add: sample_api_def sample_env_def)
  have k: "check_protocol sample_headers = Inr ()"
    by (simp add: check_protocol_def sample_headers_def single_header_def header_all_def)
  have i: "identity sample_api ?f (sample_hash (CHR ''a'')) paired_server
      = (Inr (folder_handshake_of (env sample_api) sample_folder_row ''receiver''), paired_server)"
    by (simp add: identity_ok paired_folder folder_role_def e uuid_canonical_def ascii_defs)
  let ?g = "folder_handshake_of (env sample_api) sample_folder_row ''receiver''"
  have g: "handshake sample_api ?f sample_headers paired_server = (Inr ?g, paired_server)"
    by (simp add: handshake_def h k i e bindo_lifto)
  have p: "at_folder sample_pairing ?f" by (simp add: at_folder_def sample_pairing_def sample_url_def)
  have "\<forall>b. length (sha256 (ext (env sample_api)) b) = 32" unfolding e by (simp add: sample_ext_def min_def)
  then have "accept_handshake (ext (env sample_api)) sample_pairing ?g = Inr ()"
    using pairing_agreement [of sample_api paired_server sample_pairing ?f] sample_documented paired_folders_ok sample_named p g
    unfolding e by fastforce
  with g e show ?thesis by auto
qed

end
