(* ===== verification/Comparing.thy ===== *)
theory Comparing
  imports Prelude "HOL-Library.Sorting_Algorithms"
begin

text \<open>
  Sorting in the desktop application: \<open>Ordering::then_with\<close>, the unstable sort of a slice and the
  partition at an index, over the comparators of the library. The list views sort only the part of a
  list that they show; that this is the beginning of the sorted list is shown for every sort and every
  partition that keep their documented promises.
\<close>

lift_definition then_with :: "'a comparator \<Rightarrow> 'a comparator \<Rightarrow> 'a comparator" is
  "\<lambda>c d a b. case c a b of Equiv \<Rightarrow> d a b | r \<Rightarrow> r"
proof -
  fix c d :: "'a \<Rightarrow> 'a \<Rightarrow> comp"
  assume cd: "comparator c" "comparator d"
  show "comparator (\<lambda>a b. case c a b of Equiv \<Rightarrow> d a b | r \<Rightarrow> r)"
  proof
    fix x y z
    show "(case c x x of Equiv \<Rightarrow> d x x | r \<Rightarrow> r) = Equiv"
      using cd by (simp add: comparator.refl)
    show "(case c x z of Equiv \<Rightarrow> d x z | r \<Rightarrow> r) = Equiv"
      if "(case c x y of Equiv \<Rightarrow> d x y | r \<Rightarrow> r) = Equiv" "(case c y z of Equiv \<Rightarrow> d y z | r \<Rightarrow> r) = Equiv"
      using that comparator.trans_equiv [OF cd(1), of x y z] comparator.trans_equiv [OF cd(2), of x y z]
      by (auto split: comp.splits)
    show "(case c x z of Equiv \<Rightarrow> d x z | r \<Rightarrow> r) = Less"
      if "(case c x y of Equiv \<Rightarrow> d x y | r \<Rightarrow> r) = Less" "(case c y z of Equiv \<Rightarrow> d y z | r \<Rightarrow> r) = Less"
      using that comparator.trans_less [OF cd(1), of x y z] comparator.trans_less [OF cd(2), of x y z]
        comparator.trans_equiv [OF cd(1), of x y z] comparator.trans_equiv_less [OF cd(1), of x y z]
        comparator.trans_less_equiv [OF cd(1), of x y z]
      by (auto split: comp.splits)
    show "(case c y x of Equiv \<Rightarrow> d y x | r \<Rightarrow> r) = Greater \<longleftrightarrow> (case c x y of Equiv \<Rightarrow> d x y | r \<Rightarrow> r) = Less"
      using comparator.greater_iff_sym_less [OF cd(1), of y x] comparator.greater_iff_sym_less [OF cd(1), of x y]
        comparator.greater_iff_sym_less [OF cd(2), of y x] comparator.sym [OF cd(1), of x y]
      by (auto split: comp.splits)
  qed
qed

lemma compare_then_with [simp]:
  "Comparator.compare (then_with c d) a b =
     (case Comparator.compare c a b of Equiv \<Rightarrow> Comparator.compare d a b | r \<Rightarrow> r)"
  by transfer simp

lemma then_with_Equiv [simp]:
  "(case r of Equiv \<Rightarrow> q | x \<Rightarrow> x) = Equiv \<longleftrightarrow> r = Equiv \<and> q = Equiv"
  by (cases r) simp_all

text \<open>Elements that compare as equal are the same.\<close>

definition strict_on :: "'a comparator \<Rightarrow> 'a set \<Rightarrow> bool" where
  "strict_on c A \<longleftrightarrow> (\<forall>x \<in> A. \<forall>y \<in> A. Comparator.compare c x y = Equiv \<longrightarrow> x = y)"

lemma sort_of_mset:
  assumes "mset xs = mset ys" and "strict_on c (set xs)" and "Sorting_Algorithms.sorted c ys"
  shows "Sorting_Algorithms.sort c xs = ys"
proof (rule sort_eqI [OF assms(1,3)])
  fix y assume y: "y \<in> set xs"
  have s: "set xs = set ys" using assms(1) by (rule mset_eq_setD)
  have "x \<in> set xs \<Longrightarrow> Comparator.compare c y x = Equiv \<longleftrightarrow> y = x" for x
    using assms(2) y by (auto simp: strict_on_def)
  with s have "List.filter (\<lambda>x. Comparator.compare c y x = Equiv) xs = List.filter (\<lambda>x. y = x) xs"
    "List.filter (\<lambda>x. Comparator.compare c y x = Equiv) ys = List.filter (\<lambda>x. y = x) ys"
    by (auto intro: filter_cong)
  moreover have "List.filter (\<lambda>x. y = x) zs = replicate (count (mset zs) y) y" for zs
    by (induction zs) auto
  ultimately show "List.filter (\<lambda>x. Comparator.compare c y x = Equiv) xs = List.filter (\<lambda>x. Comparator.compare c y x = Equiv) ys"
    using assms(1) by simp
qed

section \<open>Slices\<close>

definition sort_unstable_by :: "'a comparator \<Rightarrow> 'a list \<Rightarrow> 'a list" where
  "sort_unstable_by c xs = quicksort c xs"

text \<open>Partition by quickselect: before index \<open>n\<close> nothing is greater than what comes from there on.\<close>

function select_nth_unstable_by :: "'a comparator \<Rightarrow> nat \<Rightarrow> 'a list \<Rightarrow> 'a list" where
  "select_nth_unstable_by c n [] = []"
| "select_nth_unstable_by c n (p # xs) =
     (let less = List.filter (\<lambda>x. Comparator.compare c x p = Less) xs;
          rest = List.filter (\<lambda>x. Comparator.compare c x p \<noteq> Less) xs
      in if n < length less then select_nth_unstable_by c n less @ p # rest
         else if n = length less then less @ p # rest
         else less @ p # select_nth_unstable_by c (n - length less - 1) rest)"
  by pat_completeness auto
termination
  by (relation "measure (\<lambda>(c, n, xs). length xs)") (auto simp: less_Suc_eq_le)

locale partial_sorting =
  fixes select :: "'a comparator \<Rightarrow> nat \<Rightarrow> 'a list \<Rightarrow> 'a list"
    and sorting :: "'a comparator \<Rightarrow> 'a list \<Rightarrow> 'a list"
  assumes select_mset: "mset (select c n xs) = mset xs"
    and select_parts: "x \<in> set (take n (select c n xs)) \<Longrightarrow> y \<in> set (drop n (select c n xs))
       \<Longrightarrow> Comparator.compare c x y \<noteq> Greater"
    and sorting_mset: "mset (sorting c xs) = mset xs"
    and sorting_sorted: "Sorting_Algorithms.sorted c (sorting c xs)"
begin

lemma sorting_strict: "strict_on c (set xs) \<Longrightarrow> sorting c xs = Sorting_Algorithms.sort c xs"
  using sort_of_mset [of xs "sorting c xs" c] by (simp add: sorting_mset sorting_sorted)

lemma set_sorting: "set (sorting c xs) = set xs"
  using sorting_mset by (metis set_mset_mset)

text \<open>Sorting the part before the index gives the beginning of the sorted list.\<close>

lemma select_then_sort:
  assumes "strict_on c (set xs)"
  shows "sorting c (take n (select c n xs)) = take n (Sorting_Algorithms.sort c xs)"
proof -
  define a b where "a = take n (select c n xs)" and "b = drop n (select c n xs)"
  have ab: "mset a + mset b = mset xs" unfolding a_def b_def by (simp flip: mset_append add: select_mset)
  have "Sorting_Algorithms.sorted c (sorting c a @ sorting c b)"
    unfolding sorted_append_iff using select_parts [of _ n c xs]
    by (simp add: sorting_sorted set_sorting a_def b_def)
  then have s: "Sorting_Algorithms.sort c xs = sorting c a @ sorting c b"
    using assms ab by (intro sort_of_mset) (simp_all add: sorting_mset)
  have l: "length (sorting c ys) = length ys" for ys by (metis sorting_mset size_mset)
  have n: "length (select c n xs) = length xs" by (metis select_mset size_mset)
  show ?thesis
  proof (cases "n \<le> length xs")
    case True
    then have "length a = n" by (simp add: a_def n)
    with s l show ?thesis by (simp add: a_def [symmetric])
  next
    case False
    then have "b = []" by (simp add: b_def n)
    with l [of b] have "sorting c b = []" by simp
    moreover have "length (sorting c a) \<le> n" using False by (simp add: l a_def)
    ultimately show ?thesis using s by (simp add: a_def [symmetric])
  qed
qed

end

lemma select_nth_mset: "mset (select_nth_unstable_by c n xs) = mset xs"
  by (induction c n xs rule: select_nth_unstable_by.induct) (auto simp: Let_def)

lemma select_nth_parts:
  "x \<in> set (take n (select_nth_unstable_by c n xs)) \<Longrightarrow> y \<in> set (drop n (select_nth_unstable_by c n xs))
     \<Longrightarrow> Comparator.compare c x y \<noteq> Greater"
proof (induction c n xs arbitrary: x y rule: select_nth_unstable_by.induct)
  case (1 c n)
  then show ?case by simp
next
  case (2 c n p xs)
  define less where "less = List.filter (\<lambda>x. Comparator.compare c x p = Less) xs"
  define rest where "rest = List.filter (\<lambda>x. Comparator.compare c x p \<noteq> Less) xs"
  have e: "select_nth_unstable_by c n (p # xs) =
     (if n < length less then select_nth_unstable_by c n less @ p # rest
      else if n = length less then less @ p # rest
      else less @ p # select_nth_unstable_by c (n - length less - 1) rest)"
    by (simp add: Let_def less_def rest_def)
  have sizes: "length (select_nth_unstable_by c m ys) = length ys" "set (select_nth_unstable_by c m ys) = set ys" for m ys
    by (metis select_nth_mset size_mset, metis select_nth_mset set_mset_mset)
  have low: "Comparator.compare c u p = Less" if "u \<in> set less" for u using that by (simp add: less_def)
  have high: "Comparator.compare c p v \<noteq> Greater" if "v \<in> set rest" for v
    using that by (auto simp: rest_def compare.greater_iff_sym_less)
  have across: "Comparator.compare c u v \<noteq> Greater" if "u \<in> set less \<union> {p}" "v \<in> set rest \<union> {p}" for u v
    using that low high compare.trans_not_greater [of c u p v] by (auto simp: compare.refl)
  consider "n < length less" | "n = length less" | "n > length less" by linarith
  then show ?case
  proof cases
    case 1
    with 2 e have "x \<in> set (take n (select_nth_unstable_by c n less))"
      "y \<in> set (drop n (select_nth_unstable_by c n less)) \<union> {p} \<union> set rest" by (auto simp: sizes)
    moreover from this have "x \<in> set less" using sizes in_set_takeD by metis
    ultimately show ?thesis
      using 2(1) [OF less_def rest_def 1] across [of x y] by auto
  next
    case 2
    then have "select_nth_unstable_by c n (p # xs) = less @ p # rest" by (subst e) simp
    with "2.prems" 2 have "x \<in> set less" "y \<in> set rest \<union> {p}" by (auto simp del: select_nth_unstable_by.simps)
    then show ?thesis by (intro across) auto
  next
    case 3
    let ?m = "n - length less - 1"
    from 3 "2.prems" e have "x \<in> set less \<union> {p} \<union> set (take ?m (select_nth_unstable_by c ?m rest))"
      "y \<in> set (drop ?m (select_nth_unstable_by c ?m rest))"
      by (auto simp: take_Cons' drop_Cons' split: if_splits)
    moreover from this have "y \<in> set rest" using sizes in_set_dropD by metis
    ultimately show ?thesis
      using "2.IH"(2) [OF less_def rest_def] 3 across [of x y] by auto
  qed
qed

interpretation slice: partial_sorting select_nth_unstable_by sort_unstable_by
  by unfold_locales
    (auto simp: select_nth_mset sort_unstable_by_def sort_by_quicksort [symmetric] dest: select_nth_parts)

end
