(* ===== verification/FileList.thy ===== *)
theory FileList
  imports Comparing Sync
begin

text \<open>
  The list of files of the desktop, \<open>src/desktop/files.rs\<close>: entries, filters and orders, the history
  with its prepared index, and the pages that a query selects. The list is shown to be the beginning
  of the full sorted list, whatever the order in which a hash map gives its values, and the index to
  be the one that a fresh preparation gives. Unicode's lower case is an argument.
\<close>

section \<open>Entries\<close>

record file_activity =
  fa_id :: string
  fa_original_name :: string
  fa_media_type :: string
  fa_size :: nat
  fa_phase :: "sync_phase option"
  fa_error :: "string option"

datatype file_entry = Saved delivery_record | Live file_activity

fun entry_id :: "file_entry \<Rightarrow> string" where
  "entry_id (Saved r) = dr_id r"
| "entry_id (Live a) = fa_id a"

fun entry_name :: "file_entry \<Rightarrow> string" where
  "entry_name (Saved r) = dr_original_name r"
| "entry_name (Live a) = fa_original_name a"

fun entry_media_type :: "file_entry \<Rightarrow> string" where
  "entry_media_type (Saved r) = dr_media_type r"
| "entry_media_type (Live a) = fa_media_type a"

fun entry_size :: "file_entry \<Rightarrow> nat" where
  "entry_size (Saved r) = dr_size r"
| "entry_size (Live a) = fa_size a"

fun entry_active :: "file_entry \<Rightarrow> bool" where
  "entry_active (Saved r) = False"
| "entry_active (Live a) = (fa_phase a \<noteq> None)"

fun entry_attention :: "file_entry \<Rightarrow> bool" where
  "entry_attention (Saved r) \<longleftrightarrow> dr_delivery_error r \<noteq> None \<or> dr_wallpaper_error r \<noteq> None
     \<or> dr_wallpaper_status r \<in> {Failed, Uncertain}"
| "entry_attention (Live a) \<longleftrightarrow> fa_error a \<noteq> None"

fun entry_pending :: "file_entry \<Rightarrow> bool" where
  "entry_pending (Saved r) \<longleftrightarrow> dr_delivery_status r = AckPending \<or> dr_wallpaper_status r \<in> {WPending, Running}"
| "entry_pending (Live a) \<longleftrightarrow> fa_phase a \<noteq> None"

fun entry_complete :: "file_entry \<Rightarrow> bool" where
  "entry_complete (Saved r) \<longleftrightarrow> dr_delivery_status r = Acknowledged
     \<and> dr_wallpaper_status r \<in> {NotApplicable, NotConfigured, Applied} \<and> \<not> entry_attention (Saved r)"
| "entry_complete (Live a) = False"

fun entry_received_at :: "file_entry \<Rightarrow> nat" where
  "entry_received_at (Saved r) = dr_received_at_unix r"
| "entry_received_at (Live a) = 0"

section \<open>Orders, filters and kinds\<close>

datatype file_sort = Newest | Oldest | NameAsc | NameDesc | Largest | Smallest
datatype file_filter = AllFiles | InProgress | Attention | Completed
datatype file_kind = AllKinds | Images | Documents | Audio | Video | Archives | OtherKind

definition file_sort_from_key :: "string \<Rightarrow> file_sort option" where
  "file_sort_from_key k =
     (if k = ''newest'' then Some Newest else if k = ''oldest'' then Some Oldest
      else if k = ''name-asc'' then Some NameAsc else if k = ''name-desc'' then Some NameDesc
      else if k = ''largest'' then Some Largest else if k = ''smallest'' then Some Smallest else None)"

fun file_sort_key :: "file_sort \<Rightarrow> string" where
  "file_sort_key Newest = ''newest''"
| "file_sort_key Oldest = ''oldest''"
| "file_sort_key NameAsc = ''name-asc''"
| "file_sort_key NameDesc = ''name-desc''"
| "file_sort_key Largest = ''largest''"
| "file_sort_key Smallest = ''smallest''"

definition file_filter_from_key :: "string \<Rightarrow> file_filter option" where
  "file_filter_from_key k =
     (if k = ''all'' then Some AllFiles else if k = ''in-progress'' then Some InProgress
      else if k = ''attention'' then Some Attention else if k = ''completed'' then Some Completed else None)"

fun file_filter_key :: "file_filter \<Rightarrow> string" where
  "file_filter_key AllFiles = ''all''"
| "file_filter_key InProgress = ''in-progress''"
| "file_filter_key Attention = ''attention''"
| "file_filter_key Completed = ''completed''"

definition file_kind_from_key :: "string \<Rightarrow> file_kind option" where
  "file_kind_from_key k =
     (if k = ''all'' then Some AllKinds else if k = ''images'' then Some Images
      else if k = ''documents'' then Some Documents else if k = ''audio'' then Some Audio
      else if k = ''video'' then Some Video else if k = ''archives'' then Some Archives
      else if k = ''other'' then Some OtherKind else None)"

fun file_kind_key :: "file_kind \<Rightarrow> string" where
  "file_kind_key AllKinds = ''all''"
| "file_kind_key Images = ''images''"
| "file_kind_key Documents = ''documents''"
| "file_kind_key Audio = ''audio''"
| "file_kind_key Video = ''video''"
| "file_kind_key Archives = ''archives''"
| "file_kind_key OtherKind = ''other''"

text \<open>The texts of the menus; the dash is a Unicode one.\<close>

fun file_sort_label :: "file_sort \<Rightarrow> string" where
  "file_sort_label Newest = ''Newest first''"
| "file_sort_label Oldest = ''Oldest first''"
| "file_sort_label NameAsc = ''Name (A'' @ [CHR 0xE2, CHR 0x80, CHR 0x93] @ ''Z)''"
| "file_sort_label NameDesc = ''Name (Z'' @ [CHR 0xE2, CHR 0x80, CHR 0x93] @ ''A)''"
| "file_sort_label Largest = ''Largest first''"
| "file_sort_label Smallest = ''Smallest first''"

fun file_filter_label :: "file_filter \<Rightarrow> string" where
  "file_filter_label AllFiles = ''All statuses''"
| "file_filter_label InProgress = ''In progress''"
| "file_filter_label Attention = ''Needs attention''"
| "file_filter_label Completed = ''Completed''"

fun file_kind_label :: "file_kind \<Rightarrow> string" where
  "file_kind_label AllKinds = ''All types''"
| "file_kind_label Images = ''Images''"
| "file_kind_label Documents = ''Documents''"
| "file_kind_label Audio = ''Audio''"
| "file_kind_label Video = ''Video''"
| "file_kind_label Archives = ''Archives''"
| "file_kind_label OtherKind = ''Other''"

definition file_kind_of :: "string \<Rightarrow> file_kind" where
  "file_kind_of media_type =
     (let mime = to_ascii_lowercase (trim (hd (split_on (CHR '';'') media_type))) in
      if prefix ''image/'' mime then Images
      else if prefix ''text/'' mime
          \<or> mime \<in> {''application/pdf'', ''application/json'', ''application/xml'', ''application/rtf'',
              ''application/msword'', ''application/vnd.ms-excel'', ''application/vnd.ms-powerpoint''}
          \<or> prefix ''application/vnd.openxmlformats-officedocument.'' mime
          \<or> prefix ''application/vnd.oasis.opendocument.'' mime then Documents
      else if prefix ''audio/'' mime \<or> mime = ''application/ogg'' then Audio
      else if prefix ''video/'' mime then Video
      else if mime \<in> {''application/zip'', ''application/x-zip-compressed'', ''application/x-7z-compressed'',
          ''application/vnd.rar'', ''application/x-rar-compressed'', ''application/gzip'', ''application/x-gzip'',
          ''application/x-tar'', ''application/x-bzip'', ''application/x-bzip2'', ''application/x-xz'',
          ''application/zstd''} then Archives
      else OtherKind)"

section \<open>The history and its index\<close>

text \<open>
  The index: a lower-case name and a kind for every record, the last position of every id, and those
  positions in order. A hash map is an association list; the order of its values matters only where
  \<open>select_page\<close> takes it as an argument, since here they are sorted.
\<close>

record prepared =
  pr_names :: "string list"
  pr_kinds :: "file_kind list"
  pr_positions :: "(string \<times> nat) list"
  pr_unique :: "nat list"

definition prepared_new :: "(string \<Rightarrow> string) \<Rightarrow> delivery_record list \<Rightarrow> prepared" where
  "prepared_new lower records =
     (let positions = fold (\<lambda>(position, r). bt_insert (dr_id r) position) (enumerate 0 records) [] in
      \<lparr>pr_names = List.map (\<lambda>r. lower (dr_original_name r)) records,
       pr_kinds = List.map (\<lambda>r. file_kind_of (dr_media_type r)) records,
       pr_positions = positions,
       pr_unique = sort_key (\<lambda>i. i) (List.map snd positions)\<rparr>)"

record file_history =
  hi_records :: "delivery_record list"
  hi_prepared :: "prepared option"

definition history_from :: "(string \<Rightarrow> string) \<Rightarrow> delivery_record list \<Rightarrow> file_history" where
  "history_from lower records = \<lparr>hi_records = records, hi_prepared = Some (prepared_new lower records)\<rparr>"

text \<open>Any edit through the mutable reference drops the index first.\<close>

definition history_edit :: "(delivery_record list \<Rightarrow> delivery_record list) \<Rightarrow> file_history \<Rightarrow> file_history" where
  "history_edit f h = \<lparr>hi_records = f (hi_records h), hi_prepared = None\<rparr>"

definition get_or_prepare :: "(string \<Rightarrow> string) \<Rightarrow> file_history \<Rightarrow> prepared" where
  "get_or_prepare lower h = (case hi_prepared h of Some p \<Rightarrow> p | None \<Rightarrow> prepared_new lower (hi_records h))"

definition history_upsert :: "(string \<Rightarrow> string) \<Rightarrow> delivery_record \<Rightarrow> file_history \<Rightarrow> bool \<times> file_history" where
  "history_upsert lower r h =
     (let p = get_or_prepare lower h; name = lower (dr_original_name r); kind = file_kind_of (dr_media_type r) in
      case map_of (pr_positions p) (dr_id r) of
        Some index \<Rightarrow>
          (False, \<lparr>hi_records = (hi_records h)[index := r],
            hi_prepared = Some (p\<lparr>pr_names := (pr_names p)[index := name], pr_kinds := (pr_kinds p)[index := kind]\<rparr>)\<rparr>)
      | None \<Rightarrow>
          let index = length (hi_records h) in
          (True, \<lparr>hi_records = hi_records h @ [r],
            hi_prepared = Some (p\<lparr>pr_positions := bt_insert (dr_id r) index (pr_positions p),
              pr_unique := pr_unique p @ [index], pr_names := pr_names p @ [name], pr_kinds := pr_kinds p @ [kind]\<rparr>)\<rparr>))"

section \<open>Pages\<close>

record file_query =
  fq_sort :: file_sort
  fq_filter :: file_filter
  fq_kind :: file_kind
  fq_text :: string
  fq_limit :: nat

record file_page =
  fp_entries :: "file_entry list"
  fp_total :: nat

record candidate =
  cd_entry :: file_entry
  cd_name_key :: string

definition candidate_names :: "candidate comparator" where
  "candidate_names = then_with (key cd_name_key default) (key (\<lambda>c. entry_name (cd_entry c)) default)"

definition candidate_order :: "file_sort \<Rightarrow> candidate comparator" where
  "candidate_order s =
     then_with (reversed (key (\<lambda>c. entry_active (cd_entry c)) default))
       (then_with
         (case s of
            Newest \<Rightarrow> reversed (key (\<lambda>c. entry_received_at (cd_entry c)) default)
          | Oldest \<Rightarrow> key (\<lambda>c. entry_received_at (cd_entry c)) default
          | NameAsc \<Rightarrow> candidate_names
          | NameDesc \<Rightarrow> reversed candidate_names
          | Largest \<Rightarrow> reversed (key (\<lambda>c. entry_size (cd_entry c)) default)
          | Smallest \<Rightarrow> key (\<lambda>c. entry_size (cd_entry c)) default)
         (then_with candidate_names (key (\<lambda>c. entry_id (cd_entry c)) default)))"

fun status_matches :: "file_filter \<Rightarrow> file_entry \<Rightarrow> bool" where
  "status_matches AllFiles e = True"
| "status_matches InProgress e = entry_pending e"
| "status_matches Attention e = entry_attention e"
| "status_matches Completed e = entry_complete e"

definition consider_file :: "file_query \<Rightarrow> string \<Rightarrow> file_entry \<Rightarrow> string \<Rightarrow> file_kind \<Rightarrow> candidate list" where
  "consider_file q text_key e name_key kind =
     (if \<not> status_matches (fq_filter q) e \<or> fq_kind q \<noteq> AllKinds \<and> fq_kind q \<noteq> kind then []
      else if sublist text_key name_key then [\<lparr>cd_entry = e, cd_name_key = name_key\<rparr>] else [])"

text \<open>\<open>order\<close> is the order in which the hash map of the live entries gives its values.\<close>

definition select_page ::
    "(string \<Rightarrow> string) \<Rightarrow> (file_activity list \<Rightarrow> file_activity list) \<Rightarrow> delivery_record list \<Rightarrow> prepared
       \<Rightarrow> file_activity list \<Rightarrow> file_query \<Rightarrow> file_page" where
  "select_page lower order records p activity q =
     (let (live_entries, overridden) = fold (\<lambda>a (l, o'). (bt_insert (fa_id a) a l,
            case map_of (pr_positions p) (fa_id a) of None \<Rightarrow> o' | Some index \<Rightarrow> o'[index := True]))
            activity ([], replicate (length records) False);
          text_key = lower (trim (fq_text q));
          visible = concat (List.map (\<lambda>index. if overridden ! index then []
                else consider_file q text_key (Saved (records ! index)) (pr_names p ! index) (pr_kinds p ! index)) (pr_unique p))
            @ concat (List.map (\<lambda>a. consider_file q text_key (Live a) (lower (fa_original_name a)) (file_kind_of (fa_media_type a)))
                (order (List.map snd live_entries)));
          c = candidate_order (fq_sort q);
          limit = min (fq_limit q) (length visible);
          shown = (if limit = 0 then [] else if limit < length visible then take limit (select_nth_unstable_by c limit visible)
            else visible)
      in \<lparr>fp_entries = List.map cd_entry (sort_unstable_by c shown), fp_total = length visible\<rparr>)"

definition file_page_of ::
    "(string \<Rightarrow> string) \<Rightarrow> (file_activity list \<Rightarrow> file_activity list) \<Rightarrow> delivery_record list \<Rightarrow> file_activity list
       \<Rightarrow> file_query \<Rightarrow> file_page" where
  "file_page_of lower order records activity q = select_page lower order records (prepared_new lower records) activity q"

definition visible_files ::
    "(string \<Rightarrow> string) \<Rightarrow> (file_activity list \<Rightarrow> file_activity list) \<Rightarrow> delivery_record list \<Rightarrow> file_activity list
       \<Rightarrow> file_sort \<Rightarrow> file_filter \<Rightarrow> file_kind \<Rightarrow> string \<Rightarrow> file_entry list" where
  "visible_files lower order records activity s f k query =
     fp_entries (file_page_of lower order records activity
       \<lparr>fq_sort = s, fq_filter = f, fq_kind = k, fq_text = query, fq_limit = u64_max\<rparr>)"

text \<open>The index is prepared at the first use.\<close>

definition history_page ::
    "(string \<Rightarrow> string) \<Rightarrow> (file_activity list \<Rightarrow> file_activity list) \<Rightarrow> file_history \<Rightarrow> file_activity list \<Rightarrow> file_query
       \<Rightarrow> file_page \<times> file_history" where
  "history_page lower order h activity q =
     (let p = get_or_prepare lower h in
      (select_page lower order (hi_records h) p activity q, h\<lparr>hi_prepared := Some p\<rparr>))"

section \<open>The index\<close>

definition positions :: "delivery_record list \<Rightarrow> (string \<times> nat) list" where
  "positions rs = fold (\<lambda>(i, r). bt_insert (dr_id r) i) (enumerate 0 rs) []"

lemma prepared_new_eq:
  "prepared_new lower rs = \<lparr>pr_names = List.map (\<lambda>r. lower (dr_original_name r)) rs,
     pr_kinds = List.map (\<lambda>r. file_kind_of (dr_media_type r)) rs, pr_positions = positions rs,
     pr_unique = sort_key (\<lambda>i. i) (List.map snd (positions rs))\<rparr>"
  by (simp add: prepared_new_def positions_def Let_def)

lemma positions_Nil [simp]: "positions [] = []"
  by (simp add: positions_def)

lemma positions_snoc [simp]: "positions (rs @ [r]) = bt_insert (dr_id r) (length rs) (positions rs)"
  by (simp add: positions_def enumerate_append_eq)

lemma positions_ids: "List.map dr_id rs = List.map dr_id qs \<Longrightarrow> positions rs = positions qs"
proof (induction rs arbitrary: qs rule: rev_induct)
  case (snoc r rs)
  then obtain q ps where "qs = ps @ [q]" by (cases qs rule: rev_cases) auto
  with snoc show ?case by (auto dest: map_eq_imp_length_eq)
qed simp

lemma positions_Some: "map_of (positions rs) i = Some n \<Longrightarrow> n < length rs \<and> dr_id (rs ! n) = i"
  by (induction rs rule: rev_induct) (auto simp: nth_append split: if_splits)

lemma positions_dom: "map_of (positions rs) i = None \<longleftrightarrow> i \<notin> dr_id ` set rs"
  by (induction rs rule: rev_induct) auto

lemma positions_last:
  "map_of (rev (List.map (\<lambda>r. (dr_id r, f r)) rs)) i = map_option (\<lambda>n. f (rs ! n)) (map_of (positions rs) i)"
proof (induction rs rule: rev_induct)
  case (snoc r rs)
  then show ?case
    by (cases "map_of (positions rs) i") (auto simp: nth_append dest: positions_Some)
qed simp

lemma positions_sorted: "bt_sorted (positions rs)"
  by (induction rs rule: rev_induct) (simp_all add: bt_sorted_insert)

lemma positions_mem: "(i, n) \<in> set (positions rs) \<longleftrightarrow> map_of (positions rs) i = Some n"
  using bt_sorted_distinct [OF positions_sorted] by simp

lemma positions_values: "n \<in> snd ` set (positions rs) \<longleftrightarrow> (\<exists>i. map_of (positions rs) i = Some n)"
  by (force simp: positions_mem [symmetric])

lemma positions_values_distinct: "distinct (List.map snd (positions rs))"
proof -
  have "inj_on snd (set (positions rs))"
    by (rule inj_onI) (auto simp: positions_mem dest!: positions_Some)
  then show ?thesis using bt_sorted_distinct [OF positions_sorted, of rs]
    by (simp add: distinct_map)
qed

lemma mset_snd_bt_insert: "k \<notin> fst ` set m \<Longrightarrow> mset (List.map snd (bt_insert k v m)) = add_mset v (mset (List.map snd m))"
  by (induction k v m rule: bt_insert.induct) auto

definition indexed :: "(string \<Rightarrow> string) \<Rightarrow> file_history \<Rightarrow> bool" where
  "indexed lower h \<longleftrightarrow> (case hi_prepared h of None \<Rightarrow> True | Some p \<Rightarrow> p = prepared_new lower (hi_records h))"

lemma indexed_prepare: "indexed lower h \<Longrightarrow> get_or_prepare lower h = prepared_new lower (hi_records h)"
  by (auto simp: indexed_def get_or_prepare_def split: option.splits)

lemma upsert_known:
  assumes "indexed lower h" and "map_of (positions (hi_records h)) (dr_id r) = Some n"
  shows "history_upsert lower r h = (False, history_from lower ((hi_records h)[n := r]))"
proof -
  from positions_Some [OF assms(2)] have "List.map dr_id ((hi_records h)[n := r]) = List.map dr_id (hi_records h)"
    by (auto intro!: nth_equalityI simp: nth_list_update)
  from positions_ids [OF this] assms show ?thesis
    by (simp add: history_upsert_def indexed_prepare Let_def prepared_new_eq history_from_def map_update)
qed

lemma upsert_new:
  assumes "indexed lower h" and "map_of (positions (hi_records h)) (dr_id r) = None"
  shows "history_upsert lower r h = (True, history_from lower (hi_records h @ [r]))"
proof -
  let ?ps = "positions (hi_records h)" and ?n = "length (hi_records h)"
  have k: "dr_id r \<notin> fst ` set ?ps" using assms(2) by (simp add: map_of_eq_None_iff)
  have "x < ?n" if "x \<in> snd ` set ?ps" for x
    using that positions_Some unfolding positions_values by blast
  then have "List.sorted (sort_key (\<lambda>i. i) (List.map snd ?ps) @ [?n])"
    by (auto simp: sorted_wrt_append intro: less_imp_le)
  moreover have "mset (sort_key (\<lambda>i. i) (List.map snd ?ps) @ [?n]) = mset (List.map snd (bt_insert (dr_id r) ?n ?ps))"
    using mset_snd_bt_insert [OF k, of ?n] by simp
  ultimately have "sort_key (\<lambda>i. i) (List.map snd (bt_insert (dr_id r) ?n ?ps)) = sort_key (\<lambda>i. i) (List.map snd ?ps) @ [?n]"
    by (intro properties_for_sort) simp_all
  with assms show ?thesis
    by (simp add: history_upsert_def indexed_prepare Let_def prepared_new_eq history_from_def)
qed

lemma indexed_from: "indexed lower (history_from lower rs)"
  by (simp add: indexed_def history_from_def)

text \<open>
  C17. Whatever is done to a history, its index stays the one that preparing its records afresh gives; an
  upsert replaces the last record with the same id in place, or appends the record.
\<close>

theorem history_indexed:
  assumes "indexed lower h"
  shows "indexed lower (snd (history_upsert lower r h)) \<and> indexed lower (history_edit f h)
     \<and> indexed lower (snd (history_page lower order h activity q))
     \<and> (case map_of (positions (hi_records h)) (dr_id r) of
          Some n \<Rightarrow> \<not> fst (history_upsert lower r h) \<and> hi_records (snd (history_upsert lower r h)) = (hi_records h)[n := r]
        | None \<Rightarrow> fst (history_upsert lower r h) \<and> hi_records (snd (history_upsert lower r h)) = hi_records h @ [r])"
proof -
  have e: "indexed lower (history_edit f h)" by (simp add: indexed_def history_edit_def)
  have p: "indexed lower (snd (history_page lower order h activity q))"
    using assms by (simp add: history_page_def indexed_prepare Let_def indexed_def)
  show ?thesis
  proof (cases "map_of (positions (hi_records h)) (dr_id r)")
    case None
    from upsert_new [OF assms this] None e p show ?thesis by (simp add: indexed_from) (simp add: history_from_def)
  next
    case (Some n)
    from upsert_known [OF assms this] Some e p show ?thesis by (simp add: indexed_from) (simp add: history_from_def)
  qed
qed

section \<open>Pages and the sorted list\<close>

text \<open>
  The entries of a folder: for every id the last activity, or else the last record. The full list is
  those that the query wants, sorted.
\<close>

definition merged_entries :: "delivery_record list \<Rightarrow> file_activity list \<Rightarrow> (string \<times> file_entry) list" where
  "merged_entries rs activity =
     bt_of_list (List.map (\<lambda>r. (dr_id r, Saved r)) rs @ List.map (\<lambda>a. (fa_id a, Live a)) activity)"

definition wanted :: "(string \<Rightarrow> string) \<Rightarrow> file_query \<Rightarrow> file_entry \<Rightarrow> bool" where
  "wanted lower q e \<longleftrightarrow> status_matches (fq_filter q) e
     \<and> (fq_kind q = AllKinds \<or> fq_kind q = file_kind_of (entry_media_type e))
     \<and> sublist (lower (trim (fq_text q))) (lower (entry_name e))"

definition candidate_of :: "(string \<Rightarrow> string) \<Rightarrow> file_entry \<Rightarrow> candidate" where
  "candidate_of lower e = \<lparr>cd_entry = e, cd_name_key = lower (entry_name e)\<rparr>"

definition file_reference ::
    "(string \<Rightarrow> string) \<Rightarrow> delivery_record list \<Rightarrow> file_activity list \<Rightarrow> file_query \<Rightarrow> file_entry list" where
  "file_reference lower rs activity q =
     Sorting_Algorithms.sort (key (candidate_of lower) (candidate_order (fq_sort q)))
       (List.filter (wanted lower q) (List.map snd (merged_entries rs activity)))"

lemma consider_eq:
  "consider_file q (lower (trim (fq_text q))) e (lower (entry_name e)) (file_kind_of (entry_media_type e))
     = (if wanted lower q e then [candidate_of lower e] else [])"
  by (auto simp: consider_file_def wanted_def candidate_of_def)

lemma overlay_fold:
  "fold (\<lambda>a (l, o'). (bt_insert (fa_id a) a l, f a o')) activity (l, m)
     = (fold (\<lambda>a. bt_insert (fa_id a) a) activity l, fold f activity m)"
  by (induction activity arbitrary: l m) simp_all

lemma overlay_mask:
  assumes "i < length m"
  shows "length (fold (\<lambda>a m. case map_of ps (fa_id a) of None \<Rightarrow> m | Some n \<Rightarrow> m[n := True]) activity m) = length m
     \<and> (fold (\<lambda>a m. case map_of ps (fa_id a) of None \<Rightarrow> m | Some n \<Rightarrow> m[n := True]) activity m ! i
          \<longleftrightarrow> m ! i \<or> (\<exists>a \<in> set activity. map_of ps (fa_id a) = Some i))"
  using assms
proof (induction activity arbitrary: m)
  case (Cons a activity)
  have "m[n := True] ! i \<longleftrightarrow> m ! i \<or> n = i" for n using Cons.prems by (cases "n = i") simp_all
  with Cons.prems Cons.IH [of m] Cons.IH [of "m[the (map_of ps (fa_id a)) := True]"] show ?case
    by (cases "map_of ps (fa_id a)") auto
qed simp

lemma live_fold: "fold (\<lambda>a. bt_insert (fa_id a) a) activity [] = bt_of_list (List.map (\<lambda>a. (fa_id a, a)) activity)"
  by (simp add: bt_of_list_def fold_map comp_def)

lemma bt_of_list_keys:
  assumes "\<forall>(k, v) \<in> set kvs. k = f v"
  shows "\<forall>(k, v) \<in> set (bt_of_list kvs). k = f v"
proof -
  have "(k, v) \<in> set kvs" if "(k, v) \<in> set (bt_of_list kvs)" for k v
  proof -
    from bt_sorted_distinct [OF bt_sorted_of_list] that have "map_of (bt_of_list kvs) k = Some v" by (rule map_of_is_SomeI)
    then have "map_of (rev kvs) k = Some v" by (simp add: bt_of_list_def fold_bt_insert_map_of)
    from map_of_SomeD [OF this] show ?thesis by simp
  qed
  with assms show ?thesis by blast
qed

lemma keyed_values:
  assumes "\<forall>(k, v) \<in> set m. k = f v" and "distinct (List.map fst m)"
  shows "List.map f (List.map snd m) = List.map fst m" "distinct (List.map f (List.map snd m))"
proof -
  show e: "List.map f (List.map snd m) = List.map fst m" using assms(1) by auto
  show "distinct (List.map f (List.map snd m))" unfolding e by (rule assms(2))
qed

lemma strict_entries:
  assumes "inj_on entry_id A"
  shows "strict_on (candidate_order s) (candidate_of lower ` A)"
  unfolding strict_on_def
proof (intro ballI impI)
  fix x y assume xy: "x \<in> candidate_of lower ` A" "y \<in> candidate_of lower ` A"
    and c: "Comparator.compare (candidate_order s) x y = Equiv"
  from c have "entry_id (cd_entry x) = entry_id (cd_entry y)" by (simp add: candidate_order_def)
  with xy assms show "x = y" by (auto simp: candidate_of_def dest: inj_onD)
qed

lemma sort_map: "Sorting_Algorithms.sort c (List.map f xs) = List.map f (Sorting_Algorithms.sort (key f c) xs)"
proof -
  have "Sorting_Algorithms.insort c (f x) (List.map f ys) = List.map f (Sorting_Algorithms.insort (key f c) x ys)" for x ys
    by (induction ys) simp_all
  then show ?thesis by (induction xs) simp_all
qed

lemma concat_wanted: "concat (List.map (\<lambda>x. if P x then [g x] else []) xs) = List.map g (List.filter P xs)"
  by (induction xs) simp_all

lemma final_entry:
  "map_of (merged_entries rs activity) i =
     (case map_of (bt_of_list (List.map (\<lambda>a. (fa_id a, a)) activity)) i of
        Some a \<Rightarrow> Some (Live a)
      | None \<Rightarrow> map_option (\<lambda>n. Saved (rs ! n)) (map_of (positions rs) i))"
proof -
  have "map_of (rev (List.map (\<lambda>a. (fa_id a, Live a)) activity)) i
      = map_option Live (map_of (rev (List.map (\<lambda>a. (fa_id a, a)) activity)) i)"
    by (induction activity rule: rev_induct) auto
  then show ?thesis
    by (simp add: merged_entries_def bt_of_list_def fold_bt_insert_map_of positions_last map_add_def split: option.splits)
qed

lemma merged_facts:
  shows "inj_on entry_id (snd ` set (merged_entries rs activity))"
    and "distinct (List.map snd (merged_entries rs activity))"
    and "e \<in> snd ` set (merged_entries rs activity) \<longleftrightarrow> map_of (merged_entries rs activity) (entry_id e) = Some e"
proof -
  let ?m = "merged_entries rs activity"
  have k: "\<forall>(k, v) \<in> set ?m. k = entry_id v" unfolding merged_entries_def by (rule bt_of_list_keys) auto
  have d: "distinct (List.map fst ?m)" unfolding merged_entries_def by (intro bt_sorted_distinct bt_sorted_of_list)
  from keyed_values(2) [OF k d] show "inj_on entry_id (snd ` set ?m)" "distinct (List.map snd ?m)"
    unfolding distinct_map [of entry_id] by simp_all
  show "e \<in> snd ` set ?m \<longleftrightarrow> map_of ?m (entry_id e) = Some e"
    using k d by (force simp: map_of_eq_Some_iff)
qed

text \<open>The entries that the page chooses from, before the query.\<close>

definition shown_entries :: "(file_activity list \<Rightarrow> file_activity list) \<Rightarrow> delivery_record list \<Rightarrow> file_activity list \<Rightarrow> file_entry list" where
  "shown_entries order rs activity =
     List.map (\<lambda>n. Saved (rs ! n))
       (List.filter (\<lambda>n. \<not> (\<exists>a \<in> set activity. map_of (positions rs) (fa_id a) = Some n)) (sort_key (\<lambda>i. i) (List.map snd (positions rs))))
     @ List.map Live (order (List.map snd (bt_of_list (List.map (\<lambda>a. (fa_id a, a)) activity))))"

lemma shown_merged:
  assumes "\<forall>xs. mset (order xs) = mset xs"
  shows "mset (shown_entries order rs activity) = mset (List.map snd (merged_entries rs activity))"
proof -
  let ?l = "bt_of_list (List.map (\<lambda>a. (fa_id a, a)) activity)" and ?ps = "positions rs"
  have so: "set (order xs) = set xs" for xs using assms by (metis set_mset_mset)
  have k: "\<forall>(k, v) \<in> set ?l. k = fa_id v" by (rule bt_of_list_keys) auto
  have d: "distinct (List.map fst ?l)" by (intro bt_sorted_distinct bt_sorted_of_list)
  have l: "a \<in> snd ` set ?l \<longleftrightarrow> map_of ?l (fa_id a) = Some a" for a using k d by (force simp: map_of_eq_Some_iff)
  have ids: "map_of ?l i = None \<longleftrightarrow> i \<notin> fa_id ` set activity" for i
    by (simp add: map_of_eq_None_iff set_bt_of_list image_image)
  have saved: "Saved r \<in> set (shown_entries order rs activity) \<longleftrightarrow> map_of (merged_entries rs activity) (dr_id r) = Some (Saved r)" for r
  proof
    assume "Saved r \<in> set (shown_entries order rs activity)"
    then obtain i n where n: "map_of ?ps i = Some n" "r = rs ! n" "\<not> (\<exists>a \<in> set activity. map_of ?ps (fa_id a) = Some n)"
      by (auto simp: shown_entries_def positions_values)
    with positions_Some [OF n(1)] have "i = dr_id r" "map_of ?l i = None" by (auto simp: ids)
    with n show "map_of (merged_entries rs activity) (dr_id r) = Some (Saved r)" by (simp add: final_entry)
  next
    assume "map_of (merged_entries rs activity) (dr_id r) = Some (Saved r)"
    then obtain n where n: "map_of ?l (dr_id r) = None" "map_of ?ps (dr_id r) = Some n" "r = rs ! n"
      by (auto simp: final_entry split: option.splits)
    have "\<not> (\<exists>a \<in> set activity. map_of ?ps (fa_id a) = Some n)"
    proof
      assume "\<exists>a \<in> set activity. map_of ?ps (fa_id a) = Some n"
      then obtain a where "a \<in> set activity" "map_of ?ps (fa_id a) = Some n" by blast
      with positions_Some n(1,3) show False by (auto simp: ids)
    qed
    with n show "Saved r \<in> set (shown_entries order rs activity)"
      unfolding shown_entries_def by (auto simp: positions_values intro!: image_eqI [of _ _ n])
  qed
  have live: "Live a \<in> set (shown_entries order rs activity) \<longleftrightarrow> map_of (merged_entries rs activity) (fa_id a) = Some (Live a)" for a
  proof -
    have "a \<in> set (order (List.map snd ?l)) \<longleftrightarrow> map_of ?l (fa_id a) = Some a" using l by (simp add: so)
    then show ?thesis by (auto simp: shown_entries_def final_entry split: option.split)
  qed
  have "distinct (shown_entries order rs activity)"
  proof -
    have "distinct (List.map (\<lambda>n. Saved (rs ! n)) (sort_key (\<lambda>i. i) (List.map snd ?ps)))"
      unfolding distinct_map
    proof (intro conjI inj_onI)
      show "distinct (sort_key (\<lambda>i. i) (List.map snd ?ps))" using positions_values_distinct by simp
      fix m n assume "m \<in> set (sort_key (\<lambda>i. i) (List.map snd ?ps))" "n \<in> set (sort_key (\<lambda>i. i) (List.map snd ?ps))"
        and e: "Saved (rs ! m) = Saved (rs ! n)"
      then obtain i j where "map_of ?ps i = Some m" "map_of ?ps j = Some n" by (auto simp: positions_values)
      with e positions_Some [of rs i m] positions_Some [of rs j n] show "m = n" by auto
    qed
    moreover have "distinct (List.map snd ?l)" using keyed_values(2) [OF k d] unfolding distinct_map [of fa_id] by simp
    then have "distinct (order (List.map snd ?l))" using assms by (metis mset_eq_imp_distinct_iff)
    ultimately show ?thesis
      by (auto simp: shown_entries_def distinct_map distinct_map_filter intro: inj_on_subset inj_onI)
  qed
  moreover have "e \<in> set (shown_entries order rs activity) \<longleftrightarrow> e \<in> set (List.map snd (merged_entries rs activity))" for e
    using merged_facts(3) [of e rs activity] saved live by (cases e) simp_all
  ultimately show ?thesis
    using merged_facts(2) by (subst set_eq_iff_mset_eq_distinct [symmetric]) auto
qed

lemma select_page_eq:
  assumes "\<forall>xs. mset (order xs) = mset xs"
  defines "visible \<equiv> \<lambda>rs activity q lower. List.map (candidate_of lower) (List.filter (wanted lower q) (shown_entries order rs activity))"
  shows "select_page lower order rs (prepared_new lower rs) activity q =
     (let v = visible rs activity q lower; c = candidate_order (fq_sort q); limit = min (fq_limit q) (length v);
          shown = (if limit = 0 then [] else if limit < length v then take limit (select_nth_unstable_by c limit v) else v)
      in \<lparr>fp_entries = List.map cd_entry (sort_unstable_by c shown), fp_total = length v\<rparr>)"
proof -
  let ?u = "sort_key (\<lambda>i. i) (List.map snd (positions rs))"
  let ?mask = "fold (\<lambda>a m. case map_of (positions rs) (fa_id a) of None \<Rightarrow> m | Some n \<Rightarrow> m[n := True]) activity (replicate (length rs) False)"
  let ?saved = "\<lambda>n. if ?mask ! n then [] else consider_file q (lower (trim (fq_text q))) (Saved (rs ! n))
      (List.map (\<lambda>r. lower (dr_original_name r)) rs ! n) (List.map (\<lambda>r. file_kind_of (dr_media_type r)) rs ! n)"
  let ?live = "\<lambda>a. consider_file q (lower (trim (fq_text q))) (Live a) (lower (fa_original_name a)) (file_kind_of (fa_media_type a))"
  have u: "n < length rs" if "n \<in> set ?u" for n using that by (auto simp: positions_values dest: positions_Some)
  have "?saved n = (if \<not> (\<exists>a \<in> set activity. map_of (positions rs) (fa_id a) = Some n) \<and> wanted lower q (Saved (rs ! n))
      then [candidate_of lower (Saved (rs ! n))] else [])" if "n \<in> set ?u" for n
    using u [OF that] overlay_mask [of n "replicate (length rs) False" "positions rs" activity]
      consider_eq [of q lower "Saved (rs ! n)"] by auto
  then have "concat (List.map ?saved ?u) = concat (List.map (\<lambda>n. if \<not> (\<exists>a \<in> set activity. map_of (positions rs) (fa_id a) = Some n)
      \<and> wanted lower q (Saved (rs ! n)) then [candidate_of lower (Saved (rs ! n))] else []) ?u)"
    by (intro arg_cong [of _ _ concat] map_cong) simp_all
  moreover have "?live a = (if wanted lower q (Live a) then [candidate_of lower (Live a)] else [])" for a
    using consider_eq [of q lower "Live a"] by simp
  ultimately have "visible rs activity q lower = concat (List.map ?saved ?u)
      @ concat (List.map ?live (order (List.map snd (bt_of_list (List.map (\<lambda>a. (fa_id a, a)) activity)))))"
    by (simp add: visible_def shown_entries_def concat_wanted filter_map comp_def conj_commute)
  then show ?thesis
    by (simp add: select_page_def prepared_new_eq overlay_fold live_fold Let_def cong: if_cong)
qed

text \<open>
  C16. Every page is the beginning of the sorted list of the entries that the query wants, with their
  number, whatever the order of the hash map and however short the page: partitioning and sorting only
  the part that is shown gives what sorting everything gives, and the index is as good as the records.
\<close>

theorem page_is_prefix:
  assumes "indexed lower h" and "\<forall>xs. mset (order xs) = mset xs"
  shows "fst (history_page lower order h activity q)
     = \<lparr>fp_entries = take (fq_limit q) (file_reference lower (hi_records h) activity q),
        fp_total = length (file_reference lower (hi_records h) activity q)\<rparr>"
proof -
  let ?rs = "hi_records h"
  define v where "v = List.map (candidate_of lower) (List.filter (wanted lower q) (shown_entries order ?rs activity))"
  define c where "c = candidate_order (fq_sort q)"
  let ?E = "List.filter (wanted lower q) (List.map snd (merged_entries ?rs activity))"
  have m: "mset v = mset (List.map (candidate_of lower) ?E)"
    using shown_merged [OF assms(2), of ?rs activity] by (simp add: v_def)
  have i: "inj_on entry_id (set ?E)" by (rule inj_on_subset [OF merged_facts(1)]) auto
  have s: "strict_on c (set v)"
    using strict_entries [OF i, of "fq_sort q" lower] mset_eq_setD [OF m] by (simp add: c_def)
  have "Sorting_Algorithms.sort c v = Sorting_Algorithms.sort c (List.map (candidate_of lower) ?E)"
    by (rule sort_of_mset) (use m s in simp_all)
  then have r: "List.map cd_entry (Sorting_Algorithms.sort c v) = file_reference lower ?rs activity q"
    by (simp add: sort_map file_reference_def c_def comp_def candidate_of_def [of lower])
  then have len: "length (file_reference lower ?rs activity q) = length v" by (metis length_map length_sort)
  let ?n = "min (fq_limit q) (length v)"
  have "sort_unstable_by c (if ?n = 0 then [] else if ?n < length v then take ?n (select_nth_unstable_by c ?n v) else v)
      = take ?n (Sorting_Algorithms.sort c v)"
    using slice.select_then_sort [OF s, of ?n] slice.sorting_strict [OF s]
    by (auto simp: sort_unstable_by_def quicksort_code min_def)
  then have "List.map cd_entry (sort_unstable_by c (if ?n = 0 then [] else if ?n < length v then take ?n (select_nth_unstable_by c ?n v) else v))
      = take (fq_limit q) (file_reference lower ?rs activity q)"
    by (simp add: take_map [symmetric] r len min_def)
  with select_page_eq [OF assms(2), of lower ?rs activity q] len show ?thesis
    by (simp add: history_page_def indexed_prepare [OF assms(1)] Let_def v_def [symmetric] c_def [symmetric])
qed

section \<open>A sample list\<close>

definition sample_file :: "string \<Rightarrow> nat \<Rightarrow> delivery_record" where
  "sample_file i n = \<lparr>dr_id = i, dr_original_name = i, dr_media_type = ''text/plain'', dr_sha256 = [], dr_size = n,
     dr_stored_path = [], dr_delivery_status = Acknowledged, dr_wallpaper_status = NotApplicable,
     dr_wallpaper_attempts = 0, dr_delivery_error = None, dr_wallpaper_error = None, dr_source_created_at_unix = None,
     dr_received_at_unix = 100, dr_acknowledged_at_unix = None, dr_imported_at_unix = None\<rparr>"

definition sample_active :: file_activity where
  "sample_active = \<lparr>fa_id = ''b'', fa_original_name = ''b'', fa_media_type = ''text/plain'', fa_size = 64,
     fa_phase = Some Downloading, fa_error = None\<rparr>"

definition sample_history :: file_history where
  "sample_history = snd (history_upsert to_ascii_lowercase (sample_file ''b'' 3)
     (history_from to_ascii_lowercase [sample_file ''a'' 1, sample_file ''b'' 2]))"

definition sample_query :: file_query where
  "sample_query = \<lparr>fq_sort = Smallest, fq_filter = AllFiles, fq_kind = AllKinds, fq_text = [], fq_limit = 1\<rparr>"

lemma sample_positions: "map_of (positions [sample_file ''a'' 1, sample_file ''b'' 2]) ''b'' = Some 1"
  by (simp add: positions_def sample_file_def)

lemma sample_history_eq: "sample_history = history_from to_ascii_lowercase [sample_file ''a'' 1, sample_file ''b'' 3]"
  using upsert_known [OF indexed_from [of to_ascii_lowercase "[sample_file ''a'' 1, sample_file ''b'' 2]"],
      of "sample_file ''b'' 3" 1] sample_positions
  by (simp add: sample_history_def history_from_def sample_file_def)

theorem history_indexed_witness:
  "indexed to_ascii_lowercase sample_history \<and> hi_records sample_history = [sample_file ''a'' 1, sample_file ''b'' 3]"
  using history_indexed [OF indexed_from [of to_ascii_lowercase "[sample_file ''a'' 1, sample_file ''b'' 2]"],
      of "sample_file ''b'' 3" "\<lambda>rs. rs" rev "[]" sample_query] sample_positions
  by (simp add: sample_history_def history_from_def sample_file_def)

theorem page_is_prefix_witness:
  "fst (history_page to_ascii_lowercase rev sample_history [sample_active] sample_query)
     = \<lparr>fp_entries = [Live sample_active], fp_total = 2\<rparr>"
proof -
  have t: "trim [] = []" by (simp add: trim_def trim_by_none)
  have b: "Comparator.compare default True False = Greater" by simp
  have k: "wanted to_ascii_lowercase sample_query e" for e
    by (simp add: wanted_def sample_query_def t to_ascii_lowercase_def)
  have "merged_entries [sample_file ''a'' 1, sample_file ''b'' 3] [sample_active]
      = [(''a'', Saved (sample_file ''a'' 1)), (''b'', Live sample_active)]"
    by (simp add: merged_entries_def bt_of_list_def sample_file_def sample_active_def)
  then have r: "file_reference to_ascii_lowercase (hi_records sample_history) [sample_active] sample_query
      = [Live sample_active, Saved (sample_file ''a'' 1)]"
    by (simp add: file_reference_def sample_history_eq history_from_def k)
      (simp add: candidate_order_def candidate_of_def sample_active_def b)
  have "indexed to_ascii_lowercase sample_history" by (simp add: sample_history_eq indexed_from)
  from page_is_prefix [OF this, of rev "[sample_active]" sample_query] r show ?thesis
    by (simp add: sample_query_def)
qed

end
