(* ===== verification/Resources.thy ===== *)
theory Resources
  imports Registry
begin

text \<open>
  What a Folder of the desktop occupies on the device, and the checks of \<open>src/desktop.rs\<close> that keep two
  Folders from sharing any of it: the resources of a configuration, the problems within one Folder and
  between two, and the check of a candidate against every registered Folder. Paths are compared by
  their components; how the file system resolves a path is an argument. The texts of the problems
  leave out the paths.
\<close>

section \<open>Comparable paths\<close>

type_synonym parts = "path_component list"

definition path_under :: "parts \<Rightarrow> parts \<Rightarrow> bool" where
  "path_under p q = prefix q p"

definition paths_overlap :: "parts \<Rightarrow> parts \<Rightarrow> bool" where
  "paths_overlap l r \<longleftrightarrow> l = r \<or> path_under l r \<or> path_under r l"

text \<open>\<open>PathBuf::pop\<close> does nothing at the root.\<close>

fun normalize_components :: "path_component list \<Rightarrow> path_component list \<Rightarrow> parts res" where
  "normalize_components [] normalized = Inr normalized"
| "normalize_components (RootDir # cs) normalized = normalize_components cs [RootDir]"
| "normalize_components (CurDir # cs) normalized = normalize_components cs normalized"
| "normalize_components (ParentDir # cs) normalized =
     (if length normalized \<le> 1 then Inl (Bail ''Path escapes the filesystem root'')
      else normalize_components cs (butlast normalized))"
| "normalize_components (Normal part # cs) normalized = normalize_components cs (normalized @ [Normal part])"

definition normalize_absolute_path :: "string \<Rightarrow> parts res" where
  "normalize_absolute_path p =
     andthen (ensure (is_absolute p) ''Path must be absolute'') (\<lambda>_. normalize_components (path_components p) [])"

text \<open>The path is given from its end: resolve the longest part that exists, and add the rest.\<close>

fun comparable_loop :: "(parts \<Rightarrow> parts option) \<Rightarrow> parts \<Rightarrow> path_component list \<Rightarrow> parts \<Rightarrow> parts" where
  "comparable_loop canon normalized [] missing = (case canon [] of Some c \<Rightarrow> c @ missing | None \<Rightarrow> normalized)"
| "comparable_loop canon normalized (c # cs) missing =
     (case canon (rev (c # cs)) of
        Some d \<Rightarrow> d @ missing
      | None \<Rightarrow> (case c of Normal name \<Rightarrow> comparable_loop canon normalized cs (c # missing) | _ \<Rightarrow> normalized))"

definition comparable_path :: "(parts \<Rightarrow> parts option) \<Rightarrow> string \<Rightarrow> parts" where
  "comparable_path canon p =
     (let normalized = (case normalize_absolute_path p of Inr n \<Rightarrow> n | Inl _ \<Rightarrow> path_components p) in
      case canon normalized of Some c \<Rightarrow> c | None \<Rightarrow> comparable_loop canon normalized (rev normalized) [])"

definition normalized_http_endpoint :: "url_library \<Rightarrow> string \<Rightarrow> string" where
  "normalized_http_endpoint U base_url =
     (case url_parse U base_url of
        None \<Rightarrow> base_url
      | Some u \<Rightarrow> url_string U (if suffix [slash] (url_path u) then u else url_set_path U (url_path u @ [slash]) u))"

section \<open>Resources\<close>

record resources =
  br_library_dir :: parts
  br_state_file :: parts
  br_device_id :: string
  br_filesystem_inbox :: "parts option"
  br_http_endpoint :: "string option"
  br_directory_state :: "parts option"

definition resources_of :: "url_library \<Rightarrow> (parts \<Rightarrow> parts option) \<Rightarrow> config \<Rightarrow> resources" where
  "resources_of U canon c =
     \<lparr>br_library_dir = comparable_path canon (cf_library_dir c),
      br_state_file = comparable_path canon (cf_state_file c),
      br_device_id = cf_device_id c,
      br_filesystem_inbox = (case cf_server c of Filesystem inbox \<Rightarrow> Some (comparable_path canon inbox) | HttpServer _ \<Rightarrow> None),
      br_http_endpoint = (case cf_server c of HttpServer h \<Rightarrow> Some (normalized_http_endpoint U (hs_base_url h)) | Filesystem _ \<Rightarrow> None),
      br_directory_state = (if cf_directory_sync c then Some (comparable_path canon (directory_state_dir c)) else None)\<rparr>"

definition is_some_and :: "('a \<Rightarrow> bool) \<Rightarrow> 'a option \<Rightarrow> bool" where
  "is_some_and P x = (case x of None \<Rightarrow> False | Some y \<Rightarrow> P y)"

definition self_resource_problem :: "resources \<Rightarrow> string option" where
  "self_resource_problem r =
     (if is_some_and (\<lambda>state. paths_overlap state (br_library_dir r)) (br_directory_state r)
      then Some ''Directory state overlaps its managed folder''
      else if path_under (br_state_file r) (br_library_dir r) then Some ''State file is inside the managed folder''
      else case br_filesystem_inbox r of
        None \<Rightarrow> None
      | Some inbox \<Rightarrow>
          if paths_overlap (br_library_dir r) inbox then Some ''Managed folder overlaps local inbox''
          else if path_under (br_state_file r) inbox then Some ''State file is inside the local inbox''
          else None)"

definition directory_problem :: "resources \<Rightarrow> resources \<Rightarrow> bool" where
  "directory_problem owner other =
     is_some_and (\<lambda>state. paths_overlap state (br_library_dir other)
       \<or> path_under (br_state_file other) state
       \<or> is_some_and (paths_overlap state) (br_directory_state other)
       \<or> is_some_and (paths_overlap state) (br_filesystem_inbox other)) (br_directory_state owner)"

definition resource_problem :: "resources \<Rightarrow> resources \<Rightarrow> string option" where
  "resource_problem l r =
     (if directory_problem l r \<or> directory_problem r l
      then Some ''One Folder directory state overlaps another Folder resources''
      else if paths_overlap (br_library_dir l) (br_library_dir r) then Some ''Managed folders overlap''
      else if br_state_file l = br_state_file r then Some ''Shared state file''
      else if path_under (br_state_file l) (br_library_dir r) \<or> path_under (br_state_file r) (br_library_dir l)
      then Some ''One Folder state file is inside another managed folder''
      else if br_device_id l = br_device_id r then Some ''Shared device ID''
      else if br_http_endpoint l \<noteq> None \<and> br_http_endpoint l = br_http_endpoint r then Some ''Shared HTTP receive queue''
      else if is_some_and (\<lambda>li. is_some_and (paths_overlap li) (br_filesystem_inbox r)) (br_filesystem_inbox l)
      then Some ''Local inboxes overlap''
      else if is_some_and (\<lambda>inbox. paths_overlap inbox (br_library_dir r)) (br_filesystem_inbox l)
        \<or> is_some_and (\<lambda>inbox. paths_overlap inbox (br_library_dir l)) (br_filesystem_inbox r)
      then Some ''One Folder local inbox overlaps another managed folder''
      else if is_some_and (path_under (br_state_file r)) (br_filesystem_inbox l)
        \<or> is_some_and (path_under (br_state_file l)) (br_filesystem_inbox r)
      then Some ''One Folder state file is inside another local inbox''
      else None)"

text \<open>\<open>read\<close> loads the configuration of a registration.\<close>

definition ensure_resources_unique ::
    "url_library \<Rightarrow> (parts \<Rightarrow> parts option) \<Rightarrow> (string \<Rightarrow> ('w, config) op) \<Rightarrow> registry \<Rightarrow> resources \<Rightarrow> string option
       \<Rightarrow> ('w, unit) op" where
  "ensure_resources_unique U canon read reg candidate except =
     (case self_resource_problem candidate of
        Some problem \<Rightarrow> fails (Bail problem)
      | None \<Rightarrow>
          for_each (\<lambda>b.
            bindo (read (rg_config_path b)) (\<lambda>c.
            case resource_problem candidate (resources_of U canon c) of
              Some problem \<Rightarrow> fails (Bail problem)
            | None \<Rightarrow> retn ()))
          (List.filter (\<lambda>b. Some (rg_id b) \<noteq> except) (rs_bridges reg)))"

section \<open>What the checks are worth\<close>

lemma is_some_and_simps [simp]: "is_some_and P None = False" "is_some_and P (Some x) = P x"
  by (simp_all add: is_some_and_def)

lemma is_some_and_iff: "is_some_and P x \<longleftrightarrow> (\<exists>y. x = Some y \<and> P y)"
  by (cases x) simp_all

lemma overlap_sym: "paths_overlap l r \<longleftrightarrow> paths_overlap r l"
  by (auto simp: paths_overlap_def)

text \<open>Two paths overlap exactly when something can be below both.\<close>

lemma overlap_iff: "paths_overlap l r \<longleftrightarrow> (\<exists>p. path_under p l \<and> path_under p r)"
  unfolding paths_overlap_def path_under_def
  by (metis prefix_order.order_refl prefix_same_cases)

text \<open>The places that a configuration names, with everything below the directories among them.\<close>

definition named :: "resources \<Rightarrow> parts set" where
  "named r = {br_library_dir r, br_state_file r} \<union> set_option (br_filesystem_inbox r) \<union> set_option (br_directory_state r)"

definition territory :: "resources \<Rightarrow> parts set" where
  "territory r = {p. path_under p (br_library_dir r) \<or> p = br_state_file r
     \<or> is_some_and (path_under p) (br_filesystem_inbox r) \<or> is_some_and (path_under p) (br_directory_state r)}"

lemma not_directory_problem:
  "\<not> directory_problem l r \<longleftrightarrow> (\<forall>d. br_directory_state l = Some d \<longrightarrow> \<not> paths_overlap d (br_library_dir r)
     \<and> \<not> path_under (br_state_file r) d \<and> (\<forall>e. br_directory_state r = Some e \<longrightarrow> \<not> paths_overlap d e)
     \<and> (\<forall>i. br_filesystem_inbox r = Some i \<longrightarrow> \<not> paths_overlap d i))"
  by (cases "br_directory_state l") (auto simp: directory_problem_def is_some_and_iff)

lemma no_problem:
  "resource_problem l r = None \<longleftrightarrow> \<not> directory_problem l r \<and> \<not> directory_problem r l
     \<and> \<not> paths_overlap (br_library_dir l) (br_library_dir r) \<and> br_state_file l \<noteq> br_state_file r
     \<and> \<not> path_under (br_state_file l) (br_library_dir r) \<and> \<not> path_under (br_state_file r) (br_library_dir l)
     \<and> br_device_id l \<noteq> br_device_id r \<and> (br_http_endpoint l = None \<or> br_http_endpoint l \<noteq> br_http_endpoint r)
     \<and> (\<forall>i. br_filesystem_inbox l = Some i \<longrightarrow> \<not> paths_overlap i (br_library_dir r) \<and> \<not> path_under (br_state_file r) i
          \<and> (\<forall>j. br_filesystem_inbox r = Some j \<longrightarrow> \<not> paths_overlap i j))
     \<and> (\<forall>j. br_filesystem_inbox r = Some j \<longrightarrow> \<not> paths_overlap j (br_library_dir l) \<and> \<not> path_under (br_state_file l) j)"
  unfolding resource_problem_def by (auto simp: is_some_and_iff)

lemma problem_sym: "resource_problem l r = None \<longleftrightarrow> resource_problem r l = None"
proof -
  have "resource_problem l r = None \<Longrightarrow> resource_problem r l = None" for l r
    unfolding no_problem by (metis overlap_sym)
  then show ?thesis by blast
qed

lemma problem_territory:
  assumes "resource_problem l r = None"
  shows "territory l \<inter> territory r = {}"
proof -
  have o: "path_under p a \<Longrightarrow> path_under p b \<Longrightarrow> paths_overlap a b" for p a b by (auto simp: overlap_iff)
  show ?thesis
    using assms unfolding no_problem not_directory_problem
    by (auto simp: territory_def is_some_and_iff dest: o)
qed

section \<open>Files beside the state file\<close>

text \<open>
  A synchronisation locks a file with the name of the state file and another ending, and an exit leaves a
  marker with the stem of the name. The checks do not look at these. A state file that is itself a
  symbolic link has them elsewhere; that is left out.
\<close>

definition last_renamed :: "(string \<Rightarrow> string) \<Rightarrow> parts \<Rightarrow> parts" where
  "last_renamed g p = (case rev p of Normal n # ds \<Rightarrow> rev ds @ [Normal (g n)] | _ \<Rightarrow> p)"

definition file_stem :: "string \<Rightarrow> string" where
  "file_stem name = (case rsplit_once (CHR ''.'') name of Some (a, _) \<Rightarrow> if a = [] then name else a | None \<Rightarrow> name)"

definition state_lock :: "resources \<Rightarrow> parts" where
  "state_lock r = last_renamed (\<lambda>n. n @ ''.lock'') (br_state_file r)"

definition state_retired :: "resources \<Rightarrow> parts" where
  "state_retired r = last_renamed (\<lambda>n. file_stem n @ ''.json.retired'') (br_state_file r)"

definition beside_state :: "resources \<Rightarrow> parts set" where
  "beside_state r = {state_lock r, state_retired r}"

definition footprint :: "resources \<Rightarrow> parts set" where
  "footprint r = territory r \<union> beside_state r"

lemma last_renamed_snoc [simp]: "last_renamed g (d @ [Normal n]) = d @ [Normal (g n)]"
  by (simp add: last_renamed_def)

lemma last_renamed_cases:
  obtains d n where "p = d @ [Normal n]"
  | "\<And>d n. p \<noteq> d @ [Normal n]" "\<And>d n. d @ [Normal n] \<noteq> p" "last_renamed g p = p"
proof (cases p rule: rev_cases)
  case (snoc d c)
  then show thesis using that by (cases c) (auto simp: last_renamed_def)
qed (use that in \<open>simp add: last_renamed_def\<close>)

text \<open>A file beside a state file is in the territory of another Folder only if that one names the very file.\<close>

lemma beside_named:
  assumes "resource_problem l r = None" and "p \<in> beside_state l" and "p \<in> territory r"
  shows "p \<in> named r"
proof -
  have s: "br_state_file l \<notin> territory r"
    using problem_territory [OF assms(1)] by (auto simp: territory_def)
  obtain g where p: "p = last_renamed g (br_state_file l)"
    using assms(2) by (auto simp: beside_state_def state_lock_def state_retired_def)
  show ?thesis
  proof (cases rule: last_renamed_cases [where p = "br_state_file l" and g = g])
    case (1 d n)
    have "p = q \<or> path_under (br_state_file l) q" if "path_under p q" for q
      using that by (auto simp: p 1 path_under_def)
    with assms(3) s show ?thesis
      unfolding territory_def named_def is_some_and_iff by fastforce
  next
    case 2
    with s assms(3) p show ?thesis by simp
  qed
qed

lemma beside_apart:
  assumes "br_state_file l \<noteq> br_state_file r" and "state_retired l \<noteq> state_retired r"
  shows "beside_state l \<inter> beside_state r = {}"
proof -
  have same: "state_lock l \<noteq> state_lock r"
    using assms(1) unfolding state_lock_def
    by (cases rule: last_renamed_cases [where p = "br_state_file l" and g = "\<lambda>n. n @ ''.lock''"];
        cases rule: last_renamed_cases [where p = "br_state_file r" and g = "\<lambda>n. n @ ''.lock''"]) auto
  have ends: "a @ ''.lock'' \<noteq> b @ ''.json.retired''" for a b
  proof
    assume "a @ ''.lock'' = b @ ''.json.retired''"
    then have "last (a @ ''.lock'') = last (b @ ''.json.retired'')" by simp
    then show False by simp
  qed
  have other: "state_lock x \<noteq> state_retired y" if "br_state_file x \<noteq> br_state_file y" for x y
    using that ends unfolding state_lock_def state_retired_def
    by (cases rule: last_renamed_cases [where p = "br_state_file x" and g = "\<lambda>n. n @ ''.lock''"];
        cases rule: last_renamed_cases [where p = "br_state_file y" and g = "\<lambda>n. file_stem n @ ''.json.retired''"]) auto
  show ?thesis using same other [of l r] other [of r l] assms by (auto simp: beside_state_def)
qed

text \<open>
  C15. The check between two Folders does not depend on which comes first. When it finds no problem, no place
  that one of them names, nor anything below its managed folder, its inbox or its directory state, belongs
  to the other, and they share no device id and no receive queue. The lock and the marker beside the state
  files, which the check does not look at, are apart too, unless both state files have the same marker or one
  Folder names a file beside the state file of the other.
\<close>

theorem resources_apart:
  "(resource_problem l r = None \<longleftrightarrow> resource_problem r l = None)
   \<and> (resource_problem l r = None \<longrightarrow> territory l \<inter> territory r = {} \<and> br_device_id l \<noteq> br_device_id r
       \<and> (br_http_endpoint l = None \<or> br_http_endpoint l \<noteq> br_http_endpoint r)
       \<and> (state_retired l \<noteq> state_retired r \<and> named l \<inter> beside_state r = {} \<and> beside_state l \<inter> named r = {}
          \<longrightarrow> footprint l \<inter> footprint r = {}))"
proof -
  have "footprint l \<inter> footprint r = {}"
    if p: "resource_problem l r = None" and s: "state_retired l \<noteq> state_retired r"
      and n: "named l \<inter> beside_state r = {}" "beside_state l \<inter> named r = {}"
  proof -
    have "br_state_file l \<noteq> br_state_file r" using p by (simp add: no_problem)
    from beside_apart [OF this s] problem_territory [OF p] beside_named [OF p]
      beside_named [of r l] p n show ?thesis
      unfolding footprint_def problem_sym [of l r] by blast
  qed
  then show ?thesis using problem_sym [of l r] problem_territory [of l r] no_problem [of l r] by blast
qed

text \<open>Two state files that differ in their extension pass the check and have one marker.\<close>

lemma marker_shared:
  fixes l r :: resources
  assumes "br_state_file l = [RootDir, Normal ''x'', Normal ''s.json'']" and "br_state_file r = [RootDir, Normal ''x'', Normal ''s.dat'']"
    and "br_library_dir l = [RootDir, Normal ''a'']" and "br_library_dir r = [RootDir, Normal ''b'']"
    and "br_device_id l \<noteq> br_device_id r" and "br_http_endpoint l = None"
    and "br_filesystem_inbox l = None" and "br_filesystem_inbox r = None"
    and "br_directory_state l = None" and "br_directory_state r = None"
  shows "resource_problem l r = None \<and> self_resource_problem l = None \<and> self_resource_problem r = None
     \<and> state_retired l = state_retired r"
proof -
  have "file_stem ''s.json'' = ''s''" "file_stem ''s.dat'' = ''s''" by code_simp+
  with assms show ?thesis
    by (simp add: no_problem not_directory_problem paths_overlap_def path_under_def self_resource_problem_def state_retired_def last_renamed_def)
qed

text \<open>When a configuration is read without changing anything, the check passes only for a candidate that is apart from all.\<close>

lemma unique_apart:
  assumes "ensure_resources_unique U canon read reg candidate except s = (Inr u, t)"
    and "\<And>p s r t. read p s = (r, t) \<Longrightarrow> t = s"
  shows "t = s \<and> self_resource_problem candidate = None
     \<and> (\<forall>b \<in> set (rs_bridges reg). Some (rg_id b) \<noteq> except \<longrightarrow>
          (\<exists>c. read (rg_config_path b) s = (Inr c, s) \<and> resource_problem candidate (resources_of U canon c) = None))"
proof -
  let ?f = "\<lambda>b. bindo (read (rg_config_path b)) (\<lambda>c. case resource_problem candidate (resources_of U canon c) of
      Some problem \<Rightarrow> fails (Bail problem) | None \<Rightarrow> retn ())"
  have f: "t = s \<and> (\<exists>c. read (rg_config_path b) s = (Inr c, s) \<and> resource_problem candidate (resources_of U canon c) = None)"
    if "?f b s = (Inr (), t)" for b s t
  proof -
    from that obtain c v where "read (rg_config_path b) s = (Inr c, v)"
      "(case resource_problem candidate (resources_of U canon c) of Some problem \<Rightarrow> fails (Bail problem) | None \<Rightarrow> retn ()) v = (Inr (), t)"
      by (auto simp: bindo_ok)
    with assms(2) show ?thesis by (auto split: option.splits)
  qed
  have all: "t = s \<and> (\<forall>b \<in> set bs. \<exists>c. read (rg_config_path b) s = (Inr c, s) \<and> resource_problem candidate (resources_of U canon c) = None)"
    if "for_each ?f bs s = (Inr (), t)" for bs s t
    using that
  proof (induction bs arbitrary: s)
    case (Cons b bs)
    from Cons.prems obtain v where v: "?f b s = (Inr (), v)" "for_each ?f bs v = (Inr (), t)"
      by (auto simp: bindo_ok simp del: bindo_simps)
    from f [OF v(1)] Cons.IH [OF v(2)] show ?case by auto
  qed simp
  from assms(1) have "self_resource_problem candidate = None"
    "for_each ?f (List.filter (\<lambda>b. Some (rg_id b) \<noteq> except) (rs_bridges reg)) s = (Inr (), t)"
    by (auto simp: ensure_resources_unique_def split: option.splits)
  with all show ?thesis by fastforce
qed

text \<open>A sample with two Folders that share a part of the tree.\<close>

definition sample_resources :: "string \<Rightarrow> resources" where
  "sample_resources d = \<lparr>br_library_dir = [RootDir, Normal d], br_state_file = [RootDir, Normal ''state'', Normal d],
     br_device_id = d, br_filesystem_inbox = None, br_http_endpoint = None, br_directory_state = None\<rparr>"

theorem resources_apart_witness:
  "footprint (sample_resources ''a'') \<inter> footprint (sample_resources ''b'') = {}"
proof -
  have "file_stem ''a'' = ''a''" "file_stem ''b'' = ''b''" by code_simp+
  then have b: "beside_state (sample_resources ''a'') = {[RootDir, Normal ''state'', Normal ''a.lock''], [RootDir, Normal ''state'', Normal ''a.json.retired'']}"
    "beside_state (sample_resources ''b'') = {[RootDir, Normal ''state'', Normal ''b.lock''], [RootDir, Normal ''state'', Normal ''b.json.retired'']}"
    "state_retired (sample_resources ''a'') \<noteq> state_retired (sample_resources ''b'')"
    by (simp_all add: beside_state_def state_lock_def state_retired_def last_renamed_def sample_resources_def)
  then have "named (sample_resources ''a'') \<inter> beside_state (sample_resources ''b'') = {}"
    "beside_state (sample_resources ''a'') \<inter> named (sample_resources ''b'') = {}"
    by (simp_all add: named_def sample_resources_def)
  moreover have "resource_problem (sample_resources ''a'') (sample_resources ''b'') = None"
    by (simp add: no_problem not_directory_problem paths_overlap_def path_under_def sample_resources_def)
  ultimately show ?thesis using b(3) resources_apart [of "sample_resources ''a''" "sample_resources ''b''"] by blast
qed

end
