(* ===== verification/Lifecycle.thy ===== *)
theory Lifecycle
  imports Resources PairingClient
begin

text \<open>
  The life of a Folder on the desktop: creating and editing it, its disconnection and clean exit, its
  removal, and the guard before a synchronisation; from \<open>src/desktop.rs\<close>, \<open>src/desktop/connection.rs\<close> and
  \<open>src/desktop/clean_exit.rs\<close> without their widgets, with \<open>Config::load\<close> and \<open>Config::save\<close>. The state is the registry file
  of \<open>Registry\<close>, the configuration files by path, and the files and directories that the operations
  look at or change. Any call of the file system may fail, as the world decides; locks are held
  throughout.
\<close>

section \<open>State\<close>

text \<open>A linked configuration is behind a symbolic link or has several hard links.\<close>

datatype config_file = NoConfig | OddConfig | LinkedConfig config | PlainConfig config

datatype local_kind = LDir | LFile bytes | LLink | LSpecial

record 'w desk =
  dk_world :: 'w
  dk_configs :: "parts \<Rightarrow> config_file"
  dk_files :: "(parts \<times> local_kind) list"

record 'w desktop_api =
  da_out :: "'w outside"
  da_json :: wire_json
  da_environment :: environment
  da_var :: "string \<Rightarrow> string option"
  da_uuid :: "'w \<Rightarrow> string \<times> 'w"
  da_permit :: "'w \<Rightarrow> bool \<times> 'w"
  da_write :: "'w \<Rightarrow> write_outcome \<times> 'w"
  da_length :: "registry \<Rightarrow> nat"
  da_empty_state :: bytes
  da_canon :: "(parts \<times> local_kind) list \<Rightarrow> parts \<Rightarrow> parts option"

record desktop_paths =
  dp_config_dir :: string
  dp_data_dir :: string
  dp_bootstrap :: "string option"

type_synonym ('w, 'a) desking = "('w desk, 'a) op"
type_synonym ('w, 'a) lifecycle = "('w desk, 'a) storing"

definition on_net :: "('w, 'a) op \<Rightarrow> ('w, 'a) desking" where
  "on_net m d = (case m (dk_world d) of (r, w) \<Rightarrow> (r, d\<lparr>dk_world := w\<rparr>))"

definition asked :: "('w \<Rightarrow> 'a \<times> 'w) \<Rightarrow> 'w desk \<Rightarrow> 'a \<times> 'w desk" where
  "asked f d = (case f (dk_world d) of (x, w) \<Rightarrow> (x, d\<lparr>dk_world := w\<rparr>))"

definition asking :: "('w \<Rightarrow> 'a \<times> 'w) \<Rightarrow> ('w, 'a) desking" where
  "asking f d = (case asked f d of (x, d') \<Rightarrow> (Inr x, d'))"

definition registry_api_of :: "'w desktop_api \<Rightarrow> 'w desk registry_api" where
  "registry_api_of A = \<lparr>sf_permit = asked (da_permit A), sf_write = asked (da_write A), sf_length = da_length A\<rparr>"

definition fs_call :: "'w desktop_api \<Rightarrow> ('w, unit) desking" where
  "fs_call A = bindo (asking (da_permit A)) (\<lambda>ok. lifto (ensure ok ''a call of the file system failed''))"

definition urls_of :: "'w desktop_api \<Rightarrow> url_library" where
  "urls_of A = out_urls (da_out A)"

definition ext_of :: "'w desktop_api \<Rightarrow> externals" where
  "ext_of A = out_ext (da_out A)"

section \<open>Configuration files\<close>

definition config_parse :: "'w desktop_api \<Rightarrow> config \<Rightarrow> ('w, config) desking" where
  "config_parse A c = bindo (fs_call A) (\<lambda>_. bindo (lifto (config_validate (ext_of A) (urls_of A) c)) (\<lambda>_. retn c))"

definition load_editable_config :: "'w desktop_api \<Rightarrow> string \<Rightarrow> ('w, config) desking" where
  "load_editable_config A p =
     bindo (fs_call A) (\<lambda>_.
     bindo (readso (\<lambda>d. Inr (dk_configs d (path_components p)))) (\<lambda>f.
       case f of
         PlainConfig c \<Rightarrow> config_parse A c
       | LinkedConfig c \<Rightarrow> fails (Bail ''Folder configuration is linked; refusing atomic replacement'')
       | OddConfig \<Rightarrow> fails (Bail ''Folder configuration is not a regular file'')
       | NoConfig \<Rightarrow> fails (Bail ''Unable to inspect Folder configuration'')))"

definition load_config_for_read :: "'w desktop_api \<Rightarrow> string \<Rightarrow> ('w, config) desking" where
  "load_config_for_read A p =
     bindo (fs_call A) (\<lambda>_.
     bindo (readso (\<lambda>d. Inr (dk_configs d (path_components p)))) (\<lambda>f.
       case f of
         PlainConfig c \<Rightarrow> config_parse A c
       | LinkedConfig c \<Rightarrow> config_parse A c
       | OddConfig \<Rightarrow> fails (Bail ''Folder configuration is not a regular file'')
       | NoConfig \<Rightarrow> fails (Bail ''Unable to inspect Folder configuration'')))"

text \<open>The configurations are kept apart from the other files; the directories that a save creates for them are left out.\<close>

definition set_config :: "string \<Rightarrow> config_file \<Rightarrow> 'w desk \<Rightarrow> 'w desk" where
  "set_config p f d = d\<lparr>dk_configs := (dk_configs d)(path_components p := f)\<rparr>"

definition config_save :: "'w desktop_api \<Rightarrow> config \<Rightarrow> string \<Rightarrow> bool \<Rightarrow> ('w, unit) desking" where
  "config_save A c p force =
     bindo (lifto (config_validate (ext_of A) (urls_of A) c)) (\<lambda>_.
     bindo (readso (\<lambda>d. Inr (dk_configs d (path_components p) \<noteq> NoConfig))) (\<lambda>there.
     bindo (lifto (ensure (\<not> (there \<and> \<not> force)) ''config already exists'')) (\<lambda>_.
     bindo (asking (da_write A)) (\<lambda>w.
       case w of
         Written \<Rightarrow> modifyo (set_config p (PlainConfig c))
       | WrittenNotSynced \<Rightarrow> bindo (modifyo (set_config p (PlainConfig c))) (\<lambda>_. fails (Bail ''failed to sync''))
       | NotWritten \<Rightarrow> fails (Bail ''failed to write config'')))))"

definition find_bridge :: "string \<Rightarrow> registry \<Rightarrow> registration res" where
  "find_bridge i r = of_option ''Folder no longer exists'' (List.find (\<lambda>b. rg_id b = i) (rs_bridges r))"

text \<open>The end of a closure: an operation of the registry, with the closure's value.\<close>

definition closing :: "'b \<Rightarrow> 'a registering \<Rightarrow> registry \<Rightarrow> ('w, 'b \<times> registry) op" where
  "closing x g r = (case g r of (Inl e, _) \<Rightarrow> fails e | (Inr _, r') \<Rightarrow> retn (x, r'))"

definition scoped :: "'w desktop_api \<Rightarrow> config \<Rightarrow> bool" where
  "scoped A c = (case cf_server c of
     HttpServer h \<Rightarrow> (case url_parse (urls_of A) (hs_base_url h) of None \<Rightarrow> False | Some u \<Rightarrow> sublist ''/f/'' (url_path u))
   | Filesystem _ \<Rightarrow> False)"

definition can_remove :: "'w desktop_api \<Rightarrow> config \<Rightarrow> bool" where
  "can_remove A c \<longleftrightarrow> \<not> scoped A c \<or> cf_connection_state c \<in> {Disconnected, Exited}"

definition load_registered_config :: "'w desktop_api \<Rightarrow> string \<Rightarrow> string \<Rightarrow> ('w, config) lifecycle" where
  "load_registered_config A i p =
     bindo (registry_load (registry_api_of A)) (\<lambda>r.
     bindo (lifto (find_bridge i r)) (\<lambda>b.
     bindo (lifto (ensure (path_components (rg_config_path b) = path_components p)
       ''Folder has a different configuration path; refresh the list'')) (\<lambda>_.
     in_world (bindo (load_config_for_read A p) (\<lambda>c.
       bindo (readso (\<lambda>d. Inr (da_canon A (dk_files d)))) (\<lambda>canon.
       bindo (ensure_resources_unique (urls_of A) canon (load_config_for_read A) r (resources_of (urls_of A) canon c) (Some i)) (\<lambda>_.
       retn c)))))))"

text \<open>The token that was typed in, or the one of the environment.\<close>

definition session_token :: "'w desktop_api \<Rightarrow> http_server \<Rightarrow> string \<Rightarrow> string res" where
  "session_token A h supplied =
     (if trim supplied = [] then of_option ''Enter the Folder session token.'' (da_var A (hs_token_env h))
      else Inr (trim supplied))"

section \<open>Disconnection\<close>

definition stop_closure :: "'w desktop_api \<Rightarrow> string \<Rightarrow> registry \<Rightarrow> ('w, (string \<times> config) \<times> registry) desking" where
  "stop_closure A i r =
     bindo (lifto (find_bridge i r)) (\<lambda>b. let p = rg_config_path b in
     bindo (load_editable_config A p) (\<lambda>c.
     bindo (lifto (ensure (cf_connection_state c \<notin> {ExitPending, ExitLocalCleaned, Exited})
       ''Use Clean exit to preserve cleanup receipts.'')) (\<lambda>_.
     bindo (lifto (ensure (scoped A c) ''Legacy credentials can only be removed locally.'')) (\<lambda>_.
     let c' = (if cf_connection_state c \<noteq> Disconnected then c\<lparr>cf_connection_state := DisconnectPending\<rparr> else c) in
     bindo (if cf_connection_state c \<noteq> Disconnected then config_save A c' p True else retn ()) (\<lambda>_.
     closing (p, c') (registry_set_auto_receive i False) r)))))"

definition stopped_closure ::
    "'w desktop_api \<Rightarrow> string \<Rightarrow> string \<Rightarrow> config \<Rightarrow> registry \<Rightarrow> ('w, unit \<times> registry) desking" where
  "stopped_closure A i p c r =
     bindo (lifto (find_bridge i r)) (\<lambda>b.
     bindo (lifto (ensure (path_components (rg_config_path b) = path_components p)
       ''Folder configuration changed; retry disconnection.'')) (\<lambda>_.
     bindo (load_editable_config A p) (\<lambda>latest.
     bindo (lifto (ensure (latest = c) ''Folder configuration changed; retry disconnection.'')) (\<lambda>_.
     bindo (config_save A (c\<lparr>cf_connection_state := Disconnected\<rparr>) p True) (\<lambda>_.
     closing () (registry_set_auto_receive i False) r)))))"

definition send_disconnect ::
    "'w desktop_api \<Rightarrow> string \<Rightarrow> string \<Rightarrow> string \<Rightarrow> config \<Rightarrow> http_server \<Rightarrow> ('w, unit) lifecycle" where
  "send_disconnect A i supplied p c h =
     bindo (lifto (session_token A h supplied)) (\<lambda>token.
     bindo (lifto (PairingClient_new (urls_of A) (hs_base_url h) token (hs_allow_insecure_http h))) (\<lambda>P.
     bindo (in_world (on_net (client_disconnect (da_out A) (da_json A) P))) (\<lambda>_.
     registry_update (registry_api_of A) (stopped_closure A i p c))))"

text \<open>A scoped configuration has an HTTP server, so the other case is unreachable.\<close>

definition disconnect_folder :: "'w desktop_api \<Rightarrow> string \<Rightarrow> string \<Rightarrow> ('w, unit) lifecycle" where
  "disconnect_folder A i supplied =
     bindo (registry_update (registry_api_of A) (stop_closure A i)) (\<lambda>(p, c).
     if cf_connection_state c = Disconnected then retn ()
     else case cf_server c of
       Filesystem _ \<Rightarrow> fails (Bail ''unreachable'')
     | HttpServer h \<Rightarrow> send_disconnect A i supplied p c h)"

section \<open>Clean exit\<close>

text \<open>\<open>Path::with_extension\<close>: everything after the stem of the last component goes.\<close>

definition with_extension :: "string \<Rightarrow> string \<Rightarrow> string" where
  "with_extension p extension =
     (let names = rev (dropWhile (\<lambda>c. c = [] \<or> c = ''.'') (rev (split_on slash p))); name = last names;
          stem = (case rsplit_once (CHR ''.'') name of Some (a, _) \<Rightarrow> if a = [] then name else a | None \<Rightarrow> name) in
      if names = [] \<or> name = ''..'' then p
      else join_with slash (butlast names @ [stem @ CHR ''.'' # extension]))"

definition put_file :: "string \<Rightarrow> bytes \<Rightarrow> 'w desk \<Rightarrow> 'w desk" where
  "put_file p b d = d\<lparr>dk_files := AList.update (path_components p) (LFile b) (dk_files d)\<rparr>"

definition create_dir :: "'w desktop_api \<Rightarrow> parts \<Rightarrow> ('w, unit) desking" where
  "create_dir A q =
     bindo (fs_call A) (\<lambda>_.
     bindo (readso (\<lambda>d. Inr (map_of (dk_files d) q))) (\<lambda>n.
     bindo (lifto (ensure (n \<in> {None, Some LDir, Some LLink}) ''Not a directory'')) (\<lambda>_.
     modifyo (\<lambda>d. if n = None then d\<lparr>dk_files := AList.update q LDir (dk_files d)\<rparr> else d))))"

definition create_dir_all :: "'w desktop_api \<Rightarrow> parts \<Rightarrow> ('w, unit) desking" where
  "create_dir_all A p = for_each (create_dir A) (List.filter (\<lambda>q. q \<noteq> []) (prefixes p))"

definition create_parent :: "'w desktop_api \<Rightarrow> string \<Rightarrow> ('w, unit) desking" where
  "create_parent A p = create_dir_all A (butlast (path_components p))"

text \<open>\<open>StateStore::lock_exclusive\<close>: the lock file is created, empty, if it is missing.\<close>

definition lock_exclusive :: "'w desktop_api \<Rightarrow> string \<Rightarrow> ('w, unit) desking" where
  "lock_exclusive A p =
     bindo (create_parent A (p @ ''.lock'')) (\<lambda>_.
     bindo (fs_call A) (\<lambda>_.
     bindo (readso (\<lambda>d. Inr (map_of (dk_files d) (path_components (p @ ''.lock''))))) (\<lambda>n.
       case n of
         None \<Rightarrow> modifyo (put_file (p @ ''.lock'') [])
       | Some (LFile b) \<Rightarrow> retn ()
       | Some _ \<Rightarrow> fails (Bail ''state lock is not a regular file''))))"

definition operation_lock :: "'w desktop_api \<Rightarrow> string \<Rightarrow> ('w, unit) desking" where
  "operation_lock A p = lock_exclusive A (with_extension p ''operation'')"

text \<open>\<open>atomic_write\<close>; the temporary file is not modelled.\<close>

definition write_state_file :: "'w desktop_api \<Rightarrow> string \<Rightarrow> bytes \<Rightarrow> ('w, unit) desking" where
  "write_state_file A p b =
     bindo (create_parent A p) (\<lambda>_.
     bindo (asking (da_write A)) (\<lambda>w.
       case w of
         Written \<Rightarrow> modifyo (put_file p b)
       | WrittenNotSynced \<Rightarrow> bindo (modifyo (put_file p b)) (\<lambda>_. fails (Bail ''failed to sync''))
       | NotWritten \<Rightarrow> fails (Bail ''failed to write'')))"

definition retired_marker :: bytes where
  "retired_marker = [CHR ''{'', CHR 0x22] @ ''retired'' @ [CHR 0x22] @ '':true}''"

fun child_of :: "parts \<Rightarrow> parts \<Rightarrow> path_component option" where
  "child_of p q = (if q \<noteq> [] \<and> butlast q = p then Some (last q) else None)"

definition read_dir :: "parts \<Rightarrow> 'w desk \<Rightarrow> path_component list" where
  "read_dir p d = List.map_filter (child_of p) (List.map fst (dk_files d))"

definition kept_name :: "string \<Rightarrow> bool" where
  "kept_name name \<longleftrightarrow> suffix ''.lock'' name \<or> name = ''retired.json'' \<or> suffix ''.retired'' name"

definition file_name :: "parts \<Rightarrow> string option" where
  "file_name p = (case rev p of Normal name # _ \<Rightarrow> Some name | _ \<Rightarrow> None)"

definition drop_file :: "'w desktop_api \<Rightarrow> parts \<Rightarrow> ('w, unit) desking" where
  "drop_file A p = bindo (fs_call A) (\<lambda>_. modifyo (\<lambda>d. d\<lparr>dk_files := AList.delete p (dk_files d)\<rparr>))"

text \<open>
  The first argument counts the levels that are left: nine for the depths 0 to 8. The last call
  flushes the parent directory.
\<close>

fun remove_owned_tree :: "nat \<Rightarrow> 'w desktop_api \<Rightarrow> parts \<Rightarrow> ('w, unit) desking" where
  "remove_owned_tree 0 A p = fails (Bail ''Unexpected nesting in app-owned state'')"
| "remove_owned_tree (Suc levels) A p =
     bindo (fs_call A) (\<lambda>_.
     bindo (readso (\<lambda>d. Inr (map_of (dk_files d) p))) (\<lambda>n.
       case n of
         None \<Rightarrow> retn ()
       | Some LLink \<Rightarrow> fails (Bail ''Refusing symlink in cleanup'')
       | Some LSpecial \<Rightarrow> fails (Bail ''Unexpected file type in app-owned state'')
       | Some LDir \<Rightarrow>
           bindo (fs_call A) (\<lambda>_.
           bindo (readso (\<lambda>d. Inr (read_dir p d))) (\<lambda>names.
           bindo (for_each (\<lambda>name. remove_owned_tree levels A (p @ [name])) names) (\<lambda>_.
           bindo (fs_call A) (\<lambda>_.
           bindo (readso (\<lambda>d. Inr (read_dir p d))) (\<lambda>rest.
           bindo (if rest = [] then drop_file A p else retn ()) (\<lambda>_.
           fs_call A))))))
       | Some (LFile b) \<Rightarrow>
           bindo (lifto (of_option ''Invalid state filename'' (file_name p))) (\<lambda>name.
           bindo (lifto (ensure (valid_utf8 name) ''Invalid state filename'')) (\<lambda>_.
           if kept_name name then retn () else bindo (drop_file A p) (\<lambda>_. fs_call A)))))"

definition canonicalize :: "'w desktop_api \<Rightarrow> string \<Rightarrow> ('w, parts) desking" where
  "canonicalize A p =
     bindo (readso (\<lambda>d. Inr (da_canon A (dk_files d) (path_components p)))) (\<lambda>c. lifto (of_option ''No such file or directory'' c))"

definition clean_local :: "'w desktop_api \<Rightarrow> desktop_paths \<Rightarrow> string \<Rightarrow> string \<Rightarrow> config \<Rightarrow> ('w, unit) desking" where
  "clean_local A dp i p c =
     bindo (lifto (ensure (uuid_canonical (ext_of A) i) ''Invalid local Folder identity'')) (\<lambda>_.
     let owned = path_join (dp_data_dir dp) i; directory = directory_state_dir c in
     bindo (lifto (ensure (path_components p = path_components (path_join (dp_config_dir dp) (i @ ''.toml''))
         \<and> path_components (cf_state_file c) = path_components (path_join owned ''state.json''))
       ''This imported configuration has no verified app-owned cleanup scope.'')) (\<lambda>_.
     bindo (canonicalize A owned) (\<lambda>real.
     bindo (lifto (ensure (real = path_components owned) ''Refusing redirected cleanup root'')) (\<lambda>_.
     bindo (canonicalize A (cf_library_dir c)) (\<lambda>library.
     bindo (lifto (ensure (\<not> path_under library real \<and> \<not> path_under real library)
       ''App state and original files overlap; manual review required'')) (\<lambda>_.
     bindo (lock_exclusive A (cf_state_file c)) (\<lambda>_.
     bindo (readso (\<lambda>d. Inr (da_canon A (dk_files d) (path_components directory)))) (\<lambda>there.
     bindo (case there of
         None \<Rightarrow> retn ()
       | Some q \<Rightarrow>
           bindo (lifto (ensure (q = path_components directory) ''Refusing redirected directory state'')) (\<lambda>_.
           bindo (lock_exclusive A (path_join directory ''receiver.json'')) (\<lambda>_.
           bindo (lock_exclusive A (path_join directory ''sender.json'')) (\<lambda>_.
           write_state_file A (path_join directory ''retired.json'') retired_marker)))) (\<lambda>_.
     bindo (write_state_file A (with_extension (cf_state_file c) ''json.retired'') retired_marker) (\<lambda>_.
     bindo (remove_owned_tree 9 A (path_components directory)) (\<lambda>_.
     remove_owned_tree 9 A (path_components (cf_state_file c)))))))))))))"

definition exit_closure :: "'w desktop_api \<Rightarrow> string \<Rightarrow> registry \<Rightarrow> ('w, (string \<times> config) \<times> registry) desking" where
  "exit_closure A i r =
     bindo (lifto (find_bridge i r)) (\<lambda>b. let p = rg_config_path b in
     bindo (load_editable_config A p) (\<lambda>c.
     bindo (lifto (ensure (scoped A c) ''Clean exit requires independent Folder credentials'')) (\<lambda>_.
     bindo (lifto (ensure (cf_connection_state c \<noteq> Disconnected)
       ''This older disconnected Folder no longer has a guaranteed receipt credential'')) (\<lambda>_.
     let fresh = cf_connection_state c \<notin> {ExitLocalCleaned, Exited};
         c' = (if fresh then c\<lparr>cf_connection_state := ExitPending\<rparr> else c) in
     bindo (if fresh then config_save A c' p True else retn ()) (\<lambda>_.
     closing (p, c') (registry_set_auto_receive i False) r)))))"

definition finish_exit ::
    "'w desktop_api \<Rightarrow> desktop_paths \<Rightarrow> string \<Rightarrow> string \<Rightarrow> config \<Rightarrow> pairing_client \<Rightarrow> ('w, folder_exit_status) lifecycle" where
  "finish_exit A dp i p c P =
     bindo (in_world (operation_lock A p)) (\<lambda>_.
     bindo (load_registered_config A i p) (\<lambda>current.
     bindo (lifto (ensure (current = c) ''Folder configuration changed during exit; retry'')) (\<lambda>_.
     bindo (if cf_connection_state c \<in> {ExitLocalCleaned, Exited} then retn ()
       else bindo (in_world (clean_local A dp i p c)) (\<lambda>_.
         in_world (config_save A (c\<lparr>cf_connection_state := ExitLocalCleaned\<rparr>) p True))) (\<lambda>_.
     bindo (in_world (on_net (client_acknowledge_exit (da_out A) (da_json A) P))) (\<lambda>receipt.
     bindo (lifto (ensure (fx_receiver_cleaned receipt \<and> fx_role receipt = ''receiver'')
       ''Local exit acknowledgement was not confirmed'')) (\<lambda>_.
     bindo (if exit_complete receipt then in_world (config_save A (c\<lparr>cf_connection_state := Exited\<rparr>) p True) else retn ()) (\<lambda>_.
     retn receipt)))))))"

definition send_exit ::
    "'w desktop_api \<Rightarrow> desktop_paths \<Rightarrow> string \<Rightarrow> string \<Rightarrow> string \<Rightarrow> config \<Rightarrow> http_server
       \<Rightarrow> ('w, folder_exit_status) lifecycle" where
  "send_exit A dp i supplied p c h =
     bindo (lifto (session_token A h supplied)) (\<lambda>token.
     bindo (lifto (PairingClient_new (urls_of A) (hs_base_url h) token (hs_allow_insecure_http h))) (\<lambda>P.
     bindo (in_world (on_net (client_exit_status (da_out A) (da_json A) P))) (\<lambda>before.
     bindo (lifto (ensure (fx_role before = ''receiver'') ''Use a receiver credential on Linux'')) (\<lambda>_.
     bindo (in_world (on_net (client_clean_exit (da_out A) (da_json A) P))) (\<lambda>status.
     bindo (lifto (ensure (fx_role status = ''receiver'') ''Use a receiver credential on Linux'')) (\<lambda>_.
     finish_exit A dp i p c P))))))"

definition exit_folder :: "'w desktop_api \<Rightarrow> desktop_paths \<Rightarrow> string \<Rightarrow> string \<Rightarrow> ('w, folder_exit_status) lifecycle" where
  "exit_folder A dp i supplied =
     bindo (registry_update (registry_api_of A) (exit_closure A i)) (\<lambda>(p, c).
     case cf_server c of
       Filesystem _ \<Rightarrow> fails (Bail ''unreachable'')
     | HttpServer h \<Rightarrow> send_exit A dp i supplied p c h)"

text \<open>Before a synchronisation: an exit that is pending, or that the peer has asked for, is run instead.\<close>

definition resume_if_requested ::
    "'w desktop_api \<Rightarrow> desktop_paths \<Rightarrow> string \<Rightarrow> string \<Rightarrow> string option \<Rightarrow> ('w, bool) lifecycle" where
  "resume_if_requested A dp i p token =
     bindo (load_registered_config A i p) (\<lambda>c.
     case cf_server c of
       Filesystem _ \<Rightarrow> retn False
     | HttpServer h \<Rightarrow>
         if \<not> scoped A c \<or> cf_connection_state c \<in> {Disconnected, Exited} then retn False
         else
           bindo (lifto (of_option ''Enter the Folder receiver token''
             (case token of Some t \<Rightarrow> Some t | None \<Rightarrow> da_var A (hs_token_env h)))) (\<lambda>t.
           bindo (if cf_connection_state c \<in> {ExitPending, ExitLocalCleaned} then retn True
             else
               bindo (lifto (PairingClient_new (urls_of A) (hs_base_url h) t (hs_allow_insecure_http h))) (\<lambda>P.
               bindo (attempt (in_world (on_net (client_exit_status (da_out A) (da_json A) P)))) (\<lambda>status.
               retn (case status of Inl _ \<Rightarrow> False | Inr st \<Rightarrow> fx_requested st)))) (\<lambda>go.
           if go then bindo (exit_folder A dp i t) (\<lambda>_. retn True) else retn False)))"

definition forget_receipt :: "'w desktop_api \<Rightarrow> desktop_paths \<Rightarrow> registration \<Rightarrow> ('w, unit) desking" where
  "forget_receipt A dp b =
     bindo (load_editable_config A (rg_config_path b)) (\<lambda>c.
     if cf_connection_state c \<noteq> Exited then retn ()
     else
       bindo (if path_components (rg_config_path b) = path_components (path_join (dp_config_dir dp) (rg_id b @ ''.toml''))
         then canonicalize A (rg_config_path b) else retn []) (\<lambda>real.
       bindo (lifto (ensure (path_components (rg_config_path b) = path_components (path_join (dp_config_dir dp) (rg_id b @ ''.toml''))
         \<and> real = path_components (rg_config_path b)) ''Refusing unowned exit receipt path'')) (\<lambda>_.
       bindo (fs_call A) (\<lambda>_.
       bindo (modifyo (set_config (rg_config_path b) NoConfig)) (\<lambda>_. fs_call A)))))"

section \<open>Creating, editing and removing\<close>

definition DEFAULT_HTTP_TOKEN_ENV :: string where "DEFAULT_HTTP_TOKEN_ENV = ''MIRELAY_TOKEN''"
definition DEFAULT_HTTP_REQUEST_TIMEOUT_SECONDS :: nat where "DEFAULT_HTTP_REQUEST_TIMEOUT_SECONDS = 120"
definition DEFAULT_HTTP_PAGE_SIZE :: nat where "DEFAULT_HTTP_PAGE_SIZE = 50"
definition DEFAULT_HTTP_RETRY_MAX_ATTEMPTS :: nat where "DEFAULT_HTTP_RETRY_MAX_ATTEMPTS = 3"
definition DEFAULT_HTTP_RETRY_BASE_DELAY_MILLISECONDS :: nat where "DEFAULT_HTTP_RETRY_BASE_DELAY_MILLISECONDS = 250"
definition DEFAULT_HTTP_RETRY_MAX_DELAY_MILLISECONDS :: nat where "DEFAULT_HTTP_RETRY_MAX_DELAY_MILLISECONDS = 5000"

definition set_http_server :: "string \<Rightarrow> bool \<Rightarrow> config \<Rightarrow> config" where
  "set_http_server base_url insecure c =
     c\<lparr>cf_server := HttpServer
       (case cf_server c of
          HttpServer h \<Rightarrow> h\<lparr>hs_base_url := base_url, hs_allow_insecure_http := insecure\<rparr>
        | Filesystem _ \<Rightarrow>
            \<lparr>hs_base_url = base_url, hs_token_env = DEFAULT_HTTP_TOKEN_ENV,
             hs_request_timeout_seconds = DEFAULT_HTTP_REQUEST_TIMEOUT_SECONDS, hs_page_size = DEFAULT_HTTP_PAGE_SIZE,
             hs_retry_max_attempts = DEFAULT_HTTP_RETRY_MAX_ATTEMPTS,
             hs_retry_base_delay_milliseconds = DEFAULT_HTTP_RETRY_BASE_DELAY_MILLISECONDS,
             hs_retry_max_delay_milliseconds = DEFAULT_HTTP_RETRY_MAX_DELAY_MILLISECONDS,
             hs_allow_insecure_http = insecure\<rparr>)\<rparr>"

definition ensure_directories :: "'w desktop_api \<Rightarrow> config \<Rightarrow> ('w, unit) desking" where
  "ensure_directories A c =
     bindo (case cf_server c of Filesystem inbox \<Rightarrow> create_dir_all A (path_components inbox) | HttpServer _ \<Rightarrow> retn ()) (\<lambda>_.
     bindo (if cf_directory_sync c
       then bindo (canonicalize A (cf_library_dir c)) (\<lambda>q.
         bindo (readso (\<lambda>d. Inr (map_of (dk_files d) q = Some LDir))) (\<lambda>dir.
         lifto (ensure dir ''Choose an existing directory for directory sync.'')))
       else create_dir_all A (path_components (cf_library_dir c))) (\<lambda>_.
     create_dir_all A (butlast (path_components (cf_state_file c)))))"

definition persist_config :: "'w desktop_api \<Rightarrow> config \<Rightarrow> string \<Rightarrow> bool \<Rightarrow> bool \<Rightarrow> ('w, unit) desking" where
  "persist_config A c p force initialize_state =
     bindo (lifto (config_validate (ext_of A) (urls_of A) c)) (\<lambda>_.
     bindo (ensure_directories A c) (\<lambda>_.
     bindo (config_save A c p force) (\<lambda>_.
     if \<not> initialize_state then retn ()
     else
       bindo (lock_exclusive A (cf_state_file c)) (\<lambda>_.
       bindo (readso (\<lambda>d. Inr (da_canon A (dk_files d) (path_components (cf_state_file c)) \<noteq> None))) (\<lambda>there.
       if there then retn () else write_state_file A (cf_state_file c) (da_empty_state A))))))"

definition resources_unique :: "'w desktop_api \<Rightarrow> registry \<Rightarrow> config \<Rightarrow> string option \<Rightarrow> ('w, unit) desking" where
  "resources_unique A r c except =
     bindo (readso (\<lambda>d. Inr (da_canon A (dk_files d)))) (\<lambda>canon.
     ensure_resources_unique (urls_of A) canon (load_config_for_read A) r (resources_of (urls_of A) canon c) except)"

text \<open>The resources of the candidate are computed once, before the registry is read.\<close>

definition create_bridge ::
    "'w desktop_api \<Rightarrow> desktop_paths \<Rightarrow> string \<Rightarrow> string \<Rightarrow> string \<Rightarrow> bool \<Rightarrow> bool \<Rightarrow> ('w, string) lifecycle" where
  "create_bridge A dp name library base_url insecure auto_receive =
     bindo (in_world (asking (da_uuid A))) (\<lambda>i.
     let p = path_join (dp_config_dir dp) (i @ ''.toml'') in
     bindo (in_world (asking (da_uuid A))) (\<lambda>device.
     bindo (lifto (config_defaults (da_environment A) device
       \<lparr>io_data_dir = Some (path_join (dp_data_dir dp) i), io_library_dir = Some library, io_inbox_dir = None\<rparr>)) (\<lambda>defaults.
     let c = set_http_server base_url insecure defaults;
         b = \<lparr>rg_kind = General, rg_id = i, rg_name = name, rg_config_path = p, rg_auto_receive = auto_receive\<rparr> in
     bindo (lifto (config_validate (ext_of A) (urls_of A) c)) (\<lambda>_.
     bindo (in_world (readso (\<lambda>d. Inr (da_canon A (dk_files d))))) (\<lambda>canon.
     let candidate = resources_of (urls_of A) canon c in
     bindo (registry_load (registry_api_of A)) (\<lambda>r.
     bindo (in_world (readso (\<lambda>d. Inr (da_canon A (dk_files d))))) (\<lambda>canon.
     bindo (in_world (ensure_resources_unique (urls_of A) canon (load_config_for_read A) r candidate None)) (\<lambda>_.
     bindo (lifto (fst (registry_add b r))) (\<lambda>_.
     bindo (in_world (readso (\<lambda>d. Inr (dk_configs d (path_components p) \<noteq> NoConfig)))) (\<lambda>there.
     bindo (lifto (ensure (\<not> there) ''Refusing to overwrite existing Folder configuration'')) (\<lambda>_.
     bindo (in_world (persist_config A c p False True)) (\<lambda>_.
     bindo (registry_update (registry_api_of A) (\<lambda>r.
       bindo (readso (\<lambda>d. Inr (da_canon A (dk_files d)))) (\<lambda>canon.
       bindo (ensure_resources_unique (urls_of A) canon (load_config_for_read A) r candidate None) (\<lambda>_.
       closing () (registry_add b) r)))) (\<lambda>_.
     retn i)))))))))))))"

definition edit_closure ::
    "'w desktop_api \<Rightarrow> string \<Rightarrow> string \<Rightarrow> string \<Rightarrow> bool \<Rightarrow> bool \<Rightarrow> registry \<Rightarrow> ('w, unit \<times> registry) desking" where
  "edit_closure A i name base_url insecure auto_receive r =
     bindo (lifto (fst (bindo (registry_rename i name) (\<lambda>_. registry_set_auto_receive i auto_receive) r))) (\<lambda>_.
     bindo (lifto (find_bridge i r)) (\<lambda>b.
     bindo (load_editable_config A (rg_config_path b)) (\<lambda>c.
     bindo (lifto (config_connected c)) (\<lambda>_.
     bindo (lifto (if cf_directory_sync c
       then (case cf_server c of
           Filesystem _ \<Rightarrow> Inl (Bail ''Invalid directory Folder.'')
         | HttpServer h \<Rightarrow> ensure (hs_base_url h = base_url) ''A directory Folder server cannot be changed.'')
       else Inr ())) (\<lambda>_.
     let c' = set_http_server base_url insecure c in
     bindo (lifto (config_validate (ext_of A) (urls_of A) c')) (\<lambda>_.
     bindo (resources_unique A r c' (Some i)) (\<lambda>_.
     bindo (persist_config A c' (rg_config_path b) True False) (\<lambda>_.
     closing () (bindo (registry_rename i name) (\<lambda>_. bindo (registry_set_auto_receive i auto_receive) (\<lambda>_. registry_select i))) r))))))))"

definition update_bridge ::
    "'w desktop_api \<Rightarrow> string \<Rightarrow> string \<Rightarrow> string \<Rightarrow> bool \<Rightarrow> bool \<Rightarrow> ('w, string) lifecycle" where
  "update_bridge A i name base_url insecure auto_receive =
     bindo (registry_update (registry_api_of A) (edit_closure A i name base_url insecure auto_receive)) (\<lambda>_. retn i)"

definition bridge_name_for_path :: "string \<Rightarrow> string" where
  "bridge_name_for_path p = (case file_name (path_components p) of Some n \<Rightarrow> n | None \<Rightarrow> ''Root'')"

definition slashed :: "parts \<Rightarrow> string" where
  "slashed ps = slash # join_with slash (List.map (\<lambda>c. case c of Normal n \<Rightarrow> n | _ \<Rightarrow> []) (tl ps))"

text \<open>The desktop's own \<open>absolute_path\<close>, which also takes away the dots.\<close>

definition desktop_absolute_path :: "environment \<Rightarrow> string \<Rightarrow> string res" where
  "desktop_absolute_path e p = andthen (absolute_path (ev_cwd e) p) (\<lambda>q. andthen (normalize_absolute_path q) (\<lambda>ps. Inr (slashed ps)))"

definition import_bootstrap_config :: "'w desktop_api \<Rightarrow> desktop_paths \<Rightarrow> ('w, unit) lifecycle" where
  "import_bootstrap_config A dp =
     (case dp_bootstrap dp of
        None \<Rightarrow> retn ()
      | Some p \<Rightarrow>
          bindo (in_world (bindo (fs_call A) (\<lambda>_. readso (\<lambda>d. Inr (dk_configs d (path_components p)))))) (\<lambda>f.
          if f = NoConfig then retn ()
          else if f = OddConfig then fails (Bail ''Folder configuration is not a regular file'')
          else
            bindo (in_world (load_config_for_read A p)) (\<lambda>c.
            bindo (in_world (readso (\<lambda>d. Inr (da_canon A (dk_files d))))) (\<lambda>canon.
            let candidate = resources_of (urls_of A) canon c; name = bridge_name_for_path (cf_library_dir c) in
            bindo (lifto (desktop_absolute_path (da_environment A) p)) (\<lambda>q.
            registry_update (registry_api_of A) (\<lambda>r.
              case List.find (\<lambda>b. path_components (rg_config_path b) = path_components q) (rs_bridges r) of
                Some b \<Rightarrow> closing () (registry_select (rg_id b)) r
              | None \<Rightarrow>
                  bindo (readso (\<lambda>d. Inr (da_canon A (dk_files d)))) (\<lambda>canon.
                  bindo (ensure_resources_unique (urls_of A) canon (load_config_for_read A) r candidate None) (\<lambda>_.
                  bindo (asking (da_uuid A)) (\<lambda>i.
                  closing () (registry_add \<lparr>rg_kind = General, rg_id = i, rg_name = name, rg_config_path = q,
                    rg_auto_receive = False\<rparr>) r)))))))))"

text \<open>What a confirmed removal does; the failure to delete a receipt is only shown.\<close>

definition remove_closure :: "'w desktop_api \<Rightarrow> string \<Rightarrow> registry \<Rightarrow> ('w, unit \<times> registry) desking" where
  "remove_closure A i r =
     bindo (lifto (find_bridge i r)) (\<lambda>b.
     bindo (load_editable_config A (rg_config_path b)) (\<lambda>c.
     bindo (lifto (ensure (can_remove A c) ''Disconnect this Folder on the server before removing it.'')) (\<lambda>_.
     closing () (registry_remove i) r)))"

definition remove_folder :: "'w desktop_api \<Rightarrow> desktop_paths \<Rightarrow> registration \<Rightarrow> ('w, unit) lifecycle" where
  "remove_folder A dp b =
     bindo (registry_update (registry_api_of A) (remove_closure A (rg_id b))) (\<lambda>_.
     bindo (attempt (in_world (forget_receipt A dp b))) (\<lambda>_. retn ()))"

section \<open>Synchronisation\<close>

text \<open>The two kinds of synchronisation are arguments; they act on the rest of the world.\<close>

definition sync_registered ::
    "'w desktop_api \<Rightarrow> (config \<Rightarrow> string option \<Rightarrow> ('w, 'a) op) \<Rightarrow> (config \<Rightarrow> string option \<Rightarrow> ('w, 'a) op)
       \<Rightarrow> string \<Rightarrow> string \<Rightarrow> string option \<Rightarrow> ('w, 'a) lifecycle" where
  "sync_registered A directory files i p token =
     bindo (in_world (operation_lock A p)) (\<lambda>_.
     bindo (load_registered_config A i p) (\<lambda>c.
     bindo (lifto (config_connected c)) (\<lambda>_.
     in_world (on_net (if cf_directory_sync c then directory c token else files c token)))))"

end
