(* ===== verification/Preview.thy ===== *)
theory Preview
  imports Lifecycle FileList
begin

text \<open>
  The previews of the desktop, \<open>src/desktop/photos.rs\<close> without its widgets: which files have one, the
  reading of image headers before a native decoder sees the image, and the cache. Opening a file
  without following links and the native decoders are arguments.
\<close>

section \<open>Which files have a preview\<close>

definition MAX_BYTES :: nat where "MAX_BYTES = 32 * 1024 * 1024"
definition MAX_PIXELS :: nat where "MAX_PIXELS = 16000000"
definition CACHE_BYTES :: nat where "CACHE_BYTES = 24 * 1024 * 1024"

definition path_extension :: "string \<Rightarrow> string option" where
  "path_extension p =
     (case file_name (path_components p) of
        None \<Rightarrow> None
      | Some name \<Rightarrow> (case rsplit_once (CHR ''.'') name of
            Some (stem, e) \<Rightarrow> if stem = [] then None else Some e
          | None \<Rightarrow> None))"

definition preview_eligible :: "file_entry \<Rightarrow> bool" where
  "preview_eligible e \<longleftrightarrow> entry_complete e
     \<and> (case path_extension (entry_name e) of None \<Rightarrow> False | Some s \<Rightarrow>
          to_ascii_lowercase s \<in> {''jpg'', ''jpeg'', ''png'', ''webp'', ''gif'', ''bmp'', ''heic'', ''heif'', ''avif'', ''tif'', ''tiff''})"

section \<open>Image headers\<close>

datatype image_format = Png | Jpeg

definition be16 :: "bytes \<Rightarrow> nat \<Rightarrow> nat" where
  "be16 bs i = 256 * byte (bs ! i) + byte (bs ! Suc i)"

definition be32 :: "bytes \<Rightarrow> nat \<Rightarrow> nat" where
  "be32 bs i = 65536 * be16 bs i + be16 bs (i + 2)"

definition filler :: "bytes \<Rightarrow> nat \<Rightarrow> nat" where
  "filler bs offset = length (takeWhile (\<lambda>c. byte c = 0xff) (drop offset bs))"

definition standalone :: "nat \<Rightarrow> bool" where
  "standalone marker \<longleftrightarrow> marker = 0x01 \<or> 0xd0 \<le> marker \<and> marker \<le> 0xd7"

definition frame_marker :: "nat \<Rightarrow> bool" where
  "frame_marker marker \<longleftrightarrow> 0xc0 \<le> marker \<and> marker \<le> 0xcf \<and> marker \<notin> {0xc4, 0xc8, 0xcc}"

text \<open>The loop over the segments; \<open>o2\<close> is behind the marker.\<close>

function jpeg_segments :: "bytes \<Rightarrow> nat \<Rightarrow> (nat \<times> nat) res" where
  "jpeg_segments bs offset =
     (if \<not> offset < length bs then Inl (Bail ''Missing JPEG dimensions'')
      else if byte (bs ! offset) \<noteq> 0xff then Inl (Bail ''Invalid JPEG marker'')
      else if \<not> offset + filler bs offset < length bs then Inl (Bail ''Truncated JPEG marker'')
      else
        let marker = byte (bs ! (offset + filler bs offset)); o2 = offset + filler bs offset + 1 in
        if marker = 0xda \<or> marker = 0xd9 then Inl (Bail ''Missing JPEG dimensions'')
        else if standalone marker then jpeg_segments bs o2
        else if length bs < o2 + 2 then Inl (Bail ''Truncated JPEG segment'')
        else
          let len = be16 bs o2 in
          if \<not> (len \<ge> 2 \<and> o2 + len \<le> length bs) then Inl (Bail ''Invalid JPEG segment length'')
          else if frame_marker marker then
            (if len < 8 then Inl (Bail ''Truncated JPEG frame'') else Inr (be16 bs (o2 + 5), be16 bs (o2 + 3)))
          else jpeg_segments bs (o2 + len))"
  by auto

termination
  by (relation "measure (\<lambda>(bs, offset). length bs - offset)") auto

declare jpeg_segments.simps [simp del]

definition dimensions :: "bytes \<Rightarrow> image_format \<Rightarrow> (nat \<times> nat) res" where
  "dimensions bs f =
     (case f of
        Png \<Rightarrow> andthen (ensure (length bs \<ge> 33 \<and> take 4 (drop 12 bs) = ''IHDR'') ''Invalid PNG header'') (\<lambda>_.
            Inr (be32 bs 16, be32 bs 20))
      | Jpeg \<Rightarrow> jpeg_segments bs 2)"

definition image_format_of :: "bytes \<Rightarrow> image_format res" where
  "image_format_of bs =
     (if prefix ([CHR 0x89] @ ''PNG'' @ [CHR 0x0D, CHR 0x0A, CHR 0x1A, CHR 0x0A]) bs then Inr Png
      else if prefix [CHR 0xFF, CHR 0xD8, CHR 0xFF] bs then Inr Jpeg
      else Inl (Bail ''Preview format not supported''))"

section \<open>Decoding\<close>

record preview_source =
  sr_root :: string
  sr_relative :: string
  sr_hash :: string
  sr_size :: nat

record pixels =
  px_bytes :: bytes
  px_width :: int
  px_height :: int
  px_stride :: int
  px_alpha :: bool

type_synonym stamp = "int list"

text \<open>
  An opened file has the length and the stamp of its metadata, and what reading it gives. A native loader
  is given the bytes and the answer to a size it announces; it returns its result and the sizes announced
  while it was written to. The scaling of a length in floating point is \<open>va_scale\<close>.
\<close>

record 'w preview_api =
  va_ext :: externals
  va_open :: "preview_source \<Rightarrow> 'w \<Rightarrow> (nat \<times> stamp \<times> bytes res) res \<times> 'w"
  va_load :: "image_format \<Rightarrow> bytes \<Rightarrow> (int \<Rightarrow> int \<Rightarrow> int \<times> int) \<Rightarrow> pixels res \<times> (int \<times> int) list"
  va_scale :: "int \<Rightarrow> int \<Rightarrow> int \<Rightarrow> int"

definition stamp_of :: "'w preview_api \<Rightarrow> preview_source \<Rightarrow> ('w, stamp) op" where
  "stamp_of A s =
     bindo (va_open A s) (\<lambda>(len, st, b).
     bindo (lifto (ensure (len = sr_size s) ''File changed'')) (\<lambda>_. retn st))"

definition rejected_size :: "int \<Rightarrow> int \<Rightarrow> bool" where
  "rejected_size width height \<longleftrightarrow> width \<le> 0 \<or> height \<le> 0 \<or> width * height > int MAX_PIXELS"

definition prepared_size :: "'w preview_api \<Rightarrow> int \<Rightarrow> int \<Rightarrow> int \<Rightarrow> int \<times> int" where
  "prepared_size A edge width height =
     (if rejected_size width height then (1, 1)
      else (max 1 (va_scale A edge (max width height) width), max 1 (va_scale A edge (max width height) height)))"

definition load_pixels :: "'w preview_api \<Rightarrow> image_format \<Rightarrow> bytes \<Rightarrow> int \<Rightarrow> pixels res" where
  "load_pixels A f b edge =
     (case va_load A f b (prepared_size A edge) of (loaded, told) \<Rightarrow>
      andthen (ensure (\<not> list_ex (\<lambda>(w, h). rejected_size w h) told) ''Preview pixel limit'') (\<lambda>_. loaded))"

definition decode_preview :: "'w preview_api \<Rightarrow> preview_source \<Rightarrow> int \<Rightarrow> ('w, pixels) op" where
  "decode_preview A s edge =
     bindo (lifto (ensure (1 \<le> edge \<and> edge \<le> 1024) ''Invalid preview size'')) (\<lambda>_.
     bindo (lifto (ensure (sr_size s > 0 \<and> sr_size s \<le> MAX_BYTES) ''Preview size limit'')) (\<lambda>_.
     bindo (va_open A s) (\<lambda>(len, st, content).
     bindo (lifto (ensure (len = sr_size s) ''File changed'')) (\<lambda>_.
     bindo (lifto (andthen content (\<lambda>c. Inr (take (MAX_BYTES + 1) c)))) (\<lambda>b.
     bindo (lifto (ensure (length b = sr_size s \<and> sha256_hex (va_ext A) b = sr_hash s) ''File changed'')) (\<lambda>_.
     bindo (lifto (image_format_of b)) (\<lambda>f.
     bindo (lifto (dimensions b f)) (\<lambda>(width, height).
     bindo (lifto (ensure (width > 0 \<and> height > 0 \<and> width * height \<le> MAX_PIXELS) ''Preview pixel limit'')) (\<lambda>_.
     bindo (lifto (load_pixels A f b edge)) (\<lambda>px.
     bindo (lifto (ensure (px_width px \<le> edge \<and> px_height px \<le> edge) ''Decoder exceeded preview size'')) (\<lambda>_.
     retn px)))))))))))"

section \<open>The cache\<close>

record cache_key =
  ck_source :: preview_source
  ck_edge :: int
  ck_stamp :: stamp

record preview_cache =
  ca_entries :: "(cache_key \<times> pixels) list"
  ca_bytes :: nat

text \<open>The loop goes on for ever when nothing is left to take away.\<close>

fun evict :: "(cache_key \<times> pixels) list \<Rightarrow> nat \<Rightarrow> preview_cache option" where
  "evict [] held = (if held > CACHE_BYTES then None else Some \<lparr>ca_entries = [], ca_bytes = held\<rparr>)"
| "evict (e # es) held =
     (if held > CACHE_BYTES then evict es (held - length (px_bytes (snd e)))
      else Some \<lparr>ca_entries = e # es, ca_bytes = held\<rparr>)"

definition preview_load ::
    "'w preview_api \<Rightarrow> preview_source \<Rightarrow> int \<Rightarrow> 'w \<times> preview_cache \<Rightarrow> (pixels res \<times> 'w \<times> preview_cache) option" where
  "preview_load A s edge st =
     (case st of (w, cache) \<Rightarrow>
      case stamp_of A s w of
        (Inl e, w1) \<Rightarrow> Some (Inl e, w1, cache)
      | (Inr stamp, w1) \<Rightarrow>
          let key = \<lparr>ck_source = s, ck_edge = edge, ck_stamp = stamp\<rparr> in
          case position (\<lambda>e. fst e = key) (ca_entries cache) of
            Some index \<Rightarrow>
              let entry = ca_entries cache ! index in
              Some (Inr (snd entry), w1, cache\<lparr>ca_entries := remove_at index (ca_entries cache) @ [entry]\<rparr>)
          | None \<Rightarrow>
              (case bindo (decode_preview A s edge) (\<lambda>px. bindo (stamp_of A s) (\<lambda>now.
                  bindo (lifto (ensure (now = stamp) ''File changed while decoding'')) (\<lambda>_. retn px))) w1 of
                 (Inl e, w2) \<Rightarrow> Some (Inl e, w2, cache)
               | (Inr px, w2) \<Rightarrow>
                   map_option (\<lambda>c. (Inr px, w2, c))
                     (evict (ca_entries cache @ [(key, px)]) (ca_bytes cache + length (px_bytes px)))))"

section \<open>What a preview shows\<close>

definition loaded_within :: "'w preview_api \<Rightarrow> image_format \<Rightarrow> bytes \<Rightarrow> int \<Rightarrow> pixels \<Rightarrow> bool" where
  "loaded_within A f b edge px \<longleftrightarrow> (\<exists>told. va_load A f b (prepared_size A edge) = (Inr px, told)
     \<and> (\<forall>(w, h) \<in> set told. 0 < w \<and> 0 < h \<and> w * h \<le> int MAX_PIXELS))"

definition genuine :: "'w preview_api \<Rightarrow> preview_source \<Rightarrow> int \<Rightarrow> pixels \<Rightarrow> bool" where
  "genuine A s edge px \<longleftrightarrow> (\<exists>b f width height.
     length b = sr_size s \<and> sr_size s \<le> MAX_BYTES \<and> sha256_hex (va_ext A) b = sr_hash s
     \<and> image_format_of b = Inr f \<and> dimensions b f = Inr (width, height) \<and> 0 < width \<and> 0 < height \<and> width * height \<le> MAX_PIXELS
     \<and> loaded_within A f b edge px \<and> px_width px \<le> edge \<and> px_height px \<le> edge)"

lemma load_announced: "load_pixels A f b edge = Inr px \<Longrightarrow> loaded_within A f b edge px"
  by (fastforce simp: loaded_within_def load_pixels_def rejected_size_def ensure_def andthen_def list_ex_iff split: prod.splits if_splits)

lemma decode_genuine: "decode_preview A s edge w = (Inr px, w') \<Longrightarrow> genuine A s edge px"
  unfolding decode_preview_def genuine_def
  by (auto simp: op_ok ensure_def andthen_def min_def split: if_splits sum.splits) (metis load_announced)

abbreviation sizes :: "(cache_key \<times> pixels) list \<Rightarrow> nat" where
  "sizes es \<equiv> sum_list (List.map (\<lambda>e. length (px_bytes (snd e))) es)"

definition cache_ok :: "'w preview_api \<Rightarrow> preview_cache \<Rightarrow> bool" where
  "cache_ok A c \<longleftrightarrow> ca_bytes c = sizes (ca_entries c) \<and> ca_bytes c \<le> CACHE_BYTES \<and> distinct (List.map fst (ca_entries c))
     \<and> (\<forall>(k, px) \<in> set (ca_entries c). genuine A (ck_source k) (ck_edge k) px)"

text \<open>Taking away the oldest entries ends, since nothing is held when no entry is left.\<close>

lemma evict_suffix:
  "held = sizes es \<Longrightarrow> \<exists>n. evict es held = Some \<lparr>ca_entries = drop n es, ca_bytes = sizes (drop n es)\<rparr> \<and> sizes (drop n es) \<le> CACHE_BYTES"
proof (induction es arbitrary: held)
  case (Cons e es)
  show ?case
  proof (cases "held > CACHE_BYTES")
    case True
    from Cons.IH [OF refl] obtain n where "evict es (sizes es) = Some \<lparr>ca_entries = drop n es, ca_bytes = sizes (drop n es)\<rparr>"
      "sizes (drop n es) \<le> CACHE_BYTES" by blast
    with True Cons.prems show ?thesis by (intro exI [of _ "Suc n"]) simp
  next
    case False
    with Cons.prems show ?thesis by (intro exI [of _ 0]) simp
  qed
qed simp

lemma remove_at_split: "n < length xs \<Longrightarrow> mset (remove_at n xs @ [xs ! n]) = mset xs"
  by (subst (3) id_take_nth_drop [of n xs]) (simp_all add: remove_at_def)

lemma position_found: "position P xs = Some n \<Longrightarrow> n < length xs \<and> P (xs ! n)"
proof -
  assume a: "position P xs = Some n"
  then have e: "list_ex P xs" "n = length (takeWhile (\<lambda>x. \<not> P x) xs)" by (auto simp: position_def split: if_splits)
  then have "n < length xs" by (metis length_takeWhile_le le_neq_implies_less list_ex_iff set_takeWhileD takeWhile_eq_all_conv takeWhile_eq_take take_all_iff order_refl)
  with e(2) show ?thesis using nth_length_takeWhile [of "\<lambda>x. \<not> P x" xs] by auto
qed

lemma position_none: "position P xs = None \<longleftrightarrow> (\<forall>x \<in> set xs. \<not> P x)"
  by (simp add: position_def list_ex_iff)

text \<open>
  C18. Loading a preview always ends, and keeps the cache within its limit with every size accounted for;
  what it shows was decoded from bytes with the digest and the size of the source, after their header
  and the loader had promised no more pixels than allowed, also when it comes from the cache.
\<close>

theorem preview_genuine:
  assumes "cache_ok A cache"
  shows "\<exists>r w' cache'. preview_load A s edge (w, cache) = Some (r, w', cache') \<and> cache_ok A cache'
     \<and> (\<forall>px. r = Inr px \<longrightarrow> genuine A s edge px)"
proof -
  obtain o1 w1 where 1: "stamp_of A s w = (o1, w1)" by fastforce
  show ?thesis
  proof (cases o1)
    case (Inl e)
    with 1 assms show ?thesis by (simp add: preview_load_def)
  next
    case (Inr stamp)
    let ?key = "\<lparr>ck_source = s, ck_edge = edge, ck_stamp = stamp\<rparr>"
    show ?thesis
    proof (cases "position (\<lambda>e. fst e = ?key) (ca_entries cache)")
      case (Some n)
      let ?es = "remove_at n (ca_entries cache) @ [ca_entries cache ! n]"
      from position_found [OF Some] have n: "n < length (ca_entries cache)" "fst (ca_entries cache ! n) = ?key" by auto
      from remove_at_split [OF n(1)] have m: "mset ?es = mset (ca_entries cache)" .
      then have "mset (List.map fst ?es) = mset (List.map fst (ca_entries cache))"
        "mset (List.map (\<lambda>e. length (px_bytes (snd e))) ?es) = mset (List.map (\<lambda>e. length (px_bytes (snd e))) (ca_entries cache))"
        by (metis mset_map)+
      then have "distinct (List.map fst ?es) = distinct (List.map fst (ca_entries cache))" "sizes ?es = sizes (ca_entries cache)"
        by (metis mset_eq_imp_distinct_iff, metis sum_mset_sum_list)
      moreover from m have "set ?es = set (ca_entries cache)" by (metis set_mset_mset)
      ultimately have "cache_ok A (cache\<lparr>ca_entries := ?es\<rparr>)" using assms by (simp add: cache_ok_def del: set_append map_append)
      moreover have "genuine A s edge (snd (ca_entries cache ! n))"
        using assms n nth_mem [OF n(1)] by (cases "ca_entries cache ! n") (auto simp: cache_ok_def)
      ultimately show ?thesis using 1 Inr Some by (simp add: preview_load_def Let_def)
    next
      case None
      let ?m = "bindo (decode_preview A s edge) (\<lambda>px. bindo (stamp_of A s) (\<lambda>now.
          bindo (lifto (ensure (now = stamp) ''File changed while decoding'')) (\<lambda>_. retn px)))"
      obtain o2 w2 where 2: "?m w1 = (o2, w2)" by fastforce
      show ?thesis
      proof (cases o2)
        case (Inl e)
        with 1 2 Inr None assms show ?thesis by (simp add: preview_load_def Let_def \<open>o1 = Inr stamp\<close>)
      next
        case o2: (Inr px)
        from 2 o2 have g: "genuine A s edge px" by (auto simp: op_ok dest: decode_genuine)
        let ?es = "ca_entries cache @ [(?key, px)]"
        from assms have "ca_bytes cache + length (px_bytes px) = sizes ?es" by (simp add: cache_ok_def)
        from evict_suffix [OF this] obtain k where k: "evict ?es (ca_bytes cache + length (px_bytes px))
            = Some \<lparr>ca_entries = drop k ?es, ca_bytes = sizes (drop k ?es)\<rparr>" "sizes (drop k ?es) \<le> CACHE_BYTES" by blast
        have "distinct (List.map fst ?es)" using assms None unfolding position_none by (auto simp: cache_ok_def)
        then have "distinct (List.map fst (drop k ?es))" by (metis distinct_drop drop_map)
        moreover have "\<forall>(k, px) \<in> set ?es. genuine A (ck_source k) (ck_edge k) px"
          using assms g by (auto simp: cache_ok_def)
        then have "\<forall>(k, px) \<in> set (drop k ?es). genuine A (ck_source k) (ck_edge k) px" using in_set_dropD by fast
        ultimately have "cache_ok A \<lparr>ca_entries = drop k ?es, ca_bytes = sizes (drop k ?es)\<rparr>" using k(2) by (simp add: cache_ok_def)
        with 1 2 Inr None o2 g k(1) show ?thesis by (simp add: preview_load_def Let_def)
      qed
    qed
  qed
qed

text \<open>A picture of two by three pixels, for an opening that always finds it.\<close>

definition big16 :: "nat \<Rightarrow> bytes" where
  "big16 n = [char_of (n div 256), char_of (n mod 256)]"

definition sample_picture :: bytes where
  "sample_picture = [CHR 0x89, CHR 0x50, CHR 0x4E, CHR 0x47, CHR 0x0D, CHR 0x0A, CHR 0x1A, CHR 0x0A, CHR 0x00, CHR 0x00, CHR 0x00, CHR 0x0D,
     CHR 0x49, CHR 0x48, CHR 0x44, CHR 0x52, CHR 0x00, CHR 0x00, CHR 0x00, CHR 0x02, CHR 0x00, CHR 0x00, CHR 0x00, CHR 0x03,
     CHR 0x08, CHR 0x06, CHR 0x00, CHR 0x00, CHR 0x00, CHR 0x01, CHR 0x01, CHR 0x01, CHR 0x01]"

definition sample_source :: preview_source where
  "sample_source = \<lparr>sr_root = ''/photos'', sr_relative = ''a.png'', sr_hash = sample_picture, sr_size = 33\<rparr>"

definition sample_pixels :: pixels where
  "sample_pixels = \<lparr>px_bytes = replicate 24 (CHR 0x07), px_width = 2, px_height = 3, px_stride = 8, px_alpha = True\<rparr>"

definition sample_previews :: "unit preview_api" where
  "sample_previews = \<lparr>va_ext = \<lparr>sha256 = (\<lambda>b. b), hex_encode = (\<lambda>b. b), uuid_parse = Some\<rparr>,
     va_open = (\<lambda>s w. (Inr (33, [1, 2, 3, 4, 5, 6], Inr sample_picture), w)), va_load = (\<lambda>f b answer. (Inr sample_pixels, [(2, 3)])),
     va_scale = (\<lambda>edge longest x. min x (x * edge div longest))\<rparr>"

lemma sample_header:
  "length sample_picture = 33" "image_format_of sample_picture = Inr Png" "dimensions sample_picture Png = Inr (2, 3)"
  by (simp_all add: sample_picture_def image_format_of_def dimensions_def be32_def be16_def andthen_def ensure_def)

lemma sample_decode: "decode_preview sample_previews sample_source 64 () = (Inr sample_pixels, ())"
  by (simp add: decode_preview_def sample_previews_def sample_source_def sample_header sample_pixels_def sha256_hex_def MAX_BYTES_def
    MAX_PIXELS_def andthen_def load_pixels_def rejected_size_def bindo_def lifto_def retn_def ensure_def Let_def)

lemma sample_load:
  "\<exists>c. preview_load sample_previews sample_source 64 ((), \<lparr>ca_entries = [], ca_bytes = 0\<rparr>) = Some (Inr sample_pixels, (), c)"
proof -
  have "stamp_of sample_previews sample_source () = (Inr [1, 2, 3, 4, 5, 6], ())"
    by (simp add: stamp_of_def sample_previews_def sample_source_def bindo_def lifto_def retn_def ensure_def)
  moreover have "length (px_bytes sample_pixels) \<le> CACHE_BYTES" by (simp add: sample_pixels_def CACHE_BYTES_def)
  ultimately show ?thesis using sample_decode
    by (simp add: preview_load_def position_def bindo_def lifto_def retn_def ensure_def)
qed

theorem preview_genuine_witness:
  "genuine sample_previews sample_source 64 sample_pixels"
proof -
  have "cache_ok sample_previews \<lparr>ca_entries = [], ca_bytes = 0\<rparr>" by (simp add: cache_ok_def)
  from preview_genuine [OF this, of sample_source 64 "()"] sample_load show ?thesis by auto
qed

section \<open>Images with the segments of JPEG\<close>

text \<open>A part has fill bytes before its marker. A segment announces its length, itself included.\<close>

datatype jpeg_part = Alone nat nat | Segment nat nat bytes

definition marked :: "nat \<Rightarrow> nat \<Rightarrow> bytes" where
  "marked fill marker = replicate (Suc fill) (CHR 0xFF) @ [char_of marker]"

fun part_bytes :: "jpeg_part \<Rightarrow> bytes" where
  "part_bytes (Alone fill marker) = marked fill marker"
| "part_bytes (Segment fill marker payload) = marked fill marker @ big16 (length payload + 2) @ payload"

fun plain_part :: "jpeg_part \<Rightarrow> bool" where
  "plain_part (Alone fill marker) \<longleftrightarrow> standalone marker"
| "plain_part (Segment fill marker payload) \<longleftrightarrow> marker < 255 \<and> \<not> standalone marker \<and> \<not> frame_marker marker
     \<and> marker \<noteq> 0xda \<and> marker \<noteq> 0xd9 \<and> length payload + 2 < 65536"

definition frame_part :: "nat \<Rightarrow> nat \<Rightarrow> char \<Rightarrow> nat \<Rightarrow> nat \<Rightarrow> bytes \<Rightarrow> jpeg_part" where
  "frame_part fill marker precision width height components =
     Segment fill marker (precision # big16 height @ big16 width @ components)"

lemma byte_char [simp]: "n < 256 \<Longrightarrow> byte (char_of n) = n"
  by simp

lemma be16_at: "n < 65536 \<Longrightarrow> be16 (a @ big16 n @ b) (length a) = n"
  by (simp add: be16_def big16_def nth_append)

lemma be16_in: "n < 65536 \<Longrightarrow> bs = a @ big16 n @ b \<Longrightarrow> i = length a \<Longrightarrow> be16 bs i = n"
  by (simp only: be16_at)

lemma marker_at:
  assumes "marker < 255"
  shows "filler (a @ marked fill marker @ b) (length a) = Suc fill"
    and "(a @ marked fill marker @ b) ! (length a + Suc fill) = char_of marker"
    and "byte ((a @ marked fill marker @ b) ! length a) = 0xff"
proof -
  have "takeWhile (\<lambda>c. byte c = 0xff) (replicate n (CHR 0xFF) @ char_of marker # b) = replicate n (CHR 0xFF)" for n
    using assms by (induction n) simp_all
  from this [of "Suc fill"] show "filler (a @ marked fill marker @ b) (length a) = Suc fill"
    by (simp add: filler_def marked_def del: replicate_Suc)
  show "(a @ marked fill marker @ b) ! (length a + Suc fill) = char_of marker"
    by (simp add: nth_append marked_def del: replicate_Suc)
  show "byte ((a @ marked fill marker @ b) ! length a) = 0xff"
    by (simp add: nth_append marked_def)
qed

lemma scan_alone:
  assumes "standalone marker"
  shows "jpeg_segments (a @ part_bytes (Alone fill marker) @ b) (length a)
     = jpeg_segments (a @ part_bytes (Alone fill marker) @ b) (length (a @ part_bytes (Alone fill marker)))"
proof -
  from assms have m: "marker < 255" "marker \<noteq> 0xda" "marker \<noteq> 0xd9" by (auto simp: standalone_def)
  show ?thesis
    using assms m marker_at [OF m(1), of a fill b]
    by (subst jpeg_segments.simps) (simp add: Let_def marked_def)
qed

lemma scan_segment:
  assumes "plain_part (Segment fill marker payload)"
  shows "jpeg_segments (a @ part_bytes (Segment fill marker payload) @ b) (length a)
     = jpeg_segments (a @ part_bytes (Segment fill marker payload) @ b) (length (a @ part_bytes (Segment fill marker payload)))"
proof -
  let ?n = "length payload + 2"
  from assms have m: "marker < 255" "\<not> standalone marker" "\<not> frame_marker marker" "marker \<noteq> 0xda" "marker \<noteq> 0xd9" "?n < 65536" by auto
  have l: "be16 (a @ marked fill marker @ big16 ?n @ payload @ b) (Suc (length a + Suc fill)) = ?n"
    using be16_at [OF m(6), of "a @ marked fill marker" "payload @ b"] by (simp add: marked_def del: replicate_Suc)
  show ?thesis
    using m marker_at [OF m(1), of a fill "big16 ?n @ payload @ b"] l
    by (subst jpeg_segments.simps) (simp add: Let_def marked_def big16_def add.assoc del: replicate_Suc)
qed

lemma scan_frame:
  assumes "frame_marker marker" and "width < 65536" and "height < 65536" and "components \<noteq> []" and "length components + 7 < 65536"
  shows "jpeg_segments (a @ part_bytes (frame_part fill marker precision width height components) @ b) (length a) = Inr (width, height)"
proof -
  let ?n = "length components + 7"
  let ?w = "big16 ?n @ precision # big16 height @ big16 width @ components @ b"
  have m: "marker < 255" "\<not> standalone marker" "marker \<noteq> 0xda" "marker \<noteq> 0xd9"
    using assms(1) by (auto simp: frame_marker_def standalone_def)
  let ?h = "a @ marked fill marker"
  have e: "a @ part_bytes (frame_part fill marker precision width height components) @ b = a @ marked fill marker @ ?w"
    by (simp add: frame_part_def big16_def add.commute)
  have "be16 (a @ marked fill marker @ ?w) (length ?h) = ?n"
    using be16_at [OF assms(5), of ?h "precision # big16 height @ big16 width @ components @ b"] by simp
  moreover have "be16 (a @ marked fill marker @ ?w) (length ?h + 3) = height"
    by (rule be16_in [OF assms(3), of _ "?h @ big16 ?n @ [precision]" "big16 width @ components @ b"]) (simp_all add: big16_def)
  moreover have "be16 (a @ marked fill marker @ ?w) (length ?h + 5) = width"
    by (rule be16_in [OF assms(2), of _ "?h @ big16 ?n @ [precision] @ big16 height" "components @ b"]) (simp_all add: big16_def)
  moreover have "length ?h = length a + Suc fill + 1" by (simp add: marked_def)
  ultimately have "be16 (a @ marked fill marker @ ?w) (length a + Suc fill + 1) = ?n"
    "be16 (a @ marked fill marker @ ?w) (length a + Suc fill + 1 + 3) = height"
    "be16 (a @ marked fill marker @ ?w) (length a + Suc fill + 1 + 5) = width" by simp_all
  moreover have "length (a @ marked fill marker @ ?w) = length a + Suc fill + 1 + ?n + length b" by (simp add: marked_def big16_def)
  moreover have "1 \<le> length components" using assms(4) by (cases components) simp_all
  moreover note marker_at [OF m(1), of a fill ?w]
  ultimately show ?thesis
    unfolding e using m assms(1,4)
    by (subst jpeg_segments.simps) (simp only: Let_def byte_char [of marker] if_True if_False refl not_False_eq_True not_True_eq_False; simp)
qed

text \<open>
  C19. The dimensions of every image that is made of JPEG segments are found, whatever comes before its frame
  header: any number of other segments, with any fill bytes between them, and any bytes after it.
\<close>

theorem jpeg_dimensions:
  assumes "list_all plain_part parts" and "length start = 2"
    and "frame_marker marker" and "width < 65536" and "height < 65536" and "components \<noteq> []" and "length components + 7 < 65536"
  shows "dimensions (start @ concat (List.map part_bytes parts) @ part_bytes (frame_part fill marker precision width height components) @ rest) Jpeg
     = Inr (width, height)"
proof -
  have "jpeg_segments (a @ concat (List.map part_bytes parts) @ part_bytes (frame_part fill marker precision width height components) @ rest) (length a)
      = Inr (width, height)" for a
    using assms(1)
  proof (induction parts arbitrary: a)
    case Nil
    show ?case using scan_frame [OF assms(3-7), of a fill precision rest] by simp
  next
    case (Cons p parts)
    let ?b = "concat (List.map part_bytes parts) @ part_bytes (frame_part fill marker precision width height components) @ rest"
    have "jpeg_segments (a @ part_bytes p @ ?b) (length a) = jpeg_segments (a @ part_bytes p @ ?b) (length (a @ part_bytes p))"
      using Cons.prems scan_alone scan_segment by (cases p) auto
    also have "\<dots> = Inr (width, height)" using Cons.IH [of "a @ part_bytes p"] Cons.prems by simp
    finally show ?case by simp
  qed
  from this [of start] assms(2) show ?thesis by (simp add: dimensions_def)
qed

theorem jpeg_dimensions_witness:
  "dimensions ([CHR 0xFF, CHR 0xD8] @ concat (List.map part_bytes [Segment 0 0xe0 ''JFIF'', Alone 2 0x01])
     @ part_bytes (frame_part 1 0xc2 (CHR 0x08) 640 480 ''abc'') @ ''rest'') Jpeg = Inr (640, 480)"
  by (rule jpeg_dimensions) (simp_all add: standalone_def frame_marker_def)

end
