(* ===== verification/LifecycleSafe.thy ===== *)
theory LifecycleSafe
  imports Lifecycle
begin

text \<open>
  What the life of a Folder guarantees: every operation takes its configuration along an abstract
  state machine, a state is reached only with the server's confirmation, no request is sent before the
  Folder is stopped on disk, and the cleanup touches only what the application owns.
\<close>

section \<open>The state machine\<close>

datatype life = NoFolder | Foreign | Stage connection_state

fun life_of :: "config_file \<Rightarrow> life" where
  "life_of NoConfig = NoFolder"
| "life_of OddConfig = Foreign"
| "life_of (LinkedConfig c) = Foreign"
| "life_of (PlainConfig c) = Stage (cf_connection_state c)"

inductive progress :: "life \<Rightarrow> life \<Rightarrow> bool" where
  stopping: "progress (Stage Connected) (Stage DisconnectPending)"
| stopped: "progress (Stage DisconnectPending) (Stage Disconnected)"
| leaving: "c \<in> {Connected, DisconnectPending} \<Longrightarrow> progress (Stage c) (Stage ExitPending)"
| cleaned: "progress (Stage ExitPending) (Stage ExitLocalCleaned)"
| exited: "progress (Stage ExitLocalCleaned) (Stage Exited)"

inductive_cases progressE: "progress (Stage c) l"
inductive_simps progress_Connected: "progress l (Stage Connected)"

text \<open>A Folder's whole life adds its creation and the end, when the receipt is forgotten.\<close>

definition life_event :: "life \<Rightarrow> life \<Rightarrow> bool" where
  "life_event a b \<longleftrightarrow> progress\<^sup>*\<^sup>* a b \<or> a = NoFolder \<and> b = Stage Connected \<or> a = Stage Exited \<and> b = NoFolder"

section \<open>Predicates on the configurations\<close>

abbreviation cfg :: "((parts \<Rightarrow> config_file) \<Rightarrow> bool) \<Rightarrow> 'w desk \<Rightarrow> bool" where
  "cfg C d \<equiv> C (dk_configs d)"

abbreviation leaves :: "('w desk, 'a) op \<Rightarrow> bool" where
  "leaves m \<equiv> moves (\<lambda>d d'. dk_configs d' = dk_configs d) m"

lemma leaves_hoare: "leaves m \<Longrightarrow> (\<And>f. C f \<Longrightarrow> E f) \<Longrightarrow> hoare (cfg C) m (\<lambda>_. cfg C) (cfg E)"
  by (rule hoare_moves) (auto simp: stable_def)

lemma leaves_bindo [pres_intros]: "leaves m \<Longrightarrow> (\<And>x. leaves (f x)) \<Longrightarrow> leaves (bindo m f)"
  by (rule moves_bindo) auto

lemma leaves_atoms [simp]:
  "leaves (retn x)" "leaves (fails e)" "leaves (lifto r)" "leaves (readso g)"
  "leaves (asking h)" "leaves (on_net m)" "leaves (modifyo (put_file p b))"
  "leaves (modifyo (\<lambda>d. d\<lparr>dk_files := k d\<rparr>))"
  by (auto simp: moves_def op_defs asking_def asked_def on_net_def put_file_def split: prod.split)

lemma leaves_modify: "(\<And>d. dk_configs (g d) = dk_configs d) \<Longrightarrow> leaves (modifyo g)"
  by (auto simp: moves_def op_defs)

lemma leaves_if [pres_intros]: "leaves m \<Longrightarrow> leaves n \<Longrightarrow> leaves (if c then m else n)"
  by simp

lemma leaves_cases [pres_intros]:
  "leaves m \<Longrightarrow> (\<And>x. leaves (f x)) \<Longrightarrow> leaves (case y of None \<Rightarrow> m | Some x \<Rightarrow> f x)"
  by (simp split: option.split)

lemma leaves_for_each [pres_intros]: "(\<And>x. leaves (f x)) \<Longrightarrow> leaves (for_each f xs)"
  by (induction xs) (auto intro!: leaves_bindo)

lemma leaves_fs_call [simp]: "leaves (fs_call A)"
  unfolding fs_call_def by (intro leaves_bindo) simp_all

lemma leaves_parse [simp]: "leaves (config_parse A c)"
  unfolding config_parse_def by (intro leaves_bindo) simp_all

lemma leaves_load [simp]: "leaves (load_editable_config A p)" "leaves (load_config_for_read A p)"
  unfolding load_editable_config_def load_config_for_read_def
  by (intro leaves_bindo; simp split: config_file.split)+

lemma leaves_files [simp]:
  "leaves (create_dir A q)" "leaves (create_dir_all A q)" "leaves (create_parent A p)"
  "leaves (lock_exclusive A p)" "leaves (operation_lock A p)" "leaves (write_state_file A p b)" "leaves (drop_file A q)"
  "leaves (canonicalize A p)"
proof -
  show d: "leaves (create_dir A q)" for q
    unfolding create_dir_def by (intro leaves_bindo leaves_modify) simp_all
  then show a: "leaves (create_dir_all A q)" for q
    unfolding create_dir_all_def by (intro leaves_for_each)
  show c: "leaves (create_parent A p)" for p by (simp add: create_parent_def a)
  show l: "leaves (lock_exclusive A p)" for p
    unfolding lock_exclusive_def
    by (intro leaves_bindo c) (simp_all split: option.split local_kind.split)
  show "leaves (operation_lock A p)" by (simp add: operation_lock_def l)
  show "leaves (write_state_file A p b)"
    unfolding write_state_file_def by (intro leaves_bindo c) (auto split: write_outcome.split intro!: leaves_bindo)
  show "leaves (drop_file A q)" "leaves (canonicalize A p)"
    unfolding drop_file_def canonicalize_def by (intro leaves_bindo; simp)+
qed

lemma leaves_unique [simp]: "leaves (ensure_resources_unique U canon (load_config_for_read A) r x e)" "leaves (resources_unique A r c e)"
proof -
  have u: "leaves (ensure_resources_unique U canon (load_config_for_read A) r x e)" for U canon x
    unfolding ensure_resources_unique_def by (simp split: option.split) (intro impI leaves_for_each leaves_bindo; simp split: option.split)
  then show "leaves (ensure_resources_unique U canon (load_config_for_read A) r x e)" .
  show "leaves (resources_unique A r c e)"
    unfolding resources_unique_def by (intro leaves_bindo u) simp
qed

lemma leaves_tree [simp]: "leaves (remove_owned_tree n A q)"
proof (induction n arbitrary: q)
  case (Suc n)
  then show ?case
    by (auto split: option.split local_kind.split intro!: leaves_bindo leaves_for_each)
qed simp

lemma leaves_clean [simp]: "leaves (clean_local A dp i p c)"
  unfolding clean_local_def Let_def by (intro leaves_bindo leaves_cases) simp_all

lemma leaves_ensure_directories [simp]: "leaves (ensure_directories A c)"
  unfolding ensure_directories_def
  by (intro leaves_bindo leaves_if; simp split: server_config.split)

lemma leaves_closing [simp]: "leaves (closing x g r)"
  by (simp add: closing_def split: prod.split sum.split)

section \<open>Rules\<close>

lemma hoare_load_editable:
  "(\<And>f. C f \<Longrightarrow> E f) \<Longrightarrow> hoare (cfg C) (load_editable_config A p)
     (\<lambda>c. cfg (\<lambda>f. C f \<and> f (path_components p) = PlainConfig c)) (cfg E)"
  unfolding load_editable_config_def config_parse_def
  by (rule hoareI) (auto simp: op_ok bindo_err fs_call_def asking_def asked_def op_defs ensure_def
    split: prod.splits config_file.splits if_splits)

lemma hoare_load_read:
  "(\<And>f. C f \<Longrightarrow> E f) \<Longrightarrow> hoare (cfg C) (load_config_for_read A p)
     (\<lambda>c. cfg (\<lambda>f. C f \<and> f (path_components p) \<in> {PlainConfig c, LinkedConfig c})) (cfg E)"
  unfolding load_config_for_read_def config_parse_def
  by (rule hoareI) (auto simp: op_ok bindo_err fs_call_def asking_def asked_def op_defs ensure_def
    split: prod.splits config_file.splits if_splits)

lemma hoare_config_save:
  assumes "\<And>f. C f \<Longrightarrow> force \<or> f (path_components p) = NoConfig \<Longrightarrow> Q (f(path_components p := PlainConfig c))"
    and "\<And>f. C f \<Longrightarrow> E f" and "\<And>f. Q f \<Longrightarrow> E f"
  shows "hoare (cfg C) (config_save A c p force) (\<lambda>_. cfg Q) (cfg E)"
  unfolding config_save_def
  by (rule hoareI) (use assms in \<open>auto simp: op_ok bindo_err asking_def asked_def op_defs ensure_def set_config_def
    split: prod.splits write_outcome.splits if_splits\<close>)

lemma hoare_closing: "(\<And>f. C f \<Longrightarrow> E f) \<Longrightarrow> hoare (cfg C) (closing x g r) (\<lambda>y. cfg (\<lambda>f. C f \<and> fst y = x)) (cfg E)"
  by (rule hoareI) (auto simp: closing_def op_defs split: prod.splits sum.splits)

abbreviation scfg :: "((parts \<Rightarrow> config_file) \<Rightarrow> bool) \<Rightarrow> 'w desk registry_store \<Rightarrow> bool" where
  "scfg C s \<equiv> C (dk_configs (rf_world s))"

abbreviation sleaves :: "('w desk, 'a) storing \<Rightarrow> bool" where
  "sleaves m \<equiv> moves (\<lambda>s t. dk_configs (rf_world t) = dk_configs (rf_world s)) m"

lemma sleaves_hoare: "sleaves m \<Longrightarrow> (\<And>f. C f \<Longrightarrow> E f) \<Longrightarrow> hoare (scfg C) m (\<lambda>_. scfg C) (scfg E)"
  by (rule hoare_moves) (auto simp: stable_def)

lemma sleaves_bindo [pres_intros]: "sleaves m \<Longrightarrow> (\<And>x. sleaves (f x)) \<Longrightarrow> sleaves (bindo m f)"
  by (rule moves_bindo) auto

lemma sleaves_atoms [simp]:
  "sleaves (retn x)" "sleaves (fails e)" "sleaves (lifto r)" "sleaves (readso g)"
  by (auto simp: moves_def op_defs)

lemma sleaves_attempt: "sleaves m \<Longrightarrow> sleaves (attempt m)"
  by (auto simp: moves_def attempt_def split: prod.split) (metis snd_conv)

lemma sleaves_in_world [simp]: "leaves m \<Longrightarrow> sleaves (in_world m)"
  by (auto simp: moves_def in_world_def split: prod.split) (metis snd_conv)

lemma sleaves_access [simp]: "sleaves (store_access (registry_api_of A))"
  unfolding store_access_def
  by (intro sleaves_bindo) (simp_all add: moves_def with_world_def registry_api_of_def asked_def op_defs split: prod.split)

lemma sleaves_load [simp]: "sleaves (registry_load (registry_api_of A))" "sleaves (registry_load_unlocked (registry_api_of A))"
proof -
  show u: "sleaves (registry_load_unlocked (registry_api_of A))"
    unfolding registry_load_unlocked_def by (intro sleaves_bindo) (auto split: document.split intro!: sleaves_bindo)
  show "sleaves (registry_load (registry_api_of A))"
    unfolding registry_load_def by (intro sleaves_bindo u) simp
qed

lemma sleaves_save [simp]: "sleaves (registry_save_unlocked (registry_api_of A) r)"
proof -
  have w: "sleaves (with_world (sf_write (registry_api_of A)))"
    by (simp add: moves_def with_world_def registry_api_of_def asked_def split: prod.split)
  have m: "sleaves (modifyo (\<lambda>s. s\<lparr>rf_file := d\<rparr>))" for d by (simp add: moves_def op_defs)
  show ?thesis
    unfolding registry_save_unlocked_def
    by (intro sleaves_bindo w) (auto split: write_outcome.split intro!: sleaves_bindo m)
qed

lemma hoare_in_world:
  "hoare (cfg C) m (\<lambda>x. cfg (Q x)) (cfg E) \<Longrightarrow> hoare (scfg C) (in_world m) (\<lambda>x. scfg (Q x)) (scfg E)"
  by (rule hoareI) (auto simp: in_world_def hoare_def split: prod.splits)

text \<open>The closure of an update decides what becomes of the configurations.\<close>

lemma hoare_update:
  fixes f :: "registry \<Rightarrow> ('w desk, 'x \<times> registry) op"
  assumes "\<And>r. hoare (cfg C) (f r) (\<lambda>y. cfg (Q (fst y))) (cfg E)"
    and "\<And>g. C g \<Longrightarrow> E g" and "\<And>x g. Q x g \<Longrightarrow> E g"
  shows "hoare (scfg C) (registry_update (registry_api_of A) f) (\<lambda>x. scfg (Q x)) (scfg E)"
  unfolding registry_update_def
proof (rule hoare_bindo [OF sleaves_hoare hoare_bindo [OF sleaves_hoare hoare_bindo [OF hoare_in_world [OF assms(1)]]]])
  fix y :: "'x \<times> registry"
  obtain x r where y: "y = (x, r)" by fastforce
  have "hoare (scfg (Q x)) (bindo (lifto (validate_registry r)) (\<lambda>_. bindo (registry_save_unlocked (registry_api_of A) r) (\<lambda>_. retn x)))
      (\<lambda>z s. scfg (Q z) s) (scfg E)"
    by (rule hoare_bindo [OF sleaves_hoare hoare_bindo [OF sleaves_hoare hoare_retn]])
      (use assms(3) in auto)
  then show "hoare (scfg (Q (fst y))) (case y of (x, r') \<Rightarrow> bindo (lifto (validate_registry r'))
      (\<lambda>_. bindo (registry_save_unlocked (registry_api_of A) r') (\<lambda>_. retn x))) (\<lambda>x. scfg (Q x)) (scfg E)"
    by (simp add: y)
qed (use assms(2) in auto)

section \<open>Operations on a Folder\<close>

text \<open>What the server must have said before a Folder enters a state.\<close>

definition confirmed :: "'w desktop_api \<Rightarrow> config \<Rightarrow> bool" where
  "confirmed A c \<longleftrightarrow> cf_connection_state c \<in> {Disconnected, ExitLocalCleaned, Exited} \<longrightarrow>
     (\<exists>h token P w w'. cf_server c = HttpServer h
        \<and> PairingClient_new (urls_of A) (hs_base_url h) token (hs_allow_insecure_http h) = Inr P
        \<and> (cf_connection_state c = Disconnected \<longrightarrow> (\<exists>got. client_disconnect (da_out A) (da_json A) P w = (Inr got, w')))
        \<and> (cf_connection_state c = ExitLocalCleaned \<longrightarrow>
             (\<exists>st. client_clean_exit (da_out A) (da_json A) P w = (Inr st, w') \<and> fx_role st = ''receiver''))
        \<and> (cf_connection_state c = Exited \<longrightarrow>
             (\<exists>st. client_acknowledge_exit (da_out A) (da_json A) P w = (Inr st, w') \<and> exit_complete st)))"

text \<open>Along the state machine, with the confirmations.\<close>

definition moved :: "'w desktop_api \<Rightarrow> (parts \<Rightarrow> config_file) \<Rightarrow> (parts \<Rightarrow> config_file) \<Rightarrow> bool" where
  "moved A f0 f \<longleftrightarrow> (\<forall>q. progress\<^sup>*\<^sup>* (life_of (f0 q)) (life_of (f q))
     \<and> (\<forall>c. f q = PlainConfig c \<longrightarrow> life_of (f0 q) = Stage (cf_connection_state c) \<or> confirmed A c))"

lemma moved_refl: "moved A f f"
  by (auto simp: moved_def)

lemma confirmed_cong:
  "cf_connection_state c' = cf_connection_state c \<Longrightarrow> cf_server c' = cf_server c \<Longrightarrow> confirmed A c' = confirmed A c"
  for c c' :: config
  by (simp add: confirmed_def)

lemma moved_save:
  assumes "moved A f0 f" and "f p = PlainConfig c" and "progress\<^sup>*\<^sup>* (Stage (cf_connection_state c)) (Stage (cf_connection_state c'))"
    and "confirmed A c' \<or> cf_connection_state c' = cf_connection_state c \<and> cf_server c' = cf_server c"
  shows "moved A f0 (f(p := PlainConfig c'))"
proof -
  from assms(1,2) have m: "progress\<^sup>*\<^sup>* (life_of (f0 p)) (Stage (cf_connection_state c))"
    "life_of (f0 p) = Stage (cf_connection_state c) \<or> confirmed A c" unfolding moved_def by (metis life_of.simps(4))+
  then have "progress\<^sup>*\<^sup>* (life_of (f0 p)) (Stage (cf_connection_state c'))" using assms(3) by (meson rtranclp_trans)
  moreover have "life_of (f0 p) = Stage (cf_connection_state c') \<or> confirmed A c'"
    using m(2) assms(4) confirmed_cong [of c' c A] by auto
  ultimately show ?thesis using assms(1) by (simp add: moved_def)
qed

lemma progress_steps:
  "progress\<^sup>*\<^sup>* (Stage Connected) (Stage DisconnectPending)" "progress\<^sup>*\<^sup>* (Stage DisconnectPending) (Stage Disconnected)"
  "progress\<^sup>*\<^sup>* (Stage Connected) (Stage ExitPending)" "progress\<^sup>*\<^sup>* (Stage DisconnectPending) (Stage ExitPending)"
  "progress\<^sup>*\<^sup>* (Stage ExitPending) (Stage ExitLocalCleaned)" "progress\<^sup>*\<^sup>* (Stage ExitLocalCleaned) (Stage Exited)"
  by (auto intro!: r_into_rtranclp progress.intros)

definition at_stage_of :: "'w desktop_api \<Rightarrow> (parts \<Rightarrow> config_file) \<Rightarrow> connection_state set \<Rightarrow> string \<times> config \<Rightarrow> (parts \<Rightarrow> config_file) \<Rightarrow> bool" where
  "at_stage_of A f0 S x f \<longleftrightarrow> moved A f0 f \<and> f (path_components (fst x)) = PlainConfig (snd x) \<and> cf_connection_state (snd x) \<in> S"

lemma at_stage_moved: "at_stage_of A f0 S x f \<Longrightarrow> moved A f0 f"
  by (simp add: at_stage_of_def)

lemma at_stage_save:
  assumes "moved A f0 f" and "f (path_components p) = PlainConfig c"
    and "progress\<^sup>*\<^sup>* (Stage (cf_connection_state c)) (Stage (cf_connection_state c'))"
    and "confirmed A c' \<or> cf_connection_state c' = cf_connection_state c \<and> cf_server c' = cf_server c"
    and "cf_connection_state c' \<in> S"
  shows "at_stage_of A f0 S (p, c') (f(path_components p := PlainConfig c'))"
  unfolding at_stage_of_def using moved_save [OF assms(1-4)] assms(5) by simp

lemma hoare_stop_closure:
  "hoare (cfg (moved A f0)) (stop_closure A i r)
     (\<lambda>y. cfg (at_stage_of A f0 {DisconnectPending, Disconnected} (fst y))) (cfg (moved A f0))"
  unfolding stop_closure_def Let_def
proof (rule hoare_bindo [OF leaves_hoare hoare_bindo [OF hoare_load_editable hoare_bindo [OF hoare_lifto hoare_bindo [OF hoare_lifto hoare_bindo]]]])
  fix b u v
  fix c :: config
  let ?p = "rg_config_path b"
  let ?c = "if cf_connection_state c \<noteq> Disconnected then c\<lparr>cf_connection_state := DisconnectPending\<rparr> else c"
  let ?P = "\<lambda>d. ((moved A f0 (dk_configs d) \<and> dk_configs d (path_components ?p) = PlainConfig c)
      \<and> ensure (cf_connection_state c \<notin> {ExitPending, ExitLocalCleaned, Exited}) ''Use Clean exit to preserve cleanup receipts.'' = Inr u)
      \<and> ensure (scoped A c) ''Legacy credentials can only be removed locally.'' = Inr v"
  let ?Q = "at_stage_of A f0 {DisconnectPending, Disconnected} (?p, ?c)"
  have p: "progress\<^sup>*\<^sup>* (Stage (cf_connection_state c)) (Stage DisconnectPending)"
    if "cf_connection_state c \<notin> {ExitPending, ExitLocalCleaned, Exited}" "cf_connection_state c \<noteq> Disconnected"
    using that progress_steps(1) by (cases "cf_connection_state c") auto
  show "hoare ?P (if cf_connection_state c \<noteq> Disconnected then config_save A ?c ?p True else retn ())
      (\<lambda>_. cfg ?Q) (cfg (moved A f0))"
  proof (cases "cf_connection_state c = Disconnected")
    case True
    then show ?thesis by (auto intro!: hoare_retn simp: at_stage_of_def)
  next
    case False
    have "hoare (cfg (\<lambda>f. (moved A f0 f \<and> f (path_components ?p) = PlainConfig c) \<and> cf_connection_state c \<notin> {ExitPending, ExitLocalCleaned, Exited}))
        (config_save A ?c ?p True) (\<lambda>_. cfg ?Q) (cfg (moved A f0))"
      by (rule hoare_config_save)
        (use False p in \<open>auto simp: confirmed_def simp del: fun_upd_apply intro!: at_stage_save dest: at_stage_moved\<close>)
    with False show ?thesis by (auto elim!: hoare_strengthen)
  qed
  fix w
  show "hoare (cfg ?Q) (closing (?p, ?c) (registry_set_auto_receive i False) r) (\<lambda>y. cfg (at_stage_of A f0 {DisconnectPending, Disconnected} (fst y)))
      (cfg (moved A f0))"
    by (rule hoare_conseq [OF hoare_closing [where C = ?Q and E = "moved A f0"]]) (auto simp: at_stage_of_def)
qed auto

lemma hoare_stopped_closure:
  assumes "confirmed A (c\<lparr>cf_connection_state := Disconnected\<rparr>)" and "cf_connection_state c = DisconnectPending"
  shows "hoare (cfg (moved A f0)) (stopped_closure A i p c r) (\<lambda>y. cfg (moved A f0)) (cfg (moved A f0))"
  unfolding stopped_closure_def
proof (rule hoare_bindo [OF leaves_hoare hoare_bindo [OF leaves_hoare hoare_bindo [OF hoare_load_editable hoare_bindo [OF hoare_lifto hoare_bindo]]]])
  fix latest u
  show "hoare (\<lambda>d. (moved A f0 (dk_configs d) \<and> dk_configs d (path_components p) = PlainConfig latest)
        \<and> ensure (latest = c) ''Folder configuration changed; retry disconnection.'' = Inr u)
      (config_save A (c\<lparr>cf_connection_state := Disconnected\<rparr>) p True) (\<lambda>_. cfg (moved A f0)) (cfg (moved A f0))"
    by (rule hoare_strengthen [OF hoare_config_save [where C = "\<lambda>f. moved A f0 f \<and> f (path_components p) = PlainConfig c"]])
      (use assms progress_steps(2) in \<open>auto simp del: fun_upd_apply intro!: moved_save\<close>)
  show "hoare (cfg (moved A f0)) (closing () (registry_set_auto_receive i False) r) (\<lambda>_. cfg (moved A f0)) (cfg (moved A f0))"
    by (rule leaves_hoare) auto
qed auto

lemma hoare_net:
  "(\<And>f. C f \<Longrightarrow> E f) \<Longrightarrow> hoare (scfg C) (in_world (on_net m)) (\<lambda>x s. scfg C s \<and> (\<exists>w w'. m w = (Inr x, w'))) (scfg E)"
  by (rule hoareI) (auto simp: in_world_def on_net_def split: prod.splits)

lemma confirm_disconnect:
  assumes "cf_server c = HttpServer h" and "PairingClient_new (urls_of A) (hs_base_url h) token (hs_allow_insecure_http h) = Inr P"
    and "\<exists>w w'. client_disconnect (da_out A) (da_json A) P w = (Inr got, w')"
  shows "confirmed A (c\<lparr>cf_connection_state := Disconnected\<rparr>)"
proof -
  from assms(3) obtain w w' where "client_disconnect (da_out A) (da_json A) P w = (Inr got, w')" by blast
  with assms(1,2) show ?thesis
    unfolding confirmed_def by (intro impI exI [of _ h] exI [of _ token] exI [of _ P] exI [of _ w] exI [of _ w'] conjI) auto
qed

lemma confirm_cleaned:
  assumes "cf_server c = HttpServer h" and "PairingClient_new (urls_of A) (hs_base_url h) token (hs_allow_insecure_http h) = Inr P"
    and "\<exists>w w'. client_clean_exit (da_out A) (da_json A) P w = (Inr st, w')" and "fx_role st = ''receiver''"
  shows "confirmed A (c\<lparr>cf_connection_state := ExitLocalCleaned\<rparr>)"
proof -
  from assms(3) obtain w w' where "client_clean_exit (da_out A) (da_json A) P w = (Inr st, w')" by blast
  with assms(1,2,4) show ?thesis
    unfolding confirmed_def by (intro impI exI [of _ h] exI [of _ token] exI [of _ P] exI [of _ w] exI [of _ w'] conjI) auto
qed

lemma confirm_exited:
  assumes "cf_server c = HttpServer h" and "PairingClient_new (urls_of A) (hs_base_url h) token (hs_allow_insecure_http h) = Inr P"
    and "\<exists>w w'. client_acknowledge_exit (da_out A) (da_json A) P w = (Inr st, w')" and "exit_complete st"
  shows "confirmed A (c\<lparr>cf_connection_state := Exited\<rparr>)"
proof -
  from assms(3) obtain w w' where "client_acknowledge_exit (da_out A) (da_json A) P w = (Inr st, w')" by blast
  with assms(1,2,4) show ?thesis
    unfolding confirmed_def by (intro impI exI [of _ h] exI [of _ token] exI [of _ P] exI [of _ w] exI [of _ w'] conjI) auto
qed

text \<open>What a client was given or made of is kept as a fact.\<close>

lemma hoare_fact: "hoare (\<lambda>s. P s \<and> F) m Q E" if "F \<Longrightarrow> hoare P m Q E"
  using that by (cases F) (auto simp: hoare_def)

lemma hoare_send_disconnect:
  assumes "cf_server c = HttpServer h" and "cf_connection_state c = DisconnectPending"
  shows "hoare (scfg (moved A f0)) (send_disconnect A i supplied p c h) (\<lambda>_. scfg (moved A f0)) (scfg (moved A f0))"
  unfolding send_disconnect_def
proof (rule hoare_bindo [OF sleaves_hoare hoare_bindo [OF hoare_lifto hoare_fact]])
  fix token P
  assume new: "PairingClient_new (urls_of A) (hs_base_url h) token (hs_allow_insecure_http h) = Inr P"
  show "hoare (scfg (moved A f0)) (bindo (in_world (on_net (client_disconnect (da_out A) (da_json A) P))) (\<lambda>_.
     registry_update (registry_api_of A) (stopped_closure A i p c))) (\<lambda>_. scfg (moved A f0)) (scfg (moved A f0))"
  proof (rule hoare_bindo [OF hoare_net hoare_fact])
    fix got assume "\<exists>w w'. client_disconnect (da_out A) (da_json A) P w = (Inr got, w')"
    note this [THEN confirm_disconnect [OF assms(1) new]]
    from hoare_update [OF hoare_stopped_closure [OF this assms(2)]]
    show "hoare (scfg (moved A f0)) (registry_update (registry_api_of A) (stopped_closure A i p c))
      (\<lambda>_. scfg (moved A f0)) (scfg (moved A f0))" by auto
  qed simp
qed auto

lemma hoare_disconnect:
  "hoare (scfg (moved A f0)) (disconnect_folder A i supplied) (\<lambda>_. scfg (moved A f0)) (scfg (moved A f0))"
  unfolding disconnect_folder_def
proof (rule hoare_bindo [OF hoare_update [OF hoare_stop_closure]])
  fix x :: "string \<times> config"
  obtain p c where x: "x = (p, c)" by fastforce
  show "hoare (scfg (at_stage_of A f0 {DisconnectPending, Disconnected} x))
     (case x of (p, c) \<Rightarrow> if cf_connection_state c = Disconnected then retn ()
       else case cf_server c of
         Filesystem _ \<Rightarrow> fails (Bail ''unreachable'')
       | HttpServer h \<Rightarrow> send_disconnect A i supplied p c h) (\<lambda>_. scfg (moved A f0)) (scfg (moved A f0))"
    by (rule hoare_pre_imp [of _ "cf_connection_state c \<in> {DisconnectPending, Disconnected}"])
      (auto simp: x at_stage_of_def split: server_config.split
        intro!: hoare_retn hoare_fails hoare_strengthen [OF hoare_send_disconnect])
qed (auto dest: at_stage_moved)

lemma hoare_exit_closure:
  "hoare (cfg (moved A f0)) (exit_closure A i r)
     (\<lambda>y. cfg (at_stage_of A f0 {ExitPending, ExitLocalCleaned, Exited} (fst y))) (cfg (moved A f0))"
  unfolding exit_closure_def Let_def
proof (rule hoare_bindo [OF leaves_hoare hoare_bindo [OF hoare_load_editable hoare_bindo [OF leaves_hoare hoare_bindo [OF hoare_lifto hoare_bindo]]]])
  fix b u v
  fix c :: config
  let ?p = "rg_config_path b"
  let ?fresh = "cf_connection_state c \<notin> {ExitLocalCleaned, Exited}"
  let ?c = "if ?fresh then c\<lparr>cf_connection_state := ExitPending\<rparr> else c"
  let ?Q = "at_stage_of A f0 {ExitPending, ExitLocalCleaned, Exited} (?p, ?c)"
  let ?P = "\<lambda>d. (moved A f0 (dk_configs d) \<and> dk_configs d (path_components ?p) = PlainConfig c)
      \<and> ensure (cf_connection_state c \<noteq> Disconnected) ''This older disconnected Folder no longer has a guaranteed receipt credential'' = Inr v"
  have p: "progress\<^sup>*\<^sup>* (Stage (cf_connection_state c)) (Stage ExitPending)"
    if "?fresh" "cf_connection_state c \<noteq> Disconnected"
    using that progress_steps(3,4) by (cases "cf_connection_state c") auto
  show "hoare ?P (if ?fresh then config_save A ?c ?p True else retn ()) (\<lambda>_. cfg ?Q) (cfg (moved A f0))"
  proof (cases ?fresh)
    case False
    then show ?thesis by (auto intro!: hoare_retn simp: at_stage_of_def)
  next
    case True
    have "hoare (cfg (\<lambda>f. (moved A f0 f \<and> f (path_components ?p) = PlainConfig c) \<and> cf_connection_state c \<noteq> Disconnected))
        (config_save A ?c ?p True) (\<lambda>_. cfg ?Q) (cfg (moved A f0))"
      by (rule hoare_config_save)
        (use True p in \<open>auto simp: confirmed_def simp del: fun_upd_apply intro!: at_stage_save dest: at_stage_moved\<close>)
    with True show ?thesis by (auto elim!: hoare_strengthen)
  qed
  fix w
  show "hoare (cfg ?Q) (closing (?p, ?c) (registry_set_auto_receive i False) r) (\<lambda>y. cfg (at_stage_of A f0 {ExitPending, ExitLocalCleaned, Exited} (fst y)))
      (cfg (moved A f0))"
    by (rule hoare_conseq [OF hoare_closing [where C = ?Q and E = "moved A f0"]]) (auto simp: at_stage_of_def)
qed auto

definition holding :: "'w desktop_api \<Rightarrow> (parts \<Rightarrow> config_file) \<Rightarrow> string \<Rightarrow> config \<Rightarrow> (parts \<Rightarrow> config_file) \<Rightarrow> bool" where
  "holding A f0 p c f \<longleftrightarrow> moved A f0 f \<and> f (path_components p) = PlainConfig c"

lemma holding_moved: "holding A f0 p c f \<Longrightarrow> moved A f0 f"
  by (simp add: holding_def)

lemma holding_save:
  assumes "holding A f0 p c f" and "progress\<^sup>*\<^sup>* (Stage (cf_connection_state c)) (Stage (cf_connection_state c'))" and "confirmed A c'"
  shows "holding A f0 p c' (f(path_components p := PlainConfig c'))"
  using assms moved_save [of A f0 f "path_components p" c c'] by (simp add: holding_def)

lemma sleaves_registered [simp]: "sleaves (load_registered_config A i p)"
  unfolding load_registered_config_def
  by (intro sleaves_bindo sleaves_in_world leaves_bindo) simp_all

lemma hoare_finish_exit:
  assumes "cf_server c = HttpServer h" and "PairingClient_new (urls_of A) (hs_base_url h) token (hs_allow_insecure_http h) = Inr P"
    and "confirmed A (c\<lparr>cf_connection_state := ExitLocalCleaned\<rparr>)"
    and "cf_connection_state c \<in> {ExitPending, ExitLocalCleaned, Exited}"
  shows "hoare (scfg (holding A f0 p c)) (finish_exit A dp i p c P) (\<lambda>_. scfg (moved A f0)) (scfg (moved A f0))"
proof -
  define cl where "cl = c\<lparr>cf_connection_state := ExitLocalCleaned\<rparr>"
  define late where "late = (\<lambda>f. \<exists>b. holding A f0 p b f \<and> cf_connection_state b \<in> {ExitLocalCleaned, Exited} \<and> cf_server b = cf_server c)"
  have late: "late f \<Longrightarrow> moved A f0 f" for f by (auto simp: late_def dest: holding_moved)
  have 1: "hoare (scfg (holding A f0 p c)) (if cf_connection_state c \<in> {ExitLocalCleaned, Exited} then retn ()
       else bindo (in_world (clean_local A dp i p c)) (\<lambda>_. in_world (config_save A cl p True))) (\<lambda>_. scfg late) (scfg (moved A f0))"
  proof (rule hoare_if)
    assume "cf_connection_state c \<in> {ExitLocalCleaned, Exited}"
    then show "hoare (scfg (holding A f0 p c)) (retn ()) (\<lambda>_. scfg late) (scfg (moved A f0))"
      by (auto intro!: hoare_retn simp: late_def)
  next
    assume "cf_connection_state c \<notin> {ExitLocalCleaned, Exited}"
    with assms(4) have e: "cf_connection_state c = ExitPending" by auto
    show "hoare (scfg (holding A f0 p c)) (bindo (in_world (clean_local A dp i p c)) (\<lambda>_. in_world (config_save A cl p True)))
        (\<lambda>_. scfg late) (scfg (moved A f0))"
    proof (rule hoare_bindo [OF sleaves_hoare hoare_in_world [OF hoare_config_save]])
      fix f assume "holding A f0 p c f"
      from holding_save [OF this, of cl] assms(3) e progress_steps(5)
      show "late (f(path_components p := PlainConfig cl))" unfolding late_def by (auto simp: cl_def simp del: fun_upd_apply)
    qed (auto dest: holding_moved late)
  qed
  have 2: "hoare (scfg late) (if exit_complete receipt then in_world (config_save A (c\<lparr>cf_connection_state := Exited\<rparr>) p True) else retn ())
      (\<lambda>_. scfg (moved A f0)) (scfg (moved A f0))"
    if r: "\<exists>w w'. client_acknowledge_exit (da_out A) (da_json A) P w = (Inr receipt, w')" for receipt
  proof (rule hoare_if)
    assume x: "exit_complete receipt"
    show "hoare (scfg late) (in_world (config_save A (c\<lparr>cf_connection_state := Exited\<rparr>) p True)) (\<lambda>_. scfg (moved A f0)) (scfg (moved A f0))"
    proof (rule hoare_in_world [OF hoare_config_save])
      fix f assume "late f"
      then obtain b where b: "holding A f0 p b f" "cf_connection_state b \<in> {ExitLocalCleaned, Exited}" by (auto simp: late_def)
      from b(2) progress_steps(6) have "progress\<^sup>*\<^sup>* (Stage (cf_connection_state b)) (Stage Exited)" by auto
      from holding_save [OF b(1), of "c\<lparr>cf_connection_state := Exited\<rparr>"] this confirm_exited [OF assms(1,2) r x]
      show "moved A f0 (f(path_components p := PlainConfig (c\<lparr>cf_connection_state := Exited\<rparr>)))"
        by (auto simp del: fun_upd_apply dest: holding_moved)
    qed (auto dest: late)
  qed (auto intro!: hoare_retn dest: late)
  show ?thesis
    unfolding finish_exit_def cl_def [symmetric]
    by (rule hoare_bindo [OF sleaves_hoare hoare_bindo [OF sleaves_hoare hoare_bindo [OF sleaves_hoare hoare_bindo [OF 1
          hoare_bindo [OF hoare_net hoare_fact [OF hoare_bindo [OF sleaves_hoare hoare_bindo [OF 2 hoare_retn]]]]]]]])
      (auto dest: holding_moved late)
qed

lemma hoare_send_exit:
  assumes "cf_server c = HttpServer h" and "cf_connection_state c \<in> {ExitPending, ExitLocalCleaned, Exited}"
  shows "hoare (scfg (holding A f0 p c)) (send_exit A dp i supplied p c h) (\<lambda>_. scfg (moved A f0)) (scfg (moved A f0))"
  unfolding send_exit_def
proof (rule hoare_bindo [OF sleaves_hoare hoare_bindo [OF hoare_lifto hoare_fact [OF hoare_bindo [OF sleaves_hoare
      hoare_bindo [OF sleaves_hoare hoare_bindo [OF hoare_net hoare_fact [OF hoare_bindo [OF hoare_lifto hoare_fact]]]]]]]])
  fix token P status u
  assume "PairingClient_new (urls_of A) (hs_base_url h) token (hs_allow_insecure_http h) = Inr P"
    and "\<exists>w w'. client_clean_exit (da_out A) (da_json A) P w = (Inr status, w')"
    and "ensure (fx_role status = ''receiver'') ''Use a receiver credential on Linux'' = Inr u"
  from hoare_finish_exit [OF assms(1) this(1) confirm_cleaned [OF assms(1) this(1,2)] assms(2)] this(3)
  show "hoare (scfg (holding A f0 p c)) (finish_exit A dp i p c P) (\<lambda>_. scfg (moved A f0)) (scfg (moved A f0))" by simp
qed (auto dest: holding_moved)

lemma hoare_exit:
  "hoare (scfg (moved A f0)) (exit_folder A dp i supplied) (\<lambda>_. scfg (moved A f0)) (scfg (moved A f0))"
  unfolding exit_folder_def
proof (rule hoare_bindo [OF hoare_update [OF hoare_exit_closure]])
  fix x :: "string \<times> config"
  obtain p c where x: "x = (p, c)" by fastforce
  show "hoare (scfg (at_stage_of A f0 {ExitPending, ExitLocalCleaned, Exited} x))
     (case x of (p, c) \<Rightarrow> case cf_server c of
         Filesystem _ \<Rightarrow> fails (Bail ''unreachable'')
       | HttpServer h \<Rightarrow> send_exit A dp i supplied p c h) (\<lambda>_. scfg (moved A f0)) (scfg (moved A f0))"
    by (rule hoare_pre_imp [of _ "cf_connection_state c \<in> {ExitPending, ExitLocalCleaned, Exited}"])
      (auto simp: x at_stage_of_def holding_def split: server_config.split
        intro!: hoare_retn hoare_fails hoare_strengthen [OF hoare_send_exit])
qed (auto dest: at_stage_moved)

lemma hoare_resume:
  "hoare (scfg (moved A f0)) (resume_if_requested A dp i p token) (\<lambda>_. scfg (moved A f0)) (scfg (moved A f0))"
  unfolding resume_if_requested_def
proof (rule hoare_bindo [OF sleaves_hoare])
  fix c :: config
  have go: "hoare (scfg (moved A f0)) (if go then bindo (exit_folder A dp i t) (\<lambda>_. retn True) else retn False)
      (\<lambda>_. scfg (moved A f0)) (scfg (moved A f0))" for go t
    by (rule hoare_if [OF hoare_bindo [OF hoare_exit hoare_retn] hoare_retn]) auto
  have ask: "sleaves (if pending then retn True else bindo (lifto r) (\<lambda>P. bindo (attempt (in_world (on_net (m P)))) (\<lambda>st. retn (g st))))"
    for pending :: bool and r :: "pairing_client res" and m :: "pairing_client \<Rightarrow> ('a, folder_exit_status) op" and g
    by (auto intro!: sleaves_bindo sleaves_attempt)
  show "hoare (scfg (moved A f0)) (case cf_server c of
       Filesystem _ \<Rightarrow> retn False
     | HttpServer h \<Rightarrow>
         if \<not> scoped A c \<or> cf_connection_state c \<in> {Disconnected, Exited} then retn False
         else
           bindo (lifto (of_option ''Enter the Folder receiver token''
             (case token of Some t \<Rightarrow> Some t | None \<Rightarrow> da_var A (hs_token_env h)))) (\<lambda>t.
           bindo (if cf_connection_state c \<in> {ExitPending, ExitLocalCleaned} then retn True
             else
               bindo (lifto (PairingClient_new (urls_of A) (hs_base_url h) t (hs_allow_insecure_http h))) (\<lambda>P.
               bindo (attempt (in_world (on_net (client_exit_status (da_out A) (da_json A) P)))) (\<lambda>status.
               retn (case status of Inl _ \<Rightarrow> False | Inr st \<Rightarrow> fx_requested st)))) (\<lambda>go.
           if go then bindo (exit_folder A dp i t) (\<lambda>_. retn True) else retn False))) (\<lambda>_. scfg (moved A f0)) (scfg (moved A f0))"
  proof (cases "cf_server c")
    case (HttpServer h)
    show ?thesis
      unfolding HttpServer server_config.case
      by (intro hoare_if hoare_retn hoare_bindo [OF sleaves_hoare hoare_bindo [OF sleaves_hoare [OF ask] go]]) auto
  qed (auto intro!: hoare_retn)
qed auto

section \<open>Creating, editing, removing\<close>

lemma hoare_persist:
  assumes "\<And>f. C f \<Longrightarrow> force \<or> f (path_components p) = NoConfig \<Longrightarrow> Q (f(path_components p := PlainConfig c))"
    and "\<And>f. C f \<Longrightarrow> E f" and "\<And>f. Q f \<Longrightarrow> E f"
  shows "hoare (cfg C) (persist_config A c p force init) (\<lambda>_. cfg Q) (cfg E)"
  unfolding persist_config_def
proof (rule hoare_bindo [OF leaves_hoare hoare_bindo [OF leaves_hoare hoare_bindo [OF hoare_config_save [where C = C and Q = Q]]]])
  show "hoare (cfg Q) (if \<not> init then retn ()
     else
       bindo (lock_exclusive A (cf_state_file c)) (\<lambda>_.
       bindo (readso (\<lambda>d. Inr (da_canon A (dk_files d) (path_components (cf_state_file c)) \<noteq> None))) (\<lambda>there.
       if there then retn () else write_state_file A (cf_state_file c) (da_empty_state A)))) (\<lambda>_. cfg Q) (cfg E)"
    by (rule leaves_hoare) (auto intro!: leaves_bindo leaves_if simp: assms(3))
qed (use assms in auto)

text \<open>A new Folder starts connected, at a path without a configuration.\<close>

definition created :: "(parts \<Rightarrow> config_file) \<Rightarrow> (parts \<Rightarrow> config_file) \<Rightarrow> bool" where
  "created f0 f \<longleftrightarrow> (\<forall>q. f q = f0 q \<or> f0 q = NoConfig \<and> life_of (f q) = Stage Connected)"

lemma defaults_connected: "config_defaults e u v = Inr c \<Longrightarrow> cf_connection_state (set_http_server b i c) = Connected"
  by (auto simp: config_defaults_def andthen_Inr set_http_server_def)

lemma hoare_create:
  "hoare (scfg (\<lambda>f. f = f0)) (create_bridge A dp name library url insecure auto) (\<lambda>_. scfg (created f0)) (scfg (created f0))"
  unfolding create_bridge_def Let_def
proof (rule hoare_bindo [OF sleaves_hoare hoare_bindo [OF sleaves_hoare hoare_bindo [OF hoare_lifto hoare_fact]]])
  fix i device c
  assume c: "config_defaults (da_environment A) device
    \<lparr>io_data_dir = Some (path_join (dp_data_dir dp) i), io_library_dir = Some library, io_inbox_dir = None\<rparr> = Inr c"
  have p: "hoare (scfg (\<lambda>f. f = f0)) (in_world (persist_config A (set_http_server url insecure c) q False True))
      (\<lambda>_. scfg (created f0)) (scfg (created f0))" for q
    by (intro hoare_in_world hoare_persist) (auto simp: created_def defaults_connected [OF c])
  have u: "hoare (scfg (created f0)) (registry_update (registry_api_of A) (\<lambda>r.
       bindo (readso (\<lambda>d. Inr (da_canon A (dk_files d)))) (\<lambda>canon.
       bindo (ensure_resources_unique (urls_of A) canon (load_config_for_read A) r candidate None) (\<lambda>_.
       closing () (registry_add b) r)))) (\<lambda>_. scfg (created f0)) (scfg (created f0))" for candidate b
    by (rule hoare_update [OF leaves_hoare]) (auto intro!: leaves_bindo)
  show "hoare (scfg (\<lambda>f. f = f0))
     (bindo (lifto (config_validate (ext_of A) (urls_of A) (set_http_server url insecure c))) (\<lambda>_.
     bindo (in_world (readso (\<lambda>d. Inr (da_canon A (dk_files d))))) (\<lambda>canon.
     bindo (registry_load (registry_api_of A)) (\<lambda>r.
     bindo (in_world (readso (\<lambda>d. Inr (da_canon A (dk_files d))))) (\<lambda>canon'.
     bindo (in_world (ensure_resources_unique (urls_of A) canon' (load_config_for_read A) r
       (resources_of (urls_of A) canon (set_http_server url insecure c)) None)) (\<lambda>_.
     bindo (lifto (fst (registry_add \<lparr>rg_kind = General, rg_id = i, rg_name = name,
       rg_config_path = path_join (dp_config_dir dp) (i @ ''.toml''), rg_auto_receive = auto\<rparr> r))) (\<lambda>_.
     bindo (in_world (readso (\<lambda>d. Inr (dk_configs d (path_components (path_join (dp_config_dir dp) (i @ ''.toml''))) \<noteq> NoConfig)))) (\<lambda>there.
     bindo (lifto (ensure (\<not> there) ''Refusing to overwrite existing Folder configuration'')) (\<lambda>_.
     bindo (in_world (persist_config A (set_http_server url insecure c) (path_join (dp_config_dir dp) (i @ ''.toml'')) False True)) (\<lambda>_.
     bindo (registry_update (registry_api_of A) (\<lambda>r.
       bindo (readso (\<lambda>d. Inr (da_canon A (dk_files d)))) (\<lambda>canon'.
       bindo (ensure_resources_unique (urls_of A) canon' (load_config_for_read A) r
         (resources_of (urls_of A) canon (set_http_server url insecure c)) None) (\<lambda>_.
       closing () (registry_add \<lparr>rg_kind = General, rg_id = i, rg_name = name,
         rg_config_path = path_join (dp_config_dir dp) (i @ ''.toml''), rg_auto_receive = auto\<rparr>) r)))) (\<lambda>_.
     retn i))))))))))) (\<lambda>_. scfg (created f0)) (scfg (created f0))"
    by (rule hoare_bindo [OF sleaves_hoare hoare_bindo [OF sleaves_hoare hoare_bindo [OF sleaves_hoare hoare_bindo [OF sleaves_hoare
        hoare_bindo [OF sleaves_hoare hoare_bindo [OF sleaves_hoare hoare_bindo [OF sleaves_hoare hoare_bindo [OF sleaves_hoare
        hoare_bindo [OF p hoare_bindo [OF u hoare_retn]]]]]]]]]])
      (auto simp: created_def)
qed (auto simp: created_def)

text \<open>Editing keeps every Folder in its state.\<close>

lemma hoare_edit_closure:
  "hoare (cfg (moved A f0)) (edit_closure A i name url insecure auto r) (\<lambda>_. cfg (moved A f0)) (cfg (moved A f0))"
  unfolding edit_closure_def Let_def
proof (rule hoare_bindo [OF leaves_hoare hoare_bindo [OF leaves_hoare hoare_bindo [OF hoare_load_editable hoare_bindo [OF hoare_lifto
      hoare_bindo [OF leaves_hoare hoare_bindo [OF leaves_hoare hoare_bindo [OF leaves_hoare hoare_bindo]]]]]]])
  fix b u
  fix c :: config
  show "hoare (\<lambda>d. (moved A f0 (dk_configs d) \<and> dk_configs d (path_components (rg_config_path b)) = PlainConfig c) \<and> config_connected c = Inr u)
      (persist_config A (set_http_server url insecure c) (rg_config_path b) True False) (\<lambda>_. cfg (moved A f0)) (cfg (moved A f0))"
  proof (rule hoare_fact)
    assume "config_connected c = Inr u"
    then have k: "cf_connection_state c = Connected" "cf_connection_state (set_http_server url insecure c) = Connected"
      by (auto simp: config_connected_def is_connected_def set_http_server_def)
    show "hoare (cfg (\<lambda>f. moved A f0 f \<and> f (path_components (rg_config_path b)) = PlainConfig c))
        (persist_config A (set_http_server url insecure c) (rg_config_path b) True False) (\<lambda>_. cfg (moved A f0)) (cfg (moved A f0))"
      by (rule hoare_persist) (auto simp: k confirmed_def simp del: fun_upd_apply intro!: moved_save)
  qed
qed (auto intro!: leaves_hoare)

lemma hoare_update_bridge:
  "hoare (scfg (moved A f0)) (update_bridge A i name url insecure auto) (\<lambda>_. scfg (moved A f0)) (scfg (moved A f0))"
  unfolding update_bridge_def
  by (rule hoare_bindo [OF hoare_update [OF hoare_edit_closure] hoare_retn]) auto

lemma sleaves_update:
  assumes "\<And>r. leaves (f r)"
  shows "sleaves (registry_update (registry_api_of A) f)"
  unfolding registry_update_def
  by (intro sleaves_bindo) (auto intro!: sleaves_bindo sleaves_in_world assms split: prod.split)

lemma sleaves_import: "sleaves (import_bootstrap_config A dp)"
  unfolding import_bootstrap_config_def Let_def
  by (auto intro!: sleaves_bindo sleaves_in_world sleaves_update leaves_bindo split: option.split)

text \<open>A removal forgets a completed receipt, and nothing else.\<close>

definition forgotten :: "(parts \<Rightarrow> config_file) \<Rightarrow> (parts \<Rightarrow> config_file) \<Rightarrow> bool" where
  "forgotten f0 f \<longleftrightarrow> (\<forall>q. f q = f0 q \<or> life_of (f0 q) = Stage Exited \<and> f q = NoConfig)"

lemma hoare_forget:
  "hoare (cfg (\<lambda>f. f = f0)) (forget_receipt A dp b) (\<lambda>_. cfg (forgotten f0)) (cfg (forgotten f0))"
  unfolding forget_receipt_def
proof (rule hoare_bindo [OF hoare_load_editable hoare_if])
  fix c :: config
  let ?P = "\<lambda>f. f = f0 \<and> f (path_components (rg_config_path b)) = PlainConfig c"
  assume "\<not> cf_connection_state c \<noteq> Exited"
  then have m: "hoare (cfg ?P) (modifyo (set_config (rg_config_path b) NoConfig)) (\<lambda>_. cfg (forgotten f0)) (cfg (forgotten f0))"
    by (intro hoareI) (auto simp: op_defs set_config_def forgotten_def split: if_splits)
  have l: "leaves (if same then canonicalize A p else retn [])" for same p by simp
  show "hoare (cfg ?P)
      (bindo (if path_components (rg_config_path b) = path_components (path_join (dp_config_dir dp) (rg_id b @ ''.toml''))
         then canonicalize A (rg_config_path b) else retn []) (\<lambda>real.
       bindo (lifto (ensure (path_components (rg_config_path b) = path_components (path_join (dp_config_dir dp) (rg_id b @ ''.toml''))
         \<and> real = path_components (rg_config_path b)) ''Refusing unowned exit receipt path'')) (\<lambda>_.
       bindo (fs_call A) (\<lambda>_.
       bindo (modifyo (set_config (rg_config_path b) NoConfig)) (\<lambda>_. fs_call A))))) (\<lambda>_. cfg (forgotten f0)) (cfg (forgotten f0))"
    by (rule hoare_bindo [OF leaves_hoare [OF l] hoare_bindo [OF leaves_hoare hoare_bindo [OF leaves_hoare hoare_bindo [OF m leaves_hoare]]]])
      (auto simp: forgotten_def)
qed (auto intro!: hoare_retn simp: forgotten_def)

lemma hoare_remove:
  "hoare (scfg (\<lambda>f. f = f0)) (remove_folder A dp b) (\<lambda>_. scfg (forgotten f0)) (scfg (forgotten f0))"
  unfolding remove_folder_def
proof (rule hoare_bindo [OF sleaves_hoare [OF sleaves_update]])
  show "leaves (remove_closure A (rg_id b) r)" for r
    unfolding remove_closure_def by (intro leaves_bindo) simp_all
  show "hoare (scfg (\<lambda>f. f = f0)) (bindo (attempt (in_world (forget_receipt A dp b))) (\<lambda>_. retn ())) (\<lambda>_. scfg (forgotten f0)) (scfg (forgotten f0))"
    by (rule hoare_bindo [OF hoare_attempt [OF hoare_in_world [OF hoare_forget]] hoare_retn]) (simp split: sum.splits)
qed (auto simp: forgotten_def)

lemma sleaves_sync: "sleaves (sync_registered A directory files i p token)"
  unfolding sync_registered_def by (intro sleaves_bindo) simp_all

section \<open>Steps\<close>

text \<open>Any operation, with any outcome. A synchronisation acts on the rest of the world only.\<close>

inductive desk_step :: "'w desktop_api \<Rightarrow> desktop_paths \<Rightarrow> 'w desk registry_store \<Rightarrow> 'w desk registry_store \<Rightarrow> bool" for A dp where
  creates: "create_bridge A dp name library url insecure auto s = (r1, t) \<Longrightarrow> desk_step A dp s t"
| brings_in: "import_bootstrap_config A dp s = (r2, t) \<Longrightarrow> desk_step A dp s t"
| edits: "update_bridge A i name url insecure auto s = (r3, t) \<Longrightarrow> desk_step A dp s t"
| disconnects: "disconnect_folder A i supplied s = (r4, t) \<Longrightarrow> desk_step A dp s t"
| exits: "exit_folder A dp i supplied s = (r5, t) \<Longrightarrow> desk_step A dp s t"
| resumes: "resume_if_requested A dp i p token s = (r6, t) \<Longrightarrow> desk_step A dp s t"
| removes: "remove_folder A dp b s = (r7, t) \<Longrightarrow> desk_step A dp s t"
| synchronises: "sync_registered A directory files i p token s = (r8 :: unit res, t) \<Longrightarrow> desk_step A dp s t"

lemma hoare_outcome: "hoare P m (\<lambda>_. Q) Q \<Longrightarrow> P s \<Longrightarrow> m s = (r, t) \<Longrightarrow> Q t"
  unfolding hoare_def by (cases r) auto

lemma step_cases:
  assumes "desk_step A dp s t"
  shows "moved A (dk_configs (rf_world s)) (dk_configs (rf_world t))
     \<or> created (dk_configs (rf_world s)) (dk_configs (rf_world t))
     \<or> forgotten (dk_configs (rf_world s)) (dk_configs (rf_world t))"
  using assms
proof cases
  case creates
  then show ?thesis using hoare_outcome [OF hoare_create] by blast
next
  case brings_in
  from movesD [OF sleaves_import brings_in] show ?thesis by (simp add: moved_refl)
next
  case edits
  then show ?thesis using hoare_outcome [OF hoare_update_bridge moved_refl] by blast
next
  case disconnects
  then show ?thesis using hoare_outcome [OF hoare_disconnect moved_refl] by blast
next
  case exits
  then show ?thesis using hoare_outcome [OF hoare_exit moved_refl] by blast
next
  case resumes
  then show ?thesis using hoare_outcome [OF hoare_resume moved_refl] by blast
next
  case removes
  then show ?thesis using hoare_outcome [OF hoare_remove] by blast
next
  case synchronises
  from movesD [OF sleaves_sync synchronises] show ?thesis by (simp add: moved_refl)
qed


text \<open>
  C13. A Folder enters a state that tells of the server only on the server's word: \<open>Disconnected\<close> after the
  server of the configuration confirmed the disconnection, \<open>ExitLocalCleaned\<close> after it reported its
  cleanup to the receiver, and \<open>Exited\<close> after a receipt that every side has cleaned up.
\<close>

theorem states_confirmed:
  assumes "desk_step A dp s t" and "dk_configs (rf_world t) q = PlainConfig c"
    and "life_of (dk_configs (rf_world s) q) \<noteq> Stage (cf_connection_state c)"
  shows "confirmed A c"
proof -
  have "created f g \<Longrightarrow> g q = PlainConfig c \<Longrightarrow> life_of (f q) \<noteq> Stage (cf_connection_state c) \<Longrightarrow> confirmed A c" for f g
  proof -
    assume c: "created f g" "g q = PlainConfig c" "life_of (f q) \<noteq> Stage (cf_connection_state c)"
    then have "life_of (g q) = Stage Connected" unfolding created_def by (metis life_of.simps(4))
    with c(2) show "confirmed A c" by (simp add: confirmed_def)
  qed
  moreover have "forgotten f g \<Longrightarrow> g q = PlainConfig c \<Longrightarrow> life_of (f q) = Stage (cf_connection_state c)" for f g
    unfolding forgotten_def by (metis config_file.distinct(5) life_of.simps(4))
  ultimately show ?thesis using step_cases [OF assms(1)] assms(2,3) by (auto simp: moved_def)
qed

lemma progress_stopped:
  assumes "progress\<^sup>*\<^sup>* (Stage a) l" and "a \<noteq> Connected"
  shows "\<exists>b. l = Stage b \<and> b \<noteq> Connected"
  using assms(1)
proof (induction rule: rtranclp_induct)
  case base
  then show ?case using assms(2) by simp
next
  case (step l m)
  from step(2,3) show ?case by (cases m rule: life.exhaust) (auto elim!: progressE)
qed

text \<open>A synchronisation of a Folder that is not connected ends in an error before either kind of it is begun.\<close>

lemma hoare_registered:
  "hoare (scfg (\<lambda>f. f = f0)) (load_registered_config A i p)
     (\<lambda>c. scfg (\<lambda>f. f0 (path_components p) \<in> {PlainConfig c, LinkedConfig c})) (scfg (\<lambda>_. True))"
proof -
  have "hoare (cfg (\<lambda>f. f = f0 \<and> f (path_components p) \<in> {PlainConfig c, LinkedConfig c}))
      (bindo (readso (\<lambda>d. Inr (da_canon A (dk_files d)))) (\<lambda>canon.
       bindo (ensure_resources_unique (urls_of A) canon (load_config_for_read A) r (resources_of (urls_of A) canon c) (Some i)) (\<lambda>_. retn c)))
      (\<lambda>c. cfg (\<lambda>f. f0 (path_components p) \<in> {PlainConfig c, LinkedConfig c})) (cfg (\<lambda>_. True))" for c r
    by (rule hoare_bindo [OF leaves_hoare hoare_bindo [OF leaves_hoare hoare_retn]]) auto
  then show ?thesis
    unfolding load_registered_config_def
    by (intro hoare_bindo [OF sleaves_hoare hoare_bindo [OF sleaves_hoare hoare_bindo [OF sleaves_hoare hoare_in_world]]]
        hoare_bindo [OF hoare_load_read]) auto
qed

lemma sync_refused:
  assumes "dk_configs (rf_world t) (path_components p) = PlainConfig c" and "config_connected c \<noteq> Inr ()"
  shows "\<exists>e u. \<forall>directory files token. sync_registered A directory files i p token t = (Inl e, u)"
proof -
  obtain r1 t1 where 1: "in_world (operation_lock A p) t = (r1, t1)" by fastforce
  obtain r2 t2 where 2: "load_registered_config A i p t1 = (r2, t2)" by fastforce
  have "sleaves (in_world (operation_lock A p))" by simp
  from movesD [OF this 1] have f: "dk_configs (rf_world t1) = dk_configs (rf_world t)" .
  show ?thesis
  proof (cases r1)
    case (Inl e)
    with 1 show ?thesis by (auto simp: sync_registered_def bindo_def)
  next
    case r1: (Inr x)
    show ?thesis
    proof (cases r2)
      case (Inl e)
      with 1 2 r1 show ?thesis by (auto simp: sync_registered_def bindo_def)
    next
      case (Inr c')
      with hoare_ok [OF hoare_registered f, of A i p c' t2] 2 assms(1) have "c' = c" by simp
      with assms(2) obtain e where "config_connected c' = Inl e" by (cases "config_connected c'") auto
      with 1 2 r1 Inr show ?thesis by (auto simp: sync_registered_def bindo_def lifto_def)
    qed
  qed
qed

text \<open>
  C14. A Folder that was stopped stays stopped: through any operations, as long as its configuration is
  there at all, it is never connected again, and every attempt to synchronise it ends in an error before
  the synchronisation begins: what happens does not depend on what either kind of it would do.
\<close>

theorem stopped_for_good:
  assumes "(\<lambda>s t. desk_step A dp s t \<and> dk_configs (rf_world t) q \<noteq> NoConfig)\<^sup>*\<^sup>* s t"
    and "life_of (dk_configs (rf_world s) q) = Stage a" and "a \<noteq> Connected"
  shows "(\<exists>c. dk_configs (rf_world t) q = PlainConfig c \<and> cf_connection_state c \<noteq> Connected)
     \<and> (\<forall>i p. path_components p = q \<longrightarrow>
          (\<exists>e u. \<forall>directory files token. sync_registered A directory files i p token t = (Inl e, u)))"
proof -
  from assms(1) have "\<exists>b. life_of (dk_configs (rf_world t) q) = Stage b \<and> b \<noteq> Connected"
  proof (induction rule: rtranclp_induct)
    case base
    with assms(2,3) show ?case by simp
  next
    case (step t u)
    from step(3) obtain b where b: "life_of (dk_configs (rf_world t) q) = Stage b" "b \<noteq> Connected" by blast
    have "life_of f \<noteq> NoFolder" if "f \<noteq> NoConfig" for f using that by (cases f) auto
    with step(2) have n: "life_of (dk_configs (rf_world u) q) \<noteq> NoFolder" by blast
    have "moved A f g \<or> created f g \<or> forgotten f g \<Longrightarrow> life_of (f q) = Stage b \<Longrightarrow> life_of (g q) \<noteq> NoFolder
        \<Longrightarrow> progress\<^sup>*\<^sup>* (Stage b) (life_of (g q))" for f g
      by (auto simp: moved_def created_def forgotten_def) (metis life.distinct(3) life_of.simps(1) rtranclp.rtrancl_refl)+
    with step_cases [of A dp t u] step(2) b(1) n have "progress\<^sup>*\<^sup>* (Stage b) (life_of (dk_configs (rf_world u) q))" by blast
    from progress_stopped [OF this b(2)] show ?case .
  qed
  then obtain c where c: "dk_configs (rf_world t) q = PlainConfig c" "cf_connection_state c \<noteq> Connected"
    by (cases "dk_configs (rf_world t) q") auto
  then have "config_connected c \<noteq> Inr ()" by (auto simp: config_connected_def is_connected_def)
  with c(1) have "\<exists>e u. \<forall>directory files token. sync_registered A directory files i p token t = (Inl e, u)"
    if "path_components p = q" for i p
    using sync_refused [of t p c A i] that by simp
  with c show ?thesis by blast
qed

end
