(* ===== verification/Stopping.thy ===== *)
theory Stopping
  imports LifecycleSafe
begin

text \<open>
  The order of the steps in which a Folder is stopped: with every request to the network logged, none is
  sent before the configuration on disk and the registry say that the Folder is stopped.
\<close>

section \<open>A logged network\<close>

definition unlogged :: "('w \<Rightarrow> 'a \<times> 'w) \<Rightarrow> 'w \<times> http_request list \<Rightarrow> 'a \<times> 'w \<times> http_request list" where
  "unlogged f s = (case f (fst s) of (x, w) \<Rightarrow> (x, (w, snd s)))"

definition desktop_logged :: "'w desktop_api \<Rightarrow> ('w \<times> http_request list) desktop_api" where
  "desktop_logged A = \<lparr>da_out = logged (da_out A), da_json = da_json A, da_environment = da_environment A,
     da_var = da_var A, da_uuid = unlogged (da_uuid A), da_permit = unlogged (da_permit A),
     da_write = unlogged (da_write A), da_length = da_length A, da_empty_state = da_empty_state A, da_canon = da_canon A\<rparr>"

definition requests :: "('w \<times> http_request list) desk \<Rightarrow> http_request list" where
  "requests d = snd (dk_world d)"

abbreviation quiet :: "(('w \<times> http_request list) desk, 'a) op \<Rightarrow> bool" where
  "quiet m \<equiv> moves (\<lambda>d d'. requests d' = requests d) m"

lemma silent_bindo [pres_intros]: "quiet m \<Longrightarrow> (\<And>x. quiet (f x)) \<Longrightarrow> quiet (bindo m f)"
  by (rule moves_bindo) auto

lemma silent_atoms [simp]:
  "quiet (retn x)" "quiet (fails e)" "quiet (lifto r)" "quiet (readso g)" "quiet (asking (unlogged h))"
  "quiet (modifyo (set_config p f))"
  by (auto simp: moves_def op_defs asking_def asked_def unlogged_def requests_def set_config_def split: prod.split)

lemma quiet_closing [simp]: "quiet (closing x k g)"
  by (auto simp: closing_def split: prod.split sum.split)

lemma quiet_save:
  "quiet (load_editable_config (desktop_logged A) p)" "quiet (config_save (desktop_logged A) c p force)"
proof -
  have f: "quiet (fs_call (desktop_logged A))" by (simp add: fs_call_def desktop_logged_def silent_bindo)
  then show "quiet (load_editable_config (desktop_logged A) p)"
    unfolding load_editable_config_def config_parse_def
    by (intro silent_bindo f) (auto intro!: silent_bindo split: config_file.split)
  have "da_write (desktop_logged A) = unlogged (da_write A)" by (simp add: desktop_logged_def)
  then show "quiet (config_save (desktop_logged A) c p force)"
    unfolding config_save_def by (intro silent_bindo) (auto intro!: silent_bindo split: write_outcome.split)
qed

abbreviation squiet :: "(('w \<times> http_request list) desk, 'a) storing \<Rightarrow> bool" where
  "squiet m \<equiv> moves (\<lambda>s t. requests (rf_world t) = requests (rf_world s)) m"

lemma squiet_bindo [pres_intros]: "squiet m \<Longrightarrow> (\<And>x. squiet (f x)) \<Longrightarrow> squiet (bindo m f)"
  by (rule moves_bindo) auto

lemma squiet_atoms [simp]:
  "squiet (retn x)" "squiet (fails e)" "squiet (lifto r)" "squiet (readso g)" "squiet (with_world (asked (unlogged h)))"
  "squiet (modifyo (\<lambda>s. s\<lparr>rf_file := d\<rparr>))"
  by (auto simp: moves_def op_defs with_world_def asked_def unlogged_def requests_def split: prod.split)

lemma squiet_in_world: "quiet m \<Longrightarrow> squiet (in_world m)"
  by (auto simp: moves_def in_world_def split: prod.split) (metis snd_conv)

lemma squiet_update:
  assumes "\<And>r. quiet (f r)"
  shows "squiet (registry_update (registry_api_of (desktop_logged A)) f)"
proof -
  have p: "sf_permit (registry_api_of (desktop_logged A)) = asked (unlogged (da_permit A))"
    "sf_write (registry_api_of (desktop_logged A)) = asked (unlogged (da_write A))"
    by (simp_all add: registry_api_of_def desktop_logged_def)
  then have a: "squiet (store_access (registry_api_of (desktop_logged A)))"
    unfolding store_access_def by (intro squiet_bindo) simp_all
  have l: "squiet (registry_load_unlocked (registry_api_of (desktop_logged A)))"
    unfolding registry_load_unlocked_def by (intro squiet_bindo a) (auto split: document.split intro!: squiet_bindo)
  have "squiet (registry_save_unlocked (registry_api_of (desktop_logged A)) r)" for r
    unfolding registry_save_unlocked_def using p
    by (intro squiet_bindo) (auto split: write_outcome.split intro!: squiet_bindo)
  then show ?thesis
    unfolding registry_update_def using assms a l
    by (auto intro!: squiet_bindo squiet_in_world split: prod.split)
qed

lemma quiet_closures: "quiet (stop_closure (desktop_logged A) i r)" "quiet (exit_closure (desktop_logged A) i r)"
  unfolding stop_closure_def exit_closure_def Let_def
  by (intro silent_bindo quiet_save; simp add: quiet_save)+

section \<open>The registry\<close>

definition receiving_off :: "string \<Rightarrow> registry document \<Rightarrow> bool" where
  "receiving_off i d \<longleftrightarrow> (\<exists>r b. d = document.Saved r \<and> find_bridge i r = Inr b \<and> \<not> rg_auto_receive b)"

lemma set_off:
  assumes "closing x (registry_set_auto_receive i False) r w = (Inr (y, r'), w')"
  shows "receiving_off i (document.Saved r') \<and> y = x"
proof -
  from assms have e: "edit_bridge i (\<lambda>b. b\<lparr>rg_auto_receive := False\<rparr>) r = (Inr (), r')" and y: "y = x"
    by (auto simp: closing_def registry_set_auto_receive_def op_defs split: prod.splits sum.splits)
  from edit_bridge_ok [OF e] obtain us b vs where "rs_bridges r = us @ b # vs" "rg_id b = i" "\<forall>c \<in> set us. rg_id c \<noteq> i"
    "r' = r\<lparr>rs_bridges := us @ b\<lparr>rg_auto_receive := False\<rparr> # vs\<rparr>" by blast
  then have "List.find (\<lambda>b. rg_id b = i) (rs_bridges r') = Some (b\<lparr>rg_auto_receive := False\<rparr>)"
    by (auto simp: find_Some_iff nth_append intro!: exI [of _ "length us"])
  with y show ?thesis by (auto simp: receiving_off_def find_bridge_def)
qed

lemma off_update:
  assumes "\<And>r w y r' w'. f r w = (Inr (y, r'), w') \<Longrightarrow> receiving_off i (document.Saved r')"
    and "receiving_off i (rf_file s)" and "registry_update A f s = (x, t)"
  shows "receiving_off i (rf_file t)"
proof -
  have "receiving_off i (rf_file t)" if "replaced A f s y t" for y
    using that assms(1) unfolding replaced_def by metis
  with update_outcome [OF assms(3)] assms(2) show ?thesis by (auto split: sum.splits)
qed

lemma stopped_closure_off: "stopped_closure A i p c r w = (Inr (y, r'), w') \<Longrightarrow> receiving_off i (document.Saved r')"
  unfolding stopped_closure_def by (auto simp: op_ok dest: set_off)

abbreviation files_rest :: "('w, 'a) storing \<Rightarrow> bool" where
  "files_rest m \<equiv> moves (\<lambda>s t. rf_file t = rf_file s) m"

lemma files_rest_bindo [pres_intros]: "files_rest m \<Longrightarrow> (\<And>x. files_rest (f x)) \<Longrightarrow> files_rest (bindo m f)"
  by (rule moves_bindo) auto

lemma files_rest_atoms [simp]:
  "files_rest (retn x)" "files_rest (fails e)" "files_rest (lifto r)" "files_rest (in_world m)"
  by (auto simp: moves_def op_defs in_world_def split: prod.split)

lemma files_rest_registered [simp]: "files_rest (load_registered_config A i p)"
proof -
  have "files_rest (registry_load (registry_api_of A))"
    unfolding registry_load_def
    by (intro files_rest_bindo)
      (simp_all add: moves_def store_access_file [OF surjective_pairing] load_unlocked_file [OF surjective_pairing, THEN conjunct1])
  then show ?thesis unfolding load_registered_config_def by (intro files_rest_bindo) simp_all
qed

lemma files_rest_exit: "files_rest (send_exit A dp i supplied p c h)"
  unfolding send_exit_def finish_exit_def by (auto intro!: files_rest_bindo)

section \<open>Stopped before any request\<close>

text \<open>
  Either nothing was sent, or the Folder's registration is off and its configuration, found by the
  registry as it was, is in a state that no synchronisation starts from.
\<close>

definition stopped_first ::
    "string \<Rightarrow> ('w \<times> http_request list) desk registry_store \<Rightarrow> ('w \<times> http_request list) desk registry_store \<Rightarrow> bool" where
  "stopped_first i s t \<longleftrightarrow> requests (rf_world t) = requests (rf_world s)
     \<or> receiving_off i (rf_file t)
       \<and> (\<exists>r b c. registry_read (rf_file s) r \<and> find_bridge i r = Inr b
            \<and> dk_configs (rf_world t) (bridge_path b) = PlainConfig c \<and> cf_connection_state c \<noteq> Connected)"

lemma stopped_first_rule:
  assumes run: "bindo (registry_update (registry_api_of (desktop_logged A)) f) g s = (x, t)"
    and f: "\<And>r. quiet (f r)"
      "\<And>r w p c r' w'. f r w = (Inr ((p, c), r'), w') \<Longrightarrow> receiving_off i (document.Saved r') \<and> (\<exists>b. find_bridge i r = Inr b \<and> p = rg_config_path b)"
      "\<And>f0 r. hoare (cfg (moved (desktop_logged A) f0)) (f r) (\<lambda>y. cfg (at_stage_of (desktop_logged A) f0 S (fst y))) (cfg (moved (desktop_logged A) f0))"
    and S: "Connected \<notin> S"
    and g: "\<And>p c s1 x t. cf_connection_state c \<in> S \<Longrightarrow> dk_configs (rf_world s1) (path_components p) = PlainConfig c
      \<Longrightarrow> receiving_off i (rf_file s1) \<Longrightarrow> g (p, c) s1 = (x, t)
      \<Longrightarrow> moved (desktop_logged A) (dk_configs (rf_world s1)) (dk_configs (rf_world t)) \<and> receiving_off i (rf_file t)"
  shows "stopped_first i s t"
proof -
  obtain y s1 where 1: "registry_update (registry_api_of (desktop_logged A)) f s = (y, s1)" by fastforce
  from movesD [OF squiet_update [OF f(1)] 1] have q: "requests (rf_world s1) = requests (rf_world s)" .
  show ?thesis
  proof (cases y)
    case (Inl e)
    with run 1 q show ?thesis by (simp add: bindo_def stopped_first_def)
  next
    case (Inr v)
    then obtain p c where v: "y = Inr (p, c)" by (cases v) auto
    from update_outcome [OF 1] v obtain r w r' w' where r: "registry_read (rf_file s) r" "f r w = (Inr ((p, c), r'), w')"
      "rf_file s1 = document.Saved r'" unfolding replaced_def by auto
    from f(2) [OF r(2)] r(3) obtain b where b: "receiving_off i (rf_file s1)" "find_bridge i r = Inr b" "p = rg_config_path b" by auto
    have "hoare (scfg (moved (desktop_logged A) f0)) (registry_update (registry_api_of (desktop_logged A)) f)
        (\<lambda>y. scfg (at_stage_of (desktop_logged A) f0 S y)) (scfg (moved (desktop_logged A) f0))" for f0
      by (rule hoare_update [OF f(3)]) (auto dest: at_stage_moved)
    from hoare_ok [OF this moved_refl 1 [unfolded v]]
    have st: "at_stage_of (desktop_logged A) (dk_configs (rf_world s)) S (p, c) (dk_configs (rf_world s1))" .
    then have c: "cf_connection_state c \<in> S" "dk_configs (rf_world s1) (path_components p) = PlainConfig c"
      by (simp_all add: at_stage_of_def)
    from run 1 v have "g (p, c) s1 = (x, t)" by (simp add: bindo_def)
    from g [OF c b(1) this] have m: "moved (desktop_logged A) (dk_configs (rf_world s1)) (dk_configs (rf_world t))" "receiving_off i (rf_file t)" by auto
    from m(1) c(2) have "progress\<^sup>*\<^sup>* (Stage (cf_connection_state c)) (life_of (dk_configs (rf_world t) (path_components p)))"
      unfolding moved_def by (metis life_of.simps(4))
    moreover from c(1) S have "cf_connection_state c \<noteq> Connected" by metis
    ultimately obtain d where "life_of (dk_configs (rf_world t) (path_components p)) = Stage d" "d \<noteq> Connected"
      using progress_stopped by blast
    then have "\<exists>c. dk_configs (rf_world t) (bridge_path b) = PlainConfig c \<and> cf_connection_state c \<noteq> Connected"
      unfolding b(3) by (cases "dk_configs (rf_world t) (bridge_path b)") auto
    with r(1) b(2) m(2) show ?thesis unfolding stopped_first_def by blast
  qed
qed

lemma stop_closure_done:
  "stop_closure A i r w = (Inr ((p, c), r'), w') \<Longrightarrow> receiving_off i (document.Saved r') \<and> (\<exists>b. find_bridge i r = Inr b \<and> p = rg_config_path b)"
  unfolding stop_closure_def Let_def by (auto simp: op_ok dest!: set_off)

lemma exit_closure_done:
  "exit_closure A i r w = (Inr ((p, c), r'), w') \<Longrightarrow> receiving_off i (document.Saved r') \<and> (\<exists>b. find_bridge i r = Inr b \<and> p = rg_config_path b)"
  unfolding exit_closure_def Let_def by (auto simp: op_ok dest!: set_off)

lemma send_disconnect_off:
  assumes "receiving_off i (rf_file s)" and "send_disconnect A i supplied p c h s = (x, t)"
  shows "receiving_off i (rf_file t)"
proof -
  have keep: "hoare (\<lambda>s. receiving_off i (rf_file s)) m (\<lambda>_ s. receiving_off i (rf_file s)) (\<lambda>s. receiving_off i (rf_file s))"
    if "files_rest m" for m :: "('a desk, 'b) storing"
    using that by (rule hoare_moves) (auto simp: stable_def)
  have "hoare (\<lambda>s. receiving_off i (rf_file s)) (send_disconnect A i supplied p c h) (\<lambda>_ s. receiving_off i (rf_file s)) (\<lambda>s. receiving_off i (rf_file s))"
    unfolding send_disconnect_def
  proof (rule hoare_bindo [OF keep hoare_bindo [OF keep hoare_bindo [OF keep]]])
    show "hoare (\<lambda>s. receiving_off i (rf_file s)) (registry_update (registry_api_of A) (stopped_closure A i p c))
        (\<lambda>_ s. receiving_off i (rf_file s)) (\<lambda>s. receiving_off i (rf_file s))"
      by (rule hoareI) (blast intro: off_update stopped_closure_off)+
  qed simp_all
  from hoare_outcome [OF this assms] show ?thesis .
qed

text \<open>
  C11. A Folder is stopped on disk before the network hears of it: when a disconnection or a clean exit, with
  whatever outcome, has sent any request at all, the registry no longer receives for the Folder by itself
  and its configuration is in no state that a synchronisation would start from.
\<close>

theorem stopped_before_request:
  "(disconnect_folder (desktop_logged A) i supplied s = (x, t) \<longrightarrow> stopped_first i s t)
   \<and> (exit_folder (desktop_logged A) dp i supplied s = (y, u) \<longrightarrow> stopped_first i s u)"
proof (intro conjI impI)
  assume d: "disconnect_folder (desktop_logged A) i supplied s = (x, t)"
  show "stopped_first i s t"
  proof (rule stopped_first_rule [OF d [unfolded disconnect_folder_def] quiet_closures(1) stop_closure_done hoare_stop_closure])
    fix p s1 x t and c :: config
    assume a: "cf_connection_state c \<in> {DisconnectPending, Disconnected}" "receiving_off i (rf_file s1)"
      and r: "(case (p, c) of (p, c) \<Rightarrow> if cf_connection_state c = Disconnected then retn () else case cf_server c of
         Filesystem _ \<Rightarrow> fails (Bail ''unreachable'')
       | HttpServer h \<Rightarrow> send_disconnect (desktop_logged A) i supplied p c h) s1 = (x, t)"
    show "moved (desktop_logged A) (dk_configs (rf_world s1)) (dk_configs (rf_world t)) \<and> receiving_off i (rf_file t)"
    proof (cases "cf_connection_state c = Disconnected \<or> (\<exists>inbox. cf_server c = Filesystem inbox)")
      case True
      with r have "t = s1" by (auto simp: op_defs split: if_splits)
      with a(2) show ?thesis by (simp add: moved_refl)
    next
      case False
      then obtain h where h: "cf_server c = HttpServer h" by (cases "cf_server c") auto
      with r False have s: "send_disconnect (desktop_logged A) i supplied p c h s1 = (x, t)" by simp
      from a(1) False have "cf_connection_state c = DisconnectPending" by auto
      from hoare_outcome [OF hoare_send_disconnect [OF h this] moved_refl s] send_disconnect_off [OF a(2) s] show ?thesis ..
    qed
  qed auto
next
  assume e: "exit_folder (desktop_logged A) dp i supplied s = (y, u)"
  show "stopped_first i s u"
  proof (rule stopped_first_rule [OF e [unfolded exit_folder_def] quiet_closures(2) exit_closure_done hoare_exit_closure])
    fix p s1 x t and c :: config
    assume a: "cf_connection_state c \<in> {ExitPending, ExitLocalCleaned, Exited}" "receiving_off i (rf_file s1)"
        "dk_configs (rf_world s1) (path_components p) = PlainConfig c"
      and r: "(case (p, c) of (p, c) \<Rightarrow> case cf_server c of
         Filesystem _ \<Rightarrow> fails (Bail ''unreachable'')
       | HttpServer h \<Rightarrow> send_exit (desktop_logged A) dp i supplied p c h) s1 = (x, t)"
    show "moved (desktop_logged A) (dk_configs (rf_world s1)) (dk_configs (rf_world t)) \<and> receiving_off i (rf_file t)"
    proof (cases "cf_server c")
      case (Filesystem inbox)
      with r have "t = s1" by (auto simp: op_defs)
      with a(2) show ?thesis by (simp add: moved_refl)
    next
      case (HttpServer h)
      with r have s: "send_exit (desktop_logged A) dp i supplied p c h s1 = (x, t)" by simp
      have "holding (desktop_logged A) (dk_configs (rf_world s1)) p c (dk_configs (rf_world s1))"
        using a(3) by (simp add: holding_def moved_refl)
      from hoare_outcome [OF hoare_send_exit [OF HttpServer a(1)] this s] movesD [OF files_rest_exit s] a(2) show ?thesis by simp
    qed
  qed auto
qed

end
