(* ===== verification/Cleanup.thy ===== *)
theory Cleanup
  imports Stopping
begin

text \<open>
  What a clean exit does to the files of the computer: it takes away or overwrites nothing outside the
  directory that the application made for the Folder, and none of the user's originals.
\<close>

section \<open>Components of paths\<close>

definition path_root :: "string list \<Rightarrow> parts" where
  "path_root ps = (if length ps > 1 \<and> hd ps = [] then [RootDir] else if hd ps = ''.'' then [CurDir] else [])"

lemma components_of_names:
  assumes "ps \<noteq> []" and "\<forall>p \<in> set ps. slash \<notin> set p"
  shows "path_components (join_with slash ps) = path_root ps @ normal_components ps"
proof -
  have "is_absolute (join_with slash ps) \<longleftrightarrow> length ps > 1 \<and> hd ps = []"
  proof (cases ps)
    case (Cons x qs)
    show ?thesis
      using assms(2) by (cases qs; cases x) (auto simp: Cons is_absolute_def)
  qed (use assms(1) in simp)
  then show ?thesis by (simp add: path_components_def path_root_def split_join [OF assms])
qed

lemma components_names: "path_components p = path_root (split_on slash p) @ normal_components (split_on slash p)"
  using components_of_names [of "split_on slash p"] by (auto simp: split_on_parts)

lemma normal_snoc: "normal_components (bs @ [l]) = normal_components bs @ normal_components [l]"
  by (simp add: normal_components_def)

lemma path_root_snoc: "bs \<noteq> [] \<Longrightarrow> path_root (bs @ [l]) = path_root (bs @ [m])"
  by (simp add: path_root_def)

text \<open>Changing the last name stays in the directory.\<close>

lemma last_name:
  assumes "path_root (bs @ [l]) @ normal_components (bs @ [l]) = d @ [Normal x]"
  shows "prefix d (path_root (bs @ [m]) @ normal_components (bs @ [m]))"
proof (cases "bs = []")
  case True
  then show ?thesis
    using assms by (auto simp: path_root_def normal_components_def Cons_eq_append_conv split: if_splits)
next
  case False
  have "normal_components [l] = [] \<or> (\<exists>c. normal_components [l] = [c])" by (simp add: normal_components_def)
  with assms have "prefix d (path_root (bs @ [l]) @ normal_components bs)"
    by (auto simp: normal_snoc simp flip: append_assoc)
  with False path_root_snoc [OF False, of l m] show ?thesis
    by (metis append_assoc normal_snoc prefix_prefix)
qed

lemma split_suffix: "c \<notin> set s \<Longrightarrow> split_on c (p @ s) = butlast (split_on c p) @ [last (split_on c p) @ s]"
proof (induction p)
  case Nil
  then show ?case by (simp add: split_on_single)
next
  case (Cons x p)
  obtain y ys where y: "split_on c p = y # ys" by (cases "split_on c p") auto
  with Cons show ?case by (cases ys) auto
qed

lemma suffix_under:
  assumes "path_components p = d @ [Normal x]" and "slash \<notin> set s"
  shows "path_under (path_components (p @ s)) d"
proof -
  obtain bs l where b: "split_on slash p = bs @ [l]" by (metis append_butlast_last_id split_on_nonempty)
  from assms(1) have "path_root (bs @ [l]) @ normal_components (bs @ [l]) = d @ [Normal x]"
    by (simp add: components_names b)
  from last_name [OF this, of "l @ s"] show ?thesis
    by (simp add: path_under_def components_names split_suffix [OF assms(2)] b)
qed

lemma join_components:
  assumes "s \<noteq> []" and "s \<noteq> ''.''" and "slash \<notin> set s"
  shows "path_components (path_join b s) = path_components b @ normal_components [s]"
proof -
  have a: "\<not> is_absolute s" using assms(3) by (cases s) (auto simp: is_absolute_def)
  consider "b = []" | a where "b = a @ [slash]" | "b \<noteq> []" "\<not> suffix [slash] b" by (auto simp: suffix_def)
  then show ?thesis
  proof cases
    case 1
    with a assms show ?thesis
      by (simp add: path_join_def components_names split_on_single path_root_def) (simp add: normal_components_def)
  next
    case 2
    with a assms show ?thesis
      by (simp add: path_join_def suffix_def components_names split_on_append2 split_on_single path_root_def)
        (simp add: normal_components_def hd_append)
  next
    case 3
    with a assms have "path_join b s = b @ slash # s" by (simp add: path_join_def)
    moreover have "path_root (split_on slash b @ [s]) = path_root (split_on slash b)"
    proof (cases "split_on slash b")
      case (Cons x qs)
      have "b = []" if "qs = []" "x = []" using join_split [of slash b] that by (simp add: Cons)
      with 3(1) Cons show ?thesis by (auto simp: path_root_def)
    qed simp
    ultimately show ?thesis
      using assms(3) by (simp add: components_names split_on_append2 split_on_single normal_snoc)
  qed
qed

lemma dropped_names:
  fixes ps :: "string list"
  assumes "ns = rev (dropWhile (\<lambda>c. c = [] \<or> c = ''.'') (rev ps))"
  shows "normal_components ps = normal_components ns \<and> (ns \<noteq> [] \<longrightarrow> last ns \<noteq> [] \<and> last ns \<noteq> ''.'') \<and> prefix ns ps"
proof -
  define zs where "zs = takeWhile (\<lambda>c. c = [] \<or> c = ''.'') (rev ps)"
  have "rev ps = zs @ rev ns" by (simp add: zs_def assms)
  then have p: "ps = ns @ rev zs" by (metis rev_append rev_rev_ident)
  have "\<forall>c \<in> set zs. c = [] \<or> c = ''.''" by (auto simp: zs_def dest: set_takeWhileD)
  then have "normal_components ps = normal_components ns" by (auto simp: normal_components_def p filter_empty_conv)
  moreover have "last ns \<noteq> [] \<and> last ns \<noteq> ''.''" if "ns \<noteq> []"
  proof -
    from that have "dropWhile (\<lambda>c. c = [] \<or> c = ''.'') (rev ps) \<noteq> []" by (simp add: assms)
    from hd_dropWhile [OF this] show ?thesis by (simp add: assms last_rev)
  qed
  ultimately show ?thesis using p by simp
qed

lemma extension_under:
  assumes "path_components p = d @ [Normal x]" and "slash \<notin> set e"
  shows "path_under (path_components (with_extension p e)) d"
proof -
  define ns where "ns = rev (dropWhile (\<lambda>c. c = [] \<or> c = ''.'') (rev (split_on slash p)))"
  from dropped_names [OF ns_def] have n: "normal_components (split_on slash p) = normal_components ns"
    "ns \<noteq> [] \<longrightarrow> last ns \<noteq> [] \<and> last ns \<noteq> ''.''" "prefix ns (split_on slash p)" by blast+
  from assms(1) have c: "path_root (split_on slash p) @ normal_components ns = d @ [Normal x]"
    by (simp add: components_names n(1))
  show ?thesis
  proof (cases "ns = [] \<or> last ns = ''..''")
    case True
    then have "with_extension p e = p" by (simp add: with_extension_def ns_def Let_def)
    with assms(1) show ?thesis by (simp add: path_under_def)
  next
    case False
    then obtain bs l where b: "ns = bs @ [l]" "l \<noteq> ''..''" "l \<noteq> []" "l \<noteq> ''.''" using n(2) by (metis append_butlast_last_id last_snoc)
    from n(3) obtain zs where z: "split_on slash p = bs @ l # zs" by (auto simp: b(1) prefix_def)
    have free: "\<forall>q \<in> set (bs @ [l]). slash \<notin> set q" using split_on_parts [of _ slash p] by (auto simp: z)
    have ends: "ns \<noteq> []" "last ns = l" "butlast ns = bs" by (simp_all add: b(1))
    obtain stem where s: "with_extension p e = join_with slash (bs @ [stem @ CHR ''.'' # e])" "slash \<notin> set stem"
    proof (rule that)
      let ?stem = "case rsplit_once (CHR ''.'') l of Some (a, _) \<Rightarrow> if a = [] then l else a | None \<Rightarrow> l"
      show "with_extension p e = join_with slash (bs @ [?stem @ CHR ''.'' # e])"
        using b(2) by (simp add: with_extension_def ns_def [symmetric] Let_def ends split: option.split)
      show "slash \<notin> set ?stem" using free by (auto simp: rsplit_once_eq split: option.splits)
    qed
    have r: "path_root (split_on slash p) = path_root (bs @ [l])"
      using b(3,4) by (cases bs) (auto simp: path_root_def z)
    from s(2) free assms(2) have "path_components (with_extension p e)
        = path_root (bs @ [stem @ CHR ''.'' # e]) @ normal_components (bs @ [stem @ CHR ''.'' # e])"
      unfolding s(1) by (intro components_of_names) auto
    with last_name [OF c [unfolded r b(1)], of "stem @ CHR ''.'' # e"] show ?thesis by (simp add: path_under_def)
  qed
qed

section \<open>What is spared\<close>

definition keeps :: "(parts \<Rightarrow> bool) \<Rightarrow> 'w desk \<Rightarrow> 'w desk \<Rightarrow> bool" where
  "keeps P d d' \<longleftrightarrow> (\<forall>q k. map_of (dk_files d) q = Some k \<longrightarrow> map_of (dk_files d') q = Some k \<or> P q)"

lemma keeps_trans: "keeps P a b \<Longrightarrow> keeps P b c \<Longrightarrow> keeps P a c"
  unfolding keeps_def by blast

lemma keeps_refl [simp]: "dk_files d' = dk_files d \<Longrightarrow> keeps P d d'"
  by (simp add: keeps_def)

abbreviation spares :: "(parts \<Rightarrow> bool) \<Rightarrow> ('w desk, 'a) op \<Rightarrow> bool" where
  "spares P m \<equiv> moves (keeps P) m"

lemma spares_bindo [pres_intros]: "spares P m \<Longrightarrow> (\<And>x. spares P (f x)) \<Longrightarrow> spares P (bindo m f)"
  by (rule moves_bindo) (rule keeps_trans)

lemma spares_atoms [simp]:
  "spares P (retn x)" "spares P (fails e)" "spares P (lifto r)" "spares P (readso g)"
  "spares P (asking h)" "spares P (on_net m)" "spares P (modifyo (set_config p f))" "spares P (closing x k g')"
  by (auto simp: moves_def op_defs asking_def asked_def on_net_def set_config_def closing_def split: prod.split sum.split)

text \<open>What was read, checked or resolved is known from then on.\<close>

lemma spares_reads: "(\<And>d. keeps P d (snd (g (f d) d))) \<Longrightarrow> spares P (bindo (readso (\<lambda>d. Inr (f d))) g)"
  by (simp add: moves_def bindo_def readso_def)

lemma spares_guard: "(c \<Longrightarrow> spares P (f ())) \<Longrightarrow> spares P (bindo (lifto (ensure c message)) f)"
  by (cases c) (simp_all add: moves_def bindo_lifto ensure_def)

lemma spares_canon:
  "(\<And>q fs. da_canon A fs (path_components p) = Some q \<Longrightarrow> spares P (f q)) \<Longrightarrow> spares P (bindo (canonicalize A p) f)"
  unfolding canonicalize_def moves_def bindo_def readso_def lifto_def of_option_def by (auto split: option.split)

lemma spares_calls [simp]: "spares P (fs_call A)" "spares P (create_dir A q)" "spares P (create_dir_all A q)"
  "spares P (create_parent A p)" "spares P (lock_exclusive A p)" "spares P (operation_lock A p)"
proof -
  show f: "spares P (fs_call A)" unfolding fs_call_def by (intro spares_bindo) simp_all
  have d: "spares P (create_dir A q)" for q
    unfolding create_dir_def
    by (intro spares_bindo [OF f] spares_reads)
      (auto simp: keeps_def bindo_def op_defs ensure_def update_conv' split: if_splits)
  then show "spares P (create_dir A q)" .
  have "spares P (for_each (create_dir A) ys)" for ys by (induction ys) (auto intro!: spares_bindo d)
  then have a: "spares P (create_dir_all A q)" for q by (simp add: create_dir_all_def)
  then show "spares P (create_dir_all A q)" .
  show c: "spares P (create_parent A p)" for p by (simp add: create_parent_def a)
  show l: "spares P (lock_exclusive A p)" for p
    unfolding lock_exclusive_def
    by (intro spares_bindo [OF c] spares_bindo [OF f] spares_reads)
      (auto simp: keeps_def op_defs put_file_def update_conv' split: option.split local_kind.split)
  show "spares P (operation_lock A p)" by (simp add: operation_lock_def l)
qed

lemma spares_writes:
  assumes "P (path_components p)"
  shows "spares P (write_state_file A p b)"
proof -
  have "spares P (modifyo (put_file p b))"
    using assms by (auto simp: moves_def op_defs keeps_def put_file_def update_conv')
  then show ?thesis
    unfolding write_state_file_def by (intro spares_bindo) (auto split: write_outcome.split intro!: spares_bindo)
qed

lemma spares_drop:
  assumes "P p"
  shows "spares P (drop_file A p)"
proof -
  have "spares P (modifyo (\<lambda>d. d\<lparr>dk_files := AList.delete p (dk_files d)\<rparr>))"
    using assms by (auto simp: moves_def op_defs keeps_def delete_conv')
  then show ?thesis unfolding drop_file_def by (intro spares_bindo) simp_all
qed

lemma spares_for_each: "(\<And>x. spares P (f x)) \<Longrightarrow> spares P (for_each f xs)"
  by (induction xs) (auto intro!: spares_bindo)

lemma spares_tree: "(\<And>q. path_under q p \<Longrightarrow> P q) \<Longrightarrow> spares P (remove_owned_tree n A p)"
proof (induction n arbitrary: p)
  case (Suc n)
  have d: "spares P (drop_file A p)" by (rule spares_drop) (simp add: Suc.prems path_under_def)
  have c: "spares P (remove_owned_tree n A (p @ [name]))" for name
  proof (rule Suc.IH)
    fix q assume "path_under q (p @ [name])"
    then have "path_under q p" by (simp add: path_under_def) (metis append_prefixD)
    with Suc.prems show "P q" .
  qed
  show ?case
    using c d by (auto split: option.split local_kind.split intro!: spares_bindo spares_for_each)
qed simp

section \<open>The cleanup\<close>

text \<open>A path that is no original: it is not below the library, wherever that is.\<close>

definition beside_library :: "'w desktop_api \<Rightarrow> config \<Rightarrow> parts \<Rightarrow> bool" where
  "beside_library A c q \<longleftrightarrow> (\<exists>fs library. da_canon A fs (path_components (cf_library_dir c)) = Some library \<and> \<not> path_under q library)"

definition disposable :: "'w desktop_api \<Rightarrow> desktop_paths \<Rightarrow> string \<Rightarrow> config \<Rightarrow> parts \<Rightarrow> bool" where
  "disposable A dp i c q \<longleftrightarrow> path_under q (path_components (path_join (dp_data_dir dp) i)) \<and> beside_library A c q"

lemma disjoint_under: "\<not> path_under l r \<Longrightarrow> \<not> path_under r l \<Longrightarrow> path_under q r \<Longrightarrow> \<not> path_under q l"
  unfolding path_under_def by (meson prefix_same_cases)

lemma under_trans: "path_under a b \<Longrightarrow> path_under b c \<Longrightarrow> path_under a c"
  by (auto simp: path_under_def)

text \<open>The checks of the cleanup make everything that it changes disposable.\<close>

lemma checked_disposable:
  assumes "path_components (cf_state_file c) = path_components (path_join (path_join (dp_data_dir dp) i) ''state.json'')"
    and "real = path_components (path_join (dp_data_dir dp) i)"
    and "da_canon A fs (path_components (cf_library_dir c)) = Some library"
    and "\<not> path_under library real \<and> \<not> path_under real library"
  shows "disposable A dp i c (path_components (path_join (directory_state_dir c) ''retired.json''))"
    and "disposable A dp i c (path_components (with_extension (cf_state_file c) ''json.retired''))"
    and "path_under q (path_components (directory_state_dir c)) \<Longrightarrow> disposable A dp i c q"
    and "path_under q (path_components (cf_state_file c)) \<Longrightarrow> disposable A dp i c q"
proof -
  have s: "path_components (cf_state_file c) = real @ [Normal ''state.json'']"
    unfolding assms(1,2) by (simp add: join_components normal_components_def)
  have dir: "path_under (path_components (directory_state_dir c)) real"
    unfolding directory_state_dir_def by (rule suffix_under [OF s]) simp
  have d: "disposable A dp i c q" if "path_under q real" for q
    using that assms(2,3) disjoint_under [of library real] assms(4) unfolding disposable_def beside_library_def by blast
  show "disposable A dp i c (path_components (path_join (directory_state_dir c) ''retired.json''))"
    by (rule d) (use dir in \<open>simp add: join_components path_under_def normal_components_def\<close>)
  show "disposable A dp i c (path_components (with_extension (cf_state_file c) ''json.retired''))"
    by (rule d [OF extension_under [OF s]]) simp
  show "path_under q (path_components (directory_state_dir c)) \<Longrightarrow> disposable A dp i c q"
    using under_trans [OF _ dir] d by blast
  show "path_under q (path_components (cf_state_file c)) \<Longrightarrow> disposable A dp i c q"
    using under_trans [of q "path_components (cf_state_file c)" real] d by (simp add: s path_under_def)
qed

lemma spares_clean: "spares (disposable A dp i c) (clean_local A dp i p c)"
  unfolding clean_local_def Let_def
  apply (intro spares_guard spares_canon)
  apply (elim conjE)
  apply (intro spares_bindo)
  subgoal by simp
  subgoal by simp
  subgoal by (auto split: option.split intro!: spares_bindo spares_writes checked_disposable(1))
  subgoal by (auto intro!: spares_writes checked_disposable(2))
  subgoal by (rule spares_tree) (rule checked_disposable(3); simp)
  subgoal by (rule spares_tree) (rule checked_disposable(4); simp)
  done

section \<open>The clean exit\<close>

abbreviation sspares :: "(parts \<Rightarrow> bool) \<Rightarrow> ('w desk, 'a) storing \<Rightarrow> bool" where
  "sspares P m \<equiv> moves (\<lambda>s t. keeps P (rf_world s) (rf_world t)) m"

lemma sspares_bindo [pres_intros]: "sspares P m \<Longrightarrow> (\<And>x. sspares P (f x)) \<Longrightarrow> sspares P (bindo m f)"
  by (rule moves_bindo) (blast intro: keeps_trans)

lemma sspares_atoms [simp]: "sspares P (retn x)" "sspares P (fails e)" "sspares P (lifto r)" "sspares P (readso g)"
  "sspares P (modifyo (\<lambda>s. s\<lparr>rf_file := d\<rparr>))"
  by (auto simp: moves_def op_defs)

lemma sspares_in_world: "spares P m \<Longrightarrow> sspares P (in_world m)"
  by (auto simp: moves_def in_world_def split: prod.split) (metis snd_conv)

lemma sspares_with_world [simp]: "sspares P (with_world (asked h))"
  by (simp add: moves_def with_world_def asked_def split: prod.split)

lemma sspares_registry [simp]: "sspares P (store_access (registry_api_of A))"
  "sspares P (registry_load_unlocked (registry_api_of A))" "sspares P (registry_load (registry_api_of A))"
proof -
  show a: "sspares P (store_access (registry_api_of A))"
    unfolding store_access_def by (intro sspares_bindo) (simp_all add: registry_api_of_def)
  show l: "sspares P (registry_load_unlocked (registry_api_of A))"
    unfolding registry_load_unlocked_def by (intro sspares_bindo a) (auto split: document.split intro!: sspares_bindo)
  show "sspares P (registry_load (registry_api_of A))"
    unfolding registry_load_def by (intro sspares_bindo a l)
qed

lemma sspares_update:
  assumes "\<And>r. spares P (f r)"
  shows "sspares P (registry_update (registry_api_of A) f)"
proof -
  have "sspares P (registry_save_unlocked (registry_api_of A) r)" for r
    unfolding registry_save_unlocked_def
    by (intro sspares_bindo) (auto simp: registry_api_of_def split: write_outcome.split intro!: sspares_bindo)
  then show ?thesis
    unfolding registry_update_def using assms
    by (auto intro!: sspares_bindo sspares_in_world split: prod.split)
qed

lemma spares_configs [simp]: "spares P (config_parse A c)" "spares P (load_config_for_read A p)" "spares P (load_editable_config A p)"
  "spares P (config_save A c p force)"
proof -
  show c: "spares P (config_parse A c)" for c unfolding config_parse_def by (intro spares_bindo) simp_all
  show "spares P (load_config_for_read A p)" "spares P (load_editable_config A p)"
    unfolding load_config_for_read_def load_editable_config_def
    by (intro spares_bindo; simp add: c split: config_file.split)+
  show "spares P (config_save A c p force)"
    unfolding config_save_def by (intro spares_bindo) (auto split: write_outcome.split intro!: spares_bindo)
qed

lemma sspares_registered [simp]: "sspares P (load_registered_config A i p)"
proof -
  have "spares P (ensure_resources_unique U canon (load_config_for_read A) r x e)" for U canon r x e
    unfolding ensure_resources_unique_def
    by (auto split: option.split intro!: spares_for_each spares_bindo)
  then show ?thesis
    unfolding load_registered_config_def by (intro sspares_bindo sspares_in_world spares_bindo) simp_all
qed

lemma sspares_send_exit: "sspares (disposable A dp i c) (send_exit A dp i supplied p c h)"
  unfolding send_exit_def finish_exit_def
  by (intro sspares_bindo sspares_in_world) (auto intro!: sspares_bindo sspares_in_world spares_clean)

lemma spares_exit_closure: "spares P (exit_closure A i r)"
  unfolding exit_closure_def Let_def by (intro spares_bindo) simp_all

section \<open>The configuration and the registry\<close>

text \<open>All that may change of a configuration is its connection state.\<close>

definition only_stage :: "config_file \<Rightarrow> config_file \<Rightarrow> bool" where
  "only_stage a b \<longleftrightarrow> a = b \<or> (\<exists>c st. a = PlainConfig c \<and> b = PlainConfig (c\<lparr>cf_connection_state := st\<rparr>))"

definition touches :: "parts \<Rightarrow> (parts \<Rightarrow> config_file) \<Rightarrow> (parts \<Rightarrow> config_file) \<Rightarrow> bool" where
  "touches q f g \<longleftrightarrow> (\<forall>p. p \<noteq> q \<longrightarrow> g p = f p) \<and> only_stage (f q) (g q)"

lemma touches_refl [simp]: "touches q f f"
  by (simp add: touches_def only_stage_def)

lemma only_stage_change:
  "only_stage a (PlainConfig c) \<Longrightarrow> only_stage a (PlainConfig (c\<lparr>cf_connection_state := st\<rparr>))"
  by (auto simp: only_stage_def)

lemma touches_save:
  "touches q f g \<Longrightarrow> only_stage (f q) (PlainConfig c) \<Longrightarrow> touches q f (g(q := PlainConfig (c\<lparr>cf_connection_state := st\<rparr>)))"
  by (simp add: touches_def only_stage_change)

text \<open>What an update of the registry leaves, with what its closure does to the configurations.\<close>

lemma update_documents:
  assumes run: "registry_update (registry_api_of A) f s = (x, t)"
    and f: "\<And>r. hoare (cfg (\<lambda>g. g = dk_configs (rf_world s))) (f r) (\<lambda>y. cfg (Q r (fst y))) (cfg (E r))"
    and E: "\<forall>r y g. Q r y g \<longrightarrow> E r g"
  shows "dk_configs (rf_world t) = dk_configs (rf_world s) \<and> rf_file t = rf_file s \<and> \<not> is_ok x
     \<or> (\<exists>r. registry_read (rf_file s) r \<and> E r (dk_configs (rf_world t)) \<and> (\<forall>y. x = Inr y \<longrightarrow> Q r y (dk_configs (rf_world t)))
          \<and> (rf_file t = rf_file s \<or> (\<exists>y r' w w'. f r w = (Inr (y, r'), w') \<and> rf_file t = document.Saved r')))"
proof -
  let ?A = "registry_api_of A"
  obtain o1 s1 where 1: "store_access ?A s = (o1, s1)" by fastforce
  have c1: "dk_configs (rf_world s1) = dk_configs (rf_world s)" by (rule movesD [OF sleaves_access 1])
  obtain o2 s2 where 2: "registry_load_unlocked ?A s1 = (o2, s2)" by fastforce
  have c2: "dk_configs (rf_world s2) = dk_configs (rf_world s)" using movesD [OF sleaves_load(2) 2] c1 by simp
  note d = store_access_file [OF 1] load_unlocked_file [OF 2]
  show ?thesis
  proof (cases "is_ok o1 \<and> is_ok o2")
    case False
    with run 1 2 c1 c2 d show ?thesis by (cases o1; cases o2) (auto simp: registry_update_def bindo_def)
  next
    case True
    then obtain u r where o: "o1 = Inr u" "o2 = Inr r" by (auto simp: is_ok_iff)
    with d have r: "registry_read (rf_file s) r" "rf_file s2 = rf_file s" by auto
    obtain o3 w where 3: "f r (rf_world s2) = (o3, w)" by fastforce
    show ?thesis
    proof (cases o3)
      case (Inl e)
      have "E r (dk_configs w)" by (rule hoare_err [OF f c2 3 [unfolded Inl]])
      with run 1 2 3 o Inl r show ?thesis by (auto simp: registry_update_def bindo_def in_world_def)
    next
      case (Inr z)
      obtain y r' where z: "z = (y, r')" by fastforce
      have q: "Q r y (dk_configs w)" using hoare_ok [OF f c2 3 [unfolded Inr]] by (simp add: z)
      let ?s3 = "s2\<lparr>rf_world := w\<rparr>"
      have a: "bindo (lifto (validate_registry r')) (\<lambda>_. bindo (registry_save_unlocked ?A r') (\<lambda>_. retn y)) ?s3 = (x, t)"
        using run 1 2 3 o Inr z by (simp add: registry_update_def bindo_def in_world_def)
      have y: "x = Inr v \<Longrightarrow> v = y" for v using a by (auto simp: op_ok)
      have "sleaves (bindo (lifto (validate_registry r')) (\<lambda>_. bindo (registry_save_unlocked ?A r') (\<lambda>_. retn y)))"
        by (intro sleaves_bindo) simp_all
      from movesD [OF this a] have c: "dk_configs (rf_world t) = dk_configs w" by simp
      have "rf_file t = rf_file ?s3 \<or> rf_file t = document.Saved r'"
        using a by (auto simp: bindo_def op_defs split: prod.splits sum.splits dest!: save_unlocked_file)
      with q E y c r 3 Inr z show ?thesis by auto
    qed
  qed
qed

text \<open>The configuration that the exit works with is the one on disk, but for its state.\<close>

lemma exit_closure_configs:
  "hoare (cfg (\<lambda>f. f = f0)) (exit_closure A i r)
     (\<lambda>y. cfg (\<lambda>f. \<exists>b. find_bridge i r = Inr b \<and> fst (fst y) = rg_config_path b \<and> touches (bridge_path b) f0 f
        \<and> only_stage (f0 (bridge_path b)) (PlainConfig (snd (fst y)))))
     (cfg (\<lambda>f. f = f0 \<or> (\<exists>b. find_bridge i r = Inr b \<and> touches (bridge_path b) f0 f)))"
proof (cases "find_bridge i r")
  case (Inl e)
  then show ?thesis by (auto intro!: hoareI simp: exit_closure_def bindo_def lifto_def)
next
  case (Inr b)
  let ?q = "bridge_path b"
  let ?E = "cfg (\<lambda>f. f = f0 \<or> (\<exists>b. find_bridge i r = Inr b \<and> touches (bridge_path b) f0 f)) :: 'a desk \<Rightarrow> bool"
  have known: "bindo (lifto (Inr b)) g = g b" for g :: "registration \<Rightarrow> ('a desk, 'b) op"
    by (simp add: fun_eq_iff bindo_lifto)
  define ok where "ok = (\<lambda>c f. touches ?q f0 f \<and> only_stage (f0 ?q) (PlainConfig c))"
  have save: "hoare (cfg (\<lambda>f. f = f0 \<and> f ?q = PlainConfig c))
      (if fresh then config_save A (if fresh then c\<lparr>cf_connection_state := ExitPending\<rparr> else c) (rg_config_path b) True else retn ())
      (\<lambda>_. cfg (ok (if fresh then c\<lparr>cf_connection_state := ExitPending\<rparr> else c))) ?E" for fresh c
  proof (cases fresh)
    case True
    have "hoare (cfg (\<lambda>f. f = f0 \<and> f ?q = PlainConfig c)) (config_save A (c\<lparr>cf_connection_state := ExitPending\<rparr>) (rg_config_path b) True)
        (\<lambda>_. cfg (ok (c\<lparr>cf_connection_state := ExitPending\<rparr>))) ?E"
      by (rule hoare_config_save) (auto simp: ok_def touches_def only_stage_def Inr)
    with True show ?thesis by simp
  next
    case False
    then show ?thesis by (auto intro!: hoare_retn simp: ok_def only_stage_def)
  qed
  have end_: "hoare (cfg (ok c)) (closing (rg_config_path b, c) (registry_set_auto_receive i False) r)
      (\<lambda>y. cfg (\<lambda>f. \<exists>b. find_bridge i r = Inr b \<and> fst (fst y) = rg_config_path b \<and> touches (bridge_path b) f0 f
        \<and> only_stage (f0 (bridge_path b)) (PlainConfig (snd (fst y))))) ?E" for c
    by (rule hoare_weaken [OF hoare_closing [where E = "ok c"]]) (auto simp: ok_def Inr)
  show ?thesis
    unfolding exit_closure_def Let_def Inr known
    by (rule hoare_bindo [OF hoare_load_editable hoare_bindo [OF leaves_hoare hoare_bindo [OF leaves_hoare
          hoare_bindo [OF save [unfolded Inr] end_ [unfolded Inr]]]]]) auto
qed

text \<open>After the closure only the state of that configuration changes, and the registry rests.\<close>

lemma sleaves_pres: "sleaves m \<Longrightarrow> pres (scfg C) m"
  by (auto simp: moves_def pres_def)

lemma touches_send:
  assumes "only_stage (f0 (path_components p)) (PlainConfig c)"
  shows "pres (scfg (touches (path_components p) f0)) (send_exit A dp i supplied p c h)"
proof -
  let ?P = "scfg (touches (path_components p) f0)"
  have s: "pres ?P (in_world (config_save A (c\<lparr>cf_connection_state := st\<rparr>) p True))" for st
    unfolding pres_hoare
    by (rule hoare_in_world [OF hoare_config_save]) (use assms in \<open>auto intro: touches_save simp del: fun_upd_apply\<close>)
  show ?thesis
    unfolding send_exit_def finish_exit_def by (intro pres_intros s sleaves_pres) simp_all
qed

lemma closing_edits: "closing v g r w = (Inr (y, r'), w') \<Longrightarrow> \<exists>u. g r = (Inr u, r')"
  by (auto simp: closing_def op_defs split: prod.splits sum.splits)

lemma exit_documents:
  assumes "exit_folder A dp i supplied s = (x, t)"
  shows "(dk_configs (rf_world t) = dk_configs (rf_world s)
       \<or> (\<exists>r b. registry_read (rf_file s) r \<and> find_bridge i r = Inr b
            \<and> touches (bridge_path b) (dk_configs (rf_world s)) (dk_configs (rf_world t))))
     \<and> (rf_file t = rf_file s \<or> (\<exists>r r'. registry_read (rf_file s) r \<and> registry_set_auto_receive i False r = (Inr (), r')
            \<and> rf_file t = document.Saved r'))"
proof -
  let ?f0 = "dk_configs (rf_world s)"
  obtain y s1 where 1: "registry_update (registry_api_of A) (exit_closure A i) s = (y, s1)" by fastforce
  define Q where "Q = (\<lambda>r v f. \<exists>b. find_bridge i r = Inr b \<and> fst v = rg_config_path b \<and> touches (bridge_path b) ?f0 f
        \<and> only_stage (?f0 (bridge_path b)) (PlainConfig (snd v)))"
  define E where "E = (\<lambda>r f. f = ?f0 \<or> (\<exists>b. find_bridge i r = Inr b \<and> touches (bridge_path b) ?f0 f))"
  have off: "registry_set_auto_receive i False r = (Inr (), r')" if "exit_closure A i r w = (Inr (v, r'), w')" for r v r' w w'
    using that unfolding exit_closure_def Let_def by (auto simp: op_ok dest!: closing_edits)
  have h: "hoare (cfg (\<lambda>g. g = ?f0)) (exit_closure A i r) (\<lambda>y. cfg (Q r (fst y))) (cfg (E r))" for r
    unfolding Q_def E_def by (rule exit_closure_configs)
  have QE: "\<forall>r v g. Q r v g \<longrightarrow> E r g" by (auto simp: Q_def E_def)
  note d = update_documents [OF 1 h QE]
  have registry: "rf_file s1 = rf_file s \<or> (\<exists>r r'. registry_read (rf_file s) r \<and> registry_set_auto_receive i False r = (Inr (), r')
            \<and> rf_file s1 = document.Saved r')"
  proof (cases "rf_file s1 = rf_file s")
    case False
    with d obtain r v r' w w' where r: "registry_read (rf_file s) r" "exit_closure A i r w = (Inr (v, r'), w')"
      "rf_file s1 = document.Saved r'" by blast
    from r(1,3) off [OF r(2)] show ?thesis by blast
  qed simp
  show ?thesis
  proof (cases y)
    case (Inl e)
    with assms 1 have "t = s1" by (simp add: exit_folder_def bindo_def)
    with d registry show ?thesis by (auto simp: E_def)
  next
    case (Inr v)
    obtain p c where v: "v = (p, c)" by fastforce
    from d Inr obtain r where r: "registry_read (rf_file s) r" "Q r v (dk_configs (rf_world s1))" by auto
    then obtain b where b: "find_bridge i r = Inr b" "p = rg_config_path b" "touches (bridge_path b) ?f0 (dk_configs (rf_world s1))"
      "only_stage (?f0 (bridge_path b)) (PlainConfig c)" by (auto simp: Q_def v)
    from assms 1 Inr v have g: "(case cf_server c of Filesystem _ \<Rightarrow> fails (Bail ''unreachable'')
        | HttpServer h \<Rightarrow> send_exit A dp i supplied p c h) s1 = (x, t)" by (simp add: exit_folder_def bindo_def)
    have "touches (bridge_path b) ?f0 (dk_configs (rf_world t)) \<and> rf_file t = rf_file s1"
    proof (cases "cf_server c")
      case (Filesystem n)
      with g b(3) show ?thesis by (simp add: op_defs)
    next
      case (HttpServer h)
      with g have m: "send_exit A dp i supplied p c h s1 = (x, t)" by simp
      from presD2 [OF touches_send [of ?f0 p c, OF b(4) [folded b(2)]] _ m] b(3) movesD [OF files_rest_exit m] show ?thesis by (simp add: b(2))
    qed
    with r(1) b(1) registry show ?thesis by auto
  qed
qed

text \<open>What is taken away is the application's own, and is not below the library of the configuration on disk.\<close>

lemma exit_files:
  assumes "exit_folder A dp i supplied s = (x, t)" and "map_of (dk_files (rf_world s)) q = Some k"
    and "map_of (dk_files (rf_world t)) q \<noteq> Some k"
  shows "path_under q (path_components (path_join (dp_data_dir dp) i))
     \<and> (\<exists>r b c. registry_read (rf_file s) r \<and> find_bridge i r = Inr b
          \<and> dk_configs (rf_world s) (bridge_path b) = PlainConfig c \<and> beside_library A c q)"
proof -
  obtain y s1 where 1: "registry_update (registry_api_of A) (exit_closure A i) s = (y, s1)" by fastforce
  have "keeps (\<lambda>_. False) (rf_world s) (rf_world s1)" by (rule movesD [OF sspares_update [OF spares_exit_closure] 1])
  with assms(2) have k: "map_of (dk_files (rf_world s1)) q = Some k" by (simp add: keeps_def)
  with assms(1,3) 1 obtain p c where y: "y = Inr (p, c)" by (cases y) (auto simp: exit_folder_def bindo_def)
  from assms(1) 1 y have "(case cf_server c of Filesystem _ \<Rightarrow> fails (Bail ''unreachable'')
      | HttpServer h \<Rightarrow> send_exit A dp i supplied p c h) s1 = (x, t)"
    by (simp add: exit_folder_def bindo_def)
  with assms(3) k obtain h where "send_exit A dp i supplied p c h s1 = (x, t)" by (cases "cf_server c") (auto simp: op_defs)
  from movesD [OF sspares_send_exit this] k assms(3) have d: "disposable A dp i c q" unfolding keeps_def by blast
  from update_documents [OF 1 exit_closure_configs] y obtain r b where r: "registry_read (rf_file s) r" "find_bridge i r = Inr b"
    "only_stage (dk_configs (rf_world s) (bridge_path b)) (PlainConfig c)" by fastforce
  then obtain c0 where c: "dk_configs (rf_world s) (bridge_path b) = PlainConfig c0" "cf_library_dir c0 = cf_library_dir c"
    by (auto simp: only_stage_def)
  from d c(2) have "beside_library A c0 q" by (simp add: disposable_def beside_library_def)
  with d r(1,2) c(1) show ?thesis unfolding disposable_def by auto
qed

text \<open>
  C12. A clean exit, however far it gets, takes away or overwrites no file but those in the directory that the
  application made for the Folder, and none that is in the library where the user's originals are. Of all
  configurations it changes the Folder's only, and of that one only the connection state; of the registry it
  changes nothing but that the Folder does not receive by itself any more.
\<close>

theorem originals_kept:
  assumes "exit_folder A dp i supplied s = (x, t)"
  shows "(\<forall>q k. map_of (dk_files (rf_world s)) q = Some k \<and> map_of (dk_files (rf_world t)) q \<noteq> Some k \<longrightarrow>
       path_under q (path_components (path_join (dp_data_dir dp) i))
       \<and> (\<exists>r b c. registry_read (rf_file s) r \<and> find_bridge i r = Inr b
            \<and> dk_configs (rf_world s) (bridge_path b) = PlainConfig c \<and> beside_library A c q))
     \<and> (\<forall>q. dk_configs (rf_world t) q \<noteq> dk_configs (rf_world s) q \<longrightarrow>
          (\<exists>r b c st. registry_read (rf_file s) r \<and> find_bridge i r = Inr b \<and> q = bridge_path b
             \<and> dk_configs (rf_world s) q = PlainConfig c \<and> dk_configs (rf_world t) q = PlainConfig (c\<lparr>cf_connection_state := st\<rparr>)))
     \<and> (rf_file t = rf_file s \<or> (\<exists>r r'. registry_read (rf_file s) r \<and> registry_set_auto_receive i False r = (Inr (), r')
            \<and> rf_file t = document.Saved r'))"
proof (intro conjI allI impI)
  fix q assume q: "dk_configs (rf_world t) q \<noteq> dk_configs (rf_world s) q"
  with exit_documents [OF assms] obtain r b where "registry_read (rf_file s) r" "find_bridge i r = Inr b"
    "touches (bridge_path b) (dk_configs (rf_world s)) (dk_configs (rf_world t))" by auto
  moreover from this(3) q have e: "q = bridge_path b" unfolding touches_def by metis
  moreover from calculation(3) have "only_stage (dk_configs (rf_world s) q) (dk_configs (rf_world t) q)"
    unfolding touches_def e by simp
  moreover note q
  ultimately show "\<exists>r b c st. registry_read (rf_file s) r \<and> find_bridge i r = Inr b \<and> q = bridge_path b
      \<and> dk_configs (rf_world s) q = PlainConfig c \<and> dk_configs (rf_world t) q = PlainConfig (c\<lparr>cf_connection_state := st\<rparr>)"
    unfolding only_stage_def by metis
next
  show "rf_file t = rf_file s \<or> (\<exists>r r'. registry_read (rf_file s) r \<and> registry_set_auto_receive i False r = (Inr (), r')
      \<and> rf_file t = document.Saved r')"
    using exit_documents [OF assms] by blast
qed (use exit_files [OF assms] in blast)+

end
