(* ===== verification/LifecycleRun.thy ===== *)
theory LifecycleRun
  imports Stopping
begin

text \<open>A run of the desktop: a Folder that is disconnected with the server's confirmation.\<close>

section \<open>The desktop\<close>

definition sample_server :: string where
  "sample_server = ''/f/'' @ sample_id (CHR ''f'') @ [slash]"

definition sample_scoped :: config where
  "sample_scoped = \<lparr>cf_schema_version = CONFIG_SCHEMA_VERSION, cf_connection_state = Connected,
     cf_directory_sync = False, cf_device_id = ''linux'', cf_server = HttpServer
       \<lparr>hs_base_url = sample_server, hs_token_env = ''T'', hs_request_timeout_seconds = 1, hs_page_size = 1,
        hs_retry_max_attempts = 1, hs_retry_base_delay_milliseconds = 1, hs_retry_max_delay_milliseconds = 1,
        hs_allow_insecure_http = False\<rparr>,
     cf_library_dir = ''/l'', cf_state_file = ''/s'', cf_wallpaper_command = [], cf_wallpaper_timeout = 1,
     cf_max_file_size_bytes = 1024\<rparr>"

definition sample_answer :: folder_handshake where
  "sample_answer = \<lparr>fh_schema_version = PROTOCOL_VERSION, fh_folder_id = sample_id (CHR ''f''), fh_name = ''Phone'',
     fh_role = ''receiver'', fh_state = ''disconnected'', fh_verification = None, fh_max_file_size = 1024\<rparr>"

definition sample_json :: wire_json where
  "sample_json = \<lparr>wj_create = (\<lambda>x. []), wj_claim = (\<lambda>x. []), wj_confirm = (\<lambda>x. []), wj_update = (\<lambda>x. []),
     wj_receipt = (\<lambda>x. []), wj_created = (\<lambda>b. None), wj_handshake = (\<lambda>b. Some sample_answer),
     wj_invitation = (\<lambda>b. None), wj_exit = (\<lambda>b. None), wj_index = (\<lambda>b. None), wj_state = (\<lambda>b. None),
     wj_inventory = (\<lambda>b. None), wj_acknowledged = (\<lambda>b. None)\<rparr>"

definition sample_desktop :: "unit desktop_api" where
  "sample_desktop = \<lparr>da_out = sample_outside\<lparr>out_send := (\<lambda>rq w. (Inr \<lparr>hr_status = 200, hr_headers = [], hr_body = Some ''h''\<rparr>, w))\<rparr>,
     da_json = sample_json,
     da_environment = \<lparr>ev_cwd = Some ''/'', ev_home = Some ''/h'', ev_data_home = None, ev_config_home = None\<rparr>,
     da_var = (\<lambda>v. None), da_uuid = (\<lambda>w. (sample_id (CHR ''d''), w)), da_permit = (\<lambda>w. (True, w)),
     da_write = (\<lambda>w. (Written, w)), da_length = (\<lambda>r. 9), da_empty_state = ''s'', da_canon = (\<lambda>fs p. Some p)\<rparr>"

definition sample_configs :: "connection_state \<Rightarrow> parts \<Rightarrow> config_file" where
  "sample_configs state = (\<lambda>p. NoConfig)(path_components ''/c/a'' := PlainConfig (sample_scoped\<lparr>cf_connection_state := state\<rparr>))"

definition sample_desk :: "http_request list \<Rightarrow> connection_state \<Rightarrow> registry \<Rightarrow> (unit \<times> http_request list) desk registry_store" where
  "sample_desk sent state r = \<lparr>rf_world = \<lparr>dk_world = ((), sent), dk_configs = sample_configs state, dk_files = []\<rparr>,
     rf_file = document.Saved r\<rparr>"

abbreviation logged_desktop :: "(unit \<times> http_request list) desktop_api" where
  "logged_desktop \<equiv> desktop_logged sample_desktop"

lemma sample_scoped_valid:
  "config_validate (ext_of logged_desktop) (urls_of logged_desktop) (sample_scoped\<lparr>cf_connection_state := state\<rparr>) = Inr ()"
proof -
  have "\<not> has_control sample_server"
    using ascii_text_header [of sample_server] by (simp add: ascii_text_def sample_server_def sample_id_def)
  then show ?thesis
    by (simp add: config_validate_def validate_http_server_def validate_server_def sample_scoped_def ext_of_def urls_of_def desktop_logged_def
      sample_desktop_def sample_outside_def logged_def sample_url_def ascii_defs is_absolute_def validate_wallpaper_command_def
      MAX_HTTP_PAGE_SIZE_def MAX_HTTP_RETRY_ATTEMPTS_def MAX_HTTP_RETRY_DELAY_MILLISECONDS_def MAX_WALLPAPER_TIMEOUT_SECONDS_def
      sample_server_def sample_id_def)
qed

lemma sample_is_scoped: "scoped logged_desktop (sample_scoped\<lparr>cf_connection_state := state\<rparr>)"
  by (simp add: scoped_def sample_scoped_def urls_of_def desktop_logged_def sample_desktop_def sample_outside_def logged_def
      sample_url_def sample_server_def)

section \<open>The run\<close>

lemma sample_calls [simp]:
  "asked (da_permit logged_desktop) d = (True, d)" "asked (da_write logged_desktop) d = (Written, d)"
  "da_length logged_desktop r = 9" "da_var logged_desktop v = None"
proof -
  have u: "da_permit logged_desktop w = (True, w)" "da_write logged_desktop w = (Written, w)" for w
    by (cases w; simp add: desktop_logged_def sample_desktop_def unlogged_def)+
  show "asked (da_permit logged_desktop) d = (True, d)" "asked (da_write logged_desktop) d = (Written, d)"
    by (simp_all add: asked_def u)
  show "da_length logged_desktop r = 9" "da_var logged_desktop v = None"
    by (simp_all add: desktop_logged_def sample_desktop_def)
qed

lemma sample_updates:
  assumes "f r w = (Inr (x, r'), d)" and "valid_registry r" and "valid_registry r'"
  shows "registry_update (registry_api_of logged_desktop) f \<lparr>rf_world = w, rf_file = document.Saved r\<rparr>
     = (Inr x, \<lparr>rf_world = d, rf_file = document.Saved r'\<rparr>)"
proof -
  have v: "validate_registry r = Inr ()" "validate_registry r' = Inr ()" using assms(2,3) by simp_all
  show ?thesis
    using assms(1) v
    by (simp add: registry_update_def store_access_def registry_load_unlocked_def registry_save_unlocked_def with_world_def
      in_world_def registry_api_of_def bindo_def op_defs ensure_def MAX_REGISTRY_SIZE_BYTES_def del: validate_registry_ok)
qed

lemma sample_loads: "dk_configs d (path_components p) = PlainConfig (sample_scoped\<lparr>cf_connection_state := state\<rparr>)
     \<Longrightarrow> load_editable_config logged_desktop p d = (Inr (sample_scoped\<lparr>cf_connection_state := state\<rparr>), d)"
  by (simp add: load_editable_config_def config_parse_def fs_call_def asking_def bindo_def op_defs ensure_def sample_scoped_valid)

lemma sample_saves: "config_save logged_desktop (sample_scoped\<lparr>cf_connection_state := state\<rparr>) p True d
     = (Inr (), set_config p (PlainConfig (sample_scoped\<lparr>cf_connection_state := state\<rparr>)) d)"
  by (simp add: config_save_def asking_def bindo_def op_defs ensure_def sample_scoped_valid)

lemma sample_off: "registry_set_auto_receive ''a'' False sample_registry = (Inr (), sample_registry)"
  by (simp add: registry_set_auto_receive_def edit_bridge_def sample_registry_def sample_registration_def)

lemma sample_find: "find_bridge ''a'' sample_registry = Inr (sample_registration (CHR ''a''))"
  by (simp add: find_bridge_def sample_registry_def sample_registration_def)

lemma sample_path_a: "rg_config_path (sample_registration (CHR ''a'')) = ''/c/a''"
  by (simp add: sample_registration_def)

lemma sample_desk_set:
  "set_config ''/c/a'' (PlainConfig (sample_scoped\<lparr>cf_connection_state := b\<rparr>)) (rf_world (sample_desk l a r))
     = rf_world (sample_desk l b r)"
  by (simp add: set_config_def sample_desk_def sample_configs_def)

lemma sample_stop:
  assumes "state \<in> {Connected, DisconnectPending}"
  shows "stop_closure logged_desktop ''a'' sample_registry (rf_world (sample_desk [] state sample_registry))
     = (Inr ((''/c/a'', sample_scoped\<lparr>cf_connection_state := DisconnectPending\<rparr>), sample_registry),
        rf_world (sample_desk [] DisconnectPending sample_registry))"
proof -
  have l: "load_editable_config logged_desktop ''/c/a'' (rf_world (sample_desk [] state sample_registry))
      = (Inr (sample_scoped\<lparr>cf_connection_state := state\<rparr>), rf_world (sample_desk [] state sample_registry))"
    by (rule sample_loads) (simp add: sample_desk_def sample_configs_def)
  show ?thesis
    using sample_is_scoped [of state] assms
    by (auto simp add: stop_closure_def sample_find sample_path_a l bindo_def lifto_def ensure_def Let_def sample_saves sample_desk_set
        closing_def sample_off retn_def)
qed

lemma sample_stopped:
  "stopped_closure logged_desktop ''a'' ''/c/a'' (sample_scoped\<lparr>cf_connection_state := DisconnectPending\<rparr>) sample_registry
       (rf_world (sample_desk l DisconnectPending sample_registry))
     = (Inr ((), sample_registry), rf_world (sample_desk l Disconnected sample_registry))"
proof -
  have l: "load_editable_config logged_desktop ''/c/a'' (rf_world (sample_desk l DisconnectPending sample_registry))
      = (Inr (sample_scoped\<lparr>cf_connection_state := DisconnectPending\<rparr>), rf_world (sample_desk l DisconnectPending sample_registry))"
    by (rule sample_loads) (simp add: sample_desk_def sample_configs_def)
  show ?thesis
    by (simp add: stopped_closure_def sample_find sample_path_a l bindo_def lifto_def ensure_def sample_saves sample_desk_set
        closing_def sample_off retn_def)
qed

lemma sample_confirmation:
  "\<exists>P sent. PairingClient_new (urls_of logged_desktop) sample_server ''t'' False = Inr P
     \<and> client_disconnect (da_out logged_desktop) (da_json logged_desktop) P ((), l) = (Inr sample_answer, ((), l @ [sent]))"
proof -
  have "trim ''Phone'' = ''Phone''" by (simp add: trim_printable printable_char_def)
  moreover have "\<not> has_control ''Phone''" using ascii_text_header [of "''Phone''"] by (simp add: ascii_text_def)
  ultimately have "validate_handshake sample_ext sample_answer = Inr ()"
    by (simp add: validate_handshake_def sample_answer_def uuid_canonical_def sample_ext_def sample_uuid_parse_def sample_id_def ascii_defs)
  moreover have "PairingClient_new (urls_of logged_desktop) sample_server ''t'' False = Inr \<lparr>pc_base = sample_url sample_server, pc_token = ''t''\<rparr>"
    by (simp add: PairingClient_new_def urls_of_def desktop_logged_def sample_desktop_def sample_outside_def logged_def sample_url_def
      sample_server_def sample_id_def suffix_def printable_char_def)
  moreover have "at_folder \<lparr>pc_base = sample_url sample_server, pc_token = ''t''\<rparr> (sample_id (CHR ''f''))"
    by (simp add: at_folder_def sample_url_def sample_server_def)
  ultimately show ?thesis
    by (simp add: client_disconnect_def accepting_def setup_request_def request_limited_def desktop_logged_def sample_desktop_def
      sample_outside_def logged_def sample_json_def pairing_send_def bindo_def op_defs setup_reply_def setup_status_def ensure_def
      accept_disconnect_def) (simp add: sample_answer_def)
qed

lemma sample_disconnection:
  assumes "state \<in> {Connected, DisconnectPending}"
  shows "\<exists>sent. disconnect_folder logged_desktop ''a'' ''t'' (sample_desk [] state sample_registry)
     = (Inr (), sample_desk [sent] Disconnected sample_registry)"
proof -
  obtain P sent where P: "PairingClient_new (urls_of logged_desktop) sample_server ''t'' False = Inr P"
    "client_disconnect (da_out logged_desktop) (da_json logged_desktop) P ((), []) = (Inr sample_answer, ((), [sent]))"
    using sample_confirmation [of "[]"] by auto
  have d: "sample_desk l a r = \<lparr>rf_world = rf_world (sample_desk l a r), rf_file = document.Saved r\<rparr>" for l a r
    by (simp add: sample_desk_def)
  have 1: "registry_update (registry_api_of logged_desktop) (stop_closure logged_desktop ''a'') (sample_desk [] state sample_registry)
      = (Inr (''/c/a'', sample_scoped\<lparr>cf_connection_state := DisconnectPending\<rparr>), sample_desk [] DisconnectPending sample_registry)"
    using sample_updates [where f = "stop_closure logged_desktop ''a''", OF sample_stop [OF assms] sample_registry_valid sample_registry_valid] d by metis
  have 2: "registry_update (registry_api_of logged_desktop)
      (stopped_closure logged_desktop ''a'' ''/c/a'' (sample_scoped\<lparr>cf_connection_state := DisconnectPending\<rparr>))
      (sample_desk [sent] DisconnectPending sample_registry) = (Inr (), sample_desk [sent] Disconnected sample_registry)"
    using sample_updates [where f = "stopped_closure logged_desktop ''a'' ''/c/a'' (sample_scoped\<lparr>cf_connection_state := DisconnectPending\<rparr>)",
      OF sample_stopped sample_registry_valid sample_registry_valid] d by metis
  have n: "in_world (on_net (client_disconnect (da_out logged_desktop) (da_json logged_desktop) P)) (sample_desk [] DisconnectPending sample_registry)
      = (Inr sample_answer, sample_desk [sent] DisconnectPending sample_registry)"
    by (simp add: in_world_def on_net_def sample_desk_def P(2))
  have t: "session_token logged_desktop h ''t'' = Inr ''t''" for h
  proof -
    have "trim ''t'' = ''t''" by (simp add: trim_printable printable_char_def)
    then show ?thesis by (simp add: session_token_def)
  qed
  obtain h where h: "cf_server sample_scoped = HttpServer h" "hs_base_url h = sample_server" "\<not> hs_allow_insecure_http h"
    by (simp add: sample_scoped_def)
  have "disconnect_folder logged_desktop ''a'' ''t'' (sample_desk [] state sample_registry)
      = (Inr (), sample_desk [sent] Disconnected sample_registry)"
    using h P(1) by (simp add: disconnect_folder_def bindo_def 1 send_disconnect_def t lifto_def n 2)
  then show ?thesis by blast
qed

section \<open>The witnesses\<close>

definition sample_paths :: desktop_paths where
  "sample_paths = \<lparr>dp_config_dir = ''/c'', dp_data_dir = ''/d'', dp_bootstrap = None\<rparr>"

lemma sample_step:
  "state \<in> {Connected, DisconnectPending}
     \<Longrightarrow> \<exists>sent. desk_step logged_desktop sample_paths (sample_desk [] state sample_registry) (sample_desk [sent] Disconnected sample_registry)"
  using sample_disconnection desk_step.disconnects by metis

lemma sample_config_at: "dk_configs (rf_world (sample_desk l state r)) (path_components ''/c/a'') = PlainConfig (sample_scoped\<lparr>cf_connection_state := state\<rparr>)"
  by (simp add: sample_desk_def sample_configs_def)


theorem states_confirmed_witness:
  "\<exists>P w w' got. PairingClient_new (urls_of logged_desktop) sample_server ''t'' False = Inr P
     \<and> confirmed logged_desktop (sample_scoped\<lparr>cf_connection_state := Disconnected\<rparr>)
     \<and> client_disconnect (da_out logged_desktop) (da_json logged_desktop) P w = (Inr got, w')"
proof -
  obtain sent where "desk_step logged_desktop sample_paths (sample_desk [] Connected sample_registry) (sample_desk [sent] Disconnected sample_registry)"
    using sample_step [of Connected] by blast
  from states_confirmed [OF this sample_config_at] sample_confirmation [of "[]"] show ?thesis
    by (auto simp: sample_config_at)
qed

theorem stopped_for_good_witness:
  "\<exists>sent c. desk_step logged_desktop sample_paths (sample_desk [] DisconnectPending sample_registry) (sample_desk [sent] Disconnected sample_registry)
     \<and> dk_configs (rf_world (sample_desk [sent] Disconnected sample_registry)) (path_components ''/c/a'') = PlainConfig c
     \<and> fst (sync_registered logged_desktop (\<lambda>_ _ w. (Inr (), w)) (\<lambda>_ _ w. (Inr (), w)) ''a'' ''/c/a'' None
          (sample_desk [sent] Disconnected sample_registry)) \<noteq> Inr ()"
proof -
  let ?q = "path_components ''/c/a''"
  obtain sent where s: "desk_step logged_desktop sample_paths (sample_desk [] DisconnectPending sample_registry) (sample_desk [sent] Disconnected sample_registry)"
    using sample_step [of DisconnectPending] by blast
  then have "(\<lambda>s t. desk_step logged_desktop sample_paths s t \<and> dk_configs (rf_world t) ?q \<noteq> NoConfig)\<^sup>*\<^sup>*
      (sample_desk [] DisconnectPending sample_registry) (sample_desk [sent] Disconnected sample_registry)"
    by (intro r_into_rtranclp) (simp add: sample_config_at)
  from stopped_for_good [OF this, of DisconnectPending] have
    "\<exists>c. dk_configs (rf_world (sample_desk [sent] Disconnected sample_registry)) ?q = PlainConfig c"
    "\<exists>e u. \<forall>directory files token. sync_registered logged_desktop directory files ''a'' ''/c/a'' token
       (sample_desk [sent] Disconnected sample_registry) = (Inl e :: unit res, u)"
    by (auto simp: sample_config_at)
  with s show ?thesis by fastforce
qed

theorem stopped_before_request_witness:
  "\<exists>sent. requests (rf_world (sample_desk [sent] Disconnected sample_registry)) \<noteq> requests (rf_world (sample_desk [] Connected sample_registry))
     \<and> stopped_first ''a'' (sample_desk [] Connected sample_registry) (sample_desk [sent] Disconnected sample_registry)
     \<and> disconnect_folder logged_desktop ''a'' ''t'' (sample_desk [] Connected sample_registry)
         = (Inr (), sample_desk [sent] Disconnected sample_registry)"
proof -
  obtain sent where "disconnect_folder logged_desktop ''a'' ''t'' (sample_desk [] Connected sample_registry)
      = (Inr (), sample_desk [sent] Disconnected sample_registry)" using sample_disconnection [of Connected] by blast
  with stopped_before_request [of sample_desktop "''a''" "''t''" "sample_desk [] Connected sample_registry" "Inr ()"
      "sample_desk [sent] Disconnected sample_registry"]
  show ?thesis by (auto simp: requests_def sample_desk_def)
qed

end
