(* ===== verification/CleanupRun.thy ===== *)
theory CleanupRun
  imports Cleanup LifecycleRun
begin

text \<open>A run of the desktop: a Folder that is left, with its state taken away and its library kept.\<close>

section \<open>The desktop\<close>

definition exit_id :: string where
  "exit_id = sample_id (CHR ''d'')"

definition exit_state_file :: string where
  "exit_state_file = ''/d/'' @ exit_id @ ''/state.json''"

definition exit_answer :: folder_exit_status where
  "exit_answer = \<lparr>fx_schema_version = PROTOCOL_VERSION, fx_folder_id = sample_id (CHR ''f''), fx_role = ''receiver'',
     fx_requested = True, fx_server_cleaned = True, fx_sender_cleaned = False, fx_receiver_cleaned = True\<rparr>"

definition exit_desktop :: "unit desktop_api" where
  "exit_desktop = sample_desktop\<lparr>da_json := sample_json\<lparr>wj_exit := (\<lambda>b. Some exit_answer)\<rparr>,
     da_canon := (\<lambda>fs p. if map_of fs p \<noteq> None then Some p else None)\<rparr>"

definition exit_config :: "connection_state \<Rightarrow> config" where
  "exit_config state = sample_scoped\<lparr>cf_connection_state := state, cf_state_file := exit_state_file\<rparr>"

definition exit_path :: string where
  "exit_path = ''/c/'' @ exit_id @ ''.toml''"

definition exit_registry :: registry where
  "exit_registry = \<lparr>rs_schema_version = BRIDGE_REGISTRY_SCHEMA_VERSION, rs_selected = None,
     rs_bridges = [\<lparr>rg_kind = General, rg_id = exit_id, rg_name = ''Art'', rg_config_path = exit_path, rg_auto_receive = False\<rparr>]\<rparr>"

definition exit_files :: "(parts \<times> local_kind) list" where
  "exit_files =
     [([RootDir], LDir), ([RootDir, Normal ''c''], LDir), ([RootDir, Normal ''d''], LDir), ([RootDir, Normal ''l''], LDir),
      ([RootDir, Normal ''l'', Normal ''a.png''], LFile ''png''), ([RootDir, Normal ''d'', Normal exit_id], LDir),
      ([RootDir, Normal ''d'', Normal exit_id, Normal ''state.json''], LFile ''s'')]"

definition exit_desk :: "connection_state \<Rightarrow> (parts \<times> local_kind) list \<Rightarrow> unit desk" where
  "exit_desk state files = \<lparr>dk_world = (), dk_configs = (\<lambda>p. NoConfig)(path_components exit_path := PlainConfig (exit_config state)), dk_files = files\<rparr>"

lemma exit_components:
  "path_components exit_path = [RootDir, Normal ''c'', Normal (exit_id @ ''.toml'')]"
  "path_components (''/d/'' @ exit_id @ ''/state.json'') = [RootDir, Normal ''d'', Normal exit_id, Normal ''state.json'']"
  "path_components (path_join ''/d'' exit_id) = [RootDir, Normal ''d'', Normal exit_id]"
  by (simp_all add: exit_path_def exit_id_def sample_id_def path_components_def normal_components_def is_absolute_def path_join_def suffix_def)

lemma exit_calls [simp]: "fs_call exit_desktop d = (Inr (), d)" "asking (da_write exit_desktop) d = (Inr Written, d)"
  "da_canon exit_desktop fs p = (if map_of fs p \<noteq> None then Some p else None)"
proof -
  have p: "da_permit exit_desktop w = (True, w)" "da_write exit_desktop w = (Written, w)" for w
    by (simp_all add: exit_desktop_def sample_desktop_def)
  show "fs_call exit_desktop d = (Inr (), d)" "asking (da_write exit_desktop) d = (Inr Written, d)"
    by (simp_all add: fs_call_def asking_def asked_def p bindo_def lifto_def ensure_def)
  show "da_canon exit_desktop fs p = (if map_of fs p \<noteq> None then Some p else None)"
    by (simp add: exit_desktop_def)
qed

lemma exit_makes:
  assumes "list_all (\<lambda>q. q = [] \<or> map_of files q = Some LDir) (prefixes (butlast (path_components p)))"
  shows "create_parent exit_desktop p (exit_desk state files) = (Inr (), exit_desk state files)"
proof -
  let ?d = "exit_desk state files"
  have 1: "create_dir exit_desktop q ?d = (Inr (), ?d)" if "map_of files q = Some LDir" for q
    using that by (simp add: create_dir_def bindo_def readso_def lifto_def ensure_def modifyo_def exit_desk_def)
  have "list_all (\<lambda>q. q = [] \<or> map_of files q = Some LDir) qs
      \<Longrightarrow> for_each (create_dir exit_desktop) (List.filter (\<lambda>q. q \<noteq> []) qs) ?d = (Inr (), ?d)" for qs
    by (induction qs) (auto simp: bindo_def retn_def 1)
  with assms show ?thesis by (simp add: create_parent_def create_dir_all_def)
qed

lemma update_appends: "map_of xs k = None \<Longrightarrow> AList.update k v xs = xs @ [(k, v)]"
  by (induction xs) (auto split: if_splits)

lemma exit_puts: "map_of files (path_components p) = None
     \<Longrightarrow> put_file p b (exit_desk state files) = exit_desk state (files @ [(path_components p, LFile b)])"
  by (simp add: put_file_def update_appends exit_desk_def)

lemma exit_locks:
  assumes "list_all (\<lambda>q. q = [] \<or> map_of files q = Some LDir) (prefixes (butlast (path_components (p @ ''.lock''))))"
    and "map_of files (path_components (p @ ''.lock'')) = None"
  shows "lock_exclusive exit_desktop p (exit_desk state files)
     = (Inr (), exit_desk state (files @ [(path_components (p @ ''.lock''), LFile [])]))"
proof -
  have "dk_files (exit_desk state files) = files" by (simp add: exit_desk_def)
  with assms(2) exit_puts [OF assms(2), of "[]" state] show ?thesis
    by (simp add: lock_exclusive_def exit_makes [OF assms(1)] bindo_def readso_def modifyo_def)
qed

lemma exit_writes:
  assumes "list_all (\<lambda>q. q = [] \<or> map_of files q = Some LDir) (prefixes (butlast (path_components p)))"
    and "map_of files (path_components p) = None"
  shows "write_state_file exit_desktop p b (exit_desk state files)
     = (Inr (), exit_desk state (files @ [(path_components p, LFile b)]))"
  using exit_puts [OF assms(2), of b state]
  by (simp add: write_state_file_def exit_makes [OF assms(1)] bindo_def modifyo_def)

lemma exit_removes:
  "map_of files p = None \<Longrightarrow> remove_owned_tree (Suc n) exit_desktop p (exit_desk state files) = (Inr (), exit_desk state files)"
  "map_of files p = Some (LFile b) \<Longrightarrow> file_name p = Some name \<Longrightarrow> valid_utf8 name \<Longrightarrow> \<not> kept_name name
     \<Longrightarrow> remove_owned_tree (Suc n) exit_desktop p (exit_desk state files) = (Inr (), exit_desk state (AList.delete p files))"
  by (simp_all add: bindo_def readso_def retn_def exit_desk_def of_option_def lifto_def ensure_def drop_file_def modifyo_def)

lemma exit_names:
  "path_components exit_state_file = [RootDir, Normal ''d'', Normal exit_id, Normal ''state.json'']"
  "path_components (exit_state_file @ ''.lock'') = [RootDir, Normal ''d'', Normal exit_id, Normal ''state.json.lock'']"
  "path_components (exit_state_file @ ''.directory'') = [RootDir, Normal ''d'', Normal exit_id, Normal ''state.json.directory'']"
  "path_components (with_extension exit_state_file ''json.retired'') = [RootDir, Normal ''d'', Normal exit_id, Normal ''state.json.retired'']"
  "path_components (with_extension exit_path ''operation'' @ ''.lock'') = [RootDir, Normal ''c'', Normal (exit_id @ ''.operation.lock'')]"
  "path_components (path_join (path_join ''/d'' exit_id) ''state.json'') = [RootDir, Normal ''d'', Normal exit_id, Normal ''state.json'']"
  "path_components (path_join ''/c'' (exit_id @ ''.toml'')) = [RootDir, Normal ''c'', Normal (exit_id @ ''.toml'')]"
  "path_components ''/l'' = [RootDir, Normal ''l'']"
  by (simp_all add: exit_state_file_def exit_path_def exit_id_def sample_id_def path_components_def normal_components_def
    is_absolute_def with_extension_def Let_def rsplit_once_def path_join_def suffix_def)

lemma exit_fields:
  "cf_state_file (exit_config state) = exit_state_file" "directory_state_dir (exit_config state) = exit_state_file @ ''.directory''"
  "cf_library_dir (exit_config state) = ''/l''" "dp_config_dir sample_paths = ''/c''" "dp_data_dir sample_paths = ''/d''"
  by (simp_all add: exit_config_def directory_state_dir_def sample_scoped_def sample_paths_def)

lemma exit_identity: "uuid_canonical (ext_of exit_desktop) exit_id"
  by (simp add: uuid_canonical_def ext_of_def exit_desktop_def sample_desktop_def sample_outside_def sample_ext_def
      sample_uuid_parse_def exit_id_def sample_id_def ascii_defs)

definition locked_files :: "(parts \<times> local_kind) list" where
  "locked_files = exit_files @ [([RootDir, Normal ''c'', Normal (exit_id @ ''.operation.lock'')], LFile [])]"

definition left_files :: "(parts \<times> local_kind) list" where
  "left_files = AList.delete (path_components exit_state_file)
     (locked_files @ [(path_components (exit_state_file @ ''.lock''), LFile []),
        (path_components (with_extension exit_state_file ''json.retired''), LFile retired_marker)])"

lemma exit_cleans:
  "clean_local exit_desktop sample_paths exit_id exit_path (exit_config ExitPending) (exit_desk state locked_files)
     = (Inr (), exit_desk state left_files)"
proof -
  have f: "map_of locked_files [RootDir] = Some LDir" "map_of locked_files [RootDir, Normal ''d''] = Some LDir"
    "map_of locked_files [RootDir, Normal ''d'', Normal exit_id] = Some LDir" "map_of locked_files [RootDir, Normal ''l''] = Some LDir"
    "map_of locked_files [RootDir, Normal ''d'', Normal exit_id, Normal ''state.json''] = Some (LFile ''s'')"
    "map_of locked_files [RootDir, Normal ''d'', Normal exit_id, Normal ''state.json.lock''] = None"
    "map_of locked_files [RootDir, Normal ''d'', Normal exit_id, Normal ''state.json.directory''] = None"
    "map_of locked_files [RootDir, Normal ''d'', Normal exit_id, Normal ''state.json.retired''] = None"
    by (simp_all add: locked_files_def exit_files_def)
  let ?l = "(path_components (exit_state_file @ ''.lock''), LFile [])"
  let ?m = "(path_components (with_extension exit_state_file ''json.retired''), LFile retired_marker)"
  have c: "canonicalize exit_desktop q (exit_desk state locked_files) = (Inr (path_components q), exit_desk state locked_files)"
    if "map_of locked_files (path_components q) = Some k" for q k
    using that by (simp add: canonicalize_def bindo_def readso_def lifto_def of_option_def exit_desk_def)
  have 1: "lock_exclusive exit_desktop exit_state_file (exit_desk state locked_files) = (Inr (), exit_desk state (locked_files @ [?l]))"
    by (rule exit_locks) (simp_all add: exit_names f)
  have 2: "write_state_file exit_desktop (with_extension exit_state_file ''json.retired'') retired_marker (exit_desk state (locked_files @ [?l]))
      = (Inr (), exit_desk state (locked_files @ [?l, ?m]))"
    using exit_writes [of "locked_files @ [?l]" "with_extension exit_state_file ''json.retired''" retired_marker state]
    by (simp add: exit_names f)
  have 3: "remove_owned_tree 9 exit_desktop (path_components (exit_state_file @ ''.directory'')) (exit_desk state (locked_files @ [?l, ?m]))
      = (Inr (), exit_desk state (locked_files @ [?l, ?m]))"
    using exit_removes(1) [of "locked_files @ [?l, ?m]" "path_components (exit_state_file @ ''.directory'')" 8 state]
    by (simp add: exit_names f map_add_def numeral_eq_Suc del: remove_owned_tree.simps)
  have utf: "valid_utf8 ''state.json''" using ascii_text_header [of "''state.json''"] by (simp add: ascii_text_def)
  have 4: "remove_owned_tree 9 exit_desktop (path_components exit_state_file) (exit_desk state (locked_files @ [?l, ?m]))
      = (Inr (), exit_desk state left_files)"
    using utf exit_removes(2) [of "locked_files @ [?l, ?m]" "path_components exit_state_file" "''s''" "''state.json''" 8 state]
    by (simp add: exit_names f map_add_def file_name_def kept_name_def suffix_def left_files_def numeral_eq_Suc del: remove_owned_tree.simps)
  have 5: "canonicalize exit_desktop (path_join ''/d'' exit_id) (exit_desk state locked_files)
      = (Inr [RootDir, Normal ''d'', Normal exit_id], exit_desk state locked_files)"
    "canonicalize exit_desktop ''/l'' (exit_desk state locked_files) = (Inr [RootDir, Normal ''l''], exit_desk state locked_files)"
    using c [of "path_join ''/d'' exit_id"] c [of "''/l''"] by (simp_all add: exit_components exit_names f)
  have 6: "da_canon exit_desktop (dk_files (exit_desk state (locked_files @ [?l]))) (path_components (exit_state_file @ ''.directory'')) = None"
    by (simp add: exit_desk_def exit_names f map_add_def)
  have n: "path_components (path_join ''/c'' (exit_id @ ''.toml'')) = path_components exit_path"
    "path_components (path_join (path_join ''/d'' exit_id) ''state.json'') = path_components exit_state_file"
    by (simp_all add: exit_names exit_components)
  show ?thesis
    unfolding clean_local_def Let_def exit_fields
    by (simp add: exit_identity n bindo_def lifto_def ensure_def 1 2 3 4 5 6 exit_components(3) path_under_def readso_def retn_def
        del: remove_owned_tree.simps exit_calls)
qed

section \<open>The run\<close>

lemma exit_config_valid: "config_validate (ext_of exit_desktop) (urls_of exit_desktop) (exit_config state) = Inr ()"
proof -
  have e: "ext_of exit_desktop = ext_of logged_desktop" "urls_of exit_desktop = urls_of logged_desktop"
    by (simp_all add: ext_of_def urls_of_def exit_desktop_def desktop_logged_def sample_desktop_def logged_def)
  have a: "is_absolute exit_state_file" "exit_state_file \<noteq> []" by (simp_all add: exit_state_file_def is_absolute_def)
  show ?thesis
    using sample_scoped_valid [of state] a unfolding e
    by (auto simp: config_validate_def exit_config_def sample_scoped_def andthen_Inr)
qed

lemma exit_loads:
  "load_editable_config exit_desktop exit_path (exit_desk state files) = (Inr (exit_config state), exit_desk state files)"
  "load_config_for_read exit_desktop exit_path (exit_desk state files) = (Inr (exit_config state), exit_desk state files)"
  by (simp_all add: load_editable_config_def load_config_for_read_def config_parse_def bindo_def readso_def lifto_def retn_def
      exit_desk_def exit_config_valid exit_calls)

lemma exit_saves: "config_save exit_desktop (exit_config b) exit_path True (exit_desk a files) = (Inr (), exit_desk b files)"
  by (simp add: config_save_def bindo_def readso_def lifto_def ensure_def modifyo_def exit_config_valid set_config_def exit_desk_def)

lemma exit_registry_valid: "valid_registry exit_registry"
proof -
  have name: "is_ok (validate_bridge_name ''Art'')"
    using sample_registration_valid(1) by (simp add: valid_registration_def sample_registration_def)
  have "validate_bridge_id exit_id = Inr ()"
    by (simp add: validate_bridge_id_def exit_id_def sample_id_def ascii_defs ensure_def)
  moreover have "validate_config_path exit_path = Inr ()"
    by (simp add: validate_config_path_iff exit_path_def exit_id_def sample_id_def is_absolute_def)
  ultimately show ?thesis
    using name by (simp add: valid_registry_iff exit_registry_def MAX_BRIDGES_def valid_registration_def)
qed

definition exit_store :: "connection_state \<Rightarrow> (parts \<times> local_kind) list \<Rightarrow> unit desk registry_store" where
  "exit_store state files = \<lparr>rf_world = exit_desk state files, rf_file = document.Saved exit_registry\<rparr>"

lemma exit_access: "store_access (registry_api_of exit_desktop) s = (Inr (), s)"
proof -
  have "asked (da_permit exit_desktop) d = (True, d)" for d
    by (simp add: asked_def exit_desktop_def sample_desktop_def)
  then show ?thesis
    by (simp add: store_access_def with_world_def registry_api_of_def bindo_def lifto_def ensure_def)
qed

lemma exit_reads: "registry_load_unlocked (registry_api_of exit_desktop) (exit_store state files) = (Inr exit_registry, exit_store state files)"
proof -
  have "validate_registry exit_registry = Inr ()" using exit_registry_valid by simp
  then show ?thesis
    by (simp add: registry_load_unlocked_def exit_access bindo_def readso_def lifto_def retn_def exit_store_def del: validate_registry_ok)
qed

lemma exit_starts:
  "registry_update (registry_api_of exit_desktop) (exit_closure exit_desktop exit_id) (exit_store Connected files)
     = (Inr (exit_path, exit_config ExitPending), exit_store ExitPending files)"
proof -
  have f: "find_bridge exit_id exit_registry = Inr (hd (rs_bridges exit_registry))" "rg_config_path (hd (rs_bridges exit_registry)) = exit_path"
    by (simp_all add: find_bridge_def exit_registry_def of_option_def)
  have c: "cf_connection_state (exit_config Connected) = Connected" "(exit_config Connected)\<lparr>cf_connection_state := ExitPending\<rparr> = exit_config ExitPending"
    by (simp_all add: exit_config_def)
  have s: "scoped exit_desktop (exit_config Connected)"
    by (simp add: scoped_def exit_config_def sample_scoped_def urls_of_def exit_desktop_def sample_desktop_def sample_outside_def
        sample_url_def sample_server_def)
  have o: "registry_set_auto_receive exit_id False exit_registry = (Inr (), exit_registry)"
    by (simp add: registry_set_auto_receive_def edit_bridge_def exit_registry_def)
  have x: "exit_closure exit_desktop exit_id exit_registry (exit_desk Connected files)
      = (Inr ((exit_path, exit_config ExitPending), exit_registry), exit_desk ExitPending files)"
    by (simp add: exit_closure_def Let_def f bindo_def lifto_def ensure_def exit_loads c s exit_saves closing_def o retn_def)
  have v: "validate_registry exit_registry = Inr ()" using exit_registry_valid by simp
  have w: "with_world (sf_write (registry_api_of exit_desktop)) t = (Inr Written, t)" for t
    by (simp add: with_world_def registry_api_of_def asked_def exit_desktop_def sample_desktop_def)
  have l: "sf_length (registry_api_of exit_desktop) r = 9" for r by (simp add: registry_api_of_def exit_desktop_def sample_desktop_def)
  show ?thesis
    by (simp add: registry_update_def registry_save_unlocked_def exit_access exit_reads bindo_def in_world_def x lifto_def v w l
        ensure_def MAX_REGISTRY_SIZE_BYTES_def modifyo_def retn_def del: validate_registry_ok)
      (simp add: exit_store_def x v w bindo_def lifto_def retn_def modifyo_def del: validate_registry_ok)
qed

lemma exit_registered:
  assumes "map_of files [RootDir, Normal ''l''] \<noteq> None"
    and "map_of files [RootDir, Normal ''d'', Normal exit_id, Normal ''state.json''] \<noteq> None"
  shows "load_registered_config exit_desktop exit_id exit_path (exit_store state files) = (Inr (exit_config state), exit_store state files)"
proof -
  define canon where "canon = da_canon exit_desktop files"
  have known: "canon [RootDir, Normal ''l''] = Some [RootDir, Normal ''l'']"
    "canon [RootDir, Normal ''d'', Normal exit_id, Normal ''state.json''] = Some [RootDir, Normal ''d'', Normal exit_id, Normal ''state.json'']"
    using assms by (simp_all add: canon_def)
  have f: "find_bridge exit_id exit_registry = Inr (hd (rs_bridges exit_registry))" "rg_config_path (hd (rs_bridges exit_registry)) = exit_path"
    by (simp_all add: find_bridge_def exit_registry_def of_option_def)
  have a: "normalize_absolute_path ''/l'' = Inr [RootDir, Normal ''l'']"
    by (simp add: normalize_absolute_path_def exit_names is_absolute_def ensure_def)
  have "is_absolute exit_state_file" by (simp add: exit_state_file_def is_absolute_def)
  then have b: "normalize_absolute_path exit_state_file = Inr [RootDir, Normal ''d'', Normal exit_id, Normal ''state.json'']"
    by (simp add: normalize_absolute_path_def exit_names ensure_def)
  have "br_library_dir (resources_of U canon (exit_config state)) = [RootDir, Normal ''l'']"
    "br_state_file (resources_of U canon (exit_config state)) = [RootDir, Normal ''d'', Normal exit_id, Normal ''state.json'']"
    "br_filesystem_inbox (resources_of U canon (exit_config state)) = None" "br_directory_state (resources_of U canon (exit_config state)) = None" for U
    using known by (simp_all add: resources_of_def comparable_path_def exit_fields a b) (simp_all add: exit_config_def sample_scoped_def)
  then have p: "self_resource_problem (resources_of U canon (exit_config state)) = None" for U
    by (simp add: self_resource_problem_def is_some_and_def path_under_def)
  have u: "ensure_resources_unique U canon read exit_registry (resources_of U canon (exit_config state)) (Some exit_id) d = (Inr (), d)" for U read d
    by (simp add: ensure_resources_unique_def p exit_registry_def retn_def)
  have l: "registry_load (registry_api_of exit_desktop) (exit_store state files) = (Inr exit_registry, exit_store state files)"
    by (simp add: registry_load_def bindo_def exit_access exit_reads)
  have c: "da_canon exit_desktop (dk_files (exit_desk state files)) = canon" by (simp add: exit_desk_def canon_def del: exit_calls)
  show ?thesis
    by (simp add: load_registered_config_def bindo_def l f lifto_def ensure_def in_world_def)
      (simp add: exit_store_def exit_loads readso_def c u retn_def bindo_def del: exit_calls)
qed

lemma exit_network:
  "\<exists>P. PairingClient_new (urls_of exit_desktop) sample_server ''t'' False = Inr P
     \<and> client_exit_status (da_out exit_desktop) (da_json exit_desktop) P () = (Inr exit_answer, ())
     \<and> client_clean_exit (da_out exit_desktop) (da_json exit_desktop) P () = (Inr exit_answer, ())
     \<and> client_acknowledge_exit (da_out exit_desktop) (da_json exit_desktop) P () = (Inr exit_answer, ())"
proof -
  let ?P = "\<lparr>pc_base = sample_url sample_server, pc_token = ''t''\<rparr>"
  have u: "uuid_canonical sample_ext (sample_id (CHR ''f''))"
    by (simp add: uuid_canonical_def sample_ext_def sample_uuid_parse_def sample_id_def ascii_defs)
  have "at_folder ?P (sample_id (CHR ''f''))" by (simp add: at_folder_def sample_url_def sample_server_def)
  with u have ok: "accept_exit sample_ext ?P verb exit_answer = Inr ()" for verb
    by (simp add: accept_exit_def ensure_def exit_answer_def)
  have o: "da_out exit_desktop = da_out sample_desktop" "da_json exit_desktop = sample_json\<lparr>wj_exit := (\<lambda>b. Some exit_answer)\<rparr>"
    by (simp_all add: exit_desktop_def)
  have r: "exit_request (da_out exit_desktop) (da_json exit_desktop) ?P verb place () = (Inr exit_answer, ())" for verb place
    unfolding o
    by (simp add: exit_request_def accepting_def setup_request_def request_limited_def sample_desktop_def sample_outside_def
      pairing_send_def bindo_def op_defs setup_reply_def setup_status_def ensure_def ok)
  have n: "PairingClient_new (urls_of exit_desktop) sample_server ''t'' False = Inr ?P"
    by (simp add: PairingClient_new_def urls_of_def o sample_desktop_def sample_outside_def sample_url_def
      sample_server_def sample_id_def suffix_def printable_char_def)
  show ?thesis
    by (rule exI [of _ ?P]) (simp add: n client_exit_status_def client_clean_exit_def client_acknowledge_exit_def r)
qed

lemma exit_run:
  "exit_folder exit_desktop sample_paths exit_id ''t'' (exit_store Connected exit_files)
     = (Inr exit_answer, exit_store ExitLocalCleaned left_files)"
proof -
  obtain P where P: "PairingClient_new (urls_of exit_desktop) sample_server ''t'' False = Inr P"
    "client_exit_status (da_out exit_desktop) (da_json exit_desktop) P () = (Inr exit_answer, ())"
    "client_clean_exit (da_out exit_desktop) (da_json exit_desktop) P () = (Inr exit_answer, ())"
    "client_acknowledge_exit (da_out exit_desktop) (da_json exit_desktop) P () = (Inr exit_answer, ())"
    using exit_network by blast
  have net: "in_world (on_net m) (exit_store state files) = (Inr exit_answer, exit_store state files)"
    if "m () = (Inr exit_answer, ())" for m :: "(unit, folder_exit_status) op" and state files
    using that by (simp add: in_world_def on_net_def exit_store_def exit_desk_def)
  have t: "session_token exit_desktop h ''t'' = Inr ''t''" for h
  proof -
    have "trim ''t'' = ''t''" by (simp add: trim_printable printable_char_def)
    then show ?thesis by (simp add: session_token_def)
  qed
  have f: "map_of exit_files [RootDir] = Some LDir" "map_of exit_files [RootDir, Normal ''c''] = Some LDir"
    "map_of exit_files [RootDir, Normal ''c'', Normal (exit_id @ ''.operation.lock'')] = None"
    "map_of locked_files [RootDir, Normal ''l''] = Some LDir"
    "map_of locked_files [RootDir, Normal ''d'', Normal exit_id, Normal ''state.json''] = Some (LFile ''s'')"
    by (simp_all add: locked_files_def exit_files_def)
  have "lock_exclusive exit_desktop (with_extension exit_path ''operation'') (exit_desk state exit_files) = (Inr (), exit_desk state locked_files)" for state
    using exit_locks [of exit_files "with_extension exit_path ''operation''" state] by (simp add: exit_names f locked_files_def)
  then have o: "in_world (operation_lock exit_desktop exit_path) (exit_store state exit_files) = (Inr (), exit_store state locked_files)" for state
    by (simp add: in_world_def operation_lock_def exit_store_def)
  have g: "load_registered_config exit_desktop exit_id exit_path (exit_store state locked_files) = (Inr (exit_config state), exit_store state locked_files)" for state
    by (rule exit_registered) (simp_all add: f)
  have c: "in_world (clean_local exit_desktop sample_paths exit_id exit_path (exit_config ExitPending)) (exit_store state locked_files)
      = (Inr (), exit_store state left_files)" for state
    by (simp add: in_world_def exit_store_def exit_cleans)
  have s: "in_world (config_save exit_desktop (exit_config b) exit_path True) (exit_store a files) = (Inr (), exit_store b files)" for a b files
    by (simp add: in_world_def exit_store_def exit_saves)
  have e: "cf_connection_state (exit_config ExitPending) = ExitPending"
    "(exit_config ExitPending)\<lparr>cf_connection_state := ExitLocalCleaned\<rparr> = exit_config ExitLocalCleaned"
    by (simp_all add: exit_config_def)
  have finish: "finish_exit exit_desktop sample_paths exit_id exit_path (exit_config ExitPending) P (exit_store ExitPending exit_files)
      = (Inr exit_answer, exit_store ExitLocalCleaned left_files)"
    by (simp add: finish_exit_def bindo_def o g lifto_def ensure_def e c s net [of "client_acknowledge_exit (da_out exit_desktop) (da_json exit_desktop) P", OF P(4)] retn_def)
      (simp add: exit_answer_def exit_complete_def)
  obtain h where h: "cf_server (exit_config ExitPending) = HttpServer h" "hs_base_url h = sample_server" "\<not> hs_allow_insecure_http h"
    by (simp add: exit_config_def sample_scoped_def)
  have r: "fx_role exit_answer = ''receiver''" by (simp add: exit_answer_def)
  show ?thesis
    using h P(1)
    by (simp add: exit_folder_def bindo_def exit_starts send_exit_def t lifto_def net [of "client_exit_status (da_out exit_desktop) (da_json exit_desktop) P", OF P(2)] net [of "client_clean_exit (da_out exit_desktop) (da_json exit_desktop) P", OF P(3)] r ensure_def finish)
qed

theorem originals_kept_witness:
  "\<exists>t. exit_folder exit_desktop sample_paths exit_id ''t'' (exit_store Connected exit_files) = (Inr exit_answer, t)
     \<and> map_of (dk_files (rf_world t)) (path_components exit_state_file) = None
     \<and> map_of (dk_files (rf_world t)) [RootDir, Normal ''l'', Normal ''a.png''] = Some (LFile ''png'')
     \<and> path_under (path_components exit_state_file) (path_components (path_join ''/d'' exit_id))
     \<and> (\<forall>q. dk_configs (rf_world t) q \<noteq> dk_configs (rf_world (exit_store Connected exit_files)) q \<longrightarrow>
          (\<exists>r b. registry_read (rf_file (exit_store Connected exit_files)) r \<and> find_bridge exit_id r = Inr b \<and> q = bridge_path b))"
proof -
  let ?s = "exit_store Connected exit_files" and ?t = "exit_store ExitLocalCleaned left_files" and ?q = "path_components exit_state_file"
  have q: "map_of (dk_files (rf_world ?s)) ?q = Some (LFile ''s'')" "map_of (dk_files (rf_world ?t)) ?q = None"
    "map_of (dk_files (rf_world ?t)) [RootDir, Normal ''l'', Normal ''a.png''] = Some (LFile ''png'')"
    by (simp_all add: exit_store_def exit_desk_def exit_files_def left_files_def locked_files_def exit_names delete_conv')
  have k: "dp_data_dir sample_paths = ''/d''" by (simp add: sample_paths_def)
  note o = originals_kept [OF exit_run]
  have "path_under ?q (path_components (path_join (dp_data_dir sample_paths) exit_id))"
    using conjunct1 [OF o] q(1,2) by (metis option.distinct(1))
  moreover have "\<exists>r b. registry_read (rf_file ?s) r \<and> find_bridge exit_id r = Inr b \<and> p = bridge_path b"
    if "dk_configs (rf_world ?t) p \<noteq> dk_configs (rf_world ?s) p" for p
    using conjunct1 [OF conjunct2 [OF o]] that by blast
  ultimately show ?thesis using exit_run q(2,3) unfolding k by blast
qed

end
