(* ===== verification/Spec2Isabelle.thy ===== *)
theory Spec2Isabelle
  imports Upload Paging Resuming Receiving Retaining Sending Registry Agreement FileList Preview CleanupRun
begin

text \<open>
  Verification development for MiRelay (the Rust crate under \<open>src/src\<close>): a relay that carries files
  from a sending device to a receiving one through a server. Senders upload in resumable
  pieces; the server keeps each content once, under its digest, and queues a delivery for the
  receiver; the receiver lists, downloads and acknowledges. Two devices may share a Folder, which
  has credentials, a directory inventory and an exit of its own.

  \<^bold>\<open>Theories and sources.\<close> \<open>Prelude\<close> has results, operations on a state (results with a new state),
  rules for the preservation of predicates, byte strings and integer limits. \<open>Protocol\<close>
  models \<open>protocol.rs\<close> and \<open>model.rs\<close>; \<open>Media\<close> and \<open>Library\<close> model \<open>storage.rs\<close> (text probe, type
  detection, copying, receiving, staging, quarantine); \<open>Directory\<close> models \<open>directory.rs\<close>.
  \<open>ServerState\<close> has the tables, the content directory and the upload files of the server as one
  record. On it, \<open>Store\<close> models \<open>server/store.rs\<close>, \<open>TusStore\<close> models \<open>server/tus_store.rs\<close>,
  \<open>ServerDirectory\<close> the store half of \<open>server/directory.rs\<close>, and \<open>FolderExit\<close> that of
  \<open>server/exit.rs\<close>. \<open>Http\<close>, \<open>Folders\<close>, \<open>Api\<close> and \<open>TusApi\<close> model the handlers of \<open>server/api.rs\<close>,
  \<open>server/folders.rs\<close> and \<open>server/tus_api.rs\<close> with those of directories and exits. \<open>TusClient\<close>
  models \<open>tus_client.rs\<close>. For the receiving device, \<open>Config\<close> models \<open>config.rs\<close>, \<open>Source\<close> the inbox
  of \<open>source.rs\<close>, \<open>HttpSource\<close> models \<open>http_source.rs\<close> with \<open>client.rs\<close>, \<open>Wallpaper\<close> models
  \<open>wallpaper.rs\<close>, \<open>Sync\<close> the state file of \<open>state.rs\<close> and the runs of \<open>sync.rs\<close>, and \<open>Projection\<close> the
  directory of \<open>directory/receiver.rs\<close>. \<open>DirectorySender\<close> models \<open>directory/sender.rs\<close> and the commands
  of \<open>bin/mirelay-directory.rs\<close>; \<open>PairingClient\<close> models \<open>pairing.rs\<close> with \<open>directory/client.rs\<close>, and
  \<open>Registry\<close> the list of Folders of \<open>bridge_registry.rs\<close>. For the desktop, \<open>Resources\<close> models the checks
  of \<open>desktop.rs\<close> that Folders share nothing, \<open>Lifecycle\<close> its operations on Folders with
  \<open>desktop/connection.rs\<close> and \<open>desktop/clean_exit.rs\<close>, and \<open>FileList\<close> models \<open>desktop/files.rs\<close>, with
  the sorting functions in \<open>Comparing\<close>, and \<open>Preview\<close> the previews of \<open>desktop/photos.rs\<close>. Definitions keep the names of the functions they model.

  \<^bold>\<open>How the parts meet.\<close> A handler checks headers and credentials and then makes store calls; the
  store calls lock the library, work on the tables in transactions, and on the content directory
  outside of them. \<open>TusStore\<close> hands a finished upload to \<open>Store\<close>, whose enqueue copies the content
  through \<open>Library\<close>. An exit purges uploads, contents and rows. A transaction that fails restores
  the tables only, as the code's does; files already written stay. A synchronisation takes what its
  source lists, receives each payload into the library of \<open>Library\<close>, saves the record, confirms to
  the source and then runs the wallpaper command; the source is a record of operations, which the
  inbox and the HTTP source provide. The receiver of a directory takes payloads from the same
  sources; it replaces files in place under a journal on disk. The sender of a directory stages every
  change under a version of its own and uploads it with the client of \<open>TusClient\<close>. The pairing client
  talks to the handlers of \<open>Folders\<close>, and gives the sender and the receiver their directory client. An
  operation of the desktop changes a configuration file inside an update of the registry, talks to the
  server with the pairing client, and works on local files; any call of the file system may fail.

  \<^bold>\<open>Interfaces.\<close> \<open>ServerFrame\<close> states what any store operation may do to the server (locale
  \<open>store_frame\<close>), and \<open>ServerSteps\<close> what a kept predicate is (locale \<open>kept\<close>): both are interpreted
  with the invariants and with predicates such as "retired" and "disconnected", so one proof per
  operation serves them all. \<open>ServerSteps\<close> also has the step relation of the server (one step per
  store call, so that requests interleave freely) and the routes as events. \<open>Upload\<close> has the
  interface of a network that only ever sees well-formed requests (locale \<open>cautious_network\<close>), and
  \<open>Receiving\<close> what a synchronisation relies on from its source (locale \<open>bounded_source\<close>), which the
  inbox and the HTTP source provide. \<open>Comparing\<close> has partial sorting (locale \<open>partial_sorting\<close>), which the
  page of the file list relies on.

  \<^bold>\<open>What is shown.\<close> \<open>Content\<close>: the text probe against the definition of UTF-8, receiving, inventories
  as trees, comparison. \<open>Store\<close>: enqueue, replay, acknowledgement, collection and
  reconciliation; \<open>Paging\<close>: the pages of a queue, read while other requests change it, are the
  deliveries up to the snapshot. \<open>TusStore\<close>: the outcomes of an append, repair, discarding, isolation of devices.
  \<open>ServerDirectory\<close>: compare-and-swap of inventories, receipts, the directory state.
  \<open>FolderExit\<close> and \<open>Pairing\<close>: what an exit removes, who may transfer, claims,
  renewals and disconnections; \<open>Resuming\<close>: an exit that failed or was cut off completes when it is
  run again without obstacles. \<open>ServerSteps\<close>: invariants over all interleavings, that
  disconnection and exit are final, and, as a lemma, that every route is made of store calls. \<open>Upload\<close>: agreement of client and server on an upload,
  confinement of the credential, the meaning of a finished upload. \<open>Source\<close> and \<open>HttpSource\<close>: what a
  scan lists, what an acknowledgement changes, how many requests are made. \<open>SyncSafe\<close>: rules for
  the runs of a synchronisation, that a confirmation follows the saved record and the stored
  content, that the wallpaper command runs at most once. \<open>Receiving\<close>: the retry loop ends, a
  delivery whose payload arrives completes. \<open>Wallpaper\<close>: the wait for the command ends.
  \<open>ProjectionSafe\<close> and \<open>Replacing\<close>: the stages of a replacement, and that it is finished or undone
  after any stop; \<open>Retaining\<close>: every file of the directory is still found, under
  some path, with its identity and contents, and a receipt follows the saved ledger.
  \<open>SenderSafe\<close> and \<open>Sending\<close>: versions of the sender are never reused, a send sends everything, and what
  its ledger calls sent was delivered. \<open>Registry\<close>: operations and updates of the registry keep it valid
  and whole. \<open>Agreement\<close>: the pairing client accepts what the server answers, and never repeats a
  request. \<open>Resources\<close>: the places that two Folders name are apart when the checks
  pass, and so are the files they keep beside their state, but for one case that the checks miss, two
  state files that differ in their extension only. \<open>LifecycleSafe\<close>: every operation of
  the desktop refines the abstract life of a Folder, states that tell of the server have its word, and
  a stopped Folder stays stopped and its synchronisation is refused; \<open>Stopping\<close>: nothing is sent before the Folder is stopped on disk;
  \<open>Cleanup\<close>: a clean exit takes nothing but the application's own files, and changes
  in the configurations and the registry only the Folder's own state; \<open>LifecycleRun\<close> and \<open>CleanupRun\<close>
  have runs with these theorems. \<open>FileList\<close>: the index of the history is
  exact and a page is the beginning of the sorted list. \<open>Preview\<close>: the cache keeps to its limit, what is shown was checked
  before it was decoded, and the dimensions in JPEG headers are found. Theorems that are properties
  carry a number C<n> in the text before them.

  \<^bold>\<open>Bounds and recursion.\<close> Sizes are naturals with the limits of \<open>u64\<close> and \<open>i64\<close> written out where
  the code checks or wraps. The file reader is given the length of the file, which is enough as
  every read takes at least a byte; the transfer loop of the client terminates because it insists
  that the server advances the offset, and the retries of the HTTP source because the policy has a
  last attempt. Three loops have fuel: receiving with retries, in \<open>Sync\<close> and in \<open>Projection\<close>, for which
  the number of attempts of the source is enough, and waiting for the wallpaper command, with 20 polls
  a second of its timeout and two more.

  \<^bold>\<open>Parameters.\<close> SHA-256, hexadecimal, UUID parsing, Base64, JSON, URLs, clocks, random values and
  the network are arguments. Hypotheses about them are stated where they are used.

  \<^bold>\<open>Not modelled.\<close> The widgets and the event loop of the desktop application and its appearance, the process start
  and command lines (input and output);
  flushing to disk, file permissions and failures of the device (\<open>Projection\<close> has failures of every
  call); TOML and the texts of error messages. The schema migrations of the server are modelled by the tables they lead to.
\<close>

end
